(* ===== verification/Obw_Prelude.thy ===== *)
theory Obw_Prelude
  imports Main "HOL-Library.Word"
begin

text \<open>
  The prelude of the development: names for the C++ integer types, the 32-bit
  millisecond clock of the firmware with the lemmas that make its wrap-around
  harmless, and small lemmas on lists and bytes that several components share.
  Two collections carry the automation: \<open>wf_intros\<close> holds the preservation
  lemmas of well-formedness invariants, and \<open>io_simps\<close> the definitions of the small
  driver wrappers every component unfolds.
\<close>

unbundle bit_operations_syntax

named_theorems io_simps "unfolding rules for thin driver wrappers"
named_theorems wf_intros "preservation lemmas for well-formedness invariants"

section \<open>Machine integers\<close>

type_synonym u8 = "8 word"
type_synonym u16 = "16 word"
type_synonym u32 = "32 word"
type_synonym bytes = "u8 list"

section \<open>The millisecond clock\<close>

text \<open>
  The firmware reads one clock, microseconds since boot, through two functions:
  \<open>millis()\<close> is that count in milliseconds truncated to 32 bits. The model keeps the
  microsecond count as an unbounded natural number and derives the truncated value.
\<close>

definition millis :: "nat \<Rightarrow> u32" where
  "millis us = word_of_nat (us div 1000)"

definition elapsedMs :: "nat \<Rightarrow> u32 \<Rightarrow> u32" where
  "elapsedMs us since = millis us - since"

lemma unat_diff_of_nat:
  assumes "a \<le> b" and "b - a < 2 ^ 32"
  shows "unat (word_of_nat b - word_of_nat a :: u32) = b - a"
proof -
  have "(word_of_nat b - word_of_nat a :: u32) = word_of_nat (b - a)"
    using assms(1) by simp
  moreover have "unat (word_of_nat (b - a) :: u32) = b - a"
    using assms(2) by (simp add: unat_of_nat)
  ultimately show ?thesis by simp
qed

text \<open>
  The subtraction of two truncated readings is the exact elapsed time as long as less
  than \<open>2 ^ 32\<close> ms have passed, wherever the counter wrapped in between.
\<close>

lemma unat_elapsed:
  assumes "a \<le> b" and "b div 1000 - a div 1000 < 2 ^ 32"
  shows "unat (elapsedMs b (millis a)) = b div 1000 - a div 1000"
  unfolding elapsedMs_def millis_def
  by (rule unat_diff_of_nat) (use assms in \<open>auto intro: div_le_mono\<close>)

lemma elapsed_self [simp]: "elapsedMs t (millis t) = 0"
  by (simp add: elapsedMs_def)

lemma u32_le_unat: "(x::u32) \<le> y \<longleftrightarrow> unat x \<le> unat y"
  by (simp add: word_le_nat_alt)

lemma u32_less_unat: "(x::u32) < y \<longleftrightarrow> unat x < unat y"
  by (simp add: word_less_nat_alt)

lemma unat_u32_max: "unat (- 1 :: u32) = 2 ^ 32 - 1"
  by (simp add: unsigned_minus_1_eq_mask mask_eq_exp_minus_1)

lemma unat_below: "unat (x::u8) < 256" "unat (y::u32) < 2 ^ 32"
  using unsigned_less [of x, where ?'a = nat] unsigned_less [of y, where ?'a = nat] by simp_all

lemma u32_inc: "(x::u32) < - 1 \<Longrightarrow> unat (x + 1) = Suc (unat x)"
  by (simp add: u32_less_unat unat_u32_max unat_word_ariths)

text \<open>Signed comparison of a wrapping deadline: \<open>static_cast<int32_t>(now - deadline) >= 0\<close>.\<close>

definition deadlineReached :: "u32 \<Rightarrow> u32 \<Rightarrow> bool" where
  "deadlineReached now deadline \<longleftrightarrow> 0 \<le> sint (now - deadline)"

lemma sint_nonneg_iff_u32: "0 \<le> sint (x::u32) \<longleftrightarrow> unat x < 2 ^ 31"
proof -
  have b: "uint x < 2 ^ 32" "0 \<le> uint x"
    using uint_lt2p [of x] by simp_all
  have u: "unat x < 2 ^ 31 \<longleftrightarrow> uint x < 2 ^ 31"
  proof -
    have "unat x < 2 ^ 31 \<longleftrightarrow> int (unat x) < int (2 ^ 31)"
      by (rule of_nat_less_iff [symmetric])
    also have "int (unat x) = uint x" by simp
    also have "int (2 ^ 31) = 2 ^ 31" by simp
    finally show ?thesis .
  qed
  have s: "sint x = (uint x + 2 ^ 31) mod 2 ^ 32 - 2 ^ 31"
    using int_word_sint [of "uint x", where 'a = 32] by simp
  show ?thesis
  proof (cases "uint x < 2 ^ 31")
    case True
    then have "(uint x + 2 ^ 31) mod 2 ^ 32 = uint x + 2 ^ 31"
      using b by (intro mod_pos_pos_trivial) auto
    then show ?thesis using s u True b by simp
  next
    case False
    then have "(uint x + 2 ^ 31) mod 2 ^ 32 = uint x - 2 ^ 31"
      using b mod_add_self2 [of "uint x - 2 ^ 31" "2 ^ 32"]
        mod_pos_pos_trivial [of "uint x - 2 ^ 31" "2 ^ 32 :: int"] by (simp add: add.commute)
    then show ?thesis using s u False b by simp
  qed
qed

lemma deadlineReached_iff: "deadlineReached now deadline \<longleftrightarrow> unat (now - deadline) < 2 ^ 31"
  by (simp add: deadlineReached_def sint_nonneg_iff_u32)

section \<open>Little-endian fields\<close>

definition le16 :: "u16 \<Rightarrow> bytes" where
  "le16 x = [ucast x, ucast (drop_bit 8 x)]"

definition le32 :: "u32 \<Rightarrow> bytes" where
  "le32 x = [ucast x, ucast (drop_bit 8 x), ucast (drop_bit 16 x), ucast (drop_bit 24 x)]"

definition getLe16 :: "bytes \<Rightarrow> nat \<Rightarrow> u16" where
  "getLe16 bs i = ucast (bs ! i) OR push_bit 8 (ucast (bs ! (i + 1)))"

definition getLe32 :: "bytes \<Rightarrow> nat \<Rightarrow> u32" where
  "getLe32 bs i = ucast (bs ! i) OR push_bit 8 (ucast (bs ! (i + 1))) OR
     push_bit 16 (ucast (bs ! (i + 2))) OR push_bit 24 (ucast (bs ! (i + 3)))"

lemma length_le [simp]: "length (le16 x) = 2" "length (le32 y) = 4"
  by (simp_all add: le16_def le32_def)

lemma join16: "(ucast (ucast x :: u8) :: u16) OR push_bit 8 (ucast (ucast (drop_bit 8 x) :: u8)) = x"
  by (rule bit_word_eqI) (auto simp: bit_simps)

lemma join32: "(ucast (ucast x :: u8) :: u32) OR push_bit 8 (ucast (ucast (drop_bit 8 x) :: u8)) OR
   push_bit 16 (ucast (ucast (drop_bit 16 x) :: u8)) OR push_bit 24 (ucast (ucast (drop_bit 24 x) :: u8)) = x"
proof (rule bit_word_eqI)
  fix n
  assume "n < LENGTH(32)"
  then consider "n < 8" | "8 \<le> n" "n < 16" | "16 \<le> n" "n < 24" | "24 \<le> n" "n < 32"
    by fastforce
  then show "bit ((ucast (ucast x :: u8) :: u32) OR push_bit 8 (ucast (ucast (drop_bit 8 x) :: u8)) OR
   push_bit 16 (ucast (ucast (drop_bit 16 x) :: u8)) OR push_bit 24 (ucast (ucast (drop_bit 24 x) :: u8))) n
     = bit x n"
    by cases (simp_all add: bit_simps, linarith+)
qed

text \<open>A field written at the end of a prefix reads back, whatever follows.\<close>

lemma getLe16_le16 [simp]: "getLe16 (le16 x @ r) 0 = x"
  by (simp add: getLe16_def le16_def join16)

lemma getLe32_le32 [simp]: "getLe32 (le32 x @ r) 0 = x"
  by (simp add: getLe32_def le32_def numeral_2_eq_2 numeral_3_eq_3 join32)

lemma getLe_shift:
  "length p \<le> i \<Longrightarrow> getLe16 (p @ r) i = getLe16 r (i - length p)"
  "length p \<le> i \<Longrightarrow> getLe32 (p @ r) i = getLe32 r (i - length p)"
  by (simp_all add: getLe16_def getLe32_def nth_append Suc_diff_le)

lemma getLe_take:
  "i + 1 < n \<Longrightarrow> getLe16 (take n bs) i = getLe16 bs i"
  "i + 3 < n \<Longrightarrow> getLe32 (take n bs) i = getLe32 bs i"
  by (simp_all add: getLe16_def getLe32_def)

section \<open>Equal-sized blocks\<close>

lemma length_blocks:
  "(\<And>x. x \<in> set xs \<Longrightarrow> length (f x) = n) \<Longrightarrow> length (concat (map f xs)) = length xs * n"
  by (induction xs) auto

lemma nth_block:
  "(\<And>x. x \<in> set xs \<Longrightarrow> length (f x) = n) \<Longrightarrow> i < length xs \<Longrightarrow>
     take n (drop (n * i) (concat (map f xs))) = f (xs ! i)"
proof (induction xs arbitrary: i)
  case (Cons x xs)
  then show ?case by (cases i) simp_all
qed simp

section \<open>CRC-32\<close>

text \<open>\<open>crc32Update\<close> of \<open>OpenBrewByWeightDomain.h\<close>, the reflected bit loop.\<close>

definition crcBit :: "u32 \<Rightarrow> u32" where
  "crcBit crc = (let mask = - (crc AND 1) in drop_bit 1 crc XOR (0xEDB88320 AND mask))"

fun crc32Update :: "u32 \<Rightarrow> bytes \<Rightarrow> u32" where
  "crc32Update crc [] = crc"
| "crc32Update crc (b # bs) = crc32Update ((crcBit ^^ 8) (crc XOR ucast b)) bs"

definition crc32 :: "bytes \<Rightarrow> u32" where
  "crc32 bs = NOT (crc32Update 0xFFFFFFFF bs)"

lemma crc32Update_append [simp]: "crc32Update c (xs @ ys) = crc32Update (crc32Update c xs) ys"
  by (induction xs arbitrary: c) simp_all

end
