(* ===== verification/Safety_Timer.thy ===== *)
theory Safety_Timer
  imports Obw_Prelude
begin

text \<open>
  \<open>OpenBrewByWeightHardwareTimer.h\<close>: \<open>IndependentSafetyTimer\<close>, the one-shot deadline
  backed by an ESP32 general-purpose timer whose alarm runs in interrupt context. The
  theory follows the target build (the \<open>OPEN_BREW_BY_WEIGHT_HOST_TEST\<close> variant is a test
  double). The GPTimer driver itself is not part of the repository: every call's result
  code is an argument of the operation that makes the call, and the one documented effect
  the model relies on, that a started timer raises its alarm when the raw count reaches
  \<open>alarm_count\<close>, is kept in \<open>dueAtUs\<close>.
\<close>

section \<open>State\<close>

datatype esp_err = ESP_OK | ESP_ERR_INVALID_STATE | ESP_FAIL

record timer =
  timerHandle :: bool
  callbackSet :: bool
  timerReady :: bool
  timerRunning :: bool
  callbackInFlight :: bool
  dueAtUs :: nat

definition timer0 :: timer where
  "timer0 = \<lparr> timerHandle = False, callbackSet = False, timerReady = False,
     timerRunning = False, callbackInFlight = False, dueAtUs = 0 \<rparr>"

text \<open>What the driver answers to the calls of one \<open>arm\<close>.\<close>

record arm_io =
  ioStop :: esp_err
  ioSetCount :: esp_err
  ioSetAlarm :: esp_err
  ioStart :: esp_err

section \<open>Operations\<close>

definition timerBegin :: "bool \<Rightarrow> esp_err \<Rightarrow> esp_err \<Rightarrow> esp_err \<Rightarrow> timer \<Rightarrow> bool \<times> timer" where
  "timerBegin callbackNonNull newRes registerRes enableRes t =
     (if \<not> callbackNonNull \<or> timerReady t then (False, t)
      else if newRes \<noteq> ESP_OK then (False, t)
      else if registerRes \<noteq> ESP_OK then (False, t\<lparr>timerHandle := False\<rparr>)
      else if enableRes \<noteq> ESP_OK
        then (False, t\<lparr>timerHandle := False, callbackSet := False\<rparr>)
      else (True, t\<lparr>timerHandle := True, callbackSet := True, timerReady := True\<rparr>))"

text \<open>
  \<open>stop\<close> leaves its critical section around the driver call; \<open>mid\<close> is whatever the
  interrupt did in that gap.
\<close>

definition timerStop :: "(timer \<Rightarrow> timer) \<Rightarrow> esp_err \<Rightarrow> timer \<Rightarrow> bool \<times> timer" where
  "timerStop mid res t =
     (if \<not> timerReady t then (True, t)
      else if callbackInFlight t then (False, t)
      else
        let wasRunning = timerRunning t; t1 = mid t in
        if res \<noteq> ESP_OK \<and> \<not> (res = ESP_ERR_INVALID_STATE \<and> \<not> wasRunning) then (False, t1)
        else if callbackInFlight t1 then (False, t1)
        else (True, t1\<lparr>timerRunning := False\<rparr>))"

definition timerArm :: "(timer \<Rightarrow> timer) \<Rightarrow> arm_io \<Rightarrow> nat \<Rightarrow> u32 \<Rightarrow> timer \<Rightarrow> bool \<times> timer" where
  "timerArm mid io nowUs timeoutMs t =
     (if \<not> timerReady t \<or> timeoutMs = 0 then (False, t)
      else case timerStop mid (ioStop io) t of
        (stopped, t1) \<Rightarrow>
          if \<not> stopped then (False, t1)
          else if ioSetCount io \<noteq> ESP_OK \<or> ioSetAlarm io \<noteq> ESP_OK then (False, t1)
          else if ioStart io \<noteq> ESP_OK then (False, t1\<lparr>timerRunning := False\<rparr>)
          else (True, t1\<lparr>timerRunning := True, dueAtUs := nowUs + unat timeoutMs * 1000\<rparr>))"

text \<open>
  The alarm callback enters (clearing \<open>running_\<close> and, when an arm was live, marking the
  callback in flight and returning the function to call), and leaves.
\<close>

definition alarmEnter :: "timer \<Rightarrow> bool \<times> timer" where
  "alarmEnter t =
     (if timerRunning t
      then (callbackSet t, t\<lparr>timerRunning := False, callbackInFlight := True\<rparr>)
      else (False, t))"

definition alarmLeave :: "bool \<Rightarrow> timer \<Rightarrow> timer" where
  "alarmLeave called t = (if called then t\<lparr>callbackInFlight := False\<rparr> else t)"

definition alarmDue :: "nat \<Rightarrow> timer \<Rightarrow> bool" where
  "alarmDue nowUs t \<longleftrightarrow> timerRunning t \<and> dueAtUs t \<le> nowUs"

section \<open>Invariant\<close>

definition timer_wf :: "timer \<Rightarrow> bool" where
  "timer_wf t \<longleftrightarrow> (timerReady t \<longrightarrow> timerHandle t \<and> callbackSet t) \<and>
     (timerRunning t \<longrightarrow> timerReady t) \<and>
     (timerRunning t \<longrightarrow> \<not> callbackInFlight t)"

lemma timer_wf0 [wf_intros]: "timer_wf timer0"
  by (simp add: timer_wf_def timer0_def)

lemma timer_wf_begin [wf_intros]:
  "timer_wf t \<Longrightarrow> timer_wf (snd (timerBegin cb n r e t))"
  by (auto simp: timer_wf_def timerBegin_def)

lemma timer_wf_stop [wf_intros]:
  "timer_wf t \<Longrightarrow> timer_wf (mid t) \<Longrightarrow> timer_wf (snd (timerStop mid res t))"
  by (auto simp: timer_wf_def timerStop_def Let_def)

lemma timerStop_result:
  assumes "fst (timerStop mid res t)"
  shows "timerReady t \<Longrightarrow> \<not> callbackInFlight (snd (timerStop mid res t))"
    and "timerReady t \<Longrightarrow> \<not> timerRunning (snd (timerStop mid res t))"
  using assms by (auto simp: timerStop_def Let_def split: if_splits)

lemma timer_wf_arm [wf_intros]:
  assumes "timer_wf t" and "timer_wf (mid t)" and "timerReady (mid t) = timerReady t"
  shows "timer_wf (snd (timerArm mid io now ms t))"
  using assms
  by (auto simp: timer_wf_def timerArm_def timerStop_def Let_def split: prod.splits if_splits)

lemma timer_wf_enter [wf_intros]: "timer_wf t \<Longrightarrow> timer_wf (snd (alarmEnter t))"
  by (auto simp: timer_wf_def alarmEnter_def)

lemma timer_wf_leave [wf_intros]:
  "timer_wf t \<Longrightarrow> timer_wf (alarmLeave called t)"
  by (auto simp: timer_wf_def alarmLeave_def)

section \<open>Behaviour\<close>

text \<open>An arm that reports success is live, for exactly the requested time.\<close>

lemma timerArm_success:
  assumes "timerArm mid io now ms t = (True, t')"
  shows "timerRunning t'" and "dueAtUs t' = now + unat ms * 1000" and "timerReady t" and "ms \<noteq> 0"
  using assms by (auto simp: timerArm_def split: if_splits prod.splits)

lemma timerArm_running:
  assumes "\<not> timerRunning (snd (timerArm mid io now ms t))"
  shows "\<not> fst (timerArm mid io now ms t)"
  using assms by (auto simp: timerArm_def split: if_splits prod.splits)

lemma timerReady_stop [simp]:
  "(\<And>t. timerReady (mid t) = timerReady t) \<Longrightarrow> timerReady (snd (timerStop mid res t)) = timerReady t"
  by (auto simp: timerStop_def Let_def)

lemma timerReady_arm [simp]:
  "(\<And>t. timerReady (mid t) = timerReady t) \<Longrightarrow>
     timerReady (snd (timerArm mid io now ms t)) = timerReady t"
  by (auto simp: timerArm_def timerStop_def Let_def)

lemma alarmEnter_once: "fst (alarmEnter (snd (alarmEnter t))) = False"
  by (simp add: alarmEnter_def)

text \<open>
  The gap inside \<open>stop\<close> is harmless: an alarm that runs there from start to end leaves
  the same timer as an alarm that ran just before the call, whatever the driver answered
  short of refusing a running timer.
\<close>

definition alarmWhole :: "timer \<Rightarrow> timer" where
  "alarmWhole t = (case alarmEnter t of (called, t1) \<Rightarrow> alarmLeave called t1)"

lemma timerStop_alarm_commutes:
  assumes "timer_wf t" and "res = ESP_OK"
  shows "timerStop alarmWhole res t = timerStop (\<lambda>t. t) res (alarmWhole t)"
  using assms
  by (auto simp: timerStop_def alarmWhole_def alarmEnter_def alarmLeave_def timer_wf_def Let_def)

end
