(* ===== verification/Reset_Guard.thy ===== *)
theory Reset_Guard
  imports Obw_Prelude
begin

text \<open>
  \<open>OpenBrewByWeightResetGuard.h\<close> and \<open>OpenBrewByWeightResetHistory.h\<close>: the record
  kept in RTC memory that survives a reset, says whether the machine circuit was
  commanded closed when the reset came, and counts consecutive unsafe resets. The record
  is written word by word, so a reset can tear a write: initialisation is modelled as the
  ordered list of its stores, and the marker update as its two stores.
\<close>

section \<open>Reset history\<close>

record ResetHistoryEntry =
  reasonCode :: u32
  uptimeMs :: u32

definition emptyEntry :: ResetHistoryEntry where
  "emptyEntry = \<lparr> reasonCode = 0, uptimeMs = 0 \<rparr>"

definition RESET_HISTORY_CAPACITY :: nat where "RESET_HISTORY_CAPACITY = 10"

definition resetHistoryChecksum :: "ResetHistoryEntry list \<Rightarrow> nat \<Rightarrow> u32 \<Rightarrow> u32" where
  "resetHistoryChecksum history count seed =
     foldl (\<lambda>checksum e. ((checksum * 16777619 XOR reasonCode e) * 16777619) XOR uptimeMs e)
       seed (take count history)"

section \<open>The record\<close>

definition SAFETY_RESET_RECORD_MAGIC :: u32 where "SAFETY_RESET_RECORD_MAGIC = 0x534E3947"
definition SAFETY_RELAY_OPEN_MARKER :: u32 where "SAFETY_RELAY_OPEN_MARKER = 0x4F50454E"
definition SAFETY_RELAY_CLOSED_MARKER :: u32 where "SAFETY_RELAY_CLOSED_MARKER = 0x434C5344"
definition SAFETY_BOOT_LOOP_THRESHOLD :: u32 where "SAFETY_BOOT_LOOP_THRESHOLD = 3"
definition RESET_UPTIME_CHECKPOINT_INTERVAL_MS :: u32 where
  "RESET_UPTIME_CHECKPOINT_INTERVAL_MS = 60000"

record SafetyResetRecord =
  magic :: u32
  magicInverse :: u32
  relayMarker :: u32
  relayMarkerInverse :: u32
  unsafeResetCount :: u32
  unsafeResetCountInverse :: u32
  historyCount :: u32
  historyCountInverse :: u32
  history :: "ResetHistoryEntry list"
  historyChecksum :: u32
  currentUptimeMs :: u32
  currentUptimeMsInverse :: u32

record SafetyResetSnapshot =
  snapReasonCode :: u32
  snapUnsafeResetCount :: u32
  resetDuringClose :: bool
  unsafeReset :: bool
  bootLoopDetected :: bool
  resetHistoryCount :: u8
  resetHistory :: "ResetHistoryEntry list"

definition safetyResetSnapshot0 :: SafetyResetSnapshot where
  "safetyResetSnapshot0 = \<lparr> snapReasonCode = 0, snapUnsafeResetCount = 0,
     resetDuringClose = False, unsafeReset = False, bootLoopDetected = False,
     resetHistoryCount = 0, resetHistory = replicate RESET_HISTORY_CAPACITY emptyEntry \<rparr>"

definition storedChecksum :: "SafetyResetRecord \<Rightarrow> nat \<Rightarrow> u32" where
  "storedChecksum r count =
     resetHistoryChecksum (history r) count (SAFETY_RESET_RECORD_MAGIC XOR historyCount r)"

definition safetyResetRecordValid :: "SafetyResetRecord \<Rightarrow> bool" where
  "safetyResetRecordValid r =
     (let checksum = storedChecksum r
            (if unat (historyCount r) < RESET_HISTORY_CAPACITY then unat (historyCount r)
             else RESET_HISTORY_CAPACITY)
      in magic r = SAFETY_RESET_RECORD_MAGIC \<and>
         magicInverse r = NOT SAFETY_RESET_RECORD_MAGIC \<and>
         relayMarkerInverse r = NOT (relayMarker r) \<and>
         unsafeResetCountInverse r = NOT (unsafeResetCount r) \<and>
         unat (historyCount r) \<le> RESET_HISTORY_CAPACITY \<and>
         historyCountInverse r = NOT (historyCount r) \<and>
         historyChecksum r = checksum \<and>
         (relayMarker r = SAFETY_RELAY_OPEN_MARKER \<or>
          relayMarker r = SAFETY_RELAY_CLOSED_MARKER))"

section \<open>Initialisation, store by store\<close>

type_synonym store = "SafetyResetRecord \<Rightarrow> SafetyResetRecord"

definition historyStores :: "ResetHistoryEntry list option \<Rightarrow> nat \<Rightarrow> store list" where
  "historyStores src i =
     (let value = (\<lambda>r. case src of None \<Rightarrow> emptyEntry
                   | Some h \<Rightarrow> if i < unat (historyCount r) then h ! i else emptyEntry) in
      [\<lambda>r. r\<lparr>history := (history r)[i := (history r ! i)\<lparr>reasonCode := reasonCode (value r)\<rparr>]\<rparr>,
       \<lambda>r. r\<lparr>history := (history r)[i := (history r ! i)\<lparr>uptimeMs := uptimeMs (value r)\<rparr>]\<rparr>])"

definition bodyStores ::
    "u32 \<Rightarrow> u32 \<Rightarrow> ResetHistoryEntry list option \<Rightarrow> u32 \<Rightarrow> store list" where
  "bodyStores marker count src n =
     [\<lambda>r. r\<lparr>magicInverse := 0\<rparr>,
      \<lambda>r. r\<lparr>relayMarker := marker\<rparr>,
      \<lambda>r. r\<lparr>relayMarkerInverse := NOT marker\<rparr>,
      \<lambda>r. r\<lparr>unsafeResetCount := count\<rparr>,
      \<lambda>r. r\<lparr>unsafeResetCountInverse := NOT count\<rparr>,
      \<lambda>r. r\<lparr>historyCount := (if unat n > RESET_HISTORY_CAPACITY
                                then of_nat RESET_HISTORY_CAPACITY else n)\<rparr>,
      \<lambda>r. r\<lparr>historyCountInverse := NOT (historyCount r)\<rparr>]
     @ concat (map (historyStores src) [0..<RESET_HISTORY_CAPACITY]) @
     [\<lambda>r. r\<lparr>historyChecksum := storedChecksum r (unat (historyCount r))\<rparr>,
      \<lambda>r. r\<lparr>currentUptimeMs := 0\<rparr>,
      \<lambda>r. r\<lparr>currentUptimeMsInverse := - 1\<rparr>,
      \<lambda>r. r\<lparr>magicInverse := NOT SAFETY_RESET_RECORD_MAGIC\<rparr>]"

definition initStores ::
    "u32 \<Rightarrow> u32 \<Rightarrow> ResetHistoryEntry list option \<Rightarrow> u32 \<Rightarrow> store list" where
  "initStores marker count src n =
     [\<lambda>r. r\<lparr>magic := 0\<rparr>] @ bodyStores marker count src n @
     [\<lambda>r. r\<lparr>magic := SAFETY_RESET_RECORD_MAGIC\<rparr>]"

definition runStores :: "store list \<Rightarrow> store" where
  "runStores = fold (\<lambda>st r. st r)"

definition initializeSafetyResetRecord ::
    "u32 \<Rightarrow> u32 \<Rightarrow> ResetHistoryEntry list option \<Rightarrow> u32 \<Rightarrow> SafetyResetRecord \<Rightarrow> SafetyResetRecord" where
  "initializeSafetyResetRecord marker count src n r = runStores (initStores marker count src n) r"

section \<open>Operations\<close>

definition markerStores :: "bool \<Rightarrow> store list" where
  "markerStores closed =
     (let marker = (if closed then SAFETY_RELAY_CLOSED_MARKER else SAFETY_RELAY_OPEN_MARKER) in
      [\<lambda>r. r\<lparr>relayMarkerInverse := NOT marker\<rparr>, \<lambda>r. r\<lparr>relayMarker := marker\<rparr>])"

definition recordRelayCommandedClosed :: "bool \<Rightarrow> SafetyResetRecord \<Rightarrow> SafetyResetRecord" where
  "recordRelayCommandedClosed closed r =
     runStores (markerStores closed)
       (if \<not> safetyResetRecordValid r
        then initializeSafetyResetRecord SAFETY_RELAY_OPEN_MARKER 0 None 0 r else r)"

text \<open>The second component is the last-checkpoint clock kept beside the record.\<close>

definition recordResetUptime ::
    "u32 \<Rightarrow> bool \<Rightarrow> SafetyResetRecord \<times> u32 \<Rightarrow> SafetyResetRecord \<times> u32" where
  "recordResetUptime uptime force = (\<lambda>(r, lastCheckpoint).
     if \<not> force \<and> (uptime < RESET_UPTIME_CHECKPOINT_INTERVAL_MS \<or>
                    uptime - lastCheckpoint < RESET_UPTIME_CHECKPOINT_INTERVAL_MS)
     then (r, lastCheckpoint)
     else if \<not> safetyResetRecordValid r then (r, lastCheckpoint)
     else (r\<lparr>currentUptimeMsInverse := NOT uptime, currentUptimeMs := uptime\<rparr>, uptime))"

datatype esp_reset_reason =
    ESP_RST_UNKNOWN | ESP_RST_POWERON | ESP_RST_EXT | ESP_RST_SW | ESP_RST_PANIC
  | ESP_RST_INT_WDT | ESP_RST_TASK_WDT | ESP_RST_WDT | ESP_RST_DEEPSLEEP
  | ESP_RST_BROWNOUT | ESP_RST_SDIO | ESP_RST_USB | ESP_RST_JTAG | ESP_RST_EFUSE
  | ESP_RST_PWR_GLITCH | ESP_RST_CPU_LOCKUP | ESP_RST_OTHER u32

fun currentSafetyResetReasonCode :: "esp_reset_reason \<Rightarrow> u32" where
  "currentSafetyResetReasonCode ESP_RST_UNKNOWN = 0"
| "currentSafetyResetReasonCode ESP_RST_POWERON = 1"
| "currentSafetyResetReasonCode ESP_RST_EXT = 2"
| "currentSafetyResetReasonCode ESP_RST_SW = 3"
| "currentSafetyResetReasonCode ESP_RST_PANIC = 4"
| "currentSafetyResetReasonCode ESP_RST_INT_WDT = 5"
| "currentSafetyResetReasonCode ESP_RST_TASK_WDT = 6"
| "currentSafetyResetReasonCode ESP_RST_WDT = 7"
| "currentSafetyResetReasonCode ESP_RST_DEEPSLEEP = 8"
| "currentSafetyResetReasonCode ESP_RST_BROWNOUT = 9"
| "currentSafetyResetReasonCode ESP_RST_SDIO = 10"
| "currentSafetyResetReasonCode ESP_RST_USB = 11"
| "currentSafetyResetReasonCode ESP_RST_JTAG = 12"
| "currentSafetyResetReasonCode ESP_RST_EFUSE = 13"
| "currentSafetyResetReasonCode ESP_RST_PWR_GLITCH = 14"
| "currentSafetyResetReasonCode ESP_RST_CPU_LOCKUP = 15"
| "currentSafetyResetReasonCode (ESP_RST_OTHER c) = c"

fun currentSafetyResetIsUnsafe :: "esp_reset_reason \<Rightarrow> bool" where
  "currentSafetyResetIsUnsafe ESP_RST_POWERON = False"
| "currentSafetyResetIsUnsafe ESP_RST_EXT = False"
| "currentSafetyResetIsUnsafe ESP_RST_SW = False"
| "currentSafetyResetIsUnsafe ESP_RST_DEEPSLEEP = False"
| "currentSafetyResetIsUnsafe ESP_RST_SDIO = False"
| "currentSafetyResetIsUnsafe ESP_RST_USB = False"
| "currentSafetyResetIsUnsafe ESP_RST_JTAG = False"
| "currentSafetyResetIsUnsafe _ = True"

definition currentSafetyResetIsPowerOn :: "esp_reset_reason \<Rightarrow> bool" where
  "currentSafetyResetIsPowerOn reason \<longleftrightarrow> reason = ESP_RST_POWERON"

text \<open>The in-place shift \<open>for (i = newCount - 1; i > 0; --i) h[i] = h[i - 1]\<close>.\<close>

fun shiftHistory :: "nat \<Rightarrow> ResetHistoryEntry list \<Rightarrow> ResetHistoryEntry list" where
  "shiftHistory 0 h = h"
| "shiftHistory (Suc i) h = shiftHistory i (h[Suc i := h ! i])"

definition beginSafetyResetGuard ::
    "esp_reset_reason \<Rightarrow> SafetyResetRecord \<Rightarrow> SafetyResetSnapshot \<times> SafetyResetRecord" where
  "beginSafetyResetGuard reason r =
     (let valid = safetyResetRecordValid r;
          duringClose = valid \<and> relayMarker r = SAFETY_RELAY_CLOSED_MARKER;
          previousCount = (if valid then unsafeResetCount r else 0);
          code = currentSafetyResetReasonCode reason;
          previousUptime =
            (if valid \<and> currentUptimeMsInverse r = NOT (currentUptimeMs r)
             then currentUptimeMs r else 0);
          oldCount = (if valid then ucast (historyCount r) else 0 :: u8);
          copied = (if valid
            then take (unat oldCount) (history r)
                   @ drop (unat oldCount) (replicate RESET_HISTORY_CAPACITY emptyEntry)
            else replicate RESET_HISTORY_CAPACITY emptyEntry);
          newCount = (if unat oldCount < RESET_HISTORY_CAPACITY then oldCount + 1
                      else of_nat RESET_HISTORY_CAPACITY);
          shifted = (shiftHistory (unat newCount - 1) copied)
                      [0 := \<lparr> reasonCode = code, uptimeMs = previousUptime \<rparr>];
          isUnsafe = currentSafetyResetIsUnsafe reason \<or> duringClose \<or>
                       (\<not> valid \<and> \<not> currentSafetyResetIsPowerOn reason);
          count = (if isUnsafe \<and> previousCount < - 1 then previousCount + 1
                   else if isUnsafe then previousCount else 0)
      in (\<lparr> snapReasonCode = code, snapUnsafeResetCount = count,
            resetDuringClose = duringClose, unsafeReset = isUnsafe,
            bootLoopDetected = SAFETY_BOOT_LOOP_THRESHOLD \<le> count,
            resetHistoryCount = newCount, resetHistory = shifted \<rparr>,
          initializeSafetyResetRecord SAFETY_RELAY_OPEN_MARKER count (Some shifted)
            (ucast newCount) r))"


section \<open>Initialisation builds a valid record\<close>

definition historyValue :: "ResetHistoryEntry list option \<Rightarrow> nat \<Rightarrow> nat \<Rightarrow> ResetHistoryEntry" where
  "historyValue src n i =
     (case src of None \<Rightarrow> emptyEntry | Some h \<Rightarrow> if i < n then h ! i else emptyEntry)"

lemma runStores_Nil [simp]: "runStores [] r = r"
  by (simp add: runStores_def)

lemma runStores_Cons [simp]: "runStores (s # ss) r = runStores ss (s r)"
  by (simp add: runStores_def)

lemma runStores_append [simp]: "runStores (ss @ ts) r = runStores ts (runStores ss r)"
  by (simp add: runStores_def)

lemma entry_update_all [simp]:
  "(e :: ResetHistoryEntry)\<lparr>reasonCode := reasonCode v, uptimeMs := uptimeMs v\<rparr> = v"
  by (cases e; cases v) simp

lemma historyStores_effect:
  assumes "i < length (history r)"
  shows "runStores (historyStores src i) r
       = r\<lparr>history := (history r)[i := historyValue src (unat (historyCount r)) i]\<rparr>"
  using assms by (cases src) (simp_all add: historyStores_def historyValue_def)

lemma historyLoop_effect:
  assumes "k \<le> length (history r)"
  shows "runStores (concat (map (historyStores src) [0..<k])) r
       = r\<lparr>history := map (historyValue src (unat (historyCount r))) [0..<k] @ drop k (history r)\<rparr>"
  using assms
proof (induction k)
  case 0
  then show ?case by simp
next
  case (Suc k)
  then have k: "k < length (history r)" by simp
  show ?case
    using Suc k
    by (simp add: historyStores_effect list_update_append Cons_nth_drop_Suc [OF k, symmetric])
qed

lemma RESET_HISTORY_CAPACITY_word [simp]:
  "unat (of_nat RESET_HISTORY_CAPACITY :: u32) = RESET_HISTORY_CAPACITY"
  "unat (of_nat RESET_HISTORY_CAPACITY :: u8) = RESET_HISTORY_CAPACITY"
  by (simp_all add: RESET_HISTORY_CAPACITY_def)

abbreviation cappedCount :: "u32 \<Rightarrow> u32" where
  "cappedCount n \<equiv> (if RESET_HISTORY_CAPACITY < unat n then of_nat RESET_HISTORY_CAPACITY else n)"

lemma cappedCount_le [simp]: "unat (cappedCount n) \<le> RESET_HISTORY_CAPACITY"
  by simp

lemma initializeSafetyResetRecord_eq:
  assumes "length (history r) = RESET_HISTORY_CAPACITY"
  shows "initializeSafetyResetRecord marker count src n r =
    (let c = cappedCount n;
         h = map (historyValue src (unat c)) [0..<RESET_HISTORY_CAPACITY]
     in \<lparr> magic = SAFETY_RESET_RECORD_MAGIC, magicInverse = NOT SAFETY_RESET_RECORD_MAGIC,
          relayMarker = marker, relayMarkerInverse = NOT marker,
          unsafeResetCount = count, unsafeResetCountInverse = NOT count,
          historyCount = c, historyCountInverse = NOT c, history = h,
          historyChecksum = resetHistoryChecksum h (unat c) (SAFETY_RESET_RECORD_MAGIC XOR c),
          currentUptimeMs = 0, currentUptimeMsInverse = - 1 \<rparr>)"
  using assms
  by (simp add: initializeSafetyResetRecord_def initStores_def bodyStores_def
      historyLoop_effect storedChecksum_def Let_def)

lemma length_history_init [simp]:
  "length (history r) = RESET_HISTORY_CAPACITY \<Longrightarrow>
   length (history (initializeSafetyResetRecord marker count src n r)) = RESET_HISTORY_CAPACITY"
  by (simp add: initializeSafetyResetRecord_eq Let_def)

lemma valid_init:
  assumes "length (history r) = RESET_HISTORY_CAPACITY"
    and "marker = SAFETY_RELAY_OPEN_MARKER \<or> marker = SAFETY_RELAY_CLOSED_MARKER"
  shows "safetyResetRecordValid (initializeSafetyResetRecord marker count src n r)"
  using assms
  by (auto simp: safetyResetRecordValid_def initializeSafetyResetRecord_eq storedChecksum_def Let_def)

section \<open>Torn writes\<close>

lemma magic_historyStores: "st \<in> set (historyStores src i) \<Longrightarrow> magic (st r) = magic r"
  by (auto simp: historyStores_def Let_def)

lemma magic_bodyStores: "st \<in> set (bodyStores marker count src n) \<Longrightarrow> magic (st r) = magic r"
  by (auto simp: bodyStores_def dest: magic_historyStores)

lemma magic_runStores:
  "(\<And>st r. st \<in> set ss \<Longrightarrow> magic (st r) = magic r) \<Longrightarrow> magic (runStores ss r) = magic r"
  by (induction ss arbitrary: r) auto

lemma magic_invalid: "magic r = 0 \<Longrightarrow> \<not> safetyResetRecordValid r"
  by (simp add: safetyResetRecordValid_def SAFETY_RESET_RECORD_MAGIC_def Let_def)

lemma torn_initialisation:
  assumes "0 < k" and "k < length (initStores marker count src n)"
  shows "\<not> safetyResetRecordValid (runStores (take k (initStores marker count src n)) r)"
proof (rule magic_invalid)
  let ?body = "bodyStores marker count src n"
  obtain j where k: "k = Suc j" and j: "j \<le> length ?body"
    using assms by (cases k) (auto simp: initStores_def)
  have "take k (initStores marker count src n) = (\<lambda>r. r\<lparr>magic := 0\<rparr>) # take j ?body"
    using j by (simp add: k initStores_def)
  moreover have "magic (runStores (take j ?body) (r\<lparr>magic := 0\<rparr>)) = magic (r\<lparr>magic := 0\<rparr>)"
    by (rule magic_runStores) (blast dest: in_set_takeD magic_bodyStores)
  ultimately show "magic (runStores (take k (initStores marker count src n)) r) = 0"
    by simp
qed

lemma markers_distinct [simp]:
  "SAFETY_RELAY_OPEN_MARKER \<noteq> SAFETY_RELAY_CLOSED_MARKER"
  "SAFETY_RELAY_CLOSED_MARKER \<noteq> SAFETY_RELAY_OPEN_MARKER"
  by (simp_all add: SAFETY_RELAY_OPEN_MARKER_def SAFETY_RELAY_CLOSED_MARKER_def)

lemma NOT_inj: "NOT (x::u32) = NOT y \<longleftrightarrow> x = y"
  by (metis bit.double_compl)

lemma torn_marker:
  assumes "safetyResetRecordValid r"
    and "relayMarker r \<noteq> (if closed then SAFETY_RELAY_CLOSED_MARKER else SAFETY_RELAY_OPEN_MARKER)"
  shows "\<not> safetyResetRecordValid (runStores (take 1 (markerStores closed)) r)"
  using assms by (auto simp: markerStores_def safetyResetRecordValid_def Let_def NOT_inj)

section \<open>The marker and the uptime checkpoint\<close>

lemma commandedClosed_eq:
  assumes "safetyResetRecordValid r"
  shows "recordRelayCommandedClosed closed r =
     (let marker = (if closed then SAFETY_RELAY_CLOSED_MARKER else SAFETY_RELAY_OPEN_MARKER) in
      r\<lparr>relayMarkerInverse := NOT marker, relayMarker := marker\<rparr>)"
  using assms by (simp add: recordRelayCommandedClosed_def markerStores_def Let_def)

lemma commandedClosed_marker [simp]:
  "relayMarker (recordRelayCommandedClosed closed r) =
     (if closed then SAFETY_RELAY_CLOSED_MARKER else SAFETY_RELAY_OPEN_MARKER)"
  by (simp add: recordRelayCommandedClosed_def markerStores_def Let_def)

lemma valid_marker_update:
  assumes "safetyResetRecordValid r"
    and "marker = SAFETY_RELAY_OPEN_MARKER \<or> marker = SAFETY_RELAY_CLOSED_MARKER"
  shows "safetyResetRecordValid (r\<lparr>relayMarkerInverse := NOT marker, relayMarker := marker\<rparr>)"
  using assms by (auto simp: safetyResetRecordValid_def storedChecksum_def Let_def)

lemma valid_commandedClosed [wf_intros]:
  assumes "length (history r) = RESET_HISTORY_CAPACITY"
  shows "safetyResetRecordValid (recordRelayCommandedClosed closed r)"
  using assms valid_init [of r SAFETY_RELAY_OPEN_MARKER 0 None 0]
  by (auto simp: recordRelayCommandedClosed_def markerStores_def Let_def intro!: valid_marker_update)

lemma length_history_commandedClosed [simp]:
  "length (history r) = RESET_HISTORY_CAPACITY \<Longrightarrow>
   length (history (recordRelayCommandedClosed closed r)) = RESET_HISTORY_CAPACITY"
  by (simp add: recordRelayCommandedClosed_def markerStores_def Let_def)

lemma unsafeResetCount_commandedClosed:
  "safetyResetRecordValid r \<Longrightarrow>
   unsafeResetCount (recordRelayCommandedClosed closed r) = unsafeResetCount r"
  by (simp add: commandedClosed_eq Let_def)

lemma valid_recordResetUptime [wf_intros]:
  "safetyResetRecordValid (fst rc) \<Longrightarrow> safetyResetRecordValid (fst (recordResetUptime up force rc))"
  by (cases rc) (auto simp: recordResetUptime_def safetyResetRecordValid_def storedChecksum_def Let_def)

lemma recordResetUptime_keeps [simp]:
  "history (fst (recordResetUptime up force rc)) = history (fst rc)"
  "relayMarker (fst (recordResetUptime up force rc)) = relayMarker (fst rc)"
  "unsafeResetCount (fst (recordResetUptime up force rc)) = unsafeResetCount (fst rc)"
  by (cases rc; simp add: recordResetUptime_def)+


section \<open>Boot\<close>

lemma shiftHistory_eq:
  "k < length h \<Longrightarrow> shiftHistory k h = take 1 h @ take k h @ drop (Suc k) h"
proof (induction k arbitrary: h)
  case 0
  then show ?case by (cases h) simp_all
next
  case (Suc k)
  let ?h = "take (Suc k) h @ h ! k # drop (Suc (Suc k)) h"
  have u: "h[Suc k := h ! k] = ?h"
    using Suc.prems by (simp add: upd_conv_take_nth_drop)
  have "shiftHistory k ?h = take 1 ?h @ take k ?h @ drop (Suc k) ?h"
    using Suc.prems by (intro Suc.IH) simp
  moreover have "take 1 ?h = take 1 h" "take k ?h = take k h"
      "drop (Suc k) ?h = h ! k # drop (Suc (Suc k)) h"
    using Suc.prems by (simp_all add: min_def)
  moreover have "take (Suc k) h = take k h @ [h ! k]"
    using Suc.prems by (simp add: take_Suc_conv_app_nth)
  ultimately show ?case
    unfolding shiftHistory.simps u by (simp only: append.assoc append.simps)
qed

lemma length_shiftHistory [simp]: "length (shiftHistory k h) = length h"
  by (induction k h rule: shiftHistory.induct) simp_all

lemma shiftHistory_head:
  assumes "k < length h"
  shows "(shiftHistory k h)[0 := x] = x # take k h @ drop (Suc k) h"
  using assms by (cases h) (simp_all add: shiftHistory_eq)

lemma unat_ucast_count:
  assumes "unat (n :: u32) \<le> RESET_HISTORY_CAPACITY"
  shows "unat (ucast n :: u8) = unat n"
  using assms by (simp add: RESET_HISTORY_CAPACITY_def unsigned_ucast_eq take_bit_nat_eq_self)

lemma unat_ucast_up: "unat (ucast (n :: u8) :: u32) = unat n"
proof -
  have "unat n < 2 ^ 8" using unsigned_less [of n, where 'a = nat] by simp
  then have "take_bit 32 (unat n) = unat n" by (intro take_bit_nat_eq_self) simp
  then show ?thesis by (simp add: unsigned_ucast_eq)
qed

text \<open>The reset count the next boot starts from.\<close>

definition effectiveHistory :: "SafetyResetRecord \<Rightarrow> ResetHistoryEntry list" where
  "effectiveHistory r =
     (if safetyResetRecordValid r then take (unat (historyCount r)) (history r) else [])"

definition effectiveCount :: "SafetyResetRecord \<Rightarrow> u32" where
  "effectiveCount r = (if safetyResetRecordValid r then unsafeResetCount r else 0)"

definition effectiveUptime :: "SafetyResetRecord \<Rightarrow> u32" where
  "effectiveUptime r =
     (if safetyResetRecordValid r \<and> currentUptimeMsInverse r = NOT (currentUptimeMs r)
      then currentUptimeMs r else 0)"

lemma valid_historyCount_le:
  "safetyResetRecordValid r \<Longrightarrow> unat (historyCount r) \<le> RESET_HISTORY_CAPACITY"
  by (simp add: safetyResetRecordValid_def Let_def)


lemma begin_count:
  assumes "unat (if v then ucast n else 0 :: u8) = (if v then unat (n :: u32) else 0)"
    and "v \<Longrightarrow> unat n \<le> RESET_HISTORY_CAPACITY"
  defines "old \<equiv> (if v then ucast n else 0 :: u8)"
  shows "unat (if unat old < RESET_HISTORY_CAPACITY then old + 1 else of_nat RESET_HISTORY_CAPACITY)
       = min RESET_HISTORY_CAPACITY (Suc (if v then unat n else 0))"
  using assms
  by (auto simp: RESET_HISTORY_CAPACITY_def unat_word_ariths unat_of_nat min_def
      take_bit_nat_eq_self split: if_splits)

lemma begin_snapshot:
  assumes len: "length (history r) = RESET_HISTORY_CAPACITY"
    and s_def: "s = fst (beginSafetyResetGuard reason r)"
  shows "unat (resetHistoryCount s) = min RESET_HISTORY_CAPACITY (Suc (length (effectiveHistory r)))"
    and "length (resetHistory s) = RESET_HISTORY_CAPACITY"
    and "take (unat (resetHistoryCount s)) (resetHistory s)
       = take RESET_HISTORY_CAPACITY
           (\<lparr> reasonCode = currentSafetyResetReasonCode reason, uptimeMs = effectiveUptime r \<rparr>
            # effectiveHistory r)"
proof -
  let ?v = "safetyResetRecordValid r" and ?n = "historyCount r"
  define old where "old = (if ?v then ucast ?n else 0 :: u8)"
  define copied where "copied = (if ?v
            then take (unat old) (history r)
                   @ drop (unat old) (replicate RESET_HISTORY_CAPACITY emptyEntry)
            else replicate RESET_HISTORY_CAPACITY emptyEntry)"
  define c where "c = (if unat old < RESET_HISTORY_CAPACITY then old + 1
                       else of_nat RESET_HISTORY_CAPACITY)"
  define e where "e = \<lparr> reasonCode = currentSafetyResetReasonCode reason,
                        uptimeMs = effectiveUptime r \<rparr>"
  have le: "?v \<Longrightarrow> unat ?n \<le> RESET_HISTORY_CAPACITY"
    by (rule valid_historyCount_le)
  have uold: "unat old = (if ?v then unat ?n else 0)"
    using le by (simp add: old_def unat_ucast_count)
  have oldlen: "unat old = length (effectiveHistory r)"
    using le len by (simp add: uold effectiveHistory_def)
  have uc: "unat c = min RESET_HISTORY_CAPACITY (Suc (unat old))"
    using begin_count [of ?v ?n, folded old_def, folded c_def] le uold by simp
  have lc: "length copied = RESET_HISTORY_CAPACITY"
    using le len by (simp add: copied_def uold)
  have ct: "take (unat old) copied = effectiveHistory r"
    using le len by (simp add: copied_def uold effectiveHistory_def)
  have s: "resetHistoryCount s = c"
      "resetHistory s = (shiftHistory (unat c - 1) copied)[0 := e]"
    by (simp_all add: s_def beginSafetyResetGuard_def Let_def c_def old_def copied_def e_def
        effectiveUptime_def)
  have lt: "unat c - 1 < length copied"
    by (simp add: uc lc RESET_HISTORY_CAPACITY_def min_def)
  show "unat (resetHistoryCount s) = min RESET_HISTORY_CAPACITY (Suc (length (effectiveHistory r)))"
    by (simp add: s uc oldlen)
  show "length (resetHistory s) = RESET_HISTORY_CAPACITY"
    by (simp add: s lc)
  have "take (unat c) ((shiftHistory (unat c - 1) copied)[0 := e]) = e # take (unat c - 1) copied"
  proof -
    have "unat c = Suc (unat c - 1)" by (simp add: uc RESET_HISTORY_CAPACITY_def min_def)
    then show ?thesis using shiftHistory_head [OF lt, of e] lt
      by (metis (no_types, lifting) append_eq_conv_conj append_Cons length_Cons length_take
          min.absorb4)
  qed
  also have "\<dots> = take RESET_HISTORY_CAPACITY (e # take (unat old) copied)"
    using uc by (auto simp: RESET_HISTORY_CAPACITY_def min_def take_Cons')
  finally show "take (unat (resetHistoryCount s)) (resetHistory s)
       = take RESET_HISTORY_CAPACITY
           (\<lparr> reasonCode = currentSafetyResetReasonCode reason, uptimeMs = effectiveUptime r \<rparr>
            # effectiveHistory r)"
    by (simp add: s ct e_def)
qed


lemma begin_record:
  assumes "length (history r) = RESET_HISTORY_CAPACITY"
    and "beginSafetyResetGuard reason r = (s, r')"
  shows "safetyResetRecordValid r'" and "relayMarker r' = SAFETY_RELAY_OPEN_MARKER"
    and "length (history r') = RESET_HISTORY_CAPACITY"
    and "unsafeResetCount r' = snapUnsafeResetCount s"
    and "bootLoopDetected s \<longleftrightarrow> SAFETY_BOOT_LOOP_THRESHOLD \<le> snapUnsafeResetCount s"
proof -
  let ?n = "ucast (resetHistoryCount s) :: u32"
  have r': "r' = initializeSafetyResetRecord SAFETY_RELAY_OPEN_MARKER (snapUnsafeResetCount s)
                   (Some (resetHistory s)) ?n r"
    using assms(2) by (auto simp: beginSafetyResetGuard_def Let_def)
  show "safetyResetRecordValid r'"
    unfolding r' using assms(1) by (intro valid_init) simp_all
  show "relayMarker r' = SAFETY_RELAY_OPEN_MARKER"
      and "unsafeResetCount r' = snapUnsafeResetCount s"
    unfolding r' using assms(1) by (simp_all add: initializeSafetyResetRecord_eq Let_def)
  show "length (history r') = RESET_HISTORY_CAPACITY"
    unfolding r' using assms(1) by (rule length_history_init)
  show "bootLoopDetected s \<longleftrightarrow> SAFETY_BOOT_LOOP_THRESHOLD \<le> snapUnsafeResetCount s"
    using assms(2) by (auto simp: beginSafetyResetGuard_def Let_def)
qed

lemma begin_stored_history:
  assumes "length (history r) = RESET_HISTORY_CAPACITY"
    and "beginSafetyResetGuard reason r = (s, r')"
  shows "effectiveHistory r' = take (unat (resetHistoryCount s)) (resetHistory s)"
proof -
  let ?n = "ucast (resetHistoryCount s) :: u32"
  have r': "r' = initializeSafetyResetRecord SAFETY_RELAY_OPEN_MARKER (snapUnsafeResetCount s)
                   (Some (resetHistory s)) ?n r"
    using assms(2) by (auto simp: beginSafetyResetGuard_def Let_def)
  have s: "s = fst (beginSafetyResetGuard reason r)" using assms(2) by simp
  note snap = begin_snapshot [OF assms(1) s]
  have n: "unat ?n = unat (resetHistoryCount s)" by (rule unat_ucast_up)
  have le: "unat (resetHistoryCount s) \<le> RESET_HISTORY_CAPACITY" using snap(1) by simp
  have "history r' = map (historyValue (Some (resetHistory s)) (unat ?n)) [0..<RESET_HISTORY_CAPACITY]"
      and "historyCount r' = ?n"
    unfolding r' using assms(1) n le by (simp_all add: initializeSafetyResetRecord_eq Let_def)
  then show ?thesis
    using begin_record(1) [OF assms] n le snap(2)
    by (auto simp: effectiveHistory_def historyValue_def intro!: nth_equalityI)
qed

lemma begin_unsafe:
  assumes "beginSafetyResetGuard reason r = (s, r')"
  shows "unsafeReset s \<longleftrightarrow> currentSafetyResetIsUnsafe reason
      \<or> (safetyResetRecordValid r \<and> relayMarker r = SAFETY_RELAY_CLOSED_MARKER)
      \<or> (\<not> safetyResetRecordValid r \<and> \<not> currentSafetyResetIsPowerOn reason)"
    and "resetDuringClose s \<longleftrightarrow>
      safetyResetRecordValid r \<and> relayMarker r = SAFETY_RELAY_CLOSED_MARKER"
proof -
  have s: "s = fst (beginSafetyResetGuard reason r)" using assms by simp
  show "unsafeReset s \<longleftrightarrow> currentSafetyResetIsUnsafe reason
      \<or> (safetyResetRecordValid r \<and> relayMarker r = SAFETY_RELAY_CLOSED_MARKER)
      \<or> (\<not> safetyResetRecordValid r \<and> \<not> currentSafetyResetIsPowerOn reason)"
    unfolding s beginSafetyResetGuard_def Let_def by simp
  show "resetDuringClose s \<longleftrightarrow>
      safetyResetRecordValid r \<and> relayMarker r = SAFETY_RELAY_CLOSED_MARKER"
    unfolding s beginSafetyResetGuard_def Let_def by simp
qed

lemma begin_unsafeCount:
  assumes "beginSafetyResetGuard reason r = (s, r')"
  shows "unat (snapUnsafeResetCount s) =
     (if unsafeReset s then min (2 ^ 32 - 1) (Suc (unat (effectiveCount r))) else 0)"
proof -
  have m: "unat (- 1 :: u32) = 2 ^ 32 - 1" by (rule unat_u32_max)
  have top: "unat x = 2 ^ 32 - 1" if "\<not> x < - 1" for x :: u32
  proof -
    have "x = - 1" using that word_order.not_eq_extremum by auto
    then show ?thesis using m by simp
  qed
  have lt: "unat x < 2 ^ 32 - 1" if "x < - 1" for x :: u32
    using unat_mono [OF that] m by simp
  have inc: "unat (x + 1) = Suc (unat x)" if "x < - 1" for x :: u32
    using lt [OF that] by (simp add: unat_word_ariths)
  let ?c = "effectiveCount r"
  have "snapUnsafeResetCount s = (if unsafeReset s \<and> ?c < - 1 then ?c + 1
          else if unsafeReset s then ?c else 0)"
    using assms by (auto simp: beginSafetyResetGuard_def Let_def effectiveCount_def)
  then show ?thesis
    using inc [of ?c] top [of ?c] lt [of ?c] by (auto simp: min_def)
qed

section \<open>Sequences of boots\<close>

text \<open>
  Between two resets the firmware only updates the marker and checkpoints the uptime; the
  last-checkpoint clock starts from 0 at every boot. A log of boots is kept newest first.
\<close>

datatype guard_op = Commanded bool | Checkpoint u32 bool

fun guardOp :: "guard_op \<Rightarrow> SafetyResetRecord \<times> u32 \<Rightarrow> SafetyResetRecord \<times> u32" where
  "guardOp (Commanded closed) (r, c) = (recordRelayCommandedClosed closed r, c)"
| "guardOp (Checkpoint up force) (r, c) = recordResetUptime up force (r, c)"

definition bootCycle :: "guard_op list \<times> esp_reset_reason \<Rightarrow> SafetyResetRecord
    \<Rightarrow> SafetyResetSnapshot \<times> SafetyResetRecord" where
  "bootCycle = (\<lambda>(ops, reason) r. beginSafetyResetGuard reason (fst (fold guardOp ops (r, 0))))"

fun bootRun :: "(guard_op list \<times> esp_reset_reason) list \<Rightarrow> SafetyResetRecord
    \<Rightarrow> SafetyResetSnapshot list \<times> SafetyResetRecord" where
  "bootRun [] r = ([], r)"
| "bootRun (c # older) r =
     (case bootRun older r of (ss, r1) \<Rightarrow> case bootCycle c r1 of (s, r2) \<Rightarrow> (s # ss, r2))"

definition guard_wf :: "SafetyResetRecord \<Rightarrow> bool" where
  "guard_wf r \<longleftrightarrow> safetyResetRecordValid r \<and> length (history r) = RESET_HISTORY_CAPACITY"

lemma guard_wf_op [wf_intros]:
  assumes "guard_wf (fst rc)"
  shows "guard_wf (fst (guardOp op rc)) \<and>
         unsafeResetCount (fst (guardOp op rc)) = unsafeResetCount (fst rc)"
  using assms
  by (cases op; cases rc)
    (auto simp: guard_wf_def unsafeResetCount_commandedClosed valid_commandedClosed
      valid_recordResetUptime)

lemma guard_wf_ops:
  assumes "guard_wf (fst rc)"
  shows "guard_wf (fst (fold guardOp ops rc)) \<and>
         unsafeResetCount (fst (fold guardOp ops rc)) = unsafeResetCount (fst rc)"
  using assms
proof (induction ops arbitrary: rc)
  case Nil
  then show ?case by simp
next
  case (Cons op ops)
  have "guard_wf (fst (guardOp op rc))"
      and "unsafeResetCount (fst (guardOp op rc)) = unsafeResetCount (fst rc)"
    using guard_wf_op [OF Cons.prems] by auto
  then show ?case using Cons.IH [of "guardOp op rc"] by simp
qed


lemma bootCycle_wf:
  assumes "guard_wf r" and "bootCycle c r = (s, r')"
  shows "guard_wf r'" and "bootLoopDetected s \<longleftrightarrow> 3 \<le> unat (unsafeResetCount r')"
    and "unat (unsafeResetCount r') =
      (if unsafeReset s then min (2 ^ 32 - 1) (Suc (unat (unsafeResetCount r))) else 0)"
proof -
  obtain ops reason where c: "c = (ops, reason)" by (cases c)
  let ?r = "fst (fold guardOp ops (r, 0))"
  have boot: "beginSafetyResetGuard reason ?r = (s, r')"
    using assms(2) by (simp add: c bootCycle_def)
  have wf: "guard_wf ?r" and cnt: "unsafeResetCount ?r = unsafeResetCount r"
    using guard_wf_ops [of "(r, 0)" ops] assms(1) by simp_all
  have len: "length (history ?r) = RESET_HISTORY_CAPACITY"
      and eff: "effectiveCount ?r = unsafeResetCount r"
    using wf cnt by (simp_all add: guard_wf_def effectiveCount_def)
  note rec = begin_record [OF len boot]
  show "guard_wf r'" using rec by (simp add: guard_wf_def)
  show "bootLoopDetected s \<longleftrightarrow> 3 \<le> unat (unsafeResetCount r')"
    using rec(4,5) by (simp add: SAFETY_BOOT_LOOP_THRESHOLD_def word_le_nat_alt)
  show "unat (unsafeResetCount r') =
      (if unsafeReset s then min (2 ^ 32 - 1) (Suc (unat (unsafeResetCount r))) else 0)"
    using begin_unsafeCount [OF boot] by (simp only: rec(4) eff)
qed

lemma bootRun_invariant:
  assumes "guard_wf r" and "unsafeResetCount r = 0" and "bootRun log r = (ss, r')"
  shows "guard_wf r' \<and> length ss = length log \<and>
     unat (unsafeResetCount r') = min (2 ^ 32 - 1) (length (takeWhile unsafeReset ss))"
  using assms(3)
proof (induction log arbitrary: ss r')
  case Nil
  then show ?case using assms(1,2) by auto
next
  case (Cons c log)
  obtain ss1 r1 where run: "bootRun log r = (ss1, r1)" by (cases "bootRun log r")
  obtain s where boot: "bootCycle c r1 = (s, r')" and ss: "ss = s # ss1"
    using Cons.prems run by (auto split: prod.splits)
  note IH = Cons.IH [OF run]
  show ?case
    using IH bootCycle_wf [OF conjunct1 [OF IH] boot] by (auto simp: ss)
qed

lemma bootRun_last:
  assumes "guard_wf r" and "unsafeResetCount r = 0" and "bootRun (c # log) r = (s # ss, r')"
  shows "bootLoopDetected s \<longleftrightarrow> 3 \<le> unat (unsafeResetCount r')"
proof -
  obtain r1 where run: "bootRun log r = (ss, r1)" and boot: "bootCycle c r1 = (s, r')"
    using assms(3) by (auto split: prod.splits)
  show ?thesis
    using bootRun_invariant [OF assms(1,2) run] bootCycle_wf(2) [OF _ boot] by blast
qed

lemma takeWhile_length_ge:
  "n \<le> length (takeWhile P xs) \<longleftrightarrow> n \<le> length xs \<and> (\<forall>x \<in> set (take n xs). P x)"
proof (induction xs arbitrary: n)
  case Nil
  then show ?case by auto
next
  case (Cons x xs)
  then show ?case by (cases n) auto
qed

section \<open>A concrete record\<close>

text \<open>RTC memory at a first power-up, and the record the first boot writes over it.\<close>

definition rtcBlank :: SafetyResetRecord where
  "rtcBlank = \<lparr> magic = 0, magicInverse = 0, relayMarker = 0, relayMarkerInverse = 0,
     unsafeResetCount = 0, unsafeResetCountInverse = 0, historyCount = 0,
     historyCountInverse = 0, history = replicate RESET_HISTORY_CAPACITY emptyEntry,
     historyChecksum = 0, currentUptimeMs = 0, currentUptimeMsInverse = 0 \<rparr>"

definition rtcPowered :: SafetyResetRecord where
  "rtcPowered = snd (beginSafetyResetGuard ESP_RST_POWERON rtcBlank)"

lemma rtcBlank_facts:
  "length (history rtcBlank) = RESET_HISTORY_CAPACITY" "\<not> safetyResetRecordValid rtcBlank"
  by (simp_all add: rtcBlank_def magic_invalid)

lemma rtcPowered_facts:
  "guard_wf rtcPowered" "unsafeResetCount rtcPowered = 0"
  "relayMarker rtcPowered = SAFETY_RELAY_OPEN_MARKER"
proof -
  have boot: "beginSafetyResetGuard ESP_RST_POWERON rtcBlank =
      (fst (beginSafetyResetGuard ESP_RST_POWERON rtcBlank), rtcPowered)"
    by (simp add: rtcPowered_def)
  note rec = begin_record [OF rtcBlank_facts(1) boot]
  show "guard_wf rtcPowered" "relayMarker rtcPowered = SAFETY_RELAY_OPEN_MARKER"
    using rec by (simp_all add: guard_wf_def)
  have "unat (unsafeResetCount rtcPowered) = 0"
    using begin_unsafeCount [OF boot] begin_unsafe(1) [OF boot] rec(4) rtcBlank_facts(2)
    by (simp add: currentSafetyResetIsPowerOn_def)
  then show "unsafeResetCount rtcPowered = 0" by (simp add: unat_eq_0)
qed

lemma bootCycle_unsafe:
  "currentSafetyResetIsUnsafe reason \<Longrightarrow> unsafeReset (fst (bootCycle (ops, reason) r))"
  by (simp add: bootCycle_def begin_unsafe(1) [OF surjective_pairing])

section \<open>Properties\<close>

text \<open>
  A boot always leaves a valid record whose marker says OPEN: it carries the
  new unsafe count, and its reset history is the old one with the current reset pushed in
  front, cut at ten entries.
\<close>

lemma beginSafetyResetGuard_publishes:
  assumes "length (history r) = RESET_HISTORY_CAPACITY"
    and "beginSafetyResetGuard reason r = (s, r')"
  shows "safetyResetRecordValid r' \<and> relayMarker r' = SAFETY_RELAY_OPEN_MARKER
    \<and> unsafeResetCount r' = snapUnsafeResetCount s
    \<and> effectiveHistory r' = take RESET_HISTORY_CAPACITY
        (\<lparr> reasonCode = currentSafetyResetReasonCode reason, uptimeMs = effectiveUptime r \<rparr>
         # effectiveHistory r)"
  using begin_record [OF assms] begin_stored_history [OF assms]
    begin_snapshot(3) [OF assms(1), of s reason] assms(2) by simp

lemma beginSafetyResetGuard_publishes_witness:
  "safetyResetRecordValid (snd (beginSafetyResetGuard ESP_RST_PANIC rtcBlank))"
  using beginSafetyResetGuard_publishes [OF rtcBlank_facts(1) surjective_pairing] by blast

text \<open>
  Whatever store a reset interrupts while the record is being initialised, the
  next boot sees an invalid record, and so counts an unsafe reset unless power came up.
\<close>

lemma torn_initialisation_detected:
  assumes "0 < k" and "k < length (initStores marker count src n)"
    and "\<not> currentSafetyResetIsPowerOn reason"
  shows "unsafeReset (fst (beginSafetyResetGuard reason
           (runStores (take k (initStores marker count src n)) r)))"
  using torn_initialisation [OF assms(1,2)] assms(3)
    begin_unsafe(1) [OF surjective_pairing] by blast

lemma torn_initialisation_detected_witness:
  "unsafeReset (fst (beginSafetyResetGuard ESP_RST_SW
     (runStores (take 5 (initStores SAFETY_RELAY_OPEN_MARKER 0 None 0)) rtcPowered)))"
  by (rule torn_initialisation_detected)
    (simp_all add: initStores_def bodyStores_def currentSafetyResetIsPowerOn_def)

text \<open>The marker after a run of marker changes and checkpoints: that of the last change.\<close>

fun lastCommanded :: "bool \<Rightarrow> guard_op list \<Rightarrow> bool" where
  "lastCommanded closed [] = closed"
| "lastCommanded closed (Commanded c # ops) = lastCommanded c ops"
| "lastCommanded closed (Checkpoint up force # ops) = lastCommanded closed ops"

abbreviation markerOf :: "bool \<Rightarrow> u32" where
  "markerOf closed \<equiv> (if closed then SAFETY_RELAY_CLOSED_MARKER else SAFETY_RELAY_OPEN_MARKER)"

lemma ops_marker:
  assumes "guard_wf r" and "relayMarker r = markerOf b"
  shows "relayMarker (fst (fold guardOp ops (r, c))) = markerOf (lastCommanded b ops)"
  using assms
proof (induction b ops arbitrary: r c rule: lastCommanded.induct)
  case (1 closed)
  then show ?case by simp
next
  case (2 closed c' ops)
  have "guard_wf (recordRelayCommandedClosed c' r)"
    using guard_wf_op [of "(r, c)" "Commanded c'"] 2(2) by simp
  from 2(1) [OF this commandedClosed_marker] show ?case by simp
next
  case (3 closed up force ops)
  have "guard_wf (fst (recordResetUptime up force (r, c)))"
    using guard_wf_op [of "(r, c)" "Checkpoint up force"] 3(2) by simp
  moreover have "relayMarker (fst (recordResetUptime up force (r, c))) = markerOf closed"
    using 3(3) by simp
  ultimately show ?case
    using 3(1) [of "fst (recordResetUptime up force (r, c))" "snd (recordResetUptime up force (r, c))"] by simp
qed

text \<open>A valid record after the first \<open>k\<close> stores of a marker change.\<close>

lemma cut_marker:
  fixes k :: nat and closed b :: bool and r :: SafetyResetRecord
  assumes "safetyResetRecordValid r" and "relayMarker r = markerOf b"
  defines "t \<equiv> runStores (take k (markerStores closed)) r"
  shows "safetyResetRecordValid t \<longleftrightarrow> k \<noteq> 1 \<or> b = closed"
    and "safetyResetRecordValid t \<Longrightarrow> relayMarker t = markerOf (if k = 0 then b else closed)"
proof -
  let ?m = "markerOf closed"
  consider "k = 0" | "k = 1" | "2 \<le> k" by linarith
  then have "(safetyResetRecordValid t \<longleftrightarrow> k \<noteq> 1 \<or> b = closed) \<and>
    (safetyResetRecordValid t \<longrightarrow> relayMarker t = markerOf (if k = 0 then b else closed))"
  proof cases
    case 1
    then show ?thesis using assms(1,2) by (simp add: t_def)
  next
    case 2
    have t: "t = r\<lparr>relayMarkerInverse := NOT ?m\<rparr>" using 2 by (simp add: t_def markerStores_def Let_def)
    show ?thesis
    proof (cases "b = closed")
      case True
      have "relayMarkerInverse r = NOT (relayMarker r)" using assms(1) by (simp add: safetyResetRecordValid_def Let_def)
      then have "t = r" using t True assms(2) by simp
      then show ?thesis using assms(1,2) True by simp
    next
      case False
      then have "relayMarker r \<noteq> ?m" using assms(2) by (cases b; cases closed) simp_all
      from torn_marker [OF assms(1) this] show ?thesis using 2 False by (simp add: t_def)
    qed
  next
    case 3
    then have t: "t = r\<lparr>relayMarkerInverse := NOT ?m, relayMarker := ?m\<rparr>"
      by (simp add: t_def markerStores_def Let_def)
    show ?thesis using valid_marker_update [OF assms(1), of ?m] 3 by (simp add: t)
  qed
  then show "safetyResetRecordValid t \<longleftrightarrow> k \<noteq> 1 \<or> b = closed"
    and "safetyResetRecordValid t \<Longrightarrow> relayMarker t = markerOf (if k = 0 then b else closed)" by blast+
qed



text \<open>
  From a valid record with no unsafe resets on it, after any number of boots
  with any marker updates and checkpoints between them, a boot reports a boot loop exactly
  when it and the two boots before it were unsafe resets.
\<close>

lemma bootLoop_iff_three_unsafe:
  assumes "guard_wf r" and "unsafeResetCount r = 0" and "bootRun (c # log) r = (s # ss, r')"
  shows "bootLoopDetected s \<longleftrightarrow>
     3 \<le> length (s # ss) \<and> (\<forall>x \<in> set (take 3 (s # ss)). unsafeReset x)"
proof -
  have "bootLoopDetected s \<longleftrightarrow> 3 \<le> unat (unsafeResetCount r')"
    by (rule bootRun_last [OF assms])
  also have "\<dots> \<longleftrightarrow> 3 \<le> length (takeWhile unsafeReset (s # ss))"
    using bootRun_invariant [OF assms] by simp
  finally show ?thesis by (simp only: takeWhile_length_ge)
qed

lemma bootLoop_iff_three_unsafe_witness:
  "bootLoopDetected (hd (fst (bootRun
     [([], ESP_RST_PANIC), ([Commanded True], ESP_RST_WDT), ([], ESP_RST_PANIC)] rtcPowered)))"
proof -
  let ?c = "([], ESP_RST_PANIC)"
  obtain s1 r1 where b1: "bootCycle ?c rtcPowered = (s1, r1)" by fastforce
  obtain s2 r2 where b2: "bootCycle ([Commanded True], ESP_RST_WDT) r1 = (s2, r2)" by fastforce
  obtain s3 r3 where b3: "bootCycle ?c r2 = (s3, r3)" by fastforce
  have u: "unsafeReset s1" "unsafeReset s2" "unsafeReset s3"
    using bootCycle_unsafe [of ESP_RST_PANIC "[]" rtcPowered] b1
      bootCycle_unsafe [of ESP_RST_WDT "[Commanded True]" r1] b2
      bootCycle_unsafe [of ESP_RST_PANIC "[]" r2] b3 by simp_all
  have run: "bootRun [?c, ([Commanded True], ESP_RST_WDT), ?c] rtcPowered = ([s3, s2, s1], r3)"
    by (simp add: b1 b2 b3)
  have "bootLoopDetected s3"
    using bootLoop_iff_three_unsafe [OF rtcPowered_facts(1,2) run] u
    by (simp add: numeral_3_eq_3)
  then show ?thesis by (simp only: run fst_conv list.sel)
qed

end
