(* ===== verification/Relay_Types.thy ===== *)
theory Relay_Types
  imports Safety_Timer Reset_Guard
begin

text \<open>
  The vocabulary of the K1 driver: the enumerations of
  \<open>OpenBrewByWeightMachineTypes.h\<close> and \<open>OpenBrewByWeightSafety.h\<close>, the published
  snapshot, and the file-scope state of \<open>openBrewByWeight.cpp\<close> that the driver of
  \<open>OpenBrewByWeightMachineRelay.h\<close> reads and writes, as one record. The inputs that no
  code of the driver changes (the clock, the feedback pin, whether a write of the CLOSED
  level reaches the pad, the compile-time \<open>EXTERNAL_SAFETY_HARDWARE_PRESENT\<close>) are fields
  of the same record.
\<close>

section \<open>Constants and enumerations\<close>

definition HARD_MAX_CIRCUIT_CLOSED_MS :: u32 where "HARD_MAX_CIRCUIT_CLOSED_MS = 60000"
definition BACKFLUSH_MAX_CIRCUIT_CLOSED_MS :: u32 where
  "BACKFLUSH_MAX_CIRCUIT_CLOSED_MS = 180000"
definition CIRCUIT_FEEDBACK_SETTLE_MS :: u32 where "CIRCUIT_FEEDBACK_SETTLE_MS = 100"
definition SAFETY_HEARTBEAT_TOGGLE_MS :: u32 where "SAFETY_HEARTBEAT_TOGGLE_MS = 50"

datatype RelayPurpose = NORMAL | BACKFLUSH_CANDIDATE | BACKFLUSH_CONFIRMED

datatype RelaySafetyState = BOOT_SAFE | OPEN | ARMING | CLOSED | TRIPPED | LOCKOUT

datatype RelaySafetyFault =
    NO_FAULT | INITIALIZATION_FAILED | WATCHDOG_UNAVAILABLE | INVALID_LIMIT
  | TIMER_ARM_FAILED | HARD_LIMIT | OPERATIONAL_LIMIT | FEEDBACK_STUCK_CLOSED
  | FEEDBACK_FAILED_TO_CLOSE | FEEDBACK_CHANGED_UNEXPECTEDLY | TASK_WATCHDOG_FAILURE
  | GPIO_DESYNC

datatype CircuitArmFailReason =
    ARM_INVALID_LIMIT | ARM_SAFETY_LOCKOUT | ARM_SUPERVISOR_UNAVAILABLE
  | ARM_FEEDBACK_STUCK_CLOSED | ARM_TIMER_ARM_FAILED | ARM_CANCELED

text \<open>The relay debug events, with the argument the driver passes.\<close>

datatype relay_event =
    RELAY_CLOSED u32 | RELAY_OPENED | CIRCUIT_ARM_FAILED CircuitArmFailReason
  | RELAY_GPIO_DESYNC

section \<open>The driver's state\<close>

record relay =
  nowUs :: nat
  externalSafety :: bool
  feedbackPinClosed :: bool
  closeWriteOk :: bool
  compatibilityMode :: bool
  pinClosed :: bool
  heartbeatPin :: bool
  circuitClosed :: bool
  relaySafetyTripped :: bool
  operationalLimitTripped :: bool
  circuitClosedAtMs :: u32
  relayHardLimitMs :: u32
  relayElectricalClosedAtMs :: u32
  relayElectricalOpenedAtMs :: u32
  relayPurpose :: RelayPurpose
  operationalLimitAtArmMs :: u32
  relaySafetyState :: RelaySafetyState
  relaySafetyFault :: RelaySafetyFault
  relaySafetyGeneration :: u32
  relaySafetyTimersReady :: bool
  taskWatchdogReady :: bool
  firmwareInitializationComplete :: bool
  platformClockReady :: bool
  feedbackTransitionPending :: bool
  feedbackExpectedClosed :: bool
  feedbackTransitionStartedAtMs :: u32
  feedbackTransitionStampPending :: bool
  safetyHeartbeatLevel :: bool
  safetyHeartbeatToggledAtMs :: u32
  independentSafetyTimer :: timer
  relaySafetyTimer :: bool
  relaySafetyTimerDue :: "nat option"
  operationalLimitTimer :: bool
  operationalLimitTimerDue :: "nat option"
  rtcRecord :: SafetyResetRecord
  safetyResetStatus :: SafetyResetSnapshot
  watchdogFaulted :: bool
  safeRestart :: bool
  controlLogLatched :: bool
  relayEvents :: "relay_event list"

text \<open>The state before \<open>setup()\<close>: the initializers of the globals.\<close>

definition relay0 :: "bool \<Rightarrow> SafetyResetRecord \<Rightarrow> relay" where
  "relay0 external rtc = \<lparr>
     nowUs = 0, externalSafety = external, feedbackPinClosed = False, closeWriteOk = True,
     compatibilityMode = False, pinClosed = False, heartbeatPin = False,
     circuitClosed = False, relaySafetyTripped = False, operationalLimitTripped = False,
     circuitClosedAtMs = 0, relayHardLimitMs = HARD_MAX_CIRCUIT_CLOSED_MS,
     relayElectricalClosedAtMs = 0, relayElectricalOpenedAtMs = 0, relayPurpose = NORMAL,
     operationalLimitAtArmMs = HARD_MAX_CIRCUIT_CLOSED_MS, relaySafetyState = BOOT_SAFE,
     relaySafetyFault = NO_FAULT, relaySafetyGeneration = 0, relaySafetyTimersReady = False,
     taskWatchdogReady = False, firmwareInitializationComplete = False,
     platformClockReady = False, feedbackTransitionPending = False,
     feedbackExpectedClosed = False, feedbackTransitionStartedAtMs = 0,
     feedbackTransitionStampPending = False, safetyHeartbeatLevel = False,
     safetyHeartbeatToggledAtMs = 0, independentSafetyTimer = timer0,
     relaySafetyTimer = False, relaySafetyTimerDue = None, operationalLimitTimer = False,
     operationalLimitTimerDue = None, rtcRecord = rtc,
     safetyResetStatus = safetyResetSnapshot0, watchdogFaulted = False, safeRestart = False,
     controlLogLatched = False, relayEvents = [] \<rparr>"

record RelaySafetySnapshot =
  snState :: RelaySafetyState
  snFault :: RelaySafetyFault
  snClosed :: bool
  snCommandedClosed :: bool
  snFeedbackClosed :: bool
  snFeedbackAvailable :: bool
  snExternalSafetyPresent :: bool
  snWatchdogReady :: bool
  snTimersReady :: bool
  snTripped :: bool
  snOperationalTripped :: bool
  snGeneration :: u32
  snClosedAtMs :: u32
  snOperationalLimitMs :: u32
  snHardLimitMs :: u32
  snElectricalClosedAtMs :: u32
  snElectricalOpenedAtMs :: u32
  snPurpose :: RelayPurpose
  snResetReasonCode :: u32
  snUnsafeResetCount :: u32
  snBootLoopDetected :: bool
  snResetHistoryCount :: u8
  snResetHistory :: "ResetHistoryEntry list"

section \<open>Answers of the drivers\<close>

text \<open>
  The \<open>esp_timer\<close> and GPTimer services are outside the repository: the result of each call
  of one driver operation is an argument. A successful \<open>esp_timer_stop\<close> disarms the timer
  and a successful \<open>esp_timer_start_once\<close> arms it.
\<close>

record stop_io =
  siGptimer :: esp_err
  siHard :: esp_err
  siOperational :: esp_err

record relay_io =
  ioStopA :: stop_io
  ioStopB :: stop_io
  ioArm :: arm_io
  ioStopHard :: esp_err
  ioStartHard :: esp_err
  ioStartOperational :: esp_err

definition okStop :: stop_io where
  "okStop = \<lparr> siGptimer = ESP_OK, siHard = ESP_OK, siOperational = ESP_OK \<rparr>"

definition okIo :: relay_io where
  "okIo = \<lparr> ioStopA = okStop, ioStopB = okStop,
     ioArm = \<lparr> ioStop = ESP_OK, ioSetCount = ESP_OK, ioSetAlarm = ESP_OK, ioStart = ESP_OK \<rparr>,
     ioStopHard = ESP_OK, ioStartHard = ESP_OK, ioStartOperational = ESP_OK \<rparr>"

definition espStop :: "esp_err \<Rightarrow> nat option \<Rightarrow> nat option" where
  "espStop res due = (if res = ESP_OK then None else due)"

definition espStartOnce :: "esp_err \<Rightarrow> nat \<Rightarrow> nat \<Rightarrow> nat option \<Rightarrow> nat option" where
  "espStartOnce res now us due = (if res = ESP_OK then Some (now + us) else due)"

end
