(* ===== verification/Machine_Relay.thy ===== *)
theory Machine_Relay
  imports Relay_Types
begin

text \<open>
  \<open>OpenBrewByWeightMachineRelay.h\<close>: the K1 driver with its deadline and feedback
  supervision. Closing the circuit is a transaction with gaps in which the alarm interrupt
  and the timer task may run, so \<open>setMachineCircuitClosed\<close> is composed of the sections
  between those gaps; the composition here puts everything the other tasks did before the
  commit into one argument, the position of \<open>hostCircuitArmBeforeCommitHook\<close>, and
  \<open>Relay_System\<close> interleaves the sections freely. Every operation that has a result
  returns it beside the new state.
\<close>

section \<open>Clock, pins and the reset record\<close>

definition relayMillis :: "relay \<Rightarrow> u32" where
  "relayMillis s = millis (nowUs s)"

definition relayElapsed :: "u32 \<Rightarrow> relay \<Rightarrow> u32" where
  "relayElapsed since s = elapsedMs (nowUs s) since"

definition readCircuitFeedbackClosed :: "relay \<Rightarrow> bool" where
  "readCircuitFeedbackClosed s \<longleftrightarrow> externalSafety s \<and> feedbackPinClosed s"

definition recordClosed :: "bool \<Rightarrow> relay \<Rightarrow> relay" where
  "recordClosed closed s = s\<lparr>rtcRecord := recordRelayCommandedClosed closed (rtcRecord s)\<rparr>"

definition addDebugEvent :: "relay_event \<Rightarrow> relay \<Rightarrow> relay" where
  "addDebugEvent e s = s\<lparr>relayEvents := e # relayEvents s\<rparr>"

definition stopRelayDeadlineTimers :: "stop_io \<Rightarrow> relay \<Rightarrow> relay" where
  "stopRelayDeadlineTimers io s = s\<lparr>
     independentSafetyTimer := snd (timerStop (\<lambda>t. t) (siGptimer io) (independentSafetyTimer s)),
     relaySafetyTimerDue :=
       (if relaySafetyTimer s then espStop (siHard io) (relaySafetyTimerDue s)
        else relaySafetyTimerDue s),
     operationalLimitTimerDue :=
       (if operationalLimitTimer s then espStop (siOperational io) (operationalLimitTimerDue s)
        else operationalLimitTimerDue s)\<rparr>"

section \<open>Tripping\<close>

definition tripRelaySafetyLocked ::
    "RelaySafetyFault \<Rightarrow> bool \<Rightarrow> bool \<Rightarrow> bool \<Rightarrow> relay \<Rightarrow> relay" where
  "tripRelaySafetyLocked fault hardLimit operationalLimit lockout s = s\<lparr>
     pinClosed := False,
     relayElectricalOpenedAtMs :=
       (if circuitClosed s then relayMillis s else relayElectricalOpenedAtMs s),
     circuitClosed := False,
     relaySafetyGeneration := relaySafetyGeneration s + 1,
     relaySafetyState := (if lockout then LOCKOUT else TRIPPED),
     relaySafetyFault := fault,
     relaySafetyTripped := relaySafetyTripped s \<or> hardLimit,
     operationalLimitTripped := operationalLimitTripped s \<or> operationalLimit,
     feedbackExpectedClosed := False,
     feedbackTransitionPending := externalSafety s,
     feedbackTransitionStartedAtMs := relayMillis s,
     feedbackTransitionStampPending := False\<rparr>"

definition tripRelaySafety ::
    "stop_io \<Rightarrow> RelaySafetyFault \<Rightarrow> bool \<Rightarrow> bool \<Rightarrow> bool \<Rightarrow> relay \<Rightarrow> relay" where
  "tripRelaySafety io fault hardLimit operationalLimit lockout s =
     stopRelayDeadlineTimers io
       (recordClosed False (tripRelaySafetyLocked fault hardLimit operationalLimit lockout s))"

text \<open>The default arguments of the C++ declaration: no flags, lockout.\<close>

abbreviation tripLockout :: "stop_io \<Rightarrow> RelaySafetyFault \<Rightarrow> relay \<Rightarrow> relay" where
  "tripLockout io fault \<equiv> tripRelaySafety io fault False False True"

definition commandedState :: "RelaySafetyState \<Rightarrow> bool" where
  "commandedState st \<longleftrightarrow> st = ARMING \<or> st = CLOSED"

text \<open>
  The two timer-task callbacks: the critical section that decides and trips, and after it
  the RTC publication of a trip.
\<close>

definition hardLimitSection :: "relay \<Rightarrow> bool \<times> relay" where
  "hardLimitSection s =
     (if relayHardLimitMs s \<noteq> 0 \<and> commandedState (relaySafetyState s) \<and>
         relayHardLimitMs s \<le> relayMillis s - circuitClosedAtMs s
      then (True, tripRelaySafetyLocked HARD_LIMIT True False False s)
      else (False, s))"

definition relaySafetyTimerCallback :: "relay \<Rightarrow> relay" where
  "relaySafetyTimerCallback s =
     (case hardLimitSection s of (tripped, s1) \<Rightarrow> if tripped then recordClosed False s1 else s1)"

definition operationalLimitSection :: "relay \<Rightarrow> bool \<times> relay" where
  "operationalLimitSection s =
     (if operationalLimitAtArmMs s \<noteq> 0 \<and> commandedState (relaySafetyState s) \<and>
         operationalLimitAtArmMs s < relayHardLimitMs s \<and>
         operationalLimitAtArmMs s \<le> relayMillis s - circuitClosedAtMs s
      then (True, tripRelaySafetyLocked OPERATIONAL_LIMIT False True False s)
      else (False, s))"

definition operationalLimitTimerCallback :: "relay \<Rightarrow> relay" where
  "operationalLimitTimerCallback s =
     (case operationalLimitSection s of (tripped, s1) \<Rightarrow>
        if tripped then recordClosed False s1 else s1)"

definition openRelayElectricalFromIsr :: "relay \<Rightarrow> relay" where
  "openRelayElectricalFromIsr s = s\<lparr>pinClosed := False\<rparr>"

text \<open>The stack-overflow hook up to its abort.\<close>

definition vApplicationStackOverflowHook :: "relay \<Rightarrow> relay" where
  "vApplicationStackOverflowHook s = recordClosed False (openRelayElectricalFromIsr s)"

definition independentSafetyTimerCallback :: "relay \<Rightarrow> relay" where
  "independentSafetyTimerCallback s =
     (if relayHardLimitMs s \<noteq> 0 \<and> commandedState (relaySafetyState s) then
        let operational = operationalLimitAtArmMs s < relayHardLimitMs s;
            s1 = openRelayElectricalFromIsr s in
        s1\<lparr>relayElectricalOpenedAtMs :=
              (if circuitClosed s1 then relayMillis s1 else relayElectricalOpenedAtMs s1),
           circuitClosed := False,
           relaySafetyGeneration := relaySafetyGeneration s1 + 1,
           relaySafetyState := TRIPPED,
           relaySafetyFault := (if operational then OPERATIONAL_LIMIT else HARD_LIMIT),
           relaySafetyTripped := \<not> operational,
           operationalLimitTripped := operational,
           feedbackExpectedClosed := False,
           feedbackTransitionPending := externalSafety s1,
           feedbackTransitionStampPending := externalSafety s1\<rparr>
      else s)"

text \<open>The interrupt around it: the timer's entry, the callback, the timer's exit.\<close>

definition isrEnter :: "relay \<Rightarrow> bool \<times> relay" where
  "isrEnter s = (case alarmEnter (independentSafetyTimer s) of
     (call, t) \<Rightarrow> (call, s\<lparr>independentSafetyTimer := t\<rparr>))"

definition isrBody :: "relay \<Rightarrow> relay" where
  "isrBody s = (let s1 = independentSafetyTimerCallback s in
     s1\<lparr>independentSafetyTimer := alarmLeave True (independentSafetyTimer s1)\<rparr>)"

section \<open>Initialisation\<close>

text \<open>
  The results of the two \<open>esp_timer_create\<close> calls and of the GPTimer set-up. The
  rollback owner deletes the handles unless both are released.
\<close>

definition initializeRelaySafetyTimer ::
    "esp_err \<Rightarrow> esp_err \<Rightarrow> esp_err \<Rightarrow> esp_err \<Rightarrow> esp_err \<Rightarrow> relay \<Rightarrow> bool \<times> relay" where
  "initializeRelaySafetyTimer createHard createOper newRes registerRes enableRes s =
     (if relaySafetyTimer s \<or> operationalLimitTimer s then (False, s)
      else if createHard \<noteq> ESP_OK then (False, s)
      else if createOper \<noteq> ESP_OK then (False, s)
      else case timerBegin True newRes registerRes enableRes (independentSafetyTimer s) of
        (begun, t) \<Rightarrow>
          (let s1 = s\<lparr>independentSafetyTimer := t\<rparr> in
           if \<not> begun then (False, s1)
           else (True, s1\<lparr>relaySafetyTimer := True, operationalLimitTimer := True\<rparr>)))"

definition initializeRelaySafetyStateAfterBoot :: "relay \<Rightarrow> relay" where
  "initializeRelaySafetyStateAfterBoot s = s\<lparr>
     relaySafetyState :=
       (if platformClockReady s \<and> relaySafetyTimersReady s \<and> taskWatchdogReady s
        then OPEN else LOCKOUT),
     relaySafetyFault :=
       (if \<not> platformClockReady s \<or> \<not> relaySafetyTimersReady s then INITIALIZATION_FAILED
        else if \<not> taskWatchdogReady s then WATCHDOG_UNAVAILABLE else NO_FAULT)\<rparr>"


section \<open>Observing\<close>

definition relayCircuitClosed :: "relay \<Rightarrow> bool" where
  "relayCircuitClosed s = circuitClosed s"

definition getRelaySafetySnapshot :: "relay \<Rightarrow> RelaySafetySnapshot" where
  "getRelaySafetySnapshot s = \<lparr>
     snState = relaySafetyState s, snFault = relaySafetyFault s, snClosed = circuitClosed s,
     snCommandedClosed = commandedState (relaySafetyState s),
     snFeedbackClosed = readCircuitFeedbackClosed s,
     snFeedbackAvailable = externalSafety s, snExternalSafetyPresent = externalSafety s,
     snWatchdogReady = taskWatchdogReady s, snTimersReady = relaySafetyTimersReady s,
     snTripped = relaySafetyTripped s, snOperationalTripped = operationalLimitTripped s,
     snGeneration = relaySafetyGeneration s, snClosedAtMs = circuitClosedAtMs s,
     snOperationalLimitMs = operationalLimitAtArmMs s, snHardLimitMs = relayHardLimitMs s,
     snElectricalClosedAtMs = relayElectricalClosedAtMs s,
     snElectricalOpenedAtMs = relayElectricalOpenedAtMs s, snPurpose = relayPurpose s,
     snResetReasonCode = snapReasonCode (safetyResetStatus s),
     snUnsafeResetCount = snapUnsafeResetCount (safetyResetStatus s),
     snBootLoopDetected = bootLoopDetected (safetyResetStatus s),
     snResetHistoryCount = resetHistoryCount (safetyResetStatus s),
     snResetHistory = take (unat (resetHistoryCount (safetyResetStatus s)))
        (resetHistory (safetyResetStatus s))\<rparr>"

definition relayOutputIsClosed :: "relay \<Rightarrow> bool" where
  "relayOutputIsClosed s = pinClosed s"

definition writeRelayClosedOutput :: "relay \<Rightarrow> relay" where
  "writeRelayClosedOutput s = s\<lparr>pinClosed := (pinClosed s \<or> closeWriteOk s)\<rparr>"

section \<open>Closing and opening\<close>

definition reassertCommandedRelayClosedPin :: "relay_io \<Rightarrow> relay \<Rightarrow> bool \<times> relay" where
  "reassertCommandedRelayClosedPin io s =
     (let expired = circuitClosed s \<and> operationalLimitAtArmMs s \<noteq> 0 \<and>
            operationalLimitAtArmMs s \<le> relayElapsed (circuitClosedAtMs s) s;
          operational = operationalLimitAtArmMs s < relayHardLimitMs s;
          s1 = (if expired
                then tripRelaySafetyLocked
                       (if operational then OPERATIONAL_LIMIT else HARD_LIMIT)
                       (\<not> operational) operational False s
                else s);
          live = circuitClosed s1 \<and> relaySafetyState s1 = CLOSED \<and>
            (operationalLimitAtArmMs s1 = 0 \<or>
             relayElapsed (circuitClosedAtMs s1) s1 < operationalLimitAtArmMs s1);
          desync = live \<and> \<not> relayOutputIsClosed s1;
          s2 = (if desync then writeRelayClosedOutput s1 else s1);
          closed = live \<and> relayOutputIsClosed s2;
          s3 = (if expired then stopRelayDeadlineTimers (ioStopA io) (recordClosed False s2) else s2);
          s4 = (if desync then addDebugEvent RELAY_GPIO_DESYNC s3 else s3);
          s5 = (if live \<and> \<not> closed
                then tripRelaySafety (ioStopB io) GPIO_DESYNC True False False s4 else s4)
      in (closed, s5))"

text \<open>What the closing transaction carries across its gaps.\<close>

record close_ctx =
  ccGeneration :: u32
  ccClosingAtMs :: u32
  ccUnlimited :: bool
  ccLimitMs :: u32

datatype close_begin = Finished bool | Begun close_ctx

definition invalidCloseRequest :: "u32 \<Rightarrow> RelayPurpose \<Rightarrow> bool" where
  "invalidCloseRequest limitMs purpose \<longleftrightarrow>
     limitMs < 1 \<or> HARD_MAX_CIRCUIT_CLOSED_MS < limitMs \<or> purpose = BACKFLUSH_CONFIRMED \<or>
     (purpose = BACKFLUSH_CANDIDATE \<and> limitMs \<noteq> HARD_MAX_CIRCUIT_CLOSED_MS)"

definition supervisorUnavailable :: "relay \<Rightarrow> bool" where
  "supervisorUnavailable s \<longleftrightarrow>
     \<not> firmwareInitializationComplete s \<or> \<not> platformClockReady s \<or>
     \<not> relaySafetyTimersReady s \<or> (\<not> taskWatchdogReady s \<or> watchdogFaulted s) \<or>
     \<not> relaySafetyTimer s \<or> \<not> operationalLimitTimer s \<or>
     \<not> timerReady (independentSafetyTimer s)"

definition armFailed :: "CircuitArmFailReason \<Rightarrow> relay \<Rightarrow> relay" where
  "armFailed reason = addDebugEvent (CIRCUIT_ARM_FAILED reason)"

text \<open>Stopping old deadlines and publishing ARMING, once every check has passed.\<close>

definition publishArming ::
    "relay_io \<Rightarrow> u32 \<Rightarrow> RelayPurpose \<Rightarrow> relay \<Rightarrow> close_ctx \<times> relay" where
  "publishArming io limitMs purpose s =
     (let before = getRelaySafetySnapshot s;
          s1 = stopRelayDeadlineTimers (ioStopA io) s;
          unlimited = compatibilityMode s \<and> purpose = NORMAL;
          closingAtMs = relayMillis s1;
          preserveTripFlags = snTripped before \<or> snOperationalTripped before;
          generation = relaySafetyGeneration s1 + 1
      in (\<lparr> ccGeneration = generation, ccClosingAtMs = closingAtMs,
            ccUnlimited = unlimited, ccLimitMs = limitMs \<rparr>,
          s1\<lparr>relaySafetyGeneration := generation,
             circuitClosedAtMs := closingAtMs,
             relayPurpose := purpose,
             relayHardLimitMs := (if unlimited then 0 else HARD_MAX_CIRCUIT_CLOSED_MS),
             operationalLimitAtArmMs := (if unlimited then 0 else limitMs),
             relaySafetyTripped := (preserveTripFlags \<and> relaySafetyTripped s1),
             operationalLimitTripped := (preserveTripFlags \<and> operationalLimitTripped s1),
             relaySafetyFault := (if preserveTripFlags then relaySafetyFault s1 else NO_FAULT),
             relaySafetyState := ARMING,
             circuitClosed := False\<rparr>))"

text \<open>From the call to the end of the section that publishes ARMING.\<close>

definition closeBegin ::
    "relay_io \<Rightarrow> u32 \<Rightarrow> RelayPurpose \<Rightarrow> relay \<Rightarrow> close_begin \<times> relay" where
  "closeBegin io limitMs purpose s0 =
     (let s = s0\<lparr>controlLogLatched := True\<rparr>; before = getRelaySafetySnapshot s in
      if snClosed before then
        (case reassertCommandedRelayClosedPin io s of (b, s1) \<Rightarrow> (Finished b, s1))
      else if invalidCloseRequest limitMs purpose then
        (Finished False, armFailed ARM_INVALID_LIMIT (tripLockout (ioStopA io) INVALID_LIMIT s))
      else if snState before = LOCKOUT then
        (Finished False, armFailed ARM_SAFETY_LOCKOUT s)
      else if supervisorUnavailable s then
        (Finished False, armFailed ARM_SUPERVISOR_UNAVAILABLE
           (tripLockout (ioStopA io)
              (if \<not> taskWatchdogReady s \<or> watchdogFaulted s then WATCHDOG_UNAVAILABLE
               else INITIALIZATION_FAILED) s))
      else if externalSafety s \<and> readCircuitFeedbackClosed s then
        (Finished False, armFailed ARM_FEEDBACK_STUCK_CLOSED
           (tripLockout (ioStopA io) FEEDBACK_STUCK_CLOSED s))
      else
        case publishArming io limitMs purpose s of (ctx, s1) \<Rightarrow> (Begun ctx, s1))"

text \<open>Arming the three deadlines, in order; a failed arm does not skip the next.\<close>

definition closeArmIndependent :: "relay_io \<Rightarrow> close_ctx \<Rightarrow> relay \<Rightarrow> bool \<times> relay" where
  "closeArmIndependent io ctx s =
     (if ccUnlimited ctx then (True, s)
      else case timerArm (\<lambda>t. t) (ioArm io) (nowUs s) (ccLimitMs ctx) (independentSafetyTimer s) of
        (ok, t) \<Rightarrow> (ok, s\<lparr>independentSafetyTimer := t\<rparr>))"

definition closeArmHard :: "relay_io \<Rightarrow> close_ctx \<Rightarrow> bool \<Rightarrow> relay \<Rightarrow> bool \<times> relay" where
  "closeArmHard io ctx armed s =
     (if ccUnlimited ctx then (armed, s)
      else (armed \<and> ioStartHard io = ESP_OK,
            s\<lparr>relaySafetyTimerDue := espStartOnce (ioStartHard io) (nowUs s)
                (unat HARD_MAX_CIRCUIT_CLOSED_MS * 1000) (relaySafetyTimerDue s)\<rparr>))"

definition closeArmOperational :: "relay_io \<Rightarrow> close_ctx \<Rightarrow> bool \<Rightarrow> relay \<Rightarrow> bool \<times> relay" where
  "closeArmOperational io ctx armed s =
     (if ccUnlimited ctx \<or> \<not> ccLimitMs ctx < HARD_MAX_CIRCUIT_CLOSED_MS then (armed, s)
      else (armed \<and> ioStartOperational io = ESP_OK,
            s\<lparr>operationalLimitTimerDue := espStartOnce (ioStartOperational io) (nowUs s)
                (unat (ccLimitMs ctx) * 1000) (operationalLimitTimerDue s)\<rparr>))"

definition closeArm :: "relay_io \<Rightarrow> close_ctx \<Rightarrow> relay \<Rightarrow> bool \<times> relay" where
  "closeArm io ctx s =
     (case closeArmIndependent io ctx s of (a1, s1) \<Rightarrow>
      case closeArmHard io ctx a1 s1 of (a2, s2) \<Rightarrow> closeArmOperational io ctx a2 s2)"

text \<open>After the gap: publish the RTC CLOSE marker and commit, or give the close up.\<close>

definition commitAllowed :: "close_ctx \<Rightarrow> relay \<Rightarrow> bool" where
  "commitAllowed ctx s \<longleftrightarrow> relaySafetyGeneration s = ccGeneration ctx \<and>
     relaySafetyState s = ARMING \<and>
     (ccUnlimited ctx \<or> relayMillis s - ccClosingAtMs ctx < ccLimitMs ctx)"

definition closeCommit :: "relay_io \<Rightarrow> close_ctx \<Rightarrow> relay \<Rightarrow> bool \<times> relay" where
  "closeCommit io ctx s0 =
     (let s = recordClosed True s0 in
      if commitAllowed ctx s then
        let s1 = writeRelayClosedOutput s in
        (True, addDebugEvent (RELAY_CLOSED (if ccUnlimited ctx then 0 else ccLimitMs ctx))
           (s1\<lparr>relayElectricalClosedAtMs := relayMillis s1,
              relayElectricalOpenedAtMs := relayMillis s1,
              circuitClosed := True,
              relaySafetyState := CLOSED,
              feedbackExpectedClosed := True,
              feedbackTransitionPending := externalSafety s1,
              feedbackTransitionStartedAtMs := relayMillis s1,
              feedbackTransitionStampPending := False\<rparr>))
      else
        (False, armFailed ARM_CANCELED
           (stopRelayDeadlineTimers (ioStopB io) (recordClosed False s))))"

definition closeArmFailed :: "relay_io \<Rightarrow> relay \<Rightarrow> bool \<times> relay" where
  "closeArmFailed io s =
     (False, armFailed ARM_TIMER_ARM_FAILED (tripLockout (ioStopB io) TIMER_ARM_FAILED s))"

definition closeCircuit ::
    "relay_io \<Rightarrow> (relay \<Rightarrow> relay) \<Rightarrow> u32 \<Rightarrow> RelayPurpose \<Rightarrow> relay \<Rightarrow> bool \<times> relay" where
  "closeCircuit io hook limitMs purpose s =
     (case closeBegin io limitMs purpose s of
        (Finished b, s1) \<Rightarrow> (b, s1)
      | (Begun ctx, s1) \<Rightarrow>
          (case closeArm io ctx s1 of (armed, s2) \<Rightarrow>
             if \<not> armed then closeArmFailed io s2 else closeCommit io ctx (hook s2)))"

definition openCircuit :: "relay_io \<Rightarrow> relay \<Rightarrow> bool \<times> relay" where
  "openCircuit io s =
     (let wasClosed = circuitClosed s \<or> relaySafetyState s = ARMING;
          alreadyOpenedBySafety = \<not> circuitClosed s \<and>
            (relaySafetyState s = TRIPPED \<or> relaySafetyState s = LOCKOUT);
          s1 = s\<lparr>pinClosed := (if alreadyOpenedBySafety then pinClosed s else False),
                relayElectricalOpenedAtMs :=
                  (if \<not> alreadyOpenedBySafety \<and> circuitClosed s then relayMillis s
                   else relayElectricalOpenedAtMs s),
                circuitClosed := False,
                relaySafetyGeneration := relaySafetyGeneration s + 1,
                relaySafetyState :=
                  (if relaySafetyState s \<noteq> TRIPPED \<and> relaySafetyState s \<noteq> LOCKOUT then OPEN
                   else relaySafetyState s),
                feedbackExpectedClosed := False,
                feedbackTransitionPending := externalSafety s,
                feedbackTransitionStartedAtMs := relayMillis s,
                feedbackTransitionStampPending := False\<rparr>;
          s2 = stopRelayDeadlineTimers (ioStopA io) (recordClosed False s1)
      in (True, if wasClosed then addDebugEvent RELAY_OPENED s2 else s2))"

definition setMachineCircuitClosed ::
    "relay_io \<Rightarrow> (relay \<Rightarrow> relay) \<Rightarrow> bool \<Rightarrow> u32 \<Rightarrow> RelayPurpose \<Rightarrow> relay \<Rightarrow> bool \<times> relay" where
  "setMachineCircuitClosed io hook closed limitMs purpose s =
     (if closed then closeCircuit io hook limitMs purpose s else openCircuit io s)"


section \<open>Promoting a backflush close\<close>

text \<open>
  The admission check and the independent re-arm; the exchange of the task deadline; and,
  after the gap, the commit or the trip. The context is the closing time of the snapshot.
\<close>

definition promoteAdmitted :: "u32 \<Rightarrow> relay \<Rightarrow> bool" where
  "promoteAdmitted generation s \<longleftrightarrow>
     (let before = getRelaySafetySnapshot s in
      \<not> (\<not> snClosed before \<or> snState before \<noteq> CLOSED \<or> snGeneration before \<noteq> generation \<or>
         snTripped before \<or> snOperationalTripped before \<or>
         snPurpose before \<noteq> BACKFLUSH_CANDIDATE \<or>
         HARD_MAX_CIRCUIT_CLOSED_MS \<le> relayElapsed (snClosedAtMs before) s))"

definition promoteArm :: "relay_io \<Rightarrow> relay \<Rightarrow> bool \<times> relay" where
  "promoteArm io s =
     (case timerArm (\<lambda>t. t) (ioArm io) (nowUs s)
             (BACKFLUSH_MAX_CIRCUIT_CLOSED_MS - relayElapsed (circuitClosedAtMs s) s)
             (independentSafetyTimer s) of
        (ok, t) \<Rightarrow> (ok, s\<lparr>independentSafetyTimer := t\<rparr>))"

definition promoteHardDeadline :: "relay_io \<Rightarrow> u32 \<Rightarrow> bool \<Rightarrow> relay \<Rightarrow> bool \<times> relay" where
  "promoteHardDeadline io closedAtMs armed s =
     (if \<not> armed then (False, s)
      else let s1 = s\<lparr>relaySafetyTimerDue := espStop (ioStopHard io) (relaySafetyTimerDue s)\<rparr> in
        if ioStopHard io \<noteq> ESP_OK then (False, s1)
        else let elapsed = relayElapsed closedAtMs s1 in
          if \<not> elapsed < HARD_MAX_CIRCUIT_CLOSED_MS then (False, s1)
          else (ioStartHard io = ESP_OK,
                s1\<lparr>relaySafetyTimerDue := espStartOnce (ioStartHard io) (nowUs s1)
                   (unat (BACKFLUSH_MAX_CIRCUIT_CLOSED_MS - elapsed) * 1000)
                   (relaySafetyTimerDue s1)\<rparr>))"

definition promoteCommit ::
    "relay_io \<Rightarrow> u32 \<Rightarrow> u32 \<Rightarrow> bool \<Rightarrow> relay \<Rightarrow> bool \<times> relay" where
  "promoteCommit io generation closedAtMs armed s =
     (let committed = armed \<and> circuitClosed s \<and> relaySafetyState s = CLOSED \<and>
            relaySafetyGeneration s = generation \<and> relayPurpose s = BACKFLUSH_CANDIDATE \<and>
            \<not> relaySafetyTripped s \<and> \<not> operationalLimitTripped s \<and>
            relayElapsed closedAtMs s < HARD_MAX_CIRCUIT_CLOSED_MS in
      if committed then
        (True, s\<lparr>relayPurpose := BACKFLUSH_CONFIRMED,
                 relayHardLimitMs := BACKFLUSH_MAX_CIRCUIT_CLOSED_MS,
                 operationalLimitAtArmMs := BACKFLUSH_MAX_CIRCUIT_CLOSED_MS\<rparr>)
      else (False, tripLockout (ioStopB io) TIMER_ARM_FAILED s))"

definition promoteRelayBackflush ::
    "relay_io \<Rightarrow> (relay \<Rightarrow> relay) \<Rightarrow> u32 \<Rightarrow> relay \<Rightarrow> bool \<times> relay" where
  "promoteRelayBackflush io hook generation s =
     (if \<not> promoteAdmitted generation s then (False, s)
      else let closedAtMs = circuitClosedAtMs s in
        case promoteArm io s of (a1, s1) \<Rightarrow>
        case promoteHardDeadline io closedAtMs a1 s1 of (armed, s2) \<Rightarrow>
          promoteCommit io generation closedAtMs armed (hook s2))"

section \<open>Consuming the latched trips\<close>

definition consumeRelaySafetyTrip :: "relay_io \<Rightarrow> relay \<Rightarrow> bool \<times> relay" where
  "consumeRelaySafetyTrip io s =
     (let tripped = relaySafetyTripped s; isOpen = \<not> circuitClosed s;
          s1 = s\<lparr>relaySafetyTripped := False\<rparr>
      in (tripped, if tripped \<and> isOpen
                   then stopRelayDeadlineTimers (ioStopA io) (recordClosed False s1) else s1))"

definition consumeOperationalLimitTrip :: "relay_io \<Rightarrow> relay \<Rightarrow> bool \<times> relay" where
  "consumeOperationalLimitTrip io s =
     (let tripped = operationalLimitTripped s; isOpen = \<not> circuitClosed s;
          s1 = s\<lparr>operationalLimitTripped := False\<rparr>
      in (tripped, if tripped \<and> isOpen
                   then stopRelayDeadlineTimers (ioStopA io) (recordClosed False s1) else s1))"

section \<open>The periodic service\<close>

text \<open>
  The feedback half: after a commanded transition the pin has 100 ms to settle, and must
  agree with the command; with no transition pending it must agree at every pass.
  \<open>closedBefore\<close> is the snapshot's \<open>closed\<close>.
\<close>

definition serviceFeedback :: "relay_io \<Rightarrow> bool \<Rightarrow> relay \<Rightarrow> relay" where
  "serviceFeedback io closedBefore s0 =
     (let feedbackClosed = readCircuitFeedbackClosed s0;
          s = (if feedbackTransitionStampPending s0
               then s0\<lparr>feedbackTransitionStartedAtMs := relayMillis s0,
                       feedbackTransitionStampPending := False\<rparr> else s0)
      in if feedbackTransitionPending s then
           (if relayElapsed (feedbackTransitionStartedAtMs s) s < CIRCUIT_FEEDBACK_SETTLE_MS
            then s
            else
              let expectedClosed = feedbackExpectedClosed s;
                  s1 = s\<lparr>feedbackTransitionPending := False\<rparr> in
              if feedbackClosed \<noteq> expectedClosed
              then tripLockout (ioStopB io)
                     (if expectedClosed then FEEDBACK_FAILED_TO_CLOSE else FEEDBACK_STUCK_CLOSED) s1
              else s1)
         else if closedBefore \<noteq> feedbackClosed
         then tripLockout (ioStopB io)
                (if closedBefore then FEEDBACK_CHANGED_UNEXPECTEDLY else FEEDBACK_STUCK_CLOSED) s
         else s)"

definition serviceRelaySafety :: "relay_io \<Rightarrow> relay \<Rightarrow> relay" where
  "serviceRelaySafety io s =
     (if watchdogFaulted s then
        (tripLockout (ioStopA io) TASK_WATCHDOG_FAILURE s)\<lparr>safeRestart := True\<rparr>
      else
        let relay = getRelaySafetySnapshot s;
            supervise = snClosed relay \<and> snState relay \<noteq> TRIPPED \<and> snState relay \<noteq> LOCKOUT
        in case (if supervise then reassertCommandedRelayClosedPin io s else (True, s)) of
          (ok, s1) \<Rightarrow>
            if \<not> ok then s1
            else if snOperationalLimitMs relay \<noteq> 0 \<and>
                (snState relay = ARMING \<or> snClosed relay) \<and>
                snOperationalLimitMs relay \<le> relayElapsed (snClosedAtMs relay) s1
            then
              let operational = snOperationalLimitMs relay < snHardLimitMs relay in
              tripRelaySafety (ioStopB io) (if operational then OPERATIONAL_LIMIT else HARD_LIMIT)
                (\<not> operational) operational False s1
            else if \<not> externalSafety s1 then s1
            else serviceFeedback io (snClosed relay) s1)"

definition serviceSafetyHeartbeat :: "bool \<Rightarrow> relay \<Rightarrow> relay" where
  "serviceSafetyHeartbeat healthyLoopCompleted s =
     (if \<not> externalSafety s then s
      else
        let relay = getRelaySafetySnapshot s;
            healthy = healthyLoopCompleted \<and> snWatchdogReady relay \<and> snTimersReady relay \<and>
              \<not> watchdogFaulted s \<and> snState relay \<noteq> LOCKOUT \<and> snState relay \<noteq> TRIPPED
        in if \<not> healthy then s\<lparr>safetyHeartbeatLevel := False, heartbeatPin := False\<rparr>
           else if SAFETY_HEARTBEAT_TOGGLE_MS \<le> relayElapsed (safetyHeartbeatToggledAtMs s) s
           then s\<lparr>safetyHeartbeatLevel := \<not> safetyHeartbeatLevel s,
                  heartbeatPin := \<not> safetyHeartbeatLevel s,
                  safetyHeartbeatToggledAtMs := relayMillis s\<rparr>
           else s)"


end
