(* ===== verification/Relay_Facts.thy ===== *)
theory Relay_Facts
  imports Machine_Relay
begin

text \<open>
  What the K1 driver of \<open>Machine_Relay\<close> keeps and promises when its operations run one
  after another: the well-formedness of the state, the RTC marker, which requests close
  the circuit, what every refusal leaves behind, and what ends LOCKOUT.
\<close>

section \<open>Well-formedness\<close>

text \<open>
  The pad is driven CLOSED only while the circuit is recorded closed, which is exactly the
  CLOSED state; the hardware timer is consistent and the RTC record has its ten slots. The
  marker clause is the contract with the reset guard: a reset that finds the pad driven
  finds a valid CLOSED marker.
\<close>

definition relay_wf :: "relay \<Rightarrow> bool" where
  "relay_wf s \<longleftrightarrow> (pinClosed s \<longrightarrow> circuitClosed s) \<and>
     (circuitClosed s \<longleftrightarrow> relaySafetyState s = CLOSED) \<and>
     timer_wf (independentSafetyTimer s) \<and>
     length (history (rtcRecord s)) = RESET_HISTORY_CAPACITY"

definition marker_ok :: "relay \<Rightarrow> bool" where
  "marker_ok s \<longleftrightarrow> (circuitClosed s \<longrightarrow> safetyResetRecordValid (rtcRecord s) \<and>
     relayMarker (rtcRecord s) = SAFETY_RELAY_CLOSED_MARKER)"

lemma commandedState_simps [simp]:
  "commandedState ARMING" "commandedState CLOSED" "\<not> commandedState OPEN"
  "\<not> commandedState BOOT_SAFE" "\<not> commandedState TRIPPED" "\<not> commandedState LOCKOUT"
  by (simp_all add: commandedState_def)

lemmas stop_simps = stopRelayDeadlineTimers_def recordClosed_def addDebugEvent_def armFailed_def

lemma stop_keeps [simp]:
  "pinClosed (stopRelayDeadlineTimers io s) = pinClosed s"
  "circuitClosed (stopRelayDeadlineTimers io s) = circuitClosed s"
  "relaySafetyState (stopRelayDeadlineTimers io s) = relaySafetyState s"
  "rtcRecord (stopRelayDeadlineTimers io s) = rtcRecord s"
  "relaySafetyTripped (stopRelayDeadlineTimers io s) = relaySafetyTripped s"
  "operationalLimitTripped (stopRelayDeadlineTimers io s) = operationalLimitTripped s"
  "relaySafetyGeneration (stopRelayDeadlineTimers io s) = relaySafetyGeneration s"
  "relaySafetyFault (stopRelayDeadlineTimers io s) = relaySafetyFault s"
  "relayPurpose (stopRelayDeadlineTimers io s) = relayPurpose s"
  "relayHardLimitMs (stopRelayDeadlineTimers io s) = relayHardLimitMs s"
  "operationalLimitAtArmMs (stopRelayDeadlineTimers io s) = operationalLimitAtArmMs s"
  "circuitClosedAtMs (stopRelayDeadlineTimers io s) = circuitClosedAtMs s"
  "externalSafety (stopRelayDeadlineTimers io s) = externalSafety s"
  "compatibilityMode (stopRelayDeadlineTimers io s) = compatibilityMode s"
  "closeWriteOk (stopRelayDeadlineTimers io s) = closeWriteOk s"
  "nowUs (stopRelayDeadlineTimers io s) = nowUs s"
  "relayEvents (stopRelayDeadlineTimers io s) = relayEvents s"
  by (simp_all add: stopRelayDeadlineTimers_def)

lemma record_keeps [simp]:
  "pinClosed (recordClosed c s) = pinClosed s"
  "circuitClosed (recordClosed c s) = circuitClosed s"
  "relaySafetyState (recordClosed c s) = relaySafetyState s"
  "independentSafetyTimer (recordClosed c s) = independentSafetyTimer s"
  "relaySafetyTripped (recordClosed c s) = relaySafetyTripped s"
  "operationalLimitTripped (recordClosed c s) = operationalLimitTripped s"
  "relaySafetyGeneration (recordClosed c s) = relaySafetyGeneration s"
  "relaySafetyFault (recordClosed c s) = relaySafetyFault s"
  "relayPurpose (recordClosed c s) = relayPurpose s"
  "relayHardLimitMs (recordClosed c s) = relayHardLimitMs s"
  "operationalLimitAtArmMs (recordClosed c s) = operationalLimitAtArmMs s"
  "circuitClosedAtMs (recordClosed c s) = circuitClosedAtMs s"
  "externalSafety (recordClosed c s) = externalSafety s"
  "compatibilityMode (recordClosed c s) = compatibilityMode s"
  "closeWriteOk (recordClosed c s) = closeWriteOk s"
  "nowUs (recordClosed c s) = nowUs s"
  "relayEvents (recordClosed c s) = relayEvents s"
  by (simp_all add: recordClosed_def)

lemma event_keeps [simp]:
  "pinClosed (addDebugEvent e s) = pinClosed s"
  "circuitClosed (addDebugEvent e s) = circuitClosed s"
  "relaySafetyState (addDebugEvent e s) = relaySafetyState s"
  "independentSafetyTimer (addDebugEvent e s) = independentSafetyTimer s"
  "rtcRecord (addDebugEvent e s) = rtcRecord s"
  "relaySafetyTripped (addDebugEvent e s) = relaySafetyTripped s"
  "operationalLimitTripped (addDebugEvent e s) = operationalLimitTripped s"
  "relaySafetyGeneration (addDebugEvent e s) = relaySafetyGeneration s"
  "relaySafetyFault (addDebugEvent e s) = relaySafetyFault s"
  "relayPurpose (addDebugEvent e s) = relayPurpose s"
  "relayHardLimitMs (addDebugEvent e s) = relayHardLimitMs s"
  "operationalLimitAtArmMs (addDebugEvent e s) = operationalLimitAtArmMs s"
  "circuitClosedAtMs (addDebugEvent e s) = circuitClosedAtMs s"
  "externalSafety (addDebugEvent e s) = externalSafety s"
  "compatibilityMode (addDebugEvent e s) = compatibilityMode s"
  "closeWriteOk (addDebugEvent e s) = closeWriteOk s"
  "nowUs (addDebugEvent e s) = nowUs s"
  "relayEvents (addDebugEvent e s) = e # relayEvents s"
  by (simp_all add: addDebugEvent_def)

lemma rtc_record [simp]:
  "rtcRecord (recordClosed c s) = recordRelayCommandedClosed c (rtcRecord s)"
  by (simp add: recordClosed_def)

lemma timer_wf_stopDeadlines [wf_intros]:
  "timer_wf (independentSafetyTimer s) \<Longrightarrow>
   timer_wf (independentSafetyTimer (stopRelayDeadlineTimers io s))"
  by (simp add: stopRelayDeadlineTimers_def timer_wf_stop)

lemma trip_fields [simp]:
  "pinClosed (tripRelaySafety io f h o' l s) = False"
  "circuitClosed (tripRelaySafety io f h o' l s) = False"
  "relaySafetyState (tripRelaySafety io f h o' l s) = (if l then LOCKOUT else TRIPPED)"
  "relaySafetyFault (tripRelaySafety io f h o' l s) = f"
  "relaySafetyTripped (tripRelaySafety io f h o' l s) = (relaySafetyTripped s \<or> h)"
  "operationalLimitTripped (tripRelaySafety io f h o' l s) = (operationalLimitTripped s \<or> o')"
  "externalSafety (tripRelaySafety io f h o' l s) = externalSafety s"
  "compatibilityMode (tripRelaySafety io f h o' l s) = compatibilityMode s"
  "relayHardLimitMs (tripRelaySafety io f h o' l s) = relayHardLimitMs s"
  "nowUs (tripRelaySafety io f h o' l s) = nowUs s"
  "relayEvents (tripRelaySafety io f h o' l s) = relayEvents s"
  "rtcRecord (tripRelaySafety io f h o' l s) = recordRelayCommandedClosed False (rtcRecord s)"
  by (simp_all add: tripRelaySafety_def tripRelaySafetyLocked_def)

lemma tripLocked_fields [simp]:
  "pinClosed (tripRelaySafetyLocked f h o' l s) = False"
  "circuitClosed (tripRelaySafetyLocked f h o' l s) = False"
  "relaySafetyState (tripRelaySafetyLocked f h o' l s) = (if l then LOCKOUT else TRIPPED)"
  "relaySafetyFault (tripRelaySafetyLocked f h o' l s) = f"
  "independentSafetyTimer (tripRelaySafetyLocked f h o' l s) = independentSafetyTimer s"
  "rtcRecord (tripRelaySafetyLocked f h o' l s) = rtcRecord s"
  "externalSafety (tripRelaySafetyLocked f h o' l s) = externalSafety s"
  "compatibilityMode (tripRelaySafetyLocked f h o' l s) = compatibilityMode s"
  "relayHardLimitMs (tripRelaySafetyLocked f h o' l s) = relayHardLimitMs s"
  "nowUs (tripRelaySafetyLocked f h o' l s) = nowUs s"
  by (simp_all add: tripRelaySafetyLocked_def)

lemma relay_wf_record [wf_intros]: "relay_wf s \<Longrightarrow> relay_wf (recordClosed c s)"
  by (auto simp: relay_wf_def)

lemma relay_wf_event [wf_intros]: "relay_wf s \<Longrightarrow> relay_wf (addDebugEvent e s)"
  by (auto simp: relay_wf_def)

lemma relay_wf_stop [wf_intros]: "relay_wf s \<Longrightarrow> relay_wf (stopRelayDeadlineTimers io s)"
  by (auto simp: relay_wf_def timer_wf_stopDeadlines)

lemma relay_wf_tripLocked [wf_intros]:
  "relay_wf s \<Longrightarrow> relay_wf (tripRelaySafetyLocked f h o' l s)"
  by (simp add: relay_wf_def)

lemma relay_wf_trip [wf_intros]: "relay_wf s \<Longrightarrow> relay_wf (tripRelaySafety io f h o' l s)"
  unfolding tripRelaySafety_def by (intro relay_wf_stop relay_wf_record relay_wf_tripLocked)

lemma relay_wf_timerCallbacks [wf_intros]:
  "relay_wf s \<Longrightarrow> relay_wf (relaySafetyTimerCallback s)"
  "relay_wf s \<Longrightarrow> relay_wf (operationalLimitTimerCallback s)"
  by (simp_all add: relaySafetyTimerCallback_def operationalLimitTimerCallback_def
      hardLimitSection_def operationalLimitSection_def relay_wf_record relay_wf_tripLocked)

lemma relay_wf_isr [wf_intros]: "relay_wf s \<Longrightarrow> relay_wf (independentSafetyTimerCallback s)"
  by (auto simp: relay_wf_def independentSafetyTimerCallback_def openRelayElectricalFromIsr_def Let_def)

lemma relay_wf_isrEnter [wf_intros]: "relay_wf s \<Longrightarrow> relay_wf (snd (isrEnter s))"
  using timer_wf_enter [of "independentSafetyTimer s"]
  by (auto simp: relay_wf_def isrEnter_def split: prod.splits)

lemma relay_wf_isrBody [wf_intros]: "relay_wf s \<Longrightarrow> relay_wf (isrBody s)"
  using relay_wf_isr [of s] timer_wf_leave [of "independentSafetyTimer (independentSafetyTimerCallback s)" True]
  by (auto simp: relay_wf_def isrBody_def Let_def)

lemma reassert_closed:
  assumes "relay_wf s"
  shows "fst (reassertCommandedRelayClosedPin io s) \<longleftrightarrow>
     pinClosed (snd (reassertCommandedRelayClosedPin io s))"
    and "\<not> fst (reassertCommandedRelayClosedPin io s) \<Longrightarrow>
     \<not> circuitClosed (snd (reassertCommandedRelayClosedPin io s))"
  using assms
  by (auto simp: reassertCommandedRelayClosedPin_def relayOutputIsClosed_def
      writeRelayClosedOutput_def relay_wf_def relayElapsed_def Let_def)

lemma relay_wf_reassert [wf_intros]:
  assumes "relay_wf s"
  shows "relay_wf (snd (reassertCommandedRelayClosedPin io s))"
proof -
  have w: "relay_wf (writeRelayClosedOutput t)" if "relay_wf t" "circuitClosed t" for t
    using that by (auto simp: relay_wf_def writeRelayClosedOutput_def)
  show ?thesis
    using assms
    by (auto simp: reassertCommandedRelayClosedPin_def Let_def
        intro!: relay_wf_trip relay_wf_event relay_wf_stop relay_wf_record relay_wf_tripLocked w)
qed

lemma relay_wf_latch [wf_intros]: "relay_wf s \<Longrightarrow> relay_wf (s\<lparr>controlLogLatched := True\<rparr>)"
  by (auto simp: relay_wf_def)

lemma relay_wf_publishArming [wf_intros]:
  assumes "relay_wf s" and "\<not> circuitClosed s"
  shows "relay_wf (snd (publishArming io limit purpose s))"
proof -
  have "\<not> pinClosed s" "timer_wf (independentSafetyTimer (stopRelayDeadlineTimers (ioStopA io) s))"
      "length (history (rtcRecord s)) = RESET_HISTORY_CAPACITY"
    using assms relay_wf_stop [OF assms(1), of "ioStopA io"] by (auto simp: relay_wf_def)
  then show ?thesis by (simp add: publishArming_def relay_wf_def Let_def)
qed

text \<open>The exits of the opening section, as cases.\<close>

lemma closeBegin_cases:
  obtains (closed) "circuitClosed s"
      "closeBegin io limit purpose s =
         (case reassertCommandedRelayClosedPin io (s\<lparr>controlLogLatched := True\<rparr>) of
            (b, s1) \<Rightarrow> (Finished b, s1))"
  | (invalid) "\<not> circuitClosed s" "invalidCloseRequest limit purpose"
      "closeBegin io limit purpose s = (Finished False, armFailed ARM_INVALID_LIMIT
         (tripLockout (ioStopA io) INVALID_LIMIT (s\<lparr>controlLogLatched := True\<rparr>)))"
  | (lockout) "\<not> circuitClosed s" "\<not> invalidCloseRequest limit purpose"
      "relaySafetyState s = LOCKOUT"
      "closeBegin io limit purpose s = (Finished False,
         armFailed ARM_SAFETY_LOCKOUT (s\<lparr>controlLogLatched := True\<rparr>))"
  | (supervisor) fault where "\<not> circuitClosed s" "\<not> invalidCloseRequest limit purpose"
      "relaySafetyState s \<noteq> LOCKOUT" "supervisorUnavailable s"
      "closeBegin io limit purpose s = (Finished False, armFailed ARM_SUPERVISOR_UNAVAILABLE
         (tripLockout (ioStopA io) fault (s\<lparr>controlLogLatched := True\<rparr>)))"
  | (feedback) "\<not> circuitClosed s" "\<not> invalidCloseRequest limit purpose"
      "relaySafetyState s \<noteq> LOCKOUT" "\<not> supervisorUnavailable s" "readCircuitFeedbackClosed s"
      "closeBegin io limit purpose s = (Finished False, armFailed ARM_FEEDBACK_STUCK_CLOSED
         (tripLockout (ioStopA io) FEEDBACK_STUCK_CLOSED (s\<lparr>controlLogLatched := True\<rparr>)))"
  | (begun) "\<not> circuitClosed s" "\<not> invalidCloseRequest limit purpose"
      "relaySafetyState s \<noteq> LOCKOUT" "\<not> supervisorUnavailable s" "\<not> readCircuitFeedbackClosed s"
      "closeBegin io limit purpose s =
         (case publishArming io limit purpose (s\<lparr>controlLogLatched := True\<rparr>) of
            (ctx, s1) \<Rightarrow> (Begun ctx, s1))"
proof -
  let ?l = "s\<lparr>controlLogLatched := True\<rparr>"
  have l: "supervisorUnavailable ?l = supervisorUnavailable s"
      "readCircuitFeedbackClosed ?l = readCircuitFeedbackClosed s"
      "snClosed (getRelaySafetySnapshot ?l) = circuitClosed s"
      "snState (getRelaySafetySnapshot ?l) = relaySafetyState s"
      "externalSafety s \<and> readCircuitFeedbackClosed s \<longleftrightarrow> readCircuitFeedbackClosed s"
    by (auto simp: supervisorUnavailable_def readCircuitFeedbackClosed_def getRelaySafetySnapshot_def)
  have fb: "readCircuitFeedbackClosed s \<Longrightarrow> externalSafety s"
    by (simp add: readCircuitFeedbackClosed_def)
  note eq = closeBegin_def [of io limit purpose s, unfolded Let_def l]
  consider "circuitClosed s"
    | "\<not> circuitClosed s" "invalidCloseRequest limit purpose"
    | "\<not> circuitClosed s" "\<not> invalidCloseRequest limit purpose" "relaySafetyState s = LOCKOUT"
    | "\<not> circuitClosed s" "\<not> invalidCloseRequest limit purpose" "relaySafetyState s \<noteq> LOCKOUT"
      "supervisorUnavailable s"
    | "\<not> circuitClosed s" "\<not> invalidCloseRequest limit purpose" "relaySafetyState s \<noteq> LOCKOUT"
      "\<not> supervisorUnavailable s" "readCircuitFeedbackClosed s"
    | "\<not> circuitClosed s" "\<not> invalidCloseRequest limit purpose" "relaySafetyState s \<noteq> LOCKOUT"
      "\<not> supervisorUnavailable s" "\<not> readCircuitFeedbackClosed s"
    by blast
  then show thesis
  proof cases
    case 1 show ?thesis by (rule closed [OF 1]) (simp add: eq 1)
  next
    case 2 show ?thesis by (rule invalid [OF 2]) (simp add: eq 2)
  next
    case 3 show ?thesis by (rule lockout [OF 3]) (simp add: eq 3)
  next
    case 4 show ?thesis by (rule supervisor [OF 4]) (simp add: eq 4)
  next
    case 5 show ?thesis by (rule feedback [OF 5]) (simp add: eq 5 fb)
  next
    case 6 show ?thesis by (rule begun [OF 6]) (simp add: eq 6)
  qed
qed

lemma relay_wf_closeBegin [wf_intros]:
  assumes "relay_wf s"
  shows "relay_wf (snd (closeBegin io limit purpose s))"
  using relay_wf_latch [OF assms]
  by (cases rule: closeBegin_cases [of s io limit purpose])
    (simp_all add: armFailed_def split_beta relay_wf_reassert relay_wf_event relay_wf_trip
      relay_wf_publishArming)

lemma relay_wf_closeArm [wf_intros]:
  "relay_wf s \<Longrightarrow> relay_wf (snd (closeArmIndependent io ctx s))"
  "relay_wf s \<Longrightarrow> relay_wf (snd (closeArmHard io ctx a s))"
  "relay_wf s \<Longrightarrow> relay_wf (snd (closeArmOperational io ctx a s))"
  using timer_wf_arm [of "independentSafetyTimer s" "\<lambda>t. t" "ioArm io" "nowUs s" "ccLimitMs ctx"]
  by (auto simp: relay_wf_def closeArmIndependent_def closeArmHard_def closeArmOperational_def
      split_beta)

lemma relay_wf_closeArmAll [wf_intros]:
  "relay_wf s \<Longrightarrow> relay_wf (snd (closeArm io ctx s))"
  by (simp add: closeArm_def split_beta relay_wf_closeArm)

lemma relay_wf_closeCommit [wf_intros]:
  assumes "relay_wf s"
  shows "relay_wf (snd (closeCommit io ctx s))"
  using assms
  by (auto simp: closeCommit_def armFailed_def Let_def
      intro!: relay_wf_event relay_wf_stop relay_wf_record)
    (auto simp: relay_wf_def writeRelayClosedOutput_def)

lemma relay_wf_closeArmFailed [wf_intros]:
  "relay_wf s \<Longrightarrow> relay_wf (snd (closeArmFailed io s))"
  by (simp add: closeArmFailed_def armFailed_def relay_wf_event relay_wf_trip)

lemma relay_wf_openCircuit [wf_intros]:
  assumes "relay_wf s"
  shows "relay_wf (snd (openCircuit io s))"
  using assms
  by (auto simp: openCircuit_def Let_def intro!: relay_wf_event relay_wf_stop relay_wf_record)
    (auto simp: relay_wf_def)

lemma relay_wf_closeCircuit [wf_intros]:
  assumes "relay_wf s" and "\<And>t. relay_wf t \<Longrightarrow> relay_wf (hook t)"
  shows "relay_wf (snd (closeCircuit io hook limit purpose s))"
proof (cases "closeBegin io limit purpose s")
  case (Pair r s1)
  then have "relay_wf s1" using relay_wf_closeBegin [OF assms(1), of io limit purpose] by simp
  then show ?thesis
    using assms(2) Pair
    by (cases r) (simp_all add: closeCircuit_def split_beta relay_wf_closeArmAll
        relay_wf_closeArmFailed relay_wf_closeCommit)
qed

lemma relay_wf_setMachineCircuitClosed [wf_intros]:
  assumes "relay_wf s" and "\<And>t. relay_wf t \<Longrightarrow> relay_wf (hook t)"
  shows "relay_wf (snd (setMachineCircuitClosed io hook closed limit purpose s))"
  using assms by (simp add: setMachineCircuitClosed_def relay_wf_closeCircuit relay_wf_openCircuit)

lemma relay_wf_promote [wf_intros]:
  "relay_wf s \<Longrightarrow> relay_wf (snd (promoteArm io s))"
  "relay_wf s \<Longrightarrow> relay_wf (snd (promoteHardDeadline io c a s))"
  "relay_wf s \<Longrightarrow> relay_wf (snd (promoteCommit io g c a s))"
proof -
  assume wf: "relay_wf s"
  show "relay_wf (snd (promoteArm io s))"
    using wf timer_wf_arm [of "independentSafetyTimer s" "\<lambda>t. t" "ioArm io" "nowUs s"
        "BACKFLUSH_MAX_CIRCUIT_CLOSED_MS - relayElapsed (circuitClosedAtMs s) s"]
    by (auto simp: relay_wf_def promoteArm_def split_beta)
  show "relay_wf (snd (promoteHardDeadline io c a s))"
    using wf by (auto simp: promoteHardDeadline_def relay_wf_def Let_def)
  show "relay_wf (snd (promoteCommit io g c a s))"
    using wf relay_wf_trip [OF wf] by (auto simp: promoteCommit_def Let_def) (auto simp: relay_wf_def)
qed

lemma relay_wf_promoteRelayBackflush [wf_intros]:
  assumes "relay_wf s" and "\<And>t. relay_wf t \<Longrightarrow> relay_wf (hook t)"
  shows "relay_wf (snd (promoteRelayBackflush io hook g s))"
  using assms by (simp add: promoteRelayBackflush_def split_beta Let_def relay_wf_promote)

lemma relay_wf_consume [wf_intros]:
  assumes "relay_wf s"
  shows "relay_wf (snd (consumeRelaySafetyTrip io s))"
    and "relay_wf (snd (consumeOperationalLimitTrip io s))"
proof -
  have "relay_wf (s\<lparr>relaySafetyTripped := False\<rparr>)" "relay_wf (s\<lparr>operationalLimitTripped := False\<rparr>)"
    using assms by (auto simp: relay_wf_def)
  then show "relay_wf (snd (consumeRelaySafetyTrip io s))"
      and "relay_wf (snd (consumeOperationalLimitTrip io s))"
    by (simp_all add: consumeRelaySafetyTrip_def consumeOperationalLimitTrip_def Let_def
        relay_wf_stop relay_wf_record)
qed

lemma relay_wf_feedbackFields:
  "relay_wf s \<Longrightarrow> relay_wf (s\<lparr>feedbackTransitionStartedAtMs := a, feedbackTransitionStampPending := b\<rparr>)"
  "relay_wf s \<Longrightarrow> relay_wf (s\<lparr>feedbackTransitionPending := b\<rparr>)"
  "relay_wf s \<Longrightarrow> relay_wf (s\<lparr>safeRestart := b\<rparr>)"
  by (auto simp: relay_wf_def)

lemma relay_wf_serviceFeedback [wf_intros]:
  "relay_wf s \<Longrightarrow> relay_wf (serviceFeedback io c s)"
  unfolding serviceFeedback_def Let_def
  by (simp add: relay_wf_feedbackFields relay_wf_trip split del: if_split split: if_splits)

lemma relay_wf_service [wf_intros]:
  assumes "relay_wf s"
  shows "relay_wf (serviceRelaySafety io s)"
  using assms
  by (simp add: serviceRelaySafety_def Let_def split_beta relay_wf_feedbackFields relay_wf_trip
      relay_wf_reassert relay_wf_serviceFeedback)

lemma relay_wf_heartbeat [wf_intros]:
  assumes "relay_wf s"
  shows "relay_wf (serviceSafetyHeartbeat h s)"
  using assms by (auto simp: serviceSafetyHeartbeat_def Let_def relay_wf_def)


section \<open>The RTC marker\<close>

text \<open>
  Every operation but the commit leaves a circuit that is closed afterwards closed before,
  with the record untouched; the commit publishes CLOSED first.
\<close>

definition marker_step :: "relay \<Rightarrow> relay \<Rightarrow> bool" where
  "marker_step s s' \<longleftrightarrow> (circuitClosed s' \<longrightarrow> circuitClosed s \<and> rtcRecord s' = rtcRecord s)"

lemma marker_step_ok: "marker_step s s' \<Longrightarrow> marker_ok s \<Longrightarrow> marker_ok s'"
  by (auto simp: marker_step_def marker_ok_def)

lemma marker_step_trans: "marker_step s s' \<Longrightarrow> marker_step s' s'' \<Longrightarrow> marker_step s s''"
  by (auto simp: marker_step_def)

lemma marker_step_reassert: "marker_step s (snd (reassertCommandedRelayClosedPin io s))"
  by (auto simp: marker_step_def reassertCommandedRelayClosedPin_def writeRelayClosedOutput_def Let_def)

lemma marker_step_closeBegin: "marker_step s (snd (closeBegin io limit purpose s))"
proof (cases rule: closeBegin_cases [of s io limit purpose])
  case closed
  then show ?thesis
    using marker_step_reassert [of "s\<lparr>controlLogLatched := True\<rparr>" io]
    by (simp add: split_beta marker_step_def)
qed (simp_all add: marker_step_def armFailed_def publishArming_def split_beta Let_def)

lemma marker_step_closeArm: "marker_step s (snd (closeArm io ctx s))"
  by (simp add: marker_step_def closeArm_def closeArmIndependent_def closeArmHard_def
      closeArmOperational_def split_beta)

lemma marker_ok_closeCommit:
  assumes "relay_wf s" and "marker_ok s" and "\<not> circuitClosed s"
  shows "marker_ok (snd (closeCommit io ctx s))"
  using assms
  by (auto simp: marker_ok_def closeCommit_def armFailed_def writeRelayClosedOutput_def Let_def
      relay_wf_def valid_commandedClosed)

lemma marker_step_trip: "marker_step s (tripRelaySafety io f hl ol lo s')"
  by (simp add: marker_step_def)

lemma marker_step_others:
  "marker_step s (snd (openCircuit io s))"
  "marker_step s (snd (closeArmFailed io s))"
  "marker_step s (relaySafetyTimerCallback s)"
  "marker_step s (operationalLimitTimerCallback s)"
  "marker_step s (snd (isrEnter s))"
  "marker_step s (isrBody s)"
  "marker_step s (snd (promoteArm io s))"
  "marker_step s (snd (promoteHardDeadline io c a s))"
  "marker_step s (snd (promoteCommit io g c a s))"
  "marker_step s (snd (consumeRelaySafetyTrip io s))"
  "marker_step s (snd (consumeOperationalLimitTrip io s))"
  "marker_step s (serviceSafetyHeartbeat h s)"
  by (simp_all add: marker_step_def openCircuit_def closeArmFailed_def armFailed_def
      relaySafetyTimerCallback_def operationalLimitTimerCallback_def hardLimitSection_def
      operationalLimitSection_def isrEnter_def isrBody_def
      independentSafetyTimerCallback_def openRelayElectricalFromIsr_def promoteArm_def
      promoteHardDeadline_def promoteCommit_def consumeRelaySafetyTrip_def
      consumeOperationalLimitTrip_def serviceSafetyHeartbeat_def split_beta Let_def)

lemma marker_step_serviceFeedback: "marker_step s (serviceFeedback io c s)"
  by (simp add: marker_step_def serviceFeedback_def Let_def)

lemma marker_step_service: "marker_step s (serviceRelaySafety io s)"
proof (cases "watchdogFaulted s")
  case True
  then show ?thesis by (simp add: serviceRelaySafety_def marker_step_def)
next
  case False
  note t = marker_step_trans [OF marker_step_reassert marker_step_serviceFeedback]
    marker_step_trip
  from False show ?thesis
    by (simp add: serviceRelaySafety_def Let_def split_beta t marker_step_reassert
        marker_step_serviceFeedback marker_step_trip)
      (simp add: marker_step_def)
qed

section \<open>Sequences of operations\<close>

text \<open>
  What may happen in the gap of a transaction, and the operations the tasks and the
  interrupt perform one after another. The clock advances between them.
\<close>

datatype interference = HardTimerFires | OperationalTimerFires | AlarmFires | TimePasses nat

fun interfere :: "interference \<Rightarrow> relay \<Rightarrow> relay" where
  "interfere HardTimerFires s = relaySafetyTimerCallback s"
| "interfere OperationalTimerFires s = operationalLimitTimerCallback s"
| "interfere AlarmFires s = (case isrEnter s of (call, s1) \<Rightarrow> if call then isrBody s1 else s1)"
| "interfere (TimePasses d) s = s\<lparr>nowUs := nowUs s + d\<rparr>"

definition gap :: "interference list \<Rightarrow> relay \<Rightarrow> relay" where
  "gap is = fold interfere is"

datatype relay_op =
    SetCircuit relay_io "interference list" bool u32 RelayPurpose
  | PromoteBackflush relay_io "interference list" u32
  | ConsumeTrip relay_io | ConsumeOperational relay_io
  | Service relay_io | Heartbeat bool
  | Trip stop_io RelaySafetyFault bool bool bool
  | Interfere interference

fun relayOp :: "relay_op \<Rightarrow> relay \<Rightarrow> relay" where
  "relayOp (SetCircuit io is closed limit purpose) s =
     snd (setMachineCircuitClosed io (gap is) closed limit purpose s)"
| "relayOp (PromoteBackflush io is g) s = snd (promoteRelayBackflush io (gap is) g s)"
| "relayOp (ConsumeTrip io) s = snd (consumeRelaySafetyTrip io s)"
| "relayOp (ConsumeOperational io) s = snd (consumeOperationalLimitTrip io s)"
| "relayOp (Service io) s = serviceRelaySafety io s"
| "relayOp (Heartbeat h) s = serviceSafetyHeartbeat h s"
| "relayOp (Trip io f h o' l) s = tripRelaySafety io f h o' l s"
| "relayOp (Interfere i) s = interfere i s"

lemma relay_wf_interfere [wf_intros]: "relay_wf s \<Longrightarrow> relay_wf (interfere i s)"
proof (cases i)
  case (TimePasses d)
  moreover assume "relay_wf s"
  ultimately show ?thesis by (auto simp: relay_wf_def)
qed (simp_all add: relay_wf_timerCallbacks relay_wf_isrEnter relay_wf_isrBody split_beta)

lemma marker_step_interfere: "marker_step s (interfere i s)"
  using marker_step_trans [OF marker_step_others(5) marker_step_others(6)]
  by (cases i) (simp_all add: marker_step_others split_beta, simp add: marker_step_def)

lemma interfere_not_closed:
  "relay_wf s \<Longrightarrow> marker_step s s' \<Longrightarrow> \<not> circuitClosed s \<Longrightarrow> \<not> circuitClosed s'"
  by (auto simp: marker_step_def)

lemma gap_facts:
  "relay_wf s \<Longrightarrow> relay_wf (gap is s)" "marker_step s (gap is s)"
proof -
  show "relay_wf s \<Longrightarrow> relay_wf (gap is s)"
    by (induction "is" arbitrary: s) (simp_all add: gap_def relay_wf_interfere)
  show "marker_step s (gap is s)"
  proof (induction "is" arbitrary: s)
    case Nil
    then show ?case by (simp add: gap_def marker_step_def)
  next
    case (Cons i "is")
    show ?case
      using marker_step_trans [OF marker_step_interfere [of s i] Cons [of "interfere i s"]]
      by (simp add: gap_def)
  qed
qed


lemma closeCircuit_inv:
  assumes "relay_wf s" and "marker_ok s"
  shows "marker_ok (snd (closeCircuit io (gap is) limit purpose s))"
proof (cases "closeBegin io limit purpose s")
  case (Pair r s1)
  have s1: "relay_wf s1" "marker_ok s1"
    using relay_wf_closeBegin [OF assms(1), of io limit purpose]
      marker_step_ok [OF marker_step_closeBegin assms(2), of io limit purpose] Pair by simp_all
  show ?thesis
  proof (cases r)
    case (Finished b)
    then show ?thesis using Pair s1 by (simp add: closeCircuit_def)
  next
    case (Begun ctx)
    have "\<not> circuitClosed s1"
      using Pair Begun by (cases rule: closeBegin_cases [of s io limit purpose])
        (auto simp: publishArming_def Let_def split: prod.splits)
    let ?s2 = "snd (closeArm io ctx s1)"
    have s2: "relay_wf ?s2" "marker_ok ?s2" "\<not> circuitClosed ?s2"
      using s1 relay_wf_closeArmAll marker_step_ok [OF marker_step_closeArm]
        marker_step_closeArm [of s1 io ctx] \<open>\<not> circuitClosed s1\<close> by (auto simp: marker_step_def)
    have s3: "relay_wf (gap is ?s2)" "marker_ok (gap is ?s2)" "\<not> circuitClosed (gap is ?s2)"
      using s2 gap_facts(1) marker_step_ok [OF gap_facts(2)] gap_facts(2) [of ?s2 "is"]
      by (auto simp: marker_step_def)
    show ?thesis
      using Pair Begun marker_ok_closeCommit [OF s3] marker_step_ok [OF marker_step_others(2) s2(2)]
      by (simp add: closeCircuit_def split_beta)
  qed
qed

lemma promote_marker_step:
  "marker_step s (snd (promoteRelayBackflush io (gap is) g s))"
proof (cases "promoteAdmitted g s")
  case True
  let ?s1 = "snd (promoteArm io s)"
  let ?a1 = "fst (promoteArm io s)"
  let ?s2 = "snd (promoteHardDeadline io (circuitClosedAtMs s) ?a1 ?s1)"
  have "marker_step s (gap is ?s2)"
    by (rule marker_step_trans [OF marker_step_others(7)
          marker_step_trans [OF marker_step_others(8) gap_facts(2)]])
  then have "marker_step s (snd (promoteCommit io g (circuitClosedAtMs s)
      (fst (promoteHardDeadline io (circuitClosedAtMs s) ?a1 ?s1)) (gap is ?s2)))"
    by (rule marker_step_trans [OF _ marker_step_others(9)])
  then show ?thesis
    using True by (simp only: promoteRelayBackflush_def split_beta Let_def not_True_eq_False if_False)
next
  case False
  then show ?thesis by (simp add: promoteRelayBackflush_def marker_step_def)
qed

lemma relayOp_inv:
  assumes "relay_wf s" and "marker_ok s"
  shows "relay_wf (relayOp op s) \<and> marker_ok (relayOp op s)"
proof (cases op)
  case (SetCircuit io "is" closed limit purpose)
  then show ?thesis
    using assms closeCircuit_inv marker_step_ok [OF marker_step_others(1) assms(2)]
      relay_wf_setMachineCircuitClosed [OF assms(1) gap_facts(1)]
    by (simp add: setMachineCircuitClosed_def)
next
  case (PromoteBackflush io "is" g)
  then show ?thesis
    using relay_wf_promoteRelayBackflush [OF assms(1) gap_facts(1)]
      marker_step_ok [OF promote_marker_step assms(2)] by simp
qed (use assms in \<open>simp_all add: relay_wf_consume relay_wf_service relay_wf_heartbeat
      relay_wf_trip relay_wf_interfere marker_step_ok [OF marker_step_others(10)]
      marker_step_ok [OF marker_step_others(11)] marker_step_ok [OF marker_step_service]
      marker_step_ok [OF marker_step_others(12)] marker_step_ok [OF marker_step_trip]
      marker_step_ok [OF marker_step_interfere]\<close>)

lemma relayOps_inv:
  assumes "relay_wf s" and "marker_ok s"
  shows "relay_wf (fold relayOp ops s) \<and> marker_ok (fold relayOp ops s)"
  using assms
proof (induction ops arbitrary: s)
  case (Cons op ops)
  then show ?case using relayOp_inv [OF Cons.prems, of op] by simp
qed simp

text \<open>The state \<open>setup()\<close> leaves: everything came up, nothing has closed yet.\<close>

definition bootedRelay :: "bool \<Rightarrow> relay" where
  "bootedRelay external = initializeRelaySafetyStateAfterBoot
     ((snd (initializeRelaySafetyTimer ESP_OK ESP_OK ESP_OK ESP_OK ESP_OK (relay0 external rtcPowered)))
      \<lparr>platformClockReady := True, relaySafetyTimersReady := True, taskWatchdogReady := True,
       firmwareInitializationComplete := True\<rparr>)"

lemma bootedRelay_facts:
  "relay_wf (bootedRelay x)" "marker_ok (bootedRelay x)" "relaySafetyState (bootedRelay x) = OPEN"
  "\<not> circuitClosed (bootedRelay x)" "\<not> supervisorUnavailable (bootedRelay x)"
  "externalSafety (bootedRelay x) = x" "\<not> feedbackPinClosed (bootedRelay x)"
  "\<not> compatibilityMode (bootedRelay x)" "closeWriteOk (bootedRelay x)" "nowUs (bootedRelay x) = 0"
  "\<not> relaySafetyTripped (bootedRelay x)" "\<not> operationalLimitTripped (bootedRelay x)"
  "relaySafetyGeneration (bootedRelay x) = 0" "\<not> callbackInFlight (independentSafetyTimer (bootedRelay x))"
proof -
  have len: "length (history rtcPowered) = RESET_HISTORY_CAPACITY"
    using rtcPowered_facts(1) by (simp add: guard_wf_def)
  note defs = bootedRelay_def initializeRelaySafetyStateAfterBoot_def initializeRelaySafetyTimer_def
    timerBegin_def relay0_def timer0_def Let_def
  show "relay_wf (bootedRelay x)" using len by (simp add: defs relay_wf_def timer_wf_def)
  show "marker_ok (bootedRelay x)" by (simp add: defs marker_ok_def)
  show "relaySafetyState (bootedRelay x) = OPEN" "\<not> circuitClosed (bootedRelay x)"
      "externalSafety (bootedRelay x) = x" "\<not> feedbackPinClosed (bootedRelay x)"
      "\<not> compatibilityMode (bootedRelay x)" "closeWriteOk (bootedRelay x)" "nowUs (bootedRelay x) = 0"
      "\<not> relaySafetyTripped (bootedRelay x)" "\<not> operationalLimitTripped (bootedRelay x)"
      "relaySafetyGeneration (bootedRelay x) = 0"
      "\<not> callbackInFlight (independentSafetyTimer (bootedRelay x))"
    by (simp_all add: defs)
  show "\<not> supervisorUnavailable (bootedRelay x)"
    by (simp add: defs supervisorUnavailable_def)
qed

section \<open>An undisturbed close\<close>

definition armsOk :: "relay_io \<Rightarrow> bool" where
  "armsOk io \<longleftrightarrow> siGptimer (ioStopA io) = ESP_OK \<and> ioStop (ioArm io) = ESP_OK \<and>
     ioSetCount (ioArm io) = ESP_OK \<and> ioSetAlarm (ioArm io) = ESP_OK \<and>
     ioStart (ioArm io) = ESP_OK \<and> ioStartHard io = ESP_OK \<and> ioStartOperational io = ESP_OK"

lemma armsOk_okIo [simp]: "armsOk okIo"
  by (simp add: armsOk_def okIo_def okStop_def)

lemma HARD_MAX_not_zero [simp]: "HARD_MAX_CIRCUIT_CLOSED_MS \<noteq> 0"
  by (simp add: HARD_MAX_CIRCUIT_CLOSED_MS_def)

definition admissible :: "u32 \<Rightarrow> RelayPurpose \<Rightarrow> relay \<Rightarrow> bool" where
  "admissible limit purpose s \<longleftrightarrow> \<not> circuitClosed s \<and> \<not> invalidCloseRequest limit purpose \<and>
     relaySafetyState s \<noteq> LOCKOUT \<and> \<not> supervisorUnavailable s \<and> \<not> readCircuitFeedbackClosed s \<and>
     \<not> callbackInFlight (independentSafetyTimer s) \<and> \<not> compatibilityMode s"

lemma closeArm_ok:
  assumes "armsOk io" and "timerReady (independentSafetyTimer s)"
    and "\<not> callbackInFlight (independentSafetyTimer s)" and "\<not> ccUnlimited ctx" and "ccLimitMs ctx \<noteq> 0"
  shows "fst (closeArm io ctx s)"
    and "independentSafetyTimer (snd (closeArm io ctx s)) = (independentSafetyTimer s)
      \<lparr>timerRunning := True, dueAtUs := nowUs s + unat (ccLimitMs ctx) * 1000\<rparr>"
    and "nowUs (snd (closeArm io ctx s)) = nowUs s"
    and "relaySafetyState (snd (closeArm io ctx s)) = relaySafetyState s"
    and "relaySafetyGeneration (snd (closeArm io ctx s)) = relaySafetyGeneration s"
    and "closeWriteOk (snd (closeArm io ctx s)) = closeWriteOk s"
    and "pinClosed (snd (closeArm io ctx s)) = pinClosed s"
    and "relaySafetyTimerDue (snd (closeArm io ctx s)) =
           Some (nowUs s + unat HARD_MAX_CIRCUIT_CLOSED_MS * 1000)"
  using assms
  by (simp_all add: closeArm_def closeArmIndependent_def closeArmHard_def closeArmOperational_def
      timerArm_def timerStop_def armsOk_def espStartOnce_def split_beta Let_def)

lemma limit_valid_not_zero: "\<not> invalidCloseRequest limit purpose \<Longrightarrow> limit \<noteq> 0"
  by (auto simp: invalidCloseRequest_def)

lemma close_undisturbed:
  assumes "relay_wf s" and "admissible limit purpose s" and "armsOk io"
    and "(nowUs s + d) div 1000 - nowUs s div 1000 < unat limit"
  defines "r \<equiv> setMachineCircuitClosed io (gap [TimePasses d]) True limit purpose s"
  shows "fst r" and "circuitClosed (snd r)" and "pinClosed (snd r) = closeWriteOk s"
    and "timerRunning (independentSafetyTimer (snd r))"
    and "dueAtUs (independentSafetyTimer (snd r)) = nowUs s + unat limit * 1000"
    and "relaySafetyTimerDue (snd r) = Some (nowUs s + unat HARD_MAX_CIRCUIT_CLOSED_MS * 1000)"
proof -
  let ?l = "s\<lparr>controlLogLatched := True\<rparr>"
  let ?ctx = "fst (publishArming io limit purpose ?l)"
  let ?s1 = "snd (publishArming io limit purpose ?l)"
  have adm: "\<not> circuitClosed s" "\<not> invalidCloseRequest limit purpose"
      "\<not> supervisorUnavailable s" "\<not> callbackInFlight (independentSafetyTimer s)"
      "\<not> compatibilityMode s" "\<not> pinClosed s"
    using assms(1,2) by (auto simp: admissible_def relay_wf_def)
  have ready: "timerReady (independentSafetyTimer s)"
    using adm(3) by (simp add: supervisorUnavailable_def)
  have ctx: "\<not> ccUnlimited ?ctx" "ccLimitMs ?ctx = limit" "ccGeneration ?ctx = relaySafetyGeneration ?s1"
      "ccClosingAtMs ?ctx = millis (nowUs s)"
    using adm by (simp_all add: publishArming_def Let_def relayMillis_def)
  have s1: "timerReady (independentSafetyTimer ?s1)" "\<not> callbackInFlight (independentSafetyTimer ?s1)"
      "relaySafetyState ?s1 = ARMING" "nowUs ?s1 = nowUs s" "closeWriteOk ?s1 = closeWriteOk s"
      "\<not> pinClosed ?s1"
    using adm ready by (simp_all add: publishArming_def Let_def stopRelayDeadlineTimers_def
        timerStop_def)
  note arm = closeArm_ok [OF assms(3) s1(1,2) ctx(1)]
  have lz: "ccLimitMs ?ctx \<noteq> 0" using limit_valid_not_zero [OF adm(2)] ctx by simp
  note arm = arm [OF lz]
  let ?s2 = "snd (closeArm io ?ctx ?s1)"
  let ?s3 = "gap [TimePasses d] ?s2"
  have el: "millis (nowUs s + d) - millis (nowUs s) < limit"
  proof -
    have "unat limit < 2 ^ 32" using unsigned_less [of limit, where 'a = nat] by simp
    then have "unat (elapsedMs (nowUs s + d) (millis (nowUs s))) = (nowUs s + d) div 1000 - nowUs s div 1000"
      using assms(4) by (intro unat_elapsed) simp_all
    then show ?thesis using assms(4) by (simp add: u32_less_unat elapsedMs_def)
  qed
  have s3: "nowUs ?s3 = nowUs s + d" "relaySafetyState ?s3 = ARMING"
      "relaySafetyGeneration ?s3 = ccGeneration ?ctx"
      "closeWriteOk ?s3 = closeWriteOk s" "independentSafetyTimer ?s3 = independentSafetyTimer ?s2"
      "relaySafetyTimerDue ?s3 = relaySafetyTimerDue ?s2" "\<not> pinClosed ?s3"
    using arm s1 ctx(3) by (simp_all add: gap_def)
  have r: "r = closeCommit io ?ctx ?s3"
  proof (cases rule: closeBegin_cases [of s io limit purpose])
    case begun
    then show ?thesis
      using arm(1) by (simp add: r_def setMachineCircuitClosed_def closeCircuit_def split_beta)
  qed (use assms(2) in \<open>simp_all add: admissible_def\<close>)
  have "commitAllowed ?ctx (recordClosed True ?s3)"
    using s3 el ctx by (simp add: commitAllowed_def relayMillis_def)
  then show "fst r" "circuitClosed (snd r)" "pinClosed (snd r) = closeWriteOk s"
      "timerRunning (independentSafetyTimer (snd r))"
      "dueAtUs (independentSafetyTimer (snd r)) = nowUs s + unat limit * 1000"
      "relaySafetyTimerDue (snd r) = Some (nowUs s + unat HARD_MAX_CIRCUIT_CLOSED_MS * 1000)"
    using s3 arm s1 ctx
    by (simp_all add: r closeCommit_def writeRelayClosedOutput_def Let_def addDebugEvent_def
        recordClosed_def)
qed

lemma bootedRelay_admissible: "admissible 30000 NORMAL (bootedRelay False)"
  using bootedRelay_facts [of False]
  by (simp add: admissible_def invalidCloseRequest_def HARD_MAX_CIRCUIT_CLOSED_MS_def
      readCircuitFeedbackClosed_def)

lemma bootedRelay_elapsed:
  "(nowUs (bootedRelay False) + 2000) div 1000 - nowUs (bootedRelay False) div 1000 < unat (30000::u32)"
  by (simp add: bootedRelay_facts(10))

lemmas bootedRelay_close =
  close_undisturbed [OF bootedRelay_facts(1) bootedRelay_admissible armsOk_okIo bootedRelay_elapsed]

lemma closeCommit_granted:
  "closeCommit io ctx s = (True, s') \<Longrightarrow> circuitClosed s' \<and> relaySafetyState s' = CLOSED"
  by (auto simp: closeCommit_def Let_def split: if_splits)

lemma closeCommit_refused:
  "closeCommit io ctx s = (False, s') \<Longrightarrow> \<not> circuitClosed s \<Longrightarrow> \<not> circuitClosed s'"
  by (auto simp: closeCommit_def armFailed_def Let_def split: if_splits)

section \<open>Lockout\<close>

text \<open>Trips that other components request may or may not ask for lockout.\<close>

fun lockoutTrip :: "relay_op \<Rightarrow> bool" where
  "lockoutTrip (Trip io f h o' l) = l"
| "lockoutTrip _ = True"

definition locked :: "relay \<Rightarrow> bool" where
  "locked s \<longleftrightarrow> relaySafetyState s = LOCKOUT \<and> \<not> circuitClosed s \<and> \<not> pinClosed s"

lemma locked_trip [simp]: "locked (tripRelaySafety io f h o' True s)"
  by (simp add: locked_def)

lemma locked_keeps [simp]:
  "locked (stopRelayDeadlineTimers io' s) = locked s"
  "locked (recordClosed c s) = locked s"
  "locked (addDebugEvent e s) = locked s"
  "locked (s\<lparr>controlLogLatched := b\<rparr>) = locked s"
  by (simp_all add: locked_def)

lemma locked_closeBegin:
  assumes "locked s"
  shows "\<exists>s'. closeBegin io limit purpose s = (Finished False, s') \<and> locked s'"
  by (cases rule: closeBegin_cases [of s io limit purpose])
    (use assms in \<open>simp_all add: locked_def armFailed_def\<close>)

lemma locked_set:
  assumes "locked s"
  shows "locked (snd (setMachineCircuitClosed io hook closed limit purpose s))"
    and "\<not> fst (setMachineCircuitClosed io hook True limit purpose s)"
proof -
  obtain s' where c: "closeBegin io limit purpose s = (Finished False, s')" "locked s'"
    using locked_closeBegin [OF assms] by blast
  have o: "locked (snd (openCircuit io s))"
    using assms by (simp add: openCircuit_def Let_def) (simp add: locked_def)
  show "locked (snd (setMachineCircuitClosed io hook closed limit purpose s))"
    using c o by (simp add: setMachineCircuitClosed_def closeCircuit_def)
  show "\<not> fst (setMachineCircuitClosed io hook True limit purpose s)"
    using c by (simp add: setMachineCircuitClosed_def closeCircuit_def)
qed

lemma locked_interfere: "locked s \<Longrightarrow> locked (interfere i s)"
  by (cases i) (simp_all add: locked_def relaySafetyTimerCallback_def hardLimitSection_def
      operationalLimitTimerCallback_def operationalLimitSection_def isrEnter_def isrBody_def
      independentSafetyTimerCallback_def split_beta Let_def)

lemma locked_service: "locked s \<Longrightarrow> locked (serviceRelaySafety io s)"
  by (simp add: serviceRelaySafety_def serviceFeedback_def getRelaySafetySnapshot_def locked_def Let_def)

lemma locked_relayOp:
  assumes "locked s" and "lockoutTrip op"
  shows "locked (relayOp op s)"
proof (cases op)
  case (SetCircuit io "is" closed limit purpose)
  then show ?thesis using locked_set(1) [OF assms(1)] by simp
next
  case (PromoteBackflush io "is" g)
  then show ?thesis
    using assms(1)
    by (simp add: promoteRelayBackflush_def promoteAdmitted_def getRelaySafetySnapshot_def locked_def
        Let_def)
next
  case (ConsumeTrip io)
  then show ?thesis using assms(1) by (simp add: consumeRelaySafetyTrip_def locked_def Let_def)
next
  case (ConsumeOperational io)
  then show ?thesis using assms(1) by (simp add: consumeOperationalLimitTrip_def locked_def Let_def)
next
  case (Service io)
  then show ?thesis using assms(1) locked_service by simp
next
  case (Heartbeat h)
  then show ?thesis using assms(1) by (simp add: serviceSafetyHeartbeat_def locked_def Let_def)
next
  case (Interfere i)
  then show ?thesis using assms(1) locked_interfere by simp
qed (use assms in simp)

section \<open>Properties\<close>

text \<open>
  Property C7. Whatever sequence of driver operations, trips, services, timer callbacks
  and alarms follows, with any driver answers and any interference inside a transaction, a
  reset that finds the pad driven CLOSED is classified by the next boot as a reset during
  close and counted as unsafe.
\<close>

theorem driven_pad_is_recorded:
  assumes "relay_wf s" and "marker_ok s" and "pinClosed (fold relayOp ops s)"
  shows "resetDuringClose (fst (beginSafetyResetGuard reason (rtcRecord (fold relayOp ops s))))
       \<and> unsafeReset (fst (beginSafetyResetGuard reason (rtcRecord (fold relayOp ops s))))"
  using relayOps_inv [OF assms(1,2), of ops] assms(3)
    begin_unsafe [OF surjective_pairing, of reason "rtcRecord (fold relayOp ops s)"]
  by (auto simp: relay_wf_def marker_ok_def)

theorem driven_pad_is_recorded_witness:
  "unsafeReset (fst (beginSafetyResetGuard ESP_RST_SW (rtcRecord
     (fold relayOp [SetCircuit okIo [TimePasses 2000] True 30000 NORMAL] (bootedRelay False)))))"
  using driven_pad_is_recorded [OF bootedRelay_facts(1,2) [of False],
      of "[SetCircuit okIo [TimePasses 2000] True 30000 NORMAL]" ESP_RST_SW]
    bootedRelay_close(3) bootedRelay_facts(9) [of False] by simp

text \<open>
  A close request on an open circuit that is granted was admissible: a limit
  within bounds, no confirmed-backflush purpose, no lockout, every supervisor up and no
  stuck feedback; and no trip came while it was arming.
\<close>

lemma close_granted:
  assumes "\<not> circuitClosed s"
    and "setMachineCircuitClosed io hook True limit purpose s = (True, s')"
  shows "\<not> invalidCloseRequest limit purpose \<and> relaySafetyState s \<noteq> LOCKOUT \<and>
     \<not> supervisorUnavailable s \<and> \<not> readCircuitFeedbackClosed s \<and>
     circuitClosed s' \<and> relaySafetyState s' = CLOSED"
proof (cases rule: closeBegin_cases [of s io limit purpose])
  case begun
  then show ?thesis
    using assms(2) closeCommit_granted
    by (simp add: setMachineCircuitClosed_def closeCircuit_def closeArmFailed_def split_beta
        split: if_splits)
qed (use assms in \<open>simp_all add: setMachineCircuitClosed_def closeCircuit_def\<close>)

lemma close_granted_witness:
  "relaySafetyState (snd (setMachineCircuitClosed okIo (gap [TimePasses 2000]) True 30000 NORMAL
     (bootedRelay False))) = CLOSED"
proof -
  let ?r = "setMachineCircuitClosed okIo (gap [TimePasses 2000]) True 30000 NORMAL (bootedRelay False)"
  have "?r = (True, snd ?r)" using bootedRelay_close(1) by (simp add: prod_eq_iff)
  then show ?thesis using close_granted [OF bootedRelay_facts(4)] by blast
qed

lemma refused_not_closed:
  assumes "relay_wf s" and "setMachineCircuitClosed io (gap is) True limit purpose s = (False, s')"
  shows "\<not> circuitClosed s'"
proof (cases rule: closeBegin_cases [of s io limit purpose])
  case closed
  then show ?thesis
    using assms(2) reassert_closed(2) [OF relay_wf_latch [OF assms(1)], of io]
    by (auto simp: setMachineCircuitClosed_def closeCircuit_def split_beta)
next
  case begun
  let ?p = "publishArming io limit purpose (s\<lparr>controlLogLatched := True\<rparr>)"
  let ?s2 = "snd (closeArm io (fst ?p) (snd ?p))"
  have "\<not> circuitClosed (snd ?p)"
    by (simp add: publishArming_def Let_def)
  then have "\<not> circuitClosed (gap is ?s2)"
    using marker_step_closeArm [of "snd ?p" io "fst ?p"] gap_facts(2) [of ?s2 "is"]
    by (auto simp: marker_step_def)
  then show ?thesis
    using begun(6) assms(2) closeCommit_refused
    by (auto simp: setMachineCircuitClosed_def closeCircuit_def closeArmFailed_def
        armFailed_def split_beta split: if_splits)
qed (use assms in \<open>auto simp: setMachineCircuitClosed_def closeCircuit_def armFailed_def\<close>)

lemma granted_closed:
  "setMachineCircuitClosed io hook True limit purpose s = (True, s') \<Longrightarrow> \<not> circuitClosed s \<Longrightarrow> circuitClosed s'"
  using closeCommit_granted
  by (cases rule: closeBegin_cases [of s io limit purpose])
    (simp_all add: setMachineCircuitClosed_def closeCircuit_def closeArmFailed_def split_beta
      split: if_splits)

lemma opened_not_closed: "\<not> circuitClosed (snd (setMachineCircuitClosed io hook False limit purpose s))"
  by (simp add: setMachineCircuitClosed_def openCircuit_def Let_def)

lemma reclose_reasserts:
  assumes "circuitClosed s"
  shows "setMachineCircuitClosed io hook True limit purpose s =
    reassertCommandedRelayClosedPin io (s\<lparr>controlLogLatched := True\<rparr>)"
  using assms
  by (cases rule: closeBegin_cases [of s io limit purpose])
    (simp_all add: setMachineCircuitClosed_def closeCircuit_def split_beta)

text \<open>
  Property C8. A close request that is refused, by any check, by a failing driver or by
  anything that ran in the gap, leaves the circuit open and the pad not driven.
\<close>

theorem close_refused_open:
  assumes "relay_wf s" and "setMachineCircuitClosed io (gap is) True limit purpose s = (False, s')"
  shows "\<not> circuitClosed s' \<and> \<not> pinClosed s' \<and> relaySafetyState s' \<noteq> CLOSED"
proof -
  have wf: "relay_wf s'"
  proof -
    have "relay_wf (snd (setMachineCircuitClosed io (gap is) True limit purpose s))"
      by (rule relay_wf_setMachineCircuitClosed [OF assms(1) gap_facts(1)])
    then show ?thesis by (simp only: assms(2) snd_conv)
  qed
  have "\<not> circuitClosed s'" by (rule refused_not_closed [OF assms])
  then show ?thesis using wf by (auto simp: relay_wf_def)
qed

theorem close_refused_open_witness:
  "\<not> pinClosed (snd (setMachineCircuitClosed okIo (gap []) True 0 NORMAL (bootedRelay False)))"
proof -
  have "fst (setMachineCircuitClosed okIo (gap []) True 0 NORMAL (bootedRelay False)) = False"
    using bootedRelay_facts(4) [of False]
    by (cases rule: closeBegin_cases [of "bootedRelay False" okIo 0 NORMAL])
      (simp_all add: setMachineCircuitClosed_def closeCircuit_def invalidCloseRequest_def)
  then show ?thesis
    using close_refused_open [OF bootedRelay_facts(1) [of False], of okIo "[]" 0 NORMAL]
    by (simp add: prod_eq_iff)
qed

lemma locked_ops: "locked s \<Longrightarrow> \<forall>op \<in> set ops. lockoutTrip op \<Longrightarrow> locked (fold relayOp ops s)"
  by (induction ops arbitrary: s) (simp_all add: locked_relayOp)

lemma plain_trip: "\<not> lockoutTrip op \<Longrightarrow> \<exists>io f h o'. op = Trip io f h o' False"
  by (cases op) auto

lemma first_plain_trip:
  assumes "\<not> (\<forall>op \<in> set ops. lockoutTrip op)"
  obtains before io f h o' later where "ops = before @ Trip io f h o' False # later" "\<forall>op \<in> set before. lockoutTrip op"
proof -
  have "\<exists>op \<in> set ops. \<not> lockoutTrip op" using assms by blast
  from split_list_first_prop [OF this] obtain before op later where
    o: "ops = before @ op # later" "\<not> lockoutTrip op" "\<forall>x \<in> set before. \<not> \<not> lockoutTrip x" by blast
  then show ?thesis using plain_trip [OF o(2)] that by auto
qed

text \<open>
  Property C10. How LOCKOUT ends. After any operations of the driver, timer callbacks, interrupts
  and trips requested from outside, a locked relay is still LOCKOUT with the pad not driven, and
  refuses every close whatever its arguments and whatever happens inside it; or one of the
  operations was a trip requested without lockout (the logical walls of a momentary machine
  request one), which found it locked and left it TRIPPED with the pad not driven. Nothing else
  leaves LOCKOUT.
\<close>

theorem lockout_ends_only_by_plain_trip:
  assumes "relaySafetyState s = LOCKOUT" and "\<not> circuitClosed s" and "\<not> pinClosed s"
  shows "(let s' = fold relayOp ops s in
      relaySafetyState s' = LOCKOUT \<and> \<not> circuitClosed s' \<and> \<not> pinClosed s' \<and>
      \<not> fst (setMachineCircuitClosed io hook True limit purpose s')) \<or>
    (\<exists>before io' fault hard operational later. ops = before @ Trip io' fault hard operational False # later \<and>
      (let s1 = fold relayOp before s; s2 = tripRelaySafety io' fault hard operational False s1 in
       relaySafetyState s1 = LOCKOUT \<and> \<not> pinClosed s1 \<and> relaySafetyState s2 = TRIPPED \<and>
       \<not> circuitClosed s2 \<and> \<not> pinClosed s2))"
proof (cases "\<forall>op \<in> set ops. lockoutTrip op")
  case True
  have "locked (fold relayOp ops s)" by (rule locked_ops [OF _ True]) (use assms in \<open>simp add: locked_def\<close>)
  then show ?thesis using locked_set(2) by (auto simp: locked_def Let_def)
next
  case False
  then obtain before io' f h o' later where o: "ops = before @ Trip io' f h o' False # later"
      "\<forall>op \<in> set before. lockoutTrip op" by (rule first_plain_trip)
  have "locked (fold relayOp before s)" by (rule locked_ops [OF _ o(2)]) (use assms in \<open>simp add: locked_def\<close>)
  then have "relaySafetyState (fold relayOp before s) = LOCKOUT" "\<not> pinClosed (fold relayOp before s)"
    by (simp_all add: locked_def)
  then show ?thesis
    using o(1) by (intro disjI2 exI [of _ before] exI [of _ io'] exI [of _ f] exI [of _ h] exI [of _ o'] exI [of _ later])
      (simp add: Let_def)
qed

theorem lockout_ends_only_by_plain_trip_witness:
  "(let s' = fold relayOp [SetCircuit okIo [] True 30000 NORMAL, Service okIo, SetCircuit okIo [] False 0 NORMAL]
      (tripRelaySafety okStop TASK_WATCHDOG_FAILURE False False True (bootedRelay False)) in
    relaySafetyState s' = LOCKOUT \<and> \<not> fst (setMachineCircuitClosed okIo (gap []) True 30000 NORMAL s'))"
proof -
  let ?s = "tripRelaySafety okStop TASK_WATCHDOG_FAILURE False False True (bootedRelay False)"
  have "locked ?s" by simp
  then have "relaySafetyState ?s = LOCKOUT" "\<not> circuitClosed ?s" "\<not> pinClosed ?s" by (simp_all add: locked_def)
  from lockout_ends_only_by_plain_trip [OF this, where
      ops = "[SetCircuit okIo [] True 30000 NORMAL, Service okIo, SetCircuit okIo [] False 0 NORMAL]"]
  show ?thesis by (auto simp: Let_def append_eq_Cons_conv Cons_eq_append_conv simp del: relayOp.simps)
qed

end
