(* ===== verification/Relay_System.thy ===== *)
theory Relay_System
  imports Relay_Facts
begin

text \<open>
  The K1 driver under interleaving. The control task works through the sections of a
  closing or promoting transaction one step at a time; between any two of them the
  interrupt may enter or run, the timer task may run a callback section or publish its
  trip, the inputs may change and time may pass. The alarm interrupt is the one thing the
  hardware promises: it is served at most \<open>L\<close> microseconds after it is due, so time does
  not pass beyond that while an alarm is live or its handler is in flight. Nothing is
  assumed of the tasks, except that the control task is not starved for the 49 days that
  would wrap its millisecond subtraction in the middle of one transaction.
\<close>

section \<open>Steps\<close>

datatype control =
    Idle
  | ArmIndependent relay_io close_ctx
  | ArmHard relay_io close_ctx bool
  | ArmOperational relay_io close_ctx bool
  | Commit relay_io close_ctx bool
  | PromoteHard relay_io u32 u32
  | PromoteFinish relay_io u32 u32 bool

text \<open>
  \<open>closingUs\<close> and \<open>energizedUs\<close> record when the last transaction began and when the
  circuit was last committed closed; the code does not read them.
\<close>

record sys =
  driver :: relay
  control :: control
  publishPending :: nat
  closingUs :: nat
  energizedUs :: nat

definition alarmLive :: "relay \<Rightarrow> bool" where
  "alarmLive r \<longleftrightarrow> timerRunning (independentSafetyTimer r) \<or> callbackInFlight (independentSafetyTimer r)"

definition alarmAtUs :: "relay \<Rightarrow> nat" where
  "alarmAtUs r = dueAtUs (independentSafetyTimer r)"

definition tickAllowed :: "nat \<Rightarrow> nat \<Rightarrow> sys \<Rightarrow> bool" where
  "tickAllowed L d s \<longleftrightarrow>
     (alarmLive (driver s) \<longrightarrow> nowUs (driver s) + d \<le> alarmAtUs (driver s) + L) \<and>
     (control s \<noteq> Idle \<longrightarrow> (nowUs (driver s) + d) div 1000 - closingUs s div 1000 < 2 ^ 32)"

text \<open>What the control task does between transactions.\<close>

datatype control_op =
    OpOpen relay_io | OpConsumeTrip relay_io | OpConsumeOperational relay_io
  | OpService relay_io | OpHeartbeat bool
  | OpTrip stop_io RelaySafetyFault bool bool bool

fun controlOp :: "control_op \<Rightarrow> relay \<Rightarrow> relay" where
  "controlOp (OpOpen io) r = snd (openCircuit io r)"
| "controlOp (OpConsumeTrip io) r = snd (consumeRelaySafetyTrip io r)"
| "controlOp (OpConsumeOperational io) r = snd (consumeOperationalLimitTrip io r)"
| "controlOp (OpService io) r = serviceRelaySafety io r"
| "controlOp (OpHeartbeat h) r = serviceSafetyHeartbeat h r"
| "controlOp (OpTrip io f h o' l) r = tripRelaySafety io f h o' l r"

text \<open>The control task's next section.\<close>

definition commitStep :: "relay_io \<Rightarrow> close_ctx \<Rightarrow> bool \<Rightarrow> relay \<Rightarrow> bool \<times> relay" where
  "commitStep io ctx armed r = (if \<not> armed then closeArmFailed io r else closeCommit io ctx r)"

inductive step :: "nat \<Rightarrow> sys \<Rightarrow> sys \<Rightarrow> bool" for L :: nat where
  tick: "tickAllowed L d s \<Longrightarrow> step L s (s\<lparr>driver := (driver s)\<lparr>nowUs := nowUs (driver s) + d\<rparr>\<rparr>)"
| inputs: "step L s (s\<lparr>driver := (driver s)\<lparr>feedbackPinClosed := f, closeWriteOk := w,
      watchdogFaulted := (watchdogFaulted (driver s) \<or> wd)\<rparr>\<rparr>)"
| padDrops: "step L s (s\<lparr>driver := (driver s)\<lparr>pinClosed := False\<rparr>\<rparr>)"
| isrEnters: "alarmDue (nowUs (driver s)) (independentSafetyTimer (driver s)) \<Longrightarrow>
    step L s (s\<lparr>driver := snd (isrEnter (driver s))\<rparr>)"
| isrRuns: "callbackInFlight (independentSafetyTimer (driver s)) \<Longrightarrow>
    step L s (s\<lparr>driver := isrBody (driver s)\<rparr>)"
| hardCallback: "hardLimitSection (driver s) = (tripped, r) \<Longrightarrow>
    step L s (s\<lparr>driver := r, publishPending := publishPending s + (if tripped then 1 else 0)\<rparr>)"
| operationalCallback: "operationalLimitSection (driver s) = (tripped, r) \<Longrightarrow>
    step L s (s\<lparr>driver := r, publishPending := publishPending s + (if tripped then 1 else 0)\<rparr>)"
| publish: "0 < publishPending s \<Longrightarrow>
    step L s (s\<lparr>driver := recordClosed False (driver s), publishPending := publishPending s - 1\<rparr>)"
| control: "control s = Idle \<Longrightarrow> step L s (s\<lparr>driver := controlOp op (driver s)\<rparr>)"
| closeEnds: "control s = Idle \<Longrightarrow> closeBegin io limit purpose (driver s) = (Finished b, r) \<Longrightarrow>
    step L s (s\<lparr>driver := r\<rparr>)"
| closeBegins: "control s = Idle \<Longrightarrow> closeBegin io limit purpose (driver s) = (Begun ctx, r) \<Longrightarrow>
    step L s (s\<lparr>driver := r, control := ArmIndependent io ctx, closingUs := nowUs (driver s)\<rparr>)"
| armsIndependent: "control s = ArmIndependent io ctx \<Longrightarrow>
    closeArmIndependent io ctx (driver s) = (a, r) \<Longrightarrow>
    step L s (s\<lparr>driver := r, control := ArmHard io ctx a\<rparr>)"
| armsHard: "control s = ArmHard io ctx a \<Longrightarrow> closeArmHard io ctx a (driver s) = (a', r) \<Longrightarrow>
    step L s (s\<lparr>driver := r, control := ArmOperational io ctx a'\<rparr>)"
| armsOperational: "control s = ArmOperational io ctx a \<Longrightarrow>
    closeArmOperational io ctx a (driver s) = (a', r) \<Longrightarrow>
    step L s (s\<lparr>driver := r, control := Commit io ctx a'\<rparr>)"
| commits: "control s = Commit io ctx a \<Longrightarrow> commitStep io ctx a (driver s) = (True, r) \<Longrightarrow>
    step L s (s\<lparr>driver := r, control := Idle, energizedUs := nowUs (driver s)\<rparr>)"
| cancels: "control s = Commit io ctx a \<Longrightarrow> commitStep io ctx a (driver s) = (False, r) \<Longrightarrow>
    step L s (s\<lparr>driver := r, control := Idle\<rparr>)"
| promoteBegins: "control s = Idle \<Longrightarrow> promoteAdmitted g (driver s) \<Longrightarrow>
    promoteArm io (driver s) = (True, r) \<Longrightarrow>
    step L s (s\<lparr>driver := r, control := PromoteHard io g (circuitClosedAtMs (driver s))\<rparr>)"
| promoteFails: "control s = Idle \<Longrightarrow> promoteAdmitted g (driver s) \<Longrightarrow>
    promoteArm io (driver s) = (False, r) \<Longrightarrow>
    step L s (s\<lparr>driver := snd (promoteCommit io g (circuitClosedAtMs (driver s)) False r)\<rparr>)"
| promotesHard: "control s = PromoteHard io g c \<Longrightarrow>
    promoteHardDeadline io c True (driver s) = (a, r) \<Longrightarrow>
    step L s (s\<lparr>driver := r, control := PromoteFinish io g c a\<rparr>)"
| promoteEnds: "control s = PromoteFinish io g c a \<Longrightarrow>
    step L s (s\<lparr>driver := snd (promoteCommit io g c a (driver s)), control := Idle\<rparr>)"

inductive reachable :: "nat \<Rightarrow> sys \<Rightarrow> sys \<Rightarrow> bool" for L :: nat and s0 :: sys where
  start: "reachable L s0 s0"
| more: "reachable L s0 s \<Longrightarrow> step L s s' \<Longrightarrow> reachable L s0 s'"

text \<open>
  The state \<open>setup()\<close> leaves, in the normal profile or in the compatibility profile the boot
  sensing chose, without or with the external safety hardware.
\<close>

definition bootedSys :: "bool \<Rightarrow> bool \<Rightarrow> sys" where
  "bootedSys compatibility external = \<lparr> driver = (bootedRelay external)\<lparr>compatibilityMode := compatibility\<rparr>,
     control = Idle, publishPending = 0, closingUs = 0, energizedUs = 0 \<rparr>"


section \<open>Quiet changes\<close>

text \<open>
  A change of the driver state is quiet for a set of states when it does not enter them
  and, if it stays in one, leaves the deadline that guards it alone. (An unlimited close, hard
  limit zero, has no deadline to leave alone.)
\<close>

definition quiet :: "(RelaySafetyState \<Rightarrow> bool) \<Rightarrow> relay \<Rightarrow> relay \<Rightarrow> bool" where
  "quiet P r r' \<longleftrightarrow> nowUs r' = nowUs r \<and> compatibilityMode r' = compatibilityMode r \<and>
     relayHardLimitMs r' = relayHardLimitMs r \<and>
     (alarmLive r' \<longrightarrow> alarmLive r \<and> alarmAtUs r' = alarmAtUs r) \<and>
     (P (relaySafetyState r') \<longrightarrow> relaySafetyState r' = relaySafetyState r \<and>
        (relayHardLimitMs r \<noteq> 0 \<and> alarmLive r \<longrightarrow> alarmLive r') \<and> relayPurpose r' = relayPurpose r \<and>
        circuitClosedAtMs r' = circuitClosedAtMs r)"

abbreviation quietIdle :: "relay \<Rightarrow> relay \<Rightarrow> bool" where
  "quietIdle \<equiv> quiet (\<lambda>st. st = CLOSED)"

lemma quiet_refl [simp]: "quiet P r r"
  by (simp add: quiet_def)

lemma quiet_trans:
  assumes "quiet P r r'" and "quiet P r' r''"
  shows "quiet P r r''"
proof -
  from assms(1) have a: "nowUs r' = nowUs r" "compatibilityMode r' = compatibilityMode r"
      "relayHardLimitMs r' = relayHardLimitMs r"
    and al: "alarmLive r' \<Longrightarrow> alarmLive r" "alarmLive r' \<Longrightarrow> alarmAtUs r' = alarmAtUs r"
    and ap: "P (relaySafetyState r') \<Longrightarrow> relaySafetyState r' = relaySafetyState r"
      "P (relaySafetyState r') \<Longrightarrow> relayHardLimitMs r \<noteq> 0 \<Longrightarrow> alarmLive r \<Longrightarrow> alarmLive r'"
      "P (relaySafetyState r') \<Longrightarrow> relayPurpose r' = relayPurpose r"
      "P (relaySafetyState r') \<Longrightarrow> circuitClosedAtMs r' = circuitClosedAtMs r"
    unfolding quiet_def by blast+
  from assms(2) have b: "nowUs r'' = nowUs r'" "compatibilityMode r'' = compatibilityMode r'"
      "relayHardLimitMs r'' = relayHardLimitMs r'"
    and bl: "alarmLive r'' \<Longrightarrow> alarmLive r'" "alarmLive r'' \<Longrightarrow> alarmAtUs r'' = alarmAtUs r'"
    and bp: "P (relaySafetyState r'') \<Longrightarrow> relaySafetyState r'' = relaySafetyState r'"
      "P (relaySafetyState r'') \<Longrightarrow> relayHardLimitMs r' \<noteq> 0 \<Longrightarrow> alarmLive r' \<Longrightarrow> alarmLive r''"
      "P (relaySafetyState r'') \<Longrightarrow> relayPurpose r'' = relayPurpose r'"
      "P (relaySafetyState r'') \<Longrightarrow> circuitClosedAtMs r'' = circuitClosedAtMs r'"
    unfolding quiet_def by blast+
  have p: "P (relaySafetyState r')" if "P (relaySafetyState r'')"
    using that bp(1) [OF that] by metis
  show ?thesis
    unfolding quiet_def
  proof (intro conjI impI)
    assume P: "P (relaySafetyState r'')"
    show "relaySafetyState r'' = relaySafetyState r" using bp(1) [OF P] ap(1) [OF p [OF P]] by (rule trans)
    show "relayPurpose r'' = relayPurpose r" using bp(3) [OF P] ap(3) [OF p [OF P]] by (rule trans)
    show "circuitClosedAtMs r'' = circuitClosedAtMs r"
      using bp(4) [OF P] ap(4) [OF p [OF P]] by (rule trans)
    show "alarmLive r''" if "relayHardLimitMs r \<noteq> 0 \<and> alarmLive r"
      using bp(2) [OF P _ ap(2) [OF p [OF P]]] that a(3) by simp
  next
    assume l: "alarmLive r''"
    show "alarmLive r" using al(1) [OF bl(1) [OF l]] .
    show "alarmAtUs r'' = alarmAtUs r" using bl(2) [OF l] al(2) [OF bl(1) [OF l]] by (rule trans)
  qed (simp_all only: a b)
qed

lemma quiet_mono: "quiet commandedState r r' \<Longrightarrow> quietIdle r r'"
  unfolding quiet_def by (metis commandedState_def)

lemma alarmLive_stop:
  "alarmLive (stopRelayDeadlineTimers io r) \<Longrightarrow>
     alarmLive r \<and> alarmAtUs (stopRelayDeadlineTimers io r) = alarmAtUs r"
  by (auto simp: alarmLive_def alarmAtUs_def stopRelayDeadlineTimers_def timerStop_def Let_def
      split: if_splits)

lemma alarm_keeps [simp]:
  "alarmLive (recordClosed c r) = alarmLive r" "alarmAtUs (recordClosed c r) = alarmAtUs r"
  "alarmLive (addDebugEvent e r) = alarmLive r" "alarmAtUs (addDebugEvent e r) = alarmAtUs r"
  "alarmLive (tripRelaySafetyLocked f h o' l r) = alarmLive r"
  "alarmAtUs (tripRelaySafetyLocked f h o' l r) = alarmAtUs r"
  "alarmLive (writeRelayClosedOutput r) = alarmLive r"
  "alarmAtUs (writeRelayClosedOutput r) = alarmAtUs r"
  by (simp_all add: alarmLive_def alarmAtUs_def writeRelayClosedOutput_def)

lemma alarmLive_trip:
  "alarmLive (tripRelaySafety io f h o' l r) \<Longrightarrow>
     alarmLive r \<and> alarmAtUs (tripRelaySafety io f h o' l r) = alarmAtUs r"
  by (auto simp: tripRelaySafety_def dest: alarmLive_stop)

lemma quiet_trip [simp]: "quiet commandedState r (tripRelaySafety io f h o' l r)"
  using alarmLive_trip [of io f h o' l r] by (simp add: quiet_def)

lemma quiet_tripLocked: "quiet commandedState r (tripRelaySafetyLocked f h o' l r)"
  by (simp add: quiet_def)

lemma quiet_recordClosed: "quiet commandedState r (recordClosed c r)"
  by (simp add: quiet_def)

lemma quiet_event: "quiet commandedState r (addDebugEvent e r)"
  by (simp add: quiet_def)

lemma quiet_stop_open:
  "relaySafetyState r \<noteq> CLOSED \<Longrightarrow> quietIdle r (stopRelayDeadlineTimers io r)"
  using alarmLive_stop [of io r] by (simp add: quiet_def)

lemma quiet_sections:
  "hardLimitSection r = (t, r') \<Longrightarrow> quiet commandedState r r'"
  "operationalLimitSection r = (t, r') \<Longrightarrow> quiet commandedState r r'"
  by (auto simp: hardLimitSection_def operationalLimitSection_def quiet_tripLocked split: if_splits)

lemma quiet_isrEnter:
  "alarmDue (nowUs r) (independentSafetyTimer r) \<Longrightarrow> quiet commandedState r (snd (isrEnter r))"
  by (simp add: quiet_def isrEnter_def alarmEnter_def alarmLive_def alarmAtUs_def alarmDue_def)

lemma quiet_isrBody: "quiet commandedState r (isrBody r)"
  by (auto simp: quiet_def isrBody_def independentSafetyTimerCallback_def alarmLeave_def alarmLive_def
      alarmAtUs_def openRelayElectricalFromIsr_def Let_def)

lemma quiet_reassert:
  "relay_wf r \<Longrightarrow> quietIdle r (snd (reassertCommandedRelayClosedPin io r))"
proof -
  assume wf: "relay_wf r"
  define expired where "expired = (circuitClosed r \<and> operationalLimitAtArmMs r \<noteq> 0 \<and>
            operationalLimitAtArmMs r \<le> relayElapsed (circuitClosedAtMs r) r)"
  show ?thesis
  proof (cases expired)
    case True
    define s1 where "s1 = tripRelaySafetyLocked
        (if operationalLimitAtArmMs r < relayHardLimitMs r then OPERATIONAL_LIMIT else HARD_LIMIT)
        (\<not> operationalLimitAtArmMs r < relayHardLimitMs r)
        (operationalLimitAtArmMs r < relayHardLimitMs r) False r"
    have "snd (reassertCommandedRelayClosedPin io r)
        = stopRelayDeadlineTimers (ioStopA io) (recordClosed False s1)"
      using True [unfolded expired_def]
      by (simp add: reassertCommandedRelayClosedPin_def s1_def Let_def)
    moreover have "quietIdle r (recordClosed False s1)"
      unfolding s1_def by (rule quiet_mono [OF quiet_trans [OF quiet_tripLocked quiet_recordClosed]])
    moreover have "relaySafetyState (recordClosed False s1) \<noteq> CLOSED" by (simp add: s1_def)
    ultimately show ?thesis using quiet_trans [OF _ quiet_stop_open] by metis
  next
    case False
    have w: "quiet commandedState r (writeRelayClosedOutput r)"
      by (simp add: quiet_def) (simp add: writeRelayClosedOutput_def)
    have we: "quiet commandedState r (addDebugEvent RELAY_GPIO_DESYNC (writeRelayClosedOutput r))"
      by (rule quiet_trans [OF w quiet_event])
    show ?thesis
      using False [unfolded expired_def] w we quiet_trans [OF we quiet_trip]
      by (auto simp: reassertCommandedRelayClosedPin_def Let_def intro: quiet_mono)
  qed
qed


lemma quiet_fields [simp]:
  "quiet P r (r\<lparr>relaySafetyTripped := b\<rparr>)" "quiet P r (r\<lparr>operationalLimitTripped := b\<rparr>)"
  "quiet P r (r\<lparr>safeRestart := b\<rparr>)" "quiet P r (r\<lparr>controlLogLatched := b\<rparr>)"
  "quiet P r (r\<lparr>feedbackTransitionPending := b\<rparr>)" "quiet P r (r\<lparr>pinClosed := b\<rparr>)"
  "quiet P r (r\<lparr>feedbackTransitionStartedAtMs := m, feedbackTransitionStampPending := b\<rparr>)"
  "quiet P r (r\<lparr>feedbackPinClosed := b, closeWriteOk := w, watchdogFaulted := d\<rparr>)"
  "quiet P r (r\<lparr>safetyHeartbeatLevel := b, heartbeatPin := w\<rparr>)"
  "quiet P r (r\<lparr>safetyHeartbeatLevel := b, heartbeatPin := w, safetyHeartbeatToggledAtMs := m\<rparr>)"
  by (simp_all add: quiet_def alarmLive_def alarmAtUs_def)

lemma quiet_open: "quietIdle r (snd (openCircuit io r))"
proof -
  define r1 where "r1 = r\<lparr>pinClosed := (if \<not> circuitClosed r \<and>
            (relaySafetyState r = TRIPPED \<or> relaySafetyState r = LOCKOUT) then pinClosed r else False),
        relayElectricalOpenedAtMs :=
           (if \<not> (\<not> circuitClosed r \<and> (relaySafetyState r = TRIPPED \<or> relaySafetyState r = LOCKOUT))
               \<and> circuitClosed r then relayMillis r else relayElectricalOpenedAtMs r),
        circuitClosed := False, relaySafetyGeneration := relaySafetyGeneration r + 1,
        relaySafetyState := (if relaySafetyState r \<noteq> TRIPPED \<and> relaySafetyState r \<noteq> LOCKOUT then OPEN
                   else relaySafetyState r),
        feedbackExpectedClosed := False, feedbackTransitionPending := externalSafety r,
        feedbackTransitionStartedAtMs := relayMillis r, feedbackTransitionStampPending := False\<rparr>"
  have st: "relaySafetyState r1 \<noteq> CLOSED" by (simp add: r1_def)
  have "quietIdle r r1" by (simp add: quiet_def r1_def alarmLive_def alarmAtUs_def)
  then have "quietIdle r (stopRelayDeadlineTimers (ioStopA io) (recordClosed False r1))"
    using st by (intro quiet_trans [OF quiet_trans [OF _ quiet_mono [OF quiet_recordClosed]] quiet_stop_open])
      simp_all
  then show ?thesis
    unfolding openCircuit_def Let_def r1_def [symmetric] snd_conv
    using quiet_trans [OF _ quiet_mono [OF quiet_event]] by simp
qed

lemma quiet_consume:
  assumes "relay_wf r"
  shows "quietIdle r (snd (consumeRelaySafetyTrip io r))"
    and "quietIdle r (snd (consumeOperationalLimitTrip io r))"
proof -
  have st: "relaySafetyState r \<noteq> CLOSED" if "\<not> circuitClosed r"
    using assms that by (simp add: relay_wf_def)
  have q: "quietIdle r (stopRelayDeadlineTimers io' (recordClosed False r'))"
    if "quietIdle r r'" and "relaySafetyState r' \<noteq> CLOSED" for io' r'
    using that by (intro quiet_trans [OF quiet_trans [OF _ quiet_mono [OF quiet_recordClosed]] quiet_stop_open])
      simp_all
  show "quietIdle r (snd (consumeRelaySafetyTrip io r))"
    by (simp add: consumeRelaySafetyTrip_def Let_def q st)
  show "quietIdle r (snd (consumeOperationalLimitTrip io r))"
    by (simp add: consumeOperationalLimitTrip_def Let_def q st)
qed

lemma quiet_serviceFeedback: "quietIdle r (serviceFeedback io c r)"
proof -
  have t: "quietIdle r (tripRelaySafety io' f h o' l r')" if "quietIdle r r'" for io' f h o' l r'
    using that by (rule quiet_trans [OF _ quiet_mono [OF quiet_trip]])
  have p: "quietIdle r (r'\<lparr>feedbackTransitionPending := b\<rparr>)" if "quietIdle r r'" for r' b
    using that by (rule quiet_trans) simp
  show ?thesis
    unfolding serviceFeedback_def Let_def by (simp add: t p del: quiet_trip)
qed

lemma quiet_service:
  assumes "relay_wf r"
  shows "quietIdle r (serviceRelaySafety io r)"
proof -
  have t: "quietIdle r (tripRelaySafety io' f h o' l r')" if "quietIdle r r'" for io' f h o' l r'
    using that by (rule quiet_trans [OF _ quiet_mono [OF quiet_trip]])
  have f: "quietIdle r (serviceFeedback io c r')" if "quietIdle r r'" for c r'
    using that by (rule quiet_trans [OF _ quiet_serviceFeedback])
  have w: "quietIdle r (r'\<lparr>safeRestart := b\<rparr>)" if "quietIdle r r'" for r' b
    using that by (rule quiet_trans) simp
  show ?thesis
    by (simp add: serviceRelaySafety_def Let_def split_beta t f w quiet_reassert [OF assms])
qed

lemma quiet_controlOp:
  assumes "relay_wf r"
  shows "quietIdle r (controlOp op r)"
proof (cases op)
  case (OpHeartbeat h)
  then show ?thesis by (simp add: serviceSafetyHeartbeat_def Let_def)
qed (simp_all add: quiet_open quiet_consume [OF assms] quiet_service [OF assms]
      quiet_mono [OF quiet_trip])

lemma quiet_closeEnds:
  assumes "relay_wf r" and "closeBegin io limit purpose r = (Finished b, r')"
  shows "quietIdle r r'"
proof -
  let ?l = "r\<lparr>controlLogLatched := True\<rparr>"
  have l: "quietIdle r ?l" by simp
  have t: "quietIdle r (addDebugEvent e (tripRelaySafety io' f h o' lo ?l))" for e io' f h o' lo
    by (rule quiet_trans [OF quiet_trans [OF l quiet_mono [OF quiet_trip]] quiet_mono [OF quiet_event]])
  have e: "quietIdle r (addDebugEvent e ?l)" for e
    by (rule quiet_trans [OF l quiet_mono [OF quiet_event]])
  have a: "quietIdle r (snd (reassertCommandedRelayClosedPin io ?l))"
    by (rule quiet_trans [OF l quiet_reassert [OF relay_wf_latch [OF assms(1)]]])
  show ?thesis
    by (cases rule: closeBegin_cases [of r io limit purpose])
      (use assms(2) t e a in \<open>auto simp: armFailed_def split_beta\<close>)
qed

lemma relay_wf_controlOp [wf_intros]: "relay_wf r \<Longrightarrow> relay_wf (controlOp op r)"
  by (cases op) (simp_all add: relay_wf_openCircuit relay_wf_consume relay_wf_service relay_wf_heartbeat
      relay_wf_trip)


section \<open>The invariant\<close>

fun promoting :: "control \<Rightarrow> bool" where
  "promoting (PromoteHard io g c) = True"
| "promoting (PromoteFinish io g c a) = True"
| "promoting _ = False"

text \<open>
  How long after the commit the alarm may come: 60 s, or 180 s and the millisecond the
  truncated clock hides once a backflush close is being or has been promoted.
\<close>

definition boundUs :: "bool \<Rightarrow> nat" where
  "boundUs backflush = (if backflush then 180000999 else 60000000)"

definition backflushClose :: "sys \<Rightarrow> bool" where
  "backflushClose s \<longleftrightarrow> relayPurpose (driver s) = BACKFLUSH_CONFIRMED \<or> promoting (control s)"

definition closed_inv :: "sys \<Rightarrow> bool" where
  "closed_inv s \<longleftrightarrow> (let r = driver s in
     (relayHardLimitMs r = 0 \<longrightarrow> relayPurpose r = NORMAL) \<and>
     (relayHardLimitMs r \<noteq> 0 \<longrightarrow>
        alarmLive r \<and> alarmAtUs r \<le> energizedUs s + boundUs (backflushClose s) \<and>
        energizedUs s div 1000 - closingUs s div 1000 < 60000) \<and>
     energizedUs s \<le> nowUs r \<and> closingUs s \<le> energizedUs s \<and>
     circuitClosedAtMs r = millis (closingUs s))"

definition ctx_inv :: "close_ctx \<Rightarrow> sys \<Rightarrow> bool" where
  "ctx_inv ctx s \<longleftrightarrow> (let r = driver s in
     (ccUnlimited ctx \<longleftrightarrow> relayHardLimitMs r = 0) \<and>
     0 < unat (ccLimitMs ctx) \<and> unat (ccLimitMs ctx) \<le> 60000 \<and>
     ccClosingAtMs ctx = millis (closingUs s) \<and> closingUs s \<le> nowUs r \<and>
     nowUs r div 1000 - closingUs s div 1000 < 2 ^ 32 \<and>
     relaySafetyState r \<noteq> CLOSED \<and>
     (relaySafetyState r = ARMING \<longrightarrow> circuitClosedAtMs r = millis (closingUs s) \<and>
        (relayHardLimitMs r = 0 \<longrightarrow> relayPurpose r = NORMAL)))"

definition armed_inv :: "bool \<Rightarrow> close_ctx \<Rightarrow> sys \<Rightarrow> bool" where
  "armed_inv a ctx s \<longleftrightarrow> ctx_inv ctx s \<and>
     (a \<and> \<not> ccUnlimited ctx \<and> relaySafetyState (driver s) = ARMING \<longrightarrow> alarmLive (driver s) \<and>
        alarmAtUs (driver s) \<le> nowUs (driver s) + unat (ccLimitMs ctx) * 1000)"

fun control_inv :: "control \<Rightarrow> sys \<Rightarrow> bool" where
  "control_inv (ArmIndependent io ctx) s = ctx_inv ctx s"
| "control_inv (ArmHard io ctx a) s = armed_inv a ctx s"
| "control_inv (ArmOperational io ctx a) s = armed_inv a ctx s"
| "control_inv (Commit io ctx a) s = armed_inv a ctx s"
| "control_inv (PromoteHard io g c) s = (relayHardLimitMs (driver s) \<noteq> 0)"
| "control_inv (PromoteFinish io g c a) s = (relayHardLimitMs (driver s) \<noteq> 0)"
| "control_inv Idle s = True"

definition sys_inv :: "bool \<Rightarrow> nat \<Rightarrow> sys \<Rightarrow> bool" where
  "sys_inv m L s \<longleftrightarrow> relay_wf (driver s) \<and> compatibilityMode (driver s) = m \<and>
     (relayHardLimitMs (driver s) = 0 \<longrightarrow> m) \<and>
     (alarmLive (driver s) \<longrightarrow> nowUs (driver s) \<le> alarmAtUs (driver s) + L) \<and>
     (relaySafetyState (driver s) = CLOSED \<longrightarrow> closed_inv s) \<and>
     control_inv (control s) s"

text \<open>A quiet change of the driver preserves the invariant, whoever makes it.\<close>

lemma inv_quiet:
  assumes "sys_inv m L s" and "relay_wf r" and "quiet commandedState (driver s) r"
  shows "sys_inv m L (s\<lparr>driver := r, publishPending := n\<rparr>)"
proof -
  let ?s = "s\<lparr>driver := r, publishPending := n\<rparr>" and ?d = "driver s"
  have k: "nowUs r = nowUs ?d" "compatibilityMode r = compatibilityMode ?d"
      "relayHardLimitMs r = relayHardLimitMs ?d"
    and l: "alarmLive r \<Longrightarrow> alarmLive ?d" "alarmLive r \<Longrightarrow> alarmAtUs r = alarmAtUs ?d"
    and p: "commandedState (relaySafetyState r) \<Longrightarrow> relaySafetyState r = relaySafetyState ?d \<and>
       (relayHardLimitMs ?d \<noteq> 0 \<and> alarmLive ?d \<longrightarrow> alarmLive r) \<and> relayPurpose r = relayPurpose ?d \<and>
       circuitClosedAtMs r = circuitClosedAtMs ?d"
    using assms(3) unfolding quiet_def by blast+
  have c: "closed_inv ?s" if "relaySafetyState r = CLOSED"
    using p that assms(1) k l by (auto simp: sys_inv_def closed_inv_def backflushClose_def Let_def)
  have x: "ctx_inv ctx ?s" if "ctx_inv ctx s" for ctx
    using p that k by (cases "relaySafetyState r") (auto simp: ctx_inv_def Let_def)
  have a: "armed_inv b ctx ?s" if "armed_inv b ctx s" for b ctx
  proof -
    have "relayHardLimitMs ?d \<noteq> 0" if "\<not> ccUnlimited ctx"
      using \<open>armed_inv b ctx s\<close> that by (simp add: armed_inv_def ctx_inv_def Let_def)
    then show ?thesis using p that k l x by (auto simp: armed_inv_def)
  qed
  have "control_inv (control s) ?s"
    using assms(1) x a k(3) by (cases "control s") (simp_all add: sys_inv_def)
  then show ?thesis using assms(1,2) k l c by (simp add: sys_inv_def)
qed

lemma inv_quietIdle:
  assumes "sys_inv m L s" and "control s = Idle" and "relay_wf r" and "quietIdle (driver s) r"
  shows "sys_inv m L (s\<lparr>driver := r\<rparr>)"
proof -
  let ?s = "s\<lparr>driver := r\<rparr>" and ?d = "driver s"
  have k: "nowUs r = nowUs ?d" "compatibilityMode r = compatibilityMode ?d"
      "relayHardLimitMs r = relayHardLimitMs ?d"
    and l: "alarmLive r \<Longrightarrow> alarmLive ?d" "alarmLive r \<Longrightarrow> alarmAtUs r = alarmAtUs ?d"
    and p: "relaySafetyState r = CLOSED \<Longrightarrow> relaySafetyState r = relaySafetyState ?d \<and>
       (relayHardLimitMs ?d \<noteq> 0 \<and> alarmLive ?d \<longrightarrow> alarmLive r) \<and> relayPurpose r = relayPurpose ?d \<and>
       circuitClosedAtMs r = circuitClosedAtMs ?d"
    using assms(4) unfolding quiet_def by blast+
  have c: "closed_inv ?s" if "relaySafetyState r = CLOSED"
    using p that assms(1) k l by (auto simp: sys_inv_def closed_inv_def backflushClose_def Let_def)
  show ?thesis using assms k l c by (simp add: sys_inv_def)
qed

lemma inv_tick:
  assumes "sys_inv m L s" and "tickAllowed L d s"
  shows "sys_inv m L (s\<lparr>driver := (driver s)\<lparr>nowUs := nowUs (driver s) + d\<rparr>\<rparr>)"
proof -
  let ?r = "(driver s)\<lparr>nowUs := nowUs (driver s) + d\<rparr>"
  let ?s = "s\<lparr>driver := ?r\<rparr>"
  have al: "alarmLive ?r = alarmLive (driver s)" "alarmAtUs ?r = alarmAtUs (driver s)"
    by (simp_all add: alarmLive_def alarmAtUs_def)
  have wf: "relay_wf ?r" using assms(1) by (auto simp: sys_inv_def relay_wf_def)
  have cl: "closed_inv ?s" if "closed_inv s"
    using that al by (simp add: closed_inv_def backflushClose_def Let_def)
  have cx: "ctx_inv ctx ?s" if "ctx_inv ctx s" "control s \<noteq> Idle" for ctx
    using that assms(2) by (simp add: ctx_inv_def tickAllowed_def Let_def)
  have ar: "armed_inv a ctx ?s" if "armed_inv a ctx s" "control s \<noteq> Idle" for a ctx
    using that cx al by (auto simp: armed_inv_def)
  have "control_inv (control s) ?s"
    using assms(1) cx ar by (cases "control s") (simp_all add: sys_inv_def)
  then show ?thesis
    using assms wf al cl by (simp add: sys_inv_def tickAllowed_def)
qed


section \<open>The transaction steps\<close>

lemma timerArm_alarm:
  assumes "timerArm (\<lambda>t. t) io now ms t = (a, t')"
  shows "a \<Longrightarrow> timerRunning t' \<and> dueAtUs t' = now + unat ms * 1000"
    and "\<not> a \<Longrightarrow> timerRunning t' \<or> callbackInFlight t' \<Longrightarrow>
      (timerRunning t \<or> callbackInFlight t) \<and> dueAtUs t' = dueAtUs t"
  using assms by (auto simp: timerArm_def timerStop_def Let_def split: if_splits)

lemma HARD_MAX_unat [simp]: "unat HARD_MAX_CIRCUIT_CLOSED_MS = 60000"
  by (simp add: HARD_MAX_CIRCUIT_CLOSED_MS_def)

lemma BACKFLUSH_MAX_unat [simp]: "unat BACKFLUSH_MAX_CIRCUIT_CLOSED_MS = 180000"
  by (simp add: BACKFLUSH_MAX_CIRCUIT_CLOSED_MS_def)

lemma valid_limit:
  "\<not> invalidCloseRequest limit purpose \<Longrightarrow> 0 < unat limit \<and> unat limit \<le> 60000"
  by (auto simp: invalidCloseRequest_def u32_less_unat not_less)

lemma inv_closeBegins:
  assumes "sys_inv m L s" and "control s = Idle"
    and "closeBegin io limit purpose (driver s) = (Begun ctx, r)"
  shows "sys_inv m L (s\<lparr>driver := r, control := ArmIndependent io ctx, closingUs := nowUs (driver s)\<rparr>)"
proof -
  let ?d = "driver s" and ?l = "(driver s)\<lparr>controlLogLatched := True\<rparr>"
  have wf: "relay_wf r"
    using relay_wf_closeBegin [of ?d io limit purpose] assms(1,3) by (simp add: sys_inv_def)
  have "\<not> invalidCloseRequest limit purpose \<and> publishArming io limit purpose ?l = (ctx, r)"
  proof (cases rule: closeBegin_cases [of ?d io limit purpose])
    case begun
    then show ?thesis using assms(3) by (auto split: prod.splits)
  qed (use assms(3) in \<open>auto split: prod.splits\<close>)
  then have b: "\<not> invalidCloseRequest limit purpose" and pa: "publishArming io limit purpose ?l = (ctx, r)"
    by blast+
  have ctx: "ctx = fst (publishArming io limit purpose ?l)" and r: "r = snd (publishArming io limit purpose ?l)"
    by (simp_all add: pa)
  have c: "ccUnlimited ctx \<longleftrightarrow> compatibilityMode ?d \<and> purpose = NORMAL" "ccLimitMs ctx = limit"
      "ccClosingAtMs ctx = millis (nowUs ?d)"
    by (simp_all add: ctx publishArming_def relayMillis_def Let_def)
  have f: "relaySafetyState r = ARMING" "circuitClosedAtMs r = millis (nowUs ?d)" "nowUs r = nowUs ?d"
      "compatibilityMode r = compatibilityMode ?d" "relayPurpose r = purpose"
      "relayHardLimitMs r = 0 \<longleftrightarrow> compatibilityMode ?d \<and> purpose = NORMAL"
      "alarmLive r = alarmLive (stopRelayDeadlineTimers (ioStopA io) ?l)"
      "alarmAtUs r = alarmAtUs (stopRelayDeadlineTimers (ioStopA io) ?l)"
    by (simp_all add: r publishArming_def relayMillis_def Let_def alarmLive_def alarmAtUs_def
        HARD_MAX_CIRCUIT_CLOSED_MS_def)
  have al: "alarmLive r \<Longrightarrow> alarmLive ?d \<and> alarmAtUs r = alarmAtUs ?d"
    using alarmLive_stop [of "ioStopA io" ?l] f(7,8) by (simp add: alarmLive_def alarmAtUs_def)
  show ?thesis
    using assms(1) wf f al c valid_limit [OF b] by (auto simp: sys_inv_def ctx_inv_def Let_def)
qed

lemma inv_armsIndependent:
  assumes "sys_inv m L s" and "control s = ArmIndependent io ctx"
    and "closeArmIndependent io ctx (driver s) = (a, r)"
  shows "sys_inv m L (s\<lparr>driver := r, control := ArmHard io ctx a\<rparr>)"
proof (cases "ccUnlimited ctx")
  case True
  then have "r = driver s" using assms(3) by (simp add: closeArmIndependent_def)
  then show ?thesis
    using assms(1,2) True by (auto simp: sys_inv_def armed_inv_def ctx_inv_def Let_def)
next
  case False
  let ?d = "driver s"
  have cx: "ctx_inv ctx s" and wf: "relay_wf ?d" using assms(1,2) by (simp_all add: sys_inv_def)
  obtain t where arm: "timerArm (\<lambda>t. t) (ioArm io) (nowUs ?d) (ccLimitMs ctx) (independentSafetyTimer ?d) = (a, t)"
      and r: "r = ?d\<lparr>independentSafetyTimer := t\<rparr>"
    using assms(3) False by (auto simp: closeArmIndependent_def split: prod.splits)
  have wf': "relay_wf r" using relay_wf_closeArm(1) [OF wf, of io ctx] assms(3) by simp
  have on: "a \<Longrightarrow> alarmLive r \<and> alarmAtUs r = nowUs ?d + unat (ccLimitMs ctx) * 1000"
    using timerArm_alarm(1) [OF arm] by (simp add: r alarmLive_def alarmAtUs_def)
  have off: "\<not> a \<Longrightarrow> alarmLive r \<Longrightarrow> alarmLive ?d \<and> alarmAtUs r = alarmAtUs ?d"
    using timerArm_alarm(2) [OF arm] by (simp add: r alarmLive_def alarmAtUs_def)
  have bound: "alarmLive r \<Longrightarrow> nowUs ?d \<le> alarmAtUs r + L"
    using on off assms(1) by (cases a) (auto simp: sys_inv_def)
  have "ctx_inv ctx (s\<lparr>driver := r, control := ArmHard io ctx a\<rparr>)"
    using cx by (simp add: ctx_inv_def r Let_def)
  then show ?thesis
    using assms(1) wf' on bound cx by (auto simp: sys_inv_def armed_inv_def ctx_inv_def r Let_def)
qed

lemma quiet_espTimers:
  "closeArmHard io ctx a r = (a', r') \<Longrightarrow> quiet commandedState r r' \<and> (a' \<longrightarrow> a)"
  "closeArmOperational io ctx a r = (a', r') \<Longrightarrow> quiet commandedState r r' \<and> (a' \<longrightarrow> a)"
  by (auto simp: closeArmHard_def closeArmOperational_def quiet_def alarmLive_def alarmAtUs_def
      split: if_splits)

lemma inv_armsNext:
  assumes "sys_inv m L s" and "\<And>s'. control_inv (control s) s' = armed_inv a ctx s'"
    and "relay_wf r" and "quiet commandedState (driver s) r" and "a' \<longrightarrow> a"
    and "\<And>s. control_inv c s = armed_inv a' ctx s" and "\<not> promoting c"
  shows "sys_inv m L (s\<lparr>driver := r, control := c\<rparr>)"
proof -
  let ?s = "s\<lparr>driver := r, publishPending := publishPending s\<rparr>"
  have i: "sys_inv m L ?s" by (rule inv_quiet [OF assms(1,3,4)])
  have ar: "armed_inv a ctx ?s"
    using i by (simp add: sys_inv_def assms(2))
  have "armed_inv a' ctx (s\<lparr>driver := r, control := c\<rparr>)"
    using ar assms(5) by (simp add: armed_inv_def ctx_inv_def Let_def)
  moreover have "relaySafetyState r \<noteq> CLOSED"
    using ar by (simp add: armed_inv_def ctx_inv_def Let_def)
  ultimately show ?thesis using i assms(6) by (simp add: sys_inv_def)
qed


lemma commit_true:
  assumes "commitStep io ctx a r = (True, r')"
  shows "a" and "relaySafetyState r = ARMING"
    and "ccUnlimited ctx \<or> millis (nowUs r) - ccClosingAtMs ctx < ccLimitMs ctx"
    and "relaySafetyState r' = CLOSED" and "nowUs r' = nowUs r"
    and "compatibilityMode r' = compatibilityMode r" and "relayHardLimitMs r' = relayHardLimitMs r"
    and "alarmLive r' = alarmLive r" and "alarmAtUs r' = alarmAtUs r"
    and "circuitClosedAtMs r' = circuitClosedAtMs r" and "relayPurpose r' = relayPurpose r"
  using assms
  by (simp_all add: commitStep_def closeArmFailed_def closeCommit_def commitAllowed_def Let_def
      relayMillis_def alarmLive_def alarmAtUs_def writeRelayClosedOutput_def split: if_splits)
    (auto simp: addDebugEvent_def recordClosed_def)

lemma relay_wf_commitStep [wf_intros]:
  "relay_wf r \<Longrightarrow> relay_wf (snd (commitStep io ctx a r))"
  by (simp add: commitStep_def relay_wf_closeArmFailed relay_wf_closeCommit)

lemma inv_commits:
  assumes "sys_inv m L s" and "control s = Commit io ctx a" and "commitStep io ctx a (driver s) = (True, r)"
  shows "sys_inv m L (s\<lparr>driver := r, control := Idle, energizedUs := nowUs (driver s)\<rparr>)"
proof -
  let ?d = "driver s"
  note c = commit_true [OF assms(3)]
  have wf: "relay_wf r" using relay_wf_commitStep [of ?d io ctx a] assms(1,3) by (simp add: sys_inv_def)
  have ar: "armed_inv a ctx s" using assms(1,2) by (simp add: sys_inv_def)
  then have cx: "ctx_inv ctx s" by (simp add: armed_inv_def)
  have cl: "relaySafetyState ?d \<noteq> CLOSED" "closingUs s \<le> nowUs ?d"
    and c0: "circuitClosedAtMs ?d = millis (closingUs s)" "relayHardLimitMs ?d = 0 \<Longrightarrow> relayPurpose ?d = NORMAL"
    using cx c(2) by (simp_all add: ctx_inv_def Let_def)
  have limited: "alarmLive ?d \<and> alarmAtUs ?d \<le> nowUs ?d + 60000000 \<and>
      nowUs ?d div 1000 - closingUs s div 1000 < 60000" if "relayHardLimitMs ?d \<noteq> 0"
  proof -
    have u: "\<not> ccUnlimited ctx" and lim: "unat (ccLimitMs ctx) \<le> 60000"
      using cx that by (simp_all add: ctx_inv_def Let_def)
    have live: "alarmLive ?d" "alarmAtUs ?d \<le> nowUs ?d + unat (ccLimitMs ctx) * 1000"
      using ar c(1,2) u by (simp_all add: armed_inv_def)
    have "unat (elapsedMs (nowUs ?d) (millis (closingUs s))) < unat (ccLimitMs ctx)"
      using c(3) cx u by (simp add: ctx_inv_def elapsedMs_def u32_less_unat Let_def)
    moreover have "unat (elapsedMs (nowUs ?d) (millis (closingUs s))) =
        nowUs ?d div 1000 - closingUs s div 1000"
      using cx by (intro unat_elapsed) (simp_all add: ctx_inv_def Let_def)
    ultimately show ?thesis using lim live by linarith
  qed
  have "closed_inv (s\<lparr>driver := r, control := Idle, energizedUs := nowUs ?d\<rparr>)"
    using limited c0 cl c(4-) by (auto simp: closed_inv_def boundUs_def Let_def)
  then show ?thesis using assms(1) wf c by (simp add: sys_inv_def)
qed

lemma quiet_cancel:
  assumes "commitStep io ctx a r = (False, r')" and "relaySafetyState r \<noteq> CLOSED"
  shows "quietIdle r r'"
proof (cases a)
  case True
  then have r': "r' = addDebugEvent (CIRCUIT_ARM_FAILED ARM_CANCELED)
      (stopRelayDeadlineTimers (ioStopB io) (recordClosed False (recordClosed True r)))"
    using assms(1) by (auto simp: commitStep_def closeCommit_def armFailed_def Let_def split: if_splits)
  have "quietIdle r (recordClosed False (recordClosed True r))"
    by (rule quiet_mono [OF quiet_trans [OF quiet_recordClosed quiet_recordClosed]])
  then show ?thesis
    unfolding r' using assms(2)
    by (intro quiet_trans [OF quiet_trans [OF _ quiet_stop_open] quiet_mono [OF quiet_event]]) simp_all
next
  case False
  then have r': "r' = addDebugEvent (CIRCUIT_ARM_FAILED ARM_TIMER_ARM_FAILED)
      (tripLockout (ioStopB io) TIMER_ARM_FAILED r)"
    using assms(1) by (simp add: commitStep_def closeArmFailed_def armFailed_def)
  show ?thesis unfolding r' by (rule quiet_mono [OF quiet_trans [OF quiet_trip quiet_event]])
qed

lemma inv_cancels:
  assumes "sys_inv m L s" and "control s = Commit io ctx a" and "commitStep io ctx a (driver s) = (False, r)"
  shows "sys_inv m L (s\<lparr>driver := r, control := Idle\<rparr>)"
proof -
  have nc: "relaySafetyState (driver s) \<noteq> CLOSED"
    using assms(1,2) by (simp add: sys_inv_def armed_inv_def ctx_inv_def Let_def)
  have "sys_inv m L (s\<lparr>control := Idle\<rparr>)" using assms(1) nc by (simp add: sys_inv_def)
  moreover have "relay_wf r"
    using relay_wf_commitStep [of "driver s" io ctx a] assms(1,3) by (simp add: sys_inv_def)
  ultimately have "sys_inv m L (s\<lparr>control := Idle, driver := r\<rparr>)"
    using quiet_cancel [OF assms(3) nc] by (intro inv_quietIdle) simp_all
  moreover have "s\<lparr>control := Idle, driver := r\<rparr> = s\<lparr>driver := r, control := Idle\<rparr>"
    by (cases s) simp
  ultimately show ?thesis by simp
qed


lemma inv_promoteBegins:
  assumes "sys_inv m L s" and "L \<le> 1000000000" and "promoteAdmitted g (driver s)"
    and "promoteArm io (driver s) = (True, r)" and "control s = Idle"
  shows "sys_inv m L (s\<lparr>driver := r, control := PromoteHard io g c\<rparr>)"
proof -
  let ?d = "driver s" and ?e = "relayElapsed (circuitClosedAtMs (driver s)) (driver s)"
  have wf: "relay_wf r" using relay_wf_promote(1) [of ?d io] assms(1,4) by (simp add: sys_inv_def)
  have adm: "relaySafetyState ?d = CLOSED" "relayPurpose ?d = BACKFLUSH_CANDIDATE" "unat ?e < 60000"
    using assms(3) by (simp_all add: promoteAdmitted_def getRelaySafetySnapshot_def Let_def u32_le_unat)
  then have cl: "closed_inv s" using assms(1) by (simp add: sys_inv_def)
  obtain t where arm: "timerArm (\<lambda>t. t) (ioArm io) (nowUs ?d)
        (BACKFLUSH_MAX_CIRCUIT_CLOSED_MS - ?e) (independentSafetyTimer ?d) = (True, t)"
      and r: "r = ?d\<lparr>independentSafetyTimer := t\<rparr>"
    using assms(4) by (auto simp: promoteArm_def split: prod.splits)
  have alarm: "alarmLive r" "alarmAtUs r = nowUs ?d + unat (BACKFLUSH_MAX_CIRCUIT_CLOSED_MS - ?e) * 1000"
    using timerArm_alarm(1) [OF arm] by (simp_all add: r alarmLive_def alarmAtUs_def)
  have lim: "relayHardLimitMs ?d \<noteq> 0" using cl adm(2) by (auto simp: closed_inv_def Let_def)
  have cl': "alarmLive ?d" "alarmAtUs ?d \<le> energizedUs s + 60000000" "energizedUs s \<le> nowUs ?d"
      "closingUs s \<le> energizedUs s" "circuitClosedAtMs ?d = millis (closingUs s)"
      "energizedUs s div 1000 - closingUs s div 1000 < 60000"
    using cl adm(2) assms(5) lim by (simp_all add: closed_inv_def backflushClose_def boundUs_def Let_def)
  have now: "nowUs ?d \<le> energizedUs s + 60000000 + L"
    using assms(1) cl'(1,2) by (simp add: sys_inv_def)
  have e: "unat ?e = nowUs ?d div 1000 - closingUs s div 1000"
    unfolding relayElapsed_def cl'(5)
  proof (rule unat_elapsed)
    show "closingUs s \<le> nowUs ?d" using cl' by linarith
    have "nowUs ?d div 1000 \<le> (energizedUs s + 60000000 + 1000000000) div 1000"
      using now assms(2) by (intro div_le_mono) linarith
    also have "\<dots> = energizedUs s div 1000 + 1060000"
      by (simp add: div_add1_eq)
    finally show "nowUs ?d div 1000 - closingUs s div 1000 < 2 ^ 32" using cl'(6) by simp
  qed
  have sub: "unat (BACKFLUSH_MAX_CIRCUIT_CLOSED_MS - ?e) = 180000 - unat ?e"
    using adm(3) by (simp add: unat_sub u32_le_unat)
  have "alarmAtUs r \<le> energizedUs s + 180000999"
  proof -
    have a: "closingUs s div 1000 \<le> nowUs ?d div 1000" using cl' by (intro div_le_mono) linarith
    have "alarmAtUs r = nowUs ?d + 180000000 - (nowUs ?d div 1000 - closingUs s div 1000) * 1000"
      using alarm(2) sub e adm(3) by (simp add: diff_mult_distrib)
    also have "\<dots> \<le> closingUs s div 1000 * 1000 + 180000999"
    proof -
      have "nowUs ?d = nowUs ?d div 1000 * 1000 + nowUs ?d mod 1000" by simp
      moreover have "nowUs ?d mod 1000 \<le> 999" using mod_less_divisor [of 1000 "nowUs ?d"] by linarith
      ultimately show ?thesis using a by (simp add: diff_mult_distrib)
    qed
    also have "\<dots> \<le> energizedUs s + 180000999"
      using cl'(4) div_times_less_eq_dividend [of "closingUs s" 1000] by linarith
    finally show ?thesis .
  qed
  then have "closed_inv (s\<lparr>driver := r, control := PromoteHard io g c\<rparr>)"
    using alarm cl' lim by (simp add: closed_inv_def backflushClose_def boundUs_def r Let_def)
  then show ?thesis
    using assms(1) wf alarm lim by (simp add: sys_inv_def r)
qed


lemma inv_promoteFails:
  assumes "sys_inv m L s" and "promoteArm io (driver s) = (False, r)" and "control s = Idle"
  shows "sys_inv m L (s\<lparr>driver := snd (promoteCommit io g c False r)\<rparr>)"
proof -
  let ?d = "driver s" and ?r = "tripLockout (ioStopB io) TIMER_ARM_FAILED r"
  have r': "snd (promoteCommit io g c False r) = ?r" by (simp add: promoteCommit_def)
  have wf: "relay_wf r" using relay_wf_promote(1) [of ?d io] assms(1,2) by (simp add: sys_inv_def)
  obtain t where arm: "timerArm (\<lambda>t. t) (ioArm io) (nowUs ?d)
        (BACKFLUSH_MAX_CIRCUIT_CLOSED_MS - relayElapsed (circuitClosedAtMs ?d) ?d)
        (independentSafetyTimer ?d) = (False, t)"
      and r: "r = ?d\<lparr>independentSafetyTimer := t\<rparr>"
    using assms(2) by (auto simp: promoteArm_def split: prod.splits)
  have "alarmLive r \<Longrightarrow> alarmLive ?d \<and> alarmAtUs r = alarmAtUs ?d"
    using timerArm_alarm(2) [OF arm] by (simp add: r alarmLive_def alarmAtUs_def)
  then have "alarmLive ?r \<longrightarrow> nowUs ?d \<le> alarmAtUs ?r + L"
    using assms(1) alarmLive_trip [of "ioStopB io" TIMER_ARM_FAILED False False True r]
    by (auto simp: sys_inv_def)
  moreover have "nowUs r = nowUs ?d" "compatibilityMode r = compatibilityMode ?d"
      "relayHardLimitMs r = relayHardLimitMs ?d" by (simp_all add: r)
  ultimately show ?thesis
    unfolding r' using assms(1,3) relay_wf_trip [OF wf] by (simp add: sys_inv_def)
qed

lemma quiet_promoteHard:
  "promoteHardDeadline io c a r = (b, r') \<Longrightarrow> quiet commandedState r r'"
  by (auto simp: promoteHardDeadline_def quiet_def alarmLive_def alarmAtUs_def Let_def
      split: if_splits)

lemma inv_promotesHard:
  assumes "sys_inv m L s" and "control s = PromoteHard io g c"
    and "promoteHardDeadline io c True (driver s) = (a, r)"
  shows "sys_inv m L (s\<lparr>driver := r, control := PromoteFinish io g c a\<rparr>)"
proof -
  have "relay_wf r"
    using relay_wf_promote(2) [of "driver s" io c True] assms(1,3) by (simp add: sys_inv_def)
  then have "sys_inv m L (s\<lparr>driver := r, publishPending := publishPending s\<rparr>)"
    using inv_quiet [OF assms(1) _ quiet_promoteHard [OF assms(3)]] by blast
  then show ?thesis
    by (simp add: sys_inv_def closed_inv_def backflushClose_def assms(2))
qed

lemma inv_promoteEnds:
  assumes "sys_inv m L s" and "control s = PromoteFinish io g c a"
  shows "sys_inv m L (s\<lparr>driver := snd (promoteCommit io g c a (driver s)), control := Idle\<rparr>)"
proof (cases "fst (promoteCommit io g c a (driver s))")
  case True
  then have r: "snd (promoteCommit io g c a (driver s)) =
      (driver s)\<lparr>relayPurpose := BACKFLUSH_CONFIRMED, relayHardLimitMs := BACKFLUSH_MAX_CIRCUIT_CLOSED_MS,
         operationalLimitAtArmMs := BACKFLUSH_MAX_CIRCUIT_CLOSED_MS\<rparr>"
    by (simp add: promoteCommit_def Let_def split: if_splits)
  have "relay_wf (snd (promoteCommit io g c a (driver s)))"
    using assms(1) by (intro relay_wf_promote) (simp add: sys_inv_def)
  moreover have "BACKFLUSH_MAX_CIRCUIT_CLOSED_MS \<noteq> 0"
    by (simp add: BACKFLUSH_MAX_CIRCUIT_CLOSED_MS_def)
  ultimately show ?thesis
    using assms by (simp add: r sys_inv_def closed_inv_def backflushClose_def alarmLive_def
        alarmAtUs_def Let_def)
next
  case False
  then have r: "snd (promoteCommit io g c a (driver s)) =
      tripLockout (ioStopB io) TIMER_ARM_FAILED (driver s)"
    by (auto simp: promoteCommit_def Let_def split: if_splits)
  show ?thesis
    unfolding r
    using assms(1) relay_wf_trip alarmLive_trip [of "ioStopB io" TIMER_ARM_FAILED False False True "driver s"]
    by (auto simp: sys_inv_def)
qed

lemma step_inv:
  assumes "sys_inv m L s" and "L \<le> 1000000000" and "step L s s'"
  shows "sys_inv m L s'"
  using assms(3)
proof cases
  case (tick d)
  then show ?thesis using inv_tick [OF assms(1)] by simp
next
  case (inputs wd w f)
  have "relay_wf ((driver s)\<lparr>feedbackPinClosed := f, closeWriteOk := w,
      watchdogFaulted := (watchdogFaulted (driver s) \<or> wd)\<rparr>)"
    using assms(1) by (auto simp: sys_inv_def relay_wf_def)
  then show ?thesis
    using inv_quiet [OF assms(1) _ quiet_fields(8), where n = "publishPending s"] inputs by simp
next
  case padDrops
  have "relay_wf ((driver s)\<lparr>pinClosed := False\<rparr>)"
    using assms(1) by (auto simp: sys_inv_def relay_wf_def)
  then show ?thesis
    using inv_quiet [OF assms(1) _ quiet_fields(6), where n = "publishPending s"] padDrops by simp
next
  case isrEnters
  then show ?thesis
    using inv_quiet [OF assms(1) relay_wf_isrEnter quiet_isrEnter, where n = "publishPending s"] assms(1)
    by (simp add: sys_inv_def)
next
  case isrRuns
  then show ?thesis
    using inv_quiet [OF assms(1) relay_wf_isrBody quiet_isrBody, where n = "publishPending s"] assms(1)
    by (simp add: sys_inv_def)
next
  case (hardCallback t r)
  have "relay_wf r"
    using hardCallback(2) assms(1)
    by (auto simp: hardLimitSection_def sys_inv_def relay_wf_tripLocked split: if_splits)
  then show ?thesis
    using inv_quiet [OF assms(1) _ quiet_sections(1) [OF hardCallback(2)]] hardCallback(1) by simp
next
  case (operationalCallback t r)
  have "relay_wf r"
    using operationalCallback(2) assms(1)
    by (auto simp: operationalLimitSection_def sys_inv_def relay_wf_tripLocked split: if_splits)
  then show ?thesis
    using inv_quiet [OF assms(1) _ quiet_sections(2) [OF operationalCallback(2)]] operationalCallback(1)
    by simp
next
  case publish
  then show ?thesis
    using inv_quiet [OF assms(1) relay_wf_record quiet_recordClosed] assms(1) by (simp add: sys_inv_def)
next
  case (control op)
  then show ?thesis
    using inv_quietIdle [OF assms(1) _ relay_wf_controlOp quiet_controlOp] assms(1)
    by (simp add: sys_inv_def)
next
  case (closeEnds io limit purpose b r)
  have "relay_wf r"
    using relay_wf_closeBegin [of "driver s" io limit purpose] closeEnds(3) assms(1)
    by (simp add: sys_inv_def)
  then show ?thesis
    using inv_quietIdle [OF assms(1) closeEnds(2) _ quiet_closeEnds [OF _ closeEnds(3)]] assms(1) closeEnds(1)
    by (simp add: sys_inv_def)
next
  case (closeBegins io limit purpose ctx r)
  then show ?thesis using inv_closeBegins [OF assms(1)] by simp
next
  case (armsIndependent io ctx a r)
  then show ?thesis using inv_armsIndependent [OF assms(1)] by simp
next
  case (armsHard io ctx a a' r)
  have "relay_wf r"
    using relay_wf_closeArm(2) [of "driver s" io ctx a] armsHard(3) assms(1) by (simp add: sys_inv_def)
  then show ?thesis
    unfolding armsHard(1)
    using quiet_espTimers(1) [OF armsHard(3)]
    by (intro inv_armsNext [OF assms(1)]) (auto simp: armsHard(2))
next
  case (armsOperational io ctx a a' r)
  have "relay_wf r"
    using relay_wf_closeArm(3) [of "driver s" io ctx a] armsOperational(3) assms(1)
    by (simp add: sys_inv_def)
  then show ?thesis
    unfolding armsOperational(1)
    using quiet_espTimers(2) [OF armsOperational(3)]
    by (intro inv_armsNext [OF assms(1)]) (auto simp: armsOperational(2))
next
  case (commits io ctx a r)
  then show ?thesis using inv_commits [OF assms(1)] by simp
next
  case (cancels io ctx a r)
  then show ?thesis using inv_cancels [OF assms(1)] by simp
next
  case (promoteBegins g io r)
  then show ?thesis using inv_promoteBegins [OF assms(1,2)] by simp
next
  case (promoteFails g io r)
  then show ?thesis using inv_promoteFails [OF assms(1)] by simp
next
  case (promotesHard io g c a r)
  then show ?thesis using inv_promotesHard [OF assms(1)] by simp
next
  case (promoteEnds io g c a)
  then show ?thesis using inv_promoteEnds [OF assms(1)] by simp
qed

lemma reachable_inv:
  assumes "reachable L s0 s" and "sys_inv m L s0" and "L \<le> 1000000000"
  shows "sys_inv m L s"
  using assms(1) by induction (use assms(2,3) step_inv in auto)

lemma bootedSys_inv: "sys_inv m L (bootedSys m x)"
proof -
  have wf: "relay_wf ((bootedRelay x)\<lparr>compatibilityMode := m\<rparr>)"
    using bootedRelay_facts(1) [of x] unfolding relay_wf_def by auto
  have "relayHardLimitMs (bootedRelay x) \<noteq> 0" "\<not> alarmLive (bootedRelay x)"
    by (simp_all add: bootedRelay_def initializeRelaySafetyStateAfterBoot_def Let_def
        initializeRelaySafetyTimer_def timerBegin_def relay0_def timer0_def alarmLive_def)
  then show ?thesis
    using wf bootedRelay_facts [of x] by (simp add: sys_inv_def bootedSys_def alarmLive_def)
qed


section \<open>The sequential call is one of the interleavings\<close>

lemma reachable_trans:
  assumes "reachable L s s'" and "reachable L s' s''"
  shows "reachable L s s''"
  using assms(2) by induction (use assms(1) more in auto)

lemma reachable_step: "step L s s' \<Longrightarrow> reachable L s' s'' \<Longrightarrow> reachable L s s''"
  by (rule reachable_trans [OF more [OF start]])

lemma sequential_close_reachable:
  assumes "control s = Idle" and "\<not> circuitClosed (driver s)"
    and "setMachineCircuitClosed io (gap []) True limit purpose (driver s) = (True, r')"
  shows "reachable L s (s\<lparr>driver := r', control := Idle, closingUs := nowUs (driver s),
     energizedUs := nowUs (driver s)\<rparr>)"
proof -
  let ?d = "driver s"
  obtain ctx r0 where b: "closeBegin io limit purpose ?d = (Begun ctx, r0)"
    using assms(2,3) by (cases rule: closeBegin_cases [of ?d io limit purpose])
      (auto simp: setMachineCircuitClosed_def closeCircuit_def split: prod.splits)
  obtain a1 r1 where a1: "closeArmIndependent io ctx r0 = (a1, r1)" by fastforce
  obtain a2 r2 where a2: "closeArmHard io ctx a1 r1 = (a2, r2)" by fastforce
  obtain a3 r3 where a3: "closeArmOperational io ctx a2 r2 = (a3, r3)" by fastforce
  have c: "commitStep io ctx a3 r3 = (True, r')"
    using assms(3) b a1 a2 a3
    by (simp add: setMachineCircuitClosed_def closeCircuit_def closeArm_def commitStep_def
        closeArmFailed_def gap_def split: if_splits)
  have n0: "nowUs r0 = nowUs ?d"
    using b by (cases rule: closeBegin_cases [of ?d io limit purpose])
      (auto simp: publishArming_def Let_def split: prod.splits)
  have n: "nowUs r3 = nowUs ?d"
    using n0 a1 a2 a3 by (auto simp: closeArmIndependent_def closeArmHard_def closeArmOperational_def
        split: if_splits prod.splits)
  let ?s0 = "s\<lparr>driver := r0, control := ArmIndependent io ctx, closingUs := nowUs ?d\<rparr>"
  let ?s1 = "?s0\<lparr>driver := r1, control := ArmHard io ctx a1\<rparr>"
  let ?s2 = "?s1\<lparr>driver := r2, control := ArmOperational io ctx a2\<rparr>"
  let ?s3 = "?s2\<lparr>driver := r3, control := Commit io ctx a3\<rparr>"
  have "step L s ?s0" by (rule closeBegins [OF assms(1) b])
  moreover have "step L ?s0 ?s1"
    using armsIndependent [of ?s0 io ctx a1 r1 L] a1 by simp
  moreover have "step L ?s1 ?s2"
    using armsHard [of ?s1 io ctx a1 a2 r2 L] a2 by simp
  moreover have "step L ?s2 ?s3"
    using armsOperational [of ?s2 io ctx a2 a3 r3 L] a3 by simp
  moreover have "step L ?s3 (?s3\<lparr>driver := r', control := Idle, energizedUs := nowUs (driver ?s3)\<rparr>)"
    using commits [of ?s3 io ctx a3 r' L] c by simp
  ultimately have "reachable L s (?s3\<lparr>driver := r', control := Idle, energizedUs := nowUs (driver ?s3)\<rparr>)"
    by (blast intro: reachable_step start)
  moreover have "?s3\<lparr>driver := r', control := Idle, energizedUs := nowUs (driver ?s3)\<rparr> =
      s\<lparr>driver := r', control := Idle, closingUs := nowUs ?d, energizedUs := nowUs ?d\<rparr>"
    using n by (cases s) simp
  ultimately show ?thesis by (simp only:)
qed

section \<open>Properties\<close>


definition closedSys :: sys where
  "closedSys = (bootedSys False False)\<lparr>driver := snd (setMachineCircuitClosed okIo (gap []) True 30000 NORMAL
     (bootedRelay False)), control := Idle, closingUs := 0, energizedUs := 0\<rparr>"

lemma bootedSys_normal: "driver (bootedSys False x) = bootedRelay x"
  using bootedRelay_facts(8) [of x] by (simp add: bootedSys_def)

lemma closedSys_facts:
  "reachable L (bootedSys False False) closedSys" "pinClosed (driver closedSys)"
proof -
  have g: "gap [TimePasses 0] = gap []" by (rule ext) (simp add: gap_def)
  have d: "(nowUs (bootedRelay False) + 0) div 1000 - nowUs (bootedRelay False) div 1000 < unat (30000::u32)"
    by simp
  let ?r = "setMachineCircuitClosed okIo (gap []) True 30000 NORMAL (bootedRelay False)"
  note u = close_undisturbed [OF bootedRelay_facts(1) bootedRelay_admissible armsOk_okIo d, unfolded g]
  have "?r = (True, snd ?r)" using u(1) by (simp add: prod_eq_iff)
  then show "reachable L (bootedSys False False) closedSys"
    using sequential_close_reachable [of "bootedSys False False" okIo 30000 NORMAL "snd ?r" L]
      bootedRelay_facts(4,10) [of False] bootedSys_normal [of False]
    by (simp add: closedSys_def bootedSys_def)
  show "pinClosed (driver closedSys)"
    using u(3) bootedRelay_facts(9) [of False] by (simp add: closedSys_def)
qed


end
