(* ===== verification/Flash_Store.thy ===== *)
theory Flash_Store
  imports Obw_Prelude
begin

text \<open>
  \<open>OpenBrewByWeightFlashIoScratch.h\<close>: the lock bookkeeping and the staged transaction
  that replaces one slot of a flash partition, erase first, body next, validity-bearing
  header last, one driver call per step. The partition driver is outside the repository: a
  partition is a memory of bytes, an erase sets its range to \<open>0xFF\<close>, a write can only
  clear bits, and a call that fails, or that a reset interrupts, leaves anything at all in
  the range it was given and nothing outside it.
\<close>

section \<open>The partition\<close>

type_synonym flash = "nat \<Rightarrow> u8"

datatype flash_io = FlashOk | FlashTorn "nat \<Rightarrow> u8"

definition scramble :: "nat \<Rightarrow> nat \<Rightarrow> (nat \<Rightarrow> u8) \<Rightarrow> flash \<Rightarrow> flash" where
  "scramble off len g m = (\<lambda>a. if off \<le> a \<and> a < off + len then g a else m a)"

definition eraseRange :: "flash_io \<Rightarrow> nat \<Rightarrow> nat \<Rightarrow> flash \<Rightarrow> bool \<times> flash" where
  "eraseRange io off len m = (case io of
     FlashOk \<Rightarrow> (True, scramble off len (\<lambda>_. 0xFF) m)
   | FlashTorn g \<Rightarrow> (False, scramble off len g m))"

definition writeRange :: "flash_io \<Rightarrow> nat \<Rightarrow> bytes \<Rightarrow> flash \<Rightarrow> bool \<times> flash" where
  "writeRange io off bs m = (case io of
     FlashOk \<Rightarrow> (True, scramble off (length bs) (\<lambda>a. m a AND bs ! (a - off)) m)
   | FlashTorn g \<Rightarrow> (False, scramble off (length bs) g m))"

definition readRange :: "nat \<Rightarrow> nat \<Rightarrow> flash \<Rightarrow> bytes" where
  "readRange off n m = map m [off..<off + n]"

section \<open>Constants and the scratch\<close>

definition FLASH_IO_CHUNK_BYTES :: nat where "FLASH_IO_CHUNK_BYTES = 1024"
definition FLASH_IO_SECTOR_BYTES :: nat where "FLASH_IO_SECTOR_BYTES = 4096"

text \<open>The scratch holds one settings record or one chunk, whichever is larger.\<close>

definition FLASH_IO_SCRATCH_BYTES :: "nat \<Rightarrow> nat" where
  "FLASH_IO_SCRATCH_BYTES settingsBytes =
     (if FLASH_IO_CHUNK_BYTES < settingsBytes then settingsBytes else FLASH_IO_CHUNK_BYTES)"

definition copyToFlashIoScratch :: "nat \<Rightarrow> bytes \<Rightarrow> bytes option" where
  "copyToFlashIoScratch settingsBytes source =
     (if length source = 0 \<or> FLASH_IO_SCRATCH_BYTES settingsBytes < length source then None
      else Some source)"

section \<open>Activity note and lock\<close>

record FlashIoActivity =
  heldSinceMs :: u32
  releasedAtMs :: u32
  holdDepth :: u8

definition noteFlashIoHeld :: "bool \<Rightarrow> u32 \<Rightarrow> FlashIoActivity \<Rightarrow> FlashIoActivity" where
  "noteFlashIoHeld held nowMs a =
     (if held then
        (if holdDepth a \<noteq> 0 then a\<lparr>holdDepth := holdDepth a + 1\<rparr>
         else a\<lparr>holdDepth := holdDepth a + 1, heldSinceMs := nowMs OR 1\<rparr>)
      else if holdDepth a = 0 then a
      else if holdDepth a - 1 \<noteq> 0 then a\<lparr>holdDepth := holdDepth a - 1\<rparr>
      else a\<lparr>holdDepth := holdDepth a - 1, releasedAtMs := nowMs, heldSinceMs := 0\<rparr>)"

definition flashIoActiveSince :: "u32 \<Rightarrow> FlashIoActivity \<Rightarrow> bool" where
  "flashIoActiveSince sinceMs a \<longleftrightarrow>
     heldSinceMs a \<noteq> 0 \<or> 0 \<le> sint (releasedAtMs a - sinceMs)"

text \<open>
  The recursive lock: the answers of the semaphore calls and of the scratch allocation are
  arguments; the counters and the activity note are the state.
\<close>

record flash_lock =
  activity :: FlashIoActivity
  lockTimeouts :: u32
  forbiddenAttempts :: u32

definition tryLockFlashIo ::
    "bool \<Rightarrow> bool \<Rightarrow> bool \<Rightarrow> bool \<Rightarrow> u32 \<Rightarrow> flash_lock \<Rightarrow> bool \<times> flash_lock" where
  "tryLockFlashIo forbiddenTask mutexOk taken scratchOk nowMs l =
     (if forbiddenTask then (False, l\<lparr>forbiddenAttempts := forbiddenAttempts l + 1\<rparr>)
      else if \<not> mutexOk then (False, l)
      else if taken then
        (if \<not> scratchOk then (False, l)
         else (True, l\<lparr>activity := noteFlashIoHeld True nowMs (activity l)\<rparr>))
      else (False, l\<lparr>lockTimeouts := lockTimeouts l + 1\<rparr>))"

definition unlockFlashIo :: "bool \<Rightarrow> u32 \<Rightarrow> flash_lock \<Rightarrow> flash_lock" where
  "unlockFlashIo mutexOk nowMs l =
     (if mutexOk then l\<lparr>activity := noteFlashIoHeld False nowMs (activity l)\<rparr> else l)"

section \<open>Chunked transfers\<close>

text \<open>
  The loops advance by one chunk per driver call; the list holds the answers of the calls
  and an exhausted list stands for a reset between two of them.
\<close>

definition chunkAt :: "nat \<Rightarrow> nat" where
  "chunkAt remaining = (if remaining < FLASH_IO_CHUNK_BYTES then remaining else FLASH_IO_CHUNK_BYTES)"

lemma chunkAt_bounds: "0 < n \<Longrightarrow> 0 < chunkAt n" "chunkAt n \<le> n" "chunkAt n \<le> FLASH_IO_CHUNK_BYTES"
  by (auto simp: chunkAt_def FLASH_IO_CHUNK_BYTES_def)

fun flashIoWriteChunked ::
    "flash_io list \<Rightarrow> nat \<Rightarrow> bytes \<Rightarrow> nat \<Rightarrow> flash \<Rightarrow> bool \<times> flash" where
  "flashIoWriteChunked ios off src pos m =
     (if \<not> pos < length src then (True, m)
      else case ios of [] \<Rightarrow> (False, m)
      | io # rest \<Rightarrow>
          (let chunk = chunkAt (length src - pos) in
           case writeRange io (off + pos) (take chunk (drop pos src)) m of
             (ok, m') \<Rightarrow> if \<not> ok then (False, m')
                         else flashIoWriteChunked rest off src (pos + chunk) m'))"

text \<open>A read call either answers or fails; what it answers is the memory.\<close>

fun flashIoReadChunked :: "bool list \<Rightarrow> nat \<Rightarrow> nat \<Rightarrow> flash \<Rightarrow> bytes \<Rightarrow> bool \<times> bytes" where
  "flashIoReadChunked oks off n m out =
     (if \<not> length out < n then (True, out)
      else case oks of [] \<Rightarrow> (False, out)
      | ok # rest \<Rightarrow>
          (let chunk = chunkAt (n - length out) in
           if \<not> ok then (False, out)
           else flashIoReadChunked rest off n m (out @ readRange (off + length out) chunk m)))"

section \<open>The staged transaction\<close>

datatype FlashStoreStepResult = MORE | COMPLETE | FAILED

datatype Phase = IDLE | ERASE | BODY | COMMIT

record FlashStoreTransaction =
  phase :: Phase
  targetOffset :: nat
  txOffset :: nat
  txSlotBytes :: nat
  txHeaderBytes :: nat
  txTotalBytes :: nat

definition idleTx :: FlashStoreTransaction where
  "idleTx = \<lparr> phase = IDLE, targetOffset = 0, txOffset = 0, txSlotBytes = 0,
     txHeaderBytes = 0, txTotalBytes = 0 \<rparr>"

definition beginFlashStoreTransaction ::
    "nat \<Rightarrow> nat \<Rightarrow> nat \<Rightarrow> nat \<Rightarrow> FlashStoreTransaction" where
  "beginFlashStoreTransaction target slot header totalSize =
     \<lparr> phase = ERASE, targetOffset = target, txOffset = 0, txSlotBytes = slot,
       txHeaderBytes = header, txTotalBytes = totalSize \<rparr>"

definition eraseStep ::
    "flash_io \<Rightarrow> FlashStoreTransaction \<Rightarrow> flash \<Rightarrow> bool \<times> FlashStoreTransaction \<times> flash" where
  "eraseStep io tx m =
     (case eraseRange io (targetOffset tx + txOffset tx) FLASH_IO_SECTOR_BYTES m of (ok, m') \<Rightarrow>
        if \<not> ok then (False, tx, m')
        else let off = txOffset tx + FLASH_IO_SECTOR_BYTES in
          (True, if off = txSlotBytes tx then tx\<lparr>phase := BODY, txOffset := txHeaderBytes tx\<rparr>
                 else tx\<lparr>txOffset := off\<rparr>, m'))"

definition programStep :: "nat \<Rightarrow> flash_io \<Rightarrow> bytes \<Rightarrow> FlashStoreTransaction \<Rightarrow> flash
    \<Rightarrow> bool \<times> FlashStoreTransaction \<times> flash" where
  "programStep settingsBytes io src tx m =
     (let commit = (phase tx = COMMIT);
          remaining = (if commit then txHeaderBytes tx else txTotalBytes tx - txOffset tx);
          chunk = chunkAt remaining;
          start = (if commit then 0 else txOffset tx)
      in case copyToFlashIoScratch settingsBytes (take chunk (drop start src)) of
           None \<Rightarrow> (False, tx, m)
         | Some scratch \<Rightarrow>
             (case writeRange io (targetOffset tx + start) scratch m of (ok, m') \<Rightarrow>
                if \<not> ok then (False, tx, m')
                else if commit then (True, tx\<lparr>phase := IDLE\<rparr>, m')
                else (True,
                  if txOffset tx + chunk = txTotalBytes tx then tx\<lparr>phase := COMMIT, txOffset := 0\<rparr>
                  else tx\<lparr>txOffset := txOffset tx + chunk\<rparr>, m')))"

definition flashIoStoreStep :: "nat \<Rightarrow> bool \<Rightarrow> flash_io \<Rightarrow> bytes \<Rightarrow> FlashStoreTransaction \<Rightarrow> flash
    \<Rightarrow> FlashStoreStepResult \<times> FlashStoreTransaction \<times> flash" where
  "flashIoStoreStep settingsBytes locked io src tx m =
     (if phase tx = IDLE \<or> \<not> locked then (FAILED, tx, m)
      else case (if phase tx = ERASE then eraseStep io tx m
                 else programStep settingsBytes io src tx m) of
        (ok, tx', m') \<Rightarrow>
          if \<not> ok then (FAILED, tx'\<lparr>phase := IDLE\<rparr>, m')
          else (if phase tx' = IDLE then COMPLETE else MORE, tx', m'))"


text \<open>A transaction driven to its end by its owner, one lock and one driver call per step.\<close>

fun storeRun :: "nat \<Rightarrow> (bool \<times> flash_io) list \<Rightarrow> bytes \<Rightarrow> FlashStoreTransaction \<Rightarrow> flash
    \<Rightarrow> FlashStoreStepResult \<times> FlashStoreTransaction \<times> flash" where
  "storeRun sb [] src tx m = (MORE, tx, m)"
| "storeRun sb ((locked, io) # rest) src tx m =
     (case flashIoStoreStep sb locked io src tx m of
        (MORE, tx', m') \<Rightarrow> storeRun sb rest src tx' m'
      | r \<Rightarrow> r)"

section \<open>What a transaction may touch\<close>

lemma scramble_outside: "\<not> (off \<le> a \<and> a < off + len) \<Longrightarrow> scramble off len g m a = m a"
  by (auto simp: scramble_def)

lemma eraseRange_outside:
  "\<not> (off \<le> a \<and> a < off + len) \<Longrightarrow> snd (eraseRange io off len m) a = m a"
  by (cases io) (simp_all add: eraseRange_def scramble_outside)

lemma writeRange_outside:
  "\<not> (off \<le> a \<and> a < off + length bs) \<Longrightarrow> snd (writeRange io off bs m) a = m a"
  by (cases io) (simp_all add: writeRange_def scramble_outside)

text \<open>The geometry every store has: whole sectors, one-chunk header, room for the body.\<close>

definition tx_geometry :: "bytes \<Rightarrow> FlashStoreTransaction \<Rightarrow> bool" where
  "tx_geometry src tx \<longleftrightarrow> txSlotBytes tx mod FLASH_IO_SECTOR_BYTES = 0 \<and>
     0 < txHeaderBytes tx \<and> txHeaderBytes tx \<le> FLASH_IO_CHUNK_BYTES \<and>
     txHeaderBytes tx < txTotalBytes tx \<and> txTotalBytes tx \<le> txSlotBytes tx \<and>
     length src = txTotalBytes tx"

definition tx_bounds :: "FlashStoreTransaction \<Rightarrow> bool" where
  "tx_bounds tx \<longleftrightarrow> (case phase tx of
       IDLE \<Rightarrow> True
     | ERASE \<Rightarrow> txOffset tx mod FLASH_IO_SECTOR_BYTES = 0 \<and> txOffset tx < txSlotBytes tx
     | BODY \<Rightarrow> txHeaderBytes tx \<le> txOffset tx \<and> txOffset tx < txTotalBytes tx
     | COMMIT \<Rightarrow> True)"

lemma sector_fits:
  assumes "off mod FLASH_IO_SECTOR_BYTES = 0" and "slot mod FLASH_IO_SECTOR_BYTES = 0" and "off < slot"
  shows "off + FLASH_IO_SECTOR_BYTES \<le> slot"
proof -
  obtain i j where "off = FLASH_IO_SECTOR_BYTES * i" "slot = FLASH_IO_SECTOR_BYTES * j"
    using assms(1,2) by (metis dvdE mod_0_imp_dvd)
  moreover have "i < j" using assms(3) calculation by (simp add: FLASH_IO_SECTOR_BYTES_def)
  then have "Suc i \<le> j" by simp
  then have "FLASH_IO_SECTOR_BYTES * Suc i \<le> FLASH_IO_SECTOR_BYTES * j" by (rule mult_le_mono2)
  ultimately show ?thesis by simp
qed

lemma step_keeps_geometry:
  assumes "flashIoStoreStep sb locked io src tx m = (r, tx', m')"
  shows "tx_geometry src tx' = tx_geometry src tx" and "targetOffset tx' = targetOffset tx"
    and "txSlotBytes tx' = txSlotBytes tx" and "txHeaderBytes tx' = txHeaderBytes tx"
    and "txTotalBytes tx' = txTotalBytes tx"
  using assms
  by (auto simp: flashIoStoreStep_def eraseStep_def programStep_def tx_geometry_def Let_def
      split: if_splits prod.splits option.splits)

lemma step_outside:
  assumes "tx_geometry src tx" and "tx_bounds tx"
    and "flashIoStoreStep sb locked io src tx m = (r, tx', m')"
    and "a < targetOffset tx \<or> targetOffset tx + txSlotBytes tx \<le> a"
  shows "m' a = m a"
proof (cases "phase tx = ERASE")
  case True
  then have "txOffset tx + FLASH_IO_SECTOR_BYTES \<le> txSlotBytes tx"
    using assms(1,2) by (intro sector_fits) (simp_all add: tx_geometry_def tx_bounds_def)
  then have "\<not> (targetOffset tx + txOffset tx \<le> a \<and> a < targetOffset tx + txOffset tx + FLASH_IO_SECTOR_BYTES)"
    using assms(4) by auto
  from eraseRange_outside [OF this, of io m] show ?thesis
    using assms(3) True
    by (auto simp: flashIoStoreStep_def eraseStep_def Let_def split: if_splits prod.splits)
next
  case False
  show ?thesis
  proof (cases "phase tx = IDLE \<or> \<not> locked")
    case True
    then show ?thesis using assms(3) by (simp add: flashIoStoreStep_def)
  next
    case nidle: False
    define start where "start = (if phase tx = COMMIT then 0 else txOffset tx)"
    define rem where "rem = (if phase tx = COMMIT then txHeaderBytes tx else txTotalBytes tx - txOffset tx)"
    let ?bs = "take (chunkAt rem) (drop start src)"
    have "start + rem \<le> txSlotBytes tx"
      using assms(1,2) False nidle
      by (cases "phase tx") (auto simp: start_def rem_def tx_geometry_def tx_bounds_def)
    then have "start + length ?bs \<le> txSlotBytes tx" using chunkAt_bounds(2) [of rem] by simp
    then have "\<not> (targetOffset tx + start \<le> a \<and> a < targetOffset tx + start + length ?bs)"
      using assms(4) by auto
    from writeRange_outside [OF this, of io m] show ?thesis
      using assms(3) False nidle
      by (auto simp: flashIoStoreStep_def programStep_def copyToFlashIoScratch_def Let_def
          start_def [symmetric] rem_def [symmetric] split: if_splits prod.splits option.splits)
  qed
qed

lemma step_bounds:
  assumes "tx_geometry src tx" and "tx_bounds tx"
    and "flashIoStoreStep sb locked io src tx m = (r, tx', m')"
  shows "tx_bounds tx'"
proof -
  have "txOffset tx + FLASH_IO_SECTOR_BYTES \<le> txSlotBytes tx" if "phase tx = ERASE"
    using assms(1,2) that by (intro sector_fits) (simp_all add: tx_geometry_def tx_bounds_def)
  moreover have "txOffset tx + chunkAt (txTotalBytes tx - txOffset tx) \<le> txTotalBytes tx"
    if "phase tx = BODY"
    using assms(2) that chunkAt_bounds(2) [of "txTotalBytes tx - txOffset tx"] by (auto simp: tx_bounds_def)
  ultimately show ?thesis
    using assms
    by (cases "phase tx")
      (auto simp: flashIoStoreStep_def eraseStep_def programStep_def tx_bounds_def tx_geometry_def Let_def
        split: if_splits prod.splits option.splits)
qed


section \<open>What a transaction has written\<close>

definition written :: "nat \<Rightarrow> nat \<Rightarrow> bytes \<Rightarrow> nat \<Rightarrow> u8" where
  "written lo hi src i = (if lo \<le> i \<and> i < hi then src ! i else 0xFF)"

text \<open>
  While erasing, the prefix is blank; from then on the slot holds exactly the body written
  so far, and the header stays blank until the commit.
\<close>

definition tx_content :: "bytes \<Rightarrow> FlashStoreTransaction \<Rightarrow> flash \<Rightarrow> bool" where
  "tx_content src tx m \<longleftrightarrow> (case phase tx of
       IDLE \<Rightarrow> \<forall>i < txSlotBytes tx. m (targetOffset tx + i) = written 0 (txTotalBytes tx) src i
     | ERASE \<Rightarrow> \<forall>i < txOffset tx. m (targetOffset tx + i) = 0xFF
     | BODY \<Rightarrow> \<forall>i < txSlotBytes tx. m (targetOffset tx + i) =
          written (txHeaderBytes tx) (txOffset tx) src i
     | COMMIT \<Rightarrow> \<forall>i < txSlotBytes tx. m (targetOffset tx + i) =
          written (txHeaderBytes tx) (txTotalBytes tx) src i)"

lemma AND_erased: "(0xFF :: u8) AND x = x"
proof -
  have "(0xFF :: u8) = - 1" by simp
  then show ?thesis by (simp only: and.left_neutral)
qed

text \<open>A successful write into a blank range stores exactly its bytes.\<close>

lemma write_blank:
  assumes "writeRange io (t + off) (take n (drop off src)) m = (True, m')" and "off + n \<le> length src"
    and "\<And>i. off \<le> i \<Longrightarrow> i < off + n \<Longrightarrow> m (t + i) = 0xFF"
  shows "m' (t + i) = (if off \<le> i \<and> i < off + n then src ! i else m (t + i))"
proof -
  have io: "io = FlashOk" using assms(1) by (cases io) (simp_all add: writeRange_def)
  have len: "length (take n (drop off src)) = n" using assms(2) by simp
  have m': "m' = scramble (t + off) n (\<lambda>a. m a AND take n (drop off src) ! (a - (t + off))) m"
    using assms(1) len by (simp add: writeRange_def io)
  show ?thesis
  proof (cases "off \<le> i \<and> i < off + n")
    case True
    then have "i - off < n" "off + (i - off) = i" by linarith+
    then have "take n (drop off src) ! (t + i - (t + off)) = src ! i" using assms(2) by simp
    then show ?thesis using True assms(3) [of i] by (simp add: m' scramble_def AND_erased)
  next
    case False
    then show ?thesis by (auto simp: m' scramble_def)
  qed
qed

lemma erase_ok:
  assumes "eraseRange io off len m = (True, m')"
  shows "m' a = (if off \<le> a \<and> a < off + len then 0xFF else m a)"
  using assms by (cases io) (auto simp: eraseRange_def scramble_def)

lemma copy_scratch:
  assumes "copyToFlashIoScratch sb bs = Some out"
  shows "out = bs" and "bs \<noteq> []"
  using assms by (auto simp: copyToFlashIoScratch_def split: if_splits)

lemma copy_chunk:
  "bs \<noteq> [] \<Longrightarrow> length bs \<le> FLASH_IO_CHUNK_BYTES \<Longrightarrow> copyToFlashIoScratch sb bs = Some bs"
  by (simp add: copyToFlashIoScratch_def FLASH_IO_SCRATCH_BYTES_def)

lemma step_content:
  assumes geo: "tx_geometry src tx" and bnd: "tx_bounds tx" and con: "tx_content src tx m"
    and st: "flashIoStoreStep sb locked io src tx m = (r, tx', m')" and r: "r \<noteq> FAILED"
  shows "tx_content src tx' m'"
proof (cases "phase tx")
  case IDLE
  then show ?thesis using st r by (simp add: flashIoStoreStep_def)
next
  case ERASE
  obtain m1 where er: "eraseRange io (targetOffset tx + txOffset tx) FLASH_IO_SECTOR_BYTES m = (True, m1)"
      and m': "m' = m1"
    using st r ERASE by (auto simp: flashIoStoreStep_def eraseStep_def Let_def split: if_splits prod.splits)
  have tx': "tx' = (if txOffset tx + FLASH_IO_SECTOR_BYTES = txSlotBytes tx
      then tx\<lparr>phase := BODY, txOffset := txHeaderBytes tx\<rparr>
      else tx\<lparr>txOffset := txOffset tx + FLASH_IO_SECTOR_BYTES\<rparr>)"
    using st r ERASE er by (auto simp: flashIoStoreStep_def eraseStep_def Let_def split: if_splits)
  have blank: "m' (targetOffset tx + i) = 0xFF" if "i < txOffset tx + FLASH_IO_SECTOR_BYTES" for i
    using con that erase_ok [OF er, of "targetOffset tx + i"] by (auto simp: tx_content_def ERASE m')
  then show ?thesis
    using ERASE by (auto simp: tx' tx_content_def written_def)
next
  case BODY
  let ?o = "txOffset tx" and ?n = "chunkAt (txTotalBytes tx - txOffset tx)"
  have o: "txHeaderBytes tx \<le> ?o" "?o < txTotalBytes tx" "length src = txTotalBytes tx"
    using bnd geo by (simp_all add: tx_bounds_def tx_geometry_def BODY)
  have n: "?o + ?n \<le> length src" using o chunkAt_bounds(2) [of "txTotalBytes tx - ?o"] by linarith
  have wr: "writeRange io (targetOffset tx + ?o) (take ?n (drop ?o src)) m = (True, m')"
    using st r BODY by (auto simp: flashIoStoreStep_def programStep_def Let_def dest!: copy_scratch(1)
        split: if_splits prod.splits option.splits)
  have tx': "tx' = (if ?o + ?n = txTotalBytes tx then tx\<lparr>phase := COMMIT, txOffset := 0\<rparr>
        else tx\<lparr>txOffset := ?o + ?n\<rparr>)"
    using st r BODY by (auto simp: flashIoStoreStep_def programStep_def Let_def
        split: if_splits prod.splits option.splits)
  have old: "m (targetOffset tx + i) = written (txHeaderBytes tx) ?o src i" if "i < txSlotBytes tx" for i
    using con that by (simp add: tx_content_def BODY)
  have slot: "txTotalBytes tx \<le> txSlotBytes tx" using geo by (simp add: tx_geometry_def)
  have new: "m' (targetOffset tx + i) = written (txHeaderBytes tx) (?o + ?n) src i"
    if "i < txSlotBytes tx" for i
    using write_blank [OF wr n, of i] old o n slot that by (auto simp: written_def)
  show ?thesis using new by (auto simp: tx' tx_content_def BODY)
next
  case COMMIT
  let ?h = "txHeaderBytes tx"
  have h: "chunkAt ?h = ?h" "?h \<le> length src"
    using geo by (auto simp: tx_geometry_def chunkAt_def)
  have wr: "writeRange io (targetOffset tx + 0) (take ?h (drop 0 src)) m = (True, m')"
    using st r COMMIT h by (auto simp: flashIoStoreStep_def programStep_def Let_def dest!: copy_scratch(1)
        split: if_splits prod.splits option.splits)
  have tx': "tx' = tx\<lparr>phase := IDLE\<rparr>"
    using st r COMMIT by (auto simp: flashIoStoreStep_def programStep_def Let_def
        split: if_splits prod.splits option.splits)
  have old: "m (targetOffset tx + i) = written ?h (txTotalBytes tx) src i" if "i < txSlotBytes tx" for i
    using con that by (simp add: tx_content_def COMMIT)
  have slot: "?h < txTotalBytes tx" "txTotalBytes tx \<le> txSlotBytes tx"
    using geo by (simp_all add: tx_geometry_def)
  have new: "m' (targetOffset tx + i) = written 0 (txTotalBytes tx) src i" if "i < txSlotBytes tx" for i
    using write_blank [OF wr _ , of i] old h slot that by (auto simp: written_def)
  show ?thesis using new by (simp add: tx' tx_content_def)
qed

lemma content_begin:
  "tx_content src (beginFlashStoreTransaction t slot h n) m" "0 < slot \<Longrightarrow>
     tx_bounds (beginFlashStoreTransaction t slot h n)"
  by (simp_all add: tx_content_def tx_bounds_def beginFlashStoreTransaction_def)


section \<open>Runs of a transaction\<close>

lemma run_outside:
  assumes "tx_geometry src tx" and "tx_bounds tx"
    and "storeRun sb ios src tx m = (r, tx', m')"
    and "a < targetOffset tx \<or> targetOffset tx + txSlotBytes tx \<le> a"
  shows "m' a = m a"
  using assms
proof (induction ios arbitrary: tx m)
  case Nil
  then show ?case by simp
next
  case (Cons x ios)
  obtain locked io where x: "x = (locked, io)" by (cases x)
  obtain r1 tx1 m1 where st: "flashIoStoreStep sb locked io src tx m = (r1, tx1, m1)"
    by (cases "flashIoStoreStep sb locked io src tx m") auto
  have out: "m1 a = m a" by (rule step_outside [OF Cons.prems(1,2) st Cons.prems(4)])
  show ?case
  proof (cases r1)
    case MORE
    then have "storeRun sb ios src tx1 m1 = (r, tx', m')" using Cons.prems(3) st by (simp add: x)
    then have "m' a = m1 a"
      using Cons.IH [of tx1 m1] step_keeps_geometry [OF st] step_bounds [OF Cons.prems(1,2) st]
        Cons.prems(1,4) by simp
    then show ?thesis using out by simp
  qed (use Cons.prems(3) st out in \<open>simp_all add: x\<close>)
qed

text \<open>A reset or failure inside one of the two calls that touch the header's sector or the header.\<close>

definition headerCall :: "FlashStoreTransaction \<Rightarrow> bool" where
  "headerCall tx \<longleftrightarrow> phase tx = COMMIT \<or> (phase tx = ERASE \<and> txOffset tx = 0)"

fun headerTorn :: "nat \<Rightarrow> (bool \<times> flash_io) list \<Rightarrow> bytes \<Rightarrow> FlashStoreTransaction \<Rightarrow> flash \<Rightarrow> bool" where
  "headerTorn sb [] src tx m = False"
| "headerTorn sb ((locked, io) # rest) src tx m =
     (case flashIoStoreStep sb locked io src tx m of
        (MORE, tx', m') \<Rightarrow> headerTorn sb rest src tx' m'
      | (FAILED, tx', m') \<Rightarrow> locked \<and> headerCall tx
      | _ \<Rightarrow> False)"

text \<open>What the header of the target slot can look like before the commit.\<close>

definition header_safe :: "FlashStoreTransaction \<Rightarrow> flash \<Rightarrow> flash \<Rightarrow> bool" where
  "header_safe tx m0 m \<longleftrightarrow>
     (\<forall>i < txSlotBytes tx. m (targetOffset tx + i) = m0 (targetOffset tx + i)) \<or>
     (\<forall>i < txHeaderBytes tx. m (targetOffset tx + i) = 0xFF)"

definition fresh_or_blank :: "FlashStoreTransaction \<Rightarrow> flash \<Rightarrow> flash \<Rightarrow> bool" where
  "fresh_or_blank tx m0 m \<longleftrightarrow> (if headerCall tx \<and> phase tx = ERASE
     then \<forall>i < txSlotBytes tx. m (targetOffset tx + i) = m0 (targetOffset tx + i)
     else \<forall>i < txHeaderBytes tx. m (targetOffset tx + i) = 0xFF)"

lemma content_blank:
  assumes "tx_geometry src tx" and "tx_bounds tx" and "tx_content src tx m" and "phase tx \<noteq> IDLE"
    and "\<not> (headerCall tx \<and> phase tx = ERASE)"
  shows "\<forall>i < txHeaderBytes tx. m (targetOffset tx + i) = 0xFF"
proof (cases "phase tx")
  case ERASE
  then have "FLASH_IO_SECTOR_BYTES \<le> txOffset tx"
    using assms(2,5) by (auto simp: tx_bounds_def headerCall_def FLASH_IO_SECTOR_BYTES_def)
  then have "txHeaderBytes tx \<le> txOffset tx"
    using assms(1) by (simp add: tx_geometry_def FLASH_IO_SECTOR_BYTES_def FLASH_IO_CHUNK_BYTES_def)
  then show ?thesis using assms(3) ERASE by (simp add: tx_content_def)
qed (use assms in \<open>auto simp: tx_content_def tx_geometry_def tx_bounds_def written_def\<close>)

lemma failed_keeps_header:
  assumes "tx_geometry src tx" and "tx_bounds tx" and "phase tx \<noteq> IDLE" and "\<not> headerCall tx"
    and "flashIoStoreStep sb locked io src tx m = (FAILED, tx', m')" and "i < txHeaderBytes tx"
  shows "m' (targetOffset tx + i) = m (targetOffset tx + i)"
proof (cases "phase tx")
  case ERASE
  then have "FLASH_IO_SECTOR_BYTES \<le> txOffset tx"
    using assms(2,4) by (auto simp: tx_bounds_def headerCall_def FLASH_IO_SECTOR_BYTES_def)
  then have "i < txOffset tx"
    using assms(1,6) by (simp add: tx_geometry_def FLASH_IO_SECTOR_BYTES_def FLASH_IO_CHUNK_BYTES_def)
  then show ?thesis
    using assms(5) ERASE eraseRange_outside [of "targetOffset tx + txOffset tx" "targetOffset tx + i"
        FLASH_IO_SECTOR_BYTES io m]
    by (auto simp: flashIoStoreStep_def eraseStep_def Let_def split: if_splits prod.splits)
next
  case BODY
  then have "i < txOffset tx" using assms(2,6) by (simp add: tx_bounds_def)
  then show ?thesis
    using assms(5) BODY writeRange_outside [of "targetOffset tx + txOffset tx" "targetOffset tx + i" _ io m]
    by (auto simp: flashIoStoreStep_def programStep_def Let_def split: if_splits prod.splits option.splits)
      (metis snd_conv)+
qed (use assms in \<open>simp_all add: headerCall_def\<close>)

lemma lockless_step:
  "flashIoStoreStep sb False io src tx m = (r, tx', m') \<Longrightarrow> r = FAILED \<and> tx' = tx \<and> m' = m"
  by (auto simp: flashIoStoreStep_def)

lemma run_header_safe:
  assumes "tx_geometry src tx" and "tx_bounds tx" and "tx_content src tx m" and "phase tx \<noteq> IDLE"
    and "headerCall tx \<and> phase tx = ERASE \<Longrightarrow>
       \<forall>i < txSlotBytes tx. m (targetOffset tx + i) = m0 (targetOffset tx + i)"
    and "storeRun sb ios src tx m = (r, tx', m')" and "r \<noteq> COMPLETE" and "\<not> headerTorn sb ios src tx m"
  shows "header_safe tx m0 m'"
  using assms
proof (induction ios arbitrary: tx m)
  case Nil
  then show ?case using content_blank [OF Nil.prems(1-4)] by (auto simp: header_safe_def)
next
  case (Cons x ios)
  obtain locked io where x: "x = (locked, io)" by (cases x)
  obtain r1 tx1 m1 where st: "flashIoStoreStep sb locked io src tx m = (r1, tx1, m1)"
    by (cases "flashIoStoreStep sb locked io src tx m") auto
  note geo = step_keeps_geometry [OF st]
  show ?case
  proof (cases r1)
    case MORE
    have bnd: "tx_bounds tx1" and con: "tx_content src tx1 m1"
      using step_bounds [OF Cons.prems(1,2) st] step_content [OF Cons.prems(1-3) st] MORE by simp_all
    have nidle: "phase tx1 \<noteq> IDLE"
      using st MORE by (auto simp: flashIoStoreStep_def split: if_splits prod.splits)
    have moved: "\<not> (headerCall tx1 \<and> phase tx1 = ERASE)"
      using st MORE Cons.prems(1)
      by (auto simp: flashIoStoreStep_def eraseStep_def programStep_def headerCall_def Let_def
          FLASH_IO_SECTOR_BYTES_def split: if_splits prod.splits option.splits)
    have "header_safe tx1 m0 m'"
      using Cons.IH [of tx1 m1] Cons.prems st geo MORE bnd con nidle moved by (simp add: x)
    then show ?thesis using geo by (simp add: header_safe_def)
  next
    case COMPLETE
    then show ?thesis using Cons.prems(6,7) st by (simp add: x)
  next
    case FAILED
    then have m': "m' = m1" using Cons.prems(6) st by (simp add: x)
    show ?thesis
    proof (cases locked)
      case False
      then have "m1 = m" using st by (simp add: flashIoStoreStep_def split: if_splits)
      then show ?thesis
        using m' content_blank [OF Cons.prems(1-4)] Cons.prems(5) by (auto simp: header_safe_def)
    next
      case True
      then have nh: "\<not> headerCall tx" using Cons.prems(8) st FAILED by (simp add: x)
      then have "\<not> (headerCall tx \<and> phase tx = ERASE)" by simp
      from content_blank [OF Cons.prems(1-4) this]
      have "m1 (targetOffset tx + i) = 0xFF" if "i < txHeaderBytes tx" for i
        using failed_keeps_header [OF Cons.prems(1,2,4) nh, of sb locked io m tx1 m1 i] st FAILED that
        by simp
      then show ?thesis by (simp add: header_safe_def m')
    qed
  qed
qed


text \<open>A run that answers COMPLETE has written the whole source.\<close>

lemma run_content:
  assumes "tx_geometry src tx" and "tx_bounds tx" and "tx_content src tx m"
    and "storeRun sb ios src tx m = (COMPLETE, tx', m')" and "i < txSlotBytes tx"
  shows "m' (targetOffset tx + i) = written 0 (txTotalBytes tx) src i"
  using assms
proof (induction ios arbitrary: tx m)
  case Nil
  then show ?case by simp
next
  case (Cons x ios)
  obtain locked io where x: "x = (locked, io)" by (cases x)
  obtain r1 tx1 m1 where st: "flashIoStoreStep sb locked io src tx m = (r1, tx1, m1)"
    by (cases "flashIoStoreStep sb locked io src tx m") auto
  note geo = step_keeps_geometry [OF st]
  show ?case
  proof (cases r1)
    case MORE
    then show ?thesis
      using Cons.IH [of tx1 m1] Cons.prems st geo step_bounds [OF Cons.prems(1,2) st]
        step_content [OF Cons.prems(1-3) st] by (simp add: x)
  next
    case COMPLETE
    then have e: "tx' = tx1" "m' = m1" using Cons.prems(4) st by (simp_all add: x)
    have "phase tx1 = IDLE"
      using st COMPLETE by (auto simp: flashIoStoreStep_def split: if_splits prod.splits)
    then show ?thesis
      using step_content [OF Cons.prems(1-3) st] COMPLETE Cons.prems(5) geo e
      by (simp add: tx_content_def)
  next
    case FAILED
    then show ?thesis using Cons.prems(4) st by (simp add: x)
  qed
qed

section \<open>A transaction completes\<close>

text \<open>How many steps are left when nothing fails.\<close>

definition bodySteps :: "nat \<Rightarrow> nat" where
  "bodySteps n = (n + (FLASH_IO_CHUNK_BYTES - 1)) div FLASH_IO_CHUNK_BYTES"

definition stepsLeft :: "FlashStoreTransaction \<Rightarrow> nat" where
  "stepsLeft tx = (case phase tx of
       IDLE \<Rightarrow> 0
     | ERASE \<Rightarrow> (txSlotBytes tx - txOffset tx) div FLASH_IO_SECTOR_BYTES
                 + bodySteps (txTotalBytes tx - txHeaderBytes tx) + 1
     | BODY \<Rightarrow> bodySteps (txTotalBytes tx - txOffset tx) + 1
     | COMMIT \<Rightarrow> 1)"

lemma bodySteps_dec: "0 < n \<Longrightarrow> bodySteps n = Suc (bodySteps (n - chunkAt n))"
  by (auto simp: bodySteps_def chunkAt_def FLASH_IO_CHUNK_BYTES_def div_if le_div_geq)

lemma bodySteps_0 [simp]: "bodySteps 0 = 0"
  by (simp add: bodySteps_def FLASH_IO_CHUNK_BYTES_def)

lemma sectors_dec:
  assumes "off + FLASH_IO_SECTOR_BYTES \<le> slot"
  shows "(slot - off) div FLASH_IO_SECTOR_BYTES
       = Suc ((slot - (off + FLASH_IO_SECTOR_BYTES)) div FLASH_IO_SECTOR_BYTES)"
  using assms le_div_geq [of FLASH_IO_SECTOR_BYTES "slot - off"]
  by (simp add: FLASH_IO_SECTOR_BYTES_def)

lemma step_ok:
  assumes "tx_geometry src tx" and "tx_bounds tx" and "phase tx \<noteq> IDLE"
  obtains r tx' m' where "flashIoStoreStep sb True FlashOk src tx m = (r, tx', m')"
    and "r \<noteq> FAILED" and "stepsLeft tx = Suc (stepsLeft tx')" and "r = COMPLETE \<longleftrightarrow> phase tx' = IDLE"
proof -
  obtain r tx' m' where st: "flashIoStoreStep sb True FlashOk src tx m = (r, tx', m')"
    by (cases "flashIoStoreStep sb True FlashOk src tx m") auto
  have "r \<noteq> FAILED \<and> stepsLeft tx = Suc (stepsLeft tx') \<and> (r = COMPLETE \<longleftrightarrow> phase tx' = IDLE)"
  proof (cases "phase tx")
    case IDLE
    then show ?thesis using assms(3) by simp
  next
    case ERASE
    then have fit: "txOffset tx + FLASH_IO_SECTOR_BYTES \<le> txSlotBytes tx"
      using assms(1,2) by (intro sector_fits) (simp_all add: tx_geometry_def tx_bounds_def)
    show ?thesis
      using st ERASE sectors_dec [OF fit]
      by (auto simp: flashIoStoreStep_def eraseStep_def eraseRange_def stepsLeft_def Let_def
          split: if_splits)
  next
    case BODY
    let ?n = "txTotalBytes tx - txOffset tx"
    have n: "0 < ?n" "length src = txTotalBytes tx"
      using assms(1,2) BODY by (simp_all add: tx_bounds_def tx_geometry_def)
    let ?bs = "take (chunkAt ?n) (drop (txOffset tx) src)"
    have "?bs \<noteq> []" "length ?bs \<le> FLASH_IO_CHUNK_BYTES"
      using n chunkAt_bounds [of ?n] by auto
    then have sc: "copyToFlashIoScratch sb ?bs = Some ?bs" by (rule copy_chunk)
    show ?thesis
      using st BODY sc bodySteps_dec [OF n(1)] chunkAt_bounds(2) [of ?n] n
      by (auto simp: flashIoStoreStep_def programStep_def writeRange_def stepsLeft_def Let_def
          split: if_splits)
  next
    case COMMIT
    let ?bs = "take (chunkAt (txHeaderBytes tx)) (drop 0 src)"
    have "?bs \<noteq> []" "length ?bs \<le> FLASH_IO_CHUNK_BYTES"
      using assms(1) chunkAt_bounds [of "txHeaderBytes tx"] by (auto simp: tx_geometry_def)
    then have sc: "copyToFlashIoScratch sb ?bs = Some ?bs" by (rule copy_chunk)
    show ?thesis
      using st COMMIT sc
      by (auto simp: flashIoStoreStep_def programStep_def writeRange_def stepsLeft_def Let_def
          split: if_splits)
  qed
  then show thesis using that st by blast
qed

lemma run_completes:
  assumes "tx_geometry src tx" and "tx_bounds tx" and "phase tx \<noteq> IDLE" and "tx_content src tx m"
    and "stepsLeft tx \<le> n"
  shows "\<exists>tx' m'. storeRun sb (replicate n (True, FlashOk)) src tx m = (COMPLETE, tx', m') \<and>
     targetOffset tx' = targetOffset tx \<and> txSlotBytes tx' = txSlotBytes tx \<and>
     txTotalBytes tx' = txTotalBytes tx \<and> phase tx' = IDLE \<and> tx_content src tx' m'"
  using assms
proof (induction n arbitrary: tx m)
  case 0
  then show ?case by (cases "phase tx") (auto simp: stepsLeft_def)
next
  case (Suc n)
  obtain r tx1 m1 where st: "flashIoStoreStep sb True FlashOk src tx m = (r, tx1, m1)"
    and r: "r \<noteq> FAILED" "stepsLeft tx = Suc (stepsLeft tx1)" "r = COMPLETE \<longleftrightarrow> phase tx1 = IDLE"
    using step_ok [OF Suc.prems(1-3)] by metis
  note geo = step_keeps_geometry [OF st] and con = step_content [OF Suc.prems(1,2,4) st r(1)]
  show ?case
  proof (cases r)
    case MORE
    then show ?thesis
      using Suc.IH [of tx1 m1] geo con step_bounds [OF Suc.prems(1,2) st] r Suc.prems st by simp
  next
    case COMPLETE
    then show ?thesis using st geo con r by simp
  qed (use r in simp)
qed

end
