(* ===== verification/Array_Ring.thy ===== *)
theory Array_Ring
  imports Obw_Prelude
begin

text \<open>
  Circular buffers in an array, the shape shared by the logs of the firmware: \<open>cap\<close>
  slots, a write index and a count. The abstract view is the list of live entries, oldest
  first. The locale states what a client of such a log relies on; every ring of the
  development interprets it.
\<close>

section \<open>The interface of a bounded log\<close>

text \<open>
  What the rings of the firmware promise: a push appends and, when the log is full, drops
  the oldest entry.
\<close>

locale bounded_log =
  fixes toList :: "'s \<Rightarrow> 'r list" and push :: "'r \<Rightarrow> 's \<Rightarrow> 's" and ok :: "'s \<Rightarrow> bool"
    and stored :: "'s \<Rightarrow> 'r \<Rightarrow> 'r" and cap :: nat
  assumes cap_pos: "ok s \<Longrightarrow> 0 < cap"
    and push_ok: "ok s \<Longrightarrow> ok (push r s)"
    and length_le: "ok s \<Longrightarrow> length (toList s) \<le> cap"
    and push_list: "ok s \<Longrightarrow> toList (push r s) =
      (if length (toList s) < cap then toList s @ [stored s r] else tl (toList s) @ [stored s r])"
begin

lemma push_drop:
  assumes "ok s"
  shows "toList (push r s) = drop (Suc (length (toList s)) - cap) (toList s @ [stored s r])"
proof (cases "length (toList s) < cap")
  case True
  then show ?thesis using push_list [OF assms, of r] by simp
next
  case False
  then have l: "length (toList s) = cap" using length_le [OF assms] by simp
  then have "toList s \<noteq> []" using cap_pos [OF assms] by auto
  then show ?thesis using push_list [OF assms, of r] l by (cases "toList s") simp_all
qed

text \<open>What a sequence of pushes stores, and what survives of it.\<close>

fun storedAll :: "'s \<Rightarrow> 'r list \<Rightarrow> 'r list" where
  "storedAll s [] = []"
| "storedAll s (r # rs) = stored s r # storedAll (push r s) rs"

lemma pushes:
  assumes "ok s"
  shows "ok (fold push rs s) \<and> toList (fold push rs s) =
     drop (length (toList s) + length rs - cap) (toList s @ storedAll s rs)"
  using assms
proof (induction rs arbitrary: s)
  case Nil
  then show ?case using length_le [of s] by simp
next
  case (Cons r rs)
  note IH = Cons.IH [OF push_ok [OF Cons.prems], of r]
  show ?case
  proof (cases "length (toList s) < cap")
    case True
    then show ?thesis using IH push_list [OF Cons.prems, of r] by simp
  next
    case False
    then have l: "length (toList s) = cap" using length_le [OF Cons.prems] by simp
    then obtain x xs where xs: "toList s = x # xs" using cap_pos [OF Cons.prems] by (cases "toList s") auto
    have "toList (push r s) = xs @ [stored s r]" using push_list [OF Cons.prems, of r] False xs by simp
    moreover have "cap = Suc (length xs)" using l xs by simp
    ultimately show ?thesis using IH xs by simp
  qed
qed

end

section \<open>A circular buffer in an array\<close>

definition ringView :: "nat \<Rightarrow> 'r list \<Rightarrow> nat \<Rightarrow> nat \<Rightarrow> 'r list" where
  "ringView cap recs w n = map (\<lambda>i. recs ! ((w + cap - n + i) mod cap)) [0..<n]"

lemma length_ringView [simp]: "length (ringView cap recs w n) = n"
  by (simp add: ringView_def)

lemma ringView_0 [simp]: "ringView cap recs w 0 = []"
  by (simp add: ringView_def)

lemma ringView_old:
  fixes w cap n i :: nat
  assumes "w < cap" "n \<le> cap" "i < n" "n < cap \<or> 0 < i"
  shows "(w + cap - n + i) mod cap \<noteq> w"
proof (cases "w + cap - n + i < cap")
  case True
  have "w + cap - n + i \<noteq> w" using assms by arith
  then show ?thesis using True by simp
next
  case False
  then have "(w + cap - n + i) mod cap = w + cap - n + i - cap"
    using assms by (simp add: mod_if)
  then show ?thesis using assms False by linarith
qed

lemma ringView_push:
  assumes "0 < cap" "length recs = cap" "n \<le> cap" "w < cap"
  shows "ringView cap (recs[w := r]) ((w + 1) mod cap) (if n < cap then n + 1 else n) =
    (if n < cap then ringView cap recs w n @ [r] else tl (ringView cap recs w n) @ [r])"
proof -
  let ?recs = "recs[w := r]"
  have old: "?recs ! ((w + cap - n + i) mod cap) = recs ! ((w + cap - n + i) mod cap)"
    if "i < n" "n < cap \<or> 0 < i" for i
    using ringView_old [OF assms(4,3) that] by simp
  have last_rec: "?recs ! ((w + cap) mod cap) = r" using assms by simp
  show ?thesis
  proof (cases "n < cap")
    case True
    have idx: "((w + 1) mod cap + cap - (n + 1) + i) mod cap = (w + cap - n + i) mod cap" for i
    proof (cases "w + 1 < cap")
      case lt: True
      then have "(w + 1) mod cap + cap - (n + 1) + i = w + cap - n + i" by simp
      then show ?thesis by (simp only:)
    next
      case ge: False
      then have "w + 1 = cap" using assms by simp
      then have "(w + 1) mod cap = 0" "w + cap - n + i = (cap - (n + 1) + i) + cap"
        using True by simp_all
      then show ?thesis by (simp only: mod_add_self2 add_0)
    qed
    have "ringView cap ?recs ((w + 1) mod cap) (n + 1) =
        map (\<lambda>i. ?recs ! ((w + cap - n + i) mod cap)) [0..<n + 1]"
      by (simp only: ringView_def idx)
    also have "\<dots> = map (\<lambda>i. ?recs ! ((w + cap - n + i) mod cap)) [0..<n] @ [r]"
      using last_rec True by simp
    also have "map (\<lambda>i. ?recs ! ((w + cap - n + i) mod cap)) [0..<n] = ringView cap recs w n"
      unfolding ringView_def by (rule map_cong [OF refl]) (use old True in auto)
    finally show ?thesis using True by simp
  next
    case False
    then have eq: "n = cap" using assms by simp
    have idx: "((w + 1) mod cap + cap - cap + i) mod cap = (w + Suc i) mod cap" for i
      by (simp add: mod_add_left_eq)
    have "ringView cap ?recs ((w + 1) mod cap) n = map (\<lambda>i. ?recs ! ((w + Suc i) mod cap)) [0..<cap]"
      by (simp only: ringView_def eq idx)
    also have "[0..<cap] = [0..<cap - 1] @ [cap - 1]"
      using assms(1) by (metis Suc_diff_1 upt_Suc_append zero_le)
    also have "map (\<lambda>i. ?recs ! ((w + Suc i) mod cap)) ([0..<cap - 1] @ [cap - 1]) =
        map (\<lambda>i. ?recs ! ((w + Suc i) mod cap)) [0..<cap - 1] @ [r]"
      using last_rec assms(1) by simp
    also have "map (\<lambda>i. ?recs ! ((w + Suc i) mod cap)) [0..<cap - 1] = tl (ringView cap recs w n)"
    proof -
      have "tl (ringView cap recs w n) = map (\<lambda>i. recs ! ((w + cap - n + i) mod cap)) [1..<cap]"
        by (simp add: ringView_def eq map_tl [symmetric] tl_upt)
      also have "\<dots> = map (\<lambda>i. recs ! ((w + Suc i) mod cap)) [0..<cap - 1]"
        by (simp add: eq list_eq_iff_nth_eq)
      also have "\<dots> = map (\<lambda>i. ?recs ! ((w + Suc i) mod cap)) [0..<cap - 1]"
      proof (rule map_cong [OF refl])
        fix i
        assume "i \<in> set [0..<cap - 1]"
        then show "recs ! ((w + Suc i) mod cap) = ?recs ! ((w + Suc i) mod cap)"
          using old [of "Suc i"] eq by simp
      qed
      finally show ?thesis by simp
    qed
    finally show ?thesis using False by simp
  qed
qed

text \<open>Walking back from the newest entry reads the view in order.\<close>

lemma ringView_nth:
  "i < n \<Longrightarrow> ringView cap recs w n ! i = recs ! ((w + cap - n + i) mod cap)"
  by (simp add: ringView_def)

end
