(* ===== verification/Record_Ring.thy ===== *)
theory Record_Ring
  imports Array_Ring
begin

text \<open>
  The RAM side of the dual-slot logs: the store with its ring of records
  (\<open>HistoryStore\<close>, \<open>ShotLogStore\<close>), the record-level operations of
  \<open>OpenBrewByWeightDualSlotFlashLog.h\<close>, the in-place compaction
  \<open>compactRecordRing\<close> of \<open>OpenBrewByWeightShotLogTypes.h\<close>, and the page copy of
  \<open>OpenBrewByWeightHistory.h\<close>. The abstract view of a ring is the list of its live
  records, oldest first; every operation is shown to do to that list what its name says.
\<close>

section \<open>The store\<close>

record 'r dual_store =
  stMagic :: u32
  stSchemaVersion :: u16
  stRecordSize :: u16
  stGeneration :: u32
  stNextRecordId :: u32
  stCount :: u16
  stWriteIndex :: u16
  stChecksum :: u32
  stRecords :: "'r list"

text \<open>The members a store type supplies through its traits.\<close>

record 'r ring_traits =
  trCapacity :: nat
  trZero :: 'r
  trIdOf :: "'r \<Rightarrow> u32"
  trSetId :: "u32 \<Rightarrow> 'r \<Rightarrow> 'r"

definition ring_wf :: "'r ring_traits \<Rightarrow> 'r dual_store \<Rightarrow> bool" where
  "ring_wf tr s \<longleftrightarrow> 0 < trCapacity tr \<and> trCapacity tr < 2 ^ 16 \<and>
     length (stRecords s) = trCapacity tr \<and> unat (stCount s) \<le> trCapacity tr \<and>
     unat (stWriteIndex s) < trCapacity tr"

definition ringList :: "'r ring_traits \<Rightarrow> 'r dual_store \<Rightarrow> 'r list" where
  "ringList tr s = map (\<lambda>i. stRecords s !
      ((unat (stWriteIndex s) + trCapacity tr - unat (stCount s) + i) mod trCapacity tr))
     [0..<unat (stCount s)]"

lemma length_ringList [simp]: "length (ringList tr s) = unat (stCount s)"
  by (simp add: ringList_def)

section \<open>Operations\<close>

definition previousIndex :: "nat \<Rightarrow> nat \<Rightarrow> nat" where
  "previousIndex cap index = (if index = 0 then cap else index) - 1"

fun findNewestFrom :: "'r ring_traits \<Rightarrow> 'r list \<Rightarrow> u32 \<Rightarrow> nat \<Rightarrow> nat \<Rightarrow> nat option" where
  "findNewestFrom tr recs wanted 0 index = None"
| "findNewestFrom tr recs wanted (Suc n) index =
     (let index' = previousIndex (trCapacity tr) index in
      if trIdOf tr (recs ! index') = wanted then Some index'
      else findNewestFrom tr recs wanted n index')"

definition findNewestById :: "'r ring_traits \<Rightarrow> u32 \<Rightarrow> 'r dual_store \<Rightarrow> 'r option" where
  "findNewestById tr wanted s =
     (if wanted = 0 \<or> stCount s = 0 then None
      else map_option (\<lambda>i. stRecords s ! i)
             (findNewestFrom tr (stRecords s) wanted (unat (stCount s)) (unat (stWriteIndex s))))"

definition containsId :: "'r ring_traits \<Rightarrow> u32 \<Rightarrow> 'r dual_store \<Rightarrow> bool" where
  "containsId tr wanted s \<longleftrightarrow> findNewestById tr wanted s \<noteq> None"

fun copyBackwards :: "'r ring_traits \<Rightarrow> 'r list \<Rightarrow> nat \<Rightarrow> nat \<Rightarrow> 'r list" where
  "copyBackwards tr recs 0 index = []"
| "copyBackwards tr recs (Suc n) index =
     (let index' = previousIndex (trCapacity tr) index in
      recs ! index' # copyBackwards tr recs n index')"

definition copyNewestFirst :: "'r ring_traits \<Rightarrow> nat \<Rightarrow> 'r dual_store \<Rightarrow> 'r list" where
  "copyNewestFirst tr capacity s =
     (if capacity = 0 \<or> stCount s = 0 then []
      else copyBackwards tr (stRecords s)
             (if unat (stCount s) < capacity then unat (stCount s) else capacity)
             (unat (stWriteIndex s)))"

definition copyNewest :: "'r ring_traits \<Rightarrow> 'r dual_store \<Rightarrow> 'r option" where
  "copyNewest tr s =
     (if stCount s = 0 then None
      else Some (stRecords s ! previousIndex (trCapacity tr) (unat (stWriteIndex s))))"

text \<open>The RAM part of \<open>append\<close>.\<close>

definition appendRecord :: "'r ring_traits \<Rightarrow> 'r \<Rightarrow> 'r dual_store \<Rightarrow> 'r dual_store" where
  "appendRecord tr r s =
     s\<lparr>stNextRecordId := (if stNextRecordId s < - 1 then stNextRecordId s + 1 else stNextRecordId s),
       stRecords := (stRecords s)[unat (stWriteIndex s) := trSetId tr (stNextRecordId s) r],
       stWriteIndex := of_nat ((unat (stWriteIndex s) + 1) mod trCapacity tr),
       stCount := (if unat (stCount s) < trCapacity tr then stCount s + 1 else stCount s)\<rparr>"

text \<open>The two-pointer reversal and the triple-reversal rotation.\<close>

function reverseRange :: "nat \<Rightarrow> nat \<Rightarrow> 'r list \<Rightarrow> 'r list" where
  "reverseRange first upper recs =
     (if first + 1 < upper
      then reverseRange (first + 1) (upper - 1)
             (recs[first := recs ! (upper - 1), upper - 1 := recs ! first])
      else recs)"
  by pat_completeness auto
termination by (relation "measure (\<lambda>(first, upper, recs). upper - first)") auto

declare reverseRange.simps [simp del]

definition compactRecordRing ::
    "'r ring_traits \<Rightarrow> u16 \<Rightarrow> u16 \<Rightarrow> 'r list \<Rightarrow> u16 \<times> 'r list" where
  "compactRecordRing tr count writeIndex recs =
     (let cap = trCapacity tr in
      if count = 0 then (0, replicate cap (trZero tr))
      else
        let shift = (unat writeIndex + cap - unat count) mod cap;
            rotated = (if shift \<noteq> 0
              then reverseRange 0 cap (reverseRange shift cap (reverseRange 0 shift recs)) else recs)
        in (of_nat (unat count mod cap),
            take (unat count) rotated @ replicate (cap - unat count) (trZero tr)))"

definition compactStore :: "'r ring_traits \<Rightarrow> 'r dual_store \<Rightarrow> 'r dual_store" where
  "compactStore tr s =
     (case compactRecordRing tr (stCount s) (stWriteIndex s) (stRecords s) of
        (w, recs) \<Rightarrow> s\<lparr>stWriteIndex := w, stRecords := recs\<rparr>)"

text \<open>The RAM part of \<open>removeById\<close>, after the compaction.\<close>

fun findIndexFrom :: "'r ring_traits \<Rightarrow> 'r list \<Rightarrow> u32 \<Rightarrow> nat \<Rightarrow> nat \<Rightarrow> nat option" where
  "findIndexFrom tr recs wanted index 0 = None"
| "findIndexFrom tr recs wanted index (Suc n) =
     (if trIdOf tr (recs ! index) = wanted then Some index
      else findIndexFrom tr recs wanted (Suc index) n)"

definition removeCompacted :: "'r ring_traits \<Rightarrow> nat \<Rightarrow> 'r dual_store \<Rightarrow> 'r dual_store" where
  "removeCompacted tr found s =
     (let previous = unat (stCount s);
          moved = (if found + 1 < previous
             then take found (stRecords s) @ take (previous - found - 1) (drop (found + 1) (stRecords s))
                  @ drop (previous - 1) (stRecords s)
             else stRecords s)
      in s\<lparr>stCount := stCount s - 1,
           stWriteIndex := of_nat ((previous - 1) mod trCapacity tr),
           stRecords := moved[previous - 1 := trZero tr]\<rparr>)"


section \<open>The ring as a list\<close>

lemma ring_index:
  assumes "ring_wf tr s" and "i < unat (stCount s)"
  shows "(unat (stWriteIndex s) + trCapacity tr - unat (stCount s) + i) mod trCapacity tr < trCapacity tr"
  using assms by (simp add: ring_wf_def)

lemma u16_of_nat: "n < 2 ^ 16 \<Longrightarrow> unat (of_nat n :: u16) = n"
  by (simp add: unat_of_nat)

lemma u16_inc: "unat (x :: u16) < n \<Longrightarrow> n < 2 ^ 16 \<Longrightarrow> unat (x + 1) = unat x + 1"
  by (simp add: unat_word_ariths)

lemma u16_dec: "0 < unat (x :: u16) \<Longrightarrow> unat (x - 1) = unat x - 1"
  by (metis One_nat_def unat_1 unat_sub word_le_nat_alt less_eq_Suc_le)

lemma append_wf:
  assumes "ring_wf tr s"
  shows "ring_wf tr (appendRecord tr r s)"
proof -
  let ?c = "trCapacity tr"
  have c: "0 < ?c" "?c < 2 ^ 16" "unat (stCount s) \<le> ?c" using assms by (simp_all add: ring_wf_def)
  have "(unat (stWriteIndex s) + 1) mod ?c < ?c" using c by simp
  then have "(unat (stWriteIndex s) + 1) mod ?c < 2 ^ 16" using c by linarith
  then have w: "unat (of_nat ((unat (stWriteIndex s) + 1) mod ?c) :: u16) = (unat (stWriteIndex s) + 1) mod ?c"
    by (rule u16_of_nat)
  have "unat (stCount s) < ?c \<Longrightarrow> unat (stCount s + 1) = unat (stCount s) + 1"
    using c by (intro u16_inc) auto
  then show ?thesis
    using assms c w by (simp add: ring_wf_def appendRecord_def)
qed

lemma ringList_view: "ringList tr s = ringView (trCapacity tr) (stRecords s) (unat (stWriteIndex s)) (unat (stCount s))"
  by (simp add: ringList_def ringView_def)

lemma append_ringList:
  fixes r :: 'r
  assumes "ring_wf tr s"
  defines "r' \<equiv> trSetId tr (stNextRecordId s) r"
  shows "ringList tr (appendRecord tr r s) =
     (if length (ringList tr s) < trCapacity tr then ringList tr s @ [r'] else tl (ringList tr s) @ [r'])"
proof -
  let ?c = "trCapacity tr" and ?n = "unat (stCount s)" and ?w = "unat (stWriteIndex s)"
  have wf: "0 < ?c" "?c < 2 ^ 16" "length (stRecords s) = ?c" "?n \<le> ?c" "?w < ?c"
    using assms(1) by (simp_all add: ring_wf_def)
  have "(?w + 1) mod ?c < ?c" using wf(1) by simp
  then have "(?w + 1) mod ?c < 2 ^ 16" using wf(2) by linarith
  then have w': "unat (stWriteIndex (appendRecord tr r s)) = (?w + 1) mod ?c"
    by (simp add: appendRecord_def u16_of_nat)
  have recs: "stRecords (appendRecord tr r s) = (stRecords s)[?w := r']" by (simp add: appendRecord_def r'_def)
  have n': "unat (stCount (appendRecord tr r s)) = (if ?n < ?c then ?n + 1 else ?n)"
    using u16_inc [of "stCount s" ?c] wf(2,4) by (simp add: appendRecord_def)
  show ?thesis
    using ringView_push [OF wf(1,3,4,5), of r'] unfolding ringList_view w' recs n' by simp
qed


section \<open>Reading backwards\<close>

lemma previousIndex_mod: "e < cap \<Longrightarrow> previousIndex cap e = (e + cap - 1) mod cap"
  by (cases e) (auto simp: previousIndex_def mod_if)

lemma copyBackwards_nth:
  assumes "e < trCapacity tr" and "n \<le> trCapacity tr"
  shows "copyBackwards tr recs n e = map (\<lambda>j. recs ! ((e + trCapacity tr - 1 - j) mod trCapacity tr)) [0..<n]"
  using assms
proof (induction n arbitrary: e)
  case 0
  then show ?case by simp
next
  case (Suc n)
  let ?c = "trCapacity tr"
  let ?e = "previousIndex ?c e"
  have e': "?e < ?c" using Suc.prems(1) by (auto simp: previousIndex_def)
  have e2: "?e = (e + ?c - 1) mod ?c" by (rule previousIndex_mod [OF Suc.prems(1)])
  have "(?e + ?c - 1 - j) mod ?c = (e + ?c - 1 - Suc j) mod ?c" if "j < n" for j
  proof (cases "e = 0")
    case True
    then have "?e + ?c - 1 - j = (e + ?c - 1 - Suc j) + ?c"
      using that Suc.prems by (simp add: previousIndex_def)
    then show ?thesis by (simp only: mod_add_self2)
  next
    case False
    then have "?e + ?c - 1 - j = e + ?c - 1 - Suc j"
      using that Suc.prems by (simp add: previousIndex_def)
    then show ?thesis by (simp only:)
  qed
  then have "map (\<lambda>j. recs ! ((?e + ?c - 1 - j) mod ?c)) [0..<n] =
      map (\<lambda>j. recs ! ((e + ?c - 1 - Suc j) mod ?c)) [0..<n]"
    by (intro map_cong [OF refl]) simp
  then show ?case
    using Suc.IH [OF e'] Suc.prems(2) e2
    by (simp add: Let_def map_upt_Suc del: upt_Suc)
qed

lemma rev_ringList:
  assumes "ring_wf tr s"
  shows "rev (ringList tr s) =
    map (\<lambda>j. stRecords s ! ((unat (stWriteIndex s) + trCapacity tr - 1 - j) mod trCapacity tr))
      [0..<unat (stCount s)]"
proof (rule nth_equalityI)
  show "length (rev (ringList tr s)) = length (map (\<lambda>j. stRecords s !
      ((unat (stWriteIndex s) + trCapacity tr - 1 - j) mod trCapacity tr)) [0..<unat (stCount s)])"
    by simp
  fix i
  assume "i < length (rev (ringList tr s))"
  then have i: "i < unat (stCount s)" by simp
  have "unat (stWriteIndex s) + trCapacity tr - unat (stCount s) + (unat (stCount s) - Suc i)
      = unat (stWriteIndex s) + trCapacity tr - 1 - i"
    using i assms by (simp add: ring_wf_def)
  then show "rev (ringList tr s) ! i = map (\<lambda>j. stRecords s !
      ((unat (stWriteIndex s) + trCapacity tr - 1 - j) mod trCapacity tr)) [0..<unat (stCount s)] ! i"
    using i by (simp add: rev_nth ringList_def)
qed

lemma copyBackwards_ring:
  assumes "ring_wf tr s" and "n \<le> unat (stCount s)"
  shows "copyBackwards tr (stRecords s) n (unat (stWriteIndex s)) = take n (rev (ringList tr s))"
proof -
  have "unat (stWriteIndex s) < trCapacity tr" "n \<le> trCapacity tr"
    using assms by (simp_all add: ring_wf_def)
  from copyBackwards_nth [OF this] show ?thesis
    using assms by (simp add: rev_ringList take_map)
qed

lemma copyNewestFirst_ring:
  assumes "ring_wf tr s"
  shows "copyNewestFirst tr capacity s = take capacity (rev (ringList tr s))"
proof -
  have "stCount s = 0 \<Longrightarrow> ringList tr s = []" by (simp add: ringList_def)
  then show ?thesis
    using copyBackwards_ring [OF assms] by (auto simp: copyNewestFirst_def)
qed

lemma findNewestFrom_find:
  "map_option (\<lambda>i. recs ! i) (findNewestFrom tr recs wanted n e) =
     find (\<lambda>r. trIdOf tr r = wanted) (copyBackwards tr recs n e)"
  by (induction n arbitrary: e) (simp_all add: Let_def)

lemma findNewestById_ring:
  assumes "ring_wf tr s" and "wanted \<noteq> 0"
  shows "findNewestById tr wanted s = find (\<lambda>r. trIdOf tr r = wanted) (rev (ringList tr s))"
proof -
  have "stCount s = 0 \<Longrightarrow> ringList tr s = []" by (simp add: ringList_def)
  then show ?thesis
    using assms copyBackwards_ring [OF assms(1), of "unat (stCount s)"]
    by (auto simp: findNewestById_def findNewestFrom_find)
qed

lemma copyNewest_ring:
  assumes "ring_wf tr s"
  shows "copyNewest tr s = (if ringList tr s = [] then None else Some (last (ringList tr s)))"
proof (cases "stCount s = 0")
  case True
  then show ?thesis by (simp add: copyNewest_def ringList_def)
next
  case False
  then have n: "1 \<le> unat (stCount s)" by (simp add: unat_gt_0 Suc_le_eq)
  then have ne: "ringList tr s \<noteq> []" by (metis length_ringList list.size(3) not_one_le_zero)
  have "copyBackwards tr (stRecords s) 1 (unat (stWriteIndex s)) = take 1 (rev (ringList tr s))"
    by (rule copyBackwards_ring [OF assms n])
  then have "[stRecords s ! previousIndex (trCapacity tr) (unat (stWriteIndex s))] = take 1 (rev (ringList tr s))"
    by (simp add: Let_def)
  also have "\<dots> = [last (ringList tr s)]"
    using ne by (metis One_nat_def hd_rev rev_is_Nil_conv take0 take_Suc)
  finally show ?thesis using False ne by (simp add: copyNewest_def)
qed

section \<open>Compaction\<close>

lemma reverseRange_eq:
  assumes "first \<le> upper" and "upper \<le> length recs"
  shows "reverseRange first upper recs =
     take first recs @ rev (take (upper - first) (drop first recs)) @ drop upper recs"
  using assms
proof (induction first upper recs rule: reverseRange.induct)
  case (1 first upper recs)
  show ?case
  proof (cases "first + 1 < upper")
    case True
    define mid where "mid = take (upper - first - 2) (drop (Suc first) recs)"
    have split: "recs = take first recs @ recs ! first # mid @ recs ! (upper - 1) # drop upper recs"
    proof -
      have "drop first recs = recs ! first # drop (Suc first) recs"
        using True 1(3) by (simp add: Cons_nth_drop_Suc)
      moreover have "drop (Suc first) recs = mid @ drop (upper - first - 2) (drop (Suc first) recs)"
        unfolding mid_def by (rule append_take_drop_id [symmetric])
      moreover have "drop (upper - first - 2) (drop (Suc first) recs) = drop (upper - 1) recs"
      proof -
        have "upper - first - 2 + Suc first = upper - 1" using True by linarith
        then show ?thesis by (simp only: drop_drop)
      qed
      moreover have "drop (upper - 1) recs = recs ! (upper - 1) # drop upper recs"
        using True 1(3) Cons_nth_drop_Suc [of "upper - 1" recs] by simp
      ultimately show ?thesis by (metis append_take_drop_id)
    qed
    have lm: "length mid = upper - first - 2" using True 1(3) by (simp add: mid_def)
    have lf: "length (take first recs) = first" using True 1(3) by simp
    define p where "p = take first recs"
    define a where "a = recs ! first"
    define b where "b = recs ! (upper - 1)"
    define q where "q = drop upper recs"
    have r: "recs = p @ a # mid @ b # q" using split by (simp only: p_def a_def b_def q_def)
    have lp: "length p = first" using lf by (simp add: p_def)
    have swap: "recs[first := b, upper - 1 := a] = p @ b # mid @ a # q"
    proof -
      have "recs[first := b] = p @ b # mid @ b # q"
        by (subst r) (simp add: lp [symmetric])
      moreover have "upper - 1 = length (p @ b # mid)" using lp lm True by simp
      ultimately show ?thesis by (metis append.assoc append_Cons list_update_length)
    qed
    have "reverseRange first upper recs = reverseRange (first + 1) (upper - 1) (p @ b # mid @ a # q)"
      using True swap by (subst reverseRange.simps) (simp add: a_def b_def)
    also have "\<dots> = take (first + 1) (p @ b # mid @ a # q) @
        rev (take (upper - 1 - (first + 1)) (drop (first + 1) (p @ b # mid @ a # q))) @
        drop (upper - 1) (p @ b # mid @ a # q)"
    proof -
      have "first + 1 \<le> upper - 1" "upper - 1 \<le> length (recs[first := recs ! (upper - 1), upper - 1 := recs ! first])"
        using True 1(3) by simp_all
      from 1(1) [OF True this] show ?thesis unfolding swap [unfolded a_def b_def] a_def b_def .
    qed
    also have "\<dots> = (p @ [b]) @ rev mid @ (a # q)"
    proof -
      have e: "p @ b # mid @ a # q = (p @ [b]) @ mid @ (a # q)" by simp
      have "first + 1 = length (p @ [b])" "upper - 1 - (first + 1) = length mid"
          "upper - 1 = length (p @ [b]) + length mid"
        using lp lm True by simp_all
      then show ?thesis unfolding e by (simp del: append.assoc)
    qed
    also have "\<dots> = take first recs @ rev (take (upper - first) (drop first recs)) @ drop upper recs"
    proof -
      have "take (upper - first) (drop first recs) = a # mid @ [b]"
      proof -
        have d: "drop first recs = (a # mid @ [b]) @ q" by (subst r) (simp add: lp [symmetric])
        have "upper - first = length (a # mid @ [b])" using lm True by simp
        then show ?thesis unfolding d by (metis append_eq_conv_conj)
      qed
      then show ?thesis by (simp add: p_def q_def)
    qed
    finally show ?thesis .
  next
    case False
    then have "take (upper - first) (drop first recs) = rev (take (upper - first) (drop first recs))"
      using 1(2,3) by (cases "upper = first") (auto simp: take_Suc_conv_app_nth numeral_eq_Suc
          le_Suc_eq not_less)
    moreover have "recs = take first recs @ take (upper - first) (drop first recs) @ drop upper recs"
      using 1(2) by (metis append_take_drop_id drop_drop le_add_diff_inverse2 add.commute)
    ultimately show ?thesis using False by (subst reverseRange.simps) simp
  qed
qed


lemma reverse_three:
  assumes "n \<le> length recs"
  shows "reverseRange 0 (length recs) (reverseRange n (length recs) (reverseRange 0 n recs))
       = drop n recs @ take n recs"
proof -
  have a: "reverseRange 0 n recs = rev (take n recs) @ drop n recs"
    using reverseRange_eq [of 0 n recs] assms by simp
  have "reverseRange n (length recs) (rev (take n recs) @ drop n recs) =
      rev (take n recs) @ rev (drop n recs)"
    using reverseRange_eq [of n "length recs" "rev (take n recs) @ drop n recs"] assms by simp
  moreover have "reverseRange 0 (length recs) (rev (take n recs) @ rev (drop n recs)) =
      drop n recs @ take n recs"
    using reverseRange_eq [of 0 "length recs" "rev (take n recs) @ rev (drop n recs)"] assms by simp
  ultimately show ?thesis by (simp only: a)
qed

lemma compact_records:
  assumes "ring_wf tr s"
  shows "compactRecordRing tr (stCount s) (stWriteIndex s) (stRecords s) =
    (of_nat (unat (stCount s) mod trCapacity tr),
     ringList tr s @ replicate (trCapacity tr - unat (stCount s)) (trZero tr))"
proof (cases "stCount s = 0")
  case True
  then show ?thesis by (simp add: compactRecordRing_def ringList_def Let_def)
next
  case False
  let ?c = "trCapacity tr" and ?n = "unat (stCount s)" and ?recs = "stRecords s"
  define sh where "sh = (unat (stWriteIndex s) + ?c - ?n) mod ?c"
  define rot where "rot = (if sh \<noteq> 0 then reverseRange 0 ?c (reverseRange sh ?c (reverseRange 0 sh ?recs))
      else ?recs)"
  have wf: "0 < ?c" "length ?recs = ?c" "?n \<le> ?c" using assms by (simp_all add: ring_wf_def)
  have sh: "sh < ?c" using wf(1) by (simp add: sh_def)
  have rot: "rot = drop sh ?recs @ take sh ?recs"
    using reverse_three [of sh ?recs] sh wf(2) by (simp add: rot_def)
  have lrot: "length rot = ?c" using sh wf(2) by (simp add: rot)
  have rl: "ringList tr s = map (\<lambda>i. ?recs ! ((sh + i) mod ?c)) [0..<?n]"
    by (simp add: ringList_def sh_def mod_add_left_eq)
  have "take ?n rot = ringList tr s"
  proof (rule nth_equalityI)
    show "length (take ?n rot) = length (ringList tr s)" using lrot wf by simp
    fix i
    assume "i < length (take ?n rot)"
    then have i: "i < ?n" "i < ?c" using lrot wf by simp_all
    have "rot ! i = ?recs ! ((sh + i) mod ?c)"
    proof (cases "sh + i < ?c")
      case True
      then have "i < ?c - sh" by linarith
      then show ?thesis using True wf sh i by (simp add: rot nth_append)
    next
      case no: False
      then have "(sh + i) mod ?c = sh + i - ?c" using sh i by (simp add: mod_if)
      then have "(sh + i) mod ?c = i - (?c - sh)" using sh no by linarith
      moreover have "\<not> i < ?c - sh" using no by linarith
      ultimately show ?thesis using wf sh i no by (simp add: rot nth_append)
    qed
    then show "take ?n rot ! i = ringList tr s ! i" using i by (simp add: rl)
  qed
  then show ?thesis
    using False by (auto simp: compactRecordRing_def Let_def sh_def [symmetric] rot_def split: if_splits)
qed

lemma compactStore_wf:
  assumes "ring_wf tr s"
  shows "ring_wf tr (compactStore tr s)" and "ringList tr (compactStore tr s) = ringList tr s"
    and "take (unat (stCount s)) (stRecords (compactStore tr s)) = ringList tr s"
    and "unat (stWriteIndex (compactStore tr s)) = unat (stCount s) mod trCapacity tr"
    and "stCount (compactStore tr s) = stCount s"
proof -
  let ?c = "trCapacity tr" and ?n = "unat (stCount s)"
  have wf: "0 < ?c" "?c < 2 ^ 16" "?n \<le> ?c" using assms by (simp_all add: ring_wf_def)
  have "?n mod ?c < ?c" using wf(1) by simp
  then have w: "unat (of_nat (?n mod ?c) :: u16) = ?n mod ?c" using wf(2) by (intro u16_of_nat) linarith
  have eq: "compactStore tr s = s\<lparr>stWriteIndex := of_nat (?n mod ?c),
      stRecords := ringList tr s @ replicate (?c - ?n) (trZero tr)\<rparr>"
    by (simp add: compactStore_def compact_records [OF assms])
  show "ring_wf tr (compactStore tr s)" using assms wf w by (simp add: eq ring_wf_def)
  show "take ?n (stRecords (compactStore tr s)) = ringList tr s" by (simp add: eq)
  show "unat (stWriteIndex (compactStore tr s)) = ?n mod ?c" by (simp add: eq w)
  show "stCount (compactStore tr s) = stCount s" by (simp add: eq)
  show "ringList tr (compactStore tr s) = ringList tr s"
  proof (rule nth_equalityI)
    show "length (ringList tr (compactStore tr s)) = length (ringList tr s)" by (simp add: eq)
    fix i
    assume "i < length (ringList tr (compactStore tr s))"
    then have i: "i < ?n" by (simp add: eq)
    have "(?n mod ?c + ?c - ?n + i) mod ?c = i"
      using i wf by (cases "?n = ?c") simp_all
    then show "ringList tr (compactStore tr s) ! i = ringList tr s ! i"
      using i by (simp add: eq ringList_def [of tr "s\<lparr>stWriteIndex := _, stRecords := _\<rparr>"] w nth_append)
  qed
qed

interpretation store_ring: bounded_log "ringList tr" "appendRecord tr" "ring_wf tr"
  "\<lambda>s. trSetId tr (stNextRecordId s)" "trCapacity tr" for tr :: "'r ring_traits"
proof unfold_locales
  show "0 < trCapacity tr" if "ring_wf tr s" for s using that by (simp add: ring_wf_def)
  show "ring_wf tr (appendRecord tr r s)" if "ring_wf tr s" for s and r :: 'r
    using that by (rule append_wf)
  show "length (ringList tr s) \<le> trCapacity tr" if "ring_wf tr s" for s
    using that by (simp add: ring_wf_def)
  show "ringList tr (appendRecord tr r s) = (if length (ringList tr s) < trCapacity tr
      then ringList tr s @ [trSetId tr (stNextRecordId s) r]
      else tl (ringList tr s) @ [trSetId tr (stNextRecordId s) r])" if "ring_wf tr s" for s and r :: 'r
    using that by (rule append_ringList)
qed


section \<open>Removal\<close>

lemma findIndexFrom_spec:
  "findIndexFrom tr recs wanted index n = Some i \<Longrightarrow>
     index \<le> i \<and> i < index + n \<and> trIdOf tr (recs ! i) = wanted \<and>
     (\<forall>j. index \<le> j \<and> j < i \<longrightarrow> trIdOf tr (recs ! j) \<noteq> wanted)"
  "findIndexFrom tr recs wanted index n = None \<longleftrightarrow>
     (\<forall>j. index \<le> j \<and> j < index + n \<longrightarrow> trIdOf tr (recs ! j) \<noteq> wanted)"
proof -
  show "findIndexFrom tr recs wanted index n = Some i \<Longrightarrow>
     index \<le> i \<and> i < index + n \<and> trIdOf tr (recs ! i) = wanted \<and>
     (\<forall>j. index \<le> j \<and> j < i \<longrightarrow> trIdOf tr (recs ! j) \<noteq> wanted)"
  proof (induction n arbitrary: index)
    case (Suc n)
    show ?case
    proof (cases "trIdOf tr (recs ! index) = wanted")
      case True
      then show ?thesis using Suc.prems by auto
    next
      case False
      then have "findIndexFrom tr recs wanted (Suc index) n = Some i" using Suc.prems by simp
      from Suc.IH [OF this] show ?thesis using False by (auto simp: Suc_le_eq nat_less_le)
    qed
  qed simp
  show "findIndexFrom tr recs wanted index n = None \<longleftrightarrow>
     (\<forall>j. index \<le> j \<and> j < index + n \<longrightarrow> trIdOf tr (recs ! j) \<noteq> wanted)"
  proof (induction n arbitrary: index)
    case (Suc n)
    show ?case
      using Suc.IH [of "Suc index"] by (auto simp: Suc_le_eq nat_less_le)
  qed auto
qed

text \<open>On a compacted ring, the removal deletes exactly the record at the index found.\<close>

lemma removeCompacted_ring:
  assumes "ring_wf tr s" and "found < unat (stCount s)"
    and "take (unat (stCount s)) (stRecords s) = xs"
  shows "ring_wf tr (removeCompacted tr found s)"
    and "ringList tr (removeCompacted tr found s) = take found xs @ drop (Suc found) xs"
proof -
  let ?c = "trCapacity tr" and ?n = "unat (stCount s)" and ?s' = "removeCompacted tr found s"
  have wf: "0 < ?c" "?c < 2 ^ 16" "length (stRecords s) = ?c" "?n \<le> ?c" "0 < ?n"
    using assms by (simp_all add: ring_wf_def)
  have n': "unat (stCount ?s') = ?n - 1"
    using u16_dec [of "stCount s"] wf(5) by (simp add: removeCompacted_def Let_def)
  have lt: "?n - 1 < ?c" using wf by linarith
  then have w': "unat (stWriteIndex ?s') = ?n - 1"
    using u16_of_nat [of "?n - 1"] wf(2) by (simp add: removeCompacted_def Let_def)
  have lx: "length xs = ?n" using assms(3) wf by auto
  define moved where "moved = (if found + 1 < ?n
     then take found (stRecords s) @ take (?n - found - 1) (drop (found + 1) (stRecords s)) @
          drop (?n - 1) (stRecords s) else stRecords s)"
  have lm: "length moved = ?c" using wf assms(2) by (auto simp: moved_def)
  have tm: "take (?n - 1) moved = take found xs @ drop (Suc found) xs"
  proof (cases "found + 1 < ?n")
    case True
    have a: "take found xs = take found (stRecords s)" using assms(2,3) by (auto simp: min_def)
    have b: "drop (Suc found) xs = take (?n - found - 1) (drop (found + 1) (stRecords s))"
      using assms(3) by (auto simp: drop_take)
    have "?n - 1 = length (take found (stRecords s) @ take (?n - found - 1) (drop (found + 1) (stRecords s)))"
      using True wf by simp
    then show ?thesis
      using True unfolding moved_def a b by (simp only: if_True append.assoc [symmetric]) (metis append_eq_conv_conj)
  next
    case False
    then have "found = ?n - 1" using assms(2) by linarith
    then show ?thesis using False lx assms(3) by (auto simp: moved_def min_def)
  qed
  have recs: "stRecords ?s' = moved[?n - 1 := trZero tr]"
    by (simp add: removeCompacted_def Let_def moved_def)
  show "ring_wf tr ?s'" using wf n' w' lt recs lm by (simp add: ring_wf_def)
  have "ringList tr ?s' = map (\<lambda>i. moved ! i) [0..<?n - 1]"
    unfolding ringList_def n' w' recs
  proof (rule map_cong [OF refl])
    fix i
    assume "i \<in> set [0..<?n - 1]"
    then have i: "i < ?n - 1" by simp
    then have "(?n - 1 + ?c - (?n - 1) + i) mod ?c = i" using lt by simp
    then show "moved[?n - 1 := trZero tr] ! ((?n - 1 + ?c - (?n - 1) + i) mod ?c) = moved ! i"
      using i by simp
  qed
  also have "\<dots> = take (?n - 1) moved"
    using lm lt by (simp add: list_eq_iff_nth_eq)
  finally show "ringList tr ?s' = take found xs @ drop (Suc found) xs" using tm by simp
qed

end
