(* ===== verification/Dual_Slot_Log.thy ===== *)
theory Dual_Slot_Log
  imports Flash_Store Record_Ring
begin

text \<open>
  \<open>OpenBrewByWeightNvsDualSlot.h\<close> and the persistence half of
  \<open>OpenBrewByWeightDualSlotFlashLog.h\<close> (target build): two flash slots, a generation
  that grows with every save, and a load that takes the newer valid one. The template
  parameters (layout, validity, compaction, finalisation, geometry) are one record of
  hooks; what a store type has to promise for the log to survive a power loss is a locale,
  and \<open>History_Store\<close> interprets it on the activation-history store.
\<close>

section \<open>Choosing a slot\<close>

datatype DualSlotChoice = NONE | FIRST | SECOND

definition secondRevisionIsNewer :: "u32 \<Rightarrow> u32 \<Rightarrow> bool" where
  "secondRevisionIsNewer a b \<longleftrightarrow> 0 < sint (b - a)"

definition chooseNewerRevision :: "bool \<Rightarrow> u32 \<Rightarrow> bool \<Rightarrow> u32 \<Rightarrow> DualSlotChoice" where
  "chooseNewerRevision firstValid firstRevision secondValid secondRevision =
     (if \<not> firstValid \<and> \<not> secondValid then NONE
      else if \<not> firstValid then SECOND
      else if \<not> secondValid then FIRST
      else if secondRevisionIsNewer firstRevision secondRevision then SECOND else FIRST)"

section \<open>The log\<close>

record 'r log_hooks =
  hkEncode :: "'r dual_store \<Rightarrow> bytes"
  hkDecode :: "bytes \<Rightarrow> 'r dual_store"
  hkHeaderGeneration :: "bytes \<Rightarrow> u32"
  hkValid :: "'r dual_store \<Rightarrow> bool"
  hkFinalize :: "'r dual_store \<Rightarrow> 'r dual_store"
  hkReset :: "'r dual_store"
  hkTraits :: "'r ring_traits"
  hkSlotBytes :: nat
  hkHeaderBytes :: nat
  hkTotalBytes :: nat
  hkSettingsBytes :: nat

record 'r flash_log =
  lgStore :: "'r dual_store"
  lgProgress :: FlashStoreTransaction
  lgActive :: nat
  lgDirty :: bool

definition otherSlot :: "nat \<Rightarrow> nat" where
  "otherSlot active = 1 - active mod 2"

text \<open>Compact, take the next generation, seal: the start of every save.\<close>

definition nextGeneration :: "u32 \<Rightarrow> u32" where
  "nextGeneration g = (if g = 0 then 1 else if g < - 1 then g + 1 else g)"

definition prepareStore :: "'r log_hooks \<Rightarrow> 'r dual_store \<Rightarrow> 'r dual_store" where
  "prepareStore hk s =
     (let s1 = compactStore (hkTraits hk) s in
      hkFinalize hk (s1\<lparr>stGeneration := nextGeneration (stGeneration s1)\<rparr>))"

definition readSlot :: "'r log_hooks \<Rightarrow> bool list \<Rightarrow> nat \<Rightarrow> flash \<Rightarrow> bool \<times> bytes" where
  "readSlot hk oks slot m = flashIoReadChunked oks (slot * hkSlotBytes hk) (hkTotalBytes hk) m []"

text \<open>
  The answers of the driver during one load: the lock, the partition lookup, the two header
  reads and the reads of the first and the second attempt.
\<close>

record load_io =
  liLocked :: bool
  liPartition :: bool
  liHeader :: "nat \<Rightarrow> bool list"
  liAttempt :: "nat \<Rightarrow> bool list"

definition loadHeader :: "'r log_hooks \<Rightarrow> load_io \<Rightarrow> nat \<Rightarrow> flash \<Rightarrow> bool \<times> bytes" where
  "loadHeader hk io slot m =
     flashIoReadChunked (liHeader io slot) (slot * hkSlotBytes hk) (hkHeaderBytes hk) m []"

definition loadAttempt :: "'r log_hooks \<Rightarrow> load_io \<Rightarrow> nat \<Rightarrow> nat \<Rightarrow> flash \<Rightarrow> 'r dual_store option" where
  "loadAttempt hk io attempt slot m =
     (case readSlot hk (liAttempt io attempt) slot m of (ok, bs) \<Rightarrow>
        if ok \<and> hkValid hk (hkDecode hk bs) then Some (hkDecode hk bs) else None)"

definition load :: "'r log_hooks \<Rightarrow> load_io \<Rightarrow> flash \<Rightarrow> 'r flash_log \<Rightarrow> bool \<times> 'r flash_log" where
  "load hk io m lg =
     (if \<not> liLocked io then
        let live = stGeneration (lgStore lg) \<noteq> 0 in
        (False, lg\<lparr>lgStore := (if live then lgStore lg else hkReset hk), lgDirty := live\<rparr>)
      else if \<not> liPartition io then
        (False, lg\<lparr>lgStore := hkReset hk, lgDirty := False\<rparr>)
      else
        let h0 = loadHeader hk io 0 m; h1 = loadHeader hk io 1 m;
            newer = (if chooseNewerRevision (fst h0) (hkHeaderGeneration hk (snd h0))
                       (fst h1) (hkHeaderGeneration hk (snd h1)) = SECOND then 1 else 0)
        in (True, case loadAttempt hk io 0 newer m of
              Some s \<Rightarrow> lg\<lparr>lgStore := s, lgActive := newer, lgDirty := False\<rparr>
            | None \<Rightarrow> (case loadAttempt hk io 1 (1 - newer) m of
                Some s \<Rightarrow> lg\<lparr>lgStore := s, lgActive := 1 - newer, lgDirty := False\<rparr>
              | None \<Rightarrow> lg\<lparr>lgStore := hkReset hk, lgActive := 0, lgDirty := False\<rparr>)))"

text \<open>The synchronous save: erase the whole slot, then write the store front to back.\<close>

record save_io =
  svLocked :: bool
  svPartition :: bool
  svErase :: flash_io
  svWrites :: "flash_io list"

definition save :: "'r log_hooks \<Rightarrow> save_io \<Rightarrow> flash \<Rightarrow> 'r flash_log \<Rightarrow> bool \<times> flash \<times> 'r flash_log" where
  "save hk io m lg =
     (if \<not> svLocked io then (False, m, lg)
      else
        let s = prepareStore hk (lgStore lg); lg1 = lg\<lparr>lgStore := s\<rparr>;
            target = otherSlot (lgActive lg); off = target * hkSlotBytes hk in
        if \<not> svPartition io then (False, m, lg1)
        else case eraseRange (svErase io) off (hkSlotBytes hk) m of (ok, m1) \<Rightarrow>
          if \<not> ok then (False, m1, lg1)
          else case flashIoWriteChunked (svWrites io) off (hkEncode hk s) 0 m1 of (ok, m2) \<Rightarrow>
            if \<not> ok then (False, m2, lg1)
            else (True, m2, lg1\<lparr>lgActive := target, lgDirty := False\<rparr>))"

definition flush :: "'r log_hooks \<Rightarrow> save_io \<Rightarrow> flash \<Rightarrow> 'r flash_log \<Rightarrow> bool \<times> flash \<times> 'r flash_log" where
  "flush hk io m lg = (if \<not> lgDirty lg then (True, m, lg) else save hk io m lg)"

text \<open>The staged save: one driver call per step, the header last.\<close>

definition flushBegin :: "'r log_hooks \<Rightarrow> 'r flash_log \<Rightarrow> 'r flash_log" where
  "flushBegin hk lg =
     (if phase (lgProgress lg) = IDLE then
        lg\<lparr>lgStore := prepareStore hk (lgStore lg),
           lgProgress := beginFlashStoreTransaction (otherSlot (lgActive lg) * hkSlotBytes hk)
              (hkSlotBytes hk) (hkHeaderBytes hk) (hkTotalBytes hk)\<rparr>
      else lg)"

definition flushStep :: "'r log_hooks \<Rightarrow> bool \<Rightarrow> bool \<times> flash_io \<Rightarrow> flash \<Rightarrow> 'r flash_log
    \<Rightarrow> FlashStoreStepResult \<times> flash \<times> 'r flash_log" where
  "flushStep hk partitionOk = (\<lambda>(locked, io) m lg.
     (if \<not> lgDirty lg then (COMPLETE, m, lg)
      else if \<not> partitionOk then (FAILED, m, lg)
      else
        let lg1 = flushBegin hk lg in
        case flashIoStoreStep (hkSettingsBytes hk) locked io (hkEncode hk (lgStore lg1))
               (lgProgress lg1) m of
          (r, tx, m') \<Rightarrow>
            (r, m', let lg2 = lg1\<lparr>lgProgress := tx\<rparr> in
               if r = COMPLETE then lg2\<lparr>lgActive := otherSlot (lgActive lg2), lgDirty := False\<rparr>
               else lg2)))"

definition capturePersistenceImage :: "'r flash_log \<Rightarrow> 'r flash_log \<Rightarrow> 'r flash_log" where
  "capturePersistenceImage lg old =
     (let img = (if lgDirty lg then lg else old) in
      img\<lparr>lgActive := lgActive lg,
             lgStore := (lgStore img)\<lparr>stGeneration := stGeneration (lgStore lg)\<rparr>,
             lgDirty := lgDirty lg, lgProgress := idleTx\<rparr>)"

definition acknowledgePersisted :: "'r flash_log \<Rightarrow> bool \<Rightarrow> 'r flash_log \<Rightarrow> 'r flash_log" where
  "acknowledgePersisted img clearDirty lg =
     lg\<lparr>lgActive := lgActive img,
        lgStore := (lgStore lg)\<lparr>stGeneration := stGeneration (lgStore img)\<rparr>,
        lgDirty := (lgDirty lg \<and> \<not> clearDirty)\<rparr>"

section \<open>Record operations with persistence\<close>

text \<open>
  \<open>append\<close> and \<open>removeById\<close>: \<open>lockTimedOut\<close> says whether the save failed on the lock,
  which is what the comparison of the timeout counters decides.
\<close>

definition appendLog :: "'r log_hooks \<Rightarrow> save_io \<Rightarrow> load_io \<Rightarrow> bool \<Rightarrow> bool \<Rightarrow> 'r \<Rightarrow> flash
    \<Rightarrow> 'r flash_log \<Rightarrow> bool \<times> flash \<times> 'r flash_log" where
  "appendLog hk sio lio lockTimedOut persistNow r m lg =
     (let old = lgStore lg; s = appendRecord (hkTraits hk) r old; lg1 = lg\<lparr>lgStore := s\<rparr> in
      if \<not> persistNow then (True, m, lg1\<lparr>lgDirty := True\<rparr>)
      else case save hk sio m lg1 of (ok, m1, lg2) \<Rightarrow>
        if ok then (True, m1, lg2)
        else if \<not> lockTimedOut then (False, m1, snd (load hk lio m1 lg2))
        else (False, m1, lg2\<lparr>lgStore := (lgStore lg2)\<lparr>
               stRecords := (stRecords (lgStore lg2))[unat (stWriteIndex old) :=
                  stRecords old ! unat (stWriteIndex old)],
               stWriteIndex := stWriteIndex old, stCount := stCount old,
               stNextRecordId := stNextRecordId old\<rparr>\<rparr>))"

definition removeById :: "'r log_hooks \<Rightarrow> bool \<Rightarrow> save_io \<Rightarrow> load_io \<Rightarrow> u32 \<Rightarrow> bool \<Rightarrow> flash
    \<Rightarrow> 'r flash_log \<Rightarrow> bool \<times> flash \<times> 'r flash_log" where
  "removeById hk locked sio lio wanted persistNow m lg =
     (if wanted = 0 \<or> stCount (lgStore lg) = 0 then (False, m, lg)
      else if persistNow \<and> \<not> locked then (False, m, lg)
      else
        let s = compactStore (hkTraits hk) (lgStore lg); lg1 = lg\<lparr>lgStore := s\<rparr> in
        case findIndexFrom (hkTraits hk) (stRecords s) wanted 0 (unat (stCount s)) of
          None \<Rightarrow> (False, m, lg1)
        | Some i \<Rightarrow>
            (let lg2 = lg1\<lparr>lgStore := removeCompacted (hkTraits hk) i s\<rparr> in
             if \<not> persistNow then (True, m, lg2\<lparr>lgDirty := True\<rparr>)
             else case save hk sio m lg2 of (ok, m1, lg3) \<Rightarrow>
               if ok then (True, m1, lg3) else (False, m1, snd (load hk lio m1 lg3))))"

definition persistMutation :: "'r log_hooks \<Rightarrow> save_io \<Rightarrow> load_io \<Rightarrow> bool \<Rightarrow> flash
    \<Rightarrow> 'r flash_log \<Rightarrow> bool \<times> flash \<times> 'r flash_log" where
  "persistMutation hk sio lio persistNow m lg =
     (if \<not> persistNow then (True, m, lg\<lparr>lgDirty := True\<rparr>)
      else case save hk sio m lg of (ok, m1, lg1) \<Rightarrow>
        if ok then (True, m1, lg1) else (False, m1, snd (load hk lio m1 lg1)))"


section \<open>What a store type promises\<close>

locale dual_slot_hooks =
  fixes hk :: "'r log_hooks" and ok :: "'r dual_store \<Rightarrow> bool"
  assumes ok_ring: "ok s \<Longrightarrow> ring_wf (hkTraits hk) s"
    and encode_length: "ok s \<Longrightarrow> length (hkEncode hk s) = hkTotalBytes hk"
    and decode_encode: "ok s \<Longrightarrow> hkDecode hk (hkEncode hk s) = s"
    and header_generation: "length bs = hkTotalBytes hk \<Longrightarrow>
      hkHeaderGeneration hk (take (hkHeaderBytes hk) bs) = stGeneration (hkDecode hk bs)"
    and blank_invalid: "length bs = hkTotalBytes hk \<Longrightarrow> \<forall>i < hkHeaderBytes hk. bs ! i = 0xFF \<Longrightarrow>
      \<not> hkValid hk (hkDecode hk bs)"
    and compact_ok: "ok s \<Longrightarrow> ok (compactStore (hkTraits hk) s)"
    and generation_ok: "ok s \<Longrightarrow> ok (s\<lparr>stGeneration := g\<rparr>)"
    and finalize_ok: "ok s \<Longrightarrow> ok (hkFinalize hk s)"
    and finalize_valid: "ok s \<Longrightarrow> hkValid hk (hkFinalize hk s)"
    and finalize_generation: "stGeneration (hkFinalize hk s) = stGeneration s"
    and finalize_list: "ringList (hkTraits hk) (hkFinalize hk s) = ringList (hkTraits hk) s"
    and slot_sectors: "hkSlotBytes hk mod FLASH_IO_SECTOR_BYTES = 0"
    and header_bytes: "0 < hkHeaderBytes hk" "hkHeaderBytes hk \<le> FLASH_IO_CHUNK_BYTES"
      "hkHeaderBytes hk < hkTotalBytes hk"
    and total_bytes: "hkTotalBytes hk \<le> hkSlotBytes hk"
begin

lemma prepare_ok:
  assumes "ok s"
  shows "ok (prepareStore hk s)" and "hkValid hk (prepareStore hk s)"
    and "stGeneration (prepareStore hk s) = nextGeneration (stGeneration s)"
    and "ringList (hkTraits hk) (prepareStore hk s) = ringList (hkTraits hk) s"
proof -
  let ?s1 = "compactStore (hkTraits hk) s"
  let ?s2 = "?s1\<lparr>stGeneration := nextGeneration (stGeneration ?s1)\<rparr>"
  have p: "prepareStore hk s = hkFinalize hk ?s2" by (simp add: prepareStore_def Let_def)
  have o: "ok ?s2" by (intro generation_ok compact_ok assms)
  show "ok (prepareStore hk s)" "hkValid hk (prepareStore hk s)"
    using finalize_ok [OF o] finalize_valid [OF o] by (simp_all add: p)
  have "stGeneration ?s1 = stGeneration s"
    by (simp add: compactStore_def split: prod.splits)
  then show "stGeneration (prepareStore hk s) = nextGeneration (stGeneration s)"
    by (simp add: p finalize_generation)
  have "ringList (hkTraits hk) ?s2 = ringList (hkTraits hk) ?s1" by (simp add: ringList_def)
  then show "ringList (hkTraits hk) (prepareStore hk s) = ringList (hkTraits hk) s"
    using compactStore_wf(2) [OF ok_ring [OF assms]] by (simp add: p finalize_list)
qed

end

section \<open>A load without driver failures\<close>

lemma readRange_append: "readRange a c m @ readRange (a + c) r m = readRange a (c + r) m"
proof -
  have "[a..<a + (c + r)] = [a..<a + c] @ [a + c..<a + c + r]"
    using upt_add_eq_append [of a "a + c" r] by (simp add: add.assoc)
  then show ?thesis by (simp add: readRange_def)
qed

lemma readChunked_ok:
  "length out \<le> n \<Longrightarrow> n - length out \<le> k \<Longrightarrow>
     flashIoReadChunked (replicate k True) off n m out =
       (True, out @ readRange (off + length out) (n - length out) m)"
proof (induction k arbitrary: out)
  case 0
  then show ?case by (simp add: readRange_def)
next
  case (Suc k)
  show ?case
  proof (cases "length out < n")
    case False
    then show ?thesis using Suc.prems by (simp add: readRange_def)
  next
    case True
    let ?c = "chunkAt (n - length out)"
    let ?out = "out @ readRange (off + length out) ?c m"
    have c: "0 < ?c" "?c \<le> n - length out" using chunkAt_bounds [of "n - length out"] True by simp_all
    have l: "length ?out = length out + ?c" by (simp add: readRange_def)
    have "flashIoReadChunked (replicate k True) off n m ?out =
        (True, ?out @ readRange (off + length ?out) (n - length ?out) m)"
      using c l Suc.prems by (intro Suc.IH) simp_all
    moreover have "readRange (off + length out) ?c m @ readRange (off + length ?out) (n - length ?out) m
        = readRange (off + length out) (n - length out) m"
      using readRange_append [of "off + length out" ?c m "n - length ?out"] c l
      by (simp add: add.assoc)
    ultimately show ?thesis using True by (simp add: Let_def)
  qed
qed

definition slotImage :: "'r log_hooks \<Rightarrow> nat \<Rightarrow> flash \<Rightarrow> bytes" where
  "slotImage hk slot m = readRange (slot * hkSlotBytes hk) (hkTotalBytes hk) m"

lemma length_slotImage [simp]: "length (slotImage hk slot m) = hkTotalBytes hk"
  by (simp add: slotImage_def readRange_def)

definition slotStore :: "'r log_hooks \<Rightarrow> nat \<Rightarrow> flash \<Rightarrow> 'r dual_store" where
  "slotStore hk slot m = hkDecode hk (slotImage hk slot m)"

definition slotValid :: "'r log_hooks \<Rightarrow> nat \<Rightarrow> flash \<Rightarrow> bool" where
  "slotValid hk slot m = hkValid hk (slotStore hk slot m)"

definition quietLoad :: "'r log_hooks \<Rightarrow> load_io" where
  "quietLoad hk = \<lparr> liLocked = True, liPartition = True,
     liHeader = (\<lambda>_. replicate (hkTotalBytes hk) True),
     liAttempt = (\<lambda>_. replicate (hkTotalBytes hk) True) \<rparr>"

text \<open>The slot a load without driver failures takes.\<close>

definition loadWinner :: "'r log_hooks \<Rightarrow> flash \<Rightarrow> nat option" where
  "loadWinner hk m =
     (let newer = (if secondRevisionIsNewer (stGeneration (slotStore hk 0 m))
                        (stGeneration (slotStore hk 1 m)) then 1 else 0) in
      if slotValid hk newer m then Some newer
      else if slotValid hk (1 - newer) m then Some (1 - newer) else None)"

definition loadOutcome :: "'r log_hooks \<Rightarrow> flash \<Rightarrow> 'r dual_store \<times> nat" where
  "loadOutcome hk m = (case loadWinner hk m of
     Some i \<Rightarrow> (slotStore hk i m, i) | None \<Rightarrow> (hkReset hk, 0))"

context dual_slot_hooks
begin

lemma load_quiet:
  "load hk (quietLoad hk) m lg = (True, lg\<lparr>lgStore := fst (loadOutcome hk m),
     lgActive := snd (loadOutcome hk m), lgDirty := False\<rparr>)"
proof -
  have attempt: "loadAttempt hk (quietLoad hk) k slot m =
      (if slotValid hk slot m then Some (slotStore hk slot m) else None)" for k slot
    using readChunked_ok [of "[]" "hkTotalBytes hk" "hkTotalBytes hk"]
    by (simp add: loadAttempt_def readSlot_def quietLoad_def slotValid_def slotStore_def slotImage_def)
  have header: "loadHeader hk (quietLoad hk) slot m =
      (True, take (hkHeaderBytes hk) (slotImage hk slot m))" for slot
  proof -
    have h: "hkHeaderBytes hk \<le> hkTotalBytes hk" using header_bytes by simp
    have "take (hkHeaderBytes hk) (slotImage hk slot m) =
        readRange (slot * hkSlotBytes hk) (hkHeaderBytes hk) m"
      using h by (simp add: slotImage_def readRange_def take_map)
    then show ?thesis
      using readChunked_ok [of "[]" "hkHeaderBytes hk" "hkTotalBytes hk"] h
      by (simp add: loadHeader_def quietLoad_def)
  qed
  have gen: "hkHeaderGeneration hk (take (hkHeaderBytes hk) (slotImage hk slot m)) =
      stGeneration (slotStore hk slot m)" for slot
    by (simp add: slotStore_def header_generation)
  let ?n = "if secondRevisionIsNewer (stGeneration (slotStore hk 0 m))
      (stGeneration (slotStore hk 1 m)) then 1 else 0 :: nat"
  have io: "liLocked (quietLoad hk)" "liPartition (quietLoad hk)" by (simp_all add: quietLoad_def)
  have "load hk (quietLoad hk) m lg = (True, case loadAttempt hk (quietLoad hk) 0 ?n m of
              Some s \<Rightarrow> lg\<lparr>lgStore := s, lgActive := ?n, lgDirty := False\<rparr>
            | None \<Rightarrow> (case loadAttempt hk (quietLoad hk) 1 (1 - ?n) m of
                Some s \<Rightarrow> lg\<lparr>lgStore := s, lgActive := 1 - ?n, lgDirty := False\<rparr>
              | None \<Rightarrow> lg\<lparr>lgStore := hkReset hk, lgActive := 0, lgDirty := False\<rparr>))"
    using io by (simp add: load_def header gen chooseNewerRevision_def Let_def)
  then show ?thesis
    by (simp only: attempt loadOutcome_def loadWinner_def Let_def)
      (simp split: option.split)
qed

lemma slotImage_cong:
  assumes "\<And>i. i < hkSlotBytes hk \<Longrightarrow> m' (slot * hkSlotBytes hk + i) = m (slot * hkSlotBytes hk + i)"
  shows "slotImage hk slot m' = slotImage hk slot m"
proof (rule nth_equalityI)
  show "slotImage hk slot m' ! i = slotImage hk slot m ! i" if "i < length (slotImage hk slot m')" for i
    using that assms [of i] total_bytes by (simp add: slotImage_def readRange_def)
qed simp

lemma blank_slot:
  assumes "\<And>i. i < hkHeaderBytes hk \<Longrightarrow> m (slot * hkSlotBytes hk + i) = 0xFF"
  shows "\<not> slotValid hk slot m"
  unfolding slotValid_def slotStore_def
  using assms header_bytes by (intro blank_invalid) (simp_all add: slotImage_def readRange_def)

text \<open>Blanking the slot that did not win changes nothing a load returns.\<close>

lemma loadOutcome_loser:
  assumes keep: "slotImage hk w m' = slotImage hk w m"
    and bad: "\<not> slotValid hk (1 - w) m'"
    and won: "snd (loadOutcome hk m) = w" and w: "w = 0 \<or> w = 1"
  shows "loadOutcome hk m' = loadOutcome hk m"
proof -
  have s: "slotStore hk w m' = slotStore hk w m" and v: "slotValid hk w m' = slotValid hk w m"
    using keep by (simp_all add: slotStore_def slotValid_def)
  show ?thesis
  proof (cases "slotValid hk w m")
    case True
    have "loadWinner hk m' = Some w"
      using w True v bad by (auto simp: loadWinner_def Let_def)
    moreover have "loadWinner hk m = Some w"
      using won True w by (auto simp: loadOutcome_def loadWinner_def Let_def split: if_splits)
    ultimately show ?thesis by (simp add: loadOutcome_def s)
  next
    case False
    then have "loadWinner hk m' = None" using w v bad by (auto simp: loadWinner_def Let_def)
    moreover have "loadWinner hk m = None"
      using won False w by (auto simp: loadOutcome_def loadWinner_def Let_def split: if_splits)
    ultimately show ?thesis by (simp add: loadOutcome_def)
  qed
qed

lemma loadOutcome_slot: "snd (loadOutcome hk m) = 0 \<or> snd (loadOutcome hk m) = 1"
  by (auto simp: loadOutcome_def loadWinner_def Let_def)

end

section \<open>A staged save, interrupted anywhere\<close>

text \<open>
  The owner calls \<open>flushStep\<close> until it answers COMPLETE or FAILED. The list holds the
  lock and driver answers; a shorter list than the save needs is a reset between two calls.
\<close>

fun flushRun :: "'r log_hooks \<Rightarrow> (bool \<times> flash_io) list \<Rightarrow> flash \<Rightarrow> 'r flash_log
    \<Rightarrow> FlashStoreStepResult \<times> flash \<times> 'r flash_log" where
  "flushRun hk [] m lg = (MORE, m, lg)"
| "flushRun hk (io # rest) m lg =
     (case flushStep hk True io m lg of
        (MORE, m', lg') \<Rightarrow> flushRun hk rest m' lg'
      | r \<Rightarrow> r)"

text \<open>
  The driver failed, or the reset came, inside the erase of the header's sector or inside
  the write of the header itself: only there can the target slot hold arbitrary bytes in
  its header.
\<close>

definition flushTorn :: "'r log_hooks \<Rightarrow> (bool \<times> flash_io) list \<Rightarrow> flash \<Rightarrow> 'r flash_log \<Rightarrow> bool" where
  "flushTorn hk ios m lg = (let lg1 = flushBegin hk lg in
     headerTorn (hkSettingsBytes hk) ios (hkEncode hk (lgStore lg1)) (lgProgress lg1) m)"

definition flushSteps :: "'r log_hooks \<Rightarrow> nat" where
  "flushSteps hk = hkSlotBytes hk div FLASH_IO_SECTOR_BYTES
     + bodySteps (hkTotalBytes hk - hkHeaderBytes hk) + 1"

lemma flushRun_storeRun:
  assumes "lgDirty lg" and "phase (lgProgress lg) \<noteq> IDLE"
  shows "flushRun hk ios m lg =
     (case storeRun (hkSettingsBytes hk) ios (hkEncode hk (lgStore lg)) (lgProgress lg) m of
        (r, tx, m') \<Rightarrow> (r, m', if r = COMPLETE
            then lg\<lparr>lgProgress := tx, lgActive := otherSlot (lgActive lg), lgDirty := False\<rparr>
            else lg\<lparr>lgProgress := tx\<rparr>))"
  using assms
proof (induction ios arbitrary: m lg)
  case Nil
  then show ?case by simp
next
  case (Cons x ios)
  obtain locked io where x: "x = (locked, io)" by (cases x)
  obtain r1 tx1 m1 where st: "flashIoStoreStep (hkSettingsBytes hk) locked io (hkEncode hk (lgStore lg))
      (lgProgress lg) m = (r1, tx1, m1)"
    by (cases "flashIoStoreStep (hkSettingsBytes hk) locked io (hkEncode hk (lgStore lg)) (lgProgress lg) m")
      auto
  have b: "flushBegin hk lg = lg" using Cons.prems by (simp add: flushBegin_def)
  show ?case
  proof (cases r1)
    case MORE
    then have "phase tx1 \<noteq> IDLE"
      using st by (auto simp: flashIoStoreStep_def split: if_splits prod.splits)
    then show ?thesis
      using Cons.IH [of "lg\<lparr>lgProgress := tx1\<rparr>" m1] Cons.prems st MORE
      by (simp add: x flushStep_def b Let_def split: prod.splits)
  qed (use Cons.prems st b in \<open>simp_all add: x flushStep_def Let_def\<close>)
qed

lemma flushRun_begin:
  assumes "lgDirty lg" and "ios \<noteq> []"
  shows "flushRun hk ios m lg = flushRun hk ios m (flushBegin hk lg)"
proof -
  have "flushBegin hk (flushBegin hk lg) = flushBegin hk lg"
    by (simp add: flushBegin_def beginFlashStoreTransaction_def)
  moreover have "lgDirty (flushBegin hk lg) = lgDirty lg" by (simp add: flushBegin_def)
  ultimately have "flushStep hk True io m (flushBegin hk lg) = flushStep hk True io m lg" for io
    using assms(1) by (cases io) (simp add: flushStep_def)
  then show ?thesis using assms(2) by (cases ios) simp_all
qed

lemma otherSlot_cases:
  assumes "w = 0 \<or> w = 1"
  shows "otherSlot w = 1 - w" and "otherSlot w \<noteq> w"
  using assms by (auto simp: otherSlot_def)

context dual_slot_hooks
begin

definition target_tx :: "'r flash_log \<Rightarrow> FlashStoreTransaction" where
  "target_tx lg = beginFlashStoreTransaction (otherSlot (lgActive lg) * hkSlotBytes hk)
     (hkSlotBytes hk) (hkHeaderBytes hk) (hkTotalBytes hk)"

lemma begin_facts:
  assumes "phase (lgProgress lg) = IDLE"
  shows "lgProgress (flushBegin hk lg) = target_tx lg"
    and "lgStore (flushBegin hk lg) = prepareStore hk (lgStore lg)"
    and "lgActive (flushBegin hk lg) = lgActive lg" and "lgDirty (flushBegin hk lg) = lgDirty lg"
  using assms by (simp_all add: flushBegin_def target_tx_def)

lemma target_tx_facts:
  assumes "ok s"
  shows "tx_geometry (hkEncode hk (prepareStore hk s)) (target_tx lg)" and "tx_bounds (target_tx lg)"
    and "tx_content src (target_tx lg) m" and "phase (target_tx lg) \<noteq> IDLE"
    and "targetOffset (target_tx lg) = otherSlot (lgActive lg) * hkSlotBytes hk"
    and "txSlotBytes (target_tx lg) = hkSlotBytes hk" and "txHeaderBytes (target_tx lg) = hkHeaderBytes hk"
    and "txTotalBytes (target_tx lg) = hkTotalBytes hk"
    and "stepsLeft (target_tx lg) = flushSteps hk"
proof -
  show "tx_geometry (hkEncode hk (prepareStore hk s)) (target_tx lg)"
    using slot_sectors header_bytes total_bytes encode_length [OF prepare_ok(1) [OF assms]]
    by (simp add: tx_geometry_def target_tx_def beginFlashStoreTransaction_def)
  show "tx_bounds (target_tx lg)"
    unfolding target_tx_def using header_bytes total_bytes by (intro content_begin) simp
  show "tx_content src (target_tx lg) m" unfolding target_tx_def by (rule content_begin)
  show "phase (target_tx lg) \<noteq> IDLE" "targetOffset (target_tx lg) = otherSlot (lgActive lg) * hkSlotBytes hk"
    "txSlotBytes (target_tx lg) = hkSlotBytes hk" "txHeaderBytes (target_tx lg) = hkHeaderBytes hk"
    "txTotalBytes (target_tx lg) = hkTotalBytes hk"
    by (simp_all add: target_tx_def beginFlashStoreTransaction_def)
  show "stepsLeft (target_tx lg) = flushSteps hk"
    by (simp add: stepsLeft_def flushSteps_def target_tx_def beginFlashStoreTransaction_def)
qed

lemma flushRun_run:
  assumes "lgDirty lg" and "phase (lgProgress lg) = IDLE" and "ios \<noteq> []"
    and "flushRun hk ios m lg = (r, m', lg')"
  obtains tx' where "storeRun (hkSettingsBytes hk) ios (hkEncode hk (prepareStore hk (lgStore lg)))
      (target_tx lg) m = (r, tx', m')"
    and "r = COMPLETE \<Longrightarrow> lgActive lg' = otherSlot (lgActive lg) \<and> \<not> lgDirty lg' \<and>
      lgStore lg' = prepareStore hk (lgStore lg)"
proof -
  note b = begin_facts [OF assms(2)]
  have "phase (lgProgress (flushBegin hk lg)) \<noteq> IDLE"
    by (simp add: b target_tx_def beginFlashStoreTransaction_def)
  from flushRun_storeRun [OF _ this, of hk ios m]
  have "flushRun hk ios m (flushBegin hk lg) = (case storeRun (hkSettingsBytes hk) ios
      (hkEncode hk (prepareStore hk (lgStore lg))) (target_tx lg) m of
        (r, tx, m') \<Rightarrow> (r, m', if r = COMPLETE
            then (flushBegin hk lg)\<lparr>lgProgress := tx, lgActive := otherSlot (lgActive lg), lgDirty := False\<rparr>
            else (flushBegin hk lg)\<lparr>lgProgress := tx\<rparr>))"
    using assms(1) by (simp add: b split: prod.splits)
  then show thesis
    using flushRun_begin [OF assms(1,3), of hk m] assms(4) that b by (auto split: prod.splits)
qed

lemma active_slot_untouched:
  assumes "ok s" and "lgActive lg = 0 \<or> lgActive lg = 1"
    and "storeRun sb ios (hkEncode hk (prepareStore hk s)) (target_tx lg) m = (r, tx', m')"
  shows "slotImage hk (lgActive lg) m' = slotImage hk (lgActive lg) m"
proof (rule slotImage_cong)
  fix i
  assume i: "i < hkSlotBytes hk"
  note t = target_tx_facts [OF assms(1)]
  show "m' (lgActive lg * hkSlotBytes hk + i) = m (lgActive lg * hkSlotBytes hk + i)"
    by (rule run_outside [OF t(1,2) assms(3)]) (use assms(2) i in \<open>auto simp: t otherSlot_def\<close>)
qed

text \<open>A save that did not complete leaves what a load finds exactly as it was.\<close>

lemma flush_interrupted:
  assumes okS: "ok (lgStore lg)" and idle: "phase (lgProgress lg) = IDLE"
    and act: "lgActive lg = snd (loadOutcome hk m)"
    and run: "flushRun hk ios m lg = (r, m', lg')" and r: "r \<noteq> COMPLETE"
    and torn: "\<not> flushTorn hk ios m lg"
  shows "load hk (quietLoad hk) m' z = load hk (quietLoad hk) m z"
proof (cases "ios = []")
  case True
  then show ?thesis using run by simp
next
  case False
  have d: "lgDirty lg"
  proof (rule ccontr)
    assume "\<not> lgDirty lg"
    then have "flushStep hk True io m lg = (COMPLETE, m, lg)" for io
      by (cases io) (simp add: flushStep_def)
    then show False using run r False by (cases ios) simp_all
  qed
  obtain tx' where st: "storeRun (hkSettingsBytes hk) ios (hkEncode hk (prepareStore hk (lgStore lg)))
      (target_tx lg) m = (r, tx', m')"
    using flushRun_run [OF d idle False run] by metis
  note t = target_tx_facts [OF okS]
  let ?w = "lgActive lg"
  have w: "?w = 0 \<or> ?w = 1" using loadOutcome_slot act by metis
  have keep: "slotImage hk ?w m' = slotImage hk ?w m" by (rule active_slot_untouched [OF okS w st])
  have "\<not> headerTorn (hkSettingsBytes hk) ios (hkEncode hk (prepareStore hk (lgStore lg))) (target_tx lg) m"
    using torn by (simp add: flushTorn_def begin_facts [OF idle] Let_def)
  then have safe: "header_safe (target_tx lg) m m'"
    by (intro run_header_safe [OF t(1,2,3,4) _ st r]) simp_all
  have "loadOutcome hk m' = loadOutcome hk m"
  proof (cases "\<forall>i < hkSlotBytes hk. m' ((1 - ?w) * hkSlotBytes hk + i) = m ((1 - ?w) * hkSlotBytes hk + i)")
    case True
    then have "slotImage hk (1 - ?w) m' = slotImage hk (1 - ?w) m" by (intro slotImage_cong) simp
    then have "slotImage hk j m' = slotImage hk j m" if "j = 0 \<or> j = 1" for j
      using keep w that by auto
    then have e: "slotStore hk j m' = slotStore hk j m" "slotValid hk j m' = slotValid hk j m"
      if "j = 0 \<or> j = 1" for j
      using that by (simp_all add: slotStore_def slotValid_def)
    have "loadWinner hk m' = loadWinner hk m" using e by (simp add: loadWinner_def Let_def)
    moreover have "j = 0 \<or> j = 1" if "loadWinner hk m = Some j" for j
      using that by (auto simp: loadWinner_def Let_def split: if_splits)
    ultimately show ?thesis using e by (auto simp: loadOutcome_def split: option.splits)
  next
    case changed: False
    then have "\<forall>i < hkHeaderBytes hk. m' ((1 - ?w) * hkSlotBytes hk + i) = 0xFF"
      using safe unfolding header_safe_def t otherSlot_cases(1) [OF w] by blast
    then have "\<not> slotValid hk (1 - ?w) m'" by (intro blank_slot) simp
    from loadOutcome_loser [OF keep this act [symmetric] w] show ?thesis .
  qed
  then show ?thesis by (simp add: load_quiet)
qed

text \<open>A completed save is what the next load returns.\<close>

lemma flush_complete_load:
  assumes okS: "ok (lgStore lg)" and idle: "phase (lgProgress lg) = IDLE"
    and act: "lgActive lg = snd (loadOutcome hk m)"
    and newer: "secondRevisionIsNewer (stGeneration (slotStore hk (lgActive lg) m))
      (nextGeneration (stGeneration (lgStore lg)))
      \<and> \<not> secondRevisionIsNewer (nextGeneration (stGeneration (lgStore lg)))
      (stGeneration (slotStore hk (lgActive lg) m))
      \<or> \<not> slotValid hk (lgActive lg) m"
    and run: "flushRun hk ios m lg = (COMPLETE, m', lg')" and d: "lgDirty lg"
  shows "load hk (quietLoad hk) m' z = (True, z\<lparr>lgStore := prepareStore hk (lgStore lg),
     lgActive := otherSlot (lgActive lg), lgDirty := False\<rparr>)"
    and "\<not> lgDirty lg'" and "lgActive lg' = otherSlot (lgActive lg)"
proof -
  let ?w = "lgActive lg" and ?s = "prepareStore hk (lgStore lg)"
  note p = prepare_ok [OF okS] and t = target_tx_facts [OF okS]
  have ne: "ios \<noteq> []" using run by auto
  obtain tx' where st: "storeRun (hkSettingsBytes hk) ios (hkEncode hk ?s) (target_tx lg) m =
      (COMPLETE, tx', m')"
    and lg': "lgActive lg' = otherSlot ?w \<and> \<not> lgDirty lg' \<and> lgStore lg' = ?s"
    using flushRun_run [OF d idle ne run] by metis
  show "\<not> lgDirty lg'" "lgActive lg' = otherSlot ?w" using lg' by simp_all
  have con: "m' (otherSlot ?w * hkSlotBytes hk + i) = written 0 (hkTotalBytes hk) (hkEncode hk ?s) i"
    if "i < hkSlotBytes hk" for i
    using run_content [OF t(1,2,3) st, of i] that by (simp add: t)
  have w: "?w = 0 \<or> ?w = 1" using loadOutcome_slot act by metis
  have keep: "slotImage hk ?w m' = slotImage hk ?w m" by (rule active_slot_untouched [OF okS w st])
  then have a: "slotStore hk ?w m' = slotStore hk ?w m" "slotValid hk ?w m' = slotValid hk ?w m"
    by (simp_all add: slotStore_def slotValid_def)
  have "slotImage hk (otherSlot ?w) m' = hkEncode hk ?s"
  proof (rule nth_equalityI)
    fix i
    assume "i < length (slotImage hk (otherSlot ?w) m')"
    then show "slotImage hk (otherSlot ?w) m' ! i = hkEncode hk ?s ! i"
      using con total_bytes by (simp add: slotImage_def readRange_def written_def)
  qed (simp add: encode_length [OF p(1)])
  then have n: "slotStore hk (1 - ?w) m' = ?s" "slotValid hk (1 - ?w) m'"
    using p otherSlot_cases [OF w] by (simp_all add: slotStore_def slotValid_def decode_encode)
  have "loadWinner hk m' = Some (1 - ?w)"
    using w newer n a p(3) by (auto simp: loadWinner_def Let_def)
  then show "load hk (quietLoad hk) m' z = (True, z\<lparr>lgStore := ?s,
     lgActive := otherSlot ?w, lgDirty := False\<rparr>)"
    using n otherSlot_cases [OF w] by (simp add: load_quiet loadOutcome_def)
qed

text \<open>Without driver failures a save completes in \<open>flushSteps\<close> calls.\<close>

lemma flush_terminates:
  assumes okS: "ok (lgStore lg)" and idle: "phase (lgProgress lg) = IDLE" and d: "lgDirty lg"
    and n: "flushSteps hk \<le> n"
  shows "\<exists>m' lg'. flushRun hk (replicate n (True, FlashOk)) m lg = (COMPLETE, m', lg')"
proof -
  note t = target_tx_facts [OF okS]
  obtain tx' m' where c: "storeRun (hkSettingsBytes hk) (replicate n (True, FlashOk))
      (hkEncode hk (prepareStore hk (lgStore lg))) (target_tx lg) m = (COMPLETE, tx', m')"
    using run_completes [OF t(1,2,4,3), where n = n and sb = "hkSettingsBytes hk" and m = m and lg1 = lg]
      n by (auto simp: t)
  have ne: "replicate n (True, FlashOk) \<noteq> []" using n by (simp add: flushSteps_def)
  obtain r m2 lg' where run: "flushRun hk (replicate n (True, FlashOk)) m lg = (r, m2, lg')"
    by (cases "flushRun hk (replicate n (True, FlashOk)) m lg") auto
  obtain tx2 where "storeRun (hkSettingsBytes hk) (replicate n (True, FlashOk))
      (hkEncode hk (prepareStore hk (lgStore lg))) (target_tx lg) m = (r, tx2, m2)"
    using flushRun_run [OF d idle ne run] by metis
  then show ?thesis using run c by simp
qed

end

end
