(* ===== verification/History_Store.thy ===== *)
theory History_Store
  imports Dual_Slot_Log
begin

text \<open>
  \<open>OpenBrewByWeightHistoryTypes.h\<close> and \<open>OpenBrewByWeightHistory.h\<close>: the activation
  history, a ring of 1000 sixteen-byte records kept in two 16 KiB flash slots. The byte
  image is the packed little-endian layout the static assertions of the source fix; the
  checksum is the CRC-32 over the first twenty header bytes and the live prefix of the
  records. The store is an instance of the dual-slot log.
\<close>

section \<open>Constants\<close>

definition HISTORY_MAGIC :: u32 where "HISTORY_MAGIC = 0x41435448"
definition HISTORY_SCHEMA_VERSION :: u16 where "HISTORY_SCHEMA_VERSION = 0"
definition HISTORY_CAPACITY :: nat where "HISTORY_CAPACITY = 1000"
definition HISTORY_PAGE_MAX :: nat where "HISTORY_PAGE_MAX = 120"
definition HISTORY_FLASH_SLOT_BYTES :: nat where "HISTORY_FLASH_SLOT_BYTES = 16384"
definition HISTORY_HEADER_BYTES :: nat where "HISTORY_HEADER_BYTES = 24"
definition HISTORY_RECORD_BYTES :: nat where "HISTORY_RECORD_BYTES = 16"
definition HISTORY_STORE_BYTES :: nat where "HISTORY_STORE_BYTES = 16024"

section \<open>Records\<close>

datatype HistoryType = SHOT | RINSE | OTHER | POWER_ON | NO_SCALE_GUARD_ABORTED | BACKFLUSH

definition historyTypeName :: "HistoryType \<Rightarrow> string" where
  "historyTypeName t = (case t of
       SHOT \<Rightarrow> ''shot''
     | RINSE \<Rightarrow> ''rinse''
     | OTHER \<Rightarrow> ''other''
     | POWER_ON \<Rightarrow> ''power_on''
     | NO_SCALE_GUARD_ABORTED \<Rightarrow> ''no_scale_guard_aborted''
     | BACKFLUSH \<Rightarrow> ''backflush'')"

definition historyTypeFromCycle :: "bool \<Rightarrow> u32 \<Rightarrow> u32 \<Rightarrow> HistoryType" where
  "historyTypeFromCycle rinseEnd durationMs protectionMs =
     (if rinseEnd then RINSE else if durationMs > protectionMs then SHOT else OTHER)"

record HistoryRecord =
  hrId :: u32
  hrEndedAtUnixSec :: u32
  hrEndedAtLocalSec :: u32
  hrDurationDs :: u16
  hrType :: u8
  hrFlags :: u8

definition zeroHistoryRecord :: HistoryRecord where
  "zeroHistoryRecord = \<lparr> hrId = 0, hrEndedAtUnixSec = 0, hrEndedAtLocalSec = 0,
     hrDurationDs = 0, hrType = 0, hrFlags = 0 \<rparr>"

type_synonym HistoryStore = "HistoryRecord dual_store"

definition historyTraits :: "HistoryRecord ring_traits" where
  "historyTraits = \<lparr> trCapacity = HISTORY_CAPACITY, trZero = zeroHistoryRecord,
     trIdOf = hrId, trSetId = (\<lambda>i r. r\<lparr>hrId := i\<rparr>) \<rparr>"

section \<open>The byte image\<close>

definition encodeHistoryRecord :: "HistoryRecord \<Rightarrow> bytes" where
  "encodeHistoryRecord r = le32 (hrId r) @ le32 (hrEndedAtUnixSec r) @ le32 (hrEndedAtLocalSec r)
     @ le16 (hrDurationDs r) @ [hrType r, hrFlags r]"

definition decodeHistoryRecord :: "bytes \<Rightarrow> HistoryRecord" where
  "decodeHistoryRecord bs = \<lparr> hrId = getLe32 bs 0, hrEndedAtUnixSec = getLe32 bs 4,
     hrEndedAtLocalSec = getLe32 bs 8, hrDurationDs = getLe16 bs 12,
     hrType = bs ! 14, hrFlags = bs ! 15 \<rparr>"

text \<open>The header words before the checksum, then the whole header.\<close>

definition encodeHeaderPrefix :: "'r dual_store \<Rightarrow> bytes" where
  "encodeHeaderPrefix s = le32 (stMagic s) @ le16 (stSchemaVersion s) @ le16 (stRecordSize s)
     @ le32 (stGeneration s) @ le32 (stNextRecordId s) @ le16 (stCount s) @ le16 (stWriteIndex s)"

definition encodeHistory :: "HistoryStore \<Rightarrow> bytes" where
  "encodeHistory s = encodeHeaderPrefix s @ le32 (stChecksum s)
     @ concat (map encodeHistoryRecord (stRecords s))"

definition decodeHistory :: "bytes \<Rightarrow> HistoryStore" where
  "decodeHistory bs = \<lparr> stMagic = getLe32 bs 0, stSchemaVersion = getLe16 bs 4,
     stRecordSize = getLe16 bs 6, stGeneration = getLe32 bs 8, stNextRecordId = getLe32 bs 12,
     stCount = getLe16 bs 16, stWriteIndex = getLe16 bs 18, stChecksum = getLe32 bs 20,
     stRecords = map (\<lambda>i. decodeHistoryRecord (take HISTORY_RECORD_BYTES
       (drop (HISTORY_RECORD_BYTES * i) (drop HISTORY_HEADER_BYTES bs)))) [0..<HISTORY_CAPACITY] \<rparr>"

section \<open>Checksum, validity, reset\<close>

definition historyChecksum :: "HistoryStore \<Rightarrow> u32" where
  "historyChecksum s =
     (let crc = crc32Update 0xFFFFFFFF (encodeHeaderPrefix s) in
      NOT (if stCount s > 0
           then crc32Update crc (concat (map encodeHistoryRecord
                  (take (unat (stCount s)) (stRecords s))))
           else crc))"

definition finalizeHistoryStore :: "HistoryStore \<Rightarrow> HistoryStore" where
  "finalizeHistoryStore s =
     (let s1 = s\<lparr>stMagic := HISTORY_MAGIC, stSchemaVersion := HISTORY_SCHEMA_VERSION,
                 stRecordSize := of_nat HISTORY_RECORD_BYTES, stChecksum := 0\<rparr>
      in s1\<lparr>stChecksum := historyChecksum s1\<rparr>)"

definition validHistoryStore :: "HistoryStore \<Rightarrow> bool" where
  "validHistoryStore s \<longleftrightarrow>
     \<not> (stMagic s \<noteq> HISTORY_MAGIC \<or>
        stSchemaVersion s \<noteq> HISTORY_SCHEMA_VERSION \<or>
        stRecordSize s \<noteq> of_nat HISTORY_RECORD_BYTES \<or>
        unat (stCount s) > HISTORY_CAPACITY \<or>
        unat (stWriteIndex s) \<ge> HISTORY_CAPACITY \<or>
        stChecksum s \<noteq> historyChecksum s)"

definition resetHistoryStore :: HistoryStore where
  "resetHistoryStore = finalizeHistoryStore
     \<lparr> stMagic = 0, stSchemaVersion = 0, stRecordSize = 0, stGeneration = 1, stNextRecordId = 1,
       stCount = 0, stWriteIndex = 0, stChecksum = 0,
       stRecords = replicate HISTORY_CAPACITY zeroHistoryRecord \<rparr>"

definition compactHistoryStore :: "HistoryStore \<Rightarrow> HistoryStore" where
  "compactHistoryStore s = compactStore historyTraits s"

section \<open>The log\<close>

definition historyHooks :: "nat \<Rightarrow> HistoryRecord log_hooks" where
  "historyHooks settingsBytes = \<lparr> hkEncode = encodeHistory, hkDecode = decodeHistory,
     hkHeaderGeneration = (\<lambda>bs. getLe32 bs 8), hkValid = validHistoryStore,
     hkFinalize = finalizeHistoryStore, hkReset = resetHistoryStore, hkTraits = historyTraits,
     hkSlotBytes = HISTORY_FLASH_SLOT_BYTES, hkHeaderBytes = HISTORY_HEADER_BYTES,
     hkTotalBytes = HISTORY_STORE_BYTES, hkSettingsBytes = settingsBytes \<rparr>"

type_synonym HistoryLog = "HistoryRecord flash_log"

definition clearHistory :: "nat \<Rightarrow> save_io \<Rightarrow> load_io \<Rightarrow> bool \<Rightarrow> flash \<Rightarrow> HistoryLog
    \<Rightarrow> bool \<times> flash \<times> HistoryLog" where
  "clearHistory settingsBytes sio lio persistNow m lg =
     persistMutation (historyHooks settingsBytes) sio lio persistNow m
       (lg\<lparr>lgStore := resetHistoryStore\<lparr>stGeneration := stGeneration (lgStore lg)\<rparr>\<rparr>)"

text \<open>\<open>dualSlotHeaderEpoch\<close>: one CRC over the three words every mutation moves.\<close>

definition dualSlotHeaderEpoch :: "'r dual_store \<Rightarrow> u32" where
  "dualSlotHeaderEpoch s = crc32Update (crc32Update (crc32Update 0xFFFFFFFF
     (le32 (stGeneration s))) (le32 (stNextRecordId s))) (le16 (stCount s))"

section \<open>Pages\<close>

datatype ShotLogSortDir = Desc | Asc

record HistoryPage =
  pgTotal :: nat
  pgStart :: nat
  pgHasMore :: bool
  pgRecords :: "HistoryRecord list"

definition historyClampPageLimit :: "nat \<Rightarrow> nat" where
  "historyClampPageLimit limit =
     (if limit < 1 then 1 else if HISTORY_PAGE_MAX < limit then HISTORY_PAGE_MAX else limit)"

definition pageSkips :: "u8 \<Rightarrow> HistoryRecord \<Rightarrow> bool" where
  "pageSkips types r \<longleftrightarrow> types \<noteq> 0 \<and>
     (hrType r > 7 \<or> drop_bit (unat (hrType r)) types AND 1 = 0)"

text \<open>The loop of \<open>copyPage\<close>: the matches so far and the records taken so far.\<close>

fun copyPageFrom :: "HistoryStore \<Rightarrow> nat \<Rightarrow> nat \<Rightarrow> ShotLogSortDir \<Rightarrow> u8 \<Rightarrow> nat \<Rightarrow> nat
    \<Rightarrow> nat \<times> HistoryRecord list \<Rightarrow> nat \<times> HistoryRecord list" where
  "copyPageFrom s offset limit dir types step 0 acc = acc"
| "copyPageFrom s offset limit dir types step (Suc n) (seen, recs) =
     (let count = unat (stCount s);
          oldest = (unat (stWriteIndex s) + HISTORY_CAPACITY - count) mod HISTORY_CAPACITY;
          r = stRecords s !
            ((oldest + (if dir = Desc then count - 1 - step else step)) mod HISTORY_CAPACITY)
      in copyPageFrom s offset limit dir types (Suc step) n
           (if pageSkips types r then (seen, recs)
            else (seen + 1,
                  if seen \<ge> offset \<and> length recs < limit then recs @ [r] else recs)))"

definition copyPage :: "HistoryStore \<Rightarrow> nat \<Rightarrow> nat \<Rightarrow> ShotLogSortDir \<Rightarrow> u8 \<Rightarrow> HistoryPage" where
  "copyPage s offset limit dir types =
     (case copyPageFrom s offset (historyClampPageLimit limit) dir types 0 (unat (stCount s)) (0, []) of
        (seen, recs) \<Rightarrow>
          let start = (if offset < seen then offset else seen) in
          \<lparr> pgTotal = seen, pgStart = start, pgHasMore = start + length recs < seen,
            pgRecords = recs \<rparr>)"

section \<open>Round trip of the byte image\<close>

lemmas codec_simps = getLe16_def getLe32_def le16_def le32_def join16 join32

lemma length_encodeRecord [simp]: "length (encodeHistoryRecord r) = HISTORY_RECORD_BYTES"
  by (simp add: encodeHistoryRecord_def HISTORY_RECORD_BYTES_def)

lemma length_prefix [simp]: "length (encodeHeaderPrefix s) = 20"
  by (simp add: encodeHeaderPrefix_def)

lemma decode_encode_record: "decodeHistoryRecord (encodeHistoryRecord r) = r"
  by (simp add: decodeHistoryRecord_def encodeHistoryRecord_def codec_simps)

lemma length_encodeHistory:
  "length (stRecords s) = HISTORY_CAPACITY \<Longrightarrow> length (encodeHistory s) = HISTORY_STORE_BYTES"
  using length_blocks [of "stRecords s" encodeHistoryRecord HISTORY_RECORD_BYTES]
  by (simp add: encodeHistory_def HISTORY_STORE_BYTES_def HISTORY_CAPACITY_def HISTORY_RECORD_BYTES_def
      del: length_concat)

lemma decode_encode_history:
  assumes "length (stRecords s) = HISTORY_CAPACITY"
  shows "decodeHistory (encodeHistory s) = s"
proof -
  let ?body = "concat (map encodeHistoryRecord (stRecords s))"
  have recs: "map (\<lambda>i. decodeHistoryRecord (take HISTORY_RECORD_BYTES
      (drop (HISTORY_RECORD_BYTES * i) ?body))) [0..<HISTORY_CAPACITY] = stRecords s"
  proof (rule nth_equalityI)
    fix i
    assume "i < length (map (\<lambda>i. decodeHistoryRecord (take HISTORY_RECORD_BYTES
      (drop (HISTORY_RECORD_BYTES * i) ?body))) [0..<HISTORY_CAPACITY])"
    then have i: "i < length (stRecords s)" "i < HISTORY_CAPACITY" using assms by simp_all
    then show "map (\<lambda>i. decodeHistoryRecord (take HISTORY_RECORD_BYTES
      (drop (HISTORY_RECORD_BYTES * i) ?body))) [0..<HISTORY_CAPACITY] ! i = stRecords s ! i"
      by (simp add: nth_block decode_encode_record)
  qed (simp add: assms)
  have d: "drop HISTORY_HEADER_BYTES (encodeHistory s) = ?body"
    by (simp add: encodeHistory_def HISTORY_HEADER_BYTES_def)
  have h: "getLe32 (encodeHistory s) 0 = stMagic s" "getLe16 (encodeHistory s) 4 = stSchemaVersion s"
    "getLe16 (encodeHistory s) 6 = stRecordSize s" "getLe32 (encodeHistory s) 8 = stGeneration s"
    "getLe32 (encodeHistory s) 12 = stNextRecordId s" "getLe16 (encodeHistory s) 16 = stCount s"
    "getLe16 (encodeHistory s) 18 = stWriteIndex s" "getLe32 (encodeHistory s) 20 = stChecksum s"
    by (simp_all add: encodeHistory_def encodeHeaderPrefix_def codec_simps)
  show ?thesis unfolding decodeHistory_def d recs h by simp
qed

section \<open>The history is a dual-slot log\<close>

definition historyOk :: "HistoryStore \<Rightarrow> bool" where
  "historyOk s \<longleftrightarrow> ring_wf historyTraits s"

lemma historyOk_bounds:
  assumes "historyOk s"
  shows "length (stRecords s) = HISTORY_CAPACITY" and "unat (stCount s) \<le> HISTORY_CAPACITY"
    and "unat (stWriteIndex s) < HISTORY_CAPACITY"
  using assms by (simp_all add: historyOk_def ring_wf_def historyTraits_def)

lemma historyChecksum_seal [simp]: "historyChecksum (s\<lparr>stChecksum := c\<rparr>) = historyChecksum s"
  by (simp add: historyChecksum_def encodeHeaderPrefix_def Let_def)

lemma finalize_keeps [simp]:
  "stGeneration (finalizeHistoryStore s) = stGeneration s"
  "stCount (finalizeHistoryStore s) = stCount s"
  "stWriteIndex (finalizeHistoryStore s) = stWriteIndex s"
  "stRecords (finalizeHistoryStore s) = stRecords s"
  "stNextRecordId (finalizeHistoryStore s) = stNextRecordId s"
  by (simp_all add: finalizeHistoryStore_def Let_def)

lemma finalize_valid:
  assumes "historyOk s"
  shows "validHistoryStore (finalizeHistoryStore s)"
proof -
  have "stMagic (finalizeHistoryStore s) = HISTORY_MAGIC"
    "stSchemaVersion (finalizeHistoryStore s) = HISTORY_SCHEMA_VERSION"
    "stRecordSize (finalizeHistoryStore s) = of_nat HISTORY_RECORD_BYTES"
    "stChecksum (finalizeHistoryStore s) = historyChecksum (finalizeHistoryStore s)"
    by (simp_all add: finalizeHistoryStore_def Let_def)
  then show ?thesis using historyOk_bounds [OF assms] by (simp add: validHistoryStore_def)
qed

lemma blank_header_invalid:
  assumes "\<forall>i < HISTORY_HEADER_BYTES. bs ! i = 0xFF"
  shows "\<not> validHistoryStore (decodeHistory bs)"
proof -
  have "bs ! 0 = 0xFF" "bs ! 1 = 0xFF" "bs ! Suc (Suc 0) = 0xFF" "bs ! 3 = 0xFF"
    using assms by (simp_all add: HISTORY_HEADER_BYTES_def)
  then have "stMagic (decodeHistory bs) \<noteq> HISTORY_MAGIC"
    by (simp add: decodeHistory_def getLe32_def HISTORY_MAGIC_def)
  then show ?thesis by (simp add: validHistoryStore_def)
qed

lemma historyHooks_sel [simp]:
  "hkEncode (historyHooks sb) = encodeHistory" "hkDecode (historyHooks sb) = decodeHistory"
  "hkValid (historyHooks sb) = validHistoryStore" "hkFinalize (historyHooks sb) = finalizeHistoryStore"
  "hkReset (historyHooks sb) = resetHistoryStore" "hkTraits (historyHooks sb) = historyTraits"
  "hkSlotBytes (historyHooks sb) = HISTORY_FLASH_SLOT_BYTES"
  "hkHeaderBytes (historyHooks sb) = HISTORY_HEADER_BYTES"
  "hkTotalBytes (historyHooks sb) = HISTORY_STORE_BYTES" "hkSettingsBytes (historyHooks sb) = sb"
  "hkHeaderGeneration (historyHooks sb) bs = getLe32 bs 8"
  by (simp_all add: historyHooks_def)

lemmas history_geometry = HISTORY_FLASH_SLOT_BYTES_def HISTORY_HEADER_BYTES_def
  HISTORY_STORE_BYTES_def FLASH_IO_SECTOR_BYTES_def FLASH_IO_CHUNK_BYTES_def

interpretation hist: dual_slot_hooks "historyHooks sb" historyOk for sb :: nat
proof unfold_locales
  fix s :: HistoryStore and bs :: bytes and g :: u32
  show "ring_wf (hkTraits (historyHooks sb)) s" if "historyOk s" using that by (simp add: historyOk_def)
  show "length (hkEncode (historyHooks sb) s) = hkTotalBytes (historyHooks sb)" if "historyOk s"
    using historyOk_bounds [OF that] by (simp add: length_encodeHistory)
  show "hkDecode (historyHooks sb) (hkEncode (historyHooks sb) s) = s" if "historyOk s"
    using historyOk_bounds [OF that] by (simp add: decode_encode_history)
  show "hkHeaderGeneration (historyHooks sb) (take (hkHeaderBytes (historyHooks sb)) bs) =
      stGeneration (hkDecode (historyHooks sb) bs)"
    by (simp add: getLe_take HISTORY_HEADER_BYTES_def decodeHistory_def)
  show "\<not> hkValid (historyHooks sb) (hkDecode (historyHooks sb) bs)"
    if "\<forall>i < hkHeaderBytes (historyHooks sb). bs ! i = 0xFF"
    using that by (simp add: blank_header_invalid)
  show "historyOk (compactStore (hkTraits (historyHooks sb)) s)" if "historyOk s"
    using that compactStore_wf(1) by (simp add: historyOk_def)
  show "historyOk (s\<lparr>stGeneration := g\<rparr>)" if "historyOk s"
    using that by (simp add: historyOk_def ring_wf_def)
  show "historyOk (hkFinalize (historyHooks sb) s)" if "historyOk s"
    using that by (simp add: historyOk_def ring_wf_def)
  show "hkValid (historyHooks sb) (hkFinalize (historyHooks sb) s)" if "historyOk s"
    using that by (simp add: finalize_valid)
  show "stGeneration (hkFinalize (historyHooks sb) s) = stGeneration s" by simp
  show "ringList (hkTraits (historyHooks sb)) (hkFinalize (historyHooks sb) s) =
      ringList (hkTraits (historyHooks sb)) s"
    by (simp add: ringList_def)
qed (simp_all add: history_geometry)

section \<open>Pages of the ring\<close>

definition historyWalk :: "HistoryStore \<Rightarrow> ShotLogSortDir \<Rightarrow> HistoryRecord list" where
  "historyWalk s dir = (if dir = Desc then rev (ringList historyTraits s) else ringList historyTraits s)"

lemma length_walk [simp]: "length (historyWalk s dir) = unat (stCount s)"
  by (simp add: historyWalk_def)

lemma walk_nth:
  assumes "historyOk s" and "step < unat (stCount s)"
  shows "stRecords s ! (((unat (stWriteIndex s) + HISTORY_CAPACITY - unat (stCount s)) mod HISTORY_CAPACITY
      + (if dir = Desc then unat (stCount s) - 1 - step else step)) mod HISTORY_CAPACITY)
    = historyWalk s dir ! step"
proof -
  have cap: "trCapacity historyTraits = HISTORY_CAPACITY" by (simp add: historyTraits_def)
  have j: "stRecords s ! (((unat (stWriteIndex s) + HISTORY_CAPACITY - unat (stCount s)) mod
      HISTORY_CAPACITY + j) mod HISTORY_CAPACITY) = ringList historyTraits s ! j"
    if "j < unat (stCount s)" for j
    using that by (simp add: ringList_def cap mod_add_left_eq)
  show ?thesis
  proof (cases dir)
    case Desc
    have "historyWalk s dir ! step = ringList historyTraits s ! (unat (stCount s) - 1 - step)"
      using assms(2) by (simp add: historyWalk_def Desc rev_nth)
    then show ?thesis using j [of "unat (stCount s) - 1 - step"] assms(2)
      by (simp only: Desc refl if_True)
  next
    case Asc
    then show ?thesis using j [OF assms(2)] by (simp add: historyWalk_def)
  qed
qed

lemma take_drop_snoc:
  "take l (drop k (xs @ [x])) =
     (if k \<le> length xs \<and> length (take l (drop k xs)) < l then take l (drop k xs) @ [x]
      else take l (drop k xs))"
  by (auto simp: take_Cons' min_def not_le)

lemma copyPageFrom_walk:
  assumes "historyOk s" and "step + n \<le> unat (stCount s)"
  shows "copyPageFrom s offset limit dir types step n (length done, take limit (drop offset done)) =
    (let ms = done @ filter (\<lambda>r. \<not> pageSkips types r) (take n (drop step (historyWalk s dir)))
     in (length ms, take limit (drop offset ms)))"
  using assms(2)
proof (induction n arbitrary: step "done")
  case (Suc n)
  let ?r = "historyWalk s dir ! step"
  have lt: "step < unat (stCount s)" using Suc.prems by simp
  have d: "drop step (historyWalk s dir) = ?r # drop (Suc step) (historyWalk s dir)"
    using lt by (simp add: Cons_nth_drop_Suc)
  show ?case
  proof (cases "pageSkips types ?r")
    case True
    then show ?thesis
      using Suc.IH [of "Suc step" "done"] Suc.prems walk_nth [OF assms(1) lt, of dir]
      by (simp add: d Let_def)
  next
    case False
    define more where "more = done @ [?r]"
    have "copyPageFrom s offset limit dir types step (Suc n) (length done, take limit (drop offset done)) =
        copyPageFrom s offset limit dir types (Suc step) n (length done + 1,
          if offset \<le> length done \<and> length (take limit (drop offset done)) < limit
          then take limit (drop offset done) @ [?r] else take limit (drop offset done))"
      by (simp only: copyPageFrom.simps Let_def walk_nth [OF assms(1) lt] False if_False)
    also have "\<dots> = copyPageFrom s offset limit dir types (Suc step) n
        (length more, take limit (drop offset more))"
      by (simp only: more_def take_drop_snoc length_append_singleton Suc_eq_plus1)
    also have "\<dots> = (let ms = more @ filter (\<lambda>r. \<not> pageSkips types r)
        (take n (drop (Suc step) (historyWalk s dir))) in (length ms, take limit (drop offset ms)))"
      using Suc.prems by (intro Suc.IH) simp
    also have "more @ filter (\<lambda>r. \<not> pageSkips types r) (take n (drop (Suc step) (historyWalk s dir)))
        = done @ filter (\<lambda>r. \<not> pageSkips types r) (take (Suc n) (drop step (historyWalk s dir)))"
      using False by (simp add: d more_def)
    finally show ?thesis .
  qed
qed simp

section \<open>Facts the properties rest on\<close>

lemma historyTraits_sel [simp]:
  "trCapacity historyTraits = HISTORY_CAPACITY" "trZero historyTraits = zeroHistoryRecord"
  "trIdOf historyTraits = hrId" "trSetId historyTraits = (\<lambda>i r. r\<lparr>hrId := i\<rparr>)"
  by (simp_all add: historyTraits_def)

lemma finalize_ok: "historyOk (finalizeHistoryStore s) = historyOk s"
  by (simp add: historyOk_def ring_wf_def)

lemma reset_ok: "historyOk resetHistoryStore"
  unfolding resetHistoryStore_def finalize_ok
  by (simp add: historyOk_def ring_wf_def HISTORY_CAPACITY_def)

lemma reset_sel [simp]: "ringList historyTraits resetHistoryStore = []"
  "stGeneration resetHistoryStore = 1" "stNextRecordId resetHistoryStore = 1"
  by (simp_all add: ringList_def resetHistoryStore_def)

lemma next_is_newer:
  fixes g :: u32
  assumes "g < - 1"
  shows "secondRevisionIsNewer g (nextGeneration g)" and "\<not> secondRevisionIsNewer (nextGeneration g) g"
  using assms by (auto simp: secondRevisionIsNewer_def nextGeneration_def)

text \<open>What a loaded log knows about the flash it came from.\<close>

lemma loaded_generation:
  assumes "load (historyHooks sb) (quietLoad (historyHooks sb)) m z = (True, lg0)"
  shows "lgActive lg0 = snd (loadOutcome (historyHooks sb) m)"
    and "stGeneration (lgStore lg0) = stGeneration (slotStore (historyHooks sb) (lgActive lg0) m) \<or>
      \<not> slotValid (historyHooks sb) (lgActive lg0) m"
proof -
  have e: "lg0 = z\<lparr>lgStore := fst (loadOutcome (historyHooks sb) m),
      lgActive := snd (loadOutcome (historyHooks sb) m), lgDirty := False\<rparr>"
    using assms by (simp add: hist.load_quiet)
  show "lgActive lg0 = snd (loadOutcome (historyHooks sb) m)" by (simp add: e)
  show "stGeneration (lgStore lg0) = stGeneration (slotStore (historyHooks sb) (lgActive lg0) m) \<or>
      \<not> slotValid (historyHooks sb) (lgActive lg0) m"
    by (auto simp: e loadOutcome_def loadWinner_def Let_def split: if_splits)
qed

definition blankFlash :: flash where
  "blankFlash = (\<lambda>_. 0xFF)"

definition emptyHistoryLog :: HistoryLog where
  "emptyHistoryLog = \<lparr> lgStore = resetHistoryStore, lgProgress = idleTx, lgActive = 0, lgDirty = True \<rparr>"

lemma blank_load:
  "load (historyHooks sb) (quietLoad (historyHooks sb)) blankFlash z =
     (True, z\<lparr>lgStore := resetHistoryStore, lgActive := 0, lgDirty := False\<rparr>)"
proof -
  have "\<not> slotValid (historyHooks sb) slot blankFlash" for slot
    by (rule hist.blank_slot) (simp add: blankFlash_def)
  then show ?thesis by (simp add: hist.load_quiet loadOutcome_def loadWinner_def Let_def)
qed

lemma emptyLog_ok: "historyOk (lgStore emptyHistoryLog)" "phase (lgProgress emptyHistoryLog) = IDLE"
  "lgDirty emptyHistoryLog" "lgActive emptyHistoryLog = 0"
  "stGeneration (lgStore emptyHistoryLog) = 1"
  by (simp_all add: emptyHistoryLog_def idleTx_def reset_ok)

lemma historyFlushSteps: "flushSteps (historyHooks sb) = 21"
  by (simp add: flushSteps_def bodySteps_def history_geometry)

section \<open>Properties of the persistence\<close>

text \<open>
  Property C9. Whatever point a staged save of the history is interrupted at, by a driver
  failure, a refused lock or a reset between two steps, the next load finds exactly what it
  would have found before the save began, the one exception being a driver call that dies
  inside the header of the target slot.
\<close>

theorem history_save_interrupted:
  assumes "load (historyHooks sb) (quietLoad (historyHooks sb)) m z0 = (True, lg0)"
    and "historyOk (lgStore lg)" and "phase (lgProgress lg) = IDLE" and "lgActive lg = lgActive lg0"
    and "flushRun (historyHooks sb) ios m lg = (r, m', lg')" and "r \<noteq> COMPLETE"
    and "\<not> flushTorn (historyHooks sb) ios m lg"
  shows "load (historyHooks sb) (quietLoad (historyHooks sb)) m' z =
    load (historyHooks sb) (quietLoad (historyHooks sb)) m z"
  by (rule hist.flush_interrupted [OF assms(2,3) _ assms(5-7)])
    (simp add: assms(4) loaded_generation(1) [OF assms(1)])

lemma one_erase_step:
  "flushRun (historyHooks 512) [(True, FlashOk)] blankFlash emptyHistoryLog =
     (MORE, snd (flushRun (historyHooks 512) [(True, FlashOk)] blankFlash emptyHistoryLog))"
  "\<not> flushTorn (historyHooks 512) [(True, FlashOk)] blankFlash emptyHistoryLog"
  by (simp_all add: flushStep_def flushTorn_def flushBegin_def emptyHistoryLog_def idleTx_def Let_def
      beginFlashStoreTransaction_def flashIoStoreStep_def eraseStep_def eraseRange_def
      history_geometry)

theorem history_save_interrupted_witness:
  "\<exists>m' lg'. flushRun (historyHooks 512) [(True, FlashOk)] blankFlash emptyHistoryLog = (MORE, m', lg') \<and>
     load (historyHooks 512) (quietLoad (historyHooks 512)) m' emptyHistoryLog =
     load (historyHooks 512) (quietLoad (historyHooks 512)) blankFlash emptyHistoryLog"
proof -
  obtain m' lg' where run: "flushRun (historyHooks 512) [(True, FlashOk)] blankFlash emptyHistoryLog =
      (MORE, m', lg')"
    using one_erase_step(1) by (metis prod.collapse)
  have "load (historyHooks 512) (quietLoad (historyHooks 512)) m' emptyHistoryLog =
      load (historyHooks 512) (quietLoad (historyHooks 512)) blankFlash emptyHistoryLog"
    by (rule history_save_interrupted [OF blank_load emptyLog_ok(1,2) _ run _ one_erase_step(2)])
      (simp_all add: emptyLog_ok)
  then show ?thesis using run by blast
qed

text \<open>
  Property C32. A staged save that no driver call fails completes within 21 steps, leaves
  the log clean, and the next load returns the saved records in order, however the ring
  was rotated in memory (as long as the generation counter is not saturated).
\<close>

theorem history_save_completes:
  assumes "load (historyHooks sb) (quietLoad (historyHooks sb)) m z0 = (True, lg0)"
    and "historyOk (lgStore lg)" and "phase (lgProgress lg) = IDLE" and "lgDirty lg"
    and "lgActive lg = lgActive lg0" and "stGeneration (lgStore lg) = stGeneration (lgStore lg0)"
    and "stGeneration (lgStore lg) < - 1" and "21 \<le> n"
  shows "\<exists>m' lg'. flushRun (historyHooks sb) (replicate n (True, FlashOk)) m lg = (COMPLETE, m', lg') \<and>
    \<not> lgDirty lg' \<and>
    (\<exists>s. load (historyHooks sb) (quietLoad (historyHooks sb)) m' z =
        (True, z\<lparr>lgStore := s, lgActive := lgActive lg', lgDirty := False\<rparr>) \<and>
      validHistoryStore s \<and> ringList historyTraits s = ringList historyTraits (lgStore lg))"
proof -
  obtain m' lg' where run: "flushRun (historyHooks sb) (replicate n (True, FlashOk)) m lg = (COMPLETE, m', lg')"
    using hist.flush_terminates [OF assms(2-4), of sb n m] assms(8) historyFlushSteps by auto
  have act: "lgActive lg = snd (loadOutcome (historyHooks sb) m)"
    using loaded_generation(1) [OF assms(1)] assms(5) by simp
  have newer: "secondRevisionIsNewer (stGeneration (slotStore (historyHooks sb) (lgActive lg) m))
      (nextGeneration (stGeneration (lgStore lg)))
      \<and> \<not> secondRevisionIsNewer (nextGeneration (stGeneration (lgStore lg)))
      (stGeneration (slotStore (historyHooks sb) (lgActive lg) m))
      \<or> \<not> slotValid (historyHooks sb) (lgActive lg) m"
    using loaded_generation(2) [OF assms(1)] next_is_newer [OF assms(7)] assms(5,6) by auto
  note fin = hist.flush_complete_load [OF assms(2,3) act newer run assms(4)]
  note p = hist.prepare_ok [OF assms(2), of sb]
  show ?thesis using run fin p by fastforce
qed

theorem history_save_completes_witness:
  "\<exists>m' lg'. flushRun (historyHooks 512) (replicate 21 (True, FlashOk)) blankFlash emptyHistoryLog =
      (COMPLETE, m', lg') \<and> \<not> lgDirty lg'"
proof -
  have g: "stGeneration (lgStore emptyHistoryLog) = stGeneration (lgStore
      (emptyHistoryLog\<lparr>lgStore := resetHistoryStore, lgActive := 0, lgDirty := False\<rparr>))"
    by (simp add: emptyLog_ok)
  have lt: "stGeneration (lgStore emptyHistoryLog) < - 1"
    by (simp add: emptyLog_ok u32_less_unat unat_u32_max)
  from history_save_completes [OF blank_load emptyLog_ok(1-3) _ g lt order_refl]
  show ?thesis using emptyLog_ok(4) by fastforce
qed

section \<open>Properties of the records\<close>

text \<open>
  Decoding the byte image of a store gives the store back, every field and
  every one of the 1000 records, and a store that has just been sealed passes validation.
\<close>

lemma history_roundtrip:
  assumes "historyOk s"
  shows "decodeHistory (encodeHistory s) = s \<and>
    length (encodeHistory s) = HISTORY_STORE_BYTES \<and>
    validHistoryStore (decodeHistory (encodeHistory (finalizeHistoryStore s)))"
proof -
  note b = historyOk_bounds [OF assms]
  have "decodeHistory (encodeHistory (finalizeHistoryStore s)) = finalizeHistoryStore s"
    using b by (intro decode_encode_history) simp
  then show ?thesis
    using decode_encode_history [OF b(1)] length_encodeHistory [OF b(1)]
    by (simp add: finalize_valid [OF assms])
qed

lemma history_roundtrip_witness:
  "decodeHistory (encodeHistory resetHistoryStore) = resetHistoryStore \<and>
   validHistoryStore (decodeHistory (encodeHistory (finalizeHistoryStore resetHistoryStore)))"
  using history_roundtrip [OF reset_ok] by simp

text \<open>The ids a sequence of appends hands out.\<close>

lemma storedAll_ids:
  assumes "historyOk s" and "unat (stNextRecordId s) + length rs < 2 ^ 32"
  shows "store_ring.storedAll historyTraits s rs =
    map2 (\<lambda>i r. r\<lparr>hrId := of_nat i\<rparr>) [unat (stNextRecordId s)..<unat (stNextRecordId s) + length rs] rs"
  using assms
proof (induction rs arbitrary: s)
  case (Cons r rs)
  let ?s = "appendRecord historyTraits r s"
  have "unat (stNextRecordId s) < 2 ^ 32 - 1" using Cons.prems(2) by simp
  then have lt: "stNextRecordId s < - 1" by (simp add: u32_less_unat unat_u32_max)
  then have n: "unat (stNextRecordId ?s) = Suc (unat (stNextRecordId s))"
    by (simp add: appendRecord_def u32_inc)
  have ok: "historyOk ?s" using Cons.prems(1) by (simp add: historyOk_def append_wf)
  have ids: "[unat (stNextRecordId s)..<unat (stNextRecordId s) + length (r # rs)] =
      unat (stNextRecordId s) # [Suc (unat (stNextRecordId s))..<Suc (unat (stNextRecordId s)) + length rs]"
    by (metis add_Suc add_Suc_right length_Cons less_add_Suc1 upt_conv_Cons)
  have step: "store_ring.storedAll historyTraits s (r # rs) =
      r\<lparr>hrId := stNextRecordId s\<rparr> # store_ring.storedAll historyTraits ?s rs"
    using store_ring.storedAll.simps(2) [of historyTraits s r rs] by simp
  have IH: "store_ring.storedAll historyTraits ?s rs =
      map2 (\<lambda>i r. r\<lparr>hrId := of_nat i\<rparr>)
        [Suc (unat (stNextRecordId s))..<Suc (unat (stNextRecordId s)) + length rs] rs"
    using Cons.IH [OF ok] Cons.prems(2) n by simp
  show ?case unfolding ids step IH by simp
next
  case Nil
  show ?case using store_ring.storedAll.simps(1) [of historyTraits s] by simp
qed

text \<open>
  Property C40. Appending any sequence of records to an empty history leaves exactly the
  last 1000 of them, oldest first, numbered consecutively from 1.
\<close>

theorem history_keeps_last_1000:
  assumes "length rs < 2 ^ 32 - 1"
  shows "ringList historyTraits (fold (appendRecord historyTraits) rs resetHistoryStore) =
    drop (length rs - HISTORY_CAPACITY) (map2 (\<lambda>i r. r\<lparr>hrId := of_nat i\<rparr>) [1..<1 + length rs] rs)"
proof -
  have "ring_wf historyTraits resetHistoryStore" using reset_ok by (simp add: historyOk_def)
  from store_ring.pushes [OF this, of rs]
  have "ringList historyTraits (fold (appendRecord historyTraits) rs resetHistoryStore) =
      drop (length rs - HISTORY_CAPACITY) (store_ring.storedAll historyTraits resetHistoryStore rs)"
    by simp
  then show ?thesis using storedAll_ids [OF reset_ok, of rs] assms by simp
qed

theorem history_keeps_last_1000_witness:
  "ringList historyTraits (fold (appendRecord historyTraits) [zeroHistoryRecord] resetHistoryStore) =
     [zeroHistoryRecord\<lparr>hrId := 1\<rparr>]"
  using history_keeps_last_1000 [of "[zeroHistoryRecord]"] by (simp add: HISTORY_CAPACITY_def)

definition removeFirst :: "('r \<Rightarrow> bool) \<Rightarrow> 'r list \<Rightarrow> 'r list" where
  "removeFirst p xs = takeWhile (\<lambda>x. \<not> p x) xs @ tl (dropWhile (\<lambda>x. \<not> p x) xs)"

lemma removeFirst_at:
  assumes "i < length xs" and "p (xs ! i)" and "\<And>j. j < i \<Longrightarrow> \<not> p (xs ! j)"
  shows "removeFirst p xs = take i xs @ drop (Suc i) xs"
proof -
  have "takeWhile (\<lambda>x. \<not> p x) xs = take i xs"
    using assms by (intro takeWhile_eq_take_P_nth) auto
  moreover have "dropWhile (\<lambda>x. \<not> p x) xs = drop i xs"
    using calculation by (metis append_eq_conv_conj append_take_drop_id assms(1) dropWhile_eq_drop
        length_take less_imp_le min.absorb2)
  ultimately show ?thesis by (simp add: removeFirst_def tl_drop drop_Suc)
qed

lemma removeFirst_none: "(\<And>x. x \<in> set xs \<Longrightarrow> \<not> p x) \<Longrightarrow> removeFirst p xs = xs"
  by (simp add: removeFirst_def takeWhile_eq_all_conv [THEN iffD2] dropWhile_eq_Nil_conv [THEN iffD2])

text \<open>
  A deferred removal answers whether a record has the wanted id, deletes the
  oldest such record and no other, touches no flash, and marks the log for a later save.
\<close>

lemma history_remove:
  assumes "historyOk (lgStore lg)"
    and "removeById (historyHooks sb) locked sio lio wanted False m lg = (found, m', lg')"
  shows "(found \<longleftrightarrow> wanted \<noteq> 0 \<and> wanted \<in> hrId ` set (ringList historyTraits (lgStore lg))) \<and>
    ringList historyTraits (lgStore lg') =
      (if wanted = 0 then ringList historyTraits (lgStore lg)
       else removeFirst (\<lambda>r. hrId r = wanted) (ringList historyTraits (lgStore lg))) \<and>
    m' = m \<and> lgDirty lg' = (found \<or> lgDirty lg) \<and> historyOk (lgStore lg')"
proof -
  let ?s = "lgStore lg" and ?c = "compactStore historyTraits (lgStore lg)"
  let ?xs = "ringList historyTraits ?s" and ?p = "\<lambda>r. hrId r = wanted"
  have wf: "ring_wf historyTraits ?s" using assms(1) by (simp add: historyOk_def)
  note c = compactStore_wf [OF wf]
  have len: "length ?xs = unat (stCount ?s)" by simp
  have recs: "stRecords ?c ! j = ?xs ! j" if "j < unat (stCount ?s)" for j
    using c(3) that by (metis nth_take)
  show ?thesis
  proof (cases "wanted = 0 \<or> stCount ?s = 0")
    case True
    then have "(found, m', lg') = (False, m, lg)" using assms(2) by (simp add: removeById_def)
    moreover have "wanted \<noteq> 0 \<Longrightarrow> ?xs = []" using True len by (metis length_0_conv unat_0)
    ultimately show ?thesis using assms(1) by (auto simp: removeFirst_def)
  next
    case False
    show ?thesis
    proof (cases "findIndexFrom historyTraits (stRecords ?c) wanted 0 (unat (stCount ?c))")
      case None
      then have none: "hrId (?xs ! j) \<noteq> wanted" if "j < length ?xs" for j
        using findIndexFrom_spec(2) [of historyTraits "stRecords ?c" wanted 0 "unat (stCount ?c)"]
          recs that c(5) by auto
      then have "\<not> ?p r" if "r \<in> set ?xs" for r using that by (metis in_set_conv_nth)
      moreover have "(found, m', lg') = (False, m, lg\<lparr>lgStore := ?c\<rparr>)"
        using assms(2) False None by (simp add: removeById_def Let_def)
      ultimately show ?thesis using False c(1,2) by (auto simp: historyOk_def removeFirst_none)
    next
      case (Some i)
      from findIndexFrom_spec(1) [OF Some]
      have i: "i < unat (stCount ?s)" "hrId (?xs ! i) = wanted" "\<And>j. j < i \<Longrightarrow> hrId (?xs ! j) \<noteq> wanted"
        using recs c(5) by auto
      have "(found, m', lg') = (True, m, lg\<lparr>lgStore := removeCompacted historyTraits i ?c, lgDirty := True\<rparr>)"
        using assms(2) False Some by (simp add: removeById_def Let_def)
      moreover have "removeFirst ?p ?xs = take i ?xs @ drop (Suc i) ?xs"
        using i by (intro removeFirst_at) simp_all
      moreover have "ring_wf historyTraits (removeCompacted historyTraits i ?c)"
        "ringList historyTraits (removeCompacted historyTraits i ?c) = take i ?xs @ drop (Suc i) ?xs"
        using removeCompacted_ring [OF c(1), of i ?xs] i(1) c(3,5) by simp_all
      moreover have "wanted \<in> hrId ` set ?xs" using i(1,2) by (metis image_eqI len nth_mem)
      ultimately show ?thesis using False by (simp add: historyOk_def)
    qed
  qed
qed

lemma history_remove_witness:
  "\<forall>sio lio. \<exists>lg'. removeById (historyHooks 512) True sio lio 1 False blankFlash
      (emptyHistoryLog\<lparr>lgStore := appendRecord historyTraits zeroHistoryRecord resetHistoryStore\<rparr>) =
        (True, blankFlash, lg') \<and> ringList historyTraits (lgStore lg') = []"
proof (intro allI)
  fix sio lio
  let ?s = "appendRecord historyTraits zeroHistoryRecord resetHistoryStore"
  let ?lg = "emptyHistoryLog\<lparr>lgStore := ?s\<rparr>"
  have wf: "ring_wf historyTraits resetHistoryStore" using reset_ok by (simp add: historyOk_def)
  then have ok: "historyOk (lgStore ?lg)" by (simp add: historyOk_def append_wf)
  have xs: "ringList historyTraits (lgStore ?lg) = [zeroHistoryRecord\<lparr>hrId := 1\<rparr>]"
    using append_ringList [OF wf, of zeroHistoryRecord] by (simp add: HISTORY_CAPACITY_def)
  obtain found m' lg' where r: "removeById (historyHooks 512) True sio lio 1 False blankFlash ?lg =
      (found, m', lg')"
    by (metis prod_cases3)
  note h = history_remove [OF ok r]
  have "found" using h xs by simp
  moreover have "ringList historyTraits (lgStore lg') = []" using h xs by (simp add: removeFirst_def)
  ultimately show "\<exists>lg'. removeById (historyHooks 512) True sio lio 1 False blankFlash ?lg =
      (True, blankFlash, lg') \<and> ringList historyTraits (lgStore lg') = []"
    using r h by simp
qed

text \<open>
  A page of the history is the requested window of the matching records in
  the requested order, with the total number of matches, and says whether more follow.
\<close>

lemma history_page:
  fixes s :: HistoryStore and offset limit :: nat and dir :: ShotLogSortDir and types :: u8
  assumes "historyOk s"
  defines "matches \<equiv> filter (\<lambda>r. \<not> pageSkips types r)
    (if dir = Desc then rev (ringList historyTraits s) else ringList historyTraits s)"
  shows "copyPage s offset limit dir types =
    \<lparr> pgTotal = length matches, pgStart = min offset (length matches),
      pgHasMore = offset + historyClampPageLimit limit < length matches,
      pgRecords = take (historyClampPageLimit limit) (drop offset matches) \<rparr>"
proof -
  have pos: "0 < historyClampPageLimit limit"
    by (simp add: historyClampPageLimit_def HISTORY_PAGE_MAX_def)
  have "copyPageFrom s offset (historyClampPageLimit limit) dir types 0 (unat (stCount s)) (0, []) =
      (length matches, take (historyClampPageLimit limit) (drop offset matches))"
    using copyPageFrom_walk [OF assms(1), of 0 "unat (stCount s)" offset "historyClampPageLimit limit" dir types "[]"]
    by (simp add: matches_def historyWalk_def Let_def)
  then show ?thesis using pos by (auto simp: copyPage_def Let_def min_def)
qed

lemma history_page_witness:
  "copyPage (appendRecord historyTraits zeroHistoryRecord resetHistoryStore) 0 20 Desc 0 =
    \<lparr> pgTotal = 1, pgStart = 0, pgHasMore = False, pgRecords = [zeroHistoryRecord\<lparr>hrId := 1\<rparr>] \<rparr>"
proof -
  have wf: "ring_wf historyTraits resetHistoryStore" using reset_ok by (simp add: historyOk_def)
  then have ok: "historyOk (appendRecord historyTraits zeroHistoryRecord resetHistoryStore)"
    by (simp add: historyOk_def append_wf)
  have "ringList historyTraits (appendRecord historyTraits zeroHistoryRecord resetHistoryStore) =
      [zeroHistoryRecord\<lparr>hrId := 1\<rparr>]"
    using append_ringList [OF wf, of zeroHistoryRecord] by (simp add: HISTORY_CAPACITY_def)
  then show ?thesis
    using history_page [OF ok, of 0 20 Desc 0]
    by (simp add: pageSkips_def historyClampPageLimit_def HISTORY_PAGE_MAX_def)
qed

end
