(* ===== verification/Paddle_Machine.thy ===== *)
theory Paddle_Machine
  imports Relay_Facts
begin

text \<open>
  The machine facade of \<open>OpenBrewByWeightMachine.h\<close> compiled for the paddle
  (\<open>OPEN_BREW_BY_WEIGHT_MACHINE_TYPE == 0\<close>) and its specialization files: GPIO debounce
  (\<open>PaddleInput\<close>), K1 requests (\<open>PaddleControl\<close>), the run view (\<open>PaddleState\<close>), the
  intent translator and the paddle-return reminder (\<open>PaddlePolicy\<close>), and the mode names
  (\<open>PaddleConfig\<close>). The file-scope variables are one record that holds the K1 driver's
  state; every request goes through the driver of \<open>Machine_Relay\<close>, whose timer answers and
  interleaved events are one argument.
\<close>

section \<open>Types\<close>

datatype UserIntent = NO_INTENT | REQUEST_START | REQUEST_STOP | HOLD_ACTIVE | STABLE_IDLE | REQUEST_RINSE

datatype MachineRunState = MACHINE_IDLE | RUNNING_UNCONFIRMED | RUNNING | UNKNOWN | IDLE_UNCONFIRMED

definition machineRunStateName :: "MachineRunState \<Rightarrow> string" where
  "machineRunStateName st = (case st of
       MACHINE_IDLE \<Rightarrow> ''IDLE''
     | RUNNING_UNCONFIRMED \<Rightarrow> ''RUNNING_UNCONFIRMED''
     | RUNNING \<Rightarrow> ''RUNNING''
     | UNKNOWN \<Rightarrow> ''UNKNOWN''
     | IDLE_UNCONFIRMED \<Rightarrow> ''IDLE_UNCONFIRMED'')"

record MachineIntention =
  inIntent :: UserIntent
  inHoldActive :: bool
  inPhysicalOn :: bool
  inTurnedOn :: bool
  inTurnedOff :: bool
  inStablyOff :: bool

datatype PaddleMode = NATURAL | ORIGINAL | AUTO

text \<open>The settings byte keeps the mode as a number; only 0, 1 and 2 are modes.\<close>

definition validPaddleMode :: "u8 \<Rightarrow> bool" where
  "validPaddleMode mode \<longleftrightarrow> mode = 0 \<or> mode = 1 \<or> mode = 2"

definition paddleModeCode :: "PaddleMode \<Rightarrow> u8" where
  "paddleModeCode m = (case m of NATURAL \<Rightarrow> 0 | ORIGINAL \<Rightarrow> 1 | AUTO \<Rightarrow> 2)"

definition paddleModeId :: "u8 \<Rightarrow> string" where
  "paddleModeId mode =
     (if mode = paddleModeCode ORIGINAL then ''original''
      else if mode = paddleModeCode AUTO then ''auto'' else ''natural'')"

definition parsePaddleMode :: "string option \<Rightarrow> u8 option" where
  "parsePaddleMode text = (case text of
       None \<Rightarrow> None
     | Some t \<Rightarrow>
         if t = ''natural'' then Some (paddleModeCode NATURAL)
         else if t = ''original'' then Some (paddleModeCode ORIGINAL)
         else if t = ''auto'' then Some (paddleModeCode AUTO)
         else None)"

text \<open>The fields of \<open>RuntimeConfig\<close> the paddle reads.\<close>

record workflow_config =
  cfPaddleMode :: u8
  cfRinseEnabled :: bool
  cfRinseGestureMs :: u32
  cfPaddleReturnReminderBeep :: bool
  cfPaddleReturnReminderIntervalMs :: u32
  cfPaddleReturnReminderMaxDurationMs :: u32

definition ACTIVATOR_DEBOUNCE_MS :: u32 where "ACTIVATOR_DEBOUNCE_MS = 30"
definition DEFAULT_RINSE_GESTURE_MS :: u32 where "DEFAULT_RINSE_GESTURE_MS = 1000"

record paddle =
  k1 :: relay
  activatorPinOn :: bool
  runtimeConfig :: workflow_config
  rawActivatorOn :: bool
  activatorOn :: bool
  activatorTurnedOn :: bool
  activatorTurnedOff :: bool
  rawActivatorChangedAtMs :: u32
  activatorEvents :: "bool list"
  lastPolledIntention :: MachineIntention
  machineActivatorDriveAllowed :: bool
  machineActivatorDriveSuppressedThisHold :: bool
  rinseActuationActive :: bool
  paddleReturnReminderActive :: bool
  paddleReturnReminderLastAtMs :: u32
  paddleReturnReminderStartedAtMs :: u32
  paddleReturnReminderExhausted :: bool
  machineCycleActive :: bool
  machineCyclePaddleMode :: u8
  machineCycleAutomaticBbw :: bool
  machineCyclePromotedToNatural :: bool
  machineCycleHardMaxArmed :: bool
  machineCycleSawRelease :: bool
  machineCycleStartedAtMs :: u32
  machineCycleRinseGestureMs :: u32
  paddleHoldStartedAtMs :: u32

definition noIntention :: MachineIntention where
  "noIntention = \<lparr> inIntent = NO_INTENT, inHoldActive = False, inPhysicalOn = False,
     inTurnedOn = False, inTurnedOff = False, inStablyOff = False \<rparr>"

text \<open>The globals as the program starts, around a driver state, a pin and a configuration.\<close>

definition paddle0 :: "relay \<Rightarrow> bool \<Rightarrow> workflow_config \<Rightarrow> paddle" where
  "paddle0 r pin cfg = \<lparr> k1 = r, activatorPinOn = pin, runtimeConfig = cfg,
     rawActivatorOn = False, activatorOn = False, activatorTurnedOn = False,
     activatorTurnedOff = False, rawActivatorChangedAtMs = 0, activatorEvents = [],
     lastPolledIntention = noIntention, machineActivatorDriveAllowed = True,
     machineActivatorDriveSuppressedThisHold = False, rinseActuationActive = False,
     paddleReturnReminderActive = False, paddleReturnReminderLastAtMs = 0,
     paddleReturnReminderStartedAtMs = 0, paddleReturnReminderExhausted = False,
     machineCycleActive = False, machineCyclePaddleMode = paddleModeCode NATURAL,
     machineCycleAutomaticBbw = False, machineCyclePromotedToNatural = False,
     machineCycleHardMaxArmed = False, machineCycleSawRelease = False,
     machineCycleStartedAtMs = 0, machineCycleRinseGestureMs = DEFAULT_RINSE_GESTURE_MS,
     paddleHoldStartedAtMs = 0 \<rparr>"

definition pdMillis :: "paddle \<Rightarrow> u32" where
  "pdMillis p = relayMillis (k1 p)"

definition pdElapsed :: "u32 \<Rightarrow> paddle \<Rightarrow> u32" where
  "pdElapsed since p = relayElapsed since (k1 p)"

text \<open>A K1 request: the driver's answers and what other tasks did inside its gap.\<close>

type_synonym drive = "relay_io \<times> interference list"

definition setCircuit :: "drive \<Rightarrow> bool \<Rightarrow> u32 \<Rightarrow> RelayPurpose \<Rightarrow> paddle \<Rightarrow> bool \<times> paddle" where
  "setCircuit drv closed limitMs purpose p =
     (case setMachineCircuitClosed (fst drv) (gap (snd drv)) closed limitMs purpose (k1 p) of
        (ok, r) \<Rightarrow> (ok, p\<lparr>k1 := r\<rparr>))"

definition pdClosed :: "paddle \<Rightarrow> bool" where
  "pdClosed p = relayCircuitClosed (k1 p)"

section \<open>The drive permission\<close>

definition machineSetActivatorDriveAllowed :: "bool \<Rightarrow> paddle \<Rightarrow> paddle" where
  "machineSetActivatorDriveAllowed allowed p = p\<lparr>machineActivatorDriveAllowed := allowed\<rparr>"

definition machineAllowCurrentActivatorHold :: "paddle \<Rightarrow> paddle" where
  "machineAllowCurrentActivatorHold p = p\<lparr>machineActivatorDriveSuppressedThisHold := False\<rparr>"

definition machineMayForwardActivatorOn :: "paddle \<Rightarrow> bool \<times> paddle" where
  "machineMayForwardActivatorOn p =
     (if \<not> machineActivatorDriveAllowed p
      then (False, p\<lparr>machineActivatorDriveSuppressedThisHold := True\<rparr>)
      else if machineActivatorDriveSuppressedThisHold p then (False, p)
      else (True, p))"

definition machineNoteActivatorReleased :: "paddle \<Rightarrow> paddle" where
  "machineNoteActivatorReleased p = p\<lparr>machineActivatorDriveSuppressedThisHold := False\<rparr>"

section \<open>GPIO input\<close>

definition readRawActivatorOn :: "paddle \<Rightarrow> bool" where
  "readRawActivatorOn p = activatorPinOn p"

definition initializeActivatorInput :: "paddle \<Rightarrow> paddle" where
  "initializeActivatorInput p = p\<lparr>rawActivatorOn := readRawActivatorOn p,
     activatorOn := readRawActivatorOn p, rawActivatorChangedAtMs := pdMillis p\<rparr>"

definition updateActivatorInput :: "paddle \<Rightarrow> paddle" where
  "updateActivatorInput p0 =
     (let p = p0\<lparr>activatorTurnedOn := False, activatorTurnedOff := False\<rparr>;
          sampledOn = readRawActivatorOn p;
          p1 = (if sampledOn \<noteq> rawActivatorOn p
                then p\<lparr>rawActivatorOn := sampledOn, rawActivatorChangedAtMs := pdMillis p\<rparr> else p)
      in if activatorOn p1 \<noteq> rawActivatorOn p1 \<and>
            ACTIVATOR_DEBOUNCE_MS \<le> pdElapsed (rawActivatorChangedAtMs p1) p1
         then let previous = activatorOn p1; now = rawActivatorOn p1 in
           p1\<lparr>activatorOn := now, activatorTurnedOn := \<not> previous \<and> now,
              activatorTurnedOff := previous \<and> \<not> now, activatorEvents := now # activatorEvents p1\<rparr>
         else p1)"

definition activatorIsStablyOff :: "paddle \<Rightarrow> bool" where
  "activatorIsStablyOff p \<longleftrightarrow> \<not> activatorOn p \<and> \<not> rawActivatorOn p \<and>
     ACTIVATOR_DEBOUNCE_MS \<le> pdElapsed (rawActivatorChangedAtMs p) p"

definition activatorHeld :: "paddle \<Rightarrow> bool" where
  "activatorHeld p \<longleftrightarrow> activatorOn p \<or> rawActivatorOn p"

section \<open>K1 control\<close>

definition applyPaddleRelayDrive :: "drive \<Rightarrow> paddle \<Rightarrow> paddle" where
  "applyPaddleRelayDrive drv p =
     (if \<not> activatorHeld p then machineNoteActivatorReleased p
      else case machineMayForwardActivatorOn p of (may, p1) \<Rightarrow>
        if \<not> may then
          (if pdClosed p1 then snd (setCircuit drv False HARD_MAX_CIRCUIT_CLOSED_MS NORMAL p1) else p1)
        else if pdClosed p1 then
          snd (setCircuit drv True HARD_MAX_CIRCUIT_CLOSED_MS NORMAL p1)
        else p1)"

definition machineRequestStart :: "drive \<Rightarrow> u32 \<Rightarrow> bool \<Rightarrow> paddle \<Rightarrow> bool \<times> paddle" where
  "machineRequestStart drv operationalLimitMs remoteActuation p =
     setCircuit drv True operationalLimitMs NORMAL p"

definition machineRequestStop :: "drive \<Rightarrow> paddle \<Rightarrow> bool \<times> paddle" where
  "machineRequestStop drv p = setCircuit drv False HARD_MAX_CIRCUIT_CLOSED_MS NORMAL
     (if activatorHeld p then p\<lparr>machineActivatorDriveSuppressedThisHold := True\<rparr> else p)"

definition machineRequestWebStop :: "drive \<Rightarrow> paddle \<Rightarrow> bool \<times> paddle" where
  "machineRequestWebStop drv p = machineRequestStop drv p"

definition machineRequestForcedPulse :: "paddle \<Rightarrow> bool \<times> paddle" where
  "machineRequestForcedPulse p = (False, p)"

definition machineBeginRinse :: "drive \<Rightarrow> u32 \<Rightarrow> bool \<Rightarrow> paddle \<Rightarrow> bool \<times> paddle" where
  "machineBeginRinse drv operationalLimitMs continueSessionRun p =
     (if rinseActuationActive p then (True, p)
      else let p1 = p\<lparr>rinseActuationActive := True\<rparr> in
        if pdClosed p1 then (True, p1)
        else machineRequestStart drv operationalLimitMs True p1)"

definition machineEndRinse :: "drive \<Rightarrow> paddle \<Rightarrow> bool \<times> paddle" where
  "machineEndRinse drv p = machineRequestStop drv (p\<lparr>rinseActuationActive := False\<rparr>)"

definition machineNoteFirmwareStop :: "paddle \<Rightarrow> paddle" where
  "machineNoteFirmwareStop p =
     (if activatorHeld p then p\<lparr>machineActivatorDriveSuppressedThisHold := True\<rparr> else p)"

definition machineSampleInput :: "drive \<Rightarrow> paddle \<Rightarrow> paddle" where
  "machineSampleInput drv p = applyPaddleRelayDrive drv (updateActivatorInput p)"

definition machineServiceCompatibilityDrive :: "drive \<Rightarrow> MachineIntention \<Rightarrow> paddle \<Rightarrow> bool \<times> paddle" where
  "machineServiceCompatibilityDrive drv intent p =
     (let held = inPhysicalOn intent; closed = pdClosed p in
      if held \<and> \<not> closed then machineRequestStart drv HARD_MAX_CIRCUIT_CLOSED_MS False p
      else if \<not> held \<and> closed then machineRequestStop drv p
      else (True, p))"

definition machineStartBackflush :: "drive \<Rightarrow> paddle \<Rightarrow> bool \<times> paddle" where
  "machineStartBackflush drv p =
     (if \<not> pdClosed p then setCircuit drv True HARD_MAX_CIRCUIT_CLOSED_MS BACKFLUSH_CANDIDATE p
      else (False, p))"

definition machineConfirmBackflush :: "drive \<Rightarrow> u32 \<Rightarrow> paddle \<Rightarrow> bool \<times> paddle" where
  "machineConfirmBackflush drv generation p =
     (case promoteRelayBackflush (fst drv) (gap (snd drv)) generation (k1 p) of
        (ok, r) \<Rightarrow> (ok, p\<lparr>k1 := r\<rparr>))"

definition machineInitialize :: "paddle \<Rightarrow> paddle" where
  "machineInitialize p =
     (let r = openRelayElectricalFromIsr (k1 p);
          r1 = (if externalSafety r then r\<lparr>pinClosed := False, heartbeatPin := False\<rparr>
                else r\<lparr>pinClosed := False\<rparr>)
      in machineNoteActivatorReleased (machineSetActivatorDriveAllowed False
           (initializeActivatorInput (p\<lparr>k1 := r1\<rparr>))))"

text \<open>
  The boot hold test of the target build: the clock and the pin as the loop reads them, one
  pair per pass. It answers once the debounce time has passed or the pin is released; an
  exhausted list is a test still running.
\<close>

fun bootHoldLoop :: "u32 \<Rightarrow> (u32 \<times> bool) list \<Rightarrow> bool option" where
  "bootHoldLoop startedAtMs [] = None"
| "bootHoldLoop startedAtMs ((now, pinOn) # rest) =
     (if \<not> now - startedAtMs < ACTIVATOR_DEBOUNCE_MS then Some pinOn
      else if \<not> pinOn then Some False
      else bootHoldLoop startedAtMs rest)"

definition machineBootActivatorHeldStably :: "(u32 \<times> bool) list \<Rightarrow> paddle \<Rightarrow> bool option" where
  "machineBootActivatorHeldStably reads p =
     (if \<not> readRawActivatorOn p then Some False else bootHoldLoop (pdMillis p) reads)"

section \<open>Run view\<close>

definition machineRunningElapsed :: "paddle \<Rightarrow> bool \<times> u32" where
  "machineRunningElapsed p =
     (let relay = getRelaySafetySnapshot (k1 p) in
      if \<not> snClosed relay then (False, 0) else (True, pdElapsed (snClosedAtMs relay) p))"

definition machineIsRunning :: "paddle \<Rightarrow> bool" where
  "machineIsRunning p = pdClosed p"

definition machineElapsedMs :: "paddle \<Rightarrow> u32" where
  "machineElapsedMs p = snd (machineRunningElapsed p)"

definition machineRunState :: "paddle \<Rightarrow> MachineRunState" where
  "machineRunState p =
     (let relay = getRelaySafetySnapshot (k1 p) in
      if snState relay = LOCKOUT \<or> snState relay = TRIPPED then
        (if snClosed relay then UNKNOWN else MACHINE_IDLE)
      else if snState relay = ARMING then RUNNING_UNCONFIRMED
      else if snClosed relay \<or> snState relay = CLOSED then RUNNING
      else MACHINE_IDLE)"

record MachineStatusSample =
  smRawOn :: bool
  smRunning :: bool
  smCircuitElapsedMs :: u32
  smRunState :: MachineRunState

definition machineSampleStatus :: "paddle \<Rightarrow> MachineStatusSample" where
  "machineSampleStatus p = \<lparr> smRawOn = readRawActivatorOn p, smRunning = machineIsRunning p,
     smCircuitElapsedMs = machineElapsedMs p, smRunState = machineRunState p \<rparr>"

section \<open>Cycles and intent\<close>

definition machineEndCycle :: "paddle \<Rightarrow> paddle" where
  "machineEndCycle p = p\<lparr>machineCycleActive := False, machineCycleAutomaticBbw := False,
     machineCyclePromotedToNatural := False, machineCycleHardMaxArmed := False,
     machineCycleSawRelease := False, rinseActuationActive := False\<rparr>"

definition machineBeginCycle :: "bool \<Rightarrow> paddle \<Rightarrow> paddle" where
  "machineBeginCycle automaticBbw p = p\<lparr>machineCycleActive := True,
     machineCyclePaddleMode := cfPaddleMode (runtimeConfig p),
     machineCycleAutomaticBbw := automaticBbw, machineCyclePromotedToNatural := False,
     machineCycleSawRelease := False,
     machineCycleHardMaxArmed :=
       (automaticBbw \<and> cfPaddleMode (runtimeConfig p) = paddleModeCode ORIGINAL),
     machineCycleStartedAtMs := pdMillis p,
     machineCycleRinseGestureMs := cfRinseGestureMs (runtimeConfig p)\<rparr>"

definition machineHidesPhysicalStop :: "paddle \<Rightarrow> bool" where
  "machineHidesPhysicalStop p =
     (if \<not> machineCycleActive p \<or> \<not> machineCycleAutomaticBbw p then False
      else if machineCyclePaddleMode p = paddleModeCode ORIGINAL
      then \<not> machineCyclePromotedToNatural p
      else machineCyclePaddleMode p = paddleModeCode AUTO)"

definition machineAllowsAutomationStop :: "paddle \<Rightarrow> bool" where
  "machineAllowsAutomationStop p \<longleftrightarrow>
     \<not> (machineHidesPhysicalStop p \<and> machineCyclePaddleMode p = paddleModeCode ORIGINAL \<and>
        activatorHeld p)"

definition machineCloseLimitMs :: "u32 \<Rightarrow> paddle \<Rightarrow> u32" where
  "machineCloseLimitMs operationalWallMs p =
     (if machineCycleHardMaxArmed p then HARD_MAX_CIRCUIT_CLOSED_MS else operationalWallMs)"

definition machineReportsStopOnRelease :: "paddle \<Rightarrow> bool" where
  "machineReportsStopOnRelease p \<longleftrightarrow> \<not> machineHidesPhysicalStop p \<or>
     (machineCycleActive p \<and> pdElapsed (machineCycleStartedAtMs p) p \<le> machineCycleRinseGestureMs p)"

definition paddleHoldIsRinseGesture :: "paddle \<Rightarrow> bool" where
  "paddleHoldIsRinseGesture p =
     (if \<not> cfRinseEnabled (runtimeConfig p) then False
      else if machineCycleActive p
      then pdElapsed (machineCycleStartedAtMs p) p \<le> machineCycleRinseGestureMs p
      else paddleHoldStartedAtMs p \<noteq> 0 \<and>
        pdElapsed (paddleHoldStartedAtMs p) p \<le> cfRinseGestureMs (runtimeConfig p))"

text \<open>The state changes at the head of \<open>machinePollIntention\<close>, then the translation.\<close>

definition pollLatches :: "paddle \<Rightarrow> paddle" where
  "pollLatches p =
     (let p1 = (if activatorTurnedOn p then p\<lparr>paddleHoldStartedAtMs := pdMillis p\<rparr> else p);
          p2 = (if machineCycleActive p1 \<and> activatorTurnedOff p1
                then p1\<lparr>machineCycleSawRelease := True\<rparr> else p1)
      in if machineHidesPhysicalStop p2 \<and> activatorTurnedOn p2 \<and> machineCycleSawRelease p2 \<and>
            machineCyclePaddleMode p2 = paddleModeCode ORIGINAL
         then p2\<lparr>machineCyclePromotedToNatural := True\<rparr> else p2)"

definition translateIntent :: "paddle \<Rightarrow> UserIntent" where
  "translateIntent p =
     (let swallowStop = activatorTurnedOff p \<and> \<not> machineReportsStopOnRelease p in
      if activatorTurnedOn p \<and> \<not> machineCycleActive p then REQUEST_START
      else if activatorTurnedOn p \<and> machineCycleActive p then HOLD_ACTIVE
      else if activatorTurnedOff p \<and> paddleHoldIsRinseGesture p then REQUEST_RINSE
      else if activatorTurnedOff p \<and> \<not> swallowStop then REQUEST_STOP
      else if activatorHeld p then HOLD_ACTIVE
      else if activatorIsStablyOff p then STABLE_IDLE
      else NO_INTENT)"

definition machinePollIntention :: "paddle \<Rightarrow> MachineIntention \<times> paddle" where
  "machinePollIntention p0 =
     (let p = pollLatches p0;
          out = \<lparr> inIntent = translateIntent p, inHoldActive = activatorHeld p,
                  inPhysicalOn = activatorOn p, inTurnedOn = activatorTurnedOn p,
                  inTurnedOff = activatorTurnedOff p, inStablyOff = activatorIsStablyOff p \<rparr>
      in (out, p\<lparr>lastPolledIntention := out\<rparr>))"

section \<open>The paddle-return reminder\<close>

datatype AlertOutputChannel = SCALE_ONLY | BUZZER_ONLY | SCALE_PRIORITY

datatype reminder_action = CancelScaleReminder | EmitReminder

record reminder_env =
  reChannel :: AlertOutputChannel
  reBuzzerUsable :: bool
  reScaleUsable :: bool
  reSoundAlerts :: bool
  reEmitOk :: bool

definition machineServiceReminders :: "reminder_env \<Rightarrow> paddle \<Rightarrow> reminder_action list \<times> paddle" where
  "machineServiceReminders env p =
     (let relay = getRelaySafetySnapshot (k1 p);
          paddleOnCircuitOff = readRawActivatorOn p \<and> \<not> snClosed relay;
          outputUsable = (case reChannel env of
              SCALE_ONLY \<Rightarrow> reScaleUsable env
            | BUZZER_ONLY \<Rightarrow> reBuzzerUsable env
            | SCALE_PRIORITY \<Rightarrow> reScaleUsable env \<or> reBuzzerUsable env);
          shouldRemind = reSoundAlerts env \<and> cfPaddleReturnReminderBeep (runtimeConfig p) \<and>
            paddleOnCircuitOff \<and> outputUsable;
          now = pdMillis p
      in if \<not> shouldRemind then
           ([CancelScaleReminder],
            p\<lparr>paddleReturnReminderActive := False, paddleReturnReminderExhausted := False,
              paddleReturnReminderLastAtMs := 0, paddleReturnReminderStartedAtMs := 0\<rparr>)
         else if paddleReturnReminderExhausted p then ([], p)
         else if \<not> paddleReturnReminderActive p then
           ([], p\<lparr>paddleReturnReminderActive := True, paddleReturnReminderLastAtMs := now,
                  paddleReturnReminderStartedAtMs := now\<rparr>)
         else if cfPaddleReturnReminderMaxDurationMs (runtimeConfig p)
                   \<le> pdElapsed (paddleReturnReminderStartedAtMs p) p then
           ([CancelScaleReminder], p\<lparr>paddleReturnReminderExhausted := True\<rparr>)
         else if cfPaddleReturnReminderIntervalMs (runtimeConfig p)
                   \<le> pdElapsed (paddleReturnReminderLastAtMs p) p then
           ([EmitReminder],
            if reEmitOk env then p\<lparr>paddleReturnReminderLastAtMs := now\<rparr> else p)
         else ([], p))"

definition machineApplyWorkflowConfig :: "workflow_config \<Rightarrow> workflow_config \<Rightarrow> workflow_config" where
  "machineApplyWorkflowConfig dst src = dst\<lparr>cfPaddleMode := cfPaddleMode src,
     cfPaddleReturnReminderBeep := cfPaddleReturnReminderBeep src,
     cfPaddleReturnReminderIntervalMs := cfPaddleReturnReminderIntervalMs src,
     cfPaddleReturnReminderMaxDurationMs := cfPaddleReturnReminderMaxDurationMs src,
     cfRinseGestureMs := cfRinseGestureMs src\<rparr>"

end
