(* ===== verification/Paddle_Facts.thy ===== *)
theory Paddle_Facts
  imports Paddle_Machine
begin

text \<open>
  What the paddle specialization promises the stopper: sampling can open K1 but never close
  it, a reported edge is a level that has been stable for the debounce time, the
  compatibility drive mirrors the paddle, and outside the Auto mode a user who releases,
  presses and releases the paddle is always heard.
\<close>

section \<open>One pass of the loop\<close>

text \<open>Time passes, the pin has a level, the input is sampled and driven, the intent polled.\<close>

definition atTime :: "nat \<Rightarrow> bool \<Rightarrow> paddle \<Rightarrow> paddle" where
  "atTime us lvl p = p\<lparr>k1 := (k1 p)\<lparr>nowUs := nowUs (k1 p) + us\<rparr>, activatorPinOn := lvl\<rparr>"

type_synonym pass = "drive \<times> nat \<times> bool"

definition loopPass :: "pass \<Rightarrow> paddle \<Rightarrow> MachineIntention \<times> paddle" where
  "loopPass x p = machinePollIntention (machineSampleInput (fst x) (atTime (fst (snd x)) (snd (snd x)) p))"

definition loopPasses :: "pass list \<Rightarrow> paddle \<Rightarrow> paddle" where
  "loopPasses xs p = fold (\<lambda>x. snd \<circ> loopPass x) xs p"

section \<open>Frame lemmas\<close>

lemma setCircuit_k1: "snd (setCircuit drv c l pu p) = p\<lparr>k1 := k1 (snd (setCircuit drv c l pu p))\<rparr>"
  by (simp add: setCircuit_def split: prod.splits)

text \<open>The part of the state that only the intent translator and the cycle owner change.\<close>

definition cycleView :: "paddle \<Rightarrow> bool \<times> u8 \<times> bool \<times> bool \<times> bool \<times> u32 \<times> u32" where
  "cycleView p = (machineCycleActive p, machineCyclePaddleMode p, machineCycleAutomaticBbw p,
     machineCyclePromotedToNatural p, machineCycleSawRelease p, machineCycleStartedAtMs p,
     machineCycleRinseGestureMs p)"

definition edgeView :: "paddle \<Rightarrow> bool \<times> bool \<times> bool \<times> bool \<times> u32" where
  "edgeView p = (rawActivatorOn p, activatorOn p, activatorTurnedOn p, activatorTurnedOff p,
     rawActivatorChangedAtMs p)"

lemma setCircuit_views [simp]:
  "cycleView (snd (setCircuit drv c l pu p)) = cycleView p"
  "edgeView (snd (setCircuit drv c l pu p)) = edgeView p"
  "machineActivatorDriveAllowed (snd (setCircuit drv c l pu p)) = machineActivatorDriveAllowed p"
  "machineActivatorDriveSuppressedThisHold (snd (setCircuit drv c l pu p)) =
     machineActivatorDriveSuppressedThisHold p"
  by (simp_all add: setCircuit_def cycleView_def edgeView_def split: prod.splits)

lemma suppress_views [simp]:
  "cycleView (p\<lparr>machineActivatorDriveSuppressedThisHold := b\<rparr>) = cycleView p"
  "edgeView (p\<lparr>machineActivatorDriveSuppressedThisHold := b\<rparr>) = edgeView p"
  by (simp_all add: cycleView_def edgeView_def)

lemma drive_views [simp]:
  "cycleView (applyPaddleRelayDrive drv p) = cycleView p"
  "edgeView (applyPaddleRelayDrive drv p) = edgeView p"
  by (simp_all add: applyPaddleRelayDrive_def machineMayForwardActivatorOn_def
      machineNoteActivatorReleased_def)

lemma update_view [simp]: "cycleView (updateActivatorInput p) = cycleView p"
  by (simp add: updateActivatorInput_def cycleView_def Let_def)

lemma sample_views [simp]:
  "cycleView (machineSampleInput drv p) = cycleView p"
  "edgeView (machineSampleInput drv p) = edgeView (updateActivatorInput p)"
  by (simp_all add: machineSampleInput_def)

lemma held_edgeView: "edgeView p = edgeView q \<Longrightarrow> activatorHeld p = activatorHeld q"
  by (simp add: edgeView_def activatorHeld_def)

lemma pdClosed_update [simp]: "pdClosed (updateActivatorInput p) = pdClosed p"
  by (simp add: updateActivatorInput_def pdClosed_def Let_def)

lemma setCircuit_closed:
  "\<not> pdClosed (snd (setCircuit drv False l pu p))"
  "pdClosed p \<Longrightarrow> pdClosed (snd (setCircuit drv True l pu p)) \<Longrightarrow> pdClosed p"
  using opened_not_closed
  by (simp_all add: setCircuit_def pdClosed_def relayCircuitClosed_def split_beta)

section \<open>Sampling\<close>

text \<open>
  Property C11. Sampling the paddle never takes K1 from open to closed, and it leaves K1
  closed under a held paddle only when the stopper allows the drive and this hold has not
  been suppressed; a held paddle without permission opens it.
\<close>

theorem paddle_sampling_never_closes:
  assumes "pdClosed (machineSampleInput drv p)"
  shows "pdClosed p \<and> (activatorHeld (machineSampleInput drv p) \<longrightarrow>
    machineActivatorDriveAllowed p \<and> \<not> machineActivatorDriveSuppressedThisHold p)"
proof -
  let ?p = "updateActivatorInput p"
  have held: "activatorHeld (machineSampleInput drv p) = activatorHeld ?p"
    by (rule held_edgeView) simp
  have keep: "machineActivatorDriveAllowed ?p = machineActivatorDriveAllowed p"
    "machineActivatorDriveSuppressedThisHold ?p = machineActivatorDriveSuppressedThisHold p"
    by (simp_all add: updateActivatorInput_def Let_def)
  have same: "pdClosed (p\<lparr>machineActivatorDriveSuppressedThisHold := b\<rparr>) = pdClosed p" for p b
    by (simp add: pdClosed_def)
  show ?thesis
    using assms keep setCircuit_closed(1)
    unfolding held
    by (auto simp: machineSampleInput_def applyPaddleRelayDrive_def machineMayForwardActivatorOn_def
        machineNoteActivatorReleased_def same split: if_splits)
qed

text \<open>A closed paddle machine: booted, permitted, K1 granted for thirty seconds.\<close>

definition defaultConfig :: "u8 \<Rightarrow> workflow_config" where
  "defaultConfig mode = \<lparr> cfPaddleMode = mode, cfRinseEnabled = False, cfRinseGestureMs = 1000,
     cfPaddleReturnReminderBeep = True, cfPaddleReturnReminderIntervalMs = 30000,
     cfPaddleReturnReminderMaxDurationMs = 900000 \<rparr>"

definition closedPaddle :: paddle where
  "closedPaddle = paddle0 (snd (setMachineCircuitClosed okIo (gap [TimePasses 2000]) True 30000 NORMAL (bootedRelay False)))
     False (defaultConfig 0)"

lemma closedPaddle_facts:
  "pdClosed closedPaddle" "\<not> rawActivatorOn closedPaddle" "\<not> activatorOn closedPaddle"
  "\<not> activatorPinOn closedPaddle"
  "relay_wf (k1 closedPaddle)"
proof -
  show "pdClosed closedPaddle"
    using bootedRelay_close(2)
    by (simp add: closedPaddle_def paddle0_def pdClosed_def relayCircuitClosed_def)
  show "relay_wf (k1 closedPaddle)"
    using relay_wf_setMachineCircuitClosed [OF bootedRelay_facts(1) gap_facts(1)]
    by (simp add: closedPaddle_def paddle0_def)
qed (simp_all add: closedPaddle_def paddle0_def)

theorem paddle_sampling_never_closes_witness:
  "pdClosed (machineSampleInput (okIo, []) closedPaddle) \<and> pdClosed closedPaddle"
proof -
  have "updateActivatorInput closedPaddle =
      closedPaddle\<lparr>activatorTurnedOn := False, activatorTurnedOff := False\<rparr>"
    using closedPaddle_facts by (simp add: updateActivatorInput_def readRawActivatorOn_def Let_def)
  then have "pdClosed (machineSampleInput (okIo, []) closedPaddle)"
    using closedPaddle_facts
    by (simp add: machineSampleInput_def applyPaddleRelayDrive_def activatorHeld_def
        machineNoteActivatorReleased_def pdClosed_def)
  then show ?thesis using paddle_sampling_never_closes [of "(okIo, [])" closedPaddle] by blast
qed

section \<open>Debounce\<close>

text \<open>One sample: time passes, the pin has a level, the input is read.\<close>

definition sampleAt :: "nat \<times> bool \<Rightarrow> paddle \<Rightarrow> paddle" where
  "sampleAt x p = updateActivatorInput (atTime (fst x) (snd x) p)"

text \<open>
  The block invariant: since \<open>tc\<close> every sample has shown the raw level; either the block
  began at a sample, or no sample has differed from the initial, undebounced level.
\<close>

definition block_inv :: "(nat \<times> bool) list \<Rightarrow> paddle \<Rightarrow> bool" where
  "block_inv xs p \<longleftrightarrow> (\<exists>ys zs tc. xs = ys @ zs \<and> (\<forall>z \<in> set zs. snd z = rawActivatorOn p) \<and>
     rawActivatorChangedAtMs p = millis tc \<and> tc \<le> nowUs (k1 p) \<and>
     (zs \<noteq> [] \<and> tc + sum_list (map fst (tl zs)) = nowUs (k1 p) \<or>
      ys = [] \<and> activatorOn p = rawActivatorOn p))"

lemma elapsed_lower:
  assumes "tc \<le> now" and "n \<le> unat (elapsedMs now (millis tc))"
  shows "n \<le> now div 1000 - tc div 1000"
proof (cases "now div 1000 - tc div 1000 < 2 ^ 32")
  case True
  then show ?thesis using unat_elapsed [OF assms(1)] assms(2) by simp
next
  case False
  have "unat (elapsedMs now (millis tc)) < 2 ^ 32" using unsigned_less [of "elapsedMs now (millis tc)"] by simp
  then show ?thesis using False assms(2) by linarith
qed

lemma sample_block:
  assumes "block_inv xs p"
  shows "block_inv (xs @ [x]) (sampleAt x p)"
    and "activatorOn (sampleAt x p) \<noteq> activatorOn p \<Longrightarrow>
      activatorOn (sampleAt x p) = rawActivatorOn (sampleAt x p) \<and>
      (\<exists>ys zs. xs @ [x] = ys @ zs \<and> zs \<noteq> [] \<and> (\<forall>z \<in> set zs. snd z = activatorOn (sampleAt x p)) \<and>
        29000 < sum_list (map fst (tl zs)))"
proof -
  obtain ys zs tc where inv: "xs = ys @ zs" "\<forall>z \<in> set zs. snd z = rawActivatorOn p"
      "rawActivatorChangedAtMs p = millis tc" "tc \<le> nowUs (k1 p)"
      "zs \<noteq> [] \<and> tc + sum_list (map fst (tl zs)) = nowUs (k1 p) \<or>
       ys = [] \<and> activatorOn p = rawActivatorOn p"
    using assms by (auto simp: block_inv_def)
  let ?p = "sampleAt x p" and ?now = "nowUs (k1 p) + fst x"
  have raw: "rawActivatorOn ?p = snd x" and now: "nowUs (k1 ?p) = ?now"
    by (simp_all add: sampleAt_def updateActivatorInput_def atTime_def readRawActivatorOn_def Let_def)
  define tc' where "tc' = (if snd x = rawActivatorOn p then tc else ?now)"
  define zs' where "zs' = (if snd x = rawActivatorOn p then zs @ [x] else [x])"
  define ys' where "ys' = (if snd x = rawActivatorOn p then ys else xs)"
  have changed: "rawActivatorChangedAtMs ?p = millis tc'"
    using inv(3) by (simp add: sampleAt_def updateActivatorInput_def atTime_def readRawActivatorOn_def
        tc'_def pdMillis_def relayMillis_def Let_def)
  have split: "xs @ [x] = ys' @ zs'" "\<forall>z \<in> set zs'. snd z = snd x" "tc' \<le> ?now" "zs' \<noteq> []"
    using inv by (auto simp: ys'_def zs'_def tc'_def)
  have same: "snd x = rawActivatorOn p \<Longrightarrow> activatorOn p = rawActivatorOn p \<Longrightarrow> activatorOn ?p = activatorOn p"
    by (simp add: sampleAt_def updateActivatorInput_def atTime_def readRawActivatorOn_def Let_def)
  have age: "tc' + sum_list (map fst (tl zs')) = ?now \<or> ys' = [] \<and> activatorOn ?p = snd x"
    using inv(5) same by (cases "snd x = rawActivatorOn p") (auto simp: tc'_def zs'_def ys'_def)
  show "block_inv (xs @ [x]) ?p"
    unfolding block_inv_def raw now changed using split age by blast
  assume edge: "activatorOn ?p \<noteq> activatorOn p"
  then have on: "activatorOn ?p = snd x"
    by (simp add: sampleAt_def updateActivatorInput_def atTime_def readRawActivatorOn_def Let_def
        split: if_splits)
  have "ACTIVATOR_DEBOUNCE_MS \<le> elapsedMs ?now (millis tc')"
    using edge inv(3) by (simp add: sampleAt_def updateActivatorInput_def atTime_def readRawActivatorOn_def
        Let_def pdElapsed_def relayElapsed_def pdMillis_def relayMillis_def tc'_def split: if_splits)
  then have "30 \<le> unat (elapsedMs ?now (millis tc'))"
    by (simp add: ACTIVATOR_DEBOUNCE_MS_def word_le_nat_alt)
  from elapsed_lower [OF split(3) this] have "29000 < ?now - tc'" by linarith
  moreover have "tc' + sum_list (map fst (tl zs')) = ?now"
  proof (cases "snd x = rawActivatorOn p")
    case True
    then have "activatorOn p \<noteq> rawActivatorOn p" using edge same by blast
    then show ?thesis using inv(5) True by (auto simp: tc'_def zs'_def)
  qed (simp add: tc'_def zs'_def)
  ultimately have "29000 < sum_list (map fst (tl zs'))" by linarith
  then show "activatorOn ?p = rawActivatorOn ?p \<and>
      (\<exists>ys zs. xs @ [x] = ys @ zs \<and> zs \<noteq> [] \<and> (\<forall>z \<in> set zs. snd z = activatorOn ?p) \<and>
        29000 < sum_list (map fst (tl zs)))"
    using split on raw by auto
qed

lemma samples_block: "block_inv xs (fold sampleAt xs (initializeActivatorInput p))"
proof (induction xs rule: rev_induct)
  case Nil
  have "rawActivatorChangedAtMs (initializeActivatorInput p) = millis (nowUs (k1 p))"
    by (simp add: initializeActivatorInput_def pdMillis_def relayMillis_def)
  then show ?case by (auto simp: block_inv_def initializeActivatorInput_def)
next
  case (snoc x xs)
  then show ?case using sample_block(1) by simp
qed

lemma edge_iff_change:
  "activatorTurnedOn (sampleAt x p) \<longleftrightarrow> \<not> activatorOn p \<and> activatorOn (sampleAt x p)"
  "activatorTurnedOff (sampleAt x p) \<longleftrightarrow> activatorOn p \<and> \<not> activatorOn (sampleAt x p)"
  by (auto simp: sampleAt_def updateActivatorInput_def atTime_def Let_def)

text \<open>
  Whatever levels are sampled at whatever times after the initialisation, an
  edge is reported only when the last samples all show the new level over a span longer
  than 29 ms (the 30 ms of the debounce less one truncation), whether or not the
  millisecond counter wrapped meanwhile.
\<close>

lemma paddle_debounce:
  assumes "activatorTurnedOn (fold sampleAt xs (initializeActivatorInput p)) \<or>
    activatorTurnedOff (fold sampleAt xs (initializeActivatorInput p))" and "xs \<noteq> []"
  shows "\<exists>ys zs. xs = ys @ zs \<and> zs \<noteq> [] \<and> 29000 < sum_list (map fst (tl zs)) \<and>
    (\<forall>z \<in> set zs. snd z = activatorOn (fold sampleAt xs (initializeActivatorInput p)))"
proof -
  obtain ws x where xs: "xs = ws @ [x]" using assms(2) by (metis append_butlast_last_id)
  let ?p = "fold sampleAt ws (initializeActivatorInput p)"
  have f: "fold sampleAt xs (initializeActivatorInput p) = sampleAt x ?p" by (simp add: xs)
  have "activatorOn (sampleAt x ?p) \<noteq> activatorOn ?p"
    using assms(1) unfolding f edge_iff_change by auto
  from sample_block(2) [OF samples_block this] show ?thesis unfolding f by (auto simp: xs)
qed

definition idlePaddle :: "u8 \<Rightarrow> paddle" where
  "idlePaddle mode = paddle0 (bootedRelay False) False (defaultConfig mode)"

lemma paddle_debounce_witness:
  "\<exists>ys zs. [(1000::nat, True), (31000, True)] = ys @ zs \<and> zs \<noteq> [] \<and> 29000 < sum_list (map fst (tl zs)) \<and>
    (\<forall>z \<in> set zs. snd z = activatorOn (fold sampleAt [(1000, True), (31000, True)]
      (initializeActivatorInput (idlePaddle 0))))"
proof (rule paddle_debounce)
  show "activatorTurnedOn (fold sampleAt [(1000, True), (31000, True)] (initializeActivatorInput (idlePaddle 0))) \<or>
      activatorTurnedOff (fold sampleAt [(1000, True), (31000, True)] (initializeActivatorInput (idlePaddle 0)))"
    using bootedRelay_facts(10) [of False]
    by (simp add: sampleAt_def updateActivatorInput_def initializeActivatorInput_def atTime_def
        readRawActivatorOn_def idlePaddle_def paddle0_def Let_def pdMillis_def pdElapsed_def
        relayMillis_def relayElapsed_def elapsedMs_def millis_def ACTIVATOR_DEBOUNCE_MS_def)
qed simp

section \<open>Compatibility drive\<close>

text \<open>
  In compatibility mode one service of the mirror leaves K1 closed exactly
  when the debounced paddle is on and the request was not refused, and an opening is never
  refused.
\<close>

lemma compatibility_mirrors_paddle:
  assumes "relay_wf (k1 p)" and "machineServiceCompatibilityDrive (io, is) intent p = (ok, p')"
  shows "(pdClosed p' \<longleftrightarrow> inPhysicalOn intent \<and> ok) \<and> (\<not> inPhysicalOn intent \<longrightarrow> ok)"
proof (cases "inPhysicalOn intent \<and> \<not> pdClosed p")
  case True
  obtain r where set: "setMachineCircuitClosed io (gap is) True HARD_MAX_CIRCUIT_CLOSED_MS NORMAL (k1 p) = (ok, r)"
      and p': "p' = p\<lparr>k1 := r\<rparr>"
    using assms(2) True
    by (auto simp: machineServiceCompatibilityDrive_def machineRequestStart_def setCircuit_def Let_def
        split: prod.splits)
  have "\<not> circuitClosed (k1 p)" using True by (simp add: pdClosed_def relayCircuitClosed_def)
  then have "circuitClosed r = ok"
  proof (cases ok)
    case True
    then show ?thesis using granted_closed [OF _ \<open>\<not> circuitClosed (k1 p)\<close>] set by simp
  next
    case False
    then show ?thesis using refused_not_closed [OF assms(1)] set by simp
  qed
  then show ?thesis using True p' by (simp add: pdClosed_def relayCircuitClosed_def)
next
  case keep: False
  show ?thesis
  proof (cases "inPhysicalOn intent \<or> \<not> pdClosed p")
    case True
    then show ?thesis
      using keep assms(2) by (auto simp: machineServiceCompatibilityDrive_def Let_def split: if_splits)
  next
    case False
    then have "machineRequestStop (io, is) p = (ok, p')"
      using assms(2) by (simp add: machineServiceCompatibilityDrive_def Let_def)
    then have "\<not> pdClosed p'" "ok"
      using setCircuit_closed(1)
      by (auto simp: machineRequestStop_def setCircuit_def setMachineCircuitClosed_def openCircuit_def
          Let_def pdClosed_def relayCircuitClosed_def split: prod.splits if_splits)
    then show ?thesis using False by simp
  qed
qed

lemma compatibility_mirrors_paddle_witness:
  "\<not> pdClosed (snd (machineServiceCompatibilityDrive (okIo, []) noIntention closedPaddle))"
  using compatibility_mirrors_paddle [OF closedPaddle_facts(5), of okIo "[]" noIntention]
  by (metis MachineIntention.select_convs(3) noIntention_def prod.collapse)

section \<open>The user is heard\<close>

lemma update_exclusive: "\<not> (activatorTurnedOn (updateActivatorInput p) \<and> activatorTurnedOff (updateActivatorInput p))"
  by (simp add: updateActivatorInput_def Let_def)

text \<open>A paddle cycle whose mode is not Auto, and what the passes of the loop do to it.\<close>

definition nonAutoCycle :: "paddle \<Rightarrow> bool" where
  "nonAutoCycle p \<longleftrightarrow> machineCycleActive p \<and> machineCyclePaddleMode p \<noteq> paddleModeCode AUTO"

lemma cycleView_hides:
  "cycleView p = cycleView q \<Longrightarrow> machineHidesPhysicalStop p = machineHidesPhysicalStop q"
  "cycleView p = cycleView q \<Longrightarrow> nonAutoCycle p = nonAutoCycle q"
  "cycleView p = cycleView q \<Longrightarrow> machineCycleSawRelease p = machineCycleSawRelease q"
  by (simp_all add: cycleView_def machineHidesPhysicalStop_def nonAutoCycle_def)

lemma latch_fields [simp]:
  "machineCycleActive (pollLatches p) = machineCycleActive p"
  "machineCyclePaddleMode (pollLatches p) = machineCyclePaddleMode p"
  "machineCycleAutomaticBbw (pollLatches p) = machineCycleAutomaticBbw p"
  "machineCycleSawRelease (pollLatches p) \<longleftrightarrow>
     machineCycleSawRelease p \<or> machineCycleActive p \<and> activatorTurnedOff p"
  "edgeView (pollLatches p) = edgeView p"
  by (auto simp: pollLatches_def edgeView_def Let_def)

lemma latch_promoted [simp]:
  "machineCyclePromotedToNatural (pollLatches p) \<longleftrightarrow> machineCyclePromotedToNatural p \<or>
     machineHidesPhysicalStop p \<and> activatorTurnedOn p \<and>
     machineCycleSawRelease (pollLatches p) \<and> machineCyclePaddleMode p = paddleModeCode ORIGINAL"
  by (auto simp: pollLatches_def machineHidesPhysicalStop_def Let_def)

lemma latches:
  "nonAutoCycle (pollLatches p) = nonAutoCycle p"
  "\<not> machineHidesPhysicalStop p \<Longrightarrow> \<not> machineHidesPhysicalStop (pollLatches p)"
  "nonAutoCycle p \<Longrightarrow> activatorTurnedOn p \<Longrightarrow> machineCycleSawRelease p \<Longrightarrow>
     \<not> machineHidesPhysicalStop (pollLatches p)"
  unfolding nonAutoCycle_def machineHidesPhysicalStop_def by (auto simp: machineHidesPhysicalStop_def)

lemma poll_view [simp]: "cycleView (snd (machinePollIntention q)) = cycleView (pollLatches q)"
  by (simp add: machinePollIntention_def cycleView_def Let_def)

lemma atTime_view [simp]: "cycleView (atTime us l p) = cycleView p"
  by (simp add: atTime_def cycleView_def)

text \<open>What one pass does to the cycle, and how its edges show.\<close>

lemma pass_cycle:
  fixes x :: pass and p :: paddle
  defines "r \<equiv> loopPass x p"
  shows "nonAutoCycle (snd r) = nonAutoCycle p"
    and "machineCycleSawRelease p \<Longrightarrow> machineCycleSawRelease (snd r)"
    and "nonAutoCycle p \<Longrightarrow> inTurnedOff (fst r) \<Longrightarrow> machineCycleSawRelease (snd r)"
    and "\<not> machineHidesPhysicalStop p \<Longrightarrow> \<not> machineHidesPhysicalStop (snd r)"
    and "nonAutoCycle p \<Longrightarrow> inTurnedOn (fst r) \<Longrightarrow> machineCycleSawRelease p \<Longrightarrow>
      \<not> machineHidesPhysicalStop (snd r)"
proof -
  define q where "q = machineSampleInput (fst x) (atTime (fst (snd x)) (snd (snd x)) p)"
  have q: "cycleView q = cycleView p" by (simp add: q_def)
  have r: "cycleView (snd r) = cycleView (pollLatches q)" by (simp add: r_def loopPass_def q_def)
  have e: "edgeView (pollLatches q) = edgeView q" by simp
  have edges: "inTurnedOff (fst r) = activatorTurnedOff q" "inTurnedOn (fst r) = activatorTurnedOn q"
    using e by (simp_all add: r_def loopPass_def q_def [symmetric] machinePollIntention_def edgeView_def Let_def)
  note v = cycleView_hides [OF q] cycleView_hides [OF r] and l = latches [of q]
  show "nonAutoCycle (snd r) = nonAutoCycle p" using v l by simp
  show "machineCycleSawRelease p \<Longrightarrow> machineCycleSawRelease (snd r)" using v l by simp
  show "nonAutoCycle p \<Longrightarrow> inTurnedOff (fst r) \<Longrightarrow> machineCycleSawRelease (snd r)"
    using v edges by (simp add: nonAutoCycle_def)
  show "\<not> machineHidesPhysicalStop p \<Longrightarrow> \<not> machineHidesPhysicalStop (snd r)" using v l by simp
  show "nonAutoCycle p \<Longrightarrow> inTurnedOn (fst r) \<Longrightarrow> machineCycleSawRelease p \<Longrightarrow>
      \<not> machineHidesPhysicalStop (snd r)"
    using v l edges by simp
qed

lemma passes_cycle:
  "nonAutoCycle (loopPasses xs p) = nonAutoCycle p"
  "machineCycleSawRelease p \<Longrightarrow> machineCycleSawRelease (loopPasses xs p)"
  "\<not> machineHidesPhysicalStop p \<Longrightarrow> \<not> machineHidesPhysicalStop (loopPasses xs p)"
  by (induction xs arbitrary: p) (simp_all add: loopPasses_def pass_cycle)

text \<open>A release that is not hidden reports a stop or a rinse.\<close>

lemma visible_release:
  assumes "\<not> machineHidesPhysicalStop p" and "inTurnedOff (fst (loopPass x p))"
  shows "inIntent (fst (loopPass x p)) \<in> {REQUEST_STOP, REQUEST_RINSE}"
proof -
  define q where "q = machineSampleInput (fst x) (atTime (fst (snd x)) (snd (snd x)) p)"
  have q: "cycleView q = cycleView p" "\<not> (activatorTurnedOn q \<and> activatorTurnedOff q)"
    using update_exclusive [of "atTime (fst (snd x)) (snd (snd x)) p"]
      sample_views(2) [of "fst x" "atTime (fst (snd x)) (snd (snd x)) p"]
    by (simp_all add: q_def edgeView_def)
  let ?l = "pollLatches q"
  have off: "activatorTurnedOff ?l" and ri: "inIntent (fst (loopPass x p)) = translateIntent ?l"
    using assms(2) by (simp_all add: loopPass_def q_def [symmetric] machinePollIntention_def Let_def)
  have "\<not> activatorTurnedOn ?l" using q(2) off latch_fields(5) [of q] by (simp add: edgeView_def)
  moreover have "\<not> machineHidesPhysicalStop ?l"
    using latches(2) cycleView_hides(1) [OF q(1)] assms(1) by simp
  ultimately show ?thesis
    using off unfolding ri by (simp add: translateIntent_def machineReportsStopOnRelease_def Let_def)
qed

text \<open>
  Property C12. In a cycle that is not in Auto mode, whatever passes of the loop run in
  between: once a release and then a press of the paddle have been reported, every later
  reported release is a request to stop or to rinse; the user can always end the shot.
\<close>

theorem paddle_user_is_heard:
  assumes "nonAutoCycle p"
    and "inTurnedOff (fst (loopPass x1 p))"
    and "p2 = loopPasses ys (snd (loopPass x1 p))" and "inTurnedOn (fst (loopPass x2 p2))"
    and "p3 = loopPasses zs (snd (loopPass x2 p2))" and "inTurnedOff (fst (loopPass x3 p3))"
  shows "inIntent (fst (loopPass x3 p3)) \<in> {REQUEST_STOP, REQUEST_RINSE}"
proof -
  have "nonAutoCycle p2" "machineCycleSawRelease p2"
    using pass_cycle(1,3) [where x = x1 and p = p] assms(1,2) by (simp_all add: assms(3) passes_cycle)
  then have "\<not> machineHidesPhysicalStop p3"
    using pass_cycle(5) [where x = x2 and p = p2] assms(4) by (simp add: assms(5) passes_cycle)
  then show ?thesis using assms(6) by (rule visible_release)
qed

text \<open>
  A concrete run: an Original-mode cycle with the paddle on, then a release, a press and a
  release, each sampled twice, 31 ms apart.
\<close>

definition quietPass :: "nat \<Rightarrow> bool \<Rightarrow> pass" where
  "quietPass us lvl = ((okIo, []), us, lvl)"

definition heldCycle :: paddle where
  "heldCycle = machineBeginCycle True (initializeActivatorInput
     ((idlePaddle (paddleModeCode ORIGINAL))\<lparr>activatorPinOn := True\<rparr>))"

definition run1 :: paddle where "run1 = snd (loopPass (quietPass 1000 False) heldCycle)"
definition run2 :: paddle where "run2 = snd (loopPass (quietPass 31000 False) run1)"
definition run3 :: paddle where "run3 = snd (loopPass (quietPass 1000 True) run2)"
definition run4 :: paddle where "run4 = snd (loopPass (quietPass 31000 True) run3)"
definition run5 :: paddle where "run5 = snd (loopPass (quietPass 1000 False) run4)"

definition runAt :: "nat \<Rightarrow> bool \<Rightarrow> bool \<Rightarrow> nat \<Rightarrow> paddle \<Rightarrow> bool" where
  "runAt now raw on changed p \<longleftrightarrow> nowUs (k1 p) = now \<and> \<not> circuitClosed (k1 p) \<and>
     rawActivatorOn p = raw \<and> activatorOn p = on \<and> rawActivatorChangedAtMs p = millis changed \<and>
     machineActivatorDriveAllowed p \<and> \<not> machineActivatorDriveSuppressedThisHold p"

lemma runAt_pass:
  fixes us :: nat and lvl :: bool
  assumes "runAt now raw on changed p"
  defines "c \<equiv> (if lvl = raw then changed else now + us)"
  defines "edge \<equiv> on \<noteq> lvl \<and> ACTIVATOR_DEBOUNCE_MS \<le> elapsedMs (now + us) (millis c)"
  shows "runAt (now + us) lvl (if edge then lvl else on) c (snd (loopPass (quietPass us lvl) p))"
    and "inTurnedOn (fst (loopPass (quietPass us lvl) p)) = (edge \<and> lvl)"
    and "inTurnedOff (fst (loopPass (quietPass us lvl) p)) = (edge \<and> \<not> lvl)"
proof -
  define a where "a = atTime us lvl p"
  define u where "u = updateActivatorInput a"
  have u: "runAt (now + us) lvl (if edge then lvl else on) c u"
    and eu: "activatorTurnedOn u = (edge \<and> lvl)" "activatorTurnedOff u = (edge \<and> \<not> lvl)"
    using assms(1)
    by (auto simp: u_def a_def runAt_def c_def edge_def updateActivatorInput_def atTime_def
        readRawActivatorOn_def pdMillis_def pdElapsed_def relayMillis_def relayElapsed_def Let_def)
  define q where "q = applyPaddleRelayDrive (okIo, []) u"
  have q: "q = u \<or> q = u\<lparr>machineActivatorDriveSuppressedThisHold := False\<rparr>"
    using u by (auto simp: q_def applyPaddleRelayDrive_def machineMayForwardActivatorOn_def
        machineNoteActivatorReleased_def pdClosed_def relayCircuitClosed_def runAt_def)
  have lq: "loopPass (quietPass us lvl) p = machinePollIntention q"
    by (simp add: loopPass_def quietPass_def machineSampleInput_def q_def u_def a_def)
  have f: "runAt n r o' c' (pollLatches x) = runAt n r o' c' x"
    "activatorTurnedOn (pollLatches x) = activatorTurnedOn x"
    "activatorTurnedOff (pollLatches x) = activatorTurnedOff x" for n r o' c' x
    by (auto simp: pollLatches_def runAt_def Let_def)
  have "runAt (now + us) lvl (if edge then lvl else on) c (pollLatches q)"
    unfolding f using q u by (auto simp: runAt_def)
  then show "runAt (now + us) lvl (if edge then lvl else on) c (snd (loopPass (quietPass us lvl) p))"
    by (simp add: lq machinePollIntention_def runAt_def Let_def)
  show "inTurnedOn (fst (loopPass (quietPass us lvl) p)) = (edge \<and> lvl)"
    "inTurnedOff (fst (loopPass (quietPass us lvl) p)) = (edge \<and> \<not> lvl)"
    using q eu by (auto simp: lq machinePollIntention_def f Let_def)
qed

lemma run_states:
  "runAt 0 True True 0 heldCycle" "runAt 1000 False True 1000 run1" "runAt 32000 False False 1000 run2"
  "runAt 33000 True False 33000 run3" "runAt 64000 True True 33000 run4" "runAt 65000 False True 65000 run5"
proof -
  note ev = elapsedMs_def millis_def ACTIVATOR_DEBOUNCE_MS_def
  show 0: "runAt 0 True True 0 heldCycle"
    using bootedRelay_facts(4,10) [of False]
    by (simp add: runAt_def heldCycle_def machineBeginCycle_def initializeActivatorInput_def
        idlePaddle_def paddle0_def readRawActivatorOn_def pdMillis_def relayMillis_def)
  show 1: "runAt 1000 False True 1000 run1"
    using runAt_pass(1) [OF 0, of 1000 False] by (simp add: run1_def ev)
  show 2: "runAt 32000 False False 1000 run2"
    using runAt_pass(1) [OF 1, of 31000 False] by (simp add: run2_def ev)
  show 3: "runAt 33000 True False 33000 run3"
    using runAt_pass(1) [OF 2, of 1000 True] by (simp add: run3_def ev)
  show 4: "runAt 64000 True True 33000 run4"
    using runAt_pass(1) [OF 3, of 31000 True] by (simp add: run4_def ev)
  show "runAt 65000 False True 65000 run5"
    using runAt_pass(1) [OF 4, of 1000 False] by (simp add: run5_def ev)
qed

theorem paddle_user_is_heard_witness:
  "inIntent (fst (loopPass (quietPass 31000 False) run5)) \<in> {REQUEST_STOP, REQUEST_RINSE}"
proof (rule paddle_user_is_heard)
  note ev = elapsedMs_def millis_def ACTIVATOR_DEBOUNCE_MS_def
  have "nonAutoCycle heldCycle"
    by (simp add: nonAutoCycle_def heldCycle_def machineBeginCycle_def initializeActivatorInput_def
        idlePaddle_def paddle0_def defaultConfig_def paddleModeCode_def)
  then show "nonAutoCycle run1" by (simp add: run1_def pass_cycle)
  show "inTurnedOff (fst (loopPass (quietPass 31000 False) run1))"
    using runAt_pass(3) [OF run_states(2), of 31000 False] by (simp add: ev)
  show "run3 = loopPasses [quietPass 1000 True] (snd (loopPass (quietPass 31000 False) run1))"
    by (simp add: loopPasses_def run3_def run2_def)
  show "inTurnedOn (fst (loopPass (quietPass 31000 True) run3))"
    using runAt_pass(2) [OF run_states(4), of 31000 True] by (simp add: ev)
  show "run5 = loopPasses [quietPass 1000 False] (snd (loopPass (quietPass 31000 True) run3))"
    by (simp add: loopPasses_def run5_def run4_def)
  show "inTurnedOff (fst (loopPass (quietPass 31000 False) run5))"
    using runAt_pass(3) [OF run_states(6), of 31000 False] by (simp add: ev)
qed

end
