(* ===== verification/Ota_Image.thy ===== *)
theory Ota_Image
  imports Obw_Prelude "HOL-Library.Sublist"
begin

text \<open>
  \<open>src/OpenBrewByWeightOtaImage.h\<close>: the parser of the firmware tag, the check of the
  image header, and the streaming scanner that finds the tag in an image delivered in
  arbitrary chunks (Knuth-Morris-Pratt on the prefix, capture of the body, bounded replay
  of abandoned captures). A C character array holding a string is the list of its bytes
  before the terminating zero; \<open>size_t\<close> is 32 bits wide on the target.
\<close>

definition ascii :: "string \<Rightarrow> bytes" where
  "ascii s = map of_char s"

section \<open>Characters and fields\<close>

definition OTA_ARCH_CAPACITY :: nat where "OTA_ARCH_CAPACITY = 16"
definition OTA_PROFILE_COMPAT_CAPACITY :: nat where "OTA_PROFILE_COMPAT_CAPACITY = 64"
definition OTA_VERSION_CAPACITY :: nat where "OTA_VERSION_CAPACITY = 48"
definition OTA_TAG_BODY_CAPACITY :: nat where "OTA_TAG_BODY_CAPACITY = 256"
definition OTA_TAG_PREFIX_CAPACITY :: nat where "OTA_TAG_PREFIX_CAPACITY = 32"
definition OTA_TAG_TERMINATOR :: bytes where "OTA_TAG_TERMINATOR = ascii ''|END''"
definition OTA_TAG_TERMINATOR_LENGTH :: nat where "OTA_TAG_TERMINATOR_LENGTH = 4"
definition OTA_TAG_PREFIX_PART_1 :: bytes where "OTA_TAG_PREFIX_PART_1 = ascii ''OPENBREWBYWEIGHT''"
definition OTA_TAG_PREFIX_PART_2 :: bytes where "OTA_TAG_PREFIX_PART_2 = ascii ''_FW_TAG_V2|''"

record OtaImageTag =
  valid :: bool
  arch :: bytes
  hardware :: bytes
  machine :: bytes
  version :: bytes
  packed :: u32

definition noTag :: OtaImageTag where
  "noTag = \<lparr> valid = False, arch = [], hardware = [], machine = [], version = [], packed = 0 \<rparr>"

datatype OtaImageHeaderResult = HEADER_OK | TOO_SHORT | BAD_MAGIC | WRONG_CHIP | BAD_APP_DESC | WRONG_PROJECT

text \<open>\<open>snprintf\<close> writes at most \<open>capacity - 1\<close> characters.\<close>

definition otaTagPrefix :: "nat \<Rightarrow> bytes" where
  "otaTagPrefix capacity = take (capacity - 1) (OTA_TAG_PREFIX_PART_1 @ OTA_TAG_PREFIX_PART_2)"

definition between :: "u8 \<Rightarrow> char \<Rightarrow> char \<Rightarrow> bool" where
  "between c lo hi \<longleftrightarrow> of_char lo \<le> c \<and> c \<le> of_char hi"

definition otaArchCharAllowed :: "u8 \<Rightarrow> bool" where
  "otaArchCharAllowed c \<longleftrightarrow> between c CHR ''a'' CHR ''z'' \<or> between c CHR ''0'' CHR ''9''"

definition otaVersionCharAllowed :: "u8 \<Rightarrow> bool" where
  "otaVersionCharAllowed c \<longleftrightarrow>
     between c CHR ''a'' CHR ''z'' \<or> between c CHR ''A'' CHR ''Z'' \<or> between c CHR ''0'' CHR ''9'' \<or>
     c = of_char CHR ''.'' \<or> c = of_char CHR ''+'' \<or> c = of_char CHR ''-'' \<or> c = of_char CHR ''_''"

definition otaProfileCharAllowed :: "u8 \<Rightarrow> bool" where
  "otaProfileCharAllowed c \<longleftrightarrow> otaArchCharAllowed c \<or> c = of_char CHR ''-''"

definition otaProfileIsUsable :: "bytes \<Rightarrow> bool" where
  "otaProfileIsUsable profile \<longleftrightarrow> profile \<noteq> [] \<and> list_all otaProfileCharAllowed profile"

definition otaArchIsUsable :: "bytes \<Rightarrow> bool" where
  "otaArchIsUsable a \<longleftrightarrow> (if a = [] then False else if a = ascii ''unknown'' then False
     else list_all otaArchCharAllowed a)"

text \<open>The copied field, or \<open>None\<close> where the routine returns false and leaves its output.\<close>

definition otaCopyField :: "bytes \<Rightarrow> nat \<Rightarrow> (u8 \<Rightarrow> bool) \<Rightarrow> bytes option" where
  "otaCopyField value capacity allowed =
     (if length value = 0 \<or> length value + 1 > capacity then None
      else if \<not> list_all allowed value then None
      else Some value)"

fun parseDigits :: "64 word \<Rightarrow> bytes \<Rightarrow> 64 word option" where
  "parseDigits acc [] = Some acc"
| "parseDigits acc (c # cs) =
     (if \<not> between c CHR ''0'' CHR ''9'' then None
      else let acc' = acc * 10 + ucast (c - of_char CHR ''0'') in
        if acc' > 0xFFFFFFFF then None else parseDigits acc' cs)"

definition otaParseUint32 :: "bytes \<Rightarrow> u32 option" where
  "otaParseUint32 value =
     (if length value = 0 \<or> length value > 10 then None
      else map_option ucast (parseDigits 0 value))"

section \<open>The tag body\<close>

record parse_state =
  out :: OtaImageTag
  haveArch :: bool
  haveHardware :: bool
  haveMachine :: bool
  haveVersion :: bool
  havePacked :: bool

definition parse0 :: parse_state where
  "parse0 = \<lparr> out = noTag, haveArch = False, haveHardware = False, haveMachine = False,
     haveVersion = False, havePacked = False \<rparr>"

text \<open>One \<open>name=value\<close> field; \<open>None\<close> where the parser returns false.\<close>

definition parseNamed :: "bytes \<Rightarrow> bytes \<Rightarrow> parse_state \<Rightarrow> parse_state option" where
  "parseNamed name value p =
     (if name = ascii ''arch'' then
        if haveArch p then None
        else (case otaCopyField value OTA_ARCH_CAPACITY otaArchCharAllowed of None \<Rightarrow> None
          | Some v \<Rightarrow> Some (p\<lparr> out := (out p)\<lparr> arch := v \<rparr>, haveArch := True \<rparr>))
      else if name = ascii ''hw'' then
        if haveHardware p then None
        else (case otaCopyField value OTA_PROFILE_COMPAT_CAPACITY otaProfileCharAllowed of None \<Rightarrow> None
          | Some v \<Rightarrow> Some (p\<lparr> out := (out p)\<lparr> hardware := v \<rparr>, haveHardware := True \<rparr>))
      else if name = ascii ''machine'' then
        if haveMachine p then None
        else (case otaCopyField value OTA_PROFILE_COMPAT_CAPACITY otaProfileCharAllowed of None \<Rightarrow> None
          | Some v \<Rightarrow> Some (p\<lparr> out := (out p)\<lparr> machine := v \<rparr>, haveMachine := True \<rparr>))
      else if name = ascii ''ver'' then
        if haveVersion p then None
        else (case otaCopyField value OTA_VERSION_CAPACITY otaVersionCharAllowed of None \<Rightarrow> None
          | Some v \<Rightarrow> Some (p\<lparr> out := (out p)\<lparr> version := v \<rparr>, haveVersion := True \<rparr>))
      else if name = ascii ''packed'' then
        if havePacked p then None
        else (case otaParseUint32 value of None \<Rightarrow> None
          | Some v \<Rightarrow> Some (p\<lparr> out := (out p)\<lparr> packed := v \<rparr>, havePacked := True \<rparr>))
      else Some p)"

definition parseField :: "bytes \<Rightarrow> parse_state \<Rightarrow> parse_state option" where
  "parseField field p =
     (let name = takeWhile (\<lambda>c. c \<noteq> of_char CHR ''='') field in
      if length name = length field then Some p
      else parseNamed name (drop (length name + 1) field) p)"

function parseFields :: "bytes \<Rightarrow> parse_state \<Rightarrow> parse_state option" where
  "parseFields payload p =
     (if payload = [] then Some p
      else let field = takeWhile (\<lambda>c. c \<noteq> of_char CHR ''|'') payload in
        case parseField field p of None \<Rightarrow> None
        | Some p' \<Rightarrow> parseFields (drop (length field + 1) payload) p')"
  by pat_completeness auto
termination by (relation "measure (\<lambda>(payload, _). length payload)") auto

declare parseFields.simps [simp del]

definition parseOtaImageTagBody :: "bytes \<Rightarrow> OtaImageTag option" where
  "parseOtaImageTagBody body =
     (if length body < OTA_TAG_TERMINATOR_LENGTH then None
      else if drop (length body - OTA_TAG_TERMINATOR_LENGTH) body \<noteq> OTA_TAG_TERMINATOR then None
      else case parseFields (take (length body - OTA_TAG_TERMINATOR_LENGTH) body) parse0 of
        None \<Rightarrow> None
      | Some p \<Rightarrow>
          if \<not> haveArch p \<or> \<not> haveHardware p \<or> \<not> haveMachine p \<or> \<not> haveVersion p \<or> \<not> havePacked p \<or>
             \<not> otaArchIsUsable (arch (out p)) \<or> \<not> otaProfileIsUsable (hardware (out p)) \<or>
             \<not> otaProfileIsUsable (machine (out p)) then None
          else Some ((out p)\<lparr> valid := True \<rparr>))"

section \<open>The image header\<close>

definition validateOtaImageHeader :: "bytes \<Rightarrow> OtaImageHeaderResult" where
  "validateOtaImageHeader bs =
     (if length bs < 288 then TOO_SHORT
      else if bs ! 0 \<noteq> 0xE9 then BAD_MAGIC
      else if getLe16 bs 12 \<noteq> 0x0009 then WRONG_CHIP
      else if getLe32 bs 32 \<noteq> 0xABCD5432 then BAD_APP_DESC
      else if takeWhile (\<lambda>c. c \<noteq> 0) (take 32 (drop 80 bs)) \<noteq> ascii ''openbrewbyweight'' then WRONG_PROJECT
      else HEADER_OK)"

section \<open>The scanner\<close>

record OtaImageTagScanner =
  prefixOf :: bytes
  failureTable :: "nat list"
  matchLength :: nat
  body :: bytes
  capturing :: bool
  found :: bool
  replays :: nat
  tagOffset :: u32
  position :: u32
  tag :: OtaImageTag

text \<open>
  The inner loop of both matchers: follow the failure links while the byte does not
  extend the match. Each link is shorter than the match it starts from, so the match
  length bounds the number of rounds (\<open>followFailure_exits\<close>).
\<close>

fun followFailure :: "nat \<Rightarrow> bytes \<Rightarrow> nat list \<Rightarrow> u8 \<Rightarrow> nat \<Rightarrow> nat" where
  "followFailure 0 pat failure c border = border"
| "followFailure (Suc fuel) pat failure c border =
     (if border > 0 \<and> c \<noteq> pat ! border
      then followFailure fuel pat failure c (failure ! (border - 1))
      else border)"

function buildFrom :: "bytes \<Rightarrow> nat \<Rightarrow> nat \<Rightarrow> nat list \<Rightarrow> nat list" where
  "buildFrom pat index border failure =
     (if index < length pat then
        let b = followFailure border pat failure (pat ! index) border;
            b' = (if pat ! index = pat ! b then b + 1 else b) in
        buildFrom pat (index + 1) b' (failure[index := b'])
      else failure)"
  by pat_completeness auto
termination by (relation "measure (\<lambda>(pat, index, _, _). length pat - index)") auto

declare buildFrom.simps [simp del]

definition buildFailureTable :: "bytes \<Rightarrow> nat list \<Rightarrow> nat list" where
  "buildFailureTable pat failure =
     (if length pat = 0 then failure else buildFrom pat 1 0 (failure[0 := 0]))"

definition resetScanner :: OtaImageTagScanner where
  "resetScanner =
     (let p = otaTagPrefix OTA_TAG_PREFIX_CAPACITY in
      \<lparr> prefixOf = p, failureTable = buildFailureTable p (replicate OTA_TAG_PREFIX_CAPACITY 0),
        matchLength = 0, body = [], capturing = False, found = False, replays = 0,
        tagOffset = 0, position = 0, tag = noTag \<rparr>)"

definition matchOnly :: "u8 \<Rightarrow> OtaImageTagScanner \<Rightarrow> OtaImageTagScanner" where
  "matchOnly byte s =
     (let m = followFailure (matchLength s) (prefixOf s) (failureTable s) byte (matchLength s);
          m' = (if byte = prefixOf s ! m then m + 1 else m) in
      if m' = length (prefixOf s) then
        s\<lparr> capturing := True, body := [], matchLength := 0,
           tagOffset := position s + 1 - of_nat (length (prefixOf s)) \<rparr>
      else s\<lparr> matchLength := m' \<rparr>)"

definition dropCapture :: "OtaImageTagScanner \<Rightarrow> OtaImageTagScanner" where
  "dropCapture s = s\<lparr> body := [], capturing := False, matchLength := 0, tag := noTag \<rparr>"

definition kMaxBodyReplays :: nat where "kMaxBodyReplays = 4"

definition endsWithTerminator :: "bytes \<Rightarrow> bool" where
  "endsWithTerminator b \<longleftrightarrow> length b \<ge> OTA_TAG_TERMINATOR_LENGTH \<and>
     drop (length b - OTA_TAG_TERMINATOR_LENGTH) b = OTA_TAG_TERMINATOR"

text \<open>
  \<open>feedByte\<close>, \<open>replayAbandonedBody\<close> and its loop call each other; the fuel bounds the
  nesting of \<open>feedByte\<close> frames, \<open>None\<close> is a frame too many. \<open>feedByte_total\<close> shows that
  six frames are enough for every scanner.
\<close>

fun replayLoop :: "(u8 \<Rightarrow> OtaImageTagScanner \<Rightarrow> OtaImageTagScanner option) \<Rightarrow> bytes \<Rightarrow>
    OtaImageTagScanner \<Rightarrow> OtaImageTagScanner option" where
  "replayLoop feed [] s = Some s"
| "replayLoop feed (c # cs) s =
     (if found s then Some s
      else case feed c s of None \<Rightarrow> None
        | Some s' \<Rightarrow> replayLoop feed cs (s'\<lparr> position := position s' + 1 \<rparr>))"

definition replayAbandonedBody :: "(u8 \<Rightarrow> OtaImageTagScanner \<Rightarrow> OtaImageTagScanner option) \<Rightarrow>
    OtaImageTagScanner \<Rightarrow> OtaImageTagScanner option" where
  "replayAbandonedBody feed s =
     (let saved = body s in
      if length saved = 0 then Some (s\<lparr> capturing := False, matchLength := 0, tag := noTag \<rparr>)
      else if replays s \<ge> kMaxBodyReplays then Some (dropCapture s)
      else
        replayLoop feed (drop 1 saved)
          ((dropCapture s)\<lparr> replays := replays s + 1,
             position := position s - of_nat (length saved) + 1 \<rparr>))"

fun feedByteF :: "nat \<Rightarrow> u8 \<Rightarrow> OtaImageTagScanner \<Rightarrow> OtaImageTagScanner option" where
  "feedByteF 0 byte s = None"
| "feedByteF (Suc fuel) byte s =
     (if capturing s then
        if byte = 0 then replayAbandonedBody (feedByteF fuel) s
        else if length (body s) \<ge> OTA_TAG_BODY_CAPACITY then
          (case replayAbandonedBody (feedByteF fuel) s of None \<Rightarrow> None
           | Some s' \<Rightarrow> if found s' then Some s' else feedByteF fuel byte s')
        else
          let s1 = s\<lparr> body := body s @ [byte] \<rparr> in
          if endsWithTerminator (body s1) then
            (case parseOtaImageTagBody (body s1) of
              Some t \<Rightarrow> Some (s1\<lparr> tag := t, capturing := False, found := True \<rparr>)
            | None \<Rightarrow> replayAbandonedBody (feedByteF fuel) s1)
          else Some s1
      else Some (matchOnly byte s))"

definition feedByte :: "u8 \<Rightarrow> OtaImageTagScanner \<Rightarrow> OtaImageTagScanner" where
  "feedByte byte s = the (feedByteF 6 byte s)"

fun feed :: "bytes \<Rightarrow> OtaImageTagScanner \<Rightarrow> OtaImageTagScanner" where
  "feed [] s = s"
| "feed (c # cs) s =
     (if found s then s
      else let s' = feedByte c s in feed cs (s'\<lparr> position := position s' + 1 \<rparr>))"

end
