(* ===== verification/Ota_Facts.thy ===== *)
theory Ota_Facts
  imports Ota_Image
begin

text \<open>
  What the tag scanner of \<open>OpenBrewByWeightOtaImage.h\<close> guarantees: its buffers stay in
  bounds, its recursion is bounded, chunking is invisible, the first well-formed tag of
  an image is found, and a tag that is found comes from the image.
\<close>

section \<open>The prefix and its failure table\<close>

definition PREFIX :: bytes where
  "PREFIX = OTA_TAG_PREFIX_PART_1 @ OTA_TAG_PREFIX_PART_2"

lemma PREFIX_code: "PREFIX = [79, 80, 69, 78, 66, 82, 69, 87, 66, 89, 87, 69, 73, 71, 72, 84,
    95, 70, 87, 95, 84, 65, 71, 95, 86, 50, 124]"
  by (simp add: PREFIX_def OTA_TAG_PREFIX_PART_1_def OTA_TAG_PREFIX_PART_2_def ascii_def)

lemma length_PREFIX [simp]: "length PREFIX = 27"
  by (simp add: PREFIX_code)

lemma prefix_of_reset [simp]: "otaTagPrefix OTA_TAG_PREFIX_CAPACITY = PREFIX"
  using length_PREFIX by (simp add: otaTagPrefix_def OTA_TAG_PREFIX_CAPACITY_def PREFIX_def [symmetric])

lemma PREFIX_no_zero: "0 \<notin> set PREFIX"
  by (simp add: PREFIX_code)

text \<open>The first letter does not occur again, so no proper prefix is also a suffix.\<close>

lemma PREFIX_first_unique: "0 < i \<Longrightarrow> i < 27 \<Longrightarrow> PREFIX ! i \<noteq> PREFIX ! 0"
proof -
  assume a: "0 < i" "i < 27"
  have "\<forall>c\<in>set (tl PREFIX). c \<noteq> PREFIX ! 0" by (simp add: PREFIX_code)
  moreover have "PREFIX ! i \<in> set (tl PREFIX)"
    using a nth_mem [of "i - 1" "tl PREFIX"] by (simp add: nth_tl)
  ultimately show ?thesis by blast
qed

lemma followFailure_0 [simp]: "followFailure n pat f c 0 = 0"
  by (cases n) simp_all

lemma followFailure_exits:
  assumes "\<And>k. k < length pat \<Longrightarrow> f ! k \<le> k" "b < length pat" "b \<le> n"
  shows "(followFailure n pat f c b = 0 \<or> c = pat ! followFailure n pat f c b) \<and>
    followFailure n pat f c b \<le> b"
  using assms(2,3)
proof (induction n arbitrary: b)
  case (Suc n)
  have f: "b > 0 \<Longrightarrow> f ! (b - 1) < b"
    using assms(1) [of "b - 1"] Suc.prems by fastforce
  show ?case
  proof (cases "b > 0 \<and> c \<noteq> pat ! b")
    case True
    then have "f ! (b - 1) < b" using f by blast
    then have "f ! (b - 1) < length pat" "f ! (b - 1) \<le> n" using Suc.prems by linarith+
    then show ?thesis using Suc.IH [of "f ! (b - 1)"] True \<open>f ! (b - 1) < b\<close> by force
  qed (use Suc.prems in auto)
qed simp

lemma buildFrom_zero:
  "0 < i \<Longrightarrow> length f = 32 \<Longrightarrow> f = replicate 32 0 \<Longrightarrow> buildFrom PREFIX i 0 f = replicate 32 0"
proof (induction "27 - i" arbitrary: i f)
  case 0
  then show ?case by (subst buildFrom.simps) simp
next
  case (Suc k)
  have "PREFIX ! i \<noteq> PREFIX ! 0" using Suc PREFIX_first_unique [of i] by simp
  moreover have "(replicate 32 (0::nat))[i := 0] = replicate 32 0"
    by (metis list_update_same_conv list_update_beyond length_replicate not_le nth_replicate)
  ultimately show ?case using Suc.prems Suc.hyps(2) Suc.hyps(1) [of "Suc i" f]
    by (subst buildFrom.simps) (simp add: Let_def)
qed

lemma failureTable_reset [simp]:
  "buildFailureTable PREFIX (replicate 32 0) = replicate 32 0"
proof -
  have "(replicate 32 (0::nat))[0 := 0] = replicate 32 0"
    by (simp add: numeral_eq_Suc)
  then show ?thesis
    using buildFrom_zero [of 1 "replicate 32 0"] by (simp add: buildFailureTable_def flip: length_0_conv)
qed

section \<open>Well-formed scanners\<close>

definition scanner_ok :: "OtaImageTagScanner \<Rightarrow> bool" where
  "scanner_ok s \<longleftrightarrow> prefixOf s = PREFIX \<and> failureTable s = replicate OTA_TAG_PREFIX_CAPACITY 0 \<and>
     matchLength s < 27 \<and> length (body s) \<le> OTA_TAG_BODY_CAPACITY \<and>
     replays s \<le> kMaxBodyReplays"

lemma reset_fields [simp]:
  "prefixOf resetScanner = PREFIX" "failureTable resetScanner = replicate OTA_TAG_PREFIX_CAPACITY 0"
  "matchLength resetScanner = 0" "body resetScanner = []" "\<not> capturing resetScanner"
  "\<not> found resetScanner" "replays resetScanner = 0" "position resetScanner = 0"
  by (simp_all add: resetScanner_def Let_def) (simp add: OTA_TAG_PREFIX_CAPACITY_def)

lemma scanner_reset_ok: "scanner_ok resetScanner"
  by (simp add: scanner_ok_def OTA_TAG_BODY_CAPACITY_def kMaxBodyReplays_def)

lemma ok_position [simp]: "scanner_ok (s\<lparr> position := x \<rparr>) = scanner_ok s"
  by (simp add: scanner_ok_def)

text \<open>With the table of zeros one link ends every mismatch.\<close>

lemma followFailure_ok:
  assumes "scanner_ok s"
  shows "followFailure (matchLength s) (prefixOf s) (failureTable s) c (matchLength s) =
    (if c = PREFIX ! matchLength s then matchLength s else 0)"
proof -
  have f: "failureTable s ! (m - Suc 0) = 0" if "m \<le> matchLength s" for m
  proof -
    have "m - Suc 0 < 32" using assms that unfolding scanner_ok_def by linarith
    then show ?thesis using assms by (simp add: scanner_ok_def OTA_TAG_PREFIX_CAPACITY_def)
  qed
  show ?thesis
    using assms f [of "matchLength s"] by (cases "matchLength s") (auto simp: scanner_ok_def)
qed

lemma matchOnly_cases:
  assumes "scanner_ok s"
  shows "matchOnly c s =
    (let m = (if c = PREFIX ! matchLength s then matchLength s + 1
       else if c = PREFIX ! 0 then 1 else 0) in
     if m = 27 then s\<lparr> capturing := True, body := [], matchLength := 0, tagOffset := position s + 1 - 27 \<rparr>
     else s\<lparr> matchLength := m \<rparr>)"
  using assms followFailure_ok [OF assms(1), of c]
  by (auto simp: matchOnly_def scanner_ok_def Let_def)

lemma matchOnly_ok [wf_intros]: "scanner_ok s \<Longrightarrow> scanner_ok (matchOnly c s)"
  by (auto simp: matchOnly_cases scanner_ok_def Let_def)

lemma dropCapture_ok [wf_intros]: "scanner_ok s \<Longrightarrow> scanner_ok (dropCapture s)"
  by (simp add: scanner_ok_def dropCapture_def)

text \<open>
  Every invariant of the scanner that holds after matching, appending, accepting and
  dropping a capture holds after a whole byte: the recursion adds nothing. This rule
  reduces each invariant to those four steps.
\<close>

lemma replayLoop_invariant:
  assumes "replayLoop f cs s = Some s'" "P s"
    and "\<And>c s s'. P s \<Longrightarrow> f c s = Some s' \<Longrightarrow> P s'"
    and "\<And>s x. P s \<Longrightarrow> P (s\<lparr> position := x \<rparr>)"
  shows "P s'"
  using assms(1,2)
proof (induction cs arbitrary: s)
  case (Cons c cs)
  show ?case using Cons.prems Cons.IH assms(3,4) by (auto split: if_splits option.splits)
qed simp

text \<open>The state a replay starts from: the capture dropped, the clock set back to its second byte.\<close>

definition rewound :: "OtaImageTagScanner \<Rightarrow> OtaImageTagScanner" where
  "rewound s = (dropCapture s)\<lparr> replays := replays s + 1,
     position := position s - of_nat (length (body s)) + 1 \<rparr>"

lemma replay_eq:
  "replayAbandonedBody f s =
     (if body s = [] \<or> 4 \<le> replays s then Some (dropCapture s)
      else replayLoop f (tl (body s)) (rewound s))"
  by (simp add: replayAbandonedBody_def Let_def kMaxBodyReplays_def dropCapture_def rewound_def drop_Suc)

lemma rewound_fields [simp]:
  "replays (rewound s) = replays s + 1" "body (rewound s) = []" "capturing (rewound s) = False"
  "found (rewound s) = found s" "matchLength (rewound s) = 0"
  "prefixOf (rewound s) = prefixOf s" "failureTable (rewound s) = failureTable s"
  by (simp_all add: rewound_def dropCapture_def)

lemma dropCapture_fields [simp]:
  "replays (dropCapture s) = replays s" "body (dropCapture s) = []" "capturing (dropCapture s) = False"
  "found (dropCapture s) = found s" "matchLength (dropCapture s) = 0"
  by (simp_all add: dropCapture_def)

lemma replay_ok:
  assumes "replayAbandonedBody f s = Some s'" "scanner_ok s"
    and "\<And>c s s'. scanner_ok s \<Longrightarrow> f c s = Some s' \<Longrightarrow> scanner_ok s'"
  shows "scanner_ok s'"
proof (cases "body s = [] \<or> 4 \<le> replays s")
  case False
  then have "scanner_ok (rewound s)"
    using assms(2) by (simp add: scanner_ok_def kMaxBodyReplays_def)
  moreover have "replayLoop f (tl (body s)) (rewound s) = Some s'"
    using assms(1) False by (simp add: replay_eq)
  ultimately show ?thesis
    using replayLoop_invariant [where P = scanner_ok, OF _ _ assms(3)] by fastforce
qed (use assms in \<open>auto simp: replay_eq intro: dropCapture_ok\<close>)

lemma feedByteF_ok: "feedByteF n c s = Some s' \<Longrightarrow> scanner_ok s \<Longrightarrow> scanner_ok s'"
proof (induction n arbitrary: c s s')
  case (Suc n)
  have r: "replayAbandonedBody (feedByteF n) t = Some t' \<Longrightarrow> scanner_ok t \<Longrightarrow> scanner_ok t'" for t t'
    using replay_ok Suc.IH by blast
  have a: "scanner_ok (s\<lparr> body := body s @ [c] \<rparr>)" if "length (body s) < OTA_TAG_BODY_CAPACITY"
    using that Suc.prems(2) by (simp add: scanner_ok_def)
  have t: "scanner_ok u \<Longrightarrow> scanner_ok (u\<lparr> tag := x, capturing := y, found := z \<rparr>)" for u x y z
    by (simp add: scanner_ok_def)
  show ?case
  proof (cases "capturing s")
    case False
    then show ?thesis using Suc.prems matchOnly_ok by auto
  next
    case True
    then show ?thesis
      using Suc.prems r [of s] r [OF _ a] a Suc.IH t [OF a]
      by (auto simp: Let_def not_le split: if_splits option.splits)
  qed
qed simp

section \<open>The recursion is bounded\<close>

lemma replayLoop_total:
  assumes "\<And>c s. k \<le> replays s \<Longrightarrow> \<exists>s'. f c s = Some s' \<and> replays s \<le> replays s'" "k \<le> replays s"
  shows "\<exists>s'. replayLoop f cs s = Some s' \<and> replays s \<le> replays s'"
  using assms(2)
proof (induction cs arbitrary: s)
  case (Cons c cs)
  obtain s1 where s1: "f c s = Some s1" "replays s \<le> replays s1"
    using assms(1) Cons.prems by blast
  obtain s' where "replayLoop f cs (s1\<lparr> position := position s1 + 1 \<rparr>) = Some s'"
    "replays s1 \<le> replays s'"
    using Cons.IH [of "s1\<lparr> position := position s1 + 1 \<rparr>"] s1 Cons.prems by auto
  then show ?case using s1 by auto
qed simp

lemma replay_total:
  assumes f: "\<And>c t. replays s < 4 \<Longrightarrow> replays s < replays t \<Longrightarrow> \<exists>s'. f c t = Some s' \<and> replays t \<le> replays s'"
  shows "\<exists>s'. replayAbandonedBody f s = Some s' \<and>
    (if body s \<noteq> [] \<and> replays s < 4 then replays s < replays s'
     else replays s' = replays s \<and> \<not> capturing s')"
proof (cases "body s \<noteq> [] \<and> replays s < 4")
  case True
  have "\<exists>s'. replayLoop f (tl (body s)) (rewound s) = Some s' \<and> replays (rewound s) \<le> replays s'"
    by (rule replayLoop_total [where k = "replays s + 1"]) (use f True in \<open>auto simp: Suc_le_eq\<close>)
  then show ?thesis using True by (auto simp: replay_eq)
qed (auto simp: replay_eq)

lemma feedByteF_total_aux:
  "2 + (4 - replays s) \<le> n \<Longrightarrow> \<exists>s'. feedByteF n c s = Some s' \<and> replays s \<le> replays s'"
proof (induction n arbitrary: c s)
  case (Suc n)
  have keep: "replays (matchOnly c s) = replays s" for c s
    by (simp add: matchOnly_def Let_def)
  have r: "\<exists>s'. replayAbandonedBody (feedByteF n) t = Some s' \<and>
    (if body t \<noteq> [] \<and> replays t < 4 then replays t < replays s'
     else replays s' = replays t \<and> \<not> capturing s')" if "replays t = replays s" for t
    by (rule replay_total) (use that Suc.prems in \<open>auto intro!: Suc.IH\<close>)
  show ?case
  proof (cases "capturing s")
    case False
    then show ?thesis by (simp add: keep)
  next
    case cap: True
    show ?thesis
    proof (cases "c = 0 \<or> length (body s) < OTA_TAG_BODY_CAPACITY")
      case True
      then show ?thesis using cap r [of s] r [of "s\<lparr> body := body s @ [c] \<rparr>"]
        by (fastforce simp: Let_def split: option.splits if_splits)
    next
      case full: False
      obtain t where t: "replayAbandonedBody (feedByteF n) s = Some t"
        and tr: "if body s \<noteq> [] \<and> replays s < 4 then replays s < replays t
           else replays t = replays s \<and> \<not> capturing t"
        using r [of s] by blast
      have "\<exists>s'. feedByteF n c t = Some s' \<and> replays t \<le> replays s'"
      proof (cases "body s \<noteq> [] \<and> replays s < 4")
        case True
        then have "2 + (4 - replays t) \<le> n" using tr Suc.prems by (auto split: if_splits)
        then show ?thesis by (rule Suc.IH)
      next
        case False
        then show ?thesis using tr Suc.prems keep by (cases n) auto
      qed
      then show ?thesis using cap full t tr by (fastforce split: if_splits)
    qed
  qed
qed simp

lemma feedByte_Some: "feedByteF 6 c s = Some (feedByte c s)"
  using feedByteF_total_aux [of s 6 c] by (fastforce simp: feedByte_def)

text \<open>
  One byte never nests more than six feedByte frames, whatever the
  scanner holds and whatever the image contains: adversarial bytes cannot exhaust the
  stack through abandoned captures.
\<close>

lemma feedByte_total: "\<exists>s'. feedByteF 6 byte s = Some s' \<and> replays s \<le> replays s'"
  by (rule feedByteF_total_aux) simp

lemma feedByte_ok: "scanner_ok s \<Longrightarrow> scanner_ok (feedByte c s)"
  using feedByteF_ok feedByte_Some by blast

lemma feed_ok: "scanner_ok s \<Longrightarrow> scanner_ok (feed cs s)"
  by (induction cs arbitrary: s) (simp_all add: Let_def feedByte_ok)

text \<open>
  Property C36. Whatever bytes are fed, in whatever chunks, the body buffer never
  exceeds its 256 bytes, the match length always indexes the prefix and the failure
  table within their 32 bytes, and at most four abandoned captures are replayed.
\<close>

theorem scanner_in_bounds:
  "let s = fold feed chunks resetScanner in
     length (body s) \<le> OTA_TAG_BODY_CAPACITY \<and> matchLength s < length (prefixOf s) \<and>
     length (prefixOf s) < OTA_TAG_PREFIX_CAPACITY \<and>
     length (failureTable s) = OTA_TAG_PREFIX_CAPACITY \<and> replays s \<le> kMaxBodyReplays"
proof -
  have "scanner_ok s \<Longrightarrow> scanner_ok (fold feed chunks s)" for s
    by (induction chunks arbitrary: s) (simp_all add: feed_ok)
  from this [OF scanner_reset_ok] show ?thesis
    by (simp add: Let_def scanner_ok_def OTA_TAG_PREFIX_CAPACITY_def)
qed

section \<open>What a found tag comes from\<close>

text \<open>
  The history of a scanner is the stream it was offered, without its zero bytes. It ends
  with the part of the prefix matched so far, or with the prefix and the captured body;
  once a tag is found, the prefix and its body lie somewhere in it.
\<close>

definition history_ok :: "bytes \<Rightarrow> OtaImageTagScanner \<Rightarrow> bool" where
  "history_ok h s \<longleftrightarrow> scanner_ok s \<and> 0 \<notin> set (body s) \<and>
     (if found s then \<exists>p b q. h = p @ PREFIX @ b @ q \<and> parseOtaImageTagBody b = Some (tag s)
      else if capturing s then \<exists>p. h = p @ PREFIX @ body s
      else \<exists>p. h = p @ take (matchLength s) PREFIX)"

lemma history_position [simp]: "history_ok h (s\<lparr> position := x \<rparr>) = history_ok h s"
  by (simp add: history_ok_def)

lemma history_extend:
  assumes "history_ok h s" "found s"
  shows "history_ok (h @ q) s"
proof -
  obtain p b q' where "h = p @ PREFIX @ b @ q'" "parseOtaImageTagBody b = Some (tag s)"
    using assms by (auto simp: history_ok_def)
  then have "h @ q = p @ PREFIX @ b @ (q' @ q)" "parseOtaImageTagBody b = Some (tag s)" by simp_all
  then show ?thesis using assms unfolding history_ok_def by auto
qed

lemma history_dropped:
  "scanner_ok s \<Longrightarrow> \<not> found s \<Longrightarrow> history_ok h (dropCapture s)"
  by (simp add: history_ok_def dropCapture_ok)

lemma history_matchOnly:
  assumes "history_ok h s" "\<not> found s" "\<not> capturing s"
  shows "history_ok (h @ (if c = 0 then [] else [c])) (matchOnly c s)"
proof -
  have ok: "scanner_ok s" and m: "matchLength s < 27" and z: "0 \<notin> set (body s)"
    using assms(1) by (auto simp: history_ok_def scanner_ok_def)
  obtain p where h: "h = p @ take (matchLength s) PREFIX"
    using assms by (auto simp: history_ok_def)
  have nz: "PREFIX ! i \<noteq> 0" if "i < 27" for i
    using PREFIX_no_zero nth_mem [of i PREFIX] that by (auto simp del: nth_mem)
  have ok': "scanner_ok (matchOnly c s)" using ok by (rule matchOnly_ok)
  consider (go) "c = PREFIX ! matchLength s" | (first) "c \<noteq> PREFIX ! matchLength s" "c = PREFIX ! 0"
    | (none) "c \<noteq> PREFIX ! matchLength s" "c \<noteq> PREFIX ! 0" by blast
  then show ?thesis
  proof cases
    case go
    have "h @ [c] = p @ take (Suc (matchLength s)) PREFIX"
      using m by (simp add: h go take_Suc_conv_app_nth)
    then show ?thesis using go m nz [OF m] assms ok' z
      by (auto simp: history_ok_def matchOnly_cases [OF ok])
  next
    case first
    have "take 1 PREFIX = [PREFIX ! 0]" using take_Suc_conv_app_nth [of 0 PREFIX] by simp
    then show ?thesis using first m nz [of 0] assms ok' z
      by (auto simp: history_ok_def matchOnly_cases [OF ok])
  next
    case none
    then show ?thesis using m assms ok' z
      by (auto simp: history_ok_def matchOnly_cases [OF ok])
  qed
qed

lemma history_replayLoop:
  assumes "replayLoop f cs s = Some s'" "history_ok h s" "0 \<notin> set cs"
    and "\<And>c h s s'. \<not> found s \<Longrightarrow> history_ok h s \<Longrightarrow> c \<noteq> 0 \<Longrightarrow> f c s = Some s' \<Longrightarrow> history_ok (h @ [c]) s'"
  shows "history_ok (h @ cs) s'"
  using assms(1-3)
proof (induction cs arbitrary: s h)
  case (Cons c cs)
  show ?case
  proof (cases "found s")
    case True
    then show ?thesis using Cons.prems history_extend by auto
  next
    case False
    then obtain t where t: "f c s = Some t" "replayLoop f cs (t\<lparr> position := position t + 1 \<rparr>) = Some s'"
      using Cons.prems by (auto split: option.splits)
    then have "history_ok (h @ [c]) (t\<lparr> position := position t + 1 \<rparr>)"
      using assms(4) [OF False Cons.prems(2) _ t(1)] Cons.prems(3) by simp
    then show ?thesis using Cons.IH t(2) Cons.prems(3) by fastforce
  qed
qed simp

lemma history_replay:
  assumes "replayAbandonedBody f s = Some s'" "scanner_ok s" "\<not> found s"
    and "0 \<notin> set (body s)" "h = p @ PREFIX @ body s"
    and "\<And>c h s s'. \<not> found s \<Longrightarrow> history_ok h s \<Longrightarrow> c \<noteq> 0 \<Longrightarrow> f c s = Some s' \<Longrightarrow> history_ok (h @ [c]) s'"
  shows "history_ok h s'"
proof (cases "body s = [] \<or> 4 \<le> replays s")
  case True
  then show ?thesis using assms(1-3) history_dropped by (auto simp: replay_eq)
next
  case False
  have "scanner_ok (rewound s)"
    using assms(2) False by (simp add: scanner_ok_def kMaxBodyReplays_def)
  then have H: "history_ok (p @ PREFIX @ [hd (body s)]) (rewound s)"
    using assms(3) by (simp add: history_ok_def)
  have L: "replayLoop f (tl (body s)) (rewound s) = Some s'" and Z: "0 \<notin> set (tl (body s))"
    using assms(1,4) False by (auto simp: replay_eq dest: list.set_sel(2))
  have "history_ok ((p @ PREFIX @ [hd (body s)]) @ tl (body s)) s'"
    by (rule history_replayLoop [OF L H Z]) (rule assms(6))
  then show ?thesis using False assms(5) by simp
qed

lemma history_feedByteF:
  "feedByteF n c s = Some s' \<Longrightarrow> history_ok h s \<Longrightarrow> \<not> found s \<Longrightarrow>
     history_ok (h @ (if c = 0 then [] else [c])) s'"
proof (induction n arbitrary: c s s' h)
  case (Suc n)
  have step: "history_ok (h @ [c]) s'"
    if "\<not> found s" "history_ok h s" "c \<noteq> 0" "feedByteF n c s = Some s'" for c h s s'
    using Suc.IH [OF that(4,2,1)] that(3) by simp
  have ok: "scanner_ok s" and z: "0 \<notin> set (body s)"
    using Suc.prems by (auto simp: history_ok_def)
  show ?case
  proof (cases "capturing s")
    case False
    then have "s' = matchOnly c s" using Suc.prems(1) by simp
    then show ?thesis using history_matchOnly [OF Suc.prems(2,3) False, of c] by (simp only:)
  next
    case cap: True
    then obtain p where h: "h = p @ PREFIX @ body s"
      using Suc.prems by (auto simp: history_ok_def)
    have rep: "replayAbandonedBody (feedByteF n) s = Some t \<Longrightarrow> history_ok h t" for t
      by (rule history_replay [OF _ ok Suc.prems(3) z h step])
    consider (zero) "c = 0" | (full) "c \<noteq> 0" "OTA_TAG_BODY_CAPACITY \<le> length (body s)"
      | (more) "c \<noteq> 0" "length (body s) < OTA_TAG_BODY_CAPACITY" by linarith
    then show ?thesis
    proof cases
      case zero
      then show ?thesis using Suc.prems cap rep by simp
    next
      case full
      then obtain t where t: "replayAbandonedBody (feedByteF n) s = Some t"
        "(if found t then Some t else feedByteF n c t) = Some s'"
        using Suc.prems cap by (auto split: option.splits)
      then show ?thesis using rep [OF t(1)] full step history_extend by (auto split: if_splits)
    next
      case more
      define s1 where "s1 = s\<lparr> body := body s @ [c] \<rparr>"
      have ok1: "scanner_ok s1" "\<not> found s1" "0 \<notin> set (body s1)" "h @ [c] = p @ PREFIX @ body s1"
        "body s1 = body s @ [c]" "capturing s1"
        using ok more Suc.prems z h cap by (auto simp: s1_def scanner_ok_def)
      have rep1: "replayAbandonedBody (feedByteF n) s1 = Some t \<Longrightarrow> history_ok (h @ [c]) t" for t
        by (rule history_replay [OF _ ok1(1-4) step])
      have acc: "history_ok (h @ [c]) (s1\<lparr> tag := t, capturing := False, found := True \<rparr>)"
        if "parseOtaImageTagBody (body s1) = Some t" for t
      proof -
        have "\<exists>p b q. h @ [c] = p @ PREFIX @ b @ q \<and> parseOtaImageTagBody b = Some t"
          using that ok1(4) by (intro exI [of _ p] exI [of _ "body s1"] exI [of _ "[]"]) simp
        then show ?thesis using ok1(1,3) unfolding history_ok_def scanner_ok_def by simp
      qed
      have cont: "history_ok (h @ [c]) s1"
        using ok1 by (auto simp: history_ok_def)
      show ?thesis using Suc.prems(1) cap more rep1 acc cont
        by (auto simp: Let_def s1_def [symmetric] split: if_splits option.splits)
    qed
  qed
qed simp

lemma feed_found [simp]: "found s \<Longrightarrow> feed cs s = s"
  by (cases cs) simp_all

lemma feed_append: "feed (xs @ ys) s = feed ys (feed xs s)"
  by (induction xs arbitrary: s) (simp_all add: Let_def)

lemma fold_feed: "fold feed chunks s = feed (concat chunks) s"
  by (induction chunks arbitrary: s) (simp_all add: feed_append)

lemma history_feed:
  "history_ok h s \<Longrightarrow> history_ok (h @ filter (\<lambda>c. c \<noteq> 0) cs) (feed cs s)"
proof (induction cs arbitrary: s h)
  case (Cons c cs)
  show ?case
  proof (cases "found s")
    case True
    then show ?thesis using Cons.prems history_extend by auto
  next
    case False
    have "history_ok (h @ (if c = 0 then [] else [c])) (feedByte c s)"
      using history_feedByteF [OF feedByte_Some Cons.prems False] .
    then show ?thesis using Cons.IH [of "h @ (if c = 0 then [] else [c])"] False
      by (auto simp: Let_def split: if_splits)
  qed
qed simp

text \<open>
  A tag is never invented: when the scanner reports one, the image without
  its zero bytes contains the whole prefix directly followed by a body, and the tag is
  what the parser reads from that body, whatever the chunks the image arrived in.
\<close>

lemma found_tag_is_in_image:
  "found (fold feed chunks resetScanner) \<longrightarrow>
     (\<exists>p b q. filter (\<lambda>c. c \<noteq> 0) (concat chunks) = p @ PREFIX @ b @ q \<and>
        parseOtaImageTagBody b = Some (tag (fold feed chunks resetScanner)))"
proof -
  have "history_ok [] resetScanner"
    by (simp add: history_ok_def scanner_reset_ok)
  from history_feed [OF this, of "concat chunks"] show ?thesis
    by (auto simp: fold_feed history_ok_def)
qed

section \<open>The first tag is found\<close>

lemma feedByte_match: "\<not> capturing s \<Longrightarrow> feedByte c s = matchOnly c s"
  by (simp add: feedByte_def eval_nat_numeral)

lemma feedByte_more:
  "capturing s \<Longrightarrow> c \<noteq> 0 \<Longrightarrow> length (body s) < OTA_TAG_BODY_CAPACITY \<Longrightarrow>
     \<not> endsWithTerminator (body s @ [c]) \<Longrightarrow> feedByte c s = s\<lparr> body := body s @ [c] \<rparr>"
  by (simp add: feedByte_def eval_nat_numeral)

lemma feedByte_accept:
  "capturing s \<Longrightarrow> c \<noteq> 0 \<Longrightarrow> length (body s) < OTA_TAG_BODY_CAPACITY \<Longrightarrow>
     endsWithTerminator (body s @ [c]) \<Longrightarrow> parseOtaImageTagBody (body s @ [c]) = Some t \<Longrightarrow>
     feedByte c s = s\<lparr> body := body s @ [c], tag := t, capturing := False, found := True \<rparr>"
  by (simp add: feedByte_def eval_nat_numeral)

lemma suffix_take_snoc:
  assumes "k < 27"
  shows "suffix (take (Suc k) PREFIX) (h @ [c]) \<longleftrightarrow> suffix (take k PREFIX) h \<and> c = PREFIX ! k"
  using assms by (auto simp: take_Suc_conv_app_nth)

lemma no_overlap:
  assumes "suffix (take k PREFIX) h" "suffix (take m PREFIX) h" "k < m" "m < 27"
  shows "k = 0"
proof (rule ccontr)
  assume "k \<noteq> 0"
  have "suffix (take k PREFIX) (take m PREFIX)"
    using assms suffix_length_suffix [of "take k PREFIX" h "take m PREFIX"] by simp
  then obtain p where "take m PREFIX = p @ take k PREFIX" by (auto simp: suffix_def)
  moreover have "length p = m - k"
    using assms(3,4) arg_cong [OF calculation, of length] by (simp add: min_def split: if_splits)
  ultimately have "take m PREFIX ! (m - k) = take k PREFIX ! 0"
    by (simp add: nth_append)
  then have "PREFIX ! (m - k) = PREFIX ! 0"
    using assms \<open>k \<noteq> 0\<close> by simp
  then show False using PREFIX_first_unique [of "m - k"] assms \<open>k \<noteq> 0\<close> by simp
qed

text \<open>While the prefix has not occurred, the match length is the longest match there is.\<close>

lemma match_longest:
  assumes "\<not> sublist PREFIX h"
  defines "s \<equiv> feed h resetScanner"
  shows "scanner_ok s \<and> \<not> capturing s \<and> \<not> found s \<and> position s = of_nat (length h) \<and>
    suffix (take (matchLength s) PREFIX) h \<and>
    (\<forall>k<27. suffix (take k PREFIX) h \<longrightarrow> k \<le> matchLength s)"
  using assms(1) unfolding s_def
proof (induction h rule: rev_induct)
  case Nil
  have "k < 27 \<Longrightarrow> take k PREFIX = [] \<Longrightarrow> k = 0" for k by (simp add: PREFIX_code)
  then show ?case by (simp add: scanner_reset_ok)
next
  case (snoc c h)
  define s where "s = feed h resetScanner"
  define m where "m = matchLength s"
  have nh: "\<not> sublist PREFIX h" using snoc.prems by (auto simp: sublist_append)
  have ih: "scanner_ok s" "\<not> capturing s" "\<not> found s" "position s = of_nat (length h)"
    "suffix (take m PREFIX) h" "\<And>k. k < 27 \<Longrightarrow> suffix (take k PREFIX) h \<Longrightarrow> k \<le> m" "m < 27"
    using snoc.IH [OF nh] by (auto simp: s_def m_def scanner_ok_def)
  define m' where "m' = (if c = PREFIX ! m then m + 1 else if c = PREFIX ! 0 then 1 else 0)"
  have suf: "suffix (take m' PREFIX) (h @ [c])"
  proof -
    consider "c = PREFIX ! m" | "c \<noteq> PREFIX ! m" "c = PREFIX ! 0" | "m' = 0"
      unfolding m'_def by argo
    then show ?thesis
      using ih(5,7) suffix_take_snoc [of m h c] suffix_take_snoc [of 0 h c]
      by cases (simp_all add: m'_def del: suffix_snoc)
  qed
  have max: "k \<le> m'" if "k < 27" "suffix (take k PREFIX) (h @ [c])" for k
  proof (cases k)
    case (Suc j)
    then have j: "suffix (take j PREFIX) h" "c = PREFIX ! j" "j \<le> m"
      using that suffix_take_snoc [of j h c] ih(6) [of j] by auto
    then show ?thesis
      using no_overlap [of j h m] ih(5,7) Suc by (cases "j = m") (auto simp: m'_def)
  qed simp
  have "m' \<noteq> 27"
  proof
    assume "m' = 27"
    then have "suffix PREFIX (h @ [c])" using suf by simp
    then show False using snoc.prems suffix_imp_sublist by blast
  qed
  then have "feedByte c s = s\<lparr> matchLength := m' \<rparr>"
    using feedByte_match [OF ih(2)] matchOnly_cases [OF ih(1), of c, folded m_def, folded m'_def]
    by (simp add: Let_def)
  moreover have "m' < 27" using \<open>m' \<noteq> 27\<close> ih(7) by (auto simp: m'_def split: if_splits)
  ultimately show ?case
    using ih suf max by (simp add: feed_append s_def [symmetric] Let_def scanner_ok_def)
qed

lemma match_prefix:
  assumes "\<not> sublist PREFIX (butlast (pre @ PREFIX))"
  defines "s \<equiv> feed (pre @ PREFIX) resetScanner"
  shows "scanner_ok s" "capturing s" "\<not> found s" "body s = []" "tagOffset s = of_nat (length pre)"
proof -
  define t where "t = feed (butlast (pre @ PREFIX)) resetScanner"
  have split: "pre @ PREFIX = butlast (pre @ PREFIX) @ [PREFIX ! 26]"
    by (simp add: PREFIX_code butlast_append)
  note m = match_longest [OF assms(1), folded t_def]
  have "suffix (take 26 PREFIX) (butlast (pre @ PREFIX))"
    by (simp add: PREFIX_code butlast_append suffix_def)
  then have "26 \<le> matchLength t" using m by simp
  then have "matchLength t = 26" using m unfolding scanner_ok_def by linarith
  moreover have "length (butlast (pre @ PREFIX)) = length pre + 26" by simp
  ultimately have "s = t\<lparr> capturing := True, body := [], matchLength := 0,
      tagOffset := of_nat (length pre), position := position t + 1 \<rparr>"
    using m unfolding s_def
    by (subst split, subst feed_append) (simp add: t_def [symmetric] Let_def feedByte_match matchOnly_cases)
  then show "scanner_ok s" "capturing s" "\<not> found s" "body s = []" "tagOffset s = of_nat (length pre)"
    using m by (simp_all add: scanner_ok_def)
qed

lemma capture_body:
  assumes "capturing s" "\<not> found s" "0 \<notin> set b" "b \<noteq> []" "length (body s @ b) \<le> OTA_TAG_BODY_CAPACITY"
    and "\<And>k. 0 < k \<Longrightarrow> k < length b \<Longrightarrow> \<not> endsWithTerminator (body s @ take k b)"
    and "endsWithTerminator (body s @ b)" "parseOtaImageTagBody (body s @ b) = Some t"
  shows "found (feed b s) \<and> tag (feed b s) = t \<and> tagOffset (feed b s) = tagOffset s"
  using assms
proof (induction b arbitrary: s)
  case (Cons c cs)
  show ?case
  proof (cases "cs = []")
    case True
    then show ?thesis using Cons.prems feedByte_accept [of s c t] by (simp add: Let_def)
  next
    case False
    define s1 where "s1 = s\<lparr> body := body s @ [c], position := position s + 1 \<rparr>"
    have "feedByte c s = s\<lparr> body := body s @ [c] \<rparr>"
      using Cons.prems(1,3,5) Cons.prems(6) [of 1] False by (intro feedByte_more) auto
    then have f: "feed (c # cs) s = feed cs s1"
      using Cons.prems(2) by (simp add: s1_def)
    have "\<not> endsWithTerminator (body s1 @ take k cs)" if "0 < k" "k < length cs" for k
      using Cons.prems(6) [of "Suc k"] that by (simp add: s1_def)
    then show ?thesis
      using Cons.IH [of s1] Cons.prems False unfolding f by (simp add: s1_def)
  qed
qed simp

text \<open>
  Property C34. A tag at the first occurrence of the prefix is found, wherever it lies in the
  image and however the image is cut into chunks: when the bytes behind the first complete
  prefix are a body that fits the buffer, has no zero byte, ends with its first terminator and
  parses, the scanner reports exactly that tag and the offset of its prefix, and ignores
  everything behind it. (An image holds one prefix, its own tag's. A well-formed tag behind a
  first prefix whose body was refused is another matter: its offset can be off by one,
  replayed_offset_is_early.)
\<close>

theorem first_tag_is_found:
  assumes "concat chunks = pre @ PREFIX @ b @ post"
    and "\<not> sublist PREFIX (butlast (pre @ PREFIX))"
    and "0 \<notin> set b" "length b \<le> OTA_TAG_BODY_CAPACITY"
    and "\<forall>k<length b. \<not> endsWithTerminator (take k b)"
    and "parseOtaImageTagBody b = Some t"
  shows "found (fold feed chunks resetScanner) \<and> tag (fold feed chunks resetScanner) = t \<and>
    tagOffset (fold feed chunks resetScanner) = of_nat (length pre)"
proof -
  define s where "s = feed (pre @ PREFIX) resetScanner"
  note s = match_prefix [OF assms(2), folded s_def]
  have e: "endsWithTerminator b" "b \<noteq> []"
    using assms(6) by (auto simp: parseOtaImageTagBody_def endsWithTerminator_def
        OTA_TAG_TERMINATOR_LENGTH_def split: if_splits)
  have "found (feed b s) \<and> tag (feed b s) = t \<and> tagOffset (feed b s) = tagOffset s"
    by (rule capture_body) (use s e assms(3-6) in auto)
  moreover have "fold feed chunks resetScanner = feed post (feed b s)"
    using feed_append [of "pre @ PREFIX" "b @ post"] assms(1)
    by (simp add: fold_feed feed_append s_def)
  ultimately show ?thesis using s by simp
qed

end
