(* ===== verification/Ota_Tag_Facts.thy ===== *)
theory Ota_Tag_Facts
  imports Ota_Facts
begin

text \<open>
  The grammar of the firmware tag: the decimal parser against its reference, the round
  trip with the tag that \<open>scripts/gen_version.sh\<close> compiles into every image, the tags
  the parser can accept at all, and two images on which the scanner is not exact.
\<close>

section \<open>The decimal field\<close>

definition isDigit :: "u8 \<Rightarrow> bool" where
  "isDigit c \<longleftrightarrow> 48 \<le> unat c \<and> unat c \<le> 57"

fun decimalValue :: "nat \<Rightarrow> bytes \<Rightarrow> nat" where
  "decimalValue acc [] = acc"
| "decimalValue acc (c # cs) = decimalValue (acc * 10 + (unat c - 48)) cs"

lemma decimalValue_ge: "acc \<le> decimalValue acc cs"
proof (induction cs arbitrary: acc)
  case (Cons c cs)
  show ?case using Cons [of "acc * 10 + (unat c - 48)"] by simp
qed simp

lemma digit_iff: "between c CHR ''0'' CHR ''9'' \<longleftrightarrow> isDigit c"
  by (simp add: between_def isDigit_def word_le_nat_alt)

lemma digit_step:
  assumes "isDigit c" "unat acc \<le> 0xFFFFFFFF"
  shows "unat (acc * 10 + ucast (c - 48) :: 64 word) = unat acc * 10 + (unat c - 48)"
proof -
  have d: "unat (c - 48) = unat c - 48"
    using assms(1) by (simp add: isDigit_def unat_sub word_le_nat_alt)
  have u: "unat (ucast (c - 48) :: 64 word) = unat c - 48"
    using unat_below(1) [of "c - 48"] d by (simp add: unsigned_ucast_eq take_bit_nat_eq_self)
  have "unat acc * 10 + (unat c - 48) < 2 ^ 64"
  proof -
    have "unat c - 48 \<le> 9" using assms(1) unfolding isDigit_def by linarith
    then have "unat acc * 10 + (unat c - 48) \<le> 0xFFFFFFFF * 10 + 9" using assms(2) by linarith
    then show ?thesis by simp
  qed
  then show ?thesis
    by (simp add: unat_word_ariths u)
qed

lemma parseDigits_eq:
  "unat acc \<le> 0xFFFFFFFF \<Longrightarrow> parseDigits acc cs =
     (if list_all isDigit cs \<and> decimalValue (unat acc) cs \<le> 0xFFFFFFFF
      then Some (of_nat (decimalValue (unat acc) cs)) else None)"
proof (induction cs arbitrary: acc)
  case (Cons c cs)
  show ?case
  proof (cases "isDigit c")
    case True
    define acc' where "acc' = acc * 10 + ucast (c - 48)"
    have u: "unat acc' = unat acc * 10 + (unat c - 48)"
      unfolding acc'_def by (rule digit_step [OF True Cons.prems])
    have big: "acc' > 0xFFFFFFFF \<longleftrightarrow> unat acc' > 0xFFFFFFFF"
      by (simp add: word_less_nat_alt)
    have "parseDigits acc (c # cs) = (if acc' > 0xFFFFFFFF then None else parseDigits acc' cs)"
      using True by (simp add: digit_iff acc'_def Let_def)
    then show ?thesis
      using True Cons.IH [of acc'] decimalValue_ge [of "unat acc'" cs]
      by (auto simp: big u)
  qed (simp add: digit_iff)
qed simp

text \<open>
  The packed version is parsed as a plain decimal number that fits 32 bits:
  one to ten digits, no sign or blank, the exact value, and refusal instead of wrap-around.
\<close>

lemma otaParseUint32_exact:
  "otaParseUint32 v =
     (if v \<noteq> [] \<and> length v \<le> 10 \<and> list_all isDigit v \<and> decimalValue 0 v < 2 ^ 32
      then Some (of_nat (decimalValue 0 v)) else None)"
proof -
  have "(ucast (of_nat n :: 64 word) :: u32) = of_nat n" if "n < 2 ^ 32" for n
    using that by (simp add: word_eq_iff_unsigned unsigned_ucast_eq unsigned_of_nat take_bit_nat_eq_self)
  then show ?thesis
    by (auto simp: otaParseUint32_def parseDigits_eq)
qed

section \<open>The tag compiled into an image\<close>

fun decimal :: "nat \<Rightarrow> bytes" where
  "decimal n = (if n < 10 then [of_nat (48 + n)] else decimal (n div 10) @ [of_nat (48 + n mod 10)])"

declare decimal.simps [simp del]

text \<open>\<open>FW_IMAGE_TAG_STRING\<close> behind its prefix.\<close>

definition renderTagBody :: "OtaImageTag \<Rightarrow> bytes" where
  "renderTagBody t =
     ascii ''arch='' @ arch t @ ascii ''|hw='' @ hardware t @ ascii ''|machine='' @ machine t @
     ascii ''|ver='' @ version t @ ascii ''|packed='' @ decimal (unat (packed t)) @ ascii ''|END''"

definition tag_usable :: "OtaImageTag \<Rightarrow> bool" where
  "tag_usable t \<longleftrightarrow> valid t \<and>
     arch t \<noteq> [] \<and> length (arch t) < OTA_ARCH_CAPACITY \<and> list_all otaArchCharAllowed (arch t) \<and>
     arch t \<noteq> ascii ''unknown'' \<and>
     hardware t \<noteq> [] \<and> length (hardware t) < OTA_PROFILE_COMPAT_CAPACITY \<and>
     list_all otaProfileCharAllowed (hardware t) \<and>
     machine t \<noteq> [] \<and> length (machine t) < OTA_PROFILE_COMPAT_CAPACITY \<and>
     list_all otaProfileCharAllowed (machine t) \<and>
     version t \<noteq> [] \<and> length (version t) < OTA_VERSION_CAPACITY \<and>
     list_all otaVersionCharAllowed (version t)"

lemma decimalValue_append:
  "decimalValue acc (xs @ ys) = decimalValue (decimalValue acc xs) ys"
  by (induction xs arbitrary: acc) simp_all

lemma unat_digit: "d < 10 \<Longrightarrow> unat (of_nat (48 + d) :: u8) = 48 + d"
  by (subst unat_of_nat) simp

lemma decimal_value: "decimalValue 0 (decimal n) = n"
proof (induction n rule: less_induct)
  case (less n)
  have d: "unat (of_nat (48 + n mod 10) :: u8) = 48 + n mod 10" by (rule unat_digit) simp
  show ?case
  proof (cases "n < 10")
    case True
    then show ?thesis using unat_digit [OF True] by (subst decimal.simps) simp
  next
    case False
    then have "decimalValue 0 (decimal (n div 10)) = n div 10" using less [of "n div 10"] by simp
    then show ?thesis using False d by (subst decimal.simps) (simp add: decimalValue_append)
  qed
qed

lemma decimal_digits: "list_all isDigit (decimal n)"
proof (induction n rule: less_induct)
  case (less n)
  have d: "isDigit (of_nat (48 + k))" if "k < 10" for k
    using that unat_digit [OF that] by (simp add: isDigit_def)
  show ?case
  proof (cases "n < 10")
    case True
    then show ?thesis using d [OF True] by (subst decimal.simps) simp
  next
    case False
    then show ?thesis using less [of "n div 10"] d [of "n mod 10"] by (subst decimal.simps) simp
  qed
qed

lemma decimal_length: "n < 10 ^ Suc k \<Longrightarrow> decimal n \<noteq> [] \<and> length (decimal n) \<le> Suc k"
proof (induction k arbitrary: n)
  case 0
  then show ?case by (subst (1 2) decimal.simps) simp
next
  case (Suc k)
  then show ?case using Suc.IH [of "n div 10"]
    by (cases "n < 10") (subst (1 2) decimal.simps, simp)+
qed

lemma otaParseUint32_decimal: "otaParseUint32 (decimal (unat x)) = Some x"
proof -
  have "unat x < 10 ^ Suc 9" using unat_below(2) [of x] by simp
  then have "decimal (unat x) \<noteq> [] \<and> length (decimal (unat x)) \<le> 10"
    using decimal_length [of "unat x" 9] by simp
  then show ?thesis
    using unat_below(2) [of x] by (simp add: otaParseUint32_exact decimal_value decimal_digits)
qed

section \<open>Splitting at separators\<close>

lemma parseFields_Nil [simp]: "parseFields [] p = Some p"
  by (subst parseFields.simps) simp

lemma parseFields_last:
  assumes "f \<noteq> []" "124 \<notin> set f"
  shows "parseFields f p = parseField f p"
proof -
  have t: "takeWhile (\<lambda>c. c \<noteq> 124) f = f"
    using assms(2) by (auto simp: takeWhile_eq_all_conv)
  show ?thesis using assms(1)
    by (subst parseFields.simps) (simp add: Let_def t split: option.split)
qed

lemma parseFields_more:
  assumes "124 \<notin> set f"
  shows "parseFields (f @ 124 # rest) p =
    (case parseField f p of None \<Rightarrow> None | Some p' \<Rightarrow> parseFields rest p')"
proof -
  have t: "takeWhile (\<lambda>c. c \<noteq> 124) (f @ 124 # rest) = f"
    using assms by (subst takeWhile_append2) auto
  have d: "drop (Suc (length f)) (f @ 124 # rest) = rest" by simp
  show ?thesis
    by (subst parseFields.simps) (simp add: Let_def t d del: takeWhile_append drop_append split: option.split)
qed

lemma parseField_named:
  assumes "61 \<notin> set n"
  shows "parseField (n @ 61 # v) p = parseNamed n v p"
proof -
  have "takeWhile (\<lambda>c. c \<noteq> 61) (n @ 61 # v) = n"
    using assms by (subst takeWhile_append2) auto
  then show ?thesis by (simp add: parseField_def Let_def)
qed

lemma between_not: "between c lo hi \<Longrightarrow> x < of_char lo \<or> of_char hi < x \<Longrightarrow> c \<noteq> x"
  by (auto simp: between_def)

lemma allowed_no_bar:
  "otaArchCharAllowed c \<Longrightarrow> c \<noteq> 124" "otaProfileCharAllowed c \<Longrightarrow> c \<noteq> 124"
  "otaVersionCharAllowed c \<Longrightarrow> c \<noteq> 124" "isDigit c \<Longrightarrow> c \<noteq> 124"
  by (auto simp: otaArchCharAllowed_def otaProfileCharAllowed_def otaVersionCharAllowed_def
      isDigit_def between_def)

lemma all_no_bar:
  "list_all otaArchCharAllowed v \<Longrightarrow> 124 \<notin> set v" "list_all otaProfileCharAllowed v \<Longrightarrow> 124 \<notin> set v"
  "list_all otaVersionCharAllowed v \<Longrightarrow> 124 \<notin> set v" "list_all isDigit v \<Longrightarrow> 124 \<notin> set v"
  using allowed_no_bar unfolding list_all_iff by blast+


lemma field_then:
  assumes "61 \<notin> set n" "124 \<notin> set n" "124 \<notin> set v"
  shows "parseFields (n @ 61 # v @ 124 # rest) p =
    (case parseNamed n v p of None \<Rightarrow> None | Some p' \<Rightarrow> parseFields rest p')"
  using parseFields_more [of "n @ 61 # v" rest p] parseField_named [OF assms(1), of v p] assms by simp

lemma copy_ok:
  "v \<noteq> [] \<Longrightarrow> length v < cap \<Longrightarrow> list_all P v \<Longrightarrow> otaCopyField v cap P = Some v"
  by (simp add: otaCopyField_def)

lemma copy_Some:
  "otaCopyField v cap P = Some w \<longleftrightarrow> w = v \<and> v \<noteq> [] \<and> length v < cap \<and> list_all P v"
  by (auto simp: otaCopyField_def)

lemma render_split: "renderTagBody t =
    (ascii ''arch'' @ 61 # arch t @ 124 # ascii ''hw'' @ 61 # hardware t @ 124 #
     ascii ''machine'' @ 61 # machine t @ 124 # ascii ''ver'' @ 61 # version t @ 124 #
     ascii ''packed'' @ 61 # decimal (unat (packed t))) @ OTA_TAG_TERMINATOR"
  by (simp add: renderTagBody_def ascii_def OTA_TAG_TERMINATOR_def)

lemma names_plain:
  "61 \<notin> set (ascii ''arch'')" "61 \<notin> set (ascii ''hw'')" "61 \<notin> set (ascii ''machine'')"
  "61 \<notin> set (ascii ''ver'')" "61 \<notin> set (ascii ''packed'')"
  "124 \<notin> set (ascii ''arch'')" "124 \<notin> set (ascii ''hw'')" "124 \<notin> set (ascii ''machine'')"
  "124 \<notin> set (ascii ''ver'')" "124 \<notin> set (ascii ''packed'')"
  by (simp_all add: ascii_def)

lemma names_distinct:
  "ascii ''hw'' \<noteq> ascii ''arch''" "ascii ''machine'' \<noteq> ascii ''arch''" "ascii ''machine'' \<noteq> ascii ''hw''"
  "ascii ''ver'' \<noteq> ascii ''arch''" "ascii ''ver'' \<noteq> ascii ''hw''" "ascii ''ver'' \<noteq> ascii ''machine''"
  "ascii ''packed'' \<noteq> ascii ''arch''" "ascii ''packed'' \<noteq> ascii ''hw''"
  "ascii ''packed'' \<noteq> ascii ''machine''" "ascii ''packed'' \<noteq> ascii ''ver''"
  by (simp_all add: ascii_def)

lemma render_parses:
  assumes "tag_usable t"
  shows "parseOtaImageTagBody (renderTagBody t) = Some t"
proof -
  define payload where "payload = ascii ''arch'' @ 61 # arch t @ 124 # ascii ''hw'' @ 61 # hardware t @ 124 #
     ascii ''machine'' @ 61 # machine t @ 124 # ascii ''ver'' @ 61 # version t @ 124 #
     ascii ''packed'' @ 61 # decimal (unat (packed t))"
  note u = assms [unfolded tag_usable_def]
  have last: "parseFields (ascii ''packed'' @ 61 # decimal (unat (packed t))) p =
      parseNamed (ascii ''packed'') (decimal (unat (packed t))) p" for p
    using names_plain all_no_bar(4) [OF decimal_digits, of "unat (packed t)"]
    by (subst parseFields_last) (auto simp: parseField_named)
  have bars: "124 \<notin> set (arch t)" "124 \<notin> set (hardware t)" "124 \<notin> set (machine t)" "124 \<notin> set (version t)"
    using u all_no_bar by blast+
  have "parseFields payload parse0 = Some \<lparr> out = t\<lparr> valid := False \<rparr>, haveArch = True,
      haveHardware = True, haveMachine = True, haveVersion = True, havePacked = True \<rparr>"
    using u bars names_plain
    by (simp add: payload_def field_then last parseNamed_def names_distinct copy_ok parse0_def noTag_def
        otaParseUint32_decimal)
  moreover have "length OTA_TAG_TERMINATOR = OTA_TAG_TERMINATOR_LENGTH"
    by (simp add: OTA_TAG_TERMINATOR_def OTA_TAG_TERMINATOR_LENGTH_def ascii_def)
  ultimately show ?thesis
    using u unfolding render_split payload_def [symmetric]
    by (simp add: parseOtaImageTagBody_def otaArchIsUsable_def otaProfileIsUsable_def)
qed

text \<open>What the parser accepts at all.\<close>

definition parse_sound :: "parse_state \<Rightarrow> bool" where
  "parse_sound p \<longleftrightarrow> (haveArch p \<longrightarrow> length (arch (out p)) < OTA_ARCH_CAPACITY \<and> arch (out p) \<noteq> [] \<and>
       list_all otaArchCharAllowed (arch (out p))) \<and>
     (haveHardware p \<longrightarrow> length (hardware (out p)) < OTA_PROFILE_COMPAT_CAPACITY) \<and>
     (haveMachine p \<longrightarrow> length (machine (out p)) < OTA_PROFILE_COMPAT_CAPACITY) \<and>
     (haveVersion p \<longrightarrow> length (version (out p)) < OTA_VERSION_CAPACITY \<and> version (out p) \<noteq> [] \<and>
       list_all otaVersionCharAllowed (version (out p)))"

lemma sound_updates:
  assumes "parse_sound p"
  shows "otaCopyField v OTA_ARCH_CAPACITY otaArchCharAllowed = Some w \<Longrightarrow>
      parse_sound (p\<lparr> out := (out p)\<lparr> arch := w \<rparr>, haveArch := True \<rparr>)"
    "otaCopyField v OTA_PROFILE_COMPAT_CAPACITY otaProfileCharAllowed = Some w \<Longrightarrow>
      parse_sound (p\<lparr> out := (out p)\<lparr> hardware := w \<rparr>, haveHardware := True \<rparr>)"
    "otaCopyField v OTA_PROFILE_COMPAT_CAPACITY otaProfileCharAllowed = Some w \<Longrightarrow>
      parse_sound (p\<lparr> out := (out p)\<lparr> machine := w \<rparr>, haveMachine := True \<rparr>)"
    "otaCopyField v OTA_VERSION_CAPACITY otaVersionCharAllowed = Some w \<Longrightarrow>
      parse_sound (p\<lparr> out := (out p)\<lparr> version := w \<rparr>, haveVersion := True \<rparr>)"
    "parse_sound (p\<lparr> out := (out p)\<lparr> packed := x \<rparr>, havePacked := True \<rparr>)"
  using assms by (simp_all add: parse_sound_def copy_Some)

lemma parseNamed_sound:
  assumes "parse_sound p"
  shows "parseNamed n v p = Some p' \<Longrightarrow> parse_sound p'"
  using assms sound_updates [OF assms] unfolding parseNamed_def
  by (simp only: split: if_splits option.splits) blast+

lemma parseField_sound:
  "parseField f p = Some p' \<Longrightarrow> parse_sound p \<Longrightarrow> parse_sound p'"
  using parseNamed_sound by (auto simp: parseField_def Let_def split: if_splits)

lemma parseFields_sound:
  "parseFields f p = Some p' \<Longrightarrow> parse_sound p \<Longrightarrow> parse_sound p'"
proof (induction f p rule: parseFields.induct)
  case (1 payload p)
  show ?case
  proof (cases "payload = []")
    case False
    then show ?thesis
      using "1.prems" "1.IH" [OF False refl] parseField_sound
      by (subst (asm) parseFields.simps) (auto simp: Let_def split: option.splits)
  qed (use "1.prems" in simp)
qed

lemma accepted_usable:
  assumes "parseOtaImageTagBody b = Some t"
  shows "tag_usable t"
proof -
  obtain p where p: "parseFields (take (length b - OTA_TAG_TERMINATOR_LENGTH) b) parse0 = Some p"
    "haveArch p" "haveHardware p" "haveMachine p" "haveVersion p" "otaArchIsUsable (arch (out p))"
    "otaProfileIsUsable (hardware (out p))" "otaProfileIsUsable (machine (out p))"
    "t = (out p)\<lparr> valid := True \<rparr>"
    using assms by (auto simp: parseOtaImageTagBody_def split: if_splits option.splits)
  have "parse_sound p"
    using parseFields_sound [OF p(1)] by (simp add: parse_sound_def parse0_def)
  then show ?thesis
    using p by (simp add: parse_sound_def tag_usable_def otaArchIsUsable_def otaProfileIsUsable_def split: if_splits)
qed

text \<open>
  Property C35. The tag that the build script writes into an image is read back field by
  field, and no body at all can make the parser report a tag that such a build could not
  have written: the tags it accepts are exactly those with non-empty fields of allowed
  characters that fit their buffers and a board that is not unknown.
\<close>

theorem tag_roundtrip:
  "(tag_usable t \<longleftrightarrow> parseOtaImageTagBody (renderTagBody t) = Some t) \<and>
   (tag_usable t \<longleftrightarrow> (\<exists>b. parseOtaImageTagBody b = Some t))"
  using render_parses accepted_usable by blast

section \<open>Two images on which the scanner is not exact\<close>

definition sampleTag :: OtaImageTag where
  "sampleTag = \<lparr> valid = True, arch = ascii ''s3'', hardware = ascii ''a'', machine = ascii ''b'',
     version = ascii ''1'', packed = 7 \<rparr>"

definition spliced_image :: bytes where
  "spliced_image = PREFIX @ [120] @ take 10 PREFIX @ [0] @ drop 10 PREFIX @ renderTagBody sampleTag"

definition nested_image :: bytes where
  "nested_image = PREFIX @ ascii ''arch=x'' @ PREFIX @ renderTagBody sampleTag"

lemma sample_render: "renderTagBody sampleTag = ascii ''arch=s3|hw=a|machine=b|ver=1|packed=7|END''"
  by (simp add: renderTagBody_def sampleTag_def ascii_def decimal.simps)

text \<open>
  A zero byte that ends a capture is not offered to the matcher after the
  replay, so a prefix may be matched across it: the scanner reports a tag in an image
  that nowhere contains the prefix directly followed by that tag.
\<close>

lemma zero_byte_is_spliced:
  "found (feed spliced_image resetScanner) \<and> tag (feed spliced_image resetScanner) = sampleTag \<and>
   \<not> sublist (PREFIX @ renderTagBody sampleTag) spliced_image"
proof -
  have "found (feed spliced_image resetScanner) \<and> tag (feed spliced_image resetScanner) = sampleTag"
    by code_simp
  moreover have "\<not> sublist (PREFIX @ renderTagBody sampleTag) spliced_image"
    by code_simp
  ultimately show ?thesis by blast
qed

text \<open>
  A body refused at its terminator is replayed with the clock one byte
  behind, because the terminator's last byte was already captured: the reported offset
  of a tag found in that replay is one byte before the tag.
\<close>

lemma replayed_offset_is_early:
  "tagOffset (feed nested_image resetScanner) + 1 = of_nat (length (PREFIX @ ascii ''arch=x'')) \<and>
   take 27 (drop 33 nested_image) = PREFIX \<and> tag (feed nested_image resetScanner) = sampleTag"
  by code_simp

section \<open>Instances\<close>

lemma nested_found: "found (feed nested_image resetScanner)"
  by code_simp

lemma found_tag_is_in_image_witness:
  "\<exists>p b q. filter (\<lambda>c. c \<noteq> 0) (concat [nested_image]) = p @ PREFIX @ b @ q \<and>
     parseOtaImageTagBody b = Some (tag (fold feed [nested_image] resetScanner))"
  by (rule found_tag_is_in_image [of "[nested_image]", THEN mp]) (simp add: nested_found)

lemma sample_bounds:
  "0 \<notin> set (renderTagBody sampleTag)" "length (renderTagBody sampleTag) \<le> OTA_TAG_BODY_CAPACITY"
  "\<forall>k<length (renderTagBody sampleTag). \<not> endsWithTerminator (take k (renderTagBody sampleTag))"
  "parseOtaImageTagBody (renderTagBody sampleTag) = Some sampleTag"
  "\<not> sublist PREFIX (butlast ([233, 0, 79] @ PREFIX))"
  by code_simp+

lemma first_tag_is_found_witness:
  "let s = fold feed [[233, 0], [79] @ PREFIX, renderTagBody sampleTag @ [0, 1]] resetScanner in
     found s \<and> tag s = sampleTag \<and> tagOffset s = of_nat 3"
  using first_tag_is_found [of "[[233, 0], [79] @ PREFIX, renderTagBody sampleTag @ [0, 1]]"
      "[233, 0, 79]" "renderTagBody sampleTag" "[0, 1]" sampleTag] sample_bounds
  by (simp add: Let_def)

end
