(* ===== verification/Event_Log.thy ===== *)
theory Event_Log
  imports Array_Ring
begin

text \<open>
  The event vocabulary and the common log ring of \<open>src/OpenBrewByWeightDomain.h\<close>: the
  debug codes with their default levels and \<open>DebugRingBuffer\<close>, 512 slots read back by
  sequence number with a signed wrap-around comparison.
\<close>

section \<open>Codes and levels\<close>

text \<open>An enumerator's value is its position in the enumeration.\<close>

type_synonym DebugCode = u8

definition debugCodeNames :: "string list" where
  "debugCodeNames =
    [''ACTIVATOR_ON'', ''ACTIVATOR_OFF'', ''RELAY_CLOSED'',
     ''RELAY_OPENED'', ''HARD_LIMIT'', ''OPERATIONAL_LIMIT'',
     ''STATE_TRANSITION'', ''SCALE_CONNECTING'', ''SCALE_CONNECTED'',
     ''SCALE_DISCONNECTED'', ''SCALE_TIMER_START_OK'', ''SCALE_TIMER_START_FAILED'',
     ''SCALE_TIMER_STOP_OK'', ''SCALE_TIMER_STOP_FAILED'', ''SCALE_BEEP_OK'',
     ''SCALE_BEEP_FAILED'', ''SCALE_BEEP_UNSUPPORTED'', ''SCALE_PADDLE_REMINDER_BEEP_OK'',
     ''SCALE_PADDLE_REMINDER_BEEP_FAILED'', ''SCALE_PADDLE_REMINDER_BEEP_UNSUPPORTED'', ''SCALE_DEBUG_OK'',
     ''SCALE_DEBUG_FAILED'', ''SCALE_DEBUG_UNSUPPORTED'', ''CONFIG_ACCEPTED'',
     ''CONFIG_REJECTED'', ''WEIGHT_OFFSET_RESET'', ''AUTO_TO_MANUAL_GUARD_SAMPLES_RESET'',
     ''AUTO_TO_MANUAL_GUARD_ARMED'', ''AUTO_TO_MANUAL_GUARD_ENFORCED'', ''AUTO_TO_MANUAL_GUARD_CLEARED'',
     ''AUTO_TO_MANUAL_GUARD_FIRED'', ''CONFIG_PERSISTED'', ''AP_STARTED'',
     ''AP_STOPPED'', ''STA_CONNECTING'', ''STA_CONNECTED'',
     ''STA_FAILED'', ''WIFI_SCAN_STARTED'', ''WIFI_SCAN_COMPLETE'',
     ''WIFI_SCAN_ERROR'', ''WIFI_SCAN_CANCELED'', ''WEB_REMOTE_ON'',
     ''WEB_REMOTE_OFF'', ''WEB_RINSE'', ''WEB_COMMAND_ACCEPTED'',
     ''WEB_COMMAND_REJECTED'', ''WEB_STOP'', ''RESTART_REQUESTED'',
     ''NETWORK_RESET'', ''FACTORY_RESET'', ''MAINTENANCE_RESERVED'',
     ''MAINTENANCE_COMPLETED'', ''MAINTENANCE_CANCELED'', ''COMMAND_RETRY'',
     ''COMMAND_FAILED'', ''SCALE_EVENT_DROPPED'', ''SCALE_SAMPLE_REJECTED_INVALID'',
     ''SCALE_SAMPLE_REJECTED_RANGE'', ''SCALE_SAMPLE_REJECTED_SLEW'', ''SCALE_SAMPLE_REJECTED_RECOVERY'',
     ''SCALE_SAMPLE_REJECTED_PRE_CYCLE'', ''SCALE_POST_TARE_BASELINE_TIMEOUT'', ''SCALE_STREAM_STALE'',
     ''SCALE_CONTROL_SUSPENDED'', ''SCALE_CONTROL_RECOVERED'', ''SCALE_THRESHOLD_CONFIRMED'',
     ''SCALE_OVERLOAD_CONFIRMED'', ''SCALE_STALE_EVENT_REJECTED'', ''SCALE_PACKET_GAP'',
     ''NETWORK_RETRY'', ''INITIALIZATION_FAILED'', ''TIME_SYNC_OK'',
     ''TIME_SYNC_FAIL'', ''FIRST_DROP_DURING_RETARE'', ''FAST_EXTRACTION_ENTERED'',
     ''FAST_EXTRACTION_STOP_MAX'', ''CHANNELING_DETECTED'', ''SLOW_EXTRACTION_ENTERED'',
     ''SLOW_EXTRACTION_STOP_MAX_TIME'', ''SLOW_EXTRACTION_STOP_MIN_WEIGHT'', ''ACCIDENTAL_TOUCH_HOLD'',
     ''ACCIDENTAL_TOUCH_RELEASE'', ''ACCIDENTAL_TOUCH_HANDOFF'', ''ACCIDENTAL_TOUCH_SUSTAINED'',
     ''SHOT_LOG_PERSIST_FAILED'', ''RUNTIME_PERSIST_FAILED'', ''BOOT_BANNER'',
     ''BOOT_RESET_REASON'', ''BOOT_SUBSYSTEM'', ''BOOT_RUNTIME_CONFIG'',
     ''BOOT_READY'', ''SAFETY_LOCKOUT_ACTIVE'', ''CIRCUIT_ARM_FAILED'',
     ''CYCLE_STARTED'', ''CYCLE_ENDED'', ''BREW_STARTED'',
     ''TIMER_ONLY_BREW_STARTED'', ''MANUAL_CYCLE_STARTED'', ''NO_SCALE_SHOT_GUARD_BLOCKED'',
     ''NO_SCALE_SHOT_GUARD_ARMED'', ''NO_SCALE_SHOT_GUARD_CONSUMED'', ''CUP_START_GUARD_BLOCKED'',
     ''CUP_REMOVED_CONFIRMED'', ''RINSE_CLASSIFIED'', ''SYSTEM_LOG_OVERRUN'',
     ''DEVICE_PASSWORD_RESET'', ''HEALTH_HEAP_LOW'', ''HEALTH_HEAP_RESTART'',
     ''HEALTH_STACK_LOW'', ''HEALTH_LOOP_GAP'', ''OTA_UPLOAD_STARTED'',
     ''OTA_IMAGE_STAGED'', ''OTA_UPLOAD_REJECTED'', ''OTA_FLASH_COMMITTED'',
     ''OTA_IMAGE_CONFIRMED'', ''OTA_ROLLBACK_ARMED'', ''OTA_ROLLBACK_FAILED'',
     ''RELAY_GPIO_DESYNC'', ''SCALE_SCAN_STARTED'', ''SCALE_SCAN_WAITING'',
     ''SCALE_GATT_CONNECTING'', ''SCALE_CONNECT_ATTEMPT_FAILED'', ''SCALE_CONNECT_FAILED'',
     ''MACHINE_MUX_WAIT'', ''LOG_TEXT'']"

fun positionOf :: "string \<Rightarrow> string list \<Rightarrow> nat" where
  "positionOf x [] = 0"
| "positionOf x (y # ys) = (if x = y then 0 else Suc (positionOf x ys))"

definition debugCode :: "string \<Rightarrow> DebugCode" where
  "debugCode name = of_nat (positionOf name debugCodeNames)"

datatype LogLevel = LvCritical | LvError | LvWarning | LvInfo | LvDebug | LvNone

fun levelValue :: "LogLevel \<Rightarrow> u8" where
  "levelValue LvCritical = 0"
| "levelValue LvError = 1"
| "levelValue LvWarning = 2"
| "levelValue LvInfo = 3"
| "levelValue LvDebug = 4"
| "levelValue LvNone = 5"

datatype DebugCategory = CatActivator | CatRelay | CatState | CatScale | CatConfig | CatNetwork |
  CatSecurity | CatWeb | CatBoot | CatSystem

fun categoryValue :: "DebugCategory \<Rightarrow> u8" where
  "categoryValue CatActivator = 0"
| "categoryValue CatRelay = 1"
| "categoryValue CatState = 2"
| "categoryValue CatScale = 3"
| "categoryValue CatConfig = 4"
| "categoryValue CatNetwork = 5"
| "categoryValue CatSecurity = 6"
| "categoryValue CatWeb = 7"
| "categoryValue CatBoot = 8"
| "categoryValue CatSystem = 9"

definition logLevelName :: "LogLevel \<Rightarrow> string" where
  "logLevelName level = (case level of LvCritical \<Rightarrow> ''critical'' | LvError \<Rightarrow> ''error''
     | LvWarning \<Rightarrow> ''warning'' | LvInfo \<Rightarrow> ''info'' | LvDebug \<Rightarrow> ''debug'' | LvNone \<Rightarrow> ''none'')"

definition parseLogLevel :: "string \<Rightarrow> u8 option" where
  "parseLogLevel t =
     (if t = ''critical'' then Some (levelValue LvCritical)
      else if t = ''error'' then Some (levelValue LvError)
      else if t = ''warning'' then Some (levelValue LvWarning)
      else if t = ''info'' then Some (levelValue LvInfo)
      else if t = ''debug'' then Some (levelValue LvDebug)
      else if t = ''none'' then Some (levelValue LvNone)
      else None)"

definition logLevelAtMost :: "LogLevel \<Rightarrow> LogLevel \<Rightarrow> bool" where
  "logLevelAtMost level threshold \<longleftrightarrow>
     (if threshold = LvNone then False else levelValue level \<le> levelValue threshold)"

definition debugCodeDefaultLevel :: "DebugCode \<Rightarrow> LogLevel" where
  "debugCodeDefaultLevel code =
     (if code \<in> set (map debugCode
       [''INITIALIZATION_FAILED'', ''CIRCUIT_ARM_FAILED'', ''SAFETY_LOCKOUT_ACTIVE'',
        ''HARD_LIMIT'']) then LvCritical
      else if code \<in> set (map debugCode
       [''SCALE_TIMER_START_FAILED'', ''SCALE_TIMER_STOP_FAILED'', ''SCALE_BEEP_FAILED'',
        ''SCALE_PADDLE_REMINDER_BEEP_FAILED'', ''SCALE_DEBUG_FAILED'', ''STA_FAILED'',
        ''COMMAND_FAILED'', ''SHOT_LOG_PERSIST_FAILED'', ''RUNTIME_PERSIST_FAILED'',
        ''SCALE_STREAM_STALE'', ''SCALE_CONTROL_SUSPENDED'', ''SCALE_BEEP_UNSUPPORTED'',
        ''SCALE_PADDLE_REMINDER_BEEP_UNSUPPORTED'', ''SCALE_DEBUG_UNSUPPORTED'']) then LvError
      else if code \<in> set (map debugCode
       [''SCALE_SAMPLE_REJECTED_INVALID'', ''SCALE_SAMPLE_REJECTED_RANGE'', ''SCALE_SAMPLE_REJECTED_SLEW'',
        ''SCALE_SAMPLE_REJECTED_RECOVERY'', ''SCALE_SAMPLE_REJECTED_PRE_CYCLE'', ''SCALE_POST_TARE_BASELINE_TIMEOUT'',
        ''SCALE_EVENT_DROPPED'', ''SCALE_PACKET_GAP'', ''SCALE_STALE_EVENT_REJECTED'',
        ''CONFIG_REJECTED'', ''NETWORK_RETRY'', ''WIFI_SCAN_ERROR'',
        ''WIFI_SCAN_CANCELED'', ''TIME_SYNC_FAIL'', ''WEB_COMMAND_REJECTED'',
        ''COMMAND_RETRY'', ''OPERATIONAL_LIMIT'', ''SYSTEM_LOG_OVERRUN'',
        ''FIRST_DROP_DURING_RETARE'', ''HEALTH_HEAP_LOW'', ''HEALTH_HEAP_RESTART'',
        ''HEALTH_STACK_LOW'', ''HEALTH_LOOP_GAP'', ''OTA_UPLOAD_REJECTED'',
        ''RELAY_GPIO_DESYNC'', ''SCALE_CONNECT_ATTEMPT_FAILED'', ''SCALE_CONNECT_FAILED'',
        ''MACHINE_MUX_WAIT'']) then LvWarning
      else if code \<in> set (map debugCode
       [''OTA_ROLLBACK_ARMED'', ''OTA_ROLLBACK_FAILED'']) then LvCritical
      else if code \<in> set (map debugCode
       [''SCALE_CONNECTING'', ''SCALE_SCAN_WAITING'', ''SCALE_TIMER_START_OK'',
        ''SCALE_TIMER_STOP_OK'', ''SCALE_BEEP_OK'', ''SCALE_PADDLE_REMINDER_BEEP_OK'',
        ''SCALE_DEBUG_OK'', ''STA_CONNECTING'', ''WIFI_SCAN_STARTED'',
        ''WIFI_SCAN_COMPLETE'', ''WEB_COMMAND_ACCEPTED'', ''MAINTENANCE_RESERVED'',
        ''MAINTENANCE_COMPLETED'', ''MAINTENANCE_CANCELED'']) then LvDebug
      else LvInfo)"

section \<open>The common ring\<close>

definition DEBUG_EVENT_CAPACITY :: nat where "DEBUG_EVENT_CAPACITY = 512"
definition DEBUG_EVENT_TEXT_CAPACITY :: nat where "DEBUG_EVENT_TEXT_CAPACITY = 128"

text \<open>A C string is the list of its bytes; the copy truncates to the buffer.\<close>

definition copyCString :: "nat \<Rightarrow> bytes \<Rightarrow> bytes" where
  "copyCString capacity source = take (capacity - 1) (takeWhile (\<lambda>c. c \<noteq> 0) source)"

record DebugEvent =
  deSequence :: u32
  deAtMs :: u32
  deWallSec :: u32
  deLevel :: LogLevel
  deCategory :: DebugCategory
  deCode :: DebugCode
  deArgument1 :: u32
  deArgument2 :: u32
  deText :: bytes

definition noEvent :: DebugEvent where
  "noEvent = \<lparr> deSequence = 0, deAtMs = 0, deWallSec = 0, deLevel = LvInfo, deCategory = CatState,
     deCode = debugCode ''STATE_TRANSITION'', deArgument1 = 0, deArgument2 = 0, deText = [] \<rparr>"

record DebugRingBuffer =
  drEvents :: "DebugEvent list"
  drNextSequence :: u32
  drCount :: nat
  drWriteIndex :: nat
  drOverwritten :: u32

definition debugClear :: "DebugRingBuffer \<Rightarrow> DebugRingBuffer" where
  "debugClear b = b\<lparr> drNextSequence := 1, drCount := 0, drWriteIndex := 0, drOverwritten := 0,
     drEvents := map (\<lambda>_. noEvent) (drEvents b) \<rparr>"

definition nextAfter :: "u32 \<Rightarrow> u32" where
  "nextAfter seq = (if seq + 1 = 0 then 1 else seq + 1)"

definition debugAdd :: "DebugEvent \<Rightarrow> DebugRingBuffer \<Rightarrow> DebugRingBuffer" where
  "debugAdd e b =
     (let event = e\<lparr> deSequence := drNextSequence b,
                     deText := copyCString DEBUG_EVENT_TEXT_CAPACITY (deText e) \<rparr> in
      b\<lparr> drOverwritten := (if drCount b = DEBUG_EVENT_CAPACITY then drOverwritten b + 1 else drOverwritten b),
         drCount := (if drCount b = DEBUG_EVENT_CAPACITY then drCount b else drCount b + 1),
         drEvents := (drEvents b)[drWriteIndex b := event],
         drNextSequence := nextAfter (drNextSequence b),
         drWriteIndex := (drWriteIndex b + 1) mod DEBUG_EVENT_CAPACITY \<rparr>)"

definition sequenceAfter :: "u32 \<Rightarrow> u32 \<Rightarrow> bool" where
  "sequenceAfter seq reference \<longleftrightarrow> seq \<noteq> reference \<and> sint (seq - reference) > 0"

definition missedBefore :: "u32 \<Rightarrow> u32 \<Rightarrow> u32" where
  "missedBefore afterSequence oldestSequence =
     (let distance = oldestSequence - afterSequence;
          distance = (if oldestSequence < afterSequence then distance - 1 else distance) in
      if distance > 0 then distance - 1 else 0)"

record DebugLogReadMetadata =
  historyOverwritten :: u32
  missedEvents :: u32
  hasMore :: bool
  cursorInvalid :: bool

definition oldestIndex :: "DebugRingBuffer \<Rightarrow> nat" where
  "oldestIndex b = (drWriteIndex b + DEBUG_EVENT_CAPACITY - drCount b) mod DEBUG_EVENT_CAPACITY"

definition eventAt :: "DebugRingBuffer \<Rightarrow> nat \<Rightarrow> DebugEvent" where
  "eventAt b index = drEvents b ! ((oldestIndex b + index) mod DEBUG_EVENT_CAPACITY)"

text \<open>The copy loop: events after the cursor go out until the output is full, the rest set \<open>hasMore\<close>.\<close>

fun copyLoop :: "(DebugEvent \<Rightarrow> bool) \<Rightarrow> nat \<Rightarrow> DebugEvent list \<Rightarrow> DebugEvent list \<Rightarrow> bool \<Rightarrow>
    DebugEvent list \<times> bool" where
  "copyLoop wanted cap [] copied again = (copied, again)"
| "copyLoop wanted cap (e # es) copied again =
     (if wanted e then
        if length copied = cap then copyLoop wanted cap es copied True
        else copyLoop wanted cap es (copied @ [e]) again
      else copyLoop wanted cap es copied again)"

definition copyAfter :: "u32 \<Rightarrow> nat \<Rightarrow> DebugRingBuffer \<Rightarrow> DebugEvent list \<times> DebugLogReadMetadata" where
  "copyAfter afterSequence outputCapacity b =
     (let meta = \<lparr> historyOverwritten = drOverwritten b, missedEvents = 0, hasMore = False,
                    cursorInvalid = False \<rparr> in
      if drCount b = 0 then ([], meta)
      else
        let oldest = deSequence (drEvents b ! oldestIndex b);
            newest = deSequence (drEvents b ! ((drWriteIndex b + DEBUG_EVENT_CAPACITY - 1) mod DEBUG_EVENT_CAPACITY));
            meta = (if afterSequence \<noteq> 0 \<and> sequenceAfter oldest afterSequence
                    then meta\<lparr> missedEvents := missedBefore afterSequence oldest \<rparr>
                    else if afterSequence \<noteq> 0 \<and> afterSequence \<noteq> newest \<and> sequenceAfter afterSequence newest
                    then meta\<lparr> cursorInvalid := True \<rparr> else meta);
            (out, again) = copyLoop (\<lambda>e. afterSequence = 0 \<or> sequenceAfter (deSequence e) afterSequence)
              outputCapacity (map (eventAt b) [0..<drCount b]) [] False
        in (out, meta\<lparr> hasMore := again \<rparr>))"

definition countAfter :: "u32 \<Rightarrow> DebugRingBuffer \<Rightarrow> nat" where
  "countAfter afterSequence b =
     (if drCount b = 0 then 0
      else length (filter (\<lambda>e. sint (deSequence e - afterSequence) > 0) (map (eventAt b) [0..<drCount b])))"

definition copyFirstAfter :: "u32 \<Rightarrow> DebugRingBuffer \<Rightarrow> DebugEvent option" where
  "copyFirstAfter afterSequence b =
     (if drCount b = 0 then None
      else List.find (\<lambda>e. sint (deSequence e - afterSequence) > 0) (map (eventAt b) [0..<drCount b]))"

definition latestSequence :: "DebugRingBuffer \<Rightarrow> u32" where
  "latestSequence b = (if drCount b = 0 then 0 else drNextSequence b - 1)"

section \<open>What the ring keeps\<close>

definition debugRing_ok :: "DebugRingBuffer \<Rightarrow> bool" where
  "debugRing_ok b \<longleftrightarrow> length (drEvents b) = DEBUG_EVENT_CAPACITY \<and> drCount b \<le> DEBUG_EVENT_CAPACITY \<and>
     drWriteIndex b < DEBUG_EVENT_CAPACITY"

definition debugList :: "DebugRingBuffer \<Rightarrow> DebugEvent list" where
  "debugList b = ringView DEBUG_EVENT_CAPACITY (drEvents b) (drWriteIndex b) (drCount b)"

definition debugStored :: "DebugRingBuffer \<Rightarrow> DebugEvent \<Rightarrow> DebugEvent" where
  "debugStored b e = e\<lparr> deSequence := drNextSequence b,
     deText := copyCString DEBUG_EVENT_TEXT_CAPACITY (deText e) \<rparr>"

lemma debug_capacity_pos: "0 < DEBUG_EVENT_CAPACITY"
  by (simp add: DEBUG_EVENT_CAPACITY_def)

lemma debugAdd_list:
  assumes "debugRing_ok b"
  shows "debugList (debugAdd e b) =
    (if length (debugList b) < DEBUG_EVENT_CAPACITY then debugList b @ [debugStored b e]
     else tl (debugList b) @ [debugStored b e])"
  using ringView_push [OF debug_capacity_pos, of "drEvents b" "drCount b" "drWriteIndex b" "debugStored b e"]
    assms
  by (cases "drCount b = DEBUG_EVENT_CAPACITY")
    (auto simp: debugList_def debugAdd_def debugStored_def Let_def debugRing_ok_def)

interpretation debug_ring: bounded_log debugList debugAdd debugRing_ok debugStored DEBUG_EVENT_CAPACITY
proof unfold_locales
  show "debugRing_ok (debugAdd r s)" if "debugRing_ok s" for s r
    using that debug_capacity_pos by (simp add: debugRing_ok_def debugAdd_def Let_def)
qed (use debug_capacity_pos debugAdd_list in \<open>auto simp: debugList_def debugRing_ok_def\<close>)

lemma events_list:
  "map (eventAt b) [0..<drCount b] = debugList b"
  unfolding debugList_def ringView_def eventAt_def oldestIndex_def
  by (simp add: mod_add_left_eq)

lemma copyLoop_spec:
  "length copied \<le> cap \<Longrightarrow> copyLoop wanted cap es copied again =
     (take cap (copied @ filter wanted es), again \<or> cap < length copied + length (filter wanted es))"
proof (induction es arbitrary: copied again)
  case (Cons e es)
  show ?case
  proof (cases "wanted e \<and> length copied = cap")
    case True
    then show ?thesis using Cons.IH [of copied True] by simp
  next
    case False
    then show ?thesis using Cons.IH [of "copied @ [e]" again] Cons.IH [of copied again] Cons.prems
      by auto
  qed
qed simp

section \<open>Sequence numbers\<close>

text \<open>The \<open>k\<close>-th event after a clear; zero is skipped when the counter wraps.\<close>

definition seqOf :: "nat \<Rightarrow> u32" where
  "seqOf k = (nextAfter ^^ k) 1"

lemma nextAfter_unat: "unat (nextAfter x) = (if unat x = 2 ^ 32 - 1 then 1 else Suc (unat x))"
proof (cases "x = - 1")
  case True
  then show ?thesis using unat_u32_max by (simp add: nextAfter_def)
next
  case False
  then have "x < - 1" using word_order.not_eq_extremum by blast
  then have "unat (x + 1) = Suc (unat x)" "unat x \<noteq> 2 ^ 32 - 1"
    using u32_inc [of x] u32_less_unat [of x "- 1"] unat_u32_max by simp_all
  moreover from this have "x + 1 \<noteq> 0" by force
  ultimately show ?thesis by (simp add: nextAfter_def)
qed

lemma seqOf_Suc: "seqOf (Suc k) = nextAfter (seqOf k)"
  by (simp add: seqOf_def)

lemma seqOf_unat: "unat (seqOf k) = Suc (k mod (2 ^ 32 - 1))"
proof (induction k)
  case (Suc k)
  show ?case
    by (simp only: seqOf_Suc nextAfter_unat Suc mod_Suc [of k]) simp
qed (simp add: seqOf_def)

lemma unat_diff_u32:
  "unat (x - y :: u32) = (if unat y \<le> unat x then unat x - unat y else unat x + 2 ^ 32 - unat y)"
  using unat_sub_if' [of x y] by simp

text \<open>The distance of two sequence numbers, counting the skipped zero when it lies between.\<close>

lemma seqOf_distance:
  assumes "i < j" "j - i < 2 ^ 31 - 1"
  shows "unat (seqOf j - seqOf i) = (if seqOf j < seqOf i then j - i + 1 else j - i)"
proof -
  define m where "m = (2 ^ 32 - 1 :: nat)"
  define a where "a = i mod m"
  have a: "a < m" by (simp add: a_def m_def)
  have d: "j - i < m" using assms(2) by (simp add: m_def)
  have j: "j mod m = (a + (j - i)) mod m"
    using assms(1) mod_add_left_eq [of i m "j - i"] by (simp add: a_def)
  have u: "unat (seqOf j) = Suc (j mod m)" "unat (seqOf i) = Suc a"
    using seqOf_unat by (simp_all add: m_def a_def)
  show ?thesis
  proof (cases "a + (j - i) < m")
    case True
    then have "j mod m = a + (j - i)" using j by simp
    then show ?thesis using u by (simp add: unat_diff_u32 u32_less_unat)
  next
    case False
    then have "j mod m = a + (j - i) - m" using j a d by (simp add: mod_if)
    moreover have "a + (j - i) - m < a" using d assms(1) a False by linarith
    ultimately show ?thesis using u False a
      by (simp add: unat_diff_u32 u32_less_unat m_def)
  qed
qed

lemma sint_pos_u32: "0 < sint (x :: u32) \<longleftrightarrow> 0 < unat x \<and> unat x < 2 ^ 31"
  using sint_nonneg_iff_u32 [of x] by (metis less_le signed_0 signed_eq_0_iff unat_eq_zero neq0_conv)

lemma seqOf_after:
  assumes "i < 2 ^ 31 - 1 + j" "j < 2 ^ 31 - 1 + i"
  shows "sequenceAfter (seqOf j) (seqOf i) \<longleftrightarrow> i < j"
    and "sint (seqOf j - seqOf i) > 0 \<longleftrightarrow> i < j"
proof -
  show s: "sint (seqOf j - seqOf i) > 0 \<longleftrightarrow> i < j"
  proof (cases "i < j")
    case True
    then have "j - i < 2 ^ 31 - 1" using assms by arith
    then show ?thesis using seqOf_distance [OF True] True by (simp add: sint_pos_u32)
  next
    case False
    show ?thesis
    proof (cases "i = j")
      case ne: False
      then have ji: "j < i" using False by simp
      have "unat (seqOf i - seqOf j) < 2 ^ 31" "0 < unat (seqOf i - seqOf j)"
      proof -
        have "i - j < 2 ^ 31 - 1" using assms ji by arith
        then show "unat (seqOf i - seqOf j) < 2 ^ 31" "0 < unat (seqOf i - seqOf j)"
          using seqOf_distance [OF ji] ji by simp_all
      qed
      moreover have "unat (seqOf j - seqOf i) = 2 ^ 32 - unat (seqOf i - seqOf j)"
        using calculation(2) unat_diff_u32 [of "seqOf j" "seqOf i"] unat_diff_u32 [of "seqOf i" "seqOf j"]
          unat_below(2) [of "seqOf i"] unat_below(2) [of "seqOf j"] by (auto split: if_splits)
      ultimately show ?thesis using False by (simp add: sint_pos_u32)
    qed simp
  qed
  then show "sequenceAfter (seqOf j) (seqOf i) \<longleftrightarrow> i < j"
    by (auto simp: sequenceAfter_def)
qed

lemma missedBefore_exact:
  assumes "i < j" "j - i < 2 ^ 31 - 1"
  shows "unat (missedBefore (seqOf i) (seqOf j)) = j - i - 1"
proof -
  let ?d = "seqOf j - seqOf i"
  let ?e = "if seqOf j < seqOf i then ?d - 1 else ?d"
  have u: "unat ?d = (if seqOf j < seqOf i then j - i + 1 else j - i)"
    by (rule seqOf_distance [OF assms])
  have dec: "0 < unat x \<Longrightarrow> unat (x - 1) = unat x - 1" for x :: u32
    by (simp add: unat_diff_u32)
  have e: "unat ?e = j - i" using u dec [of ?d] by (auto split: if_splits)
  then have "?e > 0" using assms(1) by (simp add: u32_less_unat)
  then show ?thesis using e dec [of ?e] assms(1) by (simp add: missedBefore_def Let_def)
qed

section \<open>Reading the ring\<close>

definition addedEvent :: "DebugEvent list \<Rightarrow> nat \<Rightarrow> DebugEvent" where
  "addedEvent es k = (es ! k)\<lparr> deSequence := seqOf k,
     deText := copyCString DEBUG_EVENT_TEXT_CAPACITY (deText (es ! k)) \<rparr>"

lemma storedAll_nth:
  "k < length es \<Longrightarrow> drNextSequence b = seqOf n \<Longrightarrow> debug_ring.storedAll b es ! k =
     (es ! k)\<lparr> deSequence := seqOf (n + k),
        deText := copyCString DEBUG_EVENT_TEXT_CAPACITY (deText (es ! k)) \<rparr>"
proof (induction es arbitrary: b k n)
  case (Cons e es)
  have "drNextSequence (debugAdd e b) = seqOf (Suc n)"
    using Cons.prems by (simp add: debugAdd_def Let_def seqOf_Suc)
  moreover have "debugStored b e = e\<lparr> deSequence := seqOf n, deText := copyCString DEBUG_EVENT_TEXT_CAPACITY (deText e) \<rparr>"
    using Cons.prems by (simp add: debugStored_def)
  ultimately show ?case using Cons.IH [of "k - 1" "debugAdd e b" "Suc n"] Cons.prems
    by (cases k) simp_all
qed simp

lemma length_storedAll: "length (debug_ring.storedAll b es) = length es"
  by (induction es arbitrary: b) simp_all

lemma debug_after_clear:
  fixes es :: "DebugEvent list"
  assumes "length (drEvents b) = DEBUG_EVENT_CAPACITY"
  defines "b' \<equiv> fold debugAdd es (debugClear b)"
  shows "debugRing_ok b'" "debugList b' = map (addedEvent es) [length es - DEBUG_EVENT_CAPACITY..<length es]"
    "drCount b' = min (length es) DEBUG_EVENT_CAPACITY"
proof -
  have ok: "debugRing_ok (debugClear b)"
    using assms(1) debug_capacity_pos by (simp add: debugClear_def debugRing_ok_def)
  have e: "debugList (debugClear b) = []" by (simp add: debugList_def debugClear_def)
  have n: "drNextSequence (debugClear b) = seqOf 0" by (simp add: debugClear_def seqOf_def)
  have "debug_ring.storedAll (debugClear b) es = map (addedEvent es) [0..<length es]"
    by (rule nth_equalityI) (simp_all add: length_storedAll storedAll_nth [OF _ n] addedEvent_def)
  then show l: "debugRing_ok b'" "debugList b' = map (addedEvent es) [length es - DEBUG_EVENT_CAPACITY..<length es]"
    using debug_ring.pushes [OF ok, of es] e by (simp_all add: b'_def drop_map)
  have "drCount b' = length (debugList b')" by (simp add: debugList_def)
  then show "drCount b' = min (length es) DEBUG_EVENT_CAPACITY" by (simp add: l)
qed

lemma oldest_newest:
  assumes "debugRing_ok b" "0 < drCount b"
  shows "drEvents b ! oldestIndex b = hd (debugList b)"
    "drEvents b ! ((drWriteIndex b + DEBUG_EVENT_CAPACITY - 1) mod DEBUG_EVENT_CAPACITY) = last (debugList b)"
proof -
  have ne: "debugList b \<noteq> []" using assms(2) by (simp add: debugList_def flip: length_0_conv)
  show "drEvents b ! oldestIndex b = hd (debugList b)"
    using hd_conv_nth [OF ne] assms(2) by (simp add: debugList_def ringView_nth oldestIndex_def)
  have "drWriteIndex b + DEBUG_EVENT_CAPACITY - drCount b + (drCount b - 1) =
      drWriteIndex b + DEBUG_EVENT_CAPACITY - 1"
    using assms by (simp add: debugRing_ok_def)
  then show "drEvents b ! ((drWriteIndex b + DEBUG_EVENT_CAPACITY - 1) mod DEBUG_EVENT_CAPACITY) = last (debugList b)"
    using last_conv_nth [OF ne] assms(2) by (simp add: debugList_def ringView_nth)
qed

lemma filter_upt_above: "filter (\<lambda>k. c < k) [i..<j] = [max i (Suc c)..<j]"
  by (induction j) (auto simp: max_def not_less le_Suc_eq)

text \<open>
  A reader that resumes with the sequence number of the last event it saw
  gets exactly the retained events after it, oldest first, is told whether more are left,
  and is told exactly how many it missed, wherever the counter wrapped in between, as
  long as fewer than 2 to the 31 events were logged since.
\<close>

lemma debug_reader_resumes:
  assumes "length (drEvents b) = DEBUG_EVENT_CAPACITY" "c < length es" "length es - c < 2 ^ 31 - 1"
  defines "n \<equiv> length es" and "first \<equiv> max (length es - DEBUG_EVENT_CAPACITY) (Suc c)"
  shows "copyAfter (seqOf c) cap (fold debugAdd es (debugClear b)) =
    (take cap (map (addedEvent es) [first..<n]),
     \<lparr> historyOverwritten = drOverwritten (fold debugAdd es (debugClear b)),
       missedEvents = of_nat (first - Suc c), hasMore = (cap < n - first), cursorInvalid = False \<rparr>)"
proof -
  define b' where "b' = fold debugAdd es (debugClear b)"
  define lo where "lo = n - DEBUG_EVENT_CAPACITY"
  note a = debug_after_clear [OF assms(1), of es, folded b'_def]
  have list: "debugList b' = map (addedEvent es) [lo..<n]" using a(2) by (simp add: lo_def n_def)
  have n: "0 < n" "0 < drCount b'" "lo < n" using assms(2) a(3) debug_capacity_pos
    by (auto simp: n_def lo_def)
  have seq0: "seqOf c \<noteq> 0" using seqOf_unat [of c] by (metis Suc_not_Zero unat_eq_zero)
  have old: "deSequence (drEvents b' ! oldestIndex b') = seqOf lo"
    using oldest_newest(1) [OF a(1) n(2)] n by (simp add: list hd_map addedEvent_def)
  have new: "deSequence (drEvents b' ! ((drWriteIndex b' + DEBUG_EVENT_CAPACITY - 1) mod DEBUG_EVENT_CAPACITY))
      = seqOf (n - 1)"
    using oldest_newest(2) [OF a(1) n(2)] n by (simp add: list last_map addedEvent_def)
  have rng: "c < n" "n - c < 2 ^ 31 - 1" using assms by (simp_all add: n_def)
  have cap: "n \<le> lo + 512" by (simp add: lo_def DEBUG_EVENT_CAPACITY_def)
  have after: "sequenceAfter (seqOf k) (seqOf c) \<longleftrightarrow> c < k" if "lo \<le> k" "k < n" for k
    using that rng cap by (intro seqOf_after) auto
  have notnew: "\<not> sequenceAfter (seqOf c) (seqOf (n - 1))"
    using seqOf_after(1) [of "n - 1" c] rng by simp
  have filt: "filter (\<lambda>e. sequenceAfter (deSequence e) (seqOf c)) (map (addedEvent es) [lo..<n]) =
      map (addedEvent es) [first..<n]"
  proof -
    have "filter (\<lambda>e. sequenceAfter (deSequence e) (seqOf c)) (map (addedEvent es) [lo..<n]) =
        map (addedEvent es) (filter (\<lambda>k. sequenceAfter (seqOf k) (seqOf c)) [lo..<n])"
      by (simp add: filter_map o_def addedEvent_def)
    also have "filter (\<lambda>k. sequenceAfter (seqOf k) (seqOf c)) [lo..<n] = filter (\<lambda>k. c < k) [lo..<n]"
      by (rule filter_cong [OF refl]) (use after in auto)
    finally show ?thesis by (simp add: filter_upt_above first_def lo_def n_def)
  qed
  have missed: "missedBefore (seqOf c) (seqOf lo) = of_nat (first - Suc c)" if "c < lo"
  proof -
    have "unat (missedBefore (seqOf c) (seqOf lo)) = lo - c - 1"
      using that rng n by (intro missedBefore_exact) auto
    moreover have "first - Suc c = lo - c - 1" using that by (simp add: first_def lo_def n_def)
    moreover have "of_nat (unat (missedBefore (seqOf c) (seqOf lo))) = missedBefore (seqOf c) (seqOf lo)"
      by simp
    ultimately show ?thesis by (simp only:)
  qed
  have m0: "\<not> c < lo \<Longrightarrow> first - Suc c = 0" by (simp add: first_def lo_def n_def)
  have "copyAfter (seqOf c) cap b' =
    (take cap (map (addedEvent es) [first..<n]),
     \<lparr> historyOverwritten = drOverwritten b', missedEvents = of_nat (first - Suc c),
       hasMore = (cap < n - first), cursorInvalid = False \<rparr>)"
    using n seq0 old new notnew after [of lo] missed m0
    by (cases "c < lo") (simp_all add: copyAfter_def Let_def events_list list copyLoop_spec filt)
  then show ?thesis by (simp add: b'_def)
qed

definition emptyDebugRing :: DebugRingBuffer where
  "emptyDebugRing = \<lparr> drEvents = replicate DEBUG_EVENT_CAPACITY noEvent, drNextSequence = 1, drCount = 0,
     drWriteIndex = 0, drOverwritten = 0 \<rparr>"

lemma debug_reader_resumes_witness:
  "fst (copyAfter (seqOf 0) 5 (fold debugAdd [noEvent, noEvent] (debugClear emptyDebugRing))) =
     [addedEvent [noEvent, noEvent] 1]"
  using debug_reader_resumes [of emptyDebugRing 0 "[noEvent, noEvent]" 5]
  by (simp add: emptyDebugRing_def DEBUG_EVENT_CAPACITY_def)

end
