(* ===== verification/Audit_Log.thy ===== *)
theory Audit_Log
  imports Event_Log
begin

text \<open>
  \<open>src/OpenBrewByWeightAuditLog.h\<close>: which events are audit-worthy, and the RAM latch of
  64 records with its per-code rate limit and the watermark of what is already on flash.
  The slots in use of the rate table are a list; a record's text is its 24-byte array.
\<close>

section \<open>Classification\<close>

definition AUDIT_WARNING_ALLOWLIST :: "DebugCode list" where
  "AUDIT_WARNING_ALLOWLIST = map debugCode
    [''MACHINE_MUX_WAIT'', ''HEALTH_HEAP_LOW'', ''HEALTH_HEAP_RESTART'',
     ''HEALTH_STACK_LOW'', ''HEALTH_LOOP_GAP'', ''SYSTEM_LOG_OVERRUN'',
     ''RELAY_GPIO_DESYNC'', ''SAFETY_LOCKOUT_ACTIVE'', ''CIRCUIT_ARM_FAILED'',
     ''INITIALIZATION_FAILED'', ''OTA_UPLOAD_STARTED'', ''OTA_IMAGE_STAGED'',
     ''OTA_UPLOAD_REJECTED'', ''OTA_FLASH_COMMITTED'', ''OTA_ROLLBACK_ARMED'',
     ''OTA_ROLLBACK_FAILED'']"

definition AUDIT_VERBOSE_ALLOWLIST :: "DebugCode list" where
  "AUDIT_VERBOSE_ALLOWLIST = map debugCode
    [''MAINTENANCE_RESERVED'', ''MAINTENANCE_COMPLETED'', ''MAINTENANCE_CANCELED'']"

definition auditListed :: "DebugCode list \<Rightarrow> DebugCode \<Rightarrow> bool" where
  "auditListed codes code \<longleftrightarrow> list_ex (\<lambda>c. c = code) codes"

fun auditListHasNoDuplicates :: "DebugCode list \<Rightarrow> bool" where
  "auditListHasNoDuplicates [] = True"
| "auditListHasNoDuplicates (c # cs) = (if list_ex (\<lambda>d. c = d) cs then False else auditListHasNoDuplicates cs)"

definition auditWorthy :: "LogLevel \<Rightarrow> DebugCode \<Rightarrow> bool \<Rightarrow> bool" where
  "auditWorthy level code verbose =
     (if level = LvError \<or> level = LvCritical then True
      else if level = LvWarning \<and> auditListed AUDIT_WARNING_ALLOWLIST code then True
      else verbose \<and> level = LvDebug \<and> auditListed AUDIT_VERBOSE_ALLOWLIST code)"

section \<open>The latch\<close>

definition AUDIT_RECORD_CAPACITY :: nat where "AUDIT_RECORD_CAPACITY = 64"
definition AUDIT_EXCERPT_BYTES :: nat where "AUDIT_EXCERPT_BYTES = 24"
definition AUDIT_RATE_WINDOW_MS :: u32 where "AUDIT_RATE_WINDOW_MS = 60000"
definition AUDIT_RATE_LIMIT :: u8 where "AUDIT_RATE_LIMIT = 10"
definition AUDIT_RATE_SLOTS :: nat where "AUDIT_RATE_SLOTS = 8"

record AuditRecord =
  arSequence :: u32
  arWallSec :: u32
  arAtMs :: u32
  arArgument1 :: u32
  arArgument2 :: u32
  arLevel :: u8
  arCategory :: u8
  arCode :: u8
  arTextLen :: u8
  arText :: bytes

definition noAuditRecord :: AuditRecord where
  "noAuditRecord = \<lparr> arSequence = 0, arWallSec = 0, arAtMs = 0, arArgument1 = 0, arArgument2 = 0,
     arLevel = 0, arCategory = 0, arCode = 0, arTextLen = 0, arText = replicate AUDIT_EXCERPT_BYTES 0 \<rparr>"

record RateSlot =
  rsCode :: u8
  rsWindowStartMs :: u32
  rsAdmitted :: u8

record AuditLogLatch =
  alEvents :: "AuditRecord list"
  alRateSlots :: "RateSlot list"
  alNextSequence :: u32
  alOverwritten :: u32
  alRateLimited :: u32
  alPendingAfter :: u32
  alCount :: nat
  alWriteIndex :: nat

definition latchClear :: "AuditLogLatch \<Rightarrow> AuditLogLatch" where
  "latchClear l = l\<lparr> alNextSequence := 1, alCount := 0, alWriteIndex := 0, alOverwritten := 0,
     alRateLimited := 0, alRateSlots := [], alPendingAfter := 0 \<rparr>"

definition windowAge :: "u32 \<Rightarrow> RateSlot \<Rightarrow> u32" where
  "windowAge atMs slot = atMs - rsWindowStartMs slot"

text \<open>The scan for the slot of a code, and what it does to that slot; \<open>None\<close> if there is none.\<close>

fun admitKnown :: "u8 \<Rightarrow> u32 \<Rightarrow> RateSlot list \<Rightarrow> (bool \<times> RateSlot list) option" where
  "admitKnown code atMs [] = None"
| "admitKnown code atMs (slot # slots) =
     (if rsCode slot \<noteq> code then
        map_option (\<lambda>(ok, slots'). (ok, slot # slots')) (admitKnown code atMs slots)
      else if windowAge atMs slot < AUDIT_RATE_WINDOW_MS then
        if rsAdmitted slot \<ge> AUDIT_RATE_LIMIT then Some (False, slot # slots)
        else Some (True, slot\<lparr> rsAdmitted := rsAdmitted slot + 1 \<rparr> # slots)
      else Some (True, slot\<lparr> rsWindowStartMs := atMs, rsAdmitted := 1 \<rparr> # slots))"

fun oldestFrom :: "u32 \<Rightarrow> RateSlot list \<Rightarrow> nat \<Rightarrow> nat list \<Rightarrow> nat" where
  "oldestFrom atMs slots oldest [] = oldest"
| "oldestFrom atMs slots oldest (i # is) =
     oldestFrom atMs slots
       (if windowAge atMs (slots ! i) > windowAge atMs (slots ! oldest) then i else oldest) is"

definition admitRate :: "u8 \<Rightarrow> u32 \<Rightarrow> RateSlot list \<Rightarrow> bool \<times> RateSlot list" where
  "admitRate code atMs slots =
     (case admitKnown code atMs slots of
        Some r \<Rightarrow> r
      | None \<Rightarrow>
          let fresh = \<lparr> rsCode = code, rsWindowStartMs = atMs, rsAdmitted = 1 \<rparr> in
          if length slots < AUDIT_RATE_SLOTS then (True, slots @ [fresh])
          else (True, slots[oldestFrom atMs slots 0 [1..<length slots] := fresh]))"

definition storeRecord :: "AuditRecord \<Rightarrow> AuditLogLatch \<Rightarrow> AuditLogLatch" where
  "storeRecord r l =
     l\<lparr> alOverwritten := (if alCount l = AUDIT_RECORD_CAPACITY then alOverwritten l + 1 else alOverwritten l),
        alCount := (if alCount l = AUDIT_RECORD_CAPACITY then alCount l else alCount l + 1),
        alEvents := (alEvents l)[alWriteIndex l := r],
        alWriteIndex := (alWriteIndex l + 1) mod AUDIT_RECORD_CAPACITY \<rparr>"

text \<open>What a caller passes to \<open>add\<close>; a null detail is the empty string.\<close>

record audit_event =
  aeAtMs :: u32
  aeWallSec :: u32
  aeLevel :: LogLevel
  aeCategory :: DebugCategory
  aeCode :: DebugCode
  aeArgument1 :: u32
  aeArgument2 :: u32
  aeDetail :: bytes

definition excerptOf :: "bytes \<Rightarrow> bytes" where
  "excerptOf detail = take (AUDIT_EXCERPT_BYTES - 1) (takeWhile (\<lambda>c. c \<noteq> 0) detail)"

definition recordOf :: "u32 \<Rightarrow> audit_event \<Rightarrow> AuditRecord" where
  "recordOf seq e =
     (let text = excerptOf (aeDetail e) in
      \<lparr> arSequence = seq, arWallSec = aeWallSec e, arAtMs = aeAtMs e,
        arArgument1 = aeArgument1 e, arArgument2 = aeArgument2 e,
        arLevel = levelValue (aeLevel e), arCategory = categoryValue (aeCategory e), arCode = aeCode e,
        arTextLen = of_nat (length text),
        arText = text @ replicate (AUDIT_EXCERPT_BYTES - length text) 0 \<rparr>)"

definition latchAdd :: "audit_event \<Rightarrow> AuditLogLatch \<Rightarrow> bool \<times> AuditLogLatch" where
  "latchAdd e l =
     (let (admitted, slots) = admitRate (aeCode e) (aeAtMs e) (alRateSlots l);
          l = l\<lparr> alRateSlots := slots \<rparr> in
      if \<not> admitted then (False, l\<lparr> alRateLimited := alRateLimited l + 1 \<rparr>)
      else (True, (storeRecord (recordOf (alNextSequence l) e) l)\<lparr> alNextSequence := alNextSequence l + 1 \<rparr>))"

text \<open>The loops walk back \<open>index\<close> slots from the write position, oldest first.\<close>

definition recordBack :: "AuditLogLatch \<Rightarrow> nat \<Rightarrow> AuditRecord" where
  "recordBack l index =
     alEvents l ! ((alWriteIndex l + AUDIT_RECORD_CAPACITY - index) mod AUDIT_RECORD_CAPACITY)"

fun copyBack :: "AuditLogLatch \<Rightarrow> u32 \<Rightarrow> nat \<Rightarrow> nat \<Rightarrow> AuditRecord list \<Rightarrow> AuditRecord list" where
  "copyBack l afterSequence capacity 0 copied = copied"
| "copyBack l afterSequence capacity (Suc index) copied =
     (if \<not> length copied < capacity then copied
      else copyBack l afterSequence capacity index
        (if arSequence (recordBack l (Suc index)) > afterSequence
         then copied @ [recordBack l (Suc index)] else copied))"

definition latchCopyAfter :: "u32 \<Rightarrow> nat \<Rightarrow> AuditLogLatch \<Rightarrow> AuditRecord list" where
  "latchCopyAfter afterSequence capacity l =
     (if capacity = 0 then [] else copyBack l afterSequence capacity (alCount l) [])"

definition latchLatestSequence :: "AuditLogLatch \<Rightarrow> u32" where
  "latchLatestSequence l = (if alNextSequence l > 1 then alNextSequence l - 1 else 0)"

definition latchAdopt :: "AuditRecord \<Rightarrow> AuditLogLatch \<Rightarrow> bool \<times> AuditLogLatch" where
  "latchAdopt r l =
     (if arSequence r = 0 then (False, l)
      else
        let l = storeRecord r l;
            l = (if arSequence r \<ge> alNextSequence l then l\<lparr> alNextSequence := arSequence r + 1 \<rparr> else l) in
        (True, if arSequence r > alPendingAfter l then l\<lparr> alPendingAfter := arSequence r \<rparr> else l))"

definition latchCopyPending :: "nat \<Rightarrow> AuditLogLatch \<Rightarrow> AuditRecord list" where
  "latchCopyPending capacity l = latchCopyAfter (alPendingAfter l) capacity l"

fun countBack :: "AuditLogLatch \<Rightarrow> nat \<Rightarrow> nat \<Rightarrow> nat" where
  "countBack l 0 pending = pending"
| "countBack l (Suc index) pending =
     countBack l index (if arSequence (recordBack l (Suc index)) > alPendingAfter l then pending + 1 else pending)"

definition latchPendingCount :: "AuditLogLatch \<Rightarrow> nat" where
  "latchPendingCount l = countBack l (alCount l) 0"

definition markFlushedThrough :: "u32 \<Rightarrow> AuditLogLatch \<Rightarrow> AuditLogLatch" where
  "markFlushedThrough seq l = (if seq > alPendingAfter l then l\<lparr> alPendingAfter := seq \<rparr> else l)"

definition latchHasPending :: "AuditLogLatch \<Rightarrow> bool" where
  "latchHasPending l \<longleftrightarrow> latchLatestSequence l > alPendingAfter l"

section \<open>The latch as a list\<close>

definition latch_ok :: "AuditLogLatch \<Rightarrow> bool" where
  "latch_ok l \<longleftrightarrow> length (alEvents l) = AUDIT_RECORD_CAPACITY \<and> alCount l \<le> AUDIT_RECORD_CAPACITY \<and>
     alWriteIndex l < AUDIT_RECORD_CAPACITY"

definition latchList :: "AuditLogLatch \<Rightarrow> AuditRecord list" where
  "latchList l = ringView AUDIT_RECORD_CAPACITY (alEvents l) (alWriteIndex l) (alCount l)"

lemma audit_capacity_pos: "0 < AUDIT_RECORD_CAPACITY"
  by (simp add: AUDIT_RECORD_CAPACITY_def)

lemma storeRecord_list:
  assumes "latch_ok l"
  shows "latchList (storeRecord r l) =
    (if length (latchList l) < AUDIT_RECORD_CAPACITY then latchList l @ [r] else tl (latchList l) @ [r])"
  using ringView_push [OF audit_capacity_pos, of "alEvents l" "alCount l" "alWriteIndex l" r] assms
  by (cases "alCount l = AUDIT_RECORD_CAPACITY") (auto simp: latchList_def storeRecord_def latch_ok_def)

lemma storeRecord_ok [wf_intros]: "latch_ok l \<Longrightarrow> latch_ok (storeRecord r l)"
  using audit_capacity_pos by (simp add: latch_ok_def storeRecord_def)

interpretation latch_ring: bounded_log latchList storeRecord latch_ok "\<lambda>_ r. r" AUDIT_RECORD_CAPACITY
  by unfold_locales
    (auto simp: audit_capacity_pos storeRecord_list storeRecord_ok, simp add: latchList_def latch_ok_def)

lemma recordBack_nth:
  assumes "index < alCount l" "latch_ok l"
  shows "recordBack l (Suc index) = latchList l ! (alCount l - Suc index)"
proof -
  have "alWriteIndex l + AUDIT_RECORD_CAPACITY - alCount l + (alCount l - Suc index) =
      alWriteIndex l + AUDIT_RECORD_CAPACITY - Suc index"
    using assms by (simp add: latch_ok_def)
  then show ?thesis using assms(1) by (simp add: recordBack_def latchList_def ringView_nth)
qed

lemma walk_step:
  assumes "index < alCount l" "latch_ok l"
  shows "drop (alCount l - Suc index) (latchList l) =
    recordBack l (Suc index) # drop (alCount l - index) (latchList l)"
proof -
  have "alCount l - Suc index < length (latchList l)" using assms(1) by (simp add: latchList_def)
  then show ?thesis using recordBack_nth [OF assms] assms(1) by (simp add: Cons_nth_drop_Suc Suc_diff_Suc flip: Cons_nth_drop_Suc)
qed

lemma copyBack_spec:
  assumes "latch_ok l" "n \<le> alCount l" "length copied \<le> cap"
  shows "copyBack l a cap n copied =
    take cap (copied @ filter (\<lambda>r. arSequence r > a) (drop (alCount l - n) (latchList l)))"
  using assms(2,3)
proof (induction n arbitrary: copied)
  case 0
  then show ?case by (simp add: latchList_def)
next
  case (Suc n)
  have w: "drop (alCount l - Suc n) (latchList l) = recordBack l (Suc n) # drop (alCount l - n) (latchList l)"
    using walk_step [OF _ assms(1), of n] Suc.prems by simp
  show ?case
  proof (cases "length copied < cap")
    case True
    then have "take (cap - length copied) (x # xs) = x # take (cap - Suc (length copied)) xs" for x and xs :: "AuditRecord list"
      by (metis Suc_diff_Suc [OF True] take_Suc_Cons)
    then show ?thesis using True Suc.IH Suc.prems by (simp add: w)
  next
    case False
    then show ?thesis using Suc.prems by simp
  qed
qed

lemma latchCopyAfter_eq:
  "latch_ok l \<Longrightarrow> latchCopyAfter a cap l = take cap (filter (\<lambda>r. arSequence r > a) (latchList l))"
  using copyBack_spec [of l "alCount l" "[]" cap a] by (simp add: latchCopyAfter_def)

lemma countBack_spec:
  assumes "latch_ok l" "n \<le> alCount l"
  shows "countBack l n p =
    p + length (filter (\<lambda>r. arSequence r > alPendingAfter l) (drop (alCount l - n) (latchList l)))"
  using assms(2)
proof (induction n arbitrary: p)
  case 0
  then show ?case by (simp add: latchList_def)
next
  case (Suc n)
  have w: "drop (alCount l - Suc n) (latchList l) = recordBack l (Suc n) # drop (alCount l - n) (latchList l)"
    using walk_step [OF _ assms(1), of n] Suc.prems by simp
  show ?case using Suc.IH Suc.prems by (simp add: w)
qed

lemma latchPendingCount_eq:
  "latch_ok l \<Longrightarrow> latchPendingCount l = length (filter (\<lambda>r. arSequence r > alPendingAfter l) (latchList l))"
  using countBack_spec [of l "alCount l" 0] by (simp add: latchPendingCount_def)

end
