(* ===== verification/Audit_Store.thy ===== *)
theory Audit_Store
  imports Audit_Log Flash_Store
begin

text \<open>
  \<open>src/OpenBrewByWeightAuditStore.h\<close> and \<open>.cpp\<close>: the durable audit ring, 1024 packed
  records of 64 bytes in a 64 KiB partition without a header, its append with the sector
  erased ahead of the cursor, and the boot scan that recovers the window from the records
  alone. The partition and its driver are those of the flash model; the answers of the
  partition lookup, of the lock and of every driver call are arguments. The cursor counts
  appends; its 32 bits cannot wrap within the life of the flash (four million erase cycles).
\<close>

section \<open>The packed record\<close>

definition AUDIT_STORE_SCHEMA_VERSION :: u8 where "AUDIT_STORE_SCHEMA_VERSION = 0"
definition AUDIT_STORE_PARTITION_BYTES :: nat where "AUDIT_STORE_PARTITION_BYTES = 65536"
definition AUDIT_STORE_SECTOR_BYTES :: nat where "AUDIT_STORE_SECTOR_BYTES = 4096"
definition AUDIT_STORE_RECORD_BYTES :: nat where "AUDIT_STORE_RECORD_BYTES = 64"
definition AUDIT_STORE_RECORD_CAPACITY :: nat where "AUDIT_STORE_RECORD_CAPACITY = 1024"

definition auditStoreSlotEmpty :: "bytes \<Rightarrow> bool" where
  "auditStoreSlotEmpty slot \<longleftrightarrow> list_all (\<lambda>b. b = 0xFF) slot"

fun checksumLoop :: "u32 \<Rightarrow> bytes \<Rightarrow> u32" where
  "checksumLoop c [] = c"
| "checksumLoop c (b # bs) = checksumLoop ((c XOR ucast b) * 16777619) bs"

definition auditStoreChecksum :: "bytes \<Rightarrow> u16" where
  "auditStoreChecksum data = ucast (checksumLoop 2166136261 data AND 0xFFFF)"

text \<open>\<open>None\<close> where the decoder returns false.\<close>

definition auditStoreDecodeRecord :: "bytes \<Rightarrow> AuditRecord option" where
  "auditStoreDecodeRecord slot =
     (if auditStoreSlotEmpty slot then None
      else
        let version = slot ! 0; level = slot ! 1; category = slot ! 2; code = slot ! 3;
            seq = getLe32 slot 4; wallSec = getLe32 slot 8; atMs = getLe32 slot 12;
            arg1 = getLe32 slot 16; arg2 = getLe32 slot 20; textLen = slot ! 24 in
        if version \<noteq> AUDIT_STORE_SCHEMA_VERSION \<or> unat textLen \<ge> AUDIT_EXCERPT_BYTES then None
        else
          let text = take (unat textLen) (drop 25 slot) in
          if getLe16 slot (AUDIT_STORE_RECORD_BYTES - 2) \<noteq>
             auditStoreChecksum (take (AUDIT_STORE_RECORD_BYTES - 2) slot) then None
          else if seq = 0 then None
          else Some \<lparr> arSequence = seq, arWallSec = wallSec, arAtMs = atMs,
                 arArgument1 = arg1, arArgument2 = arg2, arLevel = level, arCategory = category,
                 arCode = code, arTextLen = textLen,
                 arText = text @ replicate (AUDIT_EXCERPT_BYTES - length text) 0 \<rparr>)"

definition encodeBody :: "AuditRecord \<Rightarrow> bytes" where
  "encodeBody r =
     (let textLen = (if unat (arTextLen r) < AUDIT_EXCERPT_BYTES then unat (arTextLen r)
                     else AUDIT_EXCERPT_BYTES - 1);
          fields = [AUDIT_STORE_SCHEMA_VERSION, arLevel r, arCategory r, arCode r] @
            le32 (arSequence r) @ le32 (arWallSec r) @ le32 (arAtMs r) @
            le32 (arArgument1 r) @ le32 (arArgument2 r) @ [of_nat textLen] @ take textLen (arText r) in
      fields @ replicate (AUDIT_STORE_RECORD_BYTES - 2 - length fields) 0)"

definition auditStoreEncodeRecord :: "AuditRecord \<Rightarrow> bytes" where
  "auditStoreEncodeRecord r = encodeBody r @ le16 (auditStoreChecksum (encodeBody r))"

section \<open>The store\<close>

datatype AuditStoreState = StoreUnsupported | StoreReady | StoreIoError

record AuditStoreStatus =
  asState :: AuditStoreState
  writeCursor :: nat
  windowStart :: nat
  seqHigh :: u32
  retained :: nat

definition status0 :: AuditStoreStatus where
  "status0 = \<lparr> asState = StoreUnsupported, writeCursor = 0, windowStart = 0, seqHigh = 0, retained = 0 \<rparr>"

definition kMaxScanRuns :: nat where "kMaxScanRuns = 8"
definition kRecordsPerSector :: nat where
  "kRecordsPerSector = AUDIT_STORE_SECTOR_BYTES div AUDIT_STORE_RECORD_BYTES"

definition storePartition :: "nat option \<Rightarrow> bool" where
  "storePartition psize \<longleftrightarrow> psize = Some AUDIT_STORE_PARTITION_BYTES"

definition slotOffset :: "nat \<Rightarrow> nat" where
  "slotOffset absoluteIndex =
     (absoluteIndex mod AUDIT_STORE_RECORD_CAPACITY) * AUDIT_STORE_RECORD_BYTES"

text \<open>
  A read answers the memory or fails; \<open>rd\<close> says which absolute slot indexes are
  readable. The two passes of the boot take an answer function each.
\<close>

definition readAuditSlot :: "(nat \<Rightarrow> bool) \<Rightarrow> flash \<Rightarrow> nat \<Rightarrow> bytes option" where
  "readAuditSlot rd m index =
     (if rd index then Some (readRange (slotOffset index) AUDIT_STORE_RECORD_BYTES m) else None)"

definition decodedSlot :: "flash \<Rightarrow> nat \<Rightarrow> AuditRecord option" where
  "decodedSlot m index =
     auditStoreDecodeRecord (readRange (slotOffset index) AUDIT_STORE_RECORD_BYTES m)"

text \<open>The first pass: runs of decodable slots, newest first; \<open>None\<close> on a failure.\<close>

fun scanRuns :: "(nat \<Rightarrow> bool) \<Rightarrow> flash \<Rightarrow> nat list \<Rightarrow> bool \<Rightarrow> (nat \<times> nat) list \<Rightarrow> (nat \<times> nat) list option" where
  "scanRuns rd m [] inRun runs = Some runs"
| "scanRuns rd m (index # rest) inRun runs =
     (case readAuditSlot rd m index of None \<Rightarrow> None
      | Some slot \<Rightarrow>
          (case auditStoreDecodeRecord slot of
             None \<Rightarrow> scanRuns rd m rest False runs
           | Some _ \<Rightarrow>
               if \<not> inRun then
                 if length runs = kMaxScanRuns then None
                 else scanRuns rd m rest True ((index, index + 1) # runs)
               else scanRuns rd m rest True
                 ((fst (hd runs), index + 1) # tl runs)))"

text \<open>The second pass over the window: highest sequence and the slot where it first drops.\<close>

fun scanSequences :: "(nat \<Rightarrow> bool) \<Rightarrow> flash \<Rightarrow> nat list \<Rightarrow> nat \<Rightarrow> u32 \<Rightarrow> bool \<times> nat \<times> u32" where
  "scanSequences rd m [] dropAt high = (True, dropAt, high)"
| "scanSequences rd m (index # rest) dropAt high =
     (case readAuditSlot rd m index of None \<Rightarrow> (False, dropAt, high)
      | Some slot \<Rightarrow>
          (case auditStoreDecodeRecord slot of None \<Rightarrow> (False, dropAt, high)
           | Some r \<Rightarrow> scanSequences rd m rest
               (if dropAt = 0 \<and> arSequence r < high then index else dropAt)
               (if arSequence r > high then arSequence r else high)))"

definition scanWindow ::
    "(nat \<Rightarrow> bool) \<Rightarrow> (nat \<Rightarrow> bool) \<Rightarrow> flash \<Rightarrow> AuditStoreStatus \<Rightarrow> bool \<times> AuditStoreStatus" where
  "scanWindow rd1 rd2 m st =
     (case scanRuns rd1 m [0..<AUDIT_STORE_RECORD_CAPACITY] False [] of
        None \<Rightarrow> (False, st)
      | Some runs \<Rightarrow>
          if runs = [] then (True, status0\<lparr> asState := StoreReady \<rparr>)
          else
            let first = last runs; lastRun = hd runs;
                st = (if length runs > 1 \<and> snd lastRun = AUDIT_STORE_RECORD_CAPACITY \<and> fst first = 0
                      then st\<lparr> windowStart := fst lastRun,
                              writeCursor := AUDIT_STORE_RECORD_CAPACITY + snd first \<rparr>
                      else st\<lparr> windowStart := fst lastRun, writeCursor := snd lastRun \<rparr>) in
            (case scanSequences rd2 m [windowStart st..<writeCursor st] 0 0 of
               (ok, dropAt, high) \<Rightarrow>
                 let st = st\<lparr> seqHigh := high \<rparr> in
                 if \<not> ok then (False, st)
                 else if dropAt \<noteq> 0 \<and> writeCursor st - windowStart st = AUDIT_STORE_RECORD_CAPACITY
                 then (True, st\<lparr> windowStart := dropAt,
                                writeCursor := AUDIT_STORE_RECORD_CAPACITY + dropAt \<rparr>)
                 else (True, st)))"

text \<open>The backfill of the latch, stopping at the first slot that cannot be read back.\<close>

fun backfill :: "(nat \<Rightarrow> bool) \<Rightarrow> flash \<Rightarrow> nat list \<Rightarrow> AuditLogLatch \<Rightarrow> bool \<times> AuditLogLatch" where
  "backfill rd m [] latch = (True, latch)"
| "backfill rd m (index # rest) latch =
     (case readAuditSlot rd m index of None \<Rightarrow> (False, latch)
      | Some slot \<Rightarrow>
          (case auditStoreDecodeRecord slot of None \<Rightarrow> (False, latch)
           | Some r \<Rightarrow> backfill rd m rest (snd (latchAdopt r latch))))"

record boot_answers =
  partitionSize :: "nat option"
  flashLocked :: bool
  readsRuns :: "nat \<Rightarrow> bool"
  readsSequences :: "nat \<Rightarrow> bool"
  readsBackfill :: "nat \<Rightarrow> bool"

text \<open>The third result is \<open>latchPendingAfter\<close>.\<close>

definition auditStoreBootOpen ::
    "boot_answers \<Rightarrow> flash \<Rightarrow> AuditLogLatch \<Rightarrow> AuditStoreStatus \<times> AuditLogLatch \<times> u32" where
  "auditStoreBootOpen ans m latch =
     (if \<not> storePartition (partitionSize ans) then (status0\<lparr> asState := StoreUnsupported \<rparr>, latch, 0)
      else if \<not> flashLocked ans then (status0\<lparr> asState := StoreIoError \<rparr>, latch, 0)
      else
        let (ok, st) = scanWindow (readsRuns ans) (readsSequences ans) m status0;
            (ok, latch) = (if ok then backfill (readsBackfill ans) m [windowStart st..<writeCursor st] latch
                           else (False, latch)) in
        (st\<lparr> asState := (if ok then StoreReady else StoreIoError),
             retained := writeCursor st - windowStart st \<rparr>,
         latch, if ok then seqHigh st else 0))"

record append_answers =
  apPartitionSize :: "nat option"
  apFlashLocked :: bool
  apProbeRead :: bool
  apErase :: flash_io
  apWrite :: flash_io

definition prepareSector ::
    "append_answers \<Rightarrow> nat \<Rightarrow> flash \<Rightarrow> AuditStoreStatus \<Rightarrow> bool \<times> flash \<times> AuditStoreStatus" where
  "prepareSector ans offset m st =
     (if offset mod AUDIT_STORE_SECTOR_BYTES = 0 then
        if \<not> apProbeRead ans then (False, m, st)
        else if \<not> auditStoreSlotEmpty (readRange offset AUDIT_STORE_RECORD_BYTES m) then
          (let (ok, m) = eraseRange (apErase ans) offset AUDIT_STORE_SECTOR_BYTES m in
           if ok \<and> writeCursor st \<ge> AUDIT_STORE_RECORD_CAPACITY then
             (let retiredThrough = writeCursor st - AUDIT_STORE_RECORD_CAPACITY + kRecordsPerSector - 1 in
              (ok, m, if windowStart st \<le> retiredThrough
                      then st\<lparr> windowStart := retiredThrough + 1 \<rparr> else st))
           else (ok, m, st))
        else (True, m, st)
      else (True, m, st))"

definition auditStoreAppend ::
    "append_answers \<Rightarrow> AuditRecord \<Rightarrow> flash \<times> AuditStoreStatus \<Rightarrow> bool \<times> flash \<times> AuditStoreStatus" where
  "auditStoreAppend ans r s = (case s of (m, st) \<Rightarrow>
     (if asState st \<noteq> StoreReady then (False, m, st)
      else if \<not> storePartition (apPartitionSize ans) \<or> \<not> apFlashLocked ans then (False, m, st)
      else
        let offset = slotOffset (writeCursor st);
            (ok, m, st) = prepareSector ans offset m st;
            (ok, m) = (if ok then writeRange (apWrite ans) offset (auditStoreEncodeRecord r) m else (False, m));
            st = (if ok then st\<lparr> writeCursor := writeCursor st + 1,
                               seqHigh := (if arSequence r > seqHigh st then arSequence r else seqHigh st) \<rparr>
                  else st) in
        (ok, m, st\<lparr> retained := writeCursor st - windowStart st \<rparr>)))"

text \<open>
  The page copy: \<open>None\<close> as result list position stands for a torn read, which empties the
  page. The result pairs the page with the slot to resume at.
\<close>

fun copyWindow :: "(nat \<Rightarrow> bool) \<Rightarrow> flash \<Rightarrow> u32 \<Rightarrow> nat \<Rightarrow> nat \<Rightarrow> nat list \<Rightarrow> AuditRecord list \<Rightarrow>
    AuditRecord list \<times> nat" where
  "copyWindow rd m after capacity end [] copied = (copied, end)"
| "copyWindow rd m after capacity end (index # rest) copied =
     (if \<not> length copied < capacity then (copied, index)
      else case readAuditSlot rd m index of None \<Rightarrow> ([], index)
      | Some slot \<Rightarrow>
          (case auditStoreDecodeRecord slot of
             None \<Rightarrow> copyWindow rd m after capacity end rest copied
           | Some r \<Rightarrow> copyWindow rd m after capacity end rest
               (if arSequence r > after then copied @ [r] else copied)))"

definition auditStoreCopyAfter ::
    "bool \<Rightarrow> (nat \<Rightarrow> bool) \<Rightarrow> u32 \<Rightarrow> nat \<Rightarrow> nat option \<Rightarrow> flash \<times> AuditStoreStatus \<Rightarrow>
      AuditRecord list \<times> nat option" where
  "auditStoreCopyAfter available rd after capacity resumeSlot s = (case s of (m, st) \<Rightarrow>
     (if capacity = 0 \<or> asState st \<noteq> StoreReady \<or> \<not> available then ([], resumeSlot)
      else
        let index = (case resumeSlot of Some r \<Rightarrow> if r > windowStart st then r else windowStart st
                     | None \<Rightarrow> windowStart st);
            (page, next) = copyWindow rd m after capacity (max index (writeCursor st)) [index..<writeCursor st] [] in
        (page, map_option (\<lambda>_. next) resumeSlot)))"

fun eraseSectors :: "(nat \<Rightarrow> flash_io) \<Rightarrow> nat list \<Rightarrow> flash \<Rightarrow> bool \<times> flash" where
  "eraseSectors io [] m = (True, m)"
| "eraseSectors io (sector # rest) m =
     (case eraseRange (io sector) (sector * AUDIT_STORE_SECTOR_BYTES) AUDIT_STORE_SECTOR_BYTES m of
        (ok, m') \<Rightarrow> if ok then eraseSectors io rest m' else (False, m'))"

definition auditStoreEraseAll ::
    "nat option \<Rightarrow> bool \<Rightarrow> (nat \<Rightarrow> flash_io) \<Rightarrow> flash \<times> AuditStoreStatus \<Rightarrow>
      bool \<times> flash \<times> AuditStoreStatus" where
  "auditStoreEraseAll psize locked io s = (case s of (m, st) \<Rightarrow>
     (if \<not> storePartition psize then (True, m, st)
      else if \<not> locked then (False, m, st)
      else
        let (ok, m) = eraseSectors io [0..<AUDIT_STORE_PARTITION_BYTES div AUDIT_STORE_SECTOR_BYTES] m in
        (ok, m, if ok then status0\<lparr> asState := StoreReady \<rparr> else st)))"

end
