(* ===== verification/Audit_Facts.thy ===== *)
theory Audit_Facts
  imports Audit_Store
begin

text \<open>
  The durable audit log end to end: the record codec, the ring on flash after any number
  of appends, and the boot that finds the same window again.
\<close>

section \<open>The codec\<close>

definition record_ok :: "AuditRecord \<Rightarrow> bool" where
  "record_ok r \<longleftrightarrow> arSequence r \<noteq> 0 \<and> unat (arTextLen r) < AUDIT_EXCERPT_BYTES \<and>
     length (arText r) = AUDIT_EXCERPT_BYTES \<and>
     drop (unat (arTextLen r)) (arText r) = replicate (AUDIT_EXCERPT_BYTES - unat (arTextLen r)) 0"

lemma excerpt_length: "length (excerptOf d) < AUDIT_EXCERPT_BYTES"
  by (simp add: excerptOf_def AUDIT_EXCERPT_BYTES_def)

lemma recordOf_ok: "seq \<noteq> 0 \<Longrightarrow> record_ok (recordOf seq e)"
  using excerpt_length [of "aeDetail e"]
  by (simp add: record_ok_def recordOf_def Let_def AUDIT_EXCERPT_BYTES_def unat_of_nat)

lemma le32_read:
  "length p = i \<Longrightarrow> getLe32 (p @ le32 x @ r) i = x"
  by (simp add: getLe_shift)

lemma encodeBody_ok:
  assumes "record_ok r"
  shows "encodeBody r = [0, arLevel r, arCategory r, arCode r] @ le32 (arSequence r) @
    le32 (arWallSec r) @ le32 (arAtMs r) @ le32 (arArgument1 r) @ le32 (arArgument2 r) @
    [arTextLen r] @ take (unat (arTextLen r)) (arText r) @
    replicate (37 - unat (arTextLen r)) 0"
  using assms
  by (simp add: encodeBody_def Let_def record_ok_def AUDIT_STORE_SCHEMA_VERSION_def
      AUDIT_STORE_RECORD_BYTES_def AUDIT_EXCERPT_BYTES_def min_def)

lemma length_encode [simp]: "length (encodeBody r) = 62" "length (auditStoreEncodeRecord r) = 64"
  by (simp_all add: encodeBody_def auditStoreEncodeRecord_def Let_def AUDIT_STORE_RECORD_BYTES_def
      AUDIT_EXCERPT_BYTES_def)

lemma decode_encode:
  assumes "record_ok r"
  shows "auditStoreDecodeRecord (auditStoreEncodeRecord r) = Some r"
proof -
  define tail where "tail = take (unat (arTextLen r)) (arText r) @ replicate (37 - unat (arTextLen r)) 0 @
    le16 (auditStoreChecksum (encodeBody r))"
  define hdr where "hdr = [0, arLevel r, arCategory r, arCode r]"
  have h: "length hdr = 4" "hdr ! 0 = 0" "hdr ! 1 = arLevel r" "hdr ! 2 = arCategory r" "hdr ! 3 = arCode r"
    by (simp_all add: hdr_def)
  have slot: "auditStoreEncodeRecord r = hdr @ le32 (arSequence r) @
    le32 (arWallSec r) @ le32 (arAtMs r) @ le32 (arArgument1 r) @ le32 (arArgument2 r) @ arTextLen r # tail"
    unfolding auditStoreEncodeRecord_def by (subst encodeBody_ok [OF assms]) (simp add: tail_def hdr_def)
  let ?s = "auditStoreEncodeRecord r"
  have w: "getLe32 ?s 4 = arSequence r" "getLe32 ?s 8 = arWallSec r" "getLe32 ?s 12 = arAtMs r"
    "getLe32 ?s 16 = arArgument1 r" "getLe32 ?s 20 = arArgument2 r"
    unfolding slot by (simp_all add: getLe_shift h)
  have b: "?s ! 0 = 0" "?s ! 1 = arLevel r" "?s ! 2 = arCategory r" "?s ! 3 = arCode r" "?s ! 24 = arTextLen r"
    unfolding slot by (simp_all add: nth_append h [unfolded One_nat_def])
  have t: "take (unat (arTextLen r)) (drop 25 ?s) = take (unat (arTextLen r)) (arText r)"
    using assms unfolding slot by (simp add: tail_def record_ok_def h)
  have c: "getLe16 ?s 62 = auditStoreChecksum (encodeBody r)" "take 62 ?s = encodeBody r"
    using getLe16_le16 [of "auditStoreChecksum (encodeBody r)" "[]"]
    by (simp_all add: auditStoreEncodeRecord_def getLe_shift)
  have ne: "\<not> auditStoreSlotEmpty ?s"
    unfolding slot by (simp add: auditStoreSlotEmpty_def hdr_def)
  have padded: "take (unat (arTextLen r)) (arText r) @ replicate (24 - unat (arTextLen r)) 0 = arText r"
    using assms append_take_drop_id [of "unat (arTextLen r)" "arText r"]
    by (simp add: record_ok_def AUDIT_EXCERPT_BYTES_def)
  show ?thesis
    using assms ne padded
    by (simp add: auditStoreDecodeRecord_def Let_def b [unfolded One_nat_def] w t c record_ok_def
        AUDIT_STORE_SCHEMA_VERSION_def AUDIT_STORE_RECORD_BYTES_def AUDIT_EXCERPT_BYTES_def)
qed

lemma encode_not_empty: "\<not> auditStoreSlotEmpty (auditStoreEncodeRecord r)"
  by (simp add: auditStoreSlotEmpty_def auditStoreEncodeRecord_def encodeBody_def Let_def
      AUDIT_STORE_SCHEMA_VERSION_def)

section \<open>Slots of the partition\<close>

definition slotBytes :: "flash \<Rightarrow> nat \<Rightarrow> bytes" where
  "slotBytes m j = readRange (j * 64) 64 m"

abbreviation emptySlot :: bytes where "emptySlot \<equiv> replicate 64 0xFF"

lemma slotOffset_eq: "slotOffset i = (i mod 1024) * 64"
  by (simp add: slotOffset_def AUDIT_STORE_RECORD_CAPACITY_def AUDIT_STORE_RECORD_BYTES_def)

lemma decodedSlot_eq: "decodedSlot m i = auditStoreDecodeRecord (slotBytes m (i mod 1024))"
  by (simp add: decodedSlot_def slotOffset_eq slotBytes_def AUDIT_STORE_RECORD_BYTES_def)

lemma length_slotBytes [simp]: "length (slotBytes m j) = 64"
  by (simp add: slotBytes_def readRange_def)

lemma slotBytes_nth: "k < 64 \<Longrightarrow> slotBytes m j ! k = m (j * 64 + k)"
  by (simp add: slotBytes_def readRange_def)

lemma slot_apart: "(j::nat) * 64 \<le> i * 64 + k \<Longrightarrow> k < 64 \<Longrightarrow> i * 64 + k < j * 64 + 64 \<Longrightarrow> i = j"
  by linarith

lemma slot_write:
  assumes "length bs = 64" "slotBytes m j = emptySlot"
  shows "slotBytes (snd (writeRange FlashOk (j * 64) bs m)) i = (if i = j then bs else slotBytes m i)"
proof (rule nth_equalityI)
  show "length (slotBytes (snd (writeRange FlashOk (j * 64) bs m)) i) =
    length (if i = j then bs else slotBytes m i)"
    using assms(1) by simp
  fix k
  assume "k < length (slotBytes (snd (writeRange FlashOk (j * 64) bs m)) i)"
  then have k: "k < 64" by simp
  have e: "m (j * 64 + k) = 0xFF"
    using assms(2) slotBytes_nth [OF k, of m j] k by simp
  show "slotBytes (snd (writeRange FlashOk (j * 64) bs m)) i ! k =
    (if i = j then bs else slotBytes m i) ! k"
    using k e AND_erased slot_apart [of j i k] assms(1)
    by (auto simp: slotBytes_nth writeRange_def scramble_def)
qed

lemma slot_erase:
  "slotBytes (snd (eraseRange FlashOk (j * 64) 4096 m)) i =
    (if j \<le> i \<and> i < j + 64 then emptySlot else slotBytes m i)"
proof (rule nth_equalityI)
  show "length (slotBytes (snd (eraseRange FlashOk (j * 64) 4096 m)) i) =
    length (if j \<le> i \<and> i < j + 64 then emptySlot else slotBytes m i)" by simp
  fix k
  assume "k < length (slotBytes (snd (eraseRange FlashOk (j * 64) 4096 m)) i)"
  then have k: "k < 64" by simp
  have "j * 64 \<le> i * 64 + k \<and> i * 64 + k < j * 64 + 4096 \<longleftrightarrow> j \<le> i \<and> i < j + 64"
    using k by linarith
  then show "slotBytes (snd (eraseRange FlashOk (j * 64) 4096 m)) i ! k =
    (if j \<le> i \<and> i < j + 64 then emptySlot else slotBytes m i) ! k"
    using k by (auto simp: slotBytes_nth eraseRange_def scramble_def)
qed

lemma empty_slot: "auditStoreSlotEmpty bs \<longleftrightarrow> bs = replicate (length bs) 0xFF"
  by (simp add: auditStoreSlotEmpty_def list_all_length list_eq_iff_nth_eq)

lemma decode_empty: "auditStoreDecodeRecord emptySlot = None"
  by (simp add: auditStoreDecodeRecord_def auditStoreSlotEmpty_def list_all_iff)

section \<open>The ring after a number of appends\<close>

definition goodAppend :: append_answers where
  "goodAppend = \<lparr> apPartitionSize = Some AUDIT_STORE_PARTITION_BYTES, apFlashLocked = True,
     apProbeRead = True, apErase = FlashOk, apWrite = FlashOk \<rparr>"

definition appendAll :: "AuditRecord list \<Rightarrow> flash \<times> AuditStoreStatus \<Rightarrow> flash \<times> AuditStoreStatus" where
  "appendAll rs s = fold (\<lambda>r s. snd (auditStoreAppend goodAppend r s)) rs s"

text \<open>The index of the oldest retained record after \<open>n\<close> appends.\<close>

definition oldestKept :: "nat \<Rightarrow> nat" where
  "oldestKept n = (if n \<le> 1024 then 0 else 64 * ((n - 1) div 64) - 960)"

lemma oldestKept_bounds: "oldestKept n \<le> n" "n \<le> oldestKept n + 1024" "0 < n \<Longrightarrow> oldestKept n < n"
  "n \<le> oldestKept n + 961 \<or> oldestKept n + 961 \<le> n" "min n 961 \<le> n - oldestKept n"
proof -
  have d: "64 * ((n - 1) div 64) \<le> n - 1" "n - 1 < 64 * ((n - 1) div 64) + 64"
    by (simp_all add: dividend_less_times_div)
  show "oldestKept n \<le> n" "n \<le> oldestKept n + 1024" "0 < n \<Longrightarrow> oldestKept n < n"
    "n \<le> oldestKept n + 961 \<or> oldestKept n + 961 \<le> n" "min n 961 \<le> n - oldestKept n"
    using d by (auto simp: oldestKept_def)
qed

lemma oldestKept_Suc:
  "oldestKept (Suc n) = (if n mod 64 = 0 \<and> 1024 \<le> n then n - 960 else oldestKept n)"
proof (cases "n mod 64 = 0")
  case True
  then obtain q where q: "n = 64 * q" by auto
  show ?thesis
  proof (cases "1024 < n")
    case True
    then have "(n - 1) div 64 = q - 1" using q by simp
    then show ?thesis using True q by (simp add: oldestKept_def)
  qed (use q in \<open>auto simp: oldestKept_def\<close>)
next
  case False
  then have "n div 64 = (n - 1) div 64"
    by (cases n) (auto simp: div_Suc mod_Suc split: if_splits)
  then show ?thesis using False by (auto simp: oldestKept_def)
qed

lemma oldestKept_aligned: "n mod 64 = 0 \<Longrightarrow> 1024 \<le> n \<Longrightarrow> oldestKept n = n - 1024"
proof -
  assume a: "n mod 64 = 0" "1024 \<le> n"
  then obtain q where q: "n = 64 * q" by auto
  then have "(n - 1) div 64 = q - 1" using a(2) by simp
  then show ?thesis using a q by (auto simp: oldestKept_def)
qed

lemma oldestKept_gap: "n mod 64 \<noteq> 0 \<Longrightarrow> n < oldestKept n + 1024"
proof -
  assume a: "n mod 64 \<noteq> 0"
  have "n - 1 < 64 * ((n - 1) div 64) + 64" by (simp add: dividend_less_times_div)
  moreover have "n \<noteq> 64 * ((n - 1) div 64) + 64" using a by (metis mod_mult_self1_is_0 mod_add_self2)
  moreover have "n \<noteq> 1024" using a by auto
  ultimately show ?thesis by (auto simp: oldestKept_def)
qed

definition ring_after :: "AuditRecord list \<Rightarrow> flash \<times> AuditStoreStatus \<Rightarrow> bool" where
  "ring_after rs s \<longleftrightarrow> (case s of (m, st) \<Rightarrow>
     asState st = StoreReady \<and> writeCursor st = length rs \<and> windowStart st = oldestKept (length rs) \<and>
     (\<forall>k. oldestKept (length rs) \<le> k \<and> k < length rs \<longrightarrow>
        slotBytes m (k mod 1024) = auditStoreEncodeRecord (rs ! k)) \<and>
     (\<forall>k. length rs \<le> k \<and> k < oldestKept (length rs) + 1024 \<longrightarrow> slotBytes m (k mod 1024) = emptySlot))"

lemma mod_eq_close: "(a::nat) mod n = b mod n \<Longrightarrow> a \<le> b \<Longrightarrow> b < a + n \<Longrightarrow> a = b"
  by (metis add_diff_cancel_left' le_Suc_ex less_diff_conv2 mod_eq_dvd_iff_nat nat_dvd_not_less neq0_conv add.right_neutral le_add1 nat_add_left_cancel_less)

lemma good_append:
  fixes m :: flash and r :: AuditRecord
  assumes "asState st = StoreReady"
  defines "j \<equiv> writeCursor st mod 1024"
  defines "m1 \<equiv> (if j mod 64 = 0 \<and> slotBytes m j \<noteq> emptySlot
       then snd (eraseRange FlashOk (j * 64) 4096 m) else m)"
    and "w1 \<equiv> (if j mod 64 = 0 \<and> slotBytes m j \<noteq> emptySlot \<and> 1024 \<le> writeCursor st \<and>
         windowStart st \<le> writeCursor st - 961
       then writeCursor st - 960 else windowStart st)"
  shows "auditStoreAppend goodAppend r (m, st) =
    (True, snd (writeRange FlashOk (j * 64) (auditStoreEncodeRecord r) m1),
     st\<lparr> writeCursor := writeCursor st + 1, windowStart := w1,
         seqHigh := (if arSequence r > seqHigh st then arSequence r else seqHigh st),
         retained := writeCursor st + 1 - w1 \<rparr>)"
proof -
  have o: "slotOffset (writeCursor st) = j * 64" by (simp add: slotOffset_eq j_def)
  have "j * 64 mod 4096 = 64 * (j mod 64)"
    using mult_mod_right [of 64 j 64] by (simp add: mult.commute)
  then have al: "j * 64 mod 4096 = 0 \<longleftrightarrow> j mod 64 = 0" by simp
  have emp: "auditStoreSlotEmpty (readRange (j * 64) 64 m) \<longleftrightarrow> slotBytes m j = emptySlot"
    using empty_slot [of "slotBytes m j"] by (simp add: slotBytes_def readRange_def)
  have e: "fst (eraseRange FlashOk x y m) = True" "fst (writeRange FlashOk x bs m') = True" for x y bs m'
    by (simp_all add: eraseRange_def writeRange_def)
  have arith: "1024 \<le> c \<Longrightarrow> c - 1024 + 64 - 1 = c - 961" "1024 \<le> c \<Longrightarrow> c - 961 + 1 = c - 960" for c :: nat
    by simp_all
  have prep: "prepareSector goodAppend (j * 64) m st = (True, m1, st\<lparr> windowStart := w1 \<rparr>)"
    using e arith [of "writeCursor st"]
    by (auto simp: prepareSector_def goodAppend_def AUDIT_STORE_SECTOR_BYTES_def AUDIT_STORE_RECORD_BYTES_def
        AUDIT_STORE_RECORD_CAPACITY_def kRecordsPerSector_def al emp m1_def w1_def Let_def split_beta)
  show ?thesis
    using assms(1) e
    by (simp add: auditStoreAppend_def Let_def prep o storePartition_def split_beta)
      (simp add: goodAppend_def)
qed

lemma mod_block: "(n::nat) mod 1024 mod 64 = n mod 64"
  by (rule mod_mod_cancel) simp

lemma window_slots_apart:
  assumes "oldestKept n \<le> k" "k < oldestKept n + 1024" "oldestKept n \<le> l" "l < oldestKept n + 1024" "k \<noteq> l"
  shows "k mod 1024 \<noteq> l mod 1024"
  using mod_eq_close [of k 1024 l] mod_eq_close [of l 1024 k] assms by (metis le_cases less_le_trans add_le_mono1)

lemma mod_1024: "1024 * q \<le> k \<Longrightarrow> k < 1024 * q + 1024 \<Longrightarrow> k mod 1024 = k - 1024 * (q::nat)"
  using mod_mult_self2 [of "k - 1024 * q" 1024 q] by simp

text \<open>The sector ahead of an aligned cursor, in slots: what it holds and what it does not.\<close>

lemma sector_ahead:
  assumes "(n::nat) mod 64 = 0"
  shows "n \<le> k \<Longrightarrow> k < n + 64 \<Longrightarrow> n mod 1024 \<le> k mod 1024 \<and> k mod 1024 < n mod 1024 + 64"
    and "n \<le> k + 960 \<Longrightarrow> k < n \<Longrightarrow> \<not> (n mod 1024 \<le> k mod 1024 \<and> k mod 1024 < n mod 1024 + 64)"
proof -
  define q a where "q = n div 1024" and "a = n mod 1024"
  have n: "n = 1024 * q + a" by (simp add: q_def a_def)
  have a: "a \<le> 960"
  proof -
    obtain c where c: "a = 64 * c" using assms mod_block [of n] by (auto simp: a_def)
    have "a < 1024" by (simp add: a_def)
    then show ?thesis using c by simp
  qed
  show "n mod 1024 \<le> k mod 1024 \<and> k mod 1024 < n mod 1024 + 64" if "n \<le> k" "k < n + 64"
    using that n a mod_1024 [of q k] unfolding a_def [symmetric] by linarith
  show "\<not> (n mod 1024 \<le> k mod 1024 \<and> k mod 1024 < n mod 1024 + 64)" if "n \<le> k + 960" "k < n"
  proof (cases "1024 * q \<le> k")
    case True
    then show ?thesis using that n a mod_1024 [of q k] unfolding a_def [symmetric] by linarith
  next
    case False
    then have "0 < q" by (cases q) auto
    then have "1024 * (q - 1) + 1024 = 1024 * q" by (cases q) auto
    then show ?thesis using that n a False mod_1024 [of "q - 1" k] unfolding a_def [symmetric] by linarith
  qed
qed

lemma ring_step:
  assumes "ring_after rs (m, st)"
  shows "ring_after (rs @ [r]) (snd (auditStoreAppend goodAppend r (m, st)))"
proof -
  let ?n = "length rs" and ?j = "length rs mod 1024"
  let ?o = "oldestKept (length rs)"
  have st: "asState st = StoreReady" "writeCursor st = ?n" "windowStart st = ?o"
    and live: "\<And>k. ?o \<le> k \<Longrightarrow> k < ?n \<Longrightarrow> slotBytes m (k mod 1024) = auditStoreEncodeRecord (rs ! k)"
    and free: "\<And>k. ?n \<le> k \<Longrightarrow> k < ?o + 1024 \<Longrightarrow> slotBytes m (k mod 1024) = emptySlot"
    using assms by (auto simp: ring_after_def)
  have enc_ne: "auditStoreEncodeRecord x \<noteq> emptySlot" for x
    using encode_not_empty [of x] empty_slot [of "auditStoreEncodeRecord x"] by auto
  have lap: "?j mod 64 = 0 \<and> slotBytes m ?j \<noteq> emptySlot \<longleftrightarrow> ?n mod 64 = 0 \<and> 1024 \<le> ?n"
  proof (cases "?n mod 64 = 0 \<and> 1024 \<le> ?n")
    case True
    then have "?o = ?n - 1024" using oldestKept_aligned [of ?n] by simp
    then have "slotBytes m ((?n - 1024) mod 1024) = auditStoreEncodeRecord (rs ! (?n - 1024))"
      using True by (intro live) auto
    moreover have "(?n - 1024) mod 1024 = ?j" using True by (metis le_mod_geq)
    ultimately show ?thesis using True enc_ne mod_block [of ?n] by simp
  next
    case False
    show ?thesis
    proof (cases "?n mod 64 = 0")
      case True
      then have "?n < ?o + 1024" using False by (simp add: oldestKept_def)
      then show ?thesis using free [of ?n] False by simp
    qed (simp add: mod_block)
  qed
  define m1 where "m1 = (if ?n mod 64 = 0 \<and> 1024 \<le> ?n
       then snd (eraseRange FlashOk (?j * 64) 4096 m) else m)"
  have w: "(if ?j mod 64 = 0 \<and> slotBytes m ?j \<noteq> emptySlot \<and> 1024 \<le> ?n \<and> ?o \<le> ?n - 961
      then ?n - 960 else ?o) = oldestKept (Suc ?n)"
    using lap oldestKept_aligned [of ?n] oldestKept_Suc [of ?n] by (cases "?n mod 64 = 0 \<and> 1024 \<le> ?n") auto
  define s' where "s' = snd (auditStoreAppend goodAppend r (m, st))"
  have s': "fst s' = snd (writeRange FlashOk (?j * 64) (auditStoreEncodeRecord r) m1)"
    "asState (snd s') = StoreReady" "writeCursor (snd s') = Suc ?n"
    "windowStart (snd s') = oldestKept (Suc ?n)"
    using good_append [OF st(1), where m = m and r = r, unfolded st(2,3) w lap] st(1)
    by (simp_all add: s'_def m1_def)
  text \<open>What the erase leaves of the window, and that it frees the slot written to.\<close>
  have keep: "slotBytes m1 (k mod 1024) = auditStoreEncodeRecord (rs ! k)"
    if "oldestKept (Suc ?n) \<le> k" "k < ?n" for k
  proof (cases "?n mod 64 = 0 \<and> 1024 \<le> ?n")
    case True
    then have o: "?o = ?n - 1024" "oldestKept (Suc ?n) = ?n - 960"
      using oldestKept_aligned oldestKept_Suc by auto
    have out: "\<not> (?j \<le> k mod 1024 \<and> k mod 1024 < ?j + 64)"
      using that o True by (intro sector_ahead(2)) auto
    have "m1 = snd (eraseRange FlashOk (?j * 64) 4096 m)" using True by (simp add: m1_def)
    then have "slotBytes m1 (k mod 1024) = slotBytes m (k mod 1024)"
      by (simp only: slot_erase if_not_P [OF out])
    then show ?thesis using live that o True by simp
  next
    case False
    then have "oldestKept (Suc ?n) = ?o" using oldestKept_Suc by auto
    moreover have "m1 = m" using False by (auto simp: m1_def)
    ultimately show ?thesis using live that by simp
  qed
  have blank: "slotBytes m1 (k mod 1024) = emptySlot"
    if "?n \<le> k" "k < oldestKept (Suc ?n) + 1024" for k
  proof (cases "?n mod 64 = 0 \<and> 1024 \<le> ?n")
    case True
    then have "oldestKept (Suc ?n) = ?n - 960" using oldestKept_Suc by auto
    then have "?j \<le> k mod 1024 \<and> k mod 1024 < ?j + 64"
      using that True by (intro sector_ahead(1)) auto
    then show ?thesis using True by (simp add: m1_def slot_erase)
  next
    case False
    then have "oldestKept (Suc ?n) = ?o" using oldestKept_Suc by auto
    moreover have "m1 = m" using False by (auto simp: m1_def)
    ultimately show ?thesis using free that by simp
  qed
  have nn: "?n < oldestKept (Suc ?n) + 1024" "oldestKept (Suc ?n) \<le> ?n"
    using oldestKept_bounds(2,3) [of "Suc ?n"] by auto
  have slots: "slotBytes (fst s') i = (if i = ?j then auditStoreEncodeRecord r else slotBytes m1 i)" for i
    unfolding s'(1) by (rule slot_write) (use blank [of ?n] nn in auto)
  have apart: "k mod 1024 \<noteq> ?j" if "oldestKept (Suc ?n) \<le> k" "k < oldestKept (Suc ?n) + 1024" "k \<noteq> ?n" for k
    using window_slots_apart [OF that(1,2) nn(2,1) that(3)] .
  have "slotBytes (fst s') (k mod 1024) = auditStoreEncodeRecord ((rs @ [r]) ! k)"
    if "oldestKept (Suc ?n) \<le> k" "k < Suc ?n" for k
    using that keep [of k] apart [of k] nn by (cases "k = ?n") (simp_all add: slots nth_append)
  moreover have "slotBytes (fst s') (k mod 1024) = emptySlot"
    if "Suc ?n \<le> k" "k < oldestKept (Suc ?n) + 1024" for k
    using that blank [of k] apart [of k] nn by (simp add: slots)
  ultimately show ?thesis
    unfolding s'_def [symmetric] using s' by (simp add: ring_after_def split_beta)
qed

lemma ring_after_all:
  "ring_after qs s \<Longrightarrow> ring_after (qs @ rs) (appendAll rs s)"
proof (induction rs arbitrary: qs s)
  case (Cons r rs)
  have "ring_after (qs @ [r]) (snd (auditStoreAppend goodAppend r s))"
    using ring_step Cons.prems by (cases s) blast
  from Cons.IH [OF this] show ?case by (simp add: appendAll_def)
qed (simp add: appendAll_def)

section \<open>The boot scan\<close>

text \<open>With every read answered, the passes are functions of the decoded slots.\<close>

lemma readAuditSlot_all: "readAuditSlot (\<lambda>_. True) m i = Some (slotBytes m (i mod 1024))"
  by (simp add: readAuditSlot_def slotOffset_eq slotBytes_def AUDIT_STORE_RECORD_BYTES_def)

lemma scanRuns_gap:
  "(\<And>i. i \<in> set is \<Longrightarrow> decodedSlot m i = None) \<Longrightarrow> is \<noteq> [] \<Longrightarrow>
     scanRuns (\<lambda>_. True) m (is @ rest) inRun runs = scanRuns (\<lambda>_. True) m rest False runs"
proof (induction "is" arbitrary: inRun)
  case (Cons i "is")
  have "auditStoreDecodeRecord (slotBytes m (i mod 1024)) = None"
    using Cons.prems(1) [of i] by (simp add: decodedSlot_eq)
  then show ?case using Cons by (cases "is = []") (simp_all add: readAuditSlot_all)
qed simp

lemma scanRuns_extend:
  "(\<And>i. i \<in> {a..<b} \<Longrightarrow> decodedSlot m i \<noteq> None) \<Longrightarrow> a \<le> b \<Longrightarrow>
     scanRuns (\<lambda>_. True) m ([a..<b] @ rest) True ((x, a) # runs) =
     scanRuns (\<lambda>_. True) m rest True ((x, b) # runs)"
proof (induction "b - a" arbitrary: a)
  case (Suc k)
  then have "a < b" by simp
  moreover obtain r where "auditStoreDecodeRecord (slotBytes m (a mod 1024)) = Some r"
    using Suc.prems(1) [of a] \<open>a < b\<close> by (auto simp: decodedSlot_eq)
  ultimately show ?case
    using Suc.hyps(1) [of "Suc a"] Suc.hyps(2) Suc.prems by (simp add: upt_conv_Cons readAuditSlot_all)
qed simp

lemma scanRuns_run:
  assumes "\<And>i. i \<in> {a..<b} \<Longrightarrow> decodedSlot m i \<noteq> None" "a < b" "length runs \<noteq> 8"
  shows "scanRuns (\<lambda>_. True) m ([a..<b] @ rest) False runs =
    scanRuns (\<lambda>_. True) m rest True ((a, b) # runs)"
proof -
  obtain r where "auditStoreDecodeRecord (slotBytes m (a mod 1024)) = Some r"
    using assms(1) [of a] assms(2) by (auto simp: decodedSlot_eq)
  then have "scanRuns (\<lambda>_. True) m ([a..<b] @ rest) False runs =
      scanRuns (\<lambda>_. True) m ([Suc a..<b] @ rest) True ((a, Suc a) # runs)"
    using assms(2,3) by (simp add: upt_conv_Cons readAuditSlot_all kMaxScanRuns_def)
  also have "\<dots> = scanRuns (\<lambda>_. True) m rest True ((a, b) # runs)"
    by (rule scanRuns_extend) (use assms in auto)
  finally show ?thesis .
qed

lemma scanSequences_ascending:
  assumes "\<And>i. i \<in> {a..<b} \<Longrightarrow> decodedSlot m i = Some (f i)" "a \<le> b"
    and "\<And>i j. a \<le> i \<Longrightarrow> i < j \<Longrightarrow> j < b \<Longrightarrow> arSequence (f i) < arSequence (f j)"
    and "a < b \<Longrightarrow> high < arSequence (f a)"
  shows "scanSequences (\<lambda>_. True) m ([a..<b] @ rest) d high =
    scanSequences (\<lambda>_. True) m rest d (if a < b then arSequence (f (b - 1)) else high)"
  using assms
proof (induction "b - a" arbitrary: a high)
  case (Suc k)
  then have ab: "a < b" by simp
  have "auditStoreDecodeRecord (slotBytes m (a mod 1024)) = Some (f a)"
    using Suc.prems(1) [of a] ab by (simp add: decodedSlot_eq)
  then have "scanSequences (\<lambda>_. True) m ([a..<b] @ rest) d high =
      scanSequences (\<lambda>_. True) m ([Suc a..<b] @ rest) d (arSequence (f a))"
    using ab Suc.prems(4) by (simp add: upt_conv_Cons readAuditSlot_all) (meson order_less_asym)
  also have "\<dots> = scanSequences (\<lambda>_. True) m rest d
      (if Suc a < b then arSequence (f (b - 1)) else arSequence (f a))"
    using ab Suc.hyps(2) Suc.prems by (intro Suc.hyps(1)) auto
  also have "(if Suc a < b then arSequence (f (b - 1)) else arSequence (f a)) = arSequence (f (b - 1))"
    using ab by (cases "Suc a < b") (auto simp: not_less le_Suc_eq)
  finally show ?case using ab by simp
qed simp

lemma scanSequences_below:
  assumes "\<And>i. i \<in> set is \<Longrightarrow> \<exists>r. decodedSlot m i = Some r \<and> arSequence r < high" "d \<noteq> 0"
  shows "scanSequences (\<lambda>_. True) m is d high = (True, d, high)"
  using assms(1)
proof (induction "is")
  case (Cons i "is")
  obtain r where "decodedSlot m i = Some r" "arSequence r < high" using Cons.prems [of i] by auto
  then have "\<not> high < arSequence r" "decodedSlot m i = Some r" by auto
  then show ?case using Cons assms(2) by (simp add: readAuditSlot_all decodedSlot_eq)
qed simp

definition ascending :: "AuditRecord list \<Rightarrow> bool" where
  "ascending rs \<longleftrightarrow> sorted_wrt (<) (map arSequence rs)"

lemma ascending_nth: "ascending rs \<Longrightarrow> i < j \<Longrightarrow> j < length rs \<Longrightarrow> arSequence (rs ! i) < arSequence (rs ! j)"
  using sorted_wrt_nth_less [of "(<)" "map arSequence rs" i j] by (simp add: ascending_def)

lemma decoded_shift: "t mod 1024 = 0 \<Longrightarrow> decodedSlot m (i + t) = decodedSlot m i"
  by (simp add: decodedSlot_eq) (metis add.right_neutral mod_add_right_eq)

lemma decoded_live:
  assumes "ring_after rs (m, st)" "\<forall>r\<in>set rs. record_ok r" "oldestKept (length rs) \<le> k" "k < length rs"
  shows "decodedSlot m k = Some (rs ! k)"
  using assms decode_encode by (auto simp: ring_after_def decodedSlot_eq)

lemma decoded_free:
  assumes "ring_after rs (m, st)" "length rs \<le> k" "k < oldestKept (length rs) + 1024"
  shows "decodedSlot m k = None"
  using assms decode_empty by (auto simp: ring_after_def decodedSlot_eq)

text \<open>The window in one piece, read through a shift by whole laps.\<close>

lemma sequences_window:
  assumes "ring_after rs (m, st)" "\<forall>r\<in>set rs. record_ok r" "ascending rs" "rs \<noteq> []"
    and "t mod 1024 = 0" "t \<le> oldestKept (length rs)"
  shows "scanSequences (\<lambda>_. True) m [oldestKept (length rs) - t..<length rs - t] 0 0 =
    (True, 0, arSequence (last rs))"
proof -
  let ?o = "oldestKept (length rs)" and ?n = "length rs"
  have o: "?o < ?n" using oldestKept_bounds(3) [of ?n] assms(4) by simp
  have dec: "decodedSlot m i = Some (rs ! (i + t))" if "i \<in> {?o - t..<?n - t}" for i
  proof -
    have "?o \<le> i + t" "i + t < ?n" using that assms(6) by auto
    then show ?thesis
      using decoded_live [OF assms(1,2)] decoded_shift [OF assms(5), of m i] by metis
  qed
  have pos: "0 < arSequence (rs ! (?o - t + t))"
    using assms(2,6) o by (simp add: record_ok_def word_neq_0_conv)
  have "scanSequences (\<lambda>_. True) m ([?o - t..<?n - t] @ []) 0 0 =
     scanSequences (\<lambda>_. True) m [] 0 (if ?o - t < ?n - t then arSequence (rs ! (?n - t - 1 + t)) else 0)"
    by (rule scanSequences_ascending) (use dec pos o assms(3,6) in \<open>auto intro: ascending_nth\<close>)
  moreover have "?n - t - 1 + t = ?n - 1" "?o - t < ?n - t" using o assms(6) by linarith+
  ultimately show ?thesis using o assms(4,6) by (simp add: last_conv_nth)
qed

lemma scanWindow_single:
  assumes "scanRuns (\<lambda>_. True) m [0..<1024] False [] = Some [(a, b)]"
    and "scanSequences (\<lambda>_. True) m [a..<b] 0 0 = (True, 0, h)"
  shows "scanWindow (\<lambda>_. True) (\<lambda>_. True) m st =
    (True, st\<lparr> windowStart := a, writeCursor := b, seqHigh := h \<rparr>)"
  using assms by (simp add: scanWindow_def AUDIT_STORE_RECORD_CAPACITY_def Let_def)

lemma scan_after_first_lap:
  assumes "ring_after rs (m, st)" "\<forall>r\<in>set rs. record_ok r" "ascending rs" "rs \<noteq> []" "length rs \<le> 1024"
  shows "scanWindow (\<lambda>_. True) (\<lambda>_. True) m st0 =
    (True, st0\<lparr> windowStart := 0, writeCursor := length rs, seqHigh := arSequence (last rs) \<rparr>)"
proof (rule scanWindow_single)
  let ?n = "length rs"
  have o: "oldestKept ?n = 0" using assms(5) by (simp add: oldestKept_def)
  show "scanSequences (\<lambda>_. True) m [0..<?n] 0 0 = (True, 0, arSequence (last rs))"
    using sequences_window [OF assms(1-4), of 0] by (simp add: o)
  have "scanRuns (\<lambda>_. True) m ([0..<?n] @ [?n..<1024]) False [] =
      scanRuns (\<lambda>_. True) m [?n..<1024] True [(0, ?n)]"
    by (rule scanRuns_run) (use decoded_live [OF assms(1,2)] assms(4) in \<open>auto simp: o\<close>)
  moreover have "[0..<?n] @ [?n..<1024] = [0..<1024]"
    using upt_add_eq_append [of 0 ?n "1024 - ?n"] assms(5) by simp
  moreover have "scanRuns (\<lambda>_. True) m [?n..<1024] True [(0, ?n)] = Some [(0, ?n)]"
    using scanRuns_gap [of "[?n..<1024]" m "[]" True "[(0, ?n)]"] decoded_free [OF assms(1)] o
    by (cases "?n < 1024") auto
  ultimately show "scanRuns (\<lambda>_. True) m [0..<1024] False [] = Some [(0, ?n)]" by simp
qed

lemma upt_split: "a \<le> b \<Longrightarrow> b \<le> c \<Longrightarrow> [a..<b] @ [b..<c] = [a..<c]"
  using upt_add_eq_append [of a b "c - b"] by simp

lemma scan_after_gap:
  assumes "ring_after rs (m, st)" "\<forall>r\<in>set rs. record_ok r" "ascending rs" "1024 < length rs" "length rs mod 64 \<noteq> 0"
  shows "\<exists>t. t mod 1024 = 0 \<and> t \<le> oldestKept (length rs) \<and> scanWindow (\<lambda>_. True) (\<lambda>_. True) m st0 =
    (True, st0\<lparr> windowStart := oldestKept (length rs) - t, writeCursor := length rs - t,
       seqHigh := arSequence (last rs) \<rparr>)"
proof -
  define n q r e where "n = length rs" and "q = n div 1024" and "r = n mod 1024" and "e = 64 * (r div 64) + 64"
  have n: "n = 1024 * q + r" "r < 1024" "0 < q" using assms(4) by (simp_all add: q_def r_def n_def)
  have r64: "r mod 64 \<noteq> 0" "0 < r"
    using assms(5) mod_block [of n] by (auto simp: r_def n_def)
  have e: "r < e" "e \<le> 1024" "e < r + 64"
  proof -
    have "r = 64 * (r div 64) + r mod 64" "r mod 64 < 64" "0 < r mod 64" using r64 by simp_all
    then show "r < e" "e < r + 64" unfolding e_def by linarith+
    have "r div 64 < 16" using n(2) by (simp add: less_mult_imp_div_less)
    then show "e \<le> 1024" by (simp add: e_def)
  qed
  have o: "oldestKept n = 1024 * q + e - 1024"
  proof -
    have "n div 64 = 16 * q + r div 64" using n(1) by simp
    moreover have "(n - 1) div 64 = n div 64"
      using assms(5) by (cases n) (auto simp: div_Suc n_def mod_Suc split: if_splits)
    ultimately show ?thesis using assms(4) by (simp add: oldestKept_def n_def e_def)
  qed
  have live: "decodedSlot m i \<noteq> None" if "i < r \<or> e \<le> i \<and> i < 1024" for i
  proof (cases "i < r")
    case True
    then have "decodedSlot m (i + 1024 * q) \<noteq> None"
      using decoded_live [OF assms(1,2), of "i + 1024 * q"] n e o by (simp add: n_def)
    then show ?thesis using decoded_shift [of "1024 * q" m i] by simp
  next
    case False
    define k where "k = i + (1024 * q - 1024)"
    have "1024 \<le> 1024 * q" using n(3) by simp
    then have "oldestKept n \<le> k" "k < n" using False that o n(1) e unfolding k_def by linarith+
    then have "decodedSlot m (i + (1024 * q - 1024)) \<noteq> None"
      using decoded_live [OF assms(1,2), of k] by (simp add: n_def k_def)
    moreover have "(1024 * q - 1024) mod 1024 = 0" using n(3) by (cases q) simp_all
    ultimately show ?thesis using decoded_shift [of "1024 * q - 1024" m i] by simp
  qed
  have free: "decodedSlot m i = None" if "r \<le> i" "i < e" for i
    using decoded_free [OF assms(1), of "i + 1024 * q"] decoded_shift [of "1024 * q" m i] that n o
    by (simp add: n_def)
  have "scanRuns (\<lambda>_. True) m [0..<1024] False [] = scanRuns (\<lambda>_. True) m ([0..<r] @ [r..<e] @ [e..<1024]) False []"
    using upt_split [of 0 r e] upt_split [of 0 e 1024] e by (metis append.assoc less_imp_le zero_le)
  also have "\<dots> = scanRuns (\<lambda>_. True) m ([r..<e] @ [e..<1024]) True [(0, r)]"
    by (rule scanRuns_run) (use live r64 in auto)
  also have "\<dots> = scanRuns (\<lambda>_. True) m [e..<1024] False [(0, r)]"
    by (rule scanRuns_gap) (use free e in auto)
  finally have runs: "scanRuns (\<lambda>_. True) m [0..<1024] False [] = scanRuns (\<lambda>_. True) m [e..<1024] False [(0, r)]" .
  have ne: "rs \<noteq> []" using assms(4) by auto
  show ?thesis
  proof (cases "e = 1024")
    case True
    have "scanWindow (\<lambda>_. True) (\<lambda>_. True) m st0 =
      (True, st0\<lparr> windowStart := 0, writeCursor := r, seqHigh := arSequence (last rs) \<rparr>)"
      using runs True sequences_window [OF assms(1-3) ne, of "1024 * q"] o n
      by (intro scanWindow_single) (simp_all add: n_def [symmetric])
    then show ?thesis using o n True by (intro exI [of _ "1024 * q"]) (simp add: n_def [symmetric])
  next
    case False
    then have "scanRuns (\<lambda>_. True) m ([e..<1024] @ []) False [(0, r)] = scanRuns (\<lambda>_. True) m [] True [(e, 1024), (0, r)]"
      by (intro scanRuns_run) (use live e in auto)
    then have two: "scanRuns (\<lambda>_. True) m [0..<1024] False [] = Some [(e, 1024), (0, r)]"
      using runs by simp
    have t: "(1024 * q - 1024) mod 1024 = 0" "1024 * q - 1024 \<le> oldestKept n"
      "oldestKept n - (1024 * q - 1024) = e" "n - (1024 * q - 1024) = 1024 + r"
      using n o by (cases q, simp_all)+
    have "scanSequences (\<lambda>_. True) m [e..<1024 + r] 0 0 = (True, 0, arSequence (last rs))"
      using sequences_window [OF assms(1-3) ne t(1)] t by (simp add: n_def [symmetric])
    then have "scanWindow (\<lambda>_. True) (\<lambda>_. True) m st0 =
      (True, st0\<lparr> windowStart := e, writeCursor := 1024 + r, seqHigh := arSequence (last rs) \<rparr>)"
      using two by (simp add: scanWindow_def AUDIT_STORE_RECORD_CAPACITY_def Let_def)
    then show ?thesis using t by (intro exI [of _ "1024 * q - 1024"]) (simp add: n_def [symmetric])
  qed
qed

lemma scan_after_full:
  assumes "ring_after rs (m, st)" "\<forall>r\<in>set rs. record_ok r" "ascending rs" "1024 < length rs" "length rs mod 64 = 0"
  shows "\<exists>t. t mod 1024 = 0 \<and> t \<le> oldestKept (length rs) \<and> scanWindow (\<lambda>_. True) (\<lambda>_. True) m st0 =
    (True, st0\<lparr> windowStart := oldestKept (length rs) - t, writeCursor := length rs - t,
       seqHigh := arSequence (last rs) \<rparr>)"
proof -
  define n p r where "n = length rs" and "p = n div 1024 - 1" and "r = n mod 1024"
  have n: "n = 1024 * p + 1024 + r" "r < 1024"
  proof -
    have "n = 1024 * (n div 1024) + r" "0 < n div 1024" using assms(4) by (simp_all add: r_def n_def)
    then show "n = 1024 * p + 1024 + r" by (cases "n div 1024") (simp_all add: p_def)
  qed (simp add: r_def)
  have o: "oldestKept n = 1024 * p + r"
    using oldestKept_aligned [of n] assms(4,5) n(1) by (simp add: n_def)
  have ne: "rs \<noteq> []" using assms(4) by auto
  have high: "decodedSlot m i = Some (rs ! (i + 1024 * p))" if "r \<le> i" "i < 1024" for i
  proof -
    have "oldestKept n \<le> i + 1024 * p" "i + 1024 * p < n" using that o n by simp_all
    then show ?thesis
      using decoded_live [OF assms(1,2), of "i + 1024 * p"] decoded_shift [of "1024 * p" m i] by (simp add: n_def)
  qed
  have low: "decodedSlot m i = Some (rs ! (i + (1024 * p + 1024)))" if "i < r" for i
  proof -
    have "oldestKept n \<le> i + (1024 * p + 1024)" "i + (1024 * p + 1024) < n" using that o n by simp_all
    then show ?thesis
      using decoded_live [OF assms(1,2), of "i + (1024 * p + 1024)"] decoded_shift [of "1024 * p + 1024" m i]
      by (simp add: n_def)
  qed
  have "scanRuns (\<lambda>_. True) m ([0..<1024] @ []) False [] = scanRuns (\<lambda>_. True) m [] True [(0, 1024)]"
  proof (rule scanRuns_run)
    show "decodedSlot m i \<noteq> None" if "i \<in> {0..<1024}" for i
      using that low [of i] high [of i] by (cases "i < r") auto
  qed simp_all
  then have run: "scanRuns (\<lambda>_. True) m [0..<1024] False [] = Some [(0, 1024)]" by simp
  show ?thesis
  proof (cases "r = 0")
    case True
    have "scanWindow (\<lambda>_. True) (\<lambda>_. True) m st0 =
      (True, st0\<lparr> windowStart := 0, writeCursor := 1024, seqHigh := arSequence (last rs) \<rparr>)"
      using run sequences_window [OF assms(1-3) ne, of "1024 * p"] o n True
      by (intro scanWindow_single) (simp_all add: n_def [symmetric])
    then show ?thesis using o n True by (intro exI [of _ "1024 * p"]) (simp add: n_def [symmetric])
  next
    case False
    let ?h = "arSequence (last rs)"
    have asc: "arSequence (rs ! i) < arSequence (rs ! j)" if "i < j" "j < n" for i j
      using ascending_nth [OF assms(3)] that by (simp add: n_def)
    have last: "last rs = rs ! (n - 1)" using ne by (simp add: last_conv_nth n_def)
    have zero: "0 < arSequence (rs ! (0 + (1024 * p + 1024)))"
      using assms(2) n False by (simp add: record_ok_def word_neq_0_conv n_def)
    have "scanSequences (\<lambda>_. True) m ([0..<r] @ [r..<1024]) 0 0 =
        scanSequences (\<lambda>_. True) m [r..<1024] 0
          (if 0 < r then arSequence (rs ! (r - 1 + (1024 * p + 1024))) else 0)"
      by (rule scanSequences_ascending [where f = "\<lambda>i. rs ! (i + (1024 * p + 1024))"])
        (use low zero asc n in auto)
    also have "(if 0 < r then arSequence (rs ! (r - 1 + (1024 * p + 1024))) else 0) = ?h"
      using False n by (simp add: last add.commute)
    also have "scanSequences (\<lambda>_. True) m [r..<1024] 0 ?h = scanSequences (\<lambda>_. True) m [Suc r..<1024] r ?h"
    proof -
      have "arSequence (rs ! (r + 1024 * p)) < ?h" unfolding last by (rule asc) (use n False in auto)
      moreover from this have "\<not> ?h < arSequence (rs ! (r + 1024 * p))" by auto
      ultimately show ?thesis
        using high [of r] n(2) by (simp add: upt_conv_Cons readAuditSlot_all decodedSlot_eq)
    qed
    also have "\<dots> = (True, r, ?h)"
    proof (rule scanSequences_below)
      fix i
      assume "i \<in> set [Suc r..<1024]"
      then have i: "r \<le> i" "i < 1024" by auto
      have "arSequence (rs ! (i + 1024 * p)) < ?h" unfolding last by (rule asc) (use n False i in auto)
      then show "\<exists>x. decodedSlot m i = Some x \<and> arSequence x < ?h" using high [OF i] by auto
    qed (use False in simp)
    finally have "scanSequences (\<lambda>_. True) m [0..<1024] 0 0 = (True, r, ?h)"
      using upt_split [of 0 r 1024] n(2) by simp
    then have "scanWindow (\<lambda>_. True) (\<lambda>_. True) m st0 =
      (True, st0\<lparr> windowStart := r, writeCursor := 1024 + r, seqHigh := ?h \<rparr>)"
      using run False by (simp add: scanWindow_def AUDIT_STORE_RECORD_CAPACITY_def Let_def)
    then show ?thesis using o n by (intro exI [of _ "1024 * p"]) (simp add: n_def [symmetric])
  qed
qed

lemma scan_after:
  assumes "ring_after rs (m, st)" "\<forall>r\<in>set rs. record_ok r" "ascending rs" "rs \<noteq> []"
  shows "\<exists>t. t mod 1024 = 0 \<and> t \<le> oldestKept (length rs) \<and> scanWindow (\<lambda>_. True) (\<lambda>_. True) m st0 =
    (True, st0\<lparr> windowStart := oldestKept (length rs) - t, writeCursor := length rs - t,
       seqHigh := arSequence (last rs) \<rparr>)"
proof (cases "length rs \<le> 1024")
  case True
  then show ?thesis using scan_after_first_lap [OF assms True]
    by (intro exI [of _ 0]) (simp add: oldestKept_def)
next
  case False
  then show ?thesis
    using scan_after_gap [OF assms(1-3)] scan_after_full [OF assms(1-3)] by (cases "length rs mod 64 = 0") simp_all
qed

section \<open>Erasing everything\<close>

lemma eraseSectors_slots:
  "eraseSectors (\<lambda>_. FlashOk) is m = (True, m') \<Longrightarrow>
     slotBytes m' i = (if i div 64 \<in> set is then emptySlot else slotBytes m i)"
proof (induction "is" arbitrary: m)
  case (Cons j "is")
  have "eraseSectors (\<lambda>_. FlashOk) is (snd (eraseRange FlashOk ((64 * j) * 64) 4096 m)) = (True, m')"
    using Cons.prems by (simp add: eraseRange_def AUDIT_STORE_SECTOR_BYTES_def mult.commute [of j])
  note IH = Cons.IH [OF this]
  have "64 * j \<le> i \<and> i < 64 * j + 64 \<longleftrightarrow> i div 64 = j" by auto
  then show ?case using slot_erase [of "64 * j" m i] by (simp add: IH)
qed simp

lemma eraseSectors_True: "fst (eraseSectors (\<lambda>_. FlashOk) is m) = True"
  by (induction "is" arbitrary: m) (simp_all add: eraseRange_def)

definition erasedStore :: "flash \<times> AuditStoreStatus \<Rightarrow> flash \<times> AuditStoreStatus" where
  "erasedStore s = snd (auditStoreEraseAll (Some AUDIT_STORE_PARTITION_BYTES) True (\<lambda>_. FlashOk) s)"

lemma erased_ring: "ring_after [] (erasedStore s)"
proof -
  obtain m st where s: "s = (m, st)" by (cases s)
  obtain m' where e: "eraseSectors (\<lambda>_. FlashOk) [0..<16] m = (True, m')"
    using eraseSectors_True [of "[0..<16]" m] by (cases "eraseSectors (\<lambda>_. FlashOk) [0..<16] m") auto
  have "slotBytes m' k = emptySlot" if "k < 1024" for k
  proof -
    have "k div 64 < 16" using that by (simp add: less_mult_imp_div_less)
    then show ?thesis by (subst eraseSectors_slots [OF e]) simp
  qed
  moreover have "erasedStore s = (m', status0\<lparr> asState := StoreReady \<rparr>)"
    by (simp add: erasedStore_def s auditStoreEraseAll_def storePartition_def AUDIT_STORE_PARTITION_BYTES_def
        AUDIT_STORE_SECTOR_BYTES_def e)
  ultimately show ?thesis by (simp add: ring_after_def status0_def oldestKept_def)
qed

section \<open>The latch at boot\<close>

definition ringPart :: "AuditLogLatch \<Rightarrow> AuditRecord list \<times> nat \<times> nat" where
  "ringPart l = (alEvents l, alCount l, alWriteIndex l)"

lemma ringPart_cong:
  "ringPart l = ringPart l' \<Longrightarrow> ringPart (storeRecord r l) = ringPart (storeRecord r l')"
  "ringPart l = ringPart l' \<Longrightarrow> latchList l = latchList l'"
  "ringPart l = ringPart l' \<Longrightarrow> latch_ok l = latch_ok l'"
  by (simp_all add: ringPart_def storeRecord_def latchList_def latch_ok_def)

lemma adopt_ringPart: "arSequence r \<noteq> 0 \<Longrightarrow> ringPart (snd (latchAdopt r l)) = ringPart (storeRecord r l)"
  by (simp add: latchAdopt_def Let_def ringPart_def)

lemma adopt_all:
  assumes "\<forall>r\<in>set rs. arSequence r \<noteq> 0" "ringPart l = ringPart l'"
  shows "ringPart (fold (\<lambda>r l. snd (latchAdopt r l)) rs l) = ringPart (fold storeRecord rs l')"
  using assms
proof (induction rs arbitrary: l l')
  case (Cons r rs)
  have "ringPart (snd (latchAdopt r l)) = ringPart (storeRecord r l')"
    using adopt_ringPart [of r l] ringPart_cong(1) [OF Cons.prems(2), of r] Cons.prems(1) by simp
  from Cons.IH [OF _ this] Cons.prems(1) show ?case by simp
qed simp

text \<open>Adopting records in ascending order leaves nothing pending.\<close>

lemma adopt_watermark:
  assumes "alNextSequence l = alPendingAfter l + 1" "arSequence r \<noteq> 0" "alPendingAfter l < arSequence r"
  shows "alNextSequence (snd (latchAdopt r l)) = alPendingAfter (snd (latchAdopt r l)) + 1 \<and>
    alPendingAfter (snd (latchAdopt r l)) = arSequence r"
proof -
  have "alPendingAfter l + 1 \<le> arSequence r"
    using assms(3) by (metis inc_le)
  then show ?thesis using assms by (auto simp: latchAdopt_def Let_def storeRecord_def)
qed

lemma adopt_watermarks:
  assumes "alNextSequence l = alPendingAfter l + 1" "\<forall>r\<in>set rs. alPendingAfter l < arSequence r" "ascending rs"
  defines "l' \<equiv> fold (\<lambda>r l. snd (latchAdopt r l)) rs l"
  shows "alNextSequence l' = alPendingAfter l' + 1"
  using assms(1-3) unfolding l'_def
proof (induction rs arbitrary: l)
  case (Cons r rs)
  have "arSequence r \<noteq> 0" using Cons.prems(2) by auto
  note w = adopt_watermark [OF Cons.prems(1) this]
  have "alPendingAfter l < arSequence r" using Cons.prems(2) by simp
  then show ?case using Cons.prems w by (simp, intro Cons.IH) (auto simp: ascending_def)
qed simp

section \<open>A restart\<close>

definition goodBoot :: boot_answers where
  "goodBoot = \<lparr> partitionSize = Some AUDIT_STORE_PARTITION_BYTES, flashLocked = True,
     readsRuns = \<lambda>_. True, readsSequences = \<lambda>_. True, readsBackfill = \<lambda>_. True \<rparr>"

text \<open>The records a store serves: its window in order.\<close>

definition windowRecords :: "flash \<Rightarrow> AuditStoreStatus \<Rightarrow> AuditRecord list" where
  "windowRecords m st = List.map_filter (decodedSlot m) [windowStart st..<writeCursor st]"

lemma map_filter_all: "(\<And>x. x \<in> set xs \<Longrightarrow> f x = Some (g x)) \<Longrightarrow> List.map_filter f xs = map g xs"
  by (induction xs) (simp_all add: List.map_filter_simps)

lemma window_shifted:
  assumes "ring_after rs (m, st)" "\<forall>r\<in>set rs. record_ok r" "t mod 1024 = 0" "t \<le> oldestKept (length rs)"
    and "windowStart st' = oldestKept (length rs) - t" "writeCursor st' = length rs - t"
  shows "windowRecords m st' = drop (oldestKept (length rs)) rs"
    and "\<And>i. i \<in> {windowStart st'..<writeCursor st'} \<Longrightarrow> decodedSlot m i = Some (rs ! (i + t))"
proof -
  let ?o = "oldestKept (length rs)" and ?n = "length rs"
  show dec: "decodedSlot m i = Some (rs ! (i + t))" if "i \<in> {windowStart st'..<writeCursor st'}" for i
  proof -
    have "?o \<le> i + t" "i + t < ?n" using that assms(4-6) by auto
    then show ?thesis using decoded_live [OF assms(1,2)] decoded_shift [OF assms(3), of m i] by metis
  qed
  have "windowRecords m st' = map (\<lambda>i. rs ! (i + t)) [?o - t..<?n - t]"
    unfolding windowRecords_def using dec assms(5,6) by (intro trans [OF map_filter_all]) auto
  also have "\<dots> = drop ?o rs"
    using assms(4) oldestKept_bounds(1) [of ?n] by (intro nth_equalityI) (auto simp: add.commute)
  finally show "windowRecords m st' = drop ?o rs" .
qed

lemma backfill_window:
  assumes "\<And>i. i \<in> set is \<Longrightarrow> decodedSlot m i = Some (f i)"
  shows "backfill (\<lambda>_. True) m is l = (True, fold (\<lambda>r l. snd (latchAdopt r l)) (map f is) l)"
  using assms
proof (induction "is" arbitrary: l)
  case (Cons i "is")
  have "auditStoreDecodeRecord (slotBytes m (i mod 1024)) = Some (f i)"
    using Cons.prems [of i] by (simp add: decodedSlot_eq)
  then show ?case using Cons by (simp add: readAuditSlot_all)
qed simp

lemma scan_empty:
  assumes "ring_after [] (m, st)"
  shows "scanWindow (\<lambda>_. True) (\<lambda>_. True) m st0 = (True, status0\<lparr> asState := StoreReady \<rparr>)"
proof -
  have "scanRuns (\<lambda>_. True) m ([0..<1024] @ []) False [] = scanRuns (\<lambda>_. True) m [] False []"
    by (rule scanRuns_gap) (use decoded_free [OF assms] in \<open>auto simp: oldestKept_def\<close>)
  then show ?thesis by (simp add: scanWindow_def AUDIT_STORE_RECORD_CAPACITY_def)
qed

lemma scan_window:
  assumes "ring_after rs (m, st)" "\<forall>r\<in>set rs. record_ok r" "ascending rs"
  obtains t st' where "scanWindow (\<lambda>_. True) (\<lambda>_. True) m status0 = (True, st')"
    "t mod 1024 = 0" "t \<le> oldestKept (length rs)"
    "windowStart st' = oldestKept (length rs) - t" "writeCursor st' = length rs - t"
proof (cases "rs = []")
  case True
  then show thesis using scan_empty [of m st status0] assms(1) that [of _ 0]
    by (simp add: status0_def oldestKept_def)
next
  case False
  from scan_after [OF assms False, of status0] show thesis
    by (elim exE conjE) (rule that, assumption, simp_all)
qed

text \<open>
  Property C37. A clean restart loses nothing that is on flash: after an erase and any
  number of successful appends of well-formed records with ascending sequence numbers, the
  boot scan finds the very window the store had, at least the newest 961 records of it,
  resumes the cursor at the same slot, and leaves in the latch the newest 64 records with
  none of them pending.
\<close>

theorem audit_restart_recovers:
  assumes "\<forall>r\<in>set rs. record_ok r" "ascending rs" "length (alEvents l) = AUDIT_RECORD_CAPACITY"
    and "appendAll rs (erasedStore s) = (m, st)"
    and "auditStoreBootOpen goodBoot m (latchClear l) = (st', l', p)"
  shows "windowRecords m st = drop (length rs - length (windowRecords m st)) rs \<and>
    min (length rs) 961 \<le> length (windowRecords m st) \<and>
    asState st' = StoreReady \<and> windowRecords m st' = windowRecords m st \<and>
    writeCursor st' mod 1024 = writeCursor st mod 1024 \<and>
    latchList l' = drop (length rs - 64) rs \<and> \<not> latchHasPending l'"
proof -
  let ?o = "oldestKept (length rs)" and ?n = "length rs"
  have ring: "ring_after rs (m, st)"
    using ring_after_all [OF erased_ring, of rs s] assms(4) by simp
  have win: "windowRecords m st = drop ?o rs"
    using window_shifted(1) [OF ring assms(1), of 0 st] ring by (simp add: ring_after_def)
  have kept: "?o \<le> ?n" "min ?n 961 \<le> ?n - ?o" using oldestKept_bounds by auto
  obtain t st1 where sc: "scanWindow (\<lambda>_. True) (\<lambda>_. True) m status0 = (True, st1)"
    and t: "t mod 1024 = 0" "t \<le> ?o" "windowStart st1 = ?o - t" "writeCursor st1 = ?n - t"
    using scan_window [OF ring assms(1,2)] by metis
  note dec = window_shifted(2) [OF ring assms(1) t]
  define ws where "ws = map (\<lambda>i. rs ! (i + t)) [windowStart st1..<writeCursor st1]"
  have ws: "ws = drop ?o rs"
    unfolding ws_def using t kept(1) by (intro nth_equalityI) (auto simp: add.commute)
  define adopted where "adopted = fold (\<lambda>r l. snd (latchAdopt r l)) ws (latchClear l)"
  have "backfill (\<lambda>_. True) m [windowStart st1..<writeCursor st1] (latchClear l) = (True, adopted)"
    unfolding adopted_def ws_def by (rule backfill_window) (use dec in auto)
  then have boot: "st' = st1\<lparr> asState := StoreReady, retained := writeCursor st1 - windowStart st1 \<rparr>"
    "l' = adopted"
    using assms(5) sc by (simp_all add: auditStoreBootOpen_def goodBoot_def storePartition_def)
  have wsin: "\<forall>r\<in>set ws. arSequence r \<noteq> 0" "ascending ws"
    using assms(1,2) sorted_wrt_drop [of "(<)" "map arSequence rs" ?o]
    by (auto simp: ws record_ok_def ascending_def drop_map dest: in_set_dropD)
  have ok: "latch_ok (latchClear l)" "latchList (latchClear l) = []"
    using assms(3) audit_capacity_pos by (simp_all add: latch_ok_def latchClear_def latchList_def)
  have rp: "ringPart adopted = ringPart (fold storeRecord ws (latchClear l))"
    unfolding adopted_def by (rule adopt_all) (use wsin in auto)
  have st: "latch_ring.storedAll x ys = ys" for x and ys :: "AuditRecord list"
    by (induction ys arbitrary: x) simp_all
  have "latchList adopted = drop (length ws - 64) ws"
    using ringPart_cong(2) [OF rp] latch_ring.pushes [OF ok(1), of ws] ok(2)
    by (simp add: st AUDIT_RECORD_CAPACITY_def)
  also have "\<dots> = drop (?n - 64) rs"
  proof -
    have "?n - ?o - 64 + ?o = ?n - 64" using kept by linarith
    then show ?thesis by (simp add: ws)
  qed
  finally have list: "latchList adopted = drop (?n - 64) rs" .
  have "alNextSequence adopted = alPendingAfter adopted + 1"
    unfolding adopted_def using wsin by (intro adopt_watermarks) (auto simp: latchClear_def word_neq_0_conv)
  then have "\<not> latchHasPending adopted"
    by (auto simp: latchHasPending_def latchLatestSequence_def)
  moreover have "windowRecords m st' = drop ?o rs"
    using window_shifted(1) [OF ring assms(1) t(1,2), of st'] t boot by simp
  moreover have "writeCursor st' mod 1024 = writeCursor st mod 1024"
  proof -
    have "writeCursor st' + t = ?n" "writeCursor st = ?n"
      using ring t boot kept(1) by (simp_all add: ring_after_def)
    then show ?thesis using t(1) by (metis add.right_neutral mod_add_right_eq)
  qed
  ultimately show ?thesis using win kept boot list by simp
qed

definition sampleEvent :: audit_event where
  "sampleEvent = \<lparr> aeAtMs = 5, aeWallSec = 7, aeLevel = LvError, aeCategory = CatRelay,
     aeCode = 3, aeArgument1 = 1, aeArgument2 = 2, aeDetail = [104, 105] \<rparr>"

definition emptyLatch :: AuditLogLatch where
  "emptyLatch = \<lparr> alEvents = replicate AUDIT_RECORD_CAPACITY noAuditRecord, alRateSlots = [], alNextSequence = 1,
     alOverwritten = 0, alRateLimited = 0, alPendingAfter = 0, alCount = 0, alWriteIndex = 0 \<rparr>"

lemma audit_restart_recovers_witness:
  "case appendAll [recordOf 1 sampleEvent, recordOf 2 sampleEvent] (erasedStore (\<lambda>_. 0, status0)) of
     (m, st) \<Rightarrow> (case auditStoreBootOpen goodBoot m (latchClear emptyLatch) of
       (st', l', p) \<Rightarrow> latchList l' = [recordOf 1 sampleEvent, recordOf 2 sampleEvent] \<and> asState st' = StoreReady)"
proof (split prod.split, intro allI impI, split prod.split, intro allI impI, split prod.split, intro allI impI)
  fix m st st' x l' p
  assume a: "appendAll [recordOf 1 sampleEvent, recordOf 2 sampleEvent] (erasedStore (\<lambda>_. 0, status0)) = (m, st)"
    and b: "auditStoreBootOpen goodBoot m (latchClear emptyLatch) = (st', x)" "x = (l', p)"
  have c: "\<forall>r\<in>set [recordOf 1 sampleEvent, recordOf 2 sampleEvent]. record_ok r"
    by (simp add: recordOf_ok)
  have d: "ascending [recordOf 1 sampleEvent, recordOf 2 sampleEvent]"
    by (simp add: ascending_def recordOf_def Let_def)
  have e: "length (alEvents emptyLatch) = AUDIT_RECORD_CAPACITY" by (simp add: emptyLatch_def)
  show "latchList l' = [recordOf 1 sampleEvent, recordOf 2 sampleEvent] \<and> asState st' = StoreReady"
    using audit_restart_recovers [OF c d e a b(1) [unfolded b(2)]] by simp
qed

end
