(* ===== verification/Audit_Flow.thy ===== *)
theory Audit_Flow
  imports Audit_Facts
begin

text \<open>
  The path of an event: emission into the two rings
  (\<open>diagnostics/OpenBrewByWeightSerialLog.inc\<close>), the flush of the latch to the durable
  store (\<open>persistence/OpenBrewByWeightCommandPersistence.inc\<close>), and the page read that
  joins both. The serial sink, the tasks and the locks are outside the model: each function
  runs undisturbed, its clock readings and driver answers are arguments.
\<close>

section \<open>Emission\<close>

definition AUDIT_VERBOSE_SESSION_SEC :: u32 where "AUDIT_VERBOSE_SESSION_SEC = 1800"

definition auditVerboseActive :: "u32 \<Rightarrow> u32 \<Rightarrow> bool" where
  "auditVerboseActive nowUtcSec untilUtcSec \<longleftrightarrow> untilUtcSec \<noteq> 0 \<and> nowUtcSec < untilUtcSec"

definition setAuditVerbose :: "bool \<Rightarrow> u32 \<Rightarrow> u32 \<Rightarrow> bool \<times> u32" where
  "setAuditVerbose on nowUtcSec untilUtcSec =
     (if \<not> on then (True, 0)
      else if nowUtcSec = 0 then (False, untilUtcSec)
      else (True, nowUtcSec + AUDIT_VERBOSE_SESSION_SEC))"

definition auditVerboseDeadline :: "u32 \<Rightarrow> u32 \<Rightarrow> u32" where
  "auditVerboseDeadline nowUtcSec untilUtcSec =
     (if auditVerboseActive nowUtcSec untilUtcSec then untilUtcSec else 0)"

record log_state =
  debugLog :: DebugRingBuffer
  auditLog :: AuditLogLatch
  serialLevel :: LogLevel
  ringRetainLevel :: LogLevel
  verboseUntil :: u32

definition eventOf :: "audit_event \<Rightarrow> DebugEvent" where
  "eventOf e = \<lparr> deSequence = 0, deAtMs = aeAtMs e, deWallSec = aeWallSec e, deLevel = aeLevel e,
     deCategory = aeCategory e, deCode = aeCode e, deArgument1 = aeArgument1 e,
     deArgument2 = aeArgument2 e, deText = aeDetail e \<rparr>"

text \<open>The second result says whether a line goes to the serial sink.\<close>

definition logEmitDetail :: "audit_event \<Rightarrow> log_state \<Rightarrow> log_state \<times> bool" where
  "logEmitDetail e s =
     (if aeLevel e = LvNone then (s, False)
      else
        let toSerial = logLevelAtMost (aeLevel e) (serialLevel s);
            toRing = logLevelAtMost (aeLevel e) (ringRetainLevel s);
            toAudit = auditWorthy (aeLevel e) (aeCode e)
              (auditVerboseActive (aeWallSec e) (verboseUntil s)) in
        if \<not> toSerial \<and> \<not> toRing \<and> \<not> toAudit then (s, False)
        else
          let s = (if toRing then s\<lparr> debugLog := debugAdd (eventOf e) (debugLog s) \<rparr> else s);
              s = (if toAudit then s\<lparr> auditLog := snd (latchAdd e (auditLog s)) \<rparr> else s) in
          (s, toSerial))"

definition emitDebugEvent :: "audit_event \<Rightarrow> log_state \<Rightarrow> log_state \<times> bool" where
  "emitDebugEvent e s = logEmitDetail (e\<lparr> aeLevel := debugCodeDefaultLevel (aeCode e) \<rparr>) s"

section \<open>The flush\<close>

text \<open>
  One batch: append, then mark. The list holds the driver answers of the appends; when it
  is exhausted the device was reset. The result says whether a record failed.
\<close>

fun flushBatch :: "append_answers list \<Rightarrow> AuditRecord list \<Rightarrow> flash \<times> AuditStoreStatus \<Rightarrow> AuditLogLatch \<Rightarrow>
    bool \<times> append_answers list \<times> (flash \<times> AuditStoreStatus) \<times> AuditLogLatch" where
  "flushBatch answers [] store l = (False, answers, store, l)"
| "flushBatch [] (r # rs) store l = (True, [], store, l)"
| "flushBatch (a # answers) (r # rs) store l =
     (case auditStoreAppend a r store of
        (ok, store') \<Rightarrow> if \<not> ok then (True, answers, store', l)
                        else flushBatch answers rs store' (markFlushedThrough (arSequence r) l))"

lemma flushBatch_consumes:
  "flushBatch answers rs store l = (False, answers', store', l') \<Longrightarrow>
     length answers' + length rs = length answers"
proof (induction answers rs store l rule: flushBatch.induct)
  case (3 a answers r rs store l)
  obtain ok st where "auditStoreAppend a r store = (ok, st)" by (cases "auditStoreAppend a r store")
  then show ?case using 3 by (simp split: if_splits)
qed simp_all

function persistAuditLogImage :: "append_answers list \<Rightarrow> flash \<times> AuditStoreStatus \<Rightarrow> AuditLogLatch \<Rightarrow>
    (flash \<times> AuditStoreStatus) \<times> AuditLogLatch" where
  "persistAuditLogImage answers store l =
     (let batch = latchCopyPending 8 l in
      if batch = [] then (store, l)
      else case flushBatch answers batch store l of
        (failed, answers', store', l') \<Rightarrow>
          if failed then (store', l') else persistAuditLogImage answers' store' l')"
  by pat_completeness auto
termination
proof (relation "measure (\<lambda>(answers, _, _). length answers)")
  fix answers store l batch failed q answers' u store' l'
  assume "batch = latchCopyPending 8 l" "batch \<noteq> []"
    "(failed, q) = flushBatch answers batch store l" "(answers', u) = q" "(store', l') = u" "\<not> failed"
  then have "length answers' + length batch = length answers" "0 < length batch"
    using flushBatch_consumes [of answers batch store l answers' store' l'] by auto
  then have "length answers' < length answers" by linarith
  then show "((answers', store', l'), answers, store, l) \<in> measure (\<lambda>(answers, _, _). length answers)"
    by simp
qed simp

declare persistAuditLogImage.simps [simp del]

text \<open>\<open>auditFlushDue\<close>; the second result is the new \<open>auditFlushPendingSinceMs\<close>.\<close>

definition auditFlushDue :: "u32 \<Rightarrow> u32 \<Rightarrow> AuditLogLatch \<Rightarrow> bool \<times> u32" where
  "auditFlushDue now pendingSince l =
     (if \<not> latchHasPending l then (False, 0)
      else
        let since = (if pendingSince = 0 then now else pendingSince) in
        (latchPendingCount l \<ge> 8 \<or> now - since \<ge> 2000, since))"

section \<open>Reading both\<close>

fun takeDurable :: "nat \<Rightarrow> u32 \<Rightarrow> AuditRecord list \<Rightarrow> AuditRecord list \<Rightarrow> AuditRecord list" where
  "takeDurable capacity latchOldest [] output = output"
| "takeDurable capacity latchOldest (r # rs) output =
     (if \<not> length output < capacity then output
      else if latchOldest \<noteq> 0 \<and> arSequence r \<ge> latchOldest then takeDurable capacity latchOldest rs output
      else takeDurable capacity latchOldest rs (output @ [r]))"

text \<open>The page loop over the durable store; the fuel is the number of slots of the store plus one.\<close>

fun durablePages :: "nat \<Rightarrow> bool \<Rightarrow> (nat \<Rightarrow> bool) \<Rightarrow> flash \<times> AuditStoreStatus \<Rightarrow> nat \<Rightarrow> u32 \<Rightarrow> u32 \<Rightarrow> nat \<Rightarrow>
    AuditRecord list \<Rightarrow> AuditRecord list" where
  "durablePages 0 available rd store capacity latchOldest durableAfter resumeSlot output = output"
| "durablePages (Suc fuel) available rd store capacity latchOldest durableAfter resumeSlot output =
     (if \<not> length output < capacity then output
      else case auditStoreCopyAfter available rd durableAfter 8 (Some resumeSlot) store of
        (page, resume) \<Rightarrow>
          if page = [] then output
          else
            let output = takeDurable capacity latchOldest page output in
            if length page < 8 then output
            else durablePages fuel available rd store capacity latchOldest (arSequence (last page))
                   (the resume) output)"

definition copyAuditEvents :: "bool \<Rightarrow> (nat \<Rightarrow> bool) \<Rightarrow> u32 \<Rightarrow> nat \<Rightarrow> flash \<times> AuditStoreStatus \<Rightarrow> AuditLogLatch \<Rightarrow>
    AuditRecord list" where
  "copyAuditEvents available rd afterSequence capacity store l =
     (let probe = latchCopyAfter afterSequence 1 l;
          latchOldest = (if probe \<noteq> [] then arSequence (hd probe) else 0);
          filled = (if latchOldest = 0 \<or> latchOldest > afterSequence + 1
                    then durablePages 1025 available rd store capacity latchOldest afterSequence 0 []
                    else []) in
      if length filled < capacity
      then filled @ latchCopyAfter afterSequence (capacity - length filled) l
      else filled)"

definition clearAuditStores :: "nat option \<Rightarrow> bool \<Rightarrow> (nat \<Rightarrow> flash_io) \<Rightarrow>
    (flash \<times> AuditStoreStatus) \<Rightarrow> AuditLogLatch \<Rightarrow> bool \<times> (flash \<times> AuditStoreStatus) \<times> AuditLogLatch" where
  "clearAuditStores psize locked io store l =
     (let (ok, store) = auditStoreEraseAll psize locked io store in
      if ok then (True, store, latchClear l) else (False, store, l))"

section \<open>The flush against its reference\<close>

definition pendingRecords :: "AuditLogLatch \<Rightarrow> AuditRecord list" where
  "pendingRecords l = filter (\<lambda>r. arSequence r > alPendingAfter l) (latchList l)"

text \<open>The reference: append one by one until an append fails, and count the successes.\<close>

fun appendUntil :: "append_answers list \<Rightarrow> AuditRecord list \<Rightarrow> flash \<times> AuditStoreStatus \<Rightarrow>
    nat \<times> (flash \<times> AuditStoreStatus)" where
  "appendUntil answers [] store = (0, store)"
| "appendUntil [] (r # rs) store = (0, store)"
| "appendUntil (a # answers) (r # rs) store =
     (case auditStoreAppend a r store of
        (ok, store') \<Rightarrow> if ok then (case appendUntil answers rs store' of (k, s) \<Rightarrow> (Suc k, s))
                        else (0, store'))"

lemma latchList_mark [simp]: "latchList (markFlushedThrough q l) = latchList l"
  by (simp add: markFlushedThrough_def latchList_def)

lemma latch_ok_mark [simp]: "latch_ok (markFlushedThrough q l) = latch_ok l"
  by (simp add: markFlushedThrough_def latch_ok_def)

lemma pending_mark:
  assumes "ascending (latchList l)" "pendingRecords l = r # rs"
  shows "pendingRecords (markFlushedThrough (arSequence r) l) = rs"
proof -
  have r: "r \<in> set (latchList l)" "arSequence r > alPendingAfter l"
  proof -
    have "r \<in> set (pendingRecords l)" by (simp add: assms(2))
    then show "r \<in> set (latchList l)" "arSequence r > alPendingAfter l" by (simp_all add: pendingRecords_def)
  qed
  have "sorted_wrt (\<lambda>x y. arSequence x < arSequence y) (pendingRecords l)"
    using assms(1) by (simp add: pendingRecords_def ascending_def sorted_wrt_map sorted_wrt_filter)
  then have after: "\<forall>x\<in>set rs. arSequence r < arSequence x" by (simp add: assms(2))
  have "filter (\<lambda>x. arSequence x > arSequence r) (pendingRecords l) = rs"
    using after by (simp add: assms(2))
  moreover have "filter (\<lambda>x. arSequence x > arSequence r) (pendingRecords l) =
      filter (\<lambda>x. arSequence x > arSequence r) (latchList l)"
    using r(2) by (auto simp: pendingRecords_def intro!: filter_cong)
  ultimately show ?thesis
    using r(2) by (simp add: pendingRecords_def markFlushedThrough_def latchList_def)
qed

lemma flushBatch_ref:
  assumes "ascending (latchList l)" "pendingRecords l = rs @ later"
    and "appendUntil answers rs store = (k, store')"
  shows "\<exists>answers' l'. flushBatch answers rs store l = (k < length rs, answers', store', l') \<and>
    k \<le> length rs \<and> latchList l' = latchList l \<and> (latch_ok l \<longrightarrow> latch_ok l') \<and>
    pendingRecords l' = drop k rs @ later \<and> (k = length rs \<longrightarrow> answers' = drop k answers)"
  using assms
proof (induction answers rs store l arbitrary: k store' rule: flushBatch.induct)
  case (3 a answers r rs store l)
  obtain ok s1 where ap: "auditStoreAppend a r store = (ok, s1)" by (cases "auditStoreAppend a r store")
  show ?case
  proof (cases ok)
    case True
    obtain k1 where k1: "appendUntil answers rs s1 = (k1, store')" "k = Suc k1"
      using "3.prems"(3) ap True by (auto split: prod.splits)
    have "pendingRecords (markFlushedThrough (arSequence r) l) = rs @ later"
      by (rule pending_mark) (use "3.prems" in auto)
    from "3.IH" [OF ap [symmetric] _ _ this k1(1)] True "3.prems"(1) ap k1(2) show ?thesis by simp
  next
    case False
    then show ?thesis using "3.prems" ap by auto
  qed
qed auto

lemma appendUntil_append:
  "appendUntil answers xs store = (k, store') \<Longrightarrow>
     appendUntil answers (xs @ ys) store =
       (if k = length xs then (case appendUntil (drop k answers) ys store' of (j, s) \<Rightarrow> (k + j, s))
        else (k, store')) \<and> k \<le> length xs"
proof (induction answers xs store arbitrary: k rule: appendUntil.induct)
  case (1 answers store)
  then show ?case by (simp split: prod.split)
next
  case (3 a answers r rs store)
  obtain ok s1 where ap: "auditStoreAppend a r store = (ok, s1)" by (cases "auditStoreAppend a r store")
  show ?case
  proof (cases ok)
    case True
    obtain k1 where k1: "appendUntil answers rs s1 = (k1, store')" "k = Suc k1"
      using "3.prems" ap True by (auto split: prod.splits)
    from "3.IH" [OF ap [symmetric] True k1(1)] show ?thesis
      using ap True k1(2) by (auto split: prod.splits)
  next
    case False
    then show ?thesis using "3.prems" ap by auto
  qed
qed auto

lemma copyPending_eq: "latch_ok l \<Longrightarrow> latchCopyPending 8 l = take 8 (pendingRecords l)"
  by (simp add: latchCopyPending_def latchCopyAfter_eq pendingRecords_def)

text \<open>
  Property C38. The batched flush loses nothing and repeats nothing: it is the same as
  appending the pending records one by one until a driver call fails; exactly the records
  whose append succeeded leave the pending set, in order, and every other record stays
  pending for the next attempt.
\<close>

theorem flush_is_sequential:
  assumes "latch_ok l" "ascending (latchList l)"
    and "appendUntil answers (pendingRecords l) store = (k, store')"
  shows "\<exists>l'. persistAuditLogImage answers store l = (store', l') \<and>
    pendingRecords l' = drop k (pendingRecords l) \<and> latchList l' = latchList l"
  using assms
proof (induction answers store l arbitrary: k rule: persistAuditLogImage.induct)
  case (1 answers store l)
  define batch later where "batch = take 8 (pendingRecords l)" and "later = drop 8 (pendingRecords l)"
  have split: "pendingRecords l = batch @ later" by (simp add: batch_def later_def)
  have cp: "latchCopyPending 8 l = batch" using copyPending_eq "1.prems"(1) by (simp add: batch_def)
  obtain j s1 where j: "appendUntil answers batch store = (j, s1)" by (cases "appendUntil answers batch store")
  obtain answers' l1 where f: "flushBatch answers batch store l = (j < length batch, answers', s1, l1)"
    "j \<le> length batch" "latchList l1 = latchList l" "latch_ok l1" "pendingRecords l1 = drop j batch @ later"
    "j = length batch \<longrightarrow> answers' = drop j answers"
    using flushBatch_ref [OF "1.prems"(2) split j] "1.prems"(1) by blast
  note ap = appendUntil_append [OF j, of later, folded split]
  show ?case
  proof (cases "batch = []")
    case True
    then have "pendingRecords l = []" by (simp add: batch_def)
    then show ?thesis using "1.prems"(3) cp True by (subst persistAuditLogImage.simps) auto
  next
    case ne: False
    show ?thesis
    proof (cases "j < length batch")
      case True
      then show ?thesis using f ap "1.prems"(3) cp ne split
        by (subst persistAuditLogImage.simps) (auto simp: Let_def)
    next
      case False
      then have jl: "j = length batch" using f(2) by simp
      obtain i where i: "appendUntil answers' (pendingRecords l1) s1 = (i, store')" "k = j + i"
        using ap "1.prems"(3) jl f(5,6) by (auto split: prod.splits)
      have "\<exists>l'. persistAuditLogImage answers' s1 l1 = (store', l') \<and>
          pendingRecords l' = drop i (pendingRecords l1) \<and> latchList l' = latchList l1"
        by (rule "1.IH" [OF cp [symmetric] ne f(1) [symmetric] refl refl])
          (use False f i "1.prems"(2) in auto)
      moreover have "drop k (pendingRecords l) = drop i (pendingRecords l1)"
        using i(2) jl f(5) by (simp add: split)
      ultimately show ?thesis using f cp ne False
        by (subst persistAuditLogImage.simps) (auto simp: Let_def)
    qed
  qed
qed

definition oneRecordLatch :: AuditLogLatch where
  "oneRecordLatch = snd (latchAdd sampleEvent emptyLatch)"

lemma oneRecordLatch_facts:
  "latch_ok oneRecordLatch" "latchList oneRecordLatch = [recordOf 1 sampleEvent]"
proof -
  have e: "latch_ok emptyLatch" "latchList emptyLatch = []"
    using audit_capacity_pos by (simp_all add: emptyLatch_def latch_ok_def latchList_def)
  have "ringPart oneRecordLatch = ringPart (storeRecord (recordOf 1 sampleEvent) emptyLatch)"
    by (simp add: oneRecordLatch_def latchAdd_def emptyLatch_def admitRate_def AUDIT_RATE_SLOTS_def Let_def
        ringPart_def storeRecord_def)
  then show "latch_ok oneRecordLatch" "latchList oneRecordLatch = [recordOf 1 sampleEvent]"
    using e storeRecord_ok storeRecord_list [OF e(1)] audit_capacity_pos
    by (simp_all add: ringPart_cong(2) [of oneRecordLatch] ringPart_cong(3) [of oneRecordLatch])
qed

lemma flush_is_sequential_witness:
  "case appendUntil [goodAppend] (pendingRecords oneRecordLatch) (erasedStore (\<lambda>_. 0, status0)) of
     (k, store') \<Rightarrow> \<exists>l'. persistAuditLogImage [goodAppend] (erasedStore (\<lambda>_. 0, status0)) oneRecordLatch = (store', l') \<and>
       pendingRecords l' = drop k (pendingRecords oneRecordLatch)"
  using flush_is_sequential [OF oneRecordLatch_facts(1), of "[goodAppend]" "erasedStore (\<lambda>_. 0, status0)"]
  by (auto simp: oneRecordLatch_facts(2) ascending_def split: prod.split)

end
