(* ===== verification/Recovery_Gesture.thy ===== *)
theory Recovery_Gesture
  imports Obw_Prelude
begin

text \<open>
  \<open>src/OpenBrewByWeightRecoveryGesture.h\<close>: the hold that enters recovery after a power-on
  and the recognizer of the three- and five-cycle gestures. Times are 32-bit milliseconds
  and every comparison is on a wrapping difference. The theorems say what an owner, or a
  paddle moved by accident, must have done before anything is erased.
\<close>

section \<open>The entry grace\<close>

definition RECOVERY_MODE_WINDOW_MS :: u32 where "RECOVERY_MODE_WINDOW_MS = 60000"
definition RECOVERY_GESTURE_WINDOW_MS :: u32 where "RECOVERY_GESTURE_WINDOW_MS = 5000"
definition RECOVERY_CONFIRMATION_MS :: u32 where "RECOVERY_CONFIRMATION_MS = 3000"
definition RECOVERY_NETWORK_CYCLES :: u8 where "RECOVERY_NETWORK_CYCLES = 3"
definition RECOVERY_FACTORY_CYCLES :: u8 where "RECOVERY_FACTORY_CYCLES = 5"
definition RECOVERY_ENTRY_GRACE_MS :: u32 where "RECOVERY_ENTRY_GRACE_MS = 30000"
definition RECOVERY_GRACE_BEEP_INTERVAL_MS :: u32 where "RECOVERY_GRACE_BEEP_INTERVAL_MS = 5000"

datatype RecoveryGestureResult = GestureNone | NetworkAccessReset | FactoryReset | GestureTimedOut

definition recoveryGestureEntryAllowed :: "bool \<Rightarrow> bool \<Rightarrow> bool" where
  "recoveryGestureEntryAllowed powerOnReset activatorStablyOn \<longleftrightarrow> powerOnReset \<and> activatorStablyOn"

datatype RecoveryGraceResult = GraceHolding | GraceBeepDue | GraceAborted | GraceElapsed

record RecoveryGraceWindow =
  graceActive :: bool
  beepsEmitted :: u8
  graceStartedAtMs :: u32

definition graceBegin :: "u32 \<Rightarrow> RecoveryGraceWindow" where
  "graceBegin nowMs = \<lparr> graceActive = True, beepsEmitted = 0, graceStartedAtMs = nowMs \<rparr>"

definition graceUpdate :: "u32 \<Rightarrow> bool \<Rightarrow> RecoveryGraceWindow \<Rightarrow> RecoveryGraceResult \<times> RecoveryGraceWindow" where
  "graceUpdate nowMs activatorHeld w =
     (if \<not> graceActive w then (GraceHolding, w)
      else if \<not> activatorHeld then (GraceAborted, w\<lparr> graceActive := False \<rparr>)
      else
        let elapsed = nowMs - graceStartedAtMs w in
        if elapsed \<ge> RECOVERY_ENTRY_GRACE_MS then (GraceElapsed, w\<lparr> graceActive := False \<rparr>)
        else
          let boundariesCrossed = elapsed div RECOVERY_GRACE_BEEP_INTERVAL_MS in
          if boundariesCrossed \<ge> ucast (beepsEmitted w)
          then (GraceBeepDue, w\<lparr> beepsEmitted := ucast boundariesCrossed + 1 \<rparr>)
          else (GraceHolding, w))"

section \<open>The recognizer\<close>

record RecoveryGestureRecognizer =
  rgActive :: bool
  attemptActive :: bool
  completedCycles :: u8
  modeStartedAtMs :: u32
  attemptStartedAtMs :: u32
  lastTransitionAtMs :: u32

definition gestureBegin :: "u32 \<Rightarrow> RecoveryGestureRecognizer" where
  "gestureBegin nowMs = \<lparr> rgActive = True, attemptActive = False, completedCycles = 0,
     modeStartedAtMs = nowMs, attemptStartedAtMs = 0, lastTransitionAtMs = nowMs \<rparr>"

definition resetAttempt :: "RecoveryGestureRecognizer \<Rightarrow> RecoveryGestureRecognizer" where
  "resetAttempt g = g\<lparr> attemptActive := False, completedCycles := 0, attemptStartedAtMs := 0 \<rparr>"

record gesture_input =
  giNow :: u32
  giOn :: bool
  giTurnedOn :: bool
  giTurnedOff :: bool

definition transitioned :: "gesture_input \<Rightarrow> bool" where
  "transitioned i \<longleftrightarrow> giTurnedOn i \<or> giTurnedOff i"

definition startAttempt :: "u32 \<Rightarrow> RecoveryGestureRecognizer \<Rightarrow> RecoveryGestureRecognizer" where
  "startAttempt nowMs g = g\<lparr> attemptActive := True, attemptStartedAtMs := nowMs, lastTransitionAtMs := nowMs \<rparr>"

definition gestureEdge :: "gesture_input \<Rightarrow> RecoveryGestureRecognizer \<Rightarrow> RecoveryGestureRecognizer" where
  "gestureEdge i g =
     (if \<not> giNow i - attemptStartedAtMs g \<le> RECOVERY_GESTURE_WINDOW_MS then
        (let g = resetAttempt g in if giTurnedOff i then startAttempt (giNow i) g else g)
      else
        let g = g\<lparr> lastTransitionAtMs := giNow i \<rparr> in
        if giTurnedOn i then
          (let g = g\<lparr> completedCycles := completedCycles g + 1 \<rparr> in
           if completedCycles g > RECOVERY_FACTORY_CYCLES then resetAttempt g else g)
        else g)"

definition gestureUpdate ::
    "gesture_input \<Rightarrow> RecoveryGestureRecognizer \<Rightarrow> RecoveryGestureResult \<times> RecoveryGestureRecognizer" where
  "gestureUpdate i g =
     (if \<not> rgActive g then (GestureNone, g)
      else if giNow i - modeStartedAtMs g \<ge> RECOVERY_MODE_WINDOW_MS
      then (GestureTimedOut, resetAttempt (g\<lparr> rgActive := False \<rparr>))
      else if transitioned i \<and> \<not> attemptActive g then
        if \<not> giTurnedOff i then (GestureNone, g)
        else (GestureNone, startAttempt (giNow i) (g\<lparr> completedCycles := 0 \<rparr>))
      else if \<not> attemptActive g then (GestureNone, g)
      else if transitioned i then (GestureNone, gestureEdge i g)
      else
        let candidate = giOn i \<and> (completedCycles g = RECOVERY_NETWORK_CYCLES \<or>
                                   completedCycles g = RECOVERY_FACTORY_CYCLES) in
        if candidate \<and> giNow i - lastTransitionAtMs g \<ge> RECOVERY_CONFIRMATION_MS
        then (if completedCycles g = RECOVERY_FACTORY_CYCLES then FactoryReset else NetworkAccessReset,
              resetAttempt (g\<lparr> rgActive := False \<rparr>))
        else if \<not> candidate \<and> giNow i - attemptStartedAtMs g > RECOVERY_GESTURE_WINDOW_MS
        then (GestureNone, resetAttempt g)
        else (GestureNone, g))"

fun gestureRun :: "gesture_input list \<Rightarrow> RecoveryGestureRecognizer \<Rightarrow> RecoveryGestureRecognizer" where
  "gestureRun [] g = g"
| "gestureRun (i # is) g = gestureRun is (snd (gestureUpdate i g))"

section \<open>What a confirmed gesture implies\<close>

text \<open>
  The movements of an attempt: a first OFF edge, then only edges within the window; the
  cycles are the ON edges, and the last edge is when the paddle last moved.
\<close>

definition cyclesOf :: "gesture_input list \<Rightarrow> nat" where
  "cyclesOf is = length (filter giTurnedOn is)"

fun lastEdge :: "u32 \<Rightarrow> gesture_input list \<Rightarrow> u32" where
  "lastEdge t [] = t"
| "lastEdge t (i # is) = lastEdge (if transitioned i then giNow i else t) is"

lemma lastEdge_snoc [simp]: "lastEdge t (is @ [i]) = (if transitioned i then giNow i else lastEdge t is)"
  by (induction "is" arbitrary: t) simp_all

lemma cyclesOf_snoc [simp]: "cyclesOf (is @ [i]) = (if giTurnedOn i then Suc (cyclesOf is) else cyclesOf is)"
  by (simp add: cyclesOf_def)

text \<open>
  An attempt begins at an OFF edge that finds none running, or one whose window has passed: the
  first OFF edge, not any. From there on every edge so far lies in the window.
\<close>

definition attemptBegins :: "u32 \<Rightarrow> gesture_input list \<Rightarrow> gesture_input \<Rightarrow> bool" where
  "attemptBegins t0 pre off \<longleftrightarrow> giTurnedOff off \<and>
     (let g = gestureRun pre (gestureBegin t0) in
      attemptActive g \<longrightarrow> giNow off - attemptStartedAtMs g > RECOVERY_GESTURE_WINDOW_MS)"

definition gesture_since :: "u32 \<Rightarrow> gesture_input list \<Rightarrow> nat \<Rightarrow> u32 \<Rightarrow> u32 \<Rightarrow> bool" where
  "gesture_since t0 is cycles started moved \<longleftrightarrow>
     (\<exists>pre off moves. is = pre @ off # moves \<and> attemptBegins t0 pre off \<and> giNow off = started \<and>
        cyclesOf moves = cycles \<and> lastEdge started moves = moved \<and>
        (\<forall>i\<in>set moves. transitioned i \<longrightarrow> giNow i - started \<le> RECOVERY_GESTURE_WINDOW_MS))"

definition recognizer_inv :: "u32 \<Rightarrow> gesture_input list \<Rightarrow> RecoveryGestureRecognizer \<Rightarrow> bool" where
  "recognizer_inv t0 is g \<longleftrightarrow> modeStartedAtMs g = t0 \<and> (attemptActive g \<longrightarrow> rgActive g) \<and>
     (rgActive g \<longrightarrow> (\<forall>i\<in>set is. giNow i - t0 < RECOVERY_MODE_WINDOW_MS)) \<and>
     (attemptActive g \<longrightarrow> completedCycles g \<le> RECOVERY_FACTORY_CYCLES \<and>
        gesture_since t0 is (unat (completedCycles g)) (attemptStartedAtMs g) (lastTransitionAtMs g))"

lemma since_start: "attemptBegins t0 is i \<Longrightarrow> gesture_since t0 (is @ [i]) 0 (giNow i) (giNow i)"
  unfolding gesture_since_def
  by (rule exI [of _ "is"], rule exI [of _ i], rule exI [of _ "[]"]) (simp add: cyclesOf_def)

lemma since_extend:
  assumes "gesture_since t0 is c s l" "transitioned i \<Longrightarrow> giNow i - s \<le> RECOVERY_GESTURE_WINDOW_MS"
  shows "gesture_since t0 (is @ [i]) (if giTurnedOn i then Suc c else c) s (if transitioned i then giNow i else l)"
proof -
  obtain pre off moves where m: "is = pre @ off # moves" "attemptBegins t0 pre off" "giNow off = s" "cyclesOf moves = c"
    "lastEdge s moves = l" "\<forall>i\<in>set moves. transitioned i \<longrightarrow> giNow i - s \<le> RECOVERY_GESTURE_WINDOW_MS"
    using assms(1) by (auto simp: gesture_since_def)
  show ?thesis
    unfolding gesture_since_def
    by (rule exI [of _ pre], rule exI [of _ off], rule exI [of _ "moves @ [i]"]) (use m assms(2) in auto)
qed

lemma cycle_inc: "(c :: u8) \<le> RECOVERY_FACTORY_CYCLES \<Longrightarrow> unat (c + 1) = Suc (unat c)"
  by (simp add: RECOVERY_FACTORY_CYCLES_def word_le_nat_alt unat_word_ariths)

lemma reset_inv [simp]: "\<not> attemptActive (resetAttempt g)" "rgActive (resetAttempt g) = rgActive g"
  "modeStartedAtMs (resetAttempt g) = modeStartedAtMs g"
  by (simp_all add: resetAttempt_def)

lemma edge_inv:
  assumes "recognizer_inv t0 is g" "attemptActive g" "transitioned i" "giNow i - t0 < RECOVERY_MODE_WINDOW_MS"
    and run: "g = gestureRun is (gestureBegin t0)"
  shows "recognizer_inv t0 (is @ [i]) (gestureEdge i g)"
proof (cases "giNow i - attemptStartedAtMs g \<le> RECOVERY_GESTURE_WINDOW_MS")
  case True
  have g: "gesture_since t0 (is @ [i]) (if giTurnedOn i then Suc (unat (completedCycles g)) else unat (completedCycles g))
      (attemptStartedAtMs g) (giNow i)"
    using since_extend [of t0 "is" "unat (completedCycles g)" "attemptStartedAtMs g" "lastTransitionAtMs g" i]
      assms(1-3) True by (simp add: recognizer_inv_def)
  have le: "completedCycles g \<le> RECOVERY_FACTORY_CYCLES" using assms(1,2) by (simp add: recognizer_inv_def)
  show ?thesis
    using assms(1,4) True g le cycle_inc [OF le]
    by (auto simp: recognizer_inv_def gestureEdge_def Let_def not_less)
next
  case False
  have begins: "giTurnedOff i \<Longrightarrow> attemptBegins t0 is i"
    using False by (simp add: attemptBegins_def run [symmetric] not_le Let_def)
  show ?thesis
    using assms(1,2,4) False since_start [of t0 "is" i] begins
    by (auto simp: recognizer_inv_def gestureEdge_def Let_def startAttempt_def resetAttempt_def
        RECOVERY_FACTORY_CYCLES_def)
qed

lemma update_inv:
  assumes "recognizer_inv t0 is g" and run: "g = gestureRun is (gestureBegin t0)"
  shows "recognizer_inv t0 (is @ [i]) (snd (gestureUpdate i g))"
proof -
  let ?live = "giNow i - modeStartedAtMs g < RECOVERY_MODE_WINDOW_MS"
  consider (off) "\<not> rgActive g" | (late) "rgActive g" "\<not> ?live"
    | (edge) "rgActive g" ?live "transitioned i" "attemptActive g"
    | (first) "rgActive g" ?live "transitioned i" "\<not> attemptActive g"
    | (idle) "rgActive g" ?live "\<not> transitioned i" by blast
  then show ?thesis
  proof cases
    case off
    then show ?thesis using assms(1) by (simp add: recognizer_inv_def gestureUpdate_def)
  next
    case late
    then show ?thesis using assms(1) by (simp add: recognizer_inv_def gestureUpdate_def not_less)
  next
    case edge
    then show ?thesis using edge_inv [OF assms(1) _ _ _ run, of i] assms(1)
      by (auto simp: gestureUpdate_def recognizer_inv_def [of t0 "is"] dest: leD)
  next
    case first
    then have "giTurnedOff i \<Longrightarrow> attemptBegins t0 is i" by (simp add: attemptBegins_def run [symmetric] Let_def)
    then show ?thesis using first assms(1) since_start [of t0 "is" i]
      by (auto simp: recognizer_inv_def gestureUpdate_def startAttempt_def not_le RECOVERY_FACTORY_CYCLES_def)
  next
    case idle
    define g' where "g' = snd (gestureUpdate i g)"
    have "g' = g \<or> g' = resetAttempt g \<or> g' = resetAttempt (g\<lparr> rgActive := False \<rparr>)"
      using idle by (simp add: g'_def gestureUpdate_def Let_def not_le)
    moreover have "recognizer_inv t0 (is @ [i]) g"
      using assms(1) idle since_extend [of t0 "is" "unat (completedCycles g)" "attemptStartedAtMs g" "lastTransitionAtMs g" i]
      by (auto simp: recognizer_inv_def transitioned_def)
    ultimately show ?thesis
      unfolding g'_def [symmetric] by (auto simp: recognizer_inv_def)
  qed
qed

lemma gestureRun_snoc: "gestureRun (is @ [i]) g = snd (gestureUpdate i (gestureRun is g))"
  by (induction "is" arbitrary: g) simp_all

lemma begin_inv: "recognizer_inv t0 [] (gestureBegin t0)"
  by (simp add: recognizer_inv_def gestureBegin_def)

lemma run_inv: "recognizer_inv t0 is (gestureRun is (gestureBegin t0))"
proof (induction "is" rule: rev_induct)
  case Nil
  then show ?case by (simp add: begin_inv)
next
  case (snoc i "is")
  from update_inv [OF snoc refl, of i] show ?case by (simp add: gestureRun_snoc)
qed

text \<open>
  Complete cycles: an ON edge counts when an OFF edge came since the last one. Where the debounced
  edges alternate, every ON edge of an attempt completes a cycle.
\<close>

fun completeCycles :: "bool \<Rightarrow> gesture_input list \<Rightarrow> nat" where
  "completeCycles wasOff [] = 0"
| "completeCycles wasOff (i # is) =
     (if giTurnedOn i then (if wasOff then 1 else 0) + completeCycles False is
      else completeCycles (wasOff \<or> giTurnedOff i) is)"

fun alternating :: "bool \<Rightarrow> gesture_input list \<Rightarrow> bool" where
  "alternating wasOff [] = True"
| "alternating wasOff (i # is) = (\<not> (giTurnedOn i \<and> giTurnedOff i) \<and> (giTurnedOn i \<longrightarrow> wasOff) \<and>
     alternating (if giTurnedOn i then False else wasOff \<or> giTurnedOff i) is)"

lemma alternating_cycles: "alternating b is \<Longrightarrow> completeCycles b is = cyclesOf is"
  by (induction "is" arbitrary: b) (auto simp: cyclesOf_def)

lemma alternating_suffix: "alternating b (pre @ off # moves) \<Longrightarrow> giTurnedOff off \<Longrightarrow> alternating True moves"
  by (induction pre arbitrary: b) (auto split: if_splits)

lemma gesture_complete:
  assumes "gesture_since t0 is n started moved"
  shows "\<exists>pre off moves. is = pre @ off # moves \<and> attemptBegins t0 pre off \<and> giNow off = started \<and>
     cyclesOf moves = n \<and> (alternating b is \<longrightarrow> completeCycles True moves = n) \<and> lastEdge started moves = moved \<and>
     (\<forall>i\<in>set moves. transitioned i \<longrightarrow> giNow i - started \<le> RECOVERY_GESTURE_WINDOW_MS)"
proof -
  obtain pre off moves where m: "is = pre @ off # moves" "attemptBegins t0 pre off" "giNow off = started"
    "cyclesOf moves = n" "lastEdge started moves = moved"
    "\<forall>i\<in>set moves. transitioned i \<longrightarrow> giNow i - started \<le> RECOVERY_GESTURE_WINDOW_MS"
    using assms by (auto simp: gesture_since_def)
  have "giTurnedOff off" using m(2) by (simp add: attemptBegins_def)
  then have "alternating b is \<longrightarrow> completeCycles True moves = n"
    using m(1,4) alternating_suffix alternating_cycles by blast
  then show ?thesis using m by blast
qed

text \<open>
  Property C39. Nothing is erased by accident. When the recognizer, however it was fed since
  recovery mode began, asks for a factory reset, then the current attempt, which began at an OFF
  edge that found no attempt in its window, has exactly five ON edges since (exactly three for an
  access reset), each the end of a complete OFF-ON cycle where the edges alternate; every
  movement since lies within five seconds of that OFF edge, the activator is ON and has not moved
  for three seconds, and at no input so far had the sixty-second mode window passed.
\<close>

theorem reset_needs_exact_gesture:
  assumes "fst (gestureUpdate i (gestureRun is (gestureBegin t0))) = result"
    and "result = FactoryReset \<or> result = NetworkAccessReset"
  shows "(\<exists>pre off moves. is = pre @ off # moves \<and> giTurnedOff off \<and>
      (let g = gestureRun pre (gestureBegin t0) in attemptActive g \<longrightarrow> giNow off - attemptStartedAtMs g > 5000) \<and>
      length (filter giTurnedOn moves) = (if result = FactoryReset then 5 else 3) \<and>
      (alternating True is \<longrightarrow> completeCycles True moves = (if result = FactoryReset then 5 else 3)) \<and>
      (\<forall>j\<in>set moves. transitioned j \<longrightarrow> giNow j - giNow off \<le> 5000) \<and>
      3000 \<le> giNow i - lastEdge (giNow off) moves) \<and>
    giOn i \<and> \<not> transitioned i \<and> (\<forall>j\<in>set (is @ [i]). giNow j - t0 < 60000)"
proof -
  define g where "g = gestureRun is (gestureBegin t0)"
  have inv: "recognizer_inv t0 is g" using run_inv by (simp add: g_def)
  have u: "unat (3 :: u8) = 3" "unat (5 :: u8) = 5" by simp_all
  have r: "fst (gestureUpdate i g) = result" using assms(1) by (simp add: g_def)
  then have g: "rgActive g" "attemptActive g" "\<not> transitioned i" "giOn i"
    "RECOVERY_CONFIRMATION_MS \<le> giNow i - lastTransitionAtMs g" "giNow i - modeStartedAtMs g < RECOVERY_MODE_WINDOW_MS"
    "completedCycles g = (if result = FactoryReset then 5 else 3)"
    using assms(2)
    by (auto simp: gestureUpdate_def Let_def not_le RECOVERY_FACTORY_CYCLES_def RECOVERY_NETWORK_CYCLES_def split: if_splits)
  then have "gesture_since t0 is (if result = FactoryReset then 5 else 3) (attemptStartedAtMs g) (lastTransitionAtMs g)"
    using inv u by (auto simp: recognizer_inv_def split: if_splits)
  from gesture_complete [OF this, of True] obtain pre off moves where m: "is = pre @ off # moves"
    "attemptBegins t0 pre off" "giNow off = attemptStartedAtMs g"
    "cyclesOf moves = (if result = FactoryReset then 5 else 3)"
    "alternating True is \<longrightarrow> completeCycles True moves = (if result = FactoryReset then 5 else 3)"
    "lastEdge (attemptStartedAtMs g) moves = lastTransitionAtMs g"
    "\<forall>i\<in>set moves. transitioned i \<longrightarrow> giNow i - attemptStartedAtMs g \<le> RECOVERY_GESTURE_WINDOW_MS"
    by blast
  have "\<forall>j\<in>set (is @ [i]). giNow j - t0 < 60000"
    using g inv by (auto simp: recognizer_inv_def RECOVERY_MODE_WINDOW_MS_def)
  moreover have "3000 \<le> giNow i - lastEdge (giNow off) moves"
    using g(5) m(3,6) by (simp add: RECOVERY_CONFIRMATION_MS_def)
  ultimately show ?thesis
    using g(3,4) m(1-5,7)
    by (intro conjI exI [of _ pre] exI [of _ off] exI [of _ moves])
      (simp_all add: attemptBegins_def cyclesOf_def RECOVERY_GESTURE_WINDOW_MS_def)
qed

definition edgeAt :: "u32 \<Rightarrow> bool \<Rightarrow> gesture_input" where
  "edgeAt t on = \<lparr> giNow = t, giOn = on, giTurnedOn = on, giTurnedOff = \<not> on \<rparr>"

definition fiveCycles :: "gesture_input list" where
  "fiveCycles = map (\<lambda>k. edgeAt (1000 + 400 * of_nat k) (k mod 2 = 1)) [0..<10]"

definition heldAt :: "u32 \<Rightarrow> gesture_input" where
  "heldAt t = \<lparr> giNow = t, giOn = True, giTurnedOn = False, giTurnedOff = False \<rparr>"

lemma fiveCycles_result:
  "fst (gestureUpdate (heldAt 7600) (gestureRun fiveCycles (gestureBegin 500))) = FactoryReset"
  by code_simp

text \<open>Four cycles, and six, ask for nothing.\<close>

definition cyclesFrom :: "nat \<Rightarrow> gesture_input list" where
  "cyclesFrom n = map (\<lambda>k. edgeAt (1000 + 400 * of_nat k) (k mod 2 = 1)) [0..<2 * n]"

lemma four_and_six_ask_nothing:
  "fst (gestureUpdate (heldAt 7600) (gestureRun (cyclesFrom 4) (gestureBegin 500))) = GestureNone"
  "fst (gestureUpdate (heldAt 9600) (gestureRun (cyclesFrom 6) (gestureBegin 500))) = GestureNone"
  by code_simp+

theorem reset_needs_exact_gesture_witness:
  "\<exists>pre off moves. fiveCycles = pre @ off # moves \<and> length (filter giTurnedOn moves) = 5 \<and>
     completeCycles True moves = 5 \<and> 3000 \<le> 7600 - lastEdge (giNow off) moves"
proof -
  have a: "alternating True fiveCycles" by code_simp
  show ?thesis using reset_needs_exact_gesture [OF fiveCycles_result] a by (auto simp: heldAt_def)
qed

text \<open>The grace before recovery elapses only if every sample so far found the activator held.\<close>

fun graceRun :: "(u32 \<times> bool) list \<Rightarrow> RecoveryGraceWindow \<Rightarrow> RecoveryGraceWindow" where
  "graceRun [] w = w"
| "graceRun ((t, held) # rest) w = graceRun rest (snd (graceUpdate t held w))"

lemma grace_inactive: "\<not> graceActive w \<Longrightarrow> graceRun samples w = w"
  by (induction samples w rule: graceRun.induct) (simp_all add: graceUpdate_def)

lemma grace_held:
  "graceActive (graceRun samples w) \<Longrightarrow>
     (\<forall>s\<in>set samples. snd s) \<and> graceStartedAtMs (graceRun samples w) = graceStartedAtMs w"
proof (induction samples w rule: graceRun.induct)
  case (2 t held rest w)
  have a: "graceActive (snd (graceUpdate t held w))" using 2 grace_inactive by fastforce
  then have "held" "graceStartedAtMs (snd (graceUpdate t held w)) = graceStartedAtMs w"
    by (auto simp: graceUpdate_def Let_def split: if_splits)
  then show ?case using 2 by simp
qed simp

text \<open>
  Recovery mode is entered only after a deliberate hold: when the grace
  window reports that it elapsed, every sample since it began found the activator held and
  at least thirty seconds have passed on the wrapping clock.
\<close>

lemma recovery_entry_needs_hold:
  assumes "fst (graceUpdate t held (graceRun samples (graceBegin t0))) = GraceElapsed"
  shows "held \<and> (\<forall>s\<in>set samples. snd s) \<and> RECOVERY_ENTRY_GRACE_MS \<le> t - t0"
proof -
  define w where "w = graceRun samples (graceBegin t0)"
  have w: "graceActive w" "held" "RECOVERY_ENTRY_GRACE_MS \<le> t - graceStartedAtMs w"
    using assms by (auto simp: w_def [symmetric] graceUpdate_def Let_def split: if_splits)
  then show ?thesis
    using grace_held [of samples "graceBegin t0"] by (auto simp: w_def graceBegin_def)
qed

lemma recovery_entry_needs_hold_witness:
  "RECOVERY_ENTRY_GRACE_MS \<le> (100 :: u32) - (- 30000)"
  using recovery_entry_needs_hold [of 100 True "[(- 20000, True), (- 7, True)]" "- 30000"]
  by (simp add: graceBegin_def graceUpdate_def Let_def RECOVERY_ENTRY_GRACE_MS_def
      RECOVERY_GRACE_BEEP_INTERVAL_MS_def)

end
