(* ===== verification/Momentary_Machine.thy ===== *)
theory Momentary_Machine
  imports Paddle_Machine
begin

text \<open>
  The machine facade compiled for a momentary switch with a reed sensor
  (\<open>OPEN_BREW_BY_WEIGHT_MACHINE_TYPE == 2\<close>): the switch input with its start/stop edge and
  long-press rules (\<open>MomentaryInput\<close>), the reed's run view with its windows of assumption
  (\<open>MomentaryReedState\<close>), and K1, which mirrors the switch one to one and carries the
  firmware's synthetic pulses (\<open>MomentaryControl\<close>). The file-scope variables are one
  record. An operation may call the K1 driver several times; the answers of the n-th call
  and what other tasks did inside its gap are \<open>env n\<close>, and the record counts the calls.
\<close>

section \<open>Types and configuration\<close>

datatype FirmwarePulseKind = PULSE_START | PULSE_STOP | PULSE_FORCED

datatype ReedAssume = ASSUME_NONE | ASSUME_ON | ASSUME_OFF | GRACE_ON | GRACE_OFF

text \<open>The fields of \<open>RuntimeConfig\<close> the momentary machine reads.\<close>

record momentary_config =
  mcStartOnPress :: bool
  mcRinseEnabled :: bool
  mcRinseGestureMs :: u32
  mcStopPulseTenMs :: u8
  mcMaxSinglePressHundredMs :: u8
  mcReedConfirmTimeoutHundredMs :: u8
  mcAssumeIdleWhenScaleConnects :: bool
  mcShotReactTimeoutS :: u8

definition momentaryStartEdgeId :: "bool \<Rightarrow> string" where
  "momentaryStartEdgeId startOnPress = (if startOnPress then ''press'' else ''release'')"

definition parseMomentaryStartEdge :: "string option \<Rightarrow> bool option" where
  "parseMomentaryStartEdge text = (case text of
       None \<Rightarrow> None
     | Some t \<Rightarrow> if t = ''press'' then Some True else if t = ''release'' then Some False else None)"

definition runtimeScaledMs :: "u32 \<Rightarrow> u32 \<Rightarrow> u32 \<Rightarrow> u32 \<Rightarrow> u8 \<Rightarrow> u32" where
  "runtimeScaledMs scaleMs minMs maxMs fallbackMs raw =
     (if raw = 0 then fallbackMs
      else let ms = ucast raw * scaleMs in
        if ms < minMs \<or> ms > maxMs then fallbackMs else ms)"

definition COMPILED_STOP_PULSE_MS :: u32 where "COMPILED_STOP_PULSE_MS = 300"
definition COMPILED_MAX_SINGLE_PRESS_MS :: u32 where "COMPILED_MAX_SINGLE_PRESS_MS = 1000"
definition COMPILED_REED_CONFIRM_TIMEOUT_MS :: u32 where "COMPILED_REED_CONFIRM_TIMEOUT_MS = 1000"
definition MIN_REED_CONFIRM_TIMEOUT_MS :: u32 where "MIN_REED_CONFIRM_TIMEOUT_MS = 200"
definition MAX_REED_CONFIRM_TIMEOUT_MS :: u32 where "MAX_REED_CONFIRM_TIMEOUT_MS = 5000"
definition REED_DEBOUNCE_MS :: u32 where "REED_DEBOUNCE_MS = 30"

definition runtimeStopPulseMs :: "momentary_config \<Rightarrow> u32" where
  "runtimeStopPulseMs c = runtimeScaledMs 10 50 1000 COMPILED_STOP_PULSE_MS (mcStopPulseTenMs c)"

definition runtimeMaxSinglePressMs :: "momentary_config \<Rightarrow> u32" where
  "runtimeMaxSinglePressMs c =
     runtimeScaledMs 100 100 5000 COMPILED_MAX_SINGLE_PRESS_MS (mcMaxSinglePressHundredMs c)"

definition runtimeReedConfirmTimeoutMs :: "momentary_config \<Rightarrow> u32" where
  "runtimeReedConfirmTimeoutMs c = runtimeScaledMs 100 MIN_REED_CONFIRM_TIMEOUT_MS
     MAX_REED_CONFIRM_TIMEOUT_MS COMPILED_REED_CONFIRM_TIMEOUT_MS (mcReedConfirmTimeoutHundredMs c)"

section \<open>State\<close>

record momentary =
  mmK1 :: relay
  mmCalls :: nat
  mmPinOn :: bool
  mmReedPinOn :: bool
  mmConfig :: momentary_config
  mmRawActivatorOn :: bool
  mmActivatorOn :: bool
  mmTurnedOn :: bool
  mmTurnedOff :: bool
  mmEvents :: "bool list"
  mmLastPolledIntention :: MachineIntention
  mmDriveAllowed :: bool
  mmDriveSuppressedThisHold :: bool
  mmRinseActuationActive :: bool
  momentaryPhysicalOn :: bool
  momentaryRawOn :: bool
  momentaryRawChangedAtMs :: u32
  momentaryPressStartedAtMs :: u32
  momentaryPressHeld :: bool
  momentaryUserStopThisCycle :: bool
  momentarySkipFirmwareStopPulse :: bool
  momentaryStartEdgeThisCycle :: bool
  momentaryLogicalRunActive :: bool
  momentaryLogicalRunStartedAtMs :: u32
  momentaryLogicalOperationalLimitMs :: u32
  momentaryElapsedLatched :: bool
  momentaryLatchedElapsedMs :: u32
  momentaryGesturePending :: bool
  momentaryGestureRestoreRunning :: bool
  momentaryRinseRequested :: bool
  momentaryRinseHoldFromIdle :: bool
  momentaryRinseEmittedThisHold :: bool
  momentaryGesturePreState :: MachineRunState
  momentaryGesturePreStartedAtMs :: u32
  momentaryGesturePreLimitMs :: u32
  pulseOutputActive :: bool
  pulseOutputIsStart :: bool
  pulseOutputKind :: FirmwarePulseKind
  pulseOutputEndsAtMs :: u32
  firmwarePulsePending :: bool
  firmwarePulsePendingKind :: FirmwarePulseKind
  firmwarePulsePendingReadyAtMs :: u32
  reedRawOn :: bool
  reedOn :: bool
  reedChangedAtMs :: u32
  reedOnAtMs :: u32
  reedSawStableOff :: bool
  momentaryStopRetryPending :: bool
  momentaryFirmwareStopIssued :: bool
  reedAssume :: ReedAssume
  reedAssumeAtMs :: u32

text \<open>The globals as the program starts, around a driver state, the pins and a configuration.\<close>

definition momentary0 :: "relay \<Rightarrow> bool \<Rightarrow> bool \<Rightarrow> momentary_config \<Rightarrow> momentary" where
  "momentary0 r pin reedPin cfg = \<lparr> mmK1 = r, mmCalls = 0, mmPinOn = pin, mmReedPinOn = reedPin,
     mmConfig = cfg, mmRawActivatorOn = False, mmActivatorOn = False, mmTurnedOn = False,
     mmTurnedOff = False, mmEvents = [], mmLastPolledIntention = noIntention,
     mmDriveAllowed = True, mmDriveSuppressedThisHold = False, mmRinseActuationActive = False,
     momentaryPhysicalOn = False, momentaryRawOn = False, momentaryRawChangedAtMs = 0,
     momentaryPressStartedAtMs = 0, momentaryPressHeld = False,
     momentaryUserStopThisCycle = False, momentarySkipFirmwareStopPulse = False,
     momentaryStartEdgeThisCycle = False, momentaryLogicalRunActive = False,
     momentaryLogicalRunStartedAtMs = 0,
     momentaryLogicalOperationalLimitMs = HARD_MAX_CIRCUIT_CLOSED_MS,
     momentaryElapsedLatched = False, momentaryLatchedElapsedMs = 0,
     momentaryGesturePending = False, momentaryGestureRestoreRunning = False,
     momentaryRinseRequested = False, momentaryRinseHoldFromIdle = False,
     momentaryRinseEmittedThisHold = False, momentaryGesturePreState = MACHINE_IDLE,
     momentaryGesturePreStartedAtMs = 0,
     momentaryGesturePreLimitMs = HARD_MAX_CIRCUIT_CLOSED_MS,
     pulseOutputActive = False, pulseOutputIsStart = False, pulseOutputKind = PULSE_STOP,
     pulseOutputEndsAtMs = 0, firmwarePulsePending = False,
     firmwarePulsePendingKind = PULSE_FORCED, firmwarePulsePendingReadyAtMs = 0,
     reedRawOn = False, reedOn = False, reedChangedAtMs = 0, reedOnAtMs = 0,
     reedSawStableOff = False, momentaryStopRetryPending = False,
     momentaryFirmwareStopIssued = False, reedAssume = ASSUME_NONE, reedAssumeAtMs = 0 \<rparr>"

definition mmMillis :: "momentary \<Rightarrow> u32" where
  "mmMillis m = relayMillis (mmK1 m)"

definition mmElapsed :: "u32 \<Rightarrow> momentary \<Rightarrow> u32" where
  "mmElapsed since m = relayElapsed since (mmK1 m)"

definition mmClosed :: "momentary \<Rightarrow> bool" where
  "mmClosed m = relayCircuitClosed (mmK1 m)"

type_synonym drives = "nat \<Rightarrow> drive"

definition mmCircuit :: "drives \<Rightarrow> bool \<Rightarrow> u32 \<Rightarrow> momentary \<Rightarrow> bool \<times> momentary" where
  "mmCircuit env closed limitMs m =
     (case setMachineCircuitClosed (fst (env (mmCalls m))) (gap (snd (env (mmCalls m)))) closed limitMs NORMAL
             (mmK1 m) of
        (ok, r) \<Rightarrow> (ok, m\<lparr>mmK1 := r, mmCalls := mmCalls m + 1\<rparr>))"

definition mmTrip :: "drives \<Rightarrow> RelaySafetyFault \<Rightarrow> bool \<Rightarrow> bool \<Rightarrow> bool \<Rightarrow> momentary \<Rightarrow> momentary" where
  "mmTrip env fault hardLimit operationalLimit lockout m =
     m\<lparr>mmK1 := tripRelaySafety (ioStopA (fst (env (mmCalls m)))) fault hardLimit operationalLimit lockout (mmK1 m),
       mmCalls := mmCalls m + 1\<rparr>"

definition openK1 :: "drives \<Rightarrow> momentary \<Rightarrow> momentary" where
  "openK1 env m = (if mmClosed m then snd (mmCircuit env False HARD_MAX_CIRCUIT_CLOSED_MS m) else m)"

section \<open>The drive permission\<close>

definition mayForwardActivatorOn :: "momentary \<Rightarrow> bool \<times> momentary" where
  "mayForwardActivatorOn m =
     (if \<not> mmDriveAllowed m then (False, m\<lparr>mmDriveSuppressedThisHold := True\<rparr>)
      else if mmDriveSuppressedThisHold m then (False, m)
      else (True, m))"

definition noteActivatorReleased :: "momentary \<Rightarrow> momentary" where
  "noteActivatorReleased m = m\<lparr>mmDriveSuppressedThisHold := False\<rparr>"

section \<open>The reed\<close>

definition sampleReed :: "momentary \<Rightarrow> momentary" where
  "sampleReed m0 =
     (let sampledOn = mmReedPinOn m0;
          m = (if sampledOn \<noteq> reedRawOn m0
               then m0\<lparr>reedRawOn := sampledOn, reedChangedAtMs := mmMillis m0\<rparr> else m0)
      in if reedOn m \<noteq> reedRawOn m \<and> REED_DEBOUNCE_MS \<le> mmElapsed (reedChangedAtMs m) m then
           (if reedRawOn m then m\<lparr>reedOn := True, reedOnAtMs := mmMillis m\<rparr>
            else m\<lparr>reedOn := False, reedSawStableOff := True\<rparr>)
         else if \<not> reedOn m \<and> \<not> reedRawOn m \<and> REED_DEBOUNCE_MS \<le> mmElapsed (reedChangedAtMs m) m
         then m\<lparr>reedSawStableOff := True\<rparr>
         else m)"

definition resetReedRuntime :: "momentary \<Rightarrow> momentary" where
  "resetReedRuntime m = m\<lparr>reedRawOn := False, reedOn := False, reedSawStableOff := False,
     reedAssume := ASSUME_NONE, reedChangedAtMs := mmMillis m,
     momentaryFirmwareStopIssued := False, momentaryStopRetryPending := False\<rparr>"

definition clearReedAssume :: "momentary \<Rightarrow> momentary" where
  "clearReedAssume m = m\<lparr>reedAssume := ASSUME_NONE\<rparr>"

definition beginReedAssume :: "ReedAssume \<Rightarrow> momentary \<Rightarrow> momentary" where
  "beginReedAssume a m = m\<lparr>reedAssume := a, reedAssumeAtMs := mmMillis m\<rparr>"

definition noteMomentaryLogicalStart :: "momentary \<Rightarrow> momentary" where
  "noteMomentaryLogicalStart m0 =
     (let m = sampleReed (m0\<lparr>momentaryStopRetryPending := False, momentaryFirmwareStopIssued := False\<rparr>)
      in if reedOn m then clearReedAssume m else beginReedAssume ASSUME_ON m)"

definition noteMomentaryLogicalStop :: "momentary \<Rightarrow> momentary" where
  "noteMomentaryLogicalStop m0 =
     (if reedAssume m0 = GRACE_ON \<or> reedAssume m0 = GRACE_OFF then m0
      else let m = sampleReed (m0\<lparr>momentaryStopRetryPending := False, momentaryFirmwareStopIssued := True\<rparr>)
      in if \<not> reedOn m then clearReedAssume m else beginReedAssume ASSUME_OFF m)"

definition noteMomentaryLogicalStartCanceled :: "momentary \<Rightarrow> momentary" where
  "noteMomentaryLogicalStartCanceled m = clearReedAssume
     (m\<lparr>momentaryStopRetryPending := False, momentaryFirmwareStopIssued := False\<rparr>)"

definition noteMomentaryDisqualifiedPress :: "bool \<Rightarrow> momentary \<Rightarrow> momentary" where
  "noteMomentaryDisqualifiedPress restoreRunning m0 =
     (let m = sampleReed (m0\<lparr>momentaryStopRetryPending := False, momentaryFirmwareStopIssued := False\<rparr>)
      in beginReedAssume (if restoreRunning then GRACE_ON else GRACE_OFF) m)"

definition reedConfirmOver :: "momentary \<Rightarrow> bool" where
  "reedConfirmOver m \<longleftrightarrow> runtimeReedConfirmTimeoutMs (mmConfig m) \<le> mmElapsed (reedAssumeAtMs m) m"

definition serviceReedAssumeWindow :: "momentary \<Rightarrow> momentary" where
  "serviceReedAssumeWindow m0 =
     (let m = sampleReed m0 in
      case reedAssume m of
        ASSUME_NONE \<Rightarrow> m
      | ASSUME_ON \<Rightarrow>
          if reedOn m then clearReedAssume m
          else if reedConfirmOver m
          then (clearReedAssume m)\<lparr>momentaryLogicalRunActive := False, mmTurnedOff := True\<rparr>
          else m
      | ASSUME_OFF \<Rightarrow>
          if reedOn m then (if reedConfirmOver m then clearReedAssume m else m) else clearReedAssume m
      | _ \<Rightarrow> if reedConfirmOver m then clearReedAssume m else m)"

definition machineAllowsFirmwareStopPulse :: "momentary \<Rightarrow> bool" where
  "machineAllowsFirmwareStopPulse m =
     (if momentaryPhysicalOn m then False
      else if momentaryFirmwareStopIssued m \<and> \<not> momentaryUserStopThisCycle m then False
      else reedOn m \<and> reedSawStableOff m \<and> reedAssume m \<noteq> ASSUME_OFF \<and> reedAssume m \<noteq> GRACE_OFF)"

section \<open>The run view\<close>

definition mmRunningElapsed :: "momentary \<Rightarrow> bool \<times> u32" where
  "mmRunningElapsed m =
     (if reedAssume m = GRACE_OFF then (False, 0)
      else if reedOn m \<and> \<not> mmRinseActuationActive m \<and> \<not> momentaryElapsedLatched m
      then (True, mmElapsed (reedOnAtMs m) m)
      else if reedAssume m = ASSUME_ON \<or> reedAssume m = GRACE_ON \<or> momentaryLogicalRunActive m
      then (True, mmElapsed (momentaryLogicalRunStartedAtMs m) m)
      else (False, 0))"

definition mmElapsedMs :: "momentary \<Rightarrow> u32" where
  "mmElapsedMs m = (case mmRunningElapsed m of (running, elapsed) \<Rightarrow>
     if running then elapsed
     else if momentaryElapsedLatched m then momentaryLatchedElapsedMs m else 0)"

definition mmIsRunning :: "momentary \<Rightarrow> bool" where
  "mmIsRunning m =
     (if reedAssume m = GRACE_OFF then False
      else if reedAssume m = GRACE_ON then True
      else reedOn m \<or> reedAssume m = ASSUME_ON \<or> momentaryLogicalRunActive m)"

definition mmRunState :: "momentary \<Rightarrow> MachineRunState" where
  "mmRunState m =
     (if (reedAssume m = ASSUME_ON \<or> reedAssume m = GRACE_ON) \<and> \<not> reedOn m then RUNNING_UNCONFIRMED
      else if (reedAssume m = ASSUME_OFF \<or> reedAssume m = GRACE_OFF) \<and> reedOn m then IDLE_UNCONFIRMED
      else if reedOn m then RUNNING
      else MACHINE_IDLE)"

definition mmFillInferenceStatus :: "momentary \<Rightarrow> bool \<times> bool \<times> bool \<times> bool" where
  "mmFillInferenceStatus m = (reedOn m, reedAssume m = ASSUME_ON \<or> reedAssume m = GRACE_ON,
     reedAssume m = ASSUME_OFF \<or> reedAssume m = GRACE_OFF, False)"

section \<open>Switch input: edges and gestures\<close>

definition clearMomentaryElapsedLatch :: "momentary \<Rightarrow> momentary" where
  "clearMomentaryElapsedLatch m = m\<lparr>momentaryElapsedLatched := False, momentaryLatchedElapsedMs := 0\<rparr>"

definition latchMomentaryElapsed :: "momentary \<Rightarrow> momentary" where
  "latchMomentaryElapsed m =
     (if momentaryElapsedLatched m \<or> momentaryLogicalRunStartedAtMs m = 0 then m
      else m\<lparr>momentaryLatchedElapsedMs := mmElapsed (momentaryLogicalRunStartedAtMs m) m,
             momentaryElapsedLatched := True\<rparr>)"

definition applyMomentaryStartStopEdge :: "momentary \<Rightarrow> momentary" where
  "applyMomentaryStartStopEdge m =
     (if mmIsRunning m then
        noteMomentaryLogicalStop
          ((latchMomentaryElapsed (m\<lparr>mmActivatorOn := False, mmTurnedOff := True,
              momentaryUserStopThisCycle := True, momentarySkipFirmwareStopPulse := True\<rparr>))
           \<lparr>momentaryLogicalRunActive := False\<rparr>)
      else let m1 = noteMomentaryLogicalStart (clearMomentaryElapsedLatch
             (m\<lparr>mmActivatorOn := False, mmTurnedOn := True, momentaryStartEdgeThisCycle := True\<rparr>))
        in m1\<lparr>momentaryLogicalRunActive := True, momentaryLogicalRunStartedAtMs := mmMillis m1,
              momentaryLogicalOperationalLimitMs := HARD_MAX_CIRCUIT_CLOSED_MS\<rparr>)"

definition snapshotMomentaryGesture :: "momentary \<Rightarrow> momentary" where
  "snapshotMomentaryGesture m = m\<lparr>momentaryGestureRestoreRunning := mmIsRunning m,
     momentaryGesturePreState := mmRunState m,
     momentaryGesturePreStartedAtMs := momentaryLogicalRunStartedAtMs m,
     momentaryGesturePreLimitMs := momentaryLogicalOperationalLimitMs m\<rparr>"

definition revertDisqualifiedSinglePress :: "momentary \<Rightarrow> momentary" where
  "revertDisqualifiedSinglePress m0 =
     (let m = m0\<lparr>mmActivatorOn := False, momentaryStartEdgeThisCycle := False\<rparr> in
      if \<not> momentaryGestureRestoreRunning m then
        noteMomentaryDisqualifiedPress False
          ((latchMomentaryElapsed (m\<lparr>mmTurnedOff := True, momentaryUserStopThisCycle := True,
              momentarySkipFirmwareStopPulse := True\<rparr>))\<lparr>momentaryLogicalRunActive := False\<rparr>)
      else noteMomentaryDisqualifiedPress True
        (m\<lparr>momentaryLogicalRunActive := True,
           momentaryLogicalRunStartedAtMs := momentaryGesturePreStartedAtMs m,
           momentaryLogicalOperationalLimitMs := momentaryGesturePreLimitMs m\<rparr>))"

definition mmInitializeActivatorInput :: "momentary \<Rightarrow> momentary" where
  "mmInitializeActivatorInput m0 =
     (let m = resetReedRuntime m0 in
      (clearMomentaryElapsedLatch (m\<lparr>momentaryRawOn := mmPinOn m, momentaryPhysicalOn := mmPinOn m,
         momentaryRawChangedAtMs := mmMillis m, mmRawActivatorOn := mmPinOn m,
         mmActivatorOn := False, momentaryPressHeld := False,
         momentaryUserStopThisCycle := False, momentarySkipFirmwareStopPulse := False,
         momentaryLogicalRunActive := False\<rparr>))
      \<lparr>momentaryGesturePending := False, momentaryGestureRestoreRunning := False,
       pulseOutputActive := False, pulseOutputKind := PULSE_STOP, firmwarePulsePending := False,
       firmwarePulsePendingKind := PULSE_FORCED, firmwarePulsePendingReadyAtMs := 0,
       momentaryRinseRequested := False, momentaryRinseHoldFromIdle := False,
       momentaryRinseEmittedThisHold := False\<rparr>)"

definition mmOnActivatorReady :: "momentary \<Rightarrow> momentary" where
  "mmOnActivatorReady m =
     (if \<not> momentaryPhysicalOn m then m\<lparr>mmActivatorOn := False, mmRawActivatorOn := False\<rparr> else m)"

definition mmOnBrewOutcome :: "bool \<Rightarrow> momentary \<Rightarrow> momentary" where
  "mmOnBrewOutcome brewActive m =
     (if momentaryStartEdgeThisCycle m \<and> \<not> brewActive then
        noteMomentaryLogicalStartCanceled (clearMomentaryElapsedLatch
          (m\<lparr>mmActivatorOn := False, momentaryLogicalRunActive := False, momentaryGesturePending := False\<rparr>))
      else m)"

definition mmIsStablyOff :: "momentary \<Rightarrow> bool" where
  "mmIsStablyOff m \<longleftrightarrow> \<not> mmActivatorOn m \<and> \<not> mmRawActivatorOn m \<and> \<not> momentaryPhysicalOn m \<and>
     ACTIVATOR_DEBOUNCE_MS \<le> mmElapsed (momentaryRawChangedAtMs m) m"

end
