(* ===== verification/Momentary_Control.thy ===== *)
theory Momentary_Control
  imports Momentary_Machine
begin

text \<open>
  K1 under the momentary switch (\<open>MomentaryControl\<close>), the debounced switch sample that
  drives it (\<open>updateActivatorInput\<close> of \<open>MomentaryInput\<close>) and the intent translator of
  \<open>OpenBrewByWeightMachine.h\<close>. K1 follows the pressed switch when the stopper allows it;
  otherwise it is closed only for the length of one synthetic pulse.
\<close>

section \<open>Synthetic pulses\<close>

definition abortFirmwarePulseIfActive :: "drives \<Rightarrow> momentary \<Rightarrow> momentary" where
  "abortFirmwarePulseIfActive env m0 =
     (let m = m0\<lparr>firmwarePulsePending := False, firmwarePulsePendingReadyAtMs := 0\<rparr> in
      if pulseOutputActive m then
        (let m1 = m\<lparr>pulseOutputActive := False\<rparr> in
         if \<not> momentaryPhysicalOn m1 then openK1 env m1 else m1)
      else m)"

definition pulseDurationMs :: "momentary \<Rightarrow> u32" where
  "pulseDurationMs m =
     (let durationMs = runtimeStopPulseMs (mmConfig m) in if durationMs < 50 then 50 else durationMs)"

definition emitFirmwarePulse :: "drives \<Rightarrow> FirmwarePulseKind \<Rightarrow> momentary \<Rightarrow> bool \<times> momentary" where
  "emitFirmwarePulse env kind m =
     (if \<not> mmRinseActuationActive m \<and> momentaryPhysicalOn m then (True, m)
      else if pulseOutputActive m then (True, m)
      else case mmCircuit env True HARD_MAX_CIRCUIT_CLOSED_MS m of (ok, m1) \<Rightarrow>
        if \<not> ok then (False, m1)
        else (True, m1\<lparr>pulseOutputActive := True, pulseOutputKind := kind,
               pulseOutputIsStart := (kind = PULSE_START),
               pulseOutputEndsAtMs := mmMillis m1 + pulseDurationMs m1\<rparr>))"

definition serviceFirmwarePulseDrive :: "drives \<Rightarrow> momentary \<Rightarrow> momentary" where
  "serviceFirmwarePulseDrive env m =
     (if \<not> pulseOutputActive m then
        (let m1 = openK1 env m in
         if \<not> firmwarePulsePending m1 \<or> momentaryPhysicalOn m1 \<or>
            sint (mmMillis m1 - firmwarePulsePendingReadyAtMs m1) < 0
         then m1
         else snd (emitFirmwarePulse env (firmwarePulsePendingKind m1)
                (m1\<lparr>firmwarePulsePending := False, firmwarePulsePendingReadyAtMs := 0\<rparr>)))
      else if sint (mmMillis m - pulseOutputEndsAtMs m) \<ge> 0 then
        (let m1 = (snd (mmCircuit env False HARD_MAX_CIRCUIT_CLOSED_MS m))\<lparr>pulseOutputActive := False\<rparr>
         in if firmwarePulsePending m1
            then m1\<lparr>firmwarePulsePendingReadyAtMs := mmMillis m1 + ACTIVATOR_DEBOUNCE_MS\<rparr>
            else m1)
      else if \<not> mmClosed m then snd (mmCircuit env True HARD_MAX_CIRCUIT_CLOSED_MS m)
      else m)"

definition applyMomentaryRelayDrive :: "drives \<Rightarrow> momentary \<Rightarrow> momentary" where
  "applyMomentaryRelayDrive env m =
     (if mmRinseActuationActive m then serviceFirmwarePulseDrive env m
      else if momentaryPhysicalOn m then
        (if mmDriveSuppressedThisHold m \<and> pulseOutputActive m then serviceFirmwarePulseDrive env m
         else
           let m1 = (if \<not> mmDriveSuppressedThisHold m then abortFirmwarePulseIfActive env m else m) in
           case mayForwardActivatorOn m1 of (may, m2) \<Rightarrow>
             if \<not> may then openK1 env m2
             else if \<not> mmClosed m2 then snd (mmCircuit env True HARD_MAX_CIRCUIT_CLOSED_MS m2)
             else m2)
      else
        let m1 = noteActivatorReleased m in
        if pulseOutputActive m1 \<or> firmwarePulsePending m1 then serviceFirmwarePulseDrive env m1
        else openK1 env m1)"

definition queueWebFirmwarePulse :: "drives \<Rightarrow> FirmwarePulseKind \<Rightarrow> momentary \<Rightarrow> bool \<times> momentary" where
  "queueWebFirmwarePulse env kind m =
     (if momentaryPhysicalOn m then (False, m)
      else if pulseOutputActive m then
        (if kind = PULSE_STOP \<and> pulseOutputKind m = PULSE_STOP then (True, m)
         else if firmwarePulsePending m then (False, m)
         else (True, m\<lparr>firmwarePulsePending := True, firmwarePulsePendingKind := kind,
                       firmwarePulsePendingReadyAtMs := 0\<rparr>))
      else if firmwarePulsePending m then (False, m)
      else emitFirmwarePulse env kind m)"

definition emitFirmwareStopPulse :: "drives \<Rightarrow> momentary \<Rightarrow> bool \<times> momentary" where
  "emitFirmwareStopPulse env m = emitFirmwarePulse env PULSE_STOP m"

definition maybeEmitFirmwareStopPulse :: "drives \<Rightarrow> momentary \<Rightarrow> momentary" where
  "maybeEmitFirmwareStopPulse env m =
     (if momentaryPhysicalOn m then abortFirmwarePulseIfActive env m
      else if \<not> machineAllowsFirmwareStopPulse m then abortFirmwarePulseIfActive env m
      else snd (emitFirmwareStopPulse env m))"

section \<open>Walls and requests\<close>

text \<open>What both walls do after the trip: end the logical run, cut only a run the reed shows.\<close>

definition endRunAtWall :: "drives \<Rightarrow> momentary \<Rightarrow> momentary" where
  "endRunAtWall env m0 =
     (let m = (latchMomentaryElapsed m0)\<lparr>momentaryLogicalRunActive := False\<rparr> in
      if machineAllowsFirmwareStopPulse m
      then noteMomentaryLogicalStop (maybeEmitFirmwareStopPulse env m) else m)"

definition serviceLogicalRunWalls :: "drives \<Rightarrow> momentary \<Rightarrow> momentary" where
  "serviceLogicalRunWalls env m =
     (if \<not> momentaryLogicalRunActive m then m
      else let elapsed = mmElapsed (momentaryLogicalRunStartedAtMs m) m in
        if elapsed \<ge> HARD_MAX_CIRCUIT_CLOSED_MS
        then endRunAtWall env (mmTrip env HARD_LIMIT True False False m)
        else if momentaryLogicalOperationalLimitMs m < HARD_MAX_CIRCUIT_CLOSED_MS \<and>
                elapsed \<ge> momentaryLogicalOperationalLimitMs m
        then endRunAtWall env (mmTrip env OPERATIONAL_LIMIT False True False m)
        else m)"

definition mmRequestStart :: "drives \<Rightarrow> u32 \<Rightarrow> bool \<Rightarrow> momentary \<Rightarrow> bool \<times> momentary" where
  "mmRequestStart env operationalLimitMs remoteActuation m0 =
     (let m1 = noteMomentaryLogicalStart (clearMomentaryElapsedLatch m0);
          m = m1\<lparr>momentaryLogicalRunActive := True, momentaryLogicalRunStartedAtMs := mmMillis m1,
                 momentaryLogicalOperationalLimitMs := operationalLimitMs\<rparr>;
          relay = getRelaySafetySnapshot (mmK1 m)
      in if snState relay = LOCKOUT \<or> snState relay = TRIPPED then (False, m)
         else if \<not> remoteActuation then (True, m)
         else emitFirmwarePulse env PULSE_START m)"

definition mmRequestStop :: "drives \<Rightarrow> momentary \<Rightarrow> bool \<times> momentary" where
  "mmRequestStop env m0 =
     (let m1 = (latchMomentaryElapsed m0)\<lparr>momentaryLogicalRunActive := False\<rparr>;
          skipPulse = momentaryPhysicalOn m1 \<or> momentarySkipFirmwareStopPulse m1;
          m = m1\<lparr>momentarySkipFirmwareStopPulse := False\<rparr>
      in if skipPulse then
           (True, applyMomentaryRelayDrive env (noteMomentaryLogicalStop (abortFirmwarePulseIfActive env m)))
         else if pulseOutputActive m then (True, noteMomentaryLogicalStop m)
         else if \<not> machineAllowsFirmwareStopPulse m then
           (True, applyMomentaryRelayDrive env (noteMomentaryLogicalStop m))
         else emitFirmwareStopPulse env (noteMomentaryLogicalStop m))"

definition mmRequestWebStop :: "drives \<Rightarrow> momentary \<Rightarrow> bool \<times> momentary" where
  "mmRequestWebStop env m = mmRequestStop env m"

definition mmRequestForcedPulse :: "drives \<Rightarrow> momentary \<Rightarrow> bool \<times> momentary" where
  "mmRequestForcedPulse env m = queueWebFirmwarePulse env PULSE_FORCED m"

definition mmBeginRinse :: "drives \<Rightarrow> u32 \<Rightarrow> bool \<Rightarrow> momentary \<Rightarrow> bool \<times> momentary" where
  "mmBeginRinse env operationalLimitMs continueSessionRun m0 =
     (if mmRinseActuationActive m0 then (True, m0)
      else
        let m1 = abortFirmwarePulseIfActive env
              (m0\<lparr>mmRinseActuationActive := True, mmDriveSuppressedThisHold := True\<rparr>);
            m2 = noteMomentaryLogicalStart (clearMomentaryElapsedLatch (openK1 env m1));
            m3 = m2\<lparr>momentaryLogicalRunActive := True\<rparr>;
            m4 = (if \<not> continueSessionRun then m3\<lparr>momentaryLogicalRunStartedAtMs := mmMillis m3\<rparr> else m3)
        in emitFirmwarePulse env PULSE_START
             (m4\<lparr>momentaryLogicalOperationalLimitMs := operationalLimitMs\<rparr>))"

definition mmEndRinse :: "drives \<Rightarrow> momentary \<Rightarrow> bool \<times> momentary" where
  "mmEndRinse env m0 =
     (let m1 = (latchMomentaryElapsed m0)\<lparr>momentaryLogicalRunActive := False, mmDriveSuppressedThisHold := True\<rparr>;
          m2 = abortFirmwarePulseIfActive env (noteMomentaryLogicalStop m1)
      in case emitFirmwarePulse env PULSE_STOP m2 of (ok, m3) \<Rightarrow> (ok, m3\<lparr>mmRinseActuationActive := False\<rparr>))"

definition mmApplyWorkflowConfig :: "momentary_config \<Rightarrow> momentary_config \<Rightarrow> momentary_config" where
  "mmApplyWorkflowConfig dst src = dst\<lparr>mcStopPulseTenMs := mcStopPulseTenMs src,
     mcMaxSinglePressHundredMs := mcMaxSinglePressHundredMs src,
     mcStartOnPress := mcStartOnPress src,
     mcReedConfirmTimeoutHundredMs := mcReedConfirmTimeoutHundredMs src,
     mcAssumeIdleWhenScaleConnects := mcAssumeIdleWhenScaleConnects src,
     mcShotReactTimeoutS := mcShotReactTimeoutS src,
     mcRinseGestureMs := mcRinseGestureMs src\<rparr>"

definition mmService :: "drives \<Rightarrow> momentary \<Rightarrow> momentary" where
  "mmService env m0 =
     (let m = serviceLogicalRunWalls env (applyMomentaryRelayDrive env (serviceReedAssumeWindow m0)) in
      if momentaryStopRetryPending m
      then maybeEmitFirmwareStopPulse env (m\<lparr>momentaryStopRetryPending := False\<rparr>) else m)"

definition mmStopCommandLatencyMs :: "momentary \<Rightarrow> u32" where
  "mmStopCommandLatencyMs m = runtimeStopPulseMs (mmConfig m)"

definition mmEndCycle :: "momentary \<Rightarrow> momentary" where
  "mmEndCycle m = m\<lparr>mmRinseActuationActive := False\<rparr>"

definition mmNoteFirmwareStop :: "momentary \<Rightarrow> momentary" where
  "mmNoteFirmwareStop m = m\<lparr>momentarySkipFirmwareStopPulse := False\<rparr>"

section \<open>The switch sample\<close>

text \<open>\<open>updateActivatorInput\<close>: the debounce, the drive, then the press, hold and release rules.\<close>

definition debounceSwitch :: "momentary \<Rightarrow> bool \<times> bool \<times> momentary" where
  "debounceSwitch m0 =
     (let sampledOn = mmPinOn m0;
          m1 = (if sampledOn \<noteq> momentaryRawOn m0
                then m0\<lparr>momentaryRawOn := sampledOn, momentaryRawChangedAtMs := mmMillis m0\<rparr> else m0);
          m = m1\<lparr>mmRawActivatorOn := momentaryRawOn m1\<rparr>
      in if momentaryPhysicalOn m \<noteq> momentaryRawOn m \<and>
            ACTIVATOR_DEBOUNCE_MS \<le> mmElapsed (momentaryRawChangedAtMs m) m
         then let previous = momentaryPhysicalOn m; m2 = m\<lparr>momentaryPhysicalOn := momentaryRawOn m\<rparr> in
           (\<not> previous \<and> momentaryPhysicalOn m2, previous \<and> \<not> momentaryPhysicalOn m2, m2)
         else (False, False, m))"

definition switchPressed :: "momentary \<Rightarrow> momentary" where
  "switchPressed m0 =
     (let m = m0\<lparr>momentaryPressHeld := True, momentaryPressStartedAtMs := mmMillis m0,
                 momentaryRinseEmittedThisHold := False,
                 momentaryRinseHoldFromIdle := \<not> mmIsRunning m0, mmEvents := True # mmEvents m0\<rparr>
      in if mcStartOnPress (mmConfig m)
         then (applyMomentaryStartStopEdge (snapshotMomentaryGesture m))\<lparr>momentaryGesturePending := True\<rparr>
         else m)"

definition idleRinseHold :: "momentary \<Rightarrow> bool" where
  "idleRinseHold m \<longleftrightarrow> mcRinseEnabled (mmConfig m) \<and> momentaryRinseHoldFromIdle m"

definition longHold :: "momentary \<Rightarrow> momentary" where
  "longHold m =
     (if idleRinseHold m \<and> momentaryPressHeld m \<and> \<not> momentaryRinseEmittedThisHold m \<and>
         mcRinseGestureMs (mmConfig m) \<le> mmElapsed (momentaryPressStartedAtMs m) m
      then m\<lparr>momentaryRinseRequested := True, momentaryRinseEmittedThisHold := True,
             momentaryGesturePending := False\<rparr>
      else m)"

definition disqualifiedHold :: "momentary \<Rightarrow> momentary" where
  "disqualifiedHold m =
     (if mcStartOnPress (mmConfig m) \<and> momentaryGesturePending m \<and> momentaryPressHeld m \<and>
         \<not> idleRinseHold m \<and>
         runtimeMaxSinglePressMs (mmConfig m) < mmElapsed (momentaryPressStartedAtMs m) m
      then (revertDisqualifiedSinglePress m)\<lparr>momentaryGesturePending := False\<rparr>
      else m)"

definition switchReleased :: "momentary \<Rightarrow> momentary" where
  "switchReleased m0 =
     (let heldMs = mmElapsed (momentaryPressStartedAtMs m0) m0;
          m = m0\<lparr>momentaryPressHeld := False, momentaryGesturePending := False, mmEvents := False # mmEvents m0\<rparr>
      in if mcStartOnPress (mmConfig m) \<or> momentaryRinseEmittedThisHold m then m
         else if heldMs > runtimeMaxSinglePressMs (mmConfig m) then m
         else applyMomentaryStartStopEdge m)"

definition mmUpdateActivatorInput :: "drives \<Rightarrow> momentary \<Rightarrow> momentary" where
  "mmUpdateActivatorInput env m0 =
     (case debounceSwitch (m0\<lparr>mmTurnedOn := False, mmTurnedOff := False,
             momentaryUserStopThisCycle := False, momentaryStartEdgeThisCycle := False,
             momentaryRinseRequested := False\<rparr>) of
        (physicalTurnedOn, physicalTurnedOff, m1) \<Rightarrow>
          (let m2 = applyMomentaryRelayDrive env m1;
               m3 = (if physicalTurnedOn then switchPressed m2 else m2);
               m4 = disqualifiedHold (longHold m3)
           in if physicalTurnedOff \<and> momentaryPressHeld m4 then switchReleased m4 else m4))"

definition mmSampleInput :: "drives \<Rightarrow> momentary \<Rightarrow> momentary" where
  "mmSampleInput env m = mmUpdateActivatorInput env (sampleReed m)"

definition mmPollIntention :: "momentary \<Rightarrow> MachineIntention \<times> momentary" where
  "mmPollIntention m =
     (let hold = momentaryPhysicalOn m \<or> mmRawActivatorOn m;
          out = \<lparr> inIntent =
             (if momentaryRinseRequested m then REQUEST_RINSE
              else if mmTurnedOn m then REQUEST_START
              else if mmTurnedOff m then REQUEST_STOP
              else if hold then HOLD_ACTIVE
              else if mmIsStablyOff m then STABLE_IDLE
              else NO_INTENT),
             inHoldActive = hold, inPhysicalOn = momentaryPhysicalOn m, inTurnedOn = mmTurnedOn m,
             inTurnedOff = mmTurnedOff m, inStablyOff = mmIsStablyOff m \<rparr>
      in (out, m\<lparr>mmLastPolledIntention := out\<rparr>))"

definition mmInitialize :: "momentary \<Rightarrow> momentary" where
  "mmInitialize m =
     (let r = openRelayElectricalFromIsr (mmK1 m);
          r1 = (if externalSafety r then r\<lparr>pinClosed := False, heartbeatPin := False\<rparr>
                else r\<lparr>pinClosed := False\<rparr>)
      in noteActivatorReleased ((mmInitializeActivatorInput (m\<lparr>mmK1 := r1\<rparr>))\<lparr>mmDriveAllowed := False\<rparr>))"

end
