(* ===== verification/Momentary_Facts.thy ===== *)
theory Momentary_Facts
  imports Momentary_Control Paddle_Facts
begin

text \<open>
  What the momentary specialization promises: K1 is closed only under a permitted press or
  for the length of one synthetic pulse, a pulse ends in time, a machine whose stop was
  issued is never pulsed again until someone starts it, and outside the window after an
  edge the reed alone decides the run state.
\<close>

section \<open>Frame lemmas\<close>

text \<open>The part of the state the relay drive depends on; the switch and reed logic keeps it.\<close>

definition driveView :: "momentary \<Rightarrow>
    (relay \<times> nat \<times> bool) \<times> (bool \<times> bool \<times> bool) \<times> (bool \<times> u32 \<times> bool \<times> FirmwarePulseKind)" where
  "driveView m = ((mmK1 m, mmCalls m, momentaryPhysicalOn m),
     (mmDriveAllowed m, mmDriveSuppressedThisHold m, mmRinseActuationActive m),
     (pulseOutputActive m, pulseOutputEndsAtMs m, firmwarePulsePending m, pulseOutputKind m))"

lemma driveView_eq:
  assumes "driveView m = driveView m'"
  shows "mmK1 m = mmK1 m'" "mmClosed m = mmClosed m'" "mmMillis m = mmMillis m'"
    "momentaryPhysicalOn m = momentaryPhysicalOn m'"
    "mmDriveAllowed m = mmDriveAllowed m'" "mmDriveSuppressedThisHold m = mmDriveSuppressedThisHold m'"
    "mmRinseActuationActive m = mmRinseActuationActive m'" "pulseOutputActive m = pulseOutputActive m'"
    "pulseOutputEndsAtMs m = pulseOutputEndsAtMs m'" "firmwarePulsePending m = firmwarePulsePending m'"
  using assms by (simp_all add: driveView_def mmClosed_def mmMillis_def)

lemma sampleReed_view [simp]: "driveView (sampleReed m) = driveView m"
  by (simp add: sampleReed_def driveView_def Let_def)

lemma assume_views [simp]:
  "driveView (clearReedAssume m) = driveView m"
  "driveView (beginReedAssume a m) = driveView m"
  "driveView (clearMomentaryElapsedLatch m) = driveView m"
  "driveView (latchMomentaryElapsed m) = driveView m"
  by (simp_all add: clearReedAssume_def beginReedAssume_def clearMomentaryElapsedLatch_def
      latchMomentaryElapsed_def driveView_def)

lemma field_views [simp]:
  "driveView (m\<lparr>momentaryStopRetryPending := b\<rparr>) = driveView m"
  "driveView (m\<lparr>momentaryFirmwareStopIssued := b\<rparr>) = driveView m"
  "driveView (m\<lparr>momentaryLogicalRunActive := b\<rparr>) = driveView m"
  "driveView (m\<lparr>momentaryLogicalRunStartedAtMs := w\<rparr>) = driveView m"
  "driveView (m\<lparr>momentaryLogicalOperationalLimitMs := w\<rparr>) = driveView m"
  "driveView (m\<lparr>momentaryGesturePending := b\<rparr>) = driveView m"
  "driveView (m\<lparr>mmActivatorOn := b\<rparr>) = driveView m"
  "driveView (m\<lparr>mmTurnedOn := b\<rparr>) = driveView m"
  "driveView (m\<lparr>mmTurnedOff := b\<rparr>) = driveView m"
  "driveView (m\<lparr>momentaryUserStopThisCycle := b\<rparr>) = driveView m"
  "driveView (m\<lparr>momentarySkipFirmwareStopPulse := b\<rparr>) = driveView m"
  "driveView (m\<lparr>momentaryStartEdgeThisCycle := b\<rparr>) = driveView m"
  "driveView (m\<lparr>momentaryRinseRequested := b\<rparr>) = driveView m"
  "driveView (m\<lparr>momentaryRinseEmittedThisHold := b\<rparr>) = driveView m"
  "driveView (m\<lparr>momentaryRinseHoldFromIdle := b\<rparr>) = driveView m"
  "driveView (m\<lparr>momentaryPressHeld := b\<rparr>) = driveView m"
  "driveView (m\<lparr>momentaryPressStartedAtMs := w\<rparr>) = driveView m"
  "driveView (m\<lparr>mmEvents := es\<rparr>) = driveView m"
  by (simp_all add: driveView_def)

lemma note_views [simp]:
  "driveView (noteMomentaryLogicalStart m) = driveView m"
  "driveView (noteMomentaryLogicalStop m) = driveView m"
  "driveView (noteMomentaryLogicalStartCanceled m) = driveView m"
  "driveView (noteMomentaryDisqualifiedPress b m) = driveView m"
  by (simp_all add: noteMomentaryLogicalStart_def noteMomentaryLogicalStop_def
      noteMomentaryLogicalStartCanceled_def noteMomentaryDisqualifiedPress_def Let_def)

lemma edge_view [simp]:
  "driveView (applyMomentaryStartStopEdge m) = driveView m"
  "driveView (snapshotMomentaryGesture m) = driveView m"
  "driveView (revertDisqualifiedSinglePress m) = driveView m"
  by (simp_all add: applyMomentaryStartStopEdge_def revertDisqualifiedSinglePress_def Let_def)
    (simp add: snapshotMomentaryGesture_def driveView_def)

lemma gesture_views [simp]:
  "driveView (switchPressed m) = driveView m"
  "driveView (longHold m) = driveView m"
  "driveView (disqualifiedHold m) = driveView m"
  "driveView (switchReleased m) = driveView m"
  by (simp_all add: switchPressed_def longHold_def disqualifiedHold_def switchReleased_def Let_def)

text \<open>The K1 call itself changes the driver's state and the call count.\<close>

lemma mmCircuit_frame:
  "snd (mmCircuit env c l m) = m\<lparr>mmK1 := mmK1 (snd (mmCircuit env c l m)), mmCalls := mmCalls m + 1\<rparr>"
  by (simp add: mmCircuit_def split: prod.splits)

lemma mmCircuit_keeps [simp]:
  "momentaryPhysicalOn (snd (mmCircuit env c l m)) = momentaryPhysicalOn m"
  "mmDriveAllowed (snd (mmCircuit env c l m)) = mmDriveAllowed m"
  "mmDriveSuppressedThisHold (snd (mmCircuit env c l m)) = mmDriveSuppressedThisHold m"
  "mmRinseActuationActive (snd (mmCircuit env c l m)) = mmRinseActuationActive m"
  "pulseOutputActive (snd (mmCircuit env c l m)) = pulseOutputActive m"
  "pulseOutputEndsAtMs (snd (mmCircuit env c l m)) = pulseOutputEndsAtMs m"
  "firmwarePulsePending (snd (mmCircuit env c l m)) = firmwarePulsePending m"
  "mmConfig (snd (mmCircuit env c l m)) = mmConfig m"
  by (simp_all add: mmCircuit_def split: prod.splits)

lemma openK1_keeps [simp]:
  "momentaryPhysicalOn (openK1 env m) = momentaryPhysicalOn m"
  "mmDriveAllowed (openK1 env m) = mmDriveAllowed m"
  "mmDriveSuppressedThisHold (openK1 env m) = mmDriveSuppressedThisHold m"
  "mmRinseActuationActive (openK1 env m) = mmRinseActuationActive m"
  "pulseOutputActive (openK1 env m) = pulseOutputActive m"
  "pulseOutputEndsAtMs (openK1 env m) = pulseOutputEndsAtMs m"
  "firmwarePulsePending (openK1 env m) = firmwarePulsePending m"
  by (simp_all add: openK1_def)

lemma mmCircuit_opens [simp]: "\<not> mmClosed (snd (mmCircuit env False l m))"
  using opened_not_closed
  by (simp add: mmCircuit_def mmClosed_def relayCircuitClosed_def split_beta)

lemma openK1_opens [simp]: "\<not> mmClosed (openK1 env m)"
  by (simp add: openK1_def)

lemma mmClosed_updates [simp]:
  "mmClosed (m\<lparr>pulseOutputActive := b\<rparr>) = mmClosed m"
  "mmClosed (m\<lparr>firmwarePulsePending := b\<rparr>) = mmClosed m"
  "mmClosed (m\<lparr>firmwarePulsePendingReadyAtMs := w\<rparr>) = mmClosed m"
  "mmClosed (m\<lparr>mmDriveSuppressedThisHold := b\<rparr>) = mmClosed m"
  "mmClosed (m\<lparr>mmRinseActuationActive := b\<rparr>) = mmClosed m"
  "mmClosed (m\<lparr>pulseOutputKind := k\<rparr>) = mmClosed m"
  "mmClosed (m\<lparr>pulseOutputIsStart := b\<rparr>) = mmClosed m"
  "mmClosed (m\<lparr>pulseOutputEndsAtMs := w\<rparr>) = mmClosed m"
  by (simp_all add: mmClosed_def)

lemma mmCircuit_wf: "relay_wf (mmK1 m) \<Longrightarrow> relay_wf (mmK1 (snd (mmCircuit env c l m)))"
  using relay_wf_setMachineCircuitClosed [OF _ gap_facts(1)]
  by (simp add: mmCircuit_def split_beta)

lemma openK1_wf: "relay_wf (mmK1 m) \<Longrightarrow> relay_wf (mmK1 (openK1 env m))"
  by (simp add: openK1_def mmCircuit_wf)

lemma mmCircuit_refused:
  "relay_wf (mmK1 m) \<Longrightarrow> \<not> fst (mmCircuit env True l m) \<Longrightarrow> \<not> mmClosed (snd (mmCircuit env True l m))"
  using refused_not_closed
    [of "mmK1 m" "fst (env (mmCalls m))" "snd (env (mmCalls m))" l NORMAL
      "snd (setMachineCircuitClosed (fst (env (mmCalls m))) (gap (snd (env (mmCalls m)))) True l NORMAL (mmK1 m))"]
  by (simp add: mmCircuit_def mmClosed_def relayCircuitClosed_def split_beta prod_eq_iff)

section \<open>K1 is closed for a cause\<close>

definition permittedPress :: "momentary \<Rightarrow> bool" where
  "permittedPress m \<longleftrightarrow> momentaryPhysicalOn m \<and> mmDriveAllowed m \<and> \<not> mmDriveSuppressedThisHold m"

definition closedForCause :: "momentary \<Rightarrow> bool" where
  "closedForCause m \<longleftrightarrow> (mmClosed m \<longrightarrow> pulseOutputActive m \<or> permittedPress m)"

lemma cause_view: "driveView m = driveView m' \<Longrightarrow> closedForCause m = closedForCause m'"
  using driveView_eq [of m m'] by (simp add: closedForCause_def permittedPress_def)

lemma emit_cause: "relay_wf (mmK1 m) \<Longrightarrow> closedForCause m \<Longrightarrow> closedForCause (snd (emitFirmwarePulse env k m))"
  using mmCircuit_refused [of m env HARD_MAX_CIRCUIT_CLOSED_MS]
  by (auto simp: emitFirmwarePulse_def closedForCause_def split_beta)

lemma open_cause [simp]: "\<not> mmClosed m \<Longrightarrow> closedForCause m"
  by (simp add: closedForCause_def)

lemma service_cause:
  assumes "relay_wf (mmK1 m)"
  shows "closedForCause (serviceFirmwarePulseDrive env m)"
proof (cases "pulseOutputActive m")
  case True
  then show ?thesis
    by (auto simp: serviceFirmwarePulseDrive_def Let_def closedForCause_def)
next
  case False
  have "relay_wf (mmK1 ((openK1 env m)\<lparr>firmwarePulsePending := False, firmwarePulsePendingReadyAtMs := 0\<rparr>))"
    using openK1_wf [OF assms] by simp
  from emit_cause [OF this] False show ?thesis
    by (simp add: serviceFirmwarePulseDrive_def Let_def)
qed

lemma apply_cause:
  assumes "relay_wf (mmK1 m)"
  shows "closedForCause (applyMomentaryRelayDrive env m)"
proof -
  have pulse: "closedForCause (serviceFirmwarePulseDrive env m)"
    "closedForCause (serviceFirmwarePulseDrive env (noteActivatorReleased m))"
    using service_cause assms by (simp_all add: noteActivatorReleased_def)
  have keep: "momentaryPhysicalOn (abortFirmwarePulseIfActive env m) = momentaryPhysicalOn m"
    "mmDriveAllowed (abortFirmwarePulseIfActive env m) = mmDriveAllowed m"
    "mmDriveSuppressedThisHold (abortFirmwarePulseIfActive env m) = mmDriveSuppressedThisHold m"
    by (simp_all add: abortFirmwarePulseIfActive_def Let_def)
  show ?thesis
    using pulse keep
    by (auto simp: applyMomentaryRelayDrive_def mayForwardActivatorOn_def permittedPress_def
        closedForCause_def Let_def)
qed

lemma debounce_frame:
  "mmK1 (snd (snd (debounceSwitch m))) = mmK1 m"
  "mmDriveAllowed (snd (snd (debounceSwitch m))) = mmDriveAllowed m"
  "pulseOutputActive (snd (snd (debounceSwitch m))) = pulseOutputActive m"
  "pulseOutputEndsAtMs (snd (snd (debounceSwitch m))) = pulseOutputEndsAtMs m"
  "firmwarePulsePending (snd (snd (debounceSwitch m))) = firmwarePulsePending m"
  "mmRinseActuationActive (snd (snd (debounceSwitch m))) = mmRinseActuationActive m"
  "mmDriveSuppressedThisHold (snd (snd (debounceSwitch m))) = mmDriveSuppressedThisHold m"
  by (simp_all add: debounceSwitch_def Let_def)

text \<open>The state in which a sample applies the drive, and what the gestures leave of it.\<close>

definition debounced :: "momentary \<Rightarrow> momentary" where
  "debounced m = snd (snd (debounceSwitch (m\<lparr>mmTurnedOn := False, mmTurnedOff := False,
     momentaryUserStopThisCycle := False, momentaryStartEdgeThisCycle := False,
     momentaryRinseRequested := False\<rparr>)))"

lemma input_view:
  "driveView (mmUpdateActivatorInput env m) = driveView (applyMomentaryRelayDrive env (debounced m))"
  by (simp add: mmUpdateActivatorInput_def debounced_def split_beta Let_def)

text \<open>
  Property C13. After every sample of a momentary machine K1 is closed only while a
  synthetic pulse is being output, or while the debounced switch is pressed, the stopper
  allows the drive and this hold has not been suppressed. Driver answers, timer callbacks
  inside the requests and pin levels are arbitrary.
\<close>

theorem momentary_closed_for_cause:
  assumes "relay_wf (mmK1 m)" and "mmClosed (mmSampleInput env m)"
  shows "pulseOutputActive (mmSampleInput env m) \<or>
    (momentaryPhysicalOn (mmSampleInput env m) \<and> mmDriveAllowed (mmSampleInput env m) \<and>
     \<not> mmDriveSuppressedThisHold (mmSampleInput env m))"
proof -
  have "relay_wf (mmK1 (debounced (sampleReed m)))"
    using assms(1) driveView_eq(1) [OF sampleReed_view, of m] by (simp add: debounced_def debounce_frame)
  from apply_cause [OF this, of env] have "closedForCause (mmSampleInput env m)"
    using cause_view [OF input_view] by (simp add: mmSampleInput_def)
  then show ?thesis using assms(2) by (simp add: closedForCause_def permittedPress_def)
qed


text \<open>A booted, idle machine and a driver that grants every request after two milliseconds.\<close>

definition momentaryConfig :: "bool \<Rightarrow> momentary_config" where
  "momentaryConfig onPress = \<lparr> mcStartOnPress = onPress, mcRinseEnabled = False, mcRinseGestureMs = 1000,
     mcStopPulseTenMs = 30, mcMaxSinglePressHundredMs = 10, mcReedConfirmTimeoutHundredMs = 0,
     mcAssumeIdleWhenScaleConnects = False, mcShotReactTimeoutS = 0 \<rparr>"

definition idleMomentary :: momentary where
  "idleMomentary = momentary0 (bootedRelay False) False False (momentaryConfig True)"

definition okDrives :: drives where
  "okDrives n = (okIo, [TimePasses 2000])"

definition pulsingMomentary :: momentary where
  "pulsingMomentary = snd (emitFirmwarePulse okDrives PULSE_START idleMomentary)"

lemma bootedRelay_full_close:
  "fst (setMachineCircuitClosed okIo (gap [TimePasses 2000]) True HARD_MAX_CIRCUIT_CLOSED_MS NORMAL (bootedRelay False))"
  "circuitClosed (snd (setMachineCircuitClosed okIo (gap [TimePasses 2000]) True HARD_MAX_CIRCUIT_CLOSED_MS
     NORMAL (bootedRelay False)))"
proof -
  have a: "admissible HARD_MAX_CIRCUIT_CLOSED_MS NORMAL (bootedRelay False)"
    using bootedRelay_facts [of False]
    by (simp add: admissible_def invalidCloseRequest_def HARD_MAX_CIRCUIT_CLOSED_MS_def readCircuitFeedbackClosed_def)
  have e: "(nowUs (bootedRelay False) + 2000) div 1000 - nowUs (bootedRelay False) div 1000
      < unat HARD_MAX_CIRCUIT_CLOSED_MS"
    by (simp add: bootedRelay_facts(10) HARD_MAX_CIRCUIT_CLOSED_MS_def)
  show "fst (setMachineCircuitClosed okIo (gap [TimePasses 2000]) True HARD_MAX_CIRCUIT_CLOSED_MS NORMAL (bootedRelay False))"
    "circuitClosed (snd (setMachineCircuitClosed okIo (gap [TimePasses 2000]) True HARD_MAX_CIRCUIT_CLOSED_MS
     NORMAL (bootedRelay False)))"
    using close_undisturbed(1,2) [OF bootedRelay_facts(1) a armsOk_okIo e] by simp_all
qed

lemma pulsingMomentary_facts:
  "pulseOutputActive pulsingMomentary" "mmClosed pulsingMomentary" "relay_wf (mmK1 pulsingMomentary)"
  "\<not> momentaryPhysicalOn pulsingMomentary" "\<not> momentaryRawOn pulsingMomentary"
  "\<not> mmPinOn pulsingMomentary" "\<not> mmRinseActuationActive pulsingMomentary"
  "\<not> momentaryPressHeld pulsingMomentary" "\<not> firmwarePulsePending pulsingMomentary"
  "pulseOutputEndsAtMs pulsingMomentary = mmMillis pulsingMomentary + 300"
proof -
  have "relay_wf (mmK1 (snd (mmCircuit okDrives True HARD_MAX_CIRCUIT_CLOSED_MS idleMomentary)))"
    by (rule mmCircuit_wf) (simp add: idleMomentary_def momentary0_def bootedRelay_facts(1))
  moreover have "fst (mmCircuit okDrives True HARD_MAX_CIRCUIT_CLOSED_MS idleMomentary)"
    "mmClosed (snd (mmCircuit okDrives True HARD_MAX_CIRCUIT_CLOSED_MS idleMomentary))"
    using bootedRelay_full_close
    by (simp_all add: mmCircuit_def okDrives_def idleMomentary_def momentary0_def mmClosed_def
        relayCircuitClosed_def split_beta)
  moreover have e: "emitFirmwarePulse okDrives PULSE_START idleMomentary =
      (let m1 = snd (mmCircuit okDrives True HARD_MAX_CIRCUIT_CLOSED_MS idleMomentary) in
       (True, m1\<lparr>pulseOutputActive := True, pulseOutputKind := PULSE_START, pulseOutputIsStart := True,
          pulseOutputEndsAtMs := mmMillis m1 + pulseDurationMs m1\<rparr>))"
    using calculation by (simp add: emitFirmwarePulse_def split_beta idleMomentary_def momentary0_def Let_def)
  ultimately show "pulseOutputActive pulsingMomentary" "mmClosed pulsingMomentary"
    "relay_wf (mmK1 pulsingMomentary)" "\<not> momentaryPhysicalOn pulsingMomentary" "\<not> momentaryRawOn pulsingMomentary"
    "\<not> mmPinOn pulsingMomentary" "\<not> mmRinseActuationActive pulsingMomentary"
    "\<not> momentaryPressHeld pulsingMomentary" "\<not> firmwarePulsePending pulsingMomentary"
    "pulseOutputEndsAtMs pulsingMomentary = mmMillis pulsingMomentary + 300"
    by (simp_all add: pulsingMomentary_def Let_def mmMillis_def pulseDurationMs_def runtimeStopPulseMs_def
        runtimeScaledMs_def momentaryConfig_def mmCircuit_def idleMomentary_def momentary0_def mmClosed_def split_beta)
qed

theorem momentary_closed_for_cause_witness:
  "pulseOutputActive (mmSampleInput okDrives pulsingMomentary) \<or> momentaryPhysicalOn (mmSampleInput okDrives pulsingMomentary)"
proof -
  note f = pulsingMomentary_facts
  have s: "driveView (sampleReed pulsingMomentary) = driveView pulsingMomentary" by simp
  have k: "momentaryRawOn (sampleReed m) = momentaryRawOn m" "mmPinOn (sampleReed m) = mmPinOn m" for m
    by (simp_all add: sampleReed_def Let_def)
  have "sint (mmMillis pulsingMomentary - pulseOutputEndsAtMs pulsingMomentary) < 0"
    by (simp add: f)
  then have "mmClosed (mmSampleInput okDrives pulsingMomentary)"
    using f s k driveView_eq [OF s] driveView_eq(2) [OF input_view]
    by (simp add: mmSampleInput_def debounced_def debounceSwitch_def applyMomentaryRelayDrive_def
        noteActivatorReleased_def serviceFirmwarePulseDrive_def Let_def mmMillis_def mmClosed_def)
  then show ?thesis
    using momentary_closed_for_cause [OF f(3), of okDrives] by blast
qed


section \<open>A pulse ends\<close>

lemma scaled_bounds:
  "minMs \<le> fallbackMs \<Longrightarrow> fallbackMs \<le> maxMs \<Longrightarrow>
     minMs \<le> runtimeScaledMs scaleMs minMs maxMs fallbackMs raw \<and>
     runtimeScaledMs scaleMs minMs maxMs fallbackMs raw \<le> maxMs"
  by (simp add: runtimeScaledMs_def Let_def not_less)

lemma pulseDuration_bounds: "50 \<le> unat (pulseDurationMs m)" "unat (pulseDurationMs m) \<le> 1000"
  using scaled_bounds [of 50 COMPILED_STOP_PULSE_MS 1000 10 "mcStopPulseTenMs (mmConfig m)"]
  by (auto simp: pulseDurationMs_def runtimeStopPulseMs_def COMPILED_STOP_PULSE_MS_def word_le_nat_alt
      word_less_nat_alt)

text \<open>The signed comparison of the clock with a deadline \<open>d\<close> ms after \<open>n1\<close>.\<close>

lemma pulse_clock:
  fixes n1 n2 :: nat
  assumes "0 < unat d \<and> unat d \<le> 1000" and "n1 \<le> n2" and "n2 < n1 + 2 ^ 31 * 1000"
  shows "sint (millis n2 - (millis n1 + d)) \<ge> 0 \<longleftrightarrow> unat d \<le> n2 div 1000 - n1 div 1000"
proof -
  define q where "q = n2 div 1000 - n1 div 1000"
  have q: "q \<le> 2147483648" using assms(2,3) unfolding q_def by simp
  have e: "unat (elapsedMs n2 (millis n1)) = q"
    unfolding q_def using assms(2) q [unfolded q_def] by (intro unat_elapsed) simp_all
  have eq: "millis n2 - (millis n1 + d) = elapsedMs n2 (millis n1) - d"
    by (simp add: elapsedMs_def diff_diff_add)
  have sub: "unat (elapsedMs n2 (millis n1) - d) = (if unat d \<le> q then q - unat d else q + 2 ^ 32 - unat d)"
    using unat_sub_if' [of "elapsedMs n2 (millis n1)" d] unfolding e by simp
  have "unat (elapsedMs n2 (millis n1) - d) < 2147483648 \<longleftrightarrow> unat d \<le> q"
    unfolding sub using q assms(1) by auto
  then show ?thesis by (simp add: sint_nonneg_iff_u32 eq q_def)
qed

lemma service_ends:
  "sint (mmMillis m - pulseOutputEndsAtMs m) \<ge> 0 \<Longrightarrow> pulseOutputActive m \<Longrightarrow>
     \<not> pulseOutputActive (serviceFirmwarePulseDrive env m)"
  by (simp add: serviceFirmwarePulseDrive_def Let_def)

lemma abort_ends [simp]: "\<not> pulseOutputActive (abortFirmwarePulseIfActive env m)"
  by (simp add: abortFirmwarePulseIfActive_def Let_def)

lemma released_fields [simp]:
  "pulseOutputActive (noteActivatorReleased m) = pulseOutputActive m"
  "pulseOutputEndsAtMs (noteActivatorReleased m) = pulseOutputEndsAtMs m"
  "firmwarePulsePending (noteActivatorReleased m) = firmwarePulsePending m"
  "mmMillis (noteActivatorReleased m) = mmMillis m"
  "mmClosed (noteActivatorReleased m) = mmClosed m"
  by (simp_all add: noteActivatorReleased_def mmMillis_def)

lemma apply_ends:
  assumes "sint (mmMillis m - pulseOutputEndsAtMs m) \<ge> 0" and "pulseOutputActive m"
  shows "\<not> pulseOutputActive (applyMomentaryRelayDrive env m)"
  using assms service_ends
  by (auto simp: applyMomentaryRelayDrive_def mayForwardActivatorOn_def Let_def)

text \<open>Before its deadline the drive ends a pulse only under a press that takes the output over.\<close>

lemma circuit_pulse [simp]: "pulseOutputActive (openK1 env m) = pulseOutputActive m"
  by (simp add: openK1_def mmCircuit_def split_beta)

lemma apply_holds:
  assumes "sint (mmMillis m - pulseOutputEndsAtMs m) < 0" and "pulseOutputActive m"
    and "\<not> pulseOutputActive (applyMomentaryRelayDrive env m)"
  shows "\<not> mmRinseActuationActive m \<and> momentaryPhysicalOn m \<and> \<not> mmDriveSuppressedThisHold m"
proof -
  have "pulseOutputActive (serviceFirmwarePulseDrive env m')"
    if "sint (mmMillis m' - pulseOutputEndsAtMs m') < 0" "pulseOutputActive m'" for m'
    using that by (simp add: serviceFirmwarePulseDrive_def)
  note held = this [OF assms(1,2)] this [of "noteActivatorReleased m"]
  show ?thesis
    using assms held by (auto simp: applyMomentaryRelayDrive_def Let_def split: if_splits prod.splits)
qed

lemma apply_physical [simp]: "momentaryPhysicalOn (applyMomentaryRelayDrive env m) = momentaryPhysicalOn m"
proof -
  have s: "momentaryPhysicalOn (serviceFirmwarePulseDrive env m') = momentaryPhysicalOn m'" for m'
    by (simp add: serviceFirmwarePulseDrive_def emitFirmwarePulse_def Let_def split: prod.split)
      (auto simp: mmCircuit_def split: prod.splits)
  have a: "momentaryPhysicalOn (abortFirmwarePulseIfActive env m') = momentaryPhysicalOn m'" for m'
    by (simp add: abortFirmwarePulseIfActive_def Let_def)
  show ?thesis
    by (simp add: applyMomentaryRelayDrive_def mayForwardActivatorOn_def noteActivatorReleased_def s a Let_def)
qed

text \<open>
  Property C14. A synthetic pulse is a bounded press. Its length, fixed when it begins, is between
  50 ms and one second. However many operations later, as long as it is the pulse being output:
  a sample taken before that length has passed leaves it on, unless the user presses the switch
  then, with the hold not suppressed and no rinse actuation running, which takes the output over;
  and the first sample taken when the length has passed ends it and leaves K1 open, unless a
  permitted press holds it.
\<close>

theorem pulse_is_bounded:
  assumes "relay_wf (mmK1 m2)"
    and "emitFirmwarePulse env k m = (True, m1)" and "\<not> pulseOutputActive m" and "pulseOutputActive m1"
    and "pulseOutputActive m2" and "pulseOutputEndsAtMs m2 = pulseOutputEndsAtMs m1"
    and "nowUs (mmK1 m1) \<le> nowUs (mmK1 m2)" and "nowUs (mmK1 m2) < nowUs (mmK1 m1) + 2 ^ 31 * 1000"
  shows "(let len = unat (pulseOutputEndsAtMs m1 - mmMillis m1);
        passed = nowUs (mmK1 m2) div 1000 - nowUs (mmK1 m1) div 1000; m3 = mmSampleInput env' m2 in
      50 \<le> len \<and> len \<le> 1000 \<and>
      (len \<le> passed \<longrightarrow> \<not> pulseOutputActive m3 \<and> (mmClosed m3 \<longrightarrow> permittedPress m3)) \<and>
      (passed < len \<longrightarrow> pulseOutputActive m3 \<or>
         momentaryPhysicalOn m3 \<and> \<not> mmDriveSuppressedThisHold m2 \<and> \<not> mmRinseActuationActive m2))"
proof -
  obtain d where d: "pulseOutputEndsAtMs m1 = mmMillis m1 + d" "50 \<le> unat d" "unat d \<le> 1000"
    using assms(2-4) pulseDuration_bounds
    by (auto simp: emitFirmwarePulse_def mmMillis_def split: if_splits prod.splits)
  let ?q = "debounced (sampleReed m2)"
  have v: "driveView (sampleReed m2) = driveView m2" by simp
  have q: "mmK1 ?q = mmK1 m2" "pulseOutputEndsAtMs ?q = pulseOutputEndsAtMs m2" "pulseOutputActive ?q"
    "mmDriveSuppressedThisHold ?q = mmDriveSuppressedThisHold m2" "mmRinseActuationActive ?q = mmRinseActuationActive m2"
    using driveView_eq [OF v] assms(5) by (simp_all add: debounced_def debounce_frame)
  have out: "pulseOutputActive (mmSampleInput env' m2) = pulseOutputActive (applyMomentaryRelayDrive env' ?q)"
    "momentaryPhysicalOn (mmSampleInput env' m2) = momentaryPhysicalOn ?q"
    using driveView_eq(8,4) [OF input_view, of env' "sampleReed m2"] by (simp_all add: mmSampleInput_def)
  have c: "sint (mmMillis ?q - pulseOutputEndsAtMs ?q) \<ge> 0 \<longleftrightarrow>
      unat d \<le> nowUs (mmK1 m2) div 1000 - nowUs (mmK1 m1) div 1000"
    using pulse_clock [OF _ assms(7,8), of d] d assms(6) by (simp add: q mmMillis_def relayMillis_def)
  have "relay_wf (mmK1 ?q)" using assms(1) q(1) by simp
  from apply_cause [OF this, of env'] have cause: "closedForCause (mmSampleInput env' m2)"
    using cause_view [OF input_view] by (simp add: mmSampleInput_def)
  show ?thesis
  proof (cases "unat d \<le> nowUs (mmK1 m2) div 1000 - nowUs (mmK1 m1) div 1000")
    case True
    then have "\<not> pulseOutputActive (mmSampleInput env' m2)"
      using apply_ends [OF _ q(3)] c out(1) by simp
    then show ?thesis using cause d True by (auto simp: closedForCause_def Let_def)
  next
    case False
    then have "sint (mmMillis ?q - pulseOutputEndsAtMs ?q) < 0" using c by simp
    from apply_holds [OF this q(3), of env'] show ?thesis
      using out q(4,5) d False by (auto simp: Let_def)
  qed
qed

theorem pulse_is_bounded_witness:
  "\<not> pulseOutputActive (mmSampleInput okDrives
     (pulsingMomentary\<lparr>mmK1 := (mmK1 pulsingMomentary)\<lparr>nowUs := nowUs (mmK1 pulsingMomentary) + 1500000\<rparr>\<rparr>))"
proof -
  have "emitFirmwarePulse okDrives PULSE_START idleMomentary = (True, pulsingMomentary)"
    using pulsingMomentary_facts(1)
    by (auto simp: pulsingMomentary_def emitFirmwarePulse_def idleMomentary_def momentary0_def mmCircuit_def
        split: prod.splits if_splits)
  moreover have "relay_wf ((mmK1 pulsingMomentary)\<lparr>nowUs := n\<rparr>)" for n
    using pulsingMomentary_facts(3) by (auto simp: relay_wf_def)
  moreover have "unat (pulseOutputEndsAtMs pulsingMomentary - mmMillis pulsingMomentary) = 300"
    by (simp add: pulsingMomentary_facts(10))
  moreover have "300 \<le> (n + 1500000) div 1000 - n div 1000" for n :: nat by linarith
  ultimately show ?thesis
    using pulse_is_bounded [where m = idleMomentary and env = okDrives and k = PULSE_START and env' = okDrives
        and ?m1.0 = pulsingMomentary
        and ?m2.0 = "pulsingMomentary\<lparr>mmK1 := (mmK1 pulsingMomentary)\<lparr>nowUs := nowUs (mmK1 pulsingMomentary) + 1500000\<rparr>\<rparr>"]
      pulsingMomentary_facts
    by (simp add: idleMomentary_def momentary0_def Let_def)
qed


section \<open>A stopped machine is left alone\<close>

text \<open>
  What can happen to a machine whose switch nobody touches: loop passes with any reed
  level, services, stop requests, polls, and any task of the driver that does not close.
\<close>

datatype unattended =
    SamplePass drives nat bool | ServicePass drives | StopRequest drives | PollPass
  | K1Task relay_op

fun k1Task :: "relay_op \<Rightarrow> bool" where
  "k1Task (SetCircuit io is closed limit purpose) = False"
| "k1Task (PromoteBackflush io is g) = False"
| "k1Task _ = True"

fun unattendedStep :: "unattended \<Rightarrow> momentary \<Rightarrow> momentary" where
  "unattendedStep (SamplePass env us reed) m =
     mmSampleInput env (m\<lparr>mmK1 := (mmK1 m)\<lparr>nowUs := nowUs (mmK1 m) + us\<rparr>, mmPinOn := False, mmReedPinOn := reed\<rparr>)"
| "unattendedStep (ServicePass env) m = mmService env m"
| "unattendedStep (StopRequest env) m = snd (mmRequestStop env m)"
| "unattendedStep PollPass m = snd (mmPollIntention m)"
| "unattendedStep (K1Task op) m = (if k1Task op then m\<lparr>mmK1 := relayOp op (mmK1 m)\<rparr> else m)"

definition leftAlone :: "momentary \<Rightarrow> bool" where
  "leftAlone m \<longleftrightarrow> \<not> mmClosed m \<and> \<not> pulseOutputActive m \<and> \<not> firmwarePulsePending m \<and>
     \<not> momentaryPhysicalOn m \<and> \<not> mmRinseActuationActive m"

definition stopIssued :: "momentary \<Rightarrow> bool" where
  "stopIssued m \<longleftrightarrow> momentaryFirmwareStopIssued m \<and> \<not> momentaryUserStopThisCycle m \<and>
     \<not> momentaryStopRetryPending m \<and> \<not> momentaryRawOn m \<and> \<not> momentaryPressHeld m"

lemma left_view: "driveView m = driveView m' \<Longrightarrow> leftAlone m = leftAlone m'"
  using driveView_eq [of m m'] by (simp add: leftAlone_def)

lemma left_apply: "leftAlone m \<Longrightarrow> applyMomentaryRelayDrive env m = noteActivatorReleased m"
  by (simp add: applyMomentaryRelayDrive_def leftAlone_def openK1_def Let_def)

lemma left_released [simp]:
  "leftAlone (noteActivatorReleased m) = leftAlone m" "stopIssued (noteActivatorReleased m) = stopIssued m"
  by (simp_all add: leftAlone_def stopIssued_def noteActivatorReleased_def)

lemma issued_reed [simp]:
  "stopIssued (sampleReed m) = stopIssued m" "stopIssued (clearReedAssume m) = stopIssued m"
  "stopIssued (beginReedAssume a m) = stopIssued m" "stopIssued (latchMomentaryElapsed m) = stopIssued m"
  "stopIssued (m\<lparr>momentaryLogicalRunActive := b\<rparr>) = stopIssued m" "stopIssued (m\<lparr>mmTurnedOff := b\<rparr>) = stopIssued m"
  "stopIssued (m\<lparr>momentarySkipFirmwareStopPulse := b\<rparr>) = stopIssued m"
  by (simp_all add: sampleReed_def clearReedAssume_def beginReedAssume_def latchMomentaryElapsed_def
      stopIssued_def Let_def)

lemma issued_window [simp]: "stopIssued (serviceReedAssumeWindow m) = stopIssued m"
  "driveView (serviceReedAssumeWindow m) = driveView m"
  by (simp_all add: serviceReedAssumeWindow_def Let_def split: ReedAssume.split)

lemma issued_noteStop: "stopIssued m \<Longrightarrow> stopIssued (noteMomentaryLogicalStop m)"
  by (simp add: noteMomentaryLogicalStop_def Let_def) (simp add: stopIssued_def)

lemma issued_not_allowed: "stopIssued m \<Longrightarrow> \<not> machineAllowsFirmwareStopPulse m"
  by (simp add: stopIssued_def machineAllowsFirmwareStopPulse_def)

lemma left_trip: "leftAlone m \<Longrightarrow> leftAlone (mmTrip env f h o' l m)" "stopIssued m \<Longrightarrow> stopIssued (mmTrip env f h o' l m)"
  by (simp_all add: leftAlone_def stopIssued_def mmTrip_def mmClosed_def relayCircuitClosed_def)

lemma left_walls:
  assumes "leftAlone m" "stopIssued m"
  shows "leftAlone (serviceLogicalRunWalls env m) \<and> stopIssued (serviceLogicalRunWalls env m)"
proof -
  have e: "leftAlone (endRunAtWall env q) \<and> stopIssued (endRunAtWall env q)" if "leftAlone q" "stopIssued q" for q
    using that issued_not_allowed left_view [of "(latchMomentaryElapsed q)\<lparr>momentaryLogicalRunActive := False\<rparr>" q]
    by (simp add: endRunAtWall_def Let_def)
  show ?thesis
    using assms e [OF left_trip(1) [OF assms(1)] left_trip(2) [OF assms(2)]]
    by (simp add: serviceLogicalRunWalls_def Let_def)
qed

lemma left_sample:
  assumes "leftAlone m" "stopIssued m" "\<not> mmPinOn m"
  shows "leftAlone (mmSampleInput env m) \<and> stopIssued (mmSampleInput env m)"
proof -
  have k: "momentaryRawOn (sampleReed m) = momentaryRawOn m" "mmPinOn (sampleReed m) = mmPinOn m"
    by (simp_all add: sampleReed_def Let_def)
  have l: "leftAlone (sampleReed m)" "stopIssued (sampleReed m)"
    using assms left_view [OF sampleReed_view] by simp_all
  define q where "q = (sampleReed m)\<lparr>mmTurnedOn := False, mmTurnedOff := False,
     momentaryUserStopThisCycle := False, momentaryStartEdgeThisCycle := False,
     momentaryRinseRequested := False\<rparr>"
  have q: "leftAlone q" "stopIssued q" "\<not> momentaryRawOn q" "\<not> mmPinOn q" "\<not> momentaryPhysicalOn q"
    using l assms(2,3) k by (simp_all add: q_def leftAlone_def stopIssued_def mmClosed_def)
  then have d: "debounceSwitch q = (False, False, q\<lparr>mmRawActivatorOn := False\<rparr>)"
    by (simp add: debounceSwitch_def Let_def)
  let ?r = "noteActivatorReleased (q\<lparr>mmRawActivatorOn := False\<rparr>)"
  have r: "leftAlone (q\<lparr>mmRawActivatorOn := False\<rparr>)" "stopIssued (q\<lparr>mmRawActivatorOn := False\<rparr>)"
    using q by (simp_all add: leftAlone_def stopIssued_def mmClosed_def)
  then have "\<not> momentaryPressHeld ?r" by (simp add: stopIssued_def noteActivatorReleased_def)
  then have "mmSampleInput env m = ?r"
    using left_apply [OF r(1), of env]
    by (simp add: mmSampleInput_def mmUpdateActivatorInput_def q_def [symmetric] d longHold_def
        disqualifiedHold_def Let_def)
  then show ?thesis using r by simp
qed

lemma left_service:
  assumes "leftAlone m" "stopIssued m"
  shows "leftAlone (mmService env m) \<and> stopIssued (mmService env m)"
proof -
  have w: "leftAlone (serviceReedAssumeWindow m)" "stopIssued (serviceReedAssumeWindow m)"
    using assms left_view [OF issued_window(2)] by simp_all
  let ?r = "serviceLogicalRunWalls env (noteActivatorReleased (serviceReedAssumeWindow m))"
  have r: "leftAlone ?r" "stopIssued ?r" using left_walls [of "noteActivatorReleased (serviceReedAssumeWindow m)" env] w
    by simp_all
  then have "\<not> momentaryStopRetryPending ?r" by (simp add: stopIssued_def)
  then show ?thesis using r by (simp add: mmService_def left_apply [OF w(1)] Let_def)
qed

lemma left_stop:
  assumes "leftAlone m" "stopIssued m"
  shows "leftAlone (snd (mmRequestStop env m)) \<and> stopIssued (snd (mmRequestStop env m))"
proof -
  define q where "q = (latchMomentaryElapsed m)\<lparr>momentaryLogicalRunActive := False,
    momentarySkipFirmwareStopPulse := False\<rparr>"
  have q: "leftAlone q" "stopIssued q"
    using assms left_view [of q m] by (simp_all add: q_def)
  have a: "abortFirmwarePulseIfActive env q = q\<lparr>firmwarePulsePendingReadyAtMs := 0\<rparr>"
    using q(1) by (simp add: abortFirmwarePulseIfActive_def leftAlone_def Let_def)
  have s: "leftAlone (noteMomentaryLogicalStop q')" "stopIssued (noteMomentaryLogicalStop q')"
    if "leftAlone q'" "stopIssued q'" for q'
    using that issued_noteStop left_view [OF note_views(2)] by simp_all
  have ra: "leftAlone (q\<lparr>firmwarePulsePendingReadyAtMs := 0\<rparr>)" "stopIssued (q\<lparr>firmwarePulsePendingReadyAtMs := 0\<rparr>)"
    using q by (simp_all add: leftAlone_def stopIssued_def)
  have "snd (mmRequestStop env m) = noteActivatorReleased (noteMomentaryLogicalStop q) \<or>
      snd (mmRequestStop env m) = noteActivatorReleased (noteMomentaryLogicalStop (q\<lparr>firmwarePulsePendingReadyAtMs := 0\<rparr>))"
    using q issued_not_allowed [OF q(2)] left_apply [OF s(1) [OF q]] left_apply [OF s(1) [OF ra]] a
    by (simp add: mmRequestStop_def q_def [symmetric] leftAlone_def Let_def)
  then show ?thesis using s [OF q] s [OF ra] by auto
qed

lemma left_task: "k1Task op \<Longrightarrow> \<not> circuitClosed r \<Longrightarrow> \<not> circuitClosed (relayOp op r)"
  using marker_step_others [of r] marker_step_service [of r] marker_step_interfere [of r] marker_step_trip [of r]
  by (cases op) (auto simp: marker_step_def)

lemma left_step:
  assumes "leftAlone m" "stopIssued m"
  shows "leftAlone (unattendedStep x m) \<and> stopIssued (unattendedStep x m)"
proof (cases x)
  case (SamplePass env us reed)
  let ?m = "m\<lparr>mmK1 := (mmK1 m)\<lparr>nowUs := nowUs (mmK1 m) + us\<rparr>, mmPinOn := False, mmReedPinOn := reed\<rparr>"
  have "leftAlone ?m" "stopIssued ?m" using assms by (simp_all add: leftAlone_def stopIssued_def mmClosed_def relayCircuitClosed_def)
  then show ?thesis using SamplePass left_sample [of ?m env] by simp
next
  case PollPass
  then show ?thesis using assms by (simp add: mmPollIntention_def Let_def) (simp add: leftAlone_def stopIssued_def mmClosed_def)
next
  case (K1Task op)
  then show ?thesis using assms left_task [of op "mmK1 m"]
    by (auto simp: leftAlone_def stopIssued_def mmClosed_def relayCircuitClosed_def)
qed (use assms left_service left_stop in auto)

text \<open>
  A momentary machine toggles on every pulse, so a second stop pulse would
  start it again. Once a stop was issued and its pulse is over, nothing the firmware does
  by itself closes K1 or begins a pulse: not loop passes with any reed level, not services
  with their walls and retries, not repeated stop requests, not the driver's own tasks.
\<close>

lemma stopped_machine_left_alone:
  assumes "leftAlone m" and "stopIssued m"
  shows "\<not> mmClosed (fold unattendedStep xs m) \<and> \<not> pulseOutputActive (fold unattendedStep xs m)"
proof -
  have "leftAlone (fold unattendedStep xs m) \<and> stopIssued (fold unattendedStep xs m)"
    using assms by (induction xs arbitrary: m) (simp_all add: left_step)
  then show ?thesis by (simp add: leftAlone_def)
qed

lemma stopped_machine_left_alone_witness:
  "\<not> mmClosed (fold unattendedStep [SamplePass okDrives 40000 True, ServicePass okDrives, StopRequest okDrives]
     (idleMomentary\<lparr>momentaryFirmwareStopIssued := True\<rparr>))"
  by (rule conjunct1 [OF stopped_machine_left_alone])
    (simp_all add: leftAlone_def stopIssued_def idleMomentary_def momentary0_def mmClosed_def
      relayCircuitClosed_def bootedRelay_facts)


section \<open>The reed decides\<close>

lemma confirm_bound: "runtimeReedConfirmTimeoutMs c \<le> MAX_REED_CONFIRM_TIMEOUT_MS"
  using scaled_bounds [of MIN_REED_CONFIRM_TIMEOUT_MS COMPILED_REED_CONFIRM_TIMEOUT_MS MAX_REED_CONFIRM_TIMEOUT_MS 100
      "mcReedConfirmTimeoutHundredMs c"]
  by (simp add: runtimeReedConfirmTimeoutMs_def MIN_REED_CONFIRM_TIMEOUT_MS_def
      COMPILED_REED_CONFIRM_TIMEOUT_MS_def MAX_REED_CONFIRM_TIMEOUT_MS_def)

lemma settled_sample:
  assumes "mmReedPinOn m = reedRawOn m" and "REED_DEBOUNCE_MS \<le> mmElapsed (reedChangedAtMs m) m"
  shows "reedOn (sampleReed m) = mmReedPinOn m"
  using assms by (auto simp: sampleReed_def Let_def)

lemma sample_keeps [simp]:
  "reedAssume (sampleReed m) = reedAssume m" "reedAssumeAtMs (sampleReed m) = reedAssumeAtMs m"
  "mmConfig (sampleReed m) = mmConfig m" "mmElapsed t (sampleReed m) = mmElapsed t m"
  "momentaryLogicalRunActive (sampleReed m) = momentaryLogicalRunActive m" "mmTurnedOff (sampleReed m) = mmTurnedOff m"
  by (simp_all add: sampleReed_def mmElapsed_def Let_def)

text \<open>
  Outside the window after an edge the reed alone decides: whatever was
  assumed and whatever timeout byte is configured, five seconds after the edge a service
  that sees a settled reed reports exactly the reed's level, RUNNING or IDLE, confirmed;
  and a start that the reed never confirmed ends the logical run and is reported as a stop.
\<close>

lemma reed_decides:
  assumes "mmReedPinOn m = reedRawOn m" and "REED_DEBOUNCE_MS \<le> mmElapsed (reedChangedAtMs m) m"
    and "MAX_REED_CONFIRM_TIMEOUT_MS \<le> mmElapsed (reedAssumeAtMs m) m"
  shows "mmRunState (serviceReedAssumeWindow m) = (if mmReedPinOn m then RUNNING else MACHINE_IDLE) \<and>
    (reedAssume m = ASSUME_ON \<longrightarrow> \<not> mmReedPinOn m \<longrightarrow>
       \<not> momentaryLogicalRunActive (serviceReedAssumeWindow m) \<and> mmTurnedOff (serviceReedAssumeWindow m))"
proof -
  have "reedConfirmOver (sampleReed m)"
    using assms(3) confirm_bound [of "mmConfig m"] by (simp add: reedConfirmOver_def)
  then show ?thesis
    using settled_sample [OF assms(1,2)]
    by (cases "reedAssume m")
      (auto simp: serviceReedAssumeWindow_def Let_def mmRunState_def clearReedAssume_def)
qed

definition unconfirmedStart :: momentary where
  "unconfirmedStart = idleMomentary\<lparr>mmK1 := (bootedRelay False)\<lparr>nowUs := 6000000\<rparr>, reedAssume := ASSUME_ON,
     momentaryLogicalRunActive := True\<rparr>"

lemma reed_decides_witness:
  "mmRunState (serviceReedAssumeWindow unconfirmedStart) = MACHINE_IDLE \<and>
   mmTurnedOff (serviceReedAssumeWindow unconfirmedStart)"
  using reed_decides [of unconfirmedStart]
  by (simp add: unconfirmedStart_def idleMomentary_def momentary0_def mmElapsed_def relayElapsed_def elapsedMs_def
      millis_def REED_DEBOUNCE_MS_def MAX_REED_CONFIRM_TIMEOUT_MS_def)

section \<open>The walls\<close>

text \<open>
  A hold that is disqualified while the machine runs restores the logical run with the
  start time of the last one the firmware saw, which may be long ago: a run started before
  boot or one the brew logic never accepted. The walls then trip at once, in the pass that
  restores it, and open K1 under the pressed switch.
\<close>

lemma endRun_pressed:
  "momentaryPhysicalOn m \<Longrightarrow> mmK1 (endRunAtWall env m) = mmK1 m"
  by (simp add: endRunAtWall_def machineAllowsFirmwareStopPulse_def latchMomentaryElapsed_def Let_def)

lemma expired_wall:
  assumes "momentaryLogicalRunActive m" and "momentaryPhysicalOn m"
    and "HARD_MAX_CIRCUIT_CLOSED_MS \<le> mmElapsed (momentaryLogicalRunStartedAtMs m) m"
  shows "relaySafetyState (mmK1 (serviceLogicalRunWalls env m)) = TRIPPED \<and>
    relaySafetyFault (mmK1 (serviceLogicalRunWalls env m)) = HARD_LIMIT"
proof -
  have "momentaryPhysicalOn (mmTrip env HARD_LIMIT True False False m)" using assms(2) by (simp add: mmTrip_def)
  from endRun_pressed [OF this] show ?thesis
    using assms by (simp add: serviceLogicalRunWalls_def mmTrip_def Let_def)
qed

theorem long_hold_trips_stale_run:
  assumes "mcStartOnPress (mmConfig m)" "momentaryGesturePending m" "momentaryPressHeld m" "\<not> idleRinseHold m"
    and "runtimeMaxSinglePressMs (mmConfig m) < mmElapsed (momentaryPressStartedAtMs m) m"
    and "momentaryGestureRestoreRunning m" and "momentaryPhysicalOn m"
    and "HARD_MAX_CIRCUIT_CLOSED_MS \<le> mmElapsed (momentaryGesturePreStartedAtMs m) m"
  shows "relaySafetyState (mmK1 (serviceLogicalRunWalls env (disqualifiedHold m))) = TRIPPED \<and>
    relaySafetyFault (mmK1 (serviceLogicalRunWalls env (disqualifiedHold m))) = HARD_LIMIT"
proof (rule expired_wall)
  note d = disqualifiedHold_def revertDisqualifiedSinglePress_def noteMomentaryDisqualifiedPress_def
    beginReedAssume_def Let_def
  show "momentaryPhysicalOn (disqualifiedHold m)"
    using driveView_eq(4) [OF gesture_views(3), of m] assms(7) by simp
  show "momentaryLogicalRunActive (disqualifiedHold m)"
    using assms(1-6) by (simp add: d)
  have "momentaryLogicalRunStartedAtMs (sampleReed q) = momentaryLogicalRunStartedAtMs q" for q
    by (simp add: sampleReed_def Let_def)
  then show "HARD_MAX_CIRCUIT_CLOSED_MS \<le> mmElapsed (momentaryLogicalRunStartedAtMs (disqualifiedHold m)) (disqualifiedHold m)"
    using assms(1-6,8) driveView_eq(1) [OF gesture_views(3), of m] by (simp add: d mmElapsed_def)
qed

text \<open>The same trip takes a LOCKOUT back to TRIPPED, from which a close is admitted again.\<close>

theorem wall_demotes_lockout:
  assumes "relaySafetyState (mmK1 m) = LOCKOUT" and "momentaryLogicalRunActive m" and "momentaryPhysicalOn m"
    and "HARD_MAX_CIRCUIT_CLOSED_MS \<le> mmElapsed (momentaryLogicalRunStartedAtMs m) m"
  shows "relaySafetyState (mmK1 (serviceLogicalRunWalls env m)) = TRIPPED"
  using expired_wall [OF assms(2-4)] by blast

end
