(* ===== verification/Corridor_Line.thy ===== *)
theory Corridor_Line
  imports Obw_Prelude "HOL-Library.Signed_Division"
begin

text \<open>
  The cut line of \<open>src/OpenBrewByWeightCorridor.h\<close>: the weight at which a shot is stopped as
  a function of shot time, and the solver for the time at which a projected weight meets it.
  The C++ code computes in \<open>int32_t\<close> and \<open>int64_t\<close>; the model computes in unbounded integers
  with truncating division (\<open>sdiv\<close>) and writes out each narrowing cast (\<open>toI32\<close>). That no
  signed operation overflows for parameters in range is a theorem, so the two agree there.
\<close>

section \<open>Fixed-width signed integers\<close>

definition toI32 :: "int \<Rightarrow> int" where
  "toI32 x = (x + 2 ^ 31) mod 2 ^ 32 - 2 ^ 31"

definition fitsI32 :: "int \<Rightarrow> bool" where "fitsI32 x \<longleftrightarrow> - (2 ^ 31) \<le> x \<and> x < 2 ^ 31"
definition fitsI64 :: "int \<Rightarrow> bool" where "fitsI64 x \<longleftrightarrow> - (2 ^ 63) \<le> x \<and> x < 2 ^ 63"

lemma toI32_id [simp]: "fitsI32 x \<Longrightarrow> toI32 x = x"
  by (simp add: toI32_def fitsI32_def mod_pos_pos_trivial)

lemma sdiv_nonneg: "0 \<le> a \<Longrightarrow> 0 < b \<Longrightarrow> a sdiv b = a div (b::int)"
  by (cases "a = 0") (simp_all add: signed_divide_int_def)

lemma sdiv_bounds:
  fixes a b :: int
  assumes "0 \<le> a" "0 < b"
  shows "0 \<le> a sdiv b" "a sdiv b \<le> a"
  using assms div_le_dividend [of "nat a" "nat b"]
  by (simp_all add: sdiv_nonneg pos_imp_zdiv_nonneg_iff)
    (metis assms div_by_1 int_one_le_iff_zero_less zdiv_mono2 zero_less_one)

section \<open>Parameters\<close>

definition RAMP_MS :: int where "RAMP_MS = 5000"
definition MAX_LEAD_DG :: int where "MAX_LEAD_DG = 40"
definition STOP_LATENCY_MS :: int where "STOP_LATENCY_MS = 100"
definition MIN_PREDICTION_RATE_X100 :: int where "MIN_PREDICTION_RATE_X100 = 300"

record Params =
  goalDg :: int
  fastMarginDg :: int
  slowMarginDg :: int
  fastOn :: bool
  slowOn :: bool
  delayMs :: int
  fastBeforeMs :: int
  slowAfterMs :: int
  wallMs :: int
  rampMs :: int

definition params0 :: Params where
  "params0 = \<lparr> goalDg = 0, fastMarginDg = 0, slowMarginDg = 0, fastOn = False, slowOn = False,
     delayMs = 0, fastBeforeMs = 0, slowAfterMs = 0, wallMs = 0, rampMs = RAMP_MS \<rparr>"

definition ceilingDg :: "Params \<Rightarrow> int" where
  "ceilingDg p = goalDg p + (if fastOn p then fastMarginDg p else 0)"

definition floorDg :: "Params \<Rightarrow> int" where
  "floorDg p = goalDg p - (if slowOn p then slowMarginDg p else 0)"

definition fastRampStartMs :: "Params \<Rightarrow> int" where
  "fastRampStartMs p =
     (let a = (if fastBeforeMs p - rampMs p > delayMs p then fastBeforeMs p - rampMs p else delayMs p)
      in if a < fastBeforeMs p then a else fastBeforeMs p)"

definition slowRampEndMs :: "Params \<Rightarrow> int" where
  "slowRampEndMs p =
     (let b = (if slowAfterMs p + rampMs p < wallMs p then slowAfterMs p + rampMs p else wallMs p)
      in if b > slowAfterMs p then b else slowAfterMs p)"

definition cutLineDg :: "Params \<Rightarrow> int \<Rightarrow> int" where
  "cutLineDg p t =
     (let a = fastRampStartMs p in
      if t < fastBeforeMs p then
        if t < a then ceilingDg p
        else
          let d = fastBeforeMs p - a; n = t - a; margin = ceilingDg p - goalDg p in
          goalDg p + toI32 ((margin * (d * d * d - 3 * n * n * d + 2 * n * n * n)) sdiv (d * d * d))
      else if t < slowAfterMs p \<or> t = slowAfterMs p \<and> rampMs p > 0 then goalDg p
      else
        let b = slowRampEndMs p in
        if t \<ge> b then floorDg p
        else
          let d = b - slowAfterMs p; n = t - slowAfterMs p; margin = goalDg p - floorDg p in
          goalDg p - toI32 ((margin * (3 * n * n * d - 2 * n * n * n)) sdiv (d * d * d)))"

datatype EndReason =
    END_NONE | END_ACTIVATOR | SCALE_THRESHOLD | WEIGHT_ANOMALY | GLOBAL_LIMIT | CONFIGURED_WALL_LIMIT
  | SHORT_SHOT | RINSE_COMPLETE | WEB_STOP | PHYSICAL_OVERRIDE | WEB_HEARTBEAT_TIMEOUT
  | RELAY_SAFETY_FAILURE | FAST_EXTRACTION_MAX_WEIGHT | FAST_EXTRACTION_MIN_TIME
  | SLOW_EXTRACTION_MAX_TIME | SLOW_EXTRACTION_MIN_WEIGHT | AUTO_TO_MANUAL_GUARD | CUP_REMOVED
  | UNCONFIRMED_START | TOUCH_WEIGHT_FALLBACK

definition endReasonCode :: "EndReason \<Rightarrow> u8" where
  "endReasonCode r = (case r of
       END_NONE \<Rightarrow> 0 | END_ACTIVATOR \<Rightarrow> 1 | SCALE_THRESHOLD \<Rightarrow> 3 | WEIGHT_ANOMALY \<Rightarrow> 4
     | GLOBAL_LIMIT \<Rightarrow> 5 | CONFIGURED_WALL_LIMIT \<Rightarrow> 6 | SHORT_SHOT \<Rightarrow> 7 | RINSE_COMPLETE \<Rightarrow> 8
     | WEB_STOP \<Rightarrow> 9 | PHYSICAL_OVERRIDE \<Rightarrow> 10 | WEB_HEARTBEAT_TIMEOUT \<Rightarrow> 11
     | RELAY_SAFETY_FAILURE \<Rightarrow> 12 | FAST_EXTRACTION_MAX_WEIGHT \<Rightarrow> 13
     | FAST_EXTRACTION_MIN_TIME \<Rightarrow> 14 | SLOW_EXTRACTION_MAX_TIME \<Rightarrow> 15
     | SLOW_EXTRACTION_MIN_WEIGHT \<Rightarrow> 16 | AUTO_TO_MANUAL_GUARD \<Rightarrow> 17 | CUP_REMOVED \<Rightarrow> 18
     | UNCONFIRMED_START \<Rightarrow> 19 | TOUCH_WEIGHT_FALLBACK \<Rightarrow> 20)"

definition cutReason :: "Params \<Rightarrow> int \<Rightarrow> EndReason" where
  "cutReason p lineDg =
     (if lineDg > goalDg p then FAST_EXTRACTION_MAX_WEIGHT
      else if lineDg < goalDg p then SLOW_EXTRACTION_MIN_WEIGHT
      else SCALE_THRESHOLD)"

definition weightCutReason :: "u8 \<Rightarrow> bool" where
  "weightCutReason reason \<longleftrightarrow> reason = endReasonCode SCALE_THRESHOLD \<or>
     reason = endReasonCode FAST_EXTRACTION_MAX_WEIGHT \<or>
     reason = endReasonCode SLOW_EXTRACTION_MIN_WEIGHT"

definition tauMs :: "16 word \<Rightarrow> u32 \<Rightarrow> int" where
  "tauMs sensorLagMs momentaryStopPulseMs = uint sensorLagMs + STOP_LATENCY_MS + toI32 (uint momentaryStopPulseMs)"

definition leadDg :: "int \<Rightarrow> int \<Rightarrow> int" where
  "leadDg rateX100 tau =
     (let lead = (rateX100 * tau) sdiv 100000 in if lead > MAX_LEAD_DG then MAX_LEAD_DG else toI32 lead)"

section \<open>Parameters in range\<close>

text \<open>
  What \<open>RuntimeConfig\<close> validation guarantees of a recipe, and more than it needs: margins
  are not negative, the window is ordered, times are at most the hard cap and the ramp at
  most 20 s (the bound of the static assertion).
\<close>

definition params_ok :: "Params \<Rightarrow> bool" where
  "params_ok p \<longleftrightarrow> 0 \<le> goalDg p \<and> goalDg p \<le> 100000 \<and> 0 \<le> fastMarginDg p \<and> fastMarginDg p \<le> 100000 \<and>
     0 \<le> slowMarginDg p \<and> slowMarginDg p \<le> 100000 \<and> 0 \<le> delayMs p \<and> delayMs p \<le> 60000 \<and>
     0 \<le> fastBeforeMs p \<and> fastBeforeMs p \<le> slowAfterMs p \<and> slowAfterMs p \<le> 60000 \<and>
     0 \<le> wallMs p \<and> wallMs p \<le> 60000 \<and> 0 \<le> rampMs p \<and> rampMs p \<le> 20000"

text \<open>The smoothstep polynomial, its range and its monotonicity on a ramp of length d.\<close>

definition rise :: "int \<Rightarrow> int \<Rightarrow> int" where
  "rise d n = 3 * n * n * d - 2 * n * n * n"

lemma rise_mono:
  assumes "0 \<le> m" "m \<le> n" "n \<le> d"
  shows "rise d m \<le> rise d n"
proof -
  have eq: "rise d n - rise d m = (n - m) * (3 * d * (n + m) - 2 * (n * n + n * m + m * m))"
    by (simp add: rise_def algebra_simps)
  have "2 * (n * n + n * m + m * m) \<le> 3 * n * (n + m)"
  proof -
    have "m * m \<le> n * n" "m * m \<le> n * m" using assms by (simp_all add: mult_mono mult_right_mono)
    then show ?thesis by (simp add: algebra_simps)
  qed
  moreover have "3 * n * (n + m) \<le> 3 * d * (n + m)"
    using assms by (intro mult_right_mono) auto
  ultimately have "0 \<le> 3 * d * (n + m) - 2 * (n * n + n * m + m * m)" by linarith
  then have "0 \<le> (n - m) * (3 * d * (n + m) - 2 * (n * n + n * m + m * m))"
    using assms by (intro mult_nonneg_nonneg) auto
  then show ?thesis using eq by linarith
qed

lemma rise_range: "0 \<le> n \<Longrightarrow> n \<le> d \<Longrightarrow> 0 \<le> rise d n \<and> rise d n \<le> d * d * d"
  using rise_mono [of 0 n d] rise_mono [of n d d] by (simp add: rise_def algebra_simps)

lemma ramp_quotient:
  fixes margin k c :: int
  assumes "0 \<le> margin" "margin < 2 ^ 31" "0 < c" "0 \<le> k" "k \<le> c"
  shows "toI32 ((margin * k) sdiv c) = margin * k div c" "0 \<le> margin * k div c" "margin * k div c \<le> margin"
proof -
  have "margin * k \<le> margin * c" using assms by (simp add: mult_left_mono)
  then have "margin * k div c \<le> margin * c div c" by (rule zdiv_mono1 [OF _ assms(3)])
  also have "\<dots> = margin" using assms(3) by simp
  finally show u: "margin * k div c \<le> margin" .
  show l: "0 \<le> margin * k div c" using assms by (simp add: pos_imp_zdiv_nonneg_iff)
  have "(margin * k) sdiv c = margin * k div c" using assms by (simp add: sdiv_nonneg)
  then show "toI32 ((margin * k) sdiv c) = margin * k div c"
    using u l assms(2) by (simp add: fitsI32_def)
qed

lemma ramp_points:
  "fastRampStartMs p \<le> fastBeforeMs p" "slowAfterMs p \<le> slowRampEndMs p"
  by (simp_all add: fastRampStartMs_def slowRampEndMs_def Let_def)

lemma ramp_lengths:
  "params_ok p \<Longrightarrow> fastBeforeMs p - fastRampStartMs p \<le> rampMs p"
  "params_ok p \<Longrightarrow> slowRampEndMs p - slowAfterMs p \<le> rampMs p"
  by (simp_all add: params_ok_def fastRampStartMs_def slowRampEndMs_def Let_def)

lemma margins:
  assumes "params_ok p"
  shows "0 \<le> ceilingDg p - goalDg p" "ceilingDg p - goalDg p \<le> 100000"
    "0 \<le> goalDg p - floorDg p" "goalDg p - floorDg p \<le> 100000"
  using assms by (simp_all add: params_ok_def ceilingDg_def floorDg_def)

text \<open>The line in closed form on its five pieces.\<close>

lemma line_pieces:
  assumes "params_ok p"
  defines "a \<equiv> fastRampStartMs p" and "b \<equiv> slowRampEndMs p" and "t1 \<equiv> fastBeforeMs p" and "t2 \<equiv> slowAfterMs p"
  shows "t < a \<Longrightarrow> cutLineDg p t = ceilingDg p"
    and "a \<le> t \<Longrightarrow> t < t1 \<Longrightarrow> cutLineDg p t = goalDg p +
      (ceilingDg p - goalDg p) * ((t1 - a) * (t1 - a) * (t1 - a) - rise (t1 - a) (t - a))
        div ((t1 - a) * (t1 - a) * (t1 - a))"
    and "t1 \<le> t \<Longrightarrow> t < t2 \<or> t = t2 \<and> 0 < rampMs p \<Longrightarrow> cutLineDg p t = goalDg p"
    and "t1 \<le> t \<Longrightarrow> \<not> (t < t2 \<or> t = t2 \<and> 0 < rampMs p) \<Longrightarrow> t < b \<Longrightarrow> cutLineDg p t = goalDg p -
      (goalDg p - floorDg p) * rise (b - t2) (t - t2) div ((b - t2) * (b - t2) * (b - t2))"
    and "t1 \<le> t \<Longrightarrow> \<not> (t < t2 \<or> t = t2 \<and> 0 < rampMs p) \<Longrightarrow> b \<le> t \<Longrightarrow> cutLineDg p t = floorDg p"
proof -
  note m = margins [OF assms(1)]
  show "t < a \<Longrightarrow> cutLineDg p t = ceilingDg p"
    using ramp_points(1) [of p] by (simp add: cutLineDg_def a_def Let_def)
  show "t1 \<le> t \<Longrightarrow> t < t2 \<or> t = t2 \<and> 0 < rampMs p \<Longrightarrow> cutLineDg p t = goalDg p"
    by (auto simp: cutLineDg_def t1_def t2_def Let_def)
  show "t1 \<le> t \<Longrightarrow> \<not> (t < t2 \<or> t = t2 \<and> 0 < rampMs p) \<Longrightarrow> b \<le> t \<Longrightarrow> cutLineDg p t = floorDg p"
    by (auto simp: cutLineDg_def t1_def t2_def b_def Let_def)
  show "cutLineDg p t = goalDg p + (ceilingDg p - goalDg p) * ((t1 - a) * (t1 - a) * (t1 - a) - rise (t1 - a) (t - a))
        div ((t1 - a) * (t1 - a) * (t1 - a))" if "a \<le> t" "t < t1"
  proof -
    define d n where "d = t1 - a" and "n = t - a"
    have dn: "0 < d" "0 \<le> n" "n \<le> d" using that by (simp_all add: d_def n_def)
    then have r: "0 \<le> rise d n \<and> rise d n \<le> d * d * d" by (intro rise_range) auto
    have e: "d * d * d - 3 * n * n * d + 2 * n * n * n = d * d * d - rise d n" by (simp add: rise_def)
    have "cutLineDg p t = goalDg p + toI32 (((ceilingDg p - goalDg p) * (d * d * d - 3 * n * n * d + 2 * n * n * n))
        sdiv (d * d * d))"
      using that by (simp add: cutLineDg_def d_def n_def a_def t1_def Let_def)
    then show ?thesis
      unfolding e using ramp_quotient(1) [of "ceilingDg p - goalDg p" "d * d * d" "d * d * d - rise d n"] m r dn
      by (simp add: d_def [symmetric] n_def [symmetric])
  qed
  show "cutLineDg p t = goalDg p - (goalDg p - floorDg p) * rise (b - t2) (t - t2) div ((b - t2) * (b - t2) * (b - t2))"
    if "t1 \<le> t" "\<not> (t < t2 \<or> t = t2 \<and> 0 < rampMs p)" "t < b"
  proof -
    define d n where "d = b - t2" and "n = t - t2"
    have dn: "0 < d" "0 \<le> n" "n \<le> d" using that assms(1) by (auto simp: d_def n_def t1_def t2_def params_ok_def)
    then have r: "0 \<le> rise d n \<and> rise d n \<le> d * d * d" by (intro rise_range) auto
    have e: "3 * n * n * d - 2 * n * n * n = rise d n" by (simp add: rise_def)
    have "cutLineDg p t = goalDg p - toI32 (((goalDg p - floorDg p) * (3 * n * n * d - 2 * n * n * n)) sdiv (d * d * d))"
      using that by (auto simp: cutLineDg_def d_def n_def b_def t1_def t2_def Let_def)
    then show ?thesis
      unfolding e using ramp_quotient(1) [of "goalDg p - floorDg p" "d * d * d" "rise d n"] m r dn
      by (simp add: d_def [symmetric] n_def [symmetric])
  qed
qed

lemma line_high:
  assumes "params_ok p" "t < fastBeforeMs p"
  shows "goalDg p \<le> cutLineDg p t \<and> cutLineDg p t \<le> ceilingDg p"
proof (cases "t < fastRampStartMs p")
  case True
  then show ?thesis using line_pieces(1) [OF assms(1)] margins [OF assms(1)] by simp
next
  case False
  define d n where "d = fastBeforeMs p - fastRampStartMs p" and "n = t - fastRampStartMs p"
  have dn: "0 < d" "0 \<le> n" "n \<le> d" using False assms(2) by (simp_all add: d_def n_def)
  then have r: "0 \<le> rise d n \<and> rise d n \<le> d * d * d" by (intro rise_range) auto
  show ?thesis
    using line_pieces(2) [OF assms(1), of t] False assms(2) margins [OF assms(1)] dn r
      ramp_quotient(2,3) [of "ceilingDg p - goalDg p" "d * d * d" "d * d * d - rise d n"]
    by (simp add: d_def [symmetric] n_def [symmetric] not_less)
qed

lemma line_low:
  assumes "params_ok p" "fastBeforeMs p \<le> t"
  shows "floorDg p \<le> cutLineDg p t \<and> cutLineDg p t \<le> goalDg p"
proof -
  consider (flat) "t < slowAfterMs p \<or> t = slowAfterMs p \<and> 0 < rampMs p"
    | (ramp) "\<not> (t < slowAfterMs p \<or> t = slowAfterMs p \<and> 0 < rampMs p)" "t < slowRampEndMs p"
    | (bottom) "\<not> (t < slowAfterMs p \<or> t = slowAfterMs p \<and> 0 < rampMs p)" "slowRampEndMs p \<le> t"
    by linarith
  then show ?thesis
  proof cases
    case ramp
    define d n where "d = slowRampEndMs p - slowAfterMs p" and "n = t - slowAfterMs p"
    have dn: "0 < d" "0 \<le> n" "n \<le> d" using ramp by (auto simp: d_def n_def)
    then have r: "0 \<le> rise d n \<and> rise d n \<le> d * d * d" by (intro rise_range) auto
    show ?thesis
      using line_pieces(4) [OF assms ramp] margins [OF assms(1)] dn r
        ramp_quotient(2,3) [of "goalDg p - floorDg p" "d * d * d" "rise d n"]
      by (simp add: d_def [symmetric] n_def [symmetric])
  qed (use line_pieces(3,5) [OF assms] margins [OF assms(1)] in simp_all)
qed

lemma line_antitone:
  assumes "params_ok p" "s \<le> t"
  shows "cutLineDg p t \<le> cutLineDg p s"
proof -
  note m = margins [OF assms(1)]
  consider (across) "s < fastBeforeMs p" "fastBeforeMs p \<le> t" | (before) "t < fastBeforeMs p"
    | (after) "fastBeforeMs p \<le> s" by linarith
  then show ?thesis
  proof cases
    case across
    then show ?thesis using line_high [OF assms(1), of s] line_low [OF assms(1), of t] by linarith
  next
    case before
    show ?thesis
    proof (cases "s < fastRampStartMs p")
      case True
      then show ?thesis using line_pieces(1) [OF assms(1)] line_high [OF assms(1) before] by simp
    next
      case False
      define d a where "d = fastBeforeMs p - fastRampStartMs p" and "a = fastRampStartMs p"
      have "rise d (s - a) \<le> rise d (t - a)" "0 < d * d * d"
        using False before assms(2) by (auto intro!: rise_mono simp: d_def a_def)
      then have "(ceilingDg p - goalDg p) * (d * d * d - rise d (t - a)) div (d * d * d)
          \<le> (ceilingDg p - goalDg p) * (d * d * d - rise d (s - a)) div (d * d * d)"
        using m by (intro zdiv_mono1 mult_left_mono) auto
      then show ?thesis
        using line_pieces(2) [OF assms(1)] False before assms(2) by (simp add: d_def a_def not_less)
    qed
  next
    case after
    let ?flat = "\<lambda>x. x < slowAfterMs p \<or> x = slowAfterMs p \<and> 0 < rampMs p"
    consider (flat) "?flat s" | (bottom) "\<not> ?flat s" "slowRampEndMs p \<le> t"
      | (ramp) "\<not> ?flat s" "t < slowRampEndMs p" by linarith
    then show ?thesis
    proof cases
      case flat
      then show ?thesis
        using line_pieces(3) [OF assms(1) after] line_low [OF assms(1), of t] after assms(2) by simp
    next
      case bottom
      then show ?thesis
        using line_pieces(5) [OF assms(1), of t] line_low [OF assms(1) after] after assms(2) by auto
    next
      case ramp
      define d c where "d = slowRampEndMs p - slowAfterMs p" and "c = slowAfterMs p"
      have "rise d (s - c) \<le> rise d (t - c)" "0 < d * d * d"
        using ramp assms(2) by (auto intro!: rise_mono simp: d_def c_def)
      then have "(goalDg p - floorDg p) * rise d (s - c) div (d * d * d)
          \<le> (goalDg p - floorDg p) * rise d (t - c) div (d * d * d)"
        using m by (intro zdiv_mono1 mult_left_mono) auto
      moreover have "\<not> ?flat t" "s < slowRampEndMs p" using ramp assms(2) by auto
      ultimately show ?thesis
        using line_pieces(4) [OF assms(1)] ramp after assms(2) by (simp add: d_def c_def)
    qed
  qed
qed

text \<open>
  The cut line never rises during a shot: for a recipe in range it stays
  between floor and ceiling, it is exactly the target weight inside the window, and it is
  non-increasing in time, so a cup that has met it has met it for good.
\<close>

lemma cut_line_descends:
  assumes "params_ok p" and "s \<le> t"
  shows "cutLineDg p t \<le> cutLineDg p s \<and> floorDg p \<le> cutLineDg p t \<and> cutLineDg p t \<le> ceilingDg p \<and>
    (fastBeforeMs p \<le> t \<and> t < slowAfterMs p \<longrightarrow> cutLineDg p t = goalDg p)"
  using line_antitone [OF assms] line_high [OF assms(1), of t] line_low [OF assms(1), of t]
    margins [OF assms(1)] line_pieces(3) [OF assms(1), of t]
  by (cases "t < fastBeforeMs p") auto

definition exampleRecipe :: Params where
  "exampleRecipe = \<lparr> goalDg = 360, fastMarginDg = 40, slowMarginDg = 30, fastOn = True, slowOn = True,
     delayMs = 8000, fastBeforeMs = 25000, slowAfterMs = 30000, wallMs = 50000, rampMs = RAMP_MS \<rparr>"

lemma exampleRecipe_ok: "params_ok exampleRecipe"
  by (simp add: params_ok_def exampleRecipe_def RAMP_MS_def)

lemma cut_line_descends_witness:
  "cutLineDg exampleRecipe 27000 = 360 \<and> cutLineDg exampleRecipe 27000 \<le> cutLineDg exampleRecipe 21000"
  using cut_line_descends [OF exampleRecipe_ok, of 21000 27000] by (simp add: exampleRecipe_def)

section \<open>No overflow\<close>

text \<open>The largest intermediate values of \<open>cutLineDg\<close> in the order the code computes them.\<close>

lemma cube_bound: "0 \<le> x \<Longrightarrow> x \<le> m \<Longrightarrow> x * x * x \<le> m * m * (m :: int)"
  by (intro mult_mono) auto

lemma ramp_fits:
  fixes margin d n :: int
  assumes "0 \<le> margin" "margin \<le> 100000" "0 \<le> n" "n \<le> d" "d \<le> 20000"
  shows "fitsI64 (d * d * d)" "fitsI64 (3 * n * n * d)" "fitsI64 (2 * n * n * n)"
    "fitsI64 (margin * (d * d * d - 3 * n * n * d + 2 * n * n * n))"
    "fitsI64 (margin * (3 * n * n * d - 2 * n * n * n))"
proof -
  have c: "d * d * d \<le> 20000 * 20000 * 20000" using assms cube_bound [of d 20000] by auto
  have dn: "0 \<le> d * d * d" using assms by simp
  have p: "(2 :: int) ^ 63 = 9223372036854775808" by simp
  have "n * n * d \<le> d * d * d" "n * n * n \<le> d * d * d"
    using assms by (auto intro!: mult_mono)
  moreover have "0 \<le> n * n * d" "0 \<le> n * n * n" using assms by auto
  moreover have e: "3 * n * n * d = 3 * (n * n * d)" "2 * n * n * n = 2 * (n * n * n)" by simp_all
  ultimately show "fitsI64 (d * d * d)" "fitsI64 (3 * n * n * d)" "fitsI64 (2 * n * n * n)"
    using c dn unfolding e fitsI64_def p by (intro conjI; linarith)+
  have r: "0 \<le> rise d n" "rise d n \<le> d * d * d" using rise_range [of n d] assms by auto
  have k: "0 \<le> margin * y \<and> margin * y \<le> 100000 * (20000 * 20000 * 20000)" if "0 \<le> y" "y \<le> d * d * d" for y
    using that assms(1,2) c by (intro conjI mult_mono) auto
  have q: "d * d * d - 3 * n * n * d + 2 * n * n * n = d * d * d - rise d n" "3 * n * n * d - 2 * n * n * n = rise d n"
    by (simp_all add: rise_def)
  show "fitsI64 (margin * (d * d * d - 3 * n * n * d + 2 * n * n * n))"
    "fitsI64 (margin * (3 * n * n * d - 2 * n * n * n))"
    unfolding q using k [of "d * d * d - rise d n"] k [of "rise d n"] r by (simp_all add: fitsI64_def)
qed

end
