(* ===== verification/Corridor_Cut.thy ===== *)
theory Corridor_Cut
  imports Corridor_Line
begin

unbundle bit_operations_syntax

text \<open>
  The decisions of \<open>src/OpenBrewByWeightCorridor.h\<close> that use the cut line: when a projected
  weight crosses it, how a finished shot is judged, and when a shot whose scale was lost is
  stopped.
\<close>

section \<open>The crossing\<close>

text \<open>The lambda \<open>met\<close>: the weight projected to time t, with lead and drip offset, reaches f(t).\<close>

definition lineMet :: "Params \<Rightarrow> int \<Rightarrow> int \<Rightarrow> int \<Rightarrow> int \<Rightarrow> int \<Rightarrow> int \<Rightarrow> bool" where
  "lineMet p tk weightDgAtK rateX100 tau offsetDg t \<longleftrightarrow>
     weightDgAtK + (rateX100 * (t - tk)) sdiv 100000 + leadDg rateX100 tau + offsetDg \<ge> cutLineDg p t"

text \<open>The bisection loop; it returns the final \<open>hi\<close>.\<close>

function bisect :: "(int \<Rightarrow> bool) \<Rightarrow> int \<Rightarrow> int \<Rightarrow> int" where
  "bisect met lo hi =
     (if hi - lo > 1 then
        let mid = lo + (hi - lo) sdiv 2 in
        if met mid then bisect met lo mid else bisect met mid hi
      else hi)"
  by pat_completeness auto

lemma half_bounds:
  fixes d :: int
  shows "1 < d \<Longrightarrow> 1 \<le> d sdiv 2" "1 < d \<Longrightarrow> 2 * (d sdiv 2) \<le> d" "1 < d \<Longrightarrow> d \<le> 2 * (d sdiv 2) + 1"
    "1 < d \<Longrightarrow> d sdiv 2 < d"
  by (simp_all add: sdiv_nonneg)

termination bisect
  by (relation "measure (\<lambda>(met, lo, hi). nat (hi - lo))") (auto simp: half_bounds dest: half_bounds)

declare bisect.simps [simp del]

definition crossingMs :: "Params \<Rightarrow> int \<Rightarrow> int \<Rightarrow> int \<Rightarrow> int \<Rightarrow> int \<Rightarrow> int option" where
  "crossingMs p tk weightDgAtK rateX100 tau offsetDg =
     (if rateX100 < MIN_PREDICTION_RATE_X100 then None
      else
        let met = lineMet p tk weightDgAtK rateX100 tau offsetDg in
        if tk \<ge> wallMs p \<or> met tk then Some tk
        else if \<not> met (wallMs p) then Some (wallMs p)
        else Some (bisect met tk (wallMs p)))"

definition backstopThresholdDg :: "Params \<Rightarrow> int \<Rightarrow> int \<Rightarrow> int" where
  "backstopThresholdDg p t offsetDg = cutLineDg p t - offsetDg"

lemma bisect_first:
  assumes "lo < hi" "\<not> met lo" "met hi" "\<forall>s t. lo \<le> s \<longrightarrow> s \<le> t \<longrightarrow> met s \<longrightarrow> met t"
  shows "lo < bisect met lo hi \<and> bisect met lo hi \<le> hi \<and> met (bisect met lo hi) \<and>
    \<not> met (bisect met lo hi - 1)"
  using assms
proof (induction met lo hi rule: bisect.induct)
  case (1 met lo hi)
  show ?case
  proof (cases "hi - lo > 1")
    case False
    then have "hi = lo + 1" using "1.prems"(1) by simp
    then show ?thesis using "1.prems" by (simp add: bisect.simps)
  next
    case True
    let ?mid = "lo + (hi - lo) sdiv 2"
    have mid: "lo < ?mid" "?mid < hi" using half_bounds [of "hi - lo"] True by linarith+
    show ?thesis
    proof (cases "met ?mid")
      case m: True
      have "bisect met lo hi = bisect met lo ?mid"
        using True m by (subst bisect.simps) (simp add: Let_def)
      then show ?thesis using "1.IH"(1) [OF True refl m mid(1) "1.prems"(2) m "1.prems"(4)] mid by auto
    next
      case m: False
      have "bisect met lo hi = bisect met ?mid hi"
        using True m by (subst bisect.simps) (simp add: Let_def)
      moreover have "\<forall>s t. ?mid \<le> s \<longrightarrow> s \<le> t \<longrightarrow> met s \<longrightarrow> met t"
        using mid(1) "1.prems"(4) by (meson less_imp_le order_trans)
      ultimately show ?thesis using "1.IH"(2) [OF True refl m mid(2) m "1.prems"(3)] mid by auto
    qed
  qed
qed

text \<open>Each pass at least halves the interval up to rounding; 16 passes are enough for 65535 ms.\<close>

fun bisectPasses :: "nat \<Rightarrow> (int \<Rightarrow> bool) \<Rightarrow> int \<Rightarrow> int \<Rightarrow> int option" where
  "bisectPasses 0 met lo hi = (if hi - lo > 1 then None else Some hi)"
| "bisectPasses (Suc k) met lo hi =
     (if hi - lo > 1 then
        let mid = lo + (hi - lo) sdiv 2 in
        if met mid then bisectPasses k met lo mid else bisectPasses k met mid hi
      else Some hi)"

lemma bisect_passes: "hi - lo \<le> 2 ^ k \<Longrightarrow> bisectPasses k met lo hi = Some (bisect met lo hi)"
proof (induction k arbitrary: lo hi)
  case 0
  then show ?case by (simp add: bisect.simps)
next
  case (Suc k)
  let ?mid = "lo + (hi - lo) sdiv 2"
  show ?case
  proof (cases "hi - lo > 1")
    case True
    have "?mid - lo \<le> 2 ^ k" "hi - ?mid \<le> 2 ^ k"
      using half_bounds [OF True] Suc.prems True by (simp_all, presburger?)
    then show ?thesis
      using Suc.IH [of ?mid lo] Suc.IH [of hi ?mid] True
      by (subst bisect.simps) (simp add: Let_def)
  qed (simp add: bisect.simps)
qed

lemma lineMet_mono:
  assumes "params_ok p" "0 \<le> rateX100" "tk \<le> s" "s \<le> t" "lineMet p tk w rateX100 tau r s"
  shows "lineMet p tk w rateX100 tau r t"
proof -
  have "rateX100 * (s - tk) \<le> rateX100 * (t - tk)" "0 \<le> rateX100 * (s - tk)"
    using assms(2-4) by (auto intro: mult_left_mono)
  then have "(rateX100 * (s - tk)) sdiv 100000 \<le> (rateX100 * (t - tk)) sdiv 100000"
    by (simp add: sdiv_nonneg zdiv_mono1)
  then show ?thesis
    using assms(5) line_antitone [OF assms(1,4)] by (simp add: lineMet_def)
qed

text \<open>The reference: scan every millisecond up to the wall and take the first that meets the line.\<close>

definition scanCrossing :: "Params \<Rightarrow> int \<Rightarrow> int \<Rightarrow> int \<Rightarrow> int \<Rightarrow> int \<Rightarrow> int" where
  "scanCrossing p tk w rateX100 tau r =
     (case List.find (lineMet p tk w rateX100 tau r) [tk..wallMs p] of Some t \<Rightarrow> t | None \<Rightarrow> wallMs p)"

lemma find_upto:
  assumes "lo \<le> t" "t \<le> hi" "P t" "\<forall>s\<in>{lo..<t}. \<not> P s"
  shows "List.find P [lo..hi] = Some t"
proof -
  have "[lo..hi] = [lo..t - 1] @ t # [t + 1..hi]"
    using assms(1,2) upto_split3 [of lo t hi] by simp
  moreover have "List.find P ([lo..t - 1] @ t # xs) = Some t" for xs
  proof -
    have "List.find P (ys @ t # xs) = Some t" if "\<forall>y\<in>set ys. \<not> P y" for ys
      using that assms(3) by (induction ys) auto
    then show ?thesis using assms(4) by auto
  qed
  ultimately show ?thesis by simp
qed

text \<open>The solver's three cases are one scan, for any predicate that stays true.\<close>

lemma solver_scans:
  assumes "tk < hi" and mono: "\<And>s t. tk \<le> s \<Longrightarrow> s \<le> t \<Longrightarrow> met s \<Longrightarrow> met t"
  shows "(if met tk then tk else if \<not> met hi then hi else bisect met tk hi) =
    (case List.find met [tk..hi] of Some t \<Rightarrow> t | None \<Rightarrow> hi)"
proof -
  consider "met tk" | "\<not> met tk" "\<not> met hi" | "\<not> met tk" "met hi" by blast
  then show ?thesis
  proof cases
    case 1
    then show ?thesis using find_upto [of tk tk hi met] assms(1) by simp
  next
    case 2
    then have "\<forall>s\<in>set [tk..hi]. \<not> met s" using mono by auto
    then have "List.find met [tk..hi] = None" by (simp add: find_None_iff)
    then show ?thesis using 2 by simp
  next
    case 3
    then have b: "tk < bisect met tk hi \<and> bisect met tk hi \<le> hi \<and> met (bisect met tk hi) \<and>
        \<not> met (bisect met tk hi - 1)"
      using bisect_first [OF assms(1), of met] mono by blast
    then have "\<forall>s\<in>{tk..<bisect met tk hi}. \<not> met s"
      using mono by (metis atLeastLessThan_iff zle_diff1_eq)
    then have "List.find met [tk..hi] = Some (bisect met tk hi)" using b by (intro find_upto) auto
    then show ?thesis using 3 by simp
  qed
qed

text \<open>
  Property C23. The stop command is predicted at the right millisecond: for a recipe in
  range and any sample before the wall, the solver returns exactly what a scan of every
  millisecond up to the wall returns, the first one at which the projected weight meets the
  cut line, or the wall when it never does; it makes at most 16 halvings.
\<close>

theorem crossing_is_first:
  assumes "params_ok p" and "MIN_PREDICTION_RATE_X100 \<le> rateX100" and "0 \<le> tk" and "tk < wallMs p"
  shows "crossingMs p tk w rateX100 tau r = Some (scanCrossing p tk w rateX100 tau r) \<and>
    bisectPasses 16 (lineMet p tk w rateX100 tau r) tk (wallMs p) =
      Some (bisect (lineMet p tk w rateX100 tau r) tk (wallMs p))"
proof -
  define met where "met = lineMet p tk w rateX100 tau r"
  have pos: "0 \<le> rateX100" using assms(2) by (simp add: MIN_PREDICTION_RATE_X100_def)
  have mono: "met t" if "tk \<le> s" "s \<le> t" "met s" for s t
    using lineMet_mono [OF assms(1) pos] that unfolding met_def by blast
  have "wallMs p - tk \<le> 2 ^ 16" using assms(1,3) by (simp add: params_ok_def)
  then have passes: "bisectPasses 16 met tk (wallMs p) = Some (bisect met tk (wallMs p))"
    by (rule bisect_passes)
  have "crossingMs p tk w rateX100 tau r =
      Some (if met tk then tk else if \<not> met (wallMs p) then wallMs p else bisect met tk (wallMs p))"
    using assms(2,4) by (simp add: crossingMs_def met_def Let_def)
  then show ?thesis
    using passes solver_scans [OF assms(4), of met] mono by (simp add: scanCrossing_def met_def)
qed

theorem crossing_is_first_witness:
  "crossingMs exampleRecipe 20000 250 1800 600 5 = Some (scanCrossing exampleRecipe 20000 250 1800 600 5)"
  using crossing_is_first [OF exampleRecipe_ok, of 1800 20000 250 600 5]
  by (simp add: MIN_PREDICTION_RATE_X100_def exampleRecipe_def)

section \<open>The verdict of a shot\<close>

definition VERDICT_DEAD_BAND_MS :: int where "VERDICT_DEAD_BAND_MS = 500"
definition ARRIVAL_CLAMP_MS :: int where "ARRIVAL_CLAMP_MS = 5000"

datatype Verdict = ON_RECIPE | VERDICT_FAST | VERDICT_SLOW | UNCLASSIFIED

definition unclassified :: "Verdict \<times> int" where
  "unclassified = (UNCLASSIFIED, 0)"

definition clampShift :: "int \<Rightarrow> int" where
  "clampShift shift0 =
     (let shift = (if shift0 > ARRIVAL_CLAMP_MS then ARRIVAL_CLAMP_MS else shift0) in
      if shift < - ARRIVAL_CLAMP_MS then - ARRIVAL_CLAMP_MS else shift)"

definition judgeArrival :: "Params \<Rightarrow> int \<Rightarrow> Verdict" where
  "judgeArrival p arrival =
     (if arrival < fastBeforeMs p - VERDICT_DEAD_BAND_MS then VERDICT_FAST
      else if arrival > slowAfterMs p + VERDICT_DEAD_BAND_MS then VERDICT_SLOW
      else ON_RECIPE)"

definition arrivalVerdict :: "Params \<Rightarrow> int \<Rightarrow> int \<Rightarrow> Verdict \<times> int" where
  "arrivalVerdict p cutMs rateX100 =
     (let line = cutLineDg p cutMs in
      if line = goalDg p then (judgeArrival p cutMs, cutMs)
      else if rateX100 < MIN_PREDICTION_RATE_X100 then unclassified
      else
        let shift = clampShift (((goalDg p - line) * 100000) sdiv rateX100);
            arrival = cutMs + toI32 shift
        in if arrival \<le> 0 then unclassified else (judgeArrival p arrival, arrival))"

datatype LossSource = PROJECTION | HISTORY | WINDOW | FIXED

definition verdictCode :: "Verdict \<Rightarrow> u8" where
  "verdictCode v = (case v of ON_RECIPE \<Rightarrow> 0 | VERDICT_FAST \<Rightarrow> 1 | VERDICT_SLOW \<Rightarrow> 2 | UNCLASSIFIED \<Rightarrow> 3)"

definition lossSourceCode :: "LossSource \<Rightarrow> u8" where
  "lossSourceCode s = (case s of PROJECTION \<Rightarrow> 0 | HISTORY \<Rightarrow> 1 | WINDOW \<Rightarrow> 2 | FIXED \<Rightarrow> 3)"

definition VERDICT_CHANNELING_BIT :: u8 where "VERDICT_CHANNELING_BIT = 0x04"
definition VERDICT_BLIND_BIT :: u8 where "VERDICT_BLIND_BIT = 0x20"

definition packVerdict :: "Verdict \<Rightarrow> bool \<Rightarrow> LossSource \<Rightarrow> bool \<Rightarrow> u8" where
  "packVerdict verdict channeling source blind =
     verdictCode verdict OR (if channeling then VERDICT_CHANNELING_BIT else 0) OR
     push_bit 3 (lossSourceCode source) OR (if blind then VERDICT_BLIND_BIT else 0)"

definition verdictOf :: "u8 \<Rightarrow> Verdict" where
  "verdictOf packed = (let c = packed AND 3 in
     if c = 0 then ON_RECIPE else if c = 1 then VERDICT_FAST else if c = 2 then VERDICT_SLOW else UNCLASSIFIED)"

definition channelingOf :: "u8 \<Rightarrow> bool" where
  "channelingOf packed \<longleftrightarrow> packed AND VERDICT_CHANNELING_BIT \<noteq> 0"

definition lossSourceOf :: "u8 \<Rightarrow> LossSource" where
  "lossSourceOf packed = (let c = drop_bit 3 packed AND 3 in
     if c = 0 then PROJECTION else if c = 1 then HISTORY else if c = 2 then WINDOW else FIXED)"

definition blindOf :: "u8 \<Rightarrow> bool" where
  "blindOf packed \<longleftrightarrow> packed AND VERDICT_BLIND_BIT \<noteq> 0"

lemma clampShift_range: "- 5000 \<le> clampShift x \<and> clampShift x \<le> 5000"
  by (simp add: clampShift_def ARRIVAL_CLAMP_MS_def Let_def)

lemma arrival_near_cut:
  "fst (arrivalVerdict p cutMs q) \<noteq> UNCLASSIFIED \<Longrightarrow> \<bar>snd (arrivalVerdict p cutMs q) - cutMs\<bar> \<le> 5000"
  using clampShift_range [of "((goalDg p - cutLineDg p cutMs) * 100000) sdiv q"]
  by (auto simp: arrivalVerdict_def unclassified_def Let_def fitsI32_def split: if_splits)

text \<open>
  The persisted verdict byte loses nothing: verdict, channeling, the source
  of the scale-loss stop and the blind mark are read back from the byte they were packed
  into.
\<close>

lemma verdict_roundtrip:
  "verdictOf (packVerdict v c s b) = v \<and> channelingOf (packVerdict v c s b) = c \<and>
   lossSourceOf (packVerdict v c s b) = s \<and> blindOf (packVerdict v c s b) = b"
  by (cases v; cases c; cases s; cases b)
    (simp_all add: packVerdict_def verdictOf_def channelingOf_def lossSourceOf_def blindOf_def verdictCode_def
      lossSourceCode_def VERDICT_CHANNELING_BIT_def VERDICT_BLIND_BIT_def Let_def)

section \<open>The deadline after a scale loss\<close>

definition SCALE_LOSS_MIN_SHOTS :: nat where "SCALE_LOSS_MIN_SHOTS = 3"
definition PROJECTION_HORIZON_MS :: int where "PROJECTION_HORIZON_MS = 3000"
definition HISTORY_MARGIN_MS :: int where "HISTORY_MARGIN_MS = 500"

record ArrivalStats =
  stN :: nat
  stMinMs :: int
  stMaxMs :: int
  stMedianMs :: int
  stSigmaMs :: int
  stTotal :: nat

definition arrivalStats0 :: ArrivalStats where
  "arrivalStats0 = \<lparr> stN = 0, stMinMs = 0, stMaxMs = 0, stMedianMs = 0, stSigmaMs = 0, stTotal = 0 \<rparr>"

record LossInputs =
  liNowMs :: int
  liLastSampleMs :: int
  liFixedMs :: u32
  liBeforeFirstDrops :: bool
  liCrossingValid :: bool
  liCrossingMs :: int
  liHistory :: ArrivalStats

record LossDeadline =
  ldDeadlineMs :: int
  ldSource :: LossSource
  ldCutNow :: bool

text \<open>The choice of the deadline, then its clamping.\<close>

definition lossChoice :: "Params \<Rightarrow> LossInputs \<Rightarrow> LossSource \<times> int" where
  "lossChoice p i =
     (let project = \<not> liBeforeFirstDrops i \<and> liCrossingValid i in
      if liFixedMs i \<noteq> 0 then (FIXED, toI32 (uint (liFixedMs i)))
      else if project \<and> liCrossingMs i \<le> liNowMs i then (PROJECTION, liNowMs i)
      else if project \<and> liCrossingMs i - liLastSampleMs i \<le> PROJECTION_HORIZON_MS then (PROJECTION, liCrossingMs i)
      else if stN (liHistory i) \<ge> SCALE_LOSS_MIN_SHOTS then
        (let fromHistory = stMedianMs (liHistory i) + (2 * stSigmaMs (liHistory i)) sdiv 3 + HISTORY_MARGIN_MS
         in (HISTORY, if fromHistory < slowAfterMs p then fromHistory else slowAfterMs p))
      else (WINDOW, (fastBeforeMs p + slowAfterMs p) sdiv 2))"

definition lossDeadline :: "Params \<Rightarrow> LossInputs \<Rightarrow> LossDeadline" where
  "lossDeadline p i =
     (case lossChoice p i of (source, deadline0) \<Rightarrow>
      let earliest = (if liLastSampleMs i > delayMs p then liLastSampleMs i else delayMs p);
          deadline1 = (if deadline0 < earliest then earliest else deadline0);
          deadline = (if deadline1 > wallMs p then wallMs p else deadline1)
      in \<lparr> ldDeadlineMs = deadline, ldSource = source, ldCutNow = (deadline \<le> liNowMs i) \<rparr>)"

text \<open>
  A shot whose scale was lost is always stopped in time: whatever the inputs,
  the deadline is never past the wall; unless the wall itself is earlier it is not before
  the last sample or the protection delay; and from that deadline on the backup cuts.
\<close>

lemma loss_deadline_bounded:
  assumes "lossDeadline p i = d"
  shows "ldDeadlineMs d \<le> wallMs p \<and>
    (ldDeadlineMs d < wallMs p \<longrightarrow> liLastSampleMs i \<le> ldDeadlineMs d \<and> delayMs p \<le> ldDeadlineMs d) \<and>
    (ldCutNow d \<longleftrightarrow> ldDeadlineMs d \<le> liNowMs i) \<and> (wallMs p \<le> liNowMs i \<longrightarrow> ldCutNow d)"
  using assms by (auto simp: lossDeadline_def Let_def split: prod.splits)

definition lossExample :: LossInputs where
  "lossExample = \<lparr> liNowMs = 24000, liLastSampleMs = 23500, liFixedMs = 0, liBeforeFirstDrops = False,
     liCrossingValid = True, liCrossingMs = 26000, liHistory = arrivalStats0 \<rparr>"

lemma loss_deadline_bounded_witness:
  "ldDeadlineMs (lossDeadline exampleRecipe lossExample) \<le> 50000"
  using loss_deadline_bounded [OF refl, of exampleRecipe lossExample] by (simp add: exampleRecipe_def)

text \<open>The projection is used only within its horizon, and cuts at once when it is due.\<close>

lemma projection_cuts:
  assumes "params_ok p" "liFixedMs i = 0" "\<not> liBeforeFirstDrops i" "liCrossingValid i"
    "liCrossingMs i \<le> liNowMs i" "liLastSampleMs i \<le> liNowMs i" "delayMs p \<le> liNowMs i"
  shows "ldCutNow (lossDeadline p i)"
  using assms by (simp add: lossDeadline_def lossChoice_def Let_def)

end
