(* ===== verification/Rate_Estimator.thy ===== *)
theory Rate_Estimator
  imports Corridor_Cut Array_Ring "HOL-Library.Multiset"
begin

text \<open>
  The flow estimator of \<open>src/OpenBrewByWeightCorridor.h\<close>: a ring of at most 32 samples of the
  last three seconds, a least-squares slope over them, a median gate that refuses at most
  two samples in a row, and the latch that recognises channeling. Indices and counts are
  naturals with the code's modulus written out; the run counters are bytes.
\<close>

section \<open>Order statistics\<close>

text \<open>The inner loop of \<open>sortSmall\<close> moves larger values up until v has its place.\<close>

fun shiftUp :: "int \<Rightarrow> nat \<Rightarrow> int list \<Rightarrow> int list" where
  "shiftUp v 0 values = values[0 := v]"
| "shiftUp v (Suc j) values =
     (if values ! j > v then shiftUp v j (values[Suc j := values ! j]) else values[Suc j := v])"

definition sortSmall :: "int list \<Rightarrow> int list" where
  "sortSmall values = fold (\<lambda>i vs. shiftUp (vs ! i) i vs) [1..<length values] values"

definition medianOfSorted :: "int list \<Rightarrow> int" where
  "medianOfSorted s =
     (let count = length s in
      if count = 0 then 0
      else if count mod 2 \<noteq> 0 then s ! (count div 2)
      else (s ! (count div 2 - 1) + s ! (count div 2)) sdiv 2)"

definition madOf :: "int list \<Rightarrow> int \<Rightarrow> int" where
  "madOf values median =
     medianOfSorted (sortSmall (map (\<lambda>v. if v > median then v - median else median - v) values))"

lemma insort_snoc_less: "v < y \<Longrightarrow> insort v (ys @ [y]) = insort v ys @ [y]"
  by (induction ys) auto

lemma insort_snoc_ge:
  assumes "sorted ys" "\<forall>y\<in>set ys. y \<le> v"
  shows "insort v ys = ys @ [v]"
proof -
  have "sort (ys @ [v]) = insort v ys"
    using assms(1) by (intro properties_for_sort) (simp_all add: sorted_insort)
  moreover have "sort (ys @ [v]) = ys @ [v]"
    using assms by (intro sorted_sort_id) (simp add: sorted_append)
  ultimately show ?thesis by simp
qed

text \<open>Inserting into a sorted prefix; the tail beyond it is untouched.\<close>

lemma shiftUp_insort:
  assumes "k < length xs" "sorted (take k xs)"
  shows "shiftUp v k xs = insort v (take k xs) @ drop (Suc k) xs"
  using assms
proof (induction k arbitrary: xs)
  case 0
  then show ?case by (cases xs) simp_all
next
  case (Suc j)
  have tk: "take (Suc j) xs = take j xs @ [xs ! j]" using Suc.prems(1) by (simp add: take_Suc_conv_app_nth)
  have s: "sorted (take j xs)" using Suc.prems(2) unfolding tk by (simp add: sorted_append)
  have all: "\<forall>y\<in>set (take j xs). y \<le> xs ! j" using Suc.prems(2) unfolding tk by (simp add: sorted_append)
  show ?case
  proof (cases "xs ! j > v")
    case True
    let ?ys = "xs[Suc j := xs ! j]"
    have y: "take j ?ys = take j xs" "drop (Suc j) ?ys = xs ! j # drop (Suc (Suc j)) xs"
      using Suc.prems(1) by (simp_all add: drop_update_swap Cons_nth_drop_Suc [symmetric])
    have "shiftUp v (Suc j) xs = shiftUp v j ?ys" using True by simp
    also have "\<dots> = insort v (take j xs) @ drop (Suc j) ?ys"
      using Suc.IH [of ?ys] Suc.prems(1) s y(1) by simp
    also have "\<dots> = (insort v (take j xs) @ [xs ! j]) @ drop (Suc (Suc j)) xs" using y(2) by simp
    also have "insort v (take j xs) @ [xs ! j] = insort v (take (Suc j) xs)"
      unfolding tk using True by (simp add: insort_snoc_less)
    finally show ?thesis .
  next
    case False
    have "insort v (take (Suc j) xs) = take (Suc j) xs @ [v]"
      by (rule insort_snoc_ge [OF Suc.prems(2)]) (use all False in \<open>auto simp: tk\<close>)
    then show ?thesis
      using False Suc.prems(1) by (simp add: upd_conv_take_nth_drop)
  qed
qed

text \<open>After the pass for index k the first k + 1 values are the sorted originals.\<close>

lemma sort_passes:
  assumes "k \<le> length xs" "1 \<le> k"
  shows "fold (\<lambda>i vs. shiftUp (vs ! i) i vs) [1..<k] xs = sort (take k xs) @ drop k xs"
  using assms(2,1)
proof (induction k rule: dec_induct)
  case base
  then show ?case by (cases xs) simp_all
next
  case (step k)
  let ?ys = "sort (take k xs) @ drop k xs"
  have l: "length (sort (take k xs)) = k" using step by simp
  have n: "?ys ! k = xs ! k" using step by (simp add: nth_append)
  have "fold (\<lambda>i vs. shiftUp (vs ! i) i vs) [1..<Suc k] xs = shiftUp (?ys ! k) k ?ys"
    using step by simp
  also have "\<dots> = insort (xs ! k) (take k ?ys) @ drop (Suc k) ?ys"
    unfolding n using step l by (intro shiftUp_insort) simp_all
  also have "take k ?ys = sort (take k xs)" using l by simp
  also have "drop (Suc k) ?ys = drop (Suc k) xs" using l by (simp add: drop_drop)
  also have "insort (xs ! k) (sort (take k xs)) = sort (take (Suc k) xs)"
    using step by (simp add: take_Suc_conv_app_nth) (intro properties_for_sort [symmetric]; simp add: sorted_insort)
  finally show ?case .
qed

lemma sortSmall_sort [simp]: "sortSmall xs = sort xs"
  using sort_passes [of "length xs" xs]
  by (cases xs) (simp_all add: sortSmall_def)

lemma median_range:
  assumes "sorted s" "s \<noteq> []"
  shows "hd s \<le> medianOfSorted s \<and> medianOfSorted s \<le> last s"
proof -
  define n where "n = length s"
  have n: "0 < n" using assms(2) by (simp add: n_def)
  have b: "s ! 0 \<le> s ! i \<and> s ! i \<le> s ! (n - 1)" if "i < n" for i
    using that assms(1) sorted_nth_mono [of s 0 i] sorted_nth_mono [of s i "n - 1"] by (simp add: n_def)
  have "s ! 0 \<le> medianOfSorted s \<and> medianOfSorted s \<le> s ! (n - 1)"
  proof (cases "n mod 2 = 0")
    case False
    then show ?thesis using b [of "n div 2"] n by (simp add: medianOfSorted_def n_def [symmetric] Let_def)
  next
    case True
    then have i: "n div 2 - 1 < n" "n div 2 < n" using n by auto
    define c where "c = s ! (n div 2 - 1) + s ! (n div 2)"
    have c: "2 * s ! 0 \<le> c" "c \<le> 2 * s ! (n - 1)" using b [OF i(1)] b [OF i(2)] by (simp_all add: c_def)
    have "c sdiv 2 = (if 0 \<le> c then c div 2 else - ((- c) div 2))"
      by (simp add: signed_divide_int_def sgn_if)
    then have "s ! 0 \<le> c sdiv 2 \<and> c sdiv 2 \<le> s ! (n - 1)" using c by (auto split: if_splits)
    then show ?thesis using True n by (simp add: medianOfSorted_def n_def [symmetric] c_def Let_def)
  qed
  then show ?thesis using assms(2) by (simp add: hd_conv_nth last_conv_nth n_def)
qed

section \<open>The estimator\<close>

definition RATE_WINDOW_MS :: int where "RATE_WINDOW_MS = 3000"
definition RATE_MIN_SAMPLES :: nat where "RATE_MIN_SAMPLES = 4"
definition RATE_MIN_SPAN_MS :: int where "RATE_MIN_SPAN_MS = 2000"
definition MAX_RATE_X100 :: int where "MAX_RATE_X100 = 4000"
definition MAD_FLOOR_DG :: int where "MAD_FLOOR_DG = 3"
definition MAD_MIN_INNOVATIONS :: nat where "MAD_MIN_INNOVATIONS = 4"
definition MAX_CONSECUTIVE_REJECTIONS :: u8 where "MAX_CONSECUTIVE_REJECTIONS = 2"
definition CHANNELING_RATE_X100 :: int where "CHANNELING_RATE_X100 = 3000"
definition CHANNELING_BASE_RATE_X100 :: int where "CHANNELING_BASE_RATE_X100 = 500"
definition CHANNELING_LOOKBACK_MS :: int where "CHANNELING_LOOKBACK_MS = 1000"
definition CHANNELING_CONFIRM_SAMPLES :: u8 where "CHANNELING_CONFIRM_SAMPLES = 2"
definition RATE_CAPACITY :: nat where "RATE_CAPACITY = 32"
definition NO_RATE :: int where "NO_RATE = - (2 ^ 31)"
definition INT16_MAX :: int where "INT16_MAX = 32767"
definition INT16_MIN :: int where "INT16_MIN = - 32768"
definition INT32_MAX :: int where "INT32_MAX = 2147483647"

datatype RateResult = RATE_ACCEPTED | RATE_REJECTED | RATE_IGNORED

record RateEstimator =
  reAtMs :: "int list"
  reRawRateX100 :: "int list"
  reWeightDg :: "int list"
  reInnovationDg :: "int list"
  reHead :: nat
  reCount :: nat
  rejectedRun :: u8
  channelingRun :: u8
  reValid :: bool
  channeling :: bool
  reRateX100 :: int
  rawX100 :: int
  onsetMs :: int

definition rateEstimator0 :: RateEstimator where
  "rateEstimator0 = \<lparr> reAtMs = replicate RATE_CAPACITY 0, reRawRateX100 = replicate RATE_CAPACITY 0,
     reWeightDg = replicate RATE_CAPACITY 0, reInnovationDg = replicate RATE_CAPACITY 0, reHead = 0,
     reCount = 0, rejectedRun = 0, channelingRun = 0, reValid = False, channeling = False,
     reRateX100 = 0, rawX100 = 0, onsetMs = 0 \<rparr>"

definition rateReset :: "RateEstimator \<Rightarrow> RateEstimator" where
  "rateReset e = rateEstimator0\<lparr> channeling := channeling e, onsetMs := onsetMs e \<rparr>"

definition rateIndex :: "RateEstimator \<Rightarrow> nat \<Rightarrow> nat" where
  "rateIndex e age = (reHead e + RATE_CAPACITY - age) mod RATE_CAPACITY"

text \<open>The samples, newest first: what the loops over \<open>age\<close> read.\<close>

definition agedTimes :: "RateEstimator \<Rightarrow> int list" where
  "agedTimes e = map (\<lambda>age. reAtMs e ! rateIndex e age) [0..<reCount e]"

definition agedWeights :: "RateEstimator \<Rightarrow> int list" where
  "agedWeights e = map (\<lambda>age. reWeightDg e ! rateIndex e age) [0..<reCount e]"

definition clamp16 :: "int \<Rightarrow> int" where
  "clamp16 x = (if x > INT16_MAX then INT16_MAX else if x < INT16_MIN then INT16_MIN else x)"

text \<open>The trimming loop: drop the oldest samples that left the window.\<close>

fun trimCount :: "RateEstimator \<Rightarrow> int \<Rightarrow> nat \<Rightarrow> nat" where
  "trimCount e t 0 = 0"
| "trimCount e t (Suc n) =
     (if reAtMs e ! rateIndex e n \<le> t - RATE_WINDOW_MS then trimCount e t n else Suc n)"

definition predictedDg :: "RateEstimator \<Rightarrow> int \<Rightarrow> int" where
  "predictedDg e t = reWeightDg e ! reHead e +
     (if reValid e then toI32 ((reRateX100 e * (t - reAtMs e ! reHead e)) sdiv 100000) else 0)"

text \<open>The gate: 4.5 times the larger of 1.4826 MAD and the floor, in 1e-4 dg.\<close>

definition outlier :: "RateEstimator \<Rightarrow> int \<Rightarrow> bool" where
  "outlier e innovation \<longleftrightarrow> reCount e \<ge> MAD_MIN_INNOVATIONS \<and>
     (let innovations = sortSmall (map (\<lambda>age. reInnovationDg e ! rateIndex e age) [0..<reCount e - 1]);
          median = medianOfSorted innovations;
          mad = madOf innovations median;
          deviation = (if innovation > median then innovation - median else median - innovation);
          scaled = mad * 66717;
          limit = (if scaled > 45000 * MAD_FLOOR_DG then scaled else 45000 * MAD_FLOOR_DG)
      in deviation * 10000 > limit)"

definition sxxOf :: "int list \<Rightarrow> int \<Rightarrow> int" where
  "sxxOf ts base = (let n = int (length ts); sumT = sum_list (map (\<lambda>t. t - base) ts) in
     sum_list (map (\<lambda>t. ((t - base) * n - sumT) * ((t - base) * n - sumT)) ts))"

definition sxyOf :: "int list \<Rightarrow> int list \<Rightarrow> int \<Rightarrow> int" where
  "sxyOf ts ws base = (let n = int (length ts); sumT = sum_list (map (\<lambda>t. t - base) ts); sumW = sum_list ws in
     sum_list (map (\<lambda>(t, w). ((t - base) * n - sumT) * (w * n - sumW)) (zip ts ws)))"

definition rateFit :: "RateEstimator \<Rightarrow> RateEstimator" where
  "rateFit e0 =
     (let e = e0\<lparr> reValid := False \<rparr>; newest = reAtMs e ! reHead e in
      if reCount e < RATE_MIN_SAMPLES \<or>
         newest - reAtMs e ! rateIndex e (reCount e - 1) < RATE_MIN_SPAN_MS then e
      else
        let sxx = sxxOf (agedTimes e) newest; sxy = sxyOf (agedTimes e) (agedWeights e) newest in
        if sxx \<le> 0 then e
        else
          let raw = (sxy * 100000) sdiv sxx;
              bounded = (if raw > INT32_MAX sdiv 2 then INT32_MAX sdiv 2 else raw);
              raw32 = (if bounded < (- INT32_MAX) sdiv 2 then (- INT32_MAX) sdiv 2 else bounded);
              rate = (if raw32 < 0 then 0 else raw32)
          in e\<lparr> rawX100 := raw32, reRateX100 := (if rate > MAX_RATE_X100 then MAX_RATE_X100 else rate),
                reValid := True \<rparr>)"

text \<open>The first sample at least a second older than the newest decides whether the flow surged.\<close>

definition surgeAt :: "RateEstimator \<Rightarrow> bool" where
  "surgeAt e \<longleftrightarrow> reValid e \<and> rawX100 e \<ge> CHANNELING_RATE_X100 \<and>
     (case List.find (\<lambda>age. reAtMs e ! rateIndex e age \<le> reAtMs e ! reHead e - CHANNELING_LOOKBACK_MS)
             [1..<reCount e] of
        None \<Rightarrow> False
      | Some age \<Rightarrow> (let i = rateIndex e age in
          reAtMs e ! i - RATE_WINDOW_MS \<ge> onsetMs e \<and> reRawRateX100 e ! i \<noteq> NO_RATE \<and>
          reRawRateX100 e ! i \<ge> CHANNELING_BASE_RATE_X100 \<and> rawX100 e * 2 \<ge> reRawRateX100 e ! i * 3))"

definition updateChanneling :: "RateEstimator \<Rightarrow> RateEstimator" where
  "updateChanneling e =
     (let run = (if surgeAt e then channelingRun e + 1 else 0) in
      e\<lparr> channelingRun := run, channeling := (channeling e \<or> run \<ge> CHANNELING_CONFIRM_SAMPLES) \<rparr>)"

definition storeSample :: "int \<Rightarrow> int \<Rightarrow> int \<Rightarrow> RateEstimator \<Rightarrow> RateEstimator" where
  "storeSample t weight innovation e0 =
     (let h = (reHead e0 + 1) mod RATE_CAPACITY;
          e1 = e0\<lparr> rejectedRun := 0, reHead := h,
                  reCount := (if reCount e0 < RATE_CAPACITY then reCount e0 + 1 else reCount e0),
                  reAtMs := (reAtMs e0)[h := t], reWeightDg := (reWeightDg e0)[h := weight],
                  reInnovationDg := (reInnovationDg e0)[h := clamp16 innovation] \<rparr>;
          e2 = rateFit e1
      in updateChanneling (e2\<lparr> reRawRateX100 := (reRawRateX100 e2)[h := if reValid e2 then rawX100 e2 else NO_RATE] \<rparr>))"

definition ratePush :: "int \<Rightarrow> int \<Rightarrow> RateEstimator \<Rightarrow> RateResult \<times> RateEstimator" where
  "ratePush t weight0 e0 =
     (if reCount e0 > 0 \<and> t \<le> reAtMs e0 ! reHead e0 then (RATE_IGNORED, e0)
      else
        let weight = clamp16 weight0;
            e = e0\<lparr> reCount := trimCount e0 t (reCount e0) \<rparr>;
            innovation = (if reCount e > 0 then weight - predictedDg e t else 0)
        in if outlier e innovation then
             (let e1 = e\<lparr> rejectedRun := rejectedRun e + 1 \<rparr> in
              if rejectedRun e1 \<le> MAX_CONSECUTIVE_REJECTIONS then (RATE_REJECTED, e1)
              else (RATE_ACCEPTED, storeSample t weight 0 (rateReset e1)))
           else (RATE_ACCEPTED, storeSample t weight innovation e))"

end
