(* ===== verification/Rate_Facts.thy ===== *)
theory Rate_Facts
  imports Rate_Estimator
begin

text \<open>
  What the flow estimator guarantees: the window it fits never holds more than 32 samples or
  three seconds and its times strictly increase, a jump of the weight is believed after two
  refusals, and a constant flow is measured exactly.
\<close>

section \<open>The ring, newest first\<close>

definition aged :: "'a list \<Rightarrow> nat \<Rightarrow> nat \<Rightarrow> 'a list" where
  "aged arr head n = map (\<lambda>age. arr ! ((head + RATE_CAPACITY - age) mod RATE_CAPACITY)) [0..<n]"

lemma aged_ringView:
  assumes "head < RATE_CAPACITY" "n \<le> RATE_CAPACITY"
  shows "aged arr head n = rev (ringView RATE_CAPACITY arr ((head + 1) mod RATE_CAPACITY) n)"
proof (rule nth_equalityI)
  show "length (aged arr head n) = length (rev (ringView RATE_CAPACITY arr ((head + 1) mod RATE_CAPACITY) n))"
    by (simp add: aged_def)
next
  fix age
  assume "age < length (aged arr head n)"
  then have a: "age < n" by (simp add: aged_def)
  have "((head + 1) mod RATE_CAPACITY + RATE_CAPACITY - n + (n - Suc age)) mod RATE_CAPACITY
      = (head + RATE_CAPACITY - age) mod RATE_CAPACITY"
  proof (cases "head + 1 < RATE_CAPACITY")
    case True
    then show ?thesis using a assms by simp
  next
    case False
    then have h: "head + 1 = RATE_CAPACITY" using assms by simp
    then have m: "(head + 1) mod RATE_CAPACITY = 0" by simp
    have "head + RATE_CAPACITY - age = (RATE_CAPACITY - n + (n - Suc age)) + RATE_CAPACITY"
      using a assms h by linarith
    then show ?thesis unfolding m by (simp only: mod_add_self2 add_0)
  qed
  then show "aged arr head n ! age = rev (ringView RATE_CAPACITY arr ((head + 1) mod RATE_CAPACITY) n) ! age"
    using a by (simp add: aged_def rev_nth ringView_nth)
qed

lemma aged_push:
  assumes "head < RATE_CAPACITY" "n \<le> RATE_CAPACITY" "length arr = RATE_CAPACITY"
  defines "h \<equiv> (head + 1) mod RATE_CAPACITY"
  shows "aged (arr[h := r]) h (if n < RATE_CAPACITY then n + 1 else n) =
    r # (if n < RATE_CAPACITY then aged arr head n else butlast (aged arr head n))"
proof -
  have c: "0 < RATE_CAPACITY" "h < RATE_CAPACITY" by (simp_all add: RATE_CAPACITY_def h_def)
  have "aged (arr[h := r]) h (if n < RATE_CAPACITY then n + 1 else n) =
      rev (ringView RATE_CAPACITY (arr[h := r]) ((h + 1) mod RATE_CAPACITY) (if n < RATE_CAPACITY then n + 1 else n))"
    using c assms by (intro aged_ringView) auto
  also have "\<dots> = rev (if n < RATE_CAPACITY then ringView RATE_CAPACITY arr h n @ [r]
      else tl (ringView RATE_CAPACITY arr h n) @ [r])"
    using ringView_push [of RATE_CAPACITY arr n h r] c assms by simp
  finally show ?thesis
    using aged_ringView [OF assms(1,2), of arr] by (simp add: h_def butlast_rev)
qed

lemma aged_take: "n \<le> m \<Longrightarrow> aged arr head n = take n (aged arr head m)"
  by (simp add: aged_def take_map)

lemma agedTimes_aged: "agedTimes e = aged (reAtMs e) (reHead e) (reCount e)"
  "agedWeights e = aged (reWeightDg e) (reHead e) (reCount e)"
  by (simp_all add: agedTimes_def agedWeights_def aged_def rateIndex_def)

lemma desc_range: "sorted_wrt (>) xs \<Longrightarrow> x \<in> set xs \<Longrightarrow> last xs \<le> x \<and> x \<le> hd (xs :: int list)"
proof (induction xs)
  case (Cons y ys)
  have below: "z < y" if "z \<in> set ys" for z using Cons.prems(1) that by simp
  show ?case
  proof (cases "x = y")
    case True
    moreover have "last ys < y" if "ys \<noteq> []" using below [OF last_in_set [OF that]] .
    ultimately show ?thesis by (cases "ys = []") auto
  next
    case False
    then have "x \<in> set ys" "sorted_wrt (>) ys" using Cons.prems by simp_all
    then have "last ys \<le> x" "ys \<noteq> []" "x < y" using Cons.IH below by auto
    then show ?thesis by simp
  qed
qed simp

section \<open>The invariant\<close>

definition est_ok :: "RateEstimator \<Rightarrow> bool" where
  "est_ok e \<longleftrightarrow> length (reAtMs e) = RATE_CAPACITY \<and> length (reWeightDg e) = RATE_CAPACITY \<and>
     reHead e < RATE_CAPACITY \<and> reCount e \<le> RATE_CAPACITY \<and>
     sorted_wrt (>) (agedTimes e) \<and>
     (agedTimes e \<noteq> [] \<longrightarrow> hd (agedTimes e) - last (agedTimes e) < RATE_WINDOW_MS) \<and>
     0 \<le> reRateX100 e \<and> reRateX100 e \<le> MAX_RATE_X100 \<and> rejectedRun e \<le> MAX_CONSECUTIVE_REJECTIONS"

lemma fit_keeps [simp]:
  "reAtMs (rateFit e) = reAtMs e" "reWeightDg (rateFit e) = reWeightDg e" "reHead (rateFit e) = reHead e"
  "reCount (rateFit e) = reCount e" "rejectedRun (rateFit e) = rejectedRun e" "onsetMs (rateFit e) = onsetMs e"
  "channeling (rateFit e) = channeling e"
  by (simp_all add: rateFit_def Let_def)

lemma fit_rate: "0 \<le> reRateX100 e \<and> reRateX100 e \<le> MAX_RATE_X100 \<Longrightarrow>
    0 \<le> reRateX100 (rateFit e) \<and> reRateX100 (rateFit e) \<le> MAX_RATE_X100"
  by (simp add: rateFit_def Let_def MAX_RATE_X100_def)

lemma channeling_keeps [simp]:
  "reAtMs (updateChanneling e) = reAtMs e" "reWeightDg (updateChanneling e) = reWeightDg e"
  "reHead (updateChanneling e) = reHead e" "reCount (updateChanneling e) = reCount e"
  "rejectedRun (updateChanneling e) = rejectedRun e" "reRateX100 (updateChanneling e) = reRateX100 e"
  "reValid (updateChanneling e) = reValid e" "rawX100 (updateChanneling e) = rawX100 e"
  by (simp_all add: updateChanneling_def Let_def)

lemma est_start_ok: "est_ok rateEstimator0"
  by (simp add: est_ok_def rateEstimator0_def agedTimes_def RATE_CAPACITY_def MAX_RATE_X100_def)

lemma est_reset_ok: "est_ok (rateReset e)"
  using est_start_ok by (simp add: est_ok_def rateReset_def agedTimes_def rateEstimator0_def)

lemma trim_le: "trimCount e t n \<le> n"
  by (induction n) auto

lemma trim_window: "0 < trimCount e t n \<Longrightarrow> reAtMs e ! rateIndex e (trimCount e t n - 1) > t - RATE_WINDOW_MS"
  by (induction n) (auto split: if_splits)

lemma trim_ok:
  fixes t :: int
  assumes "est_ok e"
  defines "e' \<equiv> e\<lparr> reCount := trimCount e t (reCount e) \<rparr>"
  shows "est_ok e'" and "agedTimes e' = take (reCount e') (agedTimes e)"
    and "agedTimes e' \<noteq> [] \<Longrightarrow> t - last (agedTimes e') < RATE_WINDOW_MS"
proof -
  have le: "reCount e' \<le> reCount e" using trim_le by (simp add: e'_def)
  show tk: "agedTimes e' = take (reCount e') (agedTimes e)"
    using aged_take [OF le] by (simp add: agedTimes_aged e'_def)
  have l: "length (agedTimes e') = reCount e'" by (simp add: agedTimes_def)
  show w: "t - last (agedTimes e') < RATE_WINDOW_MS" if "agedTimes e' \<noteq> []"
  proof -
    have n: "0 < reCount e'" using that l by (metis length_greater_0_conv)
    have "last (agedTimes e') = reAtMs e ! rateIndex e (reCount e' - 1)"
      using that l n by (simp add: last_conv_nth) (simp add: agedTimes_def e'_def rateIndex_def)
    then show ?thesis using trim_window [of e t "reCount e"] n by (simp add: e'_def)
  qed
  have "hd (agedTimes e') - last (agedTimes e') < RATE_WINDOW_MS" if ne: "agedTimes e' \<noteq> []"
  proof -
    have s: "sorted_wrt (>) (agedTimes e)" "agedTimes e \<noteq> []"
      using assms(1) ne tk by (auto simp: est_ok_def)
    have "last (agedTimes e) \<le> last (agedTimes e')"
    proof -
      have "last (agedTimes e') = agedTimes e ! (reCount e' - 1)" "reCount e' - 1 \<le> length (agedTimes e) - 1"
        using ne tk le l by (simp_all add: last_conv_nth agedTimes_def)
      then show ?thesis
        using s sorted_wrt_nth_less [OF s(1), of "reCount e' - 1" "length (agedTimes e) - 1"]
        by (cases "reCount e' - 1 = length (agedTimes e) - 1") (simp_all add: last_conv_nth)
    qed
    moreover have "hd (agedTimes e') = hd (agedTimes e)" using tk ne by (simp add: hd_take)
    ultimately show ?thesis using assms(1) s(2) by (simp add: est_ok_def)
  qed
  moreover have "sorted_wrt (>) (agedTimes e')" using assms(1) tk by (simp add: est_ok_def sorted_wrt_take)
  ultimately show "est_ok e'" using assms(1) le by (simp add: est_ok_def e'_def)
qed

lemma store_times:
  assumes "est_ok e"
  shows "agedTimes (storeSample t w i e) =
      t # (if reCount e < RATE_CAPACITY then agedTimes e else butlast (agedTimes e))"
    and "agedWeights (storeSample t w i e) =
      w # (if reCount e < RATE_CAPACITY then agedWeights e else butlast (agedWeights e))"
  using assms aged_push [of "reHead e" "reCount e" "reAtMs e" t] aged_push [of "reHead e" "reCount e" "reWeightDg e" w]
  by (simp_all add: agedTimes_aged storeSample_def est_ok_def Let_def)

lemma store_ok:
  assumes "est_ok e" "agedTimes e \<noteq> [] \<Longrightarrow> hd (agedTimes e) < t"
    "agedTimes e \<noteq> [] \<Longrightarrow> t - last (agedTimes e) < RATE_WINDOW_MS"
  shows "est_ok (storeSample t w i e)"
proof -
  define ts where "ts = (if reCount e < RATE_CAPACITY then agedTimes e else butlast (agedTimes e))"
  have s: "sorted_wrt (>) (agedTimes e)" using assms(1) by (simp add: est_ok_def)
  have sub: "set ts \<subseteq> set (agedTimes e)" "sorted_wrt (>) ts"
    using s by (auto simp: ts_def butlast_conv_take sorted_wrt_take dest: in_set_takeD)
  have below: "x < t \<and> t - x < RATE_WINDOW_MS" if "x \<in> set ts" for x
  proof -
    have x: "x \<in> set (agedTimes e)" "agedTimes e \<noteq> []" using that sub by auto
    then show ?thesis using assms(2,3) desc_range [OF s x(1)] by linarith
  qed
  have ts: "agedTimes (storeSample t w i e) = t # ts" using store_times(1) [OF assms(1)] by (simp add: ts_def)
  have "hd (t # ts) - last (t # ts) < RATE_WINDOW_MS"
    using below by (cases ts rule: rev_cases) (auto simp: RATE_WINDOW_MS_def)
  moreover have "sorted_wrt (>) (t # ts)" using sub(2) below by simp
  moreover have "0 \<le> reRateX100 (storeSample t w i e) \<and> reRateX100 (storeSample t w i e) \<le> MAX_RATE_X100"
    unfolding storeSample_def Let_def using assms(1)
    by (auto simp: est_ok_def intro!: fit_rate [THEN conjunct1] fit_rate [THEN conjunct2])
  moreover have "rejectedRun (storeSample t w i e) \<le> MAX_CONSECUTIVE_REJECTIONS"
    "length (reAtMs (storeSample t w i e)) = RATE_CAPACITY" "length (reWeightDg (storeSample t w i e)) = RATE_CAPACITY"
    "reHead (storeSample t w i e) < RATE_CAPACITY" "reCount (storeSample t w i e) \<le> RATE_CAPACITY"
    using assms(1) by (simp_all add: storeSample_def est_ok_def Let_def MAX_CONSECUTIVE_REJECTIONS_def RATE_CAPACITY_def)
  ultimately show ?thesis unfolding est_ok_def ts by blast
qed

lemma count_times: "agedTimes e \<noteq> [] \<longleftrightarrow> reCount e > 0" "agedTimes e \<noteq> [] \<Longrightarrow> reHead e < RATE_CAPACITY \<Longrightarrow> hd (agedTimes e) = reAtMs e ! reHead e"
  by (auto simp: agedTimes_def hd_map rateIndex_def)

lemma push_ok:
  assumes "est_ok e"
  shows "est_ok (snd (ratePush t w e))"
proof (cases "reCount e > 0 \<and> t \<le> reAtMs e ! reHead e")
  case True
  then show ?thesis using assms by (simp add: ratePush_def)
next
  case False
  define e' where "e' = e\<lparr> reCount := trimCount e t (reCount e) \<rparr>"
  define i where "i = (if reCount e' > 0 then clamp16 w - predictedDg e' t else 0)"
  note tr = trim_ok [OF assms, of t, folded e'_def]
  have hd: "hd (agedTimes e') < t" if "agedTimes e' \<noteq> []"
  proof -
    have "agedTimes e \<noteq> []" using that tr(2) by auto
    then have "hd (agedTimes e) < t"
      using False count_times [of e] assms by (auto simp: est_ok_def)
    moreover have "hd (agedTimes e') = hd (agedTimes e)" using that tr(2) by (simp add: hd_take)
    ultimately show ?thesis by simp
  qed
  have r: "agedTimes (rateReset x) = []" for x by (simp add: agedTimes_def rateReset_def rateEstimator0_def)
  have a: "est_ok (storeSample t (clamp16 w) i e')" using store_ok [OF tr(1) hd tr(3)] by blast
  have b: "est_ok (storeSample t (clamp16 w) 0 (rateReset x))" for x
    using store_ok [OF est_reset_ok] r by metis
  have c: "est_ok (e'\<lparr> rejectedRun := k \<rparr>)" if "k \<le> MAX_CONSECUTIVE_REJECTIONS" for k
    using tr(1) that by (simp add: est_ok_def agedTimes_def rateIndex_def)
  show ?thesis
    using False a b c by (auto simp: ratePush_def e'_def [symmetric] i_def [symmetric] Let_def)
qed

definition samplesPushed :: "(int \<times> int) list \<Rightarrow> RateEstimator" where
  "samplesPushed samples = fold (\<lambda>(t, w) e. snd (ratePush t w e)) samples rateEstimator0"

lemma pushed_ok: "est_ok (samplesPushed samples)"
proof -
  have "est_ok (fold (\<lambda>(t, w) e. snd (ratePush t w e)) samples e0)" if "est_ok e0" for e0
    using that by (induction samples arbitrary: e0) (auto simp: push_ok)
  then show ?thesis using est_start_ok by (simp add: samplesPushed_def)
qed

text \<open>
  Whatever samples the scale delivers, in whatever order and with whatever
  weights, the estimator fits at most 32 samples whose times strictly decrease with age and
  span less than three seconds, and the rate it publishes is between 0 and 40 dg/s.
\<close>

lemma rate_window_bounded:
  assumes "e = samplesPushed samples"
  shows "length (agedTimes e) \<le> 32 \<and> sorted_wrt (>) (agedTimes e) \<and>
    (\<forall>x\<in>set (agedTimes e). \<forall>y\<in>set (agedTimes e). \<bar>x - y\<bar> < 3000) \<and>
    0 \<le> reRateX100 e \<and> reRateX100 e \<le> 4000"
proof -
  have ok: "est_ok e" using pushed_ok assms by simp
  then have s: "sorted_wrt (>) (agedTimes e)" by (simp add: est_ok_def)
  have "\<bar>x - y\<bar> < 3000" if "x \<in> set (agedTimes e)" "y \<in> set (agedTimes e)" for x y
  proof -
    have "hd (agedTimes e) - last (agedTimes e) < 3000"
      using ok that by (auto simp: est_ok_def RATE_WINDOW_MS_def)
    then show ?thesis using desc_range [OF s that(1)] desc_range [OF s that(2)] by linarith
  qed
  then show ?thesis using ok s by (simp add: est_ok_def agedTimes_def RATE_CAPACITY_def MAX_RATE_X100_def)
qed

lemma rate_window_bounded_witness:
  "reRateX100 (samplesPushed [(0, 0), (900, 20), (1800, 38), (2700, 61)]) \<le> 4000"
  using rate_window_bounded [OF refl, of "[(0, 0), (900, 20), (1800, 38), (2700, 61)]"] by blast

section \<open>A constant flow\<close>

text \<open>Samples on a line: the covariance is the slope times the variance.\<close>

definition onLine :: "int \<Rightarrow> int \<Rightarrow> int list \<Rightarrow> int list \<Rightarrow> bool" where
  "onLine c q ts ws \<longleftrightarrow> map (\<lambda>w. w * 100000) ws = map (\<lambda>t. c + q * t) ts"

lemma centred: "(t - base) * n - sum_list (map (\<lambda>t. t - base) ts) = t * n - sum_list ts"
  if "n = int (length ts)" for t base n :: int
proof -
  have "sum_list (map (\<lambda>t. t - base) ts) = sum_list ts - n * base"
    using that by (simp add: sum_list_subtractf sum_list_triv)
  then show ?thesis by (simp add: algebra_simps)
qed

lemma line_covariance:
  assumes "onLine c q ts ws"
  shows "sxyOf ts ws base * 100000 = q * sxxOf ts base"
proof -
  define n where "n = int (length ts)"
  define D where "D = (\<lambda>t. t * n - sum_list ts)"
  have l: "length ws = length ts" using assms by (metis onLine_def length_map)
  have "sum_list ws * 100000 = sum_list (map (\<lambda>t. c + q * t) ts)"
    using assms sum_list_mult_const [of "\<lambda>w. w" 100000 ws] by (simp add: onLine_def)
  also have "\<dots> = n * c + q * sum_list ts"
    by (simp add: sum_list_addf sum_list_const_mult sum_list_triv n_def)
  finally have sw: "sum_list ws * 100000 = n * c + q * sum_list ts" .
  have w: "(w * n - sum_list ws) * 100000 = q * D t" if tw: "(t, w) \<in> set (zip ts ws)" for t w
  proof -
    obtain i where "i < length ts" "t = ts ! i" "w = ws ! i" using tw by (auto simp: in_set_zip)
    then have "w * 100000 = c + q * t"
      using assms l nth_map [of i ws "\<lambda>w. w * 100000"] nth_map [of i ts "\<lambda>t. c + q * t"] by (simp add: onLine_def)
    moreover have "(w * n - sum_list ws) * 100000 = (w * 100000) * n - sum_list ws * 100000"
      by (simp only: left_diff_distrib mult_ac)
    ultimately have "(w * n - sum_list ws) * 100000 = (c + q * t) * n - (n * c + q * sum_list ts)"
      using sw by metis
    also have "\<dots> = q * D t" unfolding D_def by (simp only: algebra_simps)
    finally show ?thesis .
  qed
  have "sxyOf ts ws base * 100000 = sum_list (map (\<lambda>(t, w). D t * ((w * n - sum_list ws) * 100000)) (zip ts ws))"
    unfolding sxyOf_def Let_def centred [OF n_def] n_def [symmetric] D_def
    by (simp add: sum_list_mult_const [symmetric] case_prod_unfold mult.assoc)
  also have "map (\<lambda>(t, w). D t * ((w * n - sum_list ws) * 100000)) (zip ts ws) =
      map (\<lambda>(t, w). q * (D t * D t)) (zip ts ws)"
    using w by (intro map_cong) (auto simp: ac_simps)
  also have "\<dots> = map (\<lambda>t. q * (D t * D t)) (map fst (zip ts ws))" by (simp add: case_prod_unfold)
  also have "map fst (zip ts ws) = ts" using l by simp
  also have "sum_list (map (\<lambda>t. q * (D t * D t)) ts) = q * sxxOf ts base"
    unfolding sxxOf_def Let_def centred [OF n_def] n_def [symmetric] D_def
    by (simp add: sum_list_const_mult)
  finally show ?thesis .
qed

lemma sxx_pos:
  assumes "x \<in> set ts" "y \<in> set ts" "x \<noteq> y"
  shows "0 < sxxOf ts base"
proof -
  define n where "n = int (length ts)"
  define D where "D = (\<lambda>t. t * n - sum_list ts)"
  have n: "0 < n" using assms(1) by (auto simp: n_def length_pos_if_in_set)
  have s: "sxxOf ts base = sum_list (map (\<lambda>t. D t * D t) ts)"
    unfolding sxxOf_def Let_def centred [OF n_def] n_def [symmetric] D_def by simp
  have "sum_list (map (\<lambda>t. D t * D t) ts) \<noteq> 0"
  proof
    assume "sum_list (map (\<lambda>t. D t * D t) ts) = 0"
    then have "\<forall>z\<in>set ts. D z = 0" by (subst (asm) sum_list_nonneg_eq_0_iff) auto
    then have "D x = 0" "D y = 0" using assms(1,2) by blast+
    then have "x * n = y * n" by (simp add: D_def)
    then show False using n assms(3) by simp
  qed
  moreover have "0 \<le> sum_list (map (\<lambda>t. D t * D t) ts)" by (intro sum_list_nonneg) auto
  ultimately show ?thesis unfolding s by linarith
qed

lemma sdiv_exact: "0 < b \<Longrightarrow> (q * b) sdiv b = (q :: int)"
  by (simp add: signed_divide_int_def sgn_mult abs_mult sgn_mult_abs)

lemma last_time: "agedTimes e \<noteq> [] \<Longrightarrow> last (agedTimes e) = reAtMs e ! rateIndex e (reCount e - 1)"
  by (simp add: last_conv_nth) (simp add: agedTimes_def)

lemma fit_line:
  assumes "onLine c q (agedTimes e) (agedWeights e)" "RATE_MIN_SAMPLES \<le> reCount e" "reHead e < RATE_CAPACITY"
    and span: "RATE_MIN_SPAN_MS \<le> hd (agedTimes e) - last (agedTimes e)"
    and small: "\<bar>q\<bar> \<le> 1000000000"
  shows "reValid (rateFit e)" "rawX100 (rateFit e) = q" "reRateX100 (rateFit e) = max 0 (min q MAX_RATE_X100)"
proof -
  have ne: "agedTimes e \<noteq> []" using assms(2) by (simp add: agedTimes_def RATE_MIN_SAMPLES_def)
  have ends: "hd (agedTimes e) = reAtMs e ! reHead e" "last (agedTimes e) = reAtMs e ! rateIndex e (reCount e - 1)"
    using count_times(2) [OF ne assms(3)] last_time [OF ne] by simp_all
  have pos: "0 < sxxOf (agedTimes e) (reAtMs e ! reHead e)"
    by (rule sxx_pos [of "hd (agedTimes e)" _ "last (agedTimes e)"])
      (use ne span in \<open>auto simp: RATE_MIN_SPAN_MS_def\<close>)
  have raw: "(sxyOf (agedTimes e) (agedWeights e) (reAtMs e ! reHead e) * 100000) sdiv sxxOf (agedTimes e) (reAtMs e ! reHead e) = q"
    unfolding line_covariance [OF assms(1)] by (rule sdiv_exact [OF pos])
  have guard: "\<not> (reCount e < RATE_MIN_SAMPLES \<or> reAtMs e ! reHead e - reAtMs e ! rateIndex e (reCount e - 1) < RATE_MIN_SPAN_MS)"
    using assms(2) span ends by simp
  have half: "INT32_MAX sdiv 2 = 1073741823" "(- INT32_MAX) sdiv 2 = - 1073741823" by (simp_all add: INT32_MAX_def)
  have inv: "agedTimes (e\<lparr> reValid := False \<rparr>) = agedTimes e" "agedWeights (e\<lparr> reValid := False \<rparr>) = agedWeights e"
    "rateIndex (e\<lparr> reValid := False \<rparr>) = rateIndex e" "reAtMs (e\<lparr> reValid := False \<rparr>) = reAtMs e"
    "reHead (e\<lparr> reValid := False \<rparr>) = reHead e" "reCount (e\<lparr> reValid := False \<rparr>) = reCount e"
    by (simp_all add: agedTimes_def agedWeights_def rateIndex_def fun_eq_iff)
  have bounds: "\<not> sxxOf (agedTimes e) (reAtMs e ! reHead e) \<le> 0" "\<not> 1073741823 < q" "\<not> q < - 1073741823"
    using pos small by linarith+
  have rate: "(if MAX_RATE_X100 < (if q < 0 then 0 else q) then MAX_RATE_X100 else if q < 0 then 0 else q)
      = max 0 (min q MAX_RATE_X100)" by (simp add: MAX_RATE_X100_def)
  have f: "rateFit e = e\<lparr> reValid := False, rawX100 := q, reRateX100 := max 0 (min q MAX_RATE_X100), reValid := True \<rparr>"
    unfolding rateFit_def Let_def inv raw half if_not_P [OF guard] if_not_P [OF bounds(1)]
      if_not_P [OF bounds(2)] if_not_P [OF bounds(3)] rate ..
  show "reValid (rateFit e)" "rawX100 (rateFit e) = q" "reRateX100 (rateFit e) = max 0 (min q MAX_RATE_X100)"
    by (simp_all add: f)
qed

text \<open>What an accepted sample publishes is the fit over the ring that holds it.\<close>

lemma store_fits:
  "\<exists>e1 rates run ch. storeSample t w i e0 =
     rateFit e1\<lparr> reRawRateX100 := rates, channelingRun := run, channeling := ch \<rparr>"
  unfolding storeSample_def updateChanneling_def Let_def by blast

lemma accepted_stores: "ratePush t w e0 = (RATE_ACCEPTED, e) \<Longrightarrow> \<exists>i e1. e = storeSample t (clamp16 w) i e1"
  by (auto simp: ratePush_def Let_def split: if_splits)

text \<open>
  Property C24. A constant flow is measured exactly: when every sample in the window lies on
  a line of q hundredths of a decigram per second, and the window holds at least four samples
  over at least two seconds, an accepted sample leaves a valid estimate whose slope is q
  itself, with no rounding, and the published rate is q cut to the range 0 to 40 dg/s.
\<close>

theorem constant_flow_is_exact:
  assumes push: "ratePush t w (samplesPushed samples) = (RATE_ACCEPTED, e)"
    and line: "onLine c q (agedTimes e) (agedWeights e)"
    and enough: "4 \<le> length (agedTimes e)" "2000 \<le> hd (agedTimes e) - last (agedTimes e)"
    and small: "\<bar>q\<bar> \<le> 1000000000"
  shows "reValid e \<and> rawX100 e = q \<and> reRateX100 e = max 0 (min q 4000)"
proof -
  obtain e1 rates run ch where e: "e = rateFit e1\<lparr> reRawRateX100 := rates, channelingRun := run, channeling := ch \<rparr>"
    using accepted_stores [OF push] store_fits by metis
  have same: "agedTimes e1 = agedTimes e" "agedWeights e1 = agedWeights e" "reHead e1 = reHead e" "reCount e1 = reCount e"
    by (simp_all add: e agedTimes_def agedWeights_def rateIndex_def)
  have "reHead e < RATE_CAPACITY" using push_ok [OF pushed_ok, of t w samples] push by (simp add: est_ok_def)
  moreover have "RATE_MIN_SAMPLES \<le> reCount e" using enough(1) by (simp add: agedTimes_def RATE_MIN_SAMPLES_def)
  ultimately show ?thesis
    using fit_line [of c q e1] line enough(2) small unfolding same
    by (simp add: e RATE_MIN_SPAN_MS_def MAX_RATE_X100_def)
qed

theorem constant_flow_is_exact_witness:
  "rawX100 (snd (ratePush 2100 24 (samplesPushed [(0, 3), (700, 10), (1400, 17)]))) = 1000"
proof -
  define e where "e = snd (ratePush 2100 24 (samplesPushed [(0, 3), (700, 10), (1400, 17)]))"
  have "fst (ratePush 2100 24 (samplesPushed [(0, 3), (700, 10), (1400, 17)])) = RATE_ACCEPTED"
    by code_simp
  then have "ratePush 2100 24 (samplesPushed [(0, 3), (700, 10), (1400, 17)]) = (RATE_ACCEPTED, e)"
    by (simp add: e_def prod_eq_iff)
  moreover have "agedTimes e = [2100, 1400, 700, 0]" "agedWeights e = [24, 17, 10, 3]"
    unfolding e_def by code_simp+
  ultimately show ?thesis
    using constant_flow_is_exact [of 2100 24 "[(0, 3), (700, 10), (1400, 17)]" e 300000 1000]
    by (simp add: onLine_def e_def)
qed

end
