(* ===== verification/Arrival_Stats.thy ===== *)
theory Arrival_Stats
  imports Rate_Estimator
begin

text \<open>
  The shot statistics of \<open>src/OpenBrewByWeightCorridor.h\<close>: which rows of the shot log count for
  a preset, the selection of the ten newest of them, and the medians and spreads computed
  from the selection. Record ids keep their 32 bits, times are integers in milliseconds.
\<close>

section \<open>Rows and scope\<close>

definition STATS_MAX_SHOTS :: nat where "STATS_MAX_SHOTS = 10"
definition STATS_SIGMA_FLOOR_MS :: int where "STATS_SIGMA_FLOOR_MS = 750"
definition STATS_GOAL_TOLERANCE_DG :: int where "STATS_GOAL_TOLERANCE_DG = 10"

record ArrivalRecord =
  rwRecordId :: u32
  rwPresetId :: u8
  rwEndReason :: u8
  rwVerdict :: u8
  rwArrivalMs :: int
  rwFirstDropMs :: int
  rwFastBeforeMs :: int
  rwSlowAfterMs :: int
  rwGoalDg :: int
  rwDurationMs :: int
  rwFinalWeightDg :: int
  rwAvgFlowCgS :: "16 word"

record StatsScope =
  scPresetId :: u8
  scEpoch :: u32
  scFastBeforeMs :: int
  scSlowAfterMs :: int
  scGoalDg :: int

definition censoredArrival :: "ArrivalRecord \<Rightarrow> bool" where
  "censoredArrival r \<longleftrightarrow>
     rwEndReason r \<in> endReasonCode ` {CONFIGURED_WALL_LIMIT, GLOBAL_LIMIT, SLOW_EXTRACTION_MAX_TIME,
       END_ACTIVATOR, WEB_STOP, PHYSICAL_OVERRIDE} \<and>
     rwDurationMs r > rwSlowAfterMs r \<and> rwFinalWeightDg r * 10 \<ge> rwGoalDg r \<and>
     rwFinalWeightDg r < rwGoalDg r"

definition hintArrivalMs :: "ArrivalRecord \<Rightarrow> int" where
  "hintArrivalMs r =
     (if censoredArrival r \<and> rwDurationMs r > rwArrivalMs r then rwDurationMs r else rwArrivalMs r)"

definition clampedArrival :: "ArrivalRecord \<Rightarrow> bool" where
  "clampedArrival r \<longleftrightarrow>
     (let shift = rwArrivalMs r - rwDurationMs r in
      rwDurationMs r > 0 \<and> rwArrivalMs r > 0 \<and>
      (shift \<ge> ARRIVAL_CLAMP_MS - 100 \<or> - shift \<ge> ARRIVAL_CLAMP_MS - 100))"

definition hintAdmissible :: "ArrivalRecord \<Rightarrow> StatsScope \<Rightarrow> bool" where
  "hintAdmissible r s \<longleftrightarrow>
     rwPresetId r = scPresetId s \<and> rwFastBeforeMs r = scFastBeforeMs s \<and>
     rwSlowAfterMs r = scSlowAfterMs s \<and> rwGoalDg r - scGoalDg s \<le> STATS_GOAL_TOLERANCE_DG \<and>
     scGoalDg s - rwGoalDg r \<le> STATS_GOAL_TOLERANCE_DG \<and> \<not> channelingOf (rwVerdict r) \<and>
     \<not> blindOf (rwVerdict r) \<and>
     (censoredArrival r \<or>
      weightCutReason (rwEndReason r) \<and> verdictOf (rwVerdict r) \<noteq> UNCLASSIFIED \<and> rwArrivalMs r > 0)"

definition admissibleArrival :: "ArrivalRecord \<Rightarrow> StatsScope \<Rightarrow> bool" where
  "admissibleArrival r s \<longleftrightarrow> rwRecordId r \<ge> scEpoch s \<and> weightCutReason (rwEndReason r) \<and> hintAdmissible r s"

section \<open>The ten newest\<close>

text \<open>The index of the smallest id, the first one on a tie; then the slot and the updated arrays.\<close>

definition oldestSlot :: "u32 list \<Rightarrow> nat \<Rightarrow> nat" where
  "oldestSlot ids n = fold (\<lambda>j slot. if ids ! j < ids ! slot then j else slot) [1..<n] 0"

definition newestSlot :: "u32 list \<Rightarrow> nat \<Rightarrow> u32 \<Rightarrow> (nat \<times> u32 list \<times> nat) option" where
  "newestSlot ids n recordId =
     (if n = STATS_MAX_SHOTS then
        (let slot = oldestSlot ids n in
         if ids ! slot \<ge> recordId then None else Some (slot, ids[slot := recordId], n))
      else Some (n, ids[n := recordId], n + 1))"

text \<open>The local arrays of the three loops: ids, values and the number in use.\<close>

record Newest =
  nwIds :: "u32 list"
  nwValues :: "int list"
  nwCount :: nat

definition newest0 :: Newest where
  "newest0 = \<lparr> nwIds = replicate STATS_MAX_SHOTS 0, nwValues = replicate STATS_MAX_SHOTS 0, nwCount = 0 \<rparr>"

definition keepNewest :: "u32 \<Rightarrow> int \<Rightarrow> Newest \<Rightarrow> Newest" where
  "keepNewest recordId v k =
     (case newestSlot (nwIds k) (nwCount k) recordId of
        None \<Rightarrow> k
      | Some (slot, ids, n) \<Rightarrow> \<lparr> nwIds = ids, nwValues = (nwValues k)[slot := v], nwCount = n \<rparr>)"

definition plateauFlowX100 :: "ArrivalRecord list \<Rightarrow> StatsScope \<Rightarrow> int" where
  "plateauFlowX100 rows scope =
     (let k = fold (\<lambda>r k. if \<not> hintAdmissible r scope \<or> rwAvgFlowCgS r = 0 then k
                          else keepNewest (rwRecordId r) ((uint (rwAvgFlowCgS r) * 40) sdiv 3) k) rows newest0
      in if nwCount k = 0 then 0
         else medianOfSorted (sortSmall (take (nwCount k) (nwValues k))))"

definition UINT16_MAX :: nat where "UINT16_MAX = 65535"

text \<open>The statistics and the ascending arrivals the caller may ask for.\<close>

definition arrivalStatsOf :: "ArrivalRecord list \<Rightarrow> StatsScope \<Rightarrow> ArrivalStats \<times> int list" where
  "arrivalStatsOf rows scope =
     (let (k, total) = fold (\<lambda>r (k, total).
            if \<not> admissibleArrival r scope then (k, total)
            else (keepNewest (rwRecordId r) (rwArrivalMs r) k, if total < UINT16_MAX then total + 1 else total))
            rows (newest0, 0);
          out = arrivalStats0\<lparr> stN := nwCount k, stTotal := total \<rparr>
      in if nwCount k = 0 then (out, [])
         else
           let kept = sortSmall (take (nwCount k) (nwValues k));
               median = medianOfSorted kept;
               sigma = toI32 ((madOf kept median * 14826) sdiv 10000)
           in (out\<lparr> stMinMs := kept ! 0, stMaxMs := kept ! (nwCount k - 1), stMedianMs := median,
                    stSigmaMs := (if sigma > STATS_SIGMA_FLOOR_MS then sigma else STATS_SIGMA_FLOOR_MS) \<rparr>, kept))"

definition arrivalStats :: "ArrivalRecord list \<Rightarrow> u8 \<Rightarrow> u32 \<Rightarrow> ArrivalStats" where
  "arrivalStats records presetId epoch =
     fst (arrivalStatsOf records
       \<lparr> scPresetId = presetId, scEpoch = epoch, scFastBeforeMs = 0, scSlowAfterMs = 0, scGoalDg = 0 \<rparr>)"

record FirstDropStats =
  fdN :: nat
  fdMedianMs :: int

definition firstDropCounts :: "ArrivalRecord \<Rightarrow> u8 \<Rightarrow> u32 \<Rightarrow> bool \<Rightarrow> bool" where
  "firstDropCounts r presetId epoch otherPresets \<longleftrightarrow>
     (let own = (rwPresetId r = presetId) in
      \<not> (rwFirstDropMs r \<le> 0 \<or> (if otherPresets then own else \<not> own \<or> rwRecordId r < epoch)))"

definition firstDropStatsOf :: "ArrivalRecord list \<Rightarrow> u8 \<Rightarrow> u32 \<Rightarrow> bool \<Rightarrow> FirstDropStats" where
  "firstDropStatsOf rows presetId epoch otherPresets =
     (let k = fold (\<lambda>r k. if \<not> firstDropCounts r presetId epoch otherPresets then k
                          else keepNewest (rwRecordId r) (rwFirstDropMs r) k) rows newest0
      in \<lparr> fdN = nwCount k, fdMedianMs = medianOfSorted (sortSmall (take (nwCount k) (nwValues k))) \<rparr>)"

section \<open>The selection is the newest\<close>

text \<open>Pairs of id and value, newest first, and the pairs the arrays hold.\<close>

definition byAge :: "u32 \<times> int \<Rightarrow> int" where "byAge p = - uint (fst p)"

definition newestTen :: "(u32 \<times> int) list \<Rightarrow> (u32 \<times> int) list" where
  "newestTen ps = take STATS_MAX_SHOTS (sort_key byAge ps)"

definition heldPairs :: "Newest \<Rightarrow> (u32 \<times> int) list" where
  "heldPairs k = take (nwCount k) (zip (nwIds k) (nwValues k))"

lemma byAge_inj: "byAge p = byAge q \<longleftrightarrow> fst p = fst q"
  by (simp add: byAge_def word_uint_eq_iff)

lemma byAge_less: "byAge p < byAge q \<longleftrightarrow> fst q < fst p" "byAge p \<le> byAge q \<longleftrightarrow> fst q \<le> fst p"
  by (simp_all add: byAge_def word_less_def word_le_def)

lemma take_insort_key: "take n (insort_key f x (take n xs)) = take n (insort_key f x xs)"
proof (induction xs arbitrary: n)
  case (Cons y ys)
  then show ?case by (cases n) (auto simp: take_Cons')
qed simp

lemma sort_key_snoc: "distinct (map f (ps @ [x])) \<Longrightarrow> sort_key f (ps @ [x]) = insort_key f x (sort_key f ps)"
proof (induction ps)
  case (Cons y ps)
  then have "f x \<noteq> f y" "distinct (map f (ps @ [x]))" by auto
  then show ?case using Cons.IH by (simp add: insort_key_left_comm)
qed simp

lemma insort_key_largest: "\<forall>y\<in>set ys. f y < f x \<Longrightarrow> insort_key f x ys = ys @ [x]"
  by (induction ys) auto

lemma insort_key_before: "f x < f z \<Longrightarrow> insort_key f x (ys @ [z]) = insort_key f x ys @ [z]"
  by (induction ys) auto

lemma newestTen_snoc:
  assumes "distinct (map fst (ps @ [x]))"
  shows "newestTen (ps @ [x]) = take STATS_MAX_SHOTS (insort_key byAge x (newestTen ps))"
proof -
  have "map byAge (ps @ [x]) = map (\<lambda>i. - uint i) (map fst (ps @ [x]))" by (simp add: byAge_def)
  also have "distinct \<dots>"
    unfolding distinct_map [of "\<lambda>i. - uint i"] using assms by (simp add: inj_on_def word_uint_eq_iff)
  finally have "distinct (map byAge (ps @ [x]))" .
  then show ?thesis by (simp only: newestTen_def sort_key_snoc take_insort_key)
qed

lemma newestTen_set: "set (newestTen ps) \<subseteq> set ps" "length (newestTen ps) = min STATS_MAX_SHOTS (length ps)"
  using set_take_subset [of STATS_MAX_SHOTS "sort_key byAge ps"] by (auto simp: newestTen_def)

lemma newestTen_sorted: "sorted (map byAge (newestTen ps))"
  by (simp add: newestTen_def take_map [symmetric] sorted_wrt_take)

lemma oldestSlot_min:
  assumes "0 < n"
  shows "oldestSlot ids n < n \<and> (\<forall>j<n. ids ! oldestSlot ids n \<le> ids ! j)"
proof -
  have "let slot = fold (\<lambda>j slot. if ids ! j < ids ! slot then j else slot) [1..<Suc n] 0 in
      slot \<le> n \<and> (\<forall>j\<le>n. ids ! slot \<le> ids ! j)" for n
  proof (induction n)
    case (Suc n)
    then show ?case by (auto simp: Let_def le_Suc_eq)
  qed simp
  then show ?thesis using assms unfolding oldestSlot_def Let_def by (cases n) (auto simp: less_Suc_eq_le simp del: upt_Suc)
qed

definition held_ok :: "Newest \<Rightarrow> bool" where
  "held_ok k \<longleftrightarrow> length (nwIds k) = STATS_MAX_SHOTS \<and> length (nwValues k) = STATS_MAX_SHOTS \<and> nwCount k \<le> STATS_MAX_SHOTS"

lemma held_length: "held_ok k \<Longrightarrow> length (heldPairs k) = nwCount k"
  by (simp add: held_ok_def heldPairs_def)

lemma held_nth: "held_ok k \<Longrightarrow> j < nwCount k \<Longrightarrow> heldPairs k ! j = (nwIds k ! j, nwValues k ! j)"
  by (simp add: held_ok_def heldPairs_def)

lemma zip_update: "zip (xs[n := x]) (ys[n := y]) = (zip xs ys)[n := (x, y)]"
  by (simp add: update_zip)

lemma keep_free:
  assumes "held_ok k" "nwCount k < STATS_MAX_SHOTS"
  shows "held_ok (keepNewest i v k)" "heldPairs (keepNewest i v k) = heldPairs k @ [(i, v)]"
proof -
  have k: "keepNewest i v k = \<lparr> nwIds = (nwIds k)[nwCount k := i], nwValues = (nwValues k)[nwCount k := v], nwCount = nwCount k + 1 \<rparr>"
    using assms(2) by (simp add: keepNewest_def newestSlot_def)
  show "held_ok (keepNewest i v k)" using assms by (simp add: k held_ok_def)
  show "heldPairs (keepNewest i v k) = heldPairs k @ [(i, v)]"
    using assms by (simp add: k heldPairs_def held_ok_def zip_update take_Suc_conv_app_nth)
qed

lemma keep_full:
  assumes "held_ok k" "nwCount k = STATS_MAX_SHOTS"
  defines "slot \<equiv> oldestSlot (nwIds k) STATS_MAX_SHOTS"
  shows "held_ok (keepNewest i v k)"
    and "heldPairs (keepNewest i v k) =
      (if nwIds k ! slot \<ge> i then heldPairs k else (heldPairs k)[slot := (i, v)])"
  using assms
  by (simp_all add: keepNewest_def newestSlot_def Let_def heldPairs_def held_ok_def zip_update)

lemma desc_last: "sorted (map f T) \<Longrightarrow> z \<in> set T \<Longrightarrow> f z \<le> f (last T)"
  by (induction T) auto

lemma newest_last:
  assumes "distinct (map fst ps)" "T = newestTen ps" "z \<in> set (newestTen ps)"
    and "\<And>y. y \<in> set (newestTen ps) \<Longrightarrow> fst z \<le> fst y"
  shows "last T = z"
proof -
  have ne: "T \<noteq> []" using assms(2,3) by auto
  have "mset (map fst (sort_key byAge ps)) = mset (map fst ps)" by simp
  then have "distinct (map fst (sort_key byAge ps))" using assms(1) mset_eq_imp_distinct_iff by blast
  then have inj: "distinct (map fst T)" by (simp add: assms(2) newestTen_def take_map [symmetric] distinct_take)
  have "sorted (map byAge T)" using newestTen_sorted by (simp add: assms(2))
  then have "byAge z \<le> byAge (last T)"
    using assms(2,3) ne by (metis desc_last)
  then have "fst (last T) = fst z" using assms(2,4) ne by (simp add: byAge_less) (metis last_in_set order_antisym)
  then show ?thesis using inj assms(2,3) ne by (metis distinct_map inj_onD last_in_set)
qed

lemma keep_newest:
  assumes ok: "held_ok k" and ms: "mset (heldPairs k) = mset (newestTen ps)"
    and d: "distinct (map fst (ps @ [(i, v)]))"
  shows "held_ok (keepNewest i v k) \<and> mset (heldPairs (keepNewest i v k)) = mset (newestTen (ps @ [(i, v)]))"
proof (cases "nwCount k < STATS_MAX_SHOTS")
  case True
  have "length (newestTen ps) = nwCount k" using ms held_length [OF ok] by (metis size_mset)
  then have "newestTen (ps @ [(i, v)]) = insort_key byAge (i, v) (newestTen ps)"
    using True newestTen_snoc [OF d] by simp
  then show ?thesis using keep_free [OF ok True] ms by simp
next
  case False
  then have full: "nwCount k = STATS_MAX_SHOTS" using ok by (simp add: held_ok_def)
  define slot where "slot = oldestSlot (nwIds k) STATS_MAX_SHOTS"
  define T where "T = newestTen ps"
  have l: "length T = STATS_MAX_SHOTS" using ms full held_length [OF ok] by (metis size_mset T_def)
  have slot: "slot < STATS_MAX_SHOTS" "\<forall>j<STATS_MAX_SHOTS. nwIds k ! slot \<le> nwIds k ! j"
    using oldestSlot_min [of STATS_MAX_SHOTS "nwIds k"] by (simp_all add: slot_def STATS_MAX_SHOTS_def)
  have held: "heldPairs k ! j = (nwIds k ! j, nwValues k ! j)" if "j < STATS_MAX_SHOTS" for j
    using held_nth [OF ok] full that by simp
  have sets: "set (heldPairs k) = set T" using ms by (metis T_def set_mset_mset)
  have low: "nwIds k ! slot \<le> fst y" if "y \<in> set T" for y
  proof -
    have "y \<in> set (heldPairs k)" using that sets by simp
    then obtain j where "j < STATS_MAX_SHOTS" "heldPairs k ! j = y"
      using full held_length [OF ok] by (metis in_set_conv_nth)
    then show ?thesis using slot(2) held by (metis fst_conv)
  qed
  have "heldPairs k ! slot \<in> set T" using slot(1) full held_length [OF ok] sets by (metis nth_mem)
  then have z: "last T = heldPairs k ! slot"
    using newest_last [of ps T "heldPairs k ! slot"] d low held [OF slot(1)] by (simp add: T_def)
  have i: "i \<notin> fst ` set T" using d newestTen_set(1) [of ps] by (auto simp: T_def)
  have new: "newestTen (ps @ [(i, v)]) = take STATS_MAX_SHOTS (insort_key byAge (i, v) T)"
    using newestTen_snoc [OF d] by (simp add: T_def)
  have ne: "T \<noteq> []" using l by (auto simp: STATS_MAX_SHOTS_def)
  show ?thesis
  proof (cases "nwIds k ! slot \<ge> i")
    case True
    have "\<forall>y\<in>set T. i < fst y"
    proof
      fix y
      assume y: "y \<in> set T"
      then have "nwIds k ! slot \<le> fst y" by (rule low)
      then show "i < fst y" using True i y by (metis image_eqI order_le_less_trans order_less_le)
    qed
    then have "insort_key byAge (i, v) T = T @ [(i, v)]"
      by (intro insort_key_largest) (simp add: byAge_less)
    then show ?thesis using keep_full [OF ok full] True ms l new by (simp add: slot_def T_def)
  next
    case False
    have "insort_key byAge (i, v) (butlast T @ [last T]) = insort_key byAge (i, v) (butlast T) @ [last T]"
      using insort_key_before [of byAge "(i, v)" "last T" "butlast T"] False z slot held ne
      by (simp add: byAge_less)
    then have "insort_key byAge (i, v) T = insort_key byAge (i, v) (butlast T) @ [last T]" using ne by simp
    moreover have "length (insort_key byAge (i, v) (butlast T)) = STATS_MAX_SHOTS"
      using l by (simp add: STATS_MAX_SHOTS_def)
    ultimately have "mset (newestTen (ps @ [(i, v)])) = add_mset (i, v) (mset (butlast T))"
      using new by simp
    also have "mset (butlast T) = mset T - {#heldPairs k ! slot#}"
    proof -
      have "mset (butlast T @ [last T]) = mset T" using ne by simp
      then have "mset T = add_mset (last T) (mset (butlast T))" by simp
      then show ?thesis using z by simp
    qed
    finally show ?thesis
      using keep_full [OF ok full, of i v] False ms slot held_length [OF ok] full
      by (simp add: slot_def [symmetric] T_def mset_update)
  qed
qed

section \<open>The statistics\<close>

text \<open>The loops over the rows, as one fold over the pairs they admit.\<close>

definition keepAll :: "(u32 \<times> int) list \<Rightarrow> Newest" where
  "keepAll ps = fold (\<lambda>(i, v) k. keepNewest i v k) ps newest0"

lemma Min_sorted: "sorted xs \<Longrightarrow> xs \<noteq> [] \<Longrightarrow> Min (set xs) = hd xs"
  by (cases xs) (auto intro: Min_eqI)

lemma Max_sorted: "sorted xs \<Longrightarrow> xs \<noteq> [] \<Longrightarrow> Max (set xs) = last xs"
  by (induction xs) (auto intro!: Max_eqI split: if_splits)

lemma fold_guarded: "fold (\<lambda>r k. if P r then k else f r k) rs k0 = fold f (filter (\<lambda>r. \<not> P r) rs) k0"
  by (induction rs arbitrary: k0) auto

lemma keep_all:
  assumes "distinct (map fst ps)"
  shows "held_ok (keepAll ps) \<and> mset (heldPairs (keepAll ps)) = mset (newestTen ps)"
  using assms
proof (induction ps rule: rev_induct)
  case Nil
  then show ?case by (simp add: keepAll_def newest0_def held_ok_def heldPairs_def newestTen_def STATS_MAX_SHOTS_def)
next
  case (snoc p ps)
  obtain i v where p: "p = (i, v)" by (cases p)
  have "keepAll (ps @ [p]) = keepNewest i v (keepAll ps)" by (simp add: keepAll_def p)
  moreover have "distinct (map fst ps)" using snoc.prems by simp
  ultimately show ?case using keep_newest [of "keepAll ps" ps i v] snoc p by simp
qed

lemma held_values:
  assumes "distinct (map fst ps)"
  shows "sort (take (nwCount (keepAll ps)) (nwValues (keepAll ps))) = sort (map snd (newestTen ps))"
    and "nwCount (keepAll ps) = length (newestTen ps)"
proof -
  note k = keep_all [OF assms]
  have "take (nwCount (keepAll ps)) (nwValues (keepAll ps)) = map snd (heldPairs (keepAll ps))"
    using k by (simp add: heldPairs_def held_ok_def take_map [symmetric])
  moreover have "mset (map snd (heldPairs (keepAll ps))) = mset (map snd (newestTen ps))" using k by simp
  ultimately show "sort (take (nwCount (keepAll ps)) (nwValues (keepAll ps))) = sort (map snd (newestTen ps))"
    by (metis sorted_list_of_multiset_mset)
  show "nwCount (keepAll ps) = length (newestTen ps)" using k held_length by (metis size_mset)
qed

lemma stats_fold:
  "fold (\<lambda>r (k, total). if \<not> admissibleArrival r scope then (k, total)
     else (keepNewest (rwRecordId r) (rwArrivalMs r) k, if total < UINT16_MAX then total + 1 else total)) rows (newest0, 0)
   = (keepAll (map (\<lambda>r. (rwRecordId r, rwArrivalMs r)) (filter (\<lambda>r. admissibleArrival r scope) rows)),
      min UINT16_MAX (length (filter (\<lambda>r. admissibleArrival r scope) rows)))"
proof (induction rows rule: rev_induct)
  case (snoc r rows)
  then show ?case by (simp add: keepAll_def min_def)
qed (simp add: keepAll_def)

text \<open>What the statistics mean, without arrays: the sorted arrivals of the ten newest admissible rows.\<close>

definition newestArrivals :: "ArrivalRecord list \<Rightarrow> StatsScope \<Rightarrow> int list" where
  "newestArrivals rows scope =
     sort (map snd (newestTen (map (\<lambda>r. (rwRecordId r, rwArrivalMs r)) (filter (\<lambda>r. admissibleArrival r scope) rows))))"

definition robustSigma :: "int list \<Rightarrow> int" where
  "robustSigma ts = max STATS_SIGMA_FLOOR_MS (toI32 ((madOf ts (medianOfSorted ts) * 14826) sdiv 10000))"

text \<open>
  The shot statistics are those of the ten newest admissible shots: whatever
  the order of the rows in the log, as long as their ids differ, the caller gets exactly the
  sorted arrival times of the ten admissible rows with the largest ids, their number, their
  extremes, their median and the spread of at least 750 ms, and the count of all admissible
  rows, cut at 65535.
\<close>

lemma stats_are_of_newest_ten:
  assumes "distinct (map rwRecordId rows)"
  shows "arrivalStatsOf rows scope =
    (let ts = newestArrivals rows scope; total = min 65535 (length (filter (\<lambda>r. admissibleArrival r scope) rows)) in
     if ts = [] then (arrivalStats0\<lparr> stTotal := total \<rparr>, [])
     else (\<lparr> stN = length ts, stMinMs = Min (set ts), stMaxMs = Max (set ts),
             stMedianMs = medianOfSorted ts, stSigmaMs = robustSigma ts, stTotal = total \<rparr>, ts))"
proof -
  define ps where "ps = map (\<lambda>r. (rwRecordId r, rwArrivalMs r)) (filter (\<lambda>r. admissibleArrival r scope) rows)"
  define ts where "ts = newestArrivals rows scope"
  have "map fst ps = map rwRecordId (filter (\<lambda>r. admissibleArrival r scope) rows)" by (simp add: ps_def)
  then have "distinct (map fst ps)" using assms by (simp add: distinct_map_filter)
  note k = held_values [OF this]
  have t: "sort (take (nwCount (keepAll ps)) (nwValues (keepAll ps))) = ts" "nwCount (keepAll ps) = length ts"
    using k by (simp_all add: ts_def newestArrivals_def ps_def)
  have s: "sorted ts" by (simp add: ts_def newestArrivals_def)
  have ends: "ts ! 0 = Min (set ts)" "ts ! (length ts - 1) = Max (set ts)" if "ts \<noteq> []"
    using Min_sorted [OF s that] Max_sorted [OF s that] by (simp_all add: hd_conv_nth [OF that] last_conv_nth [OF that])
  show ?thesis
    unfolding arrivalStatsOf_def stats_fold ps_def [symmetric] Let_def ts_def [symmetric]
    using t ends by (simp add: arrivalStats0_def robustSigma_def max_def UINT16_MAX_def)
qed

definition statsExample :: "ArrivalRecord list" where
  "statsExample = map (\<lambda>(i, t). \<lparr> rwRecordId = i, rwPresetId = 1, rwEndReason = endReasonCode SCALE_THRESHOLD,
     rwVerdict = 0, rwArrivalMs = t, rwFirstDropMs = 6000, rwFastBeforeMs = 25000, rwSlowAfterMs = 30000,
     rwGoalDg = 360, rwDurationMs = t, rwFinalWeightDg = 360, rwAvgFlowCgS = 180 \<rparr>)
     [(7, 26000), (9, 31000), (8, 28000)]"

definition statsExampleScope :: StatsScope where
  "statsExampleScope = \<lparr> scPresetId = 1, scEpoch = 8, scFastBeforeMs = 25000, scSlowAfterMs = 30000, scGoalDg = 360 \<rparr>"

lemma stats_are_of_newest_ten_witness:
  "stMedianMs (fst (arrivalStatsOf statsExample statsExampleScope)) = 29500"
proof -
  have "distinct (map rwRecordId statsExample)" by (simp add: statsExample_def)
  moreover have "newestArrivals statsExample statsExampleScope = [28000, 31000]" by code_simp
  ultimately show ?thesis
    using stats_are_of_newest_ten [of statsExample statsExampleScope]
    by (simp add: medianOfSorted_def sdiv_nonneg Let_def)
qed

text \<open>Hence the order of the rows does not matter.\<close>

lemma newestTen_order:
  assumes "distinct (map fst ps)" "mset qs = mset ps"
  shows "newestTen qs = newestTen ps"
proof -
  have "inj_on byAge (set ps)"
    using assms(1) by (auto simp: inj_on_def byAge_inj distinct_map)
  moreover have "set qs = set ps" using assms(2) by (metis set_mset_mset)
  ultimately have "sort_key byAge qs = sort_key byAge ps"
    using assms(2) by (intro sort_key_inj_key_eq) simp_all
  then show ?thesis by (simp add: newestTen_def)
qed

lemma plateau_of_newest:
  fixes rows :: "ArrivalRecord list" and scope :: StatsScope
  assumes "distinct (map rwRecordId rows)"
  defines "ps \<equiv> map (\<lambda>r. (rwRecordId r, (uint (rwAvgFlowCgS r) * 40) sdiv 3))
    (filter (\<lambda>r. hintAdmissible r scope \<and> rwAvgFlowCgS r \<noteq> 0) rows)"
  shows "plateauFlowX100 rows scope = medianOfSorted (sort (map snd (newestTen ps)))"
proof -
  have f: "fold (\<lambda>r k. if \<not> hintAdmissible r scope \<or> rwAvgFlowCgS r = 0 then k
      else keepNewest (rwRecordId r) ((uint (rwAvgFlowCgS r) * 40) sdiv 3) k) rows newest0 = keepAll ps"
    unfolding fold_guarded ps_def keepAll_def by (simp add: fold_map comp_def)
  have "map fst ps = map rwRecordId (filter (\<lambda>r. hintAdmissible r scope \<and> rwAvgFlowCgS r \<noteq> 0) rows)"
    by (simp add: ps_def)
  then have "distinct (map fst ps)" using assms(1) by (simp add: distinct_map_filter)
  note k = held_values [OF this]
  show ?thesis
    unfolding plateauFlowX100_def f Let_def using k by (simp add: medianOfSorted_def)
qed

lemma first_drops_of_newest:
  fixes rows :: "ArrivalRecord list" and preset :: u8 and epoch :: u32 and others :: bool
  assumes "distinct (map rwRecordId rows)"
  defines "ps \<equiv> map (\<lambda>r. (rwRecordId r, rwFirstDropMs r)) (filter (\<lambda>r. firstDropCounts r preset epoch others) rows)"
  shows "firstDropStatsOf rows preset epoch others =
    \<lparr> fdN = length (newestTen ps), fdMedianMs = medianOfSorted (sort (map snd (newestTen ps))) \<rparr>"
proof -
  have f: "fold (\<lambda>r k. if \<not> firstDropCounts r preset epoch others then k
      else keepNewest (rwRecordId r) (rwFirstDropMs r) k) rows newest0 = keepAll ps"
    unfolding fold_guarded ps_def keepAll_def by (simp add: fold_map comp_def)
  have "map fst ps = map rwRecordId (filter (\<lambda>r. firstDropCounts r preset epoch others) rows)" by (simp add: ps_def)
  then have "distinct (map fst ps)" using assms(1) by (simp add: distinct_map_filter)
  note k = held_values [OF this]
  show ?thesis unfolding firstDropStatsOf_def f Let_def using k by simp
qed

end
