(* ===== verification/Grind_Hint.thy ===== *)
theory Grind_Hint
  imports Arrival_Stats
begin

text \<open>
  The grind hint of \<open>src/OpenBrewByWeightCorridor.h\<close>: a replay of one preset's shots, oldest
  first, that finds change points, keeps the spread of the shooter and decides when to
  advise a finer or coarser grind. The ring of 16 shots is a list of that length; shot
  numbers are naturals (a log holds far fewer than 2^32 shots) and NO_SHOT is None.
\<close>

section \<open>Constants and enumerations\<close>

definition HINT_LEVEL_SHOTS :: nat where "HINT_LEVEL_SHOTS = 6"
definition HINT_F :: "int list" where "HINT_F = [1000, 709, 669, 548, 478, 432]"
definition HINT_G :: "int list" where "HINT_G = [1414, 1226, 1203, 1140, 1108, 1089]"
definition HINT_SIGMA_SHOTS :: nat where "HINT_SIGMA_SHOTS = 10"
definition HINT_SIGMA_MIN_DIFFERENCES :: nat where "HINT_SIGMA_MIN_DIFFERENCES = 6"
definition HINT_SIGMA_SEGMENT_SHOTS :: nat where "HINT_SIGMA_SEGMENT_SHOTS = 5"
definition HINT_DIAL_IN_SHOTS :: nat where "HINT_DIAL_IN_SHOTS = 12"
definition HINT_REPEAT_SHOTS :: nat where "HINT_REPEAT_SHOTS = 3"
definition HINT_VARY_SHOTS :: nat where "HINT_VARY_SHOTS = 6"
definition CP_ARMED_SHOTS :: nat where "CP_ARMED_SHOTS = 3"
definition HINT_SIGMA_FLOOR_MS :: int where "HINT_SIGMA_FLOOR_MS = 1000"
definition HINT_SIGMA_PRIOR_MS :: int where "HINT_SIGMA_PRIOR_MS = 2000"
definition HINT_SIGMA_CAP_MS :: int where "HINT_SIGMA_CAP_MS = 3000"
definition HINT_BAND_FLOOR_MS :: int where "HINT_BAND_FLOOR_MS = 750"
definition HINT_FIRST_SHOT_MS :: int where "HINT_FIRST_SHOT_MS = 3000"
definition Z_TENTATIVE :: int where "Z_TENTATIVE = 1000"
definition Z_LIKELY :: int where "Z_LIKELY = 1645"
definition Z_CONFIDENT :: int where "Z_CONFIDENT = 2330"
definition R_MOVED :: int where "R_MOVED = 1250"
definition R_SINGLE :: int where "R_SINGLE = 2000"
definition R_UNARMED :: int where "R_UNARMED = 2500"
definition HINT_CENSORED_KEY :: int where "HINT_CENSORED_KEY = 2 ^ 24"
definition RING :: nat where "RING = 16"

datatype HintState = STATE_NONE | DIAL_IN | MAINTENANCE | CHECKING | VARY
datatype HintDirection = DIRECTION_NONE | FINER | COARSER
datatype HintTier = TIER_NONE | TENTATIVE | LIKELY | CONFIDENT
datatype HintBin = BIN_NONE | SMALL | MEDIUM | LARGE

text \<open>Tiers and bins are compared by their ordinals.\<close>

definition tierOrdinal :: "HintTier \<Rightarrow> nat" where
  "tierOrdinal t = (case t of TIER_NONE \<Rightarrow> 0 | TENTATIVE \<Rightarrow> 1 | LIKELY \<Rightarrow> 2 | CONFIDENT \<Rightarrow> 3)"

definition binOrdinal :: "HintBin \<Rightarrow> nat" where
  "binOrdinal b = (case b of BIN_NONE \<Rightarrow> 0 | SMALL \<Rightarrow> 1 | MEDIUM \<Rightarrow> 2 | LARGE \<Rightarrow> 3)"

instantiation HintTier :: linorder
begin

definition less_eq_HintTier :: "HintTier \<Rightarrow> HintTier \<Rightarrow> bool" where
  "less_eq_HintTier s t \<longleftrightarrow> tierOrdinal s \<le> tierOrdinal t"

definition less_HintTier :: "HintTier \<Rightarrow> HintTier \<Rightarrow> bool" where
  "less_HintTier s t \<longleftrightarrow> tierOrdinal s < tierOrdinal t"

instance
  by standard (auto simp: less_eq_HintTier_def less_HintTier_def tierOrdinal_def split: HintTier.splits)

end

instantiation HintBin :: linorder
begin

definition less_eq_HintBin :: "HintBin \<Rightarrow> HintBin \<Rightarrow> bool" where
  "less_eq_HintBin s t \<longleftrightarrow> binOrdinal s \<le> binOrdinal t"

definition less_HintBin :: "HintBin \<Rightarrow> HintBin \<Rightarrow> bool" where
  "less_HintBin s t \<longleftrightarrow> binOrdinal s < binOrdinal t"

instance
  by standard (auto simp: less_eq_HintBin_def less_HintBin_def binOrdinal_def split: HintBin.splits)

end

definition tierOf :: "int \<Rightarrow> HintTier" where
  "tierOf z = (if z \<ge> Z_CONFIDENT then CONFIDENT else if z \<ge> Z_LIKELY then LIKELY
     else if z \<ge> Z_TENTATIVE then TENTATIVE else TIER_NONE)"

definition bandHalfMs :: "int \<Rightarrow> int \<Rightarrow> int" where
  "bandHalfMs halfMs sigma =
     (let b = (if halfMs - 2 * sigma > halfMs sdiv 2 then halfMs - 2 * sigma else halfMs sdiv 2) in
      if b > HINT_BAND_FLOOR_MS then b else HINT_BAND_FLOOR_MS)"

definition hintVaries :: "int \<Rightarrow> int \<Rightarrow> bool" where
  "hintVaries sigmaLong halfMs \<longleftrightarrow> 10 * sigmaLong > 8 * halfMs"

definition binOf :: "int \<Rightarrow> int \<Rightarrow> int \<Rightarrow> HintBin" where
  "binOf distance middle half =
     (if distance < half then SMALL
      else if distance < (if 2 * half > middle sdiv 5 then 2 * half else middle sdiv 5) then MEDIUM
      else LARGE)"

text \<open>The level of one to six sort keys; a censored key sorts slowest.\<close>

definition trimmedLevelMs :: "int list \<Rightarrow> int" where
  "trimmedLevelMs keys =
     (let sorted = sortSmall keys; n = length keys; trim = (if n > 2 then 1 else 0);
          kept = take (n - 2 * trim) (drop trim sorted)
      in toI32 (sum_list (map (\<lambda>key. key smod HINT_CENSORED_KEY) kept) sdiv int (n - 2 * trim)))"

definition differenceSigmaMs :: "int list \<Rightarrow> int" where
  "differenceSigmaMs differences =
     (let s = sortSmall differences; mad = madOf s (medianOfSorted s)
      in toI32 (((mad * 1483) sdiv 1000 * 7071) sdiv 10000))"

section \<open>The decision\<close>

record HintEvidence =
  evDialIn :: bool
  evN :: nat
  evCensored :: nat
  evLevelMs :: int
  evLastThreeMs :: int
  evSigmaMs :: int
  evSigmaLongMs :: int
  evAdvised :: HintDirection

record HintDecision =
  hdDirection :: HintDirection
  hdTier :: HintTier
  hdBin :: HintBin
  hdZ :: int

definition windowMiddle :: "StatsScope \<Rightarrow> int" where
  "windowMiddle w = (scFastBeforeMs w + scSlowAfterMs w) sdiv 2"

definition windowHalf :: "StatsScope \<Rightarrow> int" where
  "windowHalf w = (scSlowAfterMs w - scFastBeforeMs w) sdiv 2"

definition standardError :: "HintEvidence \<Rightarrow> int" where
  "standardError e = (evSigmaMs e * HINT_F ! (evN e - 1)) sdiv 1000"

text \<open>The tier from the phase, then the two fallbacks.\<close>

definition phaseTier :: "HintEvidence \<Rightarrow> StatsScope \<Rightarrow> int \<Rightarrow> int \<Rightarrow> bool \<Rightarrow> HintTier" where
  "phaseTier e w past z slow =
     (let h = windowHalf w in
      if hintVaries (evSigmaLongMs e) h then
        if ((past - h) * 1000) sdiv standardError e \<ge> Z_CONFIDENT then CONFIDENT else TIER_NONE
      else
        let t =
          (if \<not> evDialIn e then if evN e \<ge> 3 \<and> z \<ge> Z_LIKELY then tierOf z else TIER_NONE
           else if evN e = 1 then
             if past \<ge> h + (if 2 * evSigmaMs e > HINT_FIRST_SHOT_MS then 2 * evSigmaMs e else HINT_FIRST_SHOT_MS)
             then TENTATIVE else TIER_NONE
           else if evN e = 2 \<and> z \<ge> Z_TENTATIVE then TENTATIVE else tierOf z);
          se3 = (evSigmaMs e * HINT_F ! 2) sdiv 1000
        in if evLastThreeMs e > 0 \<and> t < LIKELY \<and>
              (if slow then evLastThreeMs e - scSlowAfterMs w else scFastBeforeMs w - evLastThreeMs e) > se3
           then LIKELY else t)"

definition hintDecision :: "HintEvidence \<Rightarrow> StatsScope \<Rightarrow> HintDecision" where
  "hintDecision e w =
     (if evN e = 0 then \<lparr> hdDirection = DIRECTION_NONE, hdTier = TIER_NONE, hdBin = BIN_NONE, hdZ = 0 \<rparr>
      else
        let c = windowMiddle w; h = windowHalf w; se = standardError e;
            slow = (evLevelMs e > c);
            past = (if slow then evLevelMs e - c else c - evLevelMs e);
            direction = (if slow then COARSER else FINER);
            z = toI32 (((past - bandHalfMs h (evSigmaMs e)) * 1000) sdiv se);
            t1 = phaseTier e w past z slow;
            t2 = (if evCensored e \<ge> 2 \<and> slow \<and> t1 < LIKELY then LIKELY else t1);
            t3 = (if evAdvised e \<noteq> DIRECTION_NONE \<and> direction \<noteq> evAdvised e then TIER_NONE else t2);
            distance = (if \<not> evDialIn e then past - (Z_LIKELY * se) sdiv 1000 else past)
        in \<lparr> hdDirection = direction, hdTier = t3,
             hdBin = binOf (if distance > 0 then distance else 0) c h, hdZ = z \<rparr>)"

section \<open>The replay\<close>

record GrindHintV2 =
  hvState :: HintState
  hvDirection :: HintDirection
  hvTier :: HintTier
  hvBin :: HintBin
  hvN :: nat
  hvAtLeast :: bool
  hvOffsetMs :: int
  hvBandMs :: int
  hvSegmentStartId :: u32

definition grindHint0 :: GrindHintV2 where
  "grindHint0 = \<lparr> hvState = STATE_NONE, hvDirection = DIRECTION_NONE, hvTier = TIER_NONE, hvBin = BIN_NONE,
     hvN = 0, hvAtLeast = False, hvOffsetMs = 0, hvBandMs = 0, hvSegmentStartId = 0 \<rparr>"

record Shot =
  shId :: u32
  shSegment :: nat
  shKey :: int
  shClamped :: bool

record Level =
  lvN :: nat
  lvCensored :: nat
  lvAtLeast :: bool
  lvMs :: int

record GrindHintReplay =
  ghScope :: StatsScope
  ghShots :: "Shot list"
  pushed :: nat
  segmentStart :: nat
  segmentStartId :: u32
  epochStart :: "nat option"
  candidate :: "nat option"
  announceId :: u32
  sigmaLongMs :: int
  sigmaMs :: int
  movedPermille :: int
  sigmaSeeded :: bool
  segmentCounted :: bool
  dialIn :: bool
  armedPending :: bool
  unarmedSide :: int
  dialInShots :: nat
  armedLeft :: nat
  sinceAnnounce :: nat
  repeats :: nat
  hint :: HintDirection
  advised :: HintDirection
  announcedTier :: HintTier
  announcedBin :: HintBin
  hintOut :: GrindHintV2

definition grindHintReplay0 :: "StatsScope \<Rightarrow> GrindHintReplay" where
  "grindHintReplay0 scope = \<lparr> ghScope = scope,
     ghShots = replicate RING \<lparr> shId = 0, shSegment = 0, shKey = 0, shClamped = False \<rparr>,
     pushed = 0, segmentStart = 0, segmentStartId = 0, epochStart = None, candidate = None, announceId = 0,
     sigmaLongMs = HINT_SIGMA_PRIOR_MS, sigmaMs = HINT_SIGMA_PRIOR_MS, movedPermille = 0,
     sigmaSeeded = False, segmentCounted = False, dialIn = True, armedPending = False, unarmedSide = 0,
     dialInShots = 0, armedLeft = 0, sinceAnnounce = 0, repeats = 0, hint = DIRECTION_NONE,
     advised = DIRECTION_NONE, announcedTier = TIER_NONE, announcedBin = BIN_NONE, hintOut = grindHint0 \<rparr>"

definition shotAt :: "GrindHintReplay \<Rightarrow> nat \<Rightarrow> Shot" where
  "shotAt g k = ghShots g ! (k mod RING)"

text \<open>The loop of \<open>levelOf\<close> runs backwards; its test decrements k after comparing it.\<close>

fun levelLoop :: "GrindHintReplay \<Rightarrow> nat \<Rightarrow> nat option \<Rightarrow> nat \<Rightarrow> Level \<times> int list \<Rightarrow> Level \<times> int list" where
  "levelLoop g from skip 0 acc = acc"
| "levelLoop g from skip (Suc k) (l, keys) =
     (if Suc k > from \<and> k + RING \<ge> pushed g \<and> lvN l < HINT_LEVEL_SHOTS then
        if skip = Some k then levelLoop g from skip k (l, keys)
        else
          let key = shKey (shotAt g k) in
          levelLoop g from skip k
            (l\<lparr> lvN := lvN l + 1,
                lvCensored := (if key \<ge> HINT_CENSORED_KEY then lvCensored l + 1 else lvCensored l),
                lvAtLeast := (lvAtLeast l \<or> shClamped (shotAt g k) \<or> key \<ge> HINT_CENSORED_KEY) \<rparr>, keys @ [key])
      else (l, keys))"

definition levelOf :: "GrindHintReplay \<Rightarrow> nat \<Rightarrow> nat \<Rightarrow> nat option \<Rightarrow> Level" where
  "levelOf g from to skip =
     (let (l, keys) = levelLoop g from skip (to + 1) (\<lparr> lvN = 0, lvCensored = 0, lvAtLeast = False, lvMs = 0 \<rparr>, [])
      in if lvN l > 0 then l\<lparr> lvMs := trimmedLevelMs keys \<rparr> else l)"

definition startSegment :: "nat \<Rightarrow> GrindHintReplay \<Rightarrow> GrindHintReplay" where
  "startSegment first g =
     (let from = (if first + RING < pushed g then pushed g - RING else first);
          shots = fold (\<lambda>k shots. shots[k mod RING := (shots ! (k mod RING))\<lparr> shSegment := first \<rparr>])
                       [from..<pushed g] (ghShots g)
      in g\<lparr> ghShots := shots, segmentStart := first, candidate := None, advised := DIRECTION_NONE,
            hint := DIRECTION_NONE, armedPending := False, segmentCounted := False, unarmedSide := 0,
            repeats := 0, armedLeft := 0 \<rparr>)"

definition residualPermille :: "GrindHintReplay \<Rightarrow> int \<Rightarrow> Level \<Rightarrow> int" where
  "residualPermille g arrival ref =
     toI32 (((arrival - lvMs ref) * 1000000) sdiv (sigmaMs g * HINT_G ! (lvN ref - 1)))"

definition detectUnarmed :: "nat \<Rightarrow> Level \<Rightarrow> int \<Rightarrow> GrindHintReplay \<Rightarrow> GrindHintReplay" where
  "detectUnarmed k ref r g =
     (let side = (if lvN ref < 4 then 0 else if r \<ge> R_UNARMED then 1 else if r \<le> - R_UNARMED then - 1 else 0) in
      if side \<noteq> 0 \<and> side = unarmedSide g then startSegment (k - 1) g else g\<lparr> unarmedSide := side \<rparr>)"

definition detectChange :: "int \<Rightarrow> GrindHintReplay \<Rightarrow> GrindHintReplay" where
  "detectChange arrival g =
     (let k = pushed g;
          ref = levelOf g (segmentStart g) (k - 1)
                  (if armedPending g \<or> unarmedSide g \<noteq> 0 then Some (k - 1) else None)
      in if lvN ref = 0 then g
         else
           let r = residualPermille g arrival ref;
               advisedR = (if advised g = FINER then r else if advised g = COARSER then - r else 0);
               g1 = (if hint g \<noteq> DIRECTION_NONE then g\<lparr> movedPermille := advisedR \<rparr> else g)
           in if armedLeft g1 > 0 \<or> movedPermille g1 \<ge> R_MOVED then
                if armedLeft g1 > 0 \<and> advisedR \<ge> R_SINGLE then startSegment k g1
                else if armedPending g1 \<and> advisedR \<ge> R_MOVED then startSegment (k - 1) g1
                else
                  let pending = (advisedR \<ge> R_MOVED);
                      left = (if armedLeft g1 > 1 then armedLeft g1 - 1 else if pending then 1 else 0)
                  in detectUnarmed k ref r (g1\<lparr> armedPending := pending, armedLeft := left \<rparr>)
              else detectUnarmed k ref r g1)"

text \<open>The two loops of \<open>updateSigma\<close>: consecutive uncensored differences.\<close>

definition segmentDifferences :: "GrindHintReplay \<Rightarrow> nat \<times> int list" where
  "segmentDifferences g =
     fold (\<lambda>k (shots, ds).
         if shots \<ge> HINT_SIGMA_SEGMENT_SHOTS \<or> k + RING < pushed g \<or> shKey (shotAt g k) \<ge> HINT_CENSORED_KEY
         then (shots, ds)
         else (shots + 1,
               if shots > 0 \<and> shKey (shotAt g (k - 1)) < HINT_CENSORED_KEY
               then ds @ [shKey (shotAt g k) - shKey (shotAt g (k - 1))] else ds))
       [segmentStart g..<pushed g] (0, [])"

definition recentDifferences :: "GrindHintReplay \<Rightarrow> int list" where
  "recentDifferences g =
     snd (fold (\<lambda>k (end, ds).
         let a = shotAt g (k - 1); b = shotAt g k;
             end' = (if k + 1 < pushed g \<and> shSegment (shotAt g (k + 1)) \<noteq> shSegment b then k + 1 else end)
         in (end',
             if shSegment a = shSegment b \<and> end' - shSegment b \<ge> 3 \<and> shKey a < HINT_CENSORED_KEY \<and>
                shKey b < HINT_CENSORED_KEY
             then ds @ [shKey b - shKey a] else ds))
       (rev [max 1 (pushed g + 1 - HINT_SIGMA_SHOTS)..<pushed g]) (pushed g, []))"

definition updateSigma :: "GrindHintReplay \<Rightarrow> GrindHintReplay" where
  "updateSigma g =
     (let g1 = (if \<not> segmentCounted g then
                  (let (shots, ds) = segmentDifferences g in
                   if shots = HINT_SIGMA_SEGMENT_SHOTS then
                     (let segment = differenceSigmaMs ds;
                          long = (if sigmaSeeded g then (3 * sigmaLongMs g + segment) sdiv 4 else segment)
                      in g\<lparr> sigmaLongMs := (if long > HINT_SIGMA_CAP_MS then HINT_SIGMA_CAP_MS else long),
                            segmentCounted := True, sigmaSeeded := True \<rparr>)
                   else g)
                else g);
          ds = recentDifferences g1;
          recent = (if length ds \<ge> HINT_SIGMA_MIN_DIFFERENCES then differenceSigmaMs ds else 0);
          sigma = (if sigmaLongMs g1 > HINT_SIGMA_FLOOR_MS then sigmaLongMs g1 else HINT_SIGMA_FLOOR_MS)
      in g1\<lparr> sigmaMs := (if recent > sigma then recent else sigma) \<rparr>)"

definition decide :: "GrindHintReplay \<Rightarrow> Level \<Rightarrow> int \<Rightarrow> HintDecision" where
  "decide g level lastThree =
     hintDecision \<lparr> evDialIn = dialIn g, evN = lvN level, evCensored = lvCensored level, evLevelMs = lvMs level,
       evLastThreeMs = lastThree, evSigmaMs = sigmaMs g, evSigmaLongMs = sigmaLongMs g, evAdvised = advised g \<rparr>
       (ghScope g)"

text \<open>\<open>evaluate\<close> in its four parts: retiring a hint, announcing, publishing, leaving dial-in.\<close>

definition retireHint :: "bool \<Rightarrow> HintDecision \<Rightarrow> GrindHintReplay \<Rightarrow> GrindHintReplay" where
  "retireHint checking d g =
     (let g1 = (if hint g \<noteq> DIRECTION_NONE \<and> \<not> checking \<and> (hdDirection d \<noteq> hint g \<or> hdZ d < 0)
                then g\<lparr> hint := DIRECTION_NONE \<rparr> else g)
      in if sinceAnnounce g1 < 255 then g1\<lparr> sinceAnnounce := sinceAnnounce g1 + 1 \<rparr> else g1)"

definition announce :: "u32 \<Rightarrow> bool \<Rightarrow> HintDecision \<Rightarrow> GrindHintReplay \<Rightarrow> GrindHintReplay" where
  "announce rid moved d g =
     (if hdTier d \<noteq> TIER_NONE \<and> \<not> moved then
        let fresh = (hint g = DIRECTION_NONE);
            escalated = (\<not> fresh \<and> (hdTier d > announcedTier g \<or> hdBin d > announcedBin g));
            again = (\<not> fresh \<and> \<not> escalated \<and> sinceAnnounce g \<ge> HINT_REPEAT_SHOTS \<and> hdTier d \<ge> LIKELY \<and> repeats g = 0)
        in if fresh \<or> escalated \<or> again then
             g\<lparr> repeats := (if again then repeats g + 1 else repeats g),
                announcedTier := (if fresh \<or> hdTier d > announcedTier g then hdTier d else announcedTier g),
                announcedBin := (if fresh \<or> hdBin d > announcedBin g then hdBin d else announcedBin g),
                advised := hdDirection d, hint := hdDirection d, armedLeft := CP_ARMED_SHOTS,
                armedPending := False, sinceAnnounce := 0, candidate := Some (pushed g), announceId := rid \<rparr>
           else g
      else g)"

definition publish :: "bool \<Rightarrow> nat \<Rightarrow> Level \<Rightarrow> HintDecision \<Rightarrow> GrindHintReplay \<Rightarrow> GrindHintV2" where
  "publish checking segmentShots level d g =
     (let c = windowMiddle (ghScope g); h = windowHalf (ghScope g) in
      if epochStart g = None then grindHint0
      else
        let out = grindHint0\<lparr> hvN := lvN level, hvAtLeast := lvAtLeast level, hvOffsetMs := lvMs level - c,
                    hvBandMs := bandHalfMs h (sigmaMs g), hvSegmentStartId := segmentStartId g \<rparr>
        in if hint g \<noteq> DIRECTION_NONE then
             let t0 = TENTATIVE;
                 t1 = (if hdDirection d = hint g \<and> lvN level \<ge> 3 \<and> tierOf (hdZ d) > t0 then tierOf (hdZ d) else t0);
                 t2 = (if hdDirection d = hint g \<and> hdTier d > t1 then hdTier d else t1)
             in out\<lparr> hvState := (if checking then CHECKING else if dialIn g then DIAL_IN else MAINTENANCE),
                     hvDirection := hint g, hvTier := t2, hvBin := hdBin d \<rparr>
           else if hintVaries (sigmaLongMs g) h \<and> segmentShots \<ge> HINT_VARY_SHOTS
           then out\<lparr> hvState := VARY \<rparr> else out)"

definition leaveDialIn :: "nat \<Rightarrow> Level \<Rightarrow> GrindHintReplay \<Rightarrow> GrindHintReplay" where
  "leaveDialIn segmentShots level g =
     (let c = windowMiddle (ghScope g); h = windowHalf (ghScope g);
          fromMiddle = (if lvMs level > c then lvMs level - c else c - lvMs level)
      in if dialIn g \<and> (dialInShots g \<ge> HINT_DIAL_IN_SHOTS \<or>
            segmentShots \<ge> 3 \<and> fromMiddle \<le> bandHalfMs h (sigmaMs g))
         then g\<lparr> dialIn := False \<rparr> else g)"

definition evaluate :: "u32 \<Rightarrow> GrindHintReplay \<Rightarrow> GrindHintReplay" where
  "evaluate rid g0 =
     (let newest = pushed g0 - 1; segmentShots = pushed g0 - segmentStart g0;
          g = (if segmentStart g0 + RING \<ge> pushed g0
               then g0\<lparr> segmentStartId := shId (shotAt g0 (segmentStart g0)) \<rparr> else g0);
          level = levelOf g (segmentStart g) newest None;
          d = decide g level (if segmentShots \<ge> 3 then lvMs (levelOf g (newest - 2) newest None) else 0);
          moved = (movedPermille g \<ge> R_MOVED);
          checking = (hint g \<noteq> DIRECTION_NONE \<and> moved);
          g1 = announce rid moved d (retireHint checking d g);
          g2 = (if dialInShots g1 < 255 then g1\<lparr> dialInShots := dialInShots g1 + 1 \<rparr> else g1);
          g3 = g2\<lparr> hintOut := publish checking segmentShots level d g2 \<rparr>
      in leaveDialIn segmentShots level g3)"

definition beginOrDetect :: "ArrivalRecord \<Rightarrow> GrindHintReplay \<Rightarrow> GrindHintReplay" where
  "beginOrDetect r g =
     (if pushed g = 0 \<or> rwRecordId r \<ge> scEpoch (ghScope g) \<and> shId (shotAt g (pushed g - 1)) < scEpoch (ghScope g)
      then (startSegment (pushed g)
             (if rwRecordId r \<ge> scEpoch (ghScope g) then g\<lparr> epochStart := Some (pushed g) \<rparr> else g))
             \<lparr> dialIn := True, dialInShots := 0 \<rparr>
      else detectChange (hintArrivalMs r) g)"

definition storeShot :: "ArrivalRecord \<Rightarrow> GrindHintReplay \<Rightarrow> GrindHintReplay" where
  "storeShot r g =
     (let arrival = hintArrivalMs r in
      g\<lparr> ghShots := (ghShots g)[pushed g mod RING :=
             \<lparr> shId = rwRecordId r, shSegment = segmentStart g,
               shKey = (if censoredArrival r then arrival + HINT_CENSORED_KEY else arrival),
               shClamped = clampedArrival r \<rparr>],
         pushed := pushed g + 1 \<rparr>)"

definition reverseIfWrong :: "GrindHintReplay \<Rightarrow> GrindHintReplay" where
  "reverseIfWrong g =
     (case candidate g of
        Some c \<Rightarrow>
          (if advised g \<noteq> DIRECTION_NONE \<and> pushed g - c \<ge> 3 \<and> c + RING \<ge> pushed g then
             (let post = decide g (levelOf g c (pushed g - 1) None) 0 in
              if hdDirection post \<noteq> advised g \<and> hdZ post \<ge> Z_CONFIDENT then startSegment c g else g)
           else g)
      | None \<Rightarrow> g)"

definition hintPush :: "ArrivalRecord \<Rightarrow> GrindHintReplay \<Rightarrow> GrindHintReplay" where
  "hintPush r g = evaluate (rwRecordId r)
     (reverseIfWrong (updateSigma (storeShot r (beginOrDetect r (g\<lparr> movedPermille := 0 \<rparr>)))))"

definition grindHintOf :: "ArrivalRecord list \<Rightarrow> StatsScope \<Rightarrow> GrindHintV2" where
  "grindHintOf rows scope =
     hintOut (snd (fold (\<lambda>r (newest, g).
         if \<not> hintAdmissible r scope \<or> pushed g > 0 \<and> rwRecordId r \<le> newest then (newest, g)
         else (rwRecordId r, hintPush r g))
       rows (0, grindHintReplay0 scope)))"

end
