(* ===== verification/Grind_Facts.thy ===== *)
theory Grind_Facts
  imports Grind_Hint
begin

text \<open>
  What the grind hint guarantees: the invariant of the replay, that within one segment the
  advice and the shown hints never turn around, and that outside the checking state a shown hint
  points from the measured level to the middle of the window.
\<close>

section \<open>Decision and level\<close>

lemma decision_direction:
  "hdDirection (hintDecision e w) =
     (if evN e = 0 then DIRECTION_NONE else if evLevelMs e > windowMiddle w then COARSER else FINER)"
  by (simp add: hintDecision_def Let_def)

lemma decision_tier:
  "hdTier (hintDecision e w) \<noteq> TIER_NONE \<Longrightarrow>
     evN e \<noteq> 0 \<and> (evAdvised e = DIRECTION_NONE \<or> hdDirection (hintDecision e w) = evAdvised e)"
  unfolding hintDecision_def Let_def by (auto split: if_splits)

lemma decide_direction:
  "hdDirection (decide g level lt) =
     (if lvN level = 0 then DIRECTION_NONE else if lvMs level > windowMiddle (ghScope g) then COARSER else FINER)"
  by (simp add: decide_def decision_direction)

lemma decide_tier:
  "hdTier (decide g level lt) \<noteq> TIER_NONE \<Longrightarrow>
     lvN level \<noteq> 0 \<and> (advised g = DIRECTION_NONE \<or> hdDirection (decide g level lt) = advised g)"
  using decision_tier by (fastforce simp: decide_def)

lemma level_loop_count:
  "lvN l \<le> 6 \<Longrightarrow> lvN l \<le> lvN (fst (levelLoop g from skip k (l, keys))) \<and> lvN (fst (levelLoop g from skip k (l, keys))) \<le> 6"
proof (induction k arbitrary: l keys)
  case (Suc k)
  show ?case
  proof (cases "Suc k > from \<and> k + RING \<ge> pushed g \<and> lvN l < HINT_LEVEL_SHOTS")
    case False
    then show ?thesis using Suc.prems by auto
  next
    case True
    then have "lvN l + 1 \<le> 6" by (simp add: HINT_LEVEL_SHOTS_def)
    then show ?thesis
      using True Suc.prems Suc.IH [of l keys]
        Suc.IH [of "l\<lparr> lvN := lvN l + 1,
          lvCensored := (if shKey (shotAt g k) \<ge> HINT_CENSORED_KEY then lvCensored l + 1 else lvCensored l),
          lvAtLeast := (lvAtLeast l \<or> shClamped (shotAt g k) \<or> shKey (shotAt g k) \<ge> HINT_CENSORED_KEY) \<rparr>" "keys @ [shKey (shotAt g k)]"]
      by (auto simp: Let_def)
  qed
qed simp

lemma level_at_most_six: "lvN (levelOf g from to skip) \<le> 6"
  using level_loop_count [of "\<lparr> lvN = 0, lvCensored = 0, lvAtLeast = False, lvMs = 0 \<rparr>" g "from" skip "to + 1" "[]"]
  by (auto simp: levelOf_def Let_def split: prod.splits)

lemma level_nonempty:
  assumes "from \<le> to" "pushed g \<le> to + RING"
  shows "0 < lvN (levelOf g from to None)"
proof -
  define l0 where "l0 = \<lparr> lvN = 0, lvCensored = 0, lvAtLeast = False, lvMs = 0 \<rparr>"
  define l1 where "l1 = l0\<lparr> lvN := lvN l0 + 1,
          lvCensored := (if shKey (shotAt g to) \<ge> HINT_CENSORED_KEY then lvCensored l0 + 1 else lvCensored l0),
          lvAtLeast := (lvAtLeast l0 \<or> shClamped (shotAt g to) \<or> shKey (shotAt g to) \<ge> HINT_CENSORED_KEY) \<rparr>"
  have "levelLoop g from None (Suc to) (l0, []) = levelLoop g from None to (l1, [shKey (shotAt g to)])"
    using assms by (simp add: l1_def Let_def HINT_LEVEL_SHOTS_def l0_def)
  moreover have "1 \<le> lvN (fst (levelLoop g from None to (l1, [shKey (shotAt g to)])))"
    using level_loop_count [of l1] by (simp add: l1_def l0_def)
  ultimately show ?thesis by (auto simp: levelOf_def l0_def [symmetric] split: prod.splits)
qed

lemma level_skipped:
  assumes "lvN (levelOf g from to (Some to)) \<noteq> 0"
  shows "from < to"
proof (rule ccontr)
  define l0 where "l0 = \<lparr> lvN = 0, lvCensored = 0, lvAtLeast = False, lvMs = 0 \<rparr>"
  assume "\<not> from < to"
  then have "\<not> to > from" by simp
  then have stop: "levelLoop g from (Some to) to (l0, []) = (l0, [])" by (cases to) simp_all
  have "levelLoop g from (Some to) (Suc to) (l0, []) = (l0, [])" using stop by simp
  then show False using assms by (simp add: levelOf_def l0_def)
qed

section \<open>The invariant of the replay\<close>

definition gh_ok :: "GrindHintReplay \<Rightarrow> bool" where
  "gh_ok g \<longleftrightarrow> length (ghShots g) = RING \<and> segmentStart g \<le> pushed g \<and> armedLeft g \<le> 3 \<and>
     (hint g \<noteq> DIRECTION_NONE \<longrightarrow> advised g = hint g) \<and> 1000 \<le> sigmaMs g \<and> sigmaLongMs g \<le> 3000 \<and>
     (\<forall>c. candidate g = Some c \<longrightarrow> segmentStart g < c \<and> c \<le> pushed g)"

lemma relabel_length: "length (fold (\<lambda>k shots. shots[k mod RING := f shots k]) ks shots) = length shots"
  by (induction ks arbitrary: shots) simp_all

lemma start_simps [simp]:
  "pushed (startSegment k g) = pushed g" "segmentStart (startSegment k g) = k"
  "hint (startSegment k g) = DIRECTION_NONE" "advised (startSegment k g) = DIRECTION_NONE"
  "ghScope (startSegment k g) = ghScope g" "sigmaMs (startSegment k g) = sigmaMs g"
  "sigmaLongMs (startSegment k g) = sigmaLongMs g" "candidate (startSegment k g) = None"
  "armedLeft (startSegment k g) = 0" "length (ghShots (startSegment k g)) = length (ghShots g)"
  by (simp_all add: startSegment_def Let_def relabel_length)

lemma start_ok: "gh_ok g \<Longrightarrow> k \<le> pushed g \<Longrightarrow> gh_ok (startSegment k g)"
  by (simp add: gh_ok_def)

text \<open>Detection either leaves segment and advice alone or starts a later segment.\<close>

definition stays :: "GrindHintReplay \<Rightarrow> GrindHintReplay \<Rightarrow> bool" where
  "stays g g' \<longleftrightarrow> pushed g' = pushed g \<and> ghScope g' = ghScope g \<and>
     (segmentStart g < segmentStart g' \<or>
      segmentStart g' = segmentStart g \<and> advised g' = advised g \<and> candidate g' = candidate g)"

lemma detectUnarmed_stays:
  assumes "gh_ok g" "unarmedSide g \<noteq> 0 \<Longrightarrow> segmentStart g < k - 1" "k \<le> pushed g"
  shows "stays g (detectUnarmed k ref r g) \<and> gh_ok (detectUnarmed k ref r g)"
proof -
  have a: "gh_ok (g\<lparr> unarmedSide := s \<rparr>)" for s using assms(1) by (simp add: gh_ok_def)
  have b: "gh_ok (startSegment (k - 1) g)" using start_ok [OF assms(1)] assms(3) by simp
  show ?thesis
    unfolding detectUnarmed_def Let_def using a b assms(2) by (auto simp: stays_def)
qed

lemma moved_ok: "gh_ok g \<Longrightarrow> gh_ok (g\<lparr> movedPermille := m \<rparr>)"
  by (simp add: gh_ok_def)

lemma detectChange_stays:
  assumes ok: "gh_ok g" and active: "segmentStart g < pushed g"
  shows "stays g (detectChange arrival g) \<and> gh_ok (detectChange arrival g)"
proof -
  define ref where "ref = levelOf g (segmentStart g) (pushed g - 1)
    (if armedPending g \<or> unarmedSide g \<noteq> 0 then Some (pushed g - 1) else None)"
  define r where "r = residualPermille g arrival ref"
  define advisedR where "advisedR = (if advised g = FINER then r else if advised g = COARSER then - r else 0)"
  define g1 where "g1 = (if hint g \<noteq> DIRECTION_NONE then g\<lparr> movedPermille := advisedR \<rparr> else g)"
  have g1: "gh_ok g1" "pushed g1 = pushed g" "segmentStart g1 = segmentStart g" "armedPending g1 = armedPending g"
    "unarmedSide g1 = unarmedSide g" "advised g1 = advised g" "candidate g1 = candidate g" "ghScope g1 = ghScope g"
    "armedLeft g1 = armedLeft g"
    using ok moved_ok by (simp_all add: g1_def)
  have later: "segmentStart g < pushed g - 1" if "lvN ref \<noteq> 0" "armedPending g \<or> unarmedSide g \<noteq> 0"
    using level_skipped [of g "segmentStart g" "pushed g - 1"] that by (simp add: ref_def)
  define g2 where "g2 = (\<lambda>pending left. g1\<lparr> armedPending := pending, armedLeft := left \<rparr>)"
  have g2: "gh_ok (g2 pending left)" if "left \<le> 3" for pending left
    using g1(1) that by (simp add: g2_def gh_ok_def)
  define good where "good = (\<lambda>g'. stays g g' \<and> gh_ok g')"
  have unarmed: "good (detectUnarmed (pushed g) ref r g')"
    if "gh_ok g'" "pushed g' = pushed g" "segmentStart g' = segmentStart g" "unarmedSide g' = unarmedSide g"
      "advised g' = advised g" "candidate g' = candidate g" "ghScope g' = ghScope g" "lvN ref \<noteq> 0" for g'
    using detectUnarmed_stays [of g' "pushed g" ref r] later that by (auto simp: stays_def good_def)
  have goods: "good g" "good (startSegment (pushed g) g1)"
    "lvN ref \<noteq> 0 \<Longrightarrow> armedPending g1 \<Longrightarrow> good (startSegment (pushed g - 1) g1)"
    "lvN ref \<noteq> 0 \<Longrightarrow> good (detectUnarmed (pushed g) ref r g1)"
    "lvN ref \<noteq> 0 \<Longrightarrow> n \<le> 3 \<Longrightarrow> good (detectUnarmed (pushed g) ref r (g2 pending n))" for pending n
    using ok active g1 later start_ok [OF g1(1)] unarmed [OF g1(1)] unarmed [OF g2]
    by (simp_all add: good_def stays_def g2_def)
  have eq: "detectChange arrival g = (if lvN ref = 0 then g
      else if armedLeft g1 > 0 \<or> movedPermille g1 \<ge> R_MOVED then
        if armedLeft g1 > 0 \<and> advisedR \<ge> R_SINGLE then startSegment (pushed g) g1
        else if armedPending g1 \<and> advisedR \<ge> R_MOVED then startSegment (pushed g - 1) g1
        else detectUnarmed (pushed g) ref r (g2 (advisedR \<ge> R_MOVED)
          (if armedLeft g1 > 1 then armedLeft g1 - 1 else if advisedR \<ge> R_MOVED then 1 else 0))
      else detectUnarmed (pushed g) ref r g1)"
    unfolding detectChange_def ref_def [symmetric] Let_def r_def [symmetric] advisedR_def [symmetric] g1_def [symmetric] g2_def ..
  have left: "(if armedLeft g1 > 1 then armedLeft g1 - 1 else if advisedR \<ge> R_MOVED then 1 else 0) \<le> 3"
    using g1(1) by (auto simp: gh_ok_def)
  have "good (detectChange arrival g)" unfolding eq using goods left by presburger
  then show ?thesis by (simp add: good_def)
qed

lemma begin_stays:
  assumes "gh_ok g" "pushed g = 0 \<or> segmentStart g < pushed g"
  shows "gh_ok (beginOrDetect r g) \<and> pushed (beginOrDetect r g) = pushed g \<and> ghScope (beginOrDetect r g) = ghScope g \<and>
    (pushed g > 0 \<longrightarrow> stays g (beginOrDetect r g))"
proof -
  have "gh_ok (startSegment (pushed g) (g\<lparr> epochStart := x \<rparr>))" for x
    using start_ok [of "g\<lparr> epochStart := x \<rparr>" "pushed g"] assms(1) by (simp add: gh_ok_def)
  then have "gh_ok ((startSegment (pushed g) (g\<lparr> epochStart := x \<rparr>))\<lparr> dialIn := True, dialInShots := 0 \<rparr>)"
    "gh_ok ((startSegment (pushed g) g)\<lparr> dialIn := True, dialInShots := 0 \<rparr>)" for x
    using start_ok [OF assms(1), of "pushed g"] by (simp_all add: gh_ok_def)
  then show ?thesis
    using detectChange_stays [OF assms(1), of "hintArrivalMs r"] assms(2) unfolding beginOrDetect_def
    by (auto simp: stays_def)
qed

lemma store_shot:
  assumes "gh_ok g"
  shows "gh_ok (storeShot r g)" "segmentStart (storeShot r g) < pushed (storeShot r g)"
    "pushed (storeShot r g) = pushed g + 1" "segmentStart (storeShot r g) = segmentStart g"
    "advised (storeShot r g) = advised g" "ghScope (storeShot r g) = ghScope g" "candidate (storeShot r g) = candidate g"
  using assms by (auto simp: storeShot_def gh_ok_def Let_def)

lemma update_sigma:
  assumes "gh_ok g"
  shows "gh_ok (updateSigma g)" "pushed (updateSigma g) = pushed g" "segmentStart (updateSigma g) = segmentStart g"
    "advised (updateSigma g) = advised g" "ghScope (updateSigma g) = ghScope g" "candidate (updateSigma g) = candidate g"
  using assms
  by (auto simp: updateSigma_def gh_ok_def HINT_SIGMA_CAP_MS_def HINT_SIGMA_FLOOR_MS_def Let_def split: prod.splits)

lemma reverse_stays:
  assumes "gh_ok g" "segmentStart g < pushed g"
  shows "stays g (reverseIfWrong g) \<and> gh_ok (reverseIfWrong g) \<and> segmentStart (reverseIfWrong g) < pushed (reverseIfWrong g)"
proof (cases "candidate g")
  case None
  then show ?thesis using assms by (simp add: reverseIfWrong_def stays_def)
next
  case (Some c)
  then have c: "segmentStart g < c" "c \<le> pushed g" using assms(1) by (simp_all add: gh_ok_def)
  then have "stays g (startSegment c g) \<and> gh_ok (startSegment c g)"
    using start_ok [OF assms(1), of c] by (simp add: stays_def)
  moreover have "stays g g" by (simp add: stays_def)
  ultimately show ?thesis using Some assms c by (auto simp: reverseIfWrong_def Let_def)
qed

text \<open>What is published: the properties a reader of the hint relies on.\<close>

definition hv_sound :: "GrindHintV2 \<Rightarrow> bool" where
  "hv_sound v \<longleftrightarrow> hvN v \<le> 6 \<and>
     (hvDirection v \<noteq> DIRECTION_NONE \<longleftrightarrow> hvState v \<in> {DIAL_IN, MAINTENANCE, CHECKING}) \<and>
     (hvDirection v \<noteq> DIRECTION_NONE \<longrightarrow> TENTATIVE \<le> hvTier v \<and> 1 \<le> hvN v \<and> 750 \<le> hvBandMs v) \<and>
     (hvState v \<in> {DIAL_IN, MAINTENANCE} \<longrightarrow> hvDirection v = (if hvOffsetMs v > 0 then COARSER else FINER))"

lemma retire_facts:
  assumes "gh_ok g"
  shows "gh_ok (retireHint chk d g)" "pushed (retireHint chk d g) = pushed g"
    "segmentStart (retireHint chk d g) = segmentStart g" "advised (retireHint chk d g) = advised g"
    "ghScope (retireHint chk d g) = ghScope g"
    "hint (retireHint chk d g) \<noteq> DIRECTION_NONE \<Longrightarrow> hint (retireHint chk d g) = hint g"
    "hint (retireHint chk d g) \<noteq> DIRECTION_NONE \<Longrightarrow> \<not> chk \<Longrightarrow> hint (retireHint chk d g) = hdDirection d"
  using assms by (auto simp: retireHint_def gh_ok_def Let_def split: if_splits)

lemma announce_facts:
  assumes "gh_ok g" "segmentStart g < pushed g" "hdTier d \<noteq> TIER_NONE \<Longrightarrow> hdDirection d \<noteq> DIRECTION_NONE"
    and keep: "advised g = DIRECTION_NONE \<or> hdTier d = TIER_NONE \<or> hdDirection d = advised g"
  shows "gh_ok (announce rid moved d g)" "pushed (announce rid moved d g) = pushed g"
    "segmentStart (announce rid moved d g) = segmentStart g" "ghScope (announce rid moved d g) = ghScope g"
    "advised g \<noteq> DIRECTION_NONE \<Longrightarrow> advised (announce rid moved d g) = advised g"
    "hint (announce rid moved d g) = hint g \<or> \<not> moved \<and> hint (announce rid moved d g) = hdDirection d"
    "sigmaMs (announce rid moved d g) = sigmaMs g"
  using assms by (auto simp: announce_def gh_ok_def CP_ARMED_SHOTS_def Let_def)

lemma band_floor: "750 \<le> bandHalfMs h s"
  by (simp add: bandHalfMs_def HINT_BAND_FLOOR_MS_def Let_def)

lemma publish_sound:
  assumes "lvN level \<le> 6" "1 \<le> lvN level"
    and "hint g \<noteq> DIRECTION_NONE \<Longrightarrow> \<not> chk \<Longrightarrow>
      hint g = (if lvMs level > windowMiddle (ghScope g) then COARSER else FINER)"
  shows "hv_sound (publish chk segmentShots level d g)"
proof -
  show ?thesis
    using assms band_floor unfolding publish_def Let_def
    by (auto simp: hv_sound_def grindHint0_def less_imp_le)
qed

lemma publish_direction: "hvDirection (publish chk segmentShots level d g) \<in> {DIRECTION_NONE, hint g}"
  unfolding publish_def Let_def by (simp add: grindHint0_def)

lemma leave_facts:
  assumes "gh_ok g"
  shows "gh_ok (leaveDialIn n level g)" "hintOut (leaveDialIn n level g) = hintOut g" "pushed (leaveDialIn n level g) = pushed g"
    "segmentStart (leaveDialIn n level g) = segmentStart g" "ghScope (leaveDialIn n level g) = ghScope g"
    "advised (leaveDialIn n level g) = advised g" "hint (leaveDialIn n level g) = hint g"
  using assms by (simp_all add: leaveDialIn_def gh_ok_def Let_def)

text \<open>The tail of \<open>evaluate\<close>, from the decision on.\<close>

definition conclude :: "u32 \<Rightarrow> nat \<Rightarrow> Level \<Rightarrow> HintDecision \<Rightarrow> GrindHintReplay \<Rightarrow> GrindHintReplay" where
  "conclude rid shots level d g =
     (let moved = (movedPermille g \<ge> R_MOVED);
          chk = (hint g \<noteq> DIRECTION_NONE \<and> moved);
          g1 = announce rid moved d (retireHint chk d g);
          g2 = (if dialInShots g1 < 255 then g1\<lparr> dialInShots := dialInShots g1 + 1 \<rparr> else g1)
      in leaveDialIn shots level (g2\<lparr> hintOut := publish chk shots level d g2 \<rparr>))"

lemma conclude_facts:
  fixes rid :: u32 and shots :: nat
  assumes ok: "gh_ok g" and active: "segmentStart g < pushed g" and n: "1 \<le> lvN level" "lvN level \<le> 6"
    and dir: "hdDirection d = (if lvMs level > windowMiddle (ghScope g) then COARSER else FINER)"
    and keep: "hdTier d = TIER_NONE \<or> advised g = DIRECTION_NONE \<or> hdDirection d = advised g"
  defines "e \<equiv> conclude rid shots level d g"
  shows "gh_ok e \<and> pushed e = pushed g \<and> segmentStart e = segmentStart g \<and> ghScope e = ghScope g \<and>
    (advised g \<noteq> DIRECTION_NONE \<longrightarrow> advised e = advised g) \<and> hv_sound (hintOut e) \<and>
    hvDirection (hintOut e) \<in> {DIRECTION_NONE, hint e}"
proof -
  define moved where "moved = (movedPermille g \<ge> R_MOVED)"
  define chk where "chk = (hint g \<noteq> DIRECTION_NONE \<and> moved)"
  define g1 where "g1 = retireHint chk d g"
  define g2 where "g2 = announce rid moved d g1"
  define g3 where "g3 = (if dialInShots g2 < 255 then g2\<lparr> dialInShots := dialInShots g2 + 1 \<rparr> else g2)"
  define g4 where "g4 = g3\<lparr> hintOut := publish chk shots level d g3 \<rparr>"
  have e: "e = leaveDialIn shots level g4"
    unfolding e_def conclude_def moved_def chk_def g1_def g2_def g3_def g4_def Let_def ..
  note f1 = retire_facts [OF ok, of chk d, folded g1_def]
  have "segmentStart g1 < pushed g1" using f1(2,3) active by simp
  moreover have "hdDirection d \<noteq> DIRECTION_NONE" using dir by simp
  moreover have "advised g1 = DIRECTION_NONE \<or> hdTier d = TIER_NONE \<or> hdDirection d = advised g1"
    using f1(4) keep by auto
  ultimately have f2: "gh_ok g2" "pushed g2 = pushed g1" "segmentStart g2 = segmentStart g1" "ghScope g2 = ghScope g1"
    "advised g1 \<noteq> DIRECTION_NONE \<Longrightarrow> advised g2 = advised g1" "hint g2 = hint g1 \<or> \<not> moved \<and> hint g2 = hdDirection d"
    using announce_facts [OF f1(1), of d rid moved] unfolding g2_def by blast+
  have f3: "gh_ok g3" "pushed g3 = pushed g" "segmentStart g3 = segmentStart g" "ghScope g3 = ghScope g"
    "advised g3 = advised g2" "hint g3 = hint g2"
    using f2 f1 by (simp_all add: g3_def gh_ok_def)
  have "hint g3 = (if lvMs level > windowMiddle (ghScope g3) then COARSER else FINER)"
    if "hint g3 \<noteq> DIRECTION_NONE" "\<not> chk"
  proof -
    have "hint g2 = hdDirection d" using f2(6) f1(7) that f3(6) by auto
    then show ?thesis using dir f3(4,6) by simp
  qed
  then have pub: "hv_sound (publish chk shots level d g3)" using publish_sound [OF n(2,1)] by blast
  have f4: "gh_ok g4" using f3(1) by (simp add: g4_def gh_ok_def)
  show ?thesis using leave_facts [OF f4, of shots level] f3 f2(5) f1(4) pub publish_direction [of chk shots level d g3]
    by (simp add: e g4_def)
qed

lemma evaluate_facts:
  assumes ok: "gh_ok g" and active: "segmentStart g < pushed g"
  shows "gh_ok (evaluate rid g) \<and> pushed (evaluate rid g) = pushed g \<and> segmentStart (evaluate rid g) = segmentStart g \<and>
    ghScope (evaluate rid g) = ghScope g \<and>
    (advised g \<noteq> DIRECTION_NONE \<longrightarrow> advised (evaluate rid g) = advised g) \<and> hv_sound (hintOut (evaluate rid g)) \<and>
    hvDirection (hintOut (evaluate rid g)) \<in> {DIRECTION_NONE, hint (evaluate rid g)}"
proof -
  define g0 where "g0 = (if segmentStart g + RING \<ge> pushed g
    then g\<lparr> segmentStartId := shId (shotAt g (segmentStart g)) \<rparr> else g)"
  define shots where "shots = pushed g - segmentStart g"
  define level where "level = levelOf g0 (segmentStart g0) (pushed g - 1) None"
  define d where "d = decide g0 level (if shots \<ge> 3 then lvMs (levelOf g0 (pushed g - 1 - 2) (pushed g - 1) None) else 0)"
  have ev: "evaluate rid g = conclude rid shots level d g0"
    unfolding evaluate_def conclude_def g0_def shots_def level_def d_def Let_def ..
  have f0: "gh_ok g0" "pushed g0 = pushed g" "segmentStart g0 = segmentStart g" "ghScope g0 = ghScope g" "advised g0 = advised g"
    using ok by (simp_all add: g0_def gh_ok_def)
  have "segmentStart g \<le> pushed g - 1" "pushed g0 \<le> pushed g - 1 + RING" using active f0(2) by (simp_all add: RING_def)
  then have n: "1 \<le> lvN level" "lvN level \<le> 6"
    using level_nonempty [of "segmentStart g" "pushed g - 1" g0] level_at_most_six f0(3)
    by (simp_all add: level_def Suc_leI)
  have dir: "hdDirection d = (if lvMs level > windowMiddle (ghScope g0) then COARSER else FINER)"
    using n(1) by (simp add: d_def decide_direction)
  have "hdTier d = TIER_NONE \<or> advised g0 = DIRECTION_NONE \<or> hdDirection d = advised g0"
    using decide_tier [of g0 level] by (auto simp: d_def)
  then show ?thesis
    using conclude_facts [OF f0(1) _ n dir, of rid shots] active f0 unfolding ev by simp
qed

lemma push_facts:
  assumes "gh_ok g" "pushed g = 0 \<or> segmentStart g < pushed g"
  shows "gh_ok (hintPush r g) \<and> segmentStart (hintPush r g) < pushed (hintPush r g) \<and> pushed (hintPush r g) = pushed g + 1 \<and>
    hv_sound (hintOut (hintPush r g)) \<and> hvDirection (hintOut (hintPush r g)) \<in> {DIRECTION_NONE, hint (hintPush r g)} \<and>
    (pushed g > 0 \<longrightarrow> segmentStart g \<le> segmentStart (hintPush r g) \<and>
       (segmentStart (hintPush r g) = segmentStart g \<longrightarrow> advised g \<noteq> DIRECTION_NONE \<longrightarrow>
          advised (hintPush r g) = advised g))"
proof -
  define g0 where "g0 = g\<lparr> movedPermille := 0 \<rparr>"
  define g1 where "g1 = beginOrDetect r g0"
  define g2 where "g2 = updateSigma (storeShot r g1)"
  define g3 where "g3 = reverseIfWrong g2"
  have push: "hintPush r g = evaluate (rwRecordId r) g3" by (simp add: hintPush_def g0_def g1_def g2_def g3_def)
  have f0: "gh_ok g0" "pushed g0 = pushed g" "segmentStart g0 = segmentStart g" "advised g0 = advised g"
    using assms(1) moved_ok by (simp_all add: g0_def)
  note f1 = begin_stays [OF f0(1), of r, folded g1_def]
  have f1': "gh_ok g1" "pushed g1 = pushed g" "pushed g > 0 \<Longrightarrow> stays g0 g1" using f1 f0 assms(2) by simp_all
  note s = store_shot [OF f1'(1), of r]
  note u = update_sigma [OF s(1), folded g2_def]
  have g2: "gh_ok g2" "segmentStart g2 < pushed g2" "pushed g2 = pushed g + 1" using u s f1' by simp_all
  note f3 = reverse_stays [OF g2(1,2), folded g3_def]
  have g3: "gh_ok g3" "segmentStart g3 < pushed g3" "stays g2 g3" using f3 by simp_all
  have e: "gh_ok (hintPush r g) \<and> pushed (hintPush r g) = pushed g3 \<and> segmentStart (hintPush r g) = segmentStart g3 \<and>
    (advised g3 \<noteq> DIRECTION_NONE \<longrightarrow> advised (hintPush r g) = advised g3) \<and> hv_sound (hintOut (hintPush r g)) \<and>
    hvDirection (hintOut (hintPush r g)) \<in> {DIRECTION_NONE, hint (hintPush r g)}"
    using evaluate_facts [OF g3(1,2), of "rwRecordId r"] by (simp add: push)
  have "advised (hintPush r g) = advised g"
    if "pushed g > 0" "segmentStart (hintPush r g) = segmentStart g" "advised g \<noteq> DIRECTION_NONE"
  proof -
    have same: "segmentStart g3 = segmentStart g" using that(2) e by simp
    have u': "segmentStart g2 = segmentStart g1" "advised g2 = advised g1" using u s by simp_all
    have later1: "segmentStart g < segmentStart g1 \<or> segmentStart g1 = segmentStart g \<and> advised g1 = advised g"
      using f1'(3) [OF that(1)] f0 by (auto simp: stays_def)
    have later3: "segmentStart g1 < segmentStart g3 \<or> segmentStart g3 = segmentStart g1 \<and> advised g3 = advised g1"
      using g3(3) unfolding stays_def u' by blast
    have "\<not> segmentStart g < segmentStart g1" using later3 same by auto
    then have "segmentStart g1 = segmentStart g" "advised g1 = advised g" using later1 by blast+
    then have "advised g3 = advised g" using later3 same by auto
    then show ?thesis using e that(3) by simp
  qed
  moreover have "segmentStart g \<le> segmentStart (hintPush r g)" if "pushed g > 0"
    using e f1'(3) [OF that] f0(3) g3(3) u(3) s(4) by (auto simp: stays_def)
  ultimately show ?thesis using e g3 g2 by (simp add: stays_def)
qed

section \<open>The hint over a log\<close>

text \<open>The replay after the rows of a log, as \<open>grindHintOf\<close> runs it.\<close>

definition replayRows :: "ArrivalRecord list \<Rightarrow> StatsScope \<Rightarrow> u32 \<times> GrindHintReplay" where
  "replayRows rows scope =
     fold (\<lambda>r (newest, g).
         if \<not> hintAdmissible r scope \<or> pushed g > 0 \<and> rwRecordId r \<le> newest then (newest, g)
         else (rwRecordId r, hintPush r g))
       rows (0, grindHintReplay0 scope)"

definition replay_ok :: "GrindHintReplay \<Rightarrow> bool" where
  "replay_ok g \<longleftrightarrow> gh_ok g \<and> hv_sound (hintOut g) \<and> hvDirection (hintOut g) \<in> {DIRECTION_NONE, hint g} \<and>
     (if pushed g = 0 then advised g = DIRECTION_NONE else segmentStart g < pushed g)"

lemma replay_snoc:
  "snd (replayRows (rows @ [r]) scope) = snd (replayRows rows scope) \<or>
   snd (replayRows (rows @ [r]) scope) = hintPush r (snd (replayRows rows scope))"
  by (simp add: replayRows_def split_beta)

lemma replay_rows_ok: "replay_ok (snd (replayRows rows scope))"
proof (induction rows rule: rev_induct)
  case Nil
  then show ?case
    by (simp add: replayRows_def replay_ok_def gh_ok_def hv_sound_def grindHintReplay0_def grindHint0_def HINT_SIGMA_PRIOR_MS_def)
next
  case (snoc r rows)
  let ?g = "snd (replayRows rows scope)"
  have "pushed ?g = 0 \<or> segmentStart ?g < pushed ?g" using snoc.IH by (auto simp: replay_ok_def split: if_splits)
  then have "replay_ok (hintPush r ?g)"
    using push_facts [of ?g r] snoc.IH by (simp add: replay_ok_def)
  then show ?case using replay_snoc [of rows r scope] snoc.IH by auto
qed

text \<open>Segments only move on, and within one segment an announced advice stays.\<close>

lemma advice_stays:
  fixes rows later :: "ArrivalRecord list" and scope :: StatsScope
  defines "g \<equiv> snd (replayRows rows scope)" and "e \<equiv> snd (replayRows (rows @ later) scope)"
  assumes "advised g \<noteq> DIRECTION_NONE"
  shows "pushed e > 0 \<and> segmentStart g \<le> segmentStart e \<and> (segmentStart e = segmentStart g \<longrightarrow> advised e = advised g)"
  unfolding e_def
proof (induction later rule: rev_induct)
  case Nil
  then show ?case using assms(3) replay_rows_ok [of rows scope] by (auto simp: g_def replay_ok_def split: if_splits)
next
  case (snoc r later)
  let ?e = "snd (replayRows (rows @ later) scope)" and ?e' = "snd (replayRows (rows @ later @ [r]) scope)"
  have "gh_ok ?e" "segmentStart ?e < pushed ?e"
    using snoc.IH replay_rows_ok [of "rows @ later" scope] by (auto simp: replay_ok_def split: if_splits)
  then have p: "pushed (hintPush r ?e) = pushed ?e + 1 \<and> segmentStart ?e \<le> segmentStart (hintPush r ?e) \<and>
      (segmentStart (hintPush r ?e) = segmentStart ?e \<longrightarrow> advised ?e \<noteq> DIRECTION_NONE \<longrightarrow> advised (hintPush r ?e) = advised ?e)"
    using push_facts [of ?e r] snoc.IH by simp
  have "?e' = ?e \<or> ?e' = hintPush r ?e" using replay_snoc [of "rows @ later" r scope] by simp
  then show ?case
  proof
    assume "?e' = hintPush r ?e"
    moreover have "advised (hintPush r ?e) = advised g" if "segmentStart (hintPush r ?e) = segmentStart g"
      using that p snoc.IH assms(3) by auto
    ultimately show ?thesis using p snoc.IH by auto
  qed (use snoc.IH in simp)
qed


definition slowRow :: "u32 \<Rightarrow> int \<Rightarrow> ArrivalRecord" where
  "slowRow rid t = \<lparr> rwRecordId = rid, rwPresetId = 1, rwEndReason = endReasonCode SCALE_THRESHOLD,
     rwVerdict = 0, rwArrivalMs = t, rwFirstDropMs = 6000, rwFastBeforeMs = 25000, rwSlowAfterMs = 30000,
     rwGoalDg = 360, rwDurationMs = t, rwFinalWeightDg = 360, rwAvgFlowCgS = 180 \<rparr>"

text \<open>Two slow shots ask for a coarser grind, in one segment.\<close>

lemma two_slow_shots:
  "hvDirection (grindHintOf [slowRow 8 36000] statsExampleScope) = COARSER"
  "hvDirection (grindHintOf [slowRow 8 36000, slowRow 9 36500] statsExampleScope) = COARSER"
  "segmentStart (snd (replayRows [slowRow 8 36000, slowRow 9 36500] statsExampleScope)) =
     segmentStart (snd (replayRows [slowRow 8 36000] statsExampleScope))"
  by code_simp+


end
