(* ===== verification/Shot_Predictor.thy ===== *)
theory Shot_Predictor
  imports Grind_Hint
begin

text \<open>
  The live forecast of \<open>src/OpenBrewByWeightShotPredictor.h\<close>: where the projected weight meets
  the cut line, with which uncertainty, and which tint the page may show for it. It never
  actuates. Times kept in \<open>uint32_t\<close> fields are words, everything signed is an integer with
  truncating division; the 64-bit products are not wrapped.
\<close>

datatype ShotTint = NEUTRAL | TINT_FAST | TINT_ON_RECIPE | TINT_SLOW
datatype ShotTintNote = NOTE_NONE | CHANNELING | RECOVERED | RETARE | STALLED

definition shotTintJson :: "ShotTint \<Rightarrow> string" where
  "shotTintJson t = (case t of TINT_FAST \<Rightarrow> ''fast'' | TINT_ON_RECIPE \<Rightarrow> ''on_recipe''
     | TINT_SLOW \<Rightarrow> ''slow'' | NEUTRAL \<Rightarrow> ''neutral'')"

definition shotTintNoteJson :: "ShotTintNote \<Rightarrow> string" where
  "shotTintNoteJson n = (case n of CHANNELING \<Rightarrow> ''channeling'' | RECOVERED \<Rightarrow> ''recovered''
     | RETARE \<Rightarrow> ''retare'' | STALLED \<Rightarrow> ''stalled'' | NOTE_NONE \<Rightarrow> ''none'')"

definition A_CLAMP_LO_X100 :: int where "A_CLAMP_LO_X100 = - 50"
definition A_CLAMP_HI_X100 :: int where "A_CLAMP_HI_X100 = 150"
definition LEVER_CAP_MS :: int where "LEVER_CAP_MS = 2500"
definition MONO_GUARD_DG :: int where "MONO_GUARD_DG = 5"
definition MONO_SPIKE_DG :: int where "MONO_SPIKE_DG = 15"
definition YOUNG_SPAN_MS :: u32 where "YOUNG_SPAN_MS = 2000"
definition PLATEAU_MIN_MS :: int where "PLATEAU_MIN_MS = 10000"
definition V_FLOOR_DGPS :: int where "V_FLOOR_DGPS = 2"
definition SIGMA_DELTA_DGPS_X10 :: int where "SIGMA_DELTA_DGPS_X10 = 6"
definition CENSORED_SIGMA_DIV :: int where "CENSORED_SIGMA_DIV = 4"
definition PRIOR_MIN_N :: nat where "PRIOR_MIN_N = 2"
definition STALENESS_Z_PERMILLE :: int where "STALENESS_Z_PERMILLE = 2500"
definition DB_R_MS :: int where "DB_R_MS = 500"
definition DB_G_MS :: int where "DB_G_MS = 500"
definition DB_B_MS :: int where "DB_B_MS = 1000"
definition T_LOCK_MS :: int where "T_LOCK_MS = 5000"
definition K_LO_PERMILLE :: int where "K_LO_PERMILLE = 500"
definition K_HI_PERMILLE :: int where "K_HI_PERMILLE = 900"
definition SLEW_UP_PCT_S :: int where "SLEW_UP_PCT_S = 25"
definition SLEW_EVIDENCE_PCT_S :: int where "SLEW_EVIDENCE_PCT_S = 45"
definition SLEW_DOWN_PCT_S :: int where "SLEW_DOWN_PCT_S = 100"
definition WALL_WATCH_MS :: int where "WALL_WATCH_MS = 1000"
definition QP_GATE_MARGIN_MS :: int where "QP_GATE_MARGIN_MS = 500"
definition RATE_STEP_RATIO_X100 :: int where "RATE_STEP_RATIO_X100 = 150"
definition RATE_STEP_WINDOW_MS :: int where "RATE_STEP_WINDOW_MS = 2000"
definition RATE_STEP_MIN_BASE_X100 :: int where "RATE_STEP_MIN_BASE_X100 = 100"
definition RECOVERY_NOTE_MS :: int where "RECOVERY_NOTE_MS = 3000"
definition INT32_MIN :: int where "INT32_MIN = - (2 ^ 31)"

section \<open>The square root\<close>

function newton :: "int \<Rightarrow> int \<Rightarrow> int \<Rightarrow> int" where
  "newton v x y = (if y < x then newton v y ((y + v sdiv y) sdiv 2) else x)"
  by pat_completeness auto

text \<open>The loop ends for every start: far below zero the quotient vanishes and the next value rises.\<close>

lemma newton_rises:
  fixes v y :: int
  assumes "y < - \<bar>v\<bar> - 1"
  shows "y \<le> (y + v sdiv y) sdiv 2"
proof -
  have "\<bar>v\<bar> div \<bar>y\<bar> = 0" using assms by (simp add: div_pos_pos_trivial)
  then have q: "v sdiv y = 0" by (simp add: signed_divide_int_def)
  have "y sdiv 2 = - (\<bar>y\<bar> div 2)" using assms by (simp add: signed_divide_int_def)
  then show ?thesis using q assms by simp
qed

termination newton
proof (relation "measure (\<lambda>(v, x, y). 2 * nat (x + \<bar>v\<bar> + 1) + (if y < x then 1 else 0))")
  fix v x y :: int
  assume "y < x"
  show "((v, y, (y + v sdiv y) sdiv 2), v, x, y) \<in> measure (\<lambda>(v, x, y). 2 * nat (x + \<bar>v\<bar> + 1) + (if y < x then 1 else 0))"
  proof (cases "0 < x + \<bar>v\<bar> + 1")
    case True
    then obtain a b where "nat (y + \<bar>v\<bar> + 1) = a" "nat (x + \<bar>v\<bar> + 1) = b" "a < b" using \<open>y < x\<close> by simp
    then show ?thesis using \<open>y < x\<close> by simp
  next
    case False
    then have "y < - \<bar>v\<bar> - 1" using \<open>y < x\<close> by linarith
    then show ?thesis using newton_rises [of y v] False \<open>y < x\<close> by simp
  qed
qed simp

declare newton.simps [simp del]

definition isqrt64 :: "int \<Rightarrow> int" where
  "isqrt64 v = (if v \<le> 0 then 0 else toI32 (newton v v ((v + 1) sdiv 2)))"

lemma newton_step_high:
  fixes v y :: int
  assumes "0 < y" "0 \<le> v"
  shows "v < ((y + v sdiv y) sdiv 2 + 1) * ((y + v sdiv y) sdiv 2 + 1)"
proof -
  define q where "q = v div y"
  define s where "s = (y + q) div 2"
  have "y * q + v mod y = v" by (simp add: q_def)
  then have "v < y * q + y" using pos_mod_bound [OF assms(1), of v] by linarith
  then have q: "v < y * (q + 1)" "0 \<le> q"
    using assms by (simp_all add: q_def pos_imp_zdiv_nonneg_iff distrib_left)
  have s: "y + q + 1 \<le> 2 * s + 2" "(y + v sdiv y) sdiv 2 = s"
    using assms q by (simp_all add: s_def sdiv_nonneg q_def)
  have "4 * (y * (q + 1)) \<le> (y + q + 1) * (y + q + 1)"
  proof -
    have "(y + q + 1) * (y + q + 1) - 4 * (y * (q + 1)) = (y - q - 1) * (y - q - 1)" by (simp add: algebra_simps)
    then show ?thesis using zero_le_square [of "y - q - 1"] by linarith
  qed
  also have "\<dots> \<le> (2 * s + 2) * (2 * s + 2)" using s(1) assms(1) q(2) by (intro mult_mono) auto
  also have "\<dots> = 4 * ((s + 1) * (s + 1))" by (simp add: algebra_simps)
  finally show ?thesis using q(1) unfolding s(2) by linarith
qed

lemma newton_root:
  assumes "0 < x" "0 < v" "v < (x + 1) * (x + 1)" "y = (x + v sdiv x) sdiv 2"
  shows "0 < newton v x y \<and> newton v x y * newton v x y \<le> v \<and> v < (newton v x y + 1) * (newton v x y + 1)"
  using assms
proof (induction v x y rule: newton.induct)
  case (1 v x y)
  have q: "v sdiv x = v div x" "0 \<le> v div x" using "1.prems" by (simp_all add: sdiv_nonneg pos_imp_zdiv_nonneg_iff)
  have y: "y = (x + v div x) div 2" using "1.prems"(1,4) q by (simp add: sdiv_nonneg)
  show ?case
  proof (cases "y < x")
    case True
    have "0 < y"
    proof (cases "x = 1")
      case True
      then show ?thesis using y "1.prems"(2) by simp
    next
      case False
      then show ?thesis using y q(2) "1.prems"(1) by linarith
    qed
    moreover have "v < (y + 1) * (y + 1)" using newton_step_high [of x v] "1.prems" by simp
    ultimately show ?thesis using "1.IH" [OF True] "1.prems"(2) True by (simp add: newton.simps [of v x y])
  next
    case False
    then have "x \<le> v div x" using y by linarith
    then have "x * x \<le> (v div x) * x" using "1.prems"(1) by (simp add: mult_right_mono)
    also have "\<dots> = v - v mod x" by (simp add: minus_mod_eq_div_mult)
    also have "\<dots> \<le> v" using pos_mod_sign [OF "1.prems"(1), of v] by simp
    finally have "x * x \<le> v" .
    moreover have "newton v x y = x" using False by (simp add: newton.simps)
    ultimately show ?thesis using "1.prems"(1,3) by simp
  qed
qed

text \<open>
  The integer square root is exact: for every value below 2^62 the Newton loop
  ends and returns the largest integer whose square does not exceed the value.
\<close>

lemma isqrt_floor:
  assumes "0 \<le> v" "v < 2 ^ 62"
  shows "0 \<le> isqrt64 v \<and> isqrt64 v * isqrt64 v \<le> v \<and> v < (isqrt64 v + 1) * (isqrt64 v + 1)"
proof (cases "v = 0")
  case True
  then show ?thesis by (simp add: isqrt64_def)
next
  case False
  define r where "r = newton v v ((v + 1) sdiv 2)"
  have "(v + 1) * (v + 1) = v * v + 2 * v + 1" by (simp add: algebra_simps)
  then have "v < (v + 1) * (v + 1)" using assms(1) zero_le_square [of v] by linarith
  moreover have "(v + 1) sdiv 2 = (v + v sdiv v) sdiv 2" using assms(1) False by (simp add: sdiv_nonneg)
  ultimately have r: "0 < r" "r * r \<le> v" "v < (r + 1) * (r + 1)"
    using newton_root [of v v "(v + 1) sdiv 2"] assms(1) False by (simp_all add: r_def)
  have "r < 2 ^ 31"
  proof (rule ccontr)
    assume "\<not> r < 2 ^ 31"
    then have "(2 ^ 31) * (2 ^ 31) \<le> r * r" using r(1) by (intro mult_mono) auto
    then show False using r(2) assms(2) by simp
  qed
  then have "isqrt64 v = r" using r(1) False assms(1) by (simp add: isqrt64_def r_def fitsI32_def)
  then show ?thesis using r by simp
qed

lemma isqrt_floor_witness: "isqrt64 1000000 = 1000"
proof -
  have "isqrt64 1000000 * isqrt64 1000000 \<le> 1000000" "1000000 < (isqrt64 1000000 + 1) * (isqrt64 1000000 + 1)"
    "0 \<le> isqrt64 1000000"
    using isqrt_floor [of 1000000] by simp_all
  then have "isqrt64 1000000 \<le> 1000" "1000 \<le> isqrt64 1000000"
    using mult_mono [of 1001 "isqrt64 1000000" 1001 "isqrt64 1000000"]
      mult_mono [of "isqrt64 1000000 + 1" 1000 "isqrt64 1000000 + 1" 1000] by force+
  then show ?thesis by simp
qed

section \<open>The normal distribution\<close>

definition PHI_PERMILLE :: "int list" where
  "PHI_PERMILLE = [
    500, 540, 579, 618, 655, 691, 726, 758, 788, 816, 841, 864, 885, 903,
    919, 933, 945, 955, 964, 971, 977, 982, 986, 989, 992, 994, 995, 997,
    997, 998, 999, 999, 999, 1000, 1000, 1000, 1000, 1000, 1000, 1000,
    1000]"

definition phiPermille :: "int \<Rightarrow> int" where
  "phiPermille zMilli =
     (if zMilli \<le> - 4000 then 0 else if zMilli \<ge> 4000 then 1000
      else
        let z = (if zMilli < 0 then - zMilli else zMilli);
            idx = z sdiv 100; frac = z - idx * 100;
            lo = PHI_PERMILLE ! nat idx; hi = PHI_PERMILLE ! nat (idx + 1);
            out = lo + ((hi - lo) * frac) sdiv 100
        in if zMilli < 0 then 1000 - out else out)"

definition phiUpper :: "nat \<Rightarrow> int \<Rightarrow> int" where
  "phiUpper i frac = PHI_PERMILLE ! i + ((PHI_PERMILLE ! Suc i - PHI_PERMILLE ! i) * frac) div 100"

lemma phi_table:
  assumes "i < 40"
  shows "500 \<le> PHI_PERMILLE ! i \<and> PHI_PERMILLE ! i \<le> PHI_PERMILLE ! Suc i \<and> PHI_PERMILLE ! Suc i \<le> 1000"
proof -
  have "\<forall>i\<in>set [0..<40]. 500 \<le> PHI_PERMILLE ! i \<and> PHI_PERMILLE ! i \<le> PHI_PERMILLE ! Suc i \<and> PHI_PERMILLE ! Suc i \<le> 1000"
    by code_simp
  then show ?thesis using assms by simp
qed

lemma phi_cell:
  assumes "i < 40" "0 \<le> f" "f \<le> 100"
  shows "PHI_PERMILLE ! i \<le> phiUpper i f \<and> phiUpper i f \<le> PHI_PERMILLE ! Suc i"
proof -
  define d where "d = PHI_PERMILLE ! Suc i - PHI_PERMILLE ! i"
  have d: "0 \<le> d" using phi_table [OF assms(1)] by (simp add: d_def)
  then have "0 \<le> d * f" "d * f \<le> d * 100" using assms by (simp_all add: mult_left_mono)
  then have "0 \<le> d * f div 100" "d * f div 100 \<le> d" by (simp_all add: pos_imp_zdiv_nonneg_iff)
  then show ?thesis by (simp add: phiUpper_def d_def [symmetric]) (simp add: d_def)
qed

lemma phi_nonneg: "0 \<le> z \<Longrightarrow> z < 4000 \<Longrightarrow> phiPermille z = phiUpper (nat (z div 100)) (z mod 100)"
proof -
  assume z: "0 \<le> z" "z < 4000"
  then have i: "nat (z div 100) < 40" "0 \<le> z div 100" by (simp_all add: pos_imp_zdiv_nonneg_iff nat_less_iff)
  have "0 \<le> (PHI_PERMILLE ! Suc (nat (z div 100)) - PHI_PERMILLE ! nat (z div 100)) * (z mod 100)"
    using phi_table [OF i(1)] by simp
  moreover have "nat (z div 100 + 1) = Suc (nat (z div 100))" using i(2) by simp
  ultimately show ?thesis
    using z by (simp add: phiPermille_def phiUpper_def Let_def sdiv_nonneg minus_div_mult_eq_mod)
qed

lemma phi_range: "0 \<le> phiPermille z \<and> phiPermille z \<le> 1000"
proof -
  have pos: "500 \<le> phiPermille z \<and> phiPermille z \<le> 1000" if "0 \<le> z" for z
  proof (cases "z < 4000")
    case True
    then have "nat (z div 100) < 40" "z mod 100 \<le> 100"
      using that by (simp_all add: nat_less_iff order_less_imp_le)
    then show ?thesis
      using phi_nonneg [OF that True] phi_cell [of "nat (z div 100)" "z mod 100"] phi_table [of "nat (z div 100)"]
      by simp
  qed (simp add: phiPermille_def)
  have neg: "phiPermille z = 1000 - phiPermille (- z)" if "z < 0"
    using that by (simp add: phiPermille_def Let_def)
  show ?thesis using pos [of z] pos [of "- z"] neg by (cases "z < 0") auto
qed

section \<open>The state of a shot\<close>

record CorridorState =
  csParams :: Params
  csRate :: RateEstimator
  csTauMs :: int
  csOffsetDg :: int
  csCrossingValid :: bool
  csCrossingMs :: int
  csStopMs :: int
  csStopLineDg :: int
  csHistory :: ArrivalStats

record ShotPredictor =
  maxWDg :: int
  prevWDg :: int
  guardOkSinceMs :: u32
  lowASinceMs :: u32
  lowQSinceMs :: u32
  lastStepAtMs :: u32
  blueSinceMs :: u32
  noteUntilMs :: u32
  stalledCandidate :: bool
  spAX100 :: int
  spARawX100 :: int
  priorSuspended :: bool
  spLastSampleMs :: u32
  tintPct :: u8
  tintClass :: ShotTint
  tintNote :: ShotTintNote

definition armShotPredictor :: ShotPredictor where
  "armShotPredictor = \<lparr> maxWDg = INT32_MIN, prevWDg = INT32_MIN, guardOkSinceMs = 0, lowASinceMs = 0,
     lowQSinceMs = 0, lastStepAtMs = 0, blueSinceMs = 0, noteUntilMs = 0, stalledCandidate = False,
     spAX100 = 0, spARawX100 = 0, priorSuspended = False, spLastSampleMs = 0, tintPct = 0,
     tintClass = NEUTRAL, tintNote = NOTE_NONE \<rparr>"

record PredictorInputs =
  inCut :: CorridorState
  inNowMs :: int
  inWeightDg :: int
  inFirstDropMs :: int
  inQPX100 :: int
  inAutoMode :: bool
  inScaleOk :: bool
  inRetarePending :: bool
  inSampleDtMs :: int

text \<open>The best raw rate near the wanted age, with its time; a later equal distance does not replace it.\<close>

definition rawRateAt :: "RateEstimator \<Rightarrow> int \<Rightarrow> int \<Rightarrow> int \<Rightarrow> int \<times> int" where
  "rawRateAt rate now age tolerance =
     (let target = now - age;
          (best, bestDist, bestAt) = fold (\<lambda>age (best, bestDist, bestAt).
            let i = rateIndex rate age; d = reAtMs rate ! i - target; dist = (if d < 0 then - d else d) in
            if reRawRateX100 rate ! i = NO_RATE then (best, bestDist, bestAt)
            else if dist \<le> tolerance \<and> dist < bestDist then (reRawRateX100 rate ! i, dist, reAtMs rate ! i)
            else (best, bestDist, bestAt)) [0..<reCount rate] (NO_RATE, INT32_MAX, 0)
      in (best, bestAt))"

definition sigmaWDg :: "RateEstimator \<Rightarrow> int" where
  "sigmaWDg rate =
     (if reCount rate < 2 then 3
      else
        let values = sortSmall (map (\<lambda>age. reInnovationDg rate ! rateIndex rate age) [0..<reCount rate - 1]);
            s = toI32 ((madOf values (medianOfSorted values) * 14826) sdiv 10000)
        in if s < 3 then 3 else s)"

definition varQdgMs2X1e9 :: "RateEstimator \<Rightarrow> int \<Rightarrow> int" where
  "varQdgMs2X1e9 rate sw =
     (if reCount rate < 2 then 0
      else
        let sxx = sxxOf (agedTimes rate) 0; n = int (reCount rate) in
        if sxx \<le> 0 then 0 else (sw * sw * n * n * 1000000000) sdiv sxx)"

definition cutLineSlopeDgS :: "Params \<Rightarrow> int \<Rightarrow> int" where
  "cutLineSlopeDgS p t = (cutLineDg p (t + 50) - cutLineDg p (if t > 50 then t - 50 else 0)) * 10"

section \<open>The forecast\<close>

record Forecast =
  fcMs :: int
  fcSigmaMs :: int
  fcCensored :: bool

definition noForecast :: Forecast where
  "noForecast = \<lparr> fcMs = - 1, fcSigmaMs = 0, fcCensored = False \<rparr>"

definition censoredForecast :: "Params \<Rightarrow> int \<Rightarrow> Forecast" where
  "censoredForecast p now =
     \<lparr> fcMs = wallMs p, fcSigmaMs = (wallMs p - now) sdiv CENSORED_SIGMA_DIV, fcCensored = True \<rparr>"

text \<open>The crossing on a flat level with acceleration: None censors, otherwise time and basis rate.\<close>

definition flatCrossing :: "CorridorState \<Rightarrow> int \<Rightarrow> int \<Rightarrow> int \<Rightarrow> int \<Rightarrow> int \<Rightarrow> int \<Rightarrow> (int \<times> int) option" where
  "flatCrossing cs now weight aX100 level tPlain q =
     (let qc = q + (aX100 * 3) sdiv 2 in
      if qc > 0 then
        let lead = (qc * csTauMs cs) sdiv 100000; D = level - csOffsetDg cs - weight - lead in
        if D \<le> 0 then Some (now, qc)
        else
          let b = qc * 2000; disc = b * b + 800000000 * aX100 * D in
          if disc < 0 then None
          else
            let h = (isqrt64 disc - b) sdiv (2 * aX100);
                tStar = now + toI32 (if h < 0 then 0 else if h > 200000 then 200000 else h)
            in if tStar \<ge> wallMs (csParams cs) then None else Some (tStar, qc)
      else Some (tPlain, q))"

definition rampCrossing :: "CorridorState \<Rightarrow> int \<Rightarrow> int \<Rightarrow> int \<Rightarrow> int \<Rightarrow> int \<Rightarrow> (int \<times> int) option" where
  "rampCrossing cs now weight aX100 tPlain q =
     (let h0 = tPlain - now;
          lever = (if 1500 + h0 sdiv 2 < LEVER_CAP_MS then 1500 + h0 sdiv 2 else LEVER_CAP_MS);
          q0 = toI32 (q + (aX100 * lever) sdiv 1000);
          qEff = (if q0 > MAX_RATE_X100 then MAX_RATE_X100 else q0)
      in if qEff < MIN_PREDICTION_RATE_X100 then None
         else case crossingMs (csParams cs) now weight qEff (csTauMs cs) (csOffsetDg cs) of
             None \<Rightarrow> None
           | Some tEff \<Rightarrow> if tEff \<ge> wallMs (csParams cs) then None else Some (tEff, qEff))"

definition forecastSigma :: "CorridorState \<Rightarrow> int \<Rightarrow> int \<Rightarrow> int \<Rightarrow> int \<Rightarrow> int" where
  "forecastSigma cs now tStar qBasis aRawX100 =
     (let h = (if tStar > now then tStar - now else 0);
          v0 = qBasis sdiv 100 - cutLineSlopeDgS (csParams cs) tStar;
          v = (if v0 < V_FLOOR_DGPS then V_FLOOR_DGPS else v0);
          sw = sigmaWDg (csRate cs);
          varQ = varQdgMs2X1e9 (csRate cs) sw;
          span = h + csTauMs cs;
          a = sw * sw * 100 + (span * span * varQ) sdiv 1000000000 * 100 +
              ((SIGMA_DELTA_DGPS_X10 * SIGMA_DELTA_DGPS_X10 * h * h * h) sdiv 1000000000) sdiv 3;
          bias = (- aRawX100 * h * h) sdiv 200000000;
          t100 = (if aRawX100 < - 20 \<and> h > 0 then a + bias * bias * 100 else a);
          sigma2 = (1000000 * (t100 sdiv 100)) sdiv (v * v);
          sigma = isqrt64 (if sigma2 < 1 then 1 else sigma2)
      in if sigma > 20000 then 20000 else sigma)"

definition forecastBasis :: "CorridorState \<Rightarrow> int \<Rightarrow> int \<Rightarrow> nat \<Rightarrow> int \<Rightarrow> int \<Rightarrow> Forecast" where
  "forecastBasis cs now weight basis aX100 aRawX100 =
     (let rate = csRate cs; p = csParams cs in
      if \<not> reValid rate \<or> reRateX100 rate < MIN_PREDICTION_RATE_X100 then noForecast
      else case crossingMs p now weight (reRateX100 rate) (csTauMs cs) (csOffsetDg cs) of
          None \<Rightarrow> noForecast
        | Some tPlain \<Rightarrow>
            if tPlain \<ge> wallMs p then censoredForecast p now
            else
              let goalFlat = (fastBeforeMs p \<le> tPlain \<and>
                    (tPlain < slowAfterMs p \<or> tPlain = slowAfterMs p \<and> rampMs p > 0));
                  floorFlat = (tPlain \<ge> slowRampEndMs p);
                  crossing =
                    (if basis = 0 \<and> aX100 \<noteq> 0 \<and> (goalFlat \<or> floorFlat)
                     then flatCrossing cs now weight aX100 (if goalFlat then goalDg p else floorDg p) tPlain (reRateX100 rate)
                     else if basis = 0 \<and> aX100 \<noteq> 0
                     then rampCrossing cs now weight aX100 tPlain (reRateX100 rate)
                     else Some (tPlain, reRateX100 rate))
              in case crossing of
                   None \<Rightarrow> censoredForecast p now
                 | Some (tStar, q) \<Rightarrow>
                     \<lparr> fcMs = tStar, fcSigmaMs = forecastSigma cs now tStar q aRawX100, fcCensored = False \<rparr>)"

section \<open>Guards and phase\<close>

text \<open>A time on the shot clock as the unsigned fields store it.\<close>

definition clock32 :: "int \<Rightarrow> u32" where "clock32 t = word_of_int t"

definition spikeOf :: "PredictorInputs \<Rightarrow> ShotPredictor \<Rightarrow> bool" where
  "spikeOf i pr \<longleftrightarrow> prevWDg pr \<noteq> INT32_MIN \<and> inWeightDg i - prevWDg pr > MONO_SPIKE_DG"

definition weightGuard :: "PredictorInputs \<Rightarrow> ShotPredictor \<Rightarrow> ShotPredictor" where
  "weightGuard i pr =
     (let spike = spikeOf i pr;
          p1 = (if spike then pr\<lparr> guardOkSinceMs := 0 \<rparr>
                else if inWeightDg i > maxWDg pr then pr\<lparr> maxWDg := inWeightDg i \<rparr> else pr);
          p2 = (if inWeightDg i < maxWDg p1 - MONO_GUARD_DG then p1\<lparr> guardOkSinceMs := 0 \<rparr>
                else if guardOkSinceMs p1 = 0 \<and> \<not> spike then p1\<lparr> guardOkSinceMs := clock32 (inNowMs i) \<rparr> else p1)
      in p2\<lparr> prevWDg := inWeightDg i \<rparr>)"

definition accelerationOf :: "PredictorInputs \<Rightarrow> int" where
  "accelerationOf i =
     (let rate = csRate (inCut i); (rawOld, rawOldAt) = rawRateAt rate (inNowMs i) 1500 400 in
      if rawOld = NO_RATE \<or> \<not> reValid rate \<or> inNowMs i - rawOldAt \<le> 0 then 0
      else toI32 (((rawX100 rate - rawOld) * 1000) sdiv (inNowMs i - rawOldAt)))"

definition qOkOf :: "PredictorInputs \<Rightarrow> bool" where
  "qOkOf i \<longleftrightarrow> reValid (csRate (inCut i)) \<and> reRateX100 (csRate (inCut i)) \<ge> MIN_PREDICTION_RATE_X100"

definition rateGuard :: "PredictorInputs \<Rightarrow> ShotPredictor \<Rightarrow> ShotPredictor" where
  "rateGuard i pr =
     (let rate = csRate (inCut i); now = inNowMs i; a = accelerationOf i;
          q2 = fst (rawRateAt rate now RATE_STEP_WINDOW_MS 400);
          p1 = pr\<lparr> spARawX100 := a,
                  spAX100 := (if a < A_CLAMP_LO_X100 then A_CLAMP_LO_X100
                              else if a > A_CLAMP_HI_X100 then A_CLAMP_HI_X100 else a) \<rparr>;
          p2 = (if reValid rate \<and> q2 \<noteq> NO_RATE \<and> q2 \<ge> RATE_STEP_MIN_BASE_X100 \<and>
                   rawX100 rate \<ge> (q2 * RATE_STEP_RATIO_X100) sdiv 100
                then p1\<lparr> lastStepAtMs := clock32 now \<rparr> else p1);
          p3 = (if a \<le> 50 \<and> a \<ge> - 50 then (if lowASinceMs p2 = 0 then p2\<lparr> lowASinceMs := clock32 now \<rparr> else p2)
                else p2\<lparr> lowASinceMs := 0 \<rparr>)
      in if \<not> qOkOf i then (if lowQSinceMs p3 = 0 then p3\<lparr> lowQSinceMs := clock32 now \<rparr> else p3)
         else p3\<lparr> lowQSinceMs := 0 \<rparr>)"

definition plateauOf :: "PredictorInputs \<Rightarrow> ShotPredictor \<Rightarrow> bool" where
  "plateauOf i pr \<longleftrightarrow>
     inFirstDropMs i > 0 \<and>
     (inNowMs i \<ge> inFirstDropMs i + 8000 \<or>
      lowASinceMs pr \<noteq> 0 \<and> clock32 (inNowMs i) - lowASinceMs pr \<ge> 3000 \<and> inNowMs i \<ge> inFirstDropMs i + 4000) \<and>
     inNowMs i \<ge> PLATEAU_MIN_MS"

definition youngOf :: "PredictorInputs \<Rightarrow> ShotPredictor \<Rightarrow> bool" where
  "youngOf i pr \<longleftrightarrow>
     inFirstDropMs i = 0 \<or> \<not> inAutoMode i \<or> \<not> inScaleOk i \<or> inRetarePending i \<or>
     (reCount (csRate (inCut i)) < RATE_MIN_SAMPLES \<or> \<not> reValid (csRate (inCut i))) \<or>
     guardOkSinceMs pr = 0 \<or> clock32 (inNowMs i) - guardOkSinceMs pr < YOUNG_SPAN_MS"

definition stepRecentOf :: "PredictorInputs \<Rightarrow> ShotPredictor \<Rightarrow> bool" where
  "stepRecentOf i pr \<longleftrightarrow>
     lastStepAtMs pr \<noteq> 0 \<and> clock32 (inNowMs i) - lastStepAtMs pr < clock32 RATE_STEP_WINDOW_MS"

definition collapseOf :: "PredictorInputs \<Rightarrow> ShotPredictor \<Rightarrow> bool" where
  "collapseOf i pr \<longleftrightarrow>
     \<not> qOkOf i \<and> plateauOf i pr \<and> lowQSinceMs pr \<noteq> 0 \<and> clock32 (inNowMs i) - lowQSinceMs pr \<ge> 3000"

section \<open>Forecast and prior\<close>

definition liveForecast :: "PredictorInputs \<Rightarrow> ShotPredictor \<Rightarrow> Forecast" where
  "liveForecast i pr =
     (if qOkOf i then forecastBasis (inCut i) (inNowMs i) (inWeightDg i) 0 (spAX100 pr) (spARawX100 pr)
      else if collapseOf i pr then censoredForecast (csParams (inCut i)) (inNowMs i)
      else noForecast)"

definition redForecast :: "PredictorInputs \<Rightarrow> Forecast" where
  "redForecast i = (if qOkOf i then forecastBasis (inCut i) (inNowMs i) (inWeightDg i) 1 0 0 else noForecast)"

text \<open>The prior of the preset is fused in, or suspended for the rest of the shot.\<close>

definition fusePrior :: "PredictorInputs \<Rightarrow> Forecast \<Rightarrow> ShotPredictor \<Rightarrow> ShotPredictor \<times> int \<times> int" where
  "fusePrior i live pr =
     (let h = csHistory (inCut i); tHat = fcMs live; sigmaF = fcSigmaMs live in
      if \<not> fcCensored live \<and> fcMs live \<ge> 0 \<and> stN h \<ge> PRIOR_MIN_N \<and> \<not> priorSuspended pr \<and> plateauOf i pr then
        let g = HINT_G ! (if stN h < HINT_LEVEL_SHOTS then stN h - 1 else HINT_LEVEL_SHOTS - 1);
            sP = (if stSigmaMs h > 750 then stSigmaMs h else 750);
            sp = (sP * g) sdiv 1000;
            diff = (if tHat > stMedianMs h then tHat - stMedianMs h else stMedianMs h - tHat);
            a = sigmaF * sigmaF; b = sp * sp
        in if diff * 1000 > STALENESS_Z_PERMILLE * isqrt64 (a + b) then (pr\<lparr> priorSuspended := True \<rparr>, tHat, sigmaF)
           else (pr, toI32 ((tHat * b + stMedianMs h * a) sdiv (a + b)), isqrt64 ((a * b) sdiv (a + b)))
      else (pr, tHat, sigmaF))"

section \<open>Candidate and blend\<close>

datatype Cand = C_NONE | C_RED | C_GREEN | C_BLUE

definition atLeastOne :: "int \<Rightarrow> int" where "atLeastOne s = (if s > 0 then s else 1)"

definition redApplies :: "PredictorInputs \<Rightarrow> Forecast \<Rightarrow> ShotPredictor \<Rightarrow> bool" where
  "redApplies i live pr \<longleftrightarrow>
     (let p = csParams (inCut i); red = redForecast i in
      \<not> youngOf i pr \<and> \<not> collapseOf i pr \<and> qOkOf i \<and> \<not> fcCensored live \<and> fcMs red \<ge> 0 \<and>
      fcMs red < wallMs p - WALL_WATCH_MS \<and> fcMs red + 2 * fcSigmaMs red < fastBeforeMs p - DB_R_MS \<and>
      \<not> channeling (csRate (inCut i)) \<and> \<not> stepRecentOf i pr)"

text \<open>Candidate, weight k in permille and the time the ramp aims at.\<close>

definition candidateOf :: "PredictorInputs \<Rightarrow> Forecast \<Rightarrow> int \<Rightarrow> int \<Rightarrow> ShotPredictor \<Rightarrow> Cand \<times> int \<times> int" where
  "candidateOf i live tHat sigmaF pr =
     (let p = csParams (inCut i); rate = csRate (inCut i); red = redForecast i; chan = channeling rate; now = inNowMs i in
      if redApplies i live pr then
        (C_RED, phiPermille (((fastBeforeMs p - DB_R_MS - fcMs red) * 1000) sdiv atLeastOne (fcSigmaMs red)), fcMs red)
      else if \<not> youngOf i pr \<and> fcMs live \<ge> 0 \<and> \<not> fcCensored live \<and> fcMs live < wallMs p - WALL_WATCH_MS then
        (let lo = tHat - 2 * sigmaF; hi = tHat + 2 * sigmaF in
         if fastBeforeMs p + DB_G_MS \<le> lo \<and> hi \<le> slowAfterMs p - DB_G_MS then
           (C_GREEN, phiPermille (((slowAfterMs p - DB_G_MS - tHat) * 1000) sdiv atLeastOne sigmaF) -
              phiPermille (((fastBeforeMs p + DB_G_MS - tHat) * 1000) sdiv atLeastOne sigmaF), tHat)
         else if lo > slowAfterMs p + DB_B_MS \<and> \<not> chan then
           (C_BLUE, 1000 - phiPermille (((slowAfterMs p + DB_B_MS - tHat) * 1000) sdiv atLeastOne sigmaF), tHat)
         else (C_NONE, 0, tHat))
      else if \<not> youngOf i pr \<and> fcCensored live \<and> plateauOf i pr \<and> \<not> chan then
        if stN (csHistory (inCut i)) \<ge> 1 \<and> inQPX100 i > 0 \<and> \<not> priorSuspended pr then
          (let lead = (reRateX100 rate * csTauMs (inCut i)) sdiv 100000;
               mass = goalDg p + csOffsetDg (inCut i) + lead - inWeightDg i;
               arrivalAtQp = now + (mass * 100000) sdiv inQPX100 i
           in if arrivalAtQp > slowAfterMs p + QP_GATE_MARGIN_MS then (C_BLUE, 1000, wallMs p)
              else (C_NONE, 0, fcMs live))
        else (C_NONE, 0, fcMs live)
      else (C_NONE, 0, fcMs live))"

definition noteOf :: "PredictorInputs \<Rightarrow> ShotPredictor \<Rightarrow> ShotTintNote" where
  "noteOf i pr =
     (if inRetarePending i then RETARE
      else if stalledCandidate pr then STALLED
      else if noteUntilMs pr \<noteq> 0 \<and> clock32 (inNowMs i) < noteUntilMs pr then RECOVERED
      else if channeling (csRate (inCut i)) then CHANNELING else NOTE_NONE)"

definition sampleDt :: "PredictorInputs \<Rightarrow> u32" where
  "sampleDt i = (if inSampleDtMs i > 0 then word_of_int (inSampleDtMs i) else 100)"

definition decayTint :: "PredictorInputs \<Rightarrow> ShotPredictor \<Rightarrow> ShotPredictor" where
  "decayTint i pr =
     (let down = toI32 (uint ((word_of_int SLEW_DOWN_PCT_S * sampleDt i) div 1000));
          pct = (if uint (tintPct pr) > down then word_of_int (uint (tintPct pr) - down) else 0)
      in pr\<lparr> tintPct := pct, tintClass := (if pct = 0 then NEUTRAL else tintClass pr) \<rparr>)"

definition targetX :: "PredictorInputs \<Rightarrow> int \<Rightarrow> int \<Rightarrow> bool \<Rightarrow> int" where
  "targetX i k tBlend plateau =
     (let ramp0 = toI32 ((inNowMs i * 1000) sdiv (if tBlend - T_LOCK_MS > 1000 then tBlend - T_LOCK_MS else 1000));
          ramp1 = (if ramp0 > 1000 then 1000 else ramp0);
          ramp = (if ramp1 < 0 then 0 else ramp1);
          kk = (if plateau then ((k - K_LO_PERMILLE) * 1000) sdiv (K_HI_PERMILLE - K_LO_PERMILLE) else 0);
          accel = (if kk > 0 then if kk \<ge> 1000 then 1000 else (kk * kk * (3000 - 2 * kk)) sdiv 1000000 else 0)
      in if ramp > accel then ramp else accel)"

definition slewPct :: "PredictorInputs \<Rightarrow> int \<Rightarrow> int \<Rightarrow> int \<Rightarrow> int" where
  "slewPct i k target pct =
     (let rise = toI32 (uint ((word_of_int ((if k \<ge> K_HI_PERMILLE then SLEW_EVIDENCE_PCT_S else SLEW_UP_PCT_S) * 10) * sampleDt i) div 1000));
          fall = uint ((word_of_int (SLEW_DOWN_PCT_S * 10) * sampleDt i) div 1000);
          moved = (if target \<ge> pct then (let up = pct + rise in if up > target then target else up)
                   else (let down = toI32 (pct - fall) in if down < target then target else down));
          capped = (if moved > 1000 then 1000 else moved)
      in if capped < 0 then 0 else capped)"

definition tintOf :: "Cand \<Rightarrow> ShotTint" where
  "tintOf c = (if c = C_RED then TINT_FAST else if c = C_GREEN then TINT_ON_RECIPE else TINT_SLOW)"

definition blendTint :: "PredictorInputs \<Rightarrow> Cand \<Rightarrow> int \<Rightarrow> int \<Rightarrow> ShotPredictor \<Rightarrow> ShotPredictor" where
  "blendTint i cand k tBlend pr =
     (let pct = slewPct i k (targetX i k tBlend (plateauOf i pr)) (uint (tintPct pr) * 10);
          new = tintOf cand;
          p1 = pr\<lparr> tintPct := word_of_int ((pct + 5) sdiv 10) \<rparr>;
          p2 = (if new = TINT_SLOW \<and> tintClass p1 \<noteq> TINT_SLOW then p1\<lparr> blueSinceMs := clock32 (inNowMs i) \<rparr> else p1);
          p3 = (if tintClass p2 = TINT_SLOW \<and> new = TINT_ON_RECIPE \<and> stepRecentOf i p2 \<and> blueSinceMs p2 \<noteq> 0
                then p2\<lparr> noteUntilMs := clock32 (inNowMs i + RECOVERY_NOTE_MS) \<rparr> else p2)
      in p3\<lparr> tintClass := new \<rparr>)"

definition updateShotPredictor :: "PredictorInputs \<Rightarrow> ShotPredictor \<Rightarrow> ShotPredictor" where
  "updateShotPredictor i pr0 =
     (let pr1 = rateGuard i (weightGuard i pr0);
          live = liveForecast i pr1;
          (pr2, tHat, sigmaF) = fusePrior i live pr1;
          (cand, k, tBlend) = candidateOf i live tHat sigmaF pr2;
          pr3 = pr2\<lparr> stalledCandidate := (cand = C_BLUE \<and> fcCensored live) \<rparr>;
          pr4 = pr3\<lparr> tintNote := noteOf i pr3 \<rparr>
      in if cand = C_NONE then
           if youngOf i pr4 \<or> \<not> qOkOf i \<and> \<not> collapseOf i pr4 then decayTint i pr4 else pr4
         else blendTint i cand k tBlend pr4)"

end
