(* ===== verification/Predictor_Facts.thy ===== *)
theory Predictor_Facts
  imports Shot_Predictor
begin

text \<open>
  What the live tint guarantees: its strength stays between 0 and 100 percent, a coloured tint
  needs evidence (a forecast two standard deviations clear of the limits or, for slow, a stalled
  projection that the plateau flow of earlier shots confirms), and without a trustworthy signal
  it fades.
\<close>

section \<open>Young signals\<close>

lemma young_no_candidate: "youngOf i pr \<Longrightarrow> fst (candidateOf i live tHat sigmaF pr) = C_NONE"
  by (simp add: candidateOf_def redApplies_def Let_def)

lemma fuse_state:
  "fst (fusePrior i live pr) = pr \<or> fst (fusePrior i live pr) = pr\<lparr> priorSuspended := True \<rparr>"
  unfolding fusePrior_def Let_def by simp

lemma fuse_keeps:
  assumes "fusePrior i live pr = (pr', tHat, sigmaF)"
  shows "youngOf i pr' = youngOf i pr" "collapseOf i pr' = collapseOf i pr" "stepRecentOf i pr' = stepRecentOf i pr"
    "tintPct pr' = tintPct pr" "tintClass pr' = tintClass pr" "plateauOf i pr' = plateauOf i pr"
proof -
  have "pr' = pr \<or> pr' = pr\<lparr> priorSuspended := True \<rparr>" using fuse_state [of i live pr] assms by simp
  then show "youngOf i pr' = youngOf i pr" "collapseOf i pr' = collapseOf i pr" "stepRecentOf i pr' = stepRecentOf i pr"
    "tintPct pr' = tintPct pr" "tintClass pr' = tintClass pr" "plateauOf i pr' = plateauOf i pr"
    by (elim disjE; simp add: youngOf_def collapseOf_def stepRecentOf_def plateauOf_def)+
qed

lemma guards_keep [simp]:
  "tintPct (weightGuard i pr) = tintPct pr" "tintClass (weightGuard i pr) = tintClass pr"
  "tintPct (rateGuard i pr) = tintPct pr" "tintClass (rateGuard i pr) = tintClass pr"
  by (simp_all add: weightGuard_def rateGuard_def Let_def)

text \<open>The state the candidate is chosen in, and the candidate with its arguments.\<close>

definition fusedOf :: "PredictorInputs \<Rightarrow> ShotPredictor \<Rightarrow> ShotPredictor \<times> int \<times> int" where
  "fusedOf i pr0 = (let pr1 = rateGuard i (weightGuard i pr0) in fusePrior i (liveForecast i pr1) pr1)"

definition chosenOf :: "PredictorInputs \<Rightarrow> ShotPredictor \<Rightarrow> Cand \<times> int \<times> int" where
  "chosenOf i pr0 = (case fusedOf i pr0 of (pr2, tHat, sigmaF) \<Rightarrow>
     candidateOf i (liveForecast i (rateGuard i (weightGuard i pr0))) tHat sigmaF pr2)"

text \<open>One update: fade, hold or blend.\<close>

lemma update_split:
  obtains pr4 where "tintPct pr4 = tintPct pr0" "tintClass pr4 = tintClass pr0" "youngOf i pr4 = youngOf i (fst (fusedOf i pr0))"
    "updateShotPredictor i pr0 =
      (if fst (chosenOf i pr0) = C_NONE then
         if youngOf i pr4 \<or> \<not> qOkOf i \<and> \<not> collapseOf i pr4 then decayTint i pr4 else pr4
       else blendTint i (fst (chosenOf i pr0)) (fst (snd (chosenOf i pr0))) (snd (snd (chosenOf i pr0))) pr4)"
proof -
  define pr1 where "pr1 = rateGuard i (weightGuard i pr0)"
  define live where "live = liveForecast i pr1"
  obtain pr2 tHat sigmaF where f: "fusePrior i live pr1 = (pr2, tHat, sigmaF)" by (metis prod_cases3)
  obtain cand k tBlend where c: "candidateOf i live tHat sigmaF pr2 = (cand, k, tBlend)" by (metis prod_cases3)
  define pr3 where "pr3 = pr2\<lparr> stalledCandidate := (cand = C_BLUE \<and> fcCensored live) \<rparr>"
  define pr4 where "pr4 = pr3\<lparr> tintNote := noteOf i pr3 \<rparr>"
  have u: "updateShotPredictor i pr0 =
      (if cand = C_NONE then if youngOf i pr4 \<or> \<not> qOkOf i \<and> \<not> collapseOf i pr4 then decayTint i pr4 else pr4
       else blendTint i cand k tBlend pr4)"
    unfolding updateShotPredictor_def Let_def pr1_def [symmetric] live_def [symmetric] f prod.case c pr3_def pr4_def ..
  have fused: "fusedOf i pr0 = (pr2, tHat, sigmaF)" using f by (simp add: fusedOf_def Let_def live_def pr1_def)
  then have ch: "chosenOf i pr0 = (cand, k, tBlend)" using c by (simp add: chosenOf_def live_def pr1_def)
  have keep: "tintPct pr4 = tintPct pr0" "tintClass pr4 = tintClass pr0"
    using fuse_keeps [OF f] by (simp_all add: pr4_def pr3_def pr1_def)
  have "youngOf i pr4 = youngOf i (fst (fusedOf i pr0))" by (simp add: fused pr4_def pr3_def youngOf_def)
  then show thesis using that [OF keep] u unfolding ch by simp
qed

section \<open>Strength\<close>

lemma decay_down:
  assumes "0 \<le> inSampleDtMs i" "inSampleDtMs i \<le> 2000"
  shows "toI32 (uint ((word_of_int SLEW_DOWN_PCT_S * sampleDt i) div 1000)) =
    (if inSampleDtMs i > 0 then inSampleDtMs i div 10 else 10)"
proof -
  define d where "d = (if inSampleDtMs i > 0 then inSampleDtMs i else 100)"
  have d: "0 < d" "d \<le> 2000" using assms by (simp_all add: d_def)
  have s: "sampleDt i = word_of_int d" by (simp add: sampleDt_def d_def)
  have "uint (word_of_int SLEW_DOWN_PCT_S * word_of_int d :: u32) = 100 * d"
    using d by (simp add: SLEW_DOWN_PCT_S_def uint_word_ariths uint_word_of_int take_bit_eq_mod)
  then have "uint ((word_of_int SLEW_DOWN_PCT_S * sampleDt i) div 1000) = (100 * d) div 1000"
    by (simp add: s uint_div)
  also have "\<dots> = d div 10" by simp
  also have "\<dots> = (if inSampleDtMs i > 0 then inSampleDtMs i div 10 else 10)" by (simp add: d_def)
  finally have u: "uint ((word_of_int SLEW_DOWN_PCT_S * sampleDt i) div 1000) =
    (if inSampleDtMs i > 0 then inSampleDtMs i div 10 else 10)" .
  have "0 \<le> inSampleDtMs i div 10 \<and> inSampleDtMs i div 10 \<le> 2000" using assms by linarith
  then have "fitsI32 (if inSampleDtMs i > 0 then inSampleDtMs i div 10 else 10)" by (simp add: fitsI32_def)
  then show ?thesis unfolding u by (rule toI32_id)
qed

definition tint_ok :: "ShotPredictor \<Rightarrow> bool" where
  "tint_ok pr \<longleftrightarrow> tintPct pr \<le> 100 \<and> (tintPct pr \<noteq> 0 \<longrightarrow> tintClass pr \<noteq> NEUTRAL)"

lemma slew_range: "0 \<le> slewPct i k target pct \<and> slewPct i k target pct \<le> 1000"
  by (simp add: slewPct_def Let_def)

lemma blend_tint:
  "tintPct (blendTint i cand k tBlend pr) \<le> 100" "tintClass (blendTint i cand k tBlend pr) = tintOf cand"
proof -
  define pct where "pct = slewPct i k (targetX i k tBlend (plateauOf i pr)) (uint (tintPct pr) * 10)"
  have "0 \<le> pct" "pct \<le> 1000" using slew_range by (simp_all add: pct_def)
  then have r: "0 \<le> (pct + 5) sdiv 10" "(pct + 5) sdiv 10 \<le> 100" by (simp_all add: sdiv_nonneg)
  have t: "tintPct (blendTint i cand k tBlend pr) = word_of_int ((pct + 5) sdiv 10)"
    unfolding blendTint_def Let_def pct_def [symmetric] by simp
  have "uint (word_of_int ((pct + 5) sdiv 10) :: u8) = (pct + 5) sdiv 10"
    using r by (simp add: uint_word_of_int take_bit_eq_mod)
  then show "tintPct (blendTint i cand k tBlend pr) \<le> 100" using r t by (simp add: word_le_def)
  show "tintClass (blendTint i cand k tBlend pr) = tintOf cand" by (simp add: blendTint_def Let_def)
qed

lemma u8_of_int: "0 \<le> n \<Longrightarrow> n < 256 \<Longrightarrow> uint (word_of_int n :: u8) = n"
  by (simp add: uint_word_of_int take_bit_eq_mod)

lemma decay_tint:
  assumes "0 \<le> inSampleDtMs i" "inSampleDtMs i \<le> 2000"
  shows "uint (tintPct (decayTint i pr)) = max 0 (uint (tintPct pr) - (if inSampleDtMs i > 0 then inSampleDtMs i div 10 else 10))"
    and "tintClass (decayTint i pr) = (if tintPct (decayTint i pr) = 0 then NEUTRAL else tintClass pr)"
proof -
  define down where "down = (if inSampleDtMs i > 0 then inSampleDtMs i div 10 else 10)"
  have d: "0 \<le> down" using assms(1) by (simp add: down_def pos_imp_zdiv_nonneg_iff)
  have b: "uint (tintPct pr) < 256" using uint_bounded [of "tintPct pr"] by simp
  have eq: "decayTint i pr = pr\<lparr> tintPct := (if uint (tintPct pr) > down then word_of_int (uint (tintPct pr) - down) else 0),
      tintClass := (if (if uint (tintPct pr) > down then word_of_int (uint (tintPct pr) - down) else 0) = (0 :: u8)
        then NEUTRAL else tintClass pr) \<rparr>"
    unfolding decayTint_def decay_down [OF assms] down_def [symmetric] Let_def ..
  have "uint (word_of_int (uint (tintPct pr) - down) :: u8) = uint (tintPct pr) - down" if "uint (tintPct pr) > down"
    by (rule u8_of_int) (use that d b in simp_all)
  then show "uint (tintPct (decayTint i pr)) = max 0 (uint (tintPct pr) - (if inSampleDtMs i > 0 then inSampleDtMs i div 10 else 10))"
    unfolding eq down_def [symmetric] by simp
  show "tintClass (decayTint i pr) = (if tintPct (decayTint i pr) = 0 then NEUTRAL else tintClass pr)"
    unfolding eq by simp
qed

text \<open>Strength and class of the tint stay consistent over any samples.\<close>

lemma update_ok:
  assumes "0 \<le> inSampleDtMs i" "inSampleDtMs i \<le> 2000" "tint_ok pr"
  shows "tint_ok (updateShotPredictor i pr)"
proof -
  obtain pr4 where u: "tintPct pr4 = tintPct pr" "tintClass pr4 = tintClass pr" and eq: "updateShotPredictor i pr =
      (if fst (chosenOf i pr) = C_NONE then
         if youngOf i pr4 \<or> \<not> qOkOf i \<and> \<not> collapseOf i pr4 then decayTint i pr4 else pr4
       else blendTint i (fst (chosenOf i pr)) (fst (snd (chosenOf i pr))) (snd (snd (chosenOf i pr))) pr4)"
    by (rule update_split)
  have ok: "tint_ok pr4" using assms(3) u by (simp add: tint_ok_def)
  have "uint (tintPct (decayTint i pr4)) \<le> uint (tintPct pr4)"
    using decay_tint(1) [OF assms(1,2), of pr4] assms(1) by (simp add: pos_imp_zdiv_nonneg_iff)
  then have "tint_ok (decayTint i pr4)"
    using ok decay_tint(2) [OF assms(1,2), of pr4] by (auto simp: tint_ok_def word_le_def unsigned_eq_0_iff)
  moreover have "tint_ok (blendTint i c k t pr4)" for c k t
    by (simp add: tint_ok_def blend_tint tintOf_def)
  ultimately show ?thesis using ok by (simp add: eq)
qed

section \<open>Evidence\<close>

text \<open>
  When the current weight would reach the goal at the plateau flow the preset's earlier shots had.
\<close>

definition arrivalAtPlateauFlow :: "PredictorInputs \<Rightarrow> int" where
  "arrivalAtPlateauFlow i = inNowMs i +
     ((goalDg (csParams (inCut i)) + csOffsetDg (inCut i) +
       (reRateX100 (csRate (inCut i)) * csTauMs (inCut i)) sdiv 100000 - inWeightDg i) * 100000) sdiv inQPX100 i"

lemma candidate_evidence:
  assumes "fst (candidateOf i live tHat sigmaF pr) = cand" "cand \<noteq> C_NONE"
  shows "\<not> youngOf i pr \<and>
    (cand = C_RED \<longrightarrow> fcMs (redForecast i) + 2 * fcSigmaMs (redForecast i) < fastBeforeMs (csParams (inCut i)) - 500 \<and>
       \<not> channeling (csRate (inCut i))) \<and>
    (cand = C_GREEN \<longrightarrow> \<not> fcCensored live \<and> 0 \<le> fcMs live \<and>
       fastBeforeMs (csParams (inCut i)) + 500 \<le> tHat - 2 * sigmaF \<and>
       tHat + 2 * sigmaF \<le> slowAfterMs (csParams (inCut i)) - 500) \<and>
    (cand = C_BLUE \<longrightarrow> \<not> channeling (csRate (inCut i)) \<and>
       (\<not> fcCensored live \<and> 0 \<le> fcMs live \<and> tHat - 2 * sigmaF > slowAfterMs (csParams (inCut i)) + 1000 \<or>
        fcCensored live \<and> plateauOf i pr \<and> 1 \<le> stN (csHistory (inCut i)) \<and> 0 < inQPX100 i \<and>
        \<not> priorSuspended pr \<and> arrivalAtPlateauFlow i > slowAfterMs (csParams (inCut i)) + 500))"
  using assms
  by (auto simp: candidateOf_def redApplies_def arrivalAtPlateauFlow_def Let_def DB_R_MS_def DB_G_MS_def DB_B_MS_def
      QP_GATE_MARGIN_MS_def split: if_splits)

text \<open>
  Property C26. A coloured tint needs evidence: when a sample changes the tint to a colour,
  the signal was settled, and fast is shown only if the plain projection ends two standard
  deviations before the window less half a second, on recipe only if the fused forecast lies
  two standard deviations inside it. Slow is shown for one of two reasons: the fused forecast
  lies two standard deviations and a second after the window; or, on the plateau, the projection
  does not reach the line before the wall, and then at the plateau flow of the preset's earlier
  shots too (at least one, not suspended as stale) the goal would be reached more than half a
  second after the window. Fast and slow are never shown for a channeling shot.
\<close>

theorem tint_needs_evidence:
  assumes "updateShotPredictor i pr = pr'" "tintClass pr' \<noteq> tintClass pr" "tintClass pr' \<noteq> NEUTRAL"
    and "fusePrior i live (rateGuard i (weightGuard i pr)) = (pr2, tHat, sigmaF)"
    and "live = liveForecast i (rateGuard i (weightGuard i pr))"
  shows "\<not> youngOf i pr2 \<and>
    (tintClass pr' = TINT_FAST \<longrightarrow> \<not> channeling (csRate (inCut i)) \<and>
       fcMs (redForecast i) + 2 * fcSigmaMs (redForecast i) < fastBeforeMs (csParams (inCut i)) - 500) \<and>
    (tintClass pr' = TINT_ON_RECIPE \<longrightarrow> \<not> fcCensored live \<and> 0 \<le> fcMs live \<and>
       fastBeforeMs (csParams (inCut i)) + 500 \<le> tHat - 2 * sigmaF \<and>
       tHat + 2 * sigmaF \<le> slowAfterMs (csParams (inCut i)) - 500) \<and>
    (tintClass pr' = TINT_SLOW \<longrightarrow> \<not> channeling (csRate (inCut i)) \<and>
       (\<not> fcCensored live \<and> 0 \<le> fcMs live \<and> tHat - 2 * sigmaF > slowAfterMs (csParams (inCut i)) + 1000 \<or>
        fcCensored live \<and> plateauOf i pr2 \<and> 1 \<le> stN (csHistory (inCut i)) \<and> 0 < inQPX100 i \<and>
        \<not> priorSuspended pr2 \<and> arrivalAtPlateauFlow i > slowAfterMs (csParams (inCut i)) + 500))"
proof -
  obtain pr4 where u: "tintPct pr4 = tintPct pr" "tintClass pr4 = tintClass pr" and eq: "updateShotPredictor i pr =
      (if fst (chosenOf i pr) = C_NONE then
         if youngOf i pr4 \<or> \<not> qOkOf i \<and> \<not> collapseOf i pr4 then decayTint i pr4 else pr4
       else blendTint i (fst (chosenOf i pr)) (fst (snd (chosenOf i pr))) (snd (snd (chosenOf i pr))) pr4)"
    by (rule update_split)
  have fade: "tintClass (decayTint i pr4) \<in> {NEUTRAL, tintClass pr4}" by (simp add: decayTint_def Let_def)
  define cand where "cand = fst (chosenOf i pr)"
  have cand: "cand \<noteq> C_NONE" "tintClass pr' = tintOf cand"
    using assms(1-3) u(2) fade by (auto simp: eq cand_def blend_tint split: if_splits)
  have "cand = fst (candidateOf i live tHat sigmaF pr2)"
    using assms(4,5) by (simp add: cand_def chosenOf_def fusedOf_def)
  then show ?thesis using candidate_evidence [of i live tHat sigmaF pr2 cand] cand
    by (cases cand) (simp_all add: tintOf_def)
qed

definition examplePushed :: "(int \<times> int) list \<Rightarrow> RateEstimator" where
  "examplePushed samples = fold (\<lambda>(t, w) e. snd (ratePush t w e)) samples rateEstimator0"

definition predictorExample :: PredictorInputs where
  "predictorExample = \<lparr>
     inCut = \<lparr> csParams = exampleRecipe,
       csRate = examplePushed (map (\<lambda>k. (17300 + 300 * k, 144 + 6 * k)) [0, 1, 2, 3, 4, 5, 6, 7, 8, 9]),
       csTauMs = 600, csOffsetDg = 0, csCrossingValid = False, csCrossingMs = 0, csStopMs = 0, csStopLineDg = 0,
       csHistory = arrivalStats0 \<rparr>,
     inNowMs = 20000, inWeightDg = 198, inFirstDropMs = 6000, inQPX100 = 0, inAutoMode = True, inScaleOk = True,
     inRetarePending = False, inSampleDtMs = 100 \<rparr>"

definition predictorStart :: ShotPredictor where
  "predictorStart = armShotPredictor\<lparr> maxWDg := 192, prevWDg := 192, guardOkSinceMs := 6000 \<rparr>"

theorem tint_needs_evidence_witness:
  "\<not> youngOf predictorExample (fst (fusedOf predictorExample predictorStart))"
proof -
  define pr1 where "pr1 = rateGuard predictorExample (weightGuard predictorExample predictorStart)"
  define pr' where "pr' = updateShotPredictor predictorExample predictorStart"
  obtain pr2 tHat sigmaF where f: "fusePrior predictorExample (liveForecast predictorExample pr1) pr1 = (pr2, tHat, sigmaF)"
    by (metis prod_cases3)
  have "tintClass pr' = TINT_ON_RECIPE" unfolding pr'_def by code_simp
  moreover have "tintClass predictorStart = NEUTRAL" by code_simp
  ultimately have "\<not> youngOf predictorExample pr2"
    using tint_needs_evidence [OF pr'_def [symmetric] _ _ f [unfolded pr1_def]] by simp
  then show ?thesis using f by (simp add: fusedOf_def pr1_def)
qed

text \<open>A signal that stays untrustworthy lets the tint fade to neutral within ten samples of 100 ms.\<close>

lemma young_fades:
  assumes "youngOf i (fst (fusedOf i pr))" "0 \<le> inSampleDtMs i" "inSampleDtMs i \<le> 2000"
  shows "uint (tintPct (updateShotPredictor i pr)) =
      max 0 (uint (tintPct pr) - (if inSampleDtMs i > 0 then inSampleDtMs i div 10 else 10)) \<and>
    (tintPct (updateShotPredictor i pr) = 0 \<longrightarrow> tintClass (updateShotPredictor i pr) = NEUTRAL)"
proof -
  obtain pr4 where u: "tintPct pr4 = tintPct pr" "youngOf i pr4 = youngOf i (fst (fusedOf i pr))"
    and eq: "updateShotPredictor i pr =
      (if fst (chosenOf i pr) = C_NONE then
         if youngOf i pr4 \<or> \<not> qOkOf i \<and> \<not> collapseOf i pr4 then decayTint i pr4 else pr4
       else blendTint i (fst (chosenOf i pr)) (fst (snd (chosenOf i pr))) (snd (snd (chosenOf i pr))) pr4)"
    by (rule update_split)
  have "fst (chosenOf i pr) = C_NONE"
    using young_no_candidate assms(1) by (cases "fusedOf i pr") (simp add: chosenOf_def)
  then have "updateShotPredictor i pr = decayTint i pr4" using eq u(2) assms(1) by simp
  then show ?thesis using decay_tint [OF assms(2,3), of pr4] u(1) by simp
qed

lemma no_scale_is_young: "\<not> inScaleOk i \<Longrightarrow> youngOf i pr"
  by (simp add: youngOf_def)

lemma no_scale_fades:
  assumes "\<forall>i\<in>set inputs. \<not> inScaleOk i \<and> 100 \<le> inSampleDtMs i \<and> inSampleDtMs i \<le> 2000" "inputs \<noteq> []"
  shows "uint (tintPct (fold updateShotPredictor inputs pr)) \<le> max 0 (uint (tintPct pr) - 10 * int (length inputs)) \<and>
    (tintPct (fold updateShotPredictor inputs pr) = 0 \<longrightarrow> tintClass (fold updateShotPredictor inputs pr) = NEUTRAL)"
  using assms
proof (induction inputs rule: rev_induct)
  case (snoc i inputs)
  define q where "q = fold updateShotPredictor inputs pr"
  have i: "\<not> inScaleOk i" "100 \<le> inSampleDtMs i" "inSampleDtMs i \<le> 2000" using snoc.prems by simp_all
  have q: "uint (tintPct q) \<le> max 0 (uint (tintPct pr) - 10 * int (length inputs))"
    using snoc by (cases "inputs = []") (simp_all add: q_def)
  have f: "uint (tintPct (updateShotPredictor i q)) = max 0 (uint (tintPct q) - inSampleDtMs i div 10) \<and>
      (tintPct (updateShotPredictor i q) = 0 \<longrightarrow> tintClass (updateShotPredictor i q) = NEUTRAL)"
    using young_fades [OF no_scale_is_young [OF i(1)], of q] i by simp
  have "10 \<le> inSampleDtMs i div 10" using i(2) by linarith
  then show ?case using f q by (simp add: q_def [symmetric])
qed simp

end
