(* ===== verification/Web_Access.thy ===== *)
theory Web_Access
  imports Obw_Prelude
begin

unbundle bit_operations_syntax

text \<open>
  The optional login of the web page, \<open>src/OpenBrewByWeightWebAccess.h\<close>: browser sessions and
  remembered sessions, the Home Assistant token with its pairing request, the stored blob,
  the browser label, and the password cooldown per peer. Tokens and labels are byte lists; a
  C string is the list of its bytes before the terminator.
\<close>

section \<open>Constants and state\<close>

definition WEB_ACCESS_TOKEN_BYTES :: nat where "WEB_ACCESS_TOKEN_BYTES = 16"
definition WEB_ACCESS_REMEMBERED_SLOTS :: nat where "WEB_ACCESS_REMEMBERED_SLOTS = 8"
definition WEB_ACCESS_BROWSER_SLOTS :: nat where "WEB_ACCESS_BROWSER_SLOTS = 4"
definition WEB_ACCESS_REMEMBER_SEC :: u32 where "WEB_ACCESS_REMEMBER_SEC = 90 * 24 * 3600"
definition WEB_ACCESS_RENEW_SEC :: u32 where "WEB_ACCESS_RENEW_SEC = 24 * 3600"
definition WEB_ACCESS_BROWSER_MS :: u32 where "WEB_ACCESS_BROWSER_MS = 12 * 3600 * 1000"
definition WEB_ACCESS_PAIRING_MS :: u32 where "WEB_ACCESS_PAIRING_MS = 120000"
definition WEB_ACCESS_PAIRING_RESULT_MS :: u32 where "WEB_ACCESS_PAIRING_RESULT_MS = 30000"
definition WEB_ACCESS_MAGIC :: u32 where "WEB_ACCESS_MAGIC = 0x57414343"
definition WEB_ACCESS_VERSION :: u16 where "WEB_ACCESS_VERSION = 1"
definition WEB_ACCESS_LABEL_BYTES :: nat where "WEB_ACCESS_LABEL_BYTES = 24"
definition WEB_ACCESS_STORED_SIZE :: u16 where "WEB_ACCESS_STORED_SIZE = 388"

record WebAccessRemembered =
  wrToken :: bytes
  wrUsedUtc :: u32
  wrLabel :: bytes

record WebAccessStored =
  wsMagic :: u32
  wsVersion :: u16
  wsStructureSize :: u16
  wsEnabled :: u8
  wsNoticeDismissed :: u8
  wsHomeAssistant :: u8
  wsRememberedMask :: u8
  wsHomeAssistantSinceUtc :: u32
  wsHomeAssistantToken :: bytes
  wsRemembered :: "WebAccessRemembered list"
  wsChecksum :: u32

datatype WebAccessPairing = PAIRING_NONE | PAIRING_PENDING | PAIRING_APPROVED | PAIRING_DENIED | PAIRING_EXPIRED

record Browser =
  brToken :: bytes
  brUntilMs :: u32
  brSeenMs :: u32
  brLabel :: bytes
  brLive :: bool

record Pairing =
  paState :: WebAccessPairing
  paId :: u32
  paUntilMs :: u32
  paCode :: bytes
  paToken :: bytes

record WebAccessState =
  waStored :: WebAccessStored
  waBrowser :: "Browser list"
  waPairing :: Pairing
  waDirty :: bool

definition token0 :: bytes where "token0 = replicate WEB_ACCESS_TOKEN_BYTES 0"

definition remembered0 :: WebAccessRemembered where
  "remembered0 = \<lparr> wrToken = token0, wrUsedUtc = 0, wrLabel = replicate WEB_ACCESS_LABEL_BYTES 0 \<rparr>"

definition webAccessStored0 :: WebAccessStored where
  "webAccessStored0 = \<lparr> wsMagic = WEB_ACCESS_MAGIC, wsVersion = WEB_ACCESS_VERSION,
     wsStructureSize = WEB_ACCESS_STORED_SIZE, wsEnabled = 0, wsNoticeDismissed = 0, wsHomeAssistant = 0,
     wsRememberedMask = 0, wsHomeAssistantSinceUtc = 0, wsHomeAssistantToken = token0,
     wsRemembered = replicate WEB_ACCESS_REMEMBERED_SLOTS remembered0, wsChecksum = 0 \<rparr>"

definition browser0 :: Browser where
  "browser0 = \<lparr> brToken = token0, brUntilMs = 0, brSeenMs = 0, brLabel = replicate WEB_ACCESS_LABEL_BYTES 0, brLive = False \<rparr>"

definition pairing0 :: Pairing where
  "pairing0 = \<lparr> paState = PAIRING_NONE, paId = 0, paUntilMs = 0, paCode = replicate 5 0, paToken = token0 \<rparr>"

definition webAccessState0 :: WebAccessState where
  "webAccessState0 = \<lparr> waStored = webAccessStored0, waBrowser = replicate WEB_ACCESS_BROWSER_SLOTS browser0,
     waPairing = pairing0, waDirty = False \<rparr>"

section \<open>The stored blob\<close>

definition webAccessFnv :: "bytes \<Rightarrow> u32" where
  "webAccessFnv data = fold (\<lambda>b hash. (hash XOR ucast b) * 16777619) data 2166136261"

text \<open>The bytes before the checksum, in layout order.\<close>

definition storedPrefix :: "WebAccessStored \<Rightarrow> bytes" where
  "storedPrefix s = le32 (wsMagic s) @ le16 (wsVersion s) @ le16 (wsStructureSize s) @
     [wsEnabled s, wsNoticeDismissed s, wsHomeAssistant s, wsRememberedMask s] @
     le32 (wsHomeAssistantSinceUtc s) @ wsHomeAssistantToken s @
     concat (map (\<lambda>r. wrToken r @ le32 (wrUsedUtc r) @ wrLabel r) (wsRemembered s))"

definition webAccessChecksum :: "WebAccessStored \<Rightarrow> u32" where
  "webAccessChecksum s = webAccessFnv (storedPrefix s)"

definition finalizeWebAccessStored :: "WebAccessStored \<Rightarrow> WebAccessStored" where
  "finalizeWebAccessStored s =
     (let s' = s\<lparr> wsMagic := WEB_ACCESS_MAGIC, wsVersion := WEB_ACCESS_VERSION, wsStructureSize := WEB_ACCESS_STORED_SIZE \<rparr>
      in s'\<lparr> wsChecksum := webAccessChecksum s' \<rparr>)"

definition validWebAccessStored :: "WebAccessStored \<Rightarrow> bool" where
  "validWebAccessStored s \<longleftrightarrow> wsMagic s = WEB_ACCESS_MAGIC \<and> wsVersion s = WEB_ACCESS_VERSION \<and>
     wsStructureSize s = WEB_ACCESS_STORED_SIZE \<and> wsEnabled s \<le> 1 \<and> wsNoticeDismissed s \<le> 1 \<and>
     wsHomeAssistant s \<le> 1 \<and> wsChecksum s = webAccessChecksum s"

section \<open>Labels\<close>

definition byteAt :: "bytes \<Rightarrow> nat \<Rightarrow> u8" where
  "byteAt text i = (if i < length text then text ! i else 0)"

definition labelDropped :: "u8 \<Rightarrow> bool" where
  "labelDropped c \<longleftrightarrow> c < 0x20 \<or> c = 0x7F \<or> c = 0x22 \<or> c = 0x5C \<or> c = 0x3C \<or> c = 0x3E"

definition utf8Width :: "u8 \<Rightarrow> nat" where
  "utf8Width c = (if c < 0x80 then 1 else if c \<ge> 0xF0 then 4 else if c \<ge> 0xE0 then 3 else if c \<ge> 0xC0 then 2 else 0)"

text \<open>The inner loop counts the continuation bytes that follow.\<close>

fun sequenceLength :: "bytes \<Rightarrow> nat \<Rightarrow> nat \<Rightarrow> nat \<Rightarrow> nat" where
  "sequenceLength text index width 0 = width"
| "sequenceLength text index width (Suc left) =
     (let next = width - Suc left in
      if byteAt text (index + next) AND 0xC0 = 0x80 then sequenceLength text index width left else next)"

text \<open>The outer loop; \<open>out\<close> is the label so far.\<close>

function labelLoop :: "bytes \<Rightarrow> nat \<Rightarrow> bytes \<Rightarrow> bytes" where
  "labelLoop text index out =
     (if byteAt text index = 0 then out
      else
        let c = byteAt text index; width = utf8Width c in
        if labelDropped c \<or> width = 0 then labelLoop text (index + 1) out
        else if length out + width \<ge> WEB_ACCESS_LABEL_BYTES then out
        else if sequenceLength text index width (width - 1) < width then labelLoop text (index + 1) out
        else labelLoop text (index + width) (out @ map (\<lambda>k. byteAt text (index + k)) [0..<width]))"
  by pat_completeness auto

termination labelLoop
  by (relation "measure (\<lambda>(text, index, out). length text - index)") (auto simp: byteAt_def split: if_splits)

declare labelLoop.simps [simp del]

definition copyWebAccessLabel :: "bytes \<Rightarrow> bytes" where
  "copyWebAccessLabel text =
     (let out = labelLoop text 0 [] in out @ replicate (WEB_ACCESS_LABEL_BYTES - length out) 0)"

section \<open>Tokens\<close>

definition nibbleOf :: "u8 \<Rightarrow> u8 option" where
  "nibbleOf c = (if 0x30 \<le> c \<and> c \<le> 0x39 then Some (c - 0x30)
     else if 0x61 \<le> c \<and> c \<le> 0x66 then Some (c - 0x61 + 10) else None)"

text \<open>The loop over 32 digits; the token array is threaded, as the code writes it in place.\<close>

fun tokenLoop :: "bytes \<Rightarrow> nat list \<Rightarrow> bytes \<Rightarrow> bytes option" where
  "tokenLoop text [] token = Some token"
| "tokenLoop text (index # rest) token =
     (case nibbleOf (byteAt text index) of
        None \<Rightarrow> None
      | Some nibble \<Rightarrow>
          tokenLoop text rest (token[index div 2 :=
            if index mod 2 = 0 then push_bit 4 nibble else (token ! (index div 2)) OR nibble]))"

definition parseWebAccessToken :: "bytes \<Rightarrow> bytes \<Rightarrow> bytes option" where
  "parseWebAccessToken text token =
     (case tokenLoop text [0..<WEB_ACCESS_TOKEN_BYTES * 2] token of
        None \<Rightarrow> None
      | Some t \<Rightarrow> if byteAt text (WEB_ACCESS_TOKEN_BYTES * 2) = 0 then Some t else None)"

definition hexDigit :: "u8 \<Rightarrow> u8" where
  "hexDigit n = (if n < 10 then 0x30 + n else 0x61 + (n - 10))"

definition formatWebAccessToken :: "bytes \<Rightarrow> bytes" where
  "formatWebAccessToken token =
     concat (map (\<lambda>index. [hexDigit (drop_bit 4 (token ! index)), hexDigit (token ! index AND 0x0F)])
       [0..<WEB_ACCESS_TOKEN_BYTES])"

definition webAccessTokenEqual :: "bytes \<Rightarrow> bytes \<Rightarrow> bool" where
  "webAccessTokenEqual left right \<longleftrightarrow>
     fold (\<lambda>index difference. difference OR (left ! index XOR right ! index)) [0..<WEB_ACCESS_TOKEN_BYTES] 0 = 0"

section \<open>Sessions\<close>

definition maskBit :: "u8 \<Rightarrow> nat \<Rightarrow> bool" where "maskBit bits slot \<longleftrightarrow> bits AND push_bit slot 1 \<noteq> 0"

definition clearBit :: "u8 \<Rightarrow> nat \<Rightarrow> u8" where "clearBit bits slot = bits AND NOT (push_bit slot 1)"

definition setBit :: "u8 \<Rightarrow> nat \<Rightarrow> u8" where "setBit bits slot = bits OR push_bit slot 1"

definition webAccessRememberedLive :: "WebAccessStored \<Rightarrow> nat \<Rightarrow> u32 \<Rightarrow> bool" where
  "webAccessRememberedLive s slot nowUtc \<longleftrightarrow>
     maskBit (wsRememberedMask s) slot \<and>
     (let used = wrUsedUtc (wsRemembered s ! slot)
      in nowUtc = 0 \<or> nowUtc \<le> used \<or> nowUtc - used < WEB_ACCESS_REMEMBER_SEC)"

definition setRemembered :: "nat \<Rightarrow> WebAccessRemembered \<Rightarrow> WebAccessStored \<Rightarrow> WebAccessStored" where
  "setRemembered slot r s = s\<lparr> wsRemembered := (wsRemembered s)[slot := r] \<rparr>"

definition dropRemembered :: "nat \<Rightarrow> WebAccessState \<Rightarrow> WebAccessState" where
  "dropRemembered slot st =
     (let s = waStored st in
      st\<lparr> waStored := (setRemembered slot remembered0 s)\<lparr> wsRememberedMask := clearBit (wsRememberedMask s) slot \<rparr>,
          waDirty := True \<rparr>)"

definition browserMatch :: "WebAccessState \<Rightarrow> bytes \<Rightarrow> nat option" where
  "browserMatch st token =
     List.find (\<lambda>i. brLive (waBrowser st ! i) \<and> webAccessTokenEqual (brToken (waBrowser st ! i)) token)
       [0..<WEB_ACCESS_BROWSER_SLOTS]"

definition rememberedMatch :: "WebAccessState \<Rightarrow> bytes \<Rightarrow> nat option" where
  "rememberedMatch st token =
     List.find (\<lambda>i. maskBit (wsRememberedMask (waStored st)) i \<and>
       webAccessTokenEqual (wrToken (wsRemembered (waStored st) ! i)) token) [0..<WEB_ACCESS_REMEMBERED_SLOTS]"

definition webAccessSessionValid :: "bytes \<Rightarrow> u32 \<Rightarrow> u32 \<Rightarrow> WebAccessState \<Rightarrow> bool \<times> WebAccessState" where
  "webAccessSessionValid token nowMs nowUtc st =
     (case browserMatch st token of
        Some i \<Rightarrow>
          if \<not> deadlineReached nowMs (brUntilMs (waBrowser st ! i))
          then (True, st\<lparr> waBrowser := (waBrowser st)[i := (waBrowser st ! i)\<lparr> brSeenMs := nowMs \<rparr>] \<rparr>)
          else (False, st\<lparr> waBrowser := (waBrowser st)[i := browser0] \<rparr>)
      | None \<Rightarrow>
          (case rememberedMatch st token of
             Some slot \<Rightarrow>
               if \<not> webAccessRememberedLive (waStored st) slot nowUtc then (False, dropRemembered slot st)
               else
                 let r = wsRemembered (waStored st) ! slot; used = wrUsedUtc r in
                 if nowUtc \<noteq> 0 \<and> (used = 0 \<or> nowUtc > used \<and> nowUtc - used \<ge> WEB_ACCESS_RENEW_SEC)
                 then (True, st\<lparr> waStored := setRemembered slot (r\<lparr> wrUsedUtc := nowUtc \<rparr>) (waStored st), waDirty := True \<rparr>)
                 else (True, st)
           | None \<Rightarrow> (False, st)))"

text \<open>The slot for a browser session: the first free one, else the one closest to expiry.\<close>

fun browserTarget :: "Browser list \<Rightarrow> nat list \<Rightarrow> nat \<Rightarrow> nat" where
  "browserTarget bs [] target = target"
| "browserTarget bs (i # rest) target =
     (if \<not> brLive (bs ! i) then i
      else if \<not> deadlineReached (brUntilMs (bs ! i)) (brUntilMs (bs ! target)) then browserTarget bs rest i
      else browserTarget bs rest target)"

fun rememberedTarget :: "WebAccessStored \<Rightarrow> u32 \<Rightarrow> nat list \<Rightarrow> nat \<Rightarrow> nat" where
  "rememberedTarget s nowUtc [] target = target"
| "rememberedTarget s nowUtc (i # rest) target =
     (if \<not> webAccessRememberedLive s i nowUtc then i
      else if wrUsedUtc (wsRemembered s ! i) < wrUsedUtc (wsRemembered s ! target) then rememberedTarget s nowUtc rest i
      else rememberedTarget s nowUtc rest target)"

definition webAccessIssueSession :: "bytes \<Rightarrow> bool \<Rightarrow> u32 \<Rightarrow> u32 \<Rightarrow> bytes \<Rightarrow> WebAccessState \<Rightarrow> WebAccessState" where
  "webAccessIssueSession token remember nowMs nowUtc label st =
     (if \<not> remember then
        let i = browserTarget (waBrowser st) [0..<WEB_ACCESS_BROWSER_SLOTS] 0 in
        st\<lparr> waBrowser := (waBrowser st)[i := \<lparr> brToken = take WEB_ACCESS_TOKEN_BYTES token,
          brUntilMs = nowMs + WEB_ACCESS_BROWSER_MS, brSeenMs = nowMs, brLabel = copyWebAccessLabel label, brLive = True \<rparr>] \<rparr>
      else
        let s = waStored st; slot = rememberedTarget s nowUtc [0..<WEB_ACCESS_REMEMBERED_SLOTS] 0 in
        st\<lparr> waStored := (setRemembered slot \<lparr> wrToken = take WEB_ACCESS_TOKEN_BYTES token, wrUsedUtc = nowUtc,
               wrLabel = copyWebAccessLabel label \<rparr> s)\<lparr> wsRememberedMask := setBit (wsRememberedMask s) slot \<rparr>,
            waDirty := True \<rparr>)"

definition webAccessSessionId :: "bytes \<Rightarrow> WebAccessState \<Rightarrow> int" where
  "webAccessSessionId token st =
     (case rememberedMatch st token of
        Some slot \<Rightarrow> int slot
      | None \<Rightarrow> (case browserMatch st token of
          Some slot \<Rightarrow> int (WEB_ACCESS_REMEMBERED_SLOTS + slot) | None \<Rightarrow> - 1))"

definition WEB_ACCESS_SESSION_IDS :: nat where
  "WEB_ACCESS_SESSION_IDS = WEB_ACCESS_REMEMBERED_SLOTS + WEB_ACCESS_BROWSER_SLOTS"

definition webAccessRenameId :: "u32 \<Rightarrow> bytes \<Rightarrow> WebAccessState \<Rightarrow> bool \<times> WebAccessState" where
  "webAccessRenameId id32 label st =
     (let n = unat id32; s = waStored st; b = n - WEB_ACCESS_REMEMBERED_SLOTS in
      if n < WEB_ACCESS_REMEMBERED_SLOTS then
        if \<not> maskBit (wsRememberedMask s) n then (False, st)
        else (True, st\<lparr> waStored := setRemembered n ((wsRemembered s ! n)\<lparr> wrLabel := copyWebAccessLabel label \<rparr>) s,
                        waDirty := True \<rparr>)
      else if n \<ge> WEB_ACCESS_SESSION_IDS \<or> \<not> brLive (waBrowser st ! b) then (False, st)
      else (True, st\<lparr> waBrowser := (waBrowser st)[b := (waBrowser st ! b)\<lparr> brLabel := copyWebAccessLabel label \<rparr>] \<rparr>))"

definition webAccessRevokeId :: "u32 \<Rightarrow> WebAccessState \<Rightarrow> bool \<times> WebAccessState" where
  "webAccessRevokeId id32 st =
     (let n = unat id32; b = n - WEB_ACCESS_REMEMBERED_SLOTS in
      if n < WEB_ACCESS_REMEMBERED_SLOTS then
        if \<not> maskBit (wsRememberedMask (waStored st)) n then (False, st) else (True, dropRemembered n st)
      else if n \<ge> WEB_ACCESS_SESSION_IDS \<or> \<not> brLive (waBrowser st ! b) then (False, st)
      else (True, st\<lparr> waBrowser := (waBrowser st)[b := browser0] \<rparr>))"

text \<open>The lambda \<open>revoke\<close>; a null token is None.\<close>

definition revokes :: "bytes option \<Rightarrow> bool \<Rightarrow> bytes \<Rightarrow> bool" where
  "revokes token only candidate \<longleftrightarrow>
     only = (case token of None \<Rightarrow> False | Some t \<Rightarrow> webAccessTokenEqual candidate t)"

definition revokeSlot :: "bytes option \<Rightarrow> bool \<Rightarrow> nat \<Rightarrow> WebAccessState \<Rightarrow> WebAccessState" where
  "revokeSlot token only slot st =
     (if maskBit (wsRememberedMask (waStored st)) slot \<and>
         revokes token only (wrToken (wsRemembered (waStored st) ! slot))
      then dropRemembered slot st else st)"

definition webAccessRevokeSessions :: "bytes option \<Rightarrow> bool \<Rightarrow> WebAccessState \<Rightarrow> WebAccessState" where
  "webAccessRevokeSessions token only st =
     (let st1 = st\<lparr> waBrowser := map (\<lambda>b. if brLive b \<and> revokes token only (brToken b) then browser0 else b) (waBrowser st) \<rparr>
      in fold (revokeSlot token only) [0..<WEB_ACCESS_REMEMBERED_SLOTS] st1)"

section \<open>Home Assistant\<close>

definition webAccessHomeAssistantValid :: "bytes \<Rightarrow> WebAccessState \<Rightarrow> bool" where
  "webAccessHomeAssistantValid token st \<longleftrightarrow>
     wsHomeAssistant (waStored st) \<noteq> 0 \<and> webAccessTokenEqual (wsHomeAssistantToken (waStored st)) token"

definition webAccessSetHomeAssistant :: "bytes \<Rightarrow> u32 \<Rightarrow> WebAccessState \<Rightarrow> WebAccessState" where
  "webAccessSetHomeAssistant token nowUtc st =
     st\<lparr> waStored := (waStored st)\<lparr> wsHomeAssistantToken := take WEB_ACCESS_TOKEN_BYTES token, wsHomeAssistant := 1,
                                   wsHomeAssistantSinceUtc := nowUtc \<rparr>, waDirty := True \<rparr>"

definition webAccessForgetHomeAssistant :: "WebAccessState \<Rightarrow> WebAccessState" where
  "webAccessForgetHomeAssistant st =
     (if wsHomeAssistant (waStored st) = 0 then st
      else st\<lparr> waStored := (waStored st)\<lparr> wsHomeAssistantToken := token0, wsHomeAssistant := 0,
                                        wsHomeAssistantSinceUtc := 0 \<rparr>, waDirty := True \<rparr>)"

definition webAccessTickPairing :: "u32 \<Rightarrow> WebAccessState \<Rightarrow> WebAccessState" where
  "webAccessTickPairing nowMs st =
     (let p = waPairing st in
      if paState p = PAIRING_NONE \<or> \<not> deadlineReached nowMs (paUntilMs p) then st
      else if paState p = PAIRING_PENDING then
        st\<lparr> waPairing := p\<lparr> paState := PAIRING_EXPIRED, paUntilMs := nowMs + WEB_ACCESS_PAIRING_RESULT_MS \<rparr> \<rparr>
      else st\<lparr> waPairing := pairing0 \<rparr>)"

fun codeDigits :: "nat \<Rightarrow> u16 \<Rightarrow> bytes" where
  "codeDigits 0 code = []"
| "codeDigits (Suc n) code = codeDigits n (code div 10) @ [0x30 + ucast (code mod 10)]"

definition webAccessStartPairing :: "u32 \<Rightarrow> u16 \<Rightarrow> u32 \<Rightarrow> WebAccessState \<Rightarrow> bool \<times> WebAccessState" where
  "webAccessStartPairing id32 code nowMs st0 =
     (let st = webAccessTickPairing nowMs st0; p = waPairing st in
      if paState p \<noteq> PAIRING_NONE \<or> id32 = 0 then (False, st)
      else (True, st\<lparr> waPairing := p\<lparr> paState := PAIRING_PENDING, paId := id32,
              paUntilMs := nowMs + WEB_ACCESS_PAIRING_MS, paCode := codeDigits 4 code @ [0] \<rparr> \<rparr>))"

definition webAccessDecidePairing :: "u32 \<Rightarrow> bool \<Rightarrow> bytes \<Rightarrow> u32 \<Rightarrow> u32 \<Rightarrow> WebAccessState \<Rightarrow> bool \<times> WebAccessState" where
  "webAccessDecidePairing id32 allow token nowMs nowUtc st0 =
     (let st = webAccessTickPairing nowMs st0; p = waPairing st in
      if paState p \<noteq> PAIRING_PENDING \<or> paId p \<noteq> id32 then (False, st)
      else
        let p1 = p\<lparr> paState := (if allow then PAIRING_APPROVED else PAIRING_DENIED),
                   paUntilMs := nowMs + WEB_ACCESS_PAIRING_RESULT_MS \<rparr>
        in if allow then
             (True, webAccessSetHomeAssistant token nowUtc
                      (st\<lparr> waPairing := p1\<lparr> paToken := take WEB_ACCESS_TOKEN_BYTES token \<rparr> \<rparr>))
           else (True, st\<lparr> waPairing := p1 \<rparr>))"

text \<open>The token written to the caller's buffer, when one is.\<close>

definition webAccessPairingStatus :: "u32 \<Rightarrow> u32 \<Rightarrow> WebAccessState \<Rightarrow> WebAccessPairing \<times> bytes option \<times> WebAccessState" where
  "webAccessPairingStatus id32 nowMs st0 =
     (let st = webAccessTickPairing nowMs st0; p = waPairing st in
      if paState p = PAIRING_NONE \<or> paId p \<noteq> id32 then (PAIRING_NONE, None, st)
      else if paState p = PAIRING_APPROVED then (PAIRING_APPROVED, Some (paToken p), st\<lparr> waPairing := pairing0 \<rparr>)
      else (paState p, None, st))"

definition webAccessDisable :: "WebAccessState \<Rightarrow> WebAccessState" where
  "webAccessDisable st0 =
     (let st = (webAccessForgetHomeAssistant (webAccessRevokeSessions None False st0))\<lparr> waPairing := pairing0 \<rparr> in
      if wsEnabled (waStored st) \<noteq> 0 then st\<lparr> waStored := (waStored st)\<lparr> wsEnabled := 0 \<rparr>, waDirty := True \<rparr> else st)"

section \<open>The host of a request\<close>

definition lowerByte :: "u8 \<Rightarrow> u8" where
  "lowerByte c = (if 0x41 \<le> c \<and> c \<le> 0x5A then c + 0x20 else c)"

definition sameIgnoringCase :: "bytes \<Rightarrow> bytes \<Rightarrow> bool" where
  "sameIgnoringCase a b \<longleftrightarrow> map lowerByte a = map lowerByte b"

definition isDigitByte :: "u8 \<Rightarrow> bool" where "isDigitByte c \<longleftrightarrow> 0x30 \<le> c \<and> c \<le> 0x39"

definition asciiBytes :: "string \<Rightarrow> bytes" where "asciiBytes s = map (\<lambda>c. of_char c) s"

definition hostSuffixes :: "bytes list" where
  "hostSuffixes = map asciiBytes ['''', ''.local'', ''.lan'', ''.home.arpa'', ''.internal'']"

definition webAccessHostAllowed :: "bytes option \<Rightarrow> bytes option \<Rightarrow> bool" where
  "webAccessHostAllowed host mdnsHost =
     (case host of
        None \<Rightarrow> True
      | Some h \<Rightarrow>
          if h = [] \<or> hd h = 0x5B then True
          else
            let name = takeWhile (\<lambda>c. c \<noteq> 0x3A) h;
                own = (case mdnsHost of None \<Rightarrow> 0 | Some m \<Rightarrow> length m)
            in if length (takeWhile (\<lambda>c. isDigitByte c \<or> c = 0x2E) h) = length name then True
               else if own = 0 \<or> length name < own \<or>
                       \<not> sameIgnoringCase (take own h) (case mdnsHost of None \<Rightarrow> [] | Some m \<Rightarrow> m) then False
               else
                 let renamed = (if byteAt h own = 0x2D then length (takeWhile isDigitByte (drop (own + 1) h)) else 0);
                     own' = (if renamed > 0 then own + (renamed + 1) else own)
                 in \<exists>suffix\<in>set hostSuffixes. length name - own' = length suffix \<and>
                      sameIgnoringCase (take (length name - own') (drop own' h)) suffix)"

section \<open>Password failures per peer\<close>

definition WEB_ACCESS_PASSWORD_PEERS :: nat where "WEB_ACCESS_PASSWORD_PEERS = 4"
definition WEB_ACCESS_PASSWORD_FAILURES :: u8 where "WEB_ACCESS_PASSWORD_FAILURES = 5"
definition WEB_ACCESS_PASSWORD_COOLDOWN_MS :: u32 where "WEB_ACCESS_PASSWORD_COOLDOWN_MS = 30000"

record WebAccessPasswordPeer =
  wpPeer :: u32
  wpAtMs :: u32
  wpFailures :: u8

definition passwordPeer0 :: WebAccessPasswordPeer where
  "passwordPeer0 = \<lparr> wpPeer = 0, wpAtMs = 0, wpFailures = 0 \<rparr>"

definition webAccessPasswordSlot ::
  "u32 \<Rightarrow> u32 \<Rightarrow> WebAccessPasswordPeer list \<Rightarrow> nat option \<times> WebAccessPasswordPeer list" where
  "webAccessPasswordSlot peer nowMs peers =
     (case List.find (\<lambda>i. wpPeer (peers ! i) = peer) [0..<WEB_ACCESS_PASSWORD_PEERS] of
        Some i \<Rightarrow> (Some i, peers)
      | None \<Rightarrow>
          (case List.find (\<lambda>i. wpPeer (peers ! i) = 0 \<or> nowMs - wpAtMs (peers ! i) \<ge> WEB_ACCESS_PASSWORD_COOLDOWN_MS)
                  [0..<WEB_ACCESS_PASSWORD_PEERS] of
             Some i \<Rightarrow> (Some i, peers[i := \<lparr> wpPeer = peer, wpAtMs = nowMs, wpFailures = 0 \<rparr>])
           | None \<Rightarrow> (None, peers)))"

definition webAccessPasswordCooling :: "WebAccessPasswordPeer option \<Rightarrow> u32 \<Rightarrow> bool" where
  "webAccessPasswordCooling slot nowMs =
     (case slot of
        None \<Rightarrow> True
      | Some p \<Rightarrow> wpFailures p \<ge> WEB_ACCESS_PASSWORD_FAILURES \<and> nowMs - wpAtMs p < WEB_ACCESS_PASSWORD_COOLDOWN_MS)"

definition webAccessPasswordAttempt :: "bool \<Rightarrow> u32 \<Rightarrow> WebAccessPasswordPeer \<Rightarrow> bool \<times> WebAccessPasswordPeer" where
  "webAccessPasswordAttempt matched nowMs slot =
     (if matched then (False, passwordPeer0)
      else
        let failures = (if wpFailures slot \<ge> WEB_ACCESS_PASSWORD_FAILURES then 0 else wpFailures slot);
            slot' = slot\<lparr> wpAtMs := nowMs, wpFailures := failures + 1 \<rparr>
        in (wpFailures slot' = WEB_ACCESS_PASSWORD_FAILURES, slot'))"

text \<open>The peer of a request: its address hashed, never its port; 0 stays free for an empty slot.\<close>

definition passwordPeer :: "bytes option \<Rightarrow> u32" where
  "passwordPeer address = (case address of None \<Rightarrow> 1 | Some a \<Rightarrow> webAccessFnv a OR 1)"

datatype PasswordCheck = PASSWORD_OK | PASSWORD_WRONG | PASSWORD_COOLDOWN

text \<open>
  The check of a request: \<open>secret\<close> says whether the password given is the device password;
  it is only looked at when the peer is not cooling down.
\<close>

definition checkDevicePassword ::
  "u32 \<Rightarrow> bool \<Rightarrow> u32 \<Rightarrow> WebAccessPasswordPeer list \<Rightarrow> PasswordCheck \<times> WebAccessPasswordPeer list" where
  "checkDevicePassword peer secret nowMs peers0 =
     (case webAccessPasswordSlot peer nowMs peers0 of (slot, peers) \<Rightarrow>
        let coolingDown = webAccessPasswordCooling (map_option (\<lambda>i. peers ! i) slot) nowMs;
            matched = (\<not> coolingDown \<and> secret)
        in case slot of
             None \<Rightarrow> (PASSWORD_COOLDOWN, peers)
           | Some i \<Rightarrow>
               if coolingDown then (PASSWORD_COOLDOWN, peers)
               else (if matched then PASSWORD_OK else PASSWORD_WRONG,
                     peers[i := snd (webAccessPasswordAttempt matched nowMs (peers ! i))]))"

end
