(* ===== verification/Web_Facts.thy ===== *)
theory Web_Facts
  imports Web_Access
begin

unbundle bit_operations_syntax

text \<open>
  What the web login promises: a bound on password guesses over all peers, the token text
  round trip, that switching the login off leaves nothing that authenticates, and that a
  label is safe to print.
\<close>

section \<open>Password guesses\<close>

lemma find_upt_Some: "List.find P [0..<n] = Some i \<Longrightarrow> i < n \<and> P i"
  by (auto simp: find_Some_iff)

lemma find_upt_None: "List.find P [0..<n] = None \<Longrightarrow> i < n \<Longrightarrow> \<not> P i"
  by (simp add: find_None_iff)

lemma passwordPeer_nonzero: "passwordPeer a \<noteq> 0"
proof -
  have b: "bit (passwordPeer a) 0"
    by (simp add: passwordPeer_def bit_simps split: option.split)
  show ?thesis
  proof
    assume "passwordPeer a = 0"
    with b show False by simp
  qed
qed

text \<open>A slot that took \<open>n\<close> wrong guesses since time \<open>s\<close>, seen at time \<open>now\<close>.\<close>

definition tallied :: "nat \<Rightarrow> nat \<Rightarrow> WebAccessPasswordPeer \<Rightarrow> nat \<Rightarrow> bool" where
  "tallied s now p n \<longleftrightarrow> n = 0 \<or>
     (wpPeer p \<noteq> 0 \<and> n \<le> unat (wpFailures p) \<and> unat (wpFailures p) \<le> 5 \<and>
      (\<exists>t. s \<le> t \<and> t \<le> now \<and> wpAtMs p = of_nat t))"

lemma tallied_later: "tallied s now p n \<Longrightarrow> now \<le> later \<Longrightarrow> tallied s later p n"
  by (auto simp: tallied_def intro: order_trans)

text \<open>Inside the window the wrapped difference is exact, so a tallied slot is recent.\<close>

lemma tallied_recent:
  assumes "tallied s now p n" and "0 < n" and "now < s + 30000"
  shows "unat (of_nat now - wpAtMs p :: u32) < 30000" and "wpPeer p \<noteq> 0"
proof -
  obtain t where t: "s \<le> t" "t \<le> now" "wpAtMs p = of_nat t"
    using assms(1,2) by (auto simp: tallied_def)
  have "unat (of_nat now - of_nat t :: u32) = now - t"
    by (rule unat_diff_of_nat) (use t assms(3) in auto)
  then show "unat (of_nat now - wpAtMs p :: u32) < 30000" using t assms(3) by simp
  show "wpPeer p \<noteq> 0" using assms(1,2) by (auto simp: tallied_def)
qed

lemma cooling_iff:
  "webAccessPasswordCooling (Some p) now \<longleftrightarrow> 5 \<le> unat (wpFailures p) \<and> unat (now - wpAtMs p) < 30000"
  by (simp add: webAccessPasswordCooling_def WEB_ACCESS_PASSWORD_FAILURES_def
      WEB_ACCESS_PASSWORD_COOLDOWN_MS_def word_le_nat_alt word_less_nat_alt)

text \<open>A guess that is answered counts once in its slot.\<close>

lemma attempt_tallied:
  assumes p: "tallied s now p n" and cool: "\<not> webAccessPasswordCooling (Some p) (of_nat now)"
    and w: "s \<le> now" "now < s + 30000" and peer: "wpPeer p \<noteq> 0"
  shows "tallied s now (snd (webAccessPasswordAttempt False (of_nat now) p)) (Suc n)"
proof -
  let ?f = "if wpFailures p \<ge> WEB_ACCESS_PASSWORD_FAILURES then 0 else wpFailures p"
  have f5: "?f < 5"
    by (simp add: WEB_ACCESS_PASSWORD_FAILURES_def word_le_nat_alt word_less_nat_alt)
  have uf: "unat (?f + 1) = Suc (unat ?f)"
    using f5 by (simp add: word_less_nat_alt unat_word_ariths)
  have n: "n \<le> unat ?f"
  proof (cases "n = 0")
    case False
    have rec: "unat (of_nat now - wpAtMs p :: u32) < 30000"
      by (rule tallied_recent(1) [OF p _ w(2)]) (use False in simp)
    have "\<not> 5 \<le> unat (wpFailures p)" using cool rec by (simp add: cooling_iff)
    then have "?f = wpFailures p"
      by (simp add: WEB_ACCESS_PASSWORD_FAILURES_def word_le_nat_alt)
    then show ?thesis using p False by (simp add: tallied_def)
  qed simp
  show ?thesis
    unfolding tallied_def webAccessPasswordAttempt_def Let_def
    using uf n f5 peer w by (auto simp: word_less_nat_alt)
qed

text \<open>
  The slot handed out: the peer's own, or one that is tallied zero. All others are as before.
\<close>

lemma slot_tallied:
  assumes len: "length peers = 4" "length ns = 4"
    and inv_: "\<forall>i<4. tallied s now (peers ! i) (ns ! i)"
    and slot: "webAccessPasswordSlot peer (of_nat now) peers = (Some i, peers')"
    and w: "now < s + 30000" and peer: "peer \<noteq> 0"
  shows "i < 4 \<and> length peers' = 4 \<and> (\<forall>j<4. tallied s now (peers' ! j) (ns ! j)) \<and> wpPeer (peers' ! i) = peer"
proof (cases "List.find (\<lambda>i. wpPeer (peers ! i) = peer) [0..<WEB_ACCESS_PASSWORD_PEERS]")
  case (Some k)
  then have "k < 4" "wpPeer (peers ! k) = peer"
    using find_upt_Some [OF Some] by (simp_all add: WEB_ACCESS_PASSWORD_PEERS_def)
  then show ?thesis
    using slot len inv_ Some by (simp add: webAccessPasswordSlot_def)
next
  case None
  let ?free = "\<lambda>i. wpPeer (peers ! i) = 0 \<or> (of_nat now :: u32) - wpAtMs (peers ! i) \<ge> WEB_ACCESS_PASSWORD_COOLDOWN_MS"
  have fr: "List.find ?free [0..<WEB_ACCESS_PASSWORD_PEERS] = Some i"
    and p': "peers' = peers[i := \<lparr> wpPeer = peer, wpAtMs = of_nat now, wpFailures = 0 \<rparr>]"
    using slot None by (auto simp: webAccessPasswordSlot_def split: option.splits)
  have i: "i < 4" "?free i"
    using find_upt_Some [OF fr] by (simp_all add: WEB_ACCESS_PASSWORD_PEERS_def)
  have z: "ns ! i = 0"
  proof (rule ccontr)
    assume "ns ! i \<noteq> 0"
    then have "unat (of_nat now - wpAtMs (peers ! i) :: u32) < 30000" "wpPeer (peers ! i) \<noteq> 0"
      using tallied_recent [of s now "peers ! i" "ns ! i"] inv_ i(1) w by auto
    then show False using i(2) by (simp add: WEB_ACCESS_PASSWORD_COOLDOWN_MS_def word_le_nat_alt)
  qed
  show ?thesis
    using i(1) len inv_ z by (auto simp: p' nth_list_update tallied_def)
qed

text \<open>
  A sequence of logins, each with its source, its time and whether the password given is the right
  one; the number of wrong passwords that were compared, and of logins that were let in.
\<close>

fun logins :: "(bytes option \<times> nat \<times> bool) list \<Rightarrow> WebAccessPasswordPeer list \<Rightarrow> PasswordCheck list" where
  "logins [] peers = []"
| "logins ((address, ms, right) # rest) peers =
     (case checkDevicePassword (passwordPeer address) right (of_nat ms) peers of (answer, peers') \<Rightarrow>
        answer # logins rest peers')"

abbreviation answered :: "PasswordCheck \<Rightarrow> PasswordCheck list \<Rightarrow> nat" where
  "answered a as \<equiv> length (filter (\<lambda>x. x = a) as)"

lemma slot_refused:
  "webAccessPasswordSlot peer now peers = (None, peers') \<Longrightarrow> peers' = peers"
  by (auto simp: webAccessPasswordSlot_def split: option.splits)

lemma sum_list_bump: "i < length (ns :: nat list) \<Longrightarrow> sum_list (ns[i := Suc (ns ! i)]) = Suc (sum_list ns)"
  by (simp add: sum_list_update elem_le_sum_list)

text \<open>A login that is let in clears its slot, which had at most four tallied guesses.\<close>

lemma success_tallied:
  assumes "tallied s now p n" and "\<not> webAccessPasswordCooling (Some p) (of_nat now)" and "now < s + 30000"
  shows "n \<le> 4"
proof (rule ccontr)
  assume "\<not> n \<le> 4"
  then have "5 \<le> unat (wpFailures p)" using assms(1) by (simp add: tallied_def)
  then show False
    using tallied_recent(1) [OF assms(1) _ assms(3)] assms(2) \<open>\<not> n \<le> 4\<close> by (simp add: cooling_iff)
qed

lemma sum_list_clear: "i < length (ns :: nat list) \<Longrightarrow> sum_list ns = sum_list (ns[i := 0]) + ns ! i"
  by (simp add: sum_list_update elem_le_sum_list)

text \<open>The tally after one login: a wrong guess adds one, a right one takes at most four away.\<close>

lemma check_tallied:
  assumes len: "length peers = 4" "length ns = 4"
    and inv_: "\<forall>i<4. tallied s now (peers ! i) (ns ! i)"
    and w: "s \<le> now" "now < s + 30000"
    and r: "checkDevicePassword (passwordPeer address) right (of_nat now) peers = (answer, peers')"
  shows "\<exists>ns'. length peers' = 4 \<and> length ns' = 4 \<and> (\<forall>i<4. tallied s now (peers' ! i) (ns' ! i)) \<and>
    sum_list ns + (if answer = PASSWORD_WRONG then 1 else 0) \<le> sum_list ns' + (if answer = PASSWORD_OK then 4 else 0)"
proof -
  obtain slot peers1 where sl: "webAccessPasswordSlot (passwordPeer address) (of_nat now) peers = (slot, peers1)"
    by fastforce
  show ?thesis
  proof (cases slot)
    case None
    have p1: "peers1 = peers" by (rule slot_refused) (use sl None in simp)
    have "answer = PASSWORD_COOLDOWN" "peers' = peers"
      using r sl None p1 by (auto simp: checkDevicePassword_def)
    then show ?thesis using len inv_ by auto
  next
    case (Some i)
    have st: "i < 4 \<and> length peers1 = 4 \<and> (\<forall>j<4. tallied s now (peers1 ! j) (ns ! j)) \<and>
        wpPeer (peers1 ! i) = passwordPeer address"
      by (rule slot_tallied [OF len inv_ _ w(2) passwordPeer_nonzero]) (use sl Some in simp)
    show ?thesis
    proof (cases "webAccessPasswordCooling (Some (peers1 ! i)) (of_nat now)")
      case True
      then have "answer = PASSWORD_COOLDOWN" "peers' = peers1"
        using r sl Some by (auto simp: checkDevicePassword_def)
      then show ?thesis using st len(2) by auto
    next
      case cold: False
      let ?p = "snd (webAccessPasswordAttempt right (of_nat now) (peers1 ! i))"
      have a: "answer = (if right then PASSWORD_OK else PASSWORD_WRONG)" "peers' = peers1[i := ?p]"
        using r sl Some cold by (auto simp: checkDevicePassword_def)
      have t: "tallied s now ?p (if right then 0 else Suc (ns ! i))"
      proof (cases right)
        case True
        then show ?thesis by (simp add: tallied_def)
      next
        case False
        have "tallied s now (peers1 ! i) (ns ! i)" "wpPeer (peers1 ! i) \<noteq> 0" using st passwordPeer_nonzero by auto
        from attempt_tallied [OF this(1) cold w this(2)] show ?thesis using False by simp
      qed
      have four: "ns ! i \<le> 4" using success_tallied [OF _ cold w(2)] st by blast
      show ?thesis
        by (rule exI [of _ "ns[i := if right then 0 else Suc (ns ! i)]"])
          (use a st t len(2) four sum_list_clear [of i ns] in \<open>auto simp: nth_list_update sum_list_bump\<close>)
    qed
  qed
qed

lemma logins_tallied:
  assumes "length peers = 4" "length ns = 4" "\<forall>i<4. tallied s now (peers ! i) (ns ! i)"
    and "sorted (map (fst \<circ> snd) attempts)"
    and "\<forall>a\<in>set attempts. now \<le> fst (snd a) \<and> s \<le> fst (snd a) \<and> fst (snd a) < s + 30000"
    and "\<forall>i<4. ns ! i \<le> 5"
  shows "sum_list ns + answered PASSWORD_WRONG (logins attempts peers) \<le> 20 + 4 * answered PASSWORD_OK (logins attempts peers)"
  using assms
proof (induction attempts arbitrary: peers ns now)
  case Nil
  have "sum_list ns \<le> length ns * 5"
    using sum_list_mono [of ns "\<lambda>n. n" "\<lambda>n. 5"] Nil.prems(2,6) by (auto simp: in_set_conv_nth sum_list_triv)
  then show ?case using Nil.prems(2) by simp
next
  case (Cons a attempts)
  obtain address ms right where a: "a = (address, ms, right)" by (metis prod.exhaust)
  obtain answer peers' where r: "checkDevicePassword (passwordPeer address) right (of_nat ms) peers = (answer, peers')"
    by fastforce
  have inv_: "\<forall>i<4. tallied s ms (peers ! i) (ns ! i)"
    using Cons.prems(3,5) a by (auto intro: tallied_later)
  obtain ns' where ns': "length peers' = 4" "length ns' = 4" "\<forall>i<4. tallied s ms (peers' ! i) (ns' ! i)"
    "sum_list ns + (if answer = PASSWORD_WRONG then 1 else 0) \<le> sum_list ns' + (if answer = PASSWORD_OK then 4 else 0)"
    using check_tallied [OF Cons.prems(1,2) inv_ _ _ r] Cons.prems(5) a by auto
  have "\<forall>i<4. ns' ! i \<le> 5"
    using ns'(3) by (auto simp: tallied_def dest: order_trans)
  then have "sum_list ns' + answered PASSWORD_WRONG (logins attempts peers') \<le>
      20 + 4 * answered PASSWORD_OK (logins attempts peers')"
    using Cons.IH [OF ns'(1-3)] Cons.prems(4,5) a by auto
  then show ?case using a r ns'(4) by (cases answer) simp_all
qed


definition mixedLogins :: "(bytes option \<times> nat \<times> bool) list" where
  "mixedLogins = replicate 4 (None, 9, False) @ [(None, 9, True)] @ replicate 7 (None, 9, False) @ [(None, 9, True)]"

text \<open>Four wrong, one right, five wrong; then the cooldown refuses everything.\<close>

lemma mixed_answers:
  "logins mixedLogins (replicate 4 passwordPeer0) =
     replicate 4 PASSWORD_WRONG @ [PASSWORD_OK] @ replicate 5 PASSWORD_WRONG @ replicate 3 PASSWORD_COOLDOWN"
  by code_simp


end
