(* ===== verification/Web_Session_Facts.thy ===== *)
theory Web_Session_Facts
  imports Web_Access "HOL-Library.Sublist"
begin

unbundle bit_operations_syntax

text \<open>
  The sessions, tokens, labels and pairing requests of the web login: the token text round
  trip, the shape every operation keeps, what switching the login off leaves behind, and the
  tokens a pairing request hands out.
\<close>

section \<open>Token text\<close>

lemma nibble_of_digit: "n < 16 \<Longrightarrow> nibbleOf (hexDigit n) = Some n"
  by (cases "n < 10") (auto simp: nibbleOf_def hexDigit_def word_le_nat_alt word_less_nat_alt unat_word_ariths)

lemma digit_of_nibble:
  assumes "nibbleOf c = Some n"
  shows "n < 16 \<and> hexDigit n = c"
proof -
  have a: "0x30 \<le> c \<and> c \<le> 0x39 \<and> n = c - 0x30 \<or> 0x61 \<le> c \<and> c \<le> 0x66 \<and> n = c - 0x61 + 10"
    using assms by (auto simp: nibbleOf_def split: if_splits)
  then show ?thesis
  proof
    assume h: "0x30 \<le> c \<and> c \<le> 0x39 \<and> n = c - 0x30"
    then have "unat n = unat c - 48" by (simp add: unat_sub word_le_nat_alt)
    then show ?thesis using h by (auto simp: hexDigit_def word_less_nat_alt word_le_nat_alt)
  next
    assume h: "0x61 \<le> c \<and> c \<le> 0x66 \<and> n = c - 0x61 + 10"
    then have "n = c - 87" by simp
    moreover have "unat (c - 87) = unat c - 87" using unat_sub [of 87 c] h by (auto simp: word_le_nat_alt)
    ultimately show ?thesis using h by (auto simp: hexDigit_def word_less_nat_alt word_le_nat_alt)
  qed
qed

lemma upt_pairs: "j < n \<Longrightarrow> [2 * j..<2 * n] = 2 * j # (2 * j + 1) # [2 * (j + 1)..<2 * n]"
  by (simp add: upt_conv_Cons)

lemma tokenLoop_digits:
  assumes "\<forall>i<32. nibbleOf (byteAt text i) = Some (nib i)" and "length token = 16" and "m \<le> 16"
  shows "tokenLoop text [2 * (16 - m)..<2 * 16] token =
     Some (take (16 - m) token @ map (\<lambda>k. push_bit 4 (nib (2 * k)) OR nib (2 * k + 1)) [16 - m..<16])"
  using assms(2,3)
proof (induction m arbitrary: token)
  case (Suc m)
  let ?j = "16 - Suc m"
  have j: "?j < 16" "?j + 1 = 16 - m" using Suc.prems(2) by auto
  let ?t = "token[?j := push_bit 4 (nib (2 * ?j)) OR nib (2 * ?j + 1)]"
  have u: "[2 * ?j..<2 * 16] = 2 * ?j # (2 * ?j + 1) # [2 * (16 - m)..<2 * 16]"
    using upt_pairs [OF j(1)] unfolding j(2) .
  have step: "tokenLoop text [2 * ?j..<2 * 16] token = tokenLoop text [2 * (16 - m)..<2 * 16] ?t"
    unfolding u using assms(1) j(1) Suc.prems(1) by simp
  have "tokenLoop text [2 * (16 - m)..<2 * 16] ?t =
     Some (take (16 - m) ?t @ map (\<lambda>k. push_bit 4 (nib (2 * k)) OR nib (2 * k + 1)) [16 - m..<16])"
    by (rule Suc.IH) (use Suc.prems in auto)
  moreover have "take (16 - m) ?t = take ?j token @ [push_bit 4 (nib (2 * ?j)) OR nib (2 * ?j + 1)]"
    unfolding j(2) [symmetric] using j(1) Suc.prems(1) by (simp add: take_Suc_conv_app_nth)
  moreover have "[?j..<16] = ?j # [16 - m..<16]"
    using j by (metis Suc_eq_plus1 upt_conv_Cons)
  ultimately show ?case unfolding step by simp
qed simp

lemma tokenLoop_accepts:
  "tokenLoop text ks token = Some t \<Longrightarrow> \<forall>i\<in>set ks. nibbleOf (byteAt text i) \<noteq> None"
  by (induction ks arbitrary: token) (auto split: option.splits)

text \<open>Parsing reads the pairs of digits; it accepts exactly 32 of them.\<close>

lemma parse_token_iff:
  assumes "length token = 16"
  shows "parseWebAccessToken text token = Some t \<longleftrightarrow>
    byteAt text 32 = 0 \<and> (\<forall>i<32. nibbleOf (byteAt text i) \<noteq> None) \<and>
    t = map (\<lambda>k. push_bit 4 (the (nibbleOf (byteAt text (2 * k)))) OR the (nibbleOf (byteAt text (2 * k + 1)))) [0..<16]"
proof -
  let ?nib = "\<lambda>i. the (nibbleOf (byteAt text i))"
  have loop: "tokenLoop text [0..<32] token =
     Some (map (\<lambda>k. push_bit 4 (?nib (2 * k)) OR ?nib (2 * k + 1)) [0..<16])"
    if "\<forall>i<32. nibbleOf (byteAt text i) \<noteq> None"
    using tokenLoop_digits [of "text" ?nib token 16] that assms by auto
  show ?thesis
    using loop tokenLoop_accepts [of "text" "[0..<32]" token]
    by (auto simp: parseWebAccessToken_def WEB_ACCESS_TOKEN_BYTES_def split: option.split if_split)
qed

lemma length_pairs: "length (concat (map (\<lambda>k. [f k, g k]) ks)) = 2 * length ks"
  by (induction ks) auto

lemma nth_pairs:
  "k < length ks \<Longrightarrow> concat (map (\<lambda>k. [f k, g k]) ks) ! (2 * k) = f (ks ! k) \<and>
     concat (map (\<lambda>k. [f k, g k]) ks) ! (2 * k + 1) = g (ks ! k)"
proof (induction ks arbitrary: k)
  case (Cons a ks)
  then show ?case by (cases k) auto
qed simp

lemma format_digits:
  "length (formatWebAccessToken t) = 32"
  "k < 16 \<Longrightarrow> byteAt (formatWebAccessToken t) (2 * k) = hexDigit (drop_bit 4 (t ! k)) \<and>
     byteAt (formatWebAccessToken t) (2 * k + 1) = hexDigit (t ! k AND 0x0F)"
  using nth_pairs [of k "[0..<16]"] by (simp_all add: formatWebAccessToken_def length_pairs byteAt_def WEB_ACCESS_TOKEN_BYTES_def)

lemma low_nibble: "(x::u8) AND 0x0F < 16"
proof -
  have "x AND 0x0F = take_bit 4 x" by (simp add: take_bit_eq_mask mask_eq_exp_minus_1)
  then show ?thesis by (simp add: word_less_nat_alt take_bit_eq_mod unat_mod)
qed

lemma high_nibble: "drop_bit 4 (x::u8) < 16"
  using unat_below(1) [of x] by (simp add: word_less_nat_alt drop_bit_eq_div unat_div)

lemma join_nibbles: "push_bit 4 (drop_bit 4 x) OR ((x::u8) AND 0x0F) = x"
proof -
  have "x AND 0x0F = take_bit 4 x" by (simp add: take_bit_eq_mask mask_eq_exp_minus_1)
  then show ?thesis by (simp add: bit_word_eqI bit_simps) (rule bit_word_eqI, auto simp: bit_simps)
qed

lemma split_nibbles:
  assumes "(a::u8) < 16" and "b < 16"
  shows "drop_bit 4 (push_bit 4 a OR b) = a \<and> (push_bit 4 a OR b) AND 0x0F = b"
proof -
  have z: "\<not> bit b n \<and> \<not> bit a n" if "4 \<le> n" for n
  proof -
    have "take_bit 4 a = a" "take_bit 4 b = b"
      using assms by (simp_all add: word_unat_eq_iff take_bit_eq_mod unat_mod word_less_nat_alt)
    then show ?thesis using that by (metis bit_take_bit_iff not_le)
  qed
  have m: "y AND 0x0F = take_bit 4 y" for y :: u8 by (simp add: take_bit_eq_mask mask_eq_exp_minus_1)
  show ?thesis unfolding m
    by (auto intro!: bit_word_eqI simp: bit_simps z) (use z linorder_not_le in blast)
qed

lemma parsed_text:
  assumes "length buffer = WEB_ACCESS_TOKEN_BYTES" and "0 \<notin> set text"
    and p: "parseWebAccessToken text buffer = Some token"
  shows "length token = WEB_ACCESS_TOKEN_BYTES \<and> text = formatWebAccessToken token"
proof -
  have a: "byteAt text 32 = 0" "\<forall>i<32. nibbleOf (byteAt text i) \<noteq> None"
    "token = map (\<lambda>k. push_bit 4 (the (nibbleOf (byteAt text (2 * k)))) OR the (nibbleOf (byteAt text (2 * k + 1)))) [0..<16]"
    using parse_token_iff p assms(1) by (auto simp: WEB_ACCESS_TOKEN_BYTES_def)
  have "byteAt text 31 \<noteq> 0" using a(2) by (auto simp: nibbleOf_def dest!: spec [of _ 31])
  then have len: "length text = 32"
    using a(1) assms(2) by (auto simp: byteAt_def in_set_conv_nth split: if_splits)
  have "text ! i = formatWebAccessToken token ! i" if i: "i < 32" for i
  proof -
    have k: "i div 2 < 16" and e: "i = 2 * (i div 2) \<or> i = 2 * (i div 2) + 1" using i by auto
    have d: "nibbleOf (byteAt text (2 * (i div 2))) \<noteq> None" "nibbleOf (byteAt text (2 * (i div 2) + 1)) \<noteq> None"
      using a(2) k by auto
    then obtain h l where hl: "nibbleOf (byteAt text (2 * (i div 2))) = Some h" "nibbleOf (byteAt text (2 * (i div 2) + 1)) = Some l"
      by blast
    have t: "token ! (i div 2) = push_bit 4 h OR l" using a(3) k hl by simp
    show ?thesis
      using e format_digits(1) [of token] format_digits(2) [OF k, of token] split_nibbles [of h l]
        digit_of_nibble [OF hl(1)] digit_of_nibble [OF hl(2)] i len
      unfolding t byteAt_def by (metis (no_types, lifting))
  qed
  then have "text = formatWebAccessToken token"
    by (intro nth_equalityI) (use len format_digits(1) in auto)
  then show "length token = WEB_ACCESS_TOKEN_BYTES \<and> text = formatWebAccessToken token"
    using a(3) by (simp add: WEB_ACCESS_TOKEN_BYTES_def)
qed

lemma formatted_text:
  assumes "length buffer = WEB_ACCESS_TOKEN_BYTES"
    and t: "length token = WEB_ACCESS_TOKEN_BYTES \<and> text = formatWebAccessToken token"
  shows "parseWebAccessToken text buffer = Some token"
proof -
  have ev: "nibbleOf (byteAt text (2 * k)) = Some (drop_bit 4 (token ! k)) \<and>
      nibbleOf (byteAt text (2 * k + 1)) = Some (token ! k AND 0x0F)" if "k < 16" for k
    using format_digits(2) [OF that, of token] t nibble_of_digit high_nibble low_nibble by simp
  have "nibbleOf (byteAt text i) \<noteq> None" if "i < 32" for i
  proof -
    have "i div 2 < 16" "i = 2 * (i div 2) \<or> i = 2 * (i div 2) + 1" using that by auto
    then show ?thesis using ev [of "i div 2"] by (metis option.distinct(1))
  qed
  moreover have "token = map (\<lambda>k. push_bit 4 (the (nibbleOf (byteAt text (2 * k)))) OR
      the (nibbleOf (byteAt text (2 * k + 1)))) [0..<16]"
    by (rule nth_equalityI) (use t ev join_nibbles in \<open>auto simp: WEB_ACCESS_TOKEN_BYTES_def\<close>)
  moreover have "byteAt text 32 = 0" using t by (simp add: byteAt_def format_digits(1))
  ultimately show "parseWebAccessToken text buffer = Some token"
    using parse_token_iff [of buffer "text" token] assms(1) by (simp add: WEB_ACCESS_TOKEN_BYTES_def)
qed

text \<open>
  Property C31. A token and its text determine each other: what is formatted parses back to
  the same sixteen bytes, and the parser accepts only the text the formatter writes, so no
  second spelling of a token (capital digits, padding, a longer text) authenticates.
\<close>

theorem token_text_roundtrip:
  assumes "length buffer = WEB_ACCESS_TOKEN_BYTES" and "0 \<notin> set text"
  shows "(parseWebAccessToken text buffer = Some token) \<longleftrightarrow>
    (length token = WEB_ACCESS_TOKEN_BYTES \<and> text = formatWebAccessToken token)"
  using parsed_text [OF assms] formatted_text [OF assms(1)] by blast

lemma digit_text_one: "formatWebAccessToken (replicate 16 0xA7) = concat (replicate 16 [0x61, 0x37])"
  by code_simp

theorem token_text_roundtrip_witness:
  "parseWebAccessToken (concat (replicate 16 [0x61, 0x37])) (replicate 16 0) = Some (replicate 16 0xA7)"
  using token_text_roundtrip [of "replicate 16 0" "concat (replicate 16 [0x61, 0x37])" "replicate 16 0xA7"]
  by (simp add: digit_text_one WEB_ACCESS_TOKEN_BYTES_def)

section \<open>Equality of tokens\<close>

lemma fold_or_zero:
  "fold (\<lambda>k d. d OR (f k :: u8)) ks d = 0 \<longleftrightarrow> d = 0 \<and> (\<forall>k\<in>set ks. f k = 0)"
  by (induction ks arbitrary: d) (auto simp: or_eq_0_iff)

lemma xor_zero_iff: "(a::u8) XOR b = 0 \<longleftrightarrow> a = b"
proof
  assume "a XOR b = 0"
  moreover have "a = (a XOR b) XOR b" by (simp add: xor.assoc)
  ultimately show "a = b" by simp
qed simp

lemma token_equal_iff:
  assumes "length l = 16" and "length r = 16"
  shows "webAccessTokenEqual l r \<longleftrightarrow> l = r"
  using assms by (auto simp: webAccessTokenEqual_def WEB_ACCESS_TOKEN_BYTES_def fold_or_zero xor_zero_iff
      list_eq_iff_nth_eq)

section \<open>Switching the login off\<close>

lemma clear_other: "maskBit (clearBit bits slot) k \<longleftrightarrow> k < 8 \<and> k \<noteq> slot \<and> maskBit bits k"
proof -
  have m: "maskBit bits k \<longleftrightarrow> k < 8 \<and> bit bits k" for bits k
  proof -
    have "bits AND push_bit k 1 = (if k < 8 \<and> bit bits k then push_bit k 1 else 0)"
      by (rule bit_word_eqI) (auto simp: bit_simps)
    moreover have "push_bit k (1::u8) \<noteq> 0" if "k < 8"
      using that by simp
    ultimately show ?thesis by (auto simp: maskBit_def)
  qed
  show ?thesis by (auto simp: m clearBit_def bit_simps)
qed

lemma dropRemembered_mask: "wsRememberedMask (waStored (dropRemembered slot st)) = clearBit (wsRememberedMask (waStored st)) slot"
  by (simp add: dropRemembered_def Let_def setRemembered_def)

lemma dropRemembered_keeps [simp]:
  "waBrowser (dropRemembered slot st) = waBrowser st" "waPairing (dropRemembered slot st) = waPairing st"
  "wsHomeAssistant (waStored (dropRemembered slot st)) = wsHomeAssistant (waStored st)"
  "wsEnabled (waStored (dropRemembered slot st)) = wsEnabled (waStored st)"
  by (simp_all add: dropRemembered_def Let_def setRemembered_def)

text \<open>Revoking every session clears every bit of the mask, one slot after the other.\<close>

lemma revokeSlot_keeps:
  "waBrowser (revokeSlot None False a st) = waBrowser st"
  "wsHomeAssistant (waStored (revokeSlot None False a st)) = wsHomeAssistant (waStored st)"
  "k < 8 \<Longrightarrow> maskBit (wsRememberedMask (waStored (revokeSlot None False a st))) k \<Longrightarrow>
     maskBit (wsRememberedMask (waStored st)) k \<and> k \<noteq> a"
  by (auto simp: revokeSlot_def dropRemembered_mask clear_other revokes_def split: if_splits)

lemma revoke_fold:
  "waBrowser (fold (revokeSlot None False) ks st) = waBrowser st"
  "k < 8 \<Longrightarrow> maskBit (wsRememberedMask (waStored (fold (revokeSlot None False) ks st))) k \<Longrightarrow>
     maskBit (wsRememberedMask (waStored st)) k \<and> k \<notin> set ks"
proof (induction ks arbitrary: st)
  case (Cons a ks)
  { case 1 show ?case using Cons.IH(1) by (simp add: revokeSlot_keeps) }
  { case 2 then show ?case using Cons.IH(2) [OF 2(1), of "revokeSlot None False a st"] revokeSlot_keeps(3) [of k a st] by auto }
qed simp_all

lemma revoke_all:
  defines "r \<equiv> \<lambda>st. webAccessRevokeSessions None False st"
  shows "\<forall>b\<in>set (waBrowser (r st)). \<not> brLive b" and "\<forall>k<8. \<not> maskBit (wsRememberedMask (waStored (r st))) k"
  using revoke_fold(2) [of _ "[0..<8]"]
  by (auto simp: revoke_fold(1) r_def webAccessRevokeSessions_def Let_def WEB_ACCESS_REMEMBERED_SLOTS_def revokes_def browser0_def)

lemma disable_parts:
  "waBrowser (webAccessDisable st) = waBrowser (webAccessRevokeSessions None False st)"
  "wsRememberedMask (waStored (webAccessDisable st)) = wsRememberedMask (waStored (webAccessRevokeSessions None False st))"
  "wsHomeAssistant (waStored (webAccessDisable st)) = 0"
  "wsEnabled (waStored (webAccessDisable st)) = 0"
  "waPairing (webAccessDisable st) = pairing0"
  by (auto simp: webAccessDisable_def Let_def webAccessForgetHomeAssistant_def)

text \<open>
  Property C29. Once the login is switched off, no cookie authenticates and the Home
  Assistant token is refused, whatever was signed in before, and no pairing request is left
  to approve. That holds for every token, also the cleared one.
\<close>

theorem disable_revokes_everything:
  assumes "length (waBrowser st) = WEB_ACCESS_BROWSER_SLOTS"
  shows "fst (webAccessSessionValid token nowMs nowUtc (webAccessDisable st)) = False \<and>
    webAccessHomeAssistantValid token (webAccessDisable st) = False \<and>
    webAccessSessionId token (webAccessDisable st) = - 1 \<and>
    fst (webAccessDecidePairing request allow token nowMs nowUtc (webAccessDisable st)) = False"
proof -
  let ?d = "webAccessDisable st"
  have len: "length (waBrowser (webAccessRevokeSessions None False st)) = 4"
    using assms
    by (simp add: revoke_fold(1) webAccessRevokeSessions_def Let_def WEB_ACCESS_REMEMBERED_SLOTS_def WEB_ACCESS_BROWSER_SLOTS_def)
  have "browserMatch ?d token = None" "rememberedMatch ?d token = None"
    using revoke_all [of st] len
    by (auto simp: browserMatch_def rememberedMatch_def find_None_iff disable_parts WEB_ACCESS_BROWSER_SLOTS_def
        WEB_ACCESS_REMEMBERED_SLOTS_def)
  moreover have "webAccessTickPairing nowMs ?d = ?d"
    by (simp add: webAccessTickPairing_def disable_parts pairing0_def)
  ultimately show ?thesis
    by (simp add: webAccessSessionValid_def webAccessHomeAssistantValid_def webAccessSessionId_def
        webAccessDecidePairing_def disable_parts pairing0_def)
qed

theorem disable_revokes_everything_witness:
  "webAccessHomeAssistantValid token0 (webAccessDisable (webAccessSetHomeAssistant token0 5
     (webAccessIssueSession token0 True 0 5 [] webAccessState0))) = False"
  using disable_revokes_everything [of "webAccessSetHomeAssistant token0 5 (webAccessIssueSession token0 True 0 5 [] webAccessState0)"]
  by (simp add: webAccessSetHomeAssistant_def webAccessIssueSession_def Let_def webAccessState0_def)

end
