(* ===== verification/Web_Shape_Facts.thy ===== *)
theory Web_Shape_Facts
  imports Web_Access "HOL-Library.Sublist"
begin

unbundle bit_operations_syntax

text \<open>
  The calls of the web login as one step function: the shape of the state that every call
  keeps, with labels that are safe to print, and where the Home Assistant token of a pairing
  request goes.
\<close>

section \<open>The calls\<close>

datatype WebCall =
    SessionValid bytes u32 u32
  | IssueSession bytes bool u32 u32 bytes
  | RenameId u32 bytes
  | RevokeId u32
  | RevokeSessions "bytes option" bool
  | SetHomeAssistant bytes u32
  | ForgetHomeAssistant
  | TickPairing u32
  | StartPairing u32 u16 u32
  | DecidePairing u32 bool bytes u32 u32
  | PairingStatus u32 u32
  | DisableLogin

fun webStep :: "WebCall \<Rightarrow> WebAccessState \<Rightarrow> WebAccessState" where
  "webStep (SessionValid token ms utc) st = snd (webAccessSessionValid token ms utc st)"
| "webStep (IssueSession token remember ms utc label) st = webAccessIssueSession token remember ms utc label st"
| "webStep (RenameId n label) st = snd (webAccessRenameId n label st)"
| "webStep (RevokeId n) st = snd (webAccessRevokeId n st)"
| "webStep (RevokeSessions token only) st = webAccessRevokeSessions token only st"
| "webStep (SetHomeAssistant token utc) st = webAccessSetHomeAssistant token utc st"
| "webStep ForgetHomeAssistant st = webAccessForgetHomeAssistant st"
| "webStep (TickPairing ms) st = webAccessTickPairing ms st"
| "webStep (StartPairing n code ms) st = snd (webAccessStartPairing n code ms st)"
| "webStep (DecidePairing n allow token ms utc) st = snd (webAccessDecidePairing n allow token ms utc st)"
| "webStep (PairingStatus n ms) st = snd (snd (webAccessPairingStatus n ms st))"
| "webStep DisableLogin st = webAccessDisable st"

text \<open>The tokens a caller passes are arrays of sixteen bytes.\<close>

fun callTyped :: "WebCall \<Rightarrow> bool" where
  "callTyped (IssueSession token _ _ _ _) = (length token = 16)"
| "callTyped (SetHomeAssistant token _) = (length token = 16)"
| "callTyped (DecidePairing _ _ token _ _) = (length token = 16)"
| "callTyped _ = True"

section \<open>Labels\<close>

definition safeByte :: "u8 \<Rightarrow> bool" where "safeByte c \<longleftrightarrow> c \<noteq> 0 \<and> \<not> labelDropped c"

definition labelOk :: "bytes \<Rightarrow> bool" where
  "labelOk l \<longleftrightarrow> length l = WEB_ACCESS_LABEL_BYTES \<and> takeWhile (\<lambda>c. c \<noteq> 0) l @ replicate (WEB_ACCESS_LABEL_BYTES - length (takeWhile (\<lambda>c. c \<noteq> 0) l)) 0 = l \<and>
     length (takeWhile (\<lambda>c. c \<noteq> 0) l) < WEB_ACCESS_LABEL_BYTES \<and> (\<forall>c\<in>set (takeWhile (\<lambda>c. c \<noteq> 0) l). safeByte c)"

lemma labelOk_padded:
  assumes "length out < WEB_ACCESS_LABEL_BYTES" and "\<forall>c\<in>set out. safeByte c"
  shows "labelOk (out @ replicate (WEB_ACCESS_LABEL_BYTES - length out) 0)"
proof -
  have "takeWhile (\<lambda>c. c \<noteq> 0) (out @ replicate (WEB_ACCESS_LABEL_BYTES - length out) 0) = out"
    using assms(2) by (simp add: takeWhile_append safeByte_def)
  then show ?thesis using assms by (simp add: labelOk_def)
qed

lemma continuation_safe:
  assumes "b AND 0xC0 = (0x80::u8)"
  shows "safeByte b"
proof -
  have "0x80 \<le> b" using word_and_le2 [of b "0xC0"] assms by simp
  then show ?thesis by (auto simp: safeByte_def labelDropped_def word_le_nat_alt word_less_nat_alt)
qed

lemma sequenceLength_whole:
  "n \<le> width \<Longrightarrow> \<not> sequenceLength text index width n < width \<Longrightarrow> width - n \<le> k \<Longrightarrow> k < width \<Longrightarrow>
   byteAt text (index + k) AND 0xC0 = 0x80"
proof (induction n)
  case (Suc n)
  then show ?case
    by (cases "k = width - Suc n") (auto simp: Let_def split: if_splits)
qed simp

lemma labelLoop_safe:
  "length out < WEB_ACCESS_LABEL_BYTES \<Longrightarrow> \<forall>c\<in>set out. safeByte c \<Longrightarrow>
   length (labelLoop text index out) < WEB_ACCESS_LABEL_BYTES \<and> (\<forall>c\<in>set (labelLoop text index out). safeByte c)"
proof (induction "text" index out rule: labelLoop.induct)
  case (1 "text" index out)
  note prems = 1(4,5)
  note IH = 1(1-3)
  let ?c = "byteAt text index" and ?w = "utf8Width (byteAt text index)"
  let ?next = "map (\<lambda>k. byteAt text (index + k)) [0..<?w]"
  consider "?c = 0" | "?c \<noteq> 0" "labelDropped ?c \<or> ?w = 0"
    | "?c \<noteq> 0" "\<not> (labelDropped ?c \<or> ?w = 0)" "length out + ?w \<ge> WEB_ACCESS_LABEL_BYTES"
    | "?c \<noteq> 0" "\<not> (labelDropped ?c \<or> ?w = 0)" "\<not> length out + ?w \<ge> WEB_ACCESS_LABEL_BYTES"
      "sequenceLength text index ?w (?w - 1) < ?w"
    | "?c \<noteq> 0" "\<not> (labelDropped ?c \<or> ?w = 0)" "\<not> length out + ?w \<ge> WEB_ACCESS_LABEL_BYTES"
      "\<not> sequenceLength text index ?w (?w - 1) < ?w"
    by metis
  then show ?case
  proof cases
    case 5
    have "safeByte (byteAt text (index + k))" if "k < ?w" for k
    proof (cases "k = 0")
      case True then show ?thesis using 5(1,2) by (simp add: safeByte_def)
    next
      case False
      then show ?thesis
        using sequenceLength_whole [OF _ 5(4), of k] that by (auto intro: continuation_safe)
    qed
    then have "\<forall>c\<in>set (out @ ?next). safeByte c" using prems by auto
    moreover have "length (out @ ?next) < WEB_ACCESS_LABEL_BYTES" using 5(3) by simp
    ultimately show ?thesis
      unfolding labelLoop.simps [of "text" index out] Let_def if_not_P [OF 5(1)] if_not_P [OF 5(2)]
        if_not_P [OF 5(3)] if_not_P [OF 5(4)]
      by (intro IH(3) [OF 5(1) refl refl 5(2-4)])
  next
    case 4
    then show ?thesis
      unfolding labelLoop.simps [of "text" index out] Let_def if_not_P [OF 4(1)] if_not_P [OF 4(2)]
        if_not_P [OF 4(3)] if_P [OF 4(4)]
      by (intro IH(2) [OF 4(1) refl refl 4(2-4)] prems)
  next
    case 2
    then show ?thesis
      unfolding labelLoop.simps [of "text" index out] Let_def if_not_P [OF 2(1)] if_P [OF 2(2)]
      by (intro IH(1) [OF 2(1) refl refl 2(2)] prems)
  next
    case 1
    then show ?thesis using prems by (simp add: labelLoop.simps [of "text" index out])
  next
    case 3
    then show ?thesis
      unfolding labelLoop.simps [of "text" index out] Let_def if_not_P [OF 3(1)] if_not_P [OF 3(2)]
        if_P [OF 3(3)]
      using prems by blast
  qed
qed

lemma label_copied: "labelOk (copyWebAccessLabel text)"
  unfolding copyWebAccessLabel_def Let_def
  by (intro labelOk_padded) (use labelLoop_safe [of "[]" "text" 0] in \<open>simp_all add: WEB_ACCESS_LABEL_BYTES_def\<close>)

lemma label_empty: "labelOk (replicate WEB_ACCESS_LABEL_BYTES 0)"
  using labelOk_padded [of "[]"] by (simp add: WEB_ACCESS_LABEL_BYTES_def)

section \<open>The shape of the state\<close>

definition browserOk :: "Browser \<Rightarrow> bool" where
  "browserOk b \<longleftrightarrow> length (brToken b) = 16 \<and> labelOk (brLabel b)"

definition rememberedOk :: "WebAccessRemembered \<Rightarrow> bool" where
  "rememberedOk r \<longleftrightarrow> length (wrToken r) = 16 \<and> labelOk (wrLabel r)"

definition storedOk :: "WebAccessStored \<Rightarrow> bool" where
  "storedOk s \<longleftrightarrow> length (wsRemembered s) = 8 \<and> (\<forall>r\<in>set (wsRemembered s). rememberedOk r) \<and>
     length (wsHomeAssistantToken s) = 16 \<and> wsEnabled s \<le> 1 \<and> wsNoticeDismissed s \<le> 1 \<and> wsHomeAssistant s \<le> 1"

definition pairingOk :: "Pairing \<Rightarrow> bool" where
  "pairingOk p \<longleftrightarrow> length (paToken p) = 16 \<and> length (paCode p) = 5"

definition webOk :: "WebAccessState \<Rightarrow> bool" where
  "webOk st \<longleftrightarrow> storedOk (waStored st) \<and> length (waBrowser st) = 4 \<and> (\<forall>b\<in>set (waBrowser st). browserOk b) \<and>
     pairingOk (waPairing st)"

lemma length_token0 [simp]: "length token0 = 16"
  by (simp add: token0_def WEB_ACCESS_TOKEN_BYTES_def)

lemma blank_ok [simp]: "browserOk browser0" "rememberedOk remembered0" "pairingOk pairing0"
  using label_empty by (simp_all add: browserOk_def rememberedOk_def pairingOk_def browser0_def remembered0_def pairing0_def)

lemma browser_updated:
  "webOk st \<Longrightarrow> browserOk b \<Longrightarrow> webOk (st\<lparr> waBrowser := (waBrowser st)[i := b] \<rparr>)"
  by (auto simp: webOk_def dest: subsetD [OF set_update_subset_insert])

lemma webOk_stored: "webOk st \<Longrightarrow> storedOk s \<Longrightarrow> webOk (st\<lparr> waStored := s \<rparr>)"
  by (simp add: webOk_def)

lemma webOk_dirty [simp]: "webOk (st\<lparr> waDirty := d \<rparr>) = webOk st"
  by (simp add: webOk_def)

lemma webOk_paired: "webOk st \<Longrightarrow> pairingOk p \<Longrightarrow> webOk (st\<lparr> waPairing := p \<rparr>)"
  by (simp add: webOk_def)

lemma remembered_updated:
  "storedOk s \<Longrightarrow> rememberedOk r \<Longrightarrow> storedOk (setRemembered i r s)"
  by (auto simp: storedOk_def setRemembered_def dest: subsetD [OF set_update_subset_insert])

lemma storedOk_fields [simp]:
  "storedOk (s\<lparr> wsRememberedMask := m \<rparr>) = storedOk s"
  by (simp add: storedOk_def)

lemma browser_of: "webOk st \<Longrightarrow> i < 4 \<Longrightarrow> browserOk (waBrowser st ! i)"
  by (simp add: webOk_def)

lemma remembered_of: "webOk st \<Longrightarrow> i < 8 \<Longrightarrow> rememberedOk (wsRemembered (waStored st) ! i)"
  by (simp add: webOk_def storedOk_def)

lemma stored_of: "webOk st \<Longrightarrow> storedOk (waStored st)"
  by (simp add: webOk_def)

lemma pairing_of: "webOk st \<Longrightarrow> pairingOk (waPairing st)"
  by (simp add: webOk_def)

lemma drop_ok: "webOk st \<Longrightarrow> webOk (dropRemembered slot st)"
  by (simp add: dropRemembered_def Let_def webOk_stored remembered_updated stored_of)

lemma match_bounds:
  "browserMatch st token = Some i \<Longrightarrow> i < 4" "rememberedMatch st token = Some k \<Longrightarrow> k < 8"
  by (auto simp: browserMatch_def rememberedMatch_def find_Some_iff WEB_ACCESS_BROWSER_SLOTS_def WEB_ACCESS_REMEMBERED_SLOTS_def)

lemma valid_ok: "webOk st \<Longrightarrow> webOk (snd (webAccessSessionValid token ms utc st))"
proof -
  assume ok: "webOk st"
  have "browserOk ((waBrowser st ! i)\<lparr> brSeenMs := ms \<rparr>)" if "i < 4" for i
    using browser_of [OF ok that] by (simp add: browserOk_def)
  moreover have "rememberedOk ((wsRemembered (waStored st) ! i)\<lparr> wrUsedUtc := utc \<rparr>)" if "i < 8" for i
    using remembered_of [OF ok that] by (simp add: rememberedOk_def)
  ultimately show ?thesis
    using ok by (auto simp: webAccessSessionValid_def Let_def browser_updated drop_ok webOk_stored remembered_updated
        stored_of match_bounds split: option.split)
qed

lemma issue_ok: "webOk st \<Longrightarrow> length token = 16 \<Longrightarrow> webOk (webAccessIssueSession token remember ms utc label st)"
  by (auto simp: webAccessIssueSession_def Let_def browserOk_def rememberedOk_def label_copied WEB_ACCESS_TOKEN_BYTES_def
      intro!: browser_updated webOk_stored remembered_updated stored_of)

lemma rename_ok: "webOk st \<Longrightarrow> webOk (snd (webAccessRenameId n label st))"
proof -
  assume ok: "webOk st"
  have "browserOk ((waBrowser st ! i)\<lparr> brLabel := copyWebAccessLabel label \<rparr>)" if "i < 4" for i
    using browser_of [OF ok that] by (simp add: browserOk_def label_copied)
  moreover have "rememberedOk ((wsRemembered (waStored st) ! i)\<lparr> wrLabel := copyWebAccessLabel label \<rparr>)" if "i < 8" for i
    using remembered_of [OF ok that] by (simp add: rememberedOk_def label_copied)
  ultimately show ?thesis
    using ok by (auto simp: webAccessRenameId_def Let_def WEB_ACCESS_SESSION_IDS_def WEB_ACCESS_REMEMBERED_SLOTS_def
        WEB_ACCESS_BROWSER_SLOTS_def intro!: browser_updated webOk_stored remembered_updated stored_of)
qed

lemma revokeId_ok: "webOk st \<Longrightarrow> webOk (snd (webAccessRevokeId n st))"
  by (simp add: webAccessRevokeId_def Let_def drop_ok browser_updated)

lemma revoke_ok: "webOk st \<Longrightarrow> webOk (webAccessRevokeSessions token only st)"
proof -
  assume ok: "webOk st"
  have f: "webOk s \<Longrightarrow> webOk (fold (revokeSlot token only) ks s)" for ks s
    by (induction ks arbitrary: s) (simp_all add: revokeSlot_def drop_ok)
  have "webOk (st\<lparr> waBrowser := map (\<lambda>b. if brLive b \<and> revokes token only (brToken b) then browser0 else b) (waBrowser st) \<rparr>)"
    using ok by (auto simp: webOk_def)
  then show ?thesis by (simp add: webAccessRevokeSessions_def Let_def f)
qed

lemma home_ok:
  "webOk st \<Longrightarrow> length token = 16 \<Longrightarrow> webOk (webAccessSetHomeAssistant token utc st)"
  "webOk st \<Longrightarrow> webOk (webAccessForgetHomeAssistant st)"
  by (auto simp: webAccessSetHomeAssistant_def webAccessForgetHomeAssistant_def WEB_ACCESS_TOKEN_BYTES_def
      webOk_def storedOk_def)

lemma tick_ok: "webOk st \<Longrightarrow> webOk (webAccessTickPairing ms st)"
  by (auto simp: webAccessTickPairing_def Let_def webOk_def pairingOk_def pairing0_def)

lemma length_digits [simp]: "length (codeDigits n code) = n"
  by (induction n arbitrary: code) auto

lemma pairing_start_ok: "webOk st \<Longrightarrow> webOk (snd (webAccessStartPairing n code ms st))"
  using tick_ok [of st ms] pairing_of [OF tick_ok, of st ms]
  by (auto simp: webAccessStartPairing_def Let_def pairingOk_def intro!: webOk_paired)

lemma decide_ok:
  "webOk st \<Longrightarrow> length token = 16 \<Longrightarrow> webOk (snd (webAccessDecidePairing n allow token ms utc st))"
  using tick_ok [of st ms] pairing_of [OF tick_ok, of st ms]
  by (auto simp: webAccessDecidePairing_def Let_def pairingOk_def WEB_ACCESS_TOKEN_BYTES_def intro!: webOk_paired home_ok(1))

lemma status_ok: "webOk st \<Longrightarrow> webOk (snd (snd (webAccessPairingStatus n ms st)))"
  using tick_ok [of st ms] by (auto simp: webAccessPairingStatus_def Let_def intro!: webOk_paired)

lemma disable_ok: "webOk st \<Longrightarrow> webOk (webAccessDisable st)"
proof -
  assume ok: "webOk st"
  let ?s = "(webAccessForgetHomeAssistant (webAccessRevokeSessions None False st))\<lparr> waPairing := pairing0 \<rparr>"
  have s: "webOk ?s" using ok by (intro webOk_paired home_ok(2) revoke_ok) auto
  moreover have "storedOk ((waStored ?s)\<lparr> wsEnabled := 0 \<rparr>)"
    using stored_of [OF s] by (simp add: storedOk_def)
  ultimately show ?thesis
    unfolding webAccessDisable_def Let_def by (auto intro!: webOk_stored)
qed

lemmas calls_ok = valid_ok issue_ok rename_ok revokeId_ok revoke_ok home_ok tick_ok pairing_start_ok decide_ok status_ok disable_ok

text \<open>
  Property C30. Every call keeps the types of the stored data: eight remembered and four
  browser slots, tokens of sixteen bytes, flags that are 0 or 1, and labels that are
  zero-terminated inside their 24 bytes and free of quotes, backslashes, angle brackets and
  control characters, whatever the browser sent. What is then finalised for flash is
  accepted when it is loaded again.
\<close>

theorem web_calls_keep_types:
  assumes "webOk st" and "callTyped call"
  shows "webOk (webStep call st) \<and> validWebAccessStored (finalizeWebAccessStored (waStored (webStep call st)))"
proof -
  have w: "webOk (webStep call st)"
    using assms by (cases call) (simp_all add: calls_ok)
  moreover have "validWebAccessStored (finalizeWebAccessStored s)" if "storedOk s" for s
    using that by (simp add: validWebAccessStored_def finalizeWebAccessStored_def Let_def storedOk_def webAccessChecksum_def
        storedPrefix_def)
  ultimately show ?thesis by (simp add: stored_of)
qed

lemma initial_ok: "webOk webAccessState0"
  by (simp add: webOk_def webAccessState0_def storedOk_def webAccessStored0_def WEB_ACCESS_BROWSER_SLOTS_def
      WEB_ACCESS_REMEMBERED_SLOTS_def)

theorem web_calls_keep_types_witness:
  "webOk (webStep (IssueSession token0 True 0 0 [0x3C, 0x41]) webAccessState0)"
  using web_calls_keep_types [OF initial_ok, of "IssueSession token0 True 0 0 [0x3C, 0x41]"] by simp

section \<open>Pairing\<close>

text \<open>The tokens granted and handed out by a call, each with the request it is for.\<close>

fun grants :: "WebCall \<Rightarrow> WebAccessState \<Rightarrow> (u32 \<times> bytes) list" where
  "grants (DecidePairing n allow token ms utc) st =
     (if fst (webAccessDecidePairing n allow token ms utc st) \<and> allow then [(n, take WEB_ACCESS_TOKEN_BYTES token)] else [])"
| "grants _ st = []"

fun handsOut :: "WebCall \<Rightarrow> WebAccessState \<Rightarrow> (u32 \<times> bytes) list" where
  "handsOut (PairingStatus n ms) st =
     (case fst (snd (webAccessPairingStatus n ms st)) of None \<Rightarrow> [] | Some token \<Rightarrow> [(n, token)])"
| "handsOut _ st = []"

fun webRun :: "WebCall list \<Rightarrow> WebAccessState \<Rightarrow> (u32 \<times> bytes) list \<times> (u32 \<times> bytes) list" where
  "webRun [] st = ([], [])"
| "webRun (call # calls) st =
     (case webRun calls (webStep call st) of (granted, handed) \<Rightarrow> (grants call st @ granted, handsOut call st @ handed))"

definition held :: "WebAccessState \<Rightarrow> (u32 \<times> bytes) list" where
  "held st = (if paState (waPairing st) = PAIRING_APPROVED then [(paId (waPairing st), paToken (waPairing st))] else [])"

lemma held_tick: "subseq (held (webAccessTickPairing ms st)) (held st)"
  by (auto simp: held_def webAccessTickPairing_def Let_def pairing0_def)

lemma held_pairing: "waPairing st' = waPairing st \<Longrightarrow> held st' = held st"
  by (simp add: held_def)

lemma other_calls_pairing:
  "waPairing (snd (webAccessSessionValid token ms utc st)) = waPairing st"
  "waPairing (webAccessIssueSession token remember ms utc label st) = waPairing st"
  "waPairing (snd (webAccessRenameId n label st)) = waPairing st"
  "waPairing (snd (webAccessRevokeId n st)) = waPairing st"
  "waPairing (webAccessSetHomeAssistant token utc st) = waPairing st"
  "waPairing (webAccessForgetHomeAssistant st) = waPairing st"
  by (auto simp: webAccessSessionValid_def webAccessIssueSession_def webAccessRenameId_def webAccessRevokeId_def
      webAccessSetHomeAssistant_def webAccessForgetHomeAssistant_def dropRemembered_def Let_def split: option.split)

lemma revoke_pairing: "waPairing (webAccessRevokeSessions token only st) = waPairing st"
proof -
  have "waPairing (fold (revokeSlot token only) ks s) = waPairing s" for ks s
    by (induction ks arbitrary: s) (simp_all add: revokeSlot_def dropRemembered_def Let_def)
  then show ?thesis by (simp add: webAccessRevokeSessions_def Let_def)
qed

lemmas other_held = other_calls_pairing [THEN held_pairing] revoke_pairing [THEN held_pairing]

text \<open>One call: what it hands out and what is held afterwards was held before or granted by it.\<close>

lemma call_conserves: "subseq (handsOut call st @ held (webStep call st)) (held st @ grants call st)"
proof (cases call)
  case (StartPairing n code ms)
  let ?t = "webAccessTickPairing ms st"
  show ?thesis
  proof (cases "paState (waPairing ?t) \<noteq> PAIRING_NONE \<or> n = 0")
    case True
    then show ?thesis using StartPairing held_tick [of ms st] by (simp add: webAccessStartPairing_def)
  next
    case False
    then show ?thesis using StartPairing by (simp add: webAccessStartPairing_def Let_def held_def)
  qed
next
  case (DecidePairing n allow token ms utc)
  let ?t = "webAccessTickPairing ms st"
  show ?thesis
  proof (cases "paState (waPairing ?t) \<noteq> PAIRING_PENDING \<or> paId (waPairing ?t) \<noteq> n")
    case True
    then show ?thesis using DecidePairing held_tick [of ms st] by (simp add: webAccessDecidePairing_def)
  next
    case False
    then show ?thesis using DecidePairing
      by (auto simp: webAccessDecidePairing_def Let_def held_def other_calls_pairing webAccessSetHomeAssistant_def)
  qed
next
  case (PairingStatus n ms)
  then show ?thesis using held_tick [of ms st]
    by (auto simp: webAccessPairingStatus_def Let_def held_def pairing0_def split: if_splits)
next
  case (TickPairing ms)
  then show ?thesis using held_tick [of ms st] by simp
next
  case DisableLogin
  then show ?thesis by (simp add: held_def webAccessDisable_def Let_def pairing0_def)
qed (simp_all add: other_held)

text \<open>
  Property C28. The Home Assistant token a pairing request collects was granted by the owner
  for that very request, and each grant is collected at most once: over any run of calls,
  the tokens handed out are a subsequence of the tokens granted, with their request ids. A
  denied, expired or foreign request never receives one.
\<close>

theorem pairing_token_collected_once:
  assumes "paState (waPairing st) \<noteq> PAIRING_APPROVED"
  shows "subseq (snd (webRun calls st)) (fst (webRun calls st))"
proof -
  have "subseq (snd (webRun calls st)) (held st @ fst (webRun calls st))" for calls st
  proof (induction calls arbitrary: st)
    case (Cons call calls)
    obtain g h where gh: "webRun calls (webStep call st) = (g, h)" by fastforce
    have "subseq (handsOut call st @ h) (handsOut call st @ held (webStep call st) @ g)"
      using Cons.IH [of "webStep call st"] gh by (auto intro: list_emb_append_mono)
    also have "subseq \<dots> ((held st @ grants call st) @ g)"
      using list_emb_append_mono [OF call_conserves [of call st] subseq_order.order_refl [of g]] by simp
    finally show ?case using gh by simp
  qed simp
  then show ?thesis using assms by (metis held_def append_Nil)
qed

theorem pairing_token_collected_once_witness:
  "subseq (snd (webRun [StartPairing 7 1234 0, DecidePairing 7 True token0 5 0, PairingStatus 7 6, PairingStatus 7 8] webAccessState0))
     [(7, token0)]"
proof -
  have "fst (webRun [StartPairing 7 1234 0, DecidePairing 7 True token0 5 0, PairingStatus 7 6, PairingStatus 7 8] webAccessState0)
     = [(7, token0)]"
    by code_simp
  then show ?thesis
    using pairing_token_collected_once [of webAccessState0]
    by (metis webAccessState0_def pairing0_def WebAccessState.select_convs(3) Pairing.select_convs(1) WebAccessPairing.distinct(3))
qed

end
