(* ===== verification/Backflush_Handoff.thy ===== *)
theory Backflush_Handoff
  imports Obw_Prelude
begin

text \<open>
  The hand-off of backflush observations from a machine integration to the control task
  (\<open>MachineBackflushObservations\<close> in \<open>src/machine/OpenBrewByWeightMachineBackflush.h\<close>): a
  bounded batch of phase changes, numbered one by one, with a continuity counter that moves
  whenever changes may have been lost. The array and its count are one list; the atomic
  accesses are plain reads and writes, the object being guarded by the integration's mutex.
\<close>

datatype BackflushPhase = BF_UNSUPPORTED | BF_UNKNOWN | BF_INACTIVE | BF_AWAITING | BF_ACTIVE

record BackflushPermit =
  bpContinuity :: u32
  bpEpisode :: u32
  bpAttempt :: u32
  bpSequence :: u32
  bpExtendable :: bool

definition permit0 :: BackflushPermit where
  "permit0 = \<lparr> bpContinuity = 0, bpEpisode = 0, bpAttempt = 0, bpSequence = 0, bpExtendable = False \<rparr>"

record BackflushChange =
  bcPermit :: BackflushPermit
  bcSequence :: u32
  bcPhase :: BackflushPhase

record BackflushSnapshot =
  bsChanges :: "BackflushChange list"
  bsPermit :: BackflushPermit
  bsSequence :: u32
  bsPhase :: BackflushPhase
  bsValid :: bool
  bsUnresolved :: bool
  bsConsumed :: bool

definition BACKFLUSH_CAPACITY :: nat where "BACKFLUSH_CAPACITY = 8"

definition snapshot0 :: BackflushSnapshot where
  "snapshot0 = \<lparr> bsChanges = [], bsPermit = permit0, bsSequence = 0, bsPhase = BF_UNSUPPORTED, bsValid = False,
     bsUnresolved = False, bsConsumed = False \<rparr>"

definition backflushBusy :: "BackflushSnapshot \<Rightarrow> bool" where
  "backflushBusy b \<longleftrightarrow> bsUnresolved b \<or> bsPhase b = BF_AWAITING \<or> bsPhase b = BF_ACTIVE \<or> bpAttempt (bsPermit b) \<noteq> 0"

record BackflushObservations =
  boState :: BackflushSnapshot
  boAttemptCounter :: u32
  boInactiveSeen :: bool
  boChanged :: bool

definition observations0 :: BackflushObservations where
  "observations0 = \<lparr> boState = snapshot0, boAttemptCounter = 0, boInactiveSeen = False, boChanged = True \<rparr>"

text \<open>Counters skip zero.\<close>

definition advance :: "u32 \<Rightarrow> u32" where
  "advance v = (if v + 1 = 0 then 1 else v + 1)"

definition backflushInvalidate :: "BackflushObservations \<Rightarrow> BackflushObservations" where
  "backflushInvalidate b =
     (let st = boState b in
      if bsPhase st = BF_UNSUPPORTED then b
      else
        let b1 = (if bsValid st \<or> bsPhase st \<noteq> BF_UNKNOWN then b\<lparr> boChanged := True \<rparr> else b);
            st1 = (if bsValid st \<or> bsChanges st \<noteq> [] \<or> bpExtendable (bsPermit st)
                   then st\<lparr> bsPermit := (bsPermit st)\<lparr> bpContinuity := advance (bpContinuity (bsPermit st)) \<rparr>,
                            bsChanges := [] \<rparr>
                   else st)
        in b1\<lparr> boState := st1\<lparr> bsValid := False, bsPermit := (bsPermit st1)\<lparr> bpExtendable := False \<rparr>,
                                 bsPhase := BF_UNKNOWN \<rparr>,
               boInactiveSeen := False \<rparr>)"

definition backflushReset :: "BackflushObservations \<Rightarrow> BackflushObservations" where
  "backflushReset b =
     (let b1 = backflushInvalidate (b\<lparr> boChanged := True \<rparr>) in
      b1\<lparr> boState := (boState b1)\<lparr> bsUnresolved := False, bsConsumed := False, bsPhase := BF_UNSUPPORTED \<rparr> \<rparr>)"

text \<open>The change that is recorded once a phase is known to be new and there is room for it.\<close>

definition recordPhase :: "BackflushPhase \<Rightarrow> u32 \<Rightarrow> BackflushObservations \<Rightarrow> BackflushObservations" where
  "recordPhase phase ingressAttempt b =
     (let st = boState b;
          st1 = (if phase = BF_AWAITING
                 then st\<lparr> bsPermit := (bsPermit st)\<lparr> bpEpisode := advance (bpEpisode (bsPermit st)),
                            bpExtendable := (boInactiveSeen b \<and> bsPhase st = BF_INACTIVE) \<rparr> \<rparr>
                 else st);
          st2 = (if phase = BF_INACTIVE then st1\<lparr> bsUnresolved := False, bsConsumed := False \<rparr>
                 else st1\<lparr> bsUnresolved := True \<rparr>);
          st3 = st2\<lparr> bsValid := True, bsPhase := phase, bsSequence := advance (bsSequence st2) \<rparr>;
          change = \<lparr> bcPermit = (bsPermit st3)\<lparr> bpAttempt := ingressAttempt \<rparr>, bcSequence = bsSequence st3, bcPhase = phase \<rparr>
      in b\<lparr> boState := st3\<lparr> bsChanges := bsChanges st3 @ [change] \<rparr>,
            boInactiveSeen := (boInactiveSeen b \<or> phase = BF_INACTIVE) \<rparr>)"

definition backflushObserve :: "BackflushPhase \<Rightarrow> u32 \<Rightarrow> BackflushObservations \<Rightarrow> BackflushObservations" where
  "backflushObserve phase ingressAttempt b0 =
     (let b = b0\<lparr> boChanged := True \<rparr>; st = boState b;
          b1 = (if bsPhase st = BF_UNSUPPORTED
                then b\<lparr> boState := st\<lparr> bsPhase := BF_UNKNOWN,
                       bsPermit := (bsPermit st)\<lparr> bpContinuity := advance (bpContinuity (bsPermit st)) \<rparr> \<rparr> \<rparr>
                else b)
      in if phase = BF_UNKNOWN then backflushInvalidate (b1\<lparr> boState := (boState b1)\<lparr> bsUnresolved := True \<rparr> \<rparr>)
         else if bsValid (boState b1) \<and> phase = bsPhase (boState b1) then b1
         else if length (bsChanges (boState b1)) = BACKFLUSH_CAPACITY then
           let b2 = backflushInvalidate b1 in b2\<lparr> boState := (boState b2)\<lparr> bsUnresolved := True \<rparr> \<rparr>
         else recordPhase phase ingressAttempt b1)"

definition backflushFence :: "BackflushObservations \<Rightarrow> BackflushObservations" where
  "backflushFence b = b\<lparr> boChanged := True, boAttemptCounter := advance (boAttemptCounter b) \<rparr>"

definition backflushStart :: "BackflushObservations \<Rightarrow> BackflushPermit \<times> BackflushObservations" where
  "backflushStart b0 =
     (let b = backflushFence b0; st = boState b in
      if \<not> bsValid st \<or> bsPhase st \<noteq> BF_AWAITING \<or> bsConsumed st then (permit0, b)
      else
        let permit = (bsPermit st)\<lparr> bpAttempt := boAttemptCounter b, bpSequence := bsSequence st \<rparr>
        in (permit, b\<lparr> boState := st\<lparr> bsConsumed := True, bsPermit := permit, bsChanges := [] \<rparr> \<rparr>))"

definition backflushFinish :: "u32 \<Rightarrow> BackflushObservations \<Rightarrow> BackflushObservations" where
  "backflushFinish attempt b =
     (let st = boState b;
          st1 = (if bpAttempt (bsPermit st) = attempt then st\<lparr> bsPermit := (bsPermit st)\<lparr> bpAttempt := 0 \<rparr> \<rparr> else st)
      in b\<lparr> boState := st1, boChanged := True, boAttemptCounter := advance (boAttemptCounter b) \<rparr>)"

definition backflushTake :: "BackflushObservations \<Rightarrow> BackflushSnapshot \<times> BackflushObservations" where
  "backflushTake b = (boState b, b\<lparr> boState := (boState b)\<lparr> bsChanges := [] \<rparr> \<rparr>)"

definition backflushSettle :: "BackflushObservations \<Rightarrow> BackflushObservations" where
  "backflushSettle b = b\<lparr> boChanged := False \<rparr>"

section \<open>The reader of a batch\<close>

text \<open>
  What \<open>serviceBackflush\<close> in \<open>src/control/OpenBrewByWeightWakeGesture.inc\<close> makes of the
  changes of a batch: the sequence reached and the confirmation, or the reason to end. A
  confirmation comes too late when the circuit has been closed for the hard limit already.
\<close>

datatype BackflushEnd = OBSERVATION_GAP | AMBIGUOUS_CONFIRMATION | MODE_ENDED | STATE_CHANGED

fun reduceChanges :: "BackflushPermit \<Rightarrow> bool \<Rightarrow> BackflushChange list \<Rightarrow> u32 \<Rightarrow> bool \<Rightarrow> (bool \<times> BackflushEnd) option \<times> u32 \<times> bool" where
  "reduceChanges permit late [] sequence confirmed = (None, sequence, confirmed)"
| "reduceChanges permit late (change # rest) sequence confirmed =
     (if bcSequence change \<noteq> advance sequence \<or> bpContinuity (bcPermit change) \<noteq> bpContinuity permit \<or>
         bpEpisode (bcPermit change) \<noteq> bpEpisode permit
      then (Some (confirmed, OBSERVATION_GAP), sequence, confirmed)
      else if bcPhase change = BF_ACTIVE then
        (if \<not> bpExtendable permit \<or> bpAttempt (bcPermit change) \<noteq> bpAttempt permit \<or> (\<not> confirmed \<and> late)
         then (Some (confirmed, AMBIGUOUS_CONFIRMATION), bcSequence change, confirmed)
         else reduceChanges permit late rest (bcSequence change) True)
      else if bcPhase change = BF_INACTIVE then (Some (confirmed, MODE_ENDED), bcSequence change, confirmed)
      else if confirmed then (Some (confirmed, STATE_CHANGED), bcSequence change, confirmed)
      else reduceChanges permit late rest (bcSequence change) confirmed)"

end
