(* ===== verification/Shot_Session.thy ===== *)
theory Shot_Session
  imports Complex_Main Shot_Predictor
begin

text \<open>
  The shot in progress, as the weight stop sees it: the fields of \<open>CycleSession\<close> and
  \<open>ShotTrajectory\<close> in \<open>src/openBrewByWeight.cpp\<close> that decide when a shot ends, and the small
  operations on them in \<open>src/OpenBrewByWeightBrew.h\<close>, \<open>src/OpenBrewByWeightScaleSense.h\<close>
  and \<open>src/openBrewByWeight.cpp\<close>.

  A \<open>float\<close> is the rational it denotes; every float operation of the code is the exact
  operation followed by \<open>feRound\<close>, the rounding of the FPU, which is an input (the compiler
  is taken not to contract a multiplication and an addition into one). Readings that are not
  finite never reach this code. The runtime configuration, the relay and the elapsed times are
  inputs as well; \<open>NO_CUT_PREDICTION_S\<close> is kept in milliseconds, where the comparison of
  integers is the one of floats below 2 to the 24th. Calls whose effect lies outside these fields (shot
  curve, alerts, cup presence, debug log) are recorded in \<open>ssOut\<close>; serial traces and scale
  profiler notes are left out.
\<close>

section \<open>Types\<close>

type_synonym grams = rat

datatype WeightControlState = WC_INACTIVE | WC_VALIDATING | WC_ACTIVE | WC_SUSPENDED | WC_FAULT_STOPPED
datatype WeightStreamState = STREAM_NO_SAMPLE | STREAM_FRESH | STREAM_STALE | STREAM_ANOMALOUS | STREAM_OVERLOAD
datatype StopperState =
    STOPPER_REQUIRES_OFF | STOPPER_READY | STOPPER_BREW | STOPPER_RINSE | STOPPER_MANUAL_NO_SCALE
  | STOPPER_BACKFLUSH_CANDIDATE | STOPPER_BACKFLUSH_RUNNING
datatype AccidentalTouchClass = TOUCH_OK | TOUCH | SUSTAINED
datatype AccidentalTouchPhase = TOUCH_STARTUP | TOUCH_TREND

datatype ShotDebug =
    SCALE_CONTROL_SUSPENDED | SCALE_CONTROL_RECOVERED | AUTO_TO_MANUAL_GUARD_CLEARED
  | AUTO_TO_MANUAL_GUARD_ARMED | AUTO_TO_MANUAL_GUARD_ENFORCED | AUTO_TO_MANUAL_GUARD_FIRED
  | CHANNELING_DETECTED | FAST_EXTRACTION_ENTERED | SLOW_EXTRACTION_ENTERED | SCALE_OVERLOAD_CONFIRMED
  | SCALE_THRESHOLD_CONFIRMED | SCALE_SAMPLE_REJECTED_INVALID | SCALE_SAMPLE_REJECTED_RANGE | SCALE_SAMPLE_REJECTED_PRE_CYCLE
  | SCALE_SAMPLE_REJECTED_SLEW | SCALE_SAMPLE_REJECTED_RECOVERY | SCALE_POST_TARE_BASELINE_TIMEOUT
  | SCALE_STREAM_STALE | FIRST_DROP_DURING_RETARE
  | ACCIDENTAL_TOUCH_HOLD | ACCIDENTAL_TOUCH_SUSTAINED | ACCIDENTAL_TOUCH_RELEASE | ACCIDENTAL_TOUCH_HANDOFF

datatype ShotEffect =
    Debug ShotDebug int int
  | CurveReset u32 | CurveBreak | CurveAccept grams u32 bool | CurveExtended u32 grams | CurveAtm u32 grams | CurveAtmCleared u32
  | CurveFirstDrop u32 grams
  | ExtendedPulseAlert | FirstDropAlert | TareAlert | FirstDropWebhook u32 grams | HoldCupTransitions bool | RestoreCupReference grams | FirstFlowReset

record TouchStopEvidence =
  teFirstAtMs :: u32
  teLastAtMs :: u32
  tePacketSequence :: u32
  teConnectionGeneration :: u32
  teThresholdG :: grams
  teWeightG :: grams
  tePolicy :: EndReason
  teSamples :: u8

definition touchStop0 :: TouchStopEvidence where
  "touchStop0 = \<lparr> teFirstAtMs = 0, teLastAtMs = 0, tePacketSequence = 0, teConnectionGeneration = 0,
     teThresholdG = 0, teWeightG = 0, tePolicy = END_NONE, teSamples = 0 \<rparr>"

text \<open>The configuration snapshot of the cycle.\<close>

record CycleConfig =
  ccTimerOnly :: bool
  ccTouchProtection :: bool
  ccTouchFallback :: bool
  ccAutoRetare :: bool
  ccRetareWindowMs :: u32
  ccBbwProtectionMs :: u32
  ccPostTareBaselineGraceMs :: u32
  ccScaleLossEnabled :: bool
  ccScaleLossFixedMs :: u32
  ccFirstDropBeep :: bool
  ccGoalWeightDg :: u16
  ccFastMarginDg :: u16
  ccSlowMarginDg :: u16
  ccFastSideEnabled :: bool
  ccSlowSideEnabled :: bool
  ccFastBeforeMs :: u32
  ccSlowAfterMs :: u32
  ccOperationalWallMs :: u32
  ccWeightOffsetG :: grams
  ccAutoTare :: bool
  ccCanTareStartTimer :: bool
  ccRinseDurationMs :: u32

record ShotSession =
  ssActive :: bool
  automaticEnabled :: bool
  bbwProtectionEnabled :: bool
  startedWithScale :: bool
  scaleWasLost :: bool
  receivedFreshWeightInCycle :: bool
  calibrationEligible :: bool
  hasWeightAnchor :: bool
  directStopPending :: bool
  awaitingPostTareBaseline :: bool
  weightControlState :: WeightControlState
  directStopReason :: EndReason
  thresholdConfirmations :: u8
  recoveryConfirmations :: u8
  ssId :: u32
  scaleDisconnectSequenceAtStart :: u32
  weightSequenceAtStart :: u32
  ownedConnectionGeneration :: u32
  ssStartedAtMs :: u32
  circuitClosedAtMs :: u32
  postTareBaselineDeadlineMs :: u32
  lastAcceptedWeightAtMs :: u32
  lastAcceptedPacketSequence :: u32
  lastThresholdAtMs :: u32
  lastThresholdPacketSequence :: u32
  lastThresholdConnectionGeneration :: u32
  recoveryLastAtMs :: u32
  recoveryLastPacketSequence :: u32
  firstDropMs :: u32
  scaleBaselineG :: grams
  scaleBaselineReady :: bool
  lastAcceptedWeightG :: grams
  recoveryLastWeightG :: grams
  retareEnded :: bool
  bbwProtectionEnded :: bool
  retarePerformed :: bool
  retareDisabled :: bool
  retareAtMs :: u32
  flowDuringRetare :: bool
  retareFlowFirstDetectedAtMs :: u32
  firstDropsBeepSent :: bool
  preTareWeightG :: "grams option"
  softwareZeroG :: grams
  firstDropObserved :: bool
  retareEffectPending :: bool
  ssConfig :: CycleConfig
  ssCut :: CorridorState
  ssPredictor :: ShotPredictor
  predictorQpX100 :: int
  extractionExtended :: bool
  slowExtractionExtended :: bool
  targetReachedEarly :: bool
  targetReachedAtMs :: u32
  autoToManualGuardArmed :: bool
  autoToManualGuardEnforced :: bool
  autoToManualGuardDeadlineAtMs :: u32
  scaleLossSource :: LossSource
  scaleLossBlind :: bool
  cupRemovedPending :: bool
  accidentalTouchPhase :: AccidentalTouchPhase
  accidentalTouchClass :: AccidentalTouchClass
  accidentalTouchHolding :: bool
  accidentalTouchPendingG :: "grams list"
  accidentalTouchHeldSinceMs :: u32
  accidentalTouchEpochS :: rat
  touchStop :: TouchStopEvidence
  shotStartMs :: u32
  expectedEndMs :: int
  shotWeights :: "(grams \<times> grams) list"
  weightStreamState :: WeightStreamState
  stopperState :: StopperState
  ssOut :: "ShotEffect list"

text \<open>What the operations read of the rest of the firmware during one call.\<close>

record ShotEnv =
  feNow :: u32
  feRunningMs :: "u32 option"
  feElapsedMs :: u32
  feAutomationStop :: bool
  feScaleUnavailable :: bool
  feWeightSequence :: u32
  feDisconnectSequence :: u32
  feObservedWeight :: "grams option"
  feNoFlowIdle :: bool
  feRetareQueued :: bool
  feExtendedPulse :: bool
  feSlowExtendedPulse :: bool
  feMinimumCupWeightG :: grams
  feRound :: "rat \<Rightarrow> rat"

section \<open>Constants\<close>

definition MAX_AUTOMATION_WEIGHT_AGE_MS :: u32 where "MAX_AUTOMATION_WEIGHT_AGE_MS = 1000"
definition MAX_PARSED_WEIGHT_G :: grams where "MAX_PARSED_WEIGHT_G = 10000"
definition MIN_AUTOMATION_WEIGHT_G :: grams where "MIN_AUTOMATION_WEIGHT_G = - 500"
definition MAX_AUTOMATION_WEIGHT_G :: grams where "MAX_AUTOMATION_WEIGHT_G = 1000"
definition MAX_AUTOMATION_WEIGHT_SLEW_G_PER_S :: grams where "MAX_AUTOMATION_WEIGHT_SLEW_G_PER_S = 100"
definition AUTOMATION_WEIGHT_SLEW_ALLOWANCE_G :: grams where "AUTOMATION_WEIGHT_SLEW_ALLOWANCE_G = 20"
definition POST_TARE_BASELINE_MAX_ABS_G :: grams where "POST_TARE_BASELINE_MAX_ABS_G = 50"
definition MAX_RECOVERY_WEIGHT_DROP_G :: grams where "MAX_RECOVERY_WEIGHT_DROP_G = 2"
definition DIRECT_STOP_CONFIRMATION_SAMPLES :: u8 where "DIRECT_STOP_CONFIRMATION_SAMPLES = 2"
definition WEIGHT_RECOVERY_CONFIRMATION_SAMPLES :: u8 where "WEIGHT_RECOVERY_CONFIRMATION_SAMPLES = 3"
definition DIRECT_STOP_CONFIRMATION_WINDOW_MS :: u32 where "DIRECT_STOP_CONFIRMATION_WINDOW_MS = 1000"
definition TOUCH_STOP_FALLBACK_MS :: u32 where "TOUCH_STOP_FALLBACK_MS = 1000"
definition MAX_SHOT_DATAPOINTS :: nat where "MAX_SHOT_DATAPOINTS = 32"

text \<open>The sentinel of the timed law: one second past the hard limit of the circuit.\<close>

definition NO_CUT_PREDICTION_MS :: int where "NO_CUT_PREDICTION_MS = 61000"

section \<open>Small operations\<close>

definition emit :: "ShotEffect \<Rightarrow> ShotSession \<Rightarrow> ShotSession" where
  "emit e s = s\<lparr> ssOut := ssOut s @ [e] \<rparr>"

definition addDebug :: "ShotDebug \<Rightarrow> int \<Rightarrow> int \<Rightarrow> ShotSession \<Rightarrow> ShotSession" where
  "addDebug code a b = emit (Debug code a b)"

text \<open>\<open>lroundf\<close>: to the nearest integer, halves away from zero.\<close>

definition lround :: "rat \<Rightarrow> int" where
  "lround x = (if 0 \<le> x then \<lfloor>x + 1/2\<rfloor> else - \<lfloor>1/2 - x\<rfloor>)"

text \<open>\<open>static_cast<int32_t>\<close> of a float: towards zero.\<close>

definition truncToInt :: "rat \<Rightarrow> int" where
  "truncToInt x = (if 0 \<le> x then \<lfloor>x\<rfloor> else - \<lfloor>- x\<rfloor>)"

definition gramsToDg :: "ShotEnv \<Rightarrow> grams \<Rightarrow> int" where
  "gramsToDg env g = lround (feRound env (g * 10))"

definition weightToCentigrams :: "ShotEnv \<Rightarrow> grams \<Rightarrow> int" where
  "weightToCentigrams env g =
     (let c = feRound env (g * 100) in
      if c \<ge> 2 ^ 31 then INT32_MAX else if c \<le> - (2 ^ 31) then INT32_MIN else truncToInt c)"

text \<open>Seconds of the shot at a clock reading, as a float.\<close>

definition shotSeconds :: "ShotEnv \<Rightarrow> u32 \<Rightarrow> ShotSession \<Rightarrow> rat" where
  "shotSeconds env atMs s = feRound env (feRound env (of_int (sint (atMs - shotStartMs s))) / 1000)"

definition shouldTrackWeight :: "ShotSession \<Rightarrow> bool" where
  "shouldTrackWeight s \<longleftrightarrow> ssActive s \<and> \<not> ccTimerOnly (ssConfig s) \<and> weightControlState s \<noteq> WC_INACTIVE \<and>
     weightControlState s \<noteq> WC_FAULT_STOPPED \<and> stopperState s = STOPPER_BREW"

definition shotTimeAtMs :: "ShotEnv \<Rightarrow> u32 \<Rightarrow> int option" where
  "shotTimeAtMs env atMs =
     (case feRunningMs env of
        None \<Rightarrow> None
      | Some runningMs \<Rightarrow>
          (let ageMs = feNow env - atMs in
           if ageMs > runningMs then None else Some (toI32 (uint (runningMs - ageMs)))))"

definition cutLineAtDg :: "ShotSession \<Rightarrow> int \<Rightarrow> int" where
  "cutLineAtDg s shotMs = cutLineDg (csParams (ssCut s)) shotMs"

definition orZero :: "int option \<Rightarrow> int" where
  "orZero t = (case t of None \<Rightarrow> 0 | Some x \<Rightarrow> x)"

definition weightCutReasonNow :: "ShotEnv \<Rightarrow> ShotSession \<Rightarrow> EndReason \<times> ShotSession" where
  "weightCutReasonNow env s =
     (let stopMs = orZero (shotTimeAtMs env (feNow env)); line = cutLineAtDg s stopMs in
      (cutReason (csParams (ssCut s)) line,
       s\<lparr> ssCut := (ssCut s)\<lparr> csStopMs := stopMs, csStopLineDg := line \<rparr> \<rparr>))"

definition resetDirectStopConfirmation :: "ShotSession \<Rightarrow> ShotSession" where
  "resetDirectStopConfirmation s = s\<lparr> thresholdConfirmations := 0, lastThresholdAtMs := 0,
     lastThresholdPacketSequence := 0, lastThresholdConnectionGeneration := 0, directStopPending := False \<rparr>"

definition accidentalTouchSessionActive :: "ShotSession \<Rightarrow> bool" where
  "accidentalTouchSessionActive s \<longleftrightarrow> shouldTrackWeight s \<and> ccTouchProtection (ssConfig s) \<and>
     startedWithScale s \<and> weightControlState s = WC_ACTIVE"

definition bbwAutomaticScaleSession :: "ShotSession \<Rightarrow> bool" where
  "bbwAutomaticScaleSession s \<longleftrightarrow> ssActive s \<and> bbwProtectionEnabled s"

definition bbwProtectionActive :: "ShotSession \<Rightarrow> bool" where
  "bbwProtectionActive s \<longleftrightarrow> bbwAutomaticScaleSession s \<and> \<not> bbwProtectionEnded s"

definition bbwWeightStopInhibited :: "ShotSession \<Rightarrow> bool" where
  "bbwWeightStopInhibited s \<longleftrightarrow> bbwAutomaticScaleSession s \<and> bbwProtectionActive s"

definition retareWindowOpen :: "ShotEnv \<Rightarrow> ShotSession \<Rightarrow> bool" where
  "retareWindowOpen env s \<longleftrightarrow> bbwAutomaticScaleSession s \<and> ccAutoRetare (ssConfig s) \<and>
     \<not> retareEnded s \<and> \<not> retarePerformed s \<and>
     (let elapsed = feNow env - ssStartedAtMs s in
      elapsed < ccRetareWindowMs (ssConfig s) \<or>
      \<not> firstDropObserved s \<and> elapsed < ccBbwProtectionMs (ssConfig s))"

definition markRetareEnded :: "ShotSession \<Rightarrow> ShotSession" where
  "markRetareEnded s = (if retareEnded s then s else s\<lparr> retareEnded := True, retareDisabled := True \<rparr>)"

definition serviceBbwProtectionPhases :: "ShotEnv \<Rightarrow> ShotSession \<Rightarrow> ShotSession" where
  "serviceBbwProtectionPhases env s0 =
     (if \<not> ssActive s0 \<or> \<not> bbwProtectionEnabled s0 then s0
      else
        let s1 = (if \<not> retareEnded s0 \<and> ccAutoRetare (ssConfig s0) \<and> \<not> retarePerformed s0 \<and>
                     \<not> retareWindowOpen env s0 then markRetareEnded s0 else s0)
        in if \<not> bbwProtectionEnded s1 \<and> feNow env - ssStartedAtMs s1 \<ge> ccBbwProtectionMs (ssConfig s1)
           then resetDirectStopConfirmation (s1\<lparr> bbwProtectionEnded := True \<rparr>) else s1)"

section \<open>Start of a shot\<close>

definition armSmoothCut :: "ShotEnv \<Rightarrow> u16 \<Rightarrow> u32 \<Rightarrow> ShotSession \<Rightarrow> ShotSession" where
  "armSmoothCut env sensorLagMs stopLatencyMs s =
     (let c = ssConfig s in
      s\<lparr> ssCut := \<lparr> csParams = params0\<lparr> goalDg := uint (ccGoalWeightDg c), fastMarginDg := uint (ccFastMarginDg c),
             slowMarginDg := uint (ccSlowMarginDg c), fastOn := ccFastSideEnabled c, slowOn := ccSlowSideEnabled c,
             delayMs := toI32 (uint (ccBbwProtectionMs c)), fastBeforeMs := toI32 (uint (ccFastBeforeMs c)),
             slowAfterMs := toI32 (uint (ccSlowAfterMs c)), wallMs := toI32 (uint (ccOperationalWallMs c)) \<rparr>,
           csRate = rateEstimator0, csTauMs = tauMs sensorLagMs stopLatencyMs,
           csOffsetDg = gramsToDg env (ccWeightOffsetG c), csCrossingValid = False, csCrossingMs = 0, csStopMs = 0,
           csStopLineDg = 0, csHistory = arrivalStats0 \<rparr> \<rparr>)"

definition initializeBbwProtection :: "ShotSession \<Rightarrow> ShotSession" where
  "initializeBbwProtection s0 =
     (let s = emit FirstFlowReset (s0\<lparr> bbwProtectionEnabled := False, retareEnded := False, bbwProtectionEnded := False,
             flowDuringRetare := False, retareFlowFirstDetectedAtMs := 0, retarePerformed := False, retareAtMs := 0,
             retareDisabled := False, firstDropsBeepSent := False, firstDropObserved := False,
             retareEffectPending := False \<rparr>)
      in if \<not> startedWithScale s \<or> ccTimerOnly (ssConfig s) \<or> \<not> automaticEnabled s then
           s\<lparr> retareEnded := True, bbwProtectionEnded := True \<rparr>
         else
           let s1 = s\<lparr> bbwProtectionEnabled := True \<rparr> in
           if \<not> ccAutoRetare (ssConfig s1) then s1\<lparr> retareEnded := True \<rparr> else s1)"

section \<open>The first drops and a late cup\<close>

definition recordFirstDropTimestamp :: "u32 \<Rightarrow> ShotSession \<Rightarrow> ShotSession" where
  "recordFirstDropTimestamp receivedAtMs s = (if firstDropMs s = 0 then s\<lparr> firstDropMs := receivedAtMs \<rparr> else s)"

definition requestFirstDropBeep :: "ShotSession \<Rightarrow> ShotSession" where
  "requestFirstDropBeep s =
     (if \<not> firstDropsBeepSent s \<and> ccFirstDropBeep (ssConfig s)
      then emit FirstDropAlert (s\<lparr> firstDropsBeepSent := True \<rparr>) else s)"

definition notifyRetareFlowDetected :: "ShotEnv \<Rightarrow> u32 \<Rightarrow> ShotSession \<Rightarrow> ShotSession" where
  "notifyRetareFlowDetected env receivedAtMs s =
     (if \<not> retareWindowOpen env s then s
      else
        let s1 = (if retareFlowFirstDetectedAtMs s = 0 then
                    addDebug FIRST_DROP_DURING_RETARE (toI32 (uint (ssId s))) (toI32 (uint (feNow env - ssStartedAtMs s)))
                      (s\<lparr> retareFlowFirstDetectedAtMs := receivedAtMs \<rparr>)
                  else s)
        in s1\<lparr> flowDuringRetare := True \<rparr>)"

text \<open>The first drops at \<open>atMs\<close> also start a new epoch of the touch classifier.\<close>

definition onFirstDropsDetected :: "ShotEnv \<Rightarrow> u32 \<Rightarrow> grams \<Rightarrow> ShotSession \<Rightarrow> ShotSession" where
  "onFirstDropsDetected env atMs weight s0 =
     (let first = (\<not> firstDropObserved s0);
          s1 = recordFirstDropTimestamp atMs (s0\<lparr> firstDropObserved := True \<rparr>);
          s2 = (case shotTimeAtMs env atMs of None \<Rightarrow> s1
                | Some onset \<Rightarrow> s1\<lparr> ssCut := (ssCut s1)\<lparr> csRate := (csRate (ssCut s1))\<lparr> onsetMs := onset \<rparr> \<rparr> \<rparr>);
          epoch = s2\<lparr> accidentalTouchEpochS := max (accidentalTouchEpochS s2) (shotSeconds env atMs s2) \<rparr>;
          s3 = notifyRetareFlowDetected env atMs (requestFirstDropBeep (emit (CurveFirstDrop atMs weight) epoch))
      in if first then emit (FirstDropWebhook atMs weight) s3 else s3)"

definition performAutomaticRetare :: "ShotEnv \<Rightarrow> ShotSession \<Rightarrow> ShotSession" where
  "performAutomaticRetare env s =
     (if retarePerformed s \<or> retareDisabled s \<or> \<not> retareWindowOpen env s \<or> \<not> feRetareQueued env then s
      else markRetareEnded (emit TareAlert (s\<lparr> retarePerformed := True \<rparr>)))"

section \<open>Loss of the scale\<close>

definition latchAtmCurveFromSession :: "ShotEnv \<Rightarrow> ShotSession \<Rightarrow> ShotSession" where
  "latchAtmCurveFromSession env s =
     (if hasWeightAnchor s then emit (CurveAtm (feNow env) (lastAcceptedWeightG s)) s else s)"

definition lossInputs :: "ShotEnv \<Rightarrow> ShotSession \<Rightarrow> LossInputs" where
  "lossInputs env s =
     (let nowMs = orZero (shotTimeAtMs env (feNow env));
          lastSample = (if hasWeightAnchor s
                   then (case shotTimeAtMs env (lastAcceptedWeightAtMs s) of None \<Rightarrow> nowMs | Some t \<Rightarrow> t)
                   else nowMs)
      in \<lparr> liNowMs = nowMs, liLastSampleMs = lastSample, liFixedMs = ccScaleLossFixedMs (ssConfig s),
           liBeforeFirstDrops = (\<not> firstDropObserved s), liCrossingValid = csCrossingValid (ssCut s),
           liCrossingMs = csCrossingMs (ssCut s), liHistory = csHistory (ssCut s) \<rparr>)"

definition enforceScaleLossBackup :: "ShotEnv \<Rightarrow> ShotSession \<Rightarrow> ShotSession" where
  "enforceScaleLossBackup env s =
     (if \<not> autoToManualGuardArmed s \<or> autoToManualGuardEnforced s then s
      else
        let i = lossInputs env s; d = lossDeadline (csParams (ssCut s)) i;
            s1 = s\<lparr> scaleLossSource := ldSource d, scaleLossBlind := (\<not> csCrossingValid (ssCut s)),
                    autoToManualGuardDeadlineAtMs := feNow env + word_of_int (ldDeadlineMs d - liNowMs i),
                    autoToManualGuardEnforced := True \<rparr>
        in addDebug AUTO_TO_MANUAL_GUARD_ENFORCED (liNowMs i) (ldDeadlineMs d) (latchAtmCurveFromSession env s1))"

definition controlStateCode :: "WeightControlState \<Rightarrow> int" where
  "controlStateCode w = (case w of WC_INACTIVE \<Rightarrow> 0 | WC_VALIDATING \<Rightarrow> 1 | WC_ACTIVE \<Rightarrow> 2 | WC_SUSPENDED \<Rightarrow> 3 | WC_FAULT_STOPPED \<Rightarrow> 4)"

definition setWeightControlState :: "ShotEnv \<Rightarrow> WeightControlState \<Rightarrow> ShotSession \<Rightarrow> ShotSession" where
  "setWeightControlState env state s =
     (if weightControlState s = state then s\<lparr> automaticEnabled := (state = WC_ACTIVE) \<rparr>
      else
        let previous = weightControlState s;
            s1 = s\<lparr> weightControlState := state, touchStop := touchStop0, automaticEnabled := (state = WC_ACTIVE) \<rparr>
        in if state = WC_SUSPENDED then
             enforceScaleLossBackup env (addDebug SCALE_CONTROL_SUSPENDED (controlStateCode previous) 0
               (s1\<lparr> scaleWasLost := True \<rparr>))
           else if state = WC_ACTIVE \<and> (previous = WC_SUSPENDED \<or> previous = WC_VALIDATING) then
             let s2 = addDebug SCALE_CONTROL_RECOVERED 0 0 s1 in
             if autoToManualGuardEnforced s2 then
               addDebug AUTO_TO_MANUAL_GUARD_CLEARED 0 0
                 (emit (CurveAtmCleared (feNow env)) (s2\<lparr> autoToManualGuardEnforced := False \<rparr>))
             else s2
           else s1)"

definition resetAccidentalTouchState :: "ShotSession \<Rightarrow> ShotSession" where
  "resetAccidentalTouchState s = s\<lparr> touchStop := touchStop0, accidentalTouchPhase := TOUCH_STARTUP,
     accidentalTouchClass := TOUCH_OK, accidentalTouchHolding := False, accidentalTouchPendingG := [],
     accidentalTouchEpochS := 0 \<rparr>"

definition resetWeightTrend :: "ShotSession \<Rightarrow> ShotSession" where
  "resetWeightTrend s =
     (let s1 = (if ssActive s then emit CurveBreak s else s) in
      resetAccidentalTouchState (s1\<lparr> expectedEndMs := NO_CUT_PREDICTION_MS,
        ssCut := (ssCut s1)\<lparr> csRate := rateReset (csRate (ssCut s1)) \<rparr>, shotWeights := [] \<rparr>))"

definition suspendWeightControl :: "ShotEnv \<Rightarrow> ShotSession \<Rightarrow> ShotSession" where
  "suspendWeightControl env s =
     (if weightControlState s = WC_ACTIVE \<or> weightControlState s = WC_VALIDATING then
        resetWeightTrend ((setWeightControlState env WC_SUSPENDED s)\<lparr> recoveryConfirmations := 0,
          calibrationEligible := False \<rparr>)
      else s)"

definition armAutoToManualGuardForAutomaticBrew :: "ShotEnv \<Rightarrow> ShotSession \<Rightarrow> ShotSession" where
  "armAutoToManualGuardForAutomaticBrew env s =
     (if \<not> ccScaleLossEnabled (ssConfig s) \<or> ccTimerOnly (ssConfig s) \<or> \<not> startedWithScale s \<or>
         weightControlState s = WC_INACTIVE then s
      else
        let s1 = addDebug AUTO_TO_MANUAL_GUARD_ARMED (toI32 (uint (ccScaleLossFixedMs (ssConfig s)))) 0
                   (s\<lparr> autoToManualGuardArmed := True \<rparr>)
        in if weightControlState s1 = WC_SUSPENDED then enforceScaleLossBackup env s1 else s1)"

definition scaleLossBackupRemainingMs :: "ShotEnv \<Rightarrow> ShotSession \<Rightarrow> u32" where
  "scaleLossBackupRemainingMs env s =
     (let left = sint (autoToManualGuardDeadlineAtMs s - feNow env) in if left > 0 then word_of_int left else 0)"

definition autoToManualGuardDeadlineDue :: "ShotEnv \<Rightarrow> ShotSession \<Rightarrow> bool" where
  "autoToManualGuardDeadlineDue env s \<longleftrightarrow> ssActive s \<and> autoToManualGuardEnforced s \<and>
     deadlineReached (feNow env) (autoToManualGuardDeadlineAtMs s)"

end
