(* ===== verification/Touch_Classifier.thy ===== *)
theory Touch_Classifier
  imports Shot_Session
begin

text \<open>
  The classifier of accidental touches: the residual of a reading against the accepted trend
  and the class of that residual (\<open>src/OpenBrewByWeightScaleTypes.h\<close>), and the state machine
  of holds around them in \<open>src/OpenBrewByWeightBrew.h\<close>. The trend is the list of accepted
  points, each with its time; every float operation is rounded on its own.
\<close>

section \<open>The residual\<close>

definition ACCIDENTAL_TOUCH_REFERENCE_LAG_S :: rat where "ACCIDENTAL_TOUCH_REFERENCE_LAG_S = 1 / 2"
definition ACCIDENTAL_TOUCH_FLOW_WINDOW_S :: rat where "ACCIDENTAL_TOUCH_FLOW_WINDOW_S = 1"
definition ACCIDENTAL_TOUCH_MIN_FLOW_SPAN_S :: "ShotEnv \<Rightarrow> rat" where "ACCIDENTAL_TOUCH_MIN_FLOW_SPAN_S env = feRound env (1 / 5)"
definition ACCIDENTAL_TOUCH_RESIDUAL_G :: grams where "ACCIDENTAL_TOUCH_RESIDUAL_G = 3 / 2"
definition ACCIDENTAL_TOUCH_HOLD_RESIDUAL_G :: grams where "ACCIDENTAL_TOUCH_HOLD_RESIDUAL_G = 1"
definition ACCIDENTAL_TOUCH_MAX_HOLD_MS :: u32 where "ACCIDENTAL_TOUCH_MAX_HOLD_MS = 2500"
definition ACCIDENTAL_TOUCH_SUSTAINED_SPAN_G :: grams where "ACCIDENTAL_TOUCH_SUSTAINED_SPAN_G = 1"
definition ACCIDENTAL_TOUCH_SUSTAINED_MAX_DELTA_G :: grams where "ACCIDENTAL_TOUCH_SUSTAINED_MAX_DELTA_G = 5"
definition ACCIDENTAL_TOUCH_SUSTAINED_SAMPLES :: nat where "ACCIDENTAL_TOUCH_SUSTAINED_SAMPLES = 10"

text \<open>A loop that steps an index down to a bound while the entry before it qualifies.\<close>

fun stepDown :: "(nat \<Rightarrow> bool) \<Rightarrow> nat \<Rightarrow> nat \<Rightarrow> nat" where
  "stepDown P bound 0 = 0"
| "stepDown P bound (Suc n) = (if bound < Suc n \<and> P n then stepDown P bound n else Suc n)"

definition accidentalTouchResidual ::
  "ShotEnv \<Rightarrow> (rat \<times> grams) list \<Rightarrow> rat \<Rightarrow> grams \<Rightarrow> rat \<Rightarrow> grams \<Rightarrow> rat \<Rightarrow> bool \<times> grams" where
  "accidentalTouchResidual env points epochS anchorG anchorS weight nowS =
     (if points = [] then (False, 0)
      else
        let time = (\<lambda>i. fst (points ! i)); mass = (\<lambda>i. snd (points ! i)); newest = length points - 1;
            first = stepDown (\<lambda>i. time i \<ge> epochS) 0 newest;
            reference = List.find (\<lambda>i. time i \<le> feRound env (anchorS - ACCIDENTAL_TOUCH_REFERENCE_LAG_S))
                          (rev [first..<length points]);
            (end1, refG, refS) = (case reference of None \<Rightarrow> (newest, anchorG, anchorS) | Some i \<Rightarrow> (i, mass i, time i));
            lo = stepDown (\<lambda>i. time i \<ge> feRound env (time end1 - ACCIDENTAL_TOUCH_FLOW_WINDOW_S)) first end1;
            end2 = (if feRound env (time end1 - time lo) < ACCIDENTAL_TOUCH_MIN_FLOW_SPAN_S env then newest else end1);
            span = feRound env (time end2 - time lo);
            flow = (if span \<ge> ACCIDENTAL_TOUCH_MIN_FLOW_SPAN_S env
                    then max (feRound env (feRound env (mass end2 - mass lo) / span)) 0 else 0)
        in (reference \<noteq> None,
            feRound env (weight - feRound env (refG + feRound env (flow * feRound env (nowS - refS))))))"

definition classifyAccidentalTouch :: "ShotEnv \<Rightarrow> grams \<Rightarrow> bool \<Rightarrow> u32 \<Rightarrow> grams list \<Rightarrow> AccidentalTouchClass" where
  "classifyAccidentalTouch env residual holding heldMs pending =
     (if abs residual < (if holding then ACCIDENTAL_TOUCH_HOLD_RESIDUAL_G else ACCIDENTAL_TOUCH_RESIDUAL_G) then TOUCH_OK
      else if holding \<and> heldMs \<ge> ACCIDENTAL_TOUCH_MAX_HOLD_MS then SUSTAINED
      else
        let lo = fold (\<lambda>p m. min m p) pending residual; hi = fold (\<lambda>p m. max m p) pending residual in
        if length pending + 1 \<ge> ACCIDENTAL_TOUCH_SUSTAINED_SAMPLES \<and>
           feRound env (hi - lo) \<le> ACCIDENTAL_TOUCH_SUSTAINED_SPAN_G \<and>
           abs residual < ACCIDENTAL_TOUCH_SUSTAINED_MAX_DELTA_G
        then SUSTAINED else TOUCH)"

section \<open>Holds\<close>

definition touchStopPolicy :: "ShotEnv \<Rightarrow> u32 \<Rightarrow> ShotSession \<Rightarrow> EndReason \<times> grams" where
  "touchStopPolicy env atMs s =
     (let line = cutLineAtDg s (orZero (shotTimeAtMs env atMs)) in
      (cutReason (csParams (ssCut s)) line,
       feRound env (feRound env (of_int (line - csOffsetDg (ssCut s))) / 10)))"

definition noteAccidentalTouchClass :: "ShotEnv \<Rightarrow> AccidentalTouchClass \<Rightarrow> grams \<Rightarrow> grams \<Rightarrow> u32 \<Rightarrow> ShotSession \<Rightarrow> ShotSession" where
  "noteAccidentalTouchClass env classified weight residual atMs s =
     (let wasHolding = accidentalTouchHolding s; s0 = s\<lparr> accidentalTouchClass := classified \<rparr>;
          pending = accidentalTouchPendingG s0
      in if classified = TOUCH then
           let s1 = s0\<lparr> accidentalTouchHolding := True,
                        accidentalTouchPendingG := (if length pending < ACCIDENTAL_TOUCH_SUSTAINED_SAMPLES
                          then pending @ [residual] else tl pending @ [residual]) \<rparr>
           in if \<not> wasHolding then
                addDebug ACCIDENTAL_TOUCH_HOLD (weightToCentigrams env weight) 0 (s1\<lparr> accidentalTouchHeldSinceMs := atMs \<rparr>)
              else s1
         else
           let s1 = s0\<lparr> accidentalTouchHolding := False, accidentalTouchPendingG := [] \<rparr> in
           if classified = SUSTAINED then
             addDebug ACCIDENTAL_TOUCH_SUSTAINED (weightToCentigrams env weight) 0
               ((emit CurveBreak (s1\<lparr> accidentalTouchEpochS := shotSeconds env atMs s1 \<rparr>))\<lparr> calibrationEligible := False \<rparr>)
           else if wasHolding then addDebug ACCIDENTAL_TOUCH_RELEASE (weightToCentigrams env weight) 0 s1
           else s1)"

text \<open>The newest point is taken back out when it already leaned the way of the touch.\<close>

definition dropsEdge :: "ShotEnv \<Rightarrow> grams \<Rightarrow> rat \<Rightarrow> ShotSession \<Rightarrow> bool" where
  "dropsEdge env residual lastS s \<longleftrightarrow> shotWeights s \<noteq> [] \<and> fst (last (shotWeights s)) = lastS \<and>
     (let edge = snd (accidentalTouchResidual env (shotWeights s) (accidentalTouchEpochS s) (lastAcceptedWeightG s) lastS
                       (lastAcceptedWeightG s) lastS)
      in feRound env (edge * residual) > 0 \<and> abs edge \<ge> ACCIDENTAL_TOUCH_HOLD_RESIDUAL_G)"

definition evaluateAccidentalTouchSample :: "ShotEnv \<Rightarrow> grams \<Rightarrow> u32 \<Rightarrow> ShotSession \<Rightarrow> AccidentalTouchClass \<times> ShotSession" where
  "evaluateAccidentalTouchSample env weight receivedAtMs s =
     (let lastS = shotSeconds env (lastAcceptedWeightAtMs s) s;
          (frozen, residual) = accidentalTouchResidual env (if hasWeightAnchor s then shotWeights s else [])
            (accidentalTouchEpochS s) (lastAcceptedWeightG s) lastS weight (shotSeconds env receivedAtMs s);
          s1 = (if frozen \<and> accidentalTouchPhase s = TOUCH_STARTUP
                then addDebug ACCIDENTAL_TOUCH_HANDOFF (int (length (shotWeights s))) 0 s else s);
          s2 = s1\<lparr> accidentalTouchPhase := (if frozen then TOUCH_TREND else TOUCH_STARTUP) \<rparr>;
          class0 = classifyAccidentalTouch env residual (accidentalTouchHolding s2)
            (receivedAtMs - accidentalTouchHeldSinceMs s2) (accidentalTouchPendingG s2);
          class1 = (if class0 \<noteq> TOUCH \<and> ccTouchFallback (ssConfig s2) \<and>
                       (class0 = SUSTAINED \<or> accidentalTouchHolding s2) \<and>
                       weight \<ge> snd (touchStopPolicy env receivedAtMs s2)
                    then TOUCH else class0);
          s3 = (if class1 = TOUCH \<and> \<not> accidentalTouchHolding s2 \<and> dropsEdge env residual lastS s2
                then s2\<lparr> shotWeights := butlast (shotWeights s2) \<rparr> else s2)
      in (class1, noteAccidentalTouchClass env class1 weight residual receivedAtMs s3))"

end
