(* ===== verification/Start_Guards.thy ===== *)
theory Start_Guards
  imports Touch_Classifier
begin

text \<open>
  The guards that may refuse the start of a shot (\<open>src/OpenBrewByWeightBrew.h\<close>, from
  \<open>armNoScaleShotGuard\<close> to \<open>serviceCupStartGuard\<close>): no shot without a scale, the gesture of
  three quick presses that lifts that guard once, and no shot without a cup. The state is the
  group of globals of \<open>src/openBrewByWeight.cpp\<close>; calls into alerts, the buzzer, the machine
  and the history are recorded in \<open>guOut\<close> in the order they are made.
\<close>

section \<open>State\<close>

datatype CupPresenceState = CUP_ABSENT | CUP_PRESENT
datatype ControlSource = SOURCE_NONE | PHYSICAL | WEB

datatype HistoryKind = HISTORY_SHOT | HISTORY_RINSE | HISTORY_OTHER | HISTORY_POWER_ON | HISTORY_BACKFLUSH | HISTORY_GUARD_ABORTED

datatype CycleDebug =
    NO_SCALE_SHOT_GUARD_ARMED | NO_SCALE_SHOT_GUARD_CONSUMED | NO_SCALE_SHOT_GUARD_BLOCKED | CUP_START_GUARD_BLOCKED
  | RINSE_CLASSIFIED | TIMER_ONLY_BREW_STARTED | BREW_STARTED | MANUAL_CYCLE_STARTED | CYCLE_STARTED | CYCLE_ENDED
  | STATE_TRANSITION | HARD_LIMIT_SEEN | OPERATIONAL_LIMIT_SEEN | RELAY_OPENED_SEEN | MAINTENANCE_CANCELED | WEB_STOP_SEEN

datatype CycleAlert =
    ALERT_MANUAL_NO_SCALE | ALERT_SCALE_CONNECTED | ALERT_CUP_START_BLOCKED | ALERT_TARE_START | ALERT_START_TIMER
  | ALERT_STOP_TIMER | ALERT_COMPLETION | ALERT_ATM_END

datatype CycleEffect =
    Note CycleDebug int int
  | Alert CycleAlert
  | StopScaleCues
  | MachineStart u32 bool
  | MachineStop | MachineWebStop | MachineEndRinse | MachineBeginRinse u32 bool
  | MachineBeginCycle bool | MachineEndCycle
  | SettledOff bool
  | StartBackflush | FinishBackflush u32
  | ScaleTimerStart u32 | ScaleTimerStopAfter u32
  | CancelPendingFinalize | FinalizeShot EndReason u32
  | History HistoryKind u32 bool
  | LastShot EndReason u32
  | NtpSync

record GuardState =
  noScaleShotGuardArmed :: bool
  noScaleShotGuardActivityAtMs :: u32
  noScaleShotGuardScaleWasAvailable :: bool
  noScaleShotGuardHold :: bool
  noScaleShotGuardHoldAtMs :: u32
  noScaleGuardHistoryPending :: bool
  noScaleShotGuardNeedsFreshActivator :: bool
  noScaleRequireBypassReady :: bool
  noScaleRequireBypassHoldSeen :: bool
  noScaleRequireBypassCycles :: u8
  noScaleRequireBypassStartedAtMs :: u32
  noScaleRequireBypassCompletedThisLoop :: bool
  cupStartGuardHold :: bool
  cupStartGuardHoldAtMs :: u32
  guOut :: "CycleEffect list"

record GuardInputs =
  giHoldActive :: bool
  giPhysicalOn :: bool
  giStablyOff :: bool
  giScaleAvailable :: bool
  giScaleUsable :: bool
  giCup :: CupPresenceState
  giCurrentWeightG :: grams
  giBlockedHoldTimeoutMs :: u32

text \<open>The configuration the guards read; \<open>effectiveRuntimeConfig\<close> gives the last three.\<close>

record GuardEnv =
  gvShot :: ShotEnv
  gvNoScaleBbwMode :: u8
  gvManualNoScaleBeep :: bool
  gvLastShotCooldownMs :: u32
  gvTimerOnly :: bool
  gvCupProtectionEnabled :: bool
  gvRequireCupToStart :: bool

abbreviation "gvNow v \<equiv> feNow (gvShot v)"

definition tell :: "CycleEffect \<Rightarrow> 'a GuardState_scheme \<Rightarrow> 'a GuardState_scheme" where
  "tell e s = s\<lparr> guOut := guOut s @ [e] \<rparr>"

section \<open>The mode byte\<close>

definition NO_SCALE_ALLOW_RINSE_WHILE_ARMED :: u8 where "NO_SCALE_ALLOW_RINSE_WHILE_ARMED = 0x80"

definition noScaleBbwModeValue :: "u8 \<Rightarrow> u8" where "noScaleBbwModeValue stored = and stored 3"

definition noScaleAllowRinseWhileArmed :: "u8 \<Rightarrow> bool" where
  "noScaleAllowRinseWhileArmed stored \<longleftrightarrow> and stored NO_SCALE_ALLOW_RINSE_WHILE_ARMED \<noteq> 0"

definition noScaleBbwEnabled :: "u8 \<Rightarrow> bool" where "noScaleBbwEnabled stored \<longleftrightarrow> noScaleBbwModeValue stored \<noteq> 0"
definition noScaleBbwRequiresScale :: "u8 \<Rightarrow> bool" where "noScaleBbwRequiresScale stored \<longleftrightarrow> noScaleBbwModeValue stored = 2"

definition packNoScaleBbwMode :: "u8 \<Rightarrow> bool \<Rightarrow> u8" where
  "packNoScaleBbwMode mode allow = or (and mode 3) (if allow then NO_SCALE_ALLOW_RINSE_WHILE_ARMED else 0)"

definition validNoScaleBbwMode :: "u8 \<Rightarrow> bool" where
  "validNoScaleBbwMode stored \<longleftrightarrow> and stored (not 0xC3) = 0 \<and> noScaleBbwModeValue stored \<le> 2"

section \<open>The guard against shots without a scale\<close>

definition armNoScaleShotGuard :: "'a GuardState_scheme \<Rightarrow> 'a GuardState_scheme" where
  "armNoScaleShotGuard s =
     (if noScaleShotGuardArmed s then s
      else tell (Note NO_SCALE_SHOT_GUARD_ARMED 0 0) (s\<lparr> noScaleShotGuardArmed := True \<rparr>))"

definition consumeNoScaleShotGuard :: "GuardEnv \<Rightarrow> 'a GuardState_scheme \<Rightarrow> 'a GuardState_scheme" where
  "consumeNoScaleShotGuard v s =
     (if noScaleBbwRequiresScale (gvNoScaleBbwMode v) then s\<lparr> noScaleShotGuardArmed := True \<rparr>
      else tell (Note NO_SCALE_SHOT_GUARD_CONSUMED 0 0)
             (s\<lparr> noScaleShotGuardArmed := False, noScaleShotGuardActivityAtMs := gvNow v \<rparr>))"

definition noScaleShotGuardWouldBlock :: "GuardEnv \<Rightarrow> GuardInputs \<Rightarrow> 'a GuardState_scheme \<Rightarrow> bool" where
  "noScaleShotGuardWouldBlock v i s \<longleftrightarrow>
     noScaleBbwEnabled (gvNoScaleBbwMode v) \<and> \<not> giScaleUsable i \<and> noScaleShotGuardArmed s \<and> \<not> gvTimerOnly v"

definition maybeEmitManualNoScaleBeep :: "GuardEnv \<Rightarrow> GuardInputs \<Rightarrow> 'a GuardState_scheme \<Rightarrow> 'a GuardState_scheme" where
  "maybeEmitManualNoScaleBeep v i s =
     (if \<not> gvManualNoScaleBeep v \<or> giScaleUsable i \<or> gvTimerOnly v then s else tell (Alert ALERT_MANUAL_NO_SCALE) s)"

definition blockNoScaleShotGuard :: "GuardEnv \<Rightarrow> 'a GuardState_scheme \<Rightarrow> 'a GuardState_scheme" where
  "blockNoScaleShotGuard v s =
     (let s1 = s\<lparr> noScaleShotGuardHold := False \<rparr>;
          s2 = (if \<not> noScaleBbwRequiresScale (gvNoScaleBbwMode v) then consumeNoScaleShotGuard v s1 else s1)
      in tell (Note NO_SCALE_SHOT_GUARD_BLOCKED 0 0) s2)"

section \<open>The gesture that lifts it\<close>

definition NO_SCALE_REQUIRE_BYPASS_CYCLES :: u8 where "NO_SCALE_REQUIRE_BYPASS_CYCLES = 3"
definition NO_SCALE_REQUIRE_BYPASS_WINDOW_MS :: u32 where "NO_SCALE_REQUIRE_BYPASS_WINDOW_MS = 2000"

definition resetNoScaleRequireBypassGesture :: "'a GuardState_scheme \<Rightarrow> 'a GuardState_scheme" where
  "resetNoScaleRequireBypassGesture s = s\<lparr> noScaleRequireBypassReady := False, noScaleRequireBypassHoldSeen := False,
     noScaleRequireBypassCycles := 0, noScaleRequireBypassStartedAtMs := 0 \<rparr>"

definition temporarilyAllowNoScaleRequireMode :: "GuardEnv \<Rightarrow> 'a GuardState_scheme \<Rightarrow> 'a GuardState_scheme" where
  "temporarilyAllowNoScaleRequireMode v s =
     resetNoScaleRequireBypassGesture (tell (Note NO_SCALE_SHOT_GUARD_CONSUMED 0 0)
       (tell (Alert ALERT_SCALE_CONNECTED) (tell StopScaleCues
         (s\<lparr> noScaleShotGuardArmed := False, noScaleShotGuardActivityAtMs := gvNow v, noScaleShotGuardHold := False,
             noScaleShotGuardNeedsFreshActivator := True, noScaleRequireBypassCompletedThisLoop := True \<rparr>))))"

definition bypassEligible :: "GuardEnv \<Rightarrow> GuardInputs \<Rightarrow> bool \<Rightarrow> 'a GuardState_scheme \<Rightarrow> bool" where
  "bypassEligible v i active s \<longleftrightarrow> noScaleBbwRequiresScale (gvNoScaleBbwMode v) \<and> \<not> giScaleUsable i \<and> \<not> active \<and>
     noScaleShotGuardArmed s \<and> \<not> gvTimerOnly v"

definition bypassPressed :: "GuardEnv \<Rightarrow> 'a GuardState_scheme \<Rightarrow> 'a GuardState_scheme" where
  "bypassPressed v s =
     (if noScaleRequireBypassHoldSeen s then s
      else
        let s1 = (if noScaleRequireBypassCycles s = 0 \<or>
                     gvNow v - noScaleRequireBypassStartedAtMs s > NO_SCALE_REQUIRE_BYPASS_WINDOW_MS
                  then s\<lparr> noScaleRequireBypassCycles := 0, noScaleRequireBypassStartedAtMs := gvNow v \<rparr> else s)
        in s1\<lparr> noScaleRequireBypassHoldSeen := True \<rparr>)"

definition bypassReleased :: "GuardEnv \<Rightarrow> 'a GuardState_scheme \<Rightarrow> 'a GuardState_scheme" where
  "bypassReleased v s =
     (let s1 = s\<lparr> noScaleRequireBypassHoldSeen := False \<rparr> in
      if gvNow v - noScaleRequireBypassStartedAtMs s1 > NO_SCALE_REQUIRE_BYPASS_WINDOW_MS
      then s1\<lparr> noScaleRequireBypassCycles := 0, noScaleRequireBypassStartedAtMs := 0 \<rparr>
      else
        let s2 = s1\<lparr> noScaleRequireBypassCycles := noScaleRequireBypassCycles s1 + 1 \<rparr> in
        if noScaleRequireBypassCycles s2 \<ge> NO_SCALE_REQUIRE_BYPASS_CYCLES
        then temporarilyAllowNoScaleRequireMode v s2 else s2)"

definition serviceNoScaleRequireBypassGesture ::
  "GuardEnv \<Rightarrow> GuardInputs \<Rightarrow> bool \<Rightarrow> 'a GuardState_scheme \<Rightarrow> 'a GuardState_scheme" where
  "serviceNoScaleRequireBypassGesture v i active s =
     (if \<not> bypassEligible v i active s then resetNoScaleRequireBypassGesture s
      else if \<not> noScaleRequireBypassReady s then
        (if giStablyOff i then s\<lparr> noScaleRequireBypassReady := True \<rparr> else s)
      else if giPhysicalOn i then bypassPressed v s
      else if \<not> noScaleRequireBypassHoldSeen s \<or> \<not> giStablyOff i then s
      else bypassReleased v s)"

section \<open>The services of the loop\<close>

text \<open>The part of \<open>serviceNoScaleShotGuard\<close> before the gesture.\<close>

definition serviceNoScaleHold :: "GuardEnv \<Rightarrow> GuardInputs \<Rightarrow> bool \<Rightarrow> 'a GuardState_scheme \<Rightarrow> 'a GuardState_scheme" where
  "serviceNoScaleHold v i active s0 =
     (let s1 = (if giScaleAvailable i \<and> \<not> noScaleShotGuardScaleWasAvailable s0 then armNoScaleShotGuard s0 else s0);
          s2 = s1\<lparr> noScaleShotGuardScaleWasAvailable := giScaleAvailable i \<rparr>;
          s3 = (if \<not> noScaleShotGuardHold s2 then s2
                else if \<not> giHoldActive i then s2\<lparr> noScaleShotGuardHold := False \<rparr>
                else if noScaleShotGuardWouldBlock v i s2 \<and>
                        gvNow v - noScaleShotGuardHoldAtMs s2 > giBlockedHoldTimeoutMs i \<and>
                        \<not> noScaleBbwRequiresScale (gvNoScaleBbwMode v)
                then blockNoScaleShotGuard v s2 else s2)
      in if \<not> noScaleShotGuardArmed s3 \<and> \<not> active \<and> noScaleShotGuardActivityAtMs s3 \<noteq> 0 \<and>
            gvNow v - noScaleShotGuardActivityAtMs s3 \<ge> gvLastShotCooldownMs v
         then armNoScaleShotGuard s3 else s3)"

definition serviceNoScaleShotGuard :: "GuardEnv \<Rightarrow> GuardInputs \<Rightarrow> bool \<Rightarrow> 'a GuardState_scheme \<Rightarrow> 'a GuardState_scheme" where
  "serviceNoScaleShotGuard v i active s = serviceNoScaleRequireBypassGesture v i active (serviceNoScaleHold v i active s)"

definition cupStartGuardWouldBlock :: "GuardEnv \<Rightarrow> GuardInputs \<Rightarrow> bool" where
  "cupStartGuardWouldBlock v i \<longleftrightarrow> giScaleUsable i \<and> giCup i \<noteq> CUP_PRESENT \<and>
     gvCupProtectionEnabled v \<and> gvRequireCupToStart v \<and> \<not> gvTimerOnly v"

definition guardsWouldBlockActivatorDrive :: "GuardEnv \<Rightarrow> GuardInputs \<Rightarrow> 'a GuardState_scheme \<Rightarrow> bool" where
  "guardsWouldBlockActivatorDrive v i s \<longleftrightarrow>
     noScaleShotGuardHold s \<or> noScaleShotGuardWouldBlock v i s \<or> cupStartGuardWouldBlock v i"

definition cupStartBlocked :: "GuardEnv \<Rightarrow> grams \<Rightarrow> 'a GuardState_scheme \<Rightarrow> 'a GuardState_scheme" where
  "cupStartBlocked v w s = tell (Alert ALERT_CUP_START_BLOCKED)
     (tell (Note CUP_START_GUARD_BLOCKED (weightToCentigrams (gvShot v) w) 0) (s\<lparr> cupStartGuardHold := False \<rparr>))"

definition serviceCupStartGuard :: "GuardEnv \<Rightarrow> GuardInputs \<Rightarrow> 'a GuardState_scheme \<Rightarrow> 'a GuardState_scheme" where
  "serviceCupStartGuard v i s =
     (if \<not> cupStartGuardHold s then s
      else if \<not> gvCupProtectionEnabled v \<or> \<not> gvRequireCupToStart v \<or> gvTimerOnly v then s\<lparr> cupStartGuardHold := False \<rparr>
      else if giScaleUsable i \<and> giCup i = CUP_PRESENT then s\<lparr> cupStartGuardHold := False \<rparr>
      else if giHoldActive i \<and> gvNow v - cupStartGuardHoldAtMs s > giBlockedHoldTimeoutMs i
      then cupStartBlocked v (giCurrentWeightG i) s
      else s)"

end
