(* ===== verification/Brew_Stop.thy ===== *)
theory Brew_Stop
  imports Touch_Classifier
begin

text \<open>
  The weight stop of a shot: the handler of a weight sample while a brew is tracked
  (\<open>recordWeightSampleWithProvenance\<close> in \<open>src/control/OpenBrewByWeightCycleRuntime.inc\<close>), the
  laws it feeds in \<open>src/OpenBrewByWeightBrew.h\<close> (two samples at the cut line, the predicted
  stop time, the touch fallback) and the brew state of the control loop in
  \<open>src/control/OpenBrewByWeightControlStateMachine.inc\<close> that ends the shot.
\<close>

section \<open>The predicted stop time\<close>

text \<open>The forecast's input: the drop time from the circuit's close, and the sample interval up to 2 s.\<close>

definition predictorInputs :: "ShotEnv \<Rightarrow> int \<Rightarrow> int \<Rightarrow> ShotSession \<Rightarrow> PredictorInputs" where
  "predictorInputs env shotMs weightDg s =
     (let lastMs = spLastSampleMs (ssPredictor s);
          dt = (if lastMs \<noteq> 0 \<and> feNow env > lastMs then toI32 (uint (feNow env - lastMs)) else 100)
      in \<lparr> inCut = ssCut s, inNowMs = shotMs, inWeightDg = weightDg,
           inFirstDropMs = (if firstDropMs s > circuitClosedAtMs s \<and> circuitClosedAtMs s \<noteq> 0
                            then toI32 (uint (firstDropMs s - circuitClosedAtMs s)) else 0),
           inQPX100 = predictorQpX100 s,
           inAutoMode = (automaticEnabled s \<and> startedWithScale s \<and> \<not> ccTimerOnly (ssConfig s)),
           inScaleOk = True, inRetarePending = retareEffectPending s,
           inSampleDtMs = (if dt > 2000 then 2000 else dt) \<rparr>)"

text \<open>An accepted sample with a valid rate: channeling lowers the line for good, then the crossing.\<close>

definition predictFrom :: "ShotEnv \<Rightarrow> int \<Rightarrow> int \<Rightarrow> ShotSession \<Rightarrow> ShotSession" where
  "predictFrom env shotMs weightDg s0 =
     (let cut0 = ssCut s0;
          s1 = (if channeling (csRate cut0) \<and> fastOn (csParams cut0) then
                  addDebug CHANNELING_DETECTED (rawX100 (csRate cut0)) shotMs
                    (s0\<lparr> ssCut := cut0\<lparr> csParams := (csParams cut0)\<lparr> fastOn := False \<rparr> \<rparr> \<rparr>)
                else s0);
          cut = ssCut s1;
          s2 = (case crossingMs (csParams cut) shotMs weightDg (reRateX100 (csRate cut)) (csTauMs cut) (csOffsetDg cut) of
                  None \<Rightarrow> s1\<lparr> ssCut := cut\<lparr> csCrossingValid := False \<rparr> \<rparr>
                | Some t \<Rightarrow> s1\<lparr> ssCut := cut\<lparr> csCrossingValid := True, csCrossingMs := t \<rparr>,
                               expectedEndMs := (if t < wallMs (csParams cut) then t else expectedEndMs s1) \<rparr>)
      in s2\<lparr> ssPredictor := updateShotPredictor (predictorInputs env shotMs weightDg s2)
                              ((ssPredictor s2)\<lparr> spLastSampleMs := feNow env \<rparr>) \<rparr>)"

definition updateCutPrediction :: "ShotEnv \<Rightarrow> grams \<Rightarrow> u32 \<Rightarrow> ShotSession \<Rightarrow> ShotSession" where
  "updateCutPrediction env weight receivedAtMs s0 =
     (let s = s0\<lparr> expectedEndMs := NO_CUT_PREDICTION_MS, ssCut := (ssCut s0)\<lparr> csCrossingValid := False \<rparr> \<rparr>;
          weightDg = gramsToDg env weight
      in case shotTimeAtMs env receivedAtMs of
           None \<Rightarrow> s
         | Some shotMs \<Rightarrow>
             (case ratePush shotMs weightDg (csRate (ssCut s)) of (result, rate) \<Rightarrow>
                let s1 = s\<lparr> ssCut := (ssCut s)\<lparr> csRate := rate \<rparr> \<rparr> in
                if result \<noteq> RATE_ACCEPTED \<or> \<not> reValid rate then s1 else predictFrom env shotMs weightDg s1))"

definition acceptWeightIntoTrajectory :: "ShotEnv \<Rightarrow> grams \<Rightarrow> u32 \<Rightarrow> u32 \<Rightarrow> ShotSession \<Rightarrow> bool \<times> ShotSession" where
  "acceptWeightIntoTrajectory env weight receivedAtMs packetSequence s =
     (if shotWeights s \<noteq> [] \<and> receivedAtMs = lastAcceptedWeightAtMs s then
        (True, s\<lparr> receivedFreshWeightInCycle := True, lastAcceptedWeightG := weight,
                  lastAcceptedPacketSequence := packetSequence \<rparr>)
      else
        let kept = (if length (shotWeights s) < MAX_SHOT_DATAPOINTS then shotWeights s else tl (shotWeights s));
            timeS = feRound env (feRound env (of_int (uint (receivedAtMs - shotStartMs s))) / 1000);
            s1 = emit (CurveAccept weight receivedAtMs False) (s\<lparr> shotWeights := kept @ [(timeS, weight)] \<rparr>);
            s2 = s1\<lparr> receivedFreshWeightInCycle := True, hasWeightAnchor := True, lastAcceptedWeightAtMs := receivedAtMs,
                     lastAcceptedWeightG := weight, lastAcceptedPacketSequence := packetSequence \<rparr>
        in (True, updateCutPrediction env weight receivedAtMs s2))"

section \<open>The touch fallback\<close>

definition considerTouchStopSample ::
  "ShotEnv \<Rightarrow> grams \<Rightarrow> u32 \<Rightarrow> u32 \<Rightarrow> u32 \<Rightarrow> TouchStopEvidence \<Rightarrow> ShotSession \<Rightarrow> ShotSession" where
  "considerTouchStopSample env weight atMs sequence generation previous s =
     (if \<not> accidentalTouchSessionActive s \<or> \<not> ccTouchFallback (ssConfig s) \<or> bbwWeightStopInhibited s \<or>
         awaitingPostTareBaseline s \<or> \<not> feAutomationStop env \<or> sequence = 0 \<or> generation = 0 \<or>
         generation \<noteq> ownedConnectionGeneration s \<or> \<not> deadlineReached (feNow env) atMs \<or>
         feNow env - atMs > MAX_AUTOMATION_WEIGHT_AGE_MS then s
      else
        case touchStopPolicy env atMs s of (policy, threshold) \<Rightarrow>
          if weight < threshold then s
          else
            let gap = atMs - teLastAtMs previous;
                sampled = (teSamples previous \<noteq> 0);
                same = (sampled \<and> generation = teConnectionGeneration previous)
            in if same \<and> (sint gap \<le> 0 \<or> sint (sequence - tePacketSequence previous) \<le> 0) then s
               else
                 let continuous = (same \<and> tePolicy previous = policy \<and> sequence = tePacketSequence previous + 1 \<and>
                                   sint gap > 0 \<and> gap \<le> DIRECT_STOP_CONFIRMATION_WINDOW_MS)
                 in s\<lparr> touchStop := \<lparr> teFirstAtMs = (if continuous then teFirstAtMs previous else atMs),
                         teLastAtMs = atMs, tePacketSequence = sequence, teConnectionGeneration = generation,
                         teThresholdG = threshold, teWeightG = weight, tePolicy = policy,
                         teSamples = (if continuous then (if teSamples previous < 3 then teSamples previous + 1 else 3) else 1) \<rparr> \<rparr>)"

section \<open>Two samples at the cut line\<close>

definition noteCutLineSegment :: "ShotEnv \<Rightarrow> int \<Rightarrow> int \<Rightarrow> u32 \<Rightarrow> ShotSession \<Rightarrow> ShotSession" where
  "noteCutLineSegment env weightDg shotMs atMs s =
     (let p = csParams (ssCut s); line = cutLineAtDg s shotMs; reached = (weightDg \<ge> goalDg p - csOffsetDg (ssCut s));
          latched = emit (CurveExtended atMs (feRound env (feRound env (of_int weightDg) / 10)))
      in if \<not> extractionExtended s \<and> reached \<and> line > goalDg p then
           let s1 = addDebug FAST_EXTRACTION_ENTERED (weightDg * 10) shotMs
                      (latched (s\<lparr> extractionExtended := True, targetReachedEarly := True, targetReachedAtMs := atMs \<rparr>))
           in if feExtendedPulse env then emit ExtendedPulseAlert s1 else s1
         else if \<not> extractionExtended s \<and> \<not> slowExtractionExtended s \<and> \<not> reached \<and> line < goalDg p then
           let s1 = addDebug SLOW_EXTRACTION_ENTERED (weightDg * 10) shotMs (latched (s\<lparr> slowExtractionExtended := True \<rparr>))
           in if feSlowExtendedPulse env then emit ExtendedPulseAlert s1 else s1
         else s)"

definition overThreshold :: "ShotEnv \<Rightarrow> grams \<Rightarrow> u32 \<Rightarrow> ShotSession \<Rightarrow> bool" where
  "overThreshold env weight receivedAtMs s \<longleftrightarrow>
     (case shotTimeAtMs env receivedAtMs of
        None \<Rightarrow> False
      | Some shotMs \<Rightarrow> gramsToDg env weight \<ge> cutLineAtDg s shotMs - csOffsetDg (ssCut s))"

text \<open>Counting one sample that is over, and what the second in a row decides.\<close>

definition confirmSample :: "u32 \<Rightarrow> u32 \<Rightarrow> u32 \<Rightarrow> ShotSession \<Rightarrow> ShotSession" where
  "confirmSample receivedAtMs packetSequence connectionGeneration s =
     (let consecutive = (thresholdConfirmations s > 0 \<and> connectionGeneration = lastThresholdConnectionGeneration s \<and>
            packetSequence = lastThresholdPacketSequence s + 1 \<and> sint (receivedAtMs - lastThresholdAtMs s) > 0 \<and>
            receivedAtMs - lastThresholdAtMs s \<le> DIRECT_STOP_CONFIRMATION_WINDOW_MS)
      in s\<lparr> thresholdConfirmations := (if consecutive then thresholdConfirmations s + 1 else 1),
            lastThresholdAtMs := receivedAtMs, lastThresholdPacketSequence := packetSequence,
            lastThresholdConnectionGeneration := connectionGeneration \<rparr>)"

definition decideDirectStop :: "ShotEnv \<Rightarrow> grams \<Rightarrow> bool \<Rightarrow> ShotSession \<Rightarrow> ShotSession" where
  "decideDirectStop env weight overload s =
     (if thresholdConfirmations s < DIRECT_STOP_CONFIRMATION_SAMPLES then s
      else if overload then
        addDebug SCALE_OVERLOAD_CONFIRMED (truncToInt weight) 0
          (setWeightControlState env WC_FAULT_STOPPED
            (s\<lparr> directStopPending := True, directStopReason := WEIGHT_ANOMALY, weightStreamState := STREAM_OVERLOAD,
                calibrationEligible := False \<rparr>))
      else
        case weightCutReasonNow env (s\<lparr> directStopPending := True \<rparr>) of (reason, s1) \<Rightarrow>
          addDebug SCALE_THRESHOLD_CONFIRMED (gramsToDg env weight * 10) 1 (s1\<lparr> directStopReason := reason \<rparr>))"

definition considerDirectStopSample :: "ShotEnv \<Rightarrow> grams \<Rightarrow> u32 \<Rightarrow> u32 \<Rightarrow> u32 \<Rightarrow> ShotSession \<Rightarrow> ShotSession" where
  "considerDirectStopSample env weight receivedAtMs packetSequence connectionGeneration s =
     (let overload = (abs weight > MAX_AUTOMATION_WEIGHT_G);
          active = (weightControlState s = WC_ACTIVE); validating = (weightControlState s = WC_VALIDATING)
      in if \<not> shouldTrackWeight s \<or> packetSequence = 0 \<or> bbwWeightStopInhibited s then s
         else if \<not> overload \<and> \<not> active then s
         else if overload \<and> \<not> active \<and> \<not> validating then s
         else
           let s1 = (case shotTimeAtMs env receivedAtMs of
                       Some shotMs \<Rightarrow> if overload then s else noteCutLineSegment env (gramsToDg env weight) shotMs receivedAtMs s
                     | None \<Rightarrow> s)
           in if \<not> overThreshold env weight receivedAtMs s1 \<and> \<not> overload then resetDirectStopConfirmation s1
              else decideDirectStop env weight overload (confirmSample receivedAtMs packetSequence connectionGeneration s1))"

section \<open>A weight sample of a tracked brew\<close>

text \<open>
  The handler from the point where the shot is known to be tracked. A rejected sample breaks
  the curve and is reported.
\<close>

definition rejectScaleSample :: "ShotEnv \<Rightarrow> ShotDebug \<Rightarrow> grams \<Rightarrow> grams \<Rightarrow> ShotSession \<Rightarrow> ShotSession" where
  "rejectScaleSample env code weight reference s =
     addDebug code (weightToCentigrams env weight) (weightToCentigrams env reference) (emit CurveBreak s)"

definition markTareZeroReady :: "ShotSession \<Rightarrow> ShotSession" where
  "markTareZeroReady s = emit FirstFlowReset (s\<lparr> scaleBaselineG := 0, scaleBaselineReady := True \<rparr>)"

definition expirePostTareBaselineIfNeeded :: "ShotEnv \<Rightarrow> ShotSession \<Rightarrow> bool \<times> ShotSession" where
  "expirePostTareBaselineIfNeeded env s =
     (if \<not> awaitingPostTareBaseline s \<or> \<not> deadlineReached (feNow env) (postTareBaselineDeadlineMs s) then (False, s)
      else (True, addDebug SCALE_POST_TARE_BASELINE_TIMEOUT (toI32 (uint (ssId s)))
                    (toI32 (uint (ccPostTareBaselineGraceMs (ssConfig s))))
                    (s\<lparr> awaitingPostTareBaseline := False, retareEffectPending := False \<rparr>)))"

definition expirePostTareBaseline :: "ShotEnv \<Rightarrow> ShotSession \<Rightarrow> ShotSession" where
  "expirePostTareBaseline env s0 =
     (let minCupG = feMinimumCupWeightG env;
          software = (\<not> retarePerformed s0 \<and>
            (case (preTareWeightG s0, feObservedWeight env) of
               (Some zero, Some observed) \<Rightarrow> zero \<ge> minCupG \<and> observed \<ge> feRound env (zero - feRound env (minCupG / 2))
             | _ \<Rightarrow> False))
      in case expirePostTareBaselineIfNeeded env s0 of (expired, s1) \<Rightarrow>
         if \<not> expired then s1
         else
           let s2 = emit (HoldCupTransitions False) s1 in
           case (software, preTareWeightG s2) of
             (True, Some zero) \<Rightarrow>
               emit (RestoreCupReference zero) (markTareZeroReady (s2\<lparr> softwareZeroG := zero \<rparr>))
           | _ \<Rightarrow> s2)"

definition postTareBaselinePlausible :: "ShotEnv \<Rightarrow> grams \<Rightarrow> ShotSession \<Rightarrow> bool" where
  "postTareBaselinePlausible env weight s \<longleftrightarrow> abs weight \<le> POST_TARE_BASELINE_MAX_ABS_G \<and>
     \<not> (case preTareWeightG s of
          None \<Rightarrow> False
        | Some zero \<Rightarrow> zero \<ge> feMinimumCupWeightG env \<and>
            weight > feRound env (zero - feRound env (feMinimumCupWeightG env / 2)))"

text \<open>The largest change the flow can explain in the given time.\<close>

definition slewAllowance :: "ShotEnv \<Rightarrow> u32 \<Rightarrow> grams" where
  "slewAllowance env deltaMs =
     feRound env (AUTOMATION_WEIGHT_SLEW_ALLOWANCE_G +
       feRound env (feRound env (MAX_AUTOMATION_WEIGHT_SLEW_G_PER_S * feRound env (of_int (uint deltaMs))) / 1000))"

definition plausibleSample :: "ShotEnv \<Rightarrow> grams \<Rightarrow> u32 \<Rightarrow> ShotSession \<Rightarrow> bool" where
  "plausibleSample env weight receivedAtMs s \<longleftrightarrow> \<not> hasWeightAnchor s \<or>
     (0 \<le> sint (receivedAtMs - lastAcceptedWeightAtMs s) \<and>
      (let delta = receivedAtMs - lastAcceptedWeightAtMs s; deltaMs = (if delta = 0 then 1 else delta) in
       abs (feRound env (weight - lastAcceptedWeightG s)) \<le> slewAllowance env deltaMs))"

definition recoveryPlausible :: "ShotEnv \<Rightarrow> grams \<Rightarrow> u32 \<Rightarrow> u32 \<Rightarrow> bool \<Rightarrow> ShotSession \<Rightarrow> bool" where
  "recoveryPlausible env weight receivedAtMs packetSequence plausible s =
     (let dropFloor = (weightControlState s = WC_SUSPENDED) in
      if recoveryConfirmations s > 0 then
        let signedDelta = receivedAtMs - recoveryLastAtMs s in
        packetSequence = recoveryLastPacketSequence s + 1 \<and> sint signedDelta > 0 \<and>
        signedDelta \<le> MAX_AUTOMATION_WEIGHT_AGE_MS \<and>
        (let change = feRound env (weight - recoveryLastWeightG s) in
         (\<not> dropFloor \<or> change \<ge> - MAX_RECOVERY_WEIGHT_DROP_G) \<and> change \<le> slewAllowance env signedDelta)
      else if dropFloor \<and> hasWeightAnchor s then
        plausible \<and> weight \<ge> feRound env (lastAcceptedWeightG s - MAX_RECOVERY_WEIGHT_DROP_G)
      else plausible)"

definition resetRecovery :: "ShotSession \<Rightarrow> ShotSession" where
  "resetRecovery s = s\<lparr> recoveryConfirmations := 0, recoveryLastAtMs := 0, recoveryLastPacketSequence := 0 \<rparr>"

text \<open>The third coherent sample takes the stream back; a plain stream gap starts a new trend.\<close>

definition resumeControl :: "ShotEnv \<Rightarrow> grams \<Rightarrow> u32 \<Rightarrow> u32 \<Rightarrow> u32 \<Rightarrow> ShotSession \<Rightarrow> ShotSession" where
  "resumeControl env weight receivedAtMs packetSequence connectionGeneration s =
     (let dropFloor = (weightControlState s = WC_SUSPENDED);
          s1 = s\<lparr> ownedConnectionGeneration := connectionGeneration,
                  scaleDisconnectSequenceAtStart := feDisconnectSequence env, recoveryConfirmations := 0 \<rparr>;
          s2 = (if dropFloor \<or> \<not> hasWeightAnchor s1 \<or> \<not> ccTouchProtection (ssConfig s1) then
                  (resetWeightTrend s1)\<lparr> hasWeightAnchor := True, lastAcceptedWeightG := weight,
                    lastAcceptedWeightAtMs := receivedAtMs, lastAcceptedPacketSequence := packetSequence \<rparr>
                else s1)
      in setWeightControlState env WC_ACTIVE s2)"

text \<open>The last part: the classifier, then the direct law and the trajectory.\<close>

definition judgeSample ::
  "ShotEnv \<Rightarrow> grams \<Rightarrow> u32 \<Rightarrow> u32 \<Rightarrow> u32 \<Rightarrow> bool \<Rightarrow> TouchStopEvidence \<Rightarrow> ShotSession \<Rightarrow> bool \<times> ShotSession" where
  "judgeSample env weight receivedAtMs packetSequence connectionGeneration provenance previous s =
     (let watched = accidentalTouchSessionActive s;
          (classified, s1) = (if watched then evaluateAccidentalTouchSample env weight receivedAtMs s else (TOUCH_OK, s))
      in if watched \<and> classified = TOUCH then
           let s2 = resetDirectStopConfirmation (emit (CurveAccept weight receivedAtMs True) s1);
               s3 = (if provenance then considerTouchStopSample env weight receivedAtMs packetSequence
                                          connectionGeneration previous s2 else s2)
           in (True, s3\<lparr> weightStreamState := STREAM_FRESH \<rparr>)
         else
           acceptWeightIntoTrajectory env weight receivedAtMs packetSequence
             ((considerDirectStopSample env weight receivedAtMs packetSequence connectionGeneration s1)
                \<lparr> weightStreamState := STREAM_FRESH \<rparr>))"

definition recoverSample ::
  "ShotEnv \<Rightarrow> grams \<Rightarrow> u32 \<Rightarrow> u32 \<Rightarrow> u32 \<Rightarrow> bool \<Rightarrow> TouchStopEvidence \<Rightarrow> bool \<Rightarrow> ShotSession \<Rightarrow> bool \<times> ShotSession" where
  "recoverSample env weight receivedAtMs packetSequence connectionGeneration provenance previous plausible s =
     (if weightControlState s = WC_VALIDATING \<or> weightControlState s = WC_SUSPENDED then
        if \<not> recoveryPlausible env weight receivedAtMs packetSequence plausible s then
          (False, rejectScaleSample env SCALE_SAMPLE_REJECTED_RECOVERY weight
                    (if recoveryConfirmations s > 0 then recoveryLastWeightG s else lastAcceptedWeightG s) (resetRecovery s))
        else
          let s1 = s\<lparr> recoveryConfirmations := recoveryConfirmations s + 1, recoveryLastAtMs := receivedAtMs,
                      recoveryLastPacketSequence := packetSequence, recoveryLastWeightG := weight \<rparr>
          in if recoveryConfirmations s1 < WEIGHT_RECOVERY_CONFIRMATION_SAMPLES then (False, emit CurveBreak s1)
             else judgeSample env weight receivedAtMs packetSequence connectionGeneration provenance previous
                    (resumeControl env weight receivedAtMs packetSequence connectionGeneration s1)
      else judgeSample env weight receivedAtMs packetSequence connectionGeneration provenance previous s)"

definition outOfRangeSample :: "ShotEnv \<Rightarrow> grams \<Rightarrow> u32 \<Rightarrow> u32 \<Rightarrow> u32 \<Rightarrow> ShotSession \<Rightarrow> ShotSession" where
  "outOfRangeSample env weight receivedAtMs packetSequence connectionGeneration s0 =
     (let s1 = (if abs weight > MAX_AUTOMATION_WEIGHT_G
                then considerDirectStopSample env weight receivedAtMs packetSequence connectionGeneration s0 else s0);
          s2 = s1\<lparr> weightStreamState := STREAM_OVERLOAD, calibrationEligible := False \<rparr>;
          s3 = (if weightControlState s2 = WC_ACTIVE then setWeightControlState env WC_VALIDATING s2 else s2)
      in rejectScaleSample env SCALE_SAMPLE_REJECTED_RANGE weight
           (if weight < MIN_AUTOMATION_WEIGHT_G then MIN_AUTOMATION_WEIGHT_G else MAX_AUTOMATION_WEIGHT_G)
           (s3\<lparr> recoveryConfirmations := 0 \<rparr>))"

definition trackedSample ::
  "ShotEnv \<Rightarrow> grams \<Rightarrow> u32 \<Rightarrow> u32 \<Rightarrow> u32 \<Rightarrow> bool \<Rightarrow> TouchStopEvidence \<Rightarrow> ShotSession \<Rightarrow> bool \<times> ShotSession" where
  "trackedSample env weight receivedAtMs packetSequence connectionGeneration provenance previous s0 =
     (let s1 = (if (weightControlState s0 = WC_ACTIVE \<or> weightControlState s0 = WC_VALIDATING) \<and>
                   ownedConnectionGeneration s0 \<noteq> 0 \<and> connectionGeneration \<noteq> ownedConnectionGeneration s0
                then suspendWeightControl env s0 else s0)
      in if weight < MIN_AUTOMATION_WEIGHT_G \<or> weight > MAX_AUTOMATION_WEIGHT_G then
           (False, outOfRangeSample env weight receivedAtMs packetSequence connectionGeneration s1)
         else if sint (receivedAtMs - shotStartMs s1) < 0 then
           (False, rejectScaleSample env SCALE_SAMPLE_REJECTED_PRE_CYCLE weight 0 s1)
         else
           let s2 = (if awaitingPostTareBaseline s1 \<and> retareEffectPending s1 \<and>
                        deadlineReached receivedAtMs (postTareBaselineDeadlineMs s1)
                     then expirePostTareBaseline env s1 else s1)
           in if awaitingPostTareBaseline s2 then
                if retareEffectPending s2 then (False, emit CurveBreak s2)
                else if postTareBaselinePlausible env weight s2 then
                  acceptWeightIntoTrajectory env weight receivedAtMs packetSequence
                    ((emit (HoldCupTransitions False) (s2\<lparr> awaitingPostTareBaseline := False \<rparr>))
                       \<lparr> weightStreamState := STREAM_FRESH \<rparr>)
                else (False, rejectScaleSample env SCALE_SAMPLE_REJECTED_SLEW weight POST_TARE_BASELINE_MAX_ABS_G s2)
              else
                let plausible = plausibleSample env weight receivedAtMs s2 in
                if weightControlState s2 = WC_ACTIVE \<and> \<not> plausible then
                  (False, rejectScaleSample env SCALE_SAMPLE_REJECTED_SLEW weight (lastAcceptedWeightG s2)
                     (resetRecovery (setWeightControlState env WC_VALIDATING
                       (s2\<lparr> weightStreamState := STREAM_ANOMALOUS, calibrationEligible := False \<rparr>))))
                else recoverSample env weight receivedAtMs packetSequence connectionGeneration provenance previous plausible s2)"

text \<open>
  The head of the handler: every sample drops the touch evidence unless it renews it, a
  reading beyond the parser's range is rejected, missing provenance is filled in, and a
  software zero moves the weight into shot coordinates. The cup detector, the tare of an idle
  scale and the first-drop detector, which the code runs in between, are calls of their own.
\<close>

definition sampleGeneration :: "ShotSession \<Rightarrow> u32 \<Rightarrow> u32" where
  "sampleGeneration s connectionGeneration =
     (if connectionGeneration = 0 then ownedConnectionGeneration s else connectionGeneration)"

definition sampleSequence :: "ShotSession \<Rightarrow> u32 \<Rightarrow> u32" where
  "sampleSequence s packetSequence =
     (if packetSequence = 0
      then (let following = lastAcceptedPacketSequence s + 1 in if following = 0 then 1 else following)
      else packetSequence)"

definition shotWeight :: "ShotEnv \<Rightarrow> ShotSession \<Rightarrow> grams \<Rightarrow> grams" where
  "shotWeight env s reading = (if ssActive s then feRound env (reading - softwareZeroG s) else reading)"

definition recordWeightSample ::
  "ShotEnv \<Rightarrow> grams \<Rightarrow> u32 \<Rightarrow> u32 \<Rightarrow> u32 \<Rightarrow> ShotSession \<Rightarrow> bool \<times> ShotSession" where
  "recordWeightSample env reading receivedAtMs packetSequence connectionGeneration s0 =
     (let provenance = (packetSequence \<noteq> 0 \<and> connectionGeneration \<noteq> 0);
          previous = touchStop s0; s = s0\<lparr> touchStop := touchStop0 \<rparr>
      in if abs reading > MAX_PARSED_WEIGHT_G then
           (False, rejectScaleSample env SCALE_SAMPLE_REJECTED_INVALID reading 0 s)
         else
           let weight = shotWeight env s reading in
           if \<not> shouldTrackWeight s then (MIN_AUTOMATION_WEIGHT_G \<le> weight \<and> weight \<le> MAX_AUTOMATION_WEIGHT_G, s)
           else trackedSample env weight receivedAtMs (sampleSequence s packetSequence)
                  (sampleGeneration s connectionGeneration) provenance previous s)"

section \<open>The decision of the control loop\<close>

definition touchFallbackDue :: "ShotEnv \<Rightarrow> ShotSession \<Rightarrow> bool" where
  "touchFallbackDue env s \<longleftrightarrow> accidentalTouchHolding s \<and> accidentalTouchSessionActive s \<and> ccTouchFallback (ssConfig s) \<and>
     teSamples (touchStop s) \<ge> 3 \<and> \<not> awaitingPostTareBaseline s \<and> \<not> feScaleUnavailable env \<and>
     (let e = touchStop s in
      fst (touchStopPolicy env (feNow env) s) = tePolicy e \<and> teConnectionGeneration e = ownedConnectionGeneration s \<and>
      deadlineReached (feNow env) (teLastAtMs e) \<and> feNow env - teLastAtMs e \<le> MAX_AUTOMATION_WEIGHT_AGE_MS \<and>
      teLastAtMs e - teFirstAtMs e \<ge> TOUCH_STOP_FALLBACK_MS)"

definition directStopHonored :: "ShotEnv \<Rightarrow> ShotSession \<Rightarrow> bool" where
  "directStopHonored env s \<longleftrightarrow> directStopPending s \<and> thresholdConfirmations s \<ge> DIRECT_STOP_CONFIRMATION_SAMPLES \<and>
     deadlineReached (feNow env) (lastThresholdAtMs s) \<and>
     feNow env - lastThresholdAtMs s \<le> MAX_AUTOMATION_WEIGHT_AGE_MS \<and>
     (directStopReason s = WEIGHT_ANOMALY \<or> weightControlState s = WC_ACTIVE)"

definition timedLawDue :: "ShotEnv \<Rightarrow> ShotSession \<Rightarrow> bool" where
  "timedLawDue env s \<longleftrightarrow> receivedFreshWeightInCycle s \<and> weightControlState s = WC_ACTIVE \<and>
     feWeightSequence env \<noteq> weightSequenceAtStart s \<and> \<not> feScaleUnavailable env \<and>
     expectedEndMs s \<le> (if ssActive s then uint (feElapsedMs env) else 0)"

definition automaticScaleStopDue :: "ShotEnv \<Rightarrow> ShotSession \<Rightarrow> bool \<times> ShotSession" where
  "automaticScaleStopDue env s =
     (if ccTimerOnly (ssConfig s) \<or> stopperState s \<noteq> STOPPER_BREW \<or> bbwWeightStopInhibited s then (False, s)
      else if touchFallbackDue env s then
        (True, s\<lparr> calibrationEligible := False, directStopPending := True, directStopReason := TOUCH_WEIGHT_FALLBACK \<rparr>)
      else if directStopHonored env s \<and> (\<not> accidentalTouchHolding s \<or> directStopReason s = WEIGHT_ANOMALY) then (True, s)
      else if accidentalTouchHolding s then (False, s)
      else if \<not> timedLawDue env s then (False, s)
      else
        case weightCutReasonNow env (s\<lparr> directStopPending := True \<rparr>) of (reason, s1) \<Rightarrow>
          (True, addDebug SCALE_THRESHOLD_CONFIRMED (gramsToDg env (lastAcceptedWeightG s1) * 10) 2
                   (s1\<lparr> directStopReason := reason \<rparr>)))"

definition suspendStaleStream :: "ShotEnv \<Rightarrow> ShotSession \<Rightarrow> ShotSession" where
  "suspendStaleStream env s =
     (if (weightControlState s = WC_ACTIVE \<or> weightControlState s = WC_VALIDATING) \<and> feScaleUnavailable env
      then addDebug SCALE_STREAM_STALE 0 0 ((suspendWeightControl env s)\<lparr> weightStreamState := STREAM_STALE \<rparr>)
      else s)"

text \<open>
  The brew state of the control loop after the user's intent: the reason the shot ends with in
  this pass, if it does. Finalising the shot is the caller's.
\<close>

definition serviceBrew :: "ShotEnv \<Rightarrow> ShotSession \<Rightarrow> EndReason option \<times> ShotSession" where
  "serviceBrew env s0 =
     (let s1 = serviceBbwProtectionPhases env (expirePostTareBaseline env s0) in
      if cupRemovedPending s1 then (Some CUP_REMOVED, s1)
      else if feNoFlowIdle env then (Some UNCONFIRMED_START, s1)
      else
        let s2 = suspendStaleStream env s1
        in if \<not> feAutomationStop env then (None, s2)
           else if autoToManualGuardDeadlineDue env s2 then
             (Some AUTO_TO_MANUAL_GUARD,
              addDebug AUTO_TO_MANUAL_GUARD_FIRED (toI32 (uint (feNow env - ssStartedAtMs s2))) 0 s2)
           else
             case automaticScaleStopDue env s2 of (due, s3) \<Rightarrow>
               if due then (Some (if directStopPending s3 then directStopReason s3 else SCALE_THRESHOLD), s3)
               else (None, s3))"

end
