(* ===== verification/Cycle_Machine.thy ===== *)
theory Cycle_Machine
  imports Paddle_Machine Backflush_Handoff Start_Guards Brew_Stop
begin

text \<open>
  The state machine of the control loop: starting, classifying and ending cycles
  (\<open>src/control/OpenBrewByWeightControlStateMachine.inc\<close>), the rinse clock
  (\<open>src/OpenBrewByWeightRinse.h\<close>), the wake and backflush gestures
  (\<open>src/control/OpenBrewByWeightWakeGesture.inc\<close>), the web commands that start and stop
  cycles (\<open>src/control/OpenBrewByWeightCommands.inc\<close>) and the maintenance lease
  (\<open>src/persistence/OpenBrewByWeightCommandPersistence.inc\<close>).

  The state extends that of the start guards. What a call reads of the machine, the relay,
  the scale link and the configuration is its environment, the answers of the machine to the
  requests the call makes included; the requests themselves are recorded in order. Time does
  not advance during a call. Left out: the display texts and the status snapshots of the last
  cycle, alert cues that depend on nothing of this state, the scale profiler, and the state of
  the remote scale timer.
\<close>

section \<open>State and environment\<close>

record Lease =
  leForwarded :: bool
  leRestart :: bool

record CycleState = GuardState +
  cyShot :: ShotSession
  cySource :: ControlSource
  cyEndReason :: EndReason
  cyRinseStartedAtMs :: u32
  cyAutomaticBrew :: bool
  nextCycleId :: u32
  virtualHoldOn :: bool
  outboundShotActive :: bool
  rinseClockDurationMs :: u32
  rinseClockStartedAtMs :: u32
  rinseTimerActive :: bool
  machineWakePassthroughActive :: bool
  machineWakeStartedAtMs :: u32
  machineWakeGestureConsumedThisLoop :: bool
  backflushPermit :: BackflushPermit
  backflushRelayGeneration :: u32
  backflushSequence :: u32
  maintenanceLease :: "Lease option"
  plannedRestartHeld :: bool
  maintenanceCancellationPending :: bool

datatype PhysicalStart = START_NORMAL | WAKE_PASSTHROUGH | BACKFLUSH_CANDIDATE | BLOCKED_CLEANING

record CycleEnv =
  ceGuard :: GuardEnv
  ceIntention :: MachineIntention
  ceRelay :: RelaySafetySnapshot
  ceRelayAfter :: RelaySafetySnapshot
  ceTripConsumed :: bool
  ceOperationalConsumed :: bool
  ceScaleAvailable :: bool
  ceWeightFresh :: bool
  ceCup :: CupPresenceState
  ceCurrentWeight :: "grams option"
  ceWeightReceivedAtMs :: u32
  ceScaleGeneration :: u32
  ceSensorLagMs :: u16
  ceRinseGestureMs :: u32
  ceConfig :: CycleConfig
  ceHistory :: ArrivalStats
  cePlateauFlowX100 :: int
  ceIdleTarePending :: bool
  cePowerOk :: bool
  ceStartAccepted :: bool
  ceStopAccepted :: bool
  ceBeginRinseAccepted :: bool
  ceTimerStartQueued :: bool
  ceRunMs :: u32
  ceStopLatencyMs :: u32
  ceCloseLimit :: "u32 \<Rightarrow> u32"
  ceMachineRunning :: bool
  ceSupportsRinse :: bool
  ceHoldQualification :: bool
  ceRemoteControl :: bool
  ceCompatibility :: bool
  ceInitialized :: bool
  ceAtmEndBeep :: bool
  ceBackflush :: BackflushSnapshot
  ceBackflushNow :: BackflushSnapshot
  ceBackflushLater :: BackflushSnapshot
  ceBackflushStarted :: bool
  ceBackflushConfirmed :: bool
  cePhysicalStart :: "PhysicalStart \<times> BackflushPermit"

abbreviation "ceShot env \<equiv> gvShot (ceGuard env)"
abbreviation "ceNow env \<equiv> feNow (gvShot (ceGuard env))"
abbreviation "ceMode env \<equiv> gvNoScaleBbwMode (ceGuard env)"
abbreviation "holds env \<equiv> inHoldActive (ceIntention env)"
abbreviation "cyActive s \<equiv> ssActive (cyShot s)"
abbreviation "cyStopper s \<equiv> stopperState (cyShot s)"

definition onShot :: "(ShotSession \<Rightarrow> ShotSession) \<Rightarrow> CycleState \<Rightarrow> CycleState" where
  "onShot f s = s\<lparr> cyShot := f (cyShot s) \<rparr>"

text \<open>The inputs of the guards, composed from the intention and the scale link.\<close>

definition loopGuardInputs :: "CycleEnv \<Rightarrow> GuardInputs" where
  "loopGuardInputs env = \<lparr> giHoldActive = holds env, giPhysicalOn = inPhysicalOn (ceIntention env),
     giStablyOff = inStablyOff (ceIntention env), giScaleAvailable = ceScaleAvailable env,
     giScaleUsable = (ceScaleAvailable env \<and> ceWeightFresh env), giCup = ceCup env,
     giCurrentWeightG = (case ceCurrentWeight env of None \<Rightarrow> 0 | Some w \<Rightarrow> w),
     giBlockedHoldTimeoutMs = ceRinseGestureMs env \<rparr>"

definition backflushActive :: "StopperState \<Rightarrow> bool" where
  "backflushActive st \<longleftrightarrow> st = STOPPER_BACKFLUSH_CANDIDATE \<or> st = STOPPER_BACKFLUSH_RUNNING"

definition stopperCode :: "StopperState \<Rightarrow> int" where
  "stopperCode st = (case st of STOPPER_REQUIRES_OFF \<Rightarrow> 0 | STOPPER_READY \<Rightarrow> 1 | STOPPER_BREW \<Rightarrow> 2 | STOPPER_RINSE \<Rightarrow> 3
     | STOPPER_MANUAL_NO_SCALE \<Rightarrow> 4 | STOPPER_BACKFLUSH_CANDIDATE \<Rightarrow> 5 | STOPPER_BACKFLUSH_RUNNING \<Rightarrow> 6)"

definition transitionTo :: "StopperState \<Rightarrow> CycleState \<Rightarrow> CycleState" where
  "transitionTo st s =
     (if cyStopper s = st then s
      else tell (Note STATE_TRANSITION (stopperCode (cyStopper s)) (stopperCode st)) (onShot (\<lambda>x. x\<lparr> stopperState := st \<rparr>) s))"

definition nextStateForUserHold :: "CycleEnv \<Rightarrow> StopperState" where
  "nextStateForUserHold env = (if holds env then STOPPER_REQUIRES_OFF else STOPPER_READY)"

section \<open>The rinse clock\<close>

definition rinseBegin :: "u32 \<Rightarrow> u32 \<Rightarrow> CycleState \<Rightarrow> CycleState" where
  "rinseBegin durationMs startedAtMs s = s\<lparr> rinseClockDurationMs := durationMs, rinseClockStartedAtMs := startedAtMs,
     rinseTimerActive := True \<rparr>"

definition rinseDeadlineReached :: "CycleEnv \<Rightarrow> CycleState \<Rightarrow> bool" where
  "rinseDeadlineReached env s \<longleftrightarrow> rinseTimerActive s \<and> ceNow env - rinseClockStartedAtMs s \<ge> rinseClockDurationMs s"

definition rinseClear :: "CycleState \<Rightarrow> CycleState" where
  "rinseClear s = s\<lparr> rinseTimerActive := False, rinseClockDurationMs := 0, rinseClockStartedAtMs := 0 \<rparr>"

section \<open>End of a cycle\<close>

definition endingRinseCycle :: "EndReason \<Rightarrow> CycleState \<Rightarrow> bool" where
  "endingRinseCycle reason s \<longleftrightarrow> cyStopper s = STOPPER_RINSE \<or> reason = RINSE_COMPLETE"

definition brewEndIsAbandonedStart :: "EndReason \<Rightarrow> bool" where
  "brewEndIsAbandonedStart reason \<longleftrightarrow> reason = UNCONFIRMED_START"

definition brewWeightCutSettlesMachineOff :: "EndReason \<Rightarrow> bool" where
  "brewWeightCutSettlesMachineOff reason \<longleftrightarrow> reason \<in> {SCALE_THRESHOLD, FAST_EXTRACTION_MAX_WEIGHT, FAST_EXTRACTION_MIN_TIME,
     SLOW_EXTRACTION_MAX_TIME, SLOW_EXTRACTION_MIN_WEIGHT}"

definition shotCompletionGetsLongBeep :: "EndReason \<Rightarrow> bool" where
  "shotCompletionGetsLongBeep reason \<longleftrightarrow> reason \<notin> {END_NONE, SHORT_SHOT, RELAY_SAFETY_FAILURE, UNCONFIRMED_START}"

definition cycleHistoryKind :: "bool \<Rightarrow> u32 \<Rightarrow> u32 \<Rightarrow> HistoryKind" where
  "cycleHistoryKind rinseEnd durationMs protectionMs =
     (if rinseEnd then HISTORY_RINSE else if durationMs > protectionMs then HISTORY_SHOT else HISTORY_OTHER)"

definition endedCycleDurationMs :: "CycleEnv \<Rightarrow> CycleState \<Rightarrow> u32" where
  "endedCycleDurationMs env s =
     (if ceRunMs env \<noteq> 0 then ceRunMs env
      else let startMs = (if circuitClosedAtMs (cyShot s) \<noteq> 0 then circuitClosedAtMs (cyShot s) else ssStartedAtMs (cyShot s))
           in if startMs \<noteq> 0 then ceNow env - startMs else 0)"

definition endedCycleWeightValid :: "CycleEnv \<Rightarrow> CycleState \<Rightarrow> bool" where
  "endedCycleWeightValid env s \<longleftrightarrow> feWeightSequence (ceShot env) \<noteq> weightSequenceAtStart (cyShot s) \<and>
     ceCurrentWeight env \<noteq> None \<and> sint (ceWeightReceivedAtMs env - ssStartedAtMs (cyShot s)) \<ge> 0"

definition appendActivationHistory :: "CycleEnv \<Rightarrow> EndReason \<Rightarrow> bool \<Rightarrow> u32 \<Rightarrow> CycleState \<Rightarrow> CycleState" where
  "appendActivationHistory env reason rinseEnd durationMs s =
     (if brewEndIsAbandonedStart reason then s
      else tell (History (cycleHistoryKind rinseEnd durationMs (ccBbwProtectionMs (ssConfig (cyShot s)))) durationMs
                  (\<not> endedCycleWeightValid env s)) s)"

text \<open>The alerts of an ended cycle.\<close>

definition endAlerts :: "CycleEnv \<Rightarrow> EndReason \<Rightarrow> CycleState \<Rightarrow> CycleState" where
  "endAlerts env reason s =
     (let s1 = (if brewEndIsAbandonedStart reason then s
                else if shotCompletionGetsLongBeep reason then tell (Alert ALERT_COMPLETION) s
                else tell (Alert ALERT_STOP_TIMER) s)
      in if reason = AUTO_TO_MANUAL_GUARD \<and> ceAtmEndBeep env then tell (Alert ALERT_ATM_END) s1 else s1)"

definition finalizeCycle :: "CycleEnv \<Rightarrow> EndReason \<Rightarrow> StopperState \<Rightarrow> bool \<Rightarrow> CycleState \<Rightarrow> bool \<times> CycleState" where
  "finalizeCycle env reason nextState webStop s0 =
     (let durationMs = endedCycleDurationMs env s0;
          s1 = tell (SettledOff (brewWeightCutSettlesMachineOff reason)) s0;
          rinseEnd = endingRinseCycle reason s1;
          s2 = tell (if rinseEnd then MachineEndRinse else if webStop then MachineWebStop else MachineStop) s1;
          s3 = (rinseClear s2)\<lparr> cyRinseStartedAtMs := 0, cyEndReason := reason \<rparr>;
          s4 = tell (ScaleTimerStopAfter durationMs) (endAlerts env reason s3);
          s5 = (if brewEndIsAbandonedStart reason \<or> rinseEnd then s4 else tell (FinalizeShot reason durationMs) s4);
          s6 = appendActivationHistory env reason rinseEnd durationMs s5;
          s7 = (if rinseEnd \<or> brewEndIsAbandonedStart reason then s6
                else (tell (LastShot reason durationMs) s6)\<lparr> noScaleShotGuardActivityAtMs := ceNow env \<rparr>);
          s8 = (onShot (\<lambda>x. emit (HoldCupTransitions False) (x\<lparr> ssActive := False, awaitingPostTareBaseline := False \<rparr>)) s7)
                 \<lparr> outboundShotActive := False, virtualHoldOn := False \<rparr>;
          s9 = tell (Note CYCLE_ENDED (uint (endReasonCode reason)) 0) (tell MachineEndCycle s8)
      in (ceStopAccepted env, transitionTo nextState s9))"

section \<open>Start of a cycle\<close>

text \<open>\<open>CycleSession{}\<close>, with the globals that are not part of the session kept.\<close>

definition freshSession :: "ShotSession \<Rightarrow> CycleConfig \<Rightarrow> ShotSession" where
  "freshSession s cfg =
    \<lparr> ssActive = False, automaticEnabled = False, bbwProtectionEnabled = False, startedWithScale = False,
      scaleWasLost = False, receivedFreshWeightInCycle = False, calibrationEligible = False, hasWeightAnchor = False,
      directStopPending = False, awaitingPostTareBaseline = False, weightControlState = WC_INACTIVE,
      directStopReason = END_NONE, thresholdConfirmations = 0, recoveryConfirmations = 0, ssId = 0,
      scaleDisconnectSequenceAtStart = 0, weightSequenceAtStart = 0, ownedConnectionGeneration = 0,
      ssStartedAtMs = 0, circuitClosedAtMs = 0, postTareBaselineDeadlineMs = 0, lastAcceptedWeightAtMs = 0,
      lastAcceptedPacketSequence = 0, lastThresholdAtMs = 0, lastThresholdPacketSequence = 0,
      lastThresholdConnectionGeneration = 0, recoveryLastAtMs = 0, recoveryLastPacketSequence = 0, firstDropMs = 0,
      scaleBaselineG = 0, scaleBaselineReady = False, lastAcceptedWeightG = 0, recoveryLastWeightG = 0,
      retareEnded = False, bbwProtectionEnded = False, retarePerformed = False, retareDisabled = False,
      retareAtMs = 0, flowDuringRetare = False, retareFlowFirstDetectedAtMs = 0, firstDropsBeepSent = False,
      preTareWeightG = None, softwareZeroG = 0, firstDropObserved = False, retareEffectPending = False,
      ssConfig = cfg, ssCut = ssCut s, ssPredictor = armShotPredictor, predictorQpX100 = 0,
      extractionExtended = False, slowExtractionExtended = False, targetReachedEarly = False,
      targetReachedAtMs = 0, autoToManualGuardArmed = False, autoToManualGuardEnforced = False,
      autoToManualGuardDeadlineAtMs = 0, scaleLossSource = PROJECTION, scaleLossBlind = False, cupRemovedPending = False,
      accidentalTouchPhase = TOUCH_STARTUP, accidentalTouchClass = TOUCH_OK, accidentalTouchHolding = False,
      accidentalTouchPendingG = [], accidentalTouchHeldSinceMs = 0, accidentalTouchEpochS = 0, touchStop = touchStop0,
      shotStartMs = shotStartMs s, expectedEndMs = expectedEndMs s, shotWeights = shotWeights s,
      weightStreamState = weightStreamState s, stopperState = stopperState s, ssOut = ssOut s \<rparr>"

definition resetSessionForNewCycle :: "CycleEnv \<Rightarrow> ControlSource \<Rightarrow> CycleState \<Rightarrow> CycleState" where
  "resetSessionForNewCycle env source s =
     (let x = (freshSession (cyShot s) (ceConfig env))\<lparr> ssActive := True, ssId := nextCycleId s \<rparr>;
          y = armSmoothCut (ceShot env) (ceSensorLagMs env) (ceStopLatencyMs env) x;
          z = y\<lparr> ssCut := (ssCut y)\<lparr> csHistory := ceHistory env \<rparr>, predictorQpX100 := cePlateauFlowX100 env \<rparr>
      in s\<lparr> cyShot := z, cySource := source, cyEndReason := END_NONE, cyRinseStartedAtMs := 0,
            nextCycleId := (if nextCycleId s + 1 = 0 then 1 else nextCycleId s + 1),
            noScaleGuardHistoryPending := False \<rparr>)"

definition resetShotTrajectory :: "CycleEnv \<Rightarrow> CycleState \<Rightarrow> CycleState" where
  "resetShotTrajectory env s =
     (onShot (\<lambda>x. emit (CurveReset (ssStartedAtMs x)) (x\<lparr> shotStartMs := ssStartedAtMs x,
        expectedEndMs := NO_CUT_PREDICTION_MS, shotWeights := [] \<rparr>)) s)\<lparr> cyAutomaticBrew := False \<rparr>"

text \<open>The start stamps that \<open>beginCycle\<close> and \<open>beginRinseCycle\<close> share.\<close>

definition stampStart :: "CycleEnv \<Rightarrow> ShotSession \<Rightarrow> ShotSession" where
  "stampStart env x = x\<lparr> ssStartedAtMs := ceNow env, circuitClosedAtMs := 0, firstDropMs := 0,
     retareFlowFirstDetectedAtMs := 0, scaleBaselineReady := False, scaleBaselineG := 0,
     weightSequenceAtStart := feWeightSequence (ceShot env) \<rparr>"

definition anchorStartWeight :: "CycleEnv \<Rightarrow> ShotSession \<Rightarrow> ShotSession" where
  "anchorStartWeight env x =
     (let w = giCurrentWeightG (loopGuardInputs env) in
      x\<lparr> hasWeightAnchor := True, lastAcceptedWeightG := w, lastAcceptedWeightAtMs := ceWeightReceivedAtMs env,
         lastAcceptedPacketSequence := feWeightSequence (ceShot env), scaleBaselineG := w, scaleBaselineReady := True \<rparr>)"

definition bindScale :: "CycleEnv \<Rightarrow> ShotSession \<Rightarrow> ShotSession" where
  "bindScale env x =
     (let withScale = giScaleUsable (loopGuardInputs env);
          auto = withScale \<and> \<not> ccTimerOnly (ssConfig x);
          x1 = x\<lparr> startedWithScale := withScale, scaleDisconnectSequenceAtStart := feDisconnectSequence (ceShot env),
                 ownedConnectionGeneration := ceScaleGeneration env,
                 weightControlState := (if auto then WC_ACTIVE else WC_INACTIVE),
                 automaticEnabled := auto, calibrationEligible := auto \<rparr>
      in if withScale \<and> \<not> ccAutoTare (ssConfig x1) then anchorStartWeight env x1 else x1)"

definition captureCycleCircuitStart :: "CycleEnv \<Rightarrow> ShotSession \<Rightarrow> ShotSession" where
  "captureCycleCircuitStart env x =
     x\<lparr> circuitClosedAtMs := (if snClosed (ceRelayAfter env) then snClosedAtMs (ceRelayAfter env) else ssStartedAtMs x) \<rparr>"

definition armPostTareBaselineWindow :: "CycleEnv \<Rightarrow> ShotSession \<Rightarrow> ShotSession" where
  "armPostTareBaselineWindow env s =
     (let s1 = (if ssActive s then emit CurveBreak s else s);
          s2 = resetWeightTrend (s1\<lparr> awaitingPostTareBaseline := True, softwareZeroG := 0,
                 postTareBaselineDeadlineMs := ceNow env + ccPostTareBaselineGraceMs (ssConfig s1),
                 hasWeightAnchor := False, recoveryConfirmations := 0, recoveryLastAtMs := 0,
                 recoveryLastPacketSequence := 0 \<rparr>)
      in if weightControlState s2 = WC_VALIDATING then setWeightControlState (ceShot env) WC_ACTIVE s2 else s2)"

definition orchestratePostTareBaselineArm :: "CycleEnv \<Rightarrow> ShotSession \<Rightarrow> ShotSession" where
  "orchestratePostTareBaselineArm env x = emit (HoldCupTransitions True) (armPostTareBaselineWindow env x)"

definition armStartTare :: "CycleEnv \<Rightarrow> ShotSession \<Rightarrow> ShotSession" where
  "armStartTare env x =
     (if startedWithScale x \<and> ccAutoTare (ssConfig x)
      then markTareZeroReady (orchestratePostTareBaselineArm env
             (x\<lparr> preTareWeightG := Some (giCurrentWeightG (loopGuardInputs env)) \<rparr>))
      else x)"

definition idleTareBlocksStart :: "CycleEnv \<Rightarrow> bool \<Rightarrow> bool" where
  "idleTareBlocksStart env preempt \<longleftrightarrow> ceIdleTarePending env \<and> \<not> preempt"

text \<open>A start that the power policy or the machine refuses.\<close>

definition refuseStart :: "CycleState \<Rightarrow> CycleState" where
  "refuseStart s = transitionTo STOPPER_REQUIRES_OFF (tell MachineEndCycle
     ((onShot (\<lambda>x. x\<lparr> ssActive := False \<rparr>) s)\<lparr> cyEndReason := RELAY_SAFETY_FAILURE \<rparr>))"

definition enterBrewOrManualFromStart :: "CycleEnv \<Rightarrow> CycleState \<Rightarrow> CycleState" where
  "enterBrewOrManualFromStart env s =
     (let x = cyShot s in
      if ccTimerOnly (ssConfig x) \<and> startedWithScale x then
        transitionTo STOPPER_BREW (tell (Note TIMER_ONLY_BREW_STARTED 0 0) s)
      else if automaticEnabled x then
        transitionTo STOPPER_BREW (tell (Note BREW_STARTED 0 0)
          ((onShot (armAutoToManualGuardForAutomaticBrew (ceShot env)) s)\<lparr> cyAutomaticBrew := True \<rparr>))
      else
        transitionTo STOPPER_MANUAL_NO_SCALE (tell (Note MANUAL_CYCLE_STARTED 0 0)
          (onShot (\<lambda>x. x\<lparr> automaticEnabled := False, retareEnded := True, bbwProtectionEnded := True \<rparr>) s)))"

text \<open>\<open>beginCycle\<close> once no guard objects.\<close>

definition startCycle :: "CycleEnv \<Rightarrow> ControlSource \<Rightarrow> CycleState \<Rightarrow> CycleState" where
  "startCycle env source s0 =
     (let s1 = resetSessionForNewCycle env source (tell CancelPendingFinalize s0);
          s2 = onShot initializeBbwProtection (resetShotTrajectory env (onShot (\<lambda>x. bindScale env (stampStart env x)) s1));
          automaticBbw = (startedWithScale (cyShot s2) \<and> \<not> ccTimerOnly (ssConfig (cyShot s2)));
          closeLimitMs = (if automaticBbw then ceCloseLimit env (ccOperationalWallMs (ssConfig (cyShot s2)))
                          else HARD_MAX_CIRCUIT_CLOSED_MS);
          s3 = (tell (MachineBeginCycle automaticBbw) s2)\<lparr> outboundShotActive := True \<rparr>
      in if \<not> cePowerOk env then refuseStart (s3\<lparr> outboundShotActive := False \<rparr>)
         else
           let s4 = tell (MachineStart closeLimitMs (source = WEB)) s3 in
           if \<not> ceStartAccepted env then refuseStart (s4\<lparr> outboundShotActive := False \<rparr>)
           else
             let s5 = onShot (\<lambda>x. armStartTare env (captureCycleCircuitStart env x)) s4;
                 x5 = cyShot s5;
                 s6 = tell (Alert (if startedWithScale x5 \<and> ccAutoTare (ssConfig x5) \<and> ccCanTareStartTimer (ssConfig x5)
                                   then ALERT_TARE_START else ALERT_START_TIMER)) s5;
                 s7 = (if startedWithScale x5 then tell (ScaleTimerStart (ssId x5)) s6 else s6);
                 s8 = (if startedWithScale x5 \<and> \<not> ceTimerStartQueued env
                       then onShot (\<lambda>x. x\<lparr> automaticEnabled := False, scaleWasLost := True \<rparr>) s7 else s7);
                 s9 = enterBrewOrManualFromStart env s8
             in tell NtpSync (tell (Note CYCLE_STARTED (weightToCentigrams (ceShot env)
                    (feRound (ceShot env) (of_nat (unat (ccGoalWeightDg (ssConfig (cyShot s9)))) * feRound (ceShot env) (1 / 10))))
                  (weightToCentigrams (ceShot env) (ccWeightOffsetG (ssConfig (cyShot s9))))) s9))"

text \<open>The guards in front of a start: the state after them and whether the start goes on.\<close>

definition startGuards :: "CycleEnv \<Rightarrow> ControlSource \<Rightarrow> CycleState \<Rightarrow> bool \<times> CycleState" where
  "startGuards env source s0 =
     (let v = ceGuard env; i = loopGuardInputs env in
      if source = PHYSICAL \<and> noScaleShotGuardNeedsFreshActivator s0 \<and> \<not> inTurnedOn (ceIntention env) then (False, s0)
      else
        let s1 = (if source = PHYSICAL then s0\<lparr> noScaleShotGuardNeedsFreshActivator := False \<rparr> else s0);
            s2 = maybeEmitManualNoScaleBeep v i s1
        in if noScaleShotGuardWouldBlock v i s2 then
             (False,
              if source = PHYSICAL then
                let s3 = s2\<lparr> noScaleShotGuardHold := True, noScaleShotGuardHoldAtMs := ceNow env,
                             noScaleGuardHistoryPending := True, noScaleShotGuardNeedsFreshActivator := True \<rparr>
                in if \<not> noScaleBbwRequiresScale (ceMode env) \<and> \<not> ceHoldQualification env
                   then tell (Note NO_SCALE_SHOT_GUARD_BLOCKED 0 0) (consumeNoScaleShotGuard v s3)
                   else s3
              else blockNoScaleShotGuard v s2)
           else
             let s3 = s2\<lparr> noScaleShotGuardHold := False \<rparr> in
             if cupStartGuardWouldBlock v i then
               (False, if source = PHYSICAL then s3\<lparr> cupStartGuardHold := True, cupStartGuardHoldAtMs := ceNow env \<rparr>
                       else cupStartBlocked v (giCurrentWeightG i) s3)
             else
               let s4 = s3\<lparr> cupStartGuardHold := False \<rparr> in (\<not> idleTareBlocksStart env (source = PHYSICAL), s4))"

definition beginCycle :: "CycleEnv \<Rightarrow> ControlSource \<Rightarrow> CycleState \<Rightarrow> CycleState" where
  "beginCycle env source s =
     (if backflushBusy (ceBackflush env) \<or> backflushActive (cyStopper s) then s
      else let guarded = startGuards env source s in if fst guarded then startCycle env source (snd guarded) else snd guarded)"

section \<open>Rinses\<close>

definition noScaleArmedRinseIsBlocked :: "CycleEnv \<Rightarrow> ControlSource \<Rightarrow> CycleState \<Rightarrow> bool" where
  "noScaleArmedRinseIsBlocked env source s \<longleftrightarrow>
     \<not> noScaleAllowRinseWhileArmed (ceMode env) \<and> \<not> noScaleBbwRequiresScale (ceMode env) \<and>
     (noScaleShotGuardWouldBlock (ceGuard env) (loopGuardInputs env) s \<or> source = PHYSICAL \<and> noScaleShotGuardHold s)"

text \<open>The guards in front of a rinse.\<close>

definition rinseGuards :: "CycleEnv \<Rightarrow> ControlSource \<Rightarrow> CycleState \<Rightarrow> bool \<times> CycleState" where
  "rinseGuards env source s0 =
     (let v = ceGuard env; i = loopGuardInputs env;
          s1 = (if source = PHYSICAL \<and> \<not> noScaleGuardHistoryPending s0 \<and>
                   (noScaleShotGuardWouldBlock v i s0 \<or> noScaleShotGuardHold s0)
                then s0\<lparr> noScaleGuardHistoryPending := True, noScaleShotGuardHoldAtMs := ceNow env \<rparr> else s0)
      in if noScaleBbwRequiresScale (ceMode env) \<and> noScaleShotGuardWouldBlock v i s1 then
           (False, tell (Note NO_SCALE_SHOT_GUARD_BLOCKED 0 0)
                     (if source = WEB then maybeEmitManualNoScaleBeep v i s1 else s1))
         else if noScaleArmedRinseIsBlocked env source s1 then
           (False,
            let s2 = (if source = WEB \<or> noScaleShotGuardArmed s1 \<and> holds env then maybeEmitManualNoScaleBeep v i s1 else s1);
                s3 = (if noScaleShotGuardArmed s2 then consumeNoScaleShotGuard v s2 else s2)
            in if source = PHYSICAL \<and> holds env
               then s3\<lparr> noScaleShotGuardHold := True, noScaleShotGuardHoldAtMs := ceNow env \<rparr> else s3)
         else (True, s1\<lparr> noScaleShotGuardNeedsFreshActivator := False \<rparr>))"

definition startRinseCycle :: "CycleEnv \<Rightarrow> ControlSource \<Rightarrow> CycleState \<Rightarrow> bool \<times> CycleState" where
  "startRinseCycle env source s0 =
     (let s1 = resetSessionForNewCycle env source (tell CancelPendingFinalize s0);
          s2 = resetShotTrajectory env
                 ((onShot (\<lambda>x. (stampStart env x)\<lparr> startedWithScale := ceScaleAvailable env, automaticEnabled := False \<rparr>) s1)
                   \<lparr> virtualHoldOn := False \<rparr>);
          s3 = tell (MachineBeginCycle False) s2
      in if \<not> cePowerOk env then (False, refuseStart s3)
         else
           let s4 = tell (MachineBeginRinse (ccOperationalWallMs (ssConfig (cyShot s3))) False) s3 in
           if \<not> ceBeginRinseAccepted env then (False, refuseStart s4)
           else
             let s5 = tell (Alert ALERT_START_TIMER) (onShot (captureCycleCircuitStart env) s4);
                 s6 = (if noScaleShotGuardArmed s5 \<and> \<not> giScaleUsable (loopGuardInputs env) \<and>
                          \<not> noScaleBbwRequiresScale (ceMode env)
                       then consumeNoScaleShotGuard (ceGuard env) s5 else s5);
                 s7 = (if startedWithScale (cyShot s6) then tell (ScaleTimerStart (ssId (cyShot s6))) s6 else s6);
                 s8 = (if startedWithScale (cyShot s7) \<and> \<not> ceTimerStartQueued env
                       then onShot (\<lambda>x. x\<lparr> startedWithScale := False, automaticEnabled := False, scaleWasLost := True \<rparr>) s7
                       else s7)
             in (True, s8))"

definition beginRinseCycle :: "CycleEnv \<Rightarrow> ControlSource \<Rightarrow> CycleState \<Rightarrow> bool \<times> CycleState" where
  "beginRinseCycle env source s =
     (if backflushBusy (ceBackflush env) \<or> backflushActive (cyStopper s) then (False, s)
      else if idleTareBlocksStart env (source = PHYSICAL) then (False, s)
      else let guarded = rinseGuards env source s in
           if fst guarded then startRinseCycle env source (snd guarded) else (False, snd guarded))"

text \<open>
  Entering the rinse keeps the start of the session's own run and restarts the clock for a
  run that is older than the session.
\<close>

definition enterRinse :: "CycleEnv \<Rightarrow> CycleState \<Rightarrow> CycleState" where
  "enterRinse env s =
     (let runStartedAtMs = (if ceRunMs env \<noteq> 0 then ceNow env - ceRunMs env else ceNow env);
          continueRun = (ceNow env - ssStartedAtMs (cyShot s) \<ge> ceNow env - runStartedAtMs);
          s1 = tell (MachineBeginRinse (ccOperationalWallMs (ssConfig (cyShot s))) continueRun) s
      in if \<not> ceBeginRinseAccepted env then
           (if cyStopper s1 = STOPPER_BREW \<or> cyStopper s1 = STOPPER_MANUAL_NO_SCALE
            then snd (finalizeCycle env RELAY_SAFETY_FAILURE STOPPER_REQUIRES_OFF False s1)
            else refuseStart s1)
         else
           let start = (if continueRun then runStartedAtMs else ceNow env);
               s2 = (rinseBegin (ccRinseDurationMs (ssConfig (cyShot s1))) start s1)\<lparr> cyRinseStartedAtMs := start,
                      cyAutomaticBrew := False \<rparr>;
               s3 = onShot (\<lambda>x. emit (HoldCupTransitions False) (x\<lparr> automaticEnabled := False, calibrationEligible := False,
                      autoToManualGuardArmed := False, autoToManualGuardEnforced := False,
                      awaitingPostTareBaseline := False \<rparr>)) s2
           in tell NtpSync ((transitionTo STOPPER_RINSE (tell (Note RINSE_CLASSIFIED 0 0) s3))\<lparr> outboundShotActive := False \<rparr>))"

definition beginWebRinse :: "CycleEnv \<Rightarrow> CycleState \<Rightarrow> CycleState" where
  "beginWebRinse env s = (let begun = beginRinseCycle env WEB s in if fst begun then enterRinse env (snd begun) else snd begun)"

section \<open>Limits\<close>

definition handleGlobalLimitTrip :: "CycleEnv \<Rightarrow> CycleState \<Rightarrow> CycleState" where
  "handleGlobalLimitTrip env s0 =
     (let endedWakeGesture = machineWakePassthroughActive s0;
          wakeDurationMs = ceNow env - machineWakeStartedAtMs s0;
          s1 = s0\<lparr> machineWakePassthroughActive := False \<rparr>;
          s2 = (if ceTripConsumed env then tell (Note RELAY_OPENED_SEEN 0 0) s1 else s1);
          s3 = (if \<not> ceTripConsumed env \<and> snClosed (ceRelay env) then tell MachineStop s2 else s2)
      in if \<not> cyActive s3 then
           transitionTo STOPPER_REQUIRES_OFF
             (if endedWakeGesture then tell (History HISTORY_POWER_ON wakeDurationMs True) s3 else s3)
         else snd (finalizeCycle env GLOBAL_LIMIT STOPPER_REQUIRES_OFF False s3))"

definition handleOperationalLimitTrip :: "CycleEnv \<Rightarrow> CycleState \<Rightarrow> CycleState" where
  "handleOperationalLimitTrip env s0 =
     (let s1 = s0\<lparr> machineWakePassthroughActive := False \<rparr>;
          s2 = (if ceOperationalConsumed env then tell (Note RELAY_OPENED_SEEN 0 0) s1 else s1);
          s3 = tell (Note OPERATIONAL_LIMIT_SEEN 0 0) s2
      in if \<not> cyActive s3 then transitionTo STOPPER_REQUIRES_OFF s3
         else snd (finalizeCycle env CONFIGURED_WALL_LIMIT STOPPER_REQUIRES_OFF False s3))"

definition serviceCompatibilityMirror :: "CycleEnv \<Rightarrow> CycleState \<Rightarrow> CycleState" where
  "serviceCompatibilityMirror env s =
     (let i = ceIntention env in
      if cyStopper s = STOPPER_REQUIRES_OFF then
        (if inIntent i = STABLE_IDLE \<or> inStablyOff i then transitionTo STOPPER_READY s else s)
      else if \<not> cePowerOk env then transitionTo STOPPER_REQUIRES_OFF s
      else
        let closed = snClosed (ceRelay env); held = inPhysicalOn i;
            s1 = (if held \<and> \<not> closed then tell (MachineStart HARD_MAX_CIRCUIT_CLOSED_MS False) s
                  else if \<not> held \<and> closed then tell MachineStop s else s);
            ok = (if held \<and> \<not> closed then ceStartAccepted env else if \<not> held \<and> closed then ceStopAccepted env else True)
        in if ok then s1 else transitionTo STOPPER_REQUIRES_OFF s1)"

section \<open>Maintenance\<close>

definition controlAllowsConfigurationNow :: "CycleEnv \<Rightarrow> CycleState \<Rightarrow> bool" where
  "controlAllowsConfigurationNow env s \<longleftrightarrow> cyStopper s = STOPPER_READY \<and> \<not> cyActive s \<and> \<not> ceMachineRunning env \<and>
     \<not> holds env \<and> maintenanceLease s = None"

definition beginMaintenanceLease :: "CycleEnv \<Rightarrow> bool \<Rightarrow> bool \<Rightarrow> CycleState \<Rightarrow> bool \<times> CycleState" where
  "beginMaintenanceLease env override restart s =
     (if \<not> controlAllowsConfigurationNow env s \<and> \<not> override then (False, s)
      else if restart \<and> (cyActive s \<or> snClosed (ceRelay env) \<or> holds env) then (False, s)
      else (True, (tell MachineStop s)\<lparr> maintenanceLease := Some \<lparr> leForwarded = False, leRestart = restart \<rparr> \<rparr>))"

text \<open>Forwarding the command, and its completion.\<close>

definition forwardMaintenanceLease :: "CycleState \<Rightarrow> CycleState" where
  "forwardMaintenanceLease s = (case maintenanceLease s of None \<Rightarrow> s
     | Some lease \<Rightarrow> s\<lparr> maintenanceLease := Some (lease\<lparr> leForwarded := True \<rparr>) \<rparr>)"

definition completeMaintenanceLease :: "CycleEnv \<Rightarrow> CycleState \<Rightarrow> CycleState" where
  "completeMaintenanceLease env s =
     (if maintenanceLease s = None then s
      else let s1 = s\<lparr> maintenanceLease := None \<rparr> in if holds env then transitionTo STOPPER_REQUIRES_OFF s1 else s1)"

text \<open>A pass of the loop under a lease: a user who holds the activator takes the machine back.\<close>

definition serviceLeasePass :: "CycleEnv \<Rightarrow> Lease \<Rightarrow> CycleState \<Rightarrow> CycleState" where
  "serviceLeasePass env lease s0 =
     (let s1 = (if snClosed (ceRelay env) then tell MachineStop s0 else s0) in
      if \<not> holds env then s1
      else
        transitionTo STOPPER_REQUIRES_OFF
          (if leForwarded lease then s1
           else if leRestart lease then s1\<lparr> plannedRestartHeld := True, maintenanceLease := None \<rparr>
           else (tell (Note MAINTENANCE_CANCELED 0 0) s1)\<lparr> maintenanceCancellationPending := True, maintenanceLease := None \<rparr>))"

section \<open>The pass of the state machine\<close>

definition hardLimitPassed :: "CycleEnv \<Rightarrow> bool" where
  "hardLimitPassed env \<longleftrightarrow> (let r = ceRelay env in snTripped r \<or>
     snClosed r \<and> snHardLimitMs r \<noteq> 0 \<and> ceNow env - snClosedAtMs r \<ge> snHardLimitMs r)"

definition operationalLimitPassed :: "CycleEnv \<Rightarrow> bool" where
  "operationalLimitPassed env \<longleftrightarrow> (let r = ceRelay env in snOperationalTripped r \<or>
     snClosed r \<and> snOperationalLimitMs r < snHardLimitMs r \<and> ceNow env - snClosedAtMs r \<ge> snOperationalLimitMs r)"

text \<open>A paddle that holds the circuit closed by hand keeps the configured wall as a limit of its own.\<close>

definition wallPassed :: "CycleEnv \<Rightarrow> CycleState \<Rightarrow> bool" where
  "wallPassed env s \<longleftrightarrow> (let r = ceRelay env; wall = ccOperationalWallMs (ssConfig (cyShot s)) in
     snClosed r \<and> cyActive s \<and> ceCloseLimit env wall = HARD_MAX_CIRCUIT_CLOSED_MS \<and>
     feAutomationStop (ceShot env) \<and> ceNow env - snClosedAtMs r \<ge> wall)"

definition abortGuardHistory :: "CycleEnv \<Rightarrow> CycleState \<Rightarrow> CycleState" where
  "abortGuardHistory env s =
     (tell (History HISTORY_GUARD_ABORTED (ceNow env - noScaleShotGuardHoldAtMs s) True) s)\<lparr> noScaleGuardHistoryPending := False \<rparr>"

definition serviceReady :: "CycleEnv \<Rightarrow> CycleState \<Rightarrow> CycleState" where
  "serviceReady env s0 =
     (let i = ceIntention env;
          s1 = (if inIntent i = REQUEST_START then beginCycle env PHYSICAL s0 else s0);
          s2 = (if inIntent i = REQUEST_RINSE \<and> ceSupportsRinse env \<and>
                   \<not> (noScaleBbwRequiresScale (ceMode env) \<and> noScaleShotGuardNeedsFreshActivator s1)
                then let begun = beginRinseCycle env PHYSICAL s1; x = snd begun in
                     if fst begun then enterRinse env (x\<lparr> noScaleShotGuardHold := False, cupStartGuardHold := False \<rparr>) else x
                else s1)
      in if noScaleGuardHistoryPending s2 \<and> \<not> holds env \<and> \<not> cyActive s2 then abortGuardHistory env s2 else s2)"

definition endForUser :: "CycleEnv \<Rightarrow> CycleState \<Rightarrow> CycleState" where
  "endForUser env s =
     snd (finalizeCycle env END_ACTIVATOR STOPPER_READY False
       (if automaticEnabled (cyShot s) then s\<lparr> cyAutomaticBrew := True \<rparr> else s))"

definition serviceBrewing :: "CycleEnv \<Rightarrow> CycleState \<Rightarrow> CycleState" where
  "serviceBrewing env s =
     (let i = ceIntention env in
      if inIntent i = REQUEST_RINSE \<and> ceSupportsRinse env then enterRinse env s
      else if inIntent i = REQUEST_STOP then endForUser env s
      else
        let served = serviceBrew (ceShot env) (cyShot s); s1 = s\<lparr> cyShot := snd served \<rparr> in
          (case fst served of None \<Rightarrow> s1
           | Some reason \<Rightarrow> snd (finalizeCycle env reason (nextStateForUserHold env) False s1)))"

definition serviceManual :: "CycleEnv \<Rightarrow> CycleState \<Rightarrow> CycleState" where
  "serviceManual env s =
     (let i = ceIntention env in
      if inIntent i = REQUEST_RINSE \<and> ceSupportsRinse env then enterRinse env s
      else if inIntent i = REQUEST_STOP then endForUser env s
      else if feNoFlowIdle (ceShot env) then snd (finalizeCycle env UNCONFIRMED_START (nextStateForUserHold env) False s)
      else s)"

definition serviceStopper :: "CycleEnv \<Rightarrow> CycleState \<Rightarrow> CycleState" where
  "serviceStopper env s =
     (case cyStopper s of
        STOPPER_BACKFLUSH_CANDIDATE \<Rightarrow> s
      | STOPPER_BACKFLUSH_RUNNING \<Rightarrow> s
      | STOPPER_REQUIRES_OFF \<Rightarrow>
          (if inIntent (ceIntention env) = STABLE_IDLE \<or> inStablyOff (ceIntention env) then transitionTo STOPPER_READY s else s)
      | STOPPER_READY \<Rightarrow> serviceReady env s
      | STOPPER_RINSE \<Rightarrow>
          (if rinseDeadlineReached env s then snd (finalizeCycle env RINSE_COMPLETE (nextStateForUserHold env) False s) else s)
      | STOPPER_BREW \<Rightarrow> serviceBrewing env s
      | STOPPER_MANUAL_NO_SCALE \<Rightarrow> serviceManual env s)"

definition stateMachineTask :: "CycleEnv \<Rightarrow> CycleState \<Rightarrow> CycleState" where
  "stateMachineTask env s =
     (let i = ceIntention env in
      if hardLimitPassed env then handleGlobalLimitTrip env (tell (Note HARD_LIMIT_SEEN 0 0) s)
      else if operationalLimitPassed env then handleOperationalLimitTrip env s
      else if wallPassed env s then handleOperationalLimitTrip env s
      else if machineWakePassthroughActive s \<or> machineWakeGestureConsumedThisLoop s then s
      else if noScaleRequireBypassCompletedThisLoop s then
        (let s1 = s\<lparr> noScaleRequireBypassCompletedThisLoop := False \<rparr> in
         if noScaleGuardHistoryPending s1 \<and> \<not> holds env then abortGuardHistory env s1 else s1)
      else case maintenanceLease s of
        Some lease \<Rightarrow> serviceLeasePass env lease s
      | None \<Rightarrow>
          if ceCompatibility env then serviceCompatibilityMirror env s
          else if cyActive s \<and> cySource s = WEB \<and> (inTurnedOn i \<or> inTurnedOff i)
          then snd (finalizeCycle env PHYSICAL_OVERRIDE (nextStateForUserHold env) False s)
          else serviceStopper env s)"

section \<open>The wake and backflush gestures\<close>

definition endBackflush :: "CycleEnv \<Rightarrow> bool \<Rightarrow> CycleState \<Rightarrow> CycleState" where
  "endBackflush env confirmed s =
     (let r = ceRelayAfter env;
          s1 = tell (History (if confirmed then HISTORY_BACKFLUSH else HISTORY_OTHER)
                       (snElectricalOpenedAtMs r - snElectricalClosedAtMs r) True) (tell MachineStop s);
          s2 = (tell (FinishBackflush (bpAttempt (backflushPermit s1))) s1)\<lparr> backflushPermit := permit0 \<rparr>
      in transitionTo STOPPER_REQUIRES_OFF s2)"

definition backflushProvenanceCurrent :: "BackflushSnapshot \<Rightarrow> BackflushPermit \<Rightarrow> bool" where
  "backflushProvenanceCurrent b permit \<longleftrightarrow> bsValid b \<and> (bsPhase b = BF_AWAITING \<or> bsPhase b = BF_ACTIVE) \<and>
     bpContinuity (bsPermit b) = bpContinuity permit \<and> bpEpisode (bsPermit b) = bpEpisode permit \<and>
     bpAttempt (bsPermit b) = bpAttempt permit"

definition serviceBackflush :: "CycleEnv \<Rightarrow> CycleState \<Rightarrow> CycleState" where
  "serviceBackflush env s =
     (let i = ceIntention env; r = ceRelay env; confirmed = (cyStopper s = STOPPER_BACKFLUSH_RUNNING);
          b = ceBackflush env; permit = backflushPermit s; closedMs = ceNow env - snClosedAtMs r
      in if inTurnedOff i \<or> inStablyOff i \<or> \<not> inHoldActive i then endBackflush env confirmed s
         else if \<not> snClosed r \<or> snTripped r \<or> snOperationalTripped r \<or> closedMs \<ge> snHardLimitMs r then endBackflush env confirmed s
         else if \<not> bsValid b \<or> bpContinuity (bsPermit b) \<noteq> bpContinuity permit \<or> bpAttempt (bsPermit b) \<noteq> bpAttempt permit
         then endBackflush env confirmed s
         else
           case reduceChanges permit (closedMs \<ge> HARD_MAX_CIRCUIT_CLOSED_MS) (bsChanges b) (backflushSequence s) confirmed of
             (outcome, sequence, confirmed1) \<Rightarrow>
               let s1 = s\<lparr> backflushSequence := sequence \<rparr> in
               (case outcome of
                  Some (seen, _) \<Rightarrow> endBackflush env seen s1
                | None \<Rightarrow>
                    if confirmed1 \<and> cyStopper s1 = STOPPER_BACKFLUSH_CANDIDATE then
                      (if \<not> backflushProvenanceCurrent (ceBackflushNow env) permit \<or> \<not> ceBackflushConfirmed env \<or>
                          \<not> backflushProvenanceCurrent (ceBackflushLater env) permit
                       then endBackflush env True s1
                       else transitionTo STOPPER_BACKFLUSH_RUNNING s1)
                    else s1))"

text \<open>An edge on that the machine integration claims for its cleaning program.\<close>

definition admitBackflush :: "CycleEnv \<Rightarrow> PhysicalStart \<Rightarrow> BackflushPermit \<Rightarrow> CycleState \<Rightarrow> CycleState" where
  "admitBackflush env disposition permit s0 =
     (let wanted = (disposition = BACKFLUSH_CANDIDATE \<and> ceInitialized env \<and> cyStopper s0 = STOPPER_READY \<and>
            \<not> cyActive s0 \<and> maintenanceLease s0 = None);
          s1 = (if wanted then s0\<lparr> backflushPermit := permit \<rparr> else s0);
          s2 = (if wanted \<and> cePowerOk env then tell StartBackflush s1 else s1)
      in if wanted \<and> cePowerOk env \<and> ceBackflushStarted env then
           let s3 = transitionTo STOPPER_BACKFLUSH_CANDIDATE
                      (s2\<lparr> backflushRelayGeneration := snGeneration (ceRelayAfter env), backflushSequence := bpSequence permit \<rparr>)
           in if \<not> backflushProvenanceCurrent (ceBackflushNow env) permit then endBackflush env False s3 else s3
         else
           let s3 = (tell (FinishBackflush (bpAttempt permit)) s2)\<lparr> backflushPermit := permit0 \<rparr>
           in if \<not> cyActive s3 then transitionTo STOPPER_REQUIRES_OFF s3 else s3)"

definition serviceMachineWakeGesture :: "CycleEnv \<Rightarrow> CycleState \<Rightarrow> bool \<times> CycleState" where
  "serviceMachineWakeGesture env s00 =
     (let i = ceIntention env; s0 = s00\<lparr> machineWakeGestureConsumedThisLoop := False \<rparr>;
          consumed = s0\<lparr> machineWakeGestureConsumedThisLoop := True \<rparr>
      in if backflushActive (cyStopper s0) then (True, serviceBackflush env consumed)
         else if machineWakePassthroughActive s0 then
           (True,
            if inTurnedOff i \<or> inStablyOff i \<or> \<not> inHoldActive i
            then tell (History HISTORY_POWER_ON (ceNow env - machineWakeStartedAtMs consumed) True)
                   ((tell MachineStop consumed)\<lparr> machineWakePassthroughActive := False \<rparr>)
            else consumed)
         else if \<not> inTurnedOn i then (backflushBusy (ceBackflush env) \<and> \<not> cyActive s0, s0)
         else
           case cePhysicalStart env of (disposition, permit) \<Rightarrow>
             if disposition = BLOCKED_CLEANING \<or> disposition = BACKFLUSH_CANDIDATE
             then (True, admitBackflush env disposition permit consumed)
             else if disposition \<noteq> WAKE_PASSTHROUGH then (False, s0)
             else if \<not> ceInitialized env \<or> cyStopper consumed \<noteq> STOPPER_READY \<or> cyActive consumed \<or>
                     maintenanceLease consumed \<noteq> None then (True, consumed)
             else if \<not> cePowerOk env then (True, transitionTo STOPPER_REQUIRES_OFF consumed)
             else
               let s1 = tell (MachineStart HARD_MAX_CIRCUIT_CLOSED_MS False) consumed
               in (True, if \<not> ceStartAccepted env then transitionTo STOPPER_REQUIRES_OFF s1
                         else s1\<lparr> machineWakeStartedAtMs := ceNow env, machineWakePassthroughActive := True \<rparr>))"

section \<open>Web commands\<close>

definition webCommandAllowsUnsafeConfiguration :: "CycleEnv \<Rightarrow> bool \<Rightarrow> CycleState \<Rightarrow> bool" where
  "webCommandAllowsUnsafeConfiguration env override s \<longleftrightarrow> controlAllowsConfigurationNow env s \<or> override"

datatype StopCommand = STOP_BUTTON | STOP_HEARTBEAT | REMOTE_OFF

definition webStop :: "CycleEnv \<Rightarrow> StopCommand \<Rightarrow> CycleState \<Rightarrow> CycleState" where
  "webStop env command s =
     (if ceCompatibility env \<or> \<not> ceMachineRunning env \<or>
         command = REMOTE_OFF \<and> (\<not> cyActive s \<or> cySource s \<noteq> WEB) then s
      else
        let s1 = tell (Note WEB_STOP_SEEN 0 (toI32 (uint (ssId (cyShot s))))) s in
        if \<not> cyActive s1 then tell MachineWebStop s1
        else snd (finalizeCycle env (if command = STOP_HEARTBEAT then WEB_HEARTBEAT_TIMEOUT else WEB_STOP)
                    (nextStateForUserHold env) True s1))"

definition stateOverrideOff :: "CycleEnv \<Rightarrow> CycleState \<Rightarrow> CycleState" where
  "stateOverrideOff env s =
     (if ceCompatibility env \<or> \<not> cyActive s then s
      else snd (finalizeCycle env WEB_STOP (nextStateForUserHold env) False s))"

definition remoteOn :: "CycleEnv \<Rightarrow> bool \<Rightarrow> CycleState \<Rightarrow> CycleState" where
  "remoteOn env override s =
     (if ceCompatibility env \<or> \<not> ceRemoteControl env \<or> \<not> webCommandAllowsUnsafeConfiguration env override s then s
      else
        let s1 = beginCycle env WEB (s\<lparr> virtualHoldOn := True \<rparr>)
        in if \<not> cyActive s1 then s1\<lparr> virtualHoldOn := False \<rparr> else s1)"

definition webRinse :: "CycleEnv \<Rightarrow> bool \<Rightarrow> CycleState \<Rightarrow> CycleState" where
  "webRinse env override s =
     (if ceCompatibility env \<or> \<not> ceSupportsRinse env \<or> \<not> ceRemoteControl env \<or>
         \<not> webCommandAllowsUnsafeConfiguration env override s then s
      else beginWebRinse env s)"

section \<open>Runs\<close>

text \<open>
  The calls of the control task that touch this state. A \<open>bool\<close> is the unsafe override of
  the web interface; \<open>BeginLease\<close> also says whether the command is a restart.
\<close>

datatype CycleCall =
    WakeGesture | Guards | Task | Sample grams u32 u32 u32
  | WebStop StopCommand | StateOverrideOff | RemoteOn bool | WebRinse bool
  | BeginLease bool bool | ForwardLease | CompleteLease

fun cycleStep :: "CycleEnv \<Rightarrow> CycleCall \<Rightarrow> CycleState \<Rightarrow> CycleState" where
  "cycleStep env WakeGesture s = snd (serviceMachineWakeGesture env s)"
| "cycleStep env Guards s = serviceCupStartGuard (ceGuard env) (loopGuardInputs env)
     (serviceNoScaleShotGuard (ceGuard env) (loopGuardInputs env) (cyActive s) s)"
| "cycleStep env Task s = stateMachineTask env s"
| "cycleStep env (Sample w a q g) s = onShot (\<lambda>x. snd (recordWeightSample (ceShot env) w a q g x)) s"
| "cycleStep env (WebStop c) s = webStop env c s"
| "cycleStep env StateOverrideOff s = stateOverrideOff env s"
| "cycleStep env (RemoteOn override) s = remoteOn env override s"
| "cycleStep env (WebRinse override) s = webRinse env override s"
| "cycleStep env (BeginLease override restart) s = snd (beginMaintenanceLease env override restart s)"
| "cycleStep env ForwardLease s = forwardMaintenanceLease s"
| "cycleStep env CompleteLease s = completeMaintenanceLease env s"

fun runCycle :: "(CycleEnv \<times> CycleCall) list \<Rightarrow> CycleState \<Rightarrow> CycleState" where
  "runCycle [] s = s"
| "runCycle ((env, call) # calls) s = runCycle calls (cycleStep env call s)"

end
