(* ===== verification/Cycle_Facts.thy ===== *)
theory Cycle_Facts
  imports Cycle_Machine
begin

text \<open>
  Invariants of the control state machine over every order of its calls: the state of the
  stopper agrees with the session, the machine is told of the begin and the end of each cycle
  in strict alternation, a limit ends every cycle, and a machine that was stopped waits for
  the user's release.
\<close>

section \<open>What the calls on the shot leave alone\<close>

definition life :: "ShotSession \<Rightarrow> bool \<times> StopperState" where
  "life x = (ssActive x, stopperState x)"

lemma life_upd [simp]:
  "life (s\<lparr> automaticEnabled := xAutomaticEnabled \<rparr>) = life s"
  "life (s\<lparr> bbwProtectionEnabled := xBbwProtectionEnabled \<rparr>) = life s"
  "life (s\<lparr> startedWithScale := xStartedWithScale \<rparr>) = life s"
  "life (s\<lparr> scaleWasLost := xScaleWasLost \<rparr>) = life s"
  "life (s\<lparr> receivedFreshWeightInCycle := xReceivedFreshWeightInCycle \<rparr>) = life s"
  "life (s\<lparr> calibrationEligible := xCalibrationEligible \<rparr>) = life s"
  "life (s\<lparr> hasWeightAnchor := xHasWeightAnchor \<rparr>) = life s"
  "life (s\<lparr> directStopPending := xDirectStopPending \<rparr>) = life s"
  "life (s\<lparr> awaitingPostTareBaseline := xAwaitingPostTareBaseline \<rparr>) = life s"
  "life (s\<lparr> weightControlState := xWeightControlState \<rparr>) = life s"
  "life (s\<lparr> directStopReason := xDirectStopReason \<rparr>) = life s"
  "life (s\<lparr> thresholdConfirmations := xThresholdConfirmations \<rparr>) = life s"
  "life (s\<lparr> recoveryConfirmations := xRecoveryConfirmations \<rparr>) = life s"
  "life (s\<lparr> ssId := xSsId \<rparr>) = life s"
  "life (s\<lparr> scaleDisconnectSequenceAtStart := xScaleDisconnectSequenceAtStart \<rparr>) = life s"
  "life (s\<lparr> weightSequenceAtStart := xWeightSequenceAtStart \<rparr>) = life s"
  "life (s\<lparr> ownedConnectionGeneration := xOwnedConnectionGeneration \<rparr>) = life s"
  "life (s\<lparr> ssStartedAtMs := xSsStartedAtMs \<rparr>) = life s"
  "life (s\<lparr> circuitClosedAtMs := xCircuitClosedAtMs \<rparr>) = life s"
  "life (s\<lparr> postTareBaselineDeadlineMs := xPostTareBaselineDeadlineMs \<rparr>) = life s"
  "life (s\<lparr> lastAcceptedWeightAtMs := xLastAcceptedWeightAtMs \<rparr>) = life s"
  "life (s\<lparr> lastAcceptedPacketSequence := xLastAcceptedPacketSequence \<rparr>) = life s"
  "life (s\<lparr> lastThresholdAtMs := xLastThresholdAtMs \<rparr>) = life s"
  "life (s\<lparr> lastThresholdPacketSequence := xLastThresholdPacketSequence \<rparr>) = life s"
  "life (s\<lparr> lastThresholdConnectionGeneration := xLastThresholdConnectionGeneration \<rparr>) = life s"
  "life (s\<lparr> recoveryLastAtMs := xRecoveryLastAtMs \<rparr>) = life s"
  "life (s\<lparr> recoveryLastPacketSequence := xRecoveryLastPacketSequence \<rparr>) = life s"
  "life (s\<lparr> firstDropMs := xFirstDropMs \<rparr>) = life s"
  "life (s\<lparr> scaleBaselineG := xScaleBaselineG \<rparr>) = life s"
  "life (s\<lparr> scaleBaselineReady := xScaleBaselineReady \<rparr>) = life s"
  "life (s\<lparr> lastAcceptedWeightG := xLastAcceptedWeightG \<rparr>) = life s"
  "life (s\<lparr> recoveryLastWeightG := xRecoveryLastWeightG \<rparr>) = life s"
  "life (s\<lparr> retareEnded := xRetareEnded \<rparr>) = life s"
  "life (s\<lparr> bbwProtectionEnded := xBbwProtectionEnded \<rparr>) = life s"
  "life (s\<lparr> retarePerformed := xRetarePerformed \<rparr>) = life s"
  "life (s\<lparr> retareDisabled := xRetareDisabled \<rparr>) = life s"
  "life (s\<lparr> retareAtMs := xRetareAtMs \<rparr>) = life s"
  "life (s\<lparr> flowDuringRetare := xFlowDuringRetare \<rparr>) = life s"
  "life (s\<lparr> retareFlowFirstDetectedAtMs := xRetareFlowFirstDetectedAtMs \<rparr>) = life s"
  "life (s\<lparr> firstDropsBeepSent := xFirstDropsBeepSent \<rparr>) = life s"
  "life (s\<lparr> preTareWeightG := xPreTareWeightG \<rparr>) = life s"
  "life (s\<lparr> softwareZeroG := xSoftwareZeroG \<rparr>) = life s"
  "life (s\<lparr> firstDropObserved := xFirstDropObserved \<rparr>) = life s"
  "life (s\<lparr> retareEffectPending := xRetareEffectPending \<rparr>) = life s"
  "life (s\<lparr> ssConfig := xSsConfig \<rparr>) = life s"
  "life (s\<lparr> ssCut := xSsCut \<rparr>) = life s"
  "life (s\<lparr> ssPredictor := xSsPredictor \<rparr>) = life s"
  "life (s\<lparr> predictorQpX100 := xPredictorQpX100 \<rparr>) = life s"
  "life (s\<lparr> extractionExtended := xExtractionExtended \<rparr>) = life s"
  "life (s\<lparr> slowExtractionExtended := xSlowExtractionExtended \<rparr>) = life s"
  "life (s\<lparr> targetReachedEarly := xTargetReachedEarly \<rparr>) = life s"
  "life (s\<lparr> targetReachedAtMs := xTargetReachedAtMs \<rparr>) = life s"
  "life (s\<lparr> autoToManualGuardArmed := xAutoToManualGuardArmed \<rparr>) = life s"
  "life (s\<lparr> autoToManualGuardEnforced := xAutoToManualGuardEnforced \<rparr>) = life s"
  "life (s\<lparr> autoToManualGuardDeadlineAtMs := xAutoToManualGuardDeadlineAtMs \<rparr>) = life s"
  "life (s\<lparr> scaleLossSource := xScaleLossSource \<rparr>) = life s"
  "life (s\<lparr> scaleLossBlind := xScaleLossBlind \<rparr>) = life s"
  "life (s\<lparr> cupRemovedPending := xCupRemovedPending \<rparr>) = life s"
  "life (s\<lparr> accidentalTouchPhase := xAccidentalTouchPhase \<rparr>) = life s"
  "life (s\<lparr> accidentalTouchClass := xAccidentalTouchClass \<rparr>) = life s"
  "life (s\<lparr> accidentalTouchHolding := xAccidentalTouchHolding \<rparr>) = life s"
  "life (s\<lparr> accidentalTouchPendingG := xAccidentalTouchPendingG \<rparr>) = life s"
  "life (s\<lparr> accidentalTouchHeldSinceMs := xAccidentalTouchHeldSinceMs \<rparr>) = life s"
  "life (s\<lparr> accidentalTouchEpochS := xAccidentalTouchEpochS \<rparr>) = life s"
  "life (s\<lparr> touchStop := xTouchStop \<rparr>) = life s"
  "life (s\<lparr> shotStartMs := xShotStartMs \<rparr>) = life s"
  "life (s\<lparr> expectedEndMs := xExpectedEndMs \<rparr>) = life s"
  "life (s\<lparr> shotWeights := xShotWeights \<rparr>) = life s"
  "life (s\<lparr> weightStreamState := xWeightStreamState \<rparr>) = life s"
  "life (s\<lparr> ssOut := xSsOut \<rparr>) = life s"
  by (simp_all add: life_def)

lemma life_emit [simp]: "life (emit e s) = life s" "life (addDebug c a b s) = life s"
  by (simp_all add: emit_def addDebug_def)

lemma life_enforce [simp]: "life (enforceScaleLossBackup env s) = life s"
  by (simp add: enforceScaleLossBackup_def latchAtmCurveFromSession_def Let_def)

lemma life_control [simp]: "life (setWeightControlState env st s) = life s"
  by (simp add: setWeightControlState_def Let_def)

lemma life_trend [simp]: "life (resetWeightTrend s) = life s"
  by (simp add: resetWeightTrend_def resetAccidentalTouchState_def Let_def)

lemma life_suspend [simp]:
  "life (suspendWeightControl env s) = life s" "life (suspendStaleStream env s) = life s"
  "life (resetDirectStopConfirmation s) = life s" "life (markTareZeroReady s) = life s" "life (resetRecovery s) = life s"
  "life (markRetareEnded s) = life s" "life (rejectScaleSample env c w r s) = life s"
  by (simp_all add: suspendWeightControl_def suspendStaleStream_def resetDirectStopConfirmation_def markTareZeroReady_def
      resetRecovery_def markRetareEnded_def rejectScaleSample_def)

lemma life_expire [simp]: "life (expirePostTareBaseline env s) = life s"
  by (simp add: expirePostTareBaseline_def expirePostTareBaselineIfNeeded_def Let_def split: bool.split option.split)

lemma life_phases [simp]: "life (serviceBbwProtectionPhases env s) = life s"
  by (simp add: serviceBbwProtectionPhases_def Let_def)

lemma life_touch [simp]:
  "life (noteAccidentalTouchClass env cl w r a s) = life s" "life (considerTouchStopSample env w a q g p s) = life s"
  by (simp_all add: noteAccidentalTouchClass_def considerTouchStopSample_def Let_def case_prod_beta)

lemma life_evaluate [simp]: "life (snd (evaluateAccidentalTouchSample env w a s)) = life s"
  by (simp add: evaluateAccidentalTouchSample_def Let_def case_prod_beta)

lemma life_direct [simp]:
  "life (noteCutLineSegment env w t a s) = life s" "life (confirmSample a q g s) = life s"
  "life (decideDirectStop env wg ov s) = life s" "life (snd (weightCutReasonNow env s)) = life s"
  by (simp_all add: noteCutLineSegment_def confirmSample_def decideDirectStop_def weightCutReasonNow_def Let_def case_prod_beta)

lemma life_consider [simp]: "life (considerDirectStopSample env w a q g s) = life s"
  by (simp add: considerDirectStopSample_def Let_def split: option.split)

lemma life_predict [simp]: "life (predictFrom env t w s) = life s"
  by (simp add: predictFrom_def Let_def split: option.split)

lemma life_accept [simp]: "life (snd (acceptWeightIntoTrajectory env w a q s)) = life s"
  by (simp add: acceptWeightIntoTrajectory_def updateCutPrediction_def Let_def split: option.split prod.split)

lemma life_judge [simp]:
  "life (resumeControl env w a q g s) = life s" "life (snd (judgeSample env w a q g prov prev s)) = life s"
  "life (snd (recoverSample env w a q g prov prev pl s)) = life s" "life (outOfRangeSample env w a q g s) = life s"
  by (simp_all add: resumeControl_def judgeSample_def recoverSample_def outOfRangeSample_def Let_def case_prod_beta)

lemma life_sample [simp]: "life (snd (recordWeightSample env w a q g s)) = life s"
  by (simp add: recordWeightSample_def trackedSample_def Let_def)

lemma life_due [simp]: "life (snd (automaticScaleStopDue env s)) = life s"
  by (simp add: automaticScaleStopDue_def case_prod_beta)

lemma life_brew [simp]: "life (snd (serviceBrew env s)) = life s"
  by (simp add: serviceBrew_def Let_def case_prod_beta)

lemma life_start [simp]:
  "life (armAutoToManualGuardForAutomaticBrew env s) = life s" "life (initializeBbwProtection s) = life s"
  "life (armSmoothCut env l t s) = life s"
  "life (armPostTareBaselineWindow ce s) = life s" "life (stampStart ce s) = life s" "life (bindScale ce s) = life s"
  "life (captureCycleCircuitStart ce s) = life s"
  by (simp_all add: armAutoToManualGuardForAutomaticBrew_def initializeBbwProtection_def armSmoothCut_def
      armPostTareBaselineWindow_def stampStart_def bindScale_def anchorStartWeight_def captureCycleCircuitStart_def Let_def)

lemma life_tare [simp]: "life (armStartTare ce s) = life s"
  by (simp add: armStartTare_def orchestratePostTareBaselineArm_def)

section \<open>The status of the cycle\<close>

text \<open>The begin and end calls to the machine alternate; \<open>Some b\<close> says whether a cycle is open.\<close>

definition openStep :: "CycleEffect \<Rightarrow> bool option \<Rightarrow> bool option" where
  "openStep e acc = (case e of
       MachineBeginCycle _ \<Rightarrow> (if acc = Some False then Some True else None)
     | MachineEndCycle \<Rightarrow> (if acc = Some True then Some False else None)
     | _ \<Rightarrow> acc)"

definition openCycle :: "CycleEffect list \<Rightarrow> bool option" where
  "openCycle out = fold openStep out (Some False)"

definition status :: "CycleState \<Rightarrow> (bool \<times> StopperState) \<times> bool \<times> bool \<times> bool \<times> bool option" where
  "status s = (life (cyShot s), rinseTimerActive s, outboundShotActive s, maintenanceLease s \<noteq> None, openCycle (guOut s))"

lemma status_upd [simp]:
  "status (s\<lparr> noScaleShotGuardArmed := xNoScaleShotGuardArmed \<rparr>) = status s"
  "status (s\<lparr> noScaleShotGuardActivityAtMs := xNoScaleShotGuardActivityAtMs \<rparr>) = status s"
  "status (s\<lparr> noScaleShotGuardScaleWasAvailable := xNoScaleShotGuardScaleWasAvailable \<rparr>) = status s"
  "status (s\<lparr> noScaleShotGuardHold := xNoScaleShotGuardHold \<rparr>) = status s"
  "status (s\<lparr> noScaleShotGuardHoldAtMs := xNoScaleShotGuardHoldAtMs \<rparr>) = status s"
  "status (s\<lparr> noScaleGuardHistoryPending := xNoScaleGuardHistoryPending \<rparr>) = status s"
  "status (s\<lparr> noScaleShotGuardNeedsFreshActivator := xNoScaleShotGuardNeedsFreshActivator \<rparr>) = status s"
  "status (s\<lparr> noScaleRequireBypassReady := xNoScaleRequireBypassReady \<rparr>) = status s"
  "status (s\<lparr> noScaleRequireBypassHoldSeen := xNoScaleRequireBypassHoldSeen \<rparr>) = status s"
  "status (s\<lparr> noScaleRequireBypassCycles := xNoScaleRequireBypassCycles \<rparr>) = status s"
  "status (s\<lparr> noScaleRequireBypassStartedAtMs := xNoScaleRequireBypassStartedAtMs \<rparr>) = status s"
  "status (s\<lparr> noScaleRequireBypassCompletedThisLoop := xNoScaleRequireBypassCompletedThisLoop \<rparr>) = status s"
  "status (s\<lparr> cupStartGuardHold := xCupStartGuardHold \<rparr>) = status s"
  "status (s\<lparr> cupStartGuardHoldAtMs := xCupStartGuardHoldAtMs \<rparr>) = status s"
  "status (s\<lparr> cySource := xCySource \<rparr>) = status s"
  "status (s\<lparr> cyEndReason := xCyEndReason \<rparr>) = status s"
  "status (s\<lparr> cyRinseStartedAtMs := xCyRinseStartedAtMs \<rparr>) = status s"
  "status (s\<lparr> cyAutomaticBrew := xCyAutomaticBrew \<rparr>) = status s"
  "status (s\<lparr> nextCycleId := xNextCycleId \<rparr>) = status s"
  "status (s\<lparr> virtualHoldOn := xVirtualHoldOn \<rparr>) = status s"
  "status (s\<lparr> rinseClockDurationMs := xRinseClockDurationMs \<rparr>) = status s"
  "status (s\<lparr> rinseClockStartedAtMs := xRinseClockStartedAtMs \<rparr>) = status s"
  "status (s\<lparr> machineWakePassthroughActive := xMachineWakePassthroughActive \<rparr>) = status s"
  "status (s\<lparr> machineWakeStartedAtMs := xMachineWakeStartedAtMs \<rparr>) = status s"
  "status (s\<lparr> machineWakeGestureConsumedThisLoop := xMachineWakeGestureConsumedThisLoop \<rparr>) = status s"
  "status (s\<lparr> backflushPermit := xBackflushPermit \<rparr>) = status s"
  "status (s\<lparr> backflushRelayGeneration := xBackflushRelayGeneration \<rparr>) = status s"
  "status (s\<lparr> backflushSequence := xBackflushSequence \<rparr>) = status s"
  "status (s\<lparr> plannedRestartHeld := xPlannedRestartHeld \<rparr>) = status s"
  "status (s\<lparr> maintenanceCancellationPending := xMaintenanceCancellationPending \<rparr>) = status s"
  by (simp_all add: status_def)

lemma openCycle_snoc [simp]: "openCycle (out @ [e]) = openStep e (openCycle out)"
  by (simp add: openCycle_def)

definition quiet :: "CycleEffect \<Rightarrow> bool" where
  "quiet e \<longleftrightarrow> (\<forall>b. e \<noteq> MachineBeginCycle b) \<and> e \<noteq> MachineEndCycle"

lemma quiet_steps: "quiet e \<Longrightarrow> openStep e c = c"
  by (cases e) (auto simp: quiet_def openStep_def)

lemma status_tell [simp]: "quiet e \<Longrightarrow> status (tell e s) = status s"
  by (simp add: status_def tell_def quiet_steps)

lemma tell_sel [simp]:
  "cyShot (tell e s) = cyShot s" "guOut (tell e s) = guOut s @ [e]" "maintenanceLease (tell e s) = maintenanceLease s"
  by (simp_all add: tell_def)

lemma quiet_effects [simp]:
  "quiet (Note c a b)" "quiet (Alert al)" "quiet StopScaleCues" "quiet (MachineStart l w)" "quiet MachineStop" "quiet MachineWebStop"
  "quiet MachineEndRinse" "quiet (MachineBeginRinse l cont)" "quiet (SettledOff d)" "quiet StartBackflush" "quiet (FinishBackflush n)"
  "quiet (ScaleTimerStart n)" "quiet (ScaleTimerStopAfter n)" "quiet CancelPendingFinalize" "quiet (FinalizeShot r n)"
  "quiet (History k n nw)" "quiet (LastShot r n)" "quiet NtpSync"
  by (simp_all add: quiet_def)

lemma status_onShot [simp]: "life (f (cyShot s)) = life (cyShot s) \<Longrightarrow> status (onShot f s) = status s"
  by (simp add: onShot_def status_def)

lemma status_guards [simp]:
  "status (armNoScaleShotGuard s) = status s" "status (consumeNoScaleShotGuard v s) = status s"
  "status (maybeEmitManualNoScaleBeep v i s) = status s" "status (blockNoScaleShotGuard v s) = status s"
  "status (resetNoScaleRequireBypassGesture s) = status s" "status (cupStartBlocked v w s) = status s"
  "status (serviceCupStartGuard v i s) = status s"
  by (simp_all add: armNoScaleShotGuard_def consumeNoScaleShotGuard_def maybeEmitManualNoScaleBeep_def blockNoScaleShotGuard_def
      resetNoScaleRequireBypassGesture_def cupStartBlocked_def serviceCupStartGuard_def Let_def)

lemma status_bypass [simp]: "status (serviceNoScaleRequireBypassGesture v i a s) = status s"
  by (simp add: serviceNoScaleRequireBypassGesture_def bypassPressed_def bypassReleased_def
      temporarilyAllowNoScaleRequireMode_def Let_def)

lemma status_services [simp]:
  "status (serviceNoScaleHold v i a s) = status s" "status (serviceNoScaleShotGuard v i a s) = status s"
  by (simp_all add: serviceNoScaleHold_def serviceNoScaleShotGuard_def Let_def)

lemma status_small [simp]:
  "status (appendActivationHistory env r e d s) = status s" "status (endAlerts env r s) = status s"
  "status (abortGuardHistory env s) = status s"
  by (simp_all add: appendActivationHistory_def endAlerts_def abortGuardHistory_def Let_def)

text \<open>The operations that change the status, as functions of it.\<close>

type_synonym stat = "(bool \<times> StopperState) \<times> bool \<times> bool \<times> bool \<times> bool option"

fun goto :: "StopperState \<Rightarrow> stat \<Rightarrow> stat" where "goto st ((a, _), r) = ((a, st), r)"
fun liveTo :: "bool \<Rightarrow> stat \<Rightarrow> stat" where "liveTo w ((_, st), r) = ((w, st), r)"
fun rinseTo :: "bool \<Rightarrow> stat \<Rightarrow> stat" where "rinseTo w (x, _, y) = (x, w, y)"
fun outboundTo :: "bool \<Rightarrow> stat \<Rightarrow> stat" where "outboundTo w (x, r, _, y) = (x, r, w, y)"
fun machineTo :: "CycleEffect \<Rightarrow> stat \<Rightarrow> stat" where "machineTo e (x, r, b, l, c) = (x, r, b, l, openStep e c)"
fun leaseTo :: "bool \<Rightarrow> stat \<Rightarrow> stat" where "leaseTo w (x, r, b, _, c) = (x, r, b, w, c)"

lemma status_transition [simp]: "status (transitionTo st s) = goto st (status s)"
  by (simp add: transitionTo_def status_def tell_def onShot_def life_def openStep_def)

lemma status_moves [simp]:
  "status (rinseClear s) = rinseTo False (status s)" "status (rinseBegin dur at0 s) = rinseTo True (status s)"
  "status (s\<lparr> outboundShotActive := w \<rparr>) = outboundTo w (status s)"
  "status (tell MachineEndCycle s) = machineTo MachineEndCycle (status s)"
  "status (tell (MachineBeginCycle d) s) = machineTo (MachineBeginCycle d) (status s)"
  "status (s\<lparr> maintenanceLease := le \<rparr>) = leaseTo (le \<noteq> None) (status s)"
  by (simp_all add: status_def rinseClear_def tell_def rinseBegin_def)

lemma status_lives: "life (f (cyShot s)) = (w, cyStopper s) \<Longrightarrow> status (onShot f s) = liveTo w (status s)"
  by (simp add: status_def onShot_def life_def)

lemma status_refuse [simp]:
  "status (refuseStart s) = goto STOPPER_REQUIRES_OFF (machineTo MachineEndCycle (liveTo False (status s)))"
  unfolding refuseStart_def status_transition by (simp add: status_lives [of _ _ False] life_def)

lemma status_finalize [simp]:
  "status (snd (finalizeCycle env r st w s)) =
     goto st (machineTo MachineEndCycle (outboundTo False (liveTo False (rinseTo False (status s)))))"
  by (simp add: finalizeCycle_def Let_def status_lives [of _ _ False] life_def emit_def)

lemma status_sel:
  "fst (fst (status s)) = cyActive s" "snd (fst (status s)) = cyStopper s" "fst (snd (status s)) = rinseTimerActive s"
  "fst (snd (snd (status s))) = outboundShotActive s" "fst (snd (snd (snd (status s)))) \<longleftrightarrow> maintenanceLease s \<noteq> None"
  "snd (snd (snd (snd (status s)))) = openCycle (guOut s)"
  by (simp_all add: status_def life_def)

section \<open>The invariant\<close>

text \<open>In compatibility mode, which is fixed at boot, no cycle is ever open.\<close>

fun statOk :: "bool \<Rightarrow> stat \<Rightarrow> bool" where
  "statOk mirror ((a, st), r, b, l, c) \<longleftrightarrow>
     (a \<longleftrightarrow> st = STOPPER_BREW \<or> st = STOPPER_RINSE \<or> st = STOPPER_MANUAL_NO_SCALE) \<and> (st = STOPPER_RINSE \<longrightarrow> r) \<and>
     (b \<longrightarrow> a) \<and> (l \<longrightarrow> \<not> a) \<and> (mirror \<longrightarrow> \<not> a) \<and> c = Some a"

abbreviation "cycleOk mirror s \<equiv> statOk mirror (status s)"

lemma openStep_simps [simp]:
  "openStep (MachineBeginCycle d) (Some False) = Some True" "openStep MachineEndCycle (Some True) = Some False"
  by (simp_all add: openStep_def)

lemma cycle_finalize_ok:
  assumes "cycleOk mirror s" and "cyActive s" and "st = STOPPER_READY \<or> st = STOPPER_REQUIRES_OFF"
  shows "cycleOk mirror (snd (finalizeCycle env r st w s))"
proof -
  obtain a st0 rt b l c where s: "status s = ((a, st0), rt, b, l, c)" by (metis surj_pair)
  then have "a" using assms(2) status_sel(1) [of s] by simp
  then show ?thesis using assms(1,3) s by auto
qed

lemma goto_ok:
  assumes "cycleOk mirror s" and "\<not> cyActive s" and "st \<notin> {STOPPER_BREW, STOPPER_RINSE, STOPPER_MANUAL_NO_SCALE}"
  shows "cycleOk mirror (transitionTo st s)"
proof -
  obtain a st0 rt b l c where s: "status s = ((a, st0), rt, b, l, c)" by (metis surj_pair)
  then have "\<not> a" using assms(2) status_sel(1) [of s] by simp
  then show ?thesis using assms(1,3) s by auto
qed

lemma nextState_cases [simp]: "nextStateForUserHold env = STOPPER_READY \<or> nextStateForUserHold env = STOPPER_REQUIRES_OFF"
  by (simp add: nextStateForUserHold_def)

section \<open>Starting\<close>

lemma status_reset [simp]: "status (resetSessionForNewCycle env source s) = liveTo True (status s)"
  by (simp add: resetSessionForNewCycle_def Let_def status_def) (simp add: life_def armSmoothCut_def freshSession_def Let_def)

lemma status_trajectory [simp]: "status (resetShotTrajectory env s) = status s"
  by (simp add: resetShotTrajectory_def)

definition enterTarget :: "ShotSession \<Rightarrow> StopperState" where
  "enterTarget x = (if ccTimerOnly (ssConfig x) \<and> startedWithScale x \<or> automaticEnabled x then STOPPER_BREW
     else STOPPER_MANUAL_NO_SCALE)"

lemma status_enter [simp]: "status (enterBrewOrManualFromStart env s) = goto (enterTarget (cyShot s)) (status s)"
  by (simp add: enterBrewOrManualFromStart_def enterTarget_def Let_def)

lemma enterTarget_cases [simp]:
  "enterTarget x = STOPPER_BREW \<or> enterTarget x = STOPPER_MANUAL_NO_SCALE" "enterTarget x \<noteq> STOPPER_RINSE"
  by (simp_all add: enterTarget_def)

lemma idle_status:
  assumes "cycleOk mirror s" and "\<not> cyActive s" and "maintenanceLease s = None"
  obtains st r where "status s = ((False, st), r, False, False, Some False)" and
    "st \<notin> {STOPPER_BREW, STOPPER_RINSE, STOPPER_MANUAL_NO_SCALE}"
proof -
  obtain a st r b l c where s: "status s = ((a, st), r, b, l, c)" by (metis surj_pair)
  then have "\<not> a" "\<not> l" using assms(2,3) status_sel(1,5) [of s] by auto
  then show ?thesis using that assms(1) s by auto
qed

lemma startCycle_ok:
  assumes "cycleOk mirror s" and "\<not> cyActive s" and "maintenanceLease s = None" and "\<not> mirror"
  shows "cycleOk mirror (startCycle env source s)"
proof -
  obtain st r where s: "status s = ((False, st), r, False, False, Some False)" using idle_status [OF assms(1-3)] by blast
  show ?thesis
    unfolding startCycle_def Let_def by (simp add: s assms(4) if_distrib [of status])
qed

lemma startRinse_status:
  assumes "cycleOk mirror s" and "\<not> cyActive s" and "maintenanceLease s = None"
  shows "fst (startRinseCycle env source s) \<Longrightarrow> status (snd (startRinseCycle env source s)) =
      ((True, cyStopper s), rinseTimerActive s, False, False, Some True)"
    and "\<not> fst (startRinseCycle env source s) \<Longrightarrow> cycleOk mirror (snd (startRinseCycle env source s))"
proof -
  obtain st r where s: "status s = ((False, st), r, False, False, Some False)" using idle_status [OF assms] by blast
  have sel: "st = cyStopper s" "r = rinseTimerActive s" using status_sel(2,3) [of s] s by auto
  show "fst (startRinseCycle env source s) \<Longrightarrow> status (snd (startRinseCycle env source s)) =
      ((True, cyStopper s), rinseTimerActive s, False, False, Some True)"
    by (simp add: startRinseCycle_def Let_def s sel if_distrib [of status] split: if_splits)
  show "\<not> fst (startRinseCycle env source s) \<Longrightarrow> cycleOk mirror (snd (startRinseCycle env source s))"
    by (simp add: startRinseCycle_def Let_def s split: if_splits)
qed

lemma enterRinse_ok:
  assumes "status s = ((True, st), r, b, False, Some True)" and "b \<Longrightarrow> st = STOPPER_BREW \<or> st = STOPPER_MANUAL_NO_SCALE"
    and "\<not> mirror"
  shows "cycleOk mirror (enterRinse env s)"
proof -
  have sel: "cyStopper s = st" using status_sel(2) [of s] assms(1) by simp
  show ?thesis
    unfolding enterRinse_def Let_def using assms(2,3) by (auto simp: assms(1) sel if_distrib [of status])
qed

lemma active_open:
  assumes "cycleOk mirror s" and "cyActive s"
  obtains st r b where "status s = ((True, st), r, b, False, Some True)" and "\<not> mirror"
proof -
  obtain a st r b l c where s: "status s = ((a, st), r, b, l, c)" by (metis surj_pair)
  then have "a" using assms(2) status_sel(1) [of s] by auto
  then show ?thesis using that assms(1) s by auto
qed

lemma status_startGuards [simp]: "status (snd (startGuards env source s)) = status s"
  by (simp add: startGuards_def Let_def)

lemma status_rinseGuards [simp]: "status (snd (rinseGuards env source s)) = status s"
  by (simp add: rinseGuards_def Let_def)

lemma same_status: "status s1 = status s \<Longrightarrow> cyActive s1 = cyActive s \<and> (maintenanceLease s1 = None) = (maintenanceLease s = None) \<and>
    cyStopper s1 = cyStopper s \<and> rinseTimerActive s1 = rinseTimerActive s"
  using status_sel [of s] status_sel [of s1] by metis

lemma beginCycle_ok:
  assumes "cycleOk mirror s" and "\<not> cyActive s" and "maintenanceLease s = None" and "\<not> mirror"
  shows "cycleOk mirror (beginCycle env source s)"
proof -
  have k: "status (snd (startGuards env source s)) = status s" by simp
  show ?thesis
    using startCycle_ok [of mirror "snd (startGuards env source s)" env source] same_status [OF k] assms
    by (simp add: beginCycle_def Let_def)
qed

lemma beginRinse_ok:
  assumes "cycleOk mirror s" and "\<not> cyActive s" and "maintenanceLease s = None" and "\<not> mirror"
    and "beginRinseCycle env source s = (started, s1)" and "status s2 = status s1"
  shows "cycleOk mirror (if started then enterRinse env s2 else s1)"
proof -
  define g where "g = snd (rinseGuards env source s)"
  have k: "status g = status s" by (simp add: g_def)
  note gk = same_status [OF k]
  have ok: "cycleOk mirror g" "\<not> cyActive g" "maintenanceLease g = None" using k gk assms by simp_all
  show ?thesis
  proof (cases "fst (rinseGuards env source s) \<and> \<not> (backflushBusy (ceBackflush env) \<or> backflushActive (cyStopper s)) \<and>
      \<not> idleTareBlocksStart env (source = PHYSICAL)")
    case True
    then have e: "startRinseCycle env source g = (started, s1)"
      using assms(5) by (simp add: beginRinseCycle_def Let_def g_def split: if_splits)
    show ?thesis
    proof (cases started)
      case True
      then have "status s2 = ((True, cyStopper g), rinseTimerActive g, False, False, Some True)"
        using startRinse_status(1) [OF ok, of env source] e assms(6) by simp
      then show ?thesis using enterRinse_ok [of s2] True assms(4) by simp
    next
      case False
      then show ?thesis using startRinse_status(2) [OF ok, of env source] e by simp
    qed
  next
    case False
    then have "\<not> started" "s1 = s \<or> s1 = g"
      using assms(5) by (auto simp: beginRinseCycle_def Let_def g_def split: if_splits)
    then show ?thesis using assms(1) k by auto
  qed
qed
section \<open>The calls\<close>

lemma ok_status: "status s1 = status s \<Longrightarrow> cycleOk mirror s \<Longrightarrow> cycleOk mirror s1"
  by simp

lemma global_ok: "cycleOk mirror s \<Longrightarrow> cycleOk mirror (handleGlobalLimitTrip env s)"
proof -
  assume ok: "cycleOk mirror s"
  define s3 where "s3 = (let s1 = s\<lparr> machineWakePassthroughActive := False \<rparr>;
      s2 = (if ceTripConsumed env then tell (Note RELAY_OPENED_SEEN 0 0) s1 else s1)
    in if \<not> ceTripConsumed env \<and> snClosed (ceRelay env) then tell MachineStop s2 else s2)"
  have k: "status s3 = status s" by (simp add: s3_def Let_def)
  have e: "handleGlobalLimitTrip env s = (if \<not> cyActive s3 then transitionTo STOPPER_REQUIRES_OFF
        (if machineWakePassthroughActive s then tell (History HISTORY_POWER_ON (ceNow env - machineWakeStartedAtMs s) True) s3 else s3)
      else snd (finalizeCycle env GLOBAL_LIMIT STOPPER_REQUIRES_OFF False s3))"
    by (simp add: handleGlobalLimitTrip_def s3_def Let_def)
  show ?thesis
    unfolding e using cycle_finalize_ok [of mirror s3] goto_ok [of mirror s3 STOPPER_REQUIRES_OFF] ok k by simp
qed

lemma operational_ok: "cycleOk mirror s \<Longrightarrow> cycleOk mirror (handleOperationalLimitTrip env s)"
proof -
  assume ok: "cycleOk mirror s"
  define s3 where "s3 = (let s1 = s\<lparr> machineWakePassthroughActive := False \<rparr>;
      s2 = (if ceOperationalConsumed env then tell (Note RELAY_OPENED_SEEN 0 0) s1 else s1)
    in tell (Note OPERATIONAL_LIMIT_SEEN 0 0) s2)"
  have k: "status s3 = status s" by (simp add: s3_def Let_def)
  have e: "handleOperationalLimitTrip env s = (if \<not> cyActive s3 then transitionTo STOPPER_REQUIRES_OFF s3
      else snd (finalizeCycle env CONFIGURED_WALL_LIMIT STOPPER_REQUIRES_OFF False s3))"
    by (simp add: handleOperationalLimitTrip_def s3_def Let_def)
  show ?thesis
    unfolding e using cycle_finalize_ok [of mirror s3] goto_ok [of mirror s3] ok k by simp
qed

lemma lease_cases:
  assumes "cycleOk mirror s" and "maintenanceLease s \<noteq> None" 
  obtains st r where "status s = ((False, st), r, False, True, Some False)"
    and "st \<notin> {STOPPER_BREW, STOPPER_RINSE, STOPPER_MANUAL_NO_SCALE}"
proof -
  obtain a st r b l c where s: "status s = ((a, st), r, b, l, c)" by (metis surj_pair)
  then have "l" using assms(2) status_sel(5) [of s] by auto
  then show ?thesis using that assms(1) s by auto
qed

lemma leasePass_ok:
  assumes "cycleOk mirror s" and "maintenanceLease s \<noteq> None"
  shows "cycleOk mirror (serviceLeasePass env lease s)"
proof -
  obtain st r where s: "status s = ((False, st), r, False, True, Some False)"
    "st \<notin> {STOPPER_BREW, STOPPER_RINSE, STOPPER_MANUAL_NO_SCALE}" using lease_cases [OF assms] by blast
  show ?thesis unfolding serviceLeasePass_def Let_def using s by (auto simp: if_distrib [of status])
qed

lemma mirror_ok:
  assumes "cycleOk mirror s" and "\<not> cyActive s"
  shows "cycleOk mirror (serviceCompatibilityMirror env s)"
  using goto_ok [OF assms, of STOPPER_READY] goto_ok [OF assms, of STOPPER_REQUIRES_OFF] assms(1)
  by (simp add: serviceCompatibilityMirror_def Let_def if_distrib [of status])

lemma brewing_ok:
  assumes "cycleOk mirror s" and "cyActive s" and "cyStopper s = STOPPER_BREW \<or> cyStopper s = STOPPER_MANUAL_NO_SCALE"
  shows "cycleOk mirror (enterRinse env s)" "cycleOk mirror (endForUser env s)"
proof -
  obtain st r b where s: "status s = ((True, st), r, b, False, Some True)" "\<not> mirror"
    using active_open [OF assms(1,2)] by blast
  show "cycleOk mirror (enterRinse env s)"
    using enterRinse_ok [OF s(1) _ s(2)] assms(3) s status_sel(2) [of s] by simp
  show "cycleOk mirror (endForUser env s)"
    unfolding endForUser_def by (rule cycle_finalize_ok) (use assms(1,2) in simp_all)
qed

lemma serviceBrewing_ok:
  assumes "cycleOk mirror s" and "cyActive s" and "cyStopper s = STOPPER_BREW"
  shows "cycleOk mirror (serviceBrewing env s)"
proof -
  define s1 where "s1 = s\<lparr> cyShot := snd (serviceBrew (ceShot env) (cyShot s)) \<rparr>"
  have k: "status s1 = status s" by (simp add: s1_def status_def)
  have f: "cycleOk mirror (snd (finalizeCycle env r (nextStateForUserHold env) False s1))" for r
    using cycle_finalize_ok [of mirror s1 "nextStateForUserHold env"] k assms same_status [OF k] by simp
  show ?thesis
    unfolding serviceBrewing_def Let_def case_prod_beta s1_def [symmetric]
    using brewing_ok [OF assms(1,2)] assms(3) f k assms(1) by (simp split: option.split)
qed

lemma serviceManual_ok:
  assumes "cycleOk mirror s" and "cyActive s" and "cyStopper s = STOPPER_MANUAL_NO_SCALE"
  shows "cycleOk mirror (serviceManual env s)"
  unfolding serviceManual_def Let_def
  using brewing_ok [OF assms(1,2)] assms cycle_finalize_ok [OF assms(1,2)] by simp

lemma serviceReady_ok:
  assumes "cycleOk mirror s" and "cyStopper s = STOPPER_READY" and "maintenanceLease s = None" and "\<not> mirror"
  shows "cycleOk mirror (serviceReady env s)"
proof -
  have na: "\<not> cyActive s" using assms(1,2) status_sel [of s]
    by (metis (no_types, lifting) StopperState.distinct statOk.simps prod.collapse)
  define s1 where "s1 = (if inIntent (ceIntention env) = REQUEST_START then beginCycle env PHYSICAL s else s)"
  have ok1: "cycleOk mirror s1" using beginCycle_ok [OF assms(1) na assms(3,4)] assms(1) by (simp add: s1_def)
  define s2 where "s2 = (if inIntent (ceIntention env) = REQUEST_RINSE \<and> ceSupportsRinse env \<and>
      \<not> (noScaleBbwRequiresScale (ceMode env) \<and> noScaleShotGuardNeedsFreshActivator s1)
    then (if fst (beginRinseCycle env PHYSICAL s1)
      then enterRinse env ((snd (beginRinseCycle env PHYSICAL s1))\<lparr> noScaleShotGuardHold := False, cupStartGuardHold := False \<rparr>)
      else snd (beginRinseCycle env PHYSICAL s1))
    else s1)"
  have ok2: "cycleOk mirror s2"
  proof (cases "inIntent (ceIntention env) = REQUEST_RINSE")
    case True
    then have "s1 = s" by (simp add: s1_def)
    moreover obtain b x where bx: "beginRinseCycle env PHYSICAL s = (b, x)" by (cases "beginRinseCycle env PHYSICAL s")
    have "cycleOk mirror (if b then enterRinse env (x\<lparr> noScaleShotGuardHold := False, cupStartGuardHold := False \<rparr>) else x)"
      by (rule beginRinse_ok [OF assms(1) na assms(3,4) bx]) simp
    ultimately show ?thesis using assms(1) by (cases b) (simp_all add: s2_def bx)
  qed (use ok1 in \<open>simp add: s2_def\<close>)
  show ?thesis
    unfolding serviceReady_def Let_def s1_def [symmetric] s2_def [symmetric] using ok2 by simp
qed

lemma active_states:
  assumes "cycleOk mirror s"
  shows "cyActive s \<longleftrightarrow> cyStopper s = STOPPER_BREW \<or> cyStopper s = STOPPER_RINSE \<or> cyStopper s = STOPPER_MANUAL_NO_SCALE"
    and "mirror \<Longrightarrow> \<not> cyActive s" and "openCycle (guOut s) = Some (cyActive s)"
    and "cyStopper s = STOPPER_RINSE \<Longrightarrow> rinseTimerActive s" and "outboundShotActive s \<Longrightarrow> cyActive s"
    and "maintenanceLease s \<noteq> None \<Longrightarrow> \<not> cyActive s"
proof -
  obtain a st r b l c where s: "status s = ((a, st), r, b, l, c)" by (metis surj_pair)
  note S = assms [unfolded s] status_sel [of s, unfolded s, simplified]
  show "cyActive s \<longleftrightarrow> cyStopper s = STOPPER_BREW \<or> cyStopper s = STOPPER_RINSE \<or> cyStopper s = STOPPER_MANUAL_NO_SCALE"
    "mirror \<Longrightarrow> \<not> cyActive s" "openCycle (guOut s) = Some (cyActive s)"
    "cyStopper s = STOPPER_RINSE \<Longrightarrow> rinseTimerActive s" "outboundShotActive s \<Longrightarrow> cyActive s"
    "maintenanceLease s \<noteq> None \<Longrightarrow> \<not> cyActive s"
    using S by auto
qed

lemma stopper_ok:
  assumes "cycleOk mirror s" and "maintenanceLease s = None" and "\<not> mirror"
  shows "cycleOk mirror (serviceStopper env s)"
proof -
  have a: "cyActive s \<longleftrightarrow> cyStopper s = STOPPER_BREW \<or> cyStopper s = STOPPER_RINSE \<or> cyStopper s = STOPPER_MANUAL_NO_SCALE"
    by (rule active_states(1) [OF assms(1)])
  show ?thesis
    unfolding serviceStopper_def
    using a assms goto_ok [of mirror s STOPPER_READY] serviceReady_ok [OF assms(1)] serviceBrewing_ok [OF assms(1)]
      serviceManual_ok [OF assms(1)] cycle_finalize_ok [OF assms(1)]
    by (cases "cyStopper s") simp_all
qed

lemma ok_if: "(c \<Longrightarrow> cycleOk mirror x) \<Longrightarrow> (\<not> c \<Longrightarrow> cycleOk mirror y) \<Longrightarrow> cycleOk mirror (if c then x else y)"
  by simp

lemma ok_option:
  "(v = None \<Longrightarrow> cycleOk mirror x) \<Longrightarrow> (\<And>w. v = Some w \<Longrightarrow> cycleOk mirror (f w)) \<Longrightarrow>
    cycleOk mirror (case v of None \<Rightarrow> x | Some w \<Rightarrow> f w)"
  by (cases v) simp_all

lemma task_ok:
  assumes "cycleOk mirror s" and "ceCompatibility env = mirror"
  shows "cycleOk mirror (stateMachineTask env s)"
proof -
  have a: "\<not> cyActive s" if mirror using active_states(2) [OF assms(1)] that by simp
  show ?thesis
    unfolding stateMachineTask_def Let_def
    using assms global_ok [of mirror "tell (Note HARD_LIMIT_SEEN 0 0) s" env] operational_ok [of mirror s env]
      leasePass_ok [of mirror s env] mirror_ok [of mirror s env] a stopper_ok [of mirror s env]
      cycle_finalize_ok [of mirror s "nextStateForUserHold env" env]
    by (intro ok_if ok_option) simp_all
qed

lemma endBackflush_ok: "cycleOk mirror s \<Longrightarrow> \<not> cyActive s \<Longrightarrow> cycleOk mirror (endBackflush env c s)"
  using goto_ok [of mirror s STOPPER_REQUIRES_OFF] by (simp add: endBackflush_def Let_def)

lemma serviceBackflush_ok:
  assumes "cycleOk mirror s" and "\<not> cyActive s"
  shows "cycleOk mirror (serviceBackflush env s)"
proof -
  have e: "cycleOk mirror (endBackflush env c (s\<lparr> backflushSequence := q \<rparr>))" for c q
    by (rule endBackflush_ok) (use assms in simp_all)
  show ?thesis
    unfolding serviceBackflush_def Let_def case_prod_beta
    using assms e endBackflush_ok [OF assms] goto_ok [of mirror "s\<lparr> backflushSequence := q \<rparr>" STOPPER_BACKFLUSH_RUNNING for q]
    by (simp split: option.split)
qed

lemma admit_ok:
  assumes "cycleOk mirror s"
  shows "cycleOk mirror (admitBackflush env d p s)"
proof (cases "d = BACKFLUSH_CANDIDATE \<and> ceInitialized env \<and> cyStopper s = STOPPER_READY \<and> \<not> cyActive s \<and>
    maintenanceLease s = None \<and> cePowerOk env \<and> ceBackflushStarted env")
  case True
  define s3 where "s3 = transitionTo STOPPER_BACKFLUSH_CANDIDATE
    ((tell StartBackflush (s\<lparr> backflushPermit := p \<rparr>))\<lparr> backflushRelayGeneration := snGeneration (ceRelayAfter env),
       backflushSequence := bpSequence p \<rparr>)"
  have k: "status s3 = goto STOPPER_BACKFLUSH_CANDIDATE (status s)" by (simp add: s3_def)
  have "cycleOk mirror s3" "\<not> cyActive s3"
    using goto_ok [OF assms, of STOPPER_BACKFLUSH_CANDIDATE] True k status_sel(1) [of s3] status_sel(1) [of s]
    by (auto, cases "status s", auto)
  then show ?thesis
    using True endBackflush_ok [of mirror s3] by (simp add: admitBackflush_def Let_def s3_def [symmetric])
next
  case False
  define w where "w = (d = BACKFLUSH_CANDIDATE \<and> ceInitialized env \<and> cyStopper s = STOPPER_READY \<and>
    \<not> cyActive s \<and> maintenanceLease s = None)"
  define s1 where "s1 = (if w then s\<lparr> backflushPermit := p \<rparr> else s)"
  define s3 where "s3 = (tell (FinishBackflush (bpAttempt p)) (if w \<and> cePowerOk env then tell StartBackflush s1 else s1))
    \<lparr> backflushPermit := permit0 \<rparr>"
  have k: "status s3 = status s" by (simp add: s3_def s1_def)
  have n: "\<not> (w \<and> cePowerOk env \<and> ceBackflushStarted env)" using False by (auto simp: w_def)
  show ?thesis
    unfolding admitBackflush_def Let_def w_def [symmetric] s1_def [symmetric] if_not_P [OF n] s3_def [symmetric]
    using assms k goto_ok [of mirror s3 STOPPER_REQUIRES_OFF] by simp
qed

lemma wake_ok:
  assumes "cycleOk mirror s"
  shows "cycleOk mirror (snd (serviceMachineWakeGesture env s))"
proof -
  define s0 where "s0 = s\<lparr> machineWakeGestureConsumedThisLoop := False \<rparr>"
  define s1 where "s1 = s0\<lparr> machineWakeGestureConsumedThisLoop := True \<rparr>"
  have k: "status s0 = status s" "status s1 = status s" by (simp_all add: s0_def s1_def)
  have ok: "cycleOk mirror s1" using assms k by simp
  have a: "\<not> cyActive s1" if "backflushActive (cyStopper s0)"
    using that assms k status_sel(1,2) [of s0] status_sel(1) [of s1]
    by (cases "status s") (auto simp: backflushActive_def)
  show ?thesis
    unfolding serviceMachineWakeGesture_def Let_def s0_def [symmetric] s1_def [symmetric] case_prod_beta
      if_distrib [of snd] snd_conv
    using serviceBackflush_ok [OF ok a] admit_ok [OF ok] goto_ok [OF ok, of STOPPER_REQUIRES_OFF] assms k ok
    by (intro ok_if) simp_all
qed

lemma webStop_ok:
  assumes "cycleOk mirror s"
  shows "cycleOk mirror (webStop env c s)" "cycleOk mirror (stateOverrideOff env s)"
proof -
  have f: "cycleOk mirror (snd (finalizeCycle env r (nextStateForUserHold env) w (tell (Note n 0 i) s)))" if "cyActive s" for r w n i
    by (rule cycle_finalize_ok) (use assms that in simp_all)
  show "cycleOk mirror (webStop env c s)"
    unfolding webStop_def Let_def using assms f by (simp add: if_distrib [of status])
  show "cycleOk mirror (stateOverrideOff env s)"
    unfolding stateOverrideOff_def using assms cycle_finalize_ok [of mirror s] by simp
qed

lemma web_start_ok:
  assumes "cycleOk mirror s" and "ceCompatibility env = mirror"
  shows "cycleOk mirror (remoteOn env False s)" "cycleOk mirror (webRinse env False s)"
proof -
  define s1 where "s1 = beginCycle env WEB (s\<lparr> virtualHoldOn := True \<rparr>)"
  have b: "cycleOk mirror s1" if "controlAllowsConfigurationNow env s" "\<not> mirror"
    unfolding s1_def by (rule beginCycle_ok) (use assms that in \<open>simp_all add: controlAllowsConfigurationNow_def\<close>)
  show "cycleOk mirror (remoteOn env False s)"
    unfolding remoteOn_def Let_def s1_def [symmetric] webCommandAllowsUnsafeConfiguration_def using assms b by simp
  obtain st s2 where e: "beginRinseCycle env WEB s = (st, s2)" by (cases "beginRinseCycle env WEB s")
  have r: "cycleOk mirror (if st then enterRinse env s2 else s2)" if "controlAllowsConfigurationNow env s" "\<not> mirror"
    by (rule beginRinse_ok [OF assms(1) _ _ that(2) e]) (use that in \<open>simp_all add: controlAllowsConfigurationNow_def\<close>)
  show "cycleOk mirror (webRinse env False s)"
    unfolding webRinse_def webCommandAllowsUnsafeConfiguration_def beginWebRinse_def Let_def e using assms r by (cases st) simp_all
qed

lemma lease_ok:
  assumes "cycleOk mirror s"
  shows "cycleOk mirror (snd (beginMaintenanceLease env False restart s))"
    "cycleOk mirror (forwardMaintenanceLease s)" "cycleOk mirror (completeMaintenanceLease env s)"
proof -
  show "cycleOk mirror (snd (beginMaintenanceLease env False restart s))"
    using assms status_sel(1,5) [of s]
    by (cases "status s") (auto simp: beginMaintenanceLease_def controlAllowsConfigurationNow_def)
  show "cycleOk mirror (forwardMaintenanceLease s)"
    using assms status_sel(5) [of s]
    by (cases "status s") (auto simp: forwardMaintenanceLease_def split: option.split)
  show "cycleOk mirror (completeMaintenanceLease env s)"
  proof (cases "maintenanceLease s")
    case None
    then show ?thesis using assms by (simp add: completeMaintenanceLease_def)
  next
    case (Some lease)
    then obtain st r where s: "status s = ((False, st), r, False, True, Some False)"
      "st \<notin> {STOPPER_BREW, STOPPER_RINSE, STOPPER_MANUAL_NO_SCALE}" using lease_cases [OF assms] by auto
    then show ?thesis by (simp add: completeMaintenanceLease_def Let_def if_distrib [of status])
  qed
qed

text \<open>The calls a client makes without the unsafe override of the web interface.\<close>

fun plain :: "CycleCall \<Rightarrow> bool" where
  "plain (RemoteOn override) = (\<not> override)"
| "plain (WebRinse override) = (\<not> override)"
| "plain (BeginLease override _) = (\<not> override)"
| "plain _ = True"

lemma cycle_step_ok:
  assumes "cycleOk mirror s" and "plain call" and "ceCompatibility env = mirror"
  shows "cycleOk mirror (cycleStep env call s)"
  using assms wake_ok task_ok webStop_ok web_start_ok lease_ok by (cases call) simp_all

lemma run_ok:
  "cycleOk mirror s \<Longrightarrow> \<forall>(env, call) \<in> set calls. plain call \<and> ceCompatibility env = mirror \<Longrightarrow> cycleOk mirror (runCycle calls s)"
proof (induction calls arbitrary: s)
  case (Cons c calls)
  obtain env call where c: "c = (env, call)" by (cases c)
  have "cycleOk mirror (cycleStep env call s)" by (rule cycle_step_ok) (use Cons.prems c in auto)
  then show ?case using Cons.IH Cons.prems(2) c by simp
qed simp

end
