(* ===== verification/Cycle_Trace.thy ===== *)
theory Cycle_Trace
  imports Cycle_Facts
begin

text \<open>
  What the control state machine asks of the machine: the requests of a kind in the record of
  a run, and which calls add none of them.
\<close>

section \<open>Requests of a kind\<close>

definition seen :: "(CycleEffect \<Rightarrow> bool) \<Rightarrow> CycleState \<Rightarrow> CycleEffect list" where
  "seen P s = filter P (guOut s)"

text \<open>The requests that close the circuit, those that open it, and the entries of the history.\<close>

fun isStart :: "CycleEffect \<Rightarrow> bool" where
  "isStart (MachineStart _ _) = True"
| "isStart (MachineBeginRinse _ _) = True"
| "isStart StartBackflush = True"
| "isStart _ = False"

fun isStop :: "CycleEffect \<Rightarrow> bool" where
  "isStop MachineStop = True"
| "isStop MachineWebStop = True"
| "isStop MachineEndRinse = True"
| "isStop _ = False"

fun isRecord :: "CycleEffect \<Rightarrow> bool" where
  "isRecord (History _ _ _) = True"
| "isRecord (LastShot _ _) = True"
| "isRecord (FinalizeShot _ _) = True"
| "isRecord _ = False"

lemma seen_tell [simp]: "seen P (tell e s) = seen P s @ (if P e then [e] else [])"
  by (simp add: seen_def tell_def)

lemma seen_onShot [simp]: "seen P (onShot f s) = seen P s"
  by (simp add: seen_def onShot_def)

lemma seen_upd [simp]:
  "seen P (s\<lparr> noScaleShotGuardArmed := xNoScaleShotGuardArmed \<rparr>) = seen P s"
  "seen P (s\<lparr> noScaleShotGuardActivityAtMs := xNoScaleShotGuardActivityAtMs \<rparr>) = seen P s"
  "seen P (s\<lparr> noScaleShotGuardScaleWasAvailable := xNoScaleShotGuardScaleWasAvailable \<rparr>) = seen P s"
  "seen P (s\<lparr> noScaleShotGuardHold := xNoScaleShotGuardHold \<rparr>) = seen P s"
  "seen P (s\<lparr> noScaleShotGuardHoldAtMs := xNoScaleShotGuardHoldAtMs \<rparr>) = seen P s"
  "seen P (s\<lparr> noScaleGuardHistoryPending := xNoScaleGuardHistoryPending \<rparr>) = seen P s"
  "seen P (s\<lparr> noScaleShotGuardNeedsFreshActivator := xNoScaleShotGuardNeedsFreshActivator \<rparr>) = seen P s"
  "seen P (s\<lparr> noScaleRequireBypassReady := xNoScaleRequireBypassReady \<rparr>) = seen P s"
  "seen P (s\<lparr> noScaleRequireBypassHoldSeen := xNoScaleRequireBypassHoldSeen \<rparr>) = seen P s"
  "seen P (s\<lparr> noScaleRequireBypassCycles := xNoScaleRequireBypassCycles \<rparr>) = seen P s"
  "seen P (s\<lparr> noScaleRequireBypassStartedAtMs := xNoScaleRequireBypassStartedAtMs \<rparr>) = seen P s"
  "seen P (s\<lparr> noScaleRequireBypassCompletedThisLoop := xNoScaleRequireBypassCompletedThisLoop \<rparr>) = seen P s"
  "seen P (s\<lparr> cupStartGuardHold := xCupStartGuardHold \<rparr>) = seen P s"
  "seen P (s\<lparr> cupStartGuardHoldAtMs := xCupStartGuardHoldAtMs \<rparr>) = seen P s"
  "seen P (s\<lparr> cyShot := xCyShot \<rparr>) = seen P s"
  "seen P (s\<lparr> cySource := xCySource \<rparr>) = seen P s"
  "seen P (s\<lparr> cyEndReason := xCyEndReason \<rparr>) = seen P s"
  "seen P (s\<lparr> cyRinseStartedAtMs := xCyRinseStartedAtMs \<rparr>) = seen P s"
  "seen P (s\<lparr> cyAutomaticBrew := xCyAutomaticBrew \<rparr>) = seen P s"
  "seen P (s\<lparr> nextCycleId := xNextCycleId \<rparr>) = seen P s"
  "seen P (s\<lparr> virtualHoldOn := xVirtualHoldOn \<rparr>) = seen P s"
  "seen P (s\<lparr> outboundShotActive := xOutboundShotActive \<rparr>) = seen P s"
  "seen P (s\<lparr> rinseClockDurationMs := xRinseClockDurationMs \<rparr>) = seen P s"
  "seen P (s\<lparr> rinseClockStartedAtMs := xRinseClockStartedAtMs \<rparr>) = seen P s"
  "seen P (s\<lparr> rinseTimerActive := xRinseTimerActive \<rparr>) = seen P s"
  "seen P (s\<lparr> machineWakePassthroughActive := xMachineWakePassthroughActive \<rparr>) = seen P s"
  "seen P (s\<lparr> machineWakeStartedAtMs := xMachineWakeStartedAtMs \<rparr>) = seen P s"
  "seen P (s\<lparr> machineWakeGestureConsumedThisLoop := xMachineWakeGestureConsumedThisLoop \<rparr>) = seen P s"
  "seen P (s\<lparr> backflushPermit := xBackflushPermit \<rparr>) = seen P s"
  "seen P (s\<lparr> backflushRelayGeneration := xBackflushRelayGeneration \<rparr>) = seen P s"
  "seen P (s\<lparr> backflushSequence := xBackflushSequence \<rparr>) = seen P s"
  "seen P (s\<lparr> maintenanceLease := xMaintenanceLease \<rparr>) = seen P s"
  "seen P (s\<lparr> plannedRestartHeld := xPlannedRestartHeld \<rparr>) = seen P s"
  "seen P (s\<lparr> maintenanceCancellationPending := xMaintenanceCancellationPending \<rparr>) = seen P s"
  by (simp_all add: seen_def)

definition tells :: "(CycleEffect \<Rightarrow> bool) \<Rightarrow> bool" where
  "tells P \<longleftrightarrow> (\<forall>c a b. \<not> P (Note c a b)) \<and> (\<forall>a. \<not> P (Alert a))"

lemma quiet_kinds [simp]: "tells isStart" "tells isStop" "tells isRecord"
  by (simp_all add: tells_def)

lemma seen_moves [simp]:
  assumes "tells P"
  shows "seen P (transitionTo st s) = seen P s" "seen P (rinseClear s) = seen P s" "seen P (rinseBegin d t s) = seen P s"
    "seen P (endAlerts env r s) = seen P s" "seen P (resetShotTrajectory env s) = seen P s"
    "seen P (resetSessionForNewCycle env source s) = seen P s" "seen P (enterBrewOrManualFromStart env s) = seen P s"
  using assms by (simp_all add: tells_def transitionTo_def rinseClear_def rinseBegin_def endAlerts_def resetShotTrajectory_def
      resetSessionForNewCycle_def enterBrewOrManualFromStart_def Let_def)

lemma seen_guards [simp]:
  assumes "tells P"
  shows "seen P (consumeNoScaleShotGuard v s) = seen P s" "seen P (maybeEmitManualNoScaleBeep v i s) = seen P s"
    "seen P (blockNoScaleShotGuard v s) = seen P s" "seen P (cupStartBlocked v w s) = seen P s"
    "seen P (snd (startGuards env source s)) = seen P s" "seen P (snd (rinseGuards env source s)) = seen P s"
  using assms by (simp_all add: tells_def consumeNoScaleShotGuard_def maybeEmitManualNoScaleBeep_def blockNoScaleShotGuard_def
      cupStartBlocked_def startGuards_def rinseGuards_def Let_def)

lemma seen_refuse [simp]: "tells P \<Longrightarrow> \<not> P MachineEndCycle \<Longrightarrow> seen P (refuseStart s) = seen P s"
  by (simp add: refuseStart_def)

text \<open>The end of a cycle asks for one stop and for no start.\<close>

lemma seen_if: "seen P (if c then x else y) = (if c then seen P x else seen P y)"
  by simp

lemma seen_history [simp]: "\<forall>k d n. \<not> P (History k d n) \<Longrightarrow> seen P (appendActivationHistory env r e d s) = seen P s"
  by (simp add: appendActivationHistory_def)

definition stopRequest :: "EndReason \<Rightarrow> bool \<Rightarrow> CycleState \<Rightarrow> CycleEffect" where
  "stopRequest r w s = (if endingRinseCycle r s then MachineEndRinse else if w then MachineWebStop else MachineStop)"

lemma finalize_seen:
  assumes "tells P" and "\<And>d. \<not> P (SettledOff d)" and "\<And>n. \<not> P (ScaleTimerStopAfter n)" and "\<And>r n. \<not> P (FinalizeShot r n)"
    and "\<forall>k d n. \<not> P (History k d n)" and "\<And>r n. \<not> P (LastShot r n)" and "\<not> P MachineEndCycle"
  shows "seen P (snd (finalizeCycle env r st w s)) = seen P s @ (if P (stopRequest r w s) then [stopRequest r w s] else [])"
proof -
  define s2 where "s2 = tell (stopRequest r w s) (tell (SettledOff (brewWeightCutSettlesMachineOff r)) s)"
  have e: "stopRequest r w (tell (SettledOff (brewWeightCutSettlesMachineOff r)) s) = stopRequest r w s"
    by (simp add: stopRequest_def endingRinseCycle_def)
  have k: "\<not> P (Note c a b)" for c a b using assms(1) by (simp add: tells_def)
  have "seen P (snd (finalizeCycle env r st w s)) = seen P s2"
    unfolding finalizeCycle_def Let_def snd_conv stopRequest_def [symmetric] e s2_def [symmetric]
    using assms k by (simp add: seen_if)
  also have "\<dots> = seen P s @ (if P (stopRequest r w s) then [stopRequest r w s] else [])"
    using assms by (simp add: s2_def)
  finally show ?thesis .
qed

lemma stopRequest_kinds [simp]: "\<not> isStart (stopRequest r w s)" "isStop (stopRequest r w s)"
  by (simp_all add: stopRequest_def)

lemma finalize_starts [simp]: "seen isStart (snd (finalizeCycle env r st w s)) = seen isStart s"
  by (simp add: finalize_seen)

lemma finalize_stops [simp]: "seen isStop (snd (finalizeCycle env r st w s)) = seen isStop s @ [stopRequest r w s]"
  by (simp add: finalize_seen)

lemma stat_sel [simp]:
  "fst (fst (goto st x)) = fst (fst x)" "snd (fst (goto st x)) = st"
  "fst (machineTo e x) = fst x" "fst (outboundTo b x) = fst x" "fst (rinseTo b x) = fst x"
  "fst (fst (liveTo b x)) = b" "snd (fst (liveTo b x)) = snd (fst x)"
  by (cases x; cases "fst x"; simp)+

lemma finalize_state [simp]:
  "\<not> cyActive (snd (finalizeCycle env r st w s))" "cyStopper (snd (finalizeCycle env r st w s)) = st"
  using status_sel(1,2) [of "snd (finalizeCycle env r st w s)"] by simp_all

lemma transition_state [simp]:
  "cyActive (transitionTo st s) = cyActive s" "cyStopper (transitionTo st s) = st"
  using status_sel(1,2) [of "transitionTo st s"] status_sel(1) [of s] by simp_all

text \<open>Ending a cycle early by the user, or the web, is one of these ends.\<close>

lemma endForUser_starts [simp]: "seen isStart (endForUser env s) = seen isStart s"
  by (simp add: endForUser_def seen_if)

lemma global_seen:
  "seen isStart (handleGlobalLimitTrip env s) = seen isStart s"
  "cyActive s \<Longrightarrow> length (seen isStop (handleGlobalLimitTrip env s)) > length (seen isStop s)"
  "\<not> cyActive (handleGlobalLimitTrip env s)" "cyStopper (handleGlobalLimitTrip env s) = STOPPER_REQUIRES_OFF"
  by (simp_all add: handleGlobalLimitTrip_def Let_def seen_if)

lemma operational_seen:
  "seen isStart (handleOperationalLimitTrip env s) = seen isStart s"
  "cyActive s \<Longrightarrow> length (seen isStop (handleOperationalLimitTrip env s)) > length (seen isStop s)"
  "\<not> cyActive (handleOperationalLimitTrip env s)" "cyStopper (handleOperationalLimitTrip env s) = STOPPER_REQUIRES_OFF"
  by (simp_all add: handleOperationalLimitTrip_def Let_def seen_if)

section \<open>Starts that a guard refuses\<close>

lemma fst_startGuards_blocked:
  "noScaleShotGuardWouldBlock (ceGuard env) (loopGuardInputs env) s \<Longrightarrow> \<not> fst (startGuards env source s)"
  by (auto simp: startGuards_def Let_def noScaleShotGuardWouldBlock_def maybeEmitManualNoScaleBeep_def tell_def)

lemma beginCycle_blocked:
  assumes "noScaleShotGuardWouldBlock (ceGuard env) (loopGuardInputs env) s"
  shows "seen isStart (beginCycle env source s) = seen isStart s" and "status (beginCycle env source s) = status s"
  using fst_startGuards_blocked [OF assms, of source] by (simp_all add: beginCycle_def Let_def)

lemma fst_rinseGuards_blocked:
  assumes "noScaleShotGuardWouldBlock (ceGuard env) (loopGuardInputs env) s" and "noScaleBbwRequiresScale (ceMode env)"
  shows "\<not> fst (rinseGuards env source s)"
  using assms by (simp add: rinseGuards_def Let_def noScaleShotGuardWouldBlock_def)

lemma beginRinse_blocked:
  assumes "noScaleShotGuardWouldBlock (ceGuard env) (loopGuardInputs env) s" and "noScaleBbwRequiresScale (ceMode env)"
  shows "\<not> fst (beginRinseCycle env source s)" and "seen isStart (snd (beginRinseCycle env source s)) = seen isStart s"
    and "status (snd (beginRinseCycle env source s)) = status s"
  using fst_rinseGuards_blocked [OF assms, of source] by (simp_all add: beginRinseCycle_def Let_def)

end
