(* ===== verification/Brew_Facts.thy ===== *)
theory Brew_Facts
  imports Brew_Stop
begin

text \<open>
  What the weight stop promises over a whole shot: a cut has evidence, a shot over the line is
  cut, and a lost scale still ends the shot.
\<close>

section \<open>Runs\<close>

datatype ShotCall = WeightSample grams u32 u32 u32 | FirstDrops u32 grams | LateCup | ServiceBrew

fun shotStep :: "ShotEnv \<Rightarrow> ShotCall \<Rightarrow> ShotSession \<Rightarrow> ShotSession" where
  "shotStep env (WeightSample weight atMs sequence generation) s = snd (recordWeightSample env weight atMs sequence generation s)"
| "shotStep env (FirstDrops atMs weight) s = onFirstDropsDetected env atMs weight s"
| "shotStep env LateCup s = performAutomaticRetare env s"
| "shotStep env ServiceBrew s = snd (serviceBrew env s)"

fun runShot :: "(ShotEnv \<times> ShotCall) list \<Rightarrow> ShotSession \<Rightarrow> ShotSession" where
  "runShot [] s = s"
| "runShot ((env, call) # calls) s = runShot calls (shotStep env call s)"

lemma runShot_append: "runShot (xs @ ys) s = runShot ys (runShot xs s)"
  by (induction xs arbitrary: s) auto

section \<open>The confirmation counter\<close>

definition tally :: "ShotSession \<Rightarrow> u8 \<times> u32 \<times> u32 \<times> u32" where
  "tally s = (thresholdConfirmations s, lastThresholdAtMs s, lastThresholdPacketSequence s, lastThresholdConnectionGeneration s)"

text \<open>The line, the offset, the configuration and the protection: what no call but the named ones changes.\<close>

definition frame :: "ShotSession \<Rightarrow> Params \<times> int \<times> int \<times> CycleConfig \<times> bool \<times> bool \<times> bool \<times> u32" where
  "frame s = (csParams (ssCut s), csOffsetDg (ssCut s), csTauMs (ssCut s), ssConfig s, ssActive s, bbwProtectionEnabled s, bbwProtectionEnded s,
     ssStartedAtMs s)"

lemma tally_upd [simp]:
  "tally (s\<lparr> ssActive := xSsActive \<rparr>) = tally s"
  "tally (s\<lparr> automaticEnabled := xAutomaticEnabled \<rparr>) = tally s"
  "tally (s\<lparr> bbwProtectionEnabled := xBbwProtectionEnabled \<rparr>) = tally s"
  "tally (s\<lparr> startedWithScale := xStartedWithScale \<rparr>) = tally s"
  "tally (s\<lparr> scaleWasLost := xScaleWasLost \<rparr>) = tally s"
  "tally (s\<lparr> receivedFreshWeightInCycle := xReceivedFreshWeightInCycle \<rparr>) = tally s"
  "tally (s\<lparr> calibrationEligible := xCalibrationEligible \<rparr>) = tally s"
  "tally (s\<lparr> hasWeightAnchor := xHasWeightAnchor \<rparr>) = tally s"
  "tally (s\<lparr> directStopPending := xDirectStopPending \<rparr>) = tally s"
  "tally (s\<lparr> awaitingPostTareBaseline := xAwaitingPostTareBaseline \<rparr>) = tally s"
  "tally (s\<lparr> weightControlState := xWeightControlState \<rparr>) = tally s"
  "tally (s\<lparr> directStopReason := xDirectStopReason \<rparr>) = tally s"
  "tally (s\<lparr> recoveryConfirmations := xRecoveryConfirmations \<rparr>) = tally s"
  "tally (s\<lparr> ssId := xSsId \<rparr>) = tally s"
  "tally (s\<lparr> scaleDisconnectSequenceAtStart := xScaleDisconnectSequenceAtStart \<rparr>) = tally s"
  "tally (s\<lparr> weightSequenceAtStart := xWeightSequenceAtStart \<rparr>) = tally s"
  "tally (s\<lparr> ownedConnectionGeneration := xOwnedConnectionGeneration \<rparr>) = tally s"
  "tally (s\<lparr> ssStartedAtMs := xSsStartedAtMs \<rparr>) = tally s"
  "tally (s\<lparr> circuitClosedAtMs := xCircuitClosedAtMs \<rparr>) = tally s"
  "tally (s\<lparr> postTareBaselineDeadlineMs := xPostTareBaselineDeadlineMs \<rparr>) = tally s"
  "tally (s\<lparr> lastAcceptedWeightAtMs := xLastAcceptedWeightAtMs \<rparr>) = tally s"
  "tally (s\<lparr> lastAcceptedPacketSequence := xLastAcceptedPacketSequence \<rparr>) = tally s"
  "tally (s\<lparr> recoveryLastAtMs := xRecoveryLastAtMs \<rparr>) = tally s"
  "tally (s\<lparr> recoveryLastPacketSequence := xRecoveryLastPacketSequence \<rparr>) = tally s"
  "tally (s\<lparr> firstDropMs := xFirstDropMs \<rparr>) = tally s"
  "tally (s\<lparr> scaleBaselineG := xScaleBaselineG \<rparr>) = tally s"
  "tally (s\<lparr> scaleBaselineReady := xScaleBaselineReady \<rparr>) = tally s"
  "tally (s\<lparr> lastAcceptedWeightG := xLastAcceptedWeightG \<rparr>) = tally s"
  "tally (s\<lparr> recoveryLastWeightG := xRecoveryLastWeightG \<rparr>) = tally s"
  "tally (s\<lparr> retareEnded := xRetareEnded \<rparr>) = tally s"
  "tally (s\<lparr> bbwProtectionEnded := xBbwProtectionEnded \<rparr>) = tally s"
  "tally (s\<lparr> retarePerformed := xRetarePerformed \<rparr>) = tally s"
  "tally (s\<lparr> retareDisabled := xRetareDisabled \<rparr>) = tally s"
  "tally (s\<lparr> retareAtMs := xRetareAtMs \<rparr>) = tally s"
  "tally (s\<lparr> flowDuringRetare := xFlowDuringRetare \<rparr>) = tally s"
  "tally (s\<lparr> retareFlowFirstDetectedAtMs := xRetareFlowFirstDetectedAtMs \<rparr>) = tally s"
  "tally (s\<lparr> firstDropsBeepSent := xFirstDropsBeepSent \<rparr>) = tally s"
  "tally (s\<lparr> preTareWeightG := xPreTareWeightG \<rparr>) = tally s"
  "tally (s\<lparr> softwareZeroG := xSoftwareZeroG \<rparr>) = tally s"
  "tally (s\<lparr> firstDropObserved := xFirstDropObserved \<rparr>) = tally s"
  "tally (s\<lparr> retareEffectPending := xRetareEffectPending \<rparr>) = tally s"
  "tally (s\<lparr> ssConfig := xSsConfig \<rparr>) = tally s"
  "tally (s\<lparr> ssCut := xSsCut \<rparr>) = tally s"
  "tally (s\<lparr> ssPredictor := xSsPredictor \<rparr>) = tally s"
  "tally (s\<lparr> predictorQpX100 := xPredictorQpX100 \<rparr>) = tally s"
  "tally (s\<lparr> extractionExtended := xExtractionExtended \<rparr>) = tally s"
  "tally (s\<lparr> slowExtractionExtended := xSlowExtractionExtended \<rparr>) = tally s"
  "tally (s\<lparr> targetReachedEarly := xTargetReachedEarly \<rparr>) = tally s"
  "tally (s\<lparr> targetReachedAtMs := xTargetReachedAtMs \<rparr>) = tally s"
  "tally (s\<lparr> autoToManualGuardArmed := xAutoToManualGuardArmed \<rparr>) = tally s"
  "tally (s\<lparr> autoToManualGuardEnforced := xAutoToManualGuardEnforced \<rparr>) = tally s"
  "tally (s\<lparr> autoToManualGuardDeadlineAtMs := xAutoToManualGuardDeadlineAtMs \<rparr>) = tally s"
  "tally (s\<lparr> scaleLossSource := xScaleLossSource \<rparr>) = tally s"
  "tally (s\<lparr> scaleLossBlind := xScaleLossBlind \<rparr>) = tally s"
  "tally (s\<lparr> cupRemovedPending := xCupRemovedPending \<rparr>) = tally s"
  "tally (s\<lparr> accidentalTouchPhase := xAccidentalTouchPhase \<rparr>) = tally s"
  "tally (s\<lparr> accidentalTouchClass := xAccidentalTouchClass \<rparr>) = tally s"
  "tally (s\<lparr> accidentalTouchHolding := xAccidentalTouchHolding \<rparr>) = tally s"
  "tally (s\<lparr> accidentalTouchPendingG := xAccidentalTouchPendingG \<rparr>) = tally s"
  "tally (s\<lparr> accidentalTouchHeldSinceMs := xAccidentalTouchHeldSinceMs \<rparr>) = tally s"
  "tally (s\<lparr> accidentalTouchEpochS := xAccidentalTouchEpochS \<rparr>) = tally s"
  "tally (s\<lparr> touchStop := xTouchStop \<rparr>) = tally s"
  "tally (s\<lparr> shotStartMs := xShotStartMs \<rparr>) = tally s"
  "tally (s\<lparr> expectedEndMs := xExpectedEndMs \<rparr>) = tally s"
  "tally (s\<lparr> shotWeights := xShotWeights \<rparr>) = tally s"
  "tally (s\<lparr> weightStreamState := xWeightStreamState \<rparr>) = tally s"
  "tally (s\<lparr> stopperState := xStopperState \<rparr>) = tally s"
  "tally (s\<lparr> ssOut := xSsOut \<rparr>) = tally s"
  by (simp_all add: tally_def)

lemma frame_upd [simp]:
  "frame (s\<lparr> automaticEnabled := xAutomaticEnabled \<rparr>) = frame s"
  "frame (s\<lparr> startedWithScale := xStartedWithScale \<rparr>) = frame s"
  "frame (s\<lparr> scaleWasLost := xScaleWasLost \<rparr>) = frame s"
  "frame (s\<lparr> receivedFreshWeightInCycle := xReceivedFreshWeightInCycle \<rparr>) = frame s"
  "frame (s\<lparr> calibrationEligible := xCalibrationEligible \<rparr>) = frame s"
  "frame (s\<lparr> hasWeightAnchor := xHasWeightAnchor \<rparr>) = frame s"
  "frame (s\<lparr> directStopPending := xDirectStopPending \<rparr>) = frame s"
  "frame (s\<lparr> awaitingPostTareBaseline := xAwaitingPostTareBaseline \<rparr>) = frame s"
  "frame (s\<lparr> weightControlState := xWeightControlState \<rparr>) = frame s"
  "frame (s\<lparr> directStopReason := xDirectStopReason \<rparr>) = frame s"
  "frame (s\<lparr> thresholdConfirmations := xThresholdConfirmations \<rparr>) = frame s"
  "frame (s\<lparr> recoveryConfirmations := xRecoveryConfirmations \<rparr>) = frame s"
  "frame (s\<lparr> ssId := xSsId \<rparr>) = frame s"
  "frame (s\<lparr> scaleDisconnectSequenceAtStart := xScaleDisconnectSequenceAtStart \<rparr>) = frame s"
  "frame (s\<lparr> weightSequenceAtStart := xWeightSequenceAtStart \<rparr>) = frame s"
  "frame (s\<lparr> ownedConnectionGeneration := xOwnedConnectionGeneration \<rparr>) = frame s"
  "frame (s\<lparr> circuitClosedAtMs := xCircuitClosedAtMs \<rparr>) = frame s"
  "frame (s\<lparr> postTareBaselineDeadlineMs := xPostTareBaselineDeadlineMs \<rparr>) = frame s"
  "frame (s\<lparr> lastAcceptedWeightAtMs := xLastAcceptedWeightAtMs \<rparr>) = frame s"
  "frame (s\<lparr> lastAcceptedPacketSequence := xLastAcceptedPacketSequence \<rparr>) = frame s"
  "frame (s\<lparr> lastThresholdAtMs := xLastThresholdAtMs \<rparr>) = frame s"
  "frame (s\<lparr> lastThresholdPacketSequence := xLastThresholdPacketSequence \<rparr>) = frame s"
  "frame (s\<lparr> lastThresholdConnectionGeneration := xLastThresholdConnectionGeneration \<rparr>) = frame s"
  "frame (s\<lparr> recoveryLastAtMs := xRecoveryLastAtMs \<rparr>) = frame s"
  "frame (s\<lparr> recoveryLastPacketSequence := xRecoveryLastPacketSequence \<rparr>) = frame s"
  "frame (s\<lparr> firstDropMs := xFirstDropMs \<rparr>) = frame s"
  "frame (s\<lparr> scaleBaselineG := xScaleBaselineG \<rparr>) = frame s"
  "frame (s\<lparr> scaleBaselineReady := xScaleBaselineReady \<rparr>) = frame s"
  "frame (s\<lparr> lastAcceptedWeightG := xLastAcceptedWeightG \<rparr>) = frame s"
  "frame (s\<lparr> recoveryLastWeightG := xRecoveryLastWeightG \<rparr>) = frame s"
  "frame (s\<lparr> retareEnded := xRetareEnded \<rparr>) = frame s"
  "frame (s\<lparr> retarePerformed := xRetarePerformed \<rparr>) = frame s"
  "frame (s\<lparr> retareDisabled := xRetareDisabled \<rparr>) = frame s"
  "frame (s\<lparr> retareAtMs := xRetareAtMs \<rparr>) = frame s"
  "frame (s\<lparr> flowDuringRetare := xFlowDuringRetare \<rparr>) = frame s"
  "frame (s\<lparr> retareFlowFirstDetectedAtMs := xRetareFlowFirstDetectedAtMs \<rparr>) = frame s"
  "frame (s\<lparr> firstDropsBeepSent := xFirstDropsBeepSent \<rparr>) = frame s"
  "frame (s\<lparr> preTareWeightG := xPreTareWeightG \<rparr>) = frame s"
  "frame (s\<lparr> softwareZeroG := xSoftwareZeroG \<rparr>) = frame s"
  "frame (s\<lparr> firstDropObserved := xFirstDropObserved \<rparr>) = frame s"
  "frame (s\<lparr> retareEffectPending := xRetareEffectPending \<rparr>) = frame s"
  "frame (s\<lparr> ssPredictor := xSsPredictor \<rparr>) = frame s"
  "frame (s\<lparr> predictorQpX100 := xPredictorQpX100 \<rparr>) = frame s"
  "frame (s\<lparr> extractionExtended := xExtractionExtended \<rparr>) = frame s"
  "frame (s\<lparr> slowExtractionExtended := xSlowExtractionExtended \<rparr>) = frame s"
  "frame (s\<lparr> targetReachedEarly := xTargetReachedEarly \<rparr>) = frame s"
  "frame (s\<lparr> targetReachedAtMs := xTargetReachedAtMs \<rparr>) = frame s"
  "frame (s\<lparr> autoToManualGuardArmed := xAutoToManualGuardArmed \<rparr>) = frame s"
  "frame (s\<lparr> autoToManualGuardEnforced := xAutoToManualGuardEnforced \<rparr>) = frame s"
  "frame (s\<lparr> autoToManualGuardDeadlineAtMs := xAutoToManualGuardDeadlineAtMs \<rparr>) = frame s"
  "frame (s\<lparr> scaleLossSource := xScaleLossSource \<rparr>) = frame s"
  "frame (s\<lparr> scaleLossBlind := xScaleLossBlind \<rparr>) = frame s"
  "frame (s\<lparr> cupRemovedPending := xCupRemovedPending \<rparr>) = frame s"
  "frame (s\<lparr> accidentalTouchPhase := xAccidentalTouchPhase \<rparr>) = frame s"
  "frame (s\<lparr> accidentalTouchClass := xAccidentalTouchClass \<rparr>) = frame s"
  "frame (s\<lparr> accidentalTouchHolding := xAccidentalTouchHolding \<rparr>) = frame s"
  "frame (s\<lparr> accidentalTouchPendingG := xAccidentalTouchPendingG \<rparr>) = frame s"
  "frame (s\<lparr> accidentalTouchHeldSinceMs := xAccidentalTouchHeldSinceMs \<rparr>) = frame s"
  "frame (s\<lparr> accidentalTouchEpochS := xAccidentalTouchEpochS \<rparr>) = frame s"
  "frame (s\<lparr> touchStop := xTouchStop \<rparr>) = frame s"
  "frame (s\<lparr> shotStartMs := xShotStartMs \<rparr>) = frame s"
  "frame (s\<lparr> expectedEndMs := xExpectedEndMs \<rparr>) = frame s"
  "frame (s\<lparr> shotWeights := xShotWeights \<rparr>) = frame s"
  "frame (s\<lparr> weightStreamState := xWeightStreamState \<rparr>) = frame s"
  "frame (s\<lparr> stopperState := xStopperState \<rparr>) = frame s"
  "frame (s\<lparr> ssOut := xSsOut \<rparr>) = frame s"
  by (simp_all add: frame_def)

lemma emit_keeps [simp]: "tally (emit e s) = tally s" "frame (emit e s) = frame s" "expectedEndMs (emit e s) = expectedEndMs s"
  "weightControlState (emit e s) = weightControlState s" "autoToManualGuardEnforced (emit e s) = autoToManualGuardEnforced s"
  "autoToManualGuardArmed (emit e s) = autoToManualGuardArmed s"
  "autoToManualGuardDeadlineAtMs (emit e s) = autoToManualGuardDeadlineAtMs s" "ssCut (emit e s) = ssCut s"
  by (simp_all add: emit_def tally_def frame_def)

lemma addDebug_keeps [simp]: "tally (addDebug c a b s) = tally s" "frame (addDebug c a b s) = frame s"
  "expectedEndMs (addDebug c a b s) = expectedEndMs s" "weightControlState (addDebug c a b s) = weightControlState s"
  "autoToManualGuardEnforced (addDebug c a b s) = autoToManualGuardEnforced s"
  "autoToManualGuardArmed (addDebug c a b s) = autoToManualGuardArmed s"
  "autoToManualGuardDeadlineAtMs (addDebug c a b s) = autoToManualGuardDeadlineAtMs s" "ssCut (addDebug c a b s) = ssCut s"
  by (simp_all add: addDebug_def)

lemma latch_keeps [simp]: "tally (latchAtmCurveFromSession env s) = tally s" "frame (latchAtmCurveFromSession env s) = frame s"
  by (simp_all add: latchAtmCurveFromSession_def)

lemma enforce_keeps [simp]: "tally (enforceScaleLossBackup env s) = tally s" "frame (enforceScaleLossBackup env s) = frame s"
  by (simp_all add: enforceScaleLossBackup_def Let_def)

lemma control_keeps [simp]: "tally (setWeightControlState env st s) = tally s" "frame (setWeightControlState env st s) = frame s"
  by (simp_all add: setWeightControlState_def Let_def)

lemma trend_keeps [simp]: "tally (resetWeightTrend s) = tally s" "frame (resetWeightTrend s) = frame s"
  by (simp_all add: resetWeightTrend_def resetAccidentalTouchState_def Let_def tally_def frame_def emit_def)

lemma cut_upd [simp]:
  "csParams c = csParams (ssCut s) \<Longrightarrow> csOffsetDg c = csOffsetDg (ssCut s) \<Longrightarrow> csTauMs c = csTauMs (ssCut s) \<Longrightarrow>
   frame (s\<lparr> ssCut := c \<rparr>) = frame s"
  by (simp add: frame_def)

lemma small_keeps [simp]:
  "tally (suspendWeightControl env s) = tally s" "frame (suspendWeightControl env s) = frame s"
  "tally (rejectScaleSample env c w r s) = tally s" "frame (rejectScaleSample env c w r s) = frame s"
  "tally (resetRecovery s) = tally s" "frame (resetRecovery s) = frame s"
  "tally (noteAccidentalTouchClass env cl w r a s) = tally s" "frame (noteAccidentalTouchClass env cl w r a s) = frame s"
  "tally (markTareZeroReady s) = tally s" "frame (markTareZeroReady s) = frame s"
  by (simp_all add: suspendWeightControl_def rejectScaleSample_def resetRecovery_def noteAccidentalTouchClass_def
      markTareZeroReady_def Let_def)

lemma evaluate_keeps [simp]: "tally (snd (evaluateAccidentalTouchSample env w a s)) = tally s"
  "frame (snd (evaluateAccidentalTouchSample env w a s)) = frame s"
  by (simp_all add: evaluateAccidentalTouchSample_def Let_def case_prod_beta)

lemma expire_keeps [simp]: "tally (expirePostTareBaseline env s) = tally s" "frame (expirePostTareBaseline env s) = frame s"
  by (simp_all add: expirePostTareBaseline_def expirePostTareBaselineIfNeeded_def Let_def split: option.split bool.split)

lemma segment_keeps [simp]: "tally (noteCutLineSegment env w t a s) = tally s" "frame (noteCutLineSegment env w t a s) = frame s"
  by (simp_all add: noteCutLineSegment_def Let_def)

lemma touch_keeps [simp]: "tally (considerTouchStopSample env w a q g p s) = tally s"
  "frame (considerTouchStopSample env w a q g p s) = frame s"
  by (simp_all add: considerTouchStopSample_def Let_def split: prod.split)

lemma resume_keeps [simp]: "tally (resumeControl env w a q g s) = tally s" "frame (resumeControl env w a q g s) = frame s"
  by (simp_all add: resumeControl_def Let_def)

lemma decide_keeps [simp]: "tally (decideDirectStop env w ov s) = tally s" "frame (decideDirectStop env w ov s) = frame s"
  by (simp_all add: decideDirectStop_def weightCutReasonNow_def Let_def)

lemma predict_keeps [simp]: "tally (updateCutPrediction env w a s) = tally s"
  by (simp add: updateCutPrediction_def predictFrom_def Let_def tally_upd split: option.split prod.split)

lemma accept_keeps [simp]: "tally (snd (acceptWeightIntoTrajectory env w a q s)) = tally s"
  by (simp add: acceptWeightIntoTrajectory_def Let_def)

lemma reset_tally [simp]: "thresholdConfirmations (resetDirectStopConfirmation s) = 0" "frame (resetDirectStopConfirmation s) = frame s"
  by (simp_all add: resetDirectStopConfirmation_def)

lemma tally_conf: "tally s = tally s' \<Longrightarrow> thresholdConfirmations s = thresholdConfirmations s'"
  by (simp add: tally_def)

lemma over_frame: "frame s = frame s' \<Longrightarrow> overThreshold env w a s = overThreshold env w a s'"
  by (simp add: overThreshold_def cutLineAtDg_def frame_def split: option.split)

lemma inhibited_frame: "frame s = frame s' \<Longrightarrow> bbwWeightStopInhibited s = bbwWeightStopInhibited s'"
  by (simp add: bbwWeightStopInhibited_def bbwProtectionActive_def bbwAutomaticScaleSession_def frame_def)

lemma confirm_tally: "tally s = tally s' \<Longrightarrow> tally (confirmSample a q g s) = tally (confirmSample a q g s')"
  by (simp add: tally_def confirmSample_def Let_def)

section \<open>What one sample does to the counter\<close>

text \<open>A reading that counts as evidence: at or over the line, or beyond the scale's range, with the stop not inhibited.\<close>

definition counts :: "ShotEnv \<Rightarrow> grams \<Rightarrow> u32 \<Rightarrow> ShotSession \<Rightarrow> bool" where
  "counts env weight atMs s \<longleftrightarrow>
     (overThreshold env weight atMs s \<or> abs weight > MAX_AUTOMATION_WEIGHT_G) \<and> \<not> bbwWeightStopInhibited s"

lemma counts_frame: "frame s = frame s' \<Longrightarrow> counts env w a s = counts env w a s'"
  by (simp add: counts_def over_frame [of s s'] inhibited_frame [of s s'])

text \<open>From \<open>s\<close> to \<open>s'\<close> the counter is as it was, cleared, or advanced by this reading.\<close>

definition counterStep :: "ShotEnv \<Rightarrow> grams \<Rightarrow> u32 \<Rightarrow> u32 \<Rightarrow> u32 \<Rightarrow> ShotSession \<Rightarrow> ShotSession \<Rightarrow> bool" where
  "counterStep env w a q g s s' \<longleftrightarrow> tally s' = tally s \<or> thresholdConfirmations s' = 0 \<or>
     (tally s' = tally (confirmSample a q g s) \<and> counts env w a s)"

lemma counterStep_same: "tally s' = tally s \<Longrightarrow> counterStep env w a q g s s'"
  by (simp add: counterStep_def)

lemma counterStep_before:
  "tally s1 = tally s \<Longrightarrow> frame s1 = frame s \<Longrightarrow> counterStep env w a q g s1 s' \<Longrightarrow> counterStep env w a q g s s'"
  unfolding counterStep_def using counts_frame [of s1 s] confirm_tally [of s1 s] by auto

lemma counterStep_after: "tally s'' = tally s' \<Longrightarrow> counterStep env w a q g s s' \<Longrightarrow> counterStep env w a q g s s''"
  unfolding counterStep_def using tally_conf by metis

lemma consider_counter: "counterStep env w a q g s (considerDirectStopSample env w a q g s)"
proof -
  let ?ov = "abs w > MAX_AUTOMATION_WEIGHT_G"
  define s1 where "s1 = (case shotTimeAtMs env a of
      Some shotMs \<Rightarrow> if ?ov then s else noteCutLineSegment env (gramsToDg env w) shotMs a s | None \<Rightarrow> s)"
  have k: "tally s1 = tally s" "frame s1 = frame s" by (simp_all add: s1_def split: option.split)
  define gate where "gate \<longleftrightarrow> \<not> shouldTrackWeight s \<or> q = 0 \<or> bbwWeightStopInhibited s \<or>
     (\<not> ?ov \<and> weightControlState s \<noteq> WC_ACTIVE) \<or>
     (?ov \<and> weightControlState s \<noteq> WC_ACTIVE \<and> weightControlState s \<noteq> WC_VALIDATING)"
  have e: "considerDirectStopSample env w a q g s =
     (if gate then s
      else if \<not> overThreshold env w a s1 \<and> \<not> ?ov then resetDirectStopConfirmation s1
      else decideDirectStop env w ?ov (confirmSample a q g s1))"
    unfolding considerDirectStopSample_def Let_def s1_def [symmetric] gate_def by auto
  consider "gate" | "\<not> gate" "\<not> overThreshold env w a s1 \<and> \<not> ?ov" | "\<not> gate" "overThreshold env w a s1 \<or> ?ov"
    by blast
  then show ?thesis
  proof cases
    case 3
    then have "counts env w a s"
      using over_frame [OF k(2)] by (simp add: counts_def gate_def)
    moreover have "\<not> (\<not> overThreshold env w a s1 \<and> \<not> ?ov)" using 3 by blast
    ultimately show ?thesis
      unfolding e if_not_P [OF 3(1)] counterStep_def using confirm_tally [OF k(1)] by simp
  qed (simp_all add: e counterStep_def)
qed

lemma judge_counter: "counterStep env w a q g s (snd (judgeSample env w a q g prov prev s))"
proof -
  define verdict where "verdict = (if accidentalTouchSessionActive s then evaluateAccidentalTouchSample env w a s else (TOUCH_OK, s))"
  define s1 where "s1 = snd verdict"
  have k: "tally s1 = tally s" "frame s1 = frame s" by (simp_all add: s1_def verdict_def)
  show ?thesis
  proof (cases "accidentalTouchSessionActive s \<and> fst verdict = TOUCH")
    case True
    let ?r = "resetDirectStopConfirmation (emit (CurveAccept w a True) s1)"
    have "tally (snd (judgeSample env w a q g prov prev s)) = tally ?r"
      unfolding judgeSample_def Let_def verdict_def [symmetric] case_prod_beta s1_def [symmetric] if_P [OF True] by simp
    then have "thresholdConfirmations (snd (judgeSample env w a q g prov prev s)) = 0"
      using tally_conf reset_tally(1) by metis
    then show ?thesis by (simp add: counterStep_def)
  next
    case False
    have "tally (snd (judgeSample env w a q g prov prev s)) = tally (considerDirectStopSample env w a q g s1)"
      unfolding judgeSample_def Let_def verdict_def [symmetric] case_prod_beta s1_def [symmetric] if_not_P [OF False] by simp
    then show ?thesis
      using counterStep_before [OF k consider_counter] counterStep_after by blast
  qed
qed

lemma recover_counter: "counterStep env w a q g s (snd (recoverSample env w a q g prov prev pl s))"
  unfolding recoverSample_def Let_def
  by (auto intro: counterStep_same judge_counter counterStep_before [OF _ _ judge_counter])

lemma range_counter: "counterStep env w a q g s (outOfRangeSample env w a q g s)"
proof (cases "abs w > MAX_AUTOMATION_WEIGHT_G")
  case True
  show ?thesis
    unfolding outOfRangeSample_def Let_def if_P [OF True]
    by (rule counterStep_after [OF _ consider_counter]) simp
qed (simp add: outOfRangeSample_def Let_def counterStep_same)

lemma tracked_counter: "counterStep env w a q g s (snd (trackedSample env w a q g prov prev s))"
proof -
  define s1 where "s1 = (if (weightControlState s = WC_ACTIVE \<or> weightControlState s = WC_VALIDATING) \<and>
      ownedConnectionGeneration s \<noteq> 0 \<and> g \<noteq> ownedConnectionGeneration s then suspendWeightControl env s else s)"
  have k1: "tally s1 = tally s" "frame s1 = frame s" by (simp_all add: s1_def)
  define s2 where "s2 = (if awaitingPostTareBaseline s1 \<and> retareEffectPending s1 \<and>
      deadlineReached a (postTareBaselineDeadlineMs s1) then expirePostTareBaseline env s1 else s1)"
  have k2: "tally s2 = tally s" "frame s2 = frame s" using k1 by (simp_all add: s2_def)
  have r: "counterStep env w a q g s (outOfRangeSample env w a q g s1)"
    by (rule counterStep_before [OF k1 range_counter])
  have v: "counterStep env w a q g s (snd (recoverSample env w a q g prov prev pl s2))" for pl
    by (rule counterStep_before [OF k2 recover_counter])
  show ?thesis
    unfolding trackedSample_def Let_def s1_def [symmetric] s2_def [symmetric]
    using r v k1 k2 by (auto intro!: counterStep_same)
qed

section \<open>The counter over a run\<close>

text \<open>Call \<open>n\<close> of the run is a sample, with this time, packet number and connection, that counts as evidence.\<close>

definition overAt :: "(ShotEnv \<times> ShotCall) list \<Rightarrow> ShotSession \<Rightarrow> nat \<Rightarrow> u32 \<Rightarrow> u32 \<Rightarrow> u32 \<Rightarrow> bool" where
  "overAt calls s0 n a q g \<longleftrightarrow> n < length calls \<and>
     (case calls ! n of (env, call) \<Rightarrow>
        let s = runShot (take n calls) s0 in
        \<exists>reading q0 g0. call = WeightSample reading a q0 g0 \<and> q = sampleSequence s q0 \<and> g = sampleGeneration s g0 \<and>
          counts env (shotWeight env s reading) a s)"

definition evidence :: "(ShotEnv \<times> ShotCall) list \<Rightarrow> ShotSession \<Rightarrow> u32 \<Rightarrow> u32 \<Rightarrow> u32 \<Rightarrow> bool" where
  "evidence calls s0 a q g \<longleftrightarrow> (\<exists>m n a1. m < n \<and> overAt calls s0 m a1 (q - 1) g \<and> overAt calls s0 n a q g \<and>
     0 < sint (a - a1) \<and> a - a1 \<le> DIRECT_STOP_CONFIRMATION_WINDOW_MS)"

definition counted :: "(ShotEnv \<times> ShotCall) list \<Rightarrow> ShotSession \<Rightarrow> bool" where
  "counted calls s0 \<longleftrightarrow> (let s = runShot calls s0;
       a = lastThresholdAtMs s; q = lastThresholdPacketSequence s; g = lastThresholdConnectionGeneration s in
     (0 < thresholdConfirmations s \<longrightarrow> (\<exists>n. overAt calls s0 n a q g)) \<and>
     (1 < thresholdConfirmations s \<longrightarrow> evidence calls s0 a q g))"

lemma overAt_extend: "overAt calls s0 n a q g \<Longrightarrow> overAt (calls @ later) s0 n a q g"
  by (simp add: overAt_def nth_append)

lemma evidence_extend: "evidence calls s0 a q g \<Longrightarrow> evidence (calls @ later) s0 a q g"
  unfolding evidence_def using overAt_extend by meson

lemma counted_extend:
  assumes "counted calls s0" and "tally (runShot (calls @ later) s0) = tally (runShot calls s0) \<or> thresholdConfirmations (runShot (calls @ later) s0) = 0"
  shows "counted (calls @ later) s0"
  using assms overAt_extend evidence_extend unfolding counted_def Let_def tally_def by (metis prod.inject word_not_simps(1))

lemma service_counter: "tally (snd (serviceBrew env s)) = tally s \<or> thresholdConfirmations (snd (serviceBrew env s)) = 0"
proof -
  define s1 where "s1 = serviceBbwProtectionPhases env (expirePostTareBaseline env s)"
  have k1: "tally s1 = tally s \<or> thresholdConfirmations s1 = 0"
    by (simp add: s1_def serviceBbwProtectionPhases_def markRetareEnded_def Let_def)
  have due: "tally (snd (automaticScaleStopDue env s2)) = tally s2" for s2
    by (simp add: automaticScaleStopDue_def weightCutReasonNow_def Let_def)
  have stale: "tally (suspendStaleStream env s1) = tally s1" by (simp add: suspendStaleStream_def)
  have "tally (snd (serviceBrew env s)) = tally s1"
    unfolding serviceBrew_def Let_def s1_def [symmetric]
    using due [of "suspendStaleStream env s1"] stale by (auto simp: case_prod_beta)
  then show ?thesis using k1 tally_conf by metis
qed

lemma other_counter: "tally (onFirstDropsDetected env a w s) = tally s" "tally (performAutomaticRetare env s) = tally s"
  by (simp_all add: onFirstDropsDetected_def performAutomaticRetare_def recordFirstDropTimestamp_def requestFirstDropBeep_def
      notifyRetareFlowDetected_def markRetareEnded_def Let_def split: option.split)

lemma record_counter:
  "tally (snd (recordWeightSample env r a q g s)) = tally s \<or> thresholdConfirmations (snd (recordWeightSample env r a q g s)) = 0 \<or>
   (tally (snd (recordWeightSample env r a q g s)) = tally (confirmSample a (sampleSequence s q) (sampleGeneration s g) s) \<and>
    counts env (shotWeight env s r) a s)"
proof -
  let ?s = "s\<lparr> touchStop := touchStop0 \<rparr>"
  have e: "sampleSequence ?s q = sampleSequence s q" "sampleGeneration ?s g = sampleGeneration s g"
    "shotWeight env ?s r = shotWeight env s r"
    by (simp_all add: sampleSequence_def sampleGeneration_def shotWeight_def)
  have c: "counterStep env w a q' g' s (snd (trackedSample env w a q' g' prov prev ?s))" for w q' g' prov prev
    by (rule counterStep_before [OF _ _ tracked_counter]) simp_all
  show ?thesis
    unfolding recordWeightSample_def Let_def e using c [unfolded counterStep_def] by auto
qed

lemma counted_run: "thresholdConfirmations s0 = 0 \<Longrightarrow> counted calls s0"
proof (induction calls rule: rev_induct)
  case Nil
  then show ?case by (simp add: counted_def)
next
  case (snoc ec calls)
  obtain env call where ec: "ec = (env, call)" by fastforce
  let ?s = "runShot calls s0"
  have run: "runShot (calls @ [ec]) s0 = shotStep env call ?s" by (simp add: runShot_append ec)
  have IH: "counted calls s0" using snoc by simp
  have keep: "counted (calls @ [ec]) s0"
    if "tally (shotStep env call ?s) = tally ?s \<or> thresholdConfirmations (shotStep env call ?s) = 0"
    using counted_extend [OF IH, of "[ec]"] that run by simp
  show ?case
  proof (cases call)
    case (WeightSample r a q g)
    let ?q = "sampleSequence ?s q" and ?g = "sampleGeneration ?s g"
    consider "tally (shotStep env call ?s) = tally ?s \<or> thresholdConfirmations (shotStep env call ?s) = 0"
      | "tally (shotStep env call ?s) = tally (confirmSample a ?q ?g ?s)" "counts env (shotWeight env ?s r) a ?s"
      using record_counter [of env r a q g ?s] WeightSample by auto
    then show ?thesis
    proof cases
      case 2
      have new: "overAt (calls @ [ec]) s0 (length calls) a ?q ?g"
        using 2(2) WeightSample by (simp add: overAt_def ec)
      let ?t = "shotStep env call ?s"
      have last3: "lastThresholdAtMs ?t = a" "lastThresholdPacketSequence ?t = ?q" "lastThresholdConnectionGeneration ?t = ?g"
        using 2(1) by (simp_all add: tally_def confirmSample_def Let_def)
      have two: "evidence (calls @ [ec]) s0 a ?q ?g" if c: "1 < thresholdConfirmations ?t"
      proof -
        have g: "0 < thresholdConfirmations ?s" "?g = lastThresholdConnectionGeneration ?s"
          "?q = lastThresholdPacketSequence ?s + 1" "0 < sint (a - lastThresholdAtMs ?s)"
          "a - lastThresholdAtMs ?s \<le> DIRECT_STOP_CONFIRMATION_WINDOW_MS"
          using 2(1) c by (auto simp: tally_def confirmSample_def Let_def split: if_splits)
        obtain m where m: "overAt calls s0 m (lastThresholdAtMs ?s) (?q - 1) ?g"
          using IH g(1-3) by (auto simp: counted_def Let_def)
        then have "m < length calls" by (simp add: overAt_def)
        then show ?thesis
          unfolding evidence_def using overAt_extend [OF m, of "[ec]"] new g(4,5) by blast
      qed
      show ?thesis
        unfolding counted_def Let_def run last3 using new two by blast
    qed (rule keep)
  qed (use keep other_counter service_counter in \<open>simp_all\<close>)
qed

section \<open>The predicted time over a run\<close>

text \<open>The predicted time, with what it was computed from.\<close>

definition aim :: "ShotSession \<Rightarrow> int \<times> Params \<times> int \<times> int \<times> bool \<times> int" where
  "aim s = (expectedEndMs s, csParams (ssCut s), csTauMs (ssCut s), csOffsetDg (ssCut s),
     reValid (csRate (ssCut s)), reRateX100 (csRate (ssCut s)))"

definition unaimed :: "ShotSession \<Rightarrow> bool" where
  "unaimed s \<longleftrightarrow> expectedEndMs s = NO_CUT_PREDICTION_MS"

text \<open>
  A prediction made from a sample: at the shot time and with the weight of that sample, and with the
  flow the estimator then holds as valid, the projected weight meets the line at the predicted time.
\<close>

definition aimed :: "ShotEnv \<Rightarrow> grams \<Rightarrow> u32 \<Rightarrow> ShotSession \<Rightarrow> bool" where
  "aimed env w a s \<longleftrightarrow> (case aim s of (t, p, tau, off, valid, rate) \<Rightarrow>
     valid \<and> t < wallMs p \<and> (\<exists>tk. shotTimeAtMs env a = Some tk \<and> lineMet p tk (gramsToDg env w) rate tau off t))"

text \<open>A sample leaves the prediction, drops it, or makes one from itself.\<close>

definition aimStep :: "ShotEnv \<Rightarrow> grams \<Rightarrow> u32 \<Rightarrow> ShotSession \<Rightarrow> ShotSession \<Rightarrow> bool" where
  "aimStep env w a s s' \<longleftrightarrow> unaimed s' \<or> aim s' = aim s \<or> aimed env w a s'"

lemma aimStep_same: "aim s' = aim s \<Longrightarrow> aimStep env w a s s'"
  by (simp add: aimStep_def)

lemma unaimed_aim: "aim s = aim s' \<Longrightarrow> unaimed s = unaimed s'"
  by (simp add: aim_def unaimed_def)

lemma aimStep_before: "aim s1 = aim s \<or> unaimed s1 \<Longrightarrow> aimStep env w a s1 s' \<Longrightarrow> aimStep env w a s s'"
  using unaimed_aim unfolding aimStep_def by metis

lemma aimStep_after: "aim s' = aim s1 \<Longrightarrow> aimStep env w a s s1 \<Longrightarrow> aimStep env w a s s'"
  unfolding aimStep_def aimed_def using unaimed_aim [of s' s1] by simp

lemma aim_upd [simp]:
  "aim (s\<lparr> ssActive := xSsActive \<rparr>) = aim s"
  "aim (s\<lparr> automaticEnabled := xAutomaticEnabled \<rparr>) = aim s"
  "aim (s\<lparr> bbwProtectionEnabled := xBbwProtectionEnabled \<rparr>) = aim s"
  "aim (s\<lparr> startedWithScale := xStartedWithScale \<rparr>) = aim s"
  "aim (s\<lparr> scaleWasLost := xScaleWasLost \<rparr>) = aim s"
  "aim (s\<lparr> receivedFreshWeightInCycle := xReceivedFreshWeightInCycle \<rparr>) = aim s"
  "aim (s\<lparr> calibrationEligible := xCalibrationEligible \<rparr>) = aim s"
  "aim (s\<lparr> hasWeightAnchor := xHasWeightAnchor \<rparr>) = aim s"
  "aim (s\<lparr> directStopPending := xDirectStopPending \<rparr>) = aim s"
  "aim (s\<lparr> awaitingPostTareBaseline := xAwaitingPostTareBaseline \<rparr>) = aim s"
  "aim (s\<lparr> weightControlState := xWeightControlState \<rparr>) = aim s"
  "aim (s\<lparr> directStopReason := xDirectStopReason \<rparr>) = aim s"
  "aim (s\<lparr> thresholdConfirmations := xThresholdConfirmations \<rparr>) = aim s"
  "aim (s\<lparr> recoveryConfirmations := xRecoveryConfirmations \<rparr>) = aim s"
  "aim (s\<lparr> ssId := xSsId \<rparr>) = aim s"
  "aim (s\<lparr> scaleDisconnectSequenceAtStart := xScaleDisconnectSequenceAtStart \<rparr>) = aim s"
  "aim (s\<lparr> weightSequenceAtStart := xWeightSequenceAtStart \<rparr>) = aim s"
  "aim (s\<lparr> ownedConnectionGeneration := xOwnedConnectionGeneration \<rparr>) = aim s"
  "aim (s\<lparr> ssStartedAtMs := xSsStartedAtMs \<rparr>) = aim s"
  "aim (s\<lparr> circuitClosedAtMs := xCircuitClosedAtMs \<rparr>) = aim s"
  "aim (s\<lparr> postTareBaselineDeadlineMs := xPostTareBaselineDeadlineMs \<rparr>) = aim s"
  "aim (s\<lparr> lastAcceptedWeightAtMs := xLastAcceptedWeightAtMs \<rparr>) = aim s"
  "aim (s\<lparr> lastAcceptedPacketSequence := xLastAcceptedPacketSequence \<rparr>) = aim s"
  "aim (s\<lparr> lastThresholdAtMs := xLastThresholdAtMs \<rparr>) = aim s"
  "aim (s\<lparr> lastThresholdPacketSequence := xLastThresholdPacketSequence \<rparr>) = aim s"
  "aim (s\<lparr> lastThresholdConnectionGeneration := xLastThresholdConnectionGeneration \<rparr>) = aim s"
  "aim (s\<lparr> recoveryLastAtMs := xRecoveryLastAtMs \<rparr>) = aim s"
  "aim (s\<lparr> recoveryLastPacketSequence := xRecoveryLastPacketSequence \<rparr>) = aim s"
  "aim (s\<lparr> firstDropMs := xFirstDropMs \<rparr>) = aim s"
  "aim (s\<lparr> scaleBaselineG := xScaleBaselineG \<rparr>) = aim s"
  "aim (s\<lparr> scaleBaselineReady := xScaleBaselineReady \<rparr>) = aim s"
  "aim (s\<lparr> lastAcceptedWeightG := xLastAcceptedWeightG \<rparr>) = aim s"
  "aim (s\<lparr> recoveryLastWeightG := xRecoveryLastWeightG \<rparr>) = aim s"
  "aim (s\<lparr> retareEnded := xRetareEnded \<rparr>) = aim s"
  "aim (s\<lparr> bbwProtectionEnded := xBbwProtectionEnded \<rparr>) = aim s"
  "aim (s\<lparr> retarePerformed := xRetarePerformed \<rparr>) = aim s"
  "aim (s\<lparr> retareDisabled := xRetareDisabled \<rparr>) = aim s"
  "aim (s\<lparr> retareAtMs := xRetareAtMs \<rparr>) = aim s"
  "aim (s\<lparr> flowDuringRetare := xFlowDuringRetare \<rparr>) = aim s"
  "aim (s\<lparr> retareFlowFirstDetectedAtMs := xRetareFlowFirstDetectedAtMs \<rparr>) = aim s"
  "aim (s\<lparr> firstDropsBeepSent := xFirstDropsBeepSent \<rparr>) = aim s"
  "aim (s\<lparr> preTareWeightG := xPreTareWeightG \<rparr>) = aim s"
  "aim (s\<lparr> softwareZeroG := xSoftwareZeroG \<rparr>) = aim s"
  "aim (s\<lparr> firstDropObserved := xFirstDropObserved \<rparr>) = aim s"
  "aim (s\<lparr> retareEffectPending := xRetareEffectPending \<rparr>) = aim s"
  "aim (s\<lparr> ssConfig := xSsConfig \<rparr>) = aim s"
  "aim (s\<lparr> ssPredictor := xSsPredictor \<rparr>) = aim s"
  "aim (s\<lparr> predictorQpX100 := xPredictorQpX100 \<rparr>) = aim s"
  "aim (s\<lparr> extractionExtended := xExtractionExtended \<rparr>) = aim s"
  "aim (s\<lparr> slowExtractionExtended := xSlowExtractionExtended \<rparr>) = aim s"
  "aim (s\<lparr> targetReachedEarly := xTargetReachedEarly \<rparr>) = aim s"
  "aim (s\<lparr> targetReachedAtMs := xTargetReachedAtMs \<rparr>) = aim s"
  "aim (s\<lparr> autoToManualGuardArmed := xAutoToManualGuardArmed \<rparr>) = aim s"
  "aim (s\<lparr> autoToManualGuardEnforced := xAutoToManualGuardEnforced \<rparr>) = aim s"
  "aim (s\<lparr> autoToManualGuardDeadlineAtMs := xAutoToManualGuardDeadlineAtMs \<rparr>) = aim s"
  "aim (s\<lparr> scaleLossSource := xScaleLossSource \<rparr>) = aim s"
  "aim (s\<lparr> scaleLossBlind := xScaleLossBlind \<rparr>) = aim s"
  "aim (s\<lparr> cupRemovedPending := xCupRemovedPending \<rparr>) = aim s"
  "aim (s\<lparr> accidentalTouchPhase := xAccidentalTouchPhase \<rparr>) = aim s"
  "aim (s\<lparr> accidentalTouchClass := xAccidentalTouchClass \<rparr>) = aim s"
  "aim (s\<lparr> accidentalTouchHolding := xAccidentalTouchHolding \<rparr>) = aim s"
  "aim (s\<lparr> accidentalTouchPendingG := xAccidentalTouchPendingG \<rparr>) = aim s"
  "aim (s\<lparr> accidentalTouchHeldSinceMs := xAccidentalTouchHeldSinceMs \<rparr>) = aim s"
  "aim (s\<lparr> accidentalTouchEpochS := xAccidentalTouchEpochS \<rparr>) = aim s"
  "aim (s\<lparr> touchStop := xTouchStop \<rparr>) = aim s"
  "aim (s\<lparr> shotStartMs := xShotStartMs \<rparr>) = aim s"
  "aim (s\<lparr> shotWeights := xShotWeights \<rparr>) = aim s"
  "aim (s\<lparr> weightStreamState := xWeightStreamState \<rparr>) = aim s"
  "aim (s\<lparr> stopperState := xStopperState \<rparr>) = aim s"
  "aim (s\<lparr> ssOut := xSsOut \<rparr>) = aim s"
  by (simp_all add: aim_def)

lemma aim_cut [simp]:
  "csParams c = csParams (ssCut s) \<Longrightarrow> csOffsetDg c = csOffsetDg (ssCut s) \<Longrightarrow> csTauMs c = csTauMs (ssCut s) \<Longrightarrow>
   reValid (csRate c) = reValid (csRate (ssCut s)) \<Longrightarrow> reRateX100 (csRate c) = reRateX100 (csRate (ssCut s)) \<Longrightarrow>
   aim (s\<lparr> ssCut := c \<rparr>) = aim s"
  by (simp add: aim_def)

lemma bisect_meets: "met hi \<Longrightarrow> met (bisect met lo hi)"
  by (induction met lo hi rule: bisect.induct) (subst bisect.simps, auto simp: Let_def)

lemma crossing_meets:
  assumes "crossingMs p tk w r tau off = Some t" and "t < wallMs p"
  shows "lineMet p tk w r tau off t"
  using assms bisect_meets [of "lineMet p tk w r tau off" "wallMs p" tk]
  by (auto simp: crossingMs_def Let_def split: if_splits)

lemma aim_emit [simp]: "aim (emit e s) = aim s" "aim (addDebug c a b s) = aim s"
  by (simp_all add: emit_def addDebug_def)

lemma aim_control [simp]: "aim (latchAtmCurveFromSession env s) = aim s" "aim (enforceScaleLossBackup env s) = aim s"
  "aim (setWeightControlState env st s) = aim s"
  by (simp_all add: latchAtmCurveFromSession_def enforceScaleLossBackup_def setWeightControlState_def Let_def)

lemma unaimed_trend [simp]: "unaimed (resetWeightTrend s)"
  by (simp add: unaimed_def resetWeightTrend_def resetAccidentalTouchState_def Let_def)

lemma aim_small [simp]:
  "aim (rejectScaleSample env c w r s) = aim s" "aim (resetRecovery s) = aim s"
  "aim (noteAccidentalTouchClass env cl w r a s) = aim s" "aim (markTareZeroReady s) = aim s"
  "aim (resetDirectStopConfirmation s) = aim s"
  by (simp_all add: rejectScaleSample_def resetRecovery_def noteAccidentalTouchClass_def markTareZeroReady_def
      resetDirectStopConfirmation_def Let_def)

lemma aim_evaluate [simp]: "aim (snd (evaluateAccidentalTouchSample env w a s)) = aim s"
  by (simp add: evaluateAccidentalTouchSample_def Let_def case_prod_beta)

lemma aim_suspend: "aim (suspendWeightControl env s) = aim s \<or> unaimed (suspendWeightControl env s)"
  by (simp add: suspendWeightControl_def)

lemma aim_expire [simp]: "aim (expirePostTareBaseline env s) = aim s"
  by (simp add: expirePostTareBaseline_def expirePostTareBaselineIfNeeded_def Let_def split: option.split bool.split)

lemma aim_segment [simp]: "aim (noteCutLineSegment env w t a s) = aim s"
  by (simp add: noteCutLineSegment_def Let_def)

lemma aim_touch [simp]: "aim (considerTouchStopSample env w a q g p s) = aim s"
  by (simp add: considerTouchStopSample_def Let_def split: prod.split)

lemma aim_confirm [simp]: "aim (confirmSample a q g s) = aim s"
  by (simp add: confirmSample_def Let_def)

lemma aim_decide [simp]: "aim (decideDirectStop env w ov s) = aim s"
  by (simp add: decideDirectStop_def weightCutReasonNow_def Let_def)

lemma aim_consider [simp]: "aim (considerDirectStopSample env w a q g s) = aim s"
  by (simp add: considerDirectStopSample_def Let_def split: option.split)

lemma aim_resume: "aim (resumeControl env w a q g s) = aim s \<or> unaimed (resumeControl env w a q g s)"
proof -
  let ?t = "(resetWeightTrend (s\<lparr> ownedConnectionGeneration := g, scaleDisconnectSequenceAtStart := feDisconnectSequence env,
      recoveryConfirmations := 0 \<rparr>))\<lparr> hasWeightAnchor := True, lastAcceptedWeightG := w,
      lastAcceptedWeightAtMs := a, lastAcceptedPacketSequence := q \<rparr>"
  have "unaimed ?t" by (simp add: unaimed_def resetWeightTrend_def resetAccidentalTouchState_def Let_def)
  then have "unaimed (setWeightControlState env WC_ACTIVE ?t)" using unaimed_aim [OF aim_control(3)] by blast
  then show ?thesis by (auto simp: resumeControl_def Let_def)
qed

text \<open>The only operation that makes a prediction.\<close>

lemma aimed_predictFrom:
  assumes "unaimed s" and "shotTimeAtMs env a = Some tk" and "reValid (csRate (ssCut s))"
  shows "unaimed (predictFrom env tk (gramsToDg env w) s) \<or> aimed env w a (predictFrom env tk (gramsToDg env w) s)"
proof -
  define s1 where "s1 = (if channeling (csRate (ssCut s)) \<and> fastOn (csParams (ssCut s)) then
      addDebug CHANNELING_DETECTED (rawX100 (csRate (ssCut s))) tk
        (s\<lparr> ssCut := (ssCut s)\<lparr> csParams := (csParams (ssCut s))\<lparr> fastOn := False \<rparr> \<rparr> \<rparr>) else s)"
  have n1: "expectedEndMs s1 = NO_CUT_PREDICTION_MS" "csRate (ssCut s1) = csRate (ssCut s)"
    using assms(1) by (simp_all add: s1_def unaimed_def addDebug_def emit_def)
  show ?thesis
    unfolding predictFrom_def Let_def s1_def [symmetric]
    using n1 assms(2,3) by (auto simp: unaimed_def aimed_def aim_def split: option.split dest!: crossing_meets)
qed

lemma aim_predict: "unaimed (updateCutPrediction env w a s) \<or> aimed env w a (updateCutPrediction env w a s)"
proof -
  let ?s = "s\<lparr> expectedEndMs := NO_CUT_PREDICTION_MS, ssCut := (ssCut s)\<lparr> csCrossingValid := False \<rparr> \<rparr>"
  show ?thesis
  proof (cases "shotTimeAtMs env a")
    case None
    then show ?thesis by (simp add: updateCutPrediction_def unaimed_def)
  next
    case (Some tk)
    obtain result rate where p: "ratePush tk (gramsToDg env w) (csRate (ssCut s)) = (result, rate)" by fastforce
    let ?t = "?s\<lparr> ssCut := (ssCut ?s)\<lparr> csRate := rate \<rparr> \<rparr>"
    have u: "unaimed ?t" by (simp add: unaimed_def)
    show ?thesis
    proof (cases "result \<noteq> RATE_ACCEPTED \<or> \<not> reValid rate")
      case True
      then show ?thesis using u Some p by (simp add: updateCutPrediction_def Let_def)
    next
      case False
      then have "reValid (csRate (ssCut ?t))" by simp
      from aimed_predictFrom [OF u Some this, of w] show ?thesis
        using False Some p by (simp add: updateCutPrediction_def Let_def)
    qed
  qed
qed

lemma accept_aim: "aimStep env w a s (snd (acceptWeightIntoTrajectory env w a q s))"
  using aim_predict by (auto simp: acceptWeightIntoTrajectory_def aimStep_def Let_def)

lemma judge_aim: "aimStep env w a s (snd (judgeSample env w a q g prov prev s))"
proof -
  have b: "aimStep env w a s (snd (acceptWeightIntoTrajectory env w a q s1))" if "aim s1 = aim s" for s1
    using aimStep_before [OF _ accept_aim] that by blast
  show ?thesis
    unfolding judgeSample_def Let_def case_prod_beta by (simp add: b aimStep_same)
qed

lemma recover_aim: "aimStep env w a s (snd (recoverSample env w a q g prov prev pl s))"
proof -
  have b: "aimStep env w a s (snd (judgeSample env w a q g prov prev (resumeControl env w a q g s1)))" if "aim s1 = aim s" for s1
    using aimStep_before [OF _ judge_aim] aim_resume [of env w a q g s1] that by metis
  show ?thesis
    unfolding recoverSample_def Let_def by (simp add: b judge_aim aimStep_same)
qed

lemma aim_range [simp]: "aim (outOfRangeSample env w a q g s) = aim s"
  by (simp add: outOfRangeSample_def Let_def)

lemma tracked_aim: "aimStep env w a s (snd (trackedSample env w a q g prov prev s))"
proof -
  define s1 where "s1 = (if (weightControlState s = WC_ACTIVE \<or> weightControlState s = WC_VALIDATING) \<and>
      ownedConnectionGeneration s \<noteq> 0 \<and> g \<noteq> ownedConnectionGeneration s then suspendWeightControl env s else s)"
  have k1: "aim s1 = aim s \<or> unaimed s1" using aim_suspend by (simp add: s1_def)
  define s2 where "s2 = (if awaitingPostTareBaseline s1 \<and> retareEffectPending s1 \<and>
      deadlineReached a (postTareBaselineDeadlineMs s1) then expirePostTareBaseline env s1 else s1)"
  have k2: "aim s2 = aim s1" by (simp add: s2_def)
  have r: "aimStep env w a s (snd (recoverSample env w a q g prov prev pl s2))"
    and c: "aim s3 = aim s2 \<Longrightarrow> aimStep env w a s (snd (acceptWeightIntoTrajectory env w a q s3))"
    and o: "aim s3 = aim s2 \<Longrightarrow> aimStep env w a s s3" for pl s3
    using aimStep_before [OF k1 aimStep_before [OF _ recover_aim]] aimStep_before [OF k1 aimStep_before [OF _ accept_aim]]
      aimStep_before [OF k1 aimStep_same] k2 by simp_all
  show ?thesis
    unfolding trackedSample_def Let_def s1_def [symmetric] s2_def [symmetric]
    by (simp add: r c o k2)
qed

lemma record_aim: "aimStep env (shotWeight env s r) a s (snd (recordWeightSample env r a q g s))"
proof -
  have e: "shotWeight env (s\<lparr> touchStop := touchStop0 \<rparr>) r = shotWeight env s r" by (simp add: shotWeight_def)
  have t: "aimStep env (shotWeight env s r) a s (snd (trackedSample env (shotWeight env s r) a q' g' prov prev (s\<lparr> touchStop := touchStop0 \<rparr>)))"
    for q' g' prov prev by (rule aimStep_before [OF _ tracked_aim]) simp
  show ?thesis
    unfolding recordWeightSample_def Let_def e using t by (simp add: aimStep_same)
qed

lemma aim_due [simp]: "aim (snd (automaticScaleStopDue env s)) = aim s"
  by (simp add: automaticScaleStopDue_def weightCutReasonNow_def Let_def)

lemma aim_phases [simp]: "aim (serviceBbwProtectionPhases env s) = aim s"
  by (simp add: serviceBbwProtectionPhases_def markRetareEnded_def Let_def)

lemma aim_stale: "aim (suspendStaleStream env s) = aim s \<or> unaimed (suspendStaleStream env s)"
proof -
  have "aim (suspendStaleStream env s) = aim s \<or> aim (suspendStaleStream env s) = aim (suspendWeightControl env s)"
    by (simp add: suspendStaleStream_def)
  then show ?thesis using aim_suspend [of env s] unaimed_aim by metis
qed

lemma aim_service: "aim (snd (serviceBrew env s)) = aim s \<or> unaimed (snd (serviceBrew env s))"
proof -
  let ?s1 = "serviceBbwProtectionPhases env (expirePostTareBaseline env s)"
  let ?s2 = "suspendStaleStream env ?s1"
  have "aim (snd (serviceBrew env s)) = aim ?s1 \<or> aim (snd (serviceBrew env s)) = aim ?s2"
    unfolding serviceBrew_def Let_def by (auto simp: case_prod_beta)
  then show ?thesis using aim_stale [of env ?s1] unaimed_aim by (metis aim_expire aim_phases)
qed

lemma aim_others [simp]:
  "aim (onFirstDropsDetected env a w s) = aim s" "aim (performAutomaticRetare env s) = aim s"
  by (simp_all add: onFirstDropsDetected_def performAutomaticRetare_def recordFirstDropTimestamp_def
      requestFirstDropBeep_def notifyRetareFlowDetected_def markRetareEnded_def Let_def split: option.split)

text \<open>
  Call \<open>n\<close> of the run is a sample that predicts the time \<open>t\<close>: from its own shot time and
  weight and the flow that the estimator, with it, holds as valid, on the line of the shot.
\<close>

definition forecastAt :: "(ShotEnv \<times> ShotCall) list \<Rightarrow> ShotSession \<Rightarrow> nat \<Rightarrow> int \<Rightarrow> bool" where
  "forecastAt calls s0 n t \<longleftrightarrow> n < length calls \<and>
     (case calls ! n of (env, call) \<Rightarrow>
        let s = runShot (take n calls) s0; cut = ssCut (runShot (take (Suc n) calls) s0) in
        \<exists>reading a q g tk. call = WeightSample reading a q g \<and> shotTimeAtMs env a = Some tk \<and>
          reValid (csRate cut) \<and> t < wallMs (csParams cut) \<and>
          expectedEndMs (runShot (take (Suc n) calls) s0) = t \<and>
          lineMet (csParams cut) tk (gramsToDg env (shotWeight env s reading)) (reRateX100 (csRate cut))
            (csTauMs cut) (csOffsetDg cut) t)"

lemma forecast_extend: "forecastAt calls s0 n t \<Longrightarrow> forecastAt (calls @ later) s0 n t"
  by (simp add: forecastAt_def nth_append)

lemma forecast_run:
  "unaimed s0 \<Longrightarrow> unaimed (runShot calls s0) \<or> (\<exists>n. forecastAt calls s0 n (expectedEndMs (runShot calls s0)))"
proof (induction calls rule: rev_induct)
  case Nil
  then show ?case by simp
next
  case (snoc ec calls)
  obtain env call where ec: "ec = (env, call)" by fastforce
  let ?s = "runShot calls s0" and ?t = "shotStep env call (runShot calls s0)"
  have run: "runShot (calls @ [ec]) s0 = ?t" by (simp add: runShot_append ec)
  have keep: "unaimed ?t \<or> (\<exists>n. forecastAt (calls @ [ec]) s0 n (expectedEndMs ?t))" if "aim ?t = aim ?s \<or> unaimed ?t"
  proof (cases "unaimed ?t")
    case False
    then have same: "aim ?t = aim ?s" using that by blast
    then have "\<not> unaimed ?s" "expectedEndMs ?t = expectedEndMs ?s"
      using False unaimed_aim [OF same] by (simp_all add: aim_def)
    then show ?thesis using snoc forecast_extend [of calls s0 _ "expectedEndMs ?s" "[ec]"] by metis
  qed simp
  show ?case
  proof (cases call)
    case (WeightSample r a q g)
    consider "aim ?t = aim ?s \<or> unaimed ?t" | "aimed env (shotWeight env ?s r) a ?t"
      using record_aim [of env ?s r a q g] WeightSample by (auto simp: aimStep_def)
    then show ?thesis
    proof cases
      case 2
      then have "forecastAt (calls @ [ec]) s0 (length calls) (expectedEndMs ?t)"
        using WeightSample run by (auto simp: forecastAt_def aimed_def aim_def ec Let_def)
      then show ?thesis unfolding run by blast
    qed (unfold run, rule keep)
  qed (unfold run, use keep aim_service [of env ?s] in \<open>auto\<close>)
qed

section \<open>A cut has evidence\<close>

definition isWeightCut :: "EndReason \<Rightarrow> bool" where
  "isWeightCut r \<longleftrightarrow> r = SCALE_THRESHOLD \<or> r = FAST_EXTRACTION_MAX_WEIGHT \<or> r = SLOW_EXTRACTION_MIN_WEIGHT \<or> r = WEIGHT_ANOMALY"

text \<open>A stop of the control loop with such a reason comes from the direct law or the timed law.\<close>

lemma due_cases:
  assumes "automaticScaleStopDue env s = (True, s')" and "isWeightCut (directStopReason s')"
  shows "\<not> bbwWeightStopInhibited s \<and> frame s' = frame s \<and>
    (directStopHonored env s \<or> timedLawDue env s)"
proof -
  have "\<not> bbwWeightStopInhibited s" using assms(1) by (auto simp: automaticScaleStopDue_def split: if_splits)
  moreover have "frame s' = frame s"
    using assms(1) by (auto simp: automaticScaleStopDue_def weightCutReasonNow_def Let_def split: if_splits)
  moreover have "directStopHonored env s \<or> timedLawDue env s"
    using assms by (auto simp: automaticScaleStopDue_def isWeightCut_def split: if_splits)
  ultimately show ?thesis by blast
qed

lemma due_pending: "automaticScaleStopDue env s = (True, s') \<Longrightarrow> directStopPending s'"
  by (auto simp: automaticScaleStopDue_def weightCutReasonNow_def directStopHonored_def Let_def addDebug_def emit_def
      split: if_splits)

lemma stale_keeps [simp]: "tally (suspendStaleStream env s) = tally s" "frame (suspendStaleStream env s) = frame s"
  by (simp_all add: suspendStaleStream_def)

lemma phases_tally: "tally (serviceBbwProtectionPhases env s) = tally s \<or> thresholdConfirmations (serviceBbwProtectionPhases env s) = 0"
  by (simp add: serviceBbwProtectionPhases_def markRetareEnded_def Let_def)

text \<open>A weight cut of the control loop comes out of \<open>automaticScaleStopDue\<close> on the state it reached.\<close>

lemma service_cut:
  assumes "serviceBrew env s = (Some reason, s')" and "isWeightCut reason"
  obtains s2 where "s2 = suspendStaleStream env (serviceBbwProtectionPhases env (expirePostTareBaseline env s))"
    and "automaticScaleStopDue env s2 = (True, s')" and "isWeightCut (directStopReason s')"
proof -
  define s2 where "s2 = suspendStaleStream env (serviceBbwProtectionPhases env (expirePostTareBaseline env s))"
  have d: "automaticScaleStopDue env s2 = (True, s') \<and> reason = (if directStopPending s' then directStopReason s' else SCALE_THRESHOLD)"
    using assms unfolding serviceBrew_def Let_def s2_def [symmetric]
    by (auto simp: isWeightCut_def split: if_splits prod.splits)
  then have "isWeightCut (directStopReason s')" using assms(2) due_pending by auto
  then show ?thesis using that [OF s2_def] d by blast
qed

lemma honored_tally: "directStopHonored env s \<Longrightarrow> 1 < thresholdConfirmations s"
  by (simp add: directStopHonored_def DIRECT_STOP_CONFIRMATION_SAMPLES_def word_less_nat_alt word_le_nat_alt)

lemma honored_evidence:
  assumes "counted calls s0" and "s = runShot calls s0" and "directStopHonored env s2"
    and "tally s2 = tally s \<or> thresholdConfirmations s2 = 0"
  shows "\<exists>a q g. evidence calls s0 a q g \<and> feNow env - a \<le> MAX_AUTOMATION_WEIGHT_AGE_MS"
proof -
  have c: "1 < thresholdConfirmations s2" by (rule honored_tally [OF assms(3)])
  then have "thresholdConfirmations s2 \<noteq> 0" by auto
  then have k: "tally s2 = tally s" using assms(4) by blast
  then have e: "evidence calls s0 (lastThresholdAtMs s) (lastThresholdPacketSequence s) (lastThresholdConnectionGeneration s)"
    using assms(1,2) c tally_conf [OF k] by (simp add: counted_def Let_def)
  moreover have "feNow env - lastThresholdAtMs s \<le> MAX_AUTOMATION_WEIGHT_AGE_MS"
    using assms(3) k by (simp add: directStopHonored_def tally_def)
  ultimately show ?thesis by blast
qed

lemma timed_forecast:
  assumes "aim s = aim (runShot calls s0) \<or> unaimed s" and "unaimed s0" and "timedLawDue env s"
    and "uint (feElapsedMs env) < NO_CUT_PREDICTION_MS"
  shows "\<exists>n t. forecastAt calls s0 n t \<and> t = expectedEndMs s \<and> t \<le> uint (feElapsedMs env)"
proof -
  have e: "expectedEndMs s \<le> (if ssActive s then uint (feElapsedMs env) else 0)"
    using assms(3) by (simp add: timedLawDue_def)
  then have le: "expectedEndMs s \<le> uint (feElapsedMs env)"
    by (rule order_trans) simp
  have "\<not> unaimed s"
    using e assms(4) by (auto simp: unaimed_def NO_CUT_PREDICTION_MS_def split: if_splits)
  moreover from this have "aim s = aim (runShot calls s0)" using assms(1) by blast
  ultimately show ?thesis
    using forecast_run [OF assms(2), of calls] unaimed_aim [of s "runShot calls s0"] le by (auto simp: aim_def)
qed


section \<open>An example\<close>

definition exampleConfig :: CycleConfig where
  "exampleConfig =
    \<lparr> ccTimerOnly = False, ccTouchProtection = False, ccTouchFallback = False, ccAutoRetare = False,
    ccRetareWindowMs = 0, ccBbwProtectionMs = 0, ccPostTareBaselineGraceMs = 0, ccScaleLossEnabled = False,
    ccScaleLossFixedMs = 0, ccFirstDropBeep = False, ccGoalWeightDg = 0, ccFastMarginDg = 0, ccSlowMarginDg
    = 0, ccFastSideEnabled = False, ccSlowSideEnabled = False, ccFastBeforeMs = 0, ccSlowAfterMs = 0,
    ccOperationalWallMs = 0, ccWeightOffsetG = 0,
    ccAutoTare = False, ccCanTareStartTimer = False, ccRinseDurationMs = 3000 \<rparr>"

definition exampleCut :: CorridorState where
  "exampleCut = \<lparr> csParams = exampleRecipe, csRate = rateEstimator0, csTauMs = 300, csOffsetDg = 5,
     csCrossingValid = False, csCrossingMs = 0, csStopMs = 0, csStopLineDg = 0, csHistory = arrivalStats0 \<rparr>"

definition exampleShot :: ShotSession where
  "exampleShot =
    \<lparr> ssActive = True, automaticEnabled = True, bbwProtectionEnabled = True, startedWithScale = True,
    scaleWasLost = False, receivedFreshWeightInCycle = False, calibrationEligible = False, hasWeightAnchor =
    False, directStopPending = False, awaitingPostTareBaseline = False, weightControlState = WC_ACTIVE,
    directStopReason = END_NONE, thresholdConfirmations = 0, recoveryConfirmations = 0, ssId = 0,
    scaleDisconnectSequenceAtStart = 0, weightSequenceAtStart = 0, ownedConnectionGeneration = 1,
    ssStartedAtMs = 0, circuitClosedAtMs = 0, postTareBaselineDeadlineMs = 0, lastAcceptedWeightAtMs = 0,
    lastAcceptedPacketSequence = 0, lastThresholdAtMs = 0, lastThresholdPacketSequence = 0,
    lastThresholdConnectionGeneration = 0, recoveryLastAtMs = 0, recoveryLastPacketSequence = 0, firstDropMs
    = 0, scaleBaselineG = 0, scaleBaselineReady = False, lastAcceptedWeightG = 0, recoveryLastWeightG = 0,
    retareEnded = True, bbwProtectionEnded = True, retarePerformed = False, retareDisabled = False,
    retareAtMs = 0, flowDuringRetare = False, retareFlowFirstDetectedAtMs = 0, firstDropsBeepSent = False,
    preTareWeightG = None, softwareZeroG = 0, firstDropObserved = False, retareEffectPending = False,
    ssConfig = exampleConfig, ssCut = exampleCut, ssPredictor = armShotPredictor, predictorQpX100 = 0,
    extractionExtended = False, slowExtractionExtended = False, targetReachedEarly = False,
    targetReachedAtMs = 0, autoToManualGuardArmed = False, autoToManualGuardEnforced = False,
    autoToManualGuardDeadlineAtMs = 0, scaleLossSource = WINDOW, scaleLossBlind = False, cupRemovedPending =
    False, accidentalTouchPhase = TOUCH_STARTUP, accidentalTouchClass = TOUCH_OK,
    accidentalTouchHolding = False, accidentalTouchPendingG = [], accidentalTouchHeldSinceMs = 0, accidentalTouchEpochS = 0, touchStop = touchStop0, shotStartMs = 0, expectedEndMs =
    NO_CUT_PREDICTION_MS, shotWeights = [], weightStreamState = STREAM_FRESH, stopperState = STOPPER_BREW,
    ssOut = [] \<rparr>"

definition exampleEnv :: ShotEnv where
  "exampleEnv =
    \<lparr> feNow = 30000, feRunningMs = Some 30000, feElapsedMs = 30000, feAutomationStop = True,
    feScaleUnavailable = False, feWeightSequence = 1, feDisconnectSequence = 0, feObservedWeight = Some 0,
    feNoFlowIdle = False, feRetareQueued = False,
    feExtendedPulse = False, feSlowExtendedPulse = False, feMinimumCupWeightG = 10, feRound = (\<lambda>x.
    x) \<rparr>"

definition heavySamples :: "(ShotEnv \<times> ShotCall) list" where
  "heavySamples = [(exampleEnv\<lparr> feNow := 29900, feRunningMs := Some 29900 \<rparr>, WeightSample 61 29900 7 1),
     (exampleEnv, WeightSample 61 30000 8 1)]"

lemma heavy_samples_cut:
  "fst (serviceBrew exampleEnv (runShot heavySamples exampleShot)) = Some SCALE_THRESHOLD"
  by code_simp


end
