(* ===== verification/Cycle_Examples.thy ===== *)
theory Cycle_Examples
  imports Cycle_Trace Brew_Facts
begin

text \<open>
  A machine at rest and an environment in which nothing happens, for the examples of the
  control state machine.
\<close>

definition exampleRelay :: RelaySafetySnapshot where
  "exampleRelay =
    \<lparr> snState = OPEN, snFault = NO_FAULT, snClosed = False, snCommandedClosed = False,
    snFeedbackClosed = False, snFeedbackAvailable = False, snExternalSafetyPresent = False, snWatchdogReady =
    False, snTimersReady = False, snTripped = False, snOperationalTripped = False, snGeneration = 0,
    snClosedAtMs = 0, snOperationalLimitMs = 45000, snHardLimitMs = 60000, snElectricalClosedAtMs = 0,
    snElectricalOpenedAtMs = 0, snPurpose = NORMAL, snResetReasonCode = 0, snUnsafeResetCount = 0,
    snBootLoopDetected = False, snResetHistoryCount = 0, snResetHistory = [] \<rparr>"

definition restIntention :: MachineIntention where
  "restIntention =
    \<lparr> inIntent = NO_INTENT, inHoldActive = False, inPhysicalOn = False, inTurnedOn = False,
    inTurnedOff = False, inStablyOff = False \<rparr>"

definition exampleGuardEnv :: GuardEnv where
  "exampleGuardEnv =
    \<lparr> gvShot = exampleEnv, gvNoScaleBbwMode = 2, gvManualNoScaleBeep = False, gvLastShotCooldownMs =
    60000, gvTimerOnly = False, gvCupProtectionEnabled = False, gvRequireCupToStart = False \<rparr>"

definition exampleCycleEnv :: CycleEnv where
  "exampleCycleEnv =
    \<lparr> ceGuard = exampleGuardEnv, ceIntention = restIntention, ceRelay = exampleRelay, ceRelayAfter =
    exampleRelay, ceTripConsumed = False, ceOperationalConsumed = False, ceScaleAvailable = False,
    ceWeightFresh = False, ceCup = CUP_ABSENT, ceCurrentWeight = None, ceWeightReceivedAtMs = 0,
    ceScaleGeneration = 0, ceSensorLagMs = 0, ceRinseGestureMs = 2000, ceConfig = exampleConfig, ceHistory =
    arrivalStats0, cePlateauFlowX100 = 0, ceIdleTarePending = False, cePowerOk = True, ceStartAccepted =
    True, ceStopAccepted = True, ceBeginRinseAccepted = True, ceTimerStartQueued = True, ceRunMs = 0,
    ceStopLatencyMs = 0, ceCloseLimit = (\<lambda>w. w), ceMachineRunning = False, ceSupportsRinse = True,
    ceHoldQualification = False, ceRemoteControl = False, ceCompatibility = False, ceInitialized = True,
    ceAtmEndBeep = False, ceBackflush = snapshot0, ceBackflushNow = snapshot0, ceBackflushLater = snapshot0,
    ceBackflushStarted = False, ceBackflushConfirmed = False, cePhysicalStart = (START_NORMAL, permit0)
    \<rparr>"

definition restingCycle :: CycleState where
  "restingCycle =
    \<lparr> noScaleShotGuardArmed = True, noScaleShotGuardActivityAtMs = 0,
    noScaleShotGuardScaleWasAvailable = False, noScaleShotGuardHold = False, noScaleShotGuardHoldAtMs = 0,
    noScaleGuardHistoryPending = False, noScaleShotGuardNeedsFreshActivator = False,
    noScaleRequireBypassReady = False, noScaleRequireBypassHoldSeen = False, noScaleRequireBypassCycles = 0,
    noScaleRequireBypassStartedAtMs = 0, noScaleRequireBypassCompletedThisLoop = False, cupStartGuardHold =
    False, cupStartGuardHoldAtMs = 0, guOut = [], cyShot = exampleShot\<lparr> ssActive := False,
    stopperState := STOPPER_REQUIRES_OFF \<rparr>, cySource = SOURCE_NONE, cyEndReason = END_NONE,
    cyRinseStartedAtMs = 0, cyAutomaticBrew = False, nextCycleId = 1, virtualHoldOn = False,
    outboundShotActive = False, rinseClockDurationMs = 0, rinseClockStartedAtMs = 0, rinseTimerActive =
    False, machineWakePassthroughActive = False, machineWakeStartedAtMs = 0,
    machineWakeGestureConsumedThisLoop = False, backflushPermit = permit0, backflushRelayGeneration = 0,
    backflushSequence = 0, maintenanceLease = None, plannedRestartHeld = False,
    maintenanceCancellationPending = False \<rparr>"

end
