(* ===== verification/Brew_Liveness.thy ===== *)
theory Brew_Liveness
  imports Brew_Facts
begin

text \<open>
  The weight stop does end shots: two samples over the line in a row are followed by a cut in
  the next pass of the control loop, and after a lost scale the backup ends the shot by its
  time limit.
\<close>

section \<open>A sample that passes every filter\<close>

definition core :: "ShotSession \<Rightarrow> (WeightControlState \<times> bool \<times> EndReason \<times> StopperState \<times> bool \<times> CycleConfig) \<times>
    (bool \<times> bool \<times> bool) \<times> bool \<times> bool" where
  "core s = ((weightControlState s, directStopPending s, directStopReason s, stopperState s, ssActive s, ssConfig s),
     (accidentalTouchHolding s, cupRemovedPending s, awaitingPostTareBaseline s), bbwProtectionEnabled s, bbwProtectionEnded s)"

lemma core_upd [simp]:
  "core (s\<lparr> automaticEnabled := xAutomaticEnabled \<rparr>) = core s"
  "core (s\<lparr> startedWithScale := xStartedWithScale \<rparr>) = core s"
  "core (s\<lparr> scaleWasLost := xScaleWasLost \<rparr>) = core s"
  "core (s\<lparr> receivedFreshWeightInCycle := xReceivedFreshWeightInCycle \<rparr>) = core s"
  "core (s\<lparr> calibrationEligible := xCalibrationEligible \<rparr>) = core s"
  "core (s\<lparr> hasWeightAnchor := xHasWeightAnchor \<rparr>) = core s"
  "core (s\<lparr> thresholdConfirmations := xThresholdConfirmations \<rparr>) = core s"
  "core (s\<lparr> recoveryConfirmations := xRecoveryConfirmations \<rparr>) = core s"
  "core (s\<lparr> ssId := xSsId \<rparr>) = core s"
  "core (s\<lparr> scaleDisconnectSequenceAtStart := xScaleDisconnectSequenceAtStart \<rparr>) = core s"
  "core (s\<lparr> weightSequenceAtStart := xWeightSequenceAtStart \<rparr>) = core s"
  "core (s\<lparr> ownedConnectionGeneration := xOwnedConnectionGeneration \<rparr>) = core s"
  "core (s\<lparr> ssStartedAtMs := xSsStartedAtMs \<rparr>) = core s"
  "core (s\<lparr> circuitClosedAtMs := xCircuitClosedAtMs \<rparr>) = core s"
  "core (s\<lparr> postTareBaselineDeadlineMs := xPostTareBaselineDeadlineMs \<rparr>) = core s"
  "core (s\<lparr> lastAcceptedWeightAtMs := xLastAcceptedWeightAtMs \<rparr>) = core s"
  "core (s\<lparr> lastAcceptedPacketSequence := xLastAcceptedPacketSequence \<rparr>) = core s"
  "core (s\<lparr> lastThresholdAtMs := xLastThresholdAtMs \<rparr>) = core s"
  "core (s\<lparr> lastThresholdPacketSequence := xLastThresholdPacketSequence \<rparr>) = core s"
  "core (s\<lparr> lastThresholdConnectionGeneration := xLastThresholdConnectionGeneration \<rparr>) = core s"
  "core (s\<lparr> recoveryLastAtMs := xRecoveryLastAtMs \<rparr>) = core s"
  "core (s\<lparr> recoveryLastPacketSequence := xRecoveryLastPacketSequence \<rparr>) = core s"
  "core (s\<lparr> firstDropMs := xFirstDropMs \<rparr>) = core s"
  "core (s\<lparr> scaleBaselineG := xScaleBaselineG \<rparr>) = core s"
  "core (s\<lparr> scaleBaselineReady := xScaleBaselineReady \<rparr>) = core s"
  "core (s\<lparr> lastAcceptedWeightG := xLastAcceptedWeightG \<rparr>) = core s"
  "core (s\<lparr> recoveryLastWeightG := xRecoveryLastWeightG \<rparr>) = core s"
  "core (s\<lparr> retareEnded := xRetareEnded \<rparr>) = core s"
  "core (s\<lparr> retarePerformed := xRetarePerformed \<rparr>) = core s"
  "core (s\<lparr> retareDisabled := xRetareDisabled \<rparr>) = core s"
  "core (s\<lparr> retareAtMs := xRetareAtMs \<rparr>) = core s"
  "core (s\<lparr> flowDuringRetare := xFlowDuringRetare \<rparr>) = core s"
  "core (s\<lparr> retareFlowFirstDetectedAtMs := xRetareFlowFirstDetectedAtMs \<rparr>) = core s"
  "core (s\<lparr> firstDropsBeepSent := xFirstDropsBeepSent \<rparr>) = core s"
  "core (s\<lparr> preTareWeightG := xPreTareWeightG \<rparr>) = core s"
  "core (s\<lparr> softwareZeroG := xSoftwareZeroG \<rparr>) = core s"
  "core (s\<lparr> firstDropObserved := xFirstDropObserved \<rparr>) = core s"
  "core (s\<lparr> retareEffectPending := xRetareEffectPending \<rparr>) = core s"
  "core (s\<lparr> ssCut := xSsCut \<rparr>) = core s"
  "core (s\<lparr> ssPredictor := xSsPredictor \<rparr>) = core s"
  "core (s\<lparr> predictorQpX100 := xPredictorQpX100 \<rparr>) = core s"
  "core (s\<lparr> extractionExtended := xExtractionExtended \<rparr>) = core s"
  "core (s\<lparr> slowExtractionExtended := xSlowExtractionExtended \<rparr>) = core s"
  "core (s\<lparr> targetReachedEarly := xTargetReachedEarly \<rparr>) = core s"
  "core (s\<lparr> targetReachedAtMs := xTargetReachedAtMs \<rparr>) = core s"
  "core (s\<lparr> autoToManualGuardArmed := xAutoToManualGuardArmed \<rparr>) = core s"
  "core (s\<lparr> autoToManualGuardEnforced := xAutoToManualGuardEnforced \<rparr>) = core s"
  "core (s\<lparr> autoToManualGuardDeadlineAtMs := xAutoToManualGuardDeadlineAtMs \<rparr>) = core s"
  "core (s\<lparr> scaleLossSource := xScaleLossSource \<rparr>) = core s"
  "core (s\<lparr> scaleLossBlind := xScaleLossBlind \<rparr>) = core s"
  "core (s\<lparr> accidentalTouchPhase := xAccidentalTouchPhase \<rparr>) = core s"
  "core (s\<lparr> accidentalTouchClass := xAccidentalTouchClass \<rparr>) = core s"
  "core (s\<lparr> accidentalTouchPendingG := xAccidentalTouchPendingG \<rparr>) = core s"
  "core (s\<lparr> accidentalTouchHeldSinceMs := xAccidentalTouchHeldSinceMs \<rparr>) = core s"
  "core (s\<lparr> accidentalTouchEpochS := xAccidentalTouchEpochS \<rparr>) = core s"
  "core (s\<lparr> touchStop := xTouchStop \<rparr>) = core s"
  "core (s\<lparr> shotStartMs := xShotStartMs \<rparr>) = core s"
  "core (s\<lparr> expectedEndMs := xExpectedEndMs \<rparr>) = core s"
  "core (s\<lparr> shotWeights := xShotWeights \<rparr>) = core s"
  "core (s\<lparr> weightStreamState := xWeightStreamState \<rparr>) = core s"
  "core (s\<lparr> ssOut := xSsOut \<rparr>) = core s"
  by (simp_all add: core_def)

lemma core_emit [simp]: "core (emit e s) = core s" "core (addDebug c a b s) = core s"
  by (simp_all add: emit_def addDebug_def)

lemma core_segment [simp]: "core (noteCutLineSegment env w t a s) = core s"
  by (simp add: noteCutLineSegment_def Let_def)

lemma core_confirm [simp]: "core (confirmSample a q g s) = core s"
  by (simp add: confirmSample_def Let_def)

lemma core_predictFrom [simp]: "core (predictFrom env t w s) = core s"
  by (simp add: predictFrom_def Let_def split: option.split)

lemma core_accept [simp]: "core (snd (acceptWeightIntoTrajectory env w a q s)) = core s"
  by (simp add: acceptWeightIntoTrajectory_def updateCutPrediction_def Let_def split: option.split prod.split)

text \<open>What the filters ask of a sample with provenance while the stream is in control.\<close>

definition passes :: "ShotEnv \<Rightarrow> grams \<Rightarrow> u32 \<Rightarrow> u32 \<Rightarrow> u32 \<Rightarrow> ShotSession \<Rightarrow> bool" where
  "passes env reading a q g s \<longleftrightarrow> shouldTrackWeight s \<and> weightControlState s = WC_ACTIVE \<and> \<not> bbwWeightStopInhibited s \<and>
     abs reading \<le> MAX_PARSED_WEIGHT_G \<and> 0 \<le> sint (a - shotStartMs s) \<and> \<not> awaitingPostTareBaseline s \<and>
     q \<noteq> 0 \<and> g \<noteq> 0 \<and> (ownedConnectionGeneration s = 0 \<or> g = ownedConnectionGeneration s) \<and>
     \<not> accidentalTouchHolding s \<and>      (let w = shotWeight env s reading in
      (accidentalTouchSessionActive s \<longrightarrow> fst (evaluateAccidentalTouchSample env w a (s\<lparr> touchStop := touchStop0 \<rparr>)) = TOUCH_OK) \<and>
      MIN_AUTOMATION_WEIGHT_G \<le> w \<and> w \<le> MAX_AUTOMATION_WEIGHT_G \<and> plausibleSample env w a s \<and> overThreshold env w a s)"

text \<open>The decision after the count, on a sample in range.\<close>

lemma decide_core:
  "weightControlState (decideDirectStop env w False s) = weightControlState s \<and>
   (\<not> thresholdConfirmations s < DIRECT_STOP_CONFIRMATION_SAMPLES \<longrightarrow>
      directStopPending (decideDirectStop env w False s)) \<and>
   stopperState (decideDirectStop env w False s) = stopperState s \<and> ssActive (decideDirectStop env w False s) = ssActive s \<and>
   ssConfig (decideDirectStop env w False s) = ssConfig s \<and>
   accidentalTouchHolding (decideDirectStop env w False s) = accidentalTouchHolding s \<and>
   bbwProtectionEnabled (decideDirectStop env w False s) = bbwProtectionEnabled s \<and>
   bbwProtectionEnded (decideDirectStop env w False s) = bbwProtectionEnded s \<and>
   awaitingPostTareBaseline (decideDirectStop env w False s) = awaitingPostTareBaseline s"
  by (simp add: decideDirectStop_def weightCutReasonNow_def Let_def addDebug_def emit_def)

lemma core_holding: "\<not> accidentalTouchHolding s \<Longrightarrow> core (s\<lparr> accidentalTouchHolding := False \<rparr>) = core s"
  by (simp add: core_def)

text \<open>A sample the classifier lets pass outside a hold leaves the guard and the control state alone.\<close>

lemma evaluate_core:
  assumes "fst (evaluateAccidentalTouchSample env w a s) = TOUCH_OK" and "\<not> accidentalTouchHolding s"
  shows "core (snd (evaluateAccidentalTouchSample env w a s)) = core s"
  using assms
  by (simp add: evaluateAccidentalTouchSample_def noteAccidentalTouchClass_def Let_def case_prod_beta core_def addDebug_def emit_def)

text \<open>The direct law on such a sample: it is counted and, on the second, the stop is pending.\<close>

lemma consider_passes:
  assumes "shouldTrackWeight s" and "weightControlState s = WC_ACTIVE" and "\<not> bbwWeightStopInhibited s" and "q \<noteq> 0"
    and "w \<le> MAX_AUTOMATION_WEIGHT_G" and "MIN_AUTOMATION_WEIGHT_G \<le> w" and "overThreshold env w a s"
  obtains s1 where "considerDirectStopSample env w a q g s = decideDirectStop env w False (confirmSample a q g s1)"
    and "core s1 = core s" and "tally s1 = tally s" and "frame s1 = frame s"
proof -
  have nov: "\<not> abs w > MAX_AUTOMATION_WEIGHT_G"
    using assms(5,6) by (simp add: MAX_AUTOMATION_WEIGHT_G_def MIN_AUTOMATION_WEIGHT_G_def abs_le_iff not_less)
  define s1 where "s1 = (case shotTimeAtMs env a of
      Some shotMs \<Rightarrow> noteCutLineSegment env (gramsToDg env w) shotMs a s | None \<Rightarrow> s)"
  have k: "core s1 = core s" "tally s1 = tally s" "frame s1 = frame s" by (simp_all add: s1_def split: option.split)
  have o: "overThreshold env w a s1" using over_frame [OF k(3)] assms(7) by simp
  have "considerDirectStopSample env w a q g s = decideDirectStop env w False (confirmSample a q g s1)"
    unfolding considerDirectStopSample_def Let_def
    using assms nov o by (cases "shotTimeAtMs env a") (simp_all add: s1_def)
  then show ?thesis using that k by blast
qed

lemma tracked_passes:
  assumes "weightControlState s = WC_ACTIVE" and "ownedConnectionGeneration s = 0 \<or> g = ownedConnectionGeneration s"
    and "MIN_AUTOMATION_WEIGHT_G \<le> w" and "w \<le> MAX_AUTOMATION_WEIGHT_G" and "0 \<le> sint (a - shotStartMs s)"
    and "\<not> awaitingPostTareBaseline s" and "plausibleSample env w a s"
  shows "trackedSample env w a q g prov prev s = judgeSample env w a q g prov prev s"
proof -
  have n1: "\<not> ((weightControlState s = WC_ACTIVE \<or> weightControlState s = WC_VALIDATING) \<and>
      ownedConnectionGeneration s \<noteq> 0 \<and> g \<noteq> ownedConnectionGeneration s)" using assms(2) by blast
  have n2: "\<not> (w < MIN_AUTOMATION_WEIGHT_G \<or> w > MAX_AUTOMATION_WEIGHT_G)" using assms(3,4) by auto
  have n3: "\<not> sint (a - shotStartMs s) < 0" using assms(5) by simp
  have n4: "\<not> (awaitingPostTareBaseline s \<and> retareEffectPending s \<and> deadlineReached a (postTareBaselineDeadlineMs s))"
    using assms(6) by blast
  have n5: "\<not> (weightControlState s = WC_ACTIVE \<and> \<not> plausibleSample env w a s)" using assms(7) by blast
  have n6: "\<not> (weightControlState s = WC_VALIDATING \<or> weightControlState s = WC_SUSPENDED)" using assms(1) by simp
  show ?thesis
    unfolding trackedSample_def recoverSample_def Let_def if_not_P [OF n1] if_not_P [OF n2] if_not_P [OF n3]
      if_not_P [OF n4] if_not_P [OF assms(6)] if_not_P [OF n5] if_not_P [OF n6] ..
qed

text \<open>The whole handler on a sample that passes.\<close>

lemma record_passes:
  assumes p: "passes env r a q g s"
  shows "tally (snd (recordWeightSample env r a q g s)) = tally (confirmSample a q g s) \<and>
    weightControlState (snd (recordWeightSample env r a q g s)) = WC_ACTIVE \<and>
    stopperState (snd (recordWeightSample env r a q g s)) = STOPPER_BREW \<and>
    ssConfig (snd (recordWeightSample env r a q g s)) = ssConfig s \<and>
    \<not> accidentalTouchHolding (snd (recordWeightSample env r a q g s)) \<and>
    \<not> awaitingPostTareBaseline (snd (recordWeightSample env r a q g s)) \<and>
    \<not> bbwWeightStopInhibited (snd (recordWeightSample env r a q g s)) \<and>
    (\<not> thresholdConfirmations (confirmSample a q g s) < DIRECT_STOP_CONFIRMATION_SAMPLES \<longrightarrow>
      directStopPending (snd (recordWeightSample env r a q g s)))"
proof -
  let ?s = "s\<lparr> touchStop := touchStop0 \<rparr>" and ?w = "shotWeight env s r"
  note P = p [unfolded passes_def Let_def]
  define verdict where "verdict = (if accidentalTouchSessionActive ?s then evaluateAccidentalTouchSample env ?w a ?s
    else (TOUCH_OK, ?s))"
  define s1 where "s1 = snd verdict"
  have same: "shouldTrackWeight ?s = shouldTrackWeight s" "accidentalTouchSessionActive ?s = accidentalTouchSessionActive s"
    "plausibleSample env ?w a ?s = plausibleSample env ?w a s" "shotWeight env ?s r = ?w"
    by (simp_all add: shouldTrackWeight_def accidentalTouchSessionActive_def plausibleSample_def shotWeight_def)
  have ok: "fst verdict = TOUCH_OK" "core s1 = core s" "tally s1 = tally s" "frame s1 = frame s"
    using P same(2) by (simp_all add: s1_def verdict_def evaluate_core)
  note k = ok(2-4)
  have h: "\<not> abs r > MAX_PARSED_WEIGHT_G" "\<not> \<not> shouldTrackWeight ?s" "(q \<noteq> 0 \<and> g \<noteq> 0) = True"
    "sampleSequence ?s q = q" "sampleGeneration ?s g = g" "touchStop s = touchStop s"
    using P same by (auto simp: sampleSequence_def sampleGeneration_def)
  have judge: "recordWeightSample env r a q g s = judgeSample env ?w a q g True (touchStop s) ?s"
    unfolding recordWeightSample_def Let_def same(4) if_not_P [OF h(1)] if_not_P [OF h(2)] h(3-5)
    by (rule tracked_passes) (use P same(3) in simp_all)
  have s1: "shouldTrackWeight s1" "weightControlState s1 = WC_ACTIVE" "\<not> bbwWeightStopInhibited s1" "overThreshold env ?w a s1"
    using P k inhibited_frame [OF k(3)] over_frame [OF k(3)] by (auto simp: shouldTrackWeight_def core_def)
  obtain s2 where s2: "considerDirectStopSample env ?w a q g s1 = decideDirectStop env ?w False (confirmSample a q g s2)"
    "core s2 = core s1" "tally s2 = tally s1"
    using consider_passes [OF s1(1,2,3) _ _ _ s1(4)] P by blast
  let ?c = "confirmSample a q g s2"
  have j: "core (snd (judgeSample env ?w a q g True (touchStop s) ?s)) = core (decideDirectStop env ?w False ?c) \<and>
      tally (snd (judgeSample env ?w a q g True (touchStop s) ?s)) = tally ?c"
  proof -
    have n: "\<not> (accidentalTouchSessionActive ?s \<and> fst verdict = TOUCH)" using ok(1) by simp
    show ?thesis
      unfolding judgeSample_def Let_def verdict_def [symmetric] case_prod_beta s1_def [symmetric] if_not_P [OF n] s2(1) by simp
  qed
  have t: "tally ?c = tally (confirmSample a q g s)"
    by (rule confirm_tally) (use s2(3) k(2) in simp)
  have cc: "core ?c = core s" using s2(2) k(1) by simp
  show ?thesis
    unfolding judge using j t cc decide_core [of env ?w ?c] tally_conf [OF t] P
    by (auto simp: core_def shouldTrackWeight_def bbwWeightStopInhibited_def bbwProtectionActive_def bbwAutomaticScaleSession_def)
qed

section \<open>Two samples over the line are followed by a cut\<close>

lemma expire_idle: "\<not> awaitingPostTareBaseline s \<Longrightarrow> expirePostTareBaseline env s = s"
  by (simp add: expirePostTareBaseline_def expirePostTareBaselineIfNeeded_def Let_def)

lemma phases_idle:
  "\<not> bbwWeightStopInhibited s \<Longrightarrow> core (serviceBbwProtectionPhases env s) = core s \<and> tally (serviceBbwProtectionPhases env s) = tally s"
  by (auto simp: serviceBbwProtectionPhases_def markRetareEnded_def Let_def bbwWeightStopInhibited_def
      bbwProtectionActive_def bbwAutomaticScaleSession_def)

lemma honored_due:
  assumes "directStopHonored env s" and "\<not> accidentalTouchHolding s" and "\<not> ccTimerOnly (ssConfig s)"
    and "stopperState s = STOPPER_BREW" and "\<not> bbwWeightStopInhibited s"
  shows "fst (automaticScaleStopDue env s)"
  using assms by (simp add: automaticScaleStopDue_def touchFallbackDue_def)

text \<open>The pass that follows a pending direct stop.\<close>

lemma pending_is_served:
  assumes "1 < thresholdConfirmations s" and "directStopPending s" and "weightControlState s = WC_ACTIVE"
    and "stopperState s = STOPPER_BREW" and "\<not> ccTimerOnly (ssConfig s)" and "\<not> accidentalTouchHolding s"
    and "\<not> awaitingPostTareBaseline s" and "\<not> bbwWeightStopInhibited s"
    and env: "feAutomationStop env" "\<not> feScaleUnavailable env" "deadlineReached (feNow env) (lastThresholdAtMs s)"
      "feNow env - lastThresholdAtMs s \<le> MAX_AUTOMATION_WEIGHT_AGE_MS"
  shows "fst (serviceBrew env s) \<noteq> None"
proof -
  define s1 where "s1 = serviceBbwProtectionPhases env s"
  have k: "core s1 = core s" "tally s1 = tally s" using phases_idle [OF assms(8)] by (simp_all add: s1_def)
  have stale: "suspendStaleStream env s1 = s1" using env(2) by (simp add: suspendStaleStream_def)
  have "directStopHonored env s1"
    using assms(1-3) env k by (simp add: directStopHonored_def core_def tally_def DIRECT_STOP_CONFIRMATION_SAMPLES_def
        word_less_nat_alt word_le_nat_alt)
  then have due: "fst (automaticScaleStopDue env s1)"
    by (rule honored_due) (use assms k in \<open>auto simp: core_def bbwWeightStopInhibited_def bbwProtectionActive_def
      bbwAutomaticScaleSession_def\<close>)
  show ?thesis
    unfolding serviceBrew_def expire_idle [OF assms(7)] Let_def s1_def [symmetric] stale
    using env(1) due by (auto simp: case_prod_beta)
qed

text \<open>
  Two samples with consecutive packet numbers, at most a second apart, that pass the filters
  and stand at or over the cut line, and the next pass within a second of the newer one.
\<close>

lemma overweight_is_served:
  assumes "passes env1 r1 a1 q g s" and "thresholdConfirmations s \<le> 1"
    and "s1 = snd (recordWeightSample env1 r1 a1 q g s)"
    and "passes env2 r2 a2 (q + 1) g s1" and "0 < sint (a2 - a1)" and "a2 - a1 \<le> DIRECT_STOP_CONFIRMATION_WINDOW_MS"
    and "s2 = snd (recordWeightSample env2 r2 a2 (q + 1) g s1)"
    and "feAutomationStop env3" and "\<not> feScaleUnavailable env3"
    and "deadlineReached (feNow env3) a2" and "feNow env3 - a2 \<le> MAX_AUTOMATION_WEIGHT_AGE_MS"
  shows "fst (serviceBrew env3 s2) \<noteq> None"
proof -
  note R1 = record_passes [OF assms(1), folded assms(3)]
  note R2 = record_passes [OF assms(4), folded assms(7)]
  have t1: "thresholdConfirmations s1 = 1 \<or> thresholdConfirmations s1 = thresholdConfirmations s + 1"
    "lastThresholdAtMs s1 = a1" "lastThresholdPacketSequence s1 = q" "lastThresholdConnectionGeneration s1 = g"
    using R1 by (auto simp: tally_def confirmSample_def Let_def)
  have "unat (thresholdConfirmations s) = 0 \<or> unat (thresholdConfirmations s) = 1"
    using assms(2) by (auto simp: word_le_nat_alt)
  then have "thresholdConfirmations s = 0 \<or> thresholdConfirmations s = 1"
    by (simp add: word_unat_eq_iff)
  then have c1: "thresholdConfirmations s1 = 1 \<or> thresholdConfirmations s1 = 2" using t1(1) by auto
  have t2: "tally s2 = (thresholdConfirmations s1 + 1, a2, q + 1, g)"
    using R2 c1 t1(2-4) assms(5,6) by (auto simp: tally_def confirmSample_def Let_def)
  have c2: "1 < thresholdConfirmations s2" using t2 c1 by (auto simp: tally_def)
  have conf: "thresholdConfirmations (confirmSample a2 (q + 1) g s1) = thresholdConfirmations s2"
    using R2 tally_conf by metis
  have pend: "directStopPending s2"
    using R2 c2 conf by (simp add: DIRECT_STOP_CONFIRMATION_SAMPLES_def word_less_nat_alt word_le_nat_alt)
  have cfg: "\<not> ccTimerOnly (ssConfig s2)"
    using R2 assms(4) by (simp add: passes_def shouldTrackWeight_def)
  show ?thesis
    by (rule pending_is_served [OF c2 pend]) (use R2 cfg t2 assms(8-11) in \<open>auto simp: tally_def\<close>)
qed

lemma heavy_sample_passes:
  "passes (exampleEnv\<lparr> feNow := 29900, feRunningMs := Some 29900 \<rparr>) 61 29900 7 1 exampleShot"
  "passes exampleEnv 61 30000 8 1
     (snd (recordWeightSample (exampleEnv\<lparr> feNow := 29900, feRunningMs := Some 29900 \<rparr>) 61 29900 7 1 exampleShot))"
  by code_simp+

section \<open>After a lost scale\<close>

definition guard :: "ShotSession \<Rightarrow> WeightControlState \<times> bool \<times> bool \<times> u32" where
  "guard s = (weightControlState s, ssActive s, autoToManualGuardEnforced s, autoToManualGuardDeadlineAtMs s)"

lemma guard_upd [simp]:
  "guard (s\<lparr> automaticEnabled := xAutomaticEnabled \<rparr>) = guard s"
  "guard (s\<lparr> bbwProtectionEnabled := xBbwProtectionEnabled \<rparr>) = guard s"
  "guard (s\<lparr> startedWithScale := xStartedWithScale \<rparr>) = guard s"
  "guard (s\<lparr> scaleWasLost := xScaleWasLost \<rparr>) = guard s"
  "guard (s\<lparr> receivedFreshWeightInCycle := xReceivedFreshWeightInCycle \<rparr>) = guard s"
  "guard (s\<lparr> calibrationEligible := xCalibrationEligible \<rparr>) = guard s"
  "guard (s\<lparr> hasWeightAnchor := xHasWeightAnchor \<rparr>) = guard s"
  "guard (s\<lparr> directStopPending := xDirectStopPending \<rparr>) = guard s"
  "guard (s\<lparr> awaitingPostTareBaseline := xAwaitingPostTareBaseline \<rparr>) = guard s"
  "guard (s\<lparr> directStopReason := xDirectStopReason \<rparr>) = guard s"
  "guard (s\<lparr> thresholdConfirmations := xThresholdConfirmations \<rparr>) = guard s"
  "guard (s\<lparr> recoveryConfirmations := xRecoveryConfirmations \<rparr>) = guard s"
  "guard (s\<lparr> ssId := xSsId \<rparr>) = guard s"
  "guard (s\<lparr> scaleDisconnectSequenceAtStart := xScaleDisconnectSequenceAtStart \<rparr>) = guard s"
  "guard (s\<lparr> weightSequenceAtStart := xWeightSequenceAtStart \<rparr>) = guard s"
  "guard (s\<lparr> ownedConnectionGeneration := xOwnedConnectionGeneration \<rparr>) = guard s"
  "guard (s\<lparr> ssStartedAtMs := xSsStartedAtMs \<rparr>) = guard s"
  "guard (s\<lparr> circuitClosedAtMs := xCircuitClosedAtMs \<rparr>) = guard s"
  "guard (s\<lparr> postTareBaselineDeadlineMs := xPostTareBaselineDeadlineMs \<rparr>) = guard s"
  "guard (s\<lparr> lastAcceptedWeightAtMs := xLastAcceptedWeightAtMs \<rparr>) = guard s"
  "guard (s\<lparr> lastAcceptedPacketSequence := xLastAcceptedPacketSequence \<rparr>) = guard s"
  "guard (s\<lparr> lastThresholdAtMs := xLastThresholdAtMs \<rparr>) = guard s"
  "guard (s\<lparr> lastThresholdPacketSequence := xLastThresholdPacketSequence \<rparr>) = guard s"
  "guard (s\<lparr> lastThresholdConnectionGeneration := xLastThresholdConnectionGeneration \<rparr>) = guard s"
  "guard (s\<lparr> recoveryLastAtMs := xRecoveryLastAtMs \<rparr>) = guard s"
  "guard (s\<lparr> recoveryLastPacketSequence := xRecoveryLastPacketSequence \<rparr>) = guard s"
  "guard (s\<lparr> firstDropMs := xFirstDropMs \<rparr>) = guard s"
  "guard (s\<lparr> scaleBaselineG := xScaleBaselineG \<rparr>) = guard s"
  "guard (s\<lparr> scaleBaselineReady := xScaleBaselineReady \<rparr>) = guard s"
  "guard (s\<lparr> lastAcceptedWeightG := xLastAcceptedWeightG \<rparr>) = guard s"
  "guard (s\<lparr> recoveryLastWeightG := xRecoveryLastWeightG \<rparr>) = guard s"
  "guard (s\<lparr> retareEnded := xRetareEnded \<rparr>) = guard s"
  "guard (s\<lparr> bbwProtectionEnded := xBbwProtectionEnded \<rparr>) = guard s"
  "guard (s\<lparr> retarePerformed := xRetarePerformed \<rparr>) = guard s"
  "guard (s\<lparr> retareDisabled := xRetareDisabled \<rparr>) = guard s"
  "guard (s\<lparr> retareAtMs := xRetareAtMs \<rparr>) = guard s"
  "guard (s\<lparr> flowDuringRetare := xFlowDuringRetare \<rparr>) = guard s"
  "guard (s\<lparr> retareFlowFirstDetectedAtMs := xRetareFlowFirstDetectedAtMs \<rparr>) = guard s"
  "guard (s\<lparr> firstDropsBeepSent := xFirstDropsBeepSent \<rparr>) = guard s"
  "guard (s\<lparr> preTareWeightG := xPreTareWeightG \<rparr>) = guard s"
  "guard (s\<lparr> softwareZeroG := xSoftwareZeroG \<rparr>) = guard s"
  "guard (s\<lparr> firstDropObserved := xFirstDropObserved \<rparr>) = guard s"
  "guard (s\<lparr> retareEffectPending := xRetareEffectPending \<rparr>) = guard s"
  "guard (s\<lparr> ssConfig := xSsConfig \<rparr>) = guard s"
  "guard (s\<lparr> ssCut := xSsCut \<rparr>) = guard s"
  "guard (s\<lparr> ssPredictor := xSsPredictor \<rparr>) = guard s"
  "guard (s\<lparr> predictorQpX100 := xPredictorQpX100 \<rparr>) = guard s"
  "guard (s\<lparr> extractionExtended := xExtractionExtended \<rparr>) = guard s"
  "guard (s\<lparr> slowExtractionExtended := xSlowExtractionExtended \<rparr>) = guard s"
  "guard (s\<lparr> targetReachedEarly := xTargetReachedEarly \<rparr>) = guard s"
  "guard (s\<lparr> targetReachedAtMs := xTargetReachedAtMs \<rparr>) = guard s"
  "guard (s\<lparr> autoToManualGuardArmed := xAutoToManualGuardArmed \<rparr>) = guard s"
  "guard (s\<lparr> scaleLossSource := xScaleLossSource \<rparr>) = guard s"
  "guard (s\<lparr> scaleLossBlind := xScaleLossBlind \<rparr>) = guard s"
  "guard (s\<lparr> cupRemovedPending := xCupRemovedPending \<rparr>) = guard s"
  "guard (s\<lparr> accidentalTouchPhase := xAccidentalTouchPhase \<rparr>) = guard s"
  "guard (s\<lparr> accidentalTouchClass := xAccidentalTouchClass \<rparr>) = guard s"
  "guard (s\<lparr> accidentalTouchHolding := xAccidentalTouchHolding \<rparr>) = guard s"
  "guard (s\<lparr> accidentalTouchPendingG := xAccidentalTouchPendingG \<rparr>) = guard s"
  "guard (s\<lparr> accidentalTouchHeldSinceMs := xAccidentalTouchHeldSinceMs \<rparr>) = guard s"
  "guard (s\<lparr> accidentalTouchEpochS := xAccidentalTouchEpochS \<rparr>) = guard s"
  "guard (s\<lparr> touchStop := xTouchStop \<rparr>) = guard s"
  "guard (s\<lparr> shotStartMs := xShotStartMs \<rparr>) = guard s"
  "guard (s\<lparr> expectedEndMs := xExpectedEndMs \<rparr>) = guard s"
  "guard (s\<lparr> shotWeights := xShotWeights \<rparr>) = guard s"
  "guard (s\<lparr> weightStreamState := xWeightStreamState \<rparr>) = guard s"
  "guard (s\<lparr> stopperState := xStopperState \<rparr>) = guard s"
  "guard (s\<lparr> ssOut := xSsOut \<rparr>) = guard s"
  by (simp_all add: guard_def)

lemma guard_emit [simp]: "guard (emit e s) = guard s" "guard (addDebug c a b s) = guard s"
  by (simp_all add: emit_def addDebug_def)

lemma guard_service:
  assumes "weightControlState s = WC_SUSPENDED"
  shows "guard (snd (serviceBrew env s)) = guard s"
proof -
  have e: "guard (expirePostTareBaseline env s) = guard s"
    by (simp add: expirePostTareBaseline_def expirePostTareBaselineIfNeeded_def markTareZeroReady_def Let_def
        split: option.split bool.split)
  define s1 where "s1 = serviceBbwProtectionPhases env (expirePostTareBaseline env s)"
  have g1: "guard s1 = guard s"
    using e by (simp add: s1_def serviceBbwProtectionPhases_def markRetareEnded_def resetDirectStopConfirmation_def Let_def)
  then have stale: "suspendStaleStream env s1 = s1"
    using assms by (auto simp: suspendStaleStream_def guard_def)
  have due: "guard (snd (automaticScaleStopDue env s1)) = guard s1"
    by (simp add: automaticScaleStopDue_def weightCutReasonNow_def Let_def)
  show ?thesis
    unfolding serviceBrew_def Let_def s1_def [symmetric] stale using due g1 by (auto simp: case_prod_beta)
qed

lemma guard_services:
  "weightControlState s = WC_SUSPENDED \<Longrightarrow> guard (runShot (map (\<lambda>e. (e, ServiceBrew)) envs) s) = guard s"
proof (induction envs arbitrary: s)
  case (Cons e envs)
  have "guard (snd (serviceBrew e s)) = guard s" using guard_service Cons.prems .
  moreover have "weightControlState (snd (serviceBrew e s)) = WC_SUSPENDED"
    using calculation Cons.prems by (simp add: guard_def)
  ultimately show ?case using Cons.IH by simp
qed simp

lemma due_is_served:
  assumes "weightControlState s = WC_SUSPENDED" and "autoToManualGuardDeadlineDue env s" and "feAutomationStop env"
  shows "fst (serviceBrew env s) \<noteq> None"
proof -
  define s1 where "s1 = serviceBbwProtectionPhases env (expirePostTareBaseline env s)"
  have g1: "guard s1 = guard s"
    by (simp add: s1_def serviceBbwProtectionPhases_def markRetareEnded_def resetDirectStopConfirmation_def Let_def
        expirePostTareBaseline_def expirePostTareBaselineIfNeeded_def markTareZeroReady_def split: option.split bool.split)
  then have stale: "suspendStaleStream env s1 = s1"
    using assms(1) by (auto simp: suspendStaleStream_def guard_def)
  have "autoToManualGuardDeadlineDue env s1"
    using assms(2) g1 by (simp add: autoToManualGuardDeadlineDue_def guard_def)
  then show ?thesis
    unfolding serviceBrew_def Let_def s1_def [symmetric] stale using assms(3) by auto
qed

text \<open>The deadline is at most the wall, so it is reached once the shot time is the wall.\<close>

lemma deadline_by_wall:
  assumes "ld \<le> wall" and "0 \<le> ld" and "wall \<le> int t + int d" and "t + d < 2 ^ 31"
  shows "deadlineReached (now + of_nat d) (now + word_of_int (ld - int t))"
proof -
  obtain l where l: "ld = int l" using assms(2) nonneg_int_cases by blast
  have e: "(now + of_nat d) - (now + word_of_int (ld - int t)) = (word_of_nat (d + t) - word_of_nat l :: u32)"
    by (simp add: l)
  have u: "unat (word_of_nat (d + t) - word_of_nat l :: u32) = d + t - l"
    by (rule unat_diff_of_nat) (use assms l in auto)
  show ?thesis unfolding deadlineReached_iff e u using assms(4) by simp
qed

text \<open>Suspending an armed shot sets the deadline of the backup from the shot time.\<close>

lemma loss_within_wall:
  assumes "0 \<le> delayMs p" and "0 \<le> wallMs p"
  shows "0 \<le> ldDeadlineMs (lossDeadline p i) \<and> ldDeadlineMs (lossDeadline p i) \<le> wallMs p"
  using assms by (auto simp: lossDeadline_def Let_def split: prod.split)

lemma guard_trend [simp]: "guard (resetWeightTrend s) = guard s"
  by (simp add: resetWeightTrend_def resetAccidentalTouchState_def Let_def)

lemma suspend_guard:
  assumes "weightControlState s = WC_ACTIVE \<or> weightControlState s = WC_VALIDATING" and "ssActive s"
    and "autoToManualGuardArmed s" and "\<not> autoToManualGuardEnforced s"
  obtains i where "guard (suspendWeightControl env s) = (WC_SUSPENDED, True, True,
      feNow env + word_of_int (ldDeadlineMs (lossDeadline (csParams (ssCut s)) i) - orZero (shotTimeAtMs env (feNow env))))"
proof -
  define s1 where "s1 = addDebug SCALE_CONTROL_SUSPENDED (controlStateCode (weightControlState s)) 0
     (s\<lparr> weightControlState := WC_SUSPENDED, touchStop := touchStop0, automaticEnabled := False, scaleWasLost := True \<rparr>)"
  have k: "weightControlState s1 = WC_SUSPENDED" "ssActive s1" "autoToManualGuardArmed s1" "\<not> autoToManualGuardEnforced s1"
    "csParams (ssCut s1) = csParams (ssCut s)"
    using assms by (simp_all add: s1_def) (simp add: addDebug_def emit_def)
  have "setWeightControlState env WC_SUSPENDED s = enforceScaleLossBackup env s1"
    using assms(1) by (auto simp: setWeightControlState_def Let_def s1_def)
  then have "guard (suspendWeightControl env s) = guard (enforceScaleLossBackup env s1)"
    using assms(1) by (auto simp: suspendWeightControl_def)
  also have "\<dots> = (WC_SUSPENDED, True, True, feNow env +
      word_of_int (ldDeadlineMs (lossDeadline (csParams (ssCut s)) (lossInputs env s1)) - liNowMs (lossInputs env s1)))"
    using k by (simp add: enforceScaleLossBackup_def Let_def latchAtmCurveFromSession_def guard_def emit_def addDebug_def)
  finally show ?thesis
    by (intro that [of "lossInputs env s1"]) (simp add: lossInputs_def Let_def)
qed

text \<open>
  Property C5. A shot does not run on when its scale is lost. Once an armed shot is
  suspended, every pass of the control loop from the moment its running time reaches the
  configured wall ends it, however many passes came in between, as long as the stream has not
  been taken back; the backup's deadline may end it earlier.
\<close>

theorem lost_scale_ends_shot:
  assumes "weightControlState s = WC_ACTIVE \<or> weightControlState s = WC_VALIDATING" and "ssActive s"
    and "autoToManualGuardArmed s" and "\<not> autoToManualGuardEnforced s"
    and "0 \<le> delayMs (csParams (ssCut s))" and "0 \<le> wallMs (csParams (ssCut s))"
    and "feRunningMs env1 = Some (of_nat t)" and "feNow env2 = feNow env1 + of_nat d"
    and "wallMs (csParams (ssCut s)) \<le> int t + int d" and "t + d < 2 ^ 31" and "feAutomationStop env2"
  shows "fst (serviceBrew env2 (runShot (map (\<lambda>e. (e, ServiceBrew)) envs) (suspendWeightControl env1 s))) \<noteq> None"
proof -
  obtain i where g: "guard (suspendWeightControl env1 s) = (WC_SUSPENDED, True, True,
      feNow env1 + word_of_int (ldDeadlineMs (lossDeadline (csParams (ssCut s)) i) - orZero (shotTimeAtMs env1 (feNow env1))))"
    using suspend_guard [OF assms(1-4)] .
  let ?r = "runShot (map (\<lambda>e. (e, ServiceBrew)) envs) (suspendWeightControl env1 s)"
  have gr: "guard ?r = guard (suspendWeightControl env1 s)"
    by (rule guard_services) (use g in \<open>simp add: guard_def\<close>)
  have "orZero (shotTimeAtMs env1 (feNow env1)) = int t"
    using assms(7,10) by (simp add: shotTimeAtMs_def orZero_def Let_def fitsI32_def uint_nat unat_of_nat)
  then have "autoToManualGuardDeadlineDue env2 ?r"
    using gr g loss_within_wall [OF assms(5,6), of i] deadline_by_wall [OF _ _ assms(9,10)] assms(8)
    by (simp add: autoToManualGuardDeadlineDue_def guard_def)
  then show ?thesis
    by (rule due_is_served [rotated]) (use gr g assms(11) in \<open>auto simp: guard_def\<close>)
qed

theorem lost_scale_ends_shot_witness:
  "fst (serviceBrew (exampleEnv\<lparr> feNow := 50000, feScaleUnavailable := True \<rparr>)
     (suspendWeightControl exampleEnv (exampleShot\<lparr> autoToManualGuardArmed := True \<rparr>))) \<noteq> None"
  using lost_scale_ends_shot [of "exampleShot\<lparr> autoToManualGuardArmed := True \<rparr>" exampleEnv 30000
      "exampleEnv\<lparr> feNow := 50000, feScaleUnavailable := True \<rparr>" 20000 "[]"]
  by (simp add: exampleShot_def exampleEnv_def exampleCut_def exampleRecipe_def)

end
