(* ===== verification/Cycle_Props.thy ===== *)
theory Cycle_Props
  imports Cycle_Examples Brew_Liveness
begin

text \<open>
  The properties of the control state machine: the invariant over every run, the limits, the
  wait for the user's release, the guard of the mode that requires a scale, the end of a
  rinse, abandoned starts, and the weight stop carried to the machine.
\<close>

section \<open>Over every run\<close>

definition atBoot :: "CycleState \<Rightarrow> bool" where
  "atBoot s \<longleftrightarrow> \<not> cyActive s \<and> cyStopper s = STOPPER_REQUIRES_OFF \<and> \<not> outboundShotActive s \<and>
     maintenanceLease s = None \<and> guOut s = []"

lemma boot_ok: "atBoot s \<Longrightarrow> cycleOk mirror s"
  by (simp add: atBoot_def status_def life_def openCycle_def)

text \<open>
  Property C4. From boot, over any order of passes, gestures, samples, web commands and
  maintenance leases that do not use the unsafe override, the state machine is in BREW, RINSE
  or MANUAL_NO_SCALE exactly when a session is active, a rinse has its clock running, the
  outbound gate and a maintenance lease agree with the session, compatibility mode never
  opens one, and the machine is told of the begin and the end of cycles in strict
  alternation, a cycle being open exactly when the session is active.
\<close>

theorem cycle_states_agree:
  assumes "atBoot s0" and "\<forall>(env, call) \<in> set calls. plain call \<and> ceCompatibility env = mirror"
  shows "let s = runCycle calls s0 in
    (cyActive s \<longleftrightarrow> cyStopper s = STOPPER_BREW \<or> cyStopper s = STOPPER_RINSE \<or> cyStopper s = STOPPER_MANUAL_NO_SCALE) \<and>
    (cyStopper s = STOPPER_RINSE \<longrightarrow> rinseTimerActive s) \<and> (outboundShotActive s \<longrightarrow> cyActive s) \<and>
    (maintenanceLease s \<noteq> None \<longrightarrow> \<not> cyActive s) \<and> (mirror \<longrightarrow> \<not> cyActive s) \<and>
    openCycle (guOut s) = Some (cyActive s)"
  using active_states [OF run_ok [OF boot_ok [OF assms(1)] assms(2)]] by (simp add: Let_def)

definition withIntent :: "UserIntent \<Rightarrow> u32 \<Rightarrow> CycleEnv \<Rightarrow> CycleEnv" where
  "withIntent i t env = env\<lparr> ceIntention := restIntention\<lparr> inIntent := i, inHoldActive := (i = REQUEST_START),
       inTurnedOn := (i = REQUEST_START) \<rparr>,
     ceGuard := (ceGuard env)\<lparr> gvShot := (gvShot (ceGuard env))\<lparr> feNow := t \<rparr>, gvNoScaleBbwMode := 0 \<rparr> \<rparr>"

definition manualShot :: "(CycleEnv \<times> CycleCall) list" where
  "manualShot = [(withIntent STABLE_IDLE 1000 exampleCycleEnv, Task), (withIntent REQUEST_START 2000 exampleCycleEnv, Task),
     (withIntent REQUEST_STOP 30000 exampleCycleEnv, Task)]"

lemma manual_shot_runs:
  "atBoot restingCycle \<and> (\<forall>(env, call) \<in> set manualShot. plain call \<and> ceCompatibility env = False)"
  "cyStopper (runCycle (butlast manualShot) restingCycle) = STOPPER_MANUAL_NO_SCALE"
  by code_simp+

theorem cycle_states_agree_witness:
  "openCycle (guOut (runCycle manualShot restingCycle)) = Some (cyActive (runCycle manualShot restingCycle))"
  using cycle_states_agree [of restingCycle manualShot False] manual_shot_runs(1) by (simp add: Let_def)

text \<open>The unsafe override is needed: a maintenance lease it grants during a shot strands the session.\<close>

definition overrideLease :: "(CycleEnv \<times> CycleCall) list" where
  "overrideLease = butlast manualShot @ [(withIntent NO_INTENT 3000 exampleCycleEnv, BeginLease True False),
     (withIntent REQUEST_START 4000 exampleCycleEnv, Task)]"

lemma override_lease_strands_session:
  "cyActive (runCycle overrideLease restingCycle)" "cyStopper (runCycle overrideLease restingCycle) = STOPPER_REQUIRES_OFF"
  by code_simp+

section \<open>Limits\<close>

text \<open>
  Property C6. Every limit ends the cycle in the pass that sees it: a tripped relay, a hard
  or operational limit that has run out, or the configured wall of a shot that a paddle holds
  closed, leaves no active session and a machine that waits for the user's release, asks for
  no start, and asks the machine to stop when a cycle was open.
\<close>

theorem limit_ends_cycle:
  assumes "hardLimitPassed env \<or> operationalLimitPassed env \<or> wallPassed env s"
  shows "let s' = stateMachineTask env s in
    \<not> cyActive s' \<and> cyStopper s' = STOPPER_REQUIRES_OFF \<and> seen isStart s' = seen isStart s \<and>
    (cyActive s \<longrightarrow> length (seen isStop s') > length (seen isStop s))"
proof (cases "hardLimitPassed env")
  case True
  let ?s = "tell (Note HARD_LIMIT_SEEN 0 0) s"
  have "stateMachineTask env s = handleGlobalLimitTrip env ?s" using True by (simp add: stateMachineTask_def Let_def)
  then show ?thesis using global_seen [where env = env and s = ?s] by (simp add: Let_def)
next
  case False
  then have "stateMachineTask env s = handleOperationalLimitTrip env s" using assms by (auto simp: stateMachineTask_def Let_def)
  then show ?thesis using operational_seen [where env = env and s = s] by (simp add: Let_def)
qed

definition trippedEnv :: CycleEnv where
  "trippedEnv = exampleCycleEnv\<lparr> ceRelay := exampleRelay\<lparr> snTripped := True \<rparr> \<rparr>"

theorem limit_ends_cycle_witness:
  "\<not> cyActive (stateMachineTask trippedEnv (runCycle (butlast manualShot) restingCycle))"
  using limit_ends_cycle [of trippedEnv] by (simp add: Let_def trippedEnv_def hardLimitPassed_def)

section \<open>Waiting for the release\<close>

definition released :: "CycleEnv \<Rightarrow> bool" where
  "released env \<longleftrightarrow> inIntent (ceIntention env) = STABLE_IDLE \<or> inStablyOff (ceIntention env)"

abbreviation waiting :: "CycleState \<Rightarrow> bool" where
  "waiting s \<equiv> cyStopper s = STOPPER_REQUIRES_OFF \<and> \<not> cyActive s"

lemma seen_bypass [simp]:
  "seen isStart (armNoScaleShotGuard s) = seen isStart s" "seen isStart (resetNoScaleRequireBypassGesture s) = seen isStart s"
  "seen isStart (serviceNoScaleRequireBypassGesture v i a s) = seen isStart s"
  by (simp_all add: armNoScaleShotGuard_def resetNoScaleRequireBypassGesture_def)
    (simp add: serviceNoScaleRequireBypassGesture_def bypassPressed_def bypassReleased_def
      temporarilyAllowNoScaleRequireMode_def Let_def resetNoScaleRequireBypassGesture_def)

lemma seen_services [simp]:
  "seen isStart (serviceCupStartGuard v i s) = seen isStart s"
  "seen isStart (serviceNoScaleHold v i a s) = seen isStart s"
  "seen isStart (serviceNoScaleShotGuard v i a s) = seen isStart s"
  by (simp_all add: serviceCupStartGuard_def serviceNoScaleHold_def serviceNoScaleShotGuard_def Let_def)

lemma waiting_task:
  assumes "waiting s"
  shows "let s' = stateMachineTask env s in
    seen isStart s' = seen isStart s \<and> \<not> cyActive s' \<and>
    (cyStopper s' \<noteq> STOPPER_REQUIRES_OFF \<longrightarrow> cyStopper s' = STOPPER_READY \<and> released env)"
proof (cases "hardLimitPassed env \<or> operationalLimitPassed env \<or> wallPassed env s")
  case True
  let ?s = "tell (Note HARD_LIMIT_SEEN 0 0) s"
  have "stateMachineTask env s = handleGlobalLimitTrip env ?s \<or> stateMachineTask env s = handleOperationalLimitTrip env s"
    using True by (auto simp: stateMachineTask_def Let_def)
  then show ?thesis using global_seen [where env = env and s = ?s] operational_seen [where env = env and s = s] by (auto simp: Let_def)
next
  case False
  then show ?thesis
    using assms by (simp add: stateMachineTask_def Let_def serviceStopper_def serviceCompatibilityMirror_def serviceLeasePass_def
        abortGuardHistory_def released_def split: option.split)
qed

lemma waiting_wake:
  assumes "waiting s"
  shows "seen isStart (snd (serviceMachineWakeGesture env s)) = seen isStart s"
    "waiting (snd (serviceMachineWakeGesture env s))"
  using assms
  by (simp_all add: serviceMachineWakeGesture_def admitBackflush_def backflushActive_def Let_def split: prod.split)

lemma waiting_step:
  assumes "waiting s" and "call \<noteq> RemoteOn True" and "call \<noteq> WebRinse True"
  shows "let s' = cycleStep env call s in
    seen isStart s' = seen isStart s \<and> \<not> cyActive s' \<and>
    (cyStopper s' \<noteq> STOPPER_REQUIRES_OFF \<longrightarrow> cyStopper s' = STOPPER_READY \<and> call = Task \<and> released env)"
proof (cases call)
  case Guards
  have "status (cycleStep env call s) = status s" by (simp add: Guards)
  then show ?thesis using assms(1) same_status [of "cycleStep env call s" s]
    by (simp add: Guards Let_def status_def life_def)
next
  case (Sample w a q g)
  have "life (cyShot (cycleStep env call s)) = life (cyShot s)" by (simp add: Sample onShot_def)
  then show ?thesis using assms(1) by (simp add: Sample Let_def life_def)
qed (use assms waiting_task [OF assms(1), of env] waiting_wake [OF assms(1), of env] in
    \<open>auto simp: webStop_def stateOverrideOff_def remoteOn_def webRinse_def webCommandAllowsUnsafeConfiguration_def
        controlAllowsConfigurationNow_def beginMaintenanceLease_def forwardMaintenanceLease_def
        completeMaintenanceLease_def Let_def split: option.splits\<close>)

lemma waiting_run:
  assumes "waiting s" and "\<forall>(env, call) \<in> set calls. call \<noteq> RemoteOn True \<and> call \<noteq> WebRinse True \<and> \<not> (call = Task \<and> released env)"
  shows "waiting (runCycle calls s) \<and> seen isStart (runCycle calls s) = seen isStart s"
  using assms
proof (induction calls arbitrary: s)
  case (Cons c calls)
  obtain env call where c: "c = (env, call)" by (cases c)
  have "waiting (cycleStep env call s) \<and> seen isStart (cycleStep env call s) = seen isStart s"
    using waiting_step [OF Cons.prems(1), of call env] Cons.prems(2) by (auto simp: c Let_def)
  then show ?case using Cons.IH [of "cycleStep env call s"] Cons.prems(2) by (simp add: c)
qed simp

text \<open>
  Property C17. A machine that was stopped waits for the user. From the state REQUIRES_OFF with
  no session, over any order of passes, gestures, samples, stops, web commands and maintenance
  leases, web starts and rinses under the unsafe override excepted, nothing asks for a start
  and no session opens: the state stays REQUIRES_OFF until a pass of the control task sees the
  activator off for good, and that pass goes to READY and starts nothing either.
\<close>

theorem requires_off_waits:
  assumes "cyStopper s = STOPPER_REQUIRES_OFF" and "\<not> cyActive s"
    and "\<forall>(env, call) \<in> set (before @ [(env1, call1)]). call \<noteq> RemoteOn True \<and> call \<noteq> WebRinse True"
    and "\<forall>(env, call) \<in> set before. call = Task \<longrightarrow>
      inIntent (ceIntention env) \<noteq> STABLE_IDLE \<and> \<not> inStablyOff (ceIntention env)"
  shows "let s1 = runCycle before s; s2 = cycleStep env1 call1 s1 in
    cyStopper s1 = STOPPER_REQUIRES_OFF \<and> \<not> cyActive s1 \<and> \<not> cyActive s2 \<and>
    seen isStart s1 = seen isStart s \<and> seen isStart s2 = seen isStart s \<and>
    (cyStopper s2 \<noteq> STOPPER_REQUIRES_OFF \<longrightarrow> cyStopper s2 = STOPPER_READY \<and> call1 = Task \<and>
       (inIntent (ceIntention env1) = STABLE_IDLE \<or> inStablyOff (ceIntention env1)))"
proof -
  have "waiting (runCycle before s) \<and> seen isStart (runCycle before s) = seen isStart s"
    by (rule waiting_run) (use assms in \<open>auto simp: released_def\<close>)
  then show ?thesis
    using waiting_step [of "runCycle before s" call1 env1] assms(3) by (simp add: Let_def released_def)
qed

theorem requires_off_waits_witness:
  "seen isStart (cycleStep exampleCycleEnv Task (runCycle
     [(withIntent REQUEST_START 1000 exampleCycleEnv, WakeGesture), (withIntent REQUEST_START 1000 exampleCycleEnv, Task),
      (exampleCycleEnv, RemoteOn False)] restingCycle)) = []"
proof -
  have "cyStopper restingCycle = STOPPER_REQUIRES_OFF" "\<not> cyActive restingCycle" "seen isStart restingCycle = []"
    by (simp_all add: restingCycle_def seen_def)
  then show ?thesis
    using requires_off_waits [of restingCycle "[(withIntent REQUEST_START 1000 exampleCycleEnv, WakeGesture),
        (withIntent REQUEST_START 1000 exampleCycleEnv, Task), (exampleCycleEnv, RemoteOn False)]" exampleCycleEnv Task]
    by (simp add: Let_def withIntent_def restIntention_def)
qed

section \<open>Without a scale\<close>

text \<open>
  Property C15. In the mode that requires a scale no cycle starts without one: while the guard
  is armed, no reading of a scale can be used and the preset wants weights, neither a pass of
  the control task, nor a web start or rinse, even with the unsafe override, asks the machine
  for a start or opens a session.
\<close>

theorem require_mode_never_starts:
  assumes "noScaleBbwRequiresScale (ceMode env)" and "noScaleShotGuardArmed s" and "\<not> giScaleUsable (loopGuardInputs env)"
    and "\<not> gvTimerOnly (ceGuard env)" and "\<not> ceCompatibility env" and "cycleOk False s" and "\<not> cyActive s"
    and "call = Task \<or> call = RemoteOn override \<or> call = WebRinse override"
  shows "seen isStart (cycleStep env call s) = seen isStart s \<and> \<not> cyActive (cycleStep env call s)"
proof -
  have b: "noScaleShotGuardWouldBlock (ceGuard env) (loopGuardInputs env) s"
    using assms(1-4) by (simp add: noScaleShotGuardWouldBlock_def noScaleBbwEnabled_def noScaleBbwRequiresScale_def)
  have b': "noScaleShotGuardWouldBlock (ceGuard env) (loopGuardInputs env) (s\<lparr> virtualHoldOn := True \<rparr>)"
    using b by (simp add: noScaleShotGuardWouldBlock_def)
  note start = beginCycle_blocked [OF b] and remote = beginCycle_blocked [OF b'] and rinse = beginRinse_blocked [OF b assms(1)]
  have ready: "seen isStart (serviceReady env s) = seen isStart s \<and> \<not> cyActive (serviceReady env s)"
    using start rinse same_status [OF start(2)] same_status [OF rinse(3)] assms(7)
    by (cases "inIntent (ceIntention env)") (simp_all add: serviceReady_def Let_def abortGuardHistory_def)
  consider (task) "call = Task" | (web) "call = RemoteOn override \<or> call = WebRinse override" using assms(8) by blast
  then show ?thesis
  proof cases
    case task
    have st: "cyStopper s \<in> {STOPPER_REQUIRES_OFF, STOPPER_READY, STOPPER_BACKFLUSH_CANDIDATE, STOPPER_BACKFLUSH_RUNNING}"
      using active_states(1) [OF assms(6)] assms(7) by (cases "cyStopper s") auto
    have stop: "seen isStart (serviceStopper env s) = seen isStart s \<and> \<not> cyActive (serviceStopper env s)"
      using st ready assms(7) by (auto simp: serviceStopper_def)
    show ?thesis
      using stop assms(5,7) global_seen [where env = env and s = "tell (Note HARD_LIMIT_SEEN 0 0) s"]
        operational_seen [where env = env and s = s]
      by (simp add: task stateMachineTask_def Let_def serviceLeasePass_def abortGuardHistory_def seen_if split: option.split)
  next
    case web
    then show ?thesis
      using remote rinse same_status [OF remote(2)] same_status [OF rinse(3)] assms(7)
      by (elim disjE) (simp_all add: remoteOn_def webRinse_def beginWebRinse_def Let_def)
  qed
qed

text \<open>A press without a scale, the machine being ready.\<close>

definition noScaleEnv :: CycleEnv where
  "noScaleEnv = (withIntent REQUEST_START 2000 exampleCycleEnv)\<lparr> ceGuard := exampleGuardEnv \<rparr>"

definition readyCycle :: CycleState where
  "readyCycle = restingCycle\<lparr> cyShot := (cyShot restingCycle)\<lparr> stopperState := STOPPER_READY \<rparr> \<rparr>"

lemma ready_blocked:
  "noScaleBbwRequiresScale (ceMode noScaleEnv)" "noScaleShotGuardArmed readyCycle"
  "\<not> giScaleUsable (loopGuardInputs noScaleEnv)" "\<not> gvTimerOnly (ceGuard noScaleEnv)" "\<not> ceCompatibility noScaleEnv"
  "cycleOk False readyCycle" "\<not> cyActive readyCycle"
  by code_simp+

theorem require_mode_never_starts_witness:
  "seen isStart (cycleStep noScaleEnv Task readyCycle) = [] \<and> \<not> cyActive (cycleStep noScaleEnv Task readyCycle)"
  using require_mode_never_starts [OF ready_blocked, of Task]
  by (simp add: seen_def readyCycle_def restingCycle_def)

section \<open>Cycles that end\<close>

text \<open>The pass is not held up by a gesture, a lease or compatibility mode.\<close>

definition unhindered :: "CycleEnv \<Rightarrow> CycleState \<Rightarrow> bool" where
  "unhindered env s \<longleftrightarrow> \<not> machineWakePassthroughActive s \<and> \<not> machineWakeGestureConsumedThisLoop s \<and>
     \<not> noScaleRequireBypassCompletedThisLoop s \<and> maintenanceLease s = None \<and> \<not> ceCompatibility env"

definition stopped :: "CycleState \<Rightarrow> CycleState \<Rightarrow> bool" where
  "stopped s s' \<longleftrightarrow> \<not> cyActive s' \<and> seen isStart s' = seen isStart s \<and> length (seen isStop s') > length (seen isStop s)"

lemma stopped_by_task:
  assumes "cyActive s" and "unhindered env s" and "stopped s (serviceStopper env s)"
  shows "stopped s (stateMachineTask env s)"
proof (cases "hardLimitPassed env \<or> operationalLimitPassed env \<or> wallPassed env s")
  case True
  let ?s = "tell (Note HARD_LIMIT_SEEN 0 0) s"
  have "stateMachineTask env s = handleGlobalLimitTrip env ?s \<or> stateMachineTask env s = handleOperationalLimitTrip env s"
    using True by (auto simp: stateMachineTask_def Let_def)
  then show ?thesis
    using global_seen [where env = env and s = ?s] operational_seen [where env = env and s = s] assms(1) by (auto simp: stopped_def)
next
  case False
  then show ?thesis
    using assms by (simp add: stateMachineTask_def Let_def unhindered_def) (simp add: stopped_def)
qed

lemma finalize_stopped: "seen isStart s1 = seen isStart s \<Longrightarrow> seen isStop s1 = seen isStop s \<Longrightarrow>
    stopped s (snd (finalizeCycle env r st w s1))"
  by (simp add: stopped_def)

text \<open>
  Property C18. A rinse ends on time: the first pass at or after its deadline that is not held
  up ends the cycle and asks the machine to stop.
\<close>

theorem rinse_ends_on_time:
  assumes "cycleOk False s" and "cyStopper s = STOPPER_RINSE" and "unhindered env s"
    and "ceNow env - rinseClockStartedAtMs s \<ge> rinseClockDurationMs s"
  shows "\<not> cyActive (stateMachineTask env s) \<and>
    length (seen isStop (stateMachineTask env s)) > length (seen isStop s)"
proof -
  have a: "cyActive s" "rinseTimerActive s" using active_states [OF assms(1)] assms(2) by simp_all
  have "stopped s (serviceStopper env s)"
    using a(2) assms(2,4) finalize_stopped [of s s] by (simp add: serviceStopper_def rinseDeadlineReached_def)
  then show ?thesis using stopped_by_task [OF a(1) assms(3)] by (simp add: stopped_def)
qed

definition rinsing :: "(CycleEnv \<times> CycleCall) list" where
  "rinsing = [(withIntent STABLE_IDLE 1000 exampleCycleEnv, Task), (withIntent REQUEST_RINSE 2000 exampleCycleEnv, Task)]"

lemma rinse_runs:
  "cycleOk False (runCycle rinsing restingCycle)" "cyStopper (runCycle rinsing restingCycle) = STOPPER_RINSE"
  "unhindered (withIntent NO_INTENT 5000 exampleCycleEnv) (runCycle rinsing restingCycle)"
  "ceNow (withIntent NO_INTENT 5000 exampleCycleEnv) - rinseClockStartedAtMs (runCycle rinsing restingCycle) \<ge>
     rinseClockDurationMs (runCycle rinsing restingCycle)"
  by code_simp+

theorem rinse_ends_on_time_witness:
  "\<not> cyActive (stateMachineTask (withIntent NO_INTENT 5000 exampleCycleEnv) (runCycle rinsing restingCycle))"
  using rinse_ends_on_time [OF rinse_runs] by blast

text \<open>
  Property C3. A shot at its weight stops the machine: when two samples with consecutive
  packet numbers, at most a second apart, pass the filters of a running brew and stand at or
  over the cut line, the next pass of the control task within a second of the newer one, if it
  is not held up and the user asks for no rinse, ends the session and asks the machine to
  stop, provided the scale is still there and the machine lets the automation stop it.
\<close>

theorem steady_overweight_stops_machine:
  assumes "passes (ceShot e1) r1 a1 q g (cyShot s)" and "thresholdConfirmations (cyShot s) \<le> 1"
    and "s1 = cycleStep e1 (Sample r1 a1 q g) s"
    and "passes (ceShot e2) r2 a2 (q + 1) g (cyShot s1)" and "0 < sint (a2 - a1)" and "a2 - a1 \<le> DIRECT_STOP_CONFIRMATION_WINDOW_MS"
    and "s2 = cycleStep e2 (Sample r2 a2 (q + 1) g) s1"
    and "feAutomationStop (ceShot e3)" and "\<not> feScaleUnavailable (ceShot e3)"
    and "deadlineReached (ceNow e3) a2" and "ceNow e3 - a2 \<le> MAX_AUTOMATION_WEIGHT_AGE_MS"
    and "unhindered e3 s" and "inIntent (ceIntention e3) \<noteq> REQUEST_RINSE"
  shows "\<not> cyActive (cycleStep e3 Task s2) \<and> length (seen isStop (cycleStep e3 Task s2)) > length (seen isStop s)"
proof -
  have x: "cyShot s1 = snd (recordWeightSample (ceShot e1) r1 a1 q g (cyShot s))"
    "cyShot s2 = snd (recordWeightSample (ceShot e2) r2 a2 (q + 1) g (cyShot s1))"
    using assms(3,7) by (simp_all add: onShot_def)
  have served: "fst (serviceBrew (ceShot e3) (cyShot s2)) \<noteq> None"
    by (rule overweight_is_served [OF assms(1,2) x(1) assms(4-6) x(2) assms(8-11)])
  have keep: "unhindered e3 s2" "seen isStop s2 = seen isStop s" "life (cyShot s2) = life (cyShot s)"
    using assms(3,7,12) x by (auto simp: unhindered_def onShot_def)
  have live: "cyActive s2" "cyStopper s2 = STOPPER_BREW"
    using keep(3) assms(1) by (auto simp: life_def passes_def shouldTrackWeight_def)
  have "stopped s2 (serviceBrewing e3 s2)"
    using served assms(13) finalize_stopped [of "s2\<lparr> cyShot := snd (serviceBrew (ceShot e3) (cyShot s2)) \<rparr>" s2]
      finalize_stopped [of s2 s2] finalize_stopped [of "s2\<lparr> cyAutomaticBrew := True \<rparr>" s2]
    by (auto simp: serviceBrewing_def endForUser_def Let_def split: option.split)
  then have "stopped s2 (serviceStopper e3 s2)" using live(2) by (simp add: serviceStopper_def)
  then have "stopped s2 (stateMachineTask e3 s2)" by (rule stopped_by_task [OF live(1) keep(1)])
  then show ?thesis using keep(2) by (simp add: stopped_def)
qed

definition brewingCycle :: CycleState where
  "brewingCycle = restingCycle\<lparr> cyShot := exampleShot \<rparr>"

definition atMs :: "u32 \<Rightarrow> CycleEnv" where
  "atMs t = exampleCycleEnv\<lparr> ceGuard := exampleGuardEnv\<lparr> gvShot := exampleEnv\<lparr> feNow := t, feRunningMs := Some t \<rparr> \<rparr> \<rparr>"

lemma heavy_cycle:
  "ceShot (atMs 29900) = exampleEnv\<lparr> feNow := 29900, feRunningMs := Some 29900 \<rparr>" "ceShot (atMs 30000) = exampleEnv"
  "cyShot (cycleStep (atMs 29900) (Sample 61 29900 7 1) brewingCycle) =
     snd (recordWeightSample (ceShot (atMs 29900)) 61 29900 7 1 exampleShot)"
  "unhindered (atMs 30000) brewingCycle" "inIntent (ceIntention (atMs 30000)) \<noteq> REQUEST_RINSE"
  by (simp_all add: atMs_def exampleEnv_def exampleGuardEnv_def exampleCycleEnv_def brewingCycle_def restingCycle_def onShot_def
      unhindered_def restIntention_def)

theorem steady_overweight_stops_machine_witness:
  "\<not> cyActive (cycleStep (atMs 30000) Task (cycleStep (atMs 30000) (Sample 61 30000 8 1)
     (cycleStep (atMs 29900) (Sample 61 29900 7 1) brewingCycle)))"
  using steady_overweight_stops_machine [of "atMs 29900" 61 29900 7 1 brewingCycle _ "atMs 30000" 61 30000 _ "atMs 30000",
      OF _ _ refl _ _ _ refl] heavy_sample_passes heavy_cycle
  by (simp add: brewingCycle_def restingCycle_def exampleShot_def exampleEnv_def DIRECT_STOP_CONFIRMATION_WINDOW_MS_def
      MAX_AUTOMATION_WEIGHT_AGE_MS_def deadlineReached_def)

text \<open>
  Property C19. An abandoned start leaves no trace: a start that the machine did not confirm
  ends with a request to stop, writes no activation, no last shot and no shot for the log, and
  leaves the clock of the guard against shots without a scale as it was.
\<close>

theorem abandoned_start_leaves_no_trace:
  "let s' = snd (finalizeCycle env UNCONFIRMED_START st w s) in
    stopped s s' \<and> seen isRecord s' = seen isRecord s \<and>
    noScaleShotGuardActivityAtMs s' = noScaleShotGuardActivityAtMs s"
proof -
  have r: "\<not> isRecord (stopRequest r w s)" for r by (simp add: stopRequest_def)
  have "seen isRecord (snd (finalizeCycle env UNCONFIRMED_START st w s)) = seen isRecord s"
    using r by (simp add: finalizeCycle_def Let_def appendActivationHistory_def brewEndIsAbandonedStart_def)
  moreover have "noScaleShotGuardActivityAtMs (snd (finalizeCycle env UNCONFIRMED_START st w s)) = noScaleShotGuardActivityAtMs s"
    by (simp add: finalizeCycle_def Let_def appendActivationHistory_def brewEndIsAbandonedStart_def transitionTo_def
        endAlerts_def rinseClear_def tell_def onShot_def)
  ultimately show ?thesis using finalize_stopped [of s s] by (simp add: Let_def)
qed

end
