(* ===== verification/Guard_Facts.thy ===== *)
theory Guard_Facts
  imports Cycle_Examples
begin

text \<open>
  The gesture that lifts the guard of the \<open>REQUIRE_SCALE\<close> mode: over every run of the control
  state machine the guard only comes off after three presses and releases of the activator,
  the last release within two seconds of the first press.
\<close>

section \<open>What leaves the gesture alone\<close>

definition gest :: "'a GuardState_scheme \<Rightarrow> bool \<times> bool \<times> u8 \<times> u32" where
  "gest s = (noScaleShotGuardArmed s, noScaleRequireBypassHoldSeen s, noScaleRequireBypassCycles s,
     noScaleRequireBypassStartedAtMs s)"

lemma gest_upd [simp]:
  "gest (s\<lparr> noScaleShotGuardActivityAtMs := xNoScaleShotGuardActivityAtMs \<rparr>) = gest s"
  "gest (s\<lparr> noScaleShotGuardScaleWasAvailable := xNoScaleShotGuardScaleWasAvailable \<rparr>) = gest s"
  "gest (s\<lparr> noScaleShotGuardHold := xNoScaleShotGuardHold \<rparr>) = gest s"
  "gest (s\<lparr> noScaleShotGuardHoldAtMs := xNoScaleShotGuardHoldAtMs \<rparr>) = gest s"
  "gest (s\<lparr> noScaleGuardHistoryPending := xNoScaleGuardHistoryPending \<rparr>) = gest s"
  "gest (s\<lparr> noScaleShotGuardNeedsFreshActivator := xNoScaleShotGuardNeedsFreshActivator \<rparr>) = gest s"
  "gest (s\<lparr> noScaleRequireBypassReady := xNoScaleRequireBypassReady \<rparr>) = gest s"
  "gest (s\<lparr> noScaleRequireBypassCompletedThisLoop := xNoScaleRequireBypassCompletedThisLoop \<rparr>) = gest s"
  "gest (s\<lparr> cupStartGuardHold := xCupStartGuardHold \<rparr>) = gest s"
  "gest (s\<lparr> cupStartGuardHoldAtMs := xCupStartGuardHoldAtMs \<rparr>) = gest s"
  "gest (s\<lparr> guOut := xGuOut \<rparr>) = gest s"
  by (simp_all add: gest_def)

lemma gest_upd_cycle [simp]:
  "gest ((s::CycleState)\<lparr> cyShot := xCyShot \<rparr>) = gest s"
  "gest ((s::CycleState)\<lparr> cySource := xCySource \<rparr>) = gest s"
  "gest ((s::CycleState)\<lparr> cyEndReason := xCyEndReason \<rparr>) = gest s"
  "gest ((s::CycleState)\<lparr> cyRinseStartedAtMs := xCyRinseStartedAtMs \<rparr>) = gest s"
  "gest ((s::CycleState)\<lparr> cyAutomaticBrew := xCyAutomaticBrew \<rparr>) = gest s"
  "gest ((s::CycleState)\<lparr> nextCycleId := xNextCycleId \<rparr>) = gest s"
  "gest ((s::CycleState)\<lparr> virtualHoldOn := xVirtualHoldOn \<rparr>) = gest s"
  "gest ((s::CycleState)\<lparr> outboundShotActive := xOutboundShotActive \<rparr>) = gest s"
  "gest ((s::CycleState)\<lparr> rinseClockDurationMs := xRinseClockDurationMs \<rparr>) = gest s"
  "gest ((s::CycleState)\<lparr> rinseClockStartedAtMs := xRinseClockStartedAtMs \<rparr>) = gest s"
  "gest ((s::CycleState)\<lparr> rinseTimerActive := xRinseTimerActive \<rparr>) = gest s"
  "gest ((s::CycleState)\<lparr> machineWakePassthroughActive := xMachineWakePassthroughActive \<rparr>) = gest s"
  "gest ((s::CycleState)\<lparr> machineWakeStartedAtMs := xMachineWakeStartedAtMs \<rparr>) = gest s"
  "gest ((s::CycleState)\<lparr> machineWakeGestureConsumedThisLoop := xMachineWakeGestureConsumedThisLoop \<rparr>) = gest s"
  "gest ((s::CycleState)\<lparr> backflushPermit := xBackflushPermit \<rparr>) = gest s"
  "gest ((s::CycleState)\<lparr> backflushRelayGeneration := xBackflushRelayGeneration \<rparr>) = gest s"
  "gest ((s::CycleState)\<lparr> backflushSequence := xBackflushSequence \<rparr>) = gest s"
  "gest ((s::CycleState)\<lparr> maintenanceLease := xMaintenanceLease \<rparr>) = gest s"
  "gest ((s::CycleState)\<lparr> plannedRestartHeld := xPlannedRestartHeld \<rparr>) = gest s"
  "gest ((s::CycleState)\<lparr> maintenanceCancellationPending := xMaintenanceCancellationPending \<rparr>) = gest s"
  by (simp_all add: gest_def)

lemma gest_tell [simp]: "gest (tell e s) = gest s"
  by (simp add: tell_def gest_def)

lemma gest_onShot [simp]: "gest (onShot f s) = gest s"
  by (simp add: onShot_def)

lemma gest_armed: "gest s1 = gest s \<Longrightarrow> noScaleShotGuardArmed s1 = noScaleShotGuardArmed s"
  by (simp add: gest_def)

lemma gest_if: "gest (if c then x else y) = (if c then gest x else gest y)"
  by simp

text \<open>In this mode consuming an armed guard changes nothing.\<close>

lemma consume_armed [simp]:
  "noScaleBbwRequiresScale (gvNoScaleBbwMode v) \<Longrightarrow> noScaleShotGuardArmed s \<Longrightarrow> consumeNoScaleShotGuard v s = s"
  by (simp add: consumeNoScaleShotGuard_def)

lemma gest_moves [simp]:
  "gest (transitionTo st s) = gest s" "gest (rinseClear s) = gest s" "gest (rinseBegin d t s) = gest s"
  "gest (endAlerts env r s) = gest s" "gest (appendActivationHistory env r e d s) = gest s"
  "gest (resetShotTrajectory env s) = gest s" "gest (refuseStart s) = gest s"
  "gest (maybeEmitManualNoScaleBeep v i s) = gest s" "gest (cupStartBlocked v w s) = gest s"
  "gest (serviceCupStartGuard v i s) = gest s" "gest (abortGuardHistory env s) = gest s"
  by (simp_all add: transitionTo_def rinseClear_def rinseBegin_def endAlerts_def appendActivationHistory_def Let_def
      resetShotTrajectory_def refuseStart_def maybeEmitManualNoScaleBeep_def cupStartBlocked_def serviceCupStartGuard_def
      abortGuardHistory_def)

lemma gest_reset [simp]: "gest (resetSessionForNewCycle env source s) = gest s"
  by (simp add: resetSessionForNewCycle_def Let_def)

lemma gest_enter [simp]: "gest (enterBrewOrManualFromStart env s) = gest s"
  by (simp add: enterBrewOrManualFromStart_def Let_def)

lemma gest_finalize [simp]: "gest (snd (finalizeCycle env r st w s)) = gest s"
  by (simp add: finalizeCycle_def Let_def gest_if)

lemma gest_user [simp]: "gest (endForUser env s) = gest s"
  by (simp add: endForUser_def gest_if)

lemma gest_start [simp]: "gest (startCycle env source s) = gest s"
  by (simp add: startCycle_def Let_def gest_if)

lemma gest_enterRinse [simp]: "gest (enterRinse env s) = gest s"
  by (simp add: enterRinse_def Let_def gest_if)

lemma gest_limits [simp]:
  "gest (handleGlobalLimitTrip env s) = gest s" "gest (handleOperationalLimitTrip env s) = gest s"
  "gest (serviceCompatibilityMirror env s) = gest s" "gest (serviceLeasePass env lease s) = gest s"
  by (simp_all add: handleGlobalLimitTrip_def handleOperationalLimitTrip_def serviceCompatibilityMirror_def
      serviceLeasePass_def Let_def gest_if)

lemma gest_lease [simp]:
  "gest (snd (beginMaintenanceLease env o1 r s)) = gest s" "gest (forwardMaintenanceLease s) = gest s"
  "gest (completeMaintenanceLease env s) = gest s"
  by (simp_all add: beginMaintenanceLease_def forwardMaintenanceLease_def completeMaintenanceLease_def Let_def
      split: option.split)

lemma gest_backflush [simp]:
  "gest (endBackflush env c s) = gest s" "gest (serviceBackflush env s) = gest s" "gest (admitBackflush env d p s) = gest s"
  by (simp_all add: endBackflush_def serviceBackflush_def admitBackflush_def Let_def case_prod_beta gest_if split: option.split)

lemma gest_wake [simp]: "gest (snd (serviceMachineWakeGesture env s)) = gest s"
  by (simp add: serviceMachineWakeGesture_def Let_def case_prod_beta gest_if if_distrib [of snd])

lemma gest_stop [simp]: "gest (webStop env c s) = gest s" "gest (stateOverrideOff env s) = gest s"
  by (simp_all add: webStop_def stateOverrideOff_def Let_def gest_if)

section \<open>The guards of the mode that requires a scale\<close>

lemma gest_startGuards:
  "noScaleBbwRequiresScale (ceMode env) \<Longrightarrow> gest (snd (startGuards env source s)) = gest s"
  by (simp add: startGuards_def blockNoScaleShotGuard_def Let_def gest_if)

lemma gest_begin: "noScaleBbwRequiresScale (ceMode env) \<Longrightarrow> gest (beginCycle env source s) = gest s"
  by (simp add: beginCycle_def Let_def gest_startGuards)

lemma gest_rinseGuards: "noScaleBbwRequiresScale (ceMode env) \<Longrightarrow> gest (snd (rinseGuards env source s)) = gest s"
  by (simp add: rinseGuards_def noScaleArmedRinseIsBlocked_def Let_def gest_if)

lemma gest_startRinse: "noScaleBbwRequiresScale (ceMode env) \<Longrightarrow> gest (snd (startRinseCycle env source s)) = gest s"
  by (simp add: startRinseCycle_def Let_def gest_if)

lemma gest_beginRinse: "noScaleBbwRequiresScale (ceMode env) \<Longrightarrow> gest (snd (beginRinseCycle env source s)) = gest s"
  by (simp add: beginRinseCycle_def Let_def gest_rinseGuards gest_startRinse)

lemma gest_ready: "noScaleBbwRequiresScale (ceMode env) \<Longrightarrow> gest (serviceReady env s) = gest s"
  by (simp add: serviceReady_def Let_def gest_begin gest_beginRinse case_prod_beta gest_if)

lemma gest_stopper: "noScaleBbwRequiresScale (ceMode env) \<Longrightarrow> gest (serviceStopper env s) = gest s"
  by (simp add: serviceStopper_def serviceBrewing_def serviceManual_def Let_def gest_ready case_prod_beta gest_if
      split: StopperState.split option.split)

lemma gest_task: "noScaleBbwRequiresScale (ceMode env) \<Longrightarrow> gest (stateMachineTask env s) = gest s"
  by (simp add: stateMachineTask_def Let_def gest_stopper split: option.split)

lemma gest_web:
  assumes "noScaleBbwRequiresScale (ceMode env)"
  shows "gest (remoteOn env w s) = gest s" "gest (webRinse env w s) = gest s"
  using assms by (simp_all add: remoteOn_def webRinse_def beginWebRinse_def Let_def gest_begin gest_beginRinse case_prod_beta gest_if)

lemma gest_step:
  "noScaleBbwRequiresScale (ceMode env) \<Longrightarrow> call \<noteq> Guards \<Longrightarrow> gest (cycleStep env call s) = gest s"
  by (cases call) (simp_all add: gest_task gest_web)

lemma gest_hold:
  assumes "noScaleBbwRequiresScale (gvNoScaleBbwMode v)" and "noScaleShotGuardArmed s"
  shows "gest (serviceNoScaleHold v i a s) = gest s"
  using assms by (simp add: serviceNoScaleHold_def armNoScaleShotGuard_def Let_def gest_if)

section \<open>The gesture in a run\<close>

definition timeAt :: "(CycleEnv \<times> CycleCall) list \<Rightarrow> nat \<Rightarrow> u32" where
  "timeAt calls n = ceNow (fst (calls ! n))"

text \<open>Call \<open>n\<close> is a pass of the guards that sees the activator pressed, or released for good.\<close>

definition pressedAt :: "(CycleEnv \<times> CycleCall) list \<Rightarrow> nat \<Rightarrow> bool" where
  "pressedAt calls n \<longleftrightarrow> snd (calls ! n) = Guards \<and> inPhysicalOn (ceIntention (fst (calls ! n)))"

definition releasedAt :: "(CycleEnv \<times> CycleCall) list \<Rightarrow> nat \<Rightarrow> bool" where
  "releasedAt calls n \<longleftrightarrow> snd (calls ! n) = Guards \<and> \<not> inPhysicalOn (ceIntention (fst (calls ! n))) \<and>
     inStablyOff (ceIntention (fst (calls ! n)))"

text \<open>
  Among the first \<open>n\<close> calls there are a press at time \<open>t\<close> and then \<open>k\<close> more edges,
  releases and presses in turn.
\<close>

fun edges :: "(CycleEnv \<times> CycleCall) list \<Rightarrow> u32 \<Rightarrow> nat \<Rightarrow> nat \<Rightarrow> bool" where
  "edges calls t 0 n \<longleftrightarrow> (\<exists>i<n. pressedAt calls i \<and> timeAt calls i = t)"
| "edges calls t (Suc k) n \<longleftrightarrow>
     (\<exists>j<n. (if even k then releasedAt calls j else pressedAt calls j) \<and> edges calls t k j)"

definition bypassGesture :: "(CycleEnv \<times> CycleCall) list \<Rightarrow> bool" where
  "bypassGesture calls \<longleftrightarrow> (\<exists>j < length calls. \<exists>t. releasedAt calls j \<and> edges calls t 4 j \<and>
     timeAt calls j - t \<le> NO_SCALE_REQUIRE_BYPASS_WINDOW_MS)"

lemma edges_mono: "edges calls t k n \<Longrightarrow> n \<le> m \<Longrightarrow> edges calls t k m"
  by (cases k) (auto intro: less_le_trans)

lemma edges_press: "edges calls t k n \<Longrightarrow> odd k \<Longrightarrow> pressedAt calls n \<Longrightarrow> edges calls t (Suc k) (Suc n)"
  by auto

lemma edges_release: "edges calls t k n \<Longrightarrow> even k \<Longrightarrow> releasedAt calls n \<Longrightarrow> edges calls t (Suc k) (Suc n)"
  by auto

text \<open>What the counters of the gesture stand for after \<open>n\<close> calls.\<close>

definition gestureCounted :: "(CycleEnv \<times> CycleCall) list \<Rightarrow> nat \<Rightarrow> bool \<times> bool \<times> u8 \<times> u32 \<Rightarrow> bool" where
  "gestureCounted calls n g \<longleftrightarrow> (case g of (armed, hold, c, t) \<Rightarrow> armed \<longrightarrow>
     c \<in> {0, 1, 2} \<and> (hold \<longrightarrow> edges calls t (2 * unat c) n) \<and> (\<not> hold \<and> c \<noteq> 0 \<longrightarrow> edges calls t (2 * unat c - 1) n))"

lemma gestureCounted_mono: "gestureCounted calls n g \<Longrightarrow> n \<le> m \<Longrightarrow> gestureCounted calls m g"
  by (auto simp: gestureCounted_def intro: edges_mono split: prod.splits)

lemma gestureCounted_idle: "gestureCounted calls n (armed, False, 0, t)"
  by (simp add: gestureCounted_def)

lemma press_counted:
  assumes "pressedAt calls n" and "gestureCounted calls n (gest s)" and "v = ceGuard (fst (calls ! n))"
  shows "gestureCounted calls (Suc n) (gest (bypassPressed v s))"
proof (cases "noScaleRequireBypassHoldSeen s")
  case True
  then show ?thesis using gestureCounted_mono [OF assms(2), of "Suc n"] by (simp add: bypassPressed_def)
next
  case False
  have t: "gvNow v = timeAt calls n" using assms(3) by (simp add: timeAt_def)
  show ?thesis
  proof (cases "noScaleRequireBypassCycles s = 0 \<or>
      gvNow v - noScaleRequireBypassStartedAtMs s > NO_SCALE_REQUIRE_BYPASS_WINDOW_MS")
    case True
    then have "gest (bypassPressed v s) = (noScaleShotGuardArmed s, True, 0, timeAt calls n)"
      using False t by (simp add: bypassPressed_def gest_def)
    moreover have "edges calls (timeAt calls n) 0 (Suc n)" using assms(1) by auto
    ultimately show ?thesis by (simp add: gestureCounted_def)
  next
    case go: False
    let ?c = "noScaleRequireBypassCycles s" and ?t = "noScaleRequireBypassStartedAtMs s"
    have g: "gest (bypassPressed v s) = (noScaleShotGuardArmed s, True, ?c, ?t)"
      using False go by (simp add: bypassPressed_def gest_def)
    have "edges calls ?t (2 * unat ?c) (Suc n)" "?c \<in> {0, 1, 2}" if "noScaleShotGuardArmed s"
    proof -
      have c: "?c = 1 \<or> ?c = 2" "edges calls ?t (2 * unat ?c - 1) n"
        using assms(2) False go that by (auto simp: gestureCounted_def gest_def)
      have u: "odd (2 * unat ?c - 1)" "Suc (2 * unat ?c - 1) = 2 * unat ?c" using c(1) by auto
      show "edges calls ?t (2 * unat ?c) (Suc n)" using edges_press [OF c(2) u(1) assms(1)] u(2) by simp
      show "?c \<in> {0, 1, 2}" using c(1) by auto
    qed
    then show ?thesis by (simp add: gestureCounted_def g)
  qed
qed

lemma release_counted:
  assumes "releasedAt calls n" and "n < length calls" and "gestureCounted calls n (gest s)" and "v = ceGuard (fst (calls ! n))"
    and "noScaleRequireBypassHoldSeen s" and "noScaleShotGuardArmed s" and "\<not> bypassGesture calls"
  shows "gestureCounted calls (Suc n) (gest (bypassReleased v s)) \<and> noScaleShotGuardArmed (bypassReleased v s)"
proof (cases "gvNow v - noScaleRequireBypassStartedAtMs s > NO_SCALE_REQUIRE_BYPASS_WINDOW_MS")
  case True
  then have "gest (bypassReleased v s) = (True, False, 0, 0)" using assms(6) by (simp add: bypassReleased_def gest_def)
  then show ?thesis by (simp add: gestureCounted_idle gest_def)
next
  case False
  let ?c = "noScaleRequireBypassCycles s" and ?t = "noScaleRequireBypassStartedAtMs s"
  have t: "gvNow v = timeAt calls n" using assms(4) by (simp add: timeAt_def)
  have c: "?c \<in> {0, 1, 2}" "edges calls ?t (2 * unat ?c) n"
    using assms(3,5,6) by (auto simp: gestureCounted_def gest_def)
  have "?c \<noteq> 2"
  proof
    assume "?c = 2"
    then have "edges calls ?t 4 n" using c(2) by simp
    then show False using assms(1,2,7) False t by (auto simp: bypassGesture_def not_less)
  qed
  then have c01: "?c = 0 \<or> ?c = 1" using c(1) by auto
  then have g: "gest (bypassReleased v s) = (True, False, ?c + 1, ?t)"
    using False assms(6) by (auto simp: bypassReleased_def gest_def NO_SCALE_REQUIRE_BYPASS_CYCLES_def Let_def
        word_le_nat_alt)
  have "2 * unat (?c + 1) - 1 = Suc (2 * unat ?c)" using c01 by auto
  then have "edges calls ?t (2 * unat (?c + 1) - 1) (Suc n)" using edges_release [OF c(2) _ assms(1)] by simp
  then show ?thesis using c01 g by (auto simp: gestureCounted_def gest_def)
qed

lemma guards_counted:
  assumes "calls ! n = (env, Guards)" and "n < length calls" and "noScaleBbwRequiresScale (ceMode env)"
    and "noScaleShotGuardArmed s" and "gestureCounted calls n (gest s)" and "\<not> bypassGesture calls"
  shows "gestureCounted calls (Suc n) (gest (cycleStep env Guards s)) \<and> noScaleShotGuardArmed (cycleStep env Guards s)"
proof -
  let ?v = "ceGuard env" and ?i = "loopGuardInputs env"
  define h where "h = serviceNoScaleHold ?v ?i (cyActive s) s"
  have gh: "gest h = gest s" using gest_hold [OF assms(3,4)] by (simp add: h_def)
  have ah: "noScaleShotGuardArmed h" using gest_armed [OF gh] assms(4) by simp
  have same: "gestureCounted calls (Suc n) (gest x) \<and> noScaleShotGuardArmed x" if "gest x = gest h" for x :: CycleState
    using gestureCounted_mono [OF assms(5), of "Suc n"] that gh gest_armed [of x h] ah by simp
  have v: "?v = ceGuard (fst (calls ! n))" using assms(1) by simp
  let ?g = "serviceNoScaleRequireBypassGesture ?v ?i (cyActive s) h"
  have "gestureCounted calls (Suc n) (gest ?g) \<and> noScaleShotGuardArmed ?g"
  proof (cases "bypassEligible ?v ?i (cyActive s) h \<and> noScaleRequireBypassReady h")
    case False
    then have "?g = resetNoScaleRequireBypassGesture h \<or> gest ?g = gest h"
      by (auto simp: serviceNoScaleRequireBypassGesture_def)
    moreover have "gest (resetNoScaleRequireBypassGesture h) = (True, False, 0, 0)"
      using ah by (simp add: resetNoScaleRequireBypassGesture_def gest_def)
    ultimately show ?thesis using same [of ?g] gestureCounted_idle ah gest_armed by (metis gest_def prod.inject)
  next
    case True
    consider (press) "giPhysicalOn ?i" | (idle) "\<not> giPhysicalOn ?i" "\<not> noScaleRequireBypassHoldSeen h \<or> \<not> giStablyOff ?i"
      | (release) "\<not> giPhysicalOn ?i" "noScaleRequireBypassHoldSeen h" "giStablyOff ?i" by blast
    then show ?thesis
    proof cases
      case press
      then have e: "?g = bypassPressed ?v h" using True by (simp add: serviceNoScaleRequireBypassGesture_def)
      have "pressedAt calls n" using press assms(1) by (simp add: pressedAt_def loopGuardInputs_def)
      then have "gestureCounted calls (Suc n) (gest (bypassPressed ?v h))" using press_counted [OF _ _ v] assms(5) gh by metis
      moreover have "noScaleShotGuardArmed (bypassPressed ?v h)" using ah by (simp add: bypassPressed_def Let_def)
      ultimately show ?thesis by (simp add: e)
    next
      case idle
      then have "?g = h" using True by (simp add: serviceNoScaleRequireBypassGesture_def)
      then show ?thesis using same by simp
    next
      case release
      then have e: "?g = bypassReleased ?v h" using True by (simp add: serviceNoScaleRequireBypassGesture_def)
      have "releasedAt calls n" using release assms(1) by (simp add: releasedAt_def loopGuardInputs_def)
      then show ?thesis
        unfolding e using release_counted [OF _ assms(2) _ v release(2) ah assms(6)] assms(5) gh by metis
    qed
  qed
  then show ?thesis by (simp add: serviceNoScaleShotGuard_def h_def [symmetric] gest_armed [of "serviceCupStartGuard _ _ _"])
qed

lemma runCycle_snoc: "runCycle (calls @ [(env, call)]) s = cycleStep env call (runCycle calls s)"
  by (induction calls arbitrary: s) auto

lemma run_counted:
  assumes "noScaleShotGuardArmed s0" and "gestureCounted calls 0 (gest s0)" and "\<forall>c \<in> set calls. noScaleBbwRequiresScale (ceMode (fst c))"
    and "\<not> bypassGesture calls" and "n \<le> length calls"
  shows "gestureCounted calls n (gest (runCycle (take n calls) s0)) \<and> noScaleShotGuardArmed (runCycle (take n calls) s0)"
  using assms(5)
proof (induction n)
  case (Suc n)
  let ?s = "runCycle (take n calls) s0"
  obtain env call where c: "calls ! n = (env, call)" by (cases "calls ! n")
  have n: "n < length calls" using Suc.prems by simp
  have r: "runCycle (take (Suc n) calls) s0 = cycleStep env call ?s"
    using n c by (simp add: take_Suc_conv_app_nth runCycle_snoc)
  have IH: "gestureCounted calls n (gest ?s)" "noScaleShotGuardArmed ?s" using Suc by simp_all
  have m: "noScaleBbwRequiresScale (ceMode env)" using assms(3) n c nth_mem [OF n] by force
  show ?case
  proof (cases "call = Guards")
    case True
    then show ?thesis using guards_counted [of calls n env ?s] c n m IH assms(4) r by simp
  next
    case False
    then show ?thesis
      using gest_step [OF m False, of ?s] gestureCounted_mono [OF IH(1), of "Suc n"] IH(2) r gest_armed [OF gest_step [OF m False, of ?s]]
      by simp
  qed
qed (use assms in simp)

text \<open>
  Property C16. In the mode that requires a scale the guard against shots without one only
  comes off by the gesture: if it is armed and no press is pending, then over any run of the
  control task in this mode that ends with the guard off there were three presses and
  releases of the activator, in turn, with the last release at most two seconds after the
  first press.
\<close>

theorem require_guard_needs_gesture:
  assumes "noScaleShotGuardArmed s0" and "\<not> noScaleRequireBypassHoldSeen s0" and "noScaleRequireBypassCycles s0 = 0"
    and "\<forall>c \<in> set calls. noScaleBbwRequiresScale (ceMode (fst c))"
    and "\<not> noScaleShotGuardArmed (runCycle calls s0)"
  shows "bypassGesture calls"
proof (rule ccontr)
  assume n: "\<not> bypassGesture calls"
  have "gestureCounted calls 0 (gest s0)" using assms(2,3) by (simp add: gestureCounted_def gest_def)
  then show False using run_counted [OF assms(1) _ assms(4) n, of "length calls"] assms(5) by simp
qed

text \<open>Three quick presses: the activator settles off, then goes on and off three times in 900 ms.\<close>

definition bypassCall :: "u32 \<Rightarrow> bool \<Rightarrow> CycleEnv \<times> CycleCall" where
  "bypassCall t on = (exampleCycleEnv\<lparr> ceGuard := exampleGuardEnv\<lparr> gvShot := exampleEnv\<lparr> feNow := t \<rparr> \<rparr>,
      ceIntention := restIntention\<lparr> inHoldActive := on, inPhysicalOn := on, inStablyOff := \<not> on \<rparr> \<rparr>, Guards)"

definition threePresses :: "(CycleEnv \<times> CycleCall) list" where
  "threePresses = [bypassCall 1000 False, bypassCall 1100 True, bypassCall 1250 False, bypassCall 1400 True,
     bypassCall 1550 False, bypassCall 1700 True, bypassCall 2000 False]"

lemma three_presses_lift:
  "\<not> noScaleShotGuardArmed (runCycle threePresses restingCycle)"
  "\<forall>c \<in> set threePresses. noScaleBbwRequiresScale (ceMode (fst c))"
  "noScaleShotGuardArmed restingCycle" "\<not> noScaleRequireBypassHoldSeen restingCycle" "noScaleRequireBypassCycles restingCycle = 0"
  by code_simp+

theorem require_guard_needs_gesture_witness: "bypassGesture threePresses"
  by (rule require_guard_needs_gesture [OF three_presses_lift(3-5,2,1)])

end
