(* ===== verification/Backflush_Facts.thy ===== *)
theory Backflush_Facts
  imports Backflush_Handoff
begin

text \<open>
  The hand-off of backflush observations refines an unbounded log: as long as the continuity
  counter stands, the batches the control task takes are, one after the other, exactly the
  changes of phase the integration observed, numbered without a gap. A confirmation the
  control task accepts is therefore the machine's only change since the admission.
\<close>

section \<open>The counters\<close>

lemma u32_bound: "unat (v :: u32) < 2 ^ 32"
  by (rule order_less_le_trans [OF unsigned_less]) simp

lemma advance_nat: "v \<noteq> 0 \<Longrightarrow> unat (advance v) = unat v mod (2 ^ 32 - 1) + 1"
proof -
  assume v: "v \<noteq> 0"
  have lt: "unat v < 2 ^ 32" using u32_bound [of v] by simp
  show ?thesis
  proof (cases "v + 1 = 0")
    case True
    then have "v = - 1" by (simp add: eq_neg_iff_add_eq_0)
    then have "unat v = 2 ^ 32 - 1" by (simp add: unsigned_minus_1_eq_mask mask_eq_exp_minus_1)
    then show ?thesis using True by (simp add: advance_def)
  next
    case False
    then have s: "unat (v + 1) = unat v + 1" by (simp add: unatSuc add.commute)
    then have "unat v + 1 < 2 ^ 32" using u32_bound [of "v + 1"] by simp
    then show ?thesis using False s by (simp add: advance_def)
  qed
qed

lemma advance_nonzero: "advance v \<noteq> 0"
  by (simp add: advance_def)

lemma advances_nat: "v \<noteq> 0 \<Longrightarrow> unat ((advance ^^ k) v) = (unat v - 1 + k) mod (2 ^ 32 - 1) + 1"
proof (induction k)
  case 0
  have "unat v < 2 ^ 32" "unat v \<noteq> 0" using u32_bound [of v] 0 by (simp_all add: unat_eq_0)
  then show ?case by simp
next
  case (Suc k)
  have "(advance ^^ k) v \<noteq> 0" by (cases k) (use Suc.prems advance_nonzero in simp_all)
  then show ?case using Suc by (simp add: advance_nat mod_Suc_eq)
qed

text \<open>A counter does not come back to a value within one round.\<close>

lemma advances_differ:
  assumes "0 < k" and "k < 2 ^ 32 - 1"
  shows "(advance ^^ k) v \<noteq> v"
proof (cases "v = 0")
  case True
  obtain j where "k = Suc j" using assms(1) by (cases k) auto
  then show ?thesis using True advance_nonzero by simp
next
  case False
  show ?thesis
  proof
    assume e: "(advance ^^ k) v = v"
    obtain n where n: "unat v = Suc n" using False by (cases "unat v") (simp_all add: unat_eq_0)
    have "Suc n = (n + k) mod (2 ^ 32 - 1) + 1" using advances_nat [OF False, of k] unfolding e n by simp
    moreover have "n < 2 ^ 32 - 1" using u32_bound [of v] n by simp
    ultimately have "n mod (2 ^ 32 - 1) = (n + k) mod (2 ^ 32 - 1)" by simp
    then have "(2 ^ 32 - 1) dvd k" using mod_eq_dvd_iff_nat [of n "n + k" "2 ^ 32 - 1"] by simp
    then show False using assms by (auto dest: dvd_imp_le)
  qed
qed

section \<open>A run of the hand-off\<close>

text \<open>What happens to the object between two admissions; a \<open>Take\<close> is the control task's.\<close>

datatype HandoffOp = Observe BackflushPhase u32 | Take | Fence | Finish u32 | Invalidate | Reset | Settle

fun handoffStep :: "HandoffOp \<Rightarrow> BackflushObservations \<Rightarrow> BackflushChange list \<times> BackflushObservations" where
  "handoffStep (Observe phase ingress) b = ([], backflushObserve phase ingress b)"
| "handoffStep Take b = (let taken = backflushTake b in (bsChanges (fst taken), snd taken))"
| "handoffStep Fence b = ([], backflushFence b)"
| "handoffStep (Finish attempt) b = ([], backflushFinish attempt b)"
| "handoffStep Invalidate b = ([], backflushInvalidate b)"
| "handoffStep Reset b = ([], backflushReset b)"
| "handoffStep Settle b = ([], backflushSettle b)"

fun runHandoff :: "HandoffOp list \<Rightarrow> BackflushObservations \<Rightarrow> BackflushChange list \<times> BackflushObservations" where
  "runHandoff [] b = ([], b)"
| "runHandoff (h # ops) b =
     (let first = handoffStep h b; rest = runHandoff ops (snd first) in (fst first @ fst rest, snd rest))"

text \<open>The log the hand-off stands for: every phase that differs from the one before it.\<close>

fun phaseLog :: "BackflushPhase \<Rightarrow> HandoffOp list \<Rightarrow> BackflushPhase list" where
  "phaseLog p [] = []"
| "phaseLog p (Observe phase _ # ops) = (if phase = p then phaseLog p ops else phase # phaseLog phase ops)"
| "phaseLog p (_ # ops) = phaseLog p ops"

definition continuity :: "BackflushObservations \<Rightarrow> u32" where
  "continuity b = bpContinuity (bsPermit (boState b))"

definition current :: "BackflushObservations \<Rightarrow> bool" where
  "current b \<longleftrightarrow> bsValid (boState b) \<and> bsPhase (boState b) \<noteq> BF_UNSUPPORTED"

text \<open>A step either keeps the continuity or moves its counter on, at most twice.\<close>

lemma invalidate_moves: "\<exists>k\<le>1. continuity (backflushInvalidate b) = (advance ^^ k) (continuity b)"
  by (cases "bsPhase (boState b) = BF_UNSUPPORTED \<or> \<not> (bsValid (boState b) \<or> bsChanges (boState b) \<noteq> [] \<or> bpExtendable (bsPermit (boState b)))")
    (auto simp: backflushInvalidate_def continuity_def Let_def intro: exI [of _ 0] exI [of _ 1])

lemma invalidate_current: "current b \<Longrightarrow> continuity (backflushInvalidate b) = advance (continuity b)"
  by (auto simp: backflushInvalidate_def continuity_def current_def Let_def)

lemma observe_moves:
  assumes "phase \<noteq> BF_UNSUPPORTED"
  shows "\<exists>k\<le>2. continuity (backflushObserve phase ingress b) = (advance ^^ k) (continuity b)"
proof -
  define b0 where "b0 = b\<lparr> boChanged := True \<rparr>"
  define b1 where "b1 = (if bsPhase (boState b0) = BF_UNSUPPORTED
      then b0\<lparr> boState := (boState b0)\<lparr> bsPhase := BF_UNKNOWN,
             bsPermit := (bsPermit (boState b0))\<lparr> bpContinuity := advance (bpContinuity (bsPermit (boState b0))) \<rparr> \<rparr> \<rparr>
      else b0)"
  obtain j where j: "j \<le> 1" "continuity b1 = (advance ^^ j) (continuity b)"
    by (cases "bsPhase (boState b0) = BF_UNSUPPORTED") (auto simp: b1_def b0_def continuity_def intro: that [of 0] that [of 1])
  have same: "continuity (b1\<lparr> boState := (boState b1)\<lparr> bsUnresolved := True \<rparr> \<rparr>) = continuity b1"
    "continuity (recordPhase phase ingress b1) = continuity b1"
    "continuity (x\<lparr> boState := (boState x)\<lparr> bsUnresolved := True \<rparr> \<rparr>) = continuity x" for x
    by (simp_all add: continuity_def recordPhase_def Let_def)
  have e: "continuity (backflushObserve phase ingress b) \<in> {continuity b1, continuity (backflushInvalidate b1),
      continuity (backflushInvalidate (b1\<lparr> boState := (boState b1)\<lparr> bsUnresolved := True \<rparr> \<rparr>))}"
    by (simp add: backflushObserve_def Let_def b0_def [symmetric] b1_def [symmetric] same)
  have two: "\<exists>k\<le>2. x = (advance ^^ k) (continuity b)" if "\<exists>k\<le>1. x = (advance ^^ k) (continuity b1)" for x
  proof -
    obtain k where "k \<le> 1" "x = (advance ^^ k) (continuity b1)" using \<open>\<exists>k\<le>1. x = (advance ^^ k) (continuity b1)\<close> by blast
    then show ?thesis using j by (auto simp: funpow_add [symmetric, THEN fun_cong, unfolded o_def] intro!: exI [of _ "k + j"])
  qed
  have "\<exists>k\<le>2. continuity b1 = (advance ^^ k) (continuity b)" by (rule two) (auto intro: exI [of _ 0])
  moreover have "\<exists>k\<le>2. continuity (backflushInvalidate b1) = (advance ^^ k) (continuity b)"
    by (rule two) (rule invalidate_moves)
  moreover have "\<exists>k\<le>2. continuity (backflushInvalidate (b1\<lparr> boState := (boState b1)\<lparr> bsUnresolved := True \<rparr> \<rparr>)) =
      (advance ^^ k) (continuity b)"
    by (rule two) (use invalidate_moves [of "b1\<lparr> boState := (boState b1)\<lparr> bsUnresolved := True \<rparr> \<rparr>"] same(1) in simp)
  ultimately show ?thesis using e by auto
qed

text \<open>The numbers of a log of \<open>n\<close> changes after \<open>q\<close>.\<close>

fun numbers :: "u32 \<Rightarrow> nat \<Rightarrow> u32 list" where
  "numbers q 0 = []"
| "numbers q (Suc n) = advance q # numbers (advance q) n"

lemma numbers_append: "numbers q (m + n) = numbers q m @ numbers ((advance ^^ m) q) n"
  by (induction m arbitrary: q) (simp_all add: funpow_swap1)

text \<open>
  What a step does to a current hand-off whose continuity it keeps: it records at most the
  change it observes, with the next number, or hands over what it holds.
\<close>

lemma observe_exact:
  assumes "current b" and "continuity (backflushObserve phase ingress b) = continuity b" and "phase \<noteq> BF_UNSUPPORTED"
  shows "current (backflushObserve phase ingress b)" and "bsPhase (boState (backflushObserve phase ingress b)) = phase"
    and "phase = bsPhase (boState b) \<Longrightarrow> boState (backflushObserve phase ingress b) = boState b"
    and "phase \<noteq> bsPhase (boState b) \<Longrightarrow> \<exists>c. bsChanges (boState (backflushObserve phase ingress b)) = bsChanges (boState b) @ [c] \<and>
      bcPhase c = phase \<and> bcSequence c = advance (bsSequence (boState b)) \<and>
      bsSequence (boState (backflushObserve phase ingress b)) = advance (bsSequence (boState b)) \<and>
      bpAttempt (bcPermit c) = ingress"
proof -
  define b0 where "b0 = b\<lparr> boChanged := True \<rparr>"
  have v: "bsValid (boState b0)" "bsPhase (boState b0) \<noteq> BF_UNSUPPORTED" "boState b0 = boState b"
    using assms(1) by (simp_all add: b0_def current_def)
  have adv: "advance x \<noteq> x" for x using advances_differ [of 1 x] by simp
  have cur: "current b0" "continuity b0 = continuity b" using assms(1) by (simp_all add: b0_def current_def continuity_def)
  have lose: "continuity (backflushInvalidate (b0\<lparr> boState := (boState b0)\<lparr> bsUnresolved := True \<rparr> \<rparr>)) \<noteq> continuity b"
    using invalidate_current [of "b0\<lparr> boState := (boState b0)\<lparr> bsUnresolved := True \<rparr> \<rparr>"] cur adv [of "continuity b"]
    by (simp add: current_def continuity_def)
  have lose': "continuity (x\<lparr> boState := (boState x)\<lparr> bsUnresolved := True \<rparr> \<rparr>) \<noteq> continuity b"
    if "x = backflushInvalidate b0" for x
    using invalidate_current [OF cur(1)] cur(2) adv [of "continuity b"] that by (simp add: continuity_def)
  have u: "phase \<noteq> BF_UNKNOWN" using assms(2) lose v by (auto simp: backflushObserve_def Let_def b0_def [symmetric])
  have e: "backflushObserve phase ingress b = (if phase = bsPhase (boState b) then b0 else recordPhase phase ingress b0)"
    using assms(2) u v lose' by (auto simp: backflushObserve_def Let_def b0_def [symmetric])
  show "current (backflushObserve phase ingress b)" "bsPhase (boState (backflushObserve phase ingress b)) = phase"
    using v assms(3) by (simp_all add: e current_def recordPhase_def Let_def)
  show "phase = bsPhase (boState b) \<Longrightarrow> boState (backflushObserve phase ingress b) = boState b"
    by (subst e) (simp add: v(3))
  show "phase \<noteq> bsPhase (boState b) \<Longrightarrow> \<exists>c. bsChanges (boState (backflushObserve phase ingress b)) = bsChanges (boState b) @ [c] \<and>
      bcPhase c = phase \<and> bcSequence c = advance (bsSequence (boState b)) \<and>
      bsSequence (boState (backflushObserve phase ingress b)) = advance (bsSequence (boState b)) \<and>
      bpAttempt (bcPermit c) = ingress"
    using v by (simp add: e recordPhase_def Let_def)
qed

text \<open>The integration reports a phase of a supported machine.\<close>

fun reports :: "HandoffOp \<Rightarrow> bool" where
  "reports (Observe phase _) = (phase \<noteq> BF_UNSUPPORTED)"
| "reports _ = True"

lemma step_moves: "reports h \<Longrightarrow> \<exists>k\<le>2. continuity (snd (handoffStep h b)) = (advance ^^ k) (continuity b)"
proof (cases h)
  case (Observe phase ingress)
  assume "reports h"
  then show ?thesis using observe_moves Observe by simp
next
  case Invalidate
  obtain k where "k \<le> 1" "continuity (backflushInvalidate b) = (advance ^^ k) (continuity b)" using invalidate_moves by blast
  then show ?thesis using Invalidate by (auto intro!: exI [of _ k])
next
  case Reset
  let ?b = "b\<lparr> boChanged := True \<rparr>"
  obtain k where k: "k \<le> 1" "continuity (backflushInvalidate ?b) = (advance ^^ k) (continuity ?b)" using invalidate_moves by blast
  have "continuity (backflushReset b) = continuity (backflushInvalidate ?b)" "continuity ?b = continuity b"
    by (simp_all add: backflushReset_def Let_def continuity_def)
  then show ?thesis using Reset k by (auto intro!: exI [of _ k])
qed (auto intro!: exI [of _ 0] simp: continuity_def backflushTake_def backflushFence_def backflushFinish_def backflushSettle_def Let_def)

lemma run_moves: "\<forall>h \<in> set ops. reports h \<Longrightarrow>
    \<exists>k\<le>2 * length ops. continuity (snd (runHandoff ops b)) = (advance ^^ k) (continuity b)"
proof (induction ops arbitrary: b)
  case (Cons h ops)
  obtain j where j: "j \<le> 2" "continuity (snd (handoffStep h b)) = (advance ^^ j) (continuity b)"
    using step_moves [of h b] Cons.prems by auto
  obtain k where k: "k \<le> 2 * length ops" "continuity (snd (runHandoff ops (snd (handoffStep h b)))) =
      (advance ^^ k) (continuity (snd (handoffStep h b)))" using Cons.IH Cons.prems by auto
  then show ?case using j by (auto simp: Let_def funpow_add intro!: exI [of _ "k + j"])
qed simp

text \<open>The changes handed over or still held, after a step of a current hand-off that keeps its continuity.\<close>

lemma step_exact:
  assumes "current b" and "continuity (snd (handoffStep h b)) = continuity b" and "reports h"
  defines "b1 \<equiv> snd (handoffStep h b)"
  shows "current b1" and "map bcPhase (fst (handoffStep h b) @ bsChanges (boState b1)) @ phaseLog (bsPhase (boState b1)) ops =
      map bcPhase (bsChanges (boState b)) @ phaseLog (bsPhase (boState b)) (h # ops)"
    and "map bcSequence (fst (handoffStep h b) @ bsChanges (boState b1)) @
        numbers (bsSequence (boState b1)) (length (phaseLog (bsPhase (boState b1)) ops)) =
      map bcSequence (bsChanges (boState b)) @ numbers (bsSequence (boState b)) (length (phaseLog (bsPhase (boState b)) (h # ops)))"
proof -
  have adv: "advance x \<noteq> x" for x using advances_differ [of 1 x] by simp
  have all: "current b1 \<and> map bcPhase (fst (handoffStep h b) @ bsChanges (boState b1)) @ phaseLog (bsPhase (boState b1)) ops =
      map bcPhase (bsChanges (boState b)) @ phaseLog (bsPhase (boState b)) (h # ops) \<and>
    map bcSequence (fst (handoffStep h b) @ bsChanges (boState b1)) @
        numbers (bsSequence (boState b1)) (length (phaseLog (bsPhase (boState b1)) ops)) =
      map bcSequence (bsChanges (boState b)) @ numbers (bsSequence (boState b)) (length (phaseLog (bsPhase (boState b)) (h # ops)))"
  proof (cases h)
    case (Observe phase ingress)
    have c: "continuity (backflushObserve phase ingress b) = continuity b" "phase \<noteq> BF_UNSUPPORTED" using assms(2,3) Observe by simp_all
    note X = observe_exact [OF assms(1) c]
    show ?thesis using X Observe by (cases "phase = bsPhase (boState b)") (auto simp: b1_def)
  next
    case Invalidate
    then show ?thesis using assms(2) invalidate_current [OF assms(1)] adv [of "continuity b"] by simp
  next
    case Reset
    have "continuity (backflushReset b) = continuity (backflushInvalidate (b\<lparr> boChanged := True \<rparr>))"
      by (simp add: backflushReset_def Let_def continuity_def)
    moreover have "continuity (backflushInvalidate (b\<lparr> boChanged := True \<rparr>)) = advance (continuity b)"
      using assms(1) invalidate_current [of "b\<lparr> boChanged := True \<rparr>"] by (simp add: current_def continuity_def)
    ultimately show ?thesis using assms(2) Reset adv [of "continuity b"] by simp
  qed (use assms(1) in \<open>simp_all add: b1_def current_def backflushTake_def backflushFence_def backflushFinish_def
      backflushSettle_def Let_def\<close>)
  then show "current b1" "map bcPhase (fst (handoffStep h b) @ bsChanges (boState b1)) @ phaseLog (bsPhase (boState b1)) ops =
      map bcPhase (bsChanges (boState b)) @ phaseLog (bsPhase (boState b)) (h # ops)"
    "map bcSequence (fst (handoffStep h b) @ bsChanges (boState b1)) @
        numbers (bsSequence (boState b1)) (length (phaseLog (bsPhase (boState b1)) ops)) =
      map bcSequence (bsChanges (boState b)) @ numbers (bsSequence (boState b)) (length (phaseLog (bsPhase (boState b)) (h # ops)))"
    by blast+
qed

text \<open>A run that ends with the continuity it began with kept it all along: no round of the counter fits in.\<close>

lemma run_steady:
  assumes "\<forall>x \<in> set (h # ops). reports x" and "continuity (snd (runHandoff (h # ops) b)) = continuity b"
    and "2 * length (h # ops) < 2 ^ 32 - 1"
  shows "continuity (snd (handoffStep h b)) = continuity b"
    and "continuity (snd (runHandoff ops (snd (handoffStep h b)))) = continuity (snd (handoffStep h b))"
proof -
  let ?b = "snd (handoffStep h b)"
  obtain j where j: "j \<le> 2" "continuity ?b = (advance ^^ j) (continuity b)" using step_moves [of h b] assms(1) by auto
  obtain k where k: "k \<le> 2 * length ops" "continuity (snd (runHandoff ops ?b)) = (advance ^^ k) (continuity ?b)"
    using run_moves [of ops ?b] assms(1) by auto
  have "(advance ^^ (k + j)) (continuity b) = continuity b"
    using j(2) k(2) assms(2) by (simp add: Let_def funpow_add)
  then have "k + j = 0" using advances_differ [of "k + j" "continuity b"] j(1) k(1) assms(3) by fastforce
  then show "continuity ?b = continuity b" "continuity (snd (runHandoff ops ?b)) = continuity ?b" using j k by simp_all
qed

lemma run_exact:
  assumes "\<forall>h \<in> set ops. reports h" and "current b" and "continuity (snd (runHandoff ops b)) = continuity b"
    and "2 * length ops < 2 ^ 32 - 1"
  shows "map bcPhase (fst (runHandoff ops b) @ bsChanges (boState (snd (runHandoff ops b)))) =
      map bcPhase (bsChanges (boState b)) @ phaseLog (bsPhase (boState b)) ops \<and>
    map bcSequence (fst (runHandoff ops b) @ bsChanges (boState (snd (runHandoff ops b)))) =
      map bcSequence (bsChanges (boState b)) @ numbers (bsSequence (boState b)) (length (phaseLog (bsPhase (boState b)) ops))"
  using assms
proof (induction ops arbitrary: b)
  case (Cons h ops)
  let ?b = "snd (handoffStep h b)"
  note c = run_steady [OF Cons.prems(1,3,4)]
  have h: "reports h" using Cons.prems(1) by simp
  note E = step_exact [OF Cons.prems(2) c(1) h]
  have "map bcPhase (fst (runHandoff ops ?b) @ bsChanges (boState (snd (runHandoff ops ?b)))) =
      map bcPhase (bsChanges (boState ?b)) @ phaseLog (bsPhase (boState ?b)) ops \<and>
    map bcSequence (fst (runHandoff ops ?b) @ bsChanges (boState (snd (runHandoff ops ?b)))) =
      map bcSequence (bsChanges (boState ?b)) @ numbers (bsSequence (boState ?b)) (length (phaseLog (bsPhase (boState ?b)) ops))"
    by (rule Cons.IH) (use Cons.prems E(1) c(2) in auto)
  then show ?case using E(2,3) [of ops] by (simp add: Let_def)
qed simp

text \<open>An unknown phase breaks the continuity, so the log of a kept one has none.\<close>

lemma unknown_moves: "current b \<Longrightarrow> continuity (backflushObserve BF_UNKNOWN ingress b) = advance (continuity b)"
  using invalidate_current [of "b\<lparr> boChanged := True, boState := (boState b)\<lparr> bsUnresolved := True \<rparr> \<rparr>"]
  by (simp add: backflushObserve_def Let_def current_def continuity_def)

lemma log_known:
  assumes "\<forall>h \<in> set ops. reports h" and "current b" and "continuity (snd (runHandoff ops b)) = continuity b"
    and "2 * length ops < 2 ^ 32 - 1"
  shows "BF_UNKNOWN \<notin> set (phaseLog p ops)"
  using assms
proof (induction ops arbitrary: b p)
  case (Cons h ops)
  note c = run_steady [OF Cons.prems(1,3,4)]
  have h: "reports h" using Cons.prems(1) by simp
  have "BF_UNKNOWN \<notin> set (phaseLog q ops)" for q
    by (rule Cons.IH [of "snd (handoffStep h b)"]) (use Cons.prems step_exact(1) [OF Cons.prems(2) c(1) h] c(2) in auto)
  moreover have "h \<noteq> Observe BF_UNKNOWN ingress" for ingress
    using c(1) unknown_moves [OF Cons.prems(2)] advances_differ [of 1 "continuity b"] by auto
  ultimately show ?case by (cases h) auto
qed simp

lemma log_fresh: "\<forall>h \<in> set ops. reports h \<Longrightarrow> BF_UNSUPPORTED \<notin> set (phaseLog p ops)"
  by (induction p ops rule: phaseLog.induct) auto

lemma log_alternates: "phaseLog p ops = q # rest \<Longrightarrow> q \<noteq> p"
  by (induction p ops rule: phaseLog.induct) (auto split: if_splits)

lemma log_alternates2: "phaseLog p ops = q # r # rest \<Longrightarrow> r \<noteq> q"
  by (induction p ops rule: phaseLog.induct) (auto split: if_splits dest: log_alternates)

text \<open>The reader confirms on a single activation, whatever follows it ends the attempt.\<close>

lemma confirmed_batch:
  assumes "reduceChanges permit late taken q False = (None, sq, True)"
    and "map bcPhase taken @ held = phaseLog BF_AWAITING ops"
    and "BF_UNKNOWN \<notin> set (phaseLog BF_AWAITING ops)" and "BF_UNSUPPORTED \<notin> set (phaseLog BF_AWAITING ops)"
  shows "map bcPhase taken = [BF_ACTIVE]"
proof (cases taken)
  case Nil
  then show ?thesis using assms(1) by simp
next
  case (Cons c rest)
  then have log: "phaseLog BF_AWAITING ops = bcPhase c # map bcPhase rest @ held" using assms(2) by simp
  then have "bcPhase c \<noteq> BF_AWAITING" by (rule log_alternates)
  moreover have "bcPhase c \<noteq> BF_INACTIVE" using assms(1) Cons by (auto split: if_splits)
  ultimately have act: "bcPhase c = BF_ACTIVE" using assms(3,4) log by (cases "bcPhase c") auto
  show ?thesis
  proof (cases rest)
    case Nil
    then show ?thesis using Cons act by simp
  next
    case (Cons d rest')
    then have "bcPhase d \<noteq> BF_ACTIVE" using log act log_alternates2 [of BF_AWAITING ops] by simp
    then show ?thesis using assms(1) \<open>taken = c # rest\<close> Cons act by (auto split: if_splits)
  qed
qed

text \<open>
  Property C20. The batches are the machine's history. After an admission, as long as the
  continuity counter reads as it did then (and fewer than two billion calls went by), the
  changes handed over and still held are exactly the changes of phase the integration
  observed since the admission, in order and numbered from the admission's sequence without
  a gap; and a batch the control task confirms holds one change, an activation observed
  under the permit's own attempt.
\<close>

theorem backflush_batches_are_the_log:
  assumes "backflushStart b = (permit, b1)" and "bpAttempt permit \<noteq> 0"
    and "\<forall>h \<in> set ops. reports h" and "2 * length ops < 2 ^ 32 - 1"
    and "runHandoff ops b1 = (taken, b2)"
    and "bpContinuity (bsPermit (boState b2)) = bpContinuity permit"
  shows "map bcPhase (taken @ bsChanges (boState b2)) = phaseLog BF_AWAITING ops \<and>
    map bcSequence (taken @ bsChanges (boState b2)) = numbers (bpSequence permit) (length (phaseLog BF_AWAITING ops)) \<and>
    (reduceChanges permit late taken (bpSequence permit) False = (None, sq, True) \<longrightarrow>
      map bcPhase taken = [BF_ACTIVE] \<and> bpAttempt (bcPermit (hd taken)) = bpAttempt permit)"
proof (intro conjI impI)
  have b1: "current b1" "bsPhase (boState b1) = BF_AWAITING" "bsChanges (boState b1) = []"
    "bsSequence (boState b1) = bpSequence permit" "continuity b1 = bpContinuity permit"
    using assms(1,2) by (auto simp: backflushStart_def backflushFence_def current_def continuity_def permit0_def Let_def split: if_splits)
  have c: "continuity (snd (runHandoff ops b1)) = continuity b1" using assms(5,6) b1(5) by (simp add: continuity_def)
  note R = run_exact [OF assms(3) b1(1) c assms(4)]
  have log: "map bcPhase (taken @ bsChanges (boState b2)) = phaseLog BF_AWAITING ops"
    using R assms(5) b1 by simp
  then show "map bcPhase (taken @ bsChanges (boState b2)) = phaseLog BF_AWAITING ops" .
  show "map bcSequence (taken @ bsChanges (boState b2)) = numbers (bpSequence permit) (length (phaseLog BF_AWAITING ops))"
    using R assms(5) b1 by simp
  assume r: "reduceChanges permit late taken (bpSequence permit) False = (None, sq, True)"
  have one: "map bcPhase taken = [BF_ACTIVE]"
    by (rule confirmed_batch [OF r, of "map bcPhase (bsChanges (boState b2))" ops])
      (use log log_known [OF assms(3) b1(1) c assms(4)] log_fresh [OF assms(3)] in simp_all)
  then obtain d where "taken = [d]" "bcPhase d = BF_ACTIVE" by (cases taken) auto
  then show "map bcPhase taken = [BF_ACTIVE]" "bpAttempt (bcPermit (hd taken)) = bpAttempt permit"
    using r by (auto split: if_splits)
qed

text \<open>A witness: a machine that goes from inactive to awaiting, is admitted, and then confirms the mode.\<close>

definition exampleHandoff :: "BackflushObservations" where
  "exampleHandoff = backflushObserve BF_AWAITING 0 (backflushObserve BF_INACTIVE 0 observations0)"

theorem backflush_batches_are_the_log_witness:
  "let start = backflushStart exampleHandoff; permit = fst start;
     ran = runHandoff [Observe BF_AWAITING 1, Observe BF_ACTIVE 1, Settle, Take] (snd start) in
   map bcPhase (fst ran @ bsChanges (boState (snd ran))) = phaseLog BF_AWAITING [Observe BF_AWAITING 1, Observe BF_ACTIVE 1, Settle, Take] \<and>
   reduceChanges permit False (fst ran) (bpSequence permit) False = (None, 3, True) \<and> map bcPhase (fst ran) = [BF_ACTIVE]"
proof -
  let ?ops = "[Observe BF_AWAITING 1, Observe BF_ACTIVE 1, Settle, Take]"
  let ?start = "backflushStart exampleHandoff"
  let ?ran = "runHandoff ?ops (snd ?start)"
  have a: "bpAttempt (fst ?start) \<noteq> 0" by code_simp
  have r: "\<forall>h \<in> set ?ops. reports h" by simp
  have n: "2 * length ?ops < 2 ^ 32 - 1" by simp
  have c: "bpContinuity (bsPermit (boState (snd ?ran))) = bpContinuity (fst ?start)" by code_simp
  have q: "reduceChanges (fst ?start) False (fst ?ran) (bpSequence (fst ?start)) False = (None, 3, True)" by code_simp
  note T = backflush_batches_are_the_log [OF prod.collapse [symmetric] a r n prod.collapse [symmetric] c]
  show ?thesis unfolding Let_def using T [of False 3] q by blast
qed

end
