(* ===== verification/Shot_Curve.thy ===== *)
theory Shot_Curve
  imports Shot_Session
begin

text \<open>
  The curve of a shot (\<open>src/OpenBrewByWeightShotCurveRecord.h\<close>,
  \<open>src/OpenBrewByWeightShotCurveTypes.h\<close>): the samples as one delta stream, one byte of time and
  one of weight per step, or a marker with the absolute value; a bit per sample for a break in
  the line and one for samples held by the touch classifier; five annotated events. The sampler
  fills a record while the shot runs.

  The three arrays of a record are functions from the index: the code never clears them, and
  what lies beyond the used part is stale. Weights come in as floats; \<open>None\<close> is one that is
  not finite.
\<close>

section \<open>The record\<close>

definition SHOT_CURVE_MAX_TIME_MS :: nat where "SHOT_CURVE_MAX_TIME_MS = 60000"
definition SHOT_CURVE_MAX_POINTS :: nat where "SHOT_CURVE_MAX_POINTS = SHOT_CURVE_MAX_TIME_MS div 50 + 1"
definition SHOT_CURVE_BREAK_BYTES :: nat where "SHOT_CURVE_BREAK_BYTES = (SHOT_CURVE_MAX_POINTS + 7) div 8"
definition SHOT_CURVE_STREAM_BYTES :: nat where
  "SHOT_CURVE_STREAM_BYTES = 4 * SHOT_CURVE_MAX_POINTS + 2 * (SHOT_CURVE_MAX_TIME_MS div 255)"

definition SHOT_LOG_WEIGHT_MISSING :: u16 where "SHOT_LOG_WEIGHT_MISSING = 0x8000"
definition SHOT_LOG_METRIC_MISSING :: u16 where "SHOT_LOG_METRIC_MISSING = 0xFFFF"

definition shotLogWeightIsMissing :: "u16 \<Rightarrow> bool" where
  "shotLogWeightIsMissing cg \<longleftrightarrow> cg = SHOT_LOG_WEIGHT_MISSING"

definition shotLogWeightToCentigrams :: "ShotEnv \<Rightarrow> grams option \<Rightarrow> u16" where
  "shotLogWeightToCentigrams env weight =
     (case weight of None \<Rightarrow> SHOT_LOG_WEIGHT_MISSING
      | Some w \<Rightarrow>
          let cg = weightToCentigrams env w in
          if cg = INT32_MAX \<or> cg \<le> - 32768 \<or> cg > 32767 then SHOT_LOG_WEIGHT_MISSING else word_of_int cg)"

record ShotCurveEvent =
  evAtMs :: u16
  evWeightCg :: u16

record ShotCurveRecord =
  cvShotId :: u32
  cvCount :: u16
  cvTruncated :: bool
  cvAtmClearedMs :: u16
  cvFirstDrop :: ShotCurveEvent
  cvExtended :: ShotCurveEvent
  cvAtm :: ShotCurveEvent
  cvEnded :: ShotCurveEvent
  cvBytes :: u16
  cvLastAtMs :: u16
  cvLastWeightCg :: u16
  cvStream :: "nat \<Rightarrow> u8"
  cvBreakBefore :: "nat \<Rightarrow> u8"
  cvHeld :: "nat \<Rightarrow> u8"

definition missingShotCurveEvent :: ShotCurveEvent where
  "missingShotCurveEvent = \<lparr> evAtMs = SHOT_LOG_METRIC_MISSING, evWeightCg = SHOT_LOG_WEIGHT_MISSING \<rparr>"

definition shotCurveEventPresent :: "ShotCurveEvent \<Rightarrow> bool" where
  "shotCurveEventPresent e \<longleftrightarrow> evAtMs e \<noteq> SHOT_LOG_METRIC_MISSING \<and> \<not> shotLogWeightIsMissing (evWeightCg e)"

text \<open>Only the header is cleared.\<close>

definition resetShotCurveRecord :: "'a ShotCurveRecord_scheme \<Rightarrow> 'a ShotCurveRecord_scheme" where
  "resetShotCurveRecord c = c\<lparr> cvShotId := 0, cvCount := 0, cvTruncated := False, cvAtmClearedMs := SHOT_LOG_METRIC_MISSING,
     cvFirstDrop := missingShotCurveEvent, cvExtended := missingShotCurveEvent, cvAtm := missingShotCurveEvent,
     cvEnded := missingShotCurveEvent, cvBytes := 0, cvLastAtMs := 0, cvLastWeightCg := 0 \<rparr>"

definition copyArray :: "nat \<Rightarrow> (nat \<Rightarrow> u8) \<Rightarrow> (nat \<Rightarrow> u8) \<Rightarrow> nat \<Rightarrow> u8" where
  "copyArray n source target i = (if i < n then source i else target i)"

definition usedBits :: "nat \<Rightarrow> nat" where
  "usedBits cnt = (if cnt < SHOT_CURVE_MAX_POINTS then (cnt + 7) div 8 else SHOT_CURVE_BREAK_BYTES)"

definition copyShotCurve :: "'a ShotCurveRecord_scheme \<Rightarrow> 'b ShotCurveRecord_scheme \<Rightarrow> 'b ShotCurveRecord_scheme" where
  "copyShotCurve source out = out\<lparr> cvShotId := cvShotId source, cvCount := cvCount source, cvTruncated := cvTruncated source,
     cvAtmClearedMs := cvAtmClearedMs source, cvFirstDrop := cvFirstDrop source, cvExtended := cvExtended source,
     cvAtm := cvAtm source, cvEnded := cvEnded source, cvBytes := cvBytes source, cvLastAtMs := cvLastAtMs source,
     cvLastWeightCg := cvLastWeightCg source,
     cvStream := copyArray (min (unat (cvBytes source)) SHOT_CURVE_STREAM_BYTES) (cvStream source) (cvStream out),
     cvBreakBefore := copyArray (usedBits (unat (cvCount source))) (cvBreakBefore source) (cvBreakBefore out),
     cvHeld := copyArray (usedBits (unat (cvCount source))) (cvHeld source) (cvHeld out) \<rparr>"

section \<open>Reading\<close>

record ShotCurveReader =
  rdData :: "nat \<Rightarrow> u8"
  rdSize :: nat
  rdOffset :: nat
  rdAtMs :: u16
  rdWeightCg :: u16

definition word16At :: "(nat \<Rightarrow> u8) \<Rightarrow> nat \<Rightarrow> u16" where
  "word16At f i = ucast (f i) OR push_bit 8 (ucast (f (i + 1)))"

text \<open>The two halves of \<open>ShotCurveReader::next\<close>.\<close>

definition readTime :: "ShotCurveReader \<Rightarrow> bool \<times> ShotCurveReader" where
  "readTime r =
     (if rdOffset r \<ge> rdSize r then (False, r)
      else
        let byte = rdData r (rdOffset r); r1 = r\<lparr> rdOffset := rdOffset r + 1 \<rparr> in
        if byte = 0xFF then
          if rdSize r1 - rdOffset r1 < 2 then (False, r1)
          else (True, r1\<lparr> rdAtMs := word16At (rdData r1) (rdOffset r1), rdOffset := rdOffset r1 + 2 \<rparr>)
        else (True, r1\<lparr> rdAtMs := rdAtMs r1 + ucast byte \<rparr>))"

definition readWeight :: "ShotCurveReader \<Rightarrow> bool \<times> ShotCurveReader" where
  "readWeight r =
     (if rdOffset r \<ge> rdSize r then (False, r)
      else
        let byte = rdData r (rdOffset r); r1 = r\<lparr> rdOffset := rdOffset r + 1 \<rparr> in
        if byte = 0x80 then
          if rdSize r1 - rdOffset r1 < 2 then (False, r1)
          else (True, r1\<lparr> rdWeightCg := word16At (rdData r1) (rdOffset r1), rdOffset := rdOffset r1 + 2 \<rparr>)
        else (True, r1\<lparr> rdWeightCg := rdWeightCg r1 + scast byte \<rparr>))"

definition readerNext :: "ShotCurveReader \<Rightarrow> bool \<times> ShotCurveReader" where
  "readerNext r = (let t = readTime r in if fst t then readWeight (snd t) else t)"

fun seekFrom :: "nat \<Rightarrow> ShotCurveReader \<Rightarrow> bool \<times> ShotCurveReader" where
  "seekFrom 0 r = (True, r)"
| "seekFrom (Suc n) r = (let t = readerNext r in if fst t then seekFrom n (snd t) else t)"

definition curveReader :: "'a ShotCurveRecord_scheme \<Rightarrow> ShotCurveReader" where
  "curveReader c = \<lparr> rdData = cvStream c, rdSize = min (unat (cvBytes c)) SHOT_CURVE_STREAM_BYTES,
     rdOffset = 0, rdAtMs = 0, rdWeightCg = 0 \<rparr>"

definition shotCurveSeek :: "'a ShotCurveRecord_scheme \<Rightarrow> nat \<Rightarrow> bool \<times> ShotCurveReader" where
  "shotCurveSeek c index = seekFrom index (curveReader c)"

definition shotCurveBreakBefore :: "'a ShotCurveRecord_scheme \<Rightarrow> nat \<Rightarrow> bool" where
  "shotCurveBreakBefore c index \<longleftrightarrow> index < unat (cvCount c) \<and> bit (cvBreakBefore c (index div 8)) (index mod 8)"

definition shotCurveHeld :: "'a ShotCurveRecord_scheme \<Rightarrow> nat \<Rightarrow> bool" where
  "shotCurveHeld c index \<longleftrightarrow> index < unat (cvCount c) \<and> bit (cvHeld c (index div 8)) (index mod 8)"

text \<open>The loop of \<open>validShotCurveRecord\<close>: \<open>n\<close> points to go, the first of the record or a later one.\<close>

fun validFrom :: "nat \<Rightarrow> bool \<Rightarrow> ShotCurveReader \<Rightarrow> ShotCurveReader option" where
  "validFrom 0 first r = Some r"
| "validFrom (Suc n) first r =
     (let t = readerNext r; x = snd t in
      if \<not> fst t \<or> unat (rdAtMs x) > SHOT_CURVE_MAX_TIME_MS \<or> (\<not> first \<and> rdAtMs x < rdAtMs r) \<or>
         shotLogWeightIsMissing (rdWeightCg x)
      then None else validFrom n False x)"

definition validShotCurveRecord :: "'a ShotCurveRecord_scheme \<Rightarrow> bool" where
  "validShotCurveRecord c \<longleftrightarrow>
     cvShotId c \<noteq> 0 \<and> unat (cvCount c) \<le> SHOT_CURVE_MAX_POINTS \<and> unat (cvBytes c) \<le> SHOT_CURVE_STREAM_BYTES \<and>
     (case validFrom (unat (cvCount c)) True (curveReader c) of None \<Rightarrow> False
      | Some r \<Rightarrow> rdOffset r = unat (cvBytes c) \<and>
          (cvCount c = 0 \<or> rdAtMs r = cvLastAtMs c \<and> rdWeightCg r = cvLastWeightCg c))"

section \<open>Writing\<close>

definition setShotCurveBit :: "(nat \<Rightarrow> u8) \<Rightarrow> nat \<Rightarrow> bool \<Rightarrow> nat \<Rightarrow> u8" where
  "setShotCurveBit bits index value =
     (let mask = push_bit (index mod 8) 1 in
      bits(index div 8 := if value then bits (index div 8) OR mask else bits (index div 8) AND NOT mask))"

definition writeBytes :: "nat \<Rightarrow> bytes \<Rightarrow> (nat \<Rightarrow> u8) \<Rightarrow> nat \<Rightarrow> u8" where
  "writeBytes at0 bs f i = (if at0 \<le> i \<and> i < at0 + length bs then bs ! (i - at0) else f i)"

text \<open>The two halves of a point.\<close>

definition timeBytes :: "u32 \<Rightarrow> u32 \<Rightarrow> bytes" where
  "timeBytes dt elapsed = (if dt \<le> 254 then [ucast dt] else [0xFF, ucast elapsed, ucast (drop_bit 8 elapsed)])"

definition weightBytes :: "int \<Rightarrow> u16 \<Rightarrow> bytes" where
  "weightBytes dw cg = (if -127 \<le> dw \<and> dw \<le> 127 then [word_of_int dw] else [0x80, ucast cg, ucast (drop_bit 8 cg)])"

definition appendShotCurvePoint ::
  "u16 \<Rightarrow> u32 \<Rightarrow> bool \<Rightarrow> bool \<Rightarrow> 'a ShotCurveRecord_scheme \<Rightarrow> bool \<times> 'a ShotCurveRecord_scheme" where
  "appendShotCurvePoint cg elapsed split held c =
     (if cvTruncated c then (False, c)
      else if shotLogWeightIsMissing cg \<or> (cvCount c \<noteq> 0 \<and> elapsed < ucast (cvLastAtMs c)) then (False, c)
      else
        let dt = elapsed - (if cvCount c \<noteq> 0 then ucast (cvLastAtMs c) else 0);
            dw = sint cg - (if cvCount c \<noteq> 0 then sint (cvLastWeightCg c) else 0);
            bs = timeBytes dt elapsed @ weightBytes dw cg
        in if unat elapsed > SHOT_CURVE_MAX_TIME_MS \<or> unat (cvCount c) = SHOT_CURVE_MAX_POINTS \<or>
              unat (cvBytes c) + length bs > SHOT_CURVE_STREAM_BYTES
           then (False, c\<lparr> cvTruncated := True \<rparr>)
           else (True, c\<lparr> cvStream := writeBytes (unat (cvBytes c)) bs (cvStream c),
                          cvBytes := word_of_nat (unat (cvBytes c) + length bs),
                          cvBreakBefore := setShotCurveBit (cvBreakBefore c) (unat (cvCount c)) (split \<and> cvCount c \<noteq> 0),
                          cvHeld := setShotCurveBit (cvHeld c) (unat (cvCount c)) held,
                          cvLastAtMs := ucast elapsed, cvLastWeightCg := cg, cvCount := cvCount c + 1 \<rparr>))"

section \<open>The sampler\<close>

record ShotCurveSampler = ShotCurveRecord +
  svStartMs :: u32
  svPendingBreak :: bool
  svActive :: bool

definition samplerReset :: "u32 \<Rightarrow> ShotCurveSampler \<Rightarrow> ShotCurveSampler" where
  "samplerReset startedAtMs s = (resetShotCurveRecord s)\<lparr> svStartMs := startedAtMs, svPendingBreak := False, svActive := True \<rparr>"

definition elapsedMsFrom :: "u32 \<Rightarrow> ShotCurveSampler \<Rightarrow> u16 option" where
  "elapsedMsFrom atMs s =
     (if \<not> svActive s then None
      else if sint (atMs - svStartMs s) < 0 then None
      else if atMs - svStartMs s \<ge> 0xFFFF then None else Some (ucast (atMs - svStartMs s)))"

definition latchEvent :: "ShotEnv \<Rightarrow> ShotCurveSampler \<Rightarrow> u32 \<Rightarrow> grams option \<Rightarrow> ShotCurveEvent \<Rightarrow> ShotCurveEvent" where
  "latchEvent env s atMs weight e =
     (if shotCurveEventPresent e \<or> \<not> svActive s then e
      else case elapsedMsFrom atMs s of None \<Rightarrow> e
      | Some ms \<Rightarrow>
          let cg = shotLogWeightToCentigrams env weight in
          if shotLogWeightIsMissing cg then e else \<lparr> evAtMs = ms, evWeightCg = cg \<rparr>)"

definition latchFirstDrop :: "ShotEnv \<Rightarrow> u32 \<Rightarrow> grams option \<Rightarrow> ShotCurveSampler \<Rightarrow> ShotCurveSampler" where
  "latchFirstDrop env atMs weight s = s\<lparr> cvFirstDrop := latchEvent env s atMs weight (cvFirstDrop s) \<rparr>"

definition latchExtended :: "ShotEnv \<Rightarrow> u32 \<Rightarrow> grams option \<Rightarrow> ShotCurveSampler \<Rightarrow> ShotCurveSampler" where
  "latchExtended env atMs weight s = s\<lparr> cvExtended := latchEvent env s atMs weight (cvExtended s) \<rparr>"

definition latchAtm :: "ShotEnv \<Rightarrow> u32 \<Rightarrow> grams option \<Rightarrow> ShotCurveSampler \<Rightarrow> ShotCurveSampler" where
  "latchAtm env atMs weight s =
     (if shotCurveEventPresent (cvAtm s) \<and> cvAtmClearedMs s = SHOT_LOG_METRIC_MISSING then s
      else
        let s1 = s\<lparr> cvAtm := missingShotCurveEvent, cvAtmClearedMs := SHOT_LOG_METRIC_MISSING \<rparr>
        in s1\<lparr> cvAtm := latchEvent env s1 atMs weight (cvAtm s1) \<rparr>)"

definition latchAtmCleared :: "u32 \<Rightarrow> ShotCurveSampler \<Rightarrow> ShotCurveSampler" where
  "latchAtmCleared atMs s =
     (if \<not> shotCurveEventPresent (cvAtm s) \<or> cvAtmClearedMs s \<noteq> SHOT_LOG_METRIC_MISSING then s
      else case elapsedMsFrom atMs s of None \<Rightarrow> s | Some ms \<Rightarrow> s\<lparr> cvAtmClearedMs := ms \<rparr>)"

definition markBreak :: "ShotCurveSampler \<Rightarrow> ShotCurveSampler" where
  "markBreak s = (if svActive s then s\<lparr> svPendingBreak := True \<rparr> else s)"

definition samplerAccept :: "ShotEnv \<Rightarrow> grams option \<Rightarrow> u32 \<Rightarrow> bool \<Rightarrow> ShotCurveSampler \<Rightarrow> ShotCurveSampler" where
  "samplerAccept env weight receivedAtMs isHeld s =
     (if \<not> svActive s \<or> cvTruncated s then s
      else
        let a = appendShotCurvePoint (shotLogWeightToCentigrams env weight) (receivedAtMs - svStartMs s)
                  (svPendingBreak s \<and> \<not> isHeld) isHeld s
        in (snd a)\<lparr> svPendingBreak := (if isHeld then svPendingBreak s \<or> \<not> fst a else \<not> fst a) \<rparr>)"

definition captureEnd :: "ShotEnv \<Rightarrow> u32 \<Rightarrow> grams option \<Rightarrow> ShotCurveSampler \<Rightarrow> ShotCurveSampler" where
  "captureEnd env atMs weight0 s =
     (if \<not> svActive s then s
      else
        let weight = (if weight0 = None \<and> cvCount s \<noteq> 0 then Some (feRound env (of_int (sint (cvLastWeightCg s)) / 100)) else weight0)
        in s\<lparr> cvEnded := latchEvent env s atMs weight (cvEnded s), svActive := False \<rparr>)"

definition samplerSnapshot :: "ShotCurveSampler \<Rightarrow> u32 \<Rightarrow> 'b ShotCurveRecord_scheme \<Rightarrow> 'b ShotCurveRecord_scheme" where
  "samplerSnapshot s shotId record0 = (copyShotCurve s record0)\<lparr> cvShotId := shotId \<rparr>"

definition settleShotCurveEndWeight :: "ShotEnv \<Rightarrow> grams option \<Rightarrow> 'a ShotCurveRecord_scheme \<Rightarrow> bool \<times> 'a ShotCurveRecord_scheme" where
  "settleShotCurveEndWeight env weight c =
     (let cg = shotLogWeightToCentigrams env weight in
      if \<not> shotCurveEventPresent (cvEnded c) \<or> shotLogWeightIsMissing cg then (False, c)
      else (True, c\<lparr> cvEnded := (cvEnded c)\<lparr> evWeightCg := cg \<rparr> \<rparr>))"

text \<open>What the sample handler of the control loop asks of the sampler, in the order it asks.\<close>

fun curveEffect :: "ShotEnv \<Rightarrow> ShotEffect \<Rightarrow> ShotCurveSampler \<Rightarrow> ShotCurveSampler" where
  "curveEffect env (CurveReset startedAtMs) s = samplerReset startedAtMs s"
| "curveEffect env CurveBreak s = markBreak s"
| "curveEffect env (CurveAccept weight atMs isHeld) s = samplerAccept env (Some weight) atMs isHeld s"
| "curveEffect env (CurveExtended atMs weight) s = latchExtended env atMs (Some weight) s"
| "curveEffect env (CurveAtm atMs weight) s = latchAtm env atMs (Some weight) s"
| "curveEffect env (CurveAtmCleared atMs) s = latchAtmCleared atMs s"
| "curveEffect env (CurveFirstDrop atMs weight) s = latchFirstDrop env atMs (Some weight) s"
| "curveEffect env _ s = s"

section \<open>The block in flash\<close>

text \<open>
  \<open>BasicShotCurveLog::encode\<close> and \<open>decode\<close> of \<open>src/OpenBrewByWeightShotCurve.h\<close>. A block is the
  list of its \<open>bytes\<close> bytes: a header of 36, 18 fixed ones, the stream as it is, the two bit
  maps, and zeros up to a multiple of four.
\<close>

record ShotCurveBlockHeader =
  bhMagic :: u32
  bhSchema :: u16
  bhBytes :: u16
  bhEpoch :: u32
  bhSequence :: u32
  bhFloor :: u32
  bhShotId :: u32
  bhCount :: u16
  bhFlags :: u16
  bhChecksum :: u32
  bhValidity :: u32

definition SHOT_CURVE_MAGIC :: u32 where "SHOT_CURVE_MAGIC = 0x53435256"
definition SHOT_CURVE_SCHEMA_VERSION :: u16 where "SHOT_CURVE_SCHEMA_VERSION = 3"
definition SHOT_CURVE_BLOCK_HEADER_BYTES :: nat where "SHOT_CURVE_BLOCK_HEADER_BYTES = 36"
definition kCommitted :: u32 where "kCommitted = 0xFFFFFFFF - 1"
definition kDeleted :: u32 where "kDeleted = 0xFFFFFFFF - 3"
definition align4 :: "nat \<Rightarrow> nat" where "align4 n = (n + 3) div 4 * 4"
definition kDiskCapacity :: nat where
  "kDiskCapacity = align4 (SHOT_CURVE_BLOCK_HEADER_BYTES + 18 + SHOT_CURVE_STREAM_BYTES + 2 * SHOT_CURVE_BREAK_BYTES)"

text \<open>The layout of the header: the part under the checksum, and the rest.\<close>

definition headerPrefix :: "ShotCurveBlockHeader \<Rightarrow> bytes" where
  "headerPrefix h = le32 (bhMagic h) @ le16 (bhSchema h) @ le16 (bhBytes h) @ le32 (bhEpoch h) @ le32 (bhSequence h) @
     le32 (bhFloor h) @ le32 (bhShotId h) @ le16 (bhCount h) @ le16 (bhFlags h)"

definition headerBytes :: "ShotCurveBlockHeader \<Rightarrow> bytes" where
  "headerBytes h = headerPrefix h @ le32 (bhChecksum h) @ le32 (bhValidity h)"

definition headerOf :: "bytes \<Rightarrow> ShotCurveBlockHeader" where
  "headerOf b = \<lparr> bhMagic = getLe32 b 0, bhSchema = getLe16 b 4, bhBytes = getLe16 b 6, bhEpoch = getLe32 b 8,
     bhSequence = getLe32 b 12, bhFloor = getLe32 b 16, bhShotId = getLe32 b 20, bhCount = getLe16 b 24,
     bhFlags = getLe16 b 26, bhChecksum = getLe32 b 28, bhValidity = getLe32 b 32 \<rparr>"

definition validHeader :: "ShotCurveBlockHeader \<Rightarrow> bool" where
  "validHeader h \<longleftrightarrow> bhMagic h = SHOT_CURVE_MAGIC \<and> bhSchema h = SHOT_CURVE_SCHEMA_VERSION \<and>
     unat (bhBytes h) \<ge> SHOT_CURVE_BLOCK_HEADER_BYTES + 18 \<and> unat (bhBytes h) \<le> kDiskCapacity \<and> unat (bhBytes h) mod 4 = 0 \<and>
     bhShotId h \<noteq> 0 \<and> bhSequence h \<noteq> 0 \<and> bhFloor h \<le> bhSequence h \<and> unat (bhCount h) \<le> SHOT_CURVE_MAX_POINTS \<and>
     bhFlags h AND NOT 2 = 0 \<and> (bhValidity h = kCommitted \<or> bhValidity h = kDeleted)"

definition eventBytes :: "ShotCurveEvent \<Rightarrow> bytes" where
  "eventBytes e = le16 (evAtMs e) @ le16 (evWeightCg e)"

definition curveEventOf :: "bytes \<Rightarrow> nat \<Rightarrow> ShotCurveEvent" where
  "curveEventOf b i = \<lparr> evAtMs = getLe16 b i, evWeightCg = getLe16 b (i + 2) \<rparr>"

text \<open>The first \<open>bits\<close> bytes of a bit map, without the bits past the count.\<close>

definition bitMapBytes :: "nat \<Rightarrow> (nat \<Rightarrow> u8) \<Rightarrow> bytes" where
  "bitMapBytes cnt f =
     (let bits = (cnt + 7) div 8; bs = map f [0..<bits] in
      if cnt mod 8 \<noteq> 0 then bs[bits - 1 := bs ! (bits - 1) AND (push_bit (cnt mod 8) 1 - 1)] else bs)"

definition blockBody :: "'a ShotCurveRecord_scheme \<Rightarrow> bytes" where
  "blockBody r = le16 (cvAtmClearedMs r) @ eventBytes (cvFirstDrop r) @ eventBytes (cvExtended r) @ eventBytes (cvAtm r) @
     eventBytes (cvEnded r) @ map (cvStream r) [0..<unat (cvBytes r)] @
     bitMapBytes (unat (cvCount r)) (cvBreakBefore r) @ bitMapBytes (unat (cvCount r)) (cvHeld r)"

definition blockChecksum :: "bytes \<Rightarrow> u32" where
  "blockChecksum block = NOT (crc32Update (crc32Update 0xFFFFFFFF (take 28 block)) (drop SHOT_CURVE_BLOCK_HEADER_BYTES block))"

definition encodeBlock :: "u32 \<Rightarrow> u32 \<Rightarrow> u32 \<Rightarrow> 'a ShotCurveRecord_scheme \<Rightarrow> bytes" where
  "encodeBlock epoch sequence floor0 r =
     (let body = blockBody r; total0 = align4 (SHOT_CURVE_BLOCK_HEADER_BYTES + length body);
          padded = body @ replicate (total0 - SHOT_CURVE_BLOCK_HEADER_BYTES - length body) 0;
          h = \<lparr> bhMagic = SHOT_CURVE_MAGIC, bhSchema = SHOT_CURVE_SCHEMA_VERSION, bhBytes = word_of_nat total0,
                bhEpoch = epoch, bhSequence = sequence + 1, bhFloor = floor0, bhShotId = cvShotId r, bhCount = cvCount r,
                bhFlags = (if cvTruncated r then 2 else 0), bhChecksum = 0, bhValidity = kCommitted \<rparr>
      in headerBytes (h\<lparr> bhChecksum := blockChecksum (headerBytes h @ padded) \<rparr>) @ padded)"

definition maskTail :: "nat \<Rightarrow> (nat \<Rightarrow> u8) \<Rightarrow> nat \<Rightarrow> u8" where
  "maskTail cnt f =
     (let bits = (cnt + 7) div 8 in
      if cnt mod 8 \<noteq> 0 then f(bits - 1 := f (bits - 1) AND (push_bit (cnt mod 8) 1 - 1)) else f)"

definition decodeBlock :: "bytes \<Rightarrow> 'a ShotCurveRecord_scheme \<Rightarrow> 'a ShotCurveRecord_scheme option" where
  "decodeBlock block r0 =
     (let h = headerOf block; r1 = (resetShotCurveRecord r0)\<lparr> cvShotId := bhShotId h, cvCount := bhCount h,
            cvTruncated := (bhFlags h AND 2 \<noteq> 0) \<rparr>;
          cnt = unat (bhCount h); bits = (cnt + 7) div 8; fixed = SHOT_CURVE_BLOCK_HEADER_BYTES + 18; body = drop SHOT_CURVE_BLOCK_HEADER_BYTES block
      in if unat (bhBytes h) < fixed + 2 * bits then None
         else
           let room = unat (bhBytes h) - fixed - 2 * bits; used = min room SHOT_CURVE_STREAM_BYTES;
               r2 = r1\<lparr> cvAtmClearedMs := getLe16 body 0, cvFirstDrop := curveEventOf body 2, cvExtended := curveEventOf body 6,
                        cvAtm := curveEventOf body 10, cvEnded := curveEventOf body 14, cvBytes := word_of_nat used,
                        cvStream := writeBytes 0 (take used (drop 18 body)) (cvStream r1) \<rparr>;
               walk = shotCurveSeek r2 cnt; reached = rdOffset (snd walk)
           in if \<not> fst walk \<or> align4 (fixed + reached + 2 * bits) \<noteq> unat (bhBytes h) then None
              else
                let r3 = r2\<lparr> cvBytes := word_of_nat reached, cvLastAtMs := rdAtMs (snd walk), cvLastWeightCg := rdWeightCg (snd walk),
                      cvBreakBefore := maskTail cnt (writeBytes 0 (take bits (drop (18 + reached) body)) (cvBreakBefore r2)),
                      cvHeld := maskTail cnt (writeBytes 0 (take bits (drop (18 + reached + bits) body)) (cvHeld r2)) \<rparr>
                in if (\<forall>b \<in> set (drop (18 + reached + 2 * bits) body). b = 0) \<and> validShotCurveRecord r3 then Some r3 else None)"

end
