(* ===== verification/Shot_Curve_Facts.thy ===== *)
theory Shot_Curve_Facts
  imports Shot_Curve
begin

text \<open>
  The curve record is the log of the samples it accepted: whatever the sampler is fed, reading
  the record back gives the accepted samples in order, with their times, weights, breaks and
  holds, and the worst case reserved for the stream is never exceeded.
\<close>

section \<open>The stream of a list of points\<close>

type_synonym stamp = "u16 \<times> u16"

definition pointBytes :: "stamp \<Rightarrow> stamp \<Rightarrow> bytes" where
  "pointBytes p q = timeBytes (ucast (fst q) - ucast (fst p)) (ucast (fst q)) @ weightBytes (sint (snd q) - sint (snd p)) (snd q)"

fun streamOf :: "stamp \<Rightarrow> stamp list \<Rightarrow> bytes" where
  "streamOf p [] = []"
| "streamOf p (q # qs) = pointBytes p q @ streamOf q qs"

fun lastStamp :: "stamp \<Rightarrow> stamp list \<Rightarrow> stamp" where
  "lastStamp p [] = p"
| "lastStamp p (q # qs) = lastStamp q qs"

lemma streamOf_append: "streamOf p (qs @ rs) = streamOf p qs @ streamOf (lastStamp p qs) rs"
  by (induction p qs rule: streamOf.induct) simp_all

lemma lastStamp_append: "lastStamp p (qs @ rs) = lastStamp (lastStamp p qs) rs"
  by (induction p qs rule: lastStamp.induct) simp_all

text \<open>Times never run backwards, and a missing weight is never a point.\<close>

fun ascending :: "u16 \<Rightarrow> stamp list \<Rightarrow> bool" where
  "ascending t [] = True"
| "ascending t (q # qs) = (t \<le> fst q \<and> unat (fst q) \<le> SHOT_CURVE_MAX_TIME_MS \<and> \<not> shotLogWeightIsMissing (snd q) \<and> ascending (fst q) qs)"

lemma ascending_append: "ascending t (qs @ rs) \<longleftrightarrow> ascending t qs \<and> ascending (fst (lastStamp (t, w) qs)) rs"
  by (induction t qs arbitrary: w rule: ascending.induct) auto

section \<open>A point reads back\<close>

lemma word16At_bytes: "f i = ucast x \<Longrightarrow> f (i + 1) = ucast (drop_bit 8 x) \<Longrightarrow> word16At f i = (x :: u16)"
  by (simp add: word16At_def join16)

lemma low_bytes: "(ucast (ucast x :: u32) :: u8) = ucast (x :: u16)" "(ucast (drop_bit 8 (ucast x :: u32)) :: u8) = ucast (drop_bit 8 x)"
  by (rule bit_word_eqI, simp add: bit_simps)+

lemma u16_up [simp]: "unat (ucast (t :: u16) :: u32) = unat t"
proof -
  have "unat t < 2 ^ 32" by (rule order_less_le_trans [OF unsigned_less]) simp
  then show ?thesis by (simp add: unsigned_ucast_eq take_bit_nat_eq_self)
qed

lemma sub_u16: "t \<le> (t' :: u16) \<Longrightarrow> unat (ucast t' - ucast t :: u32) = unat t' - unat t"
  by (simp add: unat_sub_if' word_le_nat_alt)

lemma time_byte:
  assumes "t \<le> (t' :: u16)" and "(ucast t' - ucast t :: u32) \<le> 254"
  shows "(ucast (ucast t' - ucast t :: u32) :: u8) \<noteq> 0xFF" and "t + ucast (ucast (ucast t' - ucast t :: u32) :: u8) = t'"
proof -
  have le: "unat t \<le> unat t'" using assms(1) by (simp add: word_le_nat_alt)
  note d = sub_u16 [OF assms(1)]
  have k: "unat t' - unat t \<le> 254" using assms(2) d by (simp add: word_le_nat_alt)
  then have u: "unat (ucast (ucast t' - ucast t :: u32) :: u8) = unat t' - unat t"
    by (simp add: unsigned_ucast_eq d take_bit_eq_mod)
  show "(ucast (ucast t' - ucast t :: u32) :: u8) \<noteq> 0xFF" using u k by (auto dest: arg_cong [where f = unat])
  have up: "unat (ucast (b :: u8) :: u16) = unat b" for b
    using unat_below(1) [of b] by (simp add: unsigned_ucast_eq take_bit_nat_eq_self)
  have "unat t' < 2 ^ 16" using unsigned_less [of t', where ?'a = nat] by simp
  then have "unat (t + ucast (ucast (ucast t' - ucast t :: u32) :: u8)) = unat t'"
    unfolding unat_word_ariths up u using le by simp
  then show "t + ucast (ucast (ucast t' - ucast t :: u32) :: u8) = t'" by (simp add: word_unat_eq_iff)
qed

lemma sint_byte: "-128 \<le> k \<Longrightarrow> k \<le> 127 \<Longrightarrow> sint (word_of_int k :: u8) = k"
  by (simp add: sint_sbintrunc' signed_take_bit_int_eq_self)

lemma weight_byte:
  assumes "-127 \<le> sint w' - sint (w :: u16)" and "sint w' - sint w \<le> 127"
  shows "(word_of_int (sint w' - sint w) :: u8) \<noteq> 0x80" and "w + scast (word_of_int (sint w' - sint w) :: u8) = w'"
proof -
  have s: "sint (word_of_int (sint w' - sint w) :: u8) = sint w' - sint w"
    by (rule sint_byte) (use assms in simp_all)
  show "(word_of_int (sint w' - sint w) :: u8) \<noteq> 0x80"
  proof
    assume "(word_of_int (sint w' - sint w) :: u8) = 0x80"
    then have "sint (word_of_int (sint w' - sint w) :: u8) = sint (0x80 :: u8)" by (rule arg_cong)
    moreover have "sint (0x80 :: u8) = - 128" by simp
    ultimately show False using s assms by simp
  qed
  have "(scast (word_of_int (sint w' - sint w) :: u8) :: u16) = word_of_int (sint w' - sint w)"
    by (simp only: scast_eq s)
  then show "w + scast (word_of_int (sint w' - sint w) :: u8) = w'" by simp
qed

definition ahead :: "bytes \<Rightarrow> ShotCurveReader \<Rightarrow> bool" where
  "ahead bs r \<longleftrightarrow> rdOffset r + length bs \<le> rdSize r \<and> (\<forall>i < length bs. rdData r (rdOffset r + i) = bs ! i)"

lemma ahead_append: "ahead (xs @ ys) r \<longleftrightarrow> ahead xs r \<and> ahead ys (r\<lparr> rdOffset := rdOffset r + length xs \<rparr>)"
proof -
  have "(\<forall>i < length (xs @ ys). P i) \<longleftrightarrow> (\<forall>i < length xs. P i) \<and> (\<forall>i < length ys. P (length xs + i))" for P
    by (auto simp: nth_append) (metis add_diff_inverse_nat nat_add_left_cancel_less)
  then show ?thesis by (auto simp: ahead_def nth_append ac_simps)
qed

lemma ahead_frame [simp]: "ahead bs (r\<lparr> rdAtMs := x \<rparr>) = ahead bs r" "ahead bs (r\<lparr> rdWeightCg := x \<rparr>) = ahead bs r"
  by (simp_all add: ahead_def)

lemma ahead_bytes:
  "ahead [a] r \<longleftrightarrow> rdOffset r < rdSize r \<and> rdData r (rdOffset r) = a"
  "ahead [a, b, c] r \<longleftrightarrow> rdOffset r + 3 \<le> rdSize r \<and> rdData r (rdOffset r) = a \<and> rdData r (Suc (rdOffset r)) = b \<and> rdData r (Suc (Suc (rdOffset r))) = c"
  by (auto simp: ahead_def less_Suc_eq numeral_3_eq_3)

lemma readTime_point:
  assumes "rdAtMs r \<le> t" and "ahead (timeBytes (ucast t - ucast (rdAtMs r)) (ucast t)) r"
  shows "readTime r = (True, r\<lparr> rdAtMs := t, rdOffset := rdOffset r + length (timeBytes (ucast t - ucast (rdAtMs r)) (ucast t)) \<rparr>)"
proof (cases "(ucast t - ucast (rdAtMs r) :: u32) \<le> 254")
  case True
  then show ?thesis using assms time_byte [OF assms(1) True] by (simp add: readTime_def timeBytes_def ahead_bytes Let_def)
next
  case False
  then have e: "timeBytes (ucast t - ucast (rdAtMs r)) (ucast t) = [0xFF, ucast t, ucast (drop_bit 8 t)]"
    by (simp add: timeBytes_def low_bytes)
  then have "word16At (rdData r) (Suc (rdOffset r)) = t" using assms(2) by (intro word16At_bytes) (simp_all add: ahead_bytes)
  then show ?thesis using assms(2) unfolding e by (auto simp: readTime_def ahead_bytes Let_def)
qed

lemma readWeight_point:
  assumes "ahead (weightBytes (sint w - sint (rdWeightCg r)) w) r"
  shows "readWeight r = (True, r\<lparr> rdWeightCg := w, rdOffset := rdOffset r + length (weightBytes (sint w - sint (rdWeightCg r)) w) \<rparr>)"
proof (cases "-127 \<le> sint w - sint (rdWeightCg r) \<and> sint w - sint (rdWeightCg r) \<le> 127")
  case True
  then show ?thesis using assms weight_byte [of w "rdWeightCg r"]
    by (simp add: readWeight_def weightBytes_def ahead_bytes Let_def)
next
  case False
  then have e: "weightBytes (sint w - sint (rdWeightCg r)) w = [0x80, ucast w, ucast (drop_bit 8 w)]" by (auto simp: weightBytes_def)
  have "word16At (rdData r) (Suc (rdOffset r)) = w" using assms unfolding e by (intro word16At_bytes) (simp_all add: ahead_bytes)
  then show ?thesis using assms unfolding e by (auto simp: readWeight_def ahead_bytes Let_def)
qed

lemma next_point:
  assumes "fst p \<le> fst q" and "ahead (pointBytes p q) r" and "rdAtMs r = fst p" and "rdWeightCg r = snd p"
  shows "readerNext r = (True, r\<lparr> rdAtMs := fst q, rdWeightCg := snd q, rdOffset := rdOffset r + length (pointBytes p q) \<rparr>)"
proof -
  let ?tb = "timeBytes (ucast (fst q) - ucast (fst p)) (ucast (fst q))"
  let ?r = "r\<lparr> rdAtMs := fst q, rdOffset := rdOffset r + length ?tb \<rparr>"
  have a: "ahead ?tb r" "ahead (weightBytes (sint (snd q) - sint (snd p)) (snd q)) (r\<lparr> rdOffset := rdOffset r + length ?tb \<rparr>)"
    using assms(2) by (simp_all add: pointBytes_def ahead_append)
  have t: "readTime r = (True, ?r)" using readTime_point [of r "fst q"] a(1) assms(1,3) by simp
  have "ahead (weightBytes (sint (snd q) - sint (rdWeightCg ?r)) (snd q)) ?r"
    using a(2) assms(4) by (simp add: ahead_def)
  from readWeight_point [OF this] show ?thesis using t assms(4) by (simp add: readerNext_def pointBytes_def)
qed

section \<open>A stream reads back\<close>

lemma seek_stream:
  assumes "ascending (fst p) qs" and "ahead (streamOf p qs) r" and "rdAtMs r = fst p" and "rdWeightCg r = snd p" and "n \<le> length qs"
  shows "seekFrom n r = (True, r\<lparr> rdAtMs := fst (lastStamp p (take n qs)), rdWeightCg := snd (lastStamp p (take n qs)),
    rdOffset := rdOffset r + length (streamOf p (take n qs)) \<rparr>)"
  using assms
proof (induction qs arbitrary: p r n)
  case (Cons q qs)
  show ?case
  proof (cases n)
    case (Suc m)
    let ?r = "r\<lparr> rdAtMs := fst q, rdWeightCg := snd q, rdOffset := rdOffset r + length (pointBytes p q) \<rparr>"
    have a: "ahead (pointBytes p q) r" "ahead (streamOf q qs) (r\<lparr> rdOffset := rdOffset r + length (pointBytes p q) \<rparr>)"
      using Cons.prems(2) by (simp_all add: ahead_append)
    have s: "readerNext r = (True, ?r)" using next_point [OF _ a(1)] Cons.prems(1,3,4) by simp
    have "seekFrom m ?r = (True, ?r\<lparr> rdAtMs := fst (lastStamp q (take m qs)), rdWeightCg := snd (lastStamp q (take m qs)),
        rdOffset := rdOffset ?r + length (streamOf q (take m qs)) \<rparr>)"
      by (rule Cons.IH) (use Cons.prems Suc a(2) in \<open>simp_all add: ahead_def\<close>)
    then show ?thesis using s Suc by simp
  qed (use Cons.prems in simp)
qed simp

lemma valid_stream:
  assumes "ascending (if first then 0 else fst p) qs" and "ascending (fst p) qs" and "ahead (streamOf p qs) r"
    and "rdAtMs r = fst p" and "rdWeightCg r = snd p"
  shows "validFrom (length qs) first r = Some (r\<lparr> rdAtMs := fst (lastStamp p qs), rdWeightCg := snd (lastStamp p qs),
    rdOffset := rdOffset r + length (streamOf p qs) \<rparr>)"
  using assms
proof (induction qs arbitrary: p r first)
  case (Cons q qs)
  let ?r = "r\<lparr> rdAtMs := fst q, rdWeightCg := snd q, rdOffset := rdOffset r + length (pointBytes p q) \<rparr>"
  have a: "ahead (pointBytes p q) r" "ahead (streamOf q qs) (r\<lparr> rdOffset := rdOffset r + length (pointBytes p q) \<rparr>)"
    using Cons.prems(3) by (simp_all add: ahead_append)
  have s: "readerNext r = (True, ?r)" using next_point [OF _ a(1)] Cons.prems(2,4,5) by simp
  have "validFrom (length qs) False ?r = Some (?r\<lparr> rdAtMs := fst (lastStamp q qs), rdWeightCg := snd (lastStamp q qs),
      rdOffset := rdOffset ?r + length (streamOf q qs) \<rparr>)"
    by (rule Cons.IH) (use Cons.prems a(2) in \<open>simp_all add: ahead_def\<close>)
  then show ?case using s Cons.prems(2,4) by (simp add: not_less)
qed simp

section \<open>The worst case of the stream\<close>

lemma pointBytes_length:
  assumes "fst p \<le> fst q"
  shows "length (pointBytes p q) + 2 * (unat (fst p) div 255) \<le> 4 + 2 * (unat (fst q) div 255)"
proof -
  have w: "length (weightBytes dw cg) \<le> 3" for dw cg by (simp add: weightBytes_def)
  have le: "unat (fst p) \<le> unat (fst q)" using assms by (simp add: word_le_nat_alt)
  show ?thesis
  proof (cases "(ucast (fst q) - ucast (fst p) :: u32) \<le> 254")
    case True
    then have "length (pointBytes p q) \<le> 4" using w by (simp add: pointBytes_def timeBytes_def)
    moreover have "unat (fst p) div 255 \<le> unat (fst q) div 255" using le by (rule div_le_mono)
    ultimately show ?thesis by simp
  next
    case False
    then have "254 < unat (fst q) - unat (fst p)" using sub_u16 [OF assms] by (simp add: word_le_nat_alt)
    then have "(unat (fst p) + 255) div 255 \<le> unat (fst q) div 255" by (intro div_le_mono) simp
    moreover have "length (pointBytes p q) \<le> 6"
      using w [of "sint (snd q) - sint (snd p)" "snd q"] False by (simp add: pointBytes_def timeBytes_def)
    ultimately show ?thesis by simp
  qed
qed

lemma stream_length:
  "ascending (fst p) qs \<Longrightarrow> length (streamOf p qs) + 2 * (unat (fst p) div 255) \<le> 4 * length qs + 2 * (unat (fst (lastStamp p qs)) div 255)"
proof (induction qs arbitrary: p)
  case (Cons q qs)
  then show ?case using pointBytes_length [of p q] by fastforce
qed simp

lemma last_in_time: "ascending t qs \<Longrightarrow> qs \<noteq> [] \<Longrightarrow> unat (fst (lastStamp p qs)) \<le> SHOT_CURVE_MAX_TIME_MS"
proof (induction t qs arbitrary: p rule: ascending.induct)
  case (2 t q qs)
  then show ?case by (cases qs) auto
qed simp

lemma stream_fits:
  assumes "ascending 0 qs" and "length qs \<le> SHOT_CURVE_MAX_POINTS"
  shows "length (streamOf (0, 0) qs) \<le> SHOT_CURVE_STREAM_BYTES"
proof (cases "qs = []")
  case False
  have "unat (fst (lastStamp (0, 0) qs)) div 255 \<le> SHOT_CURVE_MAX_TIME_MS div 255"
    using last_in_time [OF assms(1) False] by (rule div_le_mono)
  then show ?thesis using stream_length [of "(0, 0)" qs] assms by (simp add: SHOT_CURVE_STREAM_BYTES_def)
qed simp

section \<open>The record stands for its points\<close>

type_synonym CurvePoint = "u16 \<times> u16 \<times> bool \<times> bool"

definition stamp :: "CurvePoint \<Rightarrow> stamp" where "stamp x = (fst x, fst (snd x))"

text \<open>What a reader finds in a record.\<close>

definition readCurve :: "'a ShotCurveRecord_scheme \<Rightarrow> CurvePoint list" where
  "readCurve c = map (\<lambda>i. let r = snd (shotCurveSeek c (i + 1)) in
     (rdAtMs r, rdWeightCg r, shotCurveBreakBefore c i, shotCurveHeld c i)) [0..<unat (cvCount c)]"

definition bitsOf :: "(nat \<Rightarrow> u8) \<Rightarrow> bool list \<Rightarrow> bool" where
  "bitsOf f bs \<longleftrightarrow> (\<forall>i < length bs. bit (f (i div 8)) (i mod 8) = bs ! i)"

definition holdsPoints :: "'a ShotCurveRecord_scheme \<Rightarrow> CurvePoint list \<Rightarrow> bool" where
  "holdsPoints c xs \<longleftrightarrow> (let qs = map stamp xs; bs = streamOf (0, 0) qs in
     unat (cvCount c) = length xs \<and> length xs \<le> SHOT_CURVE_MAX_POINTS \<and> ascending 0 qs \<and>
     unat (cvBytes c) = length bs \<and> (\<forall>i < length bs. cvStream c i = bs ! i) \<and>
     (cvLastAtMs c, cvLastWeightCg c) = lastStamp (0, 0) qs \<and>
     bitsOf (cvBreakBefore c) (map (fst \<circ> snd \<circ> snd) xs) \<and> bitsOf (cvHeld c) (map (snd \<circ> snd \<circ> snd) xs))"

lemma holds_reader:
  assumes "holdsPoints c xs"
  shows "ahead (streamOf (0, 0) (map stamp xs)) (curveReader c)" and "ascending 0 (map stamp xs)"
  using assms stream_fits [of "map stamp xs"] by (auto simp: holdsPoints_def curveReader_def ahead_def Let_def)

lemma lastStamp_take: "i < length qs \<Longrightarrow> lastStamp p (take (Suc i) qs) = qs ! i"
proof (induction qs arbitrary: p i)
  case (Cons q qs)
  then show ?case by (cases i) auto
qed simp

lemma holds_read:
  assumes "holdsPoints c xs"
  shows "readCurve c = xs"
proof (rule nth_equalityI)
  show len: "length (readCurve c) = length xs" using assms by (simp add: readCurve_def holdsPoints_def Let_def)
  fix i
  assume "i < length (readCurve c)"
  then have i: "i < length xs" using len by simp
  have "shotCurveSeek c (i + 1) = (True, (curveReader c)\<lparr> rdAtMs := fst (lastStamp (0, 0) (take (i + 1) (map stamp xs))),
      rdWeightCg := snd (lastStamp (0, 0) (take (i + 1) (map stamp xs))),
      rdOffset := rdOffset (curveReader c) + length (streamOf (0, 0) (take (i + 1) (map stamp xs))) \<rparr>)"
    unfolding shotCurveSeek_def
    by (rule seek_stream) (use holds_reader [OF assms] i in \<open>simp_all add: curveReader_def\<close>)
  moreover have "lastStamp (0, 0) (take (i + 1) (map stamp xs)) = stamp (xs ! i)" using lastStamp_take [of i "map stamp xs"] i by simp
  moreover have "shotCurveBreakBefore c i = fst (snd (snd (xs ! i)))" "shotCurveHeld c i = snd (snd (snd (xs ! i)))"
    using assms i by (simp_all add: shotCurveBreakBefore_def shotCurveHeld_def holdsPoints_def bitsOf_def Let_def)
  ultimately show "readCurve c ! i = xs ! i"
    using assms i by (simp add: readCurve_def holdsPoints_def Let_def stamp_def)
qed

lemma holds_valid:
  assumes "holdsPoints c xs" and "cvShotId c \<noteq> 0"
  shows "validShotCurveRecord c"
proof -
  have l: "length (map stamp xs) = unat (cvCount c)" using assms(1) by (simp add: holdsPoints_def Let_def)
  have "validFrom (length (map stamp xs)) True (curveReader c) = Some ((curveReader c)\<lparr> rdAtMs := fst (lastStamp (0, 0) (map stamp xs)),
      rdWeightCg := snd (lastStamp (0, 0) (map stamp xs)),
      rdOffset := rdOffset (curveReader c) + length (streamOf (0, 0) (map stamp xs)) \<rparr>)"
    by (rule valid_stream) (use holds_reader [OF assms(1)] in \<open>simp_all add: curveReader_def\<close>)
  then show ?thesis
    using assms stream_fits [of "map stamp xs"] l unfolding validShotCurveRecord_def
    by (auto simp: holdsPoints_def Let_def curveReader_def dest: sym)
qed

section \<open>Appending\<close>

lemma set_bit_other: "j \<noteq> i \<Longrightarrow> bit (setShotCurveBit f i v (j div 8)) (j mod 8) = bit (f (j div 8)) (j mod 8)"
  by (cases "j div 8 = i div 8") (auto simp: setShotCurveBit_def Let_def bit_simps, (metis mod_mult_div_eq)+)

lemma set_bit_same: "bit (setShotCurveBit f i v (i div 8)) (i mod 8) = v"
  by (auto simp: setShotCurveBit_def Let_def bit_simps)

lemma bitsOf_snoc: "bitsOf f bs \<Longrightarrow> length bs = i \<Longrightarrow> bitsOf (setShotCurveBit f i v) (bs @ [v])"
  by (auto simp: bitsOf_def nth_append set_bit_other set_bit_same less_Suc_eq)

lemma stamp_nat: "unat elapsed \<le> SHOT_CURVE_MAX_TIME_MS \<Longrightarrow> unat (ucast (elapsed :: u32) :: u16) = unat elapsed"
  by (simp add: SHOT_CURVE_MAX_TIME_MS_def unsigned_ucast_eq take_bit_eq_mod)

lemma stamp_u16: "unat elapsed \<le> SHOT_CURVE_MAX_TIME_MS \<Longrightarrow> ucast (ucast (elapsed :: u32) :: u16) = elapsed"
  by (metis stamp_nat u16_up word_unat_eq_iff)

lemma fits_u16: "k \<le> SHOT_CURVE_STREAM_BYTES \<Longrightarrow> unat (word_of_nat k :: u16) = k"
  by (simp add: unat_of_nat SHOT_CURVE_STREAM_BYTES_def SHOT_CURVE_MAX_POINTS_def SHOT_CURVE_MAX_TIME_MS_def)

lemma append_point:
  assumes "holdsPoints c xs" and "unat elapsed \<le> SHOT_CURVE_MAX_TIME_MS" and "length xs < SHOT_CURVE_MAX_POINTS"
    and "\<not> shotLogWeightIsMissing cg" and "xs = [] \<or> \<not> elapsed < ucast (cvLastAtMs c)" and "\<not> cvTruncated c"
  shows "fst (appendShotCurvePoint cg elapsed split held c)"
    and "holdsPoints (snd (appendShotCurvePoint cg elapsed split held c)) (xs @ [(ucast elapsed, cg, split \<and> xs \<noteq> [], held)])"
    and "\<not> cvTruncated (snd (appendShotCurvePoint cg elapsed split held c))"
proof -
  let ?qs = "map stamp xs" and ?p = "lastStamp (0, 0) (map stamp xs)" and ?q = "(ucast elapsed, cg) :: stamp"
  have h: "unat (cvCount c) = length xs" "ascending 0 ?qs" "unat (cvBytes c) = length (streamOf (0, 0) ?qs)"
    "?p = (cvLastAtMs c, cvLastWeightCg c)"
    using assms(1) by (simp_all add: holdsPoints_def Let_def)
  have z: "(cvCount c \<noteq> 0) = (xs \<noteq> [])" using h(1) by (metis length_0_conv unat_eq_zero)
  have e: "ucast (ucast elapsed :: u16) = elapsed" using assms(2) by (rule stamp_u16)
  have start: "(if cvCount c \<noteq> 0 then ucast (cvLastAtMs c) else 0) = (ucast (fst ?p) :: u32)"
    "(if cvCount c \<noteq> 0 then sint (cvLastWeightCg c) else 0) = sint (snd ?p)"
    using z h(4) by (auto)
  let ?bs = "timeBytes (elapsed - ucast (fst ?p)) elapsed @ weightBytes (sint cg - sint (snd ?p)) cg"
  have bs: "?bs = pointBytes ?p ?q" using e by (simp add: pointBytes_def)
  have "fst ?p \<le> ucast elapsed"
  proof (cases "xs = []")
    case False
    then have "unat (cvLastAtMs c) \<le> unat elapsed" using assms(5) False by (simp add: word_less_nat_alt u16_up)
    then show ?thesis using e h(4) by (metis fst_conv u16_up word_le_nat_alt)
  qed simp
  then have asc: "ascending 0 (?qs @ [?q])"
    using h(2) assms(2,4) stamp_nat [OF assms(2)] ascending_append [of 0 ?qs "[?q]" 0] by simp
  have all: "streamOf (0, 0) (?qs @ [?q]) = streamOf (0, 0) ?qs @ ?bs" by (simp add: streamOf_append bs)
  have fits: "length (streamOf (0, 0) ?qs) + length ?bs \<le> SHOT_CURVE_STREAM_BYTES"
    using stream_fits [OF asc] assms(3) all by simp
  have r: "appendShotCurvePoint cg elapsed split held c =
      (True, c\<lparr> cvStream := writeBytes (unat (cvBytes c)) ?bs (cvStream c), cvBytes := word_of_nat (unat (cvBytes c) + length ?bs),
        cvBreakBefore := setShotCurveBit (cvBreakBefore c) (unat (cvCount c)) (split \<and> cvCount c \<noteq> 0),
        cvHeld := setShotCurveBit (cvHeld c) (unat (cvCount c)) held,
        cvLastAtMs := ucast elapsed, cvLastWeightCg := cg, cvCount := cvCount c + 1 \<rparr>)"
    using assms(2-6) fits h(1,3) z start by (simp add: appendShotCurvePoint_def Let_def)
  show "fst (appendShotCurvePoint cg elapsed split held c)" "\<not> cvTruncated (snd (appendShotCurvePoint cg elapsed split held c))"
    using r assms(6) by simp_all
  have n: "unat (word_of_nat (length (streamOf (0, 0) ?qs) + length ?bs) :: u16) = length (streamOf (0, 0) ?qs) + length ?bs"
    by (rule fits_u16 [OF fits])
  have k: "unat (cvCount c + 1) = length xs + 1"
    using h(1) assms(3) by (simp add: unat_word_ariths SHOT_CURVE_MAX_POINTS_def SHOT_CURVE_MAX_TIME_MS_def)
  show "holdsPoints (snd (appendShotCurvePoint cg elapsed split held c)) (xs @ [(ucast elapsed, cg, split \<and> xs \<noteq> [], held)])"
    using assms(1,3) asc n k z h(1,3)
    by (auto simp: r holdsPoints_def Let_def stamp_def [of "(a, b)" for a b] all writeBytes_def nth_append lastStamp_append bitsOf_snoc simp del: of_nat_add)
qed

section \<open>The log the sampler stands for\<close>

text \<open>
  The same sampler without an encoding: a list of accepted samples. A sample is refused when
  its weight cannot be stored or its time runs backwards, and the log closes for good at the
  first sample past the minute or the last slot.
\<close>

record CurveLog =
  clStart :: u32
  clPending :: bool
  clActive :: bool
  clFull :: bool
  clPoints :: "CurvePoint list"

definition logStart :: "u32 \<Rightarrow> CurveLog" where
  "logStart t = \<lparr> clStart = t, clPending = False, clActive = True, clFull = False, clPoints = [] \<rparr>"

definition logRefuses :: "u16 \<Rightarrow> u32 \<Rightarrow> CurveLog \<Rightarrow> bool" where
  "logRefuses cg elapsed l \<longleftrightarrow> shotLogWeightIsMissing cg \<or> clPoints l \<noteq> [] \<and> unat elapsed < unat (fst (last (clPoints l)))"

definition logCloses :: "u32 \<Rightarrow> CurveLog \<Rightarrow> bool" where
  "logCloses elapsed l \<longleftrightarrow> unat elapsed > SHOT_CURVE_MAX_TIME_MS \<or> length (clPoints l) = SHOT_CURVE_MAX_POINTS"

definition logAccept :: "ShotEnv \<Rightarrow> grams option \<Rightarrow> u32 \<Rightarrow> bool \<Rightarrow> CurveLog \<Rightarrow> CurveLog" where
  "logAccept env weight atMs held l =
     (let cg = shotLogWeightToCentigrams env weight; elapsed = atMs - clStart l in
      if \<not> clActive l \<or> clFull l then l
      else if logRefuses cg elapsed l then l\<lparr> clPending := True \<rparr>
      else if logCloses elapsed l then l\<lparr> clFull := True, clPending := True \<rparr>
      else l\<lparr> clPoints := clPoints l @ [(ucast elapsed, cg, clPending l \<and> \<not> held \<and> clPoints l \<noteq> [], held)],
              clPending := (clPending l \<and> held) \<rparr>)"

fun logEffect :: "ShotEnv \<Rightarrow> ShotEffect \<Rightarrow> CurveLog \<Rightarrow> CurveLog" where
  "logEffect env (CurveReset t) l = logStart t"
| "logEffect env CurveBreak l = (if clActive l then l\<lparr> clPending := True \<rparr> else l)"
| "logEffect env (CurveAccept weight atMs held) l = logAccept env (Some weight) atMs held l"
| "logEffect env _ l = l"

definition standsFor :: "ShotCurveSampler \<Rightarrow> CurveLog \<Rightarrow> bool" where
  "standsFor s l \<longleftrightarrow> svStartMs s = clStart l \<and> svPendingBreak s = clPending l \<and> svActive s = clActive l \<and>
     cvTruncated s = clFull l \<and> holdsPoints s (clPoints l)"

lemma stands_start: "standsFor (samplerReset t s) (logStart t)"
  by (simp add: standsFor_def samplerReset_def logStart_def resetShotCurveRecord_def holdsPoints_def bitsOf_def)

lemma lastStamp_last: "qs \<noteq> [] \<Longrightarrow> lastStamp p qs = last qs"
  by (induction qs arbitrary: p) auto

lemma refuses_iff:
  assumes "holdsPoints c (clPoints l)"
  shows "logRefuses cg elapsed l \<longleftrightarrow> shotLogWeightIsMissing cg \<or> cvCount c \<noteq> 0 \<and> elapsed < ucast (cvLastAtMs c)"
proof -
  have n: "unat (cvCount c) = length (clPoints l)" "lastStamp (0, 0) (map stamp (clPoints l)) = (cvLastAtMs c, cvLastWeightCg c)"
    using assms by (simp_all add: holdsPoints_def Let_def)
  have "(cvCount c \<noteq> 0) = (clPoints l \<noteq> [])" using n(1) by (metis length_0_conv unat_eq_zero)
  moreover have "clPoints l \<noteq> [] \<Longrightarrow> fst (last (clPoints l)) = cvLastAtMs c"
    using n(2) lastStamp_last [of "map stamp (clPoints l)" "(0, 0)"] by (simp add: last_map stamp_def)
  ultimately show ?thesis by (auto simp: logRefuses_def word_less_nat_alt)
qed

lemma holds_frame [simp]:
  "holdsPoints (c\<lparr> cvTruncated := b \<rparr>) xs = holdsPoints c xs" "holdsPoints (c\<lparr> cvShotId := i \<rparr>) xs = holdsPoints c xs"
  "holdsPoints (c\<lparr> cvFirstDrop := e \<rparr>) xs = holdsPoints c xs" "holdsPoints (c\<lparr> cvExtended := e \<rparr>) xs = holdsPoints c xs"
  "holdsPoints (c\<lparr> cvAtm := e \<rparr>) xs = holdsPoints c xs" "holdsPoints (c\<lparr> cvEnded := e \<rparr>) xs = holdsPoints c xs"
  "holdsPoints (c\<lparr> cvAtmClearedMs := m \<rparr>) xs = holdsPoints c xs" "holdsPoints (s\<lparr> svPendingBreak := p \<rparr>) xs = holdsPoints s xs"
  by (simp_all add: holdsPoints_def Let_def)

lemma append_frame [simp]:
  "svStartMs (snd (appendShotCurvePoint cg elapsed split held s)) = svStartMs s"
  "svActive (snd (appendShotCurvePoint cg elapsed split held s)) = svActive s"
  by (simp_all add: appendShotCurvePoint_def Let_def)

lemma stands_accept:
  assumes "standsFor s l"
  shows "standsFor (samplerAccept env w atMs held s) (logAccept env w atMs held l)"
proof -
  let ?cg = "shotLogWeightToCentigrams env w" and ?e = "atMs - clStart l"
  let ?split = "clPending l \<and> \<not> held"
  have s: "svStartMs s = clStart l" "svPendingBreak s = clPending l" "svActive s = clActive l" "cvTruncated s = clFull l"
    "holdsPoints s (clPoints l)" using assms by (simp_all add: standsFor_def)
  note R = refuses_iff [OF s(5), of ?cg ?e]
  have len: "unat (cvCount s) = length (clPoints l)" "length (clPoints l) \<le> SHOT_CURVE_MAX_POINTS"
    using s(5) by (simp_all add: holdsPoints_def Let_def)
  consider (off) "\<not> clActive l \<or> clFull l" | (refused) "clActive l" "\<not> clFull l" "logRefuses ?cg ?e l"
    | (closed) "clActive l" "\<not> clFull l" "\<not> logRefuses ?cg ?e l" "logCloses ?e l"
    | (taken) "clActive l" "\<not> clFull l" "\<not> logRefuses ?cg ?e l" "\<not> logCloses ?e l" by blast
  then show ?thesis
  proof cases
    case off
    then show ?thesis using assms s by (auto simp: samplerAccept_def logAccept_def Let_def)
  next
    case refused
    then have "appendShotCurvePoint ?cg ?e ?split held s = (False, s)" using R s(4) by (auto simp: appendShotCurvePoint_def)
    then show ?thesis using refused s by (auto simp: samplerAccept_def logAccept_def standsFor_def Let_def)
  next
    case closed
    then have "appendShotCurvePoint ?cg ?e ?split held s = (False, s\<lparr> cvTruncated := True \<rparr>)"
      using R s(4) len by (auto simp: appendShotCurvePoint_def logCloses_def Let_def)
    then show ?thesis using closed s by (auto simp: samplerAccept_def logAccept_def standsFor_def Let_def)
  next
    case taken
    have "clPoints l = [] \<or> \<not> ?e < ucast (cvLastAtMs s)" using taken(3) R len(1) by (auto simp: unat_eq_0)
    then have "fst (appendShotCurvePoint ?cg ?e ?split held s) \<and> \<not> cvTruncated (snd (appendShotCurvePoint ?cg ?e ?split held s)) \<and>
      holdsPoints (snd (appendShotCurvePoint ?cg ?e ?split held s)) (clPoints l @ [(ucast ?e, ?cg, ?split \<and> clPoints l \<noteq> [], held)])"
      using append_point [OF s(5), of ?e ?cg ?split held] taken len(2) s(4) by (auto simp: logRefuses_def logCloses_def)
    then show ?thesis using taken s by (auto simp: samplerAccept_def logAccept_def standsFor_def Let_def)
  qed
qed

lemma stands_effect: "standsFor s l \<Longrightarrow> standsFor (curveEffect env e s) (logEffect env e l)"
  using stands_start stands_accept
  by (cases e) (auto simp: standsFor_def markBreak_def latchFirstDrop_def latchExtended_def latchAtm_def latchAtmCleared_def
      Let_def split: option.split)

lemma stands_run: "standsFor s l \<Longrightarrow> standsFor (fold (curveEffect env) es s) (fold (logEffect env) es l)"
  by (induction es arbitrary: s l) (simp_all add: stands_effect)

lemma stream_bytes_fit: "holdsPoints c xs \<Longrightarrow> unat (cvBytes c) \<le> SHOT_CURVE_STREAM_BYTES"
  using stream_fits [of "map stamp xs"] by (simp add: holdsPoints_def Let_def)

lemma snapshot_holds:
  assumes "holdsPoints s xs"
  shows "holdsPoints (samplerSnapshot s shotId r0) xs"
proof -
  have b: "min (unat (cvBytes s)) SHOT_CURVE_STREAM_BYTES = length (streamOf (0, 0) (map stamp xs))"
    "unat (cvCount s) = length xs" "length xs \<le> SHOT_CURVE_MAX_POINTS"
    using assms stream_bytes_fit [OF assms] by (simp_all add: holdsPoints_def Let_def)
  have "i div 8 < usedBits (length xs)" if "i < length xs" for i
    using \<open>i < length xs\<close> b(3) by (auto simp: usedBits_def SHOT_CURVE_BREAK_BYTES_def)
  then show ?thesis using assms b by (simp add: samplerSnapshot_def copyShotCurve_def holdsPoints_def copyArray_def bitsOf_def Let_def)
qed

text \<open>
  Property C21. The curve of a shot is the log of its samples. Whatever is asked of the
  sampler after a start, and whatever was left in its arrays, reading the record back gives
  exactly the samples accepted since the last start, with their times, weights, breaks and
  holds; the stream stays inside its array, so that a record only ends early at the minute or
  at its last slot; and its copy under a shot number is a valid record with the same samples.
\<close>

theorem curve_is_the_log:
  fixes s0 :: ShotCurveSampler and r0 :: ShotCurveRecord
  shows "let s = fold (curveEffect env) es (samplerReset t s0); l = fold (logEffect env) es (logStart t) in
    readCurve s = clPoints l \<and> cvTruncated s = clFull l \<and>
    unat (cvBytes s) \<le> SHOT_CURVE_STREAM_BYTES \<and> unat (cvCount s) \<le> SHOT_CURVE_MAX_POINTS \<and>
    readCurve (samplerSnapshot s shotId r0) = clPoints l \<and> (shotId = 0 \<or> validShotCurveRecord (samplerSnapshot s shotId r0))"
proof -
  define s where "s = fold (curveEffect env) es (samplerReset t s0)"
  define l where "l = fold (logEffect env) es (logStart t)"
  have "standsFor s l" unfolding s_def l_def by (rule stands_run [OF stands_start])
  then have h: "holdsPoints s (clPoints l)" "cvTruncated s = clFull l" by (simp_all add: standsFor_def)
  note c = snapshot_holds [OF h(1), of shotId r0]
  have "cvShotId (samplerSnapshot s shotId r0) = shotId" by (simp add: samplerSnapshot_def)
  then show ?thesis
    using holds_read [OF h(1)] h(2) holds_read [OF c] holds_valid [OF c] stream_bytes_fit [OF h(1)] h(1)
    by (auto simp: holdsPoints_def Let_def simp flip: s_def l_def)
qed

end
