(* ===== verification/Shot_Curve_Block.thy ===== *)
theory Shot_Curve_Block
  imports Shot_Curve_Facts
begin

text \<open>
  The flash block of a curve: what \<open>encode\<close> writes, the tests of \<open>load\<close> accept, and \<open>decode\<close>
  gives the curve back, for every valid record.
\<close>

section \<open>A walk only reads what it passes\<close>

definition onArray :: "(nat \<Rightarrow> u8) \<Rightarrow> nat \<Rightarrow> ShotCurveReader \<Rightarrow> ShotCurveReader" where
  "onArray f n r = r\<lparr> rdData := f, rdSize := n \<rparr>"

definition agrees :: "(nat \<Rightarrow> u8) \<Rightarrow> ShotCurveReader \<Rightarrow> ShotCurveReader \<Rightarrow> bool" where
  "agrees f r x \<longleftrightarrow> (\<forall>i. rdOffset r \<le> i \<and> i < rdOffset x \<longrightarrow> f i = rdData r i)"

lemma readTime_local:
  assumes "readTime r = (True, x)"
  shows "rdOffset r \<le> rdOffset x" and "rdOffset x \<le> rdSize r" and "rdData x = rdData r" and "rdSize x = rdSize r"
    and "agrees f r x \<Longrightarrow> rdOffset x \<le> n \<Longrightarrow> readTime (onArray f n r) = (True, onArray f n x)"
  using assms by (auto simp: readTime_def agrees_def onArray_def word16At_def Let_def split: if_splits)

lemma readWeight_local:
  assumes "readWeight r = (True, x)"
  shows "rdOffset r \<le> rdOffset x" and "rdOffset x \<le> rdSize r" and "rdData x = rdData r" and "rdSize x = rdSize r"
    and "agrees f r x \<Longrightarrow> rdOffset x \<le> n \<Longrightarrow> readWeight (onArray f n r) = (True, onArray f n x)"
  using assms by (auto simp: readWeight_def agrees_def onArray_def word16At_def Let_def split: if_splits)

lemma readerNext_local:
  assumes "readerNext r = (True, x)"
  shows "rdOffset r \<le> rdOffset x" and "rdOffset x \<le> rdSize r" and "rdData x = rdData r" and "rdSize x = rdSize r"
    and "agrees f r x \<Longrightarrow> rdOffset x \<le> n \<Longrightarrow> readerNext (onArray f n r) = (True, onArray f n x)"
proof -
  obtain y where t: "readTime r = (True, y)" and w: "readWeight y = (True, x)"
    using assms by (cases "readTime r") (auto simp: readerNext_def Let_def split: if_splits)
  note T = readTime_local [OF t] and W = readWeight_local [OF w]
  show "rdOffset r \<le> rdOffset x" "rdOffset x \<le> rdSize r" "rdData x = rdData r" "rdSize x = rdSize r"
    using T(1-4) W(1-4) by simp_all
  assume a: "agrees f r x" "rdOffset x \<le> n"
  have "agrees f r y" "agrees f y x" using a(1) T(1,3) W(1) by (auto simp: agrees_def)
  then show "readerNext (onArray f n r) = (True, onArray f n x)"
    using T(5) [of f n] W(5) [of f n] a(2) W(1) by (simp add: readerNext_def)
qed

lemma seek_Suc: "seekFrom (Suc k) r = (True, x) \<longleftrightarrow> (\<exists>y. readerNext r = (True, y) \<and> seekFrom k y = (True, x))"
  by (cases "readerNext r") (auto simp: Let_def)

lemma seek_onwards: "seekFrom k r = (True, x) \<Longrightarrow> rdOffset r \<le> rdOffset x \<and> rdData x = rdData r \<and> rdSize x = rdSize r"
proof (induction k arbitrary: r)
  case (Suc k)
  then obtain y where s: "readerNext r = (True, y)" "seekFrom k y = (True, x)" unfolding seek_Suc by blast
  then show ?case using readerNext_local(1,3,4) [OF s(1)] Suc.IH [OF s(2)] by simp
qed simp

lemma seek_local:
  assumes "seekFrom k r = (True, x)" and "agrees f r x" and "rdOffset x \<le> n"
  shows "seekFrom k (onArray f n r) = (True, onArray f n x)"
  using assms
proof (induction k arbitrary: r)
  case (Suc k)
  then obtain y where s: "readerNext r = (True, y)" "seekFrom k y = (True, x)" unfolding seek_Suc by blast
  have o: "rdOffset y \<le> rdOffset x" "rdOffset r \<le> rdOffset y" "rdData y = rdData r"
    using seek_onwards [OF s(2)] readerNext_local(1,3) [OF s(1)] by simp_all
  have "agrees f r y" "agrees f y x" using Suc.prems(2) o by (auto simp: agrees_def)
  then have "readerNext (onArray f n r) = (True, onArray f n y)" "seekFrom k (onArray f n y) = (True, onArray f n x)"
    using readerNext_local(5) [OF s(1), of f n] Suc.IH [OF s(2)] Suc.prems(3) o by simp_all
  then show ?case unfolding seek_Suc by blast
qed simp

text \<open>A record that passes the test can be walked to any of its points.\<close>

lemma valid_seeks: "validFrom k first r = Some x \<Longrightarrow> seekFrom k r = (True, x)"
  by (induction k arbitrary: first r) (auto simp: Let_def split: if_splits)

lemma seek_prefix: "seekFrom (j + k) r = (True, x) \<Longrightarrow> \<exists>y. seekFrom j r = (True, y) \<and> seekFrom k y = (True, x)"
proof (induction j arbitrary: r)
  case (Suc j)
  then obtain y where y: "readerNext r = (True, y)" "seekFrom (j + k) y = (True, x)"
    using seek_Suc [of "j + k" r x] by auto
  obtain z where "seekFrom j y = (True, z)" "seekFrom k z = (True, x)" using Suc.IH [OF y(2)] by blast
  then show ?case using y(1) seek_Suc by blast
qed simp

lemma valid_local:
  assumes "validFrom k first r = Some x" and "agrees f r x" and "rdOffset x \<le> n"
  shows "validFrom k first (onArray f n r) = Some (onArray f n x)"
  using assms
proof (induction k arbitrary: first r)
  case (Suc k)
  let ?y = "snd (readerNext r)"
  have s: "readerNext r = (True, ?y)" "validFrom k False ?y = Some x"
    using Suc.prems(1) by (cases "readerNext r", auto simp: Let_def split: if_splits)+
  have o: "rdOffset ?y \<le> rdOffset x" "rdOffset r \<le> rdOffset ?y" "rdData ?y = rdData r"
    using seek_onwards [OF valid_seeks [OF s(2)]] readerNext_local(1,3) [OF s(1)] by simp_all
  have a: "agrees f r ?y" "agrees f ?y x" using Suc.prems(2) o by (auto simp: agrees_def)
  have "readerNext (onArray f n r) = (True, onArray f n ?y)" using readerNext_local(5) [OF s(1) a(1)] Suc.prems(3) o by simp
  moreover have "validFrom k False (onArray f n ?y) = Some (onArray f n x)" using Suc.IH [OF s(2) a(2) Suc.prems(3)] .
  ultimately show ?case using Suc.prems(1) s by (auto simp: onArray_def Let_def split: if_splits)
qed simp

section \<open>The layout of a block\<close>

lemma header_reads: "headerOf (headerBytes h @ rest) = h"
  by (simp add: headerOf_def headerBytes_def headerPrefix_def getLe_shift)

lemma header_lengths [simp]: "length (headerPrefix h) = 28" "length (headerBytes h) = 36"
  by (simp_all add: headerBytes_def headerPrefix_def)

lemma events_read:
  "getLe16 (le16 x @ eventBytes a @ eventBytes b @ eventBytes c @ eventBytes d @ rest) 0 = x"
  "curveEventOf (le16 x @ eventBytes a @ eventBytes b @ eventBytes c @ eventBytes d @ rest) 2 = a"
  "curveEventOf (le16 x @ eventBytes a @ eventBytes b @ eventBytes c @ eventBytes d @ rest) 6 = b"
  "curveEventOf (le16 x @ eventBytes a @ eventBytes b @ eventBytes c @ eventBytes d @ rest) 10 = c"
  "curveEventOf (le16 x @ eventBytes a @ eventBytes b @ eventBytes c @ eventBytes d @ rest) 14 = d"
  by (simp_all add: curveEventOf_def eventBytes_def getLe_shift)

lemma tail_mask: "k < 8 \<Longrightarrow> bit ((x :: u8) AND (push_bit k 1 - 1)) j = (bit x j \<and> j < k)"
  by (auto simp: bit_and_iff push_bit_eq_mult mask_eq_exp_minus_1 [symmetric] bit_mask_iff)

lemma bits_index: "i < n \<Longrightarrow> i div 8 < (n + 7) div 8" for n :: nat
proof -
  assume "i < n"
  then have "(i + 8) div 8 \<le> (n + 7) div 8" by (intro div_le_mono) simp
  then show ?thesis by simp
qed

lemma last_byte:
  fixes n :: nat
  assumes "i < n" and "i div 8 = (n + 7) div 8 - 1" and "n mod 8 \<noteq> 0"
  shows "i mod 8 < n mod 8"
proof -
  have n: "n = 8 * (n div 8) + n mod 8" and i: "i = 8 * (i div 8) + i mod 8" by simp_all
  have m: "0 < n mod 8" "n mod 8 < 8" using assms(3) by simp_all
  have "(8 * q + k + 7) div 8 = q + 1" if "0 < k" "k < 8" for q k :: nat
    using \<open>0 < k\<close> \<open>k < 8\<close> by (intro div_nat_eqI) simp_all
  from this [OF m, of "n div 8"] have "(n + 7) div 8 = n div 8 + 1" by simp
  then have "i div 8 = n div 8" using assms(2) by simp
  then have "8 * (n div 8) + i mod 8 < 8 * (n div 8) + n mod 8" using n i assms(1) by metis
  then show ?thesis by (rule add_less_imp_less_left)
qed

lemma bitMapBytes_length [simp]: "length (bitMapBytes n f) = (n + 7) div 8"
  by (simp add: bitMapBytes_def Let_def)

lemma bitMapBytes_bit:
  assumes "i < n"
  shows "bit (bitMapBytes n f ! (i div 8)) (i mod 8) = bit (f (i div 8)) (i mod 8)"
proof (cases "n mod 8 \<noteq> 0 \<and> i div 8 = (n + 7) div 8 - 1")
  case True
  then show ?thesis using bits_index [OF assms] last_byte [OF assms] tail_mask [of "n mod 8" "f (i div 8)" "i mod 8"]
    by (simp add: bitMapBytes_def Let_def)
next
  case False
  then show ?thesis using bits_index [OF assms] by (auto simp: bitMapBytes_def Let_def)
qed

lemma maskTail_bit:
  assumes "i < n"
  shows "bit (maskTail n f (i div 8)) (i mod 8) = bit (f (i div 8)) (i mod 8)"
  using last_byte [OF assms] tail_mask [of "n mod 8" "f (i div 8)" "i mod 8"]
  by (auto simp: maskTail_def Let_def)

lemma map_written: "i < n \<Longrightarrow> bit (maskTail n (writeBytes 0 (bitMapBytes n f) g) (i div 8)) (i mod 8) = bit (f (i div 8)) (i mod 8)"
  using maskTail_bit [of i n] bits_index [of i n] bitMapBytes_bit [of i n f] by (simp add: writeBytes_def)

section \<open>The round trip\<close>

text \<open>The sizes of a block of a valid record.\<close>

lemma align4_ge: "n \<le> align4 n" "align4 n < n + 4" "align4 n mod 4 = 0"
  by (simp_all add: align4_def)

lemma align4_mono: "m \<le> n \<Longrightarrow> align4 m \<le> align4 n"
  by (simp add: align4_def div_le_mono)

lemma blockBody_length: "length (blockBody r) = 18 + unat (cvBytes r) + 2 * ((unat (cvCount r) + 7) div 8)"
  by (simp add: blockBody_def eventBytes_def)

lemma block_size:
  assumes "validShotCurveRecord r"
  shows "align4 (SHOT_CURVE_BLOCK_HEADER_BYTES + length (blockBody r)) \<le> kDiskCapacity"
proof -
  have "unat (cvBytes r) \<le> SHOT_CURVE_STREAM_BYTES" "unat (cvCount r) \<le> SHOT_CURVE_MAX_POINTS"
    using assms by (simp_all add: validShotCurveRecord_def)
  then have "length (blockBody r) \<le> 18 + SHOT_CURVE_STREAM_BYTES + 2 * SHOT_CURVE_BREAK_BYTES"
    unfolding blockBody_length SHOT_CURVE_BREAK_BYTES_def by (intro add_mono mult_le_mono div_le_mono) simp_all
  then show ?thesis unfolding kDiskCapacity_def by (intro align4_mono) simp
qed

definition blockHeader :: "u32 \<Rightarrow> u32 \<Rightarrow> u32 \<Rightarrow> 'a ShotCurveRecord_scheme \<Rightarrow> ShotCurveBlockHeader" where
  "blockHeader epoch sequence floor0 r = headerOf (encodeBlock epoch sequence floor0 r)"

definition paddedBody :: "'a ShotCurveRecord_scheme \<Rightarrow> bytes" where
  "paddedBody r = blockBody r @ replicate (align4 (SHOT_CURVE_BLOCK_HEADER_BYTES + length (blockBody r)) -
     SHOT_CURVE_BLOCK_HEADER_BYTES - length (blockBody r)) 0"

lemma encode_layout:
  fixes r :: "'a ShotCurveRecord_scheme" and epoch sequence floor0 :: u32
  assumes "validShotCurveRecord r"
  defines "block \<equiv> encodeBlock epoch sequence floor0 r" and "h \<equiv> blockHeader epoch sequence floor0 r"
  shows "block = headerBytes h @ paddedBody r"
    and "unat (bhBytes h) = align4 (SHOT_CURVE_BLOCK_HEADER_BYTES + length (blockBody r))" and "length block = unat (bhBytes h)"
    and "bhMagic h = SHOT_CURVE_MAGIC" "bhSchema h = SHOT_CURVE_SCHEMA_VERSION" "bhEpoch h = epoch" "bhSequence h = sequence + 1"
    "bhFloor h = floor0" "bhShotId h = cvShotId r" "bhCount h = cvCount r" "bhFlags h = (if cvTruncated r then 2 else 0)"
    "bhValidity h = kCommitted" "bhChecksum h = blockChecksum block"
proof -
  let ?n = "align4 (SHOT_CURVE_BLOCK_HEADER_BYTES + length (blockBody r))"
  let ?h = "\<lparr> bhMagic = SHOT_CURVE_MAGIC, bhSchema = SHOT_CURVE_SCHEMA_VERSION, bhBytes = word_of_nat ?n,
      bhEpoch = epoch, bhSequence = sequence + 1, bhFloor = floor0, bhShotId = cvShotId r, bhCount = cvCount r,
      bhFlags = (if cvTruncated r then 2 else 0), bhChecksum = 0, bhValidity = kCommitted \<rparr>"
  let ?c = "blockChecksum (headerBytes ?h @ paddedBody r)"
  have b: "block = headerBytes (?h\<lparr> bhChecksum := ?c \<rparr>) @ paddedBody r"
    by (simp add: block_def encodeBlock_def paddedBody_def Let_def)
  then have h: "h = ?h\<lparr> bhChecksum := ?c \<rparr>" using header_reads by (simp add: h_def blockHeader_def block_def)
  show "block = headerBytes h @ paddedBody r" using b h by simp
  have n: "?n < 2 ^ 16" using block_size [OF assms(1)]
    by (simp add: kDiskCapacity_def align4_def SHOT_CURVE_BLOCK_HEADER_BYTES_def SHOT_CURVE_STREAM_BYTES_def
        SHOT_CURVE_BREAK_BYTES_def SHOT_CURVE_MAX_POINTS_def SHOT_CURVE_MAX_TIME_MS_def)
  show u: "unat (bhBytes h) = ?n" using n h by (simp add: unat_of_nat)
  show "length block = unat (bhBytes h)"
    unfolding u using b align4_ge(1) [of "SHOT_CURVE_BLOCK_HEADER_BYTES + length (blockBody r)"]
    by (simp add: paddedBody_def SHOT_CURVE_BLOCK_HEADER_BYTES_def)
  show "bhMagic h = SHOT_CURVE_MAGIC" "bhSchema h = SHOT_CURVE_SCHEMA_VERSION" "bhEpoch h = epoch" "bhSequence h = sequence + 1"
    "bhFloor h = floor0" "bhShotId h = cvShotId r" "bhCount h = cvCount r" "bhFlags h = (if cvTruncated r then 2 else 0)"
    "bhValidity h = kCommitted" using h by simp_all
  have "take 28 (headerBytes (?h\<lparr> bhChecksum := ?c \<rparr>)) = take 28 (headerBytes ?h)"
    by (simp add: headerBytes_def headerPrefix_def)
  then show "bhChecksum h = blockChecksum block"
    unfolding b h blockChecksum_def by (simp add: SHOT_CURVE_BLOCK_HEADER_BYTES_def)
qed

text \<open>The parts of the body.\<close>

lemma body_parts:
  fixes r :: "'a ShotCurveRecord_scheme"
  defines "n \<equiv> unat (cvCount r)" and "b \<equiv> unat (cvBytes r)" and "bits \<equiv> (unat (cvCount r) + 7) div 8"
  shows "take b (drop 18 (paddedBody r)) = map (cvStream r) [0..<b]"
    and "take bits (drop (18 + b) (paddedBody r)) = bitMapBytes n (cvBreakBefore r)"
    and "take bits (drop (18 + b + bits) (paddedBody r)) = bitMapBytes n (cvHeld r)"
    and "\<forall>c \<in> set (drop (18 + b + 2 * bits) (paddedBody r)). c = 0"
    and "b \<le> length (drop 18 (paddedBody r))"
proof -
  have e: "length (eventBytes e) = 4" for e by (simp add: eventBytes_def)
  let ?pad = "replicate (align4 (SHOT_CURVE_BLOCK_HEADER_BYTES + length (blockBody r)) -
     SHOT_CURVE_BLOCK_HEADER_BYTES - length (blockBody r)) (0 :: u8)"
  define front where "front = le16 (cvAtmClearedMs r) @ eventBytes (cvFirstDrop r) @ eventBytes (cvExtended r) @
    eventBytes (cvAtm r) @ eventBytes (cvEnded r)"
  have p: "paddedBody r = front @ map (cvStream r) [0..<b] @ bitMapBytes n (cvBreakBefore r) @ bitMapBytes n (cvHeld r) @ ?pad"
    by (simp add: paddedBody_def blockBody_def front_def n_def b_def)
  have f: "length front = 18" by (simp add: front_def e)
  show "take b (drop 18 (paddedBody r)) = map (cvStream r) [0..<b]"
    "take bits (drop (18 + b) (paddedBody r)) = bitMapBytes n (cvBreakBefore r)"
    "take bits (drop (18 + b + bits) (paddedBody r)) = bitMapBytes n (cvHeld r)"
    "\<forall>c \<in> set (drop (18 + b + 2 * bits) (paddedBody r)). c = 0" "b \<le> length (drop 18 (paddedBody r))"
    unfolding p by (simp_all add: f bits_def n_def)
qed

text \<open>A record on another array with the same bytes is as valid and reads the same.\<close>

lemma same_curve:
  assumes "validShotCurveRecord r" and "\<forall>i < unat (cvBytes r). f i = cvStream r i"
    and "cvStream r' = f" and "cvBytes r' = cvBytes r" and "cvCount r' = cvCount r" and "cvShotId r' = cvShotId r"
    and "cvLastAtMs r' = rdAtMs x" and "cvLastWeightCg r' = rdWeightCg x"
    and "validFrom (unat (cvCount r)) True (curveReader r) = Some x"
    and "\<forall>i < unat (cvCount r). shotCurveBreakBefore r' i = shotCurveBreakBefore r i \<and> shotCurveHeld r' i = shotCurveHeld r i"
  shows "validShotCurveRecord r'" and "readCurve r' = readCurve r"
proof -
  let ?n = "unat (cvCount r)" and ?m = "min (unat (cvBytes r)) SHOT_CURVE_STREAM_BYTES"
  have x: "rdOffset x = unat (cvBytes r)" using assms(1,9) by (simp add: validShotCurveRecord_def)
  have m: "unat (cvBytes r) \<le> ?m" using assms(1) by (simp add: validShotCurveRecord_def)
  have c: "curveReader r' = onArray f ?m (curveReader r)" using assms(3,4) by (simp add: curveReader_def onArray_def)
  have a: "agrees f (curveReader r) y" if "rdOffset y \<le> rdOffset x" for y
    using assms(2) x \<open>rdOffset y \<le> rdOffset x\<close> by (auto simp: agrees_def curveReader_def)
  have "validFrom ?n True (curveReader r') = Some (onArray f ?m x)"
    unfolding c by (rule valid_local [OF assms(9) a]) (use x m in simp_all)
  then show "validShotCurveRecord r'"
    using assms(1,4-8) x by (simp add: validShotCurveRecord_def onArray_def)
  have "rdAtMs (snd (shotCurveSeek r' (i + 1))) = rdAtMs (snd (shotCurveSeek r (i + 1))) \<and>
      rdWeightCg (snd (shotCurveSeek r' (i + 1))) = rdWeightCg (snd (shotCurveSeek r (i + 1)))" if "i < ?n" for i
  proof -
    have "seekFrom (i + 1 + (?n - (i + 1))) (curveReader r) = (True, x)" using valid_seeks [OF assms(9)] \<open>i < ?n\<close> by simp
    then obtain y where y: "seekFrom (i + 1) (curveReader r) = (True, y)" "seekFrom (?n - (i + 1)) y = (True, x)"
      using seek_prefix by blast
    have le: "rdOffset y \<le> rdOffset x" using seek_onwards [OF y(2)] by simp
    have "seekFrom (i + 1) (curveReader r') = (True, onArray f ?m y)"
      unfolding c by (rule seek_local [OF y(1) a [OF le]]) (use le x m in simp)
    then show ?thesis using y(1) by (simp add: shotCurveSeek_def onArray_def)
  qed
  then show "readCurve r' = readCurve r" using assms(5,10) by (simp add: readCurve_def Let_def)
qed

lemma decode_encoded:
  assumes "validShotCurveRecord r"
  shows "\<exists>r'. decodeBlock (encodeBlock epoch sequence floor0 r) r0 = Some r' \<and> validShotCurveRecord r' \<and>
    readCurve r' = readCurve r \<and> cvShotId r' = cvShotId r \<and> cvTruncated r' = cvTruncated r \<and>
    cvAtmClearedMs r' = cvAtmClearedMs r \<and> cvFirstDrop r' = cvFirstDrop r \<and> cvExtended r' = cvExtended r \<and>
    cvAtm r' = cvAtm r \<and> cvEnded r' = cvEnded r"
proof -
  define h where "h = blockHeader epoch sequence floor0 r"
  note E = encode_layout [OF assms, of epoch sequence floor0, folded h_def]
  define n where "n = unat (cvCount r)"
  define b where "b = unat (cvBytes r)"
  define bits where "bits = (n + 7) div 8"
  define body where "body = paddedBody r"
  note P = body_parts [of r, folded n_def b_def, folded bits_def body_def]
  obtain x where x: "validFrom n True (curveReader r) = Some x" "rdOffset x = b"
    using assms by (auto simp: validShotCurveRecord_def n_def b_def split: option.splits)
  have lim: "b \<le> SHOT_CURVE_STREAM_BYTES" using assms by (simp add: validShotCurveRecord_def b_def)
  have hb: "unat (bhBytes h) = align4 (SHOT_CURVE_BLOCK_HEADER_BYTES + 18 + b + 2 * bits)"
    using E(2) by (simp add: blockBody_length b_def n_def bits_def add.assoc)
  define used where "used = min (unat (bhBytes h) - (SHOT_CURVE_BLOCK_HEADER_BYTES + 18) - 2 * bits) SHOT_CURVE_STREAM_BYTES"
  have used: "b \<le> used" "used \<le> SHOT_CURVE_STREAM_BYTES"
    using align4_ge(1) [of "SHOT_CURVE_BLOCK_HEADER_BYTES + 18 + b + 2 * bits"] lim hb by (simp_all add: used_def)
  define f where "f = writeBytes 0 (take used (drop 18 body)) (cvStream (resetShotCurveRecord r0))"
  have f: "\<forall>i < b. f i = cvStream r i"
  proof (intro allI impI)
    fix i
    assume i: "i < b"
    have "drop 18 body ! i = take b (drop 18 body) ! i" using i by simp
    then show "f i = cvStream r i" using i used(1) P(1,5) by (simp add: f_def writeBytes_def)
  qed
  let ?r2 = "(resetShotCurveRecord r0)\<lparr> cvShotId := bhShotId h, cvCount := bhCount h, cvTruncated := (bhFlags h AND 2 \<noteq> 0),
      cvAtmClearedMs := getLe16 body 0, cvFirstDrop := curveEventOf body 2, cvExtended := curveEventOf body 6,
      cvAtm := curveEventOf body 10, cvEnded := curveEventOf body 14, cvBytes := word_of_nat used, cvStream := f \<rparr>"
  define r3 where "r3 = ?r2\<lparr> cvBytes := word_of_nat b, cvLastAtMs := rdAtMs x, cvLastWeightCg := rdWeightCg x,
      cvBreakBefore := maskTail n (writeBytes 0 (bitMapBytes n (cvBreakBefore r)) (cvBreakBefore r0)),
      cvHeld := maskTail n (writeBytes 0 (bitMapBytes n (cvHeld r)) (cvHeld r0)) \<rparr>"
  have "curveReader ?r2 = onArray f used (curveReader r)"
    using used fits_u16 [OF used(2)] by (simp add: curveReader_def onArray_def)
  moreover have "agrees f (curveReader r) x" using f x(2) by (simp add: agrees_def curveReader_def)
  ultimately have walk: "shotCurveSeek ?r2 n = (True, onArray f used x)"
    using seek_local [OF valid_seeks [OF x(1)], of f used] x(2) used(1) by (simp add: shotCurveSeek_def)
  have bb: "word_of_nat b = cvBytes r" by (simp add: b_def)
  have bitsame: "\<forall>i < n. shotCurveBreakBefore r3 i = shotCurveBreakBefore r i \<and> shotCurveHeld r3 i = shotCurveHeld r i"
    using map_written E(10) by (simp add: r3_def shotCurveBreakBefore_def shotCurveHeld_def n_def)
  have fields: "cvStream r3 = f" "cvBytes r3 = cvBytes r" "cvCount r3 = cvCount r" "cvShotId r3 = cvShotId r"
    "cvLastAtMs r3 = rdAtMs x" "cvLastWeightCg r3 = rdWeightCg x"
    using E(9,10) bb by (simp_all add: r3_def)
  note v = same_curve [OF assms f [unfolded b_def] fields x(1) [unfolded n_def] bitsame [unfolded n_def]]
  have head: "getLe16 body 0 = cvAtmClearedMs r" "curveEventOf body 2 = cvFirstDrop r" "curveEventOf body 6 = cvExtended r"
    "curveEventOf body 10 = cvAtm r" "curveEventOf body 14 = cvEnded r"
    by (simp_all add: body_def paddedBody_def blockBody_def events_read)
  have d: "drop SHOT_CURVE_BLOCK_HEADER_BYTES (encodeBlock epoch sequence floor0 r) = body"
    "headerOf (encodeBlock epoch sequence floor0 r) = h"
    using E(1) header_reads by (simp_all add: body_def SHOT_CURVE_BLOCK_HEADER_BYTES_def)
  have frame: "cvBreakBefore (resetShotCurveRecord r0) = cvBreakBefore r0" "cvHeld (resetShotCurveRecord r0) = cvHeld r0"
    by (simp_all add: resetShotCurveRecord_def)
  have room: "\<not> unat (bhBytes h) < SHOT_CURVE_BLOCK_HEADER_BYTES + 18 + 2 * bits"
    using hb align4_ge(1) [of "SHOT_CURVE_BLOCK_HEADER_BYTES + 18 + b + 2 * bits"] by simp
  have reach: "rdOffset (onArray f used x) = b" "rdAtMs (onArray f used x) = rdAtMs x" "rdWeightCg (onArray f used x) = rdWeightCg x"
    using x(2) by (simp_all add: onArray_def)
  have al: "align4 (SHOT_CURVE_BLOCK_HEADER_BYTES + 18 + b + 2 * bits) = unat (bhBytes h)" using hb by simp
  have hn: "unat (bhCount h) = n" using E(10) by (simp add: n_def)
  have "decodeBlock (encodeBlock epoch sequence floor0 r) r0 = Some r3"
    unfolding decodeBlock_def Let_def d hn bits_def [symmetric] used_def [symmetric]
    using v(1) walk room al P(2,3,4) by (simp add: r3_def reach frame flip: f_def)
  moreover have "bhFlags h AND 2 \<noteq> 0 \<longleftrightarrow> cvTruncated r" using E(11) by simp
  ultimately show ?thesis using v head E(9) by (intro exI [of _ r3]) (simp add: r3_def)
qed

text \<open>
  Property C22. A curve survives flash. For every valid record and every epoch, sequence
  number and retention floor the log gives it, the block that is written passes every test
  that loading makes, header, length and checksum, carries these numbers, and decodes to a
  valid record with the same samples, breaks, holds, events and truncation mark.
\<close>

theorem curve_block_roundtrip:
  fixes r r0 :: ShotCurveRecord
  assumes "validShotCurveRecord r" and "sequence < 0xFFFFFFFF" and "floor0 \<le> sequence + 1"
  shows "let block = encodeBlock epoch sequence floor0 r; h = headerOf block in
    validHeader h \<and> unat (bhBytes h) = length block \<and> bhChecksum h = blockChecksum block \<and>
    (bhEpoch h, bhSequence h, bhFloor h, bhShotId h, bhValidity h) = (epoch, sequence + 1, floor0, cvShotId r, kCommitted) \<and>
    (\<exists>r'. decodeBlock block r0 = Some r' \<and> validShotCurveRecord r' \<and>
      readCurve r' = readCurve r \<and> cvShotId r' = cvShotId r \<and> cvTruncated r' = cvTruncated r \<and>
      cvAtmClearedMs r' = cvAtmClearedMs r \<and> cvFirstDrop r' = cvFirstDrop r \<and> cvExtended r' = cvExtended r \<and>
      cvAtm r' = cvAtm r \<and> cvEnded r' = cvEnded r)"
proof -
  let ?h = "blockHeader epoch sequence floor0 r"
  note E = encode_layout [OF assms(1), of epoch sequence floor0]
  have s: "sequence + 1 \<noteq> 0"
  proof
    assume "sequence + 1 = 0"
    then have "sequence = - 1" by (simp add: eq_neg_iff_add_eq_0)
    then show False using assms(2) by simp
  qed
  have n: "unat (bhBytes ?h) \<ge> SHOT_CURVE_BLOCK_HEADER_BYTES + 18" "unat (bhBytes ?h) \<le> kDiskCapacity" "unat (bhBytes ?h) mod 4 = 0"
    unfolding E(2) using block_size [OF assms(1)] align4_ge [of "SHOT_CURVE_BLOCK_HEADER_BYTES + length (blockBody r)"]
    by (simp_all add: blockBody_length)
  have "validHeader ?h"
    using n s assms(1,3) E(4-12) by (simp add: validHeader_def validShotCurveRecord_def)
  then show ?thesis
    unfolding Let_def using E(3,6-9,12,13) decode_encoded [OF assms(1), of epoch sequence floor0 r0]
    by (simp add: blockHeader_def)
qed

text \<open>A short curve with a step, two absolute values, a break and a held sample.\<close>

definition blankCurve :: ShotCurveRecord where
  "blankCurve = \<lparr> cvShotId = 0, cvCount = 0, cvTruncated = False, cvAtmClearedMs = 0, cvFirstDrop = missingShotCurveEvent,
     cvExtended = missingShotCurveEvent, cvAtm = missingShotCurveEvent, cvEnded = missingShotCurveEvent, cvBytes = 0,
     cvLastAtMs = 0, cvLastWeightCg = 0, cvStream = (\<lambda>_. 0), cvBreakBefore = (\<lambda>_. 0), cvHeld = (\<lambda>_. 0) \<rparr>"

definition exampleStream :: bytes where "exampleStream = [20, 10, 100, 2, 0xFF, 132, 3, 0x80, 94, 1]"

definition exampleCurve :: ShotCurveRecord where
  "exampleCurve = blankCurve\<lparr> cvShotId := 7, cvCount := 3, cvBytes := 10, cvLastAtMs := 900, cvLastWeightCg := 350,
     cvStream := (\<lambda>i. if i < 10 then exampleStream ! i else 0), cvBreakBefore := (\<lambda>_. 4), cvHeld := (\<lambda>_. 4) \<rparr>"

lemma exampleStream_points: "streamOf (0, 0) [(20, 10), (120, 12), (900, 350)] = exampleStream"
  by (simp add: exampleStream_def pointBytes_def timeBytes_def weightBytes_def)

lemma exampleCurve_holds:
  "holdsPoints exampleCurve [(20, 10, False, False), (120, 12, False, False), (900, 350, True, True)]"
proof -
  have "length exampleStream = 10" by (simp add: exampleStream_def)
  then show ?thesis
    by (simp add: holdsPoints_def exampleCurve_def blankCurve_def stamp_def exampleStream_points bitsOf_def less_Suc_eq
        SHOT_CURVE_MAX_POINTS_def SHOT_CURVE_MAX_TIME_MS_def shotLogWeightIsMissing_def SHOT_LOG_WEIGHT_MISSING_def del: streamOf.simps)
qed

lemma exampleCurve_valid: "validShotCurveRecord exampleCurve"
  by (rule holds_valid [OF exampleCurve_holds]) (simp add: exampleCurve_def)

lemmas exampleCurve_reads = holds_read [OF exampleCurve_holds]

theorem curve_block_roundtrip_witness:
  "validHeader (headerOf (encodeBlock 1 4 2 exampleCurve)) \<and>
   (\<exists>r. decodeBlock (encodeBlock 1 4 2 exampleCurve) blankCurve = Some r \<and>
     readCurve r = [(20, 10, False, False), (120, 12, False, False), (900, 350, True, True)])"
  using curve_block_roundtrip [OF exampleCurve_valid, of 4 2 1 blankCurve] exampleCurve_reads by (auto simp: Let_def)

end
