(* ===== verification/Spec2Isabelle.thy ===== *)
theory Spec2Isabelle
  imports Relay_System History_Store Paddle_Facts Ota_Tag_Facts Audit_Flow Recovery_Gesture Momentary_Facts Rate_Facts Grind_Facts Predictor_Facts Web_Facts Web_Session_Facts Web_Shape_Facts Cycle_Props Guard_Facts Backflush_Facts Shot_Curve_Block
begin

text \<open>
  Open Brew by Weight: a verification library for the core of the firmware.

  The firmware sits between the switch of an espresso machine and its brew circuit. One relay,
  K1, closes that circuit; a Bluetooth scale supplies weights; the control task decides when a
  shot starts, which kind of cycle it is, and when K1 opens. Around this core stand persistent
  logs in flash, the firmware update, an optional web login and the recovery gesture. All source
  paths below are relative to the repository and, unless they say otherwise, to \<open>src/\<close> with the
  file name prefix \<open>OpenBrewByWeight\<close> left out.

  How the parts interact. The control task samples the machine (\<open>MachinePaddle*.h\<close> or
  \<open>MachineMomentary*.h\<close>, one of them compiled in), which reduces the activator to an intention and
  drives K1 through \<open>MachineRelay.h\<close>; runs the state machine of the cycle
  (\<open>control/ControlStateMachine.inc\<close>), which consults the start guards, starts and ends
  sessions, and asks the machine for starts and stops; and feeds every weight to the weight stop
  (\<open>control/CycleRuntime.inc\<close>), which uses the cut line and flow estimator of \<open>Corridor.h\<close>. Below
  the relay driver are the hardware deadline timer (\<open>HardwareTimer.h\<close>), whose interrupt opens K1
  whatever the tasks do, and the RTC record of \<open>ResetGuard.h\<close>, by which a boot learns that it was
  reset while the circuit was commanded closed. Ended cycles go to logs kept in dual-slot flash
  stores; events go to two RAM rings and, when they are audit-worthy, to a flash ring.

  Theories and what they model.

  \<^descr> Shared: \<open>Obw_Prelude\<close> (word types, the wrapping millisecond clock, byte lists),
  \<open>Array_Ring\<close> (the locale \<open>bounded_log\<close> of circular buffers, interpreted by the audit latch,
  the debug ring and the rings of the dual-slot stores).

  \<^descr> K1: \<open>Safety_Timer\<close> (\<open>HardwareTimer.h\<close>), \<open>Reset_Guard\<close> (\<open>ResetGuard.h\<close>,
  \<open>ResetHistory.h\<close>), \<open>Relay_Types\<close> and \<open>Machine_Relay\<close> (\<open>MachineRelay.h\<close>: state \<open>relay\<close> holds the
  relay globals of \<open>openBrewByWeight.cpp\<close>), \<open>Relay_Facts\<close> (its operations one after another) and
  \<open>Relay_System\<close> (its transactions cut into sections and interleaved with interrupt, timer task,
  inputs and time, in both firmware profiles).

  \<^descr> The machine: \<open>Paddle_Machine\<close>, \<open>Paddle_Facts\<close> (machine type 0);
  \<open>Momentary_Machine\<close>, \<open>Momentary_Control\<close>, \<open>Momentary_Facts\<close> (machine type 2, a momentary switch
  with a reed sensor); \<open>Backflush_Handoff\<close>, \<open>Backflush_Facts\<close>
  (\<open>machine/MachineBackflush.h\<close>).

  \<^descr> The weight stop: \<open>Corridor_Line\<close>, \<open>Corridor_Cut\<close>, \<open>Rate_Estimator\<close>, \<open>Rate_Facts\<close>
  (the cut line, crossing solver and flow estimator of \<open>Corridor.h\<close>); \<open>Shot_Session\<close>,
  \<open>Touch_Classifier\<close>, \<open>Brew_Stop\<close> (sample handler, direct and timed stop, touches, protection,
  scale-loss backup, the brew pass), \<open>Brew_Facts\<close> (a cut has evidence) and \<open>Brew_Liveness\<close> (shots
  do end).

  \<^descr> The cycle: \<open>Start_Guards\<close>, \<open>Guard_Facts\<close> (\<open>Brew.h\<close>); \<open>Cycle_Machine\<close>
  (\<open>control/ControlStateMachine.inc\<close>, \<open>Rinse.h\<close>, \<open>control/WakeGesture.inc\<close>, the web commands of
  \<open>control/Commands.inc\<close> and the maintenance lease), \<open>Cycle_Facts\<close> (the invariant), \<open>Cycle_Trace\<close>
  (what it asks of the machine), \<open>Cycle_Examples\<close> and \<open>Cycle_Props\<close>.

  \<^descr> Advice: \<open>Arrival_Stats\<close>, \<open>Grind_Hint\<close>, \<open>Grind_Facts\<close> (the replay of the shot log in
  \<open>Corridor.h\<close>); \<open>Shot_Predictor\<close>, \<open>Predictor_Facts\<close> (\<open>ShotPredictor.h\<close>, display only).

  \<^descr> Logs: \<open>Flash_Store\<close> (\<open>FlashIoScratch.h\<close>), \<open>Record_Ring\<close> and \<open>Dual_Slot_Log\<close>
  (\<open>DualSlotFlashLog.h\<close>, \<open>NvsDualSlot.h\<close>; the template hooks are the locale \<open>dual_slot_hooks\<close>),
  \<open>History_Store\<close> (its instance for \<open>HistoryTypes.h\<close> and \<open>History.h\<close>); \<open>Event_Log\<close>, \<open>Audit_Log\<close>,
  \<open>Audit_Store\<close>, \<open>Audit_Facts\<close>, \<open>Audit_Flow\<close> (\<open>Domain.h\<close>, \<open>AuditLog.h\<close>, \<open>AuditStore.h\<close> and
  \<open>.cpp\<close>, the flush of \<open>persistence/CommandPersistence.inc\<close>); \<open>Shot_Curve\<close>, \<open>Shot_Curve_Facts\<close>,
  \<open>Shot_Curve_Block\<close> (the delta stream of a shot's curve and its flash block).

  \<^descr> Access and update: \<open>Web_Access\<close>, \<open>Web_Facts\<close>, \<open>Web_Session_Facts\<close>,
  \<open>Web_Shape_Facts\<close> (\<open>WebAccess.h\<close>); \<open>Ota_Image\<close>, \<open>Ota_Facts\<close>, \<open>Ota_Tag_Facts\<close>
  (\<open>OtaImage.h\<close>); \<open>Recovery_Gesture\<close> (\<open>RecoveryGesture.h\<close>).

  How code is rendered. A struct, or the globals one file owns, is a record; an enumeration a
  datatype; a function a definition from state to result and state. Unsigned integers are words
  of their width and wrap; signed integers are unbounded with truncating division, and
  conversions to \<open>int32_t\<close> are written out (\<open>toI32\<close>); 64-bit products are not wrapped. Floats in
  the weight stop are rationals, with the rounding of each operation a parameter of the
  environment. Character arrays are byte lists. Answers of drivers, of the network and of the
  hardware are arguments, so every theorem holds for every failure. Calls out of a component
  (requests to the machine, log events, alerts, records) are appended to an output list, in
  order. Loops are structural recursion or have termination proofs.

  Bounds and fuel. The interrupt of the hardware timer is served at most \<open>L\<close> microseconds after
  it is due, \<open>L\<close> up to 1000 s; the control task is not starved for the 49 days that would
  wrap a millisecond difference inside one transaction. \<open>feedByteF\<close> has six levels of nested
  replay, which \<open>feedByte_total\<close> shows to be enough; the scanner's failure loop has the match
  length as fuel, which each turn shortens; \<open>durablePages\<close> has one turn more than the 1024 slots;
  the crossing solver needs at most the sixteen halvings of its array bound; a staged save of the
  history ends in 21 steps. The staged transaction is interrupted at the end of the list of
  driver answers; flash is a byte array where erase sets and programming clears bits.

  What the lemmas show. \<open>K1\<close>: the pad is driven for a bounded time under every interleaving,
  only for a recorded close, and LOCKOUT and refused closes leave it open. The machine: sampling
  never closes a paddle's circuit, the user is heard, momentary pulses are bounded. The weight
  stop: cuts have evidence, shots over the line and shots that lose the scale end. The cycle:
  state, session and requests agree over every run without the unsafe override; limits end
  cycles; nothing starts from REQUIRES_OFF or without a required scale. Logs: appends refine
  lists bounded by the capacity, interrupted saves keep the old store, codecs round-trip, a boot
  recovers the window. Access and update: password guesses are bounded, tokens are handed out
  once and revoked, the tag scanner stays inside its arrays and finds the tag. The properties
  proper are the numbered theorems; their witnesses evaluate them on concrete inputs.

  Assumptions worth knowing. The unsafe override of the web interface is outside the agreement
  invariant of the cycle, and \<open>override_lease_strands_session\<close> shows why. Compatibility mode is
  fixed at boot; its unlimited mirroring close is the stated exception to the time bound of K1.
  The audit properties assume successful appends; torn slots are outside.

  Not modelled: the machine type that infers its run state from weights alone and the cup
  detector (state machines over 32-bit floats), the learning after a shot, idle tare, settings
  and presets, the scale worker and protocols, the cloud integration, the network service, OTA
  transfer, diagnostics, buzzer, clock and platform start-up, and the ring and partition of the
  curve blocks. Where the model needs their results they are arguments.
\<close>

end
